(* ===== verification/Dz_Prelude.thy ===== *)
theory Dz_Prelude
  imports Complex_Main "HOL-Library.AList" "HOL-Library.Multiset"
begin

text \<open>
  Shared vocabulary of the development: the fixed-width views of integers the code casts
  through, the interface to floating point, list and association-list lemmas, and the one
  locale that states how an invariant is carried along a run of a component.

  \<^item> Integers. The C++ sources use \<open>int32_t\<close>, \<open>int64_t\<close>, \<open>uint32_t\<close> and \<open>uint64_t\<close>. Here they
    are \<open>int\<close> or \<open>nat\<close>, and wherever the source casts or may wrap the reduction is written out
    with the functions below (signed overflow is undefined in C++, so it is never relied on).
  \<^item> Floating point. \<open>double\<close> is a type parameter; what the code does with it goes through a
    record of operations. Every theorem therefore holds for any arithmetic, IEEE 754 included;
    witnesses instantiate it with the rationals.
\<close>

named_theorems dz_defs \<open>definitions unfolded by the proofs of a component\<close>

section \<open>Fixed-width integers\<close>

definition u32 :: "nat \<Rightarrow> nat" where
  "u32 n = n mod 4294967296"

definition u64 :: "nat \<Rightarrow> nat" where
  "u64 n = n mod 18446744073709551616"

text \<open>Unsigned 64-bit subtraction of two values below \<open>2 ^ 64\<close>: it wraps.\<close>

definition sub64 :: "nat \<Rightarrow> nat \<Rightarrow> nat" where
  "sub64 a b = (a + (18446744073709551616 - b)) mod 18446744073709551616"

text \<open>\<open>static_cast<int32_t>\<close> of a wider signed value.\<close>

definition i32 :: "int \<Rightarrow> int" where
  "i32 x = (x + 2147483648) mod 4294967296 - 2147483648"

lemma u32_id [simp]: "n < 4294967296 \<Longrightarrow> u32 n = n"
  by (simp add: u32_def)

lemma u64_id [simp]: "n < 18446744073709551616 \<Longrightarrow> u64 n = n"
  by (simp add: u64_def)

lemma u32_less [simp]: "u32 n < 4294967296"
  by (simp add: u32_def)

lemma u64_less [simp]: "u64 n < 18446744073709551616"
  by (simp add: u64_def)

lemma sub64_eq [simp]: "b \<le> a \<Longrightarrow> a < 18446744073709551616 \<Longrightarrow> sub64 a b = a - b"
  by (simp add: sub64_def mod_if)

lemma i32_id [simp]: "- 2147483648 \<le> x \<Longrightarrow> x < 2147483648 \<Longrightarrow> i32 x = x"
  by (simp add: i32_def)

text \<open>C++ integer division and remainder truncate towards zero.\<close>

definition cdiv :: "int \<Rightarrow> int \<Rightarrow> int" where
  "cdiv a b = sgn a * sgn b * (\<bar>a\<bar> div \<bar>b\<bar>)"

definition cmod :: "int \<Rightarrow> int \<Rightarrow> int" where
  "cmod a b = a - cdiv a b * b"

lemma cdiv_nonneg: "0 \<le> a \<Longrightarrow> 0 < b \<Longrightarrow> cdiv a b = a div b"
  by (cases "a = 0") (auto simp: cdiv_def)

lemma cmod_nonneg: "0 \<le> a \<Longrightarrow> 0 < b \<Longrightarrow> cmod a b = a mod b"
  by (simp add: cmod_def cdiv_nonneg minus_div_mult_eq_mod)

definition clamp :: "int \<Rightarrow> int \<Rightarrow> int \<Rightarrow> int" where
  "clamp v lo hi = (if v < lo then lo else if hi < v then hi else v)"

lemma clamp_bounds: "lo \<le> hi \<Longrightarrow> lo \<le> clamp v lo hi \<and> clamp v lo hi \<le> hi"
  by (simp add: clamp_def)

section \<open>Floating point as an interface\<close>

record 'd fp =
  fp_of_int :: "int \<Rightarrow> 'd"
  fp_add :: "'d \<Rightarrow> 'd \<Rightarrow> 'd"
  fp_sub :: "'d \<Rightarrow> 'd \<Rightarrow> 'd"
  fp_mul :: "'d \<Rightarrow> 'd \<Rightarrow> 'd"
  fp_div :: "'d \<Rightarrow> 'd \<Rightarrow> 'd"
  fp_eq :: "'d \<Rightarrow> 'd \<Rightarrow> bool"
  fp_lt :: "'d \<Rightarrow> 'd \<Rightarrow> bool"
  fp_le :: "'d \<Rightarrow> 'd \<Rightarrow> bool"
  fp_finite :: "'d \<Rightarrow> bool"
  fp_round :: "'d \<Rightarrow> 'd"

abbreviation fp_zero :: "('d, 'm) fp_scheme \<Rightarrow> 'd" where
  "fp_zero F \<equiv> fp_of_int F 0"

definition fp_abs :: "('d, 'm) fp_scheme \<Rightarrow> 'd \<Rightarrow> 'd" where
  "fp_abs F x = (if fp_lt F x (fp_of_int F 0) then fp_sub F (fp_of_int F 0) x else x)"

definition fp_max :: "('d, 'm) fp_scheme \<Rightarrow> 'd \<Rightarrow> 'd \<Rightarrow> 'd" where
  "fp_max F x y = (if fp_lt F x y then y else x)"

definition fp_min :: "('d, 'm) fp_scheme \<Rightarrow> 'd \<Rightarrow> 'd \<Rightarrow> 'd" where
  "fp_min F x y = (if fp_lt F y x then y else x)"

text \<open>The instance the witnesses use; \<open>std::round\<close> rounds halves away from zero.\<close>

definition rat_fp :: "rat fp" where
  "rat_fp = \<lparr>fp_of_int = of_int, fp_add = (+), fp_sub = (-), fp_mul = (*), fp_div = (/),
     fp_eq = (=), fp_lt = (<), fp_le = (\<le>), fp_finite = (\<lambda>_. True),
     fp_round = (\<lambda>x. of_int (if x < 0 then - \<lfloor>- x + 1 / 2\<rfloor> else \<lfloor>x + 1 / 2\<rfloor>))\<rparr>"

lemma rat_fp_simps [simp]:
  "fp_of_int rat_fp = of_int" "fp_add rat_fp = (+)" "fp_sub rat_fp = (-)"
  "fp_mul rat_fp = (*)" "fp_div rat_fp = (/)" "fp_eq rat_fp = (=)" "fp_lt rat_fp = (<)"
  "fp_le rat_fp = (\<le>)" "fp_finite rat_fp = (\<lambda>_. True)"
  by (simp_all add: rat_fp_def)

section \<open>Association lists as hash maps\<close>

text \<open>
  A \<open>std::unordered_map\<close> or \<open>std::map\<close> whose iteration the code relies on is an association
  list with distinct keys; \<open>AList.update\<close> and \<open>AList.delete\<close> keep them distinct.
\<close>

definition keys :: "('k \<times> 'v) list \<Rightarrow> 'k list" where
  "keys m = map fst m"

lemma keys_simps [simp]: "keys [] = []" "keys ((k, v) # m) = k # keys m"
  by (simp_all add: keys_def)

lemma distinct_keys_update [simp]: "distinct (keys m) \<Longrightarrow> distinct (keys (AList.update k v m))"
  by (simp add: keys_def distinct_update)

lemma distinct_keys_delete [simp]: "distinct (keys m) \<Longrightarrow> distinct (keys (AList.delete k m))"
  by (simp add: keys_def distinct_delete)

lemma set_keys [simp]: "set (keys m) = dom (map_of m)"
  by (simp add: keys_def dom_map_of_conv_image_fst)

lemma map_of_update [simp]: "map_of (AList.update k v m) = (map_of m)(k \<mapsto> v)"
  by (simp add: update_conv')

lemma map_of_adelete [simp]: "map_of (AList.delete k m) = (map_of m)(k := None)"
  by (simp add: delete_conv')

text \<open>
  A sum over an association list depends on the map only, not on the iteration order.
\<close>

lemma sum_list_alist:
  assumes "distinct (keys m)"
  shows "(\<Sum>(k, v) \<leftarrow> m. f v) = (\<Sum>k \<in> dom (map_of m). f (the (map_of m k)) :: int)"
  using assms
proof (induction m)
  case Nil
  then show ?case by simp
next
  case (Cons kv m)
  obtain k v where kv: "kv = (k, v)" by (cases kv)
  have k: "k \<notin> dom (map_of m)" using Cons.prems kv by (metis distinct.simps(2) keys_simps(2) set_keys)
  define M where "M = (map_of m)(k \<mapsto> v)"
  have M: "map_of (kv # m) = M" by (simp add: M_def kv)
  have "dom M = insert k (dom (map_of m))" by (auto simp: M_def)
  then have "(\<Sum>x \<in> dom M. f (the (M x))) = f (the (M k)) + (\<Sum>x \<in> dom (map_of m). f (the (M x)))"
    using k by (simp add: finite_dom_map_of)
  also have "(\<Sum>x \<in> dom (map_of m). f (the (M x))) = (\<Sum>x \<in> dom (map_of m). f (the (map_of m x)))"
    using k by (intro sum.cong) (auto simp: M_def)
  also have "f (the (M k)) = f v" by (simp add: M_def)
  finally show ?case
    using Cons kv unfolding M by simp
qed

section \<open>Ordered maps\<close>

text \<open>
  A \<open>std::map\<close> that the code iterates is a list of bindings in increasing key order.
\<close>

fun omap_put :: "'k::linorder \<Rightarrow> 'v \<Rightarrow> ('k \<times> 'v) list \<Rightarrow> ('k \<times> 'v) list" where
  "omap_put k v [] = [(k, v)]"
| "omap_put k v ((k', v') # m) =
     (if k < k' then (k, v) # (k', v') # m
      else if k = k' then (k, v) # m
      else (k', v') # omap_put k v m)"

definition omap_ok :: "('k::linorder \<times> 'v) list \<Rightarrow> bool" where
  "omap_ok m \<longleftrightarrow> sorted_wrt (<) (keys m)"

lemma map_of_omap_put [simp]: "omap_ok m \<Longrightarrow> map_of (omap_put k v m) = (map_of m)(k \<mapsto> v)"
  by (induction k v m rule: omap_put.induct) (auto simp: omap_ok_def fun_eq_iff)

lemma keys_omap_put: "set (keys (omap_put k v m)) = insert k (set (keys m))"
  by (induction k v m rule: omap_put.induct) (auto simp del: set_keys)

lemma omap_ok_Nil [simp]: "omap_ok []"
  by (simp add: omap_ok_def)

lemma omap_ok_Cons: "omap_ok ((k, v) # m) \<longleftrightarrow> (\<forall>x \<in> set (keys m). k < x) \<and> omap_ok m"
  by (auto simp: omap_ok_def simp del: set_keys)

lemma omap_ok_put [simp]: "omap_ok m \<Longrightarrow> omap_ok (omap_put k v m)"
proof (induction k v m rule: omap_put.induct)
  case (2 k v k' v' m)
  then show ?case
    by (force simp: omap_ok_Cons keys_omap_put simp del: set_keys)
qed (simp add: omap_ok_Cons)

lemma omap_ok_distinct: "omap_ok m \<Longrightarrow> distinct (keys m)"
  by (simp add: omap_ok_def strict_sorted_iff)

lemma keys_filter: "keys (filter P m) = map fst (filter P m)"
  by (simp add: keys_def)

lemma omap_ok_filter [simp]: "omap_ok m \<Longrightarrow> omap_ok (filter P m)"
  by (induction m) (auto simp: omap_ok_Cons keys_def)

lemma omap_ok_delete [simp]: "omap_ok m \<Longrightarrow> omap_ok (AList.delete k m)"
  by (simp add: AList.delete_eq)

lemma keys_map_snd [simp]: "keys (map (\<lambda>(k, v). (k, f k v)) m) = keys m"
  by (induction m) auto

lemma omap_ok_map [simp]: "omap_ok m \<Longrightarrow> omap_ok (map (\<lambda>(k, v). (k, f k v)) m)"
  by (simp add: omap_ok_def)

lemma map_of_map_snd: "map_of (map (\<lambda>(k, v). (k, f k v)) m) k = map_option (f k) (map_of m k)"
  by (induction m) auto

section \<open>Invariants along runs\<close>

text \<open>
  A component driven by a list of events keeps an invariant that its initial state has and
  that every step keeps. The locale is interpreted on the machines of the gateways, the
  subscription table and the position model.
\<close>

locale invariant_run =
  fixes step :: "'s \<Rightarrow> 'e \<Rightarrow> 's"
    and inv :: "'s \<Rightarrow> bool"
  assumes step_inv: "inv s \<Longrightarrow> inv (step s e)"
begin

lemma run_inv: "inv s \<Longrightarrow> inv (foldl step s es)"
  by (induction es arbitrary: s) (auto intro: step_inv)

lemma prefix_inv: "inv s \<Longrightarrow> inv (foldl step s (take n es))"
  by (rule run_inv)

end

text \<open>A reflexive and transitive relation between the states before and after an operation, and loops of operations.\<close>

locale step_order =
  fixes R :: "'s \<Rightarrow> 's \<Rightarrow> bool"
  assumes refl: "R s s" and trans: "R s t \<Longrightarrow> R t u \<Longrightarrow> R s u"
begin

lemma folds: "(\<And>x s. x \<in> set xs \<Longrightarrow> R s (f x s)) \<Longrightarrow> R s (fold f xs s)"
proof (induction xs arbitrary: s)
  case Nil
  then show ?case by (simp add: refl)
next
  case (Cons x xs)
  have "R s (f x s)" by (rule Cons.prems) simp
  moreover have "R (f x s) (fold f xs (f x s))" by (rule Cons.IH) (simp add: Cons.prems)
  ultimately show ?case by (simp add: trans)
qed

end

end
