(* ===== verification/Dz_Structs.thy ===== *)
theory Dz_Structs
  imports Dz_Prelude
begin

text \<open>
  The plain structs that cross component boundaries: order and trade reports and the order
  request of the shared-memory protocol (\<open>strategy_api/.../struct.h\<close>, \<open>core_struct.h\<close>), the
  records the trading gateway persists (\<open>apps/ctp/td/td_persist_records.h\<close>), and the integer
  constants of \<open>data_type.h\<close>. A \<open>double\<close> field has the type parameter \<open>'d\<close>, a fixed \<open>char\<close>
  array is the string up to its terminating zero, and the \<open>int8_t\<close> codes stay integers, so that
  a value outside the named constants takes the branch it takes in the code.
\<close>

section \<open>Codes\<close>

abbreviation (input) DZ_DIRECTION_SHORT :: int where "DZ_DIRECTION_SHORT \<equiv> - 1"
abbreviation (input) DZ_DIRECTION_NET :: int where "DZ_DIRECTION_NET \<equiv> 0"
abbreviation (input) DZ_DIRECTION_LONG :: int where "DZ_DIRECTION_LONG \<equiv> 1"

abbreviation (input) DZ_POSITION_EFFECT_AUTO :: int where "DZ_POSITION_EFFECT_AUTO \<equiv> 0"
abbreviation (input) DZ_POSITION_EFFECT_OPEN :: int where "DZ_POSITION_EFFECT_OPEN \<equiv> 1"
abbreviation (input) DZ_POSITION_EFFECT_CLOSE :: int where "DZ_POSITION_EFFECT_CLOSE \<equiv> 2"
abbreviation (input) DZ_POSITION_EFFECT_CLOSE_TODAY :: int where "DZ_POSITION_EFFECT_CLOSE_TODAY \<equiv> 3"
abbreviation (input) DZ_POSITION_EFFECT_CLOSE_YESTDAY :: int where "DZ_POSITION_EFFECT_CLOSE_YESTDAY \<equiv> 4"

abbreviation (input) DZ_ORDER_SUBMITTING :: int where "DZ_ORDER_SUBMITTING \<equiv> 1"
abbreviation (input) DZ_ORDER_NOT_TRADED :: int where "DZ_ORDER_NOT_TRADED \<equiv> 2"
abbreviation (input) DZ_ORDER_PART_TRADED :: int where "DZ_ORDER_PART_TRADED \<equiv> 3"
abbreviation (input) DZ_ORDER_ALL_TRADED :: int where "DZ_ORDER_ALL_TRADED \<equiv> 4"
abbreviation (input) DZ_ORDER_CANCELLED :: int where "DZ_ORDER_CANCELLED \<equiv> 5"
abbreviation (input) DZ_ORDER_REJECTED :: int where "DZ_ORDER_REJECTED \<equiv> 6"

abbreviation (input) DZ_NOTIFY_INFO :: int where "DZ_NOTIFY_INFO \<equiv> 2"
abbreviation (input) DZ_NOTIFY_WARN :: int where "DZ_NOTIFY_WARN \<equiv> 3"
abbreviation (input) DZ_NOTIFY_ERROR :: int where "DZ_NOTIFY_ERROR \<equiv> 4"

abbreviation (input) DZ_ACCOUNT_OFFLINE :: int where "DZ_ACCOUNT_OFFLINE \<equiv> 0"
abbreviation (input) DZ_ACCOUNT_LOGGING_IN :: int where "DZ_ACCOUNT_LOGGING_IN \<equiv> 1"
abbreviation (input) DZ_ACCOUNT_READY :: int where "DZ_ACCOUNT_READY \<equiv> 2"

section \<open>Reports and requests\<close>

record 'd order_report =
  or_order_id :: int
  or_strategy_id :: string
  or_instrument_id :: string
  or_direction :: int
  or_price_type :: int
  or_position_effect :: int
  or_status :: int
  or_price :: 'd
  or_avg_price :: 'd
  or_volume :: int
  or_volume_traded :: int
  or_date :: int
  or_time :: int
  or_account_id :: string
  or_exchange_id :: string
  or_remark :: string
  or_seq :: nat

record 'd trade_report =
  tr_order_id :: int
  tr_strategy_id :: string
  tr_instrument_id :: string
  tr_price :: 'd
  tr_volume :: int
  tr_direction :: int
  tr_position_effect :: int
  tr_date :: int
  tr_time :: int
  tr_account_id :: string
  tr_exchange_id :: string
  tr_trade_id :: string
  tr_seq :: nat

record 'd order_req =
  rq_order_id :: int
  rq_strategy_id :: string
  rq_account_id :: string
  rq_instrument_id :: string
  rq_remark :: string
  rq_price :: 'd
  rq_volume :: int
  rq_direction :: int
  rq_price_type :: int
  rq_position_effect :: int

record 'd position_info =
  pi_instrument_id :: string
  pi_exchange_id :: string
  pi_account_id :: string
  pi_volume :: int
  pi_frozen_volume :: int
  pi_price :: 'd
  pi_yd_volume :: int
  pi_today_volume :: int
  pi_date :: int
  pi_direction :: int
  pi_seq :: nat

record 'd trading_account =
  ta_account_id :: string
  ta_balance :: 'd
  ta_available :: 'd
  ta_frozen :: 'd
  ta_commission :: 'd
  ta_margin :: 'd
  ta_withdraw_quota :: 'd
  ta_deposit :: 'd
  ta_withdraw :: 'd
  ta_date :: int
  ta_seq :: nat

section \<open>Persisted records\<close>

record 'd order_record =
  orec_base :: "'d order_report"
  orec_trading_day :: string
  orec_order_ref :: string
  orec_external_order_id :: string
  orec_is_external :: int
  orec_volume_canceled :: int
  orec_insert_time :: int
  orec_update_time :: int
  orec_error_id :: int
  orec_error_msg :: string

record 'd trade_record =
  trec_base :: "'d trade_report"
  trec_trading_day :: string

record 'd instrument_record =
  ir_instrument_id :: string
  ir_exchange_id :: string
  ir_symbol :: string
  ir_name :: string
  ir_product_class :: int
  ir_product_code :: string
  ir_settle_cycle :: int
  ir_currency :: string
  ir_volume_multiple :: 'd
  ir_volume_step :: 'd
  ir_price_tick :: 'd
  ir_min_limit_order_volume :: int
  ir_max_limit_order_volume :: int
  ir_min_market_order_volume :: int
  ir_max_market_order_volume :: int
  ir_listed_date :: int
  ir_delisted_date :: int
  ir_option_type :: int
  ir_option_strike :: 'd
  ir_underlying_id :: string
  ir_underlying_multiple :: 'd
  ir_update_day :: string
  ir_updated_at :: int

section \<open>Concrete instances\<close>

definition sample_trade :: "int \<Rightarrow> int \<Rightarrow> int \<Rightarrow> 'd \<Rightarrow> 'd trade_report" where
  "sample_trade dir eff vol p =
     \<lparr>tr_order_id = 1, tr_strategy_id = ''s'', tr_instrument_id = ''rb2510'', tr_price = p,
      tr_volume = vol, tr_direction = dir, tr_position_effect = eff, tr_date = 20000, tr_time = 36000,
      tr_account_id = ''a'', tr_exchange_id = ''SHFE'', tr_trade_id = ''t'', tr_seq = 1\<rparr>"

definition sample_req :: "int \<Rightarrow> int \<Rightarrow> int \<Rightarrow> 'd \<Rightarrow> 'd order_req" where
  "sample_req dir eff vol p =
     \<lparr>rq_order_id = 1, rq_strategy_id = ''s'', rq_account_id = ''a'', rq_instrument_id = ''rb2510'',
      rq_remark = '''', rq_price = p, rq_volume = vol, rq_direction = dir, rq_price_type = 0,
      rq_position_effect = eff\<rparr>"

definition sample_order :: "int \<Rightarrow> int \<Rightarrow> int \<Rightarrow> int \<Rightarrow> 'd \<Rightarrow> 'd order_record" where
  "sample_order oid status traded t p =
     \<lparr>orec_base = \<lparr>or_order_id = oid, or_strategy_id = ''s'', or_instrument_id = ''rb2510'',
        or_direction = 1, or_price_type = 0, or_position_effect = 1, or_status = status,
        or_price = p, or_avg_price = p, or_volume = 10, or_volume_traded = traded,
        or_date = 20000, or_time = 36000, or_account_id = ''a'', or_exchange_id = ''SHFE'',
        or_remark = '''', or_seq = 1\<rparr>,
      orec_trading_day = ''20241004'', orec_order_ref = ''000000000001'',
      orec_external_order_id = '''', orec_is_external = 0, orec_volume_canceled = 0,
      orec_insert_time = t, orec_update_time = t, orec_error_id = 0, orec_error_msg = ''''\<rparr>"

end
