(* ===== verification/Td_Position.thy ===== *)
theory Td_Position
  imports Dz_Structs
begin

text \<open>
  The aggregated position of one instrument (\<open>apps/ctp/td/td_position.h\<close> and \<open>.cpp\<close>):
  query snapshots overwrite a side, trades add to or take from it, working close orders freeze
  volume, the day switch rolls today's volume into yesterday's. Each operation returns which
  sides changed, as the code does. The hash map of working orders is an association list with
  distinct keys; \<open>recompute_frozen\<close> only sums over it, so its order never matters
  (\<open>order_totals_map\<close>).
\<close>

section \<open>Data\<close>

datatype exchange = Unknown | SHFE | INE | CFFEX | DCE | CZCE | GFEX

record 'd position_side =
  ps_today :: int
  ps_yd :: int
  ps_price :: 'd
  ps_frozen_td :: int
  ps_frozen_yd :: int
  ps_seq :: nat

definition side_volume :: "'d position_side \<Rightarrow> int" where
  "side_volume s = ps_today s + ps_yd s"

definition side_frozen :: "'d position_side \<Rightarrow> int" where
  "side_frozen s = ps_frozen_td s + ps_frozen_yd s"

definition empty_side :: "('d, 'm) fp_scheme \<Rightarrow> 'd position_side" where
  "empty_side F = \<lparr>ps_today = 0, ps_yd = 0, ps_price = fp_zero F, ps_frozen_td = 0,
     ps_frozen_yd = 0, ps_seq = 0\<rparr>"

record side_change =
  long_changed :: bool
  short_changed :: bool

definition no_change :: side_change where
  "no_change = \<lparr>long_changed = False, short_changed = False\<rparr>"

record active_order_update =
  au_instrument_id :: string
  au_order_ref :: string
  au_direction :: int
  au_effect :: int
  au_status :: int
  au_volume :: int
  au_volume_traded :: int

record active_order =
  ao_direction :: int
  ao_effect :: int
  ao_volume :: int
  ao_traded :: int

record 'd position_holding =
  ph_instrument_id :: string
  ph_exchange_id :: string
  ph_exchange :: exchange
  ph_long :: "'d position_side"
  ph_short :: "'d position_side"
  ph_active_orders :: "(string \<times> active_order) list"

section \<open>Operations\<close>

text \<open>A null pointer is \<open>None\<close>.\<close>

definition parse_exchange_id :: "string option \<Rightarrow> exchange" where
  "parse_exchange_id mid = (case mid of None \<Rightarrow> Unknown | Some i \<Rightarrow>
     if i = ''SHFE'' then SHFE
     else if i = ''INE'' then INE
     else if i = ''CFFEX'' then CFFEX
     else if i = ''DCE'' then DCE
     else if i = ''CZCE'' then CZCE
     else if i = ''GFEX'' then GFEX
     else Unknown)"

definition is_terminal_order_status :: "int \<Rightarrow> bool" where
  "is_terminal_order_status st \<longleftrightarrow>
     st = DZ_ORDER_ALL_TRADED \<or> st = DZ_ORDER_CANCELLED \<or> st = DZ_ORDER_REJECTED"

definition new_holding :: "('d, 'm) fp_scheme \<Rightarrow> string \<Rightarrow> string \<Rightarrow> 'd position_holding" where
  "new_holding F inst ex = \<lparr>ph_instrument_id = inst, ph_exchange_id = ex,
     ph_exchange = parse_exchange_id (Some ex), ph_long = empty_side F, ph_short = empty_side F,
     ph_active_orders = []\<rparr>"

definition same_side :: "('d, 'm) fp_scheme \<Rightarrow> 'd position_side \<Rightarrow> 'd position_side \<Rightarrow> bool" where
  "same_side F a b \<longleftrightarrow> ps_today a = ps_today b \<and> ps_yd a = ps_yd b \<and> fp_eq F (ps_price a) (ps_price b)
     \<and> ps_frozen_td a = ps_frozen_td b \<and> ps_frozen_yd a = ps_frozen_yd b"

definition add_open :: "('d, 'm) fp_scheme \<Rightarrow> 'd position_side \<Rightarrow> 'd trade_report \<Rightarrow> 'd position_side" where
  "add_open F s t =
     (let old = side_volume s;
          p = (if old \<le> 0 \<or> fp_le F (ps_price s) (fp_zero F) then tr_price t
               else fp_div F
                      (fp_add F (fp_mul F (ps_price s) (fp_of_int F old))
                                (fp_mul F (tr_price t) (fp_of_int F (tr_volume t))))
                      (fp_of_int F (old + tr_volume t)))
      in s\<lparr>ps_price := p, ps_today := ps_today s + tr_volume t\<rparr>)"

definition close_side :: "('d, 'm) fp_scheme \<Rightarrow> 'd position_side \<Rightarrow> 'd trade_report \<Rightarrow> exchange \<Rightarrow> 'd position_side" where
  "close_side F s t ex =
     (let s1 = (if tr_position_effect t = DZ_POSITION_EFFECT_CLOSE_TODAY
                then s\<lparr>ps_today := ps_today s - tr_volume t\<rparr>
                else if tr_position_effect t = DZ_POSITION_EFFECT_CLOSE_YESTDAY
                then s\<lparr>ps_yd := ps_yd s - tr_volume t\<rparr>
                else if ex = SHFE \<or> ex = INE
                then s\<lparr>ps_yd := ps_yd s - tr_volume t\<rparr>
                else (let td = ps_today s - tr_volume t
                      in if td < 0 then s\<lparr>ps_today := 0, ps_yd := ps_yd s + td\<rparr>
                         else s\<lparr>ps_today := td\<rparr>));
          s2 = (if ps_today s1 < 0 \<or> ps_yd s1 < 0
                then s1\<lparr>ps_today := max 0 (ps_today s1), ps_yd := max 0 (ps_yd s1)\<rparr>
                else s1)
      in if side_volume s2 = 0 then s2\<lparr>ps_price := fp_zero F\<rparr> else s2)"

text \<open>
  The frozen volumes: remaining volume of the working close orders, split by effect, generic
  closes filling today's room first and yesterday's after.
\<close>

definition remaining_of :: "active_order \<Rightarrow> int" where
  "remaining_of a = ao_volume a - ao_traded a"

definition order_frozen :: "bool \<Rightarrow> int \<Rightarrow> active_order \<Rightarrow> int" where
  "order_frozen closes_long eff a =
     (if remaining_of a \<le> 0 then 0
      else if (ao_direction a = DZ_DIRECTION_SHORT) \<noteq> closes_long then 0
      else if ao_effect a = DZ_POSITION_EFFECT_CLOSE_TODAY
        then (if eff = DZ_POSITION_EFFECT_CLOSE_TODAY then remaining_of a else 0)
      else if ao_effect a = DZ_POSITION_EFFECT_CLOSE_YESTDAY
        then (if eff = DZ_POSITION_EFFECT_CLOSE_YESTDAY then remaining_of a else 0)
      else if eff = DZ_POSITION_EFFECT_CLOSE then remaining_of a else 0)"

definition order_total :: "bool \<Rightarrow> int \<Rightarrow> (string \<times> active_order) list \<Rightarrow> int" where
  "order_total closes_long eff m = (\<Sum>(r, a) \<leftarrow> m. order_frozen closes_long eff a)"

definition spill_and_clamp :: "int \<Rightarrow> 'd position_side \<Rightarrow> 'd position_side" where
  "spill_and_clamp generic s =
     (let room_td = max 0 (ps_today s - ps_frozen_td s);
          take_td = min generic room_td;
          ftd = ps_frozen_td s + take_td;
          rest = generic - take_td;
          fyd = (if 0 < rest then ps_frozen_yd s + min rest (max 0 (ps_yd s - ps_frozen_yd s))
                 else ps_frozen_yd s)
      in s\<lparr>ps_frozen_td := min ftd (max 0 (ps_today s)), ps_frozen_yd := min fyd (max 0 (ps_yd s))\<rparr>)"

definition recompute_side :: "bool \<Rightarrow> (string \<times> active_order) list \<Rightarrow> 'd position_side \<Rightarrow> 'd position_side" where
  "recompute_side closes_long m s =
     spill_and_clamp (order_total closes_long DZ_POSITION_EFFECT_CLOSE m)
       (s\<lparr>ps_frozen_td := order_total closes_long DZ_POSITION_EFFECT_CLOSE_TODAY m,
          ps_frozen_yd := order_total closes_long DZ_POSITION_EFFECT_CLOSE_YESTDAY m\<rparr>)"

definition recompute_frozen :: "'d position_holding \<Rightarrow> 'd position_holding" where
  "recompute_frozen h = h\<lparr>ph_long := recompute_side True (ph_active_orders h) (ph_long h),
     ph_short := recompute_side False (ph_active_orders h) (ph_short h)\<rparr>"

definition changes :: "('d, 'm) fp_scheme \<Rightarrow> 'd position_holding \<Rightarrow> 'd position_holding \<Rightarrow> side_change" where
  "changes F h h' = \<lparr>long_changed = \<not> same_side F (ph_long h) (ph_long h'),
     short_changed = \<not> same_side F (ph_short h) (ph_short h')\<rparr>"

definition holding_side :: "int \<Rightarrow> 'd position_holding \<Rightarrow> 'd position_side" where
  "holding_side dir h = (if dir = DZ_DIRECTION_SHORT then ph_short h else ph_long h)"

definition upd_side :: "int \<Rightarrow> ('d position_side \<Rightarrow> 'd position_side) \<Rightarrow> 'd position_holding \<Rightarrow> 'd position_holding" where
  "upd_side dir f h = (if dir = DZ_DIRECTION_SHORT then h\<lparr>ph_short := f (ph_short h)\<rparr>
     else h\<lparr>ph_long := f (ph_long h)\<rparr>)"

definition set_seq :: "int \<Rightarrow> nat \<Rightarrow> 'd position_holding \<Rightarrow> 'd position_holding" where
  "set_seq dir n = upd_side dir (\<lambda>s. s\<lparr>ps_seq := n\<rparr>)"

definition apply_query_side :: "('d, 'm) fp_scheme \<Rightarrow> int \<Rightarrow> int \<Rightarrow> int \<Rightarrow> 'd \<Rightarrow> 'd position_holding
    \<Rightarrow> side_change \<times> 'd position_holding" where
  "apply_query_side F dir volume yd p h =
     (if dir \<noteq> DZ_DIRECTION_LONG \<and> dir \<noteq> DZ_DIRECTION_SHORT then (no_change, h)
      else let v = max 0 volume; y = clamp yd 0 v;
               h1 = upd_side dir (\<lambda>s. s\<lparr>ps_today := v - y, ps_yd := y,
                      ps_price := (if 0 < v then p else fp_zero F)\<rparr>) h;
               h' = recompute_frozen h1
           in (changes F h h', h'))"

definition apply_trade :: "('d, 'm) fp_scheme \<Rightarrow> 'd trade_report \<Rightarrow> 'd position_holding
    \<Rightarrow> side_change \<times> 'd position_holding" where
  "apply_trade F t h =
     (if tr_volume t \<le> 0 then (no_change, h)
      else if tr_direction t = DZ_DIRECTION_LONG then
        let h1 = (if tr_position_effect t = DZ_POSITION_EFFECT_OPEN
                  then h\<lparr>ph_long := add_open F (ph_long h) t\<rparr>
                  else h\<lparr>ph_short := close_side F (ph_short h) t (ph_exchange h)\<rparr>);
            h' = recompute_frozen h1
        in (changes F h h', h')
      else if tr_direction t = DZ_DIRECTION_SHORT then
        let h1 = (if tr_position_effect t = DZ_POSITION_EFFECT_OPEN
                  then h\<lparr>ph_short := add_open F (ph_short h) t\<rparr>
                  else h\<lparr>ph_long := close_side F (ph_long h) t (ph_exchange h)\<rparr>);
            h' = recompute_frozen h1
        in (changes F h h', h')
      else (no_change, h))"

definition order_of_update :: "active_order_update \<Rightarrow> active_order" where
  "order_of_update u = \<lparr>ao_direction = au_direction u, ao_effect = au_effect u,
     ao_volume = au_volume u, ao_traded = au_volume_traded u\<rparr>"

definition relevant :: "'d position_holding \<Rightarrow> active_order_update \<Rightarrow> bool" where
  "relevant h u \<longleftrightarrow> au_order_ref u \<noteq> [] \<and> au_instrument_id u = ph_instrument_id h
     \<and> (au_direction u = DZ_DIRECTION_LONG \<or> au_direction u = DZ_DIRECTION_SHORT)"

definition frees :: "active_order_update \<Rightarrow> bool" where
  "frees u \<longleftrightarrow> is_terminal_order_status (au_status u) \<or> au_effect u = DZ_POSITION_EFFECT_OPEN"

definition apply_order :: "('d, 'm) fp_scheme \<Rightarrow> active_order_update \<Rightarrow> 'd position_holding
    \<Rightarrow> side_change \<times> 'd position_holding" where
  "apply_order F u h =
     (if \<not> relevant h u then (no_change, h)
      else let m = (if frees u then AList.delete (au_order_ref u) (ph_active_orders h)
                    else AList.update (au_order_ref u) (order_of_update u) (ph_active_orders h));
               h' = recompute_frozen (h\<lparr>ph_active_orders := m\<rparr>)
           in (changes F h h', h'))"

definition rebuild_active_orders :: "('d, 'm) fp_scheme \<Rightarrow> active_order_update list \<Rightarrow> 'd position_holding
    \<Rightarrow> side_change \<times> 'd position_holding" where
  "rebuild_active_orders F us h =
     (let m = foldl (\<lambda>m u. if \<not> relevant h u then m else if frees u then m
                else AList.update (au_order_ref u) (order_of_update u) m) [] us;
          h' = recompute_frozen (h\<lparr>ph_active_orders := m\<rparr>)
      in (changes F h h', h'))"

definition roll_side :: "'d position_side \<Rightarrow> 'd position_side" where
  "roll_side s = s\<lparr>ps_yd := ps_yd s + ps_today s, ps_today := 0, ps_frozen_td := 0, ps_frozen_yd := 0\<rparr>"

definition on_day_switch :: "('d, 'm) fp_scheme \<Rightarrow> 'd position_holding \<Rightarrow> side_change \<times> 'd position_holding" where
  "on_day_switch F h =
     (let h' = h\<lparr>ph_long := roll_side (ph_long h), ph_short := roll_side (ph_short h),
                 ph_active_orders := []\<rparr>
      in (changes F h h', h'))"

definition clear_holding :: "('d, 'm) fp_scheme \<Rightarrow> 'd position_holding \<Rightarrow> 'd position_holding" where
  "clear_holding F h = h\<lparr>ph_long := empty_side F, ph_short := empty_side F, ph_active_orders := []\<rparr>"

definition available_today :: "'d position_side \<Rightarrow> int" where
  "available_today s = ps_today s - ps_frozen_td s"

definition available_yesterday :: "'d position_side \<Rightarrow> int" where
  "available_yesterday s = ps_yd s - ps_frozen_yd s"

section \<open>Events of a holding\<close>

datatype 'd position_event =
    Query int int int 'd
  | Trade "'d trade_report"
  | Order active_order_update
  | Rebuild "active_order_update list"
  | Day_Switch
  | Clear
  | Set_Seq int nat

fun position_step :: "('d, 'm) fp_scheme \<Rightarrow> 'd position_holding \<Rightarrow> 'd position_event \<Rightarrow> 'd position_holding" where
  "position_step F h (Query dir v y p) = snd (apply_query_side F dir v y p h)"
| "position_step F h (Trade t) = snd (apply_trade F t h)"
| "position_step F h (Order u) = snd (apply_order F u h)"
| "position_step F h (Rebuild us) = snd (rebuild_active_orders F us h)"
| "position_step F h Day_Switch = snd (on_day_switch F h)"
| "position_step F h Clear = clear_holding F h"
| "position_step F h (Set_Seq dir n) = set_seq dir n h"

section \<open>The invariant\<close>

definition base_ok :: "'d position_side \<Rightarrow> bool" where
  "base_ok s \<longleftrightarrow> 0 \<le> ps_today s \<and> 0 \<le> ps_yd s"

definition side_ok :: "'d position_side \<Rightarrow> bool" where
  "side_ok s \<longleftrightarrow> 0 \<le> ps_frozen_td s \<and> ps_frozen_td s \<le> ps_today s
     \<and> 0 \<le> ps_frozen_yd s \<and> ps_frozen_yd s \<le> ps_yd s"

definition holding_ok :: "'d position_holding \<Rightarrow> bool" where
  "holding_ok h \<longleftrightarrow> side_ok (ph_long h) \<and> side_ok (ph_short h) \<and> distinct (keys (ph_active_orders h))"

lemma side_ok_base: "side_ok s \<Longrightarrow> base_ok s"
  by (auto simp: side_ok_def base_ok_def)

lemma base_ok_simps [simp]:
  "base_ok (s\<lparr>ps_price := p\<rparr>) = base_ok s"
  "base_ok (s\<lparr>ps_frozen_td := a\<rparr>) = base_ok s"
  "base_ok (s\<lparr>ps_frozen_yd := a\<rparr>) = base_ok s"
  by (simp_all add: base_ok_def)

lemma order_total_nonneg: "0 \<le> order_total cl eff m"
  unfolding order_total_def by (rule sum_list_nonneg) (auto simp: order_frozen_def)

lemma spill_side_ok:
  "base_ok s \<Longrightarrow> 0 \<le> ps_frozen_td s \<Longrightarrow> 0 \<le> ps_frozen_yd s \<Longrightarrow> 0 \<le> g \<Longrightarrow> side_ok (spill_and_clamp g s)"
  by (auto simp: spill_and_clamp_def side_ok_def base_ok_def Let_def)

lemma recompute_side_ok: "base_ok s \<Longrightarrow> side_ok (recompute_side cl m s)"
  unfolding recompute_side_def by (rule spill_side_ok) (auto simp: order_total_nonneg)

lemma recompute_side_fields [simp]:
  "ps_today (recompute_side cl m s) = ps_today s"
  "ps_yd (recompute_side cl m s) = ps_yd s"
  "ps_price (recompute_side cl m s) = ps_price s"
  "ps_seq (recompute_side cl m s) = ps_seq s"
  by (simp_all add: recompute_side_def spill_and_clamp_def Let_def)

lemma recompute_fields [simp]:
  "ph_instrument_id (recompute_frozen h) = ph_instrument_id h"
  "ph_exchange_id (recompute_frozen h) = ph_exchange_id h"
  "ph_exchange (recompute_frozen h) = ph_exchange h"
  "ph_active_orders (recompute_frozen h) = ph_active_orders h"
  "ph_long (recompute_frozen h) = recompute_side True (ph_active_orders h) (ph_long h)"
  "ph_short (recompute_frozen h) = recompute_side False (ph_active_orders h) (ph_short h)"
  by (simp_all add: recompute_frozen_def)

lemma recompute_ok:
  "base_ok (ph_long h) \<Longrightarrow> base_ok (ph_short h) \<Longrightarrow> distinct (keys (ph_active_orders h))
    \<Longrightarrow> holding_ok (recompute_frozen h)"
  by (simp add: holding_ok_def recompute_side_ok)

lemma close_side_base: "base_ok s \<Longrightarrow> base_ok (close_side F s t ex)"
  by (auto simp: close_side_def base_ok_def Let_def)

lemma add_open_base: "base_ok s \<Longrightarrow> 0 \<le> tr_volume t \<Longrightarrow> base_ok (add_open F s t)"
  by (auto simp: add_open_def base_ok_def Let_def)

lemma rebuild_distinct:
  "distinct (keys m) \<Longrightarrow> distinct (keys (foldl (\<lambda>m u. if \<not> relevant h u then m else if frees u then m
      else AList.update (au_order_ref u) (order_of_update u) m) m us))"
  by (induction us arbitrary: m) auto

lemma position_step_ok:
  assumes "holding_ok h"
  shows "holding_ok (position_step F h e)"
proof (cases e)
  case (Query dir v y p)
  have "0 \<le> clamp y 0 (max 0 v)" "clamp y 0 (max 0 v) \<le> max 0 v"
    using clamp_bounds [of 0 "max 0 v" y] by auto
  then show ?thesis using assms Query
    by (auto simp: apply_query_side_def Let_def upd_side_def holding_ok_def base_ok_def side_ok_base
          intro!: recompute_side_ok dest!: side_ok_base)
next
  case (Trade t)
  then show ?thesis using assms
    by (auto simp: apply_trade_def Let_def holding_ok_def
          intro!: recompute_side_ok close_side_base add_open_base dest: side_ok_base)
next
  case (Order u)
  then show ?thesis using assms
    by (auto simp: apply_order_def Let_def holding_ok_def intro!: recompute_side_ok dest: side_ok_base)
next
  case (Rebuild us)
  then show ?thesis using assms
    by (auto simp: rebuild_active_orders_def Let_def holding_ok_def rebuild_distinct
          intro!: recompute_side_ok dest: side_ok_base)
next
  case (Set_Seq dir n)
  then show ?thesis using assms by (auto simp: set_seq_def upd_side_def holding_ok_def side_ok_def)
qed (use assms in \<open>auto simp: on_day_switch_def clear_holding_def Let_def holding_ok_def roll_side_def
       side_ok_def empty_side_def\<close>)

interpretation position: invariant_run "position_step F" holding_ok for F
  by unfold_locales (rule position_step_ok)

lemma new_holding_ok: "holding_ok (new_holding F i e)"
  by (simp add: holding_ok_def new_holding_def side_ok_def empty_side_def)

section \<open>Frozen volume\<close>

lemma order_total_map:
  "distinct (keys m) \<Longrightarrow> distinct (keys m') \<Longrightarrow> map_of m = map_of m'
    \<Longrightarrow> order_total cl eff m = order_total cl eff m'"
  by (simp add: order_total_def sum_list_alist)

lemma recompute_absorb:
  "recompute_frozen ((recompute_frozen h)\<lparr>ph_active_orders := m\<rparr>) = recompute_frozen (h\<lparr>ph_active_orders := m\<rparr>)"
  by (simp add: recompute_frozen_def recompute_side_def spill_and_clamp_def Let_def)

lemma spill_exact:
  assumes "ps_frozen_td s \<le> ps_today s" "ps_frozen_yd s \<le> ps_yd s" "0 \<le> g"
    and "base_ok s"
  shows "side_frozen (spill_and_clamp g s)
    = min (ps_frozen_td s + ps_frozen_yd s + g) (side_volume s)"
  using assms by (auto simp: spill_and_clamp_def side_frozen_def side_volume_def base_ok_def Let_def)

section \<open>Rebuilding from a snapshot\<close>

lemma recompute_same_keys:
  "ph_instrument_id h = i \<Longrightarrow> relevant (recompute_frozen (h\<lparr>ph_active_orders := m\<rparr>)) u = relevant h u"
  by (simp add: relevant_def)

lemma apply_orders_recompute:
  assumes "distinct (map au_order_ref us)" and "set (map au_order_ref us) \<inter> set (keys m) = {}"
  shows "foldl (\<lambda>h u. snd (apply_order F u h)) (recompute_frozen (h\<lparr>ph_active_orders := m\<rparr>)) us
    = recompute_frozen (h\<lparr>ph_active_orders := foldl (\<lambda>m u. if \<not> relevant h u then m else if frees u then m
        else AList.update (au_order_ref u) (order_of_update u) m) m us\<rparr>)"
  using assms
proof (induction us arbitrary: m)
  case Nil
  then show ?case by simp
next
  case (Cons u us)
  let ?m = "if \<not> relevant h u then m else if frees u then m
        else AList.update (au_order_ref u) (order_of_update u) m"
  have fresh: "AList.delete (au_order_ref u) m = m"
    using Cons.prems by (intro delete_id) (auto simp: keys_def)
  have "snd (apply_order F u (recompute_frozen (h\<lparr>ph_active_orders := m\<rparr>)))
      = recompute_frozen (h\<lparr>ph_active_orders := ?m\<rparr>)"
    using fresh recompute_absorb [where h = "h\<lparr>ph_active_orders := m\<rparr>"]
    by (simp add: apply_order_def recompute_same_keys Let_def)
  moreover have "set (map au_order_ref us) \<inter> set (keys ?m) = {}"
    using Cons.prems by (auto simp: domIff split: if_splits)
  ultimately show ?case using Cons by simp
qed

section \<open>Frozen volumes are current\<close>

text \<open>
  Every operation leaves the frozen volumes equal to what the working orders demand now.
\<close>

definition frozen_current :: "'d position_holding \<Rightarrow> bool" where
  "frozen_current h \<longleftrightarrow> recompute_frozen h = h"

lemma recompute_idem [simp]: "recompute_frozen (recompute_frozen h) = recompute_frozen h"
  by (simp add: recompute_frozen_def recompute_side_def spill_and_clamp_def Let_def)

lemma recompute_current [simp]: "frozen_current (recompute_frozen h)"
  by (simp add: frozen_current_def)

lemma recompute_side_no_orders:
  "ps_frozen_td s = 0 \<Longrightarrow> ps_frozen_yd s = 0 \<Longrightarrow> recompute_side cl [] s = s"
  by (cases s) (simp add: recompute_side_def spill_and_clamp_def order_total_def Let_def)

lemma recompute_side_seq:
  "recompute_side cl m (s\<lparr>ps_seq := n\<rparr>) = (recompute_side cl m s)\<lparr>ps_seq := n\<rparr>"
  by (simp add: recompute_side_def spill_and_clamp_def Let_def)

lemma recompute_set_seq: "recompute_frozen (set_seq dir n h) = set_seq dir n (recompute_frozen h)"
  by (simp add: recompute_frozen_def set_seq_def upd_side_def recompute_side_seq)

lemma set_seq_current: "frozen_current h \<Longrightarrow> frozen_current (set_seq dir n h)"
  by (simp add: frozen_current_def recompute_set_seq)

lemma position_step_current: "frozen_current h \<Longrightarrow> frozen_current (position_step F h e)"
proof (induction F h e rule: position_step.induct)
  case (5 F h)
  then show ?case
    by (simp add: on_day_switch_def Let_def frozen_current_def recompute_frozen_def
        recompute_side_no_orders roll_side_def)
next
  case (6 F h)
  then show ?case
    by (simp add: clear_holding_def frozen_current_def recompute_frozen_def
        recompute_side_no_orders empty_side_def)
qed (auto simp: apply_query_side_def apply_trade_def apply_order_def rebuild_active_orders_def
       Let_def set_seq_current)

interpretation current: invariant_run "position_step F" frozen_current for F
  by unfold_locales (rule position_step_current)

lemma new_holding_current: "frozen_current (new_holding F i e)"
  by (simp add: frozen_current_def new_holding_def recompute_frozen_def recompute_side_no_orders
      empty_side_def)

section \<open>Properties\<close>

text \<open>C12: whatever sequence of query snapshots, trades, order updates, rebuilds, day switches and
  clears a holding goes through, both sides stay non-negative, no bucket freezes more than it holds,
  each working order is kept once, and the frozen volumes are the ones its working orders demand.\<close>

theorem position_run_ok:
  "holding_ok (foldl (position_step F) (new_holding F inst ex) es)
   \<and> frozen_current (foldl (position_step F) (new_holding F inst ex) es)"
  by (simp add: position.run_inv new_holding_ok current.run_inv new_holding_current)

text \<open>the frozen volume of a side is exact: as long as the explicit close-today and
  close-yesterday orders fit their buckets, what is frozen in total is the whole demand of the
  working close orders, capped by the position, generic closes spilling from today into
  yesterday.\<close>

theorem frozen_exact:
  assumes "base_ok s"
    and "order_total cl DZ_POSITION_EFFECT_CLOSE_TODAY m \<le> ps_today s"
    and "order_total cl DZ_POSITION_EFFECT_CLOSE_YESTDAY m \<le> ps_yd s"
  shows "side_frozen (recompute_side cl m s) =
    min (order_total cl DZ_POSITION_EFFECT_CLOSE_TODAY m + order_total cl DZ_POSITION_EFFECT_CLOSE_YESTDAY m
         + order_total cl DZ_POSITION_EFFECT_CLOSE m) (side_volume s)"
  unfolding recompute_side_def using assms
  by (subst spill_exact) (auto simp: order_total_nonneg side_volume_def)

theorem frozen_exact_witness:
  "side_frozen (recompute_side True
      [(''1'', \<lparr>ao_direction = - 1, ao_effect = 2, ao_volume = 9, ao_traded = 2\<rparr>),
       (''2'', \<lparr>ao_direction = - 1, ao_effect = 3, ao_volume = 1, ao_traded = 0\<rparr>)]
      \<lparr>ps_today = 3, ps_yd = 4, ps_price = (1::rat), ps_frozen_td = 0, ps_frozen_yd = 0, ps_seq = 0\<rparr>) = 7"
  by (subst frozen_exact)
    (simp_all add: base_ok_def order_total_def order_frozen_def remaining_of_def side_volume_def)

text \<open>a closing trade takes exactly its volume: from today, from yesterday (also the generic
  close on SHFE and INE), or from today first and yesterday after on the other exchanges; an
  over-close stops at zero, and the average price is dropped exactly when nothing is left.\<close>

theorem close_side_exact:
  assumes "base_ok s" and "0 < tr_volume t"
  shows "let s' = close_side F s t ex; eff = tr_position_effect t; v = tr_volume t in
    (eff = DZ_POSITION_EFFECT_CLOSE_TODAY \<longrightarrow>
       ps_today s' = max 0 (ps_today s - v) \<and> ps_yd s' = ps_yd s)
    \<and> (eff = DZ_POSITION_EFFECT_CLOSE_YESTDAY \<or> eff = DZ_POSITION_EFFECT_CLOSE \<and> (ex = SHFE \<or> ex = INE) \<longrightarrow>
       ps_today s' = ps_today s \<and> ps_yd s' = max 0 (ps_yd s - v))
    \<and> (eff = DZ_POSITION_EFFECT_CLOSE \<and> ex \<noteq> SHFE \<and> ex \<noteq> INE \<longrightarrow>
       ps_today s' = max 0 (ps_today s - v) \<and> side_volume s' = max 0 (side_volume s - v))
    \<and> ps_price s' = (if side_volume s' = 0 then fp_zero F else ps_price s)"
  using assms by (auto simp: close_side_def base_ok_def side_volume_def Let_def)

theorem close_side_exact_witness:
  "side_volume (close_side rat_fp
      \<lparr>ps_today = 3, ps_yd = 4, ps_price = 1, ps_frozen_td = 0, ps_frozen_yd = 0, ps_seq = 0\<rparr>
      (sample_trade (- 1) 2 5 1) CFFEX) = 2"
proof -
  let ?s = "\<lparr>ps_today = 3, ps_yd = 4, ps_price = (1::rat), ps_frozen_td = 0, ps_frozen_yd = 0, ps_seq = 0\<rparr>"
  have "base_ok ?s" by (simp add: base_ok_def)
  from close_side_exact [OF this, of "sample_trade (- 1) 2 5 1" rat_fp CFFEX]
  show ?thesis by (simp add: sample_trade_def side_volume_def Let_def)
qed

text \<open>rebuilding the working orders from a snapshot with distinct order references gives the
  same holding as emptying them and applying the updates one by one, so a snapshot after a
  reconnect and the live stream agree.\<close>

theorem rebuild_as_updates:
  assumes "distinct (map au_order_ref us)"
  shows "snd (rebuild_active_orders F us h) =
    foldl (\<lambda>h u. snd (apply_order F u h)) (recompute_frozen (h\<lparr>ph_active_orders := []\<rparr>)) us"
  using apply_orders_recompute [OF assms, of "[]" F h]
  by (simp add: rebuild_active_orders_def Let_def)

theorem rebuild_as_updates_witness:
  "snd (rebuild_active_orders rat_fp
      [\<lparr>au_instrument_id = ''rb'', au_order_ref = ''1'', au_direction = - 1, au_effect = 2,
        au_status = 2, au_volume = 5, au_volume_traded = 1\<rparr>] (new_holding rat_fp ''rb'' ''SHFE'')) =
   foldl (\<lambda>h u. snd (apply_order rat_fp u h))
     (recompute_frozen ((new_holding rat_fp ''rb'' ''SHFE'')\<lparr>ph_active_orders := []\<rparr>))
     [\<lparr>au_instrument_id = ''rb'', au_order_ref = ''1'', au_direction = - 1, au_effect = 2,
        au_status = 2, au_volume = 5, au_volume_traded = 1\<rparr>]"
  by (rule rebuild_as_updates) simp

end
