(* ===== verification/Td_Offset.thy ===== *)
theory Td_Offset
  imports Td_Position
begin

text \<open>
  The offset converter (\<open>apps/ctp/td/td_offset_converter.h\<close>, \<open>.cpp\<close>) turns one order
  request into the sub-orders the exchange accepts. In the SHFE mode a generic close is split
  into close-today and close-yesterday by the volumes the position still has available. The
  locale \<open>closeable\<close> is what the converter relies on: availabilities that are never negative.
\<close>

section \<open>Model\<close>

datatype offset_mode = Mode_None | Mode_Shfe | Mode_Lock | Mode_Net

record 'd sub_request =
  sr_direction :: int
  sr_effect :: int
  sr_volume :: int
  sr_price :: 'd

definition sub_req :: "'d order_req \<Rightarrow> int \<Rightarrow> int \<Rightarrow> 'd sub_request" where
  "sub_req rq eff vol = \<lparr>sr_direction = rq_direction rq, sr_effect = eff, sr_volume = vol,
     sr_price = rq_price rq\<rparr>"

definition split_close :: "'d order_req \<Rightarrow> int \<Rightarrow> int \<Rightarrow> 'd sub_request list" where
  "split_close rq today_avail yd_avail =
     (let need = rq_volume rq;
          today_vol = min need today_avail;
          today_leg = (if 0 < today_avail \<and> 0 < need
                       then [sub_req rq DZ_POSITION_EFFECT_CLOSE_TODAY (i32 today_vol)] else []);
          need' = (if 0 < today_avail \<and> 0 < need then need - today_vol else need);
          yd_vol = min need' yd_avail;
          yd_leg = (if 0 < yd_avail \<and> 0 < need'
                    then [sub_req rq DZ_POSITION_EFFECT_CLOSE_YESTDAY (i32 yd_vol)] else [])
      in today_leg @ yd_leg)"

definition is_explicit_close :: "int \<Rightarrow> bool" where
  "is_explicit_close eff \<longleftrightarrow>
     eff = DZ_POSITION_EFFECT_CLOSE_TODAY \<or> eff = DZ_POSITION_EFFECT_CLOSE_YESTDAY"

definition convert_order_request :: "'d order_req \<Rightarrow> 'd position_holding \<Rightarrow> offset_mode \<Rightarrow> 'd sub_request list" where
  "convert_order_request rq h mode =
     (case mode of
        Mode_None \<Rightarrow> [sub_req rq (rq_position_effect rq) (rq_volume rq)]
      | Mode_Net \<Rightarrow> [sub_req rq (rq_position_effect rq) (rq_volume rq)]
      | Mode_Lock \<Rightarrow>
          (if rq_position_effect rq = DZ_POSITION_EFFECT_CLOSE \<or> is_explicit_close (rq_position_effect rq)
           then [sub_req rq DZ_POSITION_EFFECT_OPEN (rq_volume rq)]
           else [sub_req rq (rq_position_effect rq) (rq_volume rq)])
      | Mode_Shfe \<Rightarrow>
          (if rq_position_effect rq = DZ_POSITION_EFFECT_OPEN \<or> is_explicit_close (rq_position_effect rq)
           then [sub_req rq (rq_position_effect rq) (rq_volume rq)]
           else if rq_direction rq = DZ_DIRECTION_SHORT
           then split_close rq (available_today (ph_long h)) (available_yesterday (ph_long h))
           else if rq_direction rq = DZ_DIRECTION_LONG
           then split_close rq (available_today (ph_short h)) (available_yesterday (ph_short h))
           else []))"

definition total_volume :: "'d sub_request list \<Rightarrow> int" where
  "total_volume rs = (\<Sum>r \<leftarrow> rs. sr_volume r)"

section \<open>What the converter relies on\<close>

locale closeable =
  fixes ok :: "'h \<Rightarrow> bool"
    and td yd :: "'h \<Rightarrow> int"
  assumes td_nonneg: "ok h \<Longrightarrow> 0 \<le> td h"
    and yd_nonneg: "ok h \<Longrightarrow> 0 \<le> yd h"
begin

lemma split_total:
  "ok h \<Longrightarrow> 0 < rq_volume rq \<Longrightarrow> rq_volume rq < 2147483648 \<Longrightarrow>
    total_volume (split_close rq (td h) (yd h)) = min (rq_volume rq) (td h + yd h)"
  using td_nonneg [of h] yd_nonneg [of h]
  by (auto simp: split_close_def total_volume_def sub_req_def Let_def)

lemma split_legs:
  "ok h \<Longrightarrow> 0 < rq_volume rq \<Longrightarrow> rq_volume rq < 2147483648 \<Longrightarrow> r \<in> set (split_close rq (td h) (yd h)) \<Longrightarrow>
    0 < sr_volume r \<and> sr_direction r = rq_direction rq \<and> sr_price r = rq_price rq
    \<and> (sr_effect r = DZ_POSITION_EFFECT_CLOSE_TODAY \<and> sr_volume r \<le> td h
       \<or> sr_effect r = DZ_POSITION_EFFECT_CLOSE_YESTDAY \<and> sr_volume r \<le> yd h)"
  using td_nonneg [of h] yd_nonneg [of h]
  by (auto simp: split_close_def sub_req_def Let_def split: if_splits)

end

interpretation long_close: closeable side_ok available_today available_yesterday
  by unfold_locales (auto simp: side_ok_def available_today_def available_yesterday_def)

section \<open>Filling the sub-orders\<close>

text \<open>The trade that fills a sub-order completely, at any price.\<close>

definition fill_of :: "'d trade_report \<Rightarrow> 'd sub_request \<Rightarrow> 'd trade_report" where
  "fill_of t r = t\<lparr>tr_direction := sr_direction r, tr_position_effect := sr_effect r,
     tr_volume := sr_volume r\<rparr>"

text \<open>The frozen volumes of a side in closed form: \<open>t\<close>, \<open>g\<close>, \<open>y\<close> are the demands.\<close>

definition frozen_td_of :: "int \<Rightarrow> int \<Rightarrow> int \<Rightarrow> int" where
  "frozen_td_of t g today = min (t + min g (max 0 (today - t))) (max 0 today)"

definition frozen_yd_of :: "int \<Rightarrow> int \<Rightarrow> int \<Rightarrow> int \<Rightarrow> int \<Rightarrow> int" where
  "frozen_yd_of t g y today yd =
     (let rest = g - min g (max 0 (today - t))
      in min (if 0 < rest then y + min rest (max 0 (yd - y)) else y) (max 0 yd))"

lemma recompute_closed:
  "ps_frozen_td (recompute_side cl m s) = frozen_td_of (order_total cl DZ_POSITION_EFFECT_CLOSE_TODAY m)
     (order_total cl DZ_POSITION_EFFECT_CLOSE m) (ps_today s)"
  "ps_frozen_yd (recompute_side cl m s) = frozen_yd_of (order_total cl DZ_POSITION_EFFECT_CLOSE_TODAY m)
     (order_total cl DZ_POSITION_EFFECT_CLOSE m) (order_total cl DZ_POSITION_EFFECT_CLOSE_YESTDAY m)
     (ps_today s) (ps_yd s)"
  by (simp_all add: recompute_side_def spill_and_clamp_def frozen_td_of_def frozen_yd_of_def Let_def)

lemma frozen_td_shrink:
  "0 \<le> t \<Longrightarrow> 0 \<le> g \<Longrightarrow> frozen_td_of t g today \<le> td \<Longrightarrow> td \<le> today \<Longrightarrow>
    frozen_td_of t g td = frozen_td_of t g today
    \<and> min g (max 0 (td - t)) = min g (max 0 (today - t))"
  unfolding frozen_td_of_def by (simp add: min_def max_def split: if_splits)

lemma frozen_yd_shrink:
  assumes "0 \<le> t" "0 \<le> g" "0 \<le> y" "frozen_td_of t g today \<le> td" "td \<le> today"
    and "frozen_yd_of t g y today yd \<le> yd'" "yd' \<le> yd"
  shows "frozen_yd_of t g y td yd' = frozen_yd_of t g y today yd"
proof -
  define rest where "rest = g - min g (max 0 (today - t))"
  have td: "g - min g (max 0 (td - t)) = rest"
    using frozen_td_shrink [OF assms(1,2,4,5)] by (simp add: rest_def)
  show ?thesis
    using assms(3,6,7) unfolding frozen_yd_of_def td rest_def [symmetric] Let_def
    by (simp add: min_def max_def split: if_splits)
qed

lemma recompute_shrink:
  assumes "recompute_side cl m s = s"
    and "ps_frozen_td s \<le> td" "td \<le> ps_today s" "ps_frozen_yd s \<le> yd" "yd \<le> ps_yd s"
    and "ps_today s' = td" "ps_yd s' = yd"
  shows "ps_frozen_td (recompute_side cl m s') = ps_frozen_td s"
    and "ps_frozen_yd (recompute_side cl m s') = ps_frozen_yd s"
proof -
  have f: "ps_frozen_td s = frozen_td_of (order_total cl 3 m) (order_total cl 2 m) (ps_today s)"
    and g: "ps_frozen_yd s = frozen_yd_of (order_total cl 3 m) (order_total cl 2 m) (order_total cl 4 m)
      (ps_today s) (ps_yd s)"
    using recompute_closed [of cl m s] assms(1) by simp_all
  show "ps_frozen_td (recompute_side cl m s') = ps_frozen_td s"
    using assms f frozen_td_shrink [of "order_total cl 3 m" "order_total cl 2 m" "ps_today s" td]
    by (simp add: recompute_closed order_total_nonneg)
  show "ps_frozen_yd (recompute_side cl m s') = ps_frozen_yd s"
    using assms f g frozen_yd_shrink [of "order_total cl 3 m" "order_total cl 2 m" "order_total cl 4 m"
        "ps_today s" td "ps_yd s" yd]
    by (simp add: recompute_closed order_total_nonneg)
qed

text \<open>The side an order of a direction closes, and the one it leaves alone.\<close>

definition closing_side :: "int \<Rightarrow> 'd position_holding \<Rightarrow> 'd position_side" where
  "closing_side dir h = (if dir = DZ_DIRECTION_SHORT then ph_long h else ph_short h)"

definition other_side :: "int \<Rightarrow> 'd position_holding \<Rightarrow> 'd position_side" where
  "other_side dir h = (if dir = DZ_DIRECTION_SHORT then ph_short h else ph_long h)"

lemma current_side:
  assumes "frozen_current h"
  shows "recompute_side True (ph_active_orders h) (ph_long h) = ph_long h"
    and "recompute_side False (ph_active_orders h) (ph_short h) = ph_short h"
  using assms recompute_fields(5,6) [of h] by (simp_all add: frozen_current_def)

lemma apply_trade_closing:
  assumes "0 < tr_volume t" "tr_direction t = d" "d = DZ_DIRECTION_SHORT \<or> d = DZ_DIRECTION_LONG"
    and "tr_position_effect t \<noteq> DZ_POSITION_EFFECT_OPEN" "frozen_current h"
  shows "closing_side d (snd (apply_trade F t h)) =
      recompute_side (d = DZ_DIRECTION_SHORT) (ph_active_orders h) (close_side F (closing_side d h) t (ph_exchange h))"
    and "other_side d (snd (apply_trade F t h)) = other_side d h"
    and "ph_active_orders (snd (apply_trade F t h)) = ph_active_orders h"
  using assms current_side [of h]
  by (auto simp: apply_trade_def closing_side_def other_side_def Let_def)

lemma closing_current:
  "frozen_current h \<Longrightarrow> d = DZ_DIRECTION_SHORT \<or> d = DZ_DIRECTION_LONG \<Longrightarrow>
    recompute_side (d = DZ_DIRECTION_SHORT) (ph_active_orders h) (closing_side d h) = closing_side d h"
  using current_side [of h] by (auto simp: closing_side_def)

lemma closing_ok: "holding_ok h \<Longrightarrow> side_ok (closing_side d h)"
  by (simp add: closing_side_def holding_ok_def)

definition side_is :: "'d position_side \<Rightarrow> int \<Rightarrow> int \<Rightarrow> int \<Rightarrow> int \<Rightarrow> bool" where
  "side_is s td yd ftd fyd \<longleftrightarrow>
     ps_today s = td \<and> ps_yd s = yd \<and> ps_frozen_td s = ftd \<and> ps_frozen_yd s = fyd"

text \<open>A fill of at most the available volume takes that volume and leaves the frozen one alone.\<close>

lemma fill_within_available:
  fixes h :: "'d position_holding" and d :: int
  defines "c \<equiv> closing_side d h"
  assumes h: "holding_ok h" "frozen_current h"
    and d: "d = DZ_DIRECTION_SHORT \<or> d = DZ_DIRECTION_LONG"
    and t: "tr_direction t = d" "0 < tr_volume t"
    and leg: "tr_position_effect t = DZ_POSITION_EFFECT_CLOSE_TODAY \<and> a = tr_volume t \<and> b = 0
      \<or> tr_position_effect t = DZ_POSITION_EFFECT_CLOSE_YESTDAY \<and> a = 0 \<and> b = tr_volume t"
    and fit: "a \<le> available_today c" "b \<le> available_yesterday c"
  shows "side_is (closing_side d (snd (apply_trade F t h)))
      (ps_today c - a) (ps_yd c - b) (ps_frozen_td c) (ps_frozen_yd c)"
    and "other_side d (snd (apply_trade F t h)) = other_side d h"
    and "holding_ok (snd (apply_trade F t h))" "frozen_current (snd (apply_trade F t h))"
proof -
  have ne: "tr_position_effect t \<noteq> DZ_POSITION_EFFECT_OPEN" using leg by auto
  note tr = apply_trade_closing [OF t(2) t(1) d ne h(2), where F = F]
  have "side_ok c" unfolding c_def by (rule closing_ok) (rule h)
  then have ok: "0 \<le> ps_frozen_td c" "ps_frozen_td c \<le> ps_today c" "0 \<le> ps_frozen_yd c" "ps_frozen_yd c \<le> ps_yd c"
    by (auto simp: side_ok_def)
  let ?s = "close_side F c t (ph_exchange h)"
  have s: "ps_today ?s = ps_today c - a" "ps_yd ?s = ps_yd c - b"
    using leg fit ok by (auto simp: close_side_def available_today_def available_yesterday_def Let_def)
  have "ps_frozen_td c \<le> ps_today c - a" "ps_today c - a \<le> ps_today c"
    "ps_frozen_yd c \<le> ps_yd c - b" "ps_yd c - b \<le> ps_yd c"
    using fit leg t(2) by (auto simp: available_today_def available_yesterday_def)
  note sh = recompute_shrink [OF closing_current [OF h(2) d, folded c_def] this s]
  show "side_is (closing_side d (snd (apply_trade F t h)))
      (ps_today c - a) (ps_yd c - b) (ps_frozen_td c) (ps_frozen_yd c)"
    using sh s by (simp add: side_is_def tr(1) c_def)
  show "other_side d (snd (apply_trade F t h)) = other_side d h" by (rule tr(2))
  show "holding_ok (snd (apply_trade F t h))" using position_step_ok [OF h(1), of F "Trade t"] by simp
  show "frozen_current (snd (apply_trade F t h))" using position_step_current [OF h(2), of F "Trade t"] by simp
qed

definition fill_all :: "('d, 'm) fp_scheme \<Rightarrow> 'd trade_report \<Rightarrow> 'd sub_request list \<Rightarrow> 'd position_holding \<Rightarrow> 'd position_holding" where
  "fill_all F t rs h = foldl (\<lambda>h r. snd (apply_trade F (fill_of t r) h)) h rs"

lemma fill_of_simps [simp]:
  "tr_direction (fill_of t r) = sr_direction r" "tr_volume (fill_of t r) = sr_volume r"
  "tr_position_effect (fill_of t r) = sr_effect r"
  by (simp_all add: fill_of_def)

lemma sub_req_simps [simp]:
  "sr_direction (sub_req rq e v) = rq_direction rq" "sr_effect (sub_req rq e v) = e"
  "sr_volume (sub_req rq e v) = v" "sr_price (sub_req rq e v) = rq_price rq"
  by (simp_all add: sub_req_def)

lemma fill_leg:
  fixes h :: "'d position_holding" and d v eff :: int
  assumes "holding_ok h" "frozen_current h" "rq_direction rq = d"
    and "d = DZ_DIRECTION_SHORT \<or> d = DZ_DIRECTION_LONG" "0 \<le> v"
    and "v \<le> (if eff = DZ_POSITION_EFFECT_CLOSE_TODAY then available_today (closing_side d h)
              else available_yesterday (closing_side d h))"
    and "eff = DZ_POSITION_EFFECT_CLOSE_TODAY \<or> eff = DZ_POSITION_EFFECT_CLOSE_YESTDAY"
    and "h' = fill_all F t (if 0 < v then [sub_req rq eff v] else []) h"
  shows "side_is (closing_side d h')
      (ps_today (closing_side d h) - (if eff = DZ_POSITION_EFFECT_CLOSE_TODAY then v else 0))
      (ps_yd (closing_side d h) - (if eff = DZ_POSITION_EFFECT_CLOSE_TODAY then 0 else v))
      (ps_frozen_td (closing_side d h)) (ps_frozen_yd (closing_side d h))"
    and "other_side d h' = other_side d h" "holding_ok h'" "frozen_current h'"
proof -
  have ok: "side_ok (closing_side d h)" by (rule closing_ok) fact
  have nn: "0 \<le> available_today (closing_side d h)" "0 \<le> available_yesterday (closing_side d h)"
    using ok by (auto simp: side_ok_def available_today_def available_yesterday_def)
  note w = fill_within_available [OF assms(1,2,4), where t = "fill_of t (sub_req rq eff v)" and F = F
      and a = "if eff = DZ_POSITION_EFFECT_CLOSE_TODAY then v else 0"
      and b = "if eff = DZ_POSITION_EFFECT_CLOSE_TODAY then 0 else v"]
  show "side_is (closing_side d h')
      (ps_today (closing_side d h) - (if eff = DZ_POSITION_EFFECT_CLOSE_TODAY then v else 0))
      (ps_yd (closing_side d h) - (if eff = DZ_POSITION_EFFECT_CLOSE_TODAY then 0 else v))
      (ps_frozen_td (closing_side d h)) (ps_frozen_yd (closing_side d h))"
    using w(1) assms nn by (cases "0 < v") (auto simp: fill_all_def side_is_def)
  show "other_side d h' = other_side d h" "holding_ok h'" "frozen_current h'"
    using w(2,3,4) assms nn by (cases "0 < v"; auto simp: fill_all_def)+
qed

lemma split_close_eq:
  assumes "0 \<le> td" "0 \<le> yd" "0 < rq_volume rq" "rq_volume rq < 2147483648"
  defines "a \<equiv> min (rq_volume rq) td"
  defines "b \<equiv> min (rq_volume rq - a) yd"
  shows "split_close rq td yd =
    (if 0 < a then [sub_req rq DZ_POSITION_EFFECT_CLOSE_TODAY a] else [])
    @ (if 0 < b then [sub_req rq DZ_POSITION_EFFECT_CLOSE_YESTDAY b] else [])"
  using assms by (auto simp: split_close_def Let_def)

lemma fill_all_append: "fill_all F t (rs @ rs') h = fill_all F t rs' (fill_all F t rs h)"
  by (simp add: fill_all_def)

lemma convert_shfe_close:
  "rq_position_effect rq = DZ_POSITION_EFFECT_CLOSE \<Longrightarrow>
   rq_direction rq = DZ_DIRECTION_SHORT \<or> rq_direction rq = DZ_DIRECTION_LONG \<Longrightarrow>
   convert_order_request rq h Mode_Shfe = split_close rq
     (available_today (closing_side (rq_direction rq) h)) (available_yesterday (closing_side (rq_direction rq) h))"
  by (auto simp: convert_order_request_def closing_side_def is_explicit_close_def)

section \<open>Properties\<close>

text \<open>C37: in the SHFE mode a generic close is split without losing or inventing volume: the legs add
  up to the requested volume capped by what the closed side has available, each is positive and
  within its own bucket, keeps direction and price, and the cast to a 32-bit volume loses
  nothing.\<close>

theorem shfe_split_exact:
  assumes "holding_ok h" and "0 < rq_volume rq" and "rq_volume rq < 2147483648"
    and "rq_position_effect rq = DZ_POSITION_EFFECT_CLOSE"
    and "rq_direction rq = DZ_DIRECTION_SHORT \<or> rq_direction rq = DZ_DIRECTION_LONG"
  shows "let c = closing_side (rq_direction rq) h; rs = convert_order_request rq h Mode_Shfe in
    total_volume rs = min (rq_volume rq) (side_volume c - side_frozen c)
    \<and> (\<forall>r \<in> set rs. 0 < sr_volume r \<and> sr_direction r = rq_direction rq \<and> sr_price r = rq_price rq
      \<and> (sr_effect r = DZ_POSITION_EFFECT_CLOSE_TODAY \<and> sr_volume r \<le> available_today c
         \<or> sr_effect r = DZ_POSITION_EFFECT_CLOSE_YESTDAY \<and> sr_volume r \<le> available_yesterday c))"
proof -
  let ?c = "closing_side (rq_direction rq) h"
  have ok: "side_ok ?c" by (rule closing_ok) fact
  note conv = convert_shfe_close [OF assms(4,5), of h]
  have "total_volume (convert_order_request rq h Mode_Shfe) = min (rq_volume rq) (side_volume ?c - side_frozen ?c)"
    unfolding conv long_close.split_total [OF ok assms(2,3)]
    by (simp add: available_today_def available_yesterday_def side_volume_def side_frozen_def)
  then show ?thesis
    using long_close.split_legs [OF ok assms(2,3)] unfolding conv Let_def by blast
qed

definition sample_holding :: "rat position_holding" where
  "sample_holding = (new_holding rat_fp ''rb2510'' ''SHFE'')\<lparr>ph_long :=
     \<lparr>ps_today = 3, ps_yd = 4, ps_price = 1, ps_frozen_td = 0, ps_frozen_yd = 0, ps_seq = 0\<rparr>\<rparr>"

lemma sample_holding_ok: "holding_ok sample_holding" "frozen_current sample_holding"
  by (simp_all add: sample_holding_def holding_ok_def new_holding_def side_ok_def empty_side_def
      frozen_current_def recompute_frozen_def recompute_side_no_orders)

theorem shfe_split_exact_witness:
  "total_volume (convert_order_request (sample_req (- 1) 2 5 (1::rat)) sample_holding Mode_Shfe) = 5"
  using shfe_split_exact [OF sample_holding_ok(1), of "sample_req (- 1) 2 5 (1::rat)"]
  by (simp add: sample_req_def closing_side_def side_volume_def side_frozen_def Let_def)
    (simp add: sample_holding_def)

text \<open>the split never bites: when every leg is filled completely, at any price, the closed side
  loses exactly the split volumes from today and yesterday, nothing is clamped, the volume frozen
  for the other working orders stays frozen, and the opposite side is untouched.\<close>

theorem shfe_split_filled:
  assumes "holding_ok h" and "frozen_current h"
    and "0 < rq_volume rq" and "rq_volume rq < 2147483648"
    and "rq_position_effect rq = DZ_POSITION_EFFECT_CLOSE"
    and d: "rq_direction rq = DZ_DIRECTION_SHORT \<or> rq_direction rq = DZ_DIRECTION_LONG"
  shows "let c = closing_side (rq_direction rq) h;
             a = min (rq_volume rq) (available_today c);
             b = min (rq_volume rq - a) (available_yesterday c);
             h' = fill_all F t (convert_order_request rq h Mode_Shfe) h
         in side_is (closing_side (rq_direction rq) h') (ps_today c - a) (ps_yd c - b)
              (ps_frozen_td c) (ps_frozen_yd c)
            \<and> other_side (rq_direction rq) h' = other_side (rq_direction rq) h"
proof -
  let ?d = "rq_direction rq" and ?c = "closing_side (rq_direction rq) h"
  define a where "a = min (rq_volume rq) (available_today ?c)"
  define b where "b = min (rq_volume rq - a) (available_yesterday ?c)"
  have ok: "side_ok ?c" by (rule closing_ok) fact
  then have nn: "0 \<le> available_today ?c" "0 \<le> available_yesterday ?c"
    by (auto simp: side_ok_def available_today_def available_yesterday_def)
  define h1 where "h1 = fill_all F t (if 0 < a then [sub_req rq DZ_POSITION_EFFECT_CLOSE_TODAY a] else []) h"
  define h2 where "h2 = fill_all F t (if 0 < b then [sub_req rq DZ_POSITION_EFFECT_CLOSE_YESTDAY b] else []) h1"
  have h2: "fill_all F t (convert_order_request rq h Mode_Shfe) h = h2"
    unfolding convert_shfe_close [OF assms(5) d] h2_def h1_def a_def b_def
    by (simp only: split_close_eq [OF nn assms(3,4)] fill_all_append)
  note l1 = fill_leg [OF assms(1,2) refl d, where v = a and eff = 3 and F = F and t = t and h' = h1]
  have one: "side_is (closing_side ?d h1) (ps_today ?c - a) (ps_yd ?c) (ps_frozen_td ?c) (ps_frozen_yd ?c)"
    "other_side ?d h1 = other_side ?d h" "holding_ok h1" "frozen_current h1"
    using l1 nn assms(3) by (auto simp: a_def h1_def)
  have av: "available_yesterday (closing_side ?d h1) = available_yesterday ?c"
    using one(1) by (simp add: side_is_def available_yesterday_def)
  note l2 = fill_leg [OF one(3,4) refl d, where v = b and eff = 4 and F = F and t = t and h' = h2]
  have "side_is (closing_side ?d h2) (ps_today ?c - a) (ps_yd ?c - b) (ps_frozen_td ?c) (ps_frozen_yd ?c)"
    "other_side ?d h2 = other_side ?d h"
    using l2 nn one assms(3) by (auto simp: av a_def b_def h2_def side_is_def)
  then show ?thesis
    unfolding h2 Let_def a_def [symmetric] b_def [symmetric] by simp
qed

theorem shfe_split_filled_witness:
  "ps_today (ph_long (fill_all rat_fp (sample_trade 1 1 1 2)
      (convert_order_request (sample_req (- 1) 2 5 1) sample_holding Mode_Shfe) sample_holding)) = 0"
  using shfe_split_filled [OF sample_holding_ok, of "sample_req (- 1) 2 5 1" rat_fp "sample_trade 1 1 1 2"]
  by (simp add: sample_req_def closing_side_def side_is_def Let_def available_today_def)
    (simp add: sample_holding_def)

end
