(* ===== verification/Shm_Store.thy ===== *)
theory Shm_Store
  imports Dz_Prelude "HOL-Library.Word"
begin

text \<open>
  The page files of a shared-memory channel (\<open>libs/shm\<close>) and the pool through which a process
  maps them (\<open>src/page_pool.cpp\<close>, \<open>src/page_impl.h\<close>).

  A page file is a directory entry that names an inode; a mapping holds on to the inode, so a
  page that was unlinked by the cleaner stays readable for whoever still maps it, and a file
  created later under the same name is a different inode. What the operating system may refuse
  (creating, resizing, opening or mapping a file) is an argument of the operations.
\<close>

section \<open>Page files\<close>

type_synonym byte = "8 word"

record page_file =
  pf_size :: nat
  pf_data :: "nat \<Rightarrow> byte"

record store =
  st_files :: "(nat \<times> nat) list"
  st_inodes :: "nat \<Rightarrow> page_file"
  st_next :: nat

abbreviation (input) st_dir :: "store \<Rightarrow> nat \<Rightarrow> nat option" where
  "st_dir st \<equiv> map_of (st_files st)"

definition empty_store :: store where
  "empty_store = \<lparr>st_files = [], st_inodes = (\<lambda>_. \<lparr>pf_size = 0, pf_data = (\<lambda>_. 0)\<rparr>), st_next = 0\<rparr>"

text \<open>Creating an empty file, setting its size (new bytes are zero), writing into a mapping.\<close>

definition create_file :: "nat \<Rightarrow> store \<Rightarrow> store" where
  "create_file p st = st\<lparr>st_files := AList.update p (st_next st) (st_files st),
     st_inodes := (st_inodes st)(st_next st := \<lparr>pf_size = 0, pf_data = (\<lambda>_. 0)\<rparr>),
     st_next := Suc (st_next st)\<rparr>"

definition resize_file :: "nat \<Rightarrow> nat \<Rightarrow> store \<Rightarrow> store" where
  "resize_file i n st =
     (let f = st_inodes st i
      in st\<lparr>st_inodes := (st_inodes st)(i := \<lparr>pf_size = n,
           pf_data = (\<lambda>k. if k < pf_size f \<and> k < n then pf_data f k else 0)\<rparr>)\<rparr>)"

definition write_bytes :: "nat \<Rightarrow> nat \<Rightarrow> byte list \<Rightarrow> store \<Rightarrow> store" where
  "write_bytes i off bs st =
     (let f = st_inodes st i
      in st\<lparr>st_inodes := (st_inodes st)(i := f\<lparr>pf_data :=
           (\<lambda>k. if off \<le> k \<and> k < off + length bs then bs ! (k - off) else pf_data f k)\<rparr>)\<rparr>)"

definition read_bytes :: "store \<Rightarrow> nat \<Rightarrow> nat \<Rightarrow> nat \<Rightarrow> byte list" where
  "read_bytes st i off n = map (\<lambda>k. pf_data (st_inodes st i) (off + k)) [0..<n]"

definition unlink_files :: "(nat \<Rightarrow> bool) \<Rightarrow> store \<Rightarrow> store" where
  "unlink_files gone st = st\<lparr>st_files := filter (\<lambda>(p, i). \<not> gone p) (st_files st)\<rparr>"

section \<open>Errors and the operating system\<close>

datatype shm_error =
    Align_Error | Open_Failed | Create_Failed | Map_Failed | Read_Invalid | Frame_Invalid
  | Subscriber_Failed | File_Remove_Failed

datatype os_outcome = Os_Ok | Os_No_Create | Os_No_Resize | Os_No_Open | Os_No_Map

section \<open>The page pool\<close>

record page =
  pg_id :: nat
  pg_inode :: nat

record page_pool =
  pp_pages :: "nat \<Rightarrow> nat option"
  pp_read_only :: bool

definition new_pool :: "bool \<Rightarrow> page_pool" where
  "new_pool ro = \<lparr>pp_pages = Map.empty, pp_read_only = ro\<rparr>"

text \<open>
  A reader opens the file only if it exists with the size of a page. A writer creates a
  missing file and resizes one of another size. Both run under the meta lock.
\<close>

definition ready_file :: "nat \<Rightarrow> os_outcome \<Rightarrow> bool \<Rightarrow> nat \<Rightarrow> store \<Rightarrow> (shm_error + nat) \<times> store" where
  "ready_file ps out ro p st =
     (if ro
      then (case st_dir st p of
              None \<Rightarrow> (Inl Open_Failed, st)
            | Some i \<Rightarrow> if pf_size (st_inodes st i) \<noteq> ps then (Inl Open_Failed, st) else (Inr i, st))
      else if st_dir st p = None \<and> out = Os_No_Create then (Inl Create_Failed, st)
      else let st1 = (if st_dir st p = None then create_file p st else st);
               i = the (st_dir st1 p)
           in if pf_size (st_inodes st1 i) = ps then (Inr i, st1)
              else if out = Os_No_Resize then (Inl Create_Failed, st1)
              else (Inr i, resize_file i ps st1))"

definition map_page :: "os_outcome \<Rightarrow> nat \<Rightarrow> shm_error + nat" where
  "map_page out i =
     (if out = Os_No_Open then Inl Open_Failed else if out = Os_No_Map then Inl Map_Failed else Inr i)"

definition get_page :: "nat \<Rightarrow> os_outcome \<Rightarrow> page_pool \<Rightarrow> nat \<Rightarrow> store \<Rightarrow> (shm_error + page) \<times> page_pool \<times> store" where
  "get_page ps out pool p st =
     (case pp_pages pool p of
        Some i \<Rightarrow> (Inr \<lparr>pg_id = p, pg_inode = i\<rparr>, pool, st)
      | None \<Rightarrow>
          (case ready_file ps out (pp_read_only pool) p st of
             (Inl e, st1) \<Rightarrow> (Inl e, pool, st1)
           | (Inr i, st1) \<Rightarrow>
               (case map_page out i of
                  Inl e \<Rightarrow> (Inl e, pool, st1)
                | Inr j \<Rightarrow> (Inr \<lparr>pg_id = p, pg_inode = j\<rparr>,
                            pool\<lparr>pp_pages := (pp_pages pool)(p \<mapsto> j)\<rparr>, st1))))"

definition prefetch_page :: "nat \<Rightarrow> os_outcome \<Rightarrow> page_pool \<Rightarrow> nat \<Rightarrow> store \<Rightarrow> bool \<times> page_pool \<times> store" where
  "prefetch_page ps out pool p st =
     (case pp_pages pool p of
        Some i \<Rightarrow> (True, pool, st)
      | None \<Rightarrow>
          (case ready_file ps out (pp_read_only pool) p st of
             (Inl e, st1) \<Rightarrow> (False, pool, st1)
           | (Inr i, st1) \<Rightarrow>
               (case map_page out i of
                  Inl e \<Rightarrow> (False, pool, st1)
                | Inr j \<Rightarrow> (True, pool\<lparr>pp_pages := (pp_pages pool)(p \<mapsto> j)\<rparr>, st1))))"

fun prefetch_range :: "nat \<Rightarrow> (nat \<Rightarrow> os_outcome) \<Rightarrow> nat list \<Rightarrow> page_pool \<Rightarrow> store \<Rightarrow> page_pool \<times> store" where
  "prefetch_range ps os [] pool st = (pool, st)"
| "prefetch_range ps os (p # ids) pool st =
     (case prefetch_page ps (os p) pool p st of (_, pool', st') \<Rightarrow> prefetch_range ps os ids pool' st')"

definition close_pages_before :: "nat \<Rightarrow> page_pool \<Rightarrow> page_pool" where
  "close_pages_before p pool =
     pool\<lparr>pp_pages := (\<lambda>q. if q < p then None else pp_pages pool q)\<rparr>"

section \<open>The channel as one address space\<close>

text \<open>
  Position \<open>a\<close> of a channel is byte \<open>a mod ps\<close> of page \<open>a div ps\<close>; it exists when that page
  file exists with the size of a page.
\<close>

definition has_page :: "nat \<Rightarrow> store \<Rightarrow> nat \<Rightarrow> nat \<Rightarrow> bool" where
  "has_page ps st p i \<longleftrightarrow> st_dir st p = Some i \<and> pf_size (st_inodes st i) = ps"

definition mem :: "nat \<Rightarrow> store \<Rightarrow> nat \<Rightarrow> byte option" where
  "mem ps st a =
     (case st_dir st (a div ps) of
        None \<Rightarrow> None
      | Some i \<Rightarrow> if pf_size (st_inodes st i) = ps then Some (pf_data (st_inodes st i) (a mod ps)) else None)"

definition store_wf :: "store \<Rightarrow> bool" where
  "store_wf st \<longleftrightarrow> distinct (keys (st_files st)) \<and>
     (\<forall>p q i. st_dir st p = Some i \<longrightarrow> st_dir st q = Some i \<longrightarrow> p = q) \<and>
     (\<forall>p i. st_dir st p = Some i \<longrightarrow> i < st_next st)"

text \<open>The mappings of a pool are current from page \<open>lo\<close> on.\<close>

definition pool_ok :: "nat \<Rightarrow> nat \<Rightarrow> store \<Rightarrow> page_pool \<Rightarrow> bool" where
  "pool_ok ps lo st pool \<longleftrightarrow> (\<forall>p i. lo \<le> p \<longrightarrow> pp_pages pool p = Some i \<longrightarrow> has_page ps st p i)"

definition store_le :: "nat \<Rightarrow> nat \<Rightarrow> store \<Rightarrow> store \<Rightarrow> bool" where
  "store_le ps lo st st' \<longleftrightarrow> (\<forall>p i. lo \<le> p \<longrightarrow> has_page ps st p i \<longrightarrow>
     has_page ps st' p i \<and> pf_data (st_inodes st' i) = pf_data (st_inodes st i))"

section \<open>What every pool operation keeps\<close>

lemma store_le_refl [simp]: "store_le ps lo st st"
  by (simp add: store_le_def)

lemma store_le_trans: "store_le ps lo st st1 \<Longrightarrow> store_le ps lo st1 st2 \<Longrightarrow> store_le ps lo st st2"
  by (fastforce simp: store_le_def)

lemma store_le_mono: "store_le ps lo st st' \<Longrightarrow> lo \<le> lo' \<Longrightarrow> store_le ps lo' st st'"
  unfolding store_le_def by (meson le_trans)

lemma store_le_mem:
  "store_le ps lo st st' \<Longrightarrow> lo \<le> a div ps \<Longrightarrow> mem ps st a = Some b \<Longrightarrow> mem ps st' a = Some b"
  by (auto simp: store_le_def mem_def has_page_def split: option.splits if_splits)

lemma pool_ok_le: "pool_ok ps lo st pool \<Longrightarrow> store_le ps lo st st' \<Longrightarrow> pool_ok ps lo st' pool"
  by (auto simp: pool_ok_def store_le_def)

lemma pool_ok_mono: "pool_ok ps lo st pool \<Longrightarrow> lo \<le> lo' \<Longrightarrow> pool_ok ps lo' st pool"
  by (auto simp: pool_ok_def)

lemma pool_ok_new [simp]: "pool_ok ps lo st (new_pool ro)"
  by (simp add: pool_ok_def new_pool_def)

lemma pool_ok_add: "pool_ok ps lo st pool \<Longrightarrow> has_page ps st p i \<Longrightarrow>
  pool_ok ps lo st (pool\<lparr>pp_pages := (pp_pages pool)(p \<mapsto> i)\<rparr>)"
  by (auto simp: pool_ok_def)

lemma pool_ok_close [simp]: "pool_ok ps lo st pool \<Longrightarrow> pool_ok ps lo st (close_pages_before p pool)"
  by (auto simp: pool_ok_def close_pages_before_def split: if_splits)

lemma close_pages_before_ro [simp]: "pp_read_only (close_pages_before p pool) = pp_read_only pool"
  by (simp add: close_pages_before_def)

lemma wf_dir_next: "store_wf st \<Longrightarrow> st_dir st p = Some i \<Longrightarrow> i < st_next st"
  by (auto simp: store_wf_def)

lemma wf_dir_inj: "store_wf st \<Longrightarrow> st_dir st p = Some i \<Longrightarrow> st_dir st q = Some i \<Longrightarrow> p = q"
  by (auto simp: store_wf_def)

lemma empty_store_wf [simp]: "store_wf empty_store"
  by (simp add: store_wf_def empty_store_def)

lemma create_file_wf: "store_wf st \<Longrightarrow> store_wf (create_file p st)"
  unfolding store_wf_def create_file_def by (simp add: less_Suc_eq) (metis less_irrefl_nat)

lemma create_file_dir [simp]: "st_dir (create_file p st) = (st_dir st)(p \<mapsto> st_next st)"
  by (simp add: create_file_def)

lemma create_file_le: "store_wf st \<Longrightarrow> st_dir st p = None \<Longrightarrow> store_le ps lo st (create_file p st)"
  by (auto simp: store_le_def has_page_def create_file_def dest: wf_dir_next)

lemma resize_file_dir [simp]: "st_files (resize_file i n st) = st_files st"
  "st_next (resize_file i n st) = st_next st"
  by (simp_all add: resize_file_def Let_def)

lemma resize_file_wf [simp]: "store_wf (resize_file i n st) = store_wf st"
  by (simp add: store_wf_def)

lemma resize_file_le: "pf_size (st_inodes st i) \<noteq> ps \<Longrightarrow> store_le ps lo st (resize_file i ps st)"
  by (auto simp: store_le_def has_page_def resize_file_def Let_def)

lemma resize_file_has: "st_dir st p = Some i \<Longrightarrow> has_page ps (resize_file i ps st) p i"
  by (simp add: has_page_def resize_file_def Let_def)

lemma write_bytes_dir [simp]: "st_files (write_bytes i off bs st) = st_files st"
  "st_next (write_bytes i off bs st) = st_next st"
  "pf_size (st_inodes (write_bytes i off bs st) j) = pf_size (st_inodes st j)"
  by (simp_all add: write_bytes_def Let_def)

lemma write_bytes_Nil [simp]: "write_bytes i off [] st = st"
proof -
  have "(\<lambda>k. if off \<le> k \<and> k < off + length [] then [] ! (k - off) else pf_data f k) = pf_data f" for f
    by (rule ext) auto
  moreover have "f\<lparr>pf_data := pf_data f\<rparr> = f" for f :: page_file by simp
  ultimately have "(st_inodes st)(i := (st_inodes st i)\<lparr>pf_data :=
      \<lambda>k. if off \<le> k \<and> k < off + length [] then [] ! (k - off) else pf_data (st_inodes st i) k\<rparr>) = st_inodes st"
    by (metis fun_upd_triv)
  then show ?thesis by (simp only: write_bytes_def Let_def) simp
qed

lemma write_bytes_wf [simp]: "store_wf (write_bytes i off bs st) = store_wf st"
  by (simp add: store_wf_def)

lemma write_bytes_has [simp]: "has_page ps (write_bytes i off bs st) p j = has_page ps st p j"
  by (simp add: has_page_def)

lemma write_bytes_pool [simp]: "pool_ok ps lo (write_bytes i off bs st) pool = pool_ok ps lo st pool"
  by (simp add: pool_ok_def)

text \<open>A write changes exactly the addressed bytes of the channel.\<close>

lemma mem_write_bytes:
  assumes wf: "store_wf st" and pg: "has_page ps st p i" and fits: "off + length bs \<le> ps" and ps: "0 < ps"
  shows "mem ps (write_bytes i off bs st) a =
    (if p * ps + off \<le> a \<and> a < p * ps + off + length bs then Some (bs ! (a - (p * ps + off))) else mem ps st a)"
proof (cases "a div ps = p")
  case True
  have a: "a = p * ps + a mod ps" using True by (metis div_mult_mod_eq)
  have "(p * ps + off \<le> a \<and> a < p * ps + off + length bs) = (off \<le> a mod ps \<and> a mod ps < off + length bs)"
    "a - (p * ps + off) = a mod ps - off"
    using a by linarith+
  then show ?thesis
    using True pg by (simp add: mem_def has_page_def write_bytes_def Let_def)
next
  case False
  have "\<not> (p * ps + off \<le> a \<and> a < p * ps + off + length bs)"
  proof
    assume h: "p * ps + off \<le> a \<and> a < p * ps + off + length bs"
    then have "p * ps \<le> a" "a < ps + p * ps" using fits by linarith+
    then have "a div ps = p" by (intro div_nat_eqI) (simp_all add: mult.commute)
    then show False using False by simp
  qed
  moreover have "st_dir st (a div ps) \<noteq> Some i" using wf_dir_inj [OF wf] pg False by (auto simp: has_page_def)
  ultimately show ?thesis
    by (auto simp: mem_def write_bytes_def Let_def split: option.split)
qed

lemma ready_file_spec:
  assumes "store_wf st" and "ready_file ps out ro p st = (r, st')"
  shows "store_wf st' \<and> store_le ps lo st st' \<and> (ro \<longrightarrow> st' = st) \<and> (\<forall>i. r = Inr i \<longrightarrow> has_page ps st' p i)"
proof (cases ro)
  case True
  then show ?thesis using assms
    by (auto simp: ready_file_def has_page_def split: option.splits if_splits)
next
  case False
  define st1 where "st1 = (if st_dir st p = None then create_file p st else st)"
  show ?thesis
  proof (cases "st_dir st p = None \<and> out = Os_No_Create")
    case True
    then show ?thesis using assms False by (auto simp: ready_file_def)
  next
    case c: False
    obtain i where i: "st_dir st1 p = Some i"
      by (cases "st_dir st p") (simp_all add: st1_def)
    have wf1: "store_wf st1" and le1: "store_le ps lo st st1"
      using assms(1) create_file_wf create_file_le by (auto simp: st1_def)
    have r: "(r, st') = (if pf_size (st_inodes st1 i) = ps then (Inr i, st1)
              else if out = Os_No_Resize then (Inl Create_Failed, st1)
              else (Inr i, resize_file i ps st1))"
      using assms(2) c False i by (auto simp: ready_file_def Let_def simp flip: st1_def split: if_splits)
    show ?thesis using r wf1 le1 i False resize_file_le [of st1 i ps lo] resize_file_has [OF i]
      by (auto simp: has_page_def intro: store_le_trans split: if_splits)
  qed
qed

lemma get_page_spec:
  assumes "store_wf st" and "pool_ok ps lo st pool" and "get_page ps out pool p st = (r, pool', st')"
  shows "store_wf st' \<and> store_le ps 0 st st' \<and> pool_ok ps lo st' pool' \<and>
    pp_read_only pool' = pp_read_only pool \<and> (pp_read_only pool \<longrightarrow> st' = st) \<and>
    (\<forall>pg. r = Inr pg \<longrightarrow> pg_id pg = p \<and> (lo \<le> p \<longrightarrow> has_page ps st' p (pg_inode pg)))"
proof (cases "pp_pages pool p")
  case (Some i)
  then show ?thesis using assms by (auto simp: get_page_def pool_ok_def)
next
  case None
  obtain rr st1 where rf: "ready_file ps out (pp_read_only pool) p st = (rr, st1)" by fastforce
  note sp = ready_file_spec [OF assms(1) rf]
  have ok: "pool_ok ps lo st1 pool" using assms(2) sp pool_ok_le by blast
  show ?thesis
    using assms(3) None rf sp ok
    by (auto simp: get_page_def map_page_def intro: pool_ok_add split: sum.splits if_splits)
qed

lemma prefetch_page_spec:
  assumes "store_wf st" and "pool_ok ps lo st pool" and "prefetch_page ps out pool p st = (b, pool', st')"
  shows "store_wf st' \<and> store_le ps 0 st st' \<and> pool_ok ps lo st' pool' \<and>
    pp_read_only pool' = pp_read_only pool \<and> (pp_read_only pool \<longrightarrow> st' = st)"
proof (cases "pp_pages pool p")
  case (Some i)
  then show ?thesis using assms by (auto simp: prefetch_page_def)
next
  case None
  obtain rr st1 where rf: "ready_file ps out (pp_read_only pool) p st = (rr, st1)" by fastforce
  note sp = ready_file_spec [OF assms(1) rf]
  have ok: "pool_ok ps lo st1 pool" using assms(2) sp pool_ok_le by blast
  show ?thesis
    using assms(3) None rf sp ok
    by (auto simp: prefetch_page_def map_page_def intro: pool_ok_add split: sum.splits if_splits)
qed

lemma prefetch_range_spec:
  assumes "store_wf st" and "pool_ok ps lo st pool" and "prefetch_range ps os ids pool st = (pool', st')"
  shows "store_wf st' \<and> store_le ps 0 st st' \<and> pool_ok ps lo st' pool' \<and>
    pp_read_only pool' = pp_read_only pool \<and> (pp_read_only pool \<longrightarrow> st' = st)"
  using assms
proof (induction ids arbitrary: pool st)
  case Nil
  then show ?case by simp
next
  case (Cons p ids)
  obtain b pool1 st1 where p: "prefetch_page ps (os p) pool p st = (b, pool1, st1)"
    by (cases "prefetch_page ps (os p) pool p st")
  note sp = prefetch_page_spec [OF Cons.prems(1,2) p]
  have "store_wf st' \<and> store_le ps 0 st1 st' \<and> pool_ok ps lo st' pool' \<and>
    pp_read_only pool' = pp_read_only pool1 \<and> (pp_read_only pool1 \<longrightarrow> st' = st1)"
    using Cons.IH [of st1 pool1] Cons.prems(3) p sp by simp
  then show ?case using sp store_le_trans by auto
qed

text \<open>Removing files keeps what lies above the removed ones.\<close>

lemma unlink_dir: "st_dir (unlink_files gone st) p = (if gone p then None else st_dir st p)"
proof -
  have "map_of (filter (\<lambda>(p, i). \<not> gone p) xs) p = (if gone p then None else map_of xs p)"
    for xs :: "(nat \<times> nat) list"
    by (induction xs) auto
  then show ?thesis by (simp add: unlink_files_def)
qed

lemma unlink_inodes [simp]: "st_inodes (unlink_files gone st) = st_inodes st"
  "st_next (unlink_files gone st) = st_next st"
  by (simp_all add: unlink_files_def)

lemma unlink_le: "(\<And>p. gone p \<Longrightarrow> p < lo) \<Longrightarrow> store_le ps lo st (unlink_files gone st)"
  unfolding store_le_def has_page_def unlink_dir unlink_inodes by (metis not_le)

lemma unlink_wf: "store_wf st \<Longrightarrow> store_wf (unlink_files gone st)"
  unfolding store_wf_def unlink_dir unlink_inodes
  by (auto simp: unlink_files_def keys_def distinct_map_filter)

end
