(* ===== verification/Shm_Frames.thy ===== *)
theory Shm_Frames
  imports Shm_Store
begin

text \<open>
  The layout of frames in a channel: the eight-byte header \<open>DzFrameHeader\<close> (a little-endian
  32-bit size, a 16-bit type and two bytes no writer sets), the filler at the end of a page
  and the chain of frames between two positions, over the channel's memory as \<open>mem\<close> gives it.
\<close>

section \<open>Bytes\<close>

definition put16 :: "nat \<Rightarrow> byte list" where
  "put16 n = map (\<lambda>k. of_nat (n div 256 ^ k mod 256)) [0, 1]"

definition put32 :: "nat \<Rightarrow> byte list" where
  "put32 n = map (\<lambda>k. of_nat (n div 256 ^ k mod 256)) [0, 1, 2, 3]"

definition get16 :: "(nat \<Rightarrow> byte) \<Rightarrow> nat \<Rightarrow> nat" where
  "get16 d a = unat (d a) + 256 * unat (d (a + 1))"

definition get32 :: "(nat \<Rightarrow> byte) \<Rightarrow> nat \<Rightarrow> nat" where
  "get32 d a = unat (d a) + 256 * unat (d (a + 1)) + 65536 * unat (d (a + 2)) + 16777216 * unat (d (a + 3))"

text \<open>The two header fields a writer sets; \<open>frame_size\<close> is cast to 32 bits by \<open>put32\<close>.\<close>

definition frame_header :: "nat \<Rightarrow> nat \<Rightarrow> byte list" where
  "frame_header sz ty = put32 sz @ put16 ty"

definition hdr_size :: "(nat \<Rightarrow> byte) \<Rightarrow> nat \<Rightarrow> nat" where
  "hdr_size d off = get32 d off"

definition hdr_type :: "(nat \<Rightarrow> byte) \<Rightarrow> nat \<Rightarrow> nat" where
  "hdr_type d off = get16 d (off + 4)"

lemma length_puts [simp]: "length (put16 n) = 2" "length (put32 n) = 4"
  "length (frame_header sz ty) = 6"
  by (simp_all add: put16_def put32_def frame_header_def)

lemma unat_byte [simp]: "unat (of_nat (n mod 256) :: byte) = n mod 256"
  by (simp add: unat_of_nat)

lemma split_256: "(n :: nat) mod (256 * k) = n mod 256 + 256 * (n div 256 mod k)"
  by (simp add: mod_mult2_eq)

lemma get16_put16:
  assumes "\<forall>k < 2. d (a + k) = put16 n ! k"
  shows "get16 d a = n mod 65536"
proof -
  have "d a = of_nat (n mod 256)" "d (a + 1) = of_nat (n div 256 mod 256)"
    using spec [OF assms, of 0] spec [OF assms, of 1] by (simp_all add: put16_def)
  then show ?thesis using split_256 [of n 256] by (simp add: get16_def)
qed

lemma get32_put32:
  assumes "\<forall>k < 4. d (a + k) = put32 n ! k"
  shows "get32 d a = n mod 4294967296"
proof -
  have "d a = of_nat (n mod 256)" "d (a + 1) = of_nat (n div 256 mod 256)"
    "d (a + 2) = of_nat (n div 65536 mod 256)" "d (a + 3) = of_nat (n div 16777216 mod 256)"
    using spec [OF assms, of 0] spec [OF assms, of 1] spec [OF assms, of 2] spec [OF assms, of 3]
    by (simp_all add: put32_def numeral_2_eq_2 numeral_3_eq_3)
  moreover have "n mod 4294967296 = n mod 256 + 256 * (n div 256 mod 16777216)"
    "n div 256 mod 16777216 = n div 256 mod 256 + 256 * (n div 65536 mod 65536)"
    "n div 65536 mod 65536 = n div 65536 mod 256 + 256 * (n div 16777216 mod 256)"
    using split_256 [of n 16777216] split_256 [of "n div 256" 65536] split_256 [of "n div 65536" 256]
    by (simp_all add: div_mult2_eq [symmetric])
  ultimately show ?thesis by (simp add: get32_def)
qed

section \<open>Bytes of the channel\<close>

definition bytes_at :: "(nat \<Rightarrow> byte option) \<Rightarrow> nat \<Rightarrow> byte list \<Rightarrow> bool" where
  "bytes_at m a bs \<longleftrightarrow> (\<forall>k < length bs. m (a + k) = Some (bs ! k))"

text \<open>
  What a step leaves alone: the pages from \<open>lo\<close> on stay mapped where they are, and the bytes
  from there up to position \<open>n\<close> keep their value.
\<close>

definition keeps :: "nat \<Rightarrow> nat \<Rightarrow> nat \<Rightarrow> store \<Rightarrow> store \<Rightarrow> bool" where
  "keeps ps lo n st st' \<longleftrightarrow>
     (\<forall>p i. lo \<le> p \<longrightarrow> has_page ps st p i \<longrightarrow> has_page ps st' p i) \<and>
     (\<forall>a b. lo \<le> a div ps \<longrightarrow> a < n \<longrightarrow> mem ps st a = Some b \<longrightarrow> mem ps st' a = Some b)"

lemma keeps_refl [simp]: "keeps ps lo n st st"
  by (simp add: keeps_def)

lemma keeps_trans: "keeps ps lo n st st1 \<Longrightarrow> keeps ps lo n st1 st2 \<Longrightarrow> keeps ps lo n st st2"
  by (simp add: keeps_def)

lemma keeps_mono: "keeps ps lo n st st' \<Longrightarrow> lo \<le> lo' \<Longrightarrow> n' \<le> n \<Longrightarrow> keeps ps lo' n' st st'"
  unfolding keeps_def by (meson le_trans less_le_trans)

lemma store_le_keeps: "store_le ps lo st st' \<Longrightarrow> keeps ps lo n st st'"
  using store_le_mem by (auto simp: keeps_def) (auto simp: store_le_def)

lemma pool_ok_keeps: "pool_ok ps lo st pool \<Longrightarrow> keeps ps lo n st st' \<Longrightarrow> pool_ok ps lo st' pool"
  by (auto simp: pool_ok_def keeps_def)

lemma keeps_write:
  assumes "store_wf st" "has_page ps st p i" "off + length bs \<le> ps" "0 < ps" "n \<le> p * ps + off"
  shows "keeps ps lo n st (write_bytes i off bs st)"
  using assms(5) by (auto simp: keeps_def mem_write_bytes [OF assms(1-4)])

lemma bytes_at_keeps:
  assumes "bytes_at (mem ps st) a bs" "keeps ps lo n st st'" "lo * ps \<le> a" "a + length bs \<le> n" "0 < ps"
  shows "bytes_at (mem ps st') a bs"
proof -
  have "lo \<le> (a + k) div ps" for k
    using assms(3,5) by (metis div_le_mono le_add1 le_trans nonzero_mult_div_cancel_right not_gr_zero)
  then show ?thesis using assms(1,2,4) by (auto simp: bytes_at_def keeps_def)
qed

lemma bytes_at_write:
  assumes "store_wf st" "has_page ps st p i" "off + length bs \<le> ps" "0 < ps"
  shows "bytes_at (mem ps (write_bytes i off bs st)) (p * ps + off) bs"
  by (simp add: bytes_at_def mem_write_bytes [OF assms])

lemma bytes_at_write_other:
  assumes "store_wf st" "has_page ps st p i" "off + length bs \<le> ps" "0 < ps"
    and "bytes_at (mem ps st) a xs" and "a + length xs \<le> p * ps + off \<or> p * ps + off + length bs \<le> a"
  shows "bytes_at (mem ps (write_bytes i off bs st)) a xs"
  using assms(5,6) by (auto simp: bytes_at_def mem_write_bytes [OF assms(1-4)])

lemma mem_page: "has_page ps st p i \<Longrightarrow> k < ps \<Longrightarrow> mem ps st (p * ps + k) = Some (pf_data (st_inodes st i) k)"
  by (simp add: mem_def has_page_def)

lemma bytes_at_page:
  assumes "has_page ps st p i" "off + length bs \<le> ps"
  shows "bytes_at (mem ps st) (p * ps + off) bs \<longleftrightarrow> (\<forall>k < length bs. pf_data (st_inodes st i) (off + k) = bs ! k)"
  using assms mem_page [OF assms(1)] by (auto simp: bytes_at_def add.assoc)

lemma read_bytes_at:
  assumes "has_page ps st p i" "off + length bs \<le> ps" "bytes_at (mem ps st) (p * ps + off) bs"
  shows "read_bytes st i off (length bs) = bs"
  using assms bytes_at_page [OF assms(1,2)] by (auto simp: read_bytes_def intro: nth_equalityI)

lemma header_read:
  assumes "has_page ps st p i" "off + 6 \<le> ps" "bytes_at (mem ps st) (p * ps + off) (frame_header sz ty)"
  shows "hdr_size (pf_data (st_inodes st i)) off = sz mod 4294967296"
    "hdr_type (pf_data (st_inodes st i)) off = ty mod 65536"
proof -
  let ?d = "pf_data (st_inodes st i)"
  have b: "?d (off + k) = (put32 sz @ put16 ty) ! k" if "k < 6" for k
    using bytes_at_page [OF assms(1), of off "frame_header sz ty"] assms(2,3) that
    by (simp add: frame_header_def)
  have "?d (off + k) = put32 sz ! k" if "k < 4" for k using b [of k] that by (simp add: nth_append)
  then show "hdr_size ?d off = sz mod 4294967296" by (simp add: hdr_size_def get32_put32)
  have "?d (off + 4 + k) = put16 ty ! k" if "k < 2" for k
    using b [of "4 + k"] that by (simp add: nth_append add.assoc)
  then show "hdr_type ?d off = ty mod 65536" by (simp add: hdr_type_def get16_put16)
qed

section \<open>Frames and chains\<close>

type_synonym frame = "nat \<times> byte list"

definition frame_bytes :: "byte list \<Rightarrow> nat" where
  "frame_bytes data = 8 + length data"

definition frame_at :: "nat \<Rightarrow> (nat \<Rightarrow> byte option) \<Rightarrow> nat \<Rightarrow> frame \<Rightarrow> bool" where
  "frame_at ps m s f \<longleftrightarrow> (case f of (ty, data) \<Rightarrow>
     0 < ty \<and> ty < 65536 \<and> frame_bytes data < 4294967296 \<and> s mod ps + frame_bytes data \<le> ps \<and>
     bytes_at m s (frame_header (frame_bytes data) ty) \<and> bytes_at m (s + 8) data)"

text \<open>
  From position \<open>e\<close> the next frame starts at \<open>e\<close> itself or, when the rest of the page was too
  short for it, at the next page; a rest of at least eight bytes holds a fill frame.
\<close>

definition gap :: "nat \<Rightarrow> (nat \<Rightarrow> byte option) \<Rightarrow> nat \<Rightarrow> nat \<Rightarrow> bool" where
  "gap ps m e s \<longleftrightarrow> s = e \<or>
     (e mod ps \<noteq> 0 \<and> s = (e div ps + 1) * ps \<and>
      (8 \<le> ps - e mod ps \<longrightarrow>
        ps - e mod ps < 4294967296 \<and> bytes_at m e (frame_header (ps - e mod ps) 0)))"

fun chain :: "nat \<Rightarrow> (nat \<Rightarrow> byte option) \<Rightarrow> nat \<Rightarrow> nat \<Rightarrow> frame list \<Rightarrow> bool" where
  "chain ps m e n [] \<longleftrightarrow> e = n"
| "chain ps m e n (f # fs) \<longleftrightarrow>
     (\<exists>s. gap ps m e s \<and> frame_at ps m s f \<and> chain ps m (s + frame_bytes (snd f)) n fs)"

lemma gap_end: "0 < ps \<Longrightarrow> (e div ps + 1) * ps = e + (ps - e mod ps)" for e :: nat
proof -
  assume "0 < ps"
  then have "e mod ps \<le> ps" "e div ps * ps + e mod ps = e" "(e div ps + 1) * ps = e div ps * ps + ps" by simp_all
  then show "(e div ps + 1) * ps = e + (ps - e mod ps)" by linarith
qed

lemma gap_ge: "0 < ps \<Longrightarrow> gap ps m e s \<Longrightarrow> e \<le> s"
  unfolding gap_def using gap_end [of ps e] by (metis le_add1 order_refl)

lemma chain_ge: "0 < ps \<Longrightarrow> chain ps m e n fs \<Longrightarrow> e \<le> n"
proof (induction fs arbitrary: e)
  case (Cons f fs)
  then obtain s where "gap ps m e s" "s + frame_bytes (snd f) \<le> n" by auto
  then show ?case using gap_ge [OF Cons.prems(1)] by fastforce
qed simp

lemma chain_snoc:
  assumes "chain ps m e n fs" "gap ps m n s" "frame_at ps m s f"
  shows "chain ps m e (s + frame_bytes (snd f)) (fs @ [f])"
  using assms by (induction fs arbitrary: e) auto

lemma gap_keeps:
  assumes "gap ps (mem ps st) e s" "keeps ps lo n st st'" "lo * ps \<le> e" "s \<le> n" "0 < ps"
  shows "gap ps (mem ps st') e s"
proof (cases "s = e")
  case False
  then have "s = e + (ps - e mod ps)" using assms(1) gap_end [OF assms(5), of e] by (auto simp: gap_def)
  then show ?thesis
    using assms(1) bytes_at_keeps [OF _ assms(2,3) _ assms(5), of "frame_header (ps - e mod ps) 0"] assms(4)
    by (auto simp: gap_def)
qed (simp add: gap_def)

lemma frame_at_keeps:
  assumes "frame_at ps (mem ps st) s f" "keeps ps lo n st st'" "lo * ps \<le> s" "s + frame_bytes (snd f) \<le> n" "0 < ps"
  shows "frame_at ps (mem ps st') s f"
  using assms(1) assms(3,4) bytes_at_keeps [OF _ assms(2) _ _ assms(5)]
  by (auto simp: frame_at_def frame_bytes_def split: prod.splits)

lemma chain_keeps:
  assumes "chain ps (mem ps st) e n fs" "keeps ps lo n st st'" "lo * ps \<le> e" "0 < ps"
  shows "chain ps (mem ps st') e n fs"
  using assms(1,3)
proof (induction fs arbitrary: e)
  case Nil
  then show ?case by simp
next
  case (Cons f fs)
  then obtain s where s: "gap ps (mem ps st) e s" "frame_at ps (mem ps st) s f"
      "chain ps (mem ps st) (s + frame_bytes (snd f)) n fs" by auto
  have le: "e \<le> s" "s + frame_bytes (snd f) \<le> n" using gap_ge chain_ge s assms(4) by auto
  have "gap ps (mem ps st') e s" using gap_keeps [OF s(1) assms(2)] Cons.prems le assms(4) by simp
  moreover have "frame_at ps (mem ps st') s f" using frame_at_keeps [OF s(2) assms(2)] Cons.prems le assms(4) by simp
  ultimately show ?case using Cons.IH [OF s(3)] Cons.prems le by auto
qed

end
