(* ===== verification/Shm_Writer.thy ===== *)
theory Shm_Writer
  imports Shm_Frames
begin

text \<open>
  The writer of a channel (\<open>libs/shm/include/dztrader/shm/writer.h\<close>, \<open>src/writer.cpp\<close>).
  \<open>wr_single\<close> is the template argument: a \<open>SingleWriter\<close> takes no lock and caches its position,
  a \<open>MultiWriter\<close> takes the channel's process mutex and reads the position from the shared
  \<open>next_write_pos\<close>. A frame is opened (space found, header written), filled by the caller and
  closed (the position published), with the lock held from the first to the last.
\<close>

section \<open>State\<close>

record channel =
  ch_ps :: nat
  ch_nwp :: nat
  ch_owner :: "nat option"
  ch_store :: store

record writer =
  wr_pid :: nat
  wr_single :: bool
  wr_name :: string
  wr_cur_page :: nat
  wr_cur_off :: nat
  wr_pend_page :: nat
  wr_pend_off :: nat
  wr_pend_size :: nat
  wr_page :: page
  wr_pool :: page_pool

text \<open>The write lock: a \<open>NullLock\<close> does nothing.\<close>

definition lock_write :: "writer \<Rightarrow> channel \<Rightarrow> channel" where
  "lock_write w c = (if wr_single w then c else c\<lparr>ch_owner := Some (wr_pid w)\<rparr>)"

definition unlock_write :: "writer \<Rightarrow> channel \<Rightarrow> channel" where
  "unlock_write w c = (if wr_single w then c else c\<lparr>ch_owner := None\<rparr>)"

section \<open>Creating a writer\<close>

definition writer_create :: "(nat \<Rightarrow> os_outcome) \<Rightarrow> nat \<Rightarrow> bool \<Rightarrow> string \<Rightarrow> channel \<Rightarrow> (shm_error + writer) \<times> channel" where
  "writer_create os pid single name c =
     (let pos = ch_nwp c; p = pos div ch_ps c
      in case get_page (ch_ps c) (os p) (new_pool False) p (ch_store c) of
           (Inl e, pool, st) \<Rightarrow> (Inl Open_Failed, c\<lparr>ch_store := st\<rparr>)
         | (Inr pg, pool, st) \<Rightarrow>
             (Inr \<lparr>wr_pid = pid, wr_single = single, wr_name = name, wr_cur_page = p,
                   wr_cur_off = pos mod ch_ps c, wr_pend_page = 0, wr_pend_off = 0, wr_pend_size = 0,
                   wr_page = pg, wr_pool = pool\<rparr>, c\<lparr>ch_store := st\<rparr>))"

section \<open>Opening and closing a frame\<close>

text \<open>Where the frame would start (lines 89--114): the cached or the shared position.\<close>

definition locate_frame :: "(nat \<Rightarrow> os_outcome) \<Rightarrow> writer \<Rightarrow> channel \<Rightarrow> shm_error option \<times> writer \<times> channel" where
  "locate_frame os w c =
     (if wr_single w
      then (None, w\<lparr>wr_pend_off := wr_cur_off w, wr_pend_page := wr_cur_page w\<rparr>, c)
      else let pos = ch_nwp c; p = pos div ch_ps c;
               w1 = w\<lparr>wr_pend_off := pos mod ch_ps c, wr_pend_page := p\<rparr>
           in if p = pg_id (wr_page w) then (None, w1, c)
              else case get_page (ch_ps c) (os p) (wr_pool w) p (ch_store c) of
                     (Inl e, pool, st) \<Rightarrow> (Some Open_Failed, w1\<lparr>wr_pool := pool\<rparr>, c\<lparr>ch_store := st\<rparr>)
                   | (Inr pg, pool, st) \<Rightarrow>
                       (None, w1\<lparr>wr_page := pg, wr_pool := pool\<rparr>, c\<lparr>ch_store := st\<rparr>))"

text \<open>Moving to the next page when the rest of this one is too short (lines 116--132).\<close>

definition write_padding :: "nat \<Rightarrow> nat \<Rightarrow> nat \<Rightarrow> store \<Rightarrow> store" where
  "write_padding i off n st = write_bytes i off (frame_header n 0) st"

definition roll_page :: "(nat \<Rightarrow> os_outcome) \<Rightarrow> writer \<Rightarrow> channel \<Rightarrow> shm_error option \<times> writer \<times> channel" where
  "roll_page os w c =
     (let remaining = ch_ps c - wr_pend_off w
      in if wr_pend_size w \<le> remaining then (None, w, c)
         else let st1 = (if 8 \<le> remaining
                         then write_padding (pg_inode (wr_page w)) (wr_pend_off w) remaining (ch_store c)
                         else ch_store c);
                  p = wr_pend_page w + 1;
                  w1 = w\<lparr>wr_pend_page := p, wr_pend_off := 0\<rparr>
              in case get_page (ch_ps c) (os p) (wr_pool w) p st1 of
                   (Inl e, pool, st) \<Rightarrow> (Some Open_Failed, w1\<lparr>wr_pool := pool\<rparr>, c\<lparr>ch_store := st\<rparr>)
                 | (Inr pg, pool, st) \<Rightarrow>
                     (None, w1\<lparr>wr_page := pg, wr_pool := pool\<rparr>, c\<lparr>ch_store := st\<rparr>))"

text \<open>
  The result is the address of the payload: a position in the inode of the page. Every failure
  resets the pending size and releases the lock.
\<close>

definition open_failed :: "shm_error \<Rightarrow> writer \<Rightarrow> channel \<Rightarrow> (shm_error + nat \<times> nat) \<times> writer \<times> channel" where
  "open_failed e w c = (Inl e, w\<lparr>wr_pend_size := 0\<rparr>, unlock_write w c)"

definition open_frame :: "(nat \<Rightarrow> os_outcome) \<Rightarrow> nat \<Rightarrow> nat \<Rightarrow> writer \<Rightarrow> channel \<Rightarrow>
    (shm_error + nat \<times> nat) \<times> writer \<times> channel" where
  "open_frame os ty data_size w0 c0 =
     (let c = lock_write w0 c0; w = w0\<lparr>wr_pend_size := data_size + 8\<rparr>
      in if wr_pend_size w mod 8 \<noteq> 0 then open_failed Align_Error w c
         else if ch_ps c < wr_pend_size w then open_failed Open_Failed w c
         else case locate_frame os w c of
                (Some e, w1, c1) \<Rightarrow> open_failed e w1 c1
              | (None, w1, c1) \<Rightarrow>
                  (case roll_page os w1 c1 of
                     (Some e, w2, c2) \<Rightarrow> open_failed e w2 c2
                   | (None, w2, c2) \<Rightarrow>
                       (Inr (pg_inode (wr_page w2), wr_pend_off w2 + 8), w2,
                        c2\<lparr>ch_store := write_bytes (pg_inode (wr_page w2)) (wr_pend_off w2)
                                (frame_header (wr_pend_size w2) ty) (ch_store c2)\<rparr>)))"

definition put_data :: "nat \<Rightarrow> nat \<Rightarrow> byte list \<Rightarrow> channel \<Rightarrow> channel" where
  "put_data i off bs c = c\<lparr>ch_store := write_bytes i off bs (ch_store c)\<rparr>"

definition close_frame :: "writer \<Rightarrow> channel \<Rightarrow> writer \<times> channel" where
  "close_frame w c =
     (if wr_pend_size w = 0 then (w, c)
      else let new_pos = u64 (wr_pend_page w * ch_ps c + wr_pend_off w + wr_pend_size w);
               w1 = (if wr_single w
                     then w\<lparr>wr_cur_off := wr_pend_off w + wr_pend_size w, wr_cur_page := wr_pend_page w\<rparr>
                     else w)
           in (w1\<lparr>wr_pend_size := 0\<rparr>, unlock_write w (c\<lparr>ch_nwp := new_pos\<rparr>)))"

section \<open>Whole frames\<close>

definition write_frame :: "(nat \<Rightarrow> os_outcome) \<Rightarrow> nat \<Rightarrow> byte list \<Rightarrow> writer \<Rightarrow> channel \<Rightarrow> bool \<times> writer \<times> channel" where
  "write_frame os ty data w c =
     (case open_frame os ty (length data) w c of
        (Inl e, w1, c1) \<Rightarrow> (False, w1, c1)
      | (Inr (i, off), w1, c1) \<Rightarrow> (True, close_frame w1 (put_data i off data c1)))"

text \<open>\<open>(size + 7u) & ~7u\<close> in 32 bits; the sum with the header size is cast back to 32 bits.\<close>

definition pad8 :: "nat \<Rightarrow> nat" where
  "pad8 n = u32 (n + 7) div 8 * 8"

definition ext_frame_bytes :: "byte list \<Rightarrow> byte list" where
  "ext_frame_bytes data = put32 (length data) @ replicate 4 0 @ data @ replicate (pad8 (length data) - length data) 0"

definition write_ext_frame :: "(nat \<Rightarrow> os_outcome) \<Rightarrow> nat \<Rightarrow> byte list \<Rightarrow> writer \<Rightarrow> channel \<Rightarrow> bool \<times> writer \<times> channel" where
  "write_ext_frame os ty data w c =
     (case open_frame os ty (u32 (8 + pad8 (length data))) w c of
        (Inl e, w1, c1) \<Rightarrow> (False, w1, c1)
      | (Inr (i, off), w1, c1) \<Rightarrow> (True, close_frame w1 (put_data i off (ext_frame_bytes data) c1)))"

text \<open>
  \<open>copy_string\<close> of a release build: the characters with their terminator, cut to the field;
  the rest of the field keeps what the page held.
\<close>

definition copy_string :: "nat \<Rightarrow> byte list \<Rightarrow> byte list" where
  "copy_string n src = (if length src < n then src @ [0] else take (n - 1) src @ [0])"

definition write_ext_inst_frame :: "(nat \<Rightarrow> os_outcome) \<Rightarrow> nat \<Rightarrow> byte list \<Rightarrow> byte list \<Rightarrow> writer \<Rightarrow> channel \<Rightarrow>
    bool \<times> writer \<times> channel" where
  "write_ext_inst_frame os ty inst data w c =
     (case open_frame os ty (u32 (72 + pad8 (length data))) w c of
        (Inl e, w1, c1) \<Rightarrow> (False, w1, c1)
      | (Inr (i, off), w1, c1) \<Rightarrow>
          (True, close_frame w1 (put_data i (off + 64) (ext_frame_bytes data)
             (put_data i off (copy_string 64 inst) c1))))"

section \<open>Page upkeep\<close>

definition writer_prefetch_pages :: "(nat \<Rightarrow> os_outcome) \<Rightarrow> nat \<Rightarrow> writer \<Rightarrow> channel \<Rightarrow> writer \<times> channel" where
  "writer_prefetch_pages os n w c =
     (case prefetch_range (ch_ps c) os [pg_id (wr_page w) + 1 ..< pg_id (wr_page w) + 1 + n] (wr_pool w) (ch_store c) of
        (pool, st) \<Rightarrow> (w\<lparr>wr_pool := pool\<rparr>, c\<lparr>ch_store := st\<rparr>))"

definition writer_prefetch_for_bytes :: "(nat \<Rightarrow> os_outcome) \<Rightarrow> nat \<Rightarrow> writer \<Rightarrow> channel \<Rightarrow> writer \<times> channel" where
  "writer_prefetch_for_bytes os n w c =
     (let target = u64 (ch_nwp c + n) div ch_ps c
      in if pg_id (wr_page w) < target then writer_prefetch_pages os (target - pg_id (wr_page w)) w c else (w, c))"

text \<open>Besides closing mappings this publishes the writer's page, see \<open>Shm_Meta\<close>.\<close>

definition writer_close_old_pages :: "writer \<Rightarrow> writer" where
  "writer_close_old_pages w = w\<lparr>wr_pool := close_pages_before (pg_id (wr_page w)) (wr_pool w)\<rparr>"

section \<open>The writer's invariant\<close>

text \<open>
  The mappings a writer may use are current: those of the active page \<open>nwp div ps\<close> and later.
  A single writer's cached position is the published one.
\<close>

definition maps_ok :: "nat \<Rightarrow> store \<Rightarrow> nat \<Rightarrow> writer \<Rightarrow> bool" where
  "maps_ok ps st nwp w \<longleftrightarrow> \<not> pp_read_only (wr_pool w) \<and> pool_ok ps (nwp div ps) st (wr_pool w) \<and>
     (nwp div ps \<le> pg_id (wr_page w) \<longrightarrow> has_page ps st (pg_id (wr_page w)) (pg_inode (wr_page w)))"

definition cached_ok :: "nat \<Rightarrow> nat \<Rightarrow> writer \<Rightarrow> bool" where
  "cached_ok ps nwp w \<longleftrightarrow> (wr_single w \<longrightarrow>
     wr_cur_page w * ps + wr_cur_off w = nwp \<and> wr_cur_off w \<le> ps \<and> pg_id (wr_page w) = wr_cur_page w)"

definition pend_start :: "nat \<Rightarrow> writer \<Rightarrow> nat" where
  "pend_start ps w = wr_pend_page w * ps + wr_pend_off w"

definition placed :: "nat \<Rightarrow> store \<Rightarrow> nat \<Rightarrow> writer \<Rightarrow> bool" where
  "placed ps st nwp w \<longleftrightarrow> gap ps (mem ps st) nwp (pend_start ps w) \<and>
     wr_pend_off w + wr_pend_size w \<le> ps \<and> 8 \<le> wr_pend_size w \<and> wr_pend_size w < 4294967296 \<and>
     wr_pend_size w mod 8 = 0 \<and> pg_id (wr_page w) = wr_pend_page w \<and> has_page ps st (wr_pend_page w) (pg_inode (wr_page w))"

definition pending_ok :: "nat \<Rightarrow> store \<Rightarrow> nat \<Rightarrow> writer \<Rightarrow> bool" where
  "pending_ok ps st nwp w \<longleftrightarrow> placed ps st nwp w \<and>
     (\<exists>ty. 0 < ty \<and> ty < 65536 \<and> bytes_at (mem ps st) (pend_start ps w) (frame_header (wr_pend_size w) ty))"

definition writer_inv :: "nat \<Rightarrow> store \<Rightarrow> nat \<Rightarrow> writer \<Rightarrow> bool" where
  "writer_inv ps st nwp w \<longleftrightarrow> maps_ok ps st nwp w \<and>
     (if wr_pend_size w = 0 then cached_ok ps nwp w else pending_ok ps st nwp w)"

lemma maps_ok_keeps:
  "maps_ok ps st nwp w \<Longrightarrow> keeps ps lo n st st' \<Longrightarrow> lo \<le> nwp div ps \<Longrightarrow> maps_ok ps st' nwp w"
  unfolding maps_ok_def pool_ok_def keeps_def by (meson le_trans)

lemma maps_ok_nwp: "maps_ok ps st nwp w \<Longrightarrow> nwp \<le> nwp' \<Longrightarrow> maps_ok ps st nwp' w"
  unfolding maps_ok_def pool_ok_def by (meson div_le_mono le_trans)

lemma write_frame_store [simp]: "maps_ok ps (write_bytes i off bs st) nwp w = maps_ok ps st nwp w"
  by (simp add: maps_ok_def)

lemma get_page_writer:
  assumes "store_wf st" "maps_ok ps st nwp w" "get_page ps out (wr_pool w) p st = (r, pool, st')"
    "nwp div ps \<le> p"
  shows "store_wf st' \<and> keeps ps 0 n st st' \<and> maps_ok ps st' nwp (w\<lparr>wr_pool := pool\<rparr>) \<and>
    (\<forall>pg. r = Inr pg \<longrightarrow> pg_id pg = p \<and> has_page ps st' p (pg_inode pg) \<and>
       maps_ok ps st' nwp (w\<lparr>wr_page := pg, wr_pool := pool\<rparr>))"
proof -
  have pool: "pool_ok ps (nwp div ps) st (wr_pool w)" using assms(2) by (simp add: maps_ok_def)
  note sp = get_page_spec [OF assms(1) pool assms(3)]
  then have k: "keeps ps 0 n st st'" using store_le_keeps by blast
  have "maps_ok ps st' nwp w" using maps_ok_keeps [OF assms(2) k] by simp
  then show ?thesis using sp k assms(4) by (auto simp: maps_ok_def)
qed

definition located :: "nat \<Rightarrow> nat \<Rightarrow> writer \<Rightarrow> bool" where
  "located ps nwp w \<longleftrightarrow> wr_pend_page w * ps + wr_pend_off w = nwp \<and> wr_pend_off w \<le> ps \<and>
     pg_id (wr_page w) = wr_pend_page w"

definition same_writer :: "writer \<Rightarrow> writer \<Rightarrow> bool" where
  "same_writer w w' \<longleftrightarrow> wr_pid w' = wr_pid w \<and> wr_single w' = wr_single w \<and> wr_name w' = wr_name w \<and>
     wr_cur_page w' = wr_cur_page w \<and> wr_cur_off w' = wr_cur_off w \<and> wr_pend_size w' = wr_pend_size w"

definition same_meta :: "channel \<Rightarrow> channel \<Rightarrow> bool" where
  "same_meta c c' \<longleftrightarrow> ch_ps c' = ch_ps c \<and> ch_nwp c' = ch_nwp c \<and> ch_owner c' = ch_owner c"

lemma same_meta_store [simp]: "same_meta c (c\<lparr>ch_store := st\<rparr>)" "same_meta c c"
  by (simp_all add: same_meta_def)

lemma locate_spec:
  assumes "0 < ch_ps c" "store_wf (ch_store c)" "maps_ok (ch_ps c) (ch_store c) (ch_nwp c) w"
    "cached_ok (ch_ps c) (ch_nwp c) w" "locate_frame os w c = (r, w', c')"
  shows "same_writer w w' \<and> same_meta c c' \<and> store_wf (ch_store c') \<and>
    keeps (ch_ps c) 0 (ch_nwp c) (ch_store c) (ch_store c') \<and>
    maps_ok (ch_ps c) (ch_store c') (ch_nwp c) w' \<and> cached_ok (ch_ps c) (ch_nwp c) w' \<and>
    (r = None \<longrightarrow> located (ch_ps c) (ch_nwp c) w')"
proof (cases "wr_single w \<or> ch_nwp c div ch_ps c = pg_id (wr_page w)")
  case True
  define q where "q = ch_nwp c div ch_ps c"
  have e: "q * ch_ps c + ch_nwp c mod ch_ps c = ch_nwp c" by (simp add: q_def)
  show ?thesis using assms True e
    by (auto simp: locate_frame_def Let_def same_writer_def maps_ok_def cached_ok_def located_def
        less_imp_le simp flip: q_def split: if_splits)
next
  case False
  obtain rr pool st where g: "get_page (ch_ps c) (os (ch_nwp c div ch_ps c)) (wr_pool w)
      (ch_nwp c div ch_ps c) (ch_store c) = (rr, pool, st)" by (metis prod_cases3)
  note sp = get_page_writer [OF assms(2,3) g, of "ch_nwp c"]
  show ?thesis using assms(1,4,5) False g sp
    by (cases rr) (auto simp: locate_frame_def Let_def same_writer_def maps_ok_def cached_ok_def
        located_def less_imp_le)
qed

lemma roll_spec:
  assumes "0 < ch_ps c" "store_wf (ch_store c)" "maps_ok (ch_ps c) (ch_store c) (ch_nwp c) w"
    "located (ch_ps c) (ch_nwp c) w" "8 \<le> wr_pend_size w" "wr_pend_size w < 4294967296"
    "wr_pend_size w \<le> ch_ps c" "wr_pend_size w mod 8 = 0" "roll_page os w c = (r, w', c')"
  shows "same_writer w w' \<and> same_meta c c' \<and> store_wf (ch_store c') \<and>
    keeps (ch_ps c) 0 (ch_nwp c) (ch_store c) (ch_store c') \<and>
    maps_ok (ch_ps c) (ch_store c') (ch_nwp c) w' \<and>
    (r = None \<longrightarrow> placed (ch_ps c) (ch_store c') (ch_nwp c) w') \<and> (r \<noteq> None \<longrightarrow> wr_page w' = wr_page w)"
proof -
  let ?ps = "ch_ps c" and ?n = "ch_nwp c" and ?i = "pg_inode (wr_page w)" and ?off = "wr_pend_off w"
  define rem where "rem = ?ps - ?off"
  have pos: "wr_pend_page w * ?ps + ?off = ?n" "?off \<le> ?ps" "pg_id (wr_page w) = wr_pend_page w"
    using assms(4) by (auto simp: located_def)
  have page: "has_page ?ps (ch_store c) (wr_pend_page w) ?i" "?n mod ?ps = ?off" "?n div ?ps = wr_pend_page w"
    if "?off < ?ps"
  proof -
    show "?n mod ?ps = ?off" "?n div ?ps = wr_pend_page w"
      using that by (simp_all add: pos(1) [symmetric])
    then show "has_page ?ps (ch_store c) (wr_pend_page w) ?i"
      using assms(3) pos(3) by (simp add: maps_ok_def)
  qed
  show ?thesis
  proof (cases "wr_pend_size w \<le> rem")
    case True
    then have "?off < ?ps" using assms(5) by (simp add: rem_def)
    moreover have "r = None" "w' = w" "c' = c"
      using True assms(9) by (simp_all add: roll_page_def Let_def rem_def)
    moreover have "?off + wr_pend_size w \<le> ?ps" using True pos(2) by (simp add: rem_def)
    ultimately show ?thesis using assms(2,3,5,6,8) page(1) pos
      by (simp add: same_writer_def placed_def gap_def pend_start_def)
  next
    case False
    define st1 where "st1 = (if 8 \<le> rem then write_padding ?i ?off rem (ch_store c) else ch_store c)"
    obtain rr pool st where g: "get_page ?ps (os (wr_pend_page w + 1)) (wr_pool w) (wr_pend_page w + 1) st1
        = (rr, pool, st)" by (metis prod_cases3)
    have pad: "bytes_at (mem ?ps st1) ?n (frame_header rem 0) \<and> keeps ?ps 0 ?n (ch_store c) st1"
      if "8 \<le> rem"
    proof -
      have fit: "?off + length (frame_header rem 0) \<le> ?ps" and lt: "?off < ?ps"
        using that by (simp_all add: rem_def)
      show ?thesis
        using that keeps_write [OF assms(2) page(1) [OF lt] fit assms(1), of ?n 0] pos(1)
          bytes_at_write [OF assms(2) page(1) [OF lt] fit assms(1)]
        by (simp add: st1_def write_padding_def)
    qed
    have wf1: "store_wf st1" and k1: "keeps ?ps 0 ?n (ch_store c) st1"
      and m1: "maps_ok ?ps st1 ?n w"
      using assms(2,3) pad by (auto simp: st1_def write_padding_def)
    have le: "?n div ?ps \<le> wr_pend_page w + 1"
    proof -
      have "?n \<le> (wr_pend_page w + 1) * ?ps" using pos(1,2) by simp
      then have "?n div ?ps \<le> (wr_pend_page w + 1) * ?ps div ?ps" by (rule div_le_mono)
      then show ?thesis using assms(1) by simp
    qed
    note sp = get_page_writer [OF wf1 m1 g le]
    have kn: "keeps ?ps 0 (?n + 8) st1 st" and k2: "keeps ?ps 0 ?n st1 st" using sp by blast+
    have k: "keeps ?ps 0 ?n (ch_store c) st" using keeps_trans [OF k1 k2] .
    have gap: "gap ?ps (mem ?ps st) ?n ((wr_pend_page w + 1) * ?ps)"
    proof (cases "?off = ?ps")
      case True
      then show ?thesis using pos(1) by (simp add: gap_def)
    next
      case f: False
      then have lt: "?off < ?ps" using pos(2) by simp
      have "?off \<noteq> 0" using False assms(7) by (auto simp: rem_def)
      moreover have "bytes_at (mem ?ps st) ?n (frame_header rem 0)" if "8 \<le> rem"
        using bytes_at_keeps [OF _ kn _ _ assms(1)] pad that by simp
      moreover have "rem < 4294967296" using False assms(6) by simp
      ultimately show ?thesis using page [OF lt] by (simp add: gap_def rem_def)
    qed
    have r: "roll_page os w c = (case (rr, pool, st) of
        (Inl e, pool, st) \<Rightarrow> (Some Open_Failed, w\<lparr>wr_pend_page := wr_pend_page w + 1, wr_pend_off := 0, wr_pool := pool\<rparr>, c\<lparr>ch_store := st\<rparr>)
      | (Inr pg, pool, st) \<Rightarrow> (None, w\<lparr>wr_pend_page := wr_pend_page w + 1, wr_pend_off := 0, wr_page := pg, wr_pool := pool\<rparr>, c\<lparr>ch_store := st\<rparr>))"
      using False g by (simp add: roll_page_def Let_def split: sum.split flip: rem_def st1_def)
    show ?thesis
    proof (cases rr)
      case (Inl e)
      then show ?thesis using r assms(9) sp k by (auto simp: same_writer_def maps_ok_def)
    next
      case (Inr pg)
      then show ?thesis using r assms(5,6,7,8,9) sp k gap
        by (auto simp: same_writer_def maps_ok_def placed_def pend_start_def)
    qed
  qed
qed

section \<open>What an operation promises\<close>

lemma keeps_mem_gap:
  assumes "gap ps (mem ps st) n s" "store_wf st" "has_page ps st p i" "off + length bs \<le> ps" "0 < ps"
    "s = p * ps + off" "bs \<noteq> []"
  shows "gap ps (mem ps (write_bytes i off bs st)) n s"
proof (cases "s = n")
  case False
  have e: "s = n + (ps - n mod ps)" using assms(1) gap_end [OF assms(5), of n] False by (auto simp: gap_def)
  have "bytes_at (mem ps (write_bytes i off bs st)) n (frame_header (ps - n mod ps) 0)"
    if "8 \<le> ps - n mod ps" "bytes_at (mem ps st) n (frame_header (ps - n mod ps) 0)"
  proof -
    have "n + length (frame_header (ps - n mod ps) 0) \<le> p * ps + off"
      using that(1) e assms(6) by simp
    then show ?thesis using bytes_at_write_other [OF assms(2-5) that(2)] by blast
  qed
  then show ?thesis using assms(1) False by (auto simp: gap_def)
qed (simp add: gap_def)

lemma write_at_pending:
  assumes "store_wf st" "placed ps st n w" "0 < ps" "k + length bs \<le> wr_pend_size w" "bs \<noteq> []"
  defines "st' \<equiv> write_bytes (pg_inode (wr_page w)) (wr_pend_off w + k) bs st"
  shows "placed ps st' n w \<and> keeps ps 0 n st st' \<and> bytes_at (mem ps st') (pend_start ps w + k) bs \<and>
    (\<forall>xs. bytes_at (mem ps st) (pend_start ps w) xs \<longrightarrow> length xs \<le> k \<longrightarrow> bytes_at (mem ps st') (pend_start ps w) xs)"
proof -
  have p: "has_page ps st (wr_pend_page w) (pg_inode (wr_page w))" "wr_pend_off w + k + length bs \<le> ps"
    and g: "gap ps (mem ps st) n (pend_start ps w)"
    using assms(2,4) by (auto simp: placed_def)
  have ge: "n \<le> pend_start ps w" using gap_ge [OF assms(3) g] .
  have keep: "keeps ps 0 n st st'" unfolding st'_def
    by (rule keeps_write [OF assms(1) p assms(3)]) (use ge in \<open>simp add: pend_start_def\<close>)
  have "gap ps (mem ps st') n (pend_start ps w)"
  proof (cases "k = 0")
    case True
    then show ?thesis using keeps_mem_gap [OF g assms(1) p(1) _ assms(3) _ assms(5)] p(2)
      by (simp add: st'_def pend_start_def)
  next
    case False
    have "keeps ps 0 (pend_start ps w) st st'" unfolding st'_def
      by (rule keeps_write [OF assms(1) p assms(3)]) (simp add: pend_start_def)
    then show ?thesis using gap_keeps [OF g _ _ _ assms(3)] by (metis le0 mult_0 order_refl)
  qed
  then have "placed ps st' n w" using assms(2) by (simp add: placed_def st'_def)
  then show ?thesis
    using keep bytes_at_write [OF assms(1) p assms(3)] bytes_at_write_other [OF assms(1) p assms(3)]
    by (auto simp: st'_def pend_start_def add.assoc)
qed

lemma lock_unlock [simp]:
  "ch_ps (lock_write w c) = ch_ps c" "ch_nwp (lock_write w c) = ch_nwp c" "ch_store (lock_write w c) = ch_store c"
  "ch_ps (unlock_write w c) = ch_ps c" "ch_nwp (unlock_write w c) = ch_nwp c" "ch_store (unlock_write w c) = ch_store c"
  "ch_owner (lock_write w c) = (if wr_single w then ch_owner c else Some (wr_pid w))"
  "ch_owner (unlock_write w c) = (if wr_single w then ch_owner c else None)"
  by (simp_all add: lock_write_def unlock_write_def)

definition open_result :: "nat \<Rightarrow> nat \<Rightarrow> shm_error + nat \<times> nat \<Rightarrow> writer \<Rightarrow> channel \<Rightarrow> writer \<Rightarrow> channel \<Rightarrow> bool" where
  "open_result ty data_size r w c w' c' \<longleftrightarrow>
     (case r of
        Inl e \<Rightarrow> wr_pend_size w' = 0 \<and> ch_owner c' = (if wr_single w then ch_owner c else None)
      | Inr (i, off) \<Rightarrow> wr_pend_size w' = data_size + 8 \<and> i = pg_inode (wr_page w') \<and> off = wr_pend_off w' + 8 \<and>
          ch_owner c' = (if wr_single w then ch_owner c else Some (wr_pid w)) \<and>
          bytes_at (mem (ch_ps c) (ch_store c')) (pend_start (ch_ps c) w') (frame_header (data_size + 8) ty))"

lemma open_frame_spec:
  assumes "0 < ch_ps c" "store_wf (ch_store c)" "writer_inv (ch_ps c) (ch_store c) (ch_nwp c) w"
    "wr_pend_size w = 0" "0 < ty" "ty < 65536" "n < 4294967288" "open_frame os ty n w c = (r, w', c')"
  shows "store_wf (ch_store c') \<and> keeps (ch_ps c) 0 (ch_nwp c) (ch_store c) (ch_store c') \<and>
    writer_inv (ch_ps c) (ch_store c') (ch_nwp c) w' \<and> ch_ps c' = ch_ps c \<and> ch_nwp c' = ch_nwp c \<and>
    wr_pid w' = wr_pid w \<and> wr_single w' = wr_single w \<and> wr_name w' = wr_name w \<and>
    open_result ty n r w c w' c'"
proof -
  let ?ps = "ch_ps c" and ?w = "w\<lparr>wr_pend_size := n + 8\<rparr>" and ?c = "lock_write w c"
  have inv: "maps_ok ?ps (ch_store c) (ch_nwp c) w" "cached_ok ?ps (ch_nwp c) w"
    using assms(3,4) by (auto simp: writer_inv_def)
  show ?thesis
  proof (cases "(n + 8) mod 8 \<noteq> 0 \<or> ?ps < n + 8")
    case True
    then show ?thesis using assms(2,8) inv
      by (auto simp: open_frame_def Let_def open_failed_def open_result_def writer_inv_def maps_ok_def
          cached_ok_def lock_unlock unlock_write_def lock_write_def split: if_splits)
  next
    case False
    obtain r1 w1 c1 where l: "locate_frame os ?w ?c = (r1, w1, c1)" by (metis prod_cases3)
    have "maps_ok ?ps (ch_store c) (ch_nwp c) ?w" "cached_ok ?ps (ch_nwp c) ?w"
      using inv by (auto simp: maps_ok_def cached_ok_def)
    then have L: "same_writer ?w w1" "same_meta ?c c1" "store_wf (ch_store c1)"
      "keeps ?ps 0 (ch_nwp c) (ch_store c) (ch_store c1)"
      "maps_ok ?ps (ch_store c1) (ch_nwp c) w1" "cached_ok ?ps (ch_nwp c) w1"
      "r1 = None \<Longrightarrow> located ?ps (ch_nwp c) w1"
      using locate_spec [OF _ _ _ _ l] assms(1,2) by simp_all
    then have w1: "wr_pid w1 = wr_pid w" "wr_single w1 = wr_single w" "wr_name w1 = wr_name w"
      "wr_pend_size w1 = n + 8" and c1: "ch_ps c1 = ?ps" "ch_nwp c1 = ch_nwp c" "ch_owner c1 = ch_owner ?c"
      by (simp_all add: same_writer_def same_meta_def)
    show ?thesis
    proof (cases r1)
      case (Some e)
      then have "r = Inl e" "w' = w1\<lparr>wr_pend_size := 0\<rparr>" "c' = unlock_write w1 c1"
        using assms(8) False l by (simp_all add: open_frame_def Let_def open_failed_def)
      then show ?thesis using L w1 c1
        by (simp add: open_result_def writer_inv_def maps_ok_def cached_ok_def)
    next
      case None
      obtain r2 w2 c2 where rl: "roll_page os w1 c1 = (r2, w2, c2)" by (metis prod_cases3)
      have R: "same_writer w1 w2" "same_meta c1 c2" "store_wf (ch_store c2)"
        "keeps ?ps 0 (ch_nwp c) (ch_store c1) (ch_store c2)" "maps_ok ?ps (ch_store c2) (ch_nwp c) w2"
        "r2 = None \<longrightarrow> placed ?ps (ch_store c2) (ch_nwp c) w2" "r2 \<noteq> None \<longrightarrow> wr_page w2 = wr_page w1"
        using roll_spec [OF _ _ _ _ _ _ _ _ rl] L w1 c1 None assms(1,7) False by simp_all
      then have w2: "wr_pid w2 = wr_pid w" "wr_single w2 = wr_single w" "wr_name w2 = wr_name w"
        "wr_pend_size w2 = n + 8" "wr_cur_page w2 = wr_cur_page w1" "wr_cur_off w2 = wr_cur_off w1"
        and c2: "ch_ps c2 = ?ps" "ch_nwp c2 = ch_nwp c" "ch_owner c2 = ch_owner ?c"
        using w1 c1 by (simp_all add: same_writer_def same_meta_def)
      have K: "keeps ?ps 0 (ch_nwp c) (ch_store c) (ch_store c2)" using keeps_trans L(4) R(4) by blast
      show ?thesis
      proof (cases r2)
        case (Some e)
        then have "r = Inl e" "w' = w2\<lparr>wr_pend_size := 0\<rparr>" "c' = unlock_write w2 c2"
          using assms(8) False l rl None by (simp_all add: open_frame_def Let_def open_failed_def)
        then show ?thesis using L(6) R Some w1(2) w2 c2 K
          by (simp add: open_result_def writer_inv_def maps_ok_def cached_ok_def)
      next
        case n: None
        define st where "st = write_bytes (pg_inode (wr_page w2)) (wr_pend_off w2) (frame_header (n + 8) ty) (ch_store c2)"
        have r: "r = Inr (pg_inode (wr_page w2), wr_pend_off w2 + 8)" "w' = w2" "c' = c2\<lparr>ch_store := st\<rparr>"
          using assms(8) False l rl None n w2(4) by (auto simp: open_frame_def Let_def st_def)
        have p: "placed ?ps (ch_store c2) (ch_nwp c) w2" using R(6) n by simp
        have ne: "frame_header (n + 8) ty \<noteq> []" by (metis length_puts(3) list.size(3) zero_neq_numeral)
        have "placed ?ps st (ch_nwp c) w2 \<and> keeps ?ps 0 (ch_nwp c) (ch_store c2) st \<and>
          bytes_at (mem ?ps st) (pend_start ?ps w2) (frame_header (n + 8) ty)"
          using write_at_pending [OF R(3) p assms(1), of 0 "frame_header (n + 8) ty"] ne w2(4)
          by (simp add: st_def)
        then show ?thesis using R(3,5) w2 c2 r assms(5,6) keeps_trans [OF K]
          by (auto simp: open_result_def writer_inv_def pending_ok_def st_def)
      qed
    qed
  qed
qed

text \<open>The frame a writer has pending, as the channel's memory holds it.\<close>

definition pending_frame :: "writer \<Rightarrow> channel \<Rightarrow> frame" where
  "pending_frame w c =
     (hdr_type (pf_data (st_inodes (ch_store c) (pg_inode (wr_page w)))) (wr_pend_off w),
      read_bytes (ch_store c) (pg_inode (wr_page w)) (wr_pend_off w + 8) (wr_pend_size w - 8))"

lemma pending_frame_at:
  assumes "0 < ch_ps c" "pending_ok (ch_ps c) (ch_store c) n w"
  shows "frame_at (ch_ps c) (mem (ch_ps c) (ch_store c)) (pend_start (ch_ps c) w) (pending_frame w c) \<and>
    frame_bytes (snd (pending_frame w c)) = wr_pend_size w"
proof -
  let ?ps = "ch_ps c" and ?i = "pg_inode (wr_page w)" and ?off = "wr_pend_off w" and ?n = "wr_pend_size w"
  obtain ty where ty: "0 < ty" "ty < 65536" "bytes_at (mem ?ps (ch_store c)) (pend_start ?ps w) (frame_header ?n ty)"
    and pl: "placed ?ps (ch_store c) n w" using assms(2) by (auto simp: pending_ok_def)
  have p: "has_page ?ps (ch_store c) (wr_pend_page w) ?i" "?off + ?n \<le> ?ps" "8 \<le> ?n" "?n < 4294967296"
    using pl by (auto simp: placed_def)
  have t: "fst (pending_frame w c) = ty"
    using header_read(2) [OF p(1), of ?off ?n ty] p(2,3) ty by (simp add: pending_frame_def pend_start_def)
  have len: "length (snd (pending_frame w c)) = ?n - 8" by (simp add: pending_frame_def read_bytes_def)
  have fit: "?off + 8 + length (snd (pending_frame w c)) \<le> ?ps" using len p(2,3) by simp
  have "bytes_at (mem ?ps (ch_store c)) (wr_pend_page w * ?ps + (?off + 8)) (snd (pending_frame w c))"
    unfolding bytes_at_page [OF p(1) fit] using len by (simp add: pending_frame_def read_bytes_def)
  moreover have "pend_start ?ps w mod ?ps = ?off" using p(2,3) by (simp add: pend_start_def)
  ultimately show ?thesis
    using t len p ty by (auto simp: frame_at_def frame_bytes_def pend_start_def add.assoc split: prod.split)
qed

lemma close_frame_spec:
  assumes "0 < ch_ps c" "writer_inv (ch_ps c) (ch_store c) (ch_nwp c) w" "wr_pend_size w \<noteq> 0"
    "pend_start (ch_ps c) w + wr_pend_size w < 18446744073709551616" "close_frame w c = (w', c')"
  shows "ch_store c' = ch_store c \<and> ch_ps c' = ch_ps c \<and>
    ch_nwp c' = pend_start (ch_ps c) w + wr_pend_size w \<and> ch_nwp c \<le> ch_nwp c' \<and>
    writer_inv (ch_ps c) (ch_store c) (ch_nwp c') w' \<and> wr_pend_size w' = 0 \<and>
    ch_owner c' = (if wr_single w then ch_owner c else None) \<and>
    wr_pid w' = wr_pid w \<and> wr_single w' = wr_single w \<and> wr_name w' = wr_name w"
proof -
  let ?ps = "ch_ps c"
  have inv: "maps_ok ?ps (ch_store c) (ch_nwp c) w" "placed ?ps (ch_store c) (ch_nwp c) w"
    using assms(2,3) by (auto simp: writer_inv_def pending_ok_def)
  have ge: "ch_nwp c \<le> pend_start ?ps w"
    using inv(2) gap_ge [OF assms(1)] by (auto simp: placed_def)
  define n where "n = pend_start ?ps w + wr_pend_size w"
  have nwp: "ch_nwp c' = n" "ch_nwp c \<le> n"
    using assms(3-5) ge by (auto simp: close_frame_def Let_def pend_start_def n_def)
  have m: "maps_ok ?ps (ch_store c) n w" using maps_ok_nwp [OF inv(1)] nwp(2) .
  have "w' = (if wr_single w then w\<lparr>wr_cur_off := wr_pend_off w + wr_pend_size w, wr_cur_page := wr_pend_page w\<rparr>
      else w)\<lparr>wr_pend_size := 0\<rparr>" and c': "c' = unlock_write w (c\<lparr>ch_nwp := n\<rparr>)"
    using assms(3,4,5) by (simp_all add: close_frame_def Let_def n_def pend_start_def)
  moreover from this have "writer_inv ?ps (ch_store c) n w'"
    using m inv(2) by (simp add: writer_inv_def maps_ok_def cached_ok_def placed_def n_def pend_start_def)
  ultimately show ?thesis using nwp by (simp add: n_def)
qed

lemma put_pending:
  assumes "0 < ch_ps c" "store_wf (ch_store c)" "writer_inv (ch_ps c) (ch_store c) (ch_nwp c) w"
    "wr_pend_size w \<noteq> 0" "8 \<le> k" "k + length bs \<le> wr_pend_size w"
    "c' = put_data (pg_inode (wr_page w)) (wr_pend_off w + k) bs c"
  shows "store_wf (ch_store c') \<and> keeps (ch_ps c) 0 (ch_nwp c) (ch_store c) (ch_store c') \<and>
    writer_inv (ch_ps c) (ch_store c') (ch_nwp c) w \<and> same_meta c c' \<and>
    bytes_at (mem (ch_ps c) (ch_store c')) (pend_start (ch_ps c) w + k) bs \<and>
    (\<forall>ty. bytes_at (mem (ch_ps c) (ch_store c)) (pend_start (ch_ps c) w) (frame_header (wr_pend_size w) ty) \<longrightarrow>
          bytes_at (mem (ch_ps c) (ch_store c')) (pend_start (ch_ps c) w) (frame_header (wr_pend_size w) ty))"
proof (cases "bs = []")
  case True
  then show ?thesis using assms True by (simp add: put_data_def bytes_at_def)
next
  case False
  have "placed (ch_ps c) (ch_store c) (ch_nwp c) w" using assms(3,4) by (simp add: writer_inv_def pending_ok_def)
  note w = write_at_pending [OF assms(2) this assms(1) assms(6) False]
  show ?thesis using assms(2-5,7) w by (fastforce simp: put_data_def writer_inv_def pending_ok_def)
qed

definition write_result :: "nat \<Rightarrow> byte list \<Rightarrow> bool \<Rightarrow> channel \<Rightarrow> channel \<Rightarrow> bool" where
  "write_result ty data ok c c' \<longleftrightarrow>
     (if ok then chain (ch_ps c) (mem (ch_ps c) (ch_store c')) (ch_nwp c) (ch_nwp c') [(ty, data)]
      else ch_nwp c' = ch_nwp c)"

lemma pend_start_bound:
  assumes "0 < ps" "placed ps st n w"
  shows "pend_start ps w + wr_pend_size w \<le> n + 2 * ps"
proof -
  have "pend_start ps w \<le> n + ps"
    using assms(2) gap_end [OF assms(1), of n] by (auto simp: placed_def gap_def)
  then show ?thesis using assms(2) by (simp add: placed_def)
qed

lemma write_frame_spec:
  assumes "0 < ch_ps c" "store_wf (ch_store c)" "writer_inv (ch_ps c) (ch_store c) (ch_nwp c) w"
    "wr_pend_size w = 0" "0 < ty" "ty < 65536" "length data < 4294967288"
    "ch_nwp c + 2 * ch_ps c < 18446744073709551616" "write_frame os ty data w c = (ok, w', c')"
  shows "store_wf (ch_store c') \<and> keeps (ch_ps c) 0 (ch_nwp c) (ch_store c) (ch_store c') \<and>
    writer_inv (ch_ps c) (ch_store c') (ch_nwp c') w' \<and> wr_pend_size w' = 0 \<and> write_result ty data ok c c'"
proof -
  obtain r w1 c1 where o: "open_frame os ty (length data) w c = (r, w1, c1)" by (metis prod_cases3)
  note O = open_frame_spec [OF assms(1-7) o]
  show ?thesis
  proof (cases r)
    case (Inl e)
    then show ?thesis using O o assms(9) by (auto simp: write_frame_def open_result_def write_result_def)
  next
    case (Inr ioff)
    let ?ps = "ch_ps c" and ?n = "wr_pend_size w1" and ?s = "pend_start (ch_ps c) w1"
    have res: "ioff = (pg_inode (wr_page w1), wr_pend_off w1 + 8)" "?n = length data + 8"
      "bytes_at (mem ?ps (ch_store c1)) ?s (frame_header ?n ty)"
      using O Inr by (auto simp: open_result_def split: prod.splits)
    have c1: "ch_ps c1 = ?ps" "ch_nwp c1 = ch_nwp c" "store_wf (ch_store c1)"
      "writer_inv ?ps (ch_store c1) (ch_nwp c) w1" "keeps ?ps 0 (ch_nwp c) (ch_store c) (ch_store c1)"
      using O by auto
    define c2 where "c2 = put_data (pg_inode (wr_page w1)) (wr_pend_off w1 + 8) data c1"
    have P: "store_wf (ch_store c2)" "keeps ?ps 0 (ch_nwp c) (ch_store c1) (ch_store c2)"
      "writer_inv ?ps (ch_store c2) (ch_nwp c) w1" "same_meta c1 c2"
      "bytes_at (mem ?ps (ch_store c2)) (?s + 8) data" "bytes_at (mem ?ps (ch_store c2)) ?s (frame_header ?n ty)"
      using put_pending [of c1 w1 8 data c2] c1 res assms(1) by (auto simp: c2_def)
    have c2: "ch_ps c2 = ?ps" "ch_nwp c2 = ch_nwp c" using P(4) c1 by (auto simp: same_meta_def)
    have pl: "placed ?ps (ch_store c2) (ch_nwp c) w1" using P(3) res(2) by (simp add: writer_inv_def pending_ok_def)
    have cl: "(w', c') = close_frame w1 c2" "ok"
      using assms(9) o Inr res(1) by (auto simp: write_frame_def c2_def)
    note C = close_frame_spec [of c2 w1 w' c']
    have C': "ch_store c' = ch_store c2" "ch_nwp c' = ?s + ?n" "writer_inv ?ps (ch_store c2) (ch_nwp c') w'"
      "wr_pend_size w' = 0"
      using C c2 P(3) cl(1) res(2) assms(1,8) pend_start_bound [OF assms(1) pl] by auto
    have "?s mod ?ps = wr_pend_off w1" using pl by (simp add: pend_start_def placed_def)
    then have "frame_at ?ps (mem ?ps (ch_store c2)) ?s (ty, data)"
      using P(5,6) pl res(2) assms(5,6) by (simp add: frame_at_def frame_bytes_def placed_def add.commute)
    then have "write_result ty data True c c'"
      using pl C' res(2) by (auto simp: write_result_def placed_def frame_bytes_def)
    then show ?thesis using C' P(1,2) cl(2) keeps_trans [OF c1(5)] by auto
  qed
qed

text \<open>Nothing but the size of the frame and the operating system can refuse a frame.\<close>

lemma get_page_ok:
  assumes "\<not> pp_read_only pool" "get_page ps Os_Ok pool p st = (r, pool', st')"
  shows "\<exists>pg. r = Inr pg"
  using assms by (auto simp: get_page_def ready_file_def map_page_def Let_def split: option.splits if_splits)

lemma get_page_ro: "get_page ps out pool p st = (r, pool', st') \<Longrightarrow> pp_read_only pool' = pp_read_only pool"
  by (auto simp: get_page_def split: option.splits prod.splits sum.splits)

lemma open_frame_ok:
  assumes "\<And>p. os p = Os_Ok" "\<not> pp_read_only (wr_pool w)" "n mod 8 = 0" "n + 8 \<le> ch_ps c"
    "open_frame os ty n w c = (r, w', c')"
  shows "\<exists>a. r = Inr a"
proof -
  let ?w = "w\<lparr>wr_pend_size := n + 8\<rparr>"
  obtain r1 w1 c1 where l: "locate_frame os ?w (lock_write w c) = (r1, w1, c1)" by (metis prod_cases3)
  obtain r2 w2 c2 where rl: "roll_page os w1 c1 = (r2, w2, c2)" by (metis prod_cases3)
  have L: "r1 = None \<and> \<not> pp_read_only (wr_pool w1)"
  proof (cases "wr_single w \<or> ch_nwp c div ch_ps c = pg_id (wr_page w)")
    case True
    then show ?thesis using l assms(2) by (auto simp: locate_frame_def Let_def split: if_splits)
  next
    case False
    obtain rr pool st where g: "get_page (ch_ps c) Os_Ok (wr_pool w) (ch_nwp c div ch_ps c) (ch_store c) = (rr, pool, st)"
      by (metis prod_cases3)
    then obtain pg where "rr = Inr pg" "pp_read_only pool = pp_read_only (wr_pool w)"
      using get_page_ok [OF assms(2) g] get_page_ro by metis
    then show ?thesis using l False g assms(1,2) by (auto simp: locate_frame_def Let_def)
  qed
  have "r2 = None"
  proof (cases "wr_pend_size w1 \<le> ch_ps c1 - wr_pend_off w1")
    case True
    then show ?thesis using rl by (simp add: roll_page_def Let_def)
  next
    case False
    define st1 where "st1 = (if 8 \<le> ch_ps c1 - wr_pend_off w1
        then write_padding (pg_inode (wr_page w1)) (wr_pend_off w1) (ch_ps c1 - wr_pend_off w1) (ch_store c1) else ch_store c1)"
    obtain rr pool st where g: "get_page (ch_ps c1) Os_Ok (wr_pool w1) (wr_pend_page w1 + 1) st1 = (rr, pool, st)"
      by (metis prod_cases3)
    then obtain pg where "rr = Inr pg" using get_page_ok L by metis
    then show ?thesis using rl False g assms(1) by (auto simp: roll_page_def Let_def simp flip: st1_def)
  qed
  then show ?thesis using assms(3-5) l rl L by (auto simp: open_frame_def Let_def)
qed

end
