(* ===== verification/Shm_Reader.thy ===== *)
theory Shm_Reader
  imports Shm_Writer
begin

text \<open>
  The reader of a channel (\<open>libs/shm/src/reader.cpp\<close>). It maps pages without ever creating one,
  starts at the published write position and walks the chain of frames, skipping page tails and
  fill frames. Both loops of \<open>next_frame\<close> are partial functions: that they end is part of
  what is proved (\<open>next_frame_spec\<close>).
\<close>

section \<open>Model\<close>

record reader =
  rd_name :: string
  rd_pos :: nat
  rd_page_id :: nat
  rd_off :: nat
  rd_page :: page
  rd_pool :: page_pool

definition reader_create :: "(nat \<Rightarrow> os_outcome) \<Rightarrow> string \<Rightarrow> channel \<Rightarrow> shm_error + reader" where
  "reader_create os name c =
     (let pos = ch_nwp c; p = pos div ch_ps c
      in case get_page (ch_ps c) (os p) (new_pool True) p (ch_store c) of
           (Inl e, _, _) \<Rightarrow> Inl Open_Failed
         | (Inr pg, pool, _) \<Rightarrow>
             Inr \<lparr>rd_name = name, rd_pos = pos, rd_page_id = p, rd_off = pos mod ch_ps c,
                  rd_page = pg, rd_pool = pool\<rparr>)"

text \<open>
  \<open>Bad_Access\<close> stands for reading a header outside the mapped page, which is undefined in the
  code; a frame is given by the inode and the offset of its header.
\<close>

datatype read_outcome = No_Frame | Read_Failed shm_error | Bad_Access | Frame_At nat nat

definition turn_page :: "(nat \<Rightarrow> os_outcome) \<Rightarrow> channel \<Rightarrow> nat \<Rightarrow> nat \<Rightarrow> reader \<Rightarrow> bool \<times> reader" where
  "turn_page os c p pos rd =
     (case get_page (ch_ps c) (os p) (rd_pool rd) p (ch_store c) of
        (Inl e, pool, _) \<Rightarrow> (False, rd\<lparr>rd_pool := pool\<rparr>)
      | (Inr pg, pool, _) \<Rightarrow>
          (True, rd\<lparr>rd_pool := pool, rd_page := pg, rd_page_id := p, rd_off := 0, rd_pos := pos\<rparr>))"

partial_function (option) skip_tail :: "(nat \<Rightarrow> os_outcome) \<Rightarrow> channel \<Rightarrow> reader \<Rightarrow> (bool \<times> reader) option" where
  "skip_tail os c rd =
     (if sub64 (ch_ps c) (rd_off rd) < 8
      then let (ok, rd1) = turn_page os c (rd_page_id rd + 1) (u64 (rd_pos rd + sub64 (ch_ps c) (rd_off rd))) rd
           in if ok then skip_tail os c rd1 else Some (False, rd1)
      else Some (True, rd))"

partial_function (option) skip_fill ::
    "(nat \<Rightarrow> os_outcome) \<Rightarrow> channel \<Rightarrow> nat \<Rightarrow> nat \<Rightarrow> nat \<Rightarrow> reader \<Rightarrow> (read_outcome \<times> reader) option" where
  "skip_fill os c off p pos rd =
     (let d = pf_data (st_inodes (ch_store c) (pg_inode (rd_page rd))); sz = hdr_size d off
      in if ch_ps c < off + 8 then Some (Bad_Access, rd)
         else if hdr_type d off \<noteq> 0
         then Some (Frame_At (pg_inode (rd_page rd)) off,
                    rd\<lparr>rd_off := u64 (off + sz), rd_pos := u64 (pos + sz), rd_page_id := p\<rparr>)
         else if sz < 8 \<or> ch_ps c < sz then Some (Read_Failed Frame_Invalid, rd)
         else let off1 = u64 (off + sz); pos1 = u64 (pos + sz); rest = sub64 (ch_ps c) off1
              in if rest < 8
                 then let (ok, rd1) = turn_page os c (p + 1) (u64 (pos1 + rest)) rd
                      in if ok then skip_fill os c 0 (p + 1) (u64 (pos1 + rest)) rd1
                         else Some (Read_Failed Read_Invalid, rd1)
                 else skip_fill os c off1 p pos1 rd)"

definition next_frame :: "(nat \<Rightarrow> os_outcome) \<Rightarrow> channel \<Rightarrow> reader \<Rightarrow> (read_outcome \<times> reader) option" where
  "next_frame os c rd =
     (if ch_nwp c \<le> rd_pos rd then Some (No_Frame, rd)
      else case skip_tail os c rd of
             None \<Rightarrow> None
           | Some (False, rd1) \<Rightarrow> Some (Read_Failed Read_Invalid, rd1)
           | Some (True, rd1) \<Rightarrow> skip_fill os c (rd_off rd1) (rd_page_id rd1) (rd_pos rd1) rd1)"

text \<open>What a caller sees through \<open>FrameView\<close>: type and payload of the frame.\<close>

definition frame_view :: "channel \<Rightarrow> nat \<Rightarrow> nat \<Rightarrow> frame" where
  "frame_view c i off =
     (let d = pf_data (st_inodes (ch_store c) i)
      in (hdr_type d off, read_bytes (ch_store c) i (off + 8) (hdr_size d off - 8)))"

definition reader_prefetch_pages :: "(nat \<Rightarrow> os_outcome) \<Rightarrow> nat \<Rightarrow> channel \<Rightarrow> reader \<Rightarrow> reader" where
  "reader_prefetch_pages os n c rd =
     rd\<lparr>rd_pool := fst (prefetch_range (ch_ps c) os
          [pg_id (rd_page rd) + 1 ..< pg_id (rd_page rd) + 1 + n] (rd_pool rd) (ch_store c))\<rparr>"

definition reader_prefetch_for_bytes :: "(nat \<Rightarrow> os_outcome) \<Rightarrow> nat \<Rightarrow> channel \<Rightarrow> reader \<Rightarrow> reader" where
  "reader_prefetch_for_bytes os n c rd =
     (let target = u64 (ch_nwp c + n) div ch_ps c
      in if pg_id (rd_page rd) < target then reader_prefetch_pages os (target - pg_id (rd_page rd)) c rd else rd)"

text \<open>Besides closing mappings this publishes the reader's page, see \<open>Shm_Meta\<close>.\<close>

definition release_old_pages :: "reader \<Rightarrow> reader" where
  "release_old_pages rd = rd\<lparr>rd_pool := close_pages_before (rd_page_id rd) (rd_pool rd)\<rparr>"

section \<open>The reader's invariant\<close>

definition at_pos :: "nat \<Rightarrow> store \<Rightarrow> reader \<Rightarrow> bool" where
  "at_pos ps st rd \<longleftrightarrow> rd_page_id rd * ps + rd_off rd = rd_pos rd \<and> rd_off rd \<le> ps \<and>
     pg_id (rd_page rd) = rd_page_id rd \<and> has_page ps st (rd_page_id rd) (pg_inode (rd_page rd)) \<and>
     pp_read_only (rd_pool rd) \<and> pool_ok ps (rd_page_id rd) st (rd_pool rd)"

definition reader_inv :: "channel \<Rightarrow> reader \<Rightarrow> frame list \<Rightarrow> bool" where
  "reader_inv c rd fs \<longleftrightarrow> at_pos (ch_ps c) (ch_store c) rd \<and>
     chain (ch_ps c) (mem (ch_ps c) (ch_store c)) (rd_pos rd) (ch_nwp c) fs"

definition read_result :: "(nat \<Rightarrow> os_outcome) \<Rightarrow> channel \<Rightarrow> reader \<Rightarrow> frame list \<Rightarrow> read_outcome \<Rightarrow> reader \<Rightarrow> bool" where
  "read_result os c rd fs out rd' \<longleftrightarrow> rd_name rd' = rd_name rd \<and> rd_page_id rd \<le> rd_page_id rd' \<and>
     (case out of
        No_Frame \<Rightarrow> fs = [] \<and> rd' = rd
      | Read_Failed e \<Rightarrow> e = Read_Invalid \<and> fs \<noteq> [] \<and> (\<exists>p. os p \<noteq> Os_Ok) \<and> reader_inv c rd' fs
      | Bad_Access \<Rightarrow> False
      | Frame_At i off \<Rightarrow> (\<exists>gs. fs = frame_view c i off # gs \<and> reader_inv c rd' gs))"

lemma frame_has_page:
  assumes "frame_at ps (mem ps st) s f" "0 < ps"
  shows "\<exists>i. has_page ps st (s div ps) i"
proof -
  have "bytes_at (mem ps st) s (frame_header (frame_bytes (snd f)) (fst f))"
    using assms(1) by (auto simp: frame_at_def split: prod.splits)
  then have "mem ps st (s + 0) \<noteq> None" unfolding bytes_at_def by (metis length_puts(3) option.discI zero_less_numeral)
  then show ?thesis by (auto simp: mem_def has_page_def split: option.splits if_splits)
qed

lemma frame_view_at:
  assumes "has_page (ch_ps c) (ch_store c) p i" "off + frame_bytes (snd f) \<le> ch_ps c" "off < ch_ps c"
    "frame_at (ch_ps c) (mem (ch_ps c) (ch_store c)) (p * ch_ps c + off) f"
  shows "frame_view c i off = f \<and> hdr_size (pf_data (st_inodes (ch_store c) i)) off = frame_bytes (snd f) \<and>
    hdr_type (pf_data (st_inodes (ch_store c) i)) off \<noteq> 0"
proof -
  obtain ty data where f: "f = (ty, data)" by (cases f)
  let ?ps = "ch_ps c" and ?m = "mem (ch_ps c) (ch_store c)"
  have b: "bytes_at ?m (p * ?ps + off) (frame_header (frame_bytes data) ty)" "bytes_at ?m (p * ?ps + (off + 8)) data"
    "0 < ty" "ty < 65536" "frame_bytes data < 4294967296"
    using assms(4) f by (auto simp: frame_at_def add.assoc)
  have fit: "off + 6 \<le> ?ps" "off + 8 + length data \<le> ?ps" using assms(2) f by (auto simp: frame_bytes_def)
  note h = header_read [OF assms(1) fit(1) b(1)]
  show ?thesis using h b f read_bytes_at [OF assms(1) fit(2) b(2)]
    by (auto simp: frame_view_def Let_def frame_bytes_def)
qed

lemma turn_page_spec:
  assumes "store_wf (ch_store c)" "at_pos (ch_ps c) (ch_store c) rd" "p = rd_page_id rd + 1" "pos = p * ch_ps c"
    "has_page (ch_ps c) (ch_store c) p i" "turn_page os c p pos rd = (ok, rd')"
  shows "(ok \<longrightarrow> at_pos (ch_ps c) (ch_store c) rd' \<and> rd_pos rd' = pos \<and> rd_off rd' = 0 \<and> rd_page_id rd' = p \<and> rd_name rd' = rd_name rd) \<and>
    (\<not> ok \<longrightarrow> rd' = rd \<and> os p \<noteq> Os_Ok)"
proof -
  obtain r pool st' where g: "get_page (ch_ps c) (os p) (rd_pool rd) p (ch_store c) = (r, pool, st')"
    by (metis prod_cases3)
  have ro: "pp_read_only (rd_pool rd)" and pk: "pool_ok (ch_ps c) (rd_page_id rd) (ch_store c) (rd_pool rd)"
    using assms(2) by (auto simp: at_pos_def)
  have "pool_ok (ch_ps c) p (ch_store c) (rd_pool rd)" using pool_ok_mono [OF pk] assms(3) by simp
  note sp = get_page_spec [OF assms(1) this g]
  show ?thesis
  proof (cases r)
    case (Inl e)
    then have "pool = rd_pool rd \<and> os p \<noteq> Os_Ok" using g ro assms(5)
      by (auto simp: get_page_def ready_file_def map_page_def has_page_def split: option.splits if_splits sum.splits prod.splits)
    then show ?thesis using assms(6) g Inl by (auto simp: turn_page_def)
  next
    case (Inr pg)
    then show ?thesis using assms(4,6) g sp ro by (auto simp: turn_page_def at_pos_def)
  qed
qed

lemma skip_fill_frame:
  assumes "at_pos (ch_ps c) (ch_store c) rd" "rd_off rd + frame_bytes (snd f) \<le> ch_ps c"
    "frame_at (ch_ps c) (mem (ch_ps c) (ch_store c)) (rd_pos rd) f"
    "chain (ch_ps c) (mem (ch_ps c) (ch_store c)) (rd_pos rd + frame_bytes (snd f)) (ch_nwp c) gs"
    "ch_nwp c < 18446744073709551616" "ch_ps c < 18446744073709551616" "0 < ch_ps c"
  shows "\<exists>i off rd'. skip_fill os c (rd_off rd) (rd_page_id rd) (rd_pos rd) rd = Some (Frame_At i off, rd') \<and>
    frame_view c i off = f \<and> reader_inv c rd' gs \<and> rd_name rd' = rd_name rd \<and> rd_page_id rd' = rd_page_id rd"
proof -
  let ?i = "pg_inode (rd_page rd)" and ?n = "frame_bytes (snd f)"
  have at: "rd_page_id rd * ch_ps c + rd_off rd = rd_pos rd" "has_page (ch_ps c) (ch_store c) (rd_page_id rd) ?i"
    using assms(1) by (auto simp: at_pos_def)
  have n: "8 \<le> ?n" by (simp add: frame_bytes_def)
  have v: "frame_view c ?i (rd_off rd) = f" "hdr_size (pf_data (st_inodes (ch_store c) ?i)) (rd_off rd) = ?n"
    "hdr_type (pf_data (st_inodes (ch_store c) ?i)) (rd_off rd) \<noteq> 0"
    using frame_view_at [OF at(2) assms(2)] assms(2,3) n at(1) by auto
  have le: "rd_pos rd + ?n \<le> ch_nwp c" using chain_ge [OF assms(7,4)] .
  define rd' where "rd' = rd\<lparr>rd_off := rd_off rd + ?n, rd_pos := rd_pos rd + ?n\<rparr>"
  have "skip_fill os c (rd_off rd) (rd_page_id rd) (rd_pos rd) rd = Some (Frame_At ?i (rd_off rd), rd')"
    using v n le assms(2,5,6) by (subst skip_fill.simps) (simp add: Let_def rd'_def)
  moreover have "reader_inv c rd' gs"
    using assms(1,2,4) by (simp add: reader_inv_def rd'_def at_pos_def)
  moreover have "rd_name rd' = rd_name rd \<and> rd_page_id rd' = rd_page_id rd" by (simp add: rd'_def)
  ultimately show ?thesis using v(1) by blast
qed

lemma gap_page:
  assumes "gap ps m e s" "p * ps + off = e" "off \<le> ps" "0 < ps"
  shows "s = e \<and> off < ps \<or> s = (p + 1) * ps \<and> (off = ps \<or> off < ps \<and> e mod ps = off \<and> s \<noteq> e)"
proof (cases "off = ps")
  case True
  then show ?thesis using assms by (auto simp: gap_def)
next
  case False
  then have "e mod ps = off" "e div ps = p" "off < ps" using assms(2,3) by auto
  then show ?thesis using assms(1) by (auto simp: gap_def)
qed

lemma next_frame_spec:
  assumes wf: "store_wf (ch_store c)" and ps: "8 \<le> ch_ps c" "2 * ch_ps c < 18446744073709551616"
    and n: "ch_nwp c < 18446744073709551616" and inv: "reader_inv c rd fs"
  shows "\<exists>out rd'. next_frame os c rd = Some (out, rd') \<and> read_result os c rd fs out rd'"
proof (cases fs)
  case Nil
  then have "ch_nwp c = rd_pos rd" using inv by (simp add: reader_inv_def)
  then show ?thesis using Nil by (simp add: next_frame_def read_result_def)
next
  case (Cons f gs)
  let ?ps = "ch_ps c" and ?m = "mem (ch_ps c) (ch_store c)" and ?p = "rd_page_id rd" and ?off = "rd_off rd"
  have ps0: "0 < ?ps" using ps(1) by simp
  have at: "at_pos ?ps (ch_store c) rd" using inv by (simp add: reader_inv_def)
  then have pos: "?p * ?ps + ?off = rd_pos rd" "?off \<le> ?ps" by (auto simp: at_pos_def)
  obtain s where s: "gap ?ps ?m (rd_pos rd) s" "frame_at ?ps ?m s f"
    "chain ?ps ?m (s + frame_bytes (snd f)) (ch_nwp c) gs"
    using inv Cons by (auto simp: reader_inv_def)
  have fit: "s mod ?ps + frame_bytes (snd f) \<le> ?ps" "8 \<le> frame_bytes (snd f)"
    using s(2) by (auto simp: frame_at_def frame_bytes_def split: prod.splits)
  have lt: "\<not> ch_nwp c \<le> rd_pos rd" "s < ch_nwp c"
    using gap_ge [OF ps0 s(1)] chain_ge [OF ps0 s(3)] fit(2) by linarith+
  obtain i where i: "has_page ?ps (ch_store c) (s div ?ps) i" using frame_has_page [OF s(2) ps0] by blast
  define p' where "p' = Suc ?p"
  then have p'1: "p' = ?p + 1" by simp
  have finish: "\<exists>out rd'. skip_fill os c 0 p' (p' * ?ps) rd1 = Some (out, rd') \<and> read_result os c rd fs out rd'"
    if "at_pos ?ps (ch_store c) rd1" "rd_pos rd1 = p' * ?ps" "rd_off rd1 = 0" "rd_page_id rd1 = p'"
      "rd_name rd1 = rd_name rd" "s = p' * ?ps" for rd1
    using skip_fill_frame [OF that(1) _ _ _ n, of f gs os] that s(2,3) fit(1) ps Cons
    by (fastforce simp: read_result_def p'_def)
  have stuck: "read_result os c rd fs (Read_Failed Read_Invalid) rd" if "os p' \<noteq> Os_Ok"
    using that inv Cons by (auto simp: read_result_def)
  consider (here) "s = rd_pos rd" "?off < ?ps" | (full) "s = p' * ?ps" "?off = ?ps"
    | (skip) "s = p' * ?ps" "?off < ?ps" "rd_pos rd mod ?ps = ?off" "s \<noteq> rd_pos rd"
    using gap_page [OF s(1) pos ps0] by (auto simp: p'_def)
  then show ?thesis
  proof cases
    case here
    have "(?p * ?ps + ?off) mod ?ps = ?off" using here by simp
    then have "s mod ?ps = ?off" using here pos by simp
    then have le: "?off + frame_bytes (snd f) \<le> ?ps" using fit(1) by simp
    have "\<not> ?ps - ?off < 8" using le fit(2) by linarith
    then have "skip_tail os c rd = Some (True, rd)"
      using pos(2) ps by (subst skip_tail.simps) (simp add: Let_def)
    then show ?thesis
      using skip_fill_frame [OF at le _ _ n _ ps0, of gs os] s here lt ps Cons
      by (fastforce simp: next_frame_def read_result_def)
  next
    case full
    obtain ok rd1 where t: "turn_page os c p' (p' * ?ps) rd = (ok, rd1)" by fastforce
    have "rd_pos rd = p' * ?ps" using full pos by (simp add: p'_def)
    then have u: "u64 (rd_pos rd + sub64 ?ps ?off) = p' * ?ps" "sub64 ?ps ?off = 0"
      using full lt n ps by simp_all
    have "has_page ?ps (ch_store c) p' i" using i full(1) ps0 by simp
    note T = turn_page_spec [OF wf at p'1 refl this t]
    have tail: "skip_tail os c rd = (if ok then skip_tail os c rd1 else Some (False, rd1))"
      using u t by (subst skip_tail.simps) (simp add: Let_def flip: p'_def)
    show ?thesis
    proof (cases ok)
      case True
      have "skip_tail os c rd1 = Some (True, rd1)"
        using T True ps by (subst skip_tail.simps) (simp add: Let_def)
      then show ?thesis using finish [of rd1] T True full tail lt by (auto simp: next_frame_def)
    next
      case False
      then show ?thesis using stuck T tail lt by (auto simp: next_frame_def)
    qed
  next
    case skip
    have sk: "s = rd_pos rd + (?ps - ?off)" using skip pos by (simp add: p'_def)
    obtain ok rd1 where t: "turn_page os c p' (p' * ?ps) rd = (ok, rd1)" by fastforce
    have "has_page ?ps (ch_store c) p' i" using i skip(1) ps0 by simp
    note T = turn_page_spec [OF wf at p'1 refl this t]
    show ?thesis
    proof (cases "?ps - ?off < 8")
      case True
      have "u64 (rd_pos rd + sub64 ?ps ?off) = p' * ?ps" "sub64 ?ps ?off < 8"
        using skip(1,2) sk lt n ps True by simp_all
      then have tail: "skip_tail os c rd = (if ok then skip_tail os c rd1 else Some (False, rd1))"
        using t by (subst skip_tail.simps) (simp add: Let_def flip: p'_def)
      show ?thesis
      proof (cases ok)
        case True
        have "skip_tail os c rd1 = Some (True, rd1)"
          using T True ps by (subst skip_tail.simps) (simp add: Let_def)
        then show ?thesis using finish [of rd1] T True skip tail lt by (auto simp: next_frame_def)
      next
        case False
        then show ?thesis using stuck T tail lt by (auto simp: next_frame_def)
      qed
    next
      case False
      let ?r = "?ps - ?off" and ?d = "pf_data (st_inodes (ch_store c) (pg_inode (rd_page rd)))"
      have tail: "skip_tail os c rd = Some (True, rd)"
        using False skip ps by (subst skip_tail.simps) (simp add: Let_def)
      have pg: "has_page ?ps (ch_store c) ?p (pg_inode (rd_page rd))" using at by (simp add: at_pos_def)
      have "bytes_at ?m (?p * ?ps + ?off) (frame_header ?r 0)" "?r < 4294967296"
        using s(1) skip(3,4) False pos(1) by (auto simp: gap_def)
      then have h: "hdr_size ?d ?off = ?r" "hdr_type ?d ?off = 0"
        using header_read [OF pg, of ?off ?r 0] False by simp_all
      have u: "u64 (?off + ?r) = ?ps" "u64 (rd_pos rd + ?r) = p' * ?ps" "u64 (p' * ?ps) = p' * ?ps"
        using skip sk lt n ps by simp_all
      have nb: "\<not> ?ps < ?off + 8" "\<not> ?ps < ?ps - ?off" using False by auto
      have "skip_fill os c ?off ?p (rd_pos rd) rd =
          (if ok then skip_fill os c 0 p' (p' * ?ps) rd1 else Some (Read_Failed Read_Invalid, rd1))"
        using h u t False ps nb by (subst skip_fill.simps) (simp add: Let_def flip: p'_def)
      then show ?thesis using finish [of rd1] T tail lt stuck skip(1) by (cases ok) (auto simp: next_frame_def)
    qed
  qed
qed

end
