(* ===== verification/Shm_Meta.thy ===== *)
theory Shm_Meta
  imports Shm_Reader "HOL-Library.List_Lexorder" "HOL-Library.Char_ord"
begin

text \<open>
  The shared metadata of a channel (\<open>libs/shm/src/channel_meta.cpp\<close>) and the page cleaner
  (\<open>src/page_cleaner.cpp\<close>): who reads and writes the channel and from which page on, how a
  channel is created or reopened, the check of the active page at start-up, and which page
  files may be removed.
\<close>

section \<open>Readers and writers\<close>

record registration =
  rg_pid :: nat
  rg_page :: nat

type_synonym registry = "(string \<times> registration) list"

text \<open>
  The maps are ordered by name. Only the creator of the channel may add and remove entries;
  adding a name twice keeps the first entry.
\<close>

definition add_entry :: "bool \<Rightarrow> string \<Rightarrow> nat \<Rightarrow> registry \<Rightarrow> shm_error + bool \<times> registry" where
  "add_entry creator name pid m =
     (if \<not> creator then Inl Subscriber_Failed
      else case map_of m name of
             Some _ \<Rightarrow> Inr (False, m)
           | None \<Rightarrow> Inr (True, omap_put name \<lparr>rg_pid = pid, rg_page = 0\<rparr> m))"

definition remove_entry :: "bool \<Rightarrow> string \<Rightarrow> registry \<Rightarrow> shm_error + registry" where
  "remove_entry creator name m = (if \<not> creator then Inl Subscriber_Failed else Inr (AList.delete name m))"

definition clear_entries :: "bool \<Rightarrow> registry \<Rightarrow> shm_error + registry" where
  "clear_entries creator m = (if \<not> creator then Inl Subscriber_Failed else Inr [])"

definition set_page_index :: "string \<Rightarrow> nat \<Rightarrow> registry \<Rightarrow> shm_error + registry" where
  "set_page_index name p m =
     (case map_of m name of
        None \<Rightarrow> Inl Subscriber_Failed
      | Some r \<Rightarrow> Inr (omap_put name (r\<lparr>rg_page := p\<rparr>) m))"

abbreviation (input) UINT64_MAX :: nat where
  "UINT64_MAX \<equiv> 18446744073709551615"

definition min_page_index :: "registry \<Rightarrow> nat" where
  "min_page_index m = foldl (\<lambda>a (k, v). min a (rg_page v)) UINT64_MAX m"

definition reader_names :: "registry \<Rightarrow> string list" where
  "reader_names m = keys m"

text \<open>A publication of a page index ignores a missing entry (\<open>release_old_pages\<close>, \<open>close_old_pages\<close>).\<close>

definition publish_page :: "string \<Rightarrow> nat \<Rightarrow> registry \<Rightarrow> registry" where
  "publish_page name p m = (case set_page_index name p m of Inl _ \<Rightarrow> m | Inr m' \<Rightarrow> m')"

lemma min_page_aux: "(\<forall>k v. map_of m k = Some v \<longrightarrow> foldl (\<lambda>a (k, v). min a (rg_page v)) a m \<le> rg_page v) \<and>
    foldl (\<lambda>a (k, v). min a (rg_page v)) a m \<le> a"
proof (induction m arbitrary: a)
  case Nil
  then show ?case by simp
next
  case (Cons kv m)
  obtain k v where kv: "kv = (k, v)" by (cases kv)
  have le: "foldl (\<lambda>a (k, v). min a (rg_page v)) (min a (rg_page v)) m \<le> min a (rg_page v)"
    using Cons by blast
  then show ?case using kv Cons [of "min a (rg_page v)"] by auto
qed

lemma min_page_le: "map_of m k = Some v \<Longrightarrow> min_page_index m \<le> rg_page v"
  using min_page_aux [of m UINT64_MAX] by (simp add: min_page_index_def)

lemma publish_page_map:
  "omap_ok m \<Longrightarrow> map_of (publish_page name p m) =
    (case map_of m name of None \<Rightarrow> map_of m | Some r \<Rightarrow> (map_of m)(name \<mapsto> r\<lparr>rg_page := p\<rparr>))"
  by (auto simp: publish_page_def set_page_index_def split: option.split)

lemma publish_page_ok [simp]: "omap_ok m \<Longrightarrow> omap_ok (publish_page name p m)"
  by (auto simp: publish_page_def set_page_index_def split: option.split)

section \<open>The page cleaner\<close>

record cleanup_policy =
  cp_max_count :: nat
  cp_max_age_hours :: nat

fun decimal :: "nat \<Rightarrow> string" where
  "decimal n = (if n < 10 then [char_of (48 + n)] else decimal (n div 10) @ [char_of (48 + n mod 10)])"

declare decimal.simps [simp del]

text \<open>\<open>{:08d}.dat\<close>\<close>

definition page_name :: "nat \<Rightarrow> string" where
  "page_name p = replicate (8 - length (decimal p)) CHR ''0'' @ decimal p @ ''.dat''"

text \<open>
  The scan over the sorted files: \<open>i\<close> counts them, \<open>age\<close> is the age of a page file in hours and
  \<open>stuck\<close> a file the system does not remove.
\<close>

definition exceeds_count :: "cleanup_policy \<Rightarrow> nat \<Rightarrow> nat \<Rightarrow> bool" where
  "exceeds_count pol cnt i \<longleftrightarrow>
     0 < cp_max_count pol \<and> cp_max_count pol < cnt \<and> i < cnt - cp_max_count pol"

definition exceeds_age :: "cleanup_policy \<Rightarrow> int \<Rightarrow> bool" where
  "exceeds_age pol age \<longleftrightarrow> 0 < cp_max_age_hours pol \<and> 0 < age \<and> cp_max_age_hours pol < nat age"

fun clean_scan :: "cleanup_policy \<Rightarrow> (nat \<Rightarrow> int) \<Rightarrow> (nat \<Rightarrow> bool) \<Rightarrow> nat \<Rightarrow> nat \<Rightarrow> nat \<Rightarrow> nat list \<Rightarrow> nat list" where
  "clean_scan pol age stuck cnt bound i [] = []"
| "clean_scan pol age stuck cnt bound i (p # ids) =
     (if bound \<le> p then []
      else if \<not> exceeds_count pol cnt i \<and> \<not> exceeds_age pol (age p) \<or> stuck p
      then clean_scan pol age stuck cnt bound (i + 1) ids
      else p # clean_scan pol age stuck cnt bound (i + 1) ids)"

definition active_page_id :: "channel \<Rightarrow> nat" where
  "active_page_id c = ch_nwp c div ch_ps c"

definition delete_floor :: "channel \<Rightarrow> registry \<Rightarrow> registry \<Rightarrow> nat" where
  "delete_floor c readers writers =
     min (min (min_page_index readers) (min_page_index writers)) (active_page_id c)"

definition page_files :: "store \<Rightarrow> nat list" where
  "page_files st = sort_key page_name (keys (st_files st))"

definition removed_pages :: "cleanup_policy \<Rightarrow> (nat \<Rightarrow> int) \<Rightarrow> (nat \<Rightarrow> bool) \<Rightarrow> channel \<Rightarrow> registry \<Rightarrow> registry \<Rightarrow> nat list" where
  "removed_pages pol age stuck c readers writers =
     (if cp_max_count pol = 0 \<and> cp_max_age_hours pol = 0 then []
      else let ids = page_files (ch_store c)
           in clean_scan pol age stuck (length ids) (delete_floor c readers writers) 0 ids)"

definition cleanup :: "cleanup_policy \<Rightarrow> (nat \<Rightarrow> int) \<Rightarrow> (nat \<Rightarrow> bool) \<Rightarrow> channel \<Rightarrow> registry \<Rightarrow> registry \<Rightarrow> nat \<times> channel" where
  "cleanup pol age stuck c readers writers =
     (let gone = removed_pages pol age stuck c readers writers
      in (length gone, c\<lparr>ch_store := unlink_files (\<lambda>p. p \<in> set gone) (ch_store c)\<rparr>))"

lemma clean_scan_below: "p \<in> set (clean_scan pol age stuck cnt bound i ids) \<Longrightarrow> p < bound \<and> p \<in> set ids"
  by (induction pol age stuck cnt bound i ids rule: clean_scan.induct) (auto split: if_splits)

lemma removed_below: "p \<in> set (removed_pages pol age stuck c readers writers) \<Longrightarrow> p < delete_floor c readers writers"
  by (auto simp: removed_pages_def Let_def dest: clean_scan_below split: if_splits)

lemma delete_floor_le:
  "map_of readers r = Some x \<Longrightarrow> delete_floor c readers writers \<le> rg_page x"
  "map_of writers r = Some x \<Longrightarrow> delete_floor c readers writers \<le> rg_page x"
  "delete_floor c readers writers \<le> ch_nwp c div ch_ps c"
  using min_page_le [of readers r x] min_page_le [of writers r x]
  by (auto simp: delete_floor_def active_page_id_def)

lemma clean_scan_count:
  "length (filter (\<lambda>p. \<not> exceeds_age pol (age p)) (clean_scan pol age stuck cnt bound i ids)) \<le>
     (if 0 < cp_max_count pol then cnt - cp_max_count pol - i else 0)"
proof (induction pol age stuck cnt bound i ids rule: clean_scan.induct)
  case (2 pol age stuck cnt bound i p ids)
  then show ?case by (auto simp: exceeds_count_def split: if_splits)
qed simp

end
