(* ===== verification/Shm_Channel.thy ===== *)
theory Shm_Channel
  imports Shm_Meta
begin

text \<open>
  A channel in use: any number of writers and readers, each in a process of its own, the
  master that registers them and the cleaner that removes old pages, interleaved in any order.
  Every step is one operation of the modules before; a writer that dies between opening and
  closing a frame is a step too, and the robust mutex it held becomes free.

  Three fields of the state are not in the program: the log of the frames closed so far, and
  for each reader the length of that log when it was created and what it has been given since.
  A read is one step although the code does not stop the writers meanwhile: a reader only looks
  at bytes below the write position it loaded, and \<open>keeps\<close> in the writer's lemmas says that no
  writer ever changes those.
\<close>

section \<open>State and steps\<close>

record sys =
  sy_ch :: channel
  sy_writers :: "nat \<Rightarrow> writer option"
  sy_readers :: "nat \<Rightarrow> reader option"
  sy_rreg :: registry
  sy_wreg :: registry
  sy_log :: "frame list"
  sy_start :: "nat \<Rightarrow> nat"
  sy_seen :: "nat \<Rightarrow> frame list"

definition lock_free :: "bool \<Rightarrow> channel \<Rightarrow> bool" where
  "lock_free single c \<longleftrightarrow> single \<or> ch_owner c = None"

definition name_in_use :: "string \<Rightarrow> sys \<Rightarrow> bool" where
  "name_in_use name s \<longleftrightarrow> (\<exists>r rd. sy_readers s r = Some rd \<and> rd_name rd = name)"

text \<open>
  The sides conditions are the program's own rules: a single-writer channel has one writer,
  frames are opened and closed in pairs, frame types are positive, a frame with its header is
  below \<open>2 ^ 32\<close> bytes, the position stays below \<open>2 ^ 64\<close> (\<open>channel_meta.h\<close>), and the master
  registers a reader before it starts and removes the entry after it ended.
\<close>

inductive sys_step :: "bool \<Rightarrow> sys \<Rightarrow> sys \<Rightarrow> bool" for single where
  create_writer: "sy_writers s p = None \<Longrightarrow> single \<longrightarrow> sy_writers s = Map.empty \<Longrightarrow>
    writer_create os p single name (sy_ch s) = (Inr w, c) \<Longrightarrow>
    sys_step single s (s\<lparr>sy_ch := c, sy_writers := (sy_writers s)(p \<mapsto> w)\<rparr>)"
| create_writer_failed: "writer_create os p single name (sy_ch s) = (Inl e, c) \<Longrightarrow>
    sys_step single s (s\<lparr>sy_ch := c\<rparr>)"
| open_write: "sy_writers s p = Some w \<Longrightarrow> wr_pend_size w = 0 \<Longrightarrow> lock_free single (sy_ch s) \<Longrightarrow>
    0 < ty \<Longrightarrow> ty < 65536 \<Longrightarrow> n < 4294967288 \<Longrightarrow> open_frame os ty n w (sy_ch s) = (res, w', c) \<Longrightarrow>
    sys_step single s (s\<lparr>sy_ch := c, sy_writers := (sy_writers s)(p \<mapsto> w')\<rparr>)"
| put: "sy_writers s p = Some w \<Longrightarrow> wr_pend_size w \<noteq> 0 \<Longrightarrow> 8 \<le> k \<Longrightarrow> k + length bs \<le> wr_pend_size w \<Longrightarrow>
    sys_step single s (s\<lparr>sy_ch := put_data (pg_inode (wr_page w)) (wr_pend_off w + k) bs (sy_ch s)\<rparr>)"
| close_write: "sy_writers s p = Some w \<Longrightarrow> wr_pend_size w \<noteq> 0 \<Longrightarrow>
    pend_start (ch_ps (sy_ch s)) w + wr_pend_size w < 18446744073709551616 \<Longrightarrow>
    close_frame w (sy_ch s) = (w', c) \<Longrightarrow>
    sys_step single s (s\<lparr>sy_ch := c, sy_writers := (sy_writers s)(p \<mapsto> w'),
      sy_log := sy_log s @ [pending_frame w (sy_ch s)]\<rparr>)"
| writer_ends: "sy_writers s p = Some w \<Longrightarrow>
    sys_step single s (s\<lparr>sy_writers := (sy_writers s)(p := None),
      sy_ch := (if ch_owner (sy_ch s) = Some p then (sy_ch s)\<lparr>ch_owner := None\<rparr> else sy_ch s)\<rparr>)"
| writer_prefetch: "sy_writers s p = Some w \<Longrightarrow> wr_pend_size w = 0 \<Longrightarrow>
    writer_prefetch_pages os n w (sy_ch s) = (w', c) \<Longrightarrow>
    sys_step single s (s\<lparr>sy_ch := c, sy_writers := (sy_writers s)(p \<mapsto> w')\<rparr>)"
| writer_close_old: "sy_writers s p = Some w \<Longrightarrow> wr_pend_size w = 0 \<Longrightarrow>
    sys_step single s (s\<lparr>sy_writers := (sy_writers s)(p \<mapsto> writer_close_old_pages w),
      sy_wreg := publish_page (wr_name w) (pg_id (wr_page w)) (sy_wreg s)\<rparr>)"
| create_reader: "sy_readers s r = None \<Longrightarrow> map_of (sy_rreg s) name \<noteq> None \<Longrightarrow> \<not> name_in_use name s \<Longrightarrow>
    reader_create os name (sy_ch s) = Inr rd \<Longrightarrow>
    sys_step single s (s\<lparr>sy_readers := (sy_readers s)(r \<mapsto> rd),
      sy_start := (sy_start s)(r := length (sy_log s)), sy_seen := (sy_seen s)(r := [])\<rparr>)"
| read: "sy_readers s r = Some rd \<Longrightarrow> next_frame os (sy_ch s) rd = Some (out, rd') \<Longrightarrow>
    sys_step single s (s\<lparr>sy_readers := (sy_readers s)(r \<mapsto> rd'),
      sy_seen := (sy_seen s)(r := sy_seen s r @
        (case out of Frame_At i off \<Rightarrow> [frame_view (sy_ch s) i off] | _ \<Rightarrow> []))\<rparr>)"
| reader_prefetch: "sy_readers s r = Some rd \<Longrightarrow>
    sys_step single s (s\<lparr>sy_readers := (sy_readers s)(r \<mapsto> reader_prefetch_pages os n (sy_ch s) rd)\<rparr>)"
| reader_release: "sy_readers s r = Some rd \<Longrightarrow>
    sys_step single s (s\<lparr>sy_readers := (sy_readers s)(r \<mapsto> release_old_pages rd),
      sy_rreg := publish_page (rd_name rd) (rd_page_id rd) (sy_rreg s)\<rparr>)"
| reader_ends: "sys_step single s (s\<lparr>sy_readers := (sy_readers s)(r := None)\<rparr>)"
| register_reader: "add_entry True name pid (sy_rreg s) = Inr (new, m) \<Longrightarrow>
    sys_step single s (s\<lparr>sy_rreg := m\<rparr>)"
| register_writer: "add_entry True name pid (sy_wreg s) = Inr (new, m) \<Longrightarrow>
    sys_step single s (s\<lparr>sy_wreg := m\<rparr>)"
| deregister_reader: "\<not> name_in_use name s \<Longrightarrow> remove_entry True name (sy_rreg s) = Inr m \<Longrightarrow>
    sys_step single s (s\<lparr>sy_rreg := m\<rparr>)"
| deregister_writer: "remove_entry True name (sy_wreg s) = Inr m \<Longrightarrow>
    sys_step single s (s\<lparr>sy_wreg := m\<rparr>)"
| clean: "cleanup pol age stuck (sy_ch s) (sy_rreg s) (sy_wreg s) = (n, c) \<Longrightarrow>
    sys_step single s (s\<lparr>sy_ch := c\<rparr>)"

text \<open>A channel starts without processes, new or left by an earlier session.\<close>

definition chan_ok :: "channel \<Rightarrow> bool" where
  "chan_ok c \<longleftrightarrow> 8 \<le> ch_ps c \<and> 2 * ch_ps c < 18446744073709551616 \<and>
     ch_nwp c < 18446744073709551616 \<and> store_wf (ch_store c)"

definition reg_ok :: "channel \<Rightarrow> registry \<Rightarrow> bool" where
  "reg_ok c m \<longleftrightarrow> omap_ok m \<and> (\<forall>k x. map_of m k = Some x \<longrightarrow> rg_page x \<le> ch_nwp c div ch_ps c)"

definition sys_init :: "sys \<Rightarrow> bool" where
  "sys_init s \<longleftrightarrow> chan_ok (sy_ch s) \<and> ch_owner (sy_ch s) = None \<and> sy_writers s = Map.empty \<and>
     sy_readers s = Map.empty \<and> reg_ok (sy_ch s) (sy_rreg s) \<and> sy_log s = []"

inductive reachable :: "bool \<Rightarrow> sys \<Rightarrow> bool" for single where
  start: "sys_init s \<Longrightarrow> reachable single s"
| step: "reachable single s \<Longrightarrow> sys_step single s s' \<Longrightarrow> reachable single s'"

section \<open>Invariant\<close>

definition writer_ok :: "bool \<Rightarrow> channel \<Rightarrow> nat \<Rightarrow> writer \<Rightarrow> bool" where
  "writer_ok single c p w \<longleftrightarrow> writer_inv (ch_ps c) (ch_store c) (ch_nwp c) w \<and> wr_single w = single \<and>
     wr_pid w = p \<and> (wr_pend_size w \<noteq> 0 \<longrightarrow> \<not> single \<longrightarrow> ch_owner c = Some p)"

definition sole_writer :: "bool \<Rightarrow> (nat \<Rightarrow> writer option) \<Rightarrow> bool" where
  "sole_writer single W \<longleftrightarrow> (single \<longrightarrow> (\<exists>p. dom W \<subseteq> {p}))"

definition owner_ok :: "bool \<Rightarrow> channel \<Rightarrow> (nat \<Rightarrow> writer option) \<Rightarrow> bool" where
  "owner_ok single c W \<longleftrightarrow>
     (\<forall>p. ch_owner c = Some p \<longrightarrow> \<not> single \<and> (\<exists>w. W p = Some w \<and> wr_pend_size w \<noteq> 0))"

definition writers_ok :: "bool \<Rightarrow> channel \<Rightarrow> (nat \<Rightarrow> writer option) \<Rightarrow> bool" where
  "writers_ok single c W \<longleftrightarrow> (\<forall>p w. W p = Some w \<longrightarrow> writer_ok single c p w) \<and>
     sole_writer single W \<and> owner_ok single c W"

lemma sole_writer_upd: "sole_writer single W \<Longrightarrow> W p = Some w \<Longrightarrow> sole_writer single (W(p \<mapsto> w'))"
  by (auto simp: sole_writer_def)

lemma sole_writer_del: "sole_writer single W \<Longrightarrow> sole_writer single (W(p := None))"
  by (auto simp: sole_writer_def)

lemma sole_writer_eq: "sole_writer True W \<Longrightarrow> W p = Some v \<Longrightarrow> W q = Some w \<Longrightarrow> p = q"
  by (auto simp: sole_writer_def dom_def)

lemma writers_okD:
  assumes "writers_ok single c W" "W p = Some w"
  shows "writer_inv (ch_ps c) (ch_store c) (ch_nwp c) w" "wr_single w = single" "wr_pid w = p"
    "wr_pend_size w \<noteq> 0 \<longrightarrow> \<not> single \<longrightarrow> ch_owner c = Some p" "single \<longrightarrow> ch_owner c = None"
proof -
  have "writer_ok single c p w" "owner_ok single c W" using assms unfolding writers_ok_def by blast+
  then show "writer_inv (ch_ps c) (ch_store c) (ch_nwp c) w" "wr_single w = single" "wr_pid w = p"
    "wr_pend_size w \<noteq> 0 \<longrightarrow> \<not> single \<longrightarrow> ch_owner c = Some p" "single \<longrightarrow> ch_owner c = None"
    unfolding writer_ok_def owner_ok_def by (blast, blast, blast, blast, cases "ch_owner c") auto
qed

lemma writers_okI:
  "(\<And>p w. W p = Some w \<Longrightarrow> writer_ok single c p w) \<Longrightarrow> sole_writer single W \<Longrightarrow> owner_ok single c W \<Longrightarrow>
    writers_ok single c W"
  unfolding writers_ok_def by blast

definition reader_ok :: "sys \<Rightarrow> nat \<Rightarrow> reader \<Rightarrow> bool" where
  "reader_ok s r rd \<longleftrightarrow>
     sy_start s r + length (sy_seen s r) \<le> length (sy_log s) \<and>
     sy_seen s r = take (length (sy_seen s r)) (drop (sy_start s r) (sy_log s)) \<and>
     reader_inv (sy_ch s) rd (drop (sy_start s r + length (sy_seen s r)) (sy_log s)) \<and>
     (\<exists>x. map_of (sy_rreg s) (rd_name rd) = Some x \<and> rg_page x \<le> rd_page_id rd)"

definition readers_ok :: "sys \<Rightarrow> bool" where
  "readers_ok s \<longleftrightarrow> (\<forall>r rd. sy_readers s r = Some rd \<longrightarrow> reader_ok s r rd) \<and>
     (\<forall>r q rd rq. sy_readers s r = Some rd \<longrightarrow> sy_readers s q = Some rq \<longrightarrow> rd_name rd = rd_name rq \<longrightarrow> r = q)"

definition sys_inv :: "bool \<Rightarrow> sys \<Rightarrow> bool" where
  "sys_inv single s \<longleftrightarrow> chan_ok (sy_ch s) \<and> writers_ok single (sy_ch s) (sy_writers s) \<and>
     readers_ok s \<and> reg_ok (sy_ch s) (sy_rreg s)"

lemma sys_init_inv: "sys_init s \<Longrightarrow> sys_inv single s"
  by (simp add: sys_init_def sys_inv_def writers_ok_def sole_writer_def owner_ok_def readers_ok_def)

text \<open>How the parts react to a change of the store.\<close>

lemma writer_inv_le:
  assumes "writer_inv ps st n w" "store_le ps lo st st'" "lo \<le> n div ps" "0 < ps"
  shows "writer_inv ps st' n w"
proof -
  have k: "keeps ps lo m st st'" for m using store_le_keeps assms(2) by blast
  have "lo * ps \<le> n div ps * ps" using assms(3) by simp
  then have lo: "lo * ps \<le> n" using div_times_less_eq_dividend le_trans by blast
  have "pending_ok ps st n w \<Longrightarrow> pending_ok ps st' n w"
  proof -
    assume p: "pending_ok ps st n w"
    then have g: "gap ps (mem ps st) n (pend_start ps w)" by (simp add: pending_ok_def placed_def)
    have ge: "n \<le> pend_start ps w" using gap_ge [OF assms(4) g] .
    have pg: "lo \<le> wr_pend_page w"
    proof -
      have "wr_pend_off w < ps" using p by (auto simp: pending_ok_def placed_def)
      then have "pend_start ps w div ps = wr_pend_page w" by (simp add: pend_start_def)
      then show ?thesis using ge assms(3) by (metis div_le_mono le_trans)
    qed
    have "gap ps (mem ps st') n (pend_start ps w)"
      using gap_keeps [OF g k lo _ assms(4), of "pend_start ps w"] by simp
    moreover have "bytes_at (mem ps st) (pend_start ps w) xs \<Longrightarrow> bytes_at (mem ps st') (pend_start ps w) xs" for xs
      using bytes_at_keeps [OF _ k _ _ assms(4), of "pend_start ps w" xs "pend_start ps w + length xs"] lo ge by simp
    moreover have "has_page ps st (wr_pend_page w) i \<Longrightarrow> has_page ps st' (wr_pend_page w) i" for i
      using assms(2) pg by (auto simp: store_le_def)
    ultimately show ?thesis using p by (auto simp: pending_ok_def placed_def)
  qed
  moreover have "maps_ok ps st n w \<Longrightarrow> maps_ok ps st' n w" using maps_ok_keeps k assms(3) by blast
  ultimately show ?thesis using assms(1) by (auto simp: writer_inv_def)
qed

lemma reader_inv_keeps:
  assumes "reader_inv c rd fs" "keeps (ch_ps c) lo (ch_nwp c) (ch_store c) (ch_store c')" "lo \<le> rd_page_id rd"
    "0 < ch_ps c" "ch_ps c' = ch_ps c" "ch_nwp c' = ch_nwp c"
  shows "reader_inv c' rd fs"
proof -
  have at: "at_pos (ch_ps c) (ch_store c) rd" using assms(1) by (simp add: reader_inv_def)
  have "lo * ch_ps c \<le> rd_page_id rd * ch_ps c" using assms(3) by simp
  then have lo: "lo * ch_ps c \<le> rd_pos rd" using at unfolding at_pos_def by linarith
  have "at_pos (ch_ps c) (ch_store c') rd"
    using at assms(2,3) pool_ok_keeps [OF _ keeps_mono [OF assms(2,3) order_refl]]
    by (auto simp: at_pos_def keeps_def)
  then show ?thesis
    using assms(1,5,6) chain_keeps [OF _ assms(2) lo assms(4)] by (simp add: reader_inv_def)
qed

lemma reader_page_le:
  assumes "reader_inv c rd fs" "0 < ch_ps c"
  shows "rd_page_id rd \<le> ch_nwp c div ch_ps c"
proof -
  have "rd_page_id rd * ch_ps c \<le> rd_pos rd" "rd_pos rd \<le> ch_nwp c"
    using assms chain_ge [OF assms(2)] by (auto simp: reader_inv_def at_pos_def)
  then show ?thesis using assms(2) by (metis div_le_mono le_trans nonzero_mult_div_cancel_right not_gr_zero)
qed

section \<open>Every step keeps the invariant\<close>

lemma readers_ok_keeps:
  assumes "readers_ok s" "keeps (ch_ps (sy_ch s)) lo (ch_nwp (sy_ch s)) (ch_store (sy_ch s)) (ch_store c)"
    "0 < ch_ps (sy_ch s)" "ch_ps c = ch_ps (sy_ch s)" "ch_nwp c = ch_nwp (sy_ch s)"
    "\<And>r rd. sy_readers s r = Some rd \<Longrightarrow> lo \<le> rd_page_id rd"
  shows "readers_ok (s\<lparr>sy_ch := c\<rparr>)"
  using assms(1) reader_inv_keeps [OF _ assms(2) _ assms(3-5)] assms(6)
  by (auto simp: readers_ok_def reader_ok_def)

lemma readers_ok_writers [simp]: "readers_ok (s\<lparr>sy_writers := W\<rparr>) = readers_ok s"
  "readers_ok (s\<lparr>sy_wreg := m\<rparr>) = readers_ok s"
  by (simp_all add: readers_ok_def reader_ok_def)

text \<open>A step that only creates, maps or removes page files.\<close>

lemma inv_store:
  assumes "sys_inv single s" "store_wf st'" "store_le (ch_ps (sy_ch s)) lo (ch_store (sy_ch s)) st'"
    "lo \<le> ch_nwp (sy_ch s) div ch_ps (sy_ch s)" "\<And>r rd. sy_readers s r = Some rd \<Longrightarrow> lo \<le> rd_page_id rd"
  shows "sys_inv single (s\<lparr>sy_ch := (sy_ch s)\<lparr>ch_store := st'\<rparr>\<rparr>)"
proof -
  let ?c = "sy_ch s" and ?c' = "(sy_ch s)\<lparr>ch_store := st'\<rparr>"
  have ps: "0 < ch_ps ?c" using assms(1) by (auto simp: sys_inv_def chan_ok_def)
  have "readers_ok (s\<lparr>sy_ch := ?c'\<rparr>)"
    using readers_ok_keeps [OF _ _ ps, of lo ?c'] store_le_keeps [OF assms(3)] assms(1,5)
    by (simp add: sys_inv_def)
  moreover have "writers_ok single ?c' (sy_writers s)"
  proof -
    have W: "writers_ok single ?c (sy_writers s)" using assms(1) by (simp add: sys_inv_def)
    show ?thesis
    proof (rule writers_okI)
      fix p w assume "sy_writers s p = Some w"
      then show "writer_ok single ?c' p w"
        using writers_okD [OF W, of p w] writer_inv_le [OF _ assms(3,4) ps, of w] by (simp add: writer_ok_def)
    qed (use W in \<open>simp_all add: writers_ok_def owner_ok_def\<close>)
  qed
  ultimately show ?thesis using assms(1,2) by (simp add: sys_inv_def chan_ok_def reg_ok_def)
qed

lemma readers_above:
  assumes "sys_inv single s" "sy_readers s r = Some rd"
  shows "delete_floor (sy_ch s) (sy_rreg s) m \<le> rd_page_id rd"
proof -
  obtain x where "map_of (sy_rreg s) (rd_name rd) = Some x" "rg_page x \<le> rd_page_id rd"
  proof -
    have "reader_ok s r rd" using assms by (simp add: sys_inv_def readers_ok_def)
    then show ?thesis using that by (auto simp: reader_ok_def)
  qed
  then show ?thesis using delete_floor_le(1) le_trans by blast
qed

lemma inv_clean:
  assumes "sys_inv single s" "cleanup pol age stuck (sy_ch s) (sy_rreg s) (sy_wreg s) = (n, c)"
  shows "sys_inv single (s\<lparr>sy_ch := c\<rparr>)"
proof -
  let ?lo = "delete_floor (sy_ch s) (sy_rreg s) (sy_wreg s)"
  let ?gone = "\<lambda>p. p \<in> set (removed_pages pol age stuck (sy_ch s) (sy_rreg s) (sy_wreg s))"
  have c: "c = (sy_ch s)\<lparr>ch_store := unlink_files ?gone (ch_store (sy_ch s))\<rparr>"
    using assms(2) by (simp add: cleanup_def Let_def)
  have "store_wf (ch_store (sy_ch s))" using assms(1) by (simp add: sys_inv_def chan_ok_def)
  then show ?thesis unfolding c
    by (intro inv_store [OF assms(1), of _ ?lo] unlink_wf unlink_le removed_below delete_floor_le readers_above [OF assms(1)])
qed

lemma others_idle:
  assumes "writers_ok single c W" "W p = Some w" "lock_free single c \<or> wr_pend_size w \<noteq> 0" "W q = Some v" "q \<noteq> p"
  shows "wr_pend_size v = 0"
proof (cases single)
  case True
  then show ?thesis using assms sole_writer_eq by (auto simp: writers_ok_def)
next
  case False
  then show ?thesis
    using writers_okD(4) [OF assms(1,2)] writers_okD(4) [OF assms(1,4)] assms(3,5) by (auto simp: lock_free_def)
qed

text \<open>A step of the writer that holds the lock, below the published position.\<close>

lemma inv_owner:
  assumes inv: "sys_inv single s" and w: "sy_writers s p = Some w"
    and idle: "lock_free single (sy_ch s) \<or> wr_pend_size w \<noteq> 0"
    and c: "ch_ps c = ch_ps (sy_ch s)" "ch_nwp c = ch_nwp (sy_ch s)" "store_wf (ch_store c)"
      "keeps (ch_ps c) 0 (ch_nwp c) (ch_store (sy_ch s)) (ch_store c)"
    and w': "writer_inv (ch_ps c) (ch_store c) (ch_nwp c) w'" "wr_single w' = single" "wr_pid w' = p"
      "wr_pend_size w' \<noteq> 0 \<longrightarrow> \<not> single \<longrightarrow> ch_owner c = Some p"
      "\<And>q. ch_owner c = Some q \<longrightarrow> q = p \<and> \<not> single \<and> wr_pend_size w' \<noteq> 0"
  shows "sys_inv single (s\<lparr>sy_ch := c, sy_writers := (sy_writers s)(p \<mapsto> w')\<rparr>)"
proof -
  have ps: "0 < ch_ps (sy_ch s)" using inv by (auto simp: sys_inv_def chan_ok_def)
  have W: "writers_ok single (sy_ch s) (sy_writers s)" using inv by (simp add: sys_inv_def)
  have "readers_ok (s\<lparr>sy_ch := c\<rparr>)"
    using readers_ok_keeps [OF _ _ ps c(1,2), of 0] c inv by (simp add: sys_inv_def)
  then have R: "readers_ok (s\<lparr>sy_ch := c, sy_writers := (sy_writers s)(p \<mapsto> w')\<rparr>)" by simp
  have others: "writer_inv (ch_ps c) (ch_store c) (ch_nwp c) v \<and> wr_pend_size v = 0"
    if "sy_writers s q = Some v" "q \<noteq> p" for q v
  proof -
    have z: "wr_pend_size v = 0" using others_idle [OF W w idle that] .
    then have "maps_ok (ch_ps c) (ch_store (sy_ch s)) (ch_nwp c) v" "cached_ok (ch_ps c) (ch_nwp c) v"
      using writers_okD(1) [OF W that(1)] c(1,2) by (simp_all add: writer_inv_def)
    then show ?thesis using z maps_ok_keeps [OF _ c(4)] by (simp add: writer_inv_def)
  qed
  have "writers_ok single c ((sy_writers s)(p \<mapsto> w'))"
  proof (rule writers_okI)
    fix q v assume v: "((sy_writers s)(p \<mapsto> w')) q = Some v"
    show "writer_ok single c q v"
    proof (cases "q = p")
      case True
      then show ?thesis using v w'(1-4) by (simp add: writer_ok_def)
    next
      case False
      then have "sy_writers s q = Some v" using v by simp
      then show ?thesis using others [OF _ False] writers_okD [OF W, of q v] by (simp add: writer_ok_def)
    qed
  next
    show "sole_writer single ((sy_writers s)(p \<mapsto> w'))"
      using sole_writer_upd [of single "sy_writers s" p w w'] W w unfolding writers_ok_def by blast
    show "owner_ok single c ((sy_writers s)(p \<mapsto> w'))" using w'(5) by (auto simp: owner_ok_def)
  qed
  then show ?thesis using R inv c by (simp add: sys_inv_def chan_ok_def reg_ok_def)
qed

lemma inv_open:
  assumes inv: "sys_inv single s" and w: "sy_writers s p = Some w" "wr_pend_size w = 0" "lock_free single (sy_ch s)"
    and o: "0 < ty" "ty < 65536" "n < 4294967288" "open_frame os ty n w (sy_ch s) = (res, w', c)"
  shows "sys_inv single (s\<lparr>sy_ch := c, sy_writers := (sy_writers s)(p \<mapsto> w')\<rparr>)"
proof -
  have ps: "0 < ch_ps (sy_ch s)" "store_wf (ch_store (sy_ch s))" and Wok: "writers_ok single (sy_ch s) (sy_writers s)"
    using inv by (auto simp: sys_inv_def chan_ok_def)
  have W: "writer_inv (ch_ps (sy_ch s)) (ch_store (sy_ch s)) (ch_nwp (sy_ch s)) w" "wr_single w = single" "wr_pid w = p"
    and own: "single \<longrightarrow> ch_owner (sy_ch s) = None"
    using writers_okD [OF Wok w(1)] by simp_all
  have own0: "ch_owner (sy_ch s) = None" using w(3) own by (auto simp: lock_free_def)
  have O: "store_wf (ch_store c)" "keeps (ch_ps (sy_ch s)) 0 (ch_nwp (sy_ch s)) (ch_store (sy_ch s)) (ch_store c)"
    "writer_inv (ch_ps (sy_ch s)) (ch_store c) (ch_nwp (sy_ch s)) w'" "ch_ps c = ch_ps (sy_ch s)"
    "ch_nwp c = ch_nwp (sy_ch s)" "wr_pid w' = p" "wr_single w' = single" "open_result ty n res w (sy_ch s) w' c"
    using open_frame_spec [OF ps W(1) w(2) o] W(2,3) by simp_all
  have owner: "wr_pend_size w' \<noteq> 0 \<longrightarrow> \<not> single \<longrightarrow> ch_owner c = Some p"
    "ch_owner c = Some q \<longrightarrow> q = p \<and> \<not> single \<and> wr_pend_size w' \<noteq> 0" for q
    using O(8) W(2,3) own0 by (auto simp: open_result_def split: sum.splits)
  show ?thesis
    by (rule inv_owner [OF inv w(1) _ O(4,5,1) _ _ O(7,6) owner]) (use O w(3) in simp_all)
qed

lemma inv_put:
  assumes inv: "sys_inv single s" and w: "sy_writers s p = Some w" "wr_pend_size w \<noteq> 0"
    and k: "8 \<le> k" "k + length bs \<le> wr_pend_size w"
  shows "sys_inv single (s\<lparr>sy_ch := put_data (pg_inode (wr_page w)) (wr_pend_off w + k) bs (sy_ch s)\<rparr>)"
proof -
  have ps: "0 < ch_ps (sy_ch s)" "store_wf (ch_store (sy_ch s))" and Wok: "writers_ok single (sy_ch s) (sy_writers s)"
    using inv by (auto simp: sys_inv_def chan_ok_def)
  have W: "writer_inv (ch_ps (sy_ch s)) (ch_store (sy_ch s)) (ch_nwp (sy_ch s)) w" "wr_single w = single" "wr_pid w = p"
    and own: "\<not> single \<longrightarrow> ch_owner (sy_ch s) = Some p" "single \<longrightarrow> ch_owner (sy_ch s) = None"
    using writers_okD [OF Wok w(1)] w(2) by simp_all
  define c where "c = put_data (pg_inode (wr_page w)) (wr_pend_off w + k) bs (sy_ch s)"
  have P: "store_wf (ch_store c)" "keeps (ch_ps (sy_ch s)) 0 (ch_nwp (sy_ch s)) (ch_store (sy_ch s)) (ch_store c)"
    "writer_inv (ch_ps (sy_ch s)) (ch_store c) (ch_nwp (sy_ch s)) w" "same_meta (sy_ch s) c"
    using put_pending [OF ps W(1) w(2) k c_def] by simp_all
  have m: "ch_ps c = ch_ps (sy_ch s)" "ch_nwp c = ch_nwp (sy_ch s)" "ch_owner c = ch_owner (sy_ch s)"
    using P(4) by (simp_all add: same_meta_def)
  have "sys_inv single (s\<lparr>sy_ch := c, sy_writers := (sy_writers s)(p \<mapsto> w)\<rparr>)"
    by (rule inv_owner [OF inv w(1) _ m(1,2) P(1) _ _ W(2,3)]) (use P m w own in auto)
  moreover have "(sy_writers s)(p \<mapsto> w) = sy_writers s" using w(1) by auto
  moreover have "(s\<lparr>sy_ch := c, sy_writers := sy_writers s\<rparr>) = (s\<lparr>sy_ch := c\<rparr>)" by simp
  ultimately show ?thesis by (simp add: c_def)
qed

lemma inv_close:
  assumes inv: "sys_inv single s" and w: "sy_writers s p = Some w" "wr_pend_size w \<noteq> 0"
    and b: "pend_start (ch_ps (sy_ch s)) w + wr_pend_size w < 18446744073709551616"
    and cl: "close_frame w (sy_ch s) = (w', c)"
  shows "sys_inv single (s\<lparr>sy_ch := c, sy_writers := (sy_writers s)(p \<mapsto> w'),
      sy_log := sy_log s @ [pending_frame w (sy_ch s)]\<rparr>)"
    (is "sys_inv single ?s'")
proof -
  let ?c = "sy_ch s" and ?f = "pending_frame w (sy_ch s)"
  have ps: "0 < ch_ps ?c" and C: "chan_ok ?c" and Wok: "writers_ok single ?c (sy_writers s)"
    and R: "readers_ok s" and G: "reg_ok ?c (sy_rreg s)"
    using inv by (auto simp: sys_inv_def chan_ok_def)
  note W = writers_okD [OF Wok w(1)]
  have cs: "ch_store c = ch_store ?c" "ch_ps c = ch_ps ?c" "ch_nwp c = pend_start (ch_ps ?c) w + wr_pend_size w"
    "ch_nwp ?c \<le> ch_nwp c" "writer_inv (ch_ps ?c) (ch_store ?c) (ch_nwp c) w'" "wr_pend_size w' = 0"
    "ch_owner c = (if wr_single w then ch_owner ?c else None)" "wr_pid w' = p" "wr_single w' = single"
    using close_frame_spec [OF ps W(1) w(2) b cl] W(2,3) by auto
  have owner: "ch_owner c = None" using cs(7) W(2,5) by simp
  have pend: "pending_ok (ch_ps ?c) (ch_store ?c) (ch_nwp ?c) w" using W(1) w(2) by (simp add: writer_inv_def)
  note F = pending_frame_at [OF ps pend]
  have gap: "gap (ch_ps ?c) (mem (ch_ps ?c) (ch_store ?c)) (ch_nwp ?c) (pend_start (ch_ps ?c) w)"
    using pend by (simp add: pending_ok_def placed_def)
  have "readers_ok ?s'"
    unfolding readers_ok_def
  proof (intro conjI allI impI)
    fix r rd assume r: "sy_readers ?s' r = Some rd"
    then have rk: "reader_ok s r rd" using R by (simp add: readers_ok_def)
    let ?k = "sy_start s r + length (sy_seen s r)"
    have "reader_inv c rd (drop ?k (sy_log s) @ [?f])"
      using rk chain_snoc [OF _ gap, of _ _ ?f] F cs by (auto simp: reader_ok_def reader_inv_def)
    then show "reader_ok ?s' r rd" using rk by (auto simp: reader_ok_def)
  next
    fix r q rd rq assume "sy_readers ?s' r = Some rd" "sy_readers ?s' q = Some rq" "rd_name rd = rd_name rq"
    then show "r = q" using R unfolding readers_ok_def by simp
  qed
  moreover have "writers_ok single c ((sy_writers s)(p \<mapsto> w'))"
  proof (rule writers_okI)
    fix q v assume v: "((sy_writers s)(p \<mapsto> w')) q = Some v"
    show "writer_ok single c q v"
    proof (cases "q = p")
      case True
      then show ?thesis using v cs by (simp add: writer_ok_def)
    next
      case False
      then have qv: "sy_writers s q = Some v" using v by simp
      then have z: "wr_pend_size v = 0" using others_idle [OF Wok w(1) _ qv False] w(2) by simp
      have "\<not> single" using sole_writer_eq [of "sy_writers s" p w q v] Wok w(1) qv False
        by (auto simp: writers_ok_def)
      then show ?thesis using writers_okD [OF Wok qv] z maps_ok_nwp [OF _ cs(4)] cs(1,2)
        by (simp add: writer_ok_def writer_inv_def cached_ok_def)
    qed
  next
    show "sole_writer single ((sy_writers s)(p \<mapsto> w'))"
      using sole_writer_upd [of single "sy_writers s" p w w'] Wok w(1) unfolding writers_ok_def by blast
    show "owner_ok single c ((sy_writers s)(p \<mapsto> w'))" using owner by (simp add: owner_ok_def)
  qed
  moreover have "reg_ok c (sy_rreg s)"
    using G cs(2,4) unfolding reg_ok_def by (metis div_le_mono le_trans)
  ultimately show ?thesis using C cs b by (simp add: sys_inv_def chan_ok_def)
qed

text \<open>An idle writer that appears or remaps pages.\<close>

lemma inv_idle_writer:
  assumes inv: "sys_inv single s" and st: "store_wf st'" "store_le (ch_ps (sy_ch s)) 0 (ch_store (sy_ch s)) st'"
    and w': "writer_inv (ch_ps (sy_ch s)) st' (ch_nwp (sy_ch s)) w'" "wr_pend_size w' = 0" "wr_single w' = single"
      "wr_pid w' = p" "sole_writer single ((sy_writers s)(p \<mapsto> w'))"
    and idle: "\<And>w. sy_writers s p = Some w \<Longrightarrow> wr_pend_size w = 0"
  shows "sys_inv single (s\<lparr>sy_ch := (sy_ch s)\<lparr>ch_store := st'\<rparr>, sy_writers := (sy_writers s)(p \<mapsto> w')\<rparr>)"
proof -
  let ?c = "(sy_ch s)\<lparr>ch_store := st'\<rparr>"
  have I: "sys_inv single (s\<lparr>sy_ch := ?c\<rparr>)" using inv_store [OF inv st] by simp
  then have W: "writers_ok single ?c (sy_writers s)" by (simp add: sys_inv_def)
  have "writers_ok single ?c ((sy_writers s)(p \<mapsto> w'))"
  proof (rule writers_okI)
    fix q v assume "((sy_writers s)(p \<mapsto> w')) q = Some v"
    then show "writer_ok single ?c q v"
      using w'(1-4) W unfolding writers_ok_def by (cases "q = p") (auto simp: writer_ok_def)
  next
    show "owner_ok single ?c ((sy_writers s)(p \<mapsto> w'))"
      using W idle unfolding writers_ok_def owner_ok_def by (metis fun_upd_apply)
  qed (rule w'(5))
  moreover have "readers_ok (s\<lparr>sy_ch := ?c, sy_writers := (sy_writers s)(p \<mapsto> w')\<rparr>)"
    using I by (simp add: sys_inv_def)
  ultimately show ?thesis using I by (simp add: sys_inv_def)
qed

lemma writer_create_spec:
  assumes "0 < ch_ps c" "store_wf (ch_store c)" "writer_create os p single name c = (res, c')"
  shows "c' = c\<lparr>ch_store := ch_store c'\<rparr> \<and> store_wf (ch_store c') \<and>
    store_le (ch_ps c) 0 (ch_store c) (ch_store c') \<and>
    (\<forall>w. res = Inr w \<longrightarrow> writer_inv (ch_ps c) (ch_store c') (ch_nwp c) w \<and> wr_pend_size w = 0 \<and>
      wr_single w = single \<and> wr_pid w = p \<and> wr_name w = name)"
proof -
  let ?p = "ch_nwp c div ch_ps c"
  obtain r pool st where g: "get_page (ch_ps c) (os ?p) (new_pool False) ?p (ch_store c) = (r, pool, st)"
    by (metis prod_cases3)
  note sp = get_page_spec [OF assms(2) pool_ok_new g, of ?p]
  have "\<not> pp_read_only pool" using sp by (simp add: new_pool_def)
  then show ?thesis
    using assms(1,3) g sp
    by (cases r) (auto simp: writer_create_def Let_def writer_inv_def maps_ok_def cached_ok_def less_imp_le)
qed

lemma writer_prefetch_spec:
  assumes "store_wf (ch_store c)" "maps_ok (ch_ps c) (ch_store c) n w"
    "writer_prefetch_pages os m w c = (w', c')"
  shows "c' = c\<lparr>ch_store := ch_store c'\<rparr> \<and> store_wf (ch_store c') \<and>
    store_le (ch_ps c) 0 (ch_store c) (ch_store c') \<and> maps_ok (ch_ps c) (ch_store c') n w' \<and>
    same_writer w w' \<and> wr_page w' = wr_page w"
proof -
  let ?ids = "[pg_id (wr_page w) + 1 ..< pg_id (wr_page w) + 1 + m]"
  obtain pool st where g: "prefetch_range (ch_ps c) os ?ids (wr_pool w) (ch_store c) = (pool, st)" by fastforce
  have "pool_ok (ch_ps c) (n div ch_ps c) (ch_store c) (wr_pool w)" using assms(2) by (simp add: maps_ok_def)
  note sp = prefetch_range_spec [OF assms(1) this g]
  have "w' = w\<lparr>wr_pool := pool\<rparr>" "c' = c\<lparr>ch_store := st\<rparr>"
    using assms(3) g by (simp_all add: writer_prefetch_pages_def)
  moreover have "maps_ok (ch_ps c) st n w"
    using maps_ok_keeps [OF assms(2) store_le_keeps] sp by blast
  ultimately show ?thesis using sp by (auto simp: maps_ok_def same_writer_def)
qed

lemma inv_create_writer:
  assumes inv: "sys_inv single s" and p: "sy_writers s p = None" "single \<longrightarrow> sy_writers s = Map.empty"
    and c: "writer_create os p single name (sy_ch s) = (Inr w, c)"
  shows "sys_inv single (s\<lparr>sy_ch := c, sy_writers := (sy_writers s)(p \<mapsto> w)\<rparr>)"
proof -
  have ps: "0 < ch_ps (sy_ch s)" "store_wf (ch_store (sy_ch s))" using inv by (auto simp: sys_inv_def chan_ok_def)
  have C: "c = (sy_ch s)\<lparr>ch_store := ch_store c\<rparr>" "store_wf (ch_store c)"
    "store_le (ch_ps (sy_ch s)) 0 (ch_store (sy_ch s)) (ch_store c)"
    "writer_inv (ch_ps (sy_ch s)) (ch_store c) (ch_nwp (sy_ch s)) w" "wr_pend_size w = 0" "wr_single w = single" "wr_pid w = p"
    using writer_create_spec [OF ps c] by blast+
  have "sole_writer single ((sy_writers s)(p \<mapsto> w))" using p(2) by (auto simp: sole_writer_def)
  then have "sys_inv single (s\<lparr>sy_ch := (sy_ch s)\<lparr>ch_store := ch_store c\<rparr>, sy_writers := (sy_writers s)(p \<mapsto> w)\<rparr>)"
    by (rule inv_idle_writer [OF inv C(2-7)]) (use p(1) in simp)
  then show ?thesis using C(1) by simp
qed

lemma inv_create_writer_failed:
  assumes inv: "sys_inv single s" and c: "writer_create os p single name (sy_ch s) = (Inl e, c)"
  shows "sys_inv single (s\<lparr>sy_ch := c\<rparr>)"
proof -
  have ps: "0 < ch_ps (sy_ch s)" "store_wf (ch_store (sy_ch s))" using inv by (auto simp: sys_inv_def chan_ok_def)
  have C: "c = (sy_ch s)\<lparr>ch_store := ch_store c\<rparr>" "store_wf (ch_store c)"
    "store_le (ch_ps (sy_ch s)) 0 (ch_store (sy_ch s)) (ch_store c)"
    using writer_create_spec [OF ps c] by blast+
  show ?thesis using inv_store [OF inv C(2,3)] C(1) by simp
qed

lemma inv_writer_prefetch:
  assumes inv: "sys_inv single s" and w: "sy_writers s p = Some w" "wr_pend_size w = 0"
    and pf: "writer_prefetch_pages os n w (sy_ch s) = (w', c)"
  shows "sys_inv single (s\<lparr>sy_ch := c, sy_writers := (sy_writers s)(p \<mapsto> w')\<rparr>)"
proof -
  have wf: "store_wf (ch_store (sy_ch s))" and Wok: "writers_ok single (sy_ch s) (sy_writers s)"
    using inv by (auto simp: sys_inv_def chan_ok_def)
  note W = writers_okD [OF Wok w(1)]
  have "maps_ok (ch_ps (sy_ch s)) (ch_store (sy_ch s)) (ch_nwp (sy_ch s)) w" using W(1) by (simp add: writer_inv_def)
  note sp = writer_prefetch_spec [OF wf this pf]
  have C: "c = (sy_ch s)\<lparr>ch_store := ch_store c\<rparr>" "store_wf (ch_store c)"
    "store_le (ch_ps (sy_ch s)) 0 (ch_store (sy_ch s)) (ch_store c)" using sp by blast+
  have w': "wr_pend_size w' = 0" "wr_single w' = single" "wr_pid w' = p"
    using sp w(2) W(2,3) by (simp_all add: same_writer_def)
  have "cached_ok (ch_ps (sy_ch s)) (ch_nwp (sy_ch s)) w'"
    using sp W(1) w(2) by (auto simp: cached_ok_def same_writer_def writer_inv_def)
  then have wi: "writer_inv (ch_ps (sy_ch s)) (ch_store c) (ch_nwp (sy_ch s)) w'"
    using sp w' by (simp add: writer_inv_def)
  have "sole_writer single ((sy_writers s)(p \<mapsto> w'))"
    using sole_writer_upd [of single "sy_writers s" p w w'] Wok w(1) unfolding writers_ok_def by blast
  then have "sys_inv single (s\<lparr>sy_ch := (sy_ch s)\<lparr>ch_store := ch_store c\<rparr>, sy_writers := (sy_writers s)(p \<mapsto> w')\<rparr>)"
    by (rule inv_idle_writer [OF inv C(2,3) wi w']) (use w in simp)
  then show ?thesis using C(1) by simp
qed

lemma inv_writer_close_old:
  assumes inv: "sys_inv single s" and w: "sy_writers s p = Some w" "wr_pend_size w = 0"
  shows "sys_inv single (s\<lparr>sy_writers := (sy_writers s)(p \<mapsto> writer_close_old_pages w), sy_wreg := m\<rparr>)"
proof -
  let ?w' = "writer_close_old_pages w"
  have wf: "store_wf (ch_store (sy_ch s))" and Wok: "writers_ok single (sy_ch s) (sy_writers s)"
    using inv by (auto simp: sys_inv_def chan_ok_def)
  note W = writers_okD [OF Wok w(1)]
  have w': "writer_inv (ch_ps (sy_ch s)) (ch_store (sy_ch s)) (ch_nwp (sy_ch s)) ?w'" "wr_pend_size ?w' = 0"
    "wr_single ?w' = single" "wr_pid ?w' = p"
    using W w(2) by (simp_all add: writer_close_old_pages_def writer_inv_def maps_ok_def cached_ok_def)
  have "sole_writer single ((sy_writers s)(p \<mapsto> ?w'))"
    using sole_writer_upd [of single "sy_writers s" p w ?w'] Wok w(1) unfolding writers_ok_def by blast
  then have "sys_inv single (s\<lparr>sy_ch := (sy_ch s)\<lparr>ch_store := ch_store (sy_ch s)\<rparr>, sy_writers := (sy_writers s)(p \<mapsto> ?w')\<rparr>)"
    by (rule inv_idle_writer [OF inv wf store_le_refl w']) (use w in simp)
  then show ?thesis by (simp add: sys_inv_def)
qed

text \<open>When a writer's process ends its lock is released; what it had opened is never published.\<close>

lemma inv_writer_ends:
  assumes inv: "sys_inv single s" and w: "sy_writers s p = Some w"
  shows "sys_inv single (s\<lparr>sy_writers := (sy_writers s)(p := None),
      sy_ch := (if ch_owner (sy_ch s) = Some p then (sy_ch s)\<lparr>ch_owner := None\<rparr> else sy_ch s)\<rparr>)"
proof -
  define c where "c = (if ch_owner (sy_ch s) = Some p then (sy_ch s)\<lparr>ch_owner := None\<rparr> else sy_ch s)"
  have cs: "ch_ps c = ch_ps (sy_ch s)" "ch_nwp c = ch_nwp (sy_ch s)" "ch_store c = ch_store (sy_ch s)"
    "ch_owner c = (if ch_owner (sy_ch s) = Some p then None else ch_owner (sy_ch s))"
    by (simp_all add: c_def)
  have Wok: "writers_ok single (sy_ch s) (sy_writers s)" and ps: "0 < ch_ps (sy_ch s)"
    using inv by (auto simp: sys_inv_def chan_ok_def)
  have "writers_ok single c ((sy_writers s)(p := None))"
  proof (rule writers_okI)
    fix q v assume "((sy_writers s)(p := None)) q = Some v"
    then have q: "q \<noteq> p" "sy_writers s q = Some v" by (auto split: if_splits)
    show "writer_ok single c q v" using writers_okD [OF Wok q(2)] q(1) cs by (simp add: writer_ok_def)
  next
    show "sole_writer single ((sy_writers s)(p := None))"
      using sole_writer_del Wok unfolding writers_ok_def by blast
    show "owner_ok single c ((sy_writers s)(p := None))"
      using Wok cs(4) unfolding writers_ok_def owner_ok_def by (metis fun_upd_apply option.distinct(1))
  qed
  moreover have "readers_ok (s\<lparr>sy_ch := c\<rparr>)"
    using readers_ok_keeps [of s 0 c] cs inv ps by (simp add: sys_inv_def)
  then have "readers_ok (s\<lparr>sy_writers := (sy_writers s)(p := None), sy_ch := c\<rparr>)"
    by (simp add: readers_ok_def reader_ok_def)
  ultimately show ?thesis using inv cs by (simp add: sys_inv_def chan_ok_def reg_ok_def flip: c_def)
qed

text \<open>A reader that moves on, keeping its name.\<close>

lemma inv_reader:
  assumes inv: "sys_inv single s" and r: "sy_readers s r = Some rd" and n: "rd_name rd' = rd_name rd"
    and ok: "reader_ok (s\<lparr>sy_seen := (sy_seen s)(r := seen)\<rparr>) r rd'"
  shows "sys_inv single (s\<lparr>sy_readers := (sy_readers s)(r \<mapsto> rd'), sy_seen := (sy_seen s)(r := seen)\<rparr>)"
proof -
  let ?s' = "s\<lparr>sy_readers := (sy_readers s)(r \<mapsto> rd'), sy_seen := (sy_seen s)(r := seen)\<rparr>"
  have R: "readers_ok s" using inv by (simp add: sys_inv_def)
  have "readers_ok ?s'"
    unfolding readers_ok_def
  proof (intro conjI allI impI)
    fix q rq assume "sy_readers ?s' q = Some rq"
    then show "reader_ok ?s' q rq"
      using ok R by (cases "q = r") (auto simp: readers_ok_def reader_ok_def)
  next
    fix q q' rq rq' assume "sy_readers ?s' q = Some rq" "sy_readers ?s' q' = Some rq'" "rd_name rq = rd_name rq'"
    then show "q = q'" using R r n unfolding readers_ok_def by (auto split: if_splits)
  qed
  then show ?thesis using inv by (simp add: sys_inv_def)
qed

lemma inv_read:
  assumes inv: "sys_inv single s" and r: "sy_readers s r = Some rd" and nf: "next_frame os (sy_ch s) rd = Some (out, rd')"
  shows "sys_inv single (s\<lparr>sy_readers := (sy_readers s)(r \<mapsto> rd'),
      sy_seen := (sy_seen s)(r := sy_seen s r @ (case out of Frame_At i off \<Rightarrow> [frame_view (sy_ch s) i off] | _ \<Rightarrow> []))\<rparr>)"
proof -
  let ?k = "sy_start s r + length (sy_seen s r)"
  have C: "chan_ok (sy_ch s)" and rk: "reader_ok s r rd" using inv r by (auto simp: sys_inv_def readers_ok_def)
  have "read_result os (sy_ch s) rd (drop ?k (sy_log s)) out rd'"
    using next_frame_spec [of "sy_ch s" rd "drop ?k (sy_log s)" os] nf C rk
    by (auto simp: chan_ok_def reader_ok_def)
  then have rr: "rd_name rd' = rd_name rd" "rd_page_id rd \<le> rd_page_id rd'"
    "case out of No_Frame \<Rightarrow> rd' = rd | Read_Failed e \<Rightarrow> reader_inv (sy_ch s) rd' (drop ?k (sy_log s))
      | Bad_Access \<Rightarrow> False
      | Frame_At i off \<Rightarrow> (\<exists>gs. drop ?k (sy_log s) = frame_view (sy_ch s) i off # gs \<and> reader_inv (sy_ch s) rd' gs)"
    by (auto simp: read_result_def split: read_outcome.splits)
  have reg: "\<exists>x. map_of (sy_rreg s) (rd_name rd') = Some x \<and> rg_page x \<le> rd_page_id rd'"
    using rk rr(1,2) by (auto simp: reader_ok_def intro: le_trans)
  have "reader_ok (s\<lparr>sy_seen := (sy_seen s)(r := sy_seen s r @
      (case out of Frame_At i off \<Rightarrow> [frame_view (sy_ch s) i off] | _ \<Rightarrow> []))\<rparr>) r rd'"
  proof (cases out)
    case (Frame_At i off)
    then obtain gs where gs: "drop ?k (sy_log s) = frame_view (sy_ch s) i off # gs" "reader_inv (sy_ch s) rd' gs"
      using rr(3) by auto
    have lt: "?k < length (sy_log s)" using gs(1) by (metis drop_all list.distinct(1) not_le)
    have at: "sy_log s ! ?k = frame_view (sy_ch s) i off" and tl: "drop (Suc ?k) (sy_log s) = gs"
      using gs(1) lt by (simp_all add: drop_Suc nth_via_drop tl_drop [symmetric])
    have "take (Suc (length (sy_seen s r))) (drop (sy_start s r) (sy_log s))
        = take (length (sy_seen s r)) (drop (sy_start s r) (sy_log s)) @ [sy_log s ! ?k]"
      using lt by (subst take_Suc_conv_app_nth) auto
    then show ?thesis using rk gs(2) lt at tl reg Frame_At by (simp add: reader_ok_def)
  qed (use rk rr(3) reg in \<open>auto simp: reader_ok_def\<close>)
  then show ?thesis by (rule inv_reader [OF inv r rr(1)])
qed

lemma inv_create_reader:
  assumes inv: "sys_inv single s" and r: "sy_readers s r = None" and reg: "map_of (sy_rreg s) name \<noteq> None"
    and fresh: "\<not> name_in_use name s" and cr: "reader_create os name (sy_ch s) = Inr rd"
  shows "sys_inv single (s\<lparr>sy_readers := (sy_readers s)(r \<mapsto> rd),
      sy_start := (sy_start s)(r := length (sy_log s)), sy_seen := (sy_seen s)(r := [])\<rparr>)"
    (is "sys_inv single ?s'")
proof -
  let ?c = "sy_ch s" and ?p = "ch_nwp (sy_ch s) div ch_ps (sy_ch s)"
  have ps: "0 < ch_ps ?c" "store_wf (ch_store ?c)" and G: "reg_ok ?c (sy_rreg s)" and R: "readers_ok s"
    using inv by (auto simp: sys_inv_def chan_ok_def)
  obtain res pool st where g: "get_page (ch_ps ?c) (os ?p) (new_pool True) ?p (ch_store ?c) = (res, pool, st)"
    by (metis prod_cases3)
  obtain pg where pg: "res = Inr pg" "rd = \<lparr>rd_name = name, rd_pos = ch_nwp ?c, rd_page_id = ?p,
      rd_off = ch_nwp ?c mod ch_ps ?c, rd_page = pg, rd_pool = pool\<rparr>"
    using cr g by (auto simp: reader_create_def Let_def split: sum.splits)
  note sp = get_page_spec [OF ps(2) pool_ok_new g, of ?p]
  have "st = ch_store ?c" using sp by (simp add: new_pool_def)
  then have "at_pos (ch_ps ?c) (ch_store ?c) rd"
    using sp pg ps(1) by (auto simp: at_pos_def new_pool_def less_imp_le)
  then have "reader_inv ?c rd []" using pg(2) by (simp add: reader_inv_def)
  moreover have "\<exists>x. map_of (sy_rreg s) name = Some x \<and> rg_page x \<le> ?p" using reg G by (auto simp: reg_ok_def)
  ultimately have new: "reader_ok ?s' r rd" using pg(2) by (simp add: reader_ok_def)
  have "readers_ok ?s'"
    unfolding readers_ok_def
  proof (intro conjI allI impI)
    fix q rq assume "sy_readers ?s' q = Some rq"
    then show "reader_ok ?s' q rq"
      using new R by (cases "q = r") (auto simp: readers_ok_def reader_ok_def)
  next
    fix q q' rq rq' assume q: "sy_readers ?s' q = Some rq" "sy_readers ?s' q' = Some rq'" "rd_name rq = rd_name rq'"
    have "rd_name rd = name" using pg(2) by simp
    then show "q = q'" using R q fresh unfolding readers_ok_def name_in_use_def by (auto split: if_splits)
  qed
  then show ?thesis using inv by (simp add: sys_inv_def)
qed

lemma inv_reader_pool:
  assumes inv: "sys_inv single s" and r: "sy_readers s r = Some rd"
    and p: "pool_ok (ch_ps (sy_ch s)) (rd_page_id rd) (ch_store (sy_ch s)) pool" "pp_read_only pool"
  shows "sys_inv single (s\<lparr>sy_readers := (sy_readers s)(r \<mapsto> rd\<lparr>rd_pool := pool\<rparr>)\<rparr>)"
proof -
  have "reader_ok s r rd" using inv r by (simp add: sys_inv_def readers_ok_def)
  then have "reader_ok (s\<lparr>sy_seen := (sy_seen s)(r := sy_seen s r)\<rparr>) r (rd\<lparr>rd_pool := pool\<rparr>)"
    using p by (simp add: reader_ok_def reader_inv_def at_pos_def)
  then show ?thesis using inv_reader [OF inv r, of "rd\<lparr>rd_pool := pool\<rparr>" "sy_seen s r"] by simp
qed

lemma inv_reader_prefetch:
  assumes inv: "sys_inv single s" and r: "sy_readers s r = Some rd"
  shows "sys_inv single (s\<lparr>sy_readers := (sy_readers s)(r \<mapsto> reader_prefetch_pages os n (sy_ch s) rd)\<rparr>)"
proof -
  let ?ids = "[pg_id (rd_page rd) + 1 ..< pg_id (rd_page rd) + 1 + n]"
  obtain pool st where g: "prefetch_range (ch_ps (sy_ch s)) os ?ids (rd_pool rd) (ch_store (sy_ch s)) = (pool, st)"
    by fastforce
  have "reader_ok s r rd" "store_wf (ch_store (sy_ch s))"
    using inv r by (simp_all add: sys_inv_def readers_ok_def chan_ok_def)
  then have a: "at_pos (ch_ps (sy_ch s)) (ch_store (sy_ch s)) rd" and wf: "store_wf (ch_store (sy_ch s))"
    by (simp_all add: reader_ok_def reader_inv_def)
  have pk: "pool_ok (ch_ps (sy_ch s)) (rd_page_id rd) (ch_store (sy_ch s)) (rd_pool rd)" and ro: "pp_read_only (rd_pool rd)"
    using a by (auto simp: at_pos_def)
  note sp = prefetch_range_spec [OF wf pk g]
  have "st = ch_store (sy_ch s)" using sp ro by blast
  then have "sys_inv single (s\<lparr>sy_readers := (sy_readers s)(r \<mapsto> rd\<lparr>rd_pool := pool\<rparr>)\<rparr>)"
    using inv_reader_pool [OF inv r, of pool] sp ro by blast
  then show ?thesis by (simp only: reader_prefetch_pages_def g fst_conv)
qed

lemma inv_rreg:
  assumes inv: "sys_inv single s" and m: "reg_ok (sy_ch s) m"
    and k: "\<And>r rd. sy_readers s r = Some rd \<Longrightarrow> \<exists>x. map_of m (rd_name rd) = Some x \<and> rg_page x \<le> rd_page_id rd"
  shows "sys_inv single (s\<lparr>sy_rreg := m\<rparr>)"
proof -
  have "readers_ok (s\<lparr>sy_rreg := m\<rparr>)"
    using inv k unfolding sys_inv_def readers_ok_def reader_ok_def by simp
  then show ?thesis using inv m by (simp add: sys_inv_def)
qed

lemma inv_reader_release:
  assumes inv: "sys_inv single s" and r: "sy_readers s r = Some rd"
  shows "sys_inv single (s\<lparr>sy_readers := (sy_readers s)(r \<mapsto> release_old_pages rd),
      sy_rreg := publish_page (rd_name rd) (rd_page_id rd) (sy_rreg s)\<rparr>)"
proof -
  let ?m = "publish_page (rd_name rd) (rd_page_id rd) (sy_rreg s)"
  have rk: "reader_ok s r rd" and R: "readers_ok s" and G: "reg_ok (sy_ch s) (sy_rreg s)" and ps: "0 < ch_ps (sy_ch s)"
    using inv r by (auto simp: sys_inv_def readers_ok_def chan_ok_def)
  have "sys_inv single (s\<lparr>sy_readers := (sy_readers s)(r \<mapsto> release_old_pages rd)\<rparr>)"
    using inv_reader_pool [OF inv r, of "close_pages_before (rd_page_id rd) (rd_pool rd)"] rk
    by (simp add: release_old_pages_def reader_ok_def reader_inv_def at_pos_def)
  moreover have "rd_page_id rd \<le> ch_nwp (sy_ch s) div ch_ps (sy_ch s)"
    using rk reader_page_le [OF _ ps] by (auto simp: reader_ok_def)
  then have "reg_ok (sy_ch s) ?m"
    using G by (auto simp: reg_ok_def publish_page_map split: option.splits if_splits)
  moreover have "\<exists>x. map_of ?m (rd_name rq) = Some x \<and> rg_page x \<le> rd_page_id rq"
    if "((sy_readers s)(r \<mapsto> release_old_pages rd)) q = Some rq" for q rq
  proof (cases "q = r")
    case True
    then show ?thesis using that rk G
      by (auto simp: release_old_pages_def reader_ok_def reg_ok_def publish_page_map)
  next
    case False
    then have q: "sy_readers s q = Some rq" using that by simp
    then have "rd_name rq \<noteq> rd_name rd" using R r False unfolding readers_ok_def by blast
    moreover obtain x where "map_of (sy_rreg s) (rd_name rq) = Some x" "rg_page x \<le> rd_page_id rq"
      using R q unfolding readers_ok_def reader_ok_def by blast
    ultimately show ?thesis using G by (auto simp: reg_ok_def publish_page_map split: option.split)
  qed
  ultimately show ?thesis
    using inv_rreg [of single "s\<lparr>sy_readers := (sy_readers s)(r \<mapsto> release_old_pages rd)\<rparr>" ?m] by simp
qed

lemma inv_reader_ends:
  assumes "sys_inv single s"
  shows "sys_inv single (s\<lparr>sy_readers := (sy_readers s)(r := None)\<rparr>)"
proof -
  have "readers_ok (s\<lparr>sy_readers := (sy_readers s)(r := None)\<rparr>)"
    using assms unfolding sys_inv_def readers_ok_def by (auto simp: reader_ok_def split: if_splits)
  then show ?thesis using assms by (simp add: sys_inv_def)
qed

lemma inv_register_reader:
  assumes inv: "sys_inv single s" and a: "add_entry True name pid (sy_rreg s) = Inr (new, m)"
  shows "sys_inv single (s\<lparr>sy_rreg := m\<rparr>)"
proof (rule inv_rreg [OF inv])
  have G: "reg_ok (sy_ch s) (sy_rreg s)" using inv by (simp add: sys_inv_def)
  then show "reg_ok (sy_ch s) m" using a
    by (auto simp: add_entry_def reg_ok_def split: option.splits if_splits)
  fix r rd assume "sy_readers s r = Some rd"
  then obtain x where "map_of (sy_rreg s) (rd_name rd) = Some x" "rg_page x \<le> rd_page_id rd"
    using inv unfolding sys_inv_def readers_ok_def reader_ok_def by blast
  then show "\<exists>x. map_of m (rd_name rd) = Some x \<and> rg_page x \<le> rd_page_id rd"
    using a G by (auto simp: add_entry_def reg_ok_def split: option.splits if_splits)
qed

lemma inv_deregister_reader:
  assumes inv: "sys_inv single s" and n: "\<not> name_in_use name s" and a: "remove_entry True name (sy_rreg s) = Inr m"
  shows "sys_inv single (s\<lparr>sy_rreg := m\<rparr>)"
proof (rule inv_rreg [OF inv])
  have G: "reg_ok (sy_ch s) (sy_rreg s)" using inv by (simp add: sys_inv_def)
  then show "reg_ok (sy_ch s) m" using a by (auto simp: remove_entry_def reg_ok_def split: if_splits)
  fix r rd assume r: "sy_readers s r = Some rd"
  then obtain x where "map_of (sy_rreg s) (rd_name rd) = Some x" "rg_page x \<le> rd_page_id rd"
    using inv unfolding sys_inv_def readers_ok_def reader_ok_def by blast
  moreover have "rd_name rd \<noteq> name" using n r by (auto simp: name_in_use_def)
  ultimately show "\<exists>x. map_of m (rd_name rd) = Some x \<and> rg_page x \<le> rd_page_id rd"
    using a by (auto simp: remove_entry_def split: if_splits)
qed

lemma sys_step_inv: "sys_step single s s' \<Longrightarrow> sys_inv single s \<Longrightarrow> sys_inv single s'"
proof (induction rule: sys_step.induct)
  case (create_writer s p os name w c)
  then show ?case using inv_create_writer by blast
next
  case (create_writer_failed os p name s e c)
  then show ?case using inv_create_writer_failed by blast
next
  case (open_write s p w ty n os res w' c)
  then show ?case using inv_open by blast
next
  case (put s p w k bs)
  then show ?case using inv_put by blast
next
  case (close_write s p w w' c)
  then show ?case using inv_close by blast
next
  case (writer_ends s p w)
  then show ?case using inv_writer_ends by blast
next
  case (writer_prefetch s p w os n w' c)
  then show ?case using inv_writer_prefetch by blast
next
  case (writer_close_old s p w)
  then show ?case using inv_writer_close_old by blast
next
  case (create_reader s r name os rd)
  then show ?case using inv_create_reader by blast
next
  case (read s r rd os out rd')
  then show ?case using inv_read by blast
next
  case (reader_prefetch s r rd os n)
  then show ?case using inv_reader_prefetch by blast
next
  case (reader_release s r rd)
  then show ?case using inv_reader_release by blast
next
  case (reader_ends s r)
  then show ?case using inv_reader_ends by blast
next
  case (register_reader name pid s new m)
  then show ?case using inv_register_reader by blast
next
  case (deregister_reader name s m)
  then show ?case using inv_deregister_reader by blast
next
  case (clean pol age stuck s n c)
  then show ?case using inv_clean by blast
qed (auto simp: sys_inv_def)

lemma reachable_inv: "reachable single s \<Longrightarrow> sys_inv single s"
  by (induction rule: reachable.induct) (auto intro: sys_init_inv sys_step_inv)

end
