(* ===== verification/Shm_Delivery.thy ===== *)
theory Shm_Delivery
  imports Shm_Channel
begin

text \<open>
  What a channel guarantees, on the reachable states of \<open>Shm_Channel\<close>, with a small run of a
  channel (pages of 64 bytes) at which the theorems are applied.
\<close>

section \<open>A run\<close>

definition all_ok :: "nat \<Rightarrow> os_outcome" where
  "all_ok p = Os_Ok"

definition demo_store :: store where
  "demo_store = resize_file 0 64 (create_file 0 empty_store)"

definition demo0 :: sys where
  "demo0 = \<lparr>sy_ch = \<lparr>ch_ps = 64, ch_nwp = 8, ch_owner = None, ch_store = demo_store\<rparr>,
     sy_writers = Map.empty, sy_readers = Map.empty, sy_rreg = [], sy_wreg = [], sy_log = [],
     sy_start = (\<lambda>_. 0), sy_seen = (\<lambda>_. [])\<rparr>"

text \<open>A reader is registered and started, then a writer.\<close>

definition demo1 :: sys where
  "demo1 = demo0\<lparr>sy_rreg := [(''r'', \<lparr>rg_pid = 1, rg_page = 0\<rparr>)]\<rparr>"

definition demo_rd :: reader where
  "demo_rd = \<lparr>rd_name = ''r'', rd_pos = 8, rd_page_id = 0, rd_off = 8,
     rd_page = \<lparr>pg_id = 0, pg_inode = 0\<rparr>, rd_pool = \<lparr>pp_pages = [0 \<mapsto> 0], pp_read_only = True\<rparr>\<rparr>"

definition demo2 :: sys where
  "demo2 = demo1\<lparr>sy_readers := (sy_readers demo1)(1 \<mapsto> demo_rd),
     sy_start := (sy_start demo1)(1 := length (sy_log demo1)), sy_seen := (sy_seen demo1)(1 := [])\<rparr>"

definition demo_w :: writer where
  "demo_w = \<lparr>wr_pid = 0, wr_single = False, wr_name = ''w'', wr_cur_page = 0, wr_cur_off = 8,
     wr_pend_page = 0, wr_pend_off = 0, wr_pend_size = 0, wr_page = \<lparr>pg_id = 0, pg_inode = 0\<rparr>,
     wr_pool = \<lparr>pp_pages = [0 \<mapsto> 0], pp_read_only = False\<rparr>\<rparr>"

definition demo3 :: sys where
  "demo3 = demo2\<lparr>sy_ch := sy_ch demo2, sy_writers := (sy_writers demo2)(0 \<mapsto> demo_w)\<rparr>"

text \<open>It opens a frame of type 5 for \<open>n\<close> bytes, and closes it as it is.\<close>

definition demo_w4 :: "nat \<Rightarrow> writer" where
  "demo_w4 n = demo_w\<lparr>wr_pend_size := n + 8, wr_pend_off := 8\<rparr>"

definition demo4 :: "nat \<Rightarrow> sys" where
  "demo4 n = demo3\<lparr>sy_ch := (sy_ch demo3)\<lparr>ch_owner := Some 0,
        ch_store := write_bytes 0 8 (frame_header (n + 8) 5) demo_store\<rparr>,
     sy_writers := (sy_writers demo3)(0 \<mapsto> demo_w4 n)\<rparr>"

definition demo5 :: "nat \<Rightarrow> sys" where
  "demo5 n = (demo4 n)\<lparr>sy_ch := (sy_ch (demo4 n))\<lparr>ch_owner := None, ch_nwp := n + 16\<rparr>,
     sy_writers := (sy_writers (demo4 n))(0 \<mapsto> (demo_w4 n)\<lparr>wr_pend_size := 0\<rparr>),
     sy_log := sy_log (demo4 n) @ [pending_frame (demo_w4 n) (sy_ch (demo4 n))]\<rparr>"

text \<open>The reader takes it.\<close>

definition demo6 :: sys where
  "demo6 = (demo5 8)\<lparr>sy_readers := (sy_readers (demo5 8))(1 \<mapsto> demo_rd\<lparr>rd_off := 24, rd_pos := 24\<rparr>),
     sy_seen := (sy_seen (demo5 8))(1 := sy_seen (demo5 8) 1 @ [frame_view (sy_ch (demo5 8)) 0 8])\<rparr>"

lemma demo_store_simps:
  "st_files demo_store = [(0, 0)]" "pf_size (st_inodes demo_store 0) = 64" "store_wf demo_store"
  by (simp_all add: demo_store_def create_file_wf) (simp_all add: empty_store_def create_file_def resize_file_def Let_def)

lemmas demo_eval = all_ok_def Let_def get_page_def new_pool_def ready_file_def map_page_def demo_store_simps
  demo0_def demo1_def demo2_def demo3_def demo_rd_def demo_w_def

lemma demo1_reach: "reachable single demo1"
proof (rule reachable.step)
  show "reachable single demo0"
    by (rule reachable.start) (simp add: sys_init_def demo0_def chan_ok_def reg_ok_def demo_store_simps)
  have "add_entry True ''r'' 1 (sy_rreg demo0) = Inr (True, [(''r'', \<lparr>rg_pid = 1, rg_page = 0\<rparr>)])"
    by (simp add: demo0_def add_entry_def)
  then show "sys_step single demo0 demo1" unfolding demo1_def by (rule sys_step.register_reader)
qed

lemma demo2_reach: "reachable single demo2"
proof (rule reachable.step [OF demo1_reach])
  have "reader_create all_ok ''r'' (sy_ch demo1) = Inr demo_rd"
    by (simp add: reader_create_def demo_eval)
  then show "sys_step single demo1 demo2"
    unfolding demo2_def by (intro sys_step.create_reader) (simp_all add: demo1_def demo0_def name_in_use_def)
qed

lemma demo3_reach: "reachable False demo3"
proof (rule reachable.step [OF demo2_reach])
  have "writer_create all_ok 0 False ''w'' (sy_ch demo2) = (Inr demo_w, sy_ch demo2)"
    by (simp add: writer_create_def demo_eval)
  then show "sys_step False demo2 demo3"
    unfolding demo3_def by (intro sys_step.create_writer) (simp_all add: demo2_def demo1_def demo0_def)
qed

lemma demo4_reach:
  assumes "n mod 8 = 0" "n \<le> 48"
  shows "reachable False (demo4 n)"
proof (rule reachable.step [OF demo3_reach])
  have "open_frame all_ok 5 n demo_w (sy_ch demo3) = (Inr (0, 16), demo_w4 n, (sy_ch demo3)\<lparr>ch_owner := Some 0,
      ch_store := write_bytes 0 8 (frame_header (n + 8) 5) demo_store\<rparr>)"
    using assms by (simp add: open_frame_def locate_frame_def roll_page_def lock_write_def demo_eval demo_w4_def)
  then show "sys_step False demo3 (demo4 n)"
    unfolding demo4_def using assms
    by (intro sys_step.open_write) (simp_all add: demo_eval lock_free_def)
qed

lemma demo5_reach:
  assumes "n mod 8 = 0" "n \<le> 48"
  shows "reachable False (demo5 n)"
proof (rule reachable.step [OF demo4_reach [OF assms]])
  have "close_frame (demo_w4 n) (sy_ch (demo4 n)) =
      ((demo_w4 n)\<lparr>wr_pend_size := 0\<rparr>, (sy_ch (demo4 n))\<lparr>ch_owner := None, ch_nwp := n + 16\<rparr>)"
    using assms by (simp add: close_frame_def unlock_write_def demo_w4_def demo4_def demo_eval)
  then show "sys_step False (demo4 n) (demo5 n)"
    unfolding demo5_def using assms
    by (intro sys_step.close_write) (simp_all add: demo_eval demo4_def demo_w4_def pend_start_def)
qed

lemma demo_page: "has_page 64 (write_bytes 0 8 bs demo_store) 0 0"
  by (simp add: has_page_def demo_store_simps)

lemma demo_header:
  assumes "n \<le> 48"
  defines "d \<equiv> pf_data (st_inodes (write_bytes 0 8 (frame_header (n + 8) 5) demo_store) 0)"
  shows "hdr_size d 8 = n + 8" "hdr_type d 8 = 5"
proof -
  have "bytes_at (mem 64 (write_bytes 0 8 (frame_header (n + 8) 5) demo_store)) (0 * 64 + 8) (frame_header (n + 8) 5)"
    by (rule bytes_at_write) (simp_all add: has_page_def demo_store_simps)
  from header_read [OF demo_page _ this] show "hdr_size d 8 = n + 8" "hdr_type d 8 = 5"
    using assms by simp_all
qed

lemma demo5_ch: "sy_ch (demo5 n) = \<lparr>ch_ps = 64, ch_nwp = n + 16, ch_owner = None,
    ch_store = write_bytes 0 8 (frame_header (n + 8) 5) demo_store\<rparr>"
  by (simp add: demo5_def demo4_def demo_eval)

lemma demo6_reach: "reachable False demo6"
proof (rule reachable.step [OF demo5_reach [of 8]])
  have "skip_tail all_ok (sy_ch (demo5 8)) demo_rd = Some (True, demo_rd)"
    by (subst skip_tail.simps) (simp add: demo5_ch demo_rd_def)
  moreover have "skip_fill all_ok (sy_ch (demo5 8)) 8 0 8 demo_rd = Some (Frame_At 0 8, demo_rd\<lparr>rd_off := 24, rd_pos := 24\<rparr>)"
    using demo_header [of 8] by (subst skip_fill.simps) (simp add: demo5_ch demo_rd_def Let_def)
  ultimately have "next_frame all_ok (sy_ch (demo5 8)) demo_rd = Some (Frame_At 0 8, demo_rd\<lparr>rd_off := 24, rd_pos := 24\<rparr>)"
    by (simp add: next_frame_def demo5_ch) (simp add: demo_rd_def)
  from sys_step.read [of "demo5 8" 1, OF _ this] show "sys_step False (demo5 8) demo6"
    by (simp add: demo6_def) (simp add: demo5_def demo4_def demo3_def demo2_def)
qed simp_all

section \<open>Guarantees\<close>

lemma reachable_reader: "reachable single s \<Longrightarrow> sy_readers s r = Some rd \<Longrightarrow> reader_ok s r rd"
  using reachable_inv by (auto simp: sys_inv_def readers_ok_def)

text \<open>C1: first in, first out. Whatever the writers, the other readers, the master and the
  cleaner do, and whichever processes die, what a reader has been given is exactly the frames
  closed since it was created, in the order in which they were closed, each with the type and
  the bytes it had when it was closed: none lost, repeated, reordered or altered.\<close>

theorem channel_fifo:
  assumes "reachable single s" and "sy_readers s r = Some rd"
  shows "sy_seen s r = take (length (sy_seen s r)) (drop (sy_start s r) (sy_log s))"
  using reachable_reader [OF assms] by (simp add: reader_ok_def)

theorem channel_fifo_witness:
  "length (sy_seen demo6 1) = 1 \<and> sy_seen demo6 1 = take (length (sy_seen demo6 1)) (drop (sy_start demo6 1) (sy_log demo6))"
proof
  show "length (sy_seen demo6 1) = 1"
    by (simp add: demo6_def demo5_def demo4_def demo3_def demo2_def)
  have "sy_readers demo6 1 = Some (demo_rd\<lparr>rd_off := 24, rd_pos := 24\<rparr>)" by (simp add: demo6_def)
  then show "sy_seen demo6 1 = take (length (sy_seen demo6 1)) (drop (sy_start demo6 1) (sy_log demo6))"
    by (rule channel_fifo [OF demo6_reach])
qed

text \<open>C2: a read always returns. In any reachable state it gives the next frame of the log, or
  says there is none exactly when the reader has them all; it never reads outside a page, and
  it fails only where the operating system refuses to map a page, leaving the frame for later.\<close>

theorem channel_delivers:
  assumes "reachable single s" and "sy_readers s r = Some rd"
  shows "\<exists>out rd'. next_frame os (sy_ch s) rd = Some (out, rd') \<and>
    (let k = sy_start s r + length (sy_seen s r)
     in case out of
          No_Frame \<Rightarrow> k = length (sy_log s)
        | Frame_At i off \<Rightarrow> k < length (sy_log s) \<and> frame_view (sy_ch s) i off = sy_log s ! k
        | Read_Failed e \<Rightarrow> k < length (sy_log s) \<and> e = Read_Invalid \<and> (\<exists>p. os p \<noteq> Os_Ok)
        | Bad_Access \<Rightarrow> False)"
proof -
  let ?k = "sy_start s r + length (sy_seen s r)"
  have rk: "reader_ok s r rd" and "chan_ok (sy_ch s)"
    using reachable_reader [OF assms] reachable_inv [OF assms(1)] by (simp_all add: sys_inv_def)
  then obtain out rd' where n: "next_frame os (sy_ch s) rd = Some (out, rd')"
      "read_result os (sy_ch s) rd (drop ?k (sy_log s)) out rd'"
    using next_frame_spec [of "sy_ch s" rd "drop ?k (sy_log s)" os] by (auto simp: chan_ok_def reader_ok_def)
  have "?k \<le> length (sy_log s)" using rk by (simp add: reader_ok_def)
  have dn: "?k < length (sy_log s) \<and> x = sy_log s ! ?k" if "drop ?k (sy_log s) = x # gs" for x gs
    using that by (metis drop_all list.distinct(1) not_le nth_via_drop)
  have "let k = ?k in case out of
          No_Frame \<Rightarrow> k = length (sy_log s)
        | Frame_At i off \<Rightarrow> k < length (sy_log s) \<and> frame_view (sy_ch s) i off = sy_log s ! k
        | Read_Failed e \<Rightarrow> k < length (sy_log s) \<and> e = Read_Invalid \<and> (\<exists>p. os p \<noteq> Os_Ok)
        | Bad_Access \<Rightarrow> False"
  proof (cases out)
    case (Frame_At i off)
    then obtain gs where "drop ?k (sy_log s) = frame_view (sy_ch s) i off # gs"
      using n(2) by (auto simp: read_result_def)
    from dn [OF this] show ?thesis using Frame_At by simp
  qed (use n(2) \<open>?k \<le> length (sy_log s)\<close> in \<open>auto simp: read_result_def\<close>)
  then show ?thesis using n(1) by blast
qed

theorem channel_delivers_witness:
  "\<exists>out rd'. next_frame all_ok (sy_ch (demo5 8)) demo_rd = Some (out, rd') \<and>
    (let k = sy_start (demo5 8) 1 + length (sy_seen (demo5 8) 1)
     in case out of
          No_Frame \<Rightarrow> k = length (sy_log (demo5 8))
        | Frame_At i off \<Rightarrow> k < length (sy_log (demo5 8)) \<and> frame_view (sy_ch (demo5 8)) i off = sy_log (demo5 8) ! k
        | Read_Failed e \<Rightarrow> k < length (sy_log (demo5 8)) \<and> e = Read_Invalid \<and> (\<exists>p. all_ok p \<noteq> Os_Ok)
        | Bad_Access \<Rightarrow> False)"
  by (rule channel_delivers [OF demo5_reach]) (simp_all add: demo5_def demo4_def demo3_def demo2_def)

text \<open>C8: the write lock of a multi-writer channel is held exactly by the process with an open
  frame. So no two frames are ever open at once, and a writer that fails to open a frame or
  dies with one open does not leave the lock behind.\<close>

theorem lock_exact:
  assumes "reachable False s"
  shows "ch_owner (sy_ch s) = Some p \<longleftrightarrow> (\<exists>w. sy_writers s p = Some w \<and> wr_pend_size w \<noteq> 0)"
proof -
  have W: "writers_ok False (sy_ch s) (sy_writers s)" using reachable_inv [OF assms] by (simp add: sys_inv_def)
  then have "owner_ok False (sy_ch s) (sy_writers s)" unfolding writers_ok_def by blast
  then show ?thesis using writers_okD(4) [OF W] by (auto simp: owner_ok_def)
qed

theorem lock_exact_witness:
  "ch_owner (sy_ch (demo4 8)) = Some 0 \<longleftrightarrow> (\<exists>w. sy_writers (demo4 8) 0 = Some w \<and> wr_pend_size w \<noteq> 0)"
  by (rule lock_exact [OF demo4_reach]) simp_all

text \<open>Writing a frame from a state of the invariant.\<close>

lemma write_frame_result:
  assumes "chan_ok c" and "writer_inv (ch_ps c) (ch_store c) (ch_nwp c) w" and "wr_pend_size w = 0"
    and "0 < ty" and "ty < 65536" and "length data < 4294967288"
    and "ch_nwp c + 2 * ch_ps c < 18446744073709551616"
    and wf: "write_frame os ty data w c = (ok, w', c')"
  shows "write_result ty data ok c c'"
    and "(\<forall>p. os p = Os_Ok) \<Longrightarrow> length data mod 8 = 0 \<Longrightarrow> length data + 8 \<le> ch_ps c \<Longrightarrow> ok"
proof -
  show "write_result ty data ok c c'"
    using write_frame_spec [OF _ _ assms(2-7) wf] assms(1) by (simp add: chan_ok_def)
  assume h: "\<forall>p. os p = Os_Ok" "length data mod 8 = 0" "length data + 8 \<le> ch_ps c"
  obtain r w1 c1 where o: "open_frame os ty (length data) w c = (r, w1, c1)" by (metis prod_cases3)
  have "\<not> pp_read_only (wr_pool w)" using assms(2) by (simp add: writer_inv_def maps_ok_def)
  then obtain a where "r = Inr a" using open_frame_ok [OF _ _ h(2,3) o] h(1) by blast
  then show ok using wf o by (auto simp: write_frame_def split: prod.splits)
qed

text \<open>C40: In every state a channel reaches, a writer that writes a frame either is refused, with
  the published position unchanged, or exactly this frame, with its type and its bytes, is what
  a reader finds between the old and the new position, after at most the filled rest of a page;
  and it is not refused when the frame fits a page, its size is a multiple of eight and the
  operating system gives the page. The sizes are bounded by the 32 bits of the size field, the
  position by its 64 bits.\<close>

theorem write_frame_exact:
  assumes "reachable single s" and "sy_writers s p = Some w" and "wr_pend_size w = 0"
    and "0 < ty" and "ty < 65536" and "length data < 4294967288"
    and "ch_nwp (sy_ch s) + 2 * ch_ps (sy_ch s) < 18446744073709551616"
    and "write_frame os ty data w (sy_ch s) = (ok, w', c')"
  shows "(ok \<longrightarrow> chain (ch_ps (sy_ch s)) (mem (ch_ps (sy_ch s)) (ch_store c')) (ch_nwp (sy_ch s)) (ch_nwp c') [(ty, data)]) \<and>
    (\<not> ok \<longrightarrow> ch_nwp c' = ch_nwp (sy_ch s)) \<and>
    ((\<forall>q. os q = Os_Ok) \<and> length data mod 8 = 0 \<and> length data + 8 \<le> ch_ps (sy_ch s) \<longrightarrow> ok)"
proof -
  have inv: "chan_ok (sy_ch s)" "writers_ok single (sy_ch s) (sy_writers s)"
    using reachable_inv [OF assms(1)] by (simp_all add: sys_inv_def)
  note res = write_frame_result [OF inv(1) writers_okD(1) [OF inv(2) assms(2)] assms(3-8)]
  show ?thesis using res by (auto simp: write_result_def)
qed

theorem write_frame_exact_witness:
  "case write_frame all_ok 5 (replicate 8 7) demo_w (sy_ch demo3) of (ok, w', c') \<Rightarrow>
    ok \<and> chain (ch_ps (sy_ch demo3)) (mem (ch_ps (sy_ch demo3)) (ch_store c')) (ch_nwp (sy_ch demo3)) (ch_nwp c') [(5, replicate 8 7)]"
proof -
  obtain ok w' c' where wf: "write_frame all_ok 5 (replicate 8 7) demo_w (sy_ch demo3) = (ok, w', c')"
    by (metis prod_cases3)
  have w: "sy_writers demo3 0 = Some demo_w" "wr_pend_size demo_w = 0" by (simp_all add: demo3_def demo_w_def)
  have n: "ch_ps (sy_ch demo3) = 64" "ch_nwp (sy_ch demo3) = 8" by (simp_all add: demo_eval)
  show ?thesis using write_frame_exact [OF demo3_reach w _ _ _ _ wf] by (simp add: wf n all_ok_def del: chain.simps)
qed

text \<open>a reader created at the end of a page cannot start. When the frames fill the active
  page exactly and no page was prefetched, the position lies in a page whose file does not
  exist yet, and creating a reader fails although the channel is intact.\<close>

theorem reader_create_at_page_end:
  "\<exists>s. reachable False s \<and> ch_nwp (sy_ch s) = ch_ps (sy_ch s) \<and>
     reader_create all_ok ''r2'' (sy_ch s) = Inl Open_Failed"
proof (intro exI conjI)
  show "reachable False (demo5 48)" by (rule demo5_reach) simp_all
  show "ch_nwp (sy_ch (demo5 48)) = ch_ps (sy_ch (demo5 48))" by (simp add: demo5_ch)
  show "reader_create all_ok ''r2'' (sy_ch (demo5 48)) = Inl Open_Failed"
    by (simp add: reader_create_def demo5_ch demo_eval)
qed

text \<open>C21: the cleaner. It removes no page that a registered reader or writer has published or
  that lies above it, nor the active page or one above it. Of the page files that are not older
  than the configured age it removes at most as many as there are files above the configured
  number, and none if no number is configured; so with a limit on the number alone it never goes
  below that number, while over-age files are removed below it too.\<close>

theorem cleanup_safe:
  assumes "cleanup pol age stuck c readers writers = (n, c')"
  shows "(\<forall>p i. (\<exists>k x. map_of readers k = Some x \<and> rg_page x \<le> p \<or> map_of writers k = Some x \<and> rg_page x \<le> p) \<or>
       active_page_id c \<le> p \<longrightarrow> has_page ps (ch_store c) p i \<longrightarrow> has_page ps (ch_store c') p i) \<and>
    (cp_max_age_hours pol = 0 \<longrightarrow> n \<le> length (st_files (ch_store c)) - cp_max_count pol) \<and>
    card {p \<in> fst ` set (st_files (ch_store c)) - fst ` set (st_files (ch_store c')). \<not> exceeds_age pol (age p)} \<le>
      (if 0 < cp_max_count pol then length (st_files (ch_store c)) - cp_max_count pol else 0)"
proof (intro conjI allI impI)
  let ?gone = "removed_pages pol age stuck c readers writers"
  have c': "c' = c\<lparr>ch_store := unlink_files (\<lambda>p. p \<in> set ?gone) (ch_store c)\<rparr>" and n: "n = length ?gone"
    using assms by (simp_all add: cleanup_def Let_def)
  {
    fix p i
    assume h: "(\<exists>k x. map_of readers k = Some x \<and> rg_page x \<le> p \<or> map_of writers k = Some x \<and> rg_page x \<le> p) \<or>
       active_page_id c \<le> p" and pg: "has_page ps (ch_store c) p i"
    have "delete_floor c readers writers \<le> p"
      using h delete_floor_le le_trans unfolding active_page_id_def by blast
    then have "p \<notin> set ?gone" using removed_below by (metis not_le)
    then show "has_page ps (ch_store c') p i" using pg by (simp add: has_page_def c' unlink_dir)
  }
  let ?young = "filter (\<lambda>p. \<not> exceeds_age pol (age p)) ?gone"
  have "{p \<in> fst ` set (st_files (ch_store c)) - fst ` set (st_files (ch_store c')). \<not> exceeds_age pol (age p)} \<subseteq> set ?young"
    by (force simp: c' unlink_files_def)
  then have "card {p \<in> fst ` set (st_files (ch_store c)) - fst ` set (st_files (ch_store c')). \<not> exceeds_age pol (age p)} \<le> length ?young"
    using card_mono [of "set ?young"] card_length [of ?young] by (meson List.finite_set le_trans)
  also have "length ?young \<le> (if 0 < cp_max_count pol then length (st_files (ch_store c)) - cp_max_count pol else 0)"
    using clean_scan_count [of pol age stuck "length (page_files (ch_store c))" "delete_floor c readers writers" 0 "page_files (ch_store c)"]
    by (auto simp: removed_pages_def Let_def page_files_def keys_def split: if_splits)
  finally show "card {p \<in> fst ` set (st_files (ch_store c)) - fst ` set (st_files (ch_store c')). \<not> exceeds_age pol (age p)} \<le>
      (if 0 < cp_max_count pol then length (st_files (ch_store c)) - cp_max_count pol else 0)" .
  assume a: "cp_max_age_hours pol = 0"
  then have "\<not> exceeds_age pol x" for x by (simp add: exceeds_age_def)
  then show "n \<le> length (st_files (ch_store c)) - cp_max_count pol"
    using clean_scan_count [of pol age stuck "length (page_files (ch_store c))" "delete_floor c readers writers" 0 "page_files (ch_store c)"] a
    by (auto simp: n removed_pages_def Let_def page_files_def keys_def split: if_splits)
qed

definition demo_files :: channel where
  "demo_files = \<lparr>ch_ps = 64, ch_nwp = 200, ch_owner = None,
     ch_store = create_file 3 (create_file 2 (create_file 1 (create_file 0 empty_store)))\<rparr>"

theorem cleanup_safe_witness:
  "let c' = snd (cleanup \<lparr>cp_max_count = 1, cp_max_age_hours = 0\<rparr> (\<lambda>_. 0) (\<lambda>_. False) demo_files
       [(''r'', \<lparr>rg_pid = 1, rg_page = 2\<rparr>)] [])
   in \<forall>i. has_page 0 (ch_store demo_files) 2 i \<longrightarrow> has_page 0 (ch_store c') 2 i"
  using cleanup_safe [of "\<lparr>cp_max_count = 1, cp_max_age_hours = 0\<rparr>" "\<lambda>_. 0" "\<lambda>_. False" demo_files
       "[(''r'', \<lparr>rg_pid = 1, rg_page = 2\<rparr>)]" "[]" _ _ 0]
  by (auto simp: Let_def prod_eq_iff)

end
