(* ===== verification/Shm_Open.thy ===== *)
theory Shm_Open
  imports Shm_Delivery
begin

text \<open>
  Creating or reopening a channel (\<open>libs/shm/src/channel_meta.cpp\<close>): the shared objects of
  \<open>meta.dat\<close>, the reset when the page size or the size of the meta file changed, the first
  fill frame of page 0 and the diagnosis of the active page at start-up. Objects found by name
  in the segment are optional: a segment may be new, or left by a process that died half-way.
\<close>

section \<open>The segment\<close>

record segment =
  sg_size :: nat
  sg_nwp :: "nat option"
  sg_ps :: "nat option"
  sg_readers :: "registry option"
  sg_writers :: "registry option"

record channel_config =
  cc_meta_size :: nat
  cc_page_size :: nat

definition validate_config :: "channel_config \<Rightarrow> shm_error option" where
  "validate_config cfg =
     (if cc_meta_size cfg < 1048576 \<or> 134217728 < cc_meta_size cfg then Some Create_Failed
      else if cc_page_size cfg < 1048576 \<or> 68719476736 < cc_page_size cfg then Some Create_Failed
      else None)"

text \<open>
  A meta file of another size is removed with every page file; a page the system does not
  remove (\<open>stuck\<close>) stays.
\<close>

definition open_or_create_segment :: "channel_config \<Rightarrow> (nat \<Rightarrow> bool) \<Rightarrow> segment option \<Rightarrow> store \<Rightarrow> segment \<times> store" where
  "open_or_create_segment cfg stuck seg st =
     (case seg of
        Some sg \<Rightarrow> if sg_size sg = cc_meta_size cfg then (sg, st)
                   else (\<lparr>sg_size = cc_meta_size cfg, sg_nwp = None, sg_ps = None, sg_readers = None, sg_writers = None\<rparr>,
                         unlink_files (\<lambda>p. \<not> stuck p) st)
      | None \<Rightarrow> (\<lparr>sg_size = cc_meta_size cfg, sg_nwp = None, sg_ps = None, sg_readers = None, sg_writers = None\<rparr>, st))"

text \<open>Removing all pages in name order; the first one that is stuck ends it with an error.\<close>

fun clean_page_files :: "(nat \<Rightarrow> bool) \<Rightarrow> nat list \<Rightarrow> store \<Rightarrow> shm_error option \<times> store" where
  "clean_page_files stuck [] st = (None, st)"
| "clean_page_files stuck (p # ids) st =
     (if stuck p then (Some File_Remove_Failed, st)
      else clean_page_files stuck ids (unlink_files (\<lambda>q. q = p) st))"

definition write_initial_frame :: "nat \<Rightarrow> os_outcome \<Rightarrow> store \<Rightarrow> shm_error option \<times> store" where
  "write_initial_frame ps out st =
     (case ready_file ps out False 0 st of
        (Inl e, st1) \<Rightarrow> (Some e, st1)
      | (Inr i, st1) \<Rightarrow>
          (case map_page out i of
             Inl e \<Rightarrow> (Some e, st1)
           | Inr j \<Rightarrow> (None, write_bytes j 0 (frame_header 8 0) (write_bytes j 0 (replicate 8 0) st1))))"

text \<open>\<open>init_shared_objects_locked\<close>, \<open>ensure_initial_frame_locked\<close>, \<open>init_readers_writers_locked\<close>.\<close>

definition reset_pages :: "(nat \<Rightarrow> bool) \<Rightarrow> os_outcome \<Rightarrow> nat \<Rightarrow> nat \<Rightarrow> nat \<Rightarrow> store \<Rightarrow> shm_error option \<times> nat \<times> nat \<times> store" where
  "reset_pages stuck out ps old_ps nwp st =
     (if ps = old_ps then (None, nwp, old_ps, st)
      else case clean_page_files stuck (page_files st) st of
             (Some e, st1) \<Rightarrow> (Some e, nwp, old_ps, st1)
           | (None, st1) \<Rightarrow>
               (case write_initial_frame ps out st1 of
                  (Some e, st2) \<Rightarrow> (Some e, 0, ps, st2)
                | (None, st2) \<Rightarrow> (None, 8, ps, st2)))"

definition ensure_initial_frame :: "os_outcome \<Rightarrow> nat \<Rightarrow> nat \<Rightarrow> store \<Rightarrow> shm_error option \<times> nat \<times> store" where
  "ensure_initial_frame out ps nwp st =
     (if nwp \<noteq> 0 then (None, nwp, st)
      else case write_initial_frame ps out st of (Some e, st1) \<Rightarrow> (Some e, 0, st1) | (None, st1) \<Rightarrow> (None, 8, st1))"

definition find_or :: "'a \<Rightarrow> 'a option \<Rightarrow> 'a" where
  "find_or d x = (case x of None \<Rightarrow> d | Some v \<Rightarrow> v)"

definition open_or_create :: "channel_config \<Rightarrow> (nat \<Rightarrow> bool) \<Rightarrow> os_outcome \<Rightarrow> segment option \<Rightarrow> store \<Rightarrow>
    (shm_error + channel \<times> registry \<times> registry) \<times> segment option \<times> store" where
  "open_or_create cfg stuck out seg st =
     (case validate_config cfg of
        Some e \<Rightarrow> (Inl e, seg, st)
      | None \<Rightarrow>
          let (sg, st1) = open_or_create_segment cfg stuck seg st;
              ps = cc_page_size cfg
          in case reset_pages stuck out ps (find_or ps (sg_ps sg)) (find_or 0 (sg_nwp sg)) st1 of
               (Some e, n, q, st2) \<Rightarrow> (Inl e, Some (sg\<lparr>sg_nwp := Some n, sg_ps := Some q\<rparr>), st2)
             | (None, n, q, st2) \<Rightarrow>
                 (case ensure_initial_frame out ps n st2 of
                    (Some e, m, st3) \<Rightarrow> (Inl e, Some (sg\<lparr>sg_nwp := Some m, sg_ps := Some q\<rparr>), st3)
                  | (None, m, st3) \<Rightarrow>
                      let rs = find_or [] (sg_readers sg); ws = find_or [] (sg_writers sg)
                      in (Inr (\<lparr>ch_ps = ps, ch_nwp = m, ch_owner = None, ch_store = st3\<rparr>, rs, ws),
                          Some \<lparr>sg_size = sg_size sg, sg_nwp = Some m, sg_ps = Some q,
                                sg_readers = Some rs, sg_writers = Some ws\<rparr>, st3)))"

text \<open>A process that only opens a channel needs every shared object to be there.\<close>

definition open_only :: "segment option \<Rightarrow> shm_error + nat \<times> nat \<times> registry \<times> registry" where
  "open_only seg =
     (case seg of
        None \<Rightarrow> Inl Open_Failed
      | Some sg \<Rightarrow>
          (case (sg_ps sg, sg_nwp sg, sg_readers sg, sg_writers sg) of
             (Some ps, Some n, Some rs, Some ws) \<Rightarrow> Inr (ps, n, rs, ws)
           | _ \<Rightarrow> Inl Open_Failed))"

section \<open>The diagnosis at start-up\<close>

datatype scan_report =
    Nwp_Invalid | Active_Page_Missing | Active_Page_Size | Trailing_Header nat | Bad_Frame_Size nat nat
  | Scan_Capped | Chain_Ends_Short nat | Chain_Ok

text \<open>The scan of the active page from its start to \<open>end\<close>, at most \<open>cap\<close> frames.\<close>

fun scan_chain :: "nat \<Rightarrow> (nat \<Rightarrow> byte) \<Rightarrow> nat \<Rightarrow> nat \<Rightarrow> nat \<Rightarrow> scan_report" where
  "scan_chain ps d stop 0 off =
     (if off < stop then Scan_Capped else if off \<noteq> stop then Chain_Ends_Short off else Chain_Ok)"
| "scan_chain ps d stop (Suc cap) off =
     (if \<not> off < stop then (if off \<noteq> stop then Chain_Ends_Short off else Chain_Ok)
      else if ps - off < 8 then Trailing_Header off
      else let fs = hdr_size d off
           in if fs < 8 \<or> fs mod 8 \<noteq> 0 \<or> ps - off < fs then Bad_Frame_Size off fs
              else scan_chain ps d stop cap (off + fs))"

definition validate_active_page :: "channel \<Rightarrow> scan_report" where
  "validate_active_page c =
     (if ch_nwp c mod 8 \<noteq> 0 \<or> ch_nwp c < 8 then Nwp_Invalid
      else case st_dir (ch_store c) (ch_nwp c div ch_ps c) of
             None \<Rightarrow> Active_Page_Missing
           | Some i \<Rightarrow>
               if pf_size (st_inodes (ch_store c) i) \<noteq> ch_ps c then Active_Page_Size
               else scan_chain (ch_ps c) (pf_data (st_inodes (ch_store c) i)) (ch_nwp c mod ch_ps c) 10000 0)"

section \<open>Lemmas\<close>

lemma clean_page_files_spec:
  "clean_page_files stuck ids st = (r, st') \<Longrightarrow> store_wf st \<Longrightarrow>
    store_wf st' \<and> (r = None \<longrightarrow> (\<forall>p \<in> set ids. st_dir st' p = None)) \<and>
    (\<forall>p. st_dir st p = None \<longrightarrow> st_dir st' p = None)"
proof (induction stuck ids st rule: clean_page_files.induct)
  case (2 stuck p ids st)
  have "store_wf (unlink_files (\<lambda>q. q = p) st)" using 2 unlink_wf by blast
  then show ?case using 2 by (auto simp: unlink_dir split: if_splits)
qed simp

lemma page_files_all: "set (page_files st) = dom (st_dir st)"
  by (simp add: page_files_def)

lemma write_initial_frame_spec:
  assumes "store_wf st" "8 \<le> ps" "write_initial_frame ps out st = (r, st')"
  shows "store_wf st' \<and> (r = None \<longrightarrow> (\<exists>i. has_page ps st' 0 i \<and> bytes_at (mem ps st') 0 (frame_header 8 0)))"
proof -
  obtain x st1 where rf: "ready_file ps out False 0 st = (x, st1)" by fastforce
  note sp = ready_file_spec [OF assms(1) rf]
  show ?thesis
  proof (cases x)
    case (Inl e)
    then show ?thesis using assms(3) rf sp by (auto simp: write_initial_frame_def)
  next
    case (Inr i)
    then have pg: "has_page ps st1 0 i" "store_wf st1" using sp by auto
    have "bytes_at (mem ps (write_bytes i 0 (frame_header 8 0) (write_bytes i 0 (replicate 8 0) st1))) (0 * ps + 0) (frame_header 8 0)"
      by (rule bytes_at_write) (use pg assms(2) in simp_all)
    moreover have "has_page ps (write_bytes i 0 (frame_header 8 0) (write_bytes i 0 (replicate 8 0) st1)) 0 i"
      using pg(1) by simp
    ultimately show ?thesis using assms(3) rf Inr pg(2)
      by (fastforce simp: write_initial_frame_def map_page_def split: if_splits)
  qed
qed

lemma unlink_store_wf [simp]: "store_wf st \<Longrightarrow> store_wf (unlink_files g st)"
  by (rule unlink_wf)

definition fresh_page :: "nat \<Rightarrow> store \<Rightarrow> bool" where
  "fresh_page ps st \<longleftrightarrow> (\<exists>i. has_page ps st 0 i) \<and> bytes_at (mem ps st) 0 (frame_header 8 0)"

lemma fresh_pageI:
  assumes "store_wf st" "8 \<le> ps" "write_initial_frame ps out st = (None, st')"
  shows "fresh_page ps st'"
  using write_initial_frame_spec [OF assms] by (auto simp: fresh_page_def)

text \<open>A segment that the code would find and keep.\<close>

definition same_segment :: "channel_config \<Rightarrow> segment \<Rightarrow> bool" where
  "same_segment cfg sg \<longleftrightarrow> sg_size sg = cc_meta_size cfg \<and> find_or (cc_page_size cfg) (sg_ps sg) = cc_page_size cfg \<and>
     find_or 0 (sg_nwp sg) \<noteq> 0"

lemma reset_pages_spec:
  assumes "store_wf st" "8 \<le> ps" "reset_pages stuck out ps q n st = (None, n', q', st')"
  shows "store_wf st' \<and> q' = ps \<and> (q = ps \<longrightarrow> n' = n \<and> st' = st) \<and>
    (q \<noteq> ps \<longrightarrow> n' = 8 \<and> fresh_page ps st')"
proof (cases "ps = q")
  case True
  then show ?thesis using assms by (simp add: reset_pages_def)
next
  case False
  obtain e st1 where c: "clean_page_files stuck (page_files st) st = (e, st1)" by fastforce
  obtain e2 st2 where w: "write_initial_frame ps out st1 = (e2, st2)" by fastforce
  have ee: "e = None" "e2 = None" "n' = 8" "q' = ps" "st' = st2"
    using assms(3) False c w by (auto simp: reset_pages_def split: option.splits)
  have wf1: "store_wf st1" using clean_page_files_spec [OF c assms(1)] by blast
  show ?thesis
    using False ee write_initial_frame_spec [OF wf1 assms(2) w] fresh_pageI [OF wf1 assms(2)] w by auto
qed

section \<open>The start-up check on a channel in use\<close>

inductive tiles :: "(nat \<Rightarrow> byte option) \<Rightarrow> nat \<Rightarrow> nat \<Rightarrow> bool" for m where
  empty: "tiles m a a"
| tile: "bytes_at m a (frame_header sz ty) \<Longrightarrow> 8 \<le> sz \<Longrightarrow> sz mod 8 = 0 \<Longrightarrow> sz < 4294967296 \<Longrightarrow>
    tiles m (a + sz) n \<Longrightarrow> tiles m a n"

inductive_simps tiles_iff: "tiles m a n"

lemma tiles_le: "tiles m a n \<Longrightarrow> a \<le> n"
  by (induction rule: tiles.induct) auto

lemma tiles_snoc:
  "tiles m a n \<Longrightarrow> bytes_at m n (frame_header sz ty) \<Longrightarrow> 8 \<le> sz \<Longrightarrow> sz mod 8 = 0 \<Longrightarrow> sz < 4294967296 \<Longrightarrow>
    tiles m a (n + sz)"
  by (induction rule: tiles.induct) (auto intro: tiles.intros)

lemma tiles_keeps:
  assumes "tiles m a n" "m = mem ps st" "keeps ps lo k st st'" "lo * ps \<le> a" "n \<le> k" "0 < ps"
  shows "tiles (mem ps st') a n"
  using assms
proof (induction rule: tiles.induct)
  case (empty a)
  then show ?case by (simp add: tiles.empty)
next
  case (tile a sz ty n)
  have "a + sz \<le> n" using tiles_le tile.hyps(5) .
  then have "bytes_at (mem ps st') a (frame_header sz ty)"
    using bytes_at_keeps [of ps st a _ lo k st'] tile by simp
  then show ?case using tile by (auto intro: tiles.tile)
qed

definition active_ok :: "channel \<Rightarrow> bool" where
  "active_ok c \<longleftrightarrow>
     tiles (mem (ch_ps c) (ch_store c)) (ch_nwp c div ch_ps c * ch_ps c) (ch_nwp c)"

lemma active_ok_keeps:
  assumes "active_ok c" "keeps (ch_ps c) (ch_nwp c div ch_ps c) (ch_nwp c) (ch_store c) (ch_store c')"
    "ch_ps c' = ch_ps c" "ch_nwp c' = ch_nwp c" "0 < ch_ps c"
  shows "active_ok c'"
  using tiles_keeps [OF _ refl assms(2) order_refl order_refl assms(5)] assms(1,3,4) by (simp add: active_ok_def)

lemma active_ok_close:
  assumes "active_ok c" "writer_inv (ch_ps c) (ch_store c) (ch_nwp c) w" "wr_pend_size w \<noteq> 0" "0 < ch_ps c"
    "ch_ps c' = ch_ps c" "ch_store c' = ch_store c" "ch_nwp c' = pend_start (ch_ps c) w + wr_pend_size w"
  shows "active_ok c'"
proof -
  let ?ps = "ch_ps c" and ?m = "mem (ch_ps c) (ch_store c)" and ?n = "wr_pend_size w" and ?off = "wr_pend_off w"
    and ?s = "pend_start (ch_ps c) w" and ?p = "wr_pend_page w"
  obtain ty where ty: "bytes_at ?m ?s (frame_header ?n ty)" and pl: "placed ?ps (ch_store c) (ch_nwp c) w"
    using assms(2,3) by (auto simp: writer_inv_def pending_ok_def)
  have sz: "8 \<le> ?n" "?n mod 8 = 0" "?n < 4294967296" "?off + ?n \<le> ?ps" using pl by (auto simp: placed_def)
  have off: "?off < ?ps" using sz by linarith
  show ?thesis
  proof (cases "?off + ?n = ?ps")
    case True
    then have "ch_nwp c' = (?p + 1) * ?ps" using assms(7) by (simp add: pend_start_def)
    then show ?thesis using assms(4,5) tiles.empty by (simp add: active_ok_def)
  next
    case False
    then have "?off + ?n < ?ps" using sz(4) by simp
    then have d: "ch_nwp c' div ?ps = ?p"
      using assms(7) by (intro div_nat_eqI) (simp_all add: pend_start_def mult.commute)
    have "tiles ?m (?p * ?ps) ?s"
    proof (cases "?s = ch_nwp c")
      case True
      then have "ch_nwp c div ?ps = ?p" using off by (simp add: pend_start_def flip: True)
      then show ?thesis using assms(1) True by (simp add: active_ok_def)
    next
      case False
      then have "?s = (ch_nwp c div ?ps + 1) * ?ps" using pl by (auto simp: placed_def gap_def)
      then have "?s mod ?ps = 0" by simp
      then have "?off = 0" using off by (simp add: pend_start_def)
      then show ?thesis using tiles.empty by (simp add: pend_start_def)
    qed
    from tiles_snoc [OF this ty sz(1-3)] show ?thesis using d assms(5-7) by (simp add: active_ok_def)
  qed
qed

text \<open>Every step but a close leaves what lies below the position alone.\<close>

lemma sys_step_active:
  assumes "sys_step single s s'" "sys_inv single s" "active_ok (sy_ch s)"
  shows "active_ok (sy_ch s')"
proof -
  let ?c = "sy_ch s"
  have ps: "0 < ch_ps ?c" "store_wf (ch_store ?c)" and Wok: "writers_ok single ?c (sy_writers s)"
    using assms(2) by (auto simp: sys_inv_def chan_ok_def)
  have le: "active_ok c" if "c = ?c\<lparr>ch_store := ch_store c\<rparr>" "store_le (ch_ps ?c) lo (ch_store ?c) (ch_store c)"
    "lo \<le> ch_nwp ?c div ch_ps ?c" for c lo
  proof (rule active_ok_keeps [OF assms(3) _ _ _ ps(1)])
    show "keeps (ch_ps ?c) (ch_nwp ?c div ch_ps ?c) (ch_nwp ?c) (ch_store ?c) (ch_store c)"
      using store_le_keeps [OF store_le_mono [OF that(2,3)]] .
    show "ch_ps c = ch_ps ?c" "ch_nwp c = ch_nwp ?c" by (subst that(1), simp)+
  qed
  have k0: "active_ok c" if "keeps (ch_ps ?c) 0 (ch_nwp ?c) (ch_store ?c) (ch_store c)" "ch_ps c = ch_ps ?c"
    "ch_nwp c = ch_nwp ?c" for c
    using active_ok_keeps [OF assms(3) keeps_mono [OF that(1)] that(2,3) ps(1)] by simp
  from assms(1) show ?thesis
  proof cases
    case (create_writer p os name w c)
    have "active_ok c" by (rule le [of c 0]) (use writer_create_spec [OF ps create_writer(4)] in auto)
    then show ?thesis using create_writer by simp
  next
    case (create_writer_failed os p name e c)
    have "active_ok c" by (rule le [of c 0]) (use writer_create_spec [OF ps create_writer_failed(2)] in auto)
    then show ?thesis using create_writer_failed by simp
  next
    case (open_write p w ty n os res w' c)
    note W = writers_okD [OF Wok open_write(2)]
    have "active_ok c" using k0 open_frame_spec [OF ps W(1) open_write(3,5,6,7,8)] by blast
    then show ?thesis using open_write by simp
  next
    case (put p w k bs)
    note W = writers_okD [OF Wok put(2)]
    have "active_ok (put_data (pg_inode (wr_page w)) (wr_pend_off w + k) bs ?c)"
      using k0 put_pending [OF ps W(1) put(3,4,5) refl] unfolding same_meta_def by blast
    then show ?thesis using put by simp
  next
    case (close_write p w w' c)
    note W = writers_okD [OF Wok close_write(2)]
    have "active_ok c"
      using active_ok_close [OF assms(3) W(1) close_write(3) ps(1)] close_frame_spec [OF ps(1) W(1) close_write(3-5)] by blast
    then show ?thesis using close_write by simp
  next
    case (writer_ends p w)
    then show ?thesis using assms(3) by (auto simp: active_ok_def)
  next
    case (writer_prefetch p w os n w' c)
    note W = writers_okD [OF Wok writer_prefetch(2)]
    have m: "maps_ok (ch_ps ?c) (ch_store ?c) (ch_nwp ?c) w" using W(1) by (simp add: writer_inv_def)
    have "active_ok c" by (rule le [of c 0]) (use writer_prefetch_spec [OF ps(2) m writer_prefetch(4)] in auto)
    then show ?thesis using writer_prefetch by simp
  next
    case (clean pol age stuck n c)
    let ?lo = "delete_floor ?c (sy_rreg s) (sy_wreg s)"
    let ?gone = "\<lambda>p. p \<in> set (removed_pages pol age stuck ?c (sy_rreg s) (sy_wreg s))"
    have c: "c = ?c\<lparr>ch_store := unlink_files ?gone (ch_store ?c)\<rparr>" using clean(2) by (simp add: cleanup_def Let_def)
    have "active_ok c"
    proof (rule le [of c ?lo])
      show "c = ?c\<lparr>ch_store := ch_store c\<rparr>" using c by simp
      have "store_le (ch_ps ?c) ?lo (ch_store ?c) (unlink_files ?gone (ch_store ?c))"
        by (intro unlink_le removed_below)
      then show "store_le (ch_ps ?c) ?lo (ch_store ?c) (ch_store c)" using c by simp
    qed (rule delete_floor_le(3))
    then show ?thesis using clean by simp
  qed (use assms(3) in simp_all)
qed

lemma tiles_scan:
  assumes "tiles m a n" "m = mem ps st" "a = p * ps + off" "n = p * ps + stop" "has_page ps st p i" "stop < ps"
  shows "scan_chain ps (pf_data (st_inodes st i)) stop cap off \<in> {Chain_Ok, Scan_Capped}"
  using assms
proof (induction arbitrary: off cap rule: tiles.induct)
  case (empty a)
  then show ?case by (cases cap) auto
next
  case (tile a sz ty n)
  have le: "off + sz \<le> stop" using tiles_le [OF tile.hyps(5)] tile.prems by simp
  have "hdr_size (pf_data (st_inodes st i)) off = sz"
    using header_read(1) [OF tile.prems(4), of off sz ty] tile.hyps tile.prems le by simp
  moreover have "off < stop" "\<not> ps - off < 8" "\<not> ps - off < sz" using le tile.hyps(2) tile.prems by linarith+
  moreover have "scan_chain ps (pf_data (st_inodes st i)) stop k (off + sz) \<in> {Chain_Ok, Scan_Capped}" for k
    using tile.IH [of "off + sz" k] tile.prems by simp
  ultimately show ?case using tile.hyps(2,3) by (cases cap) (simp_all add: Let_def)
qed

lemma tiles_page:
  assumes "tiles (mem ps st) a n" "a < n" "0 < ps"
  shows "\<exists>i. has_page ps st (a div ps) i"
proof -
  obtain sz ty where "bytes_at (mem ps st) a (frame_header sz ty)"
    using assms(1,2) by (cases rule: tiles.cases) auto
  then have "mem ps st (a + 0) \<noteq> None" unfolding bytes_at_def by (metis length_puts(3) option.discI zero_less_numeral)
  then show ?thesis by (auto simp: mem_def has_page_def split: option.splits if_splits)
qed

lemma startup_check:
  assumes "active_ok c" "chan_ok c" "ch_nwp c mod 8 = 0" "8 \<le> ch_nwp c" "ch_nwp c mod ch_ps c \<noteq> 0"
  shows "validate_active_page c \<in> {Chain_Ok, Scan_Capped}"
proof -
  let ?ps = "ch_ps c" and ?p = "ch_nwp c div ch_ps c"
  have ps: "0 < ?ps" using assms(2) by (auto simp: chan_ok_def)
  have t: "tiles (mem ?ps (ch_store c)) (?p * ?ps) (ch_nwp c)" using assms(1) by (simp add: active_ok_def)
  have n: "ch_nwp c = ?p * ?ps + ch_nwp c mod ?ps" by simp
  then have "?p * ?ps < ch_nwp c" using assms(5) by linarith
  from tiles_page [OF t this ps] obtain i where i: "has_page ?ps (ch_store c) ?p i" using ps by auto
  have "scan_chain ?ps (pf_data (st_inodes (ch_store c) i)) (ch_nwp c mod ?ps) 10000 0 \<in> {Chain_Ok, Scan_Capped}"
    by (rule tiles_scan [OF t refl _ n i]) (use ps in simp_all)
  then show ?thesis using i assms(3,4) unfolding validate_active_page_def has_page_def by simp
qed

text \<open>Positions stay multiples of eight when the page size is one.\<close>

lemma pend_start_mod8:
  assumes "placed ps st n w" "ps mod 8 = 0" "n mod 8 = 0"
  shows "(pend_start ps w + wr_pend_size w) mod 8 = 0"
proof -
  have "pend_start ps w mod 8 = 0"
    using assms by (auto simp: placed_def gap_def)
  then show ?thesis using assms(1) by (auto simp: placed_def mod_add_eq [symmetric])
qed

lemma sys_step_mod8:
  assumes "sys_step single s s'" "sys_inv single s" "ch_ps (sy_ch s) mod 8 = 0" "ch_nwp (sy_ch s) mod 8 = 0" "8 \<le> ch_nwp (sy_ch s)"
  shows "ch_ps (sy_ch s') = ch_ps (sy_ch s) \<and> ch_nwp (sy_ch s') mod 8 = 0 \<and> 8 \<le> ch_nwp (sy_ch s')"
proof -
  let ?c = "sy_ch s"
  have ps: "0 < ch_ps ?c" "store_wf (ch_store ?c)" and Wok: "writers_ok single ?c (sy_writers s)"
    using assms(2) by (auto simp: sys_inv_def chan_ok_def)
  have same: "ch_ps c = ch_ps ?c \<and> ch_nwp c = ch_nwp ?c" if "c = ?c\<lparr>ch_store := ch_store c\<rparr>" for c
    by (subst (1 2) that) simp
  from assms(1) show ?thesis
  proof cases
    case (create_writer p os name w c)
    then show ?thesis using writer_create_spec [OF ps create_writer(4)] same [of c] assms by simp
  next
    case (create_writer_failed os p name e c)
    then show ?thesis using writer_create_spec [OF ps create_writer_failed(2)] same [of c] assms by simp
  next
    case (open_write p w ty n os res w' c)
    note W = writers_okD [OF Wok open_write(2)]
    show ?thesis using open_frame_spec [OF ps W(1) open_write(3,5,6,7,8)] open_write(1) assms by simp
  next
    case (put p w k bs)
    then show ?thesis using assms by (simp add: put_data_def)
  next
    case (close_write p w w' c)
    note W = writers_okD [OF Wok close_write(2)]
    have "placed (ch_ps ?c) (ch_store ?c) (ch_nwp ?c) w"
      using W(1) close_write(3) by (simp add: writer_inv_def pending_ok_def)
    then show ?thesis
      using pend_start_mod8 [OF _ assms(3,4)] close_frame_spec [OF ps(1) W(1) close_write(3-5)] close_write(1) assms(5) by auto
  next
    case (writer_ends p w)
    then show ?thesis using assms by auto
  next
    case (writer_prefetch p w os n w' c)
    note W = writers_okD [OF Wok writer_prefetch(2)]
    have m: "maps_ok (ch_ps ?c) (ch_store ?c) (ch_nwp ?c) w" using W(1) by (simp add: writer_inv_def)
    show ?thesis using writer_prefetch_spec [OF ps(2) m writer_prefetch(4)] same [of c] writer_prefetch(1) assms by simp
  next
    case (clean pol age stuck n c)
    then show ?thesis using assms by (auto simp: cleanup_def Let_def)
  qed (use assms in simp_all)
qed

section \<open>Opening, then using, then opening again\<close>

lemma fresh_page_ok:
  assumes "fresh_page ps (ch_store c)" "ch_ps c = ps" "ch_nwp c = 8" "8 < ps"
  shows "validate_active_page c = Chain_Ok \<and> active_ok c"
proof
  obtain i where i: "has_page ps (ch_store c) 0 i" "bytes_at (mem ps (ch_store c)) (0 * ps + 0) (frame_header 8 0)"
    using assms(1) by (auto simp: fresh_page_def)
  have "hdr_size (pf_data (st_inodes (ch_store c) i)) 0 = 8"
    using header_read(1) [OF i(1) _ i(2)] assms(4) by simp
  moreover have "scan_chain ps d 8 (Suc (Suc k)) 0 = Chain_Ok" if "hdr_size d 0 = 8" for d k
    using that assms(4) by simp
  from this [of _ 9998] have "scan_chain ps d 8 10000 0 = Chain_Ok" if "hdr_size d 0 = 8" for d
    using that by simp
  ultimately show "validate_active_page c = Chain_Ok"
    using i(1) assms by (simp add: validate_active_page_def has_page_def)
  have "tiles (mem ps (ch_store c)) 0 8"
    by (rule tiles.tile [of _ 0 8 0]) (use i(2) tiles.empty in simp_all)
  then show "active_ok c" using assms by (simp add: active_ok_def)
qed

lemma open_or_create_spec:
  assumes "store_wf st" and "\<And>sg n. seg = Some sg \<Longrightarrow> sg_nwp sg = Some n \<Longrightarrow> n < 18446744073709551616"
    and "open_or_create cfg stuck out seg st = (Inr (c, rs, ws), seg', st')"
  shows "chan_ok c \<and> ch_ps c = cc_page_size cfg \<and> ch_owner c = None \<and> ch_store c = st' \<and>
    open_only seg' = Inr (ch_ps c, ch_nwp c, rs, ws) \<and>
    (if \<exists>sg. seg = Some sg \<and> same_segment cfg sg
     then st' = st \<and> (\<exists>sg. seg = Some sg \<and> sg_nwp sg = Some (ch_nwp c) \<and>
                       rs = find_or [] (sg_readers sg) \<and> ws = find_or [] (sg_writers sg))
     else ch_nwp c = 8 \<and> validate_active_page c = Chain_Ok \<and> active_ok c)"
proof -
  let ?ps = "cc_page_size cfg"
  obtain sg st1 where s1: "open_or_create_segment cfg stuck seg st = (sg, st1)" by fastforce
  have "validate_config cfg = None" using assms(3) by (auto simp: open_or_create_def split: option.splits)
  then have ps: "1048576 \<le> ?ps" "?ps \<le> 68719476736" by (auto simp: validate_config_def split: if_splits)
  obtain e n q st2 where rp: "reset_pages stuck out ?ps (find_or ?ps (sg_ps sg)) (find_or 0 (sg_nwp sg)) st1 = (e, n, q, st2)"
    by (metis prod_cases4)
  obtain e2 m st3 where ei: "ensure_initial_frame out ?ps n st2 = (e2, m, st3)" by (metis prod_cases3)
  have ok: "e = None" "e2 = None" "c = \<lparr>ch_ps = ?ps, ch_nwp = m, ch_owner = None, ch_store = st3\<rparr>"
    "rs = find_or [] (sg_readers sg)" "ws = find_or [] (sg_writers sg)" "st' = st3"
    "seg' = Some \<lparr>sg_size = sg_size sg, sg_nwp = Some m, sg_ps = Some q, sg_readers = Some rs, sg_writers = Some ws\<rparr>"
    using assms(3) \<open>validate_config cfg = None\<close> s1 rp ei
    by (auto simp: open_or_create_def Let_def split: option.splits)
  have wf1: "store_wf st1" and sz: "sg_size sg = cc_meta_size cfg"
    and old: "seg = Some sg \<and> st1 = st \<or> sg_nwp sg = None \<and> sg_ps sg = None \<and> (\<forall>x. seg = Some x \<longrightarrow> sg_size x \<noteq> cc_meta_size cfg)"
    using s1 assms(1) by (auto simp: open_or_create_segment_def split: option.splits if_splits)
  have n0: "find_or 0 (sg_nwp sg) < 18446744073709551616"
    using old assms(2) by (auto simp: find_or_def split: option.splits)
  have ps8: "8 \<le> ?ps" using ps by simp
  note R = reset_pages_spec [OF wf1 ps8 rp [unfolded ok(1)]]
  have E: "store_wf st3 \<and> (n \<noteq> 0 \<longrightarrow> m = n \<and> st3 = st2) \<and>
      (n = 0 \<longrightarrow> m = 8 \<and> fresh_page ?ps st3)"
  proof (cases "n = 0")
    case True
    then have "write_initial_frame ?ps out st2 = (None, st3)" "m = 8"
      using ei ok(2) by (auto simp: ensure_initial_frame_def split: prod.splits option.splits)
    then show ?thesis
      using True R write_initial_frame_spec [OF _ ps8] fresh_pageI [OF _ ps8] by blast
  next
    case False
    then show ?thesis using ei R by (simp add: ensure_initial_frame_def)
  qed
  have q: "q = ?ps" using R by blast
  have m: "m < 18446744073709551616" using R E n0 by (cases "find_or ?ps (sg_ps sg) = ?ps"; cases "n = 0") auto
  have sound: "chan_ok c" using ok(3) ps m E by (simp add: chan_ok_def)
  show ?thesis
  proof (cases "\<exists>sg. seg = Some sg \<and> same_segment cfg sg")
    case True
    then have so: "seg = Some sg" "st1 = st" "same_segment cfg sg" using old by (auto simp: same_segment_def)
    then have "m = find_or 0 (sg_nwp sg)" "st3 = st" using R E by (auto simp: same_segment_def)
    moreover obtain k where "sg_nwp sg = Some k"
      using so(3) by (auto simp: same_segment_def find_or_def split: option.splits)
    moreover from this have "find_or 0 (sg_nwp sg) = k" by (simp add: find_or_def)
    ultimately show ?thesis using True so ok sound q by (simp add: open_only_def)
  next
    case False
    then have "find_or ?ps (sg_ps sg) \<noteq> ?ps \<or> find_or 0 (sg_nwp sg) = 0"
      using old sz by (auto simp: same_segment_def find_or_def)
    then have "m = 8 \<and> fresh_page ?ps st3"
      using R E by (cases "find_or ?ps (sg_ps sg) = ?ps") auto
    then show ?thesis using False ok sound q fresh_page_ok [of ?ps c] ps by (auto simp: open_only_def)
  qed
qed

text \<open>opening a channel as its creator. The result is a sound channel without a lock
  owner, which every other process can open with the same metadata. A channel the segment
  already describes is taken over unchanged; otherwise the position is the first one after the
  fill frame of page 0 and the start-up check finds nothing to report.\<close>

theorem open_or_create_sound:
  assumes "store_wf st" and "\<And>sg n. seg = Some sg \<Longrightarrow> sg_nwp sg = Some n \<Longrightarrow> n < 18446744073709551616"
    and "open_or_create cfg stuck out seg st = (Inr (c, rs, ws), seg', st')"
  shows "chan_ok c \<and> ch_ps c = cc_page_size cfg \<and> ch_owner c = None \<and> ch_store c = st' \<and>
    open_only seg' = Inr (ch_ps c, ch_nwp c, rs, ws) \<and>
    (if \<exists>sg. seg = Some sg \<and> same_segment cfg sg
     then st' = st \<and> (\<exists>sg. seg = Some sg \<and> sg_nwp sg = Some (ch_nwp c) \<and>
                       rs = find_or [] (sg_readers sg) \<and> ws = find_or [] (sg_writers sg))
     else ch_nwp c = 8 \<and> validate_active_page c = Chain_Ok)"
  using open_or_create_spec [OF assms] by (simp split: if_splits)

theorem open_or_create_sound_witness:
  "\<exists>c rs ws seg' st'. open_or_create \<lparr>cc_meta_size = 1048576, cc_page_size = 1048576\<rparr> (\<lambda>_. False) Os_Ok None empty_store
      = (Inr (c, rs, ws), seg', st') \<and> chan_ok c \<and> validate_active_page c = Chain_Ok"
proof -
  let ?cfg = "\<lparr>cc_meta_size = 1048576, cc_page_size = 1048576\<rparr>"
  have "\<exists>c rs ws seg' st'. open_or_create ?cfg (\<lambda>_. False) Os_Ok None empty_store = (Inr (c, rs, ws), seg', st')"
    by (simp add: open_or_create_def validate_config_def open_or_create_segment_def reset_pages_def find_or_def
        ensure_initial_frame_def write_initial_frame_def ready_file_def map_page_def Let_def empty_store_def
        create_file_def resize_file_def)
  then obtain c rs ws seg' st' where
    o: "open_or_create ?cfg (\<lambda>_. False) Os_Ok None empty_store = (Inr (c, rs, ws), seg', st')" by blast
  from open_or_create_sound [OF _ _ o] show ?thesis using o by auto
qed

lemma run_active:
  assumes "(sys_step single)\<^sup>*\<^sup>* s s'" "sys_inv single s" "active_ok (sy_ch s)" "ch_ps (sy_ch s) mod 8 = 0"
    "ch_nwp (sy_ch s) mod 8 = 0" "8 \<le> ch_nwp (sy_ch s)"
  shows "sys_inv single s' \<and> active_ok (sy_ch s') \<and> ch_ps (sy_ch s') mod 8 = 0 \<and> ch_nwp (sy_ch s') mod 8 = 0 \<and>
    8 \<le> ch_nwp (sy_ch s')"
  using assms(1)
proof (induction rule: rtranclp_induct)
  case base
  then show ?case using assms by blast
next
  case (step t u)
  then show ?case
    using sys_step_inv [OF step.hyps(2)] sys_step_active [OF step.hyps(2)] sys_step_mod8 [OF step.hyps(2)] by auto
qed

text \<open>C29: the start-up check is quiet on a channel its own processes left. After a channel was
  created with a page size that is a multiple of eight, and after any use of it, crashes of
  writers included, the check of the active page finds the chain complete (or stops at its
  limit of frames); only when the frames fill the page exactly can it report the next page
  as missing or unfinished.\<close>

theorem startup_check_quiet:
  assumes "store_wf st" and "\<And>sg n. seg = Some sg \<Longrightarrow> sg_nwp sg = Some n \<Longrightarrow> n < 18446744073709551616"
    and "open_or_create cfg stuck out seg st = (Inr (c, rs, ws), seg', st')"
    and "\<not> (\<exists>sg. seg = Some sg \<and> same_segment cfg sg)" and "cc_page_size cfg mod 8 = 0"
    and "sy_ch s = c" and "sy_writers s = Map.empty" and "sy_readers s = Map.empty"
    and "sy_rreg s = []" and "sy_log s = []" and "(sys_step single)\<^sup>*\<^sup>* s s'"
  shows "validate_active_page (sy_ch s') \<in> {Chain_Ok, Scan_Capped} \<or>
    ch_nwp (sy_ch s') mod ch_ps (sy_ch s') = 0 \<and> validate_active_page (sy_ch s') \<in> {Active_Page_Missing, Active_Page_Size}"
proof -
  have c: "chan_ok c" "ch_ps c = cc_page_size cfg" "ch_owner c = None" "ch_nwp c = 8" "active_ok c"
    using open_or_create_spec [OF assms(1-3)] assms(4) by simp_all
  have "sys_init s" using c assms(6-10) by (simp add: sys_init_def reg_ok_def)
  then have "sys_inv single s" by (rule sys_init_inv)
  then have r: "sys_inv single s'" "active_ok (sy_ch s')" "ch_nwp (sy_ch s') mod 8 = 0" "8 \<le> ch_nwp (sy_ch s')"
    using run_active [OF assms(11)] c assms(5,6) by simp_all
  then have ch: "chan_ok (sy_ch s')" by (simp add: sys_inv_def)
  show ?thesis
  proof (cases "ch_nwp (sy_ch s') mod ch_ps (sy_ch s') = 0")
    case True
    have "scan_chain ps d 0 10000 0 = Chain_Ok" for ps d
    proof -
      have "scan_chain ps d 0 (Suc k) 0 = Chain_Ok" for k by simp
      from this [of 9999] show ?thesis by simp
    qed
    then show ?thesis using True r(3,4) unfolding validate_active_page_def by (auto split: option.split)
  next
    case False
    then show ?thesis using startup_check [OF r(2) ch r(3,4)] by blast
  qed
qed

theorem startup_check_quiet_witness:
  "\<exists>s s'. sys_step True s s' \<and> (validate_active_page (sy_ch s') \<in> {Chain_Ok, Scan_Capped} \<or>
    ch_nwp (sy_ch s') mod ch_ps (sy_ch s') = 0 \<and> validate_active_page (sy_ch s') \<in> {Active_Page_Missing, Active_Page_Size})"
proof -
  let ?cfg = "\<lparr>cc_meta_size = 1048576, cc_page_size = 1048576\<rparr>"
  have "\<exists>c rs ws seg' st'. open_or_create ?cfg (\<lambda>_. False) Os_Ok None empty_store = (Inr (c, rs, ws), seg', st')"
    by (simp add: open_or_create_def validate_config_def open_or_create_segment_def reset_pages_def find_or_def
        ensure_initial_frame_def write_initial_frame_def ready_file_def map_page_def Let_def empty_store_def
        create_file_def resize_file_def)
  then obtain c rs ws seg' st' where
    o: "open_or_create ?cfg (\<lambda>_. False) Os_Ok None empty_store = (Inr (c, rs, ws), seg', st')" by blast
  define s where "s = demo0\<lparr>sy_ch := c\<rparr>"
  define s' where "s' = s\<lparr>sy_rreg := [(''r'', \<lparr>rg_pid = 1, rg_page = 0\<rparr>)]\<rparr>"
  have s: "sy_ch s = c" "sy_writers s = Map.empty" "sy_readers s = Map.empty" "sy_rreg s = []" "sy_log s = []"
    by (simp_all add: s_def demo0_def)
  have "add_entry True ''r'' 1 (sy_rreg s) = Inr (True, [(''r'', \<lparr>rg_pid = 1, rg_page = 0\<rparr>)])"
    by (simp add: s add_entry_def)
  then have st: "sys_step True s s'" unfolding s'_def by (rule sys_step.register_reader)
  then have run: "(sys_step True)\<^sup>*\<^sup>* s s'" by blast
  have "validate_active_page (sy_ch s') \<in> {Chain_Ok, Scan_Capped} \<or>
    ch_nwp (sy_ch s') mod ch_ps (sy_ch s') = 0 \<and> validate_active_page (sy_ch s') \<in> {Active_Page_Missing, Active_Page_Size}"
    by (rule startup_check_quiet [OF _ _ o _ _ s run]) simp_all
  with st show ?thesis by (intro exI conjI)
qed

section \<open>Page sizes that are no multiple of eight\<close>

text \<open>
  \<open>validate_config\<close> accepts them, and then a position after the first page need not be a
  multiple of eight: the check calls an intact channel corrupted.
\<close>

lemma odd_page_size:
  "validate_config \<lparr>cc_meta_size = 1048576, cc_page_size = 1048580\<rparr> = None \<and>
    validate_active_page \<lparr>ch_ps = 1048580, ch_nwp = 1048580 + 16, ch_owner = None, ch_store = st\<rparr> = Nwp_Invalid"
  by (simp add: validate_config_def validate_active_page_def)

end
