(* ===== verification/Shm_Ext.thy ===== *)
theory Shm_Ext
  imports Shm_Open
begin

text \<open>
  Frames of variable length (\<open>write_ext_frame\<close> and \<open>write_ext_inst_frame\<close> of \<open>writer.h\<close>, read
  back by \<open>frame_view.h\<close>), and what the size arithmetic of the writer and the fill check of the
  reader do not cover.
\<close>

section \<open>Reading an extended frame\<close>

text \<open>\<open>FrameView::ext_payload_size\<close> and \<open>ext_payload\<close>, over the payload of the frame.\<close>

definition ext_payload :: "byte list \<Rightarrow> byte list" where
  "ext_payload p = take (get32 (\<lambda>k. p ! k) 0) (drop 8 p)"

definition ext_inst_payload :: "byte list \<Rightarrow> byte list" where
  "ext_inst_payload p = take (get32 (\<lambda>k. p ! k) 64) (drop 72 p)"

text \<open>The instance id up to its terminator.\<close>

definition ext_inst_id :: "byte list \<Rightarrow> byte list" where
  "ext_inst_id p = takeWhile (\<lambda>b. b \<noteq> 0) (take 64 p)"

lemma pad8_bounds: "n \<le> 4294967280 \<Longrightarrow> n \<le> pad8 n \<and> pad8 n < n + 8 \<and> pad8 n mod 8 = 0"
proof -
  assume "n \<le> 4294967280"
  then have "pad8 n = (n + 7) div 8 * 8" by (simp add: pad8_def)
  moreover have "(n + 7) div 8 * 8 + (n + 7) mod 8 = n + 7" "(n + 7) mod 8 < 8" by simp_all
  ultimately show ?thesis by auto
qed

lemma length_ext [simp]: "length (ext_frame_bytes data) = 8 + length data + (pad8 (length data) - length data)"
  by (simp add: ext_frame_bytes_def)

lemma get32_app: "length xs = a \<Longrightarrow> get32 (\<lambda>k. (xs @ put32 n @ ys) ! k) a = n mod 4294967296"
proof -
  assume a: "length xs = a"
  have "\<forall>k < 4. (xs @ put32 n @ ys) ! (a + k) = put32 n ! k" using a by (simp add: nth_append)
  then show ?thesis by (rule get32_put32)
qed

lemma ext_payload_bytes: "length data < 4294967296 \<Longrightarrow> ext_payload (ext_frame_bytes data) = data"
  using get32_app [of "[]" 0 "length data" "replicate 4 0 @ data @ replicate (pad8 (length data) - length data) 0"]
  by (simp add: ext_payload_def ext_frame_bytes_def)

section \<open>A frame of several writes\<close>

text \<open>
  Opening, any writes into the reserved space, closing: what is committed is the header's type
  and whatever the space holds at the end.
\<close>

lemma commit_spec:
  assumes "0 < ch_ps c" "store_wf (ch_store c)" "writer_inv (ch_ps c) (ch_store c) n w" "ch_nwp c = n"
    "wr_pend_size w = length data + 8" "0 < ty" "ty < 65536" "n + 2 * ch_ps c < 18446744073709551616"
    "bytes_at (mem (ch_ps c) (ch_store c)) (pend_start (ch_ps c) w) (frame_header (wr_pend_size w) ty)"
    "bytes_at (mem (ch_ps c) (ch_store c)) (pend_start (ch_ps c) w + 8) data"
    "close_frame w c = (w', c')"
  shows "chain (ch_ps c) (mem (ch_ps c) (ch_store c')) n (ch_nwp c') [(ty, data)]"
proof -
  have pl: "placed (ch_ps c) (ch_store c) n w" using assms(3,5) by (simp add: writer_inv_def pending_ok_def)
  have ne: "wr_pend_size w \<noteq> 0" using assms(5) by simp
  have C: "ch_store c' = ch_store c" "ch_nwp c' = pend_start (ch_ps c) w + wr_pend_size w"
    using close_frame_spec [OF assms(1) _ ne _ assms(11)] assms(3,4,8) pend_start_bound [OF assms(1) pl] by auto
  have "pend_start (ch_ps c) w mod ch_ps c = wr_pend_off w" using pl by (simp add: pend_start_def placed_def)
  then have "frame_at (ch_ps c) (mem (ch_ps c) (ch_store c)) (pend_start (ch_ps c) w) (ty, data)"
    using assms(5-7,9,10) pl by (simp add: frame_at_def frame_bytes_def placed_def add.commute)
  then show ?thesis using pl C assms(5) by (auto simp: placed_def frame_bytes_def)
qed

text \<open>An extended frame carries its bytes. For any data below \<open>2 ^ 32 - 16\<close> bytes, a frame
  written by \<open>write_ext_frame\<close> is the only frame between the old and the new position, and a
  reader that looks at its payload gets back exactly the data, whatever the padding.\<close>

theorem ext_frame_roundtrip:
  assumes "chan_ok c" and "writer_inv (ch_ps c) (ch_store c) (ch_nwp c) w" and "wr_pend_size w = 0"
    and "0 < ty" and "ty < 65536" and "length data \<le> 4294967264"
    and "ch_nwp c + 2 * ch_ps c < 18446744073709551616"
    and "write_ext_frame os ty data w c = (True, w', c')"
  shows "\<exists>p. chain (ch_ps c) (mem (ch_ps c) (ch_store c')) (ch_nwp c) (ch_nwp c') [(ty, p)] \<and> ext_payload p = data"
proof -
  let ?n = "8 + pad8 (length data)" and ?p = "ext_frame_bytes data"
  have pad: "length data \<le> pad8 (length data)" "pad8 (length data) < length data + 8"
    using pad8_bounds [of "length data"] assms(6) by simp_all
  have n: "u32 ?n = ?n" "?n < 4294967288" "length ?p = ?n" using pad assms(6) by simp_all
  obtain r w1 c1 where o: "open_frame os ty ?n w c = (r, w1, c1)" by (metis prod_cases3)
  have ps: "0 < ch_ps c" "store_wf (ch_store c)" using assms(1) by (auto simp: chan_ok_def)
  note O = open_frame_spec [OF ps assms(2-5) n(2) o]
  obtain i off where r: "r = Inr (i, off)"
    using assms(8) o n(1) by (cases r) (auto simp: write_ext_frame_def)
  have res: "i = pg_inode (wr_page w1)" "off = wr_pend_off w1 + 8" "wr_pend_size w1 = ?n + 8"
    "bytes_at (mem (ch_ps c) (ch_store c1)) (pend_start (ch_ps c) w1) (frame_header (wr_pend_size w1) ty)"
    using O r by (auto simp: open_result_def)
  have c1: "ch_ps c1 = ch_ps c" "ch_nwp c1 = ch_nwp c" "store_wf (ch_store c1)" "writer_inv (ch_ps c) (ch_store c1) (ch_nwp c) w1"
    using O by auto
  define c2 where "c2 = put_data (pg_inode (wr_page w1)) (wr_pend_off w1 + 8) ?p c1"
  have P: "store_wf (ch_store c2)" "writer_inv (ch_ps c) (ch_store c2) (ch_nwp c) w1" "same_meta c1 c2"
    "bytes_at (mem (ch_ps c) (ch_store c2)) (pend_start (ch_ps c) w1 + 8) ?p"
    "bytes_at (mem (ch_ps c) (ch_store c2)) (pend_start (ch_ps c) w1) (frame_header (wr_pend_size w1) ty)"
    using put_pending [of c1 w1 8 ?p c2] c1 res ps(1) n(3) by (auto simp: c2_def)
  have c2: "ch_ps c2 = ch_ps c" "ch_nwp c2 = ch_nwp c" using P(3) c1 by (auto simp: same_meta_def)
  have "close_frame w1 c2 = (w', c')"
    using assms(8) o n(1) r res(1,2) by (simp add: write_ext_frame_def c2_def)
  then have "chain (ch_ps c) (mem (ch_ps c) (ch_store c')) (ch_nwp c) (ch_nwp c') [(ty, ?p)]"
    using commit_spec [of c2 "ch_nwp c" w1 ?p ty w' c'] c2 P ps(1) res(3) n(3) assms(4,5,7) by (simp add: add.commute)
  moreover have "ext_payload ?p = data" using assms(6) by (intro ext_payload_bytes) simp
  ultimately show ?thesis by blast
qed

theorem ext_frame_roundtrip_witness:
  "\<exists>w' c'. write_ext_frame all_ok 5 [1, 2, 3] demo_w (sy_ch demo3) = (True, w', c') \<and>
    (\<exists>p. chain 64 (mem 64 (ch_store c')) 8 (ch_nwp c') [(5, p)] \<and> ext_payload p = [1, 2, 3])"
proof -
  have inv: "sys_inv False demo3" by (rule reachable_inv [OF demo3_reach])
  then have ok: "chan_ok (sy_ch demo3)" by (simp add: sys_inv_def)
  have "writers_ok False (sy_ch demo3) (sy_writers demo3)" using inv by (simp add: sys_inv_def)
  from writers_okD(1) [OF this, of 0 demo_w]
  have wi: "writer_inv (ch_ps (sy_ch demo3)) (ch_store (sy_ch demo3)) (ch_nwp (sy_ch demo3)) demo_w"
    by (simp add: demo3_def)
  have "fst (write_ext_frame all_ok 5 [1, 2, 3] demo_w (sy_ch demo3))"
    by (simp add: write_ext_frame_def pad8_def open_frame_def locate_frame_def roll_page_def lock_write_def demo_eval)
  then obtain w' c' where w: "write_ext_frame all_ok 5 [1, 2, 3] demo_w (sy_ch demo3) = (True, w', c')"
    by (metis eq_fst_iff prod_cases3)
  have "\<exists>p. chain (ch_ps (sy_ch demo3)) (mem (ch_ps (sy_ch demo3)) (ch_store c')) (ch_nwp (sy_ch demo3)) (ch_nwp c') [(5, p)]
      \<and> ext_payload p = [1, 2, 3]"
    by (rule ext_frame_roundtrip [OF ok wi _ _ _ _ _ w]) (simp_all add: demo_eval)
  then show ?thesis using w by (simp add: demo_eval)
qed

section \<open>Where the arithmetic ends\<close>

text \<open>
  From \<open>2 ^ 32 - 15\<close> bytes on, the sum of header and padded size wraps: the space reserved is
  smaller than the data copied into it.
\<close>

lemma ext_size_wraps: "n \<in> {4294967281 .. 4294967295} \<Longrightarrow> u32 (8 + pad8 n) \<le> 8"
proof (cases "n \<le> 4294967288")
  case True
  assume "n \<in> {4294967281 .. 4294967295}"
  then have "(n + 7) div 8 = 536870911" using True by (intro div_nat_eqI) auto
  then show ?thesis using True by (simp add: pad8_def u32_def)
next
  case False
  assume "n \<in> {4294967281 .. 4294967295}"
  then have "(n + 7) mod 4294967296 = n + 7 - 4294967296" using False by (simp add: mod_if)
  then have "u32 (n + 7) div 8 = 0" using \<open>n \<in> _\<close> by (auto simp: u32_def div_less)
  then show ?thesis by (simp add: pad8_def)
qed

text \<open>
  The reader accepts a fill frame that ends beyond its page, as long as it is not longer than a
  whole page, and then reads a header outside the mapping.
\<close>

lemma fill_check_too_weak:
  assumes "off + 8 \<le> ch_ps c" "ch_ps c < 9223372036854775808"
    "hdr_type (pf_data (st_inodes (ch_store c) (pg_inode (rd_page rd)))) off = 0"
    "hdr_size (pf_data (st_inodes (ch_store c) (pg_inode (rd_page rd)))) off = sz"
    "8 \<le> sz" "sz \<le> ch_ps c" "ch_ps c < off + sz"
  shows "skip_fill os c off p pos rd = Some (Bad_Access, rd)"
proof -
  have "\<not> sub64 (ch_ps c) (off + sz) < 8"
    using assms by (simp add: sub64_def mod_if) arith
  moreover have "skip_fill os c (off + sz) p (u64 (pos + sz)) rd = Some (Bad_Access, rd)"
    using assms(7) by (subst skip_fill.simps) (simp add: Let_def)
  ultimately show ?thesis
    using assms by (subst skip_fill.simps) (simp add: Let_def)
qed

end
