(* ===== verification/Timer_Heap.thy ===== *)
theory Timer_Heap
  imports Dz_Prelude
begin

text \<open>
  The timer heap of the strategy SDK (\<open>libs/strategy_api/src/timer_heap.h\<close>): a binary heap of
  deadlines and tokens in one array. The functions are the array algorithms of the code; what
  they keep is the heap order, and what they hold is a multiset of nodes. \<open>timer_store\<close> is the
  interface the strategy runtime relies on.
\<close>

section \<open>Model\<close>

type_synonym node = "int \<times> nat"

abbreviation (input) deadline :: "node \<Rightarrow> int" where "deadline n \<equiv> fst n"
abbreviation (input) token :: "node \<Rightarrow> nat" where "token n \<equiv> snd n"

definition before :: "node \<Rightarrow> node \<Rightarrow> bool" where
  "before a b \<longleftrightarrow> deadline a < deadline b"

definition swap_at :: "nat \<Rightarrow> nat \<Rightarrow> 'a list \<Rightarrow> 'a list" where
  "swap_at i j xs = xs[i := xs ! j, j := xs ! i]"

lemma length_swap [simp]: "length (swap_at i j xs) = length xs"
  by (simp add: swap_at_def)

fun sift_up :: "nat \<Rightarrow> node list \<Rightarrow> node list" where
  "sift_up i xs =
     (if i = 0 then xs
      else let parent = (i - 1) div 2
           in if \<not> before (xs ! i) (xs ! parent) then xs else sift_up parent (swap_at i parent xs))"

declare sift_up.simps [simp del]

definition smaller_child :: "nat \<Rightarrow> node list \<Rightarrow> nat" where
  "smaller_child i xs =
     (let left = 2 * i + 1; right = left + 1
      in if right < length xs \<and> before (xs ! right) (xs ! left) then right else left)"

function sift_down :: "nat \<Rightarrow> node list \<Rightarrow> node list" where
  "sift_down i xs =
     (if length xs \<le> 2 * i + 1 then xs
      else let smaller = smaller_child i xs
           in if \<not> before (xs ! smaller) (xs ! i) then xs else sift_down smaller (swap_at i smaller xs))"
  by pat_completeness auto

termination
  by (relation "measure (\<lambda>(i, xs). length xs - i)") (auto simp: smaller_child_def Let_def split: if_splits)

declare sift_down.simps [simp del]

definition heap_push :: "int \<Rightarrow> nat \<Rightarrow> node list \<Rightarrow> node list" where
  "heap_push d t xs = sift_up (length xs) (xs @ [(d, t)])"

text \<open>For a non-empty heap: the first node and the rest.\<close>

definition heap_pop :: "node list \<Rightarrow> node \<times> node list" where
  "heap_pop xs =
     (let xs1 = butlast (xs[0 := last xs])
      in (hd xs, if xs1 = [] then xs1 else sift_down 0 xs1))"

fun find_token :: "nat \<Rightarrow> nat \<Rightarrow> node list \<Rightarrow> nat option" where
  "find_token t i [] = None"
| "find_token t i (n # xs) = (if token n \<noteq> t then find_token t (i + 1) xs else Some i)"

definition remove_token :: "nat \<Rightarrow> node list \<Rightarrow> bool \<times> node list" where
  "remove_token t xs =
     (case find_token t 0 xs of
        None \<Rightarrow> (False, xs)
      | Some i \<Rightarrow>
          let xs1 = butlast (xs[i := last xs])
          in (True, if i < length xs1 then sift_down i (sift_up i xs1) else xs1))"

definition remove_tokens_below :: "nat \<Rightarrow> node list \<Rightarrow> node list" where
  "remove_tokens_below b xs =
     (if xs = [] then xs
      else let ys = filter (\<lambda>n. b \<le> token n) xs in foldr sift_down [0 ..< length ys div 2] ys)"

section \<open>The heap order\<close>

abbreviation (input) par :: "nat \<Rightarrow> nat" where "par j \<equiv> (j - 1) div 2"

definition edge_ok :: "node list \<Rightarrow> nat \<Rightarrow> bool" where
  "edge_ok xs j \<longleftrightarrow> deadline (xs ! par j) \<le> deadline (xs ! j)"

definition is_heap :: "node list \<Rightarrow> bool" where
  "is_heap xs \<longleftrightarrow> (\<forall>j. 0 < j \<and> j < length xs \<longrightarrow> edge_ok xs j)"

text \<open>The order holds for the edges from node \<open>k\<close> on.\<close>

definition heap_from :: "nat \<Rightarrow> node list \<Rightarrow> bool" where
  "heap_from k xs \<longleftrightarrow> (\<forall>j. 0 < j \<and> j < length xs \<and> k \<le> par j \<longrightarrow> edge_ok xs j)"

lemma par_less: "0 < j \<Longrightarrow> par j < j"
  by linarith

lemma is_heap_from: "is_heap xs = heap_from 0 xs"
  by (simp add: is_heap_def heap_from_def)

lemma nth_swap: "i < length xs \<Longrightarrow> j < length xs \<Longrightarrow>
  swap_at i j xs ! k = (if k = i then xs ! j else if k = j then xs ! i else xs ! k)"
  by (auto simp: swap_at_def nth_list_update)

lemma mset_swap_at [simp]: "i < length xs \<Longrightarrow> j < length xs \<Longrightarrow> mset (swap_at i j xs) = mset xs"
  by (simp add: swap_at_def mset_swap)

lemma sift_up_mset: "i < length xs \<Longrightarrow> mset (sift_up i xs) = mset xs \<and> length (sift_up i xs) = length xs"
proof (induction i xs rule: sift_up.induct)
  case (1 i xs)
  show ?case
  proof (cases "i = 0 \<or> \<not> before (xs ! i) (xs ! par i)")
    case True
    then show ?thesis by (subst (1 2) sift_up.simps) (auto simp: Let_def)
  next
    case False
    have "par i < length xs" using 1(2) by linarith
    then show ?thesis using 1 False by (subst (1 2) sift_up.simps) (auto simp: Let_def)
  qed
qed

lemma sift_down_mset: "i < length xs \<Longrightarrow> mset (sift_down i xs) = mset xs \<and> length (sift_down i xs) = length xs"
proof (induction i xs rule: sift_down.induct)
  case (1 i xs)
  show ?case
  proof (cases "length xs \<le> 2 * i + 1 \<or> \<not> before (xs ! smaller_child i xs) (xs ! i)")
    case True
    then show ?thesis by (subst (1 2) sift_down.simps) (auto simp: Let_def)
  next
    case False
    then have "smaller_child i xs < length xs" by (auto simp: smaller_child_def Let_def)
    then show ?thesis using 1 False by (subst (1 2) sift_down.simps) (auto simp: Let_def)
  qed
qed

text \<open>
  A node that may be too small for its parent: every other edge is fine, and the node's
  children are not below its parent.
\<close>

lemma sift_up_heap:
  assumes "i < length xs" "\<And>j. 0 < j \<Longrightarrow> j < length xs \<Longrightarrow> j \<noteq> i \<Longrightarrow> edge_ok xs j"
    "\<And>j. 0 < j \<Longrightarrow> j < length xs \<Longrightarrow> par j = i \<Longrightarrow> 0 < i \<Longrightarrow> deadline (xs ! par i) \<le> deadline (xs ! j)"
  shows "is_heap (sift_up i xs)"
  using assms
proof (induction i xs rule: sift_up.induct)
  case (1 i xs)
  show ?case
  proof (cases "i = 0 \<or> \<not> before (xs ! i) (xs ! par i)")
    case True
    then have "sift_up i xs = xs" by (subst sift_up.simps) (auto simp: Let_def)
    moreover have "0 < i \<Longrightarrow> edge_ok xs i" using True by (auto simp: before_def edge_ok_def)
    ultimately show ?thesis using 1(3) by (auto simp: is_heap_def)
  next
    case False
    let ?p = "par i" and ?ys = "swap_at i (par i) xs"
    have lt: "deadline (xs ! i) < deadline (xs ! ?p)" "0 < i" using False by (auto simp: before_def)
    have p: "?p < length xs" "?p < i" using 1(2) lt(2) by linarith+
    have nth: "?ys ! k = (if k = i then xs ! ?p else if k = ?p then xs ! i else xs ! k)" for k
      using nth_swap [OF 1(2) p(1)] .
    have "is_heap (sift_up ?p ?ys)"
    proof (rule 1(1) [of ?p])
      show "i \<noteq> 0" "?p < length ?ys" using lt p by simp_all
      show "?p = par i" "\<not> \<not> before (xs ! i) (xs ! ?p)" using False by simp_all
      show "edge_ok ?ys j" if j: "0 < j" "j < length ?ys" "j \<noteq> ?p" for j
      proof -
        have jl: "j < length xs" using j by simp
        consider "j = i" | "j \<noteq> i" "par j = i" | "j \<noteq> i" "par j \<noteq> i" "par j = ?p" | "j \<noteq> i" "par j \<noteq> i" "par j \<noteq> ?p" by blast
        then show ?thesis
        proof cases
          case 1
          then show ?thesis using lt p nth by (auto simp: edge_ok_def)
        next
          case 2
          then show ?thesis using 1(4) [OF j(1) jl] lt nth j(3)
            by (auto simp: edge_ok_def)
        next
          case 3
          have "edge_ok xs j" using 1(3) [OF j(1) jl] 3 by simp
          then show ?thesis using 3 lt nth j(3) by (auto simp: edge_ok_def)
        next
          case 4
          have "edge_ok xs j" using 1(3) [OF j(1) jl] 4 by simp
          then show ?thesis using 4 nth j(3) by (simp add: edge_ok_def)
        qed
      qed
      show "deadline (?ys ! par ?p) \<le> deadline (?ys ! j)"
        if j: "0 < j" "j < length ?ys" "par j = ?p" "0 < ?p" for j
      proof -
        have jl: "j < length xs" using j by simp
        have ne: "par ?p \<noteq> i" "par ?p \<noteq> ?p" using par_less [OF j(4)] p(2) by linarith+
        have ep: "edge_ok xs ?p" using 1(3) [of ?p] j(4) p by simp
        show ?thesis
        proof (cases "j = i")
          case True
          then show ?thesis using ep nth ne by (simp add: edge_ok_def)
        next
          case False
          have "edge_ok xs j" using 1(3) [OF j(1) jl False] .
          moreover have "j \<noteq> ?p" using par_less [OF j(1)] j(3) by linarith
          ultimately show ?thesis using ep nth ne False j(3) by (simp add: edge_ok_def)
        qed
      qed
    qed
    then show ?thesis using False by (subst sift_up.simps) (simp add: Let_def)
  qed
qed

lemma smaller_child_spec:
  assumes "2 * i + 1 < length xs"
  shows "smaller_child i xs < length xs \<and> par (smaller_child i xs) = i \<and> 0 < smaller_child i xs \<and> i < smaller_child i xs \<and>
    (\<forall>j. 0 < j \<and> j < length xs \<and> par j = i \<longrightarrow> deadline (xs ! smaller_child i xs) \<le> deadline (xs ! j))"
proof -
  have "j = 2 * i + 1 \<or> j = 2 * i + 2" if "0 < j" "par j = i" for j using that by presburger
  then show ?thesis using assms by (fastforce simp: smaller_child_def Let_def before_def)
qed

lemma sift_down_heap:
  assumes "i < length xs" "k \<le> i"
    "\<And>j. 0 < j \<Longrightarrow> j < length xs \<Longrightarrow> k \<le> par j \<Longrightarrow> par j \<noteq> i \<Longrightarrow> edge_ok xs j"
    "\<And>j. 0 < j \<Longrightarrow> j < length xs \<Longrightarrow> par j = i \<Longrightarrow> 0 < i \<Longrightarrow> k \<le> par i \<Longrightarrow> deadline (xs ! par i) \<le> deadline (xs ! j)"
  shows "heap_from k (sift_down i xs)"
  using assms
proof (induction i xs rule: sift_down.induct)
  case (1 i xs)
  show ?case
  proof (cases "length xs \<le> 2 * i + 1")
    case True
    then have "sift_down i xs = xs" by (subst sift_down.simps) simp
    moreover have "par j \<noteq> i" if "0 < j" "j < length xs" for j using that True by presburger
    ultimately show ?thesis using 1(4) by (auto simp: heap_from_def)
  next
    case False
    let ?s = "smaller_child i xs" and ?ys = "swap_at i (smaller_child i xs) xs"
    have s: "?s < length xs" "par ?s = i" "0 < ?s" "i < ?s"
      "\<And>j. 0 < j \<Longrightarrow> j < length xs \<Longrightarrow> par j = i \<Longrightarrow> deadline (xs ! ?s) \<le> deadline (xs ! j)"
      using smaller_child_spec [of i xs] False by auto
    show ?thesis
    proof (cases "before (xs ! ?s) (xs ! i)")
      case stop: False
      have "sift_down i xs = xs" using stop False by (subst sift_down.simps) (simp add: Let_def)
      moreover have "edge_ok xs j" if "0 < j" "j < length xs" "par j = i" for j
        using s(5) [OF that] stop that(3) by (simp add: edge_ok_def before_def)
      ultimately show ?thesis using 1(4) unfolding heap_from_def by metis
    next
      case go: True
      have lt: "deadline (xs ! ?s) < deadline (xs ! i)" using go by (simp add: before_def)
      have nth: "?ys ! m = (if m = i then xs ! ?s else if m = ?s then xs ! i else xs ! m)" for m
        using nth_swap [OF 1(2) s(1)] .
      have "heap_from k (sift_down ?s ?ys)"
      proof (rule 1(1) [of ?s])
        show "\<not> length xs \<le> 2 * i + 1" "\<not> \<not> before (xs ! ?s) (xs ! i)" using False go by simp_all
        show "?s < length ?ys" "k \<le> ?s" using s 1(3) by simp_all
        show "edge_ok ?ys j" if j: "0 < j" "j < length ?ys" "k \<le> par j" "par j \<noteq> ?s" for j
        proof -
          have jl: "j < length xs" using j by simp
          consider "j = ?s" | "j \<noteq> ?s" "par j = i" | "j = i" | "j \<noteq> ?s" "par j \<noteq> i" "j \<noteq> i" by blast
          then show ?thesis
          proof cases
            case 1
            then show ?thesis using lt s nth by (simp add: edge_ok_def)
          next
            case 2
            moreover have "j \<noteq> i" using par_less [OF j(1)] 2 by linarith
            ultimately show ?thesis using s(5) [OF j(1) jl] nth by (simp add: edge_ok_def)
          next
            case 3
            then have "par i \<noteq> i" "par i \<noteq> ?s" using par_less [of i] j(1) s(4) by linarith+
            moreover have "deadline (xs ! par i) \<le> deadline (xs ! ?s)" using 1(5) [OF s(3,1,2)] 3 j by simp
            ultimately show ?thesis using 3 nth by (simp add: edge_ok_def)
          next
            case 4
            then show ?thesis using 1(4) [OF j(1) jl j(3)] nth j(4) by (simp add: edge_ok_def)
          qed
        qed
        show "deadline (?ys ! par ?s) \<le> deadline (?ys ! j)" if j: "0 < j" "j < length ?ys" "par j = ?s" "0 < ?s" "k \<le> par ?s" for j
        proof -
          have "j \<noteq> i" "j \<noteq> ?s" using par_less [OF j(1)] j(3) s(4) by linarith+
          moreover have "edge_ok xs j" using 1(4) [OF j(1)] j s(4) 1(3) by simp
          ultimately show ?thesis using nth s(2) j(3) by (simp add: edge_ok_def)
        qed
      qed simp
      then show ?thesis using False go by (subst sift_down.simps) (simp add: Let_def)
    qed
  qed
qed

lemma sift_down_id: "is_heap xs \<Longrightarrow> sift_down i xs = xs"
proof (cases "length xs \<le> 2 * i + 1")
  case True
  then show ?thesis by (subst sift_down.simps) simp
next
  case False
  assume h: "is_heap xs"
  have "edge_ok xs (smaller_child i xs)" "par (smaller_child i xs) = i"
    using smaller_child_spec [of i xs] False h by (auto simp: is_heap_def)
  then show ?thesis using False by (subst sift_down.simps) (simp add: Let_def before_def edge_ok_def)
qed

lemma heap_top_min:
  assumes "is_heap xs" "j < length xs"
  shows "deadline (xs ! 0) \<le> deadline (xs ! j)"
  using assms(2)
proof (induction j rule: less_induct)
  case (less j)
  show ?case
  proof (cases "j = 0")
    case False
    then have "par j < j" "edge_ok xs j" using assms(1) less.prems by (auto simp: is_heap_def)
    then show ?thesis using less.IH [of "par j"] less.prems by (simp add: edge_ok_def)
  qed simp
qed

section \<open>The operations\<close>

lemma push_spec: "is_heap xs \<Longrightarrow> is_heap (heap_push d t xs) \<and> mset (heap_push d t xs) = add_mset (d, t) (mset xs)"
proof -
  assume h: "is_heap xs"
  let ?ys = "xs @ [(d, t)]"
  have "is_heap (sift_up (length xs) ?ys)"
  proof (rule sift_up_heap)
    show "edge_ok ?ys j" if "0 < j" "j < length ?ys" "j \<noteq> length xs" for j
    proof -
      have "j < length xs" "par j < length xs" using that by simp_all
      then show ?thesis using h that by (simp add: is_heap_def edge_ok_def nth_append)
    qed
    show "deadline (?ys ! par (length xs)) \<le> deadline (?ys ! j)"
      if "0 < j" "j < length ?ys" "par j = length xs" "0 < length xs" for j
      using that by simp
  qed simp
  then show ?thesis using sift_up_mset [of "length xs" ?ys] by (simp add: heap_push_def)
qed

text \<open>Taking node \<open>i\<close> out by putting the last node in its place.\<close>

lemma mset_replace_last:
  assumes "i < length xs"
  shows "mset (butlast (xs[i := last xs])) = mset xs - {#xs ! i#}"
proof -
  have ne: "xs \<noteq> []" using assms by auto
  let ?ys = "xs[i := last xs]"
  have ys: "mset ?ys = add_mset (last xs) (mset xs - {#xs ! i#})" using assms by (simp add: mset_update)
  have "last ?ys = last xs" using ne assms by (simp add: last_conv_nth nth_list_update)
  then have "?ys = butlast ?ys @ [last xs]" using ne by (metis append_butlast_last_id length_0_conv length_list_update)
  then have "mset ?ys = add_mset (last xs) (mset (butlast ?ys))" by (metis mset_append mset_single_iff_right add_mset_add_single mset.simps)
  then show ?thesis using ys by simp
qed

lemma replace_edges:
  assumes "is_heap xs" "i < length xs - 1"
  defines "ys \<equiv> butlast (xs[i := last xs])"
  shows "0 < j \<Longrightarrow> j < length ys \<Longrightarrow> j \<noteq> i \<Longrightarrow> par j \<noteq> i \<Longrightarrow> edge_ok ys j"
    "0 < j \<Longrightarrow> j < length ys \<Longrightarrow> par j = i \<Longrightarrow> 0 < i \<Longrightarrow> deadline (ys ! par i) \<le> deadline (ys ! j)"
proof -
  have nth: "ys ! m = (if m = i then last xs else xs ! m)" if "m < length xs - 1" for m
    using that by (simp add: ys_def nth_butlast nth_list_update)
  have len: "length ys = length xs - 1" by (simp add: ys_def)
  have h: "edge_ok xs m" if "0 < m" "m < length xs" for m using assms(1) that by (simp add: is_heap_def)
  show "edge_ok ys j" if j: "0 < j" "j < length ys" "j \<noteq> i" "par j \<noteq> i"
    using h [of j] j nth [of j] nth [of "par j"] len by (simp add: edge_ok_def)
  show "deadline (ys ! par i) \<le> deadline (ys ! j)" if j: "0 < j" "j < length ys" "par j = i" "0 < i"
  proof -
    have ne: "j \<noteq> i" "par i \<noteq> i" and lt: "par i < length xs - 1"
      using par_less [OF j(1)] par_less [OF j(4)] j(3) assms(2) by linarith+
    have "deadline (xs ! par i) \<le> deadline (xs ! i)" "deadline (xs ! i) \<le> deadline (xs ! j)"
      using h [of i] h [of j] j assms(2) len by (simp_all add: edge_ok_def)
    then show ?thesis using nth [of j] nth [OF lt] ne j len by simp
  qed
qed

lemma pop_spec:
  assumes "is_heap xs" "xs \<noteq> []" "heap_pop xs = (n, ys)"
  shows "is_heap ys \<and> mset xs = add_mset n (mset ys) \<and> n = hd xs \<and> (\<forall>m \<in> set xs. deadline n \<le> deadline m)"
proof -
  let ?zs = "butlast (xs[0 := last xs])"
  have n: "n = hd xs" "ys = (if ?zs = [] then ?zs else sift_down 0 ?zs)"
    using assms(3) by (auto simp: heap_pop_def Let_def)
  have len: "length ?zs = length xs - 1" by simp
  have "is_heap ys"
  proof (cases "?zs = []")
    case True
    then have "ys = []" using n(2) by simp
    then show ?thesis by (simp add: is_heap_def)
  next
    case False
    then have lt: "0 < length xs - 1" using len by (metis length_greater_0_conv)
    have "heap_from 0 (sift_down 0 ?zs)"
      by (rule sift_down_heap) (use False replace_edges(1) [OF assms(1) lt] lt len in auto)
    then show ?thesis using n(2) False by (simp add: is_heap_from)
  qed
  moreover have "mset ys = mset ?zs" 
  proof (cases "?zs = []")
    case False
    then have "0 < length ?zs" by (rule length_greater_0_conv [THEN iffD2])
    then show ?thesis using sift_down_mset [of 0 ?zs] n(2) False by metis
  qed (use n(2) in simp)
  then have "mset ys = mset xs - {#hd xs#}" using mset_replace_last [of 0 xs] assms(2) by (simp add: hd_conv_nth)
  then have "mset xs = add_mset n (mset ys)" using assms(2) n(1) by simp
  moreover have "deadline n \<le> deadline m" if "m \<in> set xs" for m
    using that heap_top_min [OF assms(1)] n(1) assms(2) by (auto simp: in_set_conv_nth hd_conv_nth)
  ultimately show ?thesis using n(1) by blast
qed

lemma find_token_from:
  "(find_token t k xs = None \<longleftrightarrow> t \<notin> token ` set xs) \<and>
    (\<forall>i. find_token t k xs = Some i \<longrightarrow> k \<le> i \<and> i < k + length xs \<and> token (xs ! (i - k)) = t)"
proof (induction xs arbitrary: k)
  case (Cons n xs)
  show ?case
  proof (cases "token n = t")
    case False
    have "token ((n # xs) ! (i - k)) = t" if "find_token t (Suc k) xs = Some i" for i
    proof -
      have "Suc k \<le> i" "token (xs ! (i - Suc k)) = t" using Cons.IH [of "Suc k"] that by blast+
      then show ?thesis by (metis Suc_diff_le Suc_le_D diff_Suc_Suc nth_Cons_Suc)
    qed
    then show ?thesis using False Cons.IH [of "Suc k"] by auto
  qed simp
qed simp

lemma find_token_spec:
  "find_token t 0 xs = None \<longleftrightarrow> t \<notin> token ` set xs"
  "find_token t 0 xs = Some i \<Longrightarrow> i < length xs \<and> token (xs ! i) = t"
  using find_token_from [of t 0 xs] by auto

text \<open>A missing token changes nothing; otherwise one node with the token goes.\<close>

lemma remove_token_spec:
  assumes "is_heap xs" "remove_token t xs = (b, ys)"
  shows "is_heap ys \<and> (b \<longleftrightarrow> t \<in> token ` set xs) \<and>
    (if b then \<exists>n. token n = t \<and> mset xs = add_mset n (mset ys) else ys = xs)"
proof (cases "find_token t 0 xs")
  case None
  then show ?thesis using assms find_token_spec(1) [of t xs] by (auto simp: remove_token_def)
next
  case (Some i)
  let ?zs = "butlast (xs[i := last xs])"
  have i: "i < length xs" "token (xs ! i) = t" using find_token_spec(2) [OF Some] by auto
  then have t: "t \<in> token ` set xs" by (metis imageI nth_mem)
  have b: "b" "ys = (if i < length ?zs then sift_down i (sift_up i ?zs) else ?zs)"
    using assms(2) Some by (auto simp: remove_token_def Let_def)
  have ms: "mset ?zs = mset xs - {#xs ! i#}" using mset_replace_last [OF i(1)] .
  have len: "length ?zs = length xs - 1" by simp
  have "is_heap ys \<and> mset ys = mset ?zs"
  proof (cases "i < length ?zs")
    case True
    have lt: "i < length xs - 1" using True len by simp
    note E = replace_edges [OF assms(1) lt]
    have up: "mset (sift_up i ?zs) = mset ?zs" "length (sift_up i ?zs) = length ?zs"
      using sift_up_mset [OF True] by auto
    have "is_heap (sift_down i (sift_up i ?zs))"
    proof (cases "i = 0 \<or> \<not> before (?zs ! i) (?zs ! par i)")
      case stay: True
      then have u: "sift_up i ?zs = ?zs" by (subst sift_up.simps) (auto simp: Let_def)
      have e: "0 < i \<Longrightarrow> edge_ok ?zs i" using stay by (auto simp: edge_ok_def before_def)
      have "heap_from 0 (sift_down i ?zs)"
      proof (rule sift_down_heap [OF True])
        fix j assume j: "0 < j" "j < length ?zs" "0 \<le> par j" "par j \<noteq> i"
        show "edge_ok ?zs j"
        proof (cases "j = i")
          case True
          then show ?thesis using e j(1) by simp
        next
          case False
          then show ?thesis using E(1) [OF j(1,2) False j(4)] by simp
        qed
      next
        fix j assume "0 < j" "j < length ?zs" "par j = i" "0 < i"
        then show "deadline (?zs ! par i) \<le> deadline (?zs ! j)" by (rule E(2))
      qed simp
      then show ?thesis using u by (simp add: is_heap_from)
    next
      case go: False
      have "is_heap (sift_up i ?zs)"
      proof (rule sift_up_heap [OF True])
        fix j assume j: "0 < j" "j < length ?zs" "j \<noteq> i"
        show "edge_ok ?zs j"
        proof (cases "par j = i")
          case True
          have "0 < i" using go by simp
          from E(2) [OF j(1,2) True this] True go show ?thesis by (simp add: edge_ok_def before_def)
        next
          case False
          then show ?thesis using E(1) [OF j False] by simp
        qed
      next
        fix j assume "0 < j" "j < length ?zs" "par j = i" "0 < i"
        then show "deadline (?zs ! par i) \<le> deadline (?zs ! j)" by (rule E(2))
      qed
      then show ?thesis by (simp add: sift_down_id)
    qed
    then show ?thesis using b(2) True up sift_down_mset [of i "sift_up i ?zs"] by simp
  next
    case False
    then have "i = length xs - 1" using i(1) len by linarith
    then have "?zs = butlast xs" using i(1) by (metis butlast_list_update)
    moreover have "edge_ok (butlast xs) j" if "0 < j" "j < length (butlast xs)" for j
    proof -
      have "par j < length (butlast xs)" using par_less [OF that(1)] that(2) by linarith
      then show ?thesis using assms(1) that by (simp add: is_heap_def edge_ok_def nth_butlast)
    qed
    ultimately show ?thesis using b(2) False by (simp add: is_heap_def)
  qed
  moreover have "mset xs = add_mset (xs ! i) (mset xs - {#xs ! i#})" using i(1) by simp
  ultimately show ?thesis using b(1) t ms i(2) by metis
qed

lemma heapify: "k \<le> length ys div 2 \<Longrightarrow> heap_from k ys \<Longrightarrow>
    is_heap (foldr sift_down [0 ..< k] ys) \<and> mset (foldr sift_down [0 ..< k] ys) = mset ys"
proof (induction k arbitrary: ys)
  case 0
  then show ?case by (simp add: is_heap_from)
next
  case (Suc k)
  have k: "k < length ys" using Suc.prems(1) by linarith
  have "heap_from k (sift_down k ys)"
  proof (rule sift_down_heap [OF k])
    fix j assume j: "0 < j" "j < length ys" "k \<le> par j" "par j \<noteq> k"
    then have "Suc k \<le> par j" by linarith
    then show "edge_ok ys j" using Suc.prems(2) j by (auto simp: heap_from_def)
  next
    fix j assume "0 < k" "k \<le> par k"
    then show "deadline (ys ! par k) \<le> deadline (ys ! j)" using par_less [of k] by linarith
  qed simp
  then show ?case using Suc.IH [of "sift_down k ys"] sift_down_mset [OF k] Suc.prems(1) by simp
qed

lemma remove_below_spec:
  assumes "is_heap xs"
  shows "is_heap (remove_tokens_below b xs) \<and>
    mset (remove_tokens_below b xs) = filter_mset (\<lambda>n. b \<le> token n) (mset xs)"
proof (cases "xs = []")
  case True
  then show ?thesis by (simp add: remove_tokens_below_def is_heap_def)
next
  case False
  let ?ys = "filter (\<lambda>n. b \<le> token n) xs"
  have "\<not> length ys div 2 \<le> par j" if "0 < j" "j < length ys" for j and ys :: "node list"
    using that by linarith
  then have "heap_from (length ?ys div 2) ?ys" by (auto simp: heap_from_def)
  then show ?thesis using False heapify [of "length ?ys div 2" ?ys]
    by (simp add: remove_tokens_below_def Let_def mset_filter)
qed

lemma heap_nil [simp]: "is_heap []"
  by (simp add: is_heap_def)

section \<open>The interface of a timer store\<close>

text \<open>
  What the runtime needs: a store of nodes from which the earliest comes first, with removal by
  token. \<open>content\<close> is what is stored.
\<close>

locale timer_store =
  fixes ok :: "'s \<Rightarrow> bool"
    and content :: "'s \<Rightarrow> node multiset"
    and push :: "int \<Rightarrow> nat \<Rightarrow> 's \<Rightarrow> 's"
    and pop :: "'s \<Rightarrow> node \<times> 's"
    and remove :: "nat \<Rightarrow> 's \<Rightarrow> bool \<times> 's"
  assumes push_law: "ok s \<Longrightarrow> ok (push d t s) \<and> content (push d t s) = add_mset (d, t) (content s)"
    and pop_law: "ok s \<Longrightarrow> content s \<noteq> {#} \<Longrightarrow> pop s = (n, s') \<Longrightarrow>
      ok s' \<and> content s = add_mset n (content s') \<and> (\<forall>m \<in># content s. deadline n \<le> deadline m)"
    and remove_law: "ok s \<Longrightarrow> remove t s = (b, s') \<Longrightarrow> ok s' \<and> (b \<longleftrightarrow> t \<in># image_mset token (content s)) \<and>
      (if b then \<exists>n. token n = t \<and> content s = add_mset n (content s') else content s' = content s)"
begin

lemma pop_size: "ok s \<Longrightarrow> content s \<noteq> {#} \<Longrightarrow> pop s = (n, s') \<Longrightarrow> size (content s) = Suc (size (content s'))"
  using pop_law by (metis size_add_mset)

text \<open>Nodes come out in the order of their deadlines.\<close>

lemma pop_sorted:
  assumes "ok s" "content s \<noteq> {#}" "pop s = (n, s')" "content s' \<noteq> {#}" "pop s' = (m, s'')"
  shows "deadline n \<le> deadline m"
proof -
  note P = pop_law [OF assms(1-3)]
  then have "content s' = add_mset m (content s'')" using pop_law [OF _ assms(4,5)] by blast
  then have "m \<in># content s" using P by simp
  then show ?thesis using P by blast
qed

text \<open>With distinct tokens a removed token is gone.\<close>

lemma remove_gone:
  assumes "ok s" "remove t s = (b, s')" "\<forall>x. count (image_mset token (content s)) x \<le> 1"
  shows "t \<notin># image_mset token (content s')"
proof (cases b)
  case True
  then obtain n where n: "token n = t" "content s = add_mset n (content s')" using remove_law [OF assms(1,2)] by auto
  have "count (image_mset token (content s)) t \<le> 1" using assms(3) by blast
  then have "count (image_mset token (content s')) t = 0" using n by simp
  then show ?thesis by (rule count_eq_zero_iff [THEN iffD1])
next
  case False
  then show ?thesis using remove_law [OF assms(1,2)] by auto
qed

lemma push_tokens: "ok s \<Longrightarrow> image_mset token (content (push d t s)) = add_mset t (image_mset token (content s))"
  using push_law by simp

lemma pop_tokens: "ok s \<Longrightarrow> content s \<noteq> {#} \<Longrightarrow> pop s = (n, s') \<Longrightarrow>
    image_mset token (content s) = add_mset (token n) (image_mset token (content s'))"
  using pop_law by fastforce

end

interpretation th: timer_store is_heap mset heap_push heap_pop remove_token
proof
  show "is_heap s \<Longrightarrow> is_heap (heap_push d t s) \<and> mset (heap_push d t s) = add_mset (d, t) (mset s)" for s d t
    by (rule push_spec)
  show "is_heap s \<Longrightarrow> mset s \<noteq> {#} \<Longrightarrow> heap_pop s = (n, s') \<Longrightarrow>
      is_heap s' \<and> mset s = add_mset n (mset s') \<and> (\<forall>m \<in># mset s. deadline n \<le> deadline m)" for s n s'
    by (metis pop_spec mset_zero_iff set_mset_mset)
  show "is_heap s \<Longrightarrow> remove_token t s = (b, s') \<Longrightarrow> is_heap s' \<and> (b \<longleftrightarrow> t \<in># image_mset token (mset s)) \<and>
      (if b then \<exists>n. token n = t \<and> mset s = add_mset n (mset s') else mset s' = mset s)" for s t b s'
    using remove_token_spec [of s t b s'] by (cases b) auto
qed

text \<open>Removing a token keeps the heap order and takes out one node with that token; without one,
  nothing changes.\<close>

theorem remove_token_exact:
  assumes "is_heap xs" "remove_token t xs = (b, ys)"
  shows "is_heap ys \<and> (b \<longleftrightarrow> t \<in> token ` set xs) \<and>
    (if b then \<exists>n. token n = t \<and> mset xs = add_mset n (mset ys) else ys = xs)"
  by (rule remove_token_spec [OF assms])

theorem remove_token_exact_witness:
  "is_heap [(1, 5), (4, 8), (3, 7)] \<and> mset [(1, 5), (2, 6), (3, 7), (4, 8)] = add_mset (2, 6) (mset [(1 :: int, 5 :: nat), (4, 8), (3, 7)])"
proof -
  have h: "is_heap [(1, 5), (2, 6), (3, 7), (4, 8)]"
    by (auto simp: is_heap_def edge_ok_def less_Suc_eq numeral_eq_Suc)
  have "remove_token 6 [(1, 5), (2, 6), (3, 7), (4, 8)] = (True, [(1, 5), (4, 8), (3, 7)])"
    by (simp add: remove_token_def sift_up.simps sift_down.simps before_def)
  from remove_token_exact [OF h this] show ?thesis by auto
qed

end
