(* ===== verification/Strategy_Timers.thy ===== *)
theory Strategy_Timers
  imports Timer_Heap
begin

text \<open>
  The timers of a strategy process (\<open>libs/strategy_api/src/strategy_context.h\<close>): user timers and
  the two internal preload tasks share one heap; a firing user timer becomes a frame in a ring
  of 32 slots, or waits in a queue while the ring is full. Times of the steady clock are
  nanoseconds; the wall clock is the local time of day in milliseconds that the code would read
  when it rearms a given timer.
\<close>

section \<open>State\<close>

datatype timer_kind = After | Every | At_Once | Daily

record user_timer =
  ut_kind :: timer_kind
  ut_tod :: int
  ut_interval :: int
  ut_next :: int

text \<open>\<open>rt_preloads\<close> records the preloads run so far; their effect is that of \<open>Shm_Reader\<close> and
  \<open>Shm_Writer\<close>.\<close>

record 'p timers =
  rt_heap :: "node list"
  rt_user :: "(nat \<times> user_timer) list"
  rt_next_id :: nat
  rt_event :: "'p option"
  rt_md :: "'p option"
  rt_frames :: "nat list"
  rt_head :: nat
  rt_count :: nat
  rt_deferred :: "nat list"
  rt_preloads :: "'p list"

abbreviation (input) SLOTS :: nat where "SLOTS \<equiv> 32"
abbreviation (input) TOKEN_BASE :: nat where "TOKEN_BASE \<equiv> 9223372036854775808"
abbreviation (input) TOKEN_EVENT :: nat where "TOKEN_EVENT \<equiv> 9223372036854775808"
abbreviation (input) TOKEN_MD :: nat where "TOKEN_MD \<equiv> 9223372036854775809"

definition new_timers :: "'p timers" where
  "new_timers = \<lparr>rt_heap = [], rt_user = [], rt_next_id = 1, rt_event = None, rt_md = None,
     rt_frames = replicate SLOTS 0, rt_head = 0, rt_count = 0, rt_deferred = [], rt_preloads = []\<rparr>"

definition ms :: "int \<Rightarrow> int" where
  "ms n = n * 1000000"

definition next_time_of_day_delay :: "int \<Rightarrow> int \<Rightarrow> int" where
  "next_time_of_day_delay tod now_tod =
     (let delta = tod - now_tod in if delta \<le> 0 then delta + 86400000 else delta)"

definition one_shot :: "timer_kind \<Rightarrow> bool" where
  "one_shot k \<longleftrightarrow> k = After \<or> k = At_Once"

section \<open>Firing\<close>

definition deliver_timer_frame :: "nat \<Rightarrow> 'p timers \<Rightarrow> 'p timers" where
  "deliver_timer_frame tid rt = rt\<lparr>rt_frames := (rt_frames rt)[rt_head rt := tid],
     rt_head := (rt_head rt + 1) mod SLOTS, rt_count := rt_count rt + 1\<rparr>"

definition rearm_deadline :: "int \<Rightarrow> int \<Rightarrow> user_timer \<Rightarrow> int" where
  "rearm_deadline now wall e =
     (if ut_kind e = Every
      then let n = ut_next e + ms (ut_interval e) in if n \<le> now then now + ms (ut_interval e) else n
      else let d = next_time_of_day_delay (ut_tod e) wall
           in now + ms (if d < 43200000 then d + 86400000 else d))"

definition rearm_user_timer :: "int \<Rightarrow> int \<Rightarrow> nat \<Rightarrow> user_timer \<Rightarrow> 'p timers \<Rightarrow> 'p timers" where
  "rearm_user_timer now wall tid e rt =
     (let n = rearm_deadline now wall e
      in rt\<lparr>rt_user := AList.update tid (e\<lparr>ut_next := n\<rparr>) (rt_user rt), rt_heap := heap_push n tid (rt_heap rt)\<rparr>)"

definition on_user_timer_fire :: "int \<Rightarrow> int \<Rightarrow> nat \<Rightarrow> 'p timers \<Rightarrow> 'p timers" where
  "on_user_timer_fire now wall tid rt =
     (case map_of (rt_user rt) tid of
        None \<Rightarrow> rt
      | Some e \<Rightarrow>
          if SLOTS \<le> rt_count rt
          then let rt1 = (if one_shot (ut_kind e) then rt else rearm_user_timer now wall tid e rt)
               in rt1\<lparr>rt_deferred := rt_deferred rt1 @ [tid]\<rparr>
          else let rt1 = deliver_timer_frame tid rt
               in if one_shot (ut_kind e) then rt1\<lparr>rt_user := AList.delete tid (rt_user rt1)\<rparr>
                  else rearm_user_timer now wall tid e rt1)"

definition fire_node :: "int \<Rightarrow> (nat \<Rightarrow> int) \<Rightarrow> node \<Rightarrow> 'p timers \<Rightarrow> 'p timers" where
  "fire_node now wall n rt =
     (if token n = TOKEN_EVENT
      then (case rt_event rt of None \<Rightarrow> rt | Some p \<Rightarrow> rt\<lparr>rt_preloads := rt_preloads rt @ [p], rt_event := None\<rparr>)
      else if token n = TOKEN_MD
      then (case rt_md rt of None \<Rightarrow> rt | Some p \<Rightarrow> rt\<lparr>rt_preloads := rt_preloads rt @ [p], rt_md := None\<rparr>)
      else on_user_timer_fire now (wall (token n)) (token n) rt)"

partial_function (option) tick_timers :: "int \<Rightarrow> (nat \<Rightarrow> int) \<Rightarrow> 'p timers \<Rightarrow> 'p timers option" where
  "tick_timers now wall rt =
     (if rt_heap rt = [] \<or> now < deadline (hd (rt_heap rt)) then Some rt
      else let (n, h) = heap_pop (rt_heap rt)
           in tick_timers now wall (fire_node now wall n (rt\<lparr>rt_heap := h\<rparr>)))"

text \<open>The wait until the earliest deadline: whole milliseconds, at least one while any time is left.\<close>

definition next_timer_wait_ms :: "int \<Rightarrow> 'p timers \<Rightarrow> int" where
  "next_timer_wait_ms now rt =
     (let remaining = deadline (hd (rt_heap rt)) - now; m = cdiv remaining 1000000
      in if m \<le> 0 then (if 0 < remaining then 1 else 0)
         else if 4294967295 \<le> m then 4294967295 else m)"

section \<open>Taking frames\<close>

fun refill :: "nat list \<Rightarrow> 'p timers \<Rightarrow> 'p timers" where
  "refill [] rt = rt\<lparr>rt_deferred := []\<rparr>"
| "refill (tid # ids) rt =
     (if rt_count rt \<noteq> 0 then rt\<lparr>rt_deferred := tid # ids\<rparr>
      else case map_of (rt_user rt) tid of
             None \<Rightarrow> refill ids rt
           | Some e \<Rightarrow>
               let rt1 = deliver_timer_frame tid rt
               in refill ids (if one_shot (ut_kind e) then rt1\<lparr>rt_user := AList.delete tid (rt_user rt1)\<rparr> else rt1))"

definition pop_timer_frame :: "'p timers \<Rightarrow> nat option \<times> 'p timers" where
  "pop_timer_frame rt0 =
     (let rt = refill (rt_deferred rt0) rt0
      in if rt_count rt = 0 then (None, rt)
         else (Some (rt_frames rt ! ((rt_head rt + SLOTS - rt_count rt) mod SLOTS)), rt\<lparr>rt_count := rt_count rt - 1\<rparr>))"

section \<open>Scheduling\<close>

definition schedule_user_timer :: "user_timer \<Rightarrow> 'p timers \<Rightarrow> nat option \<times> 'p timers" where
  "schedule_user_timer e rt =
     (let tid = rt_next_id rt
      in if 4611686018427387904 \<le> tid then (None, rt)
         else (Some tid, rt\<lparr>rt_next_id := tid + 1, rt_heap := heap_push (ut_next e) tid (rt_heap rt),
                            rt_user := AList.update tid e (rt_user rt)\<rparr>))"

text \<open>\<open>dz_schedule_after\<close>, \<open>_every\<close>, \<open>_at\<close> and \<open>_daily\<close> (\<open>src/api.cpp\<close>).\<close>

definition schedule_relative :: "int \<Rightarrow> timer_kind \<Rightarrow> int \<Rightarrow> 'p timers \<Rightarrow> nat option \<times> 'p timers" where
  "schedule_relative now kind delay rt =
     schedule_user_timer \<lparr>ut_kind = kind, ut_tod = 0, ut_interval = (if kind = Every then delay else 0),
       ut_next = now + ms delay\<rparr> rt"

definition schedule_time_of_day :: "int \<Rightarrow> int \<Rightarrow> timer_kind \<Rightarrow> int \<Rightarrow> 'p timers \<Rightarrow> nat option \<times> 'p timers" where
  "schedule_time_of_day now wall kind tod rt =
     schedule_user_timer \<lparr>ut_kind = kind, ut_tod = tod, ut_interval = 0,
       ut_next = now + ms (next_time_of_day_delay tod wall)\<rparr> rt"

definition valid_delay_ms :: "int \<Rightarrow> bool" where
  "valid_delay_ms d \<longleftrightarrow> 0 < d"

definition valid_time_of_day_ms :: "int \<Rightarrow> bool" where
  "valid_time_of_day_ms t \<longleftrightarrow> 0 \<le> t \<and> t \<le> 86399999"

definition dz_schedule_after :: "int \<Rightarrow> int \<Rightarrow> 'p timers \<Rightarrow> nat option \<times> 'p timers" where
  "dz_schedule_after now d rt = (if \<not> valid_delay_ms d then (None, rt) else schedule_relative now After d rt)"

definition dz_schedule_every :: "int \<Rightarrow> int \<Rightarrow> 'p timers \<Rightarrow> nat option \<times> 'p timers" where
  "dz_schedule_every now d rt = (if \<not> valid_delay_ms d then (None, rt) else schedule_relative now Every d rt)"

definition dz_schedule_at :: "int \<Rightarrow> int \<Rightarrow> int \<Rightarrow> 'p timers \<Rightarrow> nat option \<times> 'p timers" where
  "dz_schedule_at now wall t rt =
     (if \<not> valid_time_of_day_ms t then (None, rt) else schedule_time_of_day now wall At_Once t rt)"

definition dz_schedule_daily :: "int \<Rightarrow> int \<Rightarrow> int \<Rightarrow> 'p timers \<Rightarrow> nat option \<times> 'p timers" where
  "dz_schedule_daily now wall t rt =
     (if \<not> valid_time_of_day_ms t then (None, rt) else schedule_time_of_day now wall Daily t rt)"

definition cancel_user_timer :: "nat \<Rightarrow> 'p timers \<Rightarrow> bool \<times> 'p timers" where
  "cancel_user_timer tid rt =
     (case map_of (rt_user rt) tid of
        None \<Rightarrow> (False, rt)
      | Some e \<Rightarrow> (True, rt\<lparr>rt_heap := snd (remove_token tid (rt_heap rt)), rt_user := AList.delete tid (rt_user rt)\<rparr>))"

definition cancel_all_user_timers :: "'p timers \<Rightarrow> 'p timers" where
  "cancel_all_user_timers rt = rt\<lparr>rt_heap := remove_tokens_below TOKEN_BASE (rt_heap rt), rt_user := [],
     rt_deferred := [], rt_head := 0, rt_count := 0\<rparr>"

definition schedule_internal_preload :: "int \<Rightarrow> nat \<Rightarrow> int \<Rightarrow> 'p timers \<Rightarrow> 'p timers" where
  "schedule_internal_preload now t delay rt =
     rt\<lparr>rt_heap := heap_push (now + ms delay) t (snd (remove_token t (rt_heap rt)))\<rparr>"

definition internal_cleanup_on_shutdown :: "'p timers \<Rightarrow> 'p timers" where
  "internal_cleanup_on_shutdown rt =
     rt\<lparr>rt_event := None, rt_md := None,
        rt_heap := snd (remove_token TOKEN_MD (snd (remove_token TOKEN_EVENT (rt_heap rt)))),
        rt_deferred := [], rt_head := 0, rt_count := 0\<rparr>"

text \<open>The two control frames that schedule a preload (\<open>src/api.cpp\<close>).\<close>

definition on_preload_event :: "int \<Rightarrow> 'p \<Rightarrow> int \<Rightarrow> 'p timers \<Rightarrow> 'p timers" where
  "on_preload_event now p delay rt = schedule_internal_preload now TOKEN_EVENT delay (rt\<lparr>rt_event := Some p\<rparr>)"

definition on_preload_md :: "int \<Rightarrow> 'p \<Rightarrow> int \<Rightarrow> 'p timers \<Rightarrow> 'p timers" where
  "on_preload_md now p delay rt = schedule_internal_preload now TOKEN_MD delay (rt\<lparr>rt_md := Some p\<rparr>)"

section \<open>Invariant\<close>

text \<open>The frames waiting in the ring, oldest first.\<close>

definition pending :: "'p timers \<Rightarrow> nat list" where
  "pending rt = map (\<lambda>k. rt_frames rt ! ((rt_head rt + SLOTS - rt_count rt + k) mod SLOTS)) [0 ..< rt_count rt]"

definition ring_ok :: "'p timers \<Rightarrow> bool" where
  "ring_ok rt \<longleftrightarrow> length (rt_frames rt) = SLOTS \<and> rt_head rt < SLOTS \<and> rt_count rt \<le> SLOTS"

definition tokens :: "'p timers \<Rightarrow> nat multiset" where
  "tokens rt = image_mset token (mset (rt_heap rt))"

definition entry_ok :: "user_timer \<Rightarrow> bool" where
  "entry_ok e \<longleftrightarrow> (ut_kind e = Every \<longrightarrow> 0 < ut_interval e) \<and> 0 \<le> ut_tod e \<and> ut_tod e < 86400000"

text \<open>The tokens in the heap are distinct, and the user ones are registered.\<close>

definition tokens_ok :: "(nat \<times> user_timer) list \<Rightarrow> nat \<Rightarrow> nat multiset \<Rightarrow> bool" where
  "tokens_ok user nid M \<longleftrightarrow>
     (\<forall>x. count M x \<le> 1) \<and>
     (\<forall>x. x \<in># M \<longrightarrow> x < TOKEN_BASE \<longrightarrow> x \<in> dom (map_of user)) \<and>
     (\<forall>x e. map_of user x = Some e \<longrightarrow> x < nid \<and> entry_ok e) \<and>
     nid \<le> 4611686018427387904"

text \<open>A one-shot timer that waits for a slot has left the heap.\<close>

definition deferred_ok :: "'p timers \<Rightarrow> bool" where
  "deferred_ok rt \<longleftrightarrow> (\<forall>x \<in> set (rt_deferred rt). x < rt_next_id rt \<and>
     (\<forall>e. map_of (rt_user rt) x = Some e \<longrightarrow> one_shot (ut_kind e) \<longrightarrow> x \<notin># tokens rt))"

definition timers_ok :: "'p timers \<Rightarrow> bool" where
  "timers_ok rt \<longleftrightarrow> is_heap (rt_heap rt) \<and> distinct (keys (rt_user rt)) \<and> ring_ok rt \<and>
     tokens_ok (rt_user rt) (rt_next_id rt) (tokens rt) \<and> deferred_ok rt"

text \<open>A registered timer that is not in the heap is a one-shot timer waiting for a free slot.\<close>

definition no_lost :: "'p timers \<Rightarrow> bool" where
  "no_lost rt \<longleftrightarrow> (\<forall>x e. map_of (rt_user rt) x = Some e \<longrightarrow>
     x \<in># tokens rt \<or> one_shot (ut_kind e) \<and> x \<in> set (rt_deferred rt))"

lemma tokens_ok_mono: "tokens_ok u i M \<Longrightarrow> N \<subseteq># M \<Longrightarrow> tokens_ok u i N"
  unfolding tokens_ok_def subseteq_mset_def by (meson count_greater_zero_iff le_trans less_le_trans)

lemma tokens_ok_pop: "tokens_ok u i (add_mset t M) \<Longrightarrow> tokens_ok u i M \<and> t \<notin># M"
proof -
  assume a: "tokens_ok u i (add_mset t M)"
  then have "count (add_mset t M) t \<le> 1" unfolding tokens_ok_def by blast
  then have "count M t = 0" by simp
  then have "t \<notin># M" by (rule count_eq_zero_iff [THEN iffD1])
  then show ?thesis using tokens_ok_mono [OF a, of M] by simp
qed

text \<open>Everything but the timer \<open>t\<close> stays where it was.\<close>

lemma no_lost_step:
  assumes "no_lost rt" "\<And>x. x \<in># tokens rt \<Longrightarrow> x \<noteq> t \<Longrightarrow> x \<in># tokens rt'"
    "\<And>x. x \<in> set (rt_deferred rt) \<Longrightarrow> x \<noteq> t \<Longrightarrow> x \<in> set (rt_deferred rt')"
    "\<And>x. x \<noteq> t \<Longrightarrow> map_of (rt_user rt') x = map_of (rt_user rt) x"
    "\<And>e. map_of (rt_user rt') t = Some e \<Longrightarrow> t \<in># tokens rt' \<or> one_shot (ut_kind e) \<and> t \<in> set (rt_deferred rt')"
  shows "no_lost rt'"
  using assms unfolding no_lost_def by metis

lemma tokens_ok_delete: "tokens_ok u i M \<Longrightarrow> t \<notin># M \<Longrightarrow> tokens_ok (AList.delete t u) i M"
  by (auto simp: tokens_ok_def)

lemma tokens_ok_put: "tokens_ok u i M \<Longrightarrow> t \<notin># M \<Longrightarrow> t < i \<Longrightarrow> entry_ok e \<Longrightarrow>
    tokens_ok (AList.update t e u) i (add_mset t M)"
  by (auto simp: tokens_ok_def count_eq_zero_iff)

lemma tokens_ok_user: "tokens_ok u i M \<Longrightarrow> map_of u t = Some e \<Longrightarrow> t < i \<and> entry_ok e \<and> t < TOKEN_BASE"
  by (force simp: tokens_ok_def)

lemma deferred_step:
  assumes "deferred_ok rt" "rt_next_id rt \<le> rt_next_id rt'"
    "\<And>x. x \<in> set (rt_deferred rt') \<Longrightarrow> x \<noteq> t \<Longrightarrow> x \<in> set (rt_deferred rt)"
    "\<And>x. x \<in># tokens rt' \<Longrightarrow> x \<noteq> t \<Longrightarrow> x \<in># tokens rt"
    "\<And>x e. map_of (rt_user rt') x = Some e \<Longrightarrow> x \<noteq> t \<Longrightarrow> map_of (rt_user rt) x = Some e"
    "t \<in> set (rt_deferred rt') \<Longrightarrow> t < rt_next_id rt'"
    "\<And>e. t \<in> set (rt_deferred rt') \<Longrightarrow> map_of (rt_user rt') t = Some e \<Longrightarrow> one_shot (ut_kind e) \<Longrightarrow> t \<notin># tokens rt'"
  shows "deferred_ok rt'"
  unfolding deferred_ok_def
proof
  fix x assume x: "x \<in> set (rt_deferred rt')"
  show "x < rt_next_id rt' \<and> (\<forall>e. map_of (rt_user rt') x = Some e \<longrightarrow> one_shot (ut_kind e) \<longrightarrow> x \<notin># tokens rt')"
  proof (cases "x = t")
    case True
    then show ?thesis using x assms(6,7) by blast
  next
    case False
    then have "x \<in> set (rt_deferred rt)" using x assms(3) by blast
    then have "x < rt_next_id rt" "\<And>e. map_of (rt_user rt) x = Some e \<Longrightarrow> one_shot (ut_kind e) \<Longrightarrow> x \<notin># tokens rt"
      using assms(1) by (auto simp: deferred_ok_def)
    then show ?thesis using assms(2,4,5) False by (meson less_le_trans)
  qed
qed

lemma deliver_fields [simp]:
  "rt_heap (deliver_timer_frame t rt) = rt_heap rt" "rt_user (deliver_timer_frame t rt) = rt_user rt"
  "rt_next_id (deliver_timer_frame t rt) = rt_next_id rt" "rt_deferred (deliver_timer_frame t rt) = rt_deferred rt"
  "rt_count (deliver_timer_frame t rt) = rt_count rt + 1"
  by (simp_all add: deliver_timer_frame_def)

lemma rearm_fields [simp]:
  "rt_next_id (rearm_user_timer now w t e rt) = rt_next_id rt" "rt_deferred (rearm_user_timer now w t e rt) = rt_deferred rt"
  "rt_count (rearm_user_timer now w t e rt) = rt_count rt" "pending (rearm_user_timer now w t e rt) = pending rt"
  "ring_ok (rearm_user_timer now w t e rt) = ring_ok rt"
  "rt_heap (rearm_user_timer now w t e rt) = heap_push (rearm_deadline now w e) t (rt_heap rt)"
  "rt_user (rearm_user_timer now w t e rt) = AList.update t (e\<lparr>ut_next := rearm_deadline now w e\<rparr>) (rt_user rt)"
  by (simp_all add: rearm_user_timer_def Let_def pending_def ring_ok_def)

lemma pending_upd [simp]: "pending (rt\<lparr>rt_heap := h\<rparr>) = pending rt" "pending (rt\<lparr>rt_user := u\<rparr>) = pending rt"
  "pending (rt\<lparr>rt_deferred := d\<rparr>) = pending rt" "pending (rt\<lparr>rt_event := ev\<rparr>) = pending rt"
  "pending (rt\<lparr>rt_md := ev\<rparr>) = pending rt" "pending (rt\<lparr>rt_preloads := ps\<rparr>) = pending rt"
  "pending (rt\<lparr>rt_next_id := i\<rparr>) = pending rt"
  by (simp_all add: pending_def)

lemma ring_upd [simp]: "ring_ok (rt\<lparr>rt_heap := h\<rparr>) = ring_ok rt" "ring_ok (rt\<lparr>rt_user := u\<rparr>) = ring_ok rt"
  "ring_ok (rt\<lparr>rt_deferred := d\<rparr>) = ring_ok rt" "ring_ok (rt\<lparr>rt_event := ev\<rparr>) = ring_ok rt"
  "ring_ok (rt\<lparr>rt_md := ev\<rparr>) = ring_ok rt" "ring_ok (rt\<lparr>rt_preloads := ps\<rparr>) = ring_ok rt"
  "ring_ok (rt\<lparr>rt_next_id := i\<rparr>) = ring_ok rt"
  by (simp_all add: ring_ok_def)

section \<open>The ring is a queue\<close>

lemma length_pending [simp]: "length (pending rt) = rt_count rt"
  by (simp add: pending_def)

lemma ring_index:
  assumes "h < 32" "c < (32 :: nat)" "k \<le> c"
  shows "((h + 1) mod 32 + 32 - (c + 1) + k) mod 32 = (if k = c then h else (h + 32 - c + k) mod 32)"
    and "k < c \<Longrightarrow> (h + 32 - c + k) mod 32 \<noteq> h"
  using assms by (auto simp: mod_if)

lemma deliver_pending:
  assumes "ring_ok rt" "rt_count rt < SLOTS"
  shows "pending (deliver_timer_frame t rt) = pending rt @ [t] \<and> ring_ok (deliver_timer_frame t rt)"
proof -
  have "pending (deliver_timer_frame t rt) ! k = (pending rt @ [t]) ! k" if "k < Suc (rt_count rt)" for k
    using assms that ring_index [of "rt_head rt" "rt_count rt" k]
    by (auto simp: pending_def deliver_timer_frame_def ring_ok_def nth_append nth_list_update simp del: upt_Suc)
  then have "pending (deliver_timer_frame t rt) = pending rt @ [t]" by (intro nth_equalityI) auto
  then show ?thesis using assms by (simp add: ring_ok_def deliver_timer_frame_def)
qed

lemma take_pending:
  assumes "ring_ok rt" "rt_count rt \<noteq> 0"
  shows "pending rt = rt_frames rt ! ((rt_head rt + SLOTS - rt_count rt) mod SLOTS) # pending (rt\<lparr>rt_count := rt_count rt - 1\<rparr>)
    \<and> ring_ok (rt\<lparr>rt_count := rt_count rt - 1\<rparr>)"
proof -
  obtain c where c: "rt_count rt = Suc c" using assms(2) by (cases "rt_count rt") auto
  have "rt_head rt + SLOTS - Suc c + Suc k = rt_head rt + SLOTS - c + k" for k
    using assms(1) c unfolding ring_ok_def by linarith
  then have "pending rt = rt_frames rt ! ((rt_head rt + SLOTS - rt_count rt) mod SLOTS) # pending (rt\<lparr>rt_count := rt_count rt - 1\<rparr>)"
    unfolding pending_def c by (simp add: c upt_conv_Cons map_Suc_upt [symmetric] ac_simps del: upt_Suc)
  then show ?thesis using assms by (auto simp: ring_ok_def)
qed

section \<open>Firing one node\<close>

lemma rearm_later: "entry_ok e \<Longrightarrow> 0 \<le> w \<Longrightarrow> w < 86400000 \<Longrightarrow> now < rearm_deadline now w e"
  by (auto simp: rearm_deadline_def entry_ok_def next_time_of_day_delay_def ms_def Let_def)

text \<open>What becomes of the timer \<open>t\<close> when its node, already popped, fires.\<close>

definition fired :: "nat \<Rightarrow> 'p timers \<Rightarrow> 'p timers \<Rightarrow> bool" where
  "fired t rt rt' \<longleftrightarrow> rt_next_id rt' = rt_next_id rt \<and> ring_ok rt' \<and>
     (case map_of (rt_user rt) t of
        None \<Rightarrow> rt_user rt' = rt_user rt \<and> pending rt' = pending rt \<and> rt_deferred rt' = rt_deferred rt
      | Some e \<Rightarrow>
          (if rt_count rt < SLOTS then pending rt' = pending rt @ [t] \<and> rt_deferred rt' = rt_deferred rt
           else pending rt' = pending rt \<and> rt_deferred rt' = rt_deferred rt @ [t]) \<and>
          (if one_shot (ut_kind e)
           then rt_user rt' = (if rt_count rt < SLOTS then AList.delete t (rt_user rt) else rt_user rt)
           else \<exists>d. rt_user rt' = AList.update t (e\<lparr>ut_next := d\<rparr>) (rt_user rt)))"

lemma fired_heap [simp]: "fired t (rt\<lparr>rt_heap := h\<rparr>) rt' = fired t rt rt'"
  by (simp add: fired_def cong: option.case_cong)

definition heap_after :: "int \<Rightarrow> int \<Rightarrow> nat \<Rightarrow> 'p timers \<Rightarrow> node list" where
  "heap_after now w t rt =
     (case map_of (rt_user rt) t of
        None \<Rightarrow> rt_heap rt
      | Some e \<Rightarrow> if one_shot (ut_kind e) then rt_heap rt else heap_push (rearm_deadline now w e) t (rt_heap rt))"

lemma on_fire:
  assumes "ring_ok rt"
  shows "fired t rt (on_user_timer_fire now w t rt)"
    and "rt_heap (on_user_timer_fire now w t rt) = heap_after now w t rt"
  using assms deliver_pending [OF assms, of t]
  by (auto simp: fired_def heap_after_def on_user_timer_fire_def Let_def split: option.split)

lemma fire_internal:
  assumes "TOKEN_BASE \<le> token n" "\<And>x. x \<in> dom (map_of (rt_user rt)) \<Longrightarrow> x < TOKEN_BASE" "ring_ok rt"
  shows "fired (token n) rt (fire_node now wall n rt) \<and> rt_heap (fire_node now wall n rt) = rt_heap rt"
proof -
  have "map_of (rt_user rt) (token n) = None" using assms(1,2) by fastforce
  then show ?thesis using assms(3)
    by (auto simp: fire_node_def fired_def on_user_timer_fire_def split: option.split)
qed

lemma fire_effect:
  fixes rt :: "'p timers" and now :: int and wall :: "nat \<Rightarrow> int"
  assumes "timers_ok rt" "heap_pop (rt_heap rt) = (n, h)"
  defines "rt' \<equiv> fire_node now wall n (rt\<lparr>rt_heap := h\<rparr>)"
  shows "fired (token n) rt rt'" "rt_heap rt' = heap_after now (wall (token n)) (token n) (rt\<lparr>rt_heap := h\<rparr>)"
proof -
  let ?r = "rt\<lparr>rt_heap := h\<rparr>"
  have low: "x < TOKEN_BASE" if "x \<in> dom (map_of (rt_user rt))" for x
    using that assms(1) by (fastforce simp: timers_ok_def tokens_ok_def)
  have ring: "ring_ok ?r" using assms(1) by (simp add: timers_ok_def)
  have "fired (token n) ?r rt' \<and> rt_heap rt' = heap_after now (wall (token n)) (token n) ?r"
  proof (cases "TOKEN_BASE \<le> token n")
    case True
    then have "map_of (rt_user rt) (token n) = None" using low by fastforce
    then show ?thesis using fire_internal [of n ?r] True low ring by (auto simp: rt'_def heap_after_def)
  next
    case False
    then show ?thesis using on_fire [OF ring] by (simp add: rt'_def fire_node_def)
  qed
  then show "fired (token n) rt rt'" "rt_heap rt' = heap_after now (wall (token n)) (token n) ?r"
    by simp_all
qed

text \<open>The invariant survives, nothing is lost, and what is put back lies in the future.\<close>

lemma fire_ok:
  fixes rt :: "'p timers" and now :: int and wall :: "nat \<Rightarrow> int"
  assumes "timers_ok rt" "rt_heap rt \<noteq> []" "heap_pop (rt_heap rt) = (n, h)"
    "\<And>x. 0 \<le> wall x \<and> wall x < 86400000"
  defines "rt' \<equiv> fire_node now wall n (rt\<lparr>rt_heap := h\<rparr>)"
  shows "timers_ok rt'" and "no_lost rt \<Longrightarrow> no_lost rt'"
    and "size (filter_mset (\<lambda>m. deadline m \<le> now) (mset (rt_heap rt'))) \<le> size (filter_mset (\<lambda>m. deadline m \<le> now) (mset h))"
proof -
  let ?t = "token n"
  note E = fire_effect [OF assms(1,3), of now wall, folded rt'_def]
  have hp: "is_heap h" "mset (rt_heap rt) = add_mset n (mset h)"
    using pop_spec [OF _ assms(2,3)] assms(1) by (auto simp: timers_ok_def)
  let ?M = "image_mset token (mset h)"
  have M: "tokens rt = add_mset ?t ?M" using hp(2) by (simp add: tokens_def)
  have T: "tokens_ok (rt_user rt) (rt_next_id rt) (add_mset ?t ?M)" "distinct (keys (rt_user rt))" "ring_ok rt'"
    using assms(1) E(1) M by (auto simp: timers_ok_def fired_def)
  note P = tokens_ok_pop [OF T(1)]
  have D: "deferred_ok rt" using assms(1) by (simp add: timers_ok_def)
  have "timers_ok rt' \<and> (no_lost rt \<longrightarrow> no_lost rt') \<and>
    size (filter_mset (\<lambda>m. deadline m \<le> now) (mset (rt_heap rt'))) \<le> size (filter_mset (\<lambda>m. deadline m \<le> now) (mset h))"
  proof (cases "map_of (rt_user rt) ?t")
    case None
    then have F: "rt_heap rt' = h" "rt_user rt' = rt_user rt" "rt_next_id rt' = rt_next_id rt" "rt_deferred rt' = rt_deferred rt"
      using E by (auto simp: heap_after_def fired_def)
    then have "tokens rt' = ?M" by (simp add: tokens_def)
    moreover have "no_lost rt \<longrightarrow> no_lost rt'"
      using no_lost_step [of rt ?t rt'] F(2,4) M None calculation by auto
    moreover have "deferred_ok rt'"
      by (rule deferred_step [OF D, of _ ?t]) (use D F(2,3,4) M None calculation(1) in \<open>auto simp: deferred_ok_def\<close>)
    ultimately show ?thesis using T P hp(1) F by (simp add: timers_ok_def)
  next
    case (Some e)
    note U = tokens_ok_user [OF T(1) Some]
    show ?thesis
    proof (cases "one_shot (ut_kind e)")
      case True
      then have F: "rt_heap rt' = h" "rt_next_id rt' = rt_next_id rt"
        "rt_user rt' = rt_user rt \<and> rt_deferred rt' = rt_deferred rt @ [?t] \<or>
         rt_user rt' = AList.delete ?t (rt_user rt) \<and> rt_deferred rt' = rt_deferred rt"
        using E Some by (auto simp: heap_after_def fired_def split: if_splits)
      then have M': "tokens rt' = ?M" by (simp add: tokens_def)
      have "tokens_ok (rt_user rt') (rt_next_id rt') (tokens rt') \<and> distinct (keys (rt_user rt'))"
        using F(2,3) M' P T(2) tokens_ok_delete by auto
      moreover have "no_lost rt \<longrightarrow> no_lost rt'"
        using no_lost_step [of rt ?t rt'] F(3) M M' Some True by auto
      moreover have "deferred_ok rt'"
        by (rule deferred_step [OF D, of _ ?t]) (use F(2,3) M M' P U in \<open>auto split: if_splits\<close>)
      ultimately show ?thesis using F(1) T(3) hp(1) by (simp add: timers_ok_def)
    next
      case False
      then obtain d where F: "rt_heap rt' = heap_push (rearm_deadline now (wall ?t) e) ?t h" "rt_next_id rt' = rt_next_id rt"
        "rt_user rt' = AList.update ?t (e\<lparr>ut_next := d\<rparr>) (rt_user rt)"
        "set (rt_deferred rt) \<subseteq> set (rt_deferred rt')" and F': "set (rt_deferred rt') \<subseteq> insert ?t (set (rt_deferred rt))"
        using E Some by (auto simp: heap_after_def fired_def split: if_splits)
      have H: "is_heap (rt_heap rt')" "mset (rt_heap rt') = add_mset (rearm_deadline now (wall ?t) e, ?t) (mset h)"
        using push_spec [OF hp(1)] F(1) by auto
      have M': "tokens rt' = add_mset ?t ?M" using H(2) by (simp add: tokens_def)
      have e: "entry_ok (e\<lparr>ut_next := d\<rparr>)" using U by (simp add: entry_ok_def)
      have "tokens_ok (rt_user rt') (rt_next_id rt') (tokens rt')"
        unfolding F(2,3) M' using P U e by (intro tokens_ok_put) auto
      moreover have "no_lost rt \<longrightarrow> no_lost rt'"
        using no_lost_step [of rt ?t rt'] F(3,4) M M' by auto
      moreover have "deferred_ok rt'"
        by (rule deferred_step [OF D, of _ ?t]) (use F(2,3) F' M M' U False in \<open>auto split: if_splits\<close>)
      ultimately show ?thesis using F(3) H T(2,3) rearm_later [of e "wall ?t" now] U assms(4)
        by (simp add: timers_ok_def)
    qed
  qed
  then show "timers_ok rt'" "no_lost rt \<Longrightarrow> no_lost rt'"
    "size (filter_mset (\<lambda>m. deadline m \<le> now) (mset (rt_heap rt'))) \<le> size (filter_mset (\<lambda>m. deadline m \<le> now) (mset h))"
    by blast+
qed

section \<open>A tick\<close>

text \<open>
  A tick returns, and leaves only nodes of the future: each round pops one expired node and pushes
  none. What every firing keeps holds afterwards.
\<close>

lemma tick_total:
  assumes "timers_ok rt" "I rt" "\<And>x. 0 \<le> wall x \<and> wall x < 86400000"
    and keep: "\<And>r n h. timers_ok r \<Longrightarrow> I r \<Longrightarrow> rt_heap r \<noteq> [] \<Longrightarrow> heap_pop (rt_heap r) = (n, h) \<Longrightarrow>
      I (fire_node now wall n (r\<lparr>rt_heap := h\<rparr>))"
  shows "\<exists>rt'. tick_timers now wall rt = Some rt' \<and> timers_ok rt' \<and> I rt' \<and> (\<forall>m \<in> set (rt_heap rt'). now < deadline m)"
  using assms(1,2)
proof (induction "size (filter_mset (\<lambda>m. deadline m \<le> now) (mset (rt_heap rt)))" arbitrary: rt rule: less_induct)
  case less
  show ?case
  proof (cases "rt_heap rt = [] \<or> now < deadline (hd (rt_heap rt))")
    case True
    have "now < deadline m" if "m \<in> set (rt_heap rt)" for m
    proof -
      have ne: "rt_heap rt \<noteq> []" using that by auto
      obtain n h where p: "heap_pop (rt_heap rt) = (n, h)" by (cases "heap_pop (rt_heap rt)")
      have "is_heap (rt_heap rt)" using less.prems(1) by (simp add: timers_ok_def)
      from pop_spec [OF this ne p] have "deadline (hd (rt_heap rt)) \<le> deadline m" using that by blast
      then show ?thesis using True ne by simp
    qed
    moreover have "tick_timers now wall rt = Some rt" using True by (subst tick_timers.simps) simp
    ultimately show ?thesis using less.prems by blast
  next
    case False
    obtain n h where p: "heap_pop (rt_heap rt) = (n, h)" by (cases "heap_pop (rt_heap rt)")
    let ?r = "fire_node now wall n (rt\<lparr>rt_heap := h\<rparr>)"
    have ne: "rt_heap rt \<noteq> []" using False by simp
    have "is_heap (rt_heap rt)" using less.prems(1) by (simp add: timers_ok_def)
    from pop_spec [OF this ne p] have m: "mset (rt_heap rt) = add_mset n (mset h)" "deadline n \<le> now" using False by auto
    have "size (filter_mset (\<lambda>m. deadline m \<le> now) (mset (rt_heap ?r)))
        < size (filter_mset (\<lambda>m. deadline m \<le> now) (mset (rt_heap rt)))"
      using fire_ok(3) [OF less.prems(1) ne p assms(3)] m by (simp add: less_Suc_eq_le)
    from less.hyps [OF this fire_ok(1) [OF less.prems(1) ne p assms(3)] keep [OF less.prems ne p]]
    obtain rt' where "tick_timers now wall ?r = Some rt'" "timers_ok rt'" "I rt'" "\<forall>m \<in> set (rt_heap rt'). now < deadline m"
      by blast
    moreover have "tick_timers now wall rt = tick_timers now wall ?r"
      using False p by (subst tick_timers.simps) simp
    ultimately show ?thesis by auto
  qed
qed

section \<open>Taking a frame\<close>

definition dead :: "(nat \<times> user_timer) list \<Rightarrow> nat \<Rightarrow> bool" where
  "dead user t \<longleftrightarrow> map_of user t = None"

definition drop_shot :: "nat \<Rightarrow> (nat \<times> user_timer) list \<Rightarrow> (nat \<times> user_timer) list" where
  "drop_shot t user = (case map_of user t of None \<Rightarrow> user | Some e \<Rightarrow> if one_shot (ut_kind e) then AList.delete t user else user)"

lemma refill_busy: "rt_count rt \<noteq> 0 \<Longrightarrow> refill ids rt = rt\<lparr>rt_deferred := ids\<rparr>"
  by (cases ids) auto

lemma refill_empty:
  "rt_count rt = 0 \<Longrightarrow> refill ids rt =
     (case dropWhile (dead (rt_user rt)) ids of
        [] \<Rightarrow> rt\<lparr>rt_deferred := []\<rparr>
      | t # rest \<Rightarrow> (deliver_timer_frame t rt)\<lparr>rt_user := drop_shot t (rt_user rt), rt_deferred := rest\<rparr>)"
proof (induction ids)
  case (Cons t ids)
  then show ?case
    by (cases "map_of (rt_user rt) t") (auto simp: dead_def drop_shot_def Let_def refill_busy deliver_timer_frame_def)
qed simp

text \<open>
  The oldest frame of the ring; with an empty ring, the first waiting timer that is still
  registered.
\<close>

definition taken :: "'p timers \<Rightarrow> nat option \<Rightarrow> 'p timers \<Rightarrow> bool" where
  "taken rt r rt' \<longleftrightarrow> rt_heap rt' = rt_heap rt \<and> rt_next_id rt' = rt_next_id rt \<and> ring_ok rt' \<and>
     (case pending rt of
        x # xs \<Rightarrow> r = Some x \<and> pending rt' = xs \<and> rt_user rt' = rt_user rt \<and> rt_deferred rt' = rt_deferred rt
      | [] \<Rightarrow> pending rt' = [] \<and>
          (case dropWhile (dead (rt_user rt)) (rt_deferred rt) of
             [] \<Rightarrow> r = None \<and> rt_user rt' = rt_user rt \<and> rt_deferred rt' = []
           | t # rest \<Rightarrow> r = Some t \<and> rt_user rt' = drop_shot t (rt_user rt) \<and> rt_deferred rt' = rest))"

lemma take_taken:
  assumes "ring_ok rt"
  shows "taken rt (fst (pop_timer_frame rt)) (snd (pop_timer_frame rt))"
proof (cases "rt_count rt = 0")
  case False
  then have "pending rt \<noteq> []" by (metis length_pending list.size(3))
  then show ?thesis using take_pending [OF assms False] False assms
    by (auto simp: taken_def pop_timer_frame_def refill_busy Let_def)
next
  case True
  then have e: "pending rt = []" by (metis length_pending length_0_conv)
  show ?thesis
  proof (cases "dropWhile (dead (rt_user rt)) (rt_deferred rt)")
    case Nil
    have "refill (rt_deferred rt) rt = rt\<lparr>rt_deferred := []\<rparr>" unfolding refill_empty [OF True] Nil by simp
    then show ?thesis unfolding taken_def e Nil list.case using True e assms by (simp add: pop_timer_frame_def)
  next
    case (Cons t rest)
    let ?r = "(deliver_timer_frame t rt)\<lparr>rt_user := drop_shot t (rt_user rt), rt_deferred := rest\<rparr>"
    have d: "pending ?r = [t]" "ring_ok ?r" "rt_count ?r = 1" using deliver_pending [OF assms, of t] True e by auto
    have R: "refill (rt_deferred rt) rt = ?r" unfolding refill_empty [OF True] Cons by simp
    have "pop_timer_frame rt = (Some t, ?r\<lparr>rt_count := 0\<rparr>)"
      unfolding pop_timer_frame_def R Let_def using take_pending [OF d(2)] d by simp
    then show ?thesis unfolding taken_def e Cons list.case using take_pending [OF d(2)] d by simp
  qed
qed

section \<open>Scheduling and cancelling\<close>

text \<open>The operations reach the heap through the interface of a timer store.\<close>

lemma heap_add: "is_heap (rt_heap rt) \<Longrightarrow> is_heap (heap_push d t (rt_heap rt)) \<and>
    image_mset token (mset (heap_push d t (rt_heap rt))) = add_mset t (tokens rt)"
  using th.push_law [of "rt_heap rt" d t] th.push_tokens [of "rt_heap rt" d t] by (simp add: tokens_def)

lemma heap_drop:
  assumes "is_heap h" "\<forall>x. count (image_mset token (mset h)) x \<le> 1"
  shows "is_heap (snd (remove_token t h))"
    and "image_mset token (mset (snd (remove_token t h))) = image_mset token (mset h) - {#t#}"
    and "t \<notin># image_mset token (mset (snd (remove_token t h)))"
proof -
  obtain b h' where r: "remove_token t h = (b, h')" by (cases "remove_token t h")
  note L = th.remove_law [OF assms(1) r] th.remove_gone [OF assms(1) r assms(2)]
  show "is_heap (snd (remove_token t h))" using L r by simp
  show "t \<notin># image_mset token (mset (snd (remove_token t h)))" using L(2) r by simp
  show "image_mset token (mset (snd (remove_token t h))) = image_mset token (mset h) - {#t#}"
  proof (cases b)
    case True
    then obtain n where "token n = t" "mset h = add_mset n (mset h')" using L(1) by auto
    then show ?thesis using r by simp
  next
    case False
    then have "t \<notin># image_mset token (mset h)" "mset h' = mset h" using L(1) by auto
    then show ?thesis using r by (simp add: diff_single_trivial)
  qed
qed

definition added :: "timer_kind \<Rightarrow> 'p timers \<Rightarrow> nat option \<Rightarrow> 'p timers \<Rightarrow> bool" where
  "added k rt r rt' \<longleftrightarrow> timers_ok rt' \<and> pending rt' = pending rt \<and> rt_deferred rt' = rt_deferred rt \<and>
     (case r of
        None \<Rightarrow> rt' = rt
      | Some x \<Rightarrow> x = rt_next_id rt \<and> rt_next_id rt' = x + 1 \<and> tokens rt' = add_mset x (tokens rt) \<and>
          (\<exists>e. ut_kind e = k \<and> rt_user rt' = AList.update x e (rt_user rt)))"

lemma schedule_added:
  assumes "timers_ok rt" "entry_ok e" "schedule_user_timer e rt = (r, rt')"
  shows "added (ut_kind e) rt r rt'"
proof (cases "4611686018427387904 \<le> rt_next_id rt")
  case True
  then show ?thesis using assms by (simp add: schedule_user_timer_def added_def)
next
  case False
  let ?x = "rt_next_id rt"
  have rt': "r = Some ?x" "rt' = rt\<lparr>rt_next_id := ?x + 1, rt_heap := heap_push (ut_next e) ?x (rt_heap rt),
      rt_user := AList.update ?x e (rt_user rt)\<rparr>"
    using assms(3) False by (auto simp: schedule_user_timer_def Let_def)
  have ok: "is_heap (rt_heap rt)" "tokens_ok (rt_user rt) ?x (tokens rt)" using assms(1) by (auto simp: timers_ok_def)
  have T: "tokens rt' = add_mset ?x (tokens rt)" "is_heap (rt_heap rt')"
    using heap_add [OF ok(1)] rt'(2) by (auto simp: tokens_def)
  have "?x \<notin># tokens rt" using ok(2) False unfolding tokens_ok_def by (force simp: dom_def)
  moreover have "tokens_ok (rt_user rt) (?x + 1) (tokens rt)" using ok(2) False by (auto simp: tokens_ok_def less_Suc_eq)
  ultimately have "tokens_ok (rt_user rt') (?x + 1) (tokens rt')" using tokens_ok_put assms(2) T(1) rt'(2) by simp
  moreover have "deferred_ok rt'"
  proof (rule deferred_step [of rt _ ?x])
    show "deferred_ok rt" using assms(1) by (simp add: timers_ok_def)
    then show "?x < rt_next_id rt'" "?x \<notin># tokens rt'" if "?x \<in> set (rt_deferred rt')"
      using that rt'(2) by (auto simp: deferred_ok_def)
  qed (simp_all add: T, simp_all add: rt'(2))
  ultimately show ?thesis using assms(1) rt' T by (auto simp: added_def timers_ok_def)
qed

lemma added_none: "timers_ok rt \<Longrightarrow> added k rt None rt"
  by (simp add: added_def)

lemma api_added:
  assumes "timers_ok rt"
  shows "dz_schedule_after now d rt = (r, rt') \<Longrightarrow> added After rt r rt'"
    and "dz_schedule_every now d rt = (r, rt') \<Longrightarrow> added Every rt r rt'"
    and "dz_schedule_at now w d rt = (r, rt') \<Longrightarrow> added At_Once rt r rt'"
    and "dz_schedule_daily now w d rt = (r, rt') \<Longrightarrow> added Daily rt r rt'"
proof -
  note D = schedule_relative_def schedule_time_of_day_def valid_delay_ms_def valid_time_of_day_ms_def
  note S = schedule_added [OF assms, of "\<lparr>ut_kind = _, ut_tod = _, ut_interval = _, ut_next = _\<rparr>"]
  show "dz_schedule_after now d rt = (r, rt') \<Longrightarrow> added After rt r rt'"
    using S added_none [OF assms] by (force simp: dz_schedule_after_def D entry_ok_def split: if_splits)
  show "dz_schedule_every now d rt = (r, rt') \<Longrightarrow> added Every rt r rt'"
    using S added_none [OF assms] by (force simp: dz_schedule_every_def D entry_ok_def split: if_splits)
  show "dz_schedule_at now w d rt = (r, rt') \<Longrightarrow> added At_Once rt r rt'"
    using S added_none [OF assms] by (force simp: dz_schedule_at_def D entry_ok_def split: if_splits)
  show "dz_schedule_daily now w d rt = (r, rt') \<Longrightarrow> added Daily rt r rt'"
    using S added_none [OF assms] by (force simp: dz_schedule_daily_def D entry_ok_def split: if_splits)
qed

lemma added_no_lost: "added k rt r rt' \<Longrightarrow> no_lost rt \<Longrightarrow> no_lost rt'"
proof (cases r)
  case (Some x)
  assume a: "added k rt r rt'" "no_lost rt"
  then obtain e where F: "tokens rt' = add_mset x (tokens rt)" "rt_deferred rt' = rt_deferred rt"
      "rt_user rt' = AList.update x e (rt_user rt)"
    using Some unfolding added_def by auto
  show ?thesis by (rule no_lost_step [OF a(2), of x]) (simp_all add: F)
qed (simp add: added_def)

lemma cancel_ok:
  assumes "timers_ok rt" "cancel_user_timer x rt = (b, rt')"
  shows "timers_ok rt' \<and> pending rt' = pending rt \<and> rt_deferred rt' = rt_deferred rt \<and> rt_next_id rt' = rt_next_id rt \<and>
    map_of (rt_user rt') = (map_of (rt_user rt))(x := None) \<and> (b \<longleftrightarrow> x \<in> dom (map_of (rt_user rt))) \<and>
    (b \<longrightarrow> tokens rt' = tokens rt - {#x#} \<and> x \<notin># tokens rt') \<and> (\<not> b \<longrightarrow> rt' = rt)"
proof (cases "map_of (rt_user rt) x")
  case None
  then have "rt' = rt" "\<not> b" using assms(2) by (auto simp: cancel_user_timer_def)
  then show ?thesis using assms(1) None by auto
next
  case (Some e)
  then have rt': "b" "rt' = rt\<lparr>rt_heap := snd (remove_token x (rt_heap rt)), rt_user := AList.delete x (rt_user rt)\<rparr>"
    using assms(2) by (auto simp: cancel_user_timer_def)
  have ok: "is_heap (rt_heap rt)" "tokens_ok (rt_user rt) (rt_next_id rt) (tokens rt)" using assms(1) by (auto simp: timers_ok_def)
  note D = heap_drop [OF ok(1), of x]
  have c: "\<forall>y. count (image_mset token (mset (rt_heap rt))) y \<le> 1" using ok(2) by (simp add: tokens_ok_def tokens_def)
  have T: "tokens rt' = tokens rt - {#x#}" "x \<notin># tokens rt'" "is_heap (rt_heap rt')" using D [OF c] rt' by (auto simp: tokens_def)
  have "tokens_ok (rt_user rt) (rt_next_id rt) (tokens rt')" using tokens_ok_mono [OF ok(2)] T(1) by simp
  moreover have "deferred_ok rt'"
  proof (rule deferred_step [of rt _ x])
    show D: "deferred_ok rt" using assms(1) by (simp add: timers_ok_def)
    show "x < rt_next_id rt'" if "x \<in> set (rt_deferred rt')"
      using that rt'(2) D by (auto simp: deferred_ok_def)
    show "y \<in># tokens rt" if "y \<in># tokens rt'" for y using that T(1) by (auto dest: in_diffD)
  qed (simp_all add: T(2), simp_all add: rt'(2) split: if_splits)
  ultimately show ?thesis using tokens_ok_delete T assms(1) rt' Some by (auto simp: timers_ok_def)
qed

lemma cancel_no_lost: "timers_ok rt \<Longrightarrow> cancel_user_timer x rt = (b, rt') \<Longrightarrow> no_lost rt \<Longrightarrow> no_lost rt'"
proof (cases b)
  assume a: "timers_ok rt" "cancel_user_timer x rt = (b, rt')" "no_lost rt" and b
  then have F: "tokens rt' = tokens rt - {#x#}" "rt_deferred rt' = rt_deferred rt"
      "map_of (rt_user rt') = (map_of (rt_user rt))(x := None)"
    using cancel_ok [OF a(1,2)] by auto
  show ?thesis by (rule no_lost_step [OF a(3), of x]) (simp_all add: F in_diff_count)
qed (use cancel_ok in blast)

lemma ring_reset: "ring_ok rt \<Longrightarrow> pending (rt\<lparr>rt_head := 0, rt_count := 0\<rparr>) = [] \<and> ring_ok (rt\<lparr>rt_head := 0, rt_count := 0\<rparr>)"
  by (simp add: pending_def ring_ok_def)

lemma cancel_all_ok:
  assumes "timers_ok rt"
  shows "timers_ok (cancel_all_user_timers rt)" "pending (cancel_all_user_timers rt) = []"
    "tokens (cancel_all_user_timers rt) = filter_mset (\<lambda>t. TOKEN_BASE \<le> t) (tokens rt)"
proof -
  let ?rt = "cancel_all_user_timers rt"
  have ok: "is_heap (rt_heap rt)" "tokens_ok (rt_user rt) (rt_next_id rt) (tokens rt)" using assms by (auto simp: timers_ok_def)
  note R = remove_below_spec [OF ok(1), of TOKEN_BASE]
  show T: "tokens ?rt = filter_mset (\<lambda>t. TOKEN_BASE \<le> t) (tokens rt)"
    using R by (simp add: tokens_def cancel_all_user_timers_def filter_mset_image_mset)
  have "tokens_ok [] (rt_next_id rt) (tokens ?rt)" using ok(2) unfolding T by (auto simp: tokens_ok_def)
  then show "timers_ok ?rt" using R assms
    by (auto simp: timers_ok_def cancel_all_user_timers_def tokens_def ring_ok_def deferred_ok_def)
  show "pending ?rt = []" by (simp add: pending_def cancel_all_user_timers_def)
qed

lemma preload_ok:
  fixes rt :: "'p timers" and now d :: int
  assumes "timers_ok rt" "TOKEN_BASE \<le> t"
  defines "rt' \<equiv> schedule_internal_preload now t d rt"
  shows "timers_ok rt' \<and> pending rt' = pending rt \<and> (no_lost rt \<longrightarrow> no_lost rt')"
proof -
  let ?h = "snd (remove_token t (rt_heap rt))"
  have ok: "is_heap (rt_heap rt)" "tokens_ok (rt_user rt) (rt_next_id rt) (tokens rt)" using assms(1) by (auto simp: timers_ok_def)
  have c: "\<forall>y. count (image_mset token (mset (rt_heap rt))) y \<le> 1" using ok(2) by (simp add: tokens_ok_def tokens_def)
  note D = heap_drop [OF ok(1) c, of t]
  have P: "is_heap (heap_push (now + ms d) t ?h)" "image_mset token (mset (heap_push (now + ms d) t ?h)) = add_mset t (tokens rt - {#t#})"
    using push_spec [OF D(1), of "now + ms d" t] D(2) by (auto simp: tokens_def)
  then have T: "tokens rt' = add_mset t (tokens rt - {#t#})" "is_heap (rt_heap rt')"
    by (auto simp: rt'_def schedule_internal_preload_def tokens_def)
  have "t \<notin># tokens rt - {#t#}" using D(2,3) by (simp add: tokens_def)
  then have "tokens_ok (rt_user rt) (rt_next_id rt) (tokens rt')"
    using ok(2) assms(2) unfolding T tokens_ok_def by (auto simp: count_eq_zero_iff dest: in_diffD)
  moreover have "no_lost rt \<longrightarrow> no_lost rt'"
    using no_lost_step [of rt t rt'] T(1) by (auto simp: rt'_def schedule_internal_preload_def in_diff_count)
  moreover have "map_of (rt_user rt) t = None" using tokens_ok_user [OF ok(2), of t] assms(2) by (cases "map_of (rt_user rt) t") auto
  then have "deferred_ok rt'"
    using assms(1) T(1) by (auto simp: timers_ok_def rt'_def schedule_internal_preload_def deferred_ok_def dest: in_diffD)
  ultimately show ?thesis using assms(1) T(2) by (simp add: timers_ok_def rt'_def schedule_internal_preload_def)
qed

lemma cleanup_ok:
  assumes "timers_ok rt"
  shows "timers_ok (internal_cleanup_on_shutdown rt) \<and> pending (internal_cleanup_on_shutdown rt) = [] \<and>
    tokens (internal_cleanup_on_shutdown rt) \<subseteq># tokens rt"
proof -
  let ?h1 = "snd (remove_token TOKEN_EVENT (rt_heap rt))" and ?rt = "internal_cleanup_on_shutdown rt"
  have ok: "is_heap (rt_heap rt)" "tokens_ok (rt_user rt) (rt_next_id rt) (tokens rt)" using assms by (auto simp: timers_ok_def)
  have c: "\<forall>y. count (image_mset token (mset (rt_heap rt))) y \<le> 1" using ok(2) by (simp add: tokens_ok_def tokens_def)
  note D = heap_drop [OF ok(1) c, of TOKEN_EVENT]
  have c1: "\<forall>y. count (image_mset token (mset ?h1)) y \<le> 1"
  proof
    fix y
    have "count (image_mset token (mset ?h1)) y \<le> count (image_mset token (mset (rt_heap rt))) y" unfolding D(2) by simp
    then show "count (image_mset token (mset ?h1)) y \<le> 1" using c le_trans by blast
  qed
  note D1 = heap_drop [OF D(1) c1, of TOKEN_MD]
  have "tokens ?rt \<subseteq># tokens rt" "is_heap (rt_heap ?rt)"
    unfolding tokens_def internal_cleanup_on_shutdown_def using D1(1,2) D(2)
    by (auto intro: subset_mset.order_trans [OF diff_subset_eq_self diff_subset_eq_self])
  then show ?thesis using tokens_ok_mono [OF ok(2)] assms
    by (auto simp: timers_ok_def internal_cleanup_on_shutdown_def ring_ok_def pending_def deferred_ok_def)
qed

section \<open>A session\<close>

datatype timer_event = Ticked | Taken nat | No_Frame | Scheduled timer_kind "nat option" | Cancelled nat bool
  | Cancelled_All | Preload | Shutdown

definition take_event :: "nat option \<Rightarrow> timer_event" where
  "take_event r = (case r of None \<Rightarrow> No_Frame | Some x \<Rightarrow> Taken x)"

definition wall_ok :: "int \<Rightarrow> bool" where
  "wall_ok w \<longleftrightarrow> 0 \<le> w \<and> w < 86400000"

text \<open>One call, with what it did. The clocks are free: nothing rests on how they move.\<close>

inductive timer_step :: "'p timers \<Rightarrow> timer_event \<Rightarrow> 'p timers \<Rightarrow> bool" where
  step_tick: "(\<And>x. wall_ok (wall x)) \<Longrightarrow> tick_timers now wall rt = Some rt' \<Longrightarrow> timer_step rt Ticked rt'"
| step_take: "pop_timer_frame rt = (r, rt') \<Longrightarrow> timer_step rt (take_event r) rt'"
| step_after: "dz_schedule_after now d rt = (r, rt') \<Longrightarrow> timer_step rt (Scheduled After r) rt'"
| step_every: "dz_schedule_every now d rt = (r, rt') \<Longrightarrow> timer_step rt (Scheduled Every r) rt'"
| step_at: "wall_ok w \<Longrightarrow> dz_schedule_at now w d rt = (r, rt') \<Longrightarrow> timer_step rt (Scheduled At_Once r) rt'"
| step_daily: "wall_ok w \<Longrightarrow> dz_schedule_daily now w d rt = (r, rt') \<Longrightarrow> timer_step rt (Scheduled Daily r) rt'"
| step_cancel: "cancel_user_timer x rt = (b, rt') \<Longrightarrow> timer_step rt (Cancelled x b) rt'"
| step_cancel_all: "timer_step rt Cancelled_All (cancel_all_user_timers rt)"
| step_event: "timer_step rt Preload (on_preload_event now p d rt)"
| step_md: "timer_step rt Preload (on_preload_md now p d rt)"
| step_shutdown: "timer_step rt Shutdown (internal_cleanup_on_shutdown rt)"

inductive timer_run :: "timer_event list \<Rightarrow> 'p timers \<Rightarrow> bool" where
  run_new: "timer_run [] new_timers"
| run_step: "timer_run evs rt \<Longrightarrow> timer_step rt e rt' \<Longrightarrow> timer_run (evs @ [e]) rt'"

inductive_cases timer_runE: "timer_run evs rt"

lemma new_ok: "timers_ok new_timers \<and> no_lost new_timers \<and> pending new_timers = []"
  by (simp add: timers_ok_def new_timers_def ring_ok_def tokens_ok_def tokens_def no_lost_def pending_def deferred_ok_def)

lemma params_ok [simp]: "timers_ok (rt\<lparr>rt_event := a\<rparr>) = timers_ok rt" "timers_ok (rt\<lparr>rt_md := a\<rparr>) = timers_ok rt"
  "no_lost (rt\<lparr>rt_event := a\<rparr>) = no_lost rt" "no_lost (rt\<lparr>rt_md := a\<rparr>) = no_lost rt"
  by (simp_all add: timers_ok_def no_lost_def tokens_def deferred_ok_def)

lemma split_dropWhile: "dropWhile P xs = y # ys \<Longrightarrow> set xs = set (takeWhile P xs) \<union> insert y (set ys) \<and>
    (\<forall>x \<in> set (takeWhile P xs). P x) \<and> \<not> P y"
  by (metis takeWhile_dropWhile_id set_append list.set(2) set_takeWhileD hd_dropWhile list.sel(1) list.distinct(1))

lemma taken_ok:
  assumes "timers_ok rt" "taken rt r rt'"
  shows "timers_ok rt' \<and> (no_lost rt \<longrightarrow> no_lost rt')"
proof (cases "pending rt")
  case (Cons x xs)
  then show ?thesis using assms by (auto simp: taken_def timers_ok_def tokens_def no_lost_def deferred_ok_def)
next
  case Nil
  have T: "tokens rt' = tokens rt" using assms(2) by (simp add: taken_def tokens_def)
  show ?thesis
  proof (cases "dropWhile (dead (rt_user rt)) (rt_deferred rt)")
    case n: Nil
    have F: "rt_user rt' = rt_user rt" "rt_heap rt' = rt_heap rt" "rt_next_id rt' = rt_next_id rt" "ring_ok rt'" "rt_deferred rt' = []"
      using assms(2) unfolding taken_def Nil n list.case by simp_all
    have "dead (rt_user rt) x" if "x \<in> set (rt_deferred rt)" for x using n that unfolding dropWhile_eq_Nil_conv by blast
    then have "no_lost rt \<longrightarrow> no_lost rt'" using F T unfolding no_lost_def dead_def by fastforce
    then show ?thesis using assms(1) F T by (simp add: timers_ok_def deferred_ok_def)
  next
    case (Cons t rest)
    have F: "rt_user rt' = drop_shot t (rt_user rt)" "rt_deferred rt' = rest" "rt_heap rt' = rt_heap rt"
        "rt_next_id rt' = rt_next_id rt" "ring_ok rt'"
      using assms(2) unfolding taken_def Nil Cons list.case by simp_all
    note W = split_dropWhile [OF Cons]
    then obtain e where e: "map_of (rt_user rt) t = Some e" by (auto simp: dead_def)
    have R: "set rest \<subseteq> set (rt_deferred rt)" "\<And>x. x \<in> set (rt_deferred rt) \<Longrightarrow> x \<noteq> t \<Longrightarrow> \<not> dead (rt_user rt) x \<Longrightarrow> x \<in> set rest"
      and R0: "t \<in> set (rt_deferred rt)"
      using W by auto
    show ?thesis
    proof (cases "one_shot (ut_kind e)")
      case True
      have nt: "t \<notin># tokens rt" using assms(1) True e R0 by (auto simp: timers_ok_def deferred_ok_def)
      have "tokens_ok (rt_user rt') (rt_next_id rt') (tokens rt')"
        using assms(1) F e True T nt tokens_ok_delete by (auto simp: timers_ok_def drop_shot_def)
      moreover have "no_lost rt \<longrightarrow> no_lost rt'"
        using F(1,2) R T e True by (auto simp: no_lost_def dead_def drop_shot_def)
      moreover have "deferred_ok rt'"
        by (rule deferred_step [of rt _ t]) (use assms(1) F R(1) R0 T e True nt in \<open>auto simp: timers_ok_def drop_shot_def deferred_ok_def split: if_splits\<close>)
      ultimately show ?thesis using assms(1) F e True by (auto simp: timers_ok_def drop_shot_def)
    next
      case False
      then have u: "rt_user rt' = rt_user rt" using F(1) e by (simp add: drop_shot_def)
      have "no_lost rt \<longrightarrow> no_lost rt'"
        using F(2) R T u e False unfolding no_lost_def dead_def by (metis option.inject option.distinct(1))
      moreover have "deferred_ok rt'"
        using assms(1) F R T u by (auto simp: timers_ok_def deferred_ok_def)
      ultimately show ?thesis using assms(1) F u T by (simp add: timers_ok_def)
    qed
  qed
qed

lemma step_ok:
  assumes "timer_step rt e rt'" "timers_ok rt"
  shows "timers_ok rt' \<and> (e \<noteq> Shutdown \<longrightarrow> no_lost rt \<longrightarrow> no_lost rt')"
  using assms
proof cases
  case (step_tick wall now)
  have w: "\<And>x. 0 \<le> wall x \<and> wall x < 86400000" using step_tick(2) by (simp add: wall_ok_def)
  have "\<exists>r. tick_timers now wall rt = Some r \<and> timers_ok r \<and> (no_lost rt \<longrightarrow> no_lost r) \<and> (\<forall>m \<in> set (rt_heap r). now < deadline m)"
  proof (rule tick_total [where I = "\<lambda>r. no_lost rt \<longrightarrow> no_lost r", OF assms(2) _ w])
    show "no_lost rt \<longrightarrow> no_lost (fire_node now wall n (r\<lparr>rt_heap := h\<rparr>))"
      if "timers_ok r" "no_lost rt \<longrightarrow> no_lost r" "rt_heap r \<noteq> []" "heap_pop (rt_heap r) = (n, h)" for r n h
      using fire_ok(2) [where wall = wall and now = now, OF that(1,3,4) w] that(2) by blast
  qed simp
  then show ?thesis using step_tick by auto
next
  case (step_take r)
  have "ring_ok rt" using assms(2) by (simp add: timers_ok_def)
  then have "taken rt r rt'" using take_taken [of rt] step_take by simp
  then show ?thesis using taken_ok [OF assms(2)] by blast
next
  case (step_after now d r)
  then have "added After rt r rt'" using api_added [OF assms(2)] by blast
  then show ?thesis using added_no_lost unfolding added_def by blast
next
  case (step_every now d r)
  then have "added Every rt r rt'" using api_added [OF assms(2)] by blast
  then show ?thesis using added_no_lost unfolding added_def by blast
next
  case (step_at w now d r)
  then have "added At_Once rt r rt'" using api_added [OF assms(2)] by blast
  then show ?thesis using added_no_lost unfolding added_def by blast
next
  case (step_daily w now d r)
  then have "added Daily rt r rt'" using api_added [OF assms(2)] by blast
  then show ?thesis using added_no_lost unfolding added_def by blast
next
  case (step_cancel x b)
  then show ?thesis using cancel_ok cancel_no_lost assms(2) by blast
next
  case step_cancel_all
  then show ?thesis using cancel_all_ok [OF assms(2)] by (simp add: no_lost_def cancel_all_user_timers_def)
next
  case (step_event now p d)
  then show ?thesis using preload_ok [of "rt\<lparr>rt_event := Some p\<rparr>" TOKEN_EVENT now d] assms(2) by (simp add: on_preload_event_def)
next
  case (step_md now p d)
  then show ?thesis using preload_ok [of "rt\<lparr>rt_md := Some p\<rparr>" TOKEN_MD now d] assms(2) by (simp add: on_preload_md_def)
next
  case step_shutdown
  then show ?thesis using cleanup_ok [OF assms(2)] by simp
qed

lemma run_ok: "timer_run evs rt \<Longrightarrow> timers_ok rt \<and> (Shutdown \<notin> set evs \<longrightarrow> no_lost rt)"
  by (induction rule: timer_run.induct) (auto simp: new_ok dest: step_ok)

section \<open>What the strategy is given\<close>

text \<open>The life of one-shot timers: \<open>x\<close> is registered and has not been seen, or it is spent.\<close>

definition once :: "nat \<Rightarrow> timer_event list \<Rightarrow> 'p timers \<Rightarrow> bool" where
  "once x evs rt \<longleftrightarrow>
     (case map_of (rt_user rt) x of
        Some e \<Rightarrow> one_shot (ut_kind e) \<and> count_list evs (Taken x) + count_list (pending rt) x = 0 \<and> Cancelled x True \<notin> set evs
      | None \<Rightarrow> count_list evs (Taken x) + count_list (pending rt) x \<le> 1 \<and>
          (Cancelled x True \<in> set evs \<longrightarrow> count_list evs (Taken x) + count_list (pending rt) x = 0))"

definition unseen :: "timer_event list \<Rightarrow> 'p timers \<Rightarrow> bool" where
  "unseen evs rt \<longleftrightarrow> (\<forall>x \<ge> rt_next_id rt. x \<notin> set (pending rt) \<and> Taken x \<notin> set evs \<and> Cancelled x True \<notin> set evs \<and>
     (\<forall>k. Scheduled k (Some x) \<notin> set evs))"

definition seen_ok :: "timer_event list \<Rightarrow> 'p timers \<Rightarrow> bool" where
  "seen_ok evs rt \<longleftrightarrow> unseen evs rt \<and> (\<forall>x k. Scheduled k (Some x) \<in> set evs \<longrightarrow> one_shot k \<longrightarrow> once x evs rt)"

lemma seen_same: "seen_ok evs rt \<Longrightarrow> pending rt' = pending rt \<Longrightarrow> rt_user rt' = rt_user rt \<Longrightarrow>
    rt_next_id rt' = rt_next_id rt \<Longrightarrow> seen_ok evs rt'"
  by (simp add: seen_ok_def unseen_def once_def cong: option.case_cong)

definition silent :: "timer_event \<Rightarrow> bool" where
  "silent e \<longleftrightarrow> (case e of Taken x \<Rightarrow> False | Scheduled k r \<Rightarrow> r = None | Cancelled x b \<Rightarrow> \<not> b | _ \<Rightarrow> True)"

lemma silent_simps [simp]: "silent Ticked" "silent No_Frame" "silent Preload" "silent Cancelled_All" "silent Shutdown"
  "silent (Scheduled k None)" "silent (Cancelled x False)"
  by (simp_all add: silent_def)

lemma seen_event: "silent e \<Longrightarrow> seen_ok (evs @ [e]) rt = seen_ok evs rt"
  by (cases e) (auto simp: silent_def seen_ok_def unseen_def once_def cong: option.case_cong)

text \<open>A change that only delivers \<open>t\<close>, or nothing.\<close>

lemma seen_fired:
  assumes "timers_ok rt" "seen_ok evs rt" "fired t rt rt'"
  shows "seen_ok evs rt'"
proof (cases "map_of (rt_user rt) t")
  case None
  then have "rt_user rt' = rt_user rt" "pending rt' = pending rt" "rt_next_id rt' = rt_next_id rt"
    using assms(3) by (auto simp: fired_def)
  then show ?thesis using seen_same [OF assms(2)] by blast
next
  case (Some e)
  have nid: "rt_next_id rt' = rt_next_id rt" using assms(3) by (simp add: fired_def)
  have t: "t < rt_next_id rt" using assms(1) Some tokens_ok_user unfolding timers_ok_def by blast
  have P: "pending rt' = pending rt \<or> pending rt' = pending rt @ [t]"
    using assms(3) Some by (auto simp: fired_def split: if_splits)
  have u: "unseen evs rt'" using assms(2) P t nid unfolding seen_ok_def unseen_def by (auto simp: leD)
  have "once x evs rt'" if x: "once x evs rt" for x
  proof (cases "x = t")
    case False
    then have "map_of (rt_user rt') x = map_of (rt_user rt) x" using assms(3) Some by (auto simp: fired_def split: if_splits)
    then show ?thesis using x P False by (auto simp: once_def cong: option.case_cong)
  next
    case True
    then have "one_shot (ut_kind e)" using x Some by (simp add: once_def)
    then show ?thesis using x Some True assms(3)
      by (auto simp: once_def fired_def split: if_splits)
  qed
  then show ?thesis using u assms(2) unfolding seen_ok_def by blast
qed

lemma seen_taken:
  assumes "timers_ok rt" "seen_ok evs rt" "taken rt r rt'"
  shows "seen_ok (evs @ [take_event r]) rt'"
proof (cases "pending rt")
  case (Cons t ts)
  have F: "r = Some t" "pending rt' = ts" "rt_user rt' = rt_user rt" "rt_next_id rt' = rt_next_id rt"
    using assms(3) Cons by (auto simp: taken_def)
  have u: "unseen (evs @ [Taken t]) rt'" using assms(2) Cons F unfolding seen_ok_def unseen_def by auto
  have "once x (evs @ [Taken t]) rt'" if "once x evs rt" for x
    using that Cons F by (auto simp: once_def split: option.splits if_splits)
  then show ?thesis using u assms(2) F unfolding seen_ok_def take_event_def by auto
next
  case Nil
  have nid: "rt_next_id rt' = rt_next_id rt" using assms(3) by (simp add: taken_def)
  show ?thesis
  proof (cases "dropWhile (dead (rt_user rt)) (rt_deferred rt)")
    case n: Nil
    have F: "r = None" "pending rt' = pending rt" "rt_user rt' = rt_user rt"
      using assms(3) unfolding taken_def Nil n list.case by simp_all
    then show ?thesis using seen_same [OF assms(2)] nid by (simp add: take_event_def seen_event)
  next
    case (Cons t rest)
    have F: "r = Some t" "pending rt' = []" "rt_user rt' = drop_shot t (rt_user rt)"
      using assms(3) unfolding taken_def Nil Cons list.case by simp_all
    obtain e where e: "map_of (rt_user rt) t = Some e" using split_dropWhile [OF Cons] by (auto simp: dead_def)
    have t: "t < rt_next_id rt" using assms(1) e tokens_ok_user unfolding timers_ok_def by blast
    have u: "unseen (evs @ [Taken t]) rt'" using assms(2) F(2) t nid unfolding seen_ok_def unseen_def by (auto simp: leD)
    have "once x (evs @ [Taken t]) rt'" if "once x evs rt" for x
      using that Nil F(2,3) e by (cases "x = t") (auto simp: once_def drop_shot_def split: option.splits if_splits)
    then show ?thesis using u assms(2) F unfolding seen_ok_def take_event_def by auto
  qed
qed

lemma seen_added:
  assumes "timers_ok rt" "seen_ok evs rt" "added k rt r rt'"
  shows "seen_ok (evs @ [Scheduled k r]) rt'"
proof (cases r)
  case None
  then show ?thesis using assms by (simp add: added_def seen_event)
next
  case (Some n)
  then obtain e where F: "n = rt_next_id rt" "rt_next_id rt' = Suc n" "pending rt' = pending rt" "ut_kind e = k"
      "rt_user rt' = AList.update n e (rt_user rt)"
    using assms(3) by (auto simp: added_def)
  let ?evs = "evs @ [Scheduled k r]"
  have new: "n \<notin> set (pending rt)" "Taken n \<notin> set evs" "Cancelled n True \<notin> set evs" "\<And>j. Scheduled j (Some n) \<notin> set evs"
    using assms(2) F(1) unfolding seen_ok_def unseen_def by auto
  have u: "unseen ?evs rt'" using assms(2) F Some unfolding seen_ok_def unseen_def by auto
  have "once n ?evs rt'" if "one_shot k" using new F(3,4,5) that by (simp add: once_def count_notin)
  moreover have "once x ?evs rt'" if "once x evs rt" "x \<noteq> n" for x using that F(3,5) by (simp add: once_def cong: option.case_cong)
  ultimately show ?thesis using u assms(2) Some new(4) unfolding seen_ok_def by auto
qed

lemma seen_cancel:
  assumes "timers_ok rt" "seen_ok evs rt" "cancel_user_timer x rt = (b, rt')"
  shows "seen_ok (evs @ [Cancelled x b]) rt'"
proof (cases b)
  case False
  then show ?thesis using cancel_ok [OF assms(1,3)] assms(2) by (simp add: seen_event)
next
  case True
  then obtain e where F: "map_of (rt_user rt) x = Some e" "map_of (rt_user rt') = (map_of (rt_user rt))(x := None)"
      "pending rt' = pending rt" "rt_next_id rt' = rt_next_id rt"
    using cancel_ok [OF assms(1,3)] by auto
  have x: "x < rt_next_id rt" using assms(1) F(1) tokens_ok_user unfolding timers_ok_def by blast
  have u: "unseen (evs @ [Cancelled x b]) rt'" using assms(2) x F(3,4) unfolding seen_ok_def unseen_def by (auto simp: leD)
  have "once y (evs @ [Cancelled x b]) rt'" if "once y evs rt" for y
    using that F True by (cases "y = x") (auto simp: once_def cong: option.case_cong)
  then show ?thesis using u assms(2) unfolding seen_ok_def by auto
qed

lemma seen_clear:
  assumes "seen_ok evs rt" "pending rt' = []" "rt_next_id rt' = rt_next_id rt" "rt_user rt' = rt_user rt \<or> rt_user rt' = []"
    "e = Cancelled_All \<or> e = Shutdown"
  shows "seen_ok (evs @ [e]) rt'"
proof -
  have "unseen (evs @ [e]) rt'" using assms unfolding seen_ok_def unseen_def by auto
  moreover have "once x (evs @ [e]) rt'" if "once x evs rt" for x
    using that assms(2,4,5) by (auto simp: once_def split: option.splits)
  ultimately show ?thesis using assms(1,5) unfolding seen_ok_def by auto
qed

lemma seen_step:
  assumes "timer_step rt e rt'" "timers_ok rt" "seen_ok evs rt"
  shows "seen_ok (evs @ [e]) rt'"
  using assms(1)
proof cases
  case (step_tick wall now)
  have w: "\<And>x. 0 \<le> wall x \<and> wall x < 86400000" using step_tick(2) by (simp add: wall_ok_def)
  have "\<exists>r. tick_timers now wall rt = Some r \<and> timers_ok r \<and> seen_ok evs r \<and> (\<forall>m \<in> set (rt_heap r). now < deadline m)"
  proof (rule tick_total [where wall = wall and I = "seen_ok evs", OF assms(2,3) w])
    show "seen_ok evs (fire_node now wall n (r\<lparr>rt_heap := h\<rparr>))"
      if "timers_ok r" "seen_ok evs r" "heap_pop (rt_heap r) = (n, h)" for r n h
      using seen_fired [OF that(1,2) fire_effect(1) [OF that(1,3)]] .
  qed
  then show ?thesis using step_tick by (simp add: seen_event)
next
  case (step_take r)
  have "ring_ok rt" using assms(2) by (simp add: timers_ok_def)
  then have "taken rt r rt'" using take_taken [of rt] step_take by simp
  then show ?thesis using seen_taken [OF assms(2,3)] step_take by simp
next
  case (step_after now d r)
  then show ?thesis using seen_added [OF assms(2,3)] api_added(1) [OF assms(2)] by blast
next
  case (step_every now d r)
  then show ?thesis using seen_added [OF assms(2,3)] api_added(2) [OF assms(2)] by blast
next
  case (step_at w now d r)
  then show ?thesis using seen_added [OF assms(2,3)] api_added(3) [OF assms(2)] by blast
next
  case (step_daily w now d r)
  then show ?thesis using seen_added [OF assms(2,3)] api_added(4) [OF assms(2)] by blast
next
  case (step_cancel x b)
  then show ?thesis using seen_cancel [OF assms(2,3)] by blast
next
  case step_cancel_all
  have "rt_next_id rt' = rt_next_id rt" "rt_user rt' = []" using step_cancel_all by (simp_all add: cancel_all_user_timers_def)
  then show ?thesis using seen_clear [OF assms(3), of rt' e] cancel_all_ok(2) [OF assms(2)] step_cancel_all by blast
next
  case (step_event now p d)
  have "rt_user rt' = rt_user rt" "rt_next_id rt' = rt_next_id rt" "pending rt' = pending rt" "e = Preload"
    using step_event by (simp_all add: on_preload_event_def schedule_internal_preload_def)
  then show ?thesis using seen_same [OF assms(3), of rt'] by (simp add: seen_event)
next
  case (step_md now p d)
  have "rt_user rt' = rt_user rt" "rt_next_id rt' = rt_next_id rt" "pending rt' = pending rt" "e = Preload"
    using step_md by (simp_all add: on_preload_md_def schedule_internal_preload_def)
  then show ?thesis using seen_same [OF assms(3), of rt'] by (simp add: seen_event)
next
  case step_shutdown
  have "rt_next_id rt' = rt_next_id rt" "rt_user rt' = rt_user rt"
    using step_shutdown by (simp_all add: internal_cleanup_on_shutdown_def)
  then show ?thesis using seen_clear [OF assms(3), of rt' e] cleanup_ok [OF assms(2)] step_shutdown by blast
qed

lemma run_seen: "timer_run evs rt \<Longrightarrow> seen_ok evs rt"
proof (induction rule: timer_run.induct)
  case run_new
  then show ?case by (simp add: seen_ok_def unseen_def new_ok)
next
  case (run_step evs rt e rt')
  then show ?case using seen_step run_ok by blast
qed

section \<open>Clocks\<close>

lemma wait_spec:
  fixes rt :: "'p timers" and now :: int
  defines "w \<equiv> next_timer_wait_ms now rt" and "r \<equiv> deadline (hd (rt_heap rt)) - now"
  shows "0 \<le> w" "w \<le> 4294967295" "w = 0 \<longleftrightarrow> r \<le> 0" "w \<le> 1 \<or> ms w \<le> r"
    "w < 4294967295 \<Longrightarrow> r < ms (w + 1)"
proof -
  let ?m = "cdiv r 1000000"
  have w: "w = (if ?m \<le> 0 then (if 0 < r then 1 else 0) else if 4294967295 \<le> ?m then 4294967295 else ?m)"
    by (simp add: w_def r_def next_timer_wait_ms_def Let_def)
  have p: "?m = r div 1000000" if "0 \<le> r" using that by (simp add: cdiv_nonneg)
  have n: "?m \<le> 0" if "r \<le> 0"
  proof -
    have "0 \<le> - r div 1000000" using that by (simp add: div_int_pos_iff)
    then show ?thesis using that by (cases "r = 0") (auto simp: cdiv_def sgn_if)
  qed
  show "0 \<le> w" "w \<le> 4294967295" using w by (auto split: if_splits)
  show "w = 0 \<longleftrightarrow> r \<le> 0" using w n by (cases "r \<le> 0") (auto split: if_splits)
  show "w \<le> 1 \<or> ms w \<le> r"
  proof (cases "0 < r")
    case True
    then have "ms ?m \<le> r" using p by (simp add: ms_def)
    then show ?thesis using w by (auto simp: ms_def split: if_splits)
  qed (use w n in auto)
  show "r < ms (w + 1)" if "w < 4294967295"
  proof (cases "0 < r")
    case True
    then have "r < ms (?m + 1)" using p by (simp add: ms_def)
    then show ?thesis using w that by (auto simp: ms_def split: if_splits)
  qed (use w n in \<open>auto simp: ms_def\<close>)
qed

section \<open>Two surprises\<close>

text \<open>
  While the ring is partly drained a firing timer enters it behind the frames there, but ahead of
  the timers that wait: it is taken before them.
\<close>

lemma fire_overtakes:
  fixes rt :: "'p timers" and now w :: int
  assumes "ring_ok rt" "rt_count rt < SLOTS" "map_of (rt_user rt) t = Some e" "rt_deferred rt = d # ds"
  defines "rt' \<equiv> on_user_timer_fire now w t rt"
  shows "pending rt' = pending rt @ [t] \<and> rt_deferred rt' = d # ds"
  using on_fire(1) [OF assms(1), of t now w] assms(2-4) by (auto simp: rt'_def fired_def)

text \<open>
  The shutdown clean-up drops the timers that wait; a one-shot timer among them stays registered,
  without a node.
\<close>

lemma shutdown_strands:
  assumes "timers_ok rt" "t \<in> set (rt_deferred rt)" "map_of (rt_user rt) t = Some e" "one_shot (ut_kind e)"
  defines "rt' \<equiv> internal_cleanup_on_shutdown rt"
  shows "map_of (rt_user rt') t = Some e \<and> t \<notin># tokens rt' \<and> rt_deferred rt' = []"
proof -
  have "t \<notin># tokens rt" using assms(1-4) unfolding timers_ok_def deferred_ok_def by blast
  moreover have "tokens rt' \<subseteq># tokens rt" using cleanup_ok [OF assms(1)] by (simp add: rt'_def)
  ultimately have "t \<notin># tokens rt'" by (meson mset_subset_eqD)
  then show ?thesis using assms(3) by (simp add: rt'_def internal_cleanup_on_shutdown_def)
qed

section \<open>A short session\<close>

text \<open>A timer of 5 ms is set, fires and is taken.\<close>

definition demo1 :: "unit timers" where
  "demo1 = snd (dz_schedule_after 0 5 new_timers)"

definition demo2 :: "unit timers" where
  "demo2 = (deliver_timer_frame 1 (demo1\<lparr>rt_heap := []\<rparr>))\<lparr>rt_user := []\<rparr>"

lemma demo1_eq: "demo1 = new_timers\<lparr>rt_next_id := 2, rt_heap := [(5000000, 1)],
    rt_user := [(1, \<lparr>ut_kind = After, ut_tod = 0, ut_interval = 0, ut_next = 5000000\<rparr>)]\<rparr>"
  by (simp add: demo1_def dz_schedule_after_def valid_delay_ms_def schedule_relative_def schedule_user_timer_def
      new_timers_def heap_push_def sift_up.simps ms_def)

lemma demo1_run: "timer_run [Scheduled After (Some 1)] demo1"
proof -
  have "dz_schedule_after 0 5 (new_timers :: unit timers) = (Some 1, demo1)"
    by (simp add: demo1_def dz_schedule_after_def valid_delay_ms_def schedule_relative_def schedule_user_timer_def
        new_timers_def)
  from run_step [OF run_new step_after [OF this]] show ?thesis by simp
qed

lemma demo2_tick: "tick_timers 10000000 (\<lambda>_. 0) demo1 = Some demo2"
proof -
  have "tick_timers 10000000 (\<lambda>_. 0) demo1 = tick_timers 10000000 (\<lambda>_. 0) demo2"
    by (subst tick_timers.simps)
      (simp add: demo1_eq demo2_def heap_pop_def fire_node_def on_user_timer_fire_def new_timers_def one_shot_def
        deliver_timer_frame_def)
  moreover have "rt_heap demo2 = []" by (simp add: demo2_def)
  ultimately show ?thesis by (simp add: tick_timers.simps [of _ _ demo2])
qed

lemma demo_run: "timer_run [Scheduled After (Some 1), Ticked, Taken 1] (snd (pop_timer_frame demo2))"
proof -
  have "timer_run [Scheduled After (Some 1), Ticked] demo2"
    using run_step [OF demo1_run step_tick [OF _ demo2_tick]] by (simp add: wall_ok_def)
  moreover have "fst (pop_timer_frame demo2) = Some 1"
    by (simp add: demo2_def demo1_eq new_timers_def deliver_timer_frame_def pop_timer_frame_def Let_def)
  then have "pop_timer_frame demo2 = (Some 1, snd (pop_timer_frame demo2))" by (metis prod.collapse)
  ultimately show ?thesis using run_step step_take by (fastforce simp: take_event_def)
qed

section \<open>Properties\<close>

text \<open>C35: A one-shot timer is handed to the strategy at most once, and not at all once a cancellation of it
  has succeeded, before or after: over any session and any behaviour of the clocks.\<close>

theorem one_shot_once:
  assumes "timer_run evs rt" "Scheduled k (Some x) \<in> set evs" "one_shot k"
  shows "count_list evs (Taken x) \<le> 1 \<and> (Cancelled x True \<in> set evs \<longrightarrow> Taken x \<notin> set evs)"
proof -
  have "once x evs rt" using run_seen [OF assms(1)] assms(2,3) unfolding seen_ok_def by blast
  then show ?thesis by (auto simp: once_def count_list_0_iff split: option.splits)
qed

theorem one_shot_once_witness: "count_list [Scheduled After (Some 1), Ticked, Taken 1] (Taken 1) \<le> 1"
  using one_shot_once [OF demo_run, of After 1] by (simp add: one_shot_def)

text \<open>Until shutdown a registered timer has exactly one node in the heap, or it is a one-shot timer
  that waits for a free slot of the ring and has none.\<close>

theorem no_timer_lost:
  assumes "timer_run evs rt" "Shutdown \<notin> set evs" "map_of (rt_user rt) x = Some e"
  shows "count (tokens rt) x = 1 \<or> one_shot (ut_kind e) \<and> x \<in> set (rt_deferred rt) \<and> count (tokens rt) x = 0"
proof -
  have "timers_ok rt" "no_lost rt" using run_ok [OF assms(1)] assms(2) by auto
  then have "count (tokens rt) x \<le> 1" "x \<in># tokens rt \<or> one_shot (ut_kind e) \<and> x \<in> set (rt_deferred rt)"
    using assms(3) by (auto simp: timers_ok_def tokens_ok_def no_lost_def)
  then show ?thesis by (metis count_eq_zero_iff le_less less_one)
qed

theorem no_timer_lost_witness: "count (tokens demo1) 1 = 1 \<or> 1 \<in> set (rt_deferred demo1)"
  using no_timer_lost [OF demo1_run, of 1] by (auto simp: demo1_eq)

text \<open>A tick returns, and leaves only deadlines of the future.\<close>

theorem tick_returns:
  assumes "timer_run evs rt" "\<And>x. wall_ok (wall x)"
  shows "\<exists>rt'. tick_timers now wall rt = Some rt' \<and> (\<forall>m \<in> set (rt_heap rt'). now < deadline m)"
proof -
  have w: "\<And>x. 0 \<le> wall x \<and> wall x < 86400000" using assms(2) by (simp add: wall_ok_def)
  have "timers_ok rt" using run_ok [OF assms(1)] by simp
  then show ?thesis using tick_total [where I = "\<lambda>_. True" and wall = wall and now = now, OF _ _ w] by blast
qed

theorem tick_returns_witness:
  "\<exists>rt'. tick_timers 10000000 (\<lambda>_. 0) demo1 = Some rt' \<and> (\<forall>m \<in> set (rt_heap rt'). 10000000 < deadline m)"
  by (rule tick_returns [OF demo1_run]) (simp add: wall_ok_def)

text \<open>The wait for the earliest deadline fits 32 bits and is zero exactly when that deadline has come;
  otherwise it is the remaining time in whole milliseconds, at least one.\<close>

theorem wait_exact:
  fixes rt :: "'p timers"
  defines "w \<equiv> \<lambda>now. next_timer_wait_ms now rt" and "r \<equiv> \<lambda>now. deadline (hd (rt_heap rt)) - now"
  shows "0 \<le> w now \<and> w now \<le> 4294967295 \<and> (w now = 0 \<longleftrightarrow> r now \<le> 0) \<and> (w now \<le> 1 \<or> ms (w now) \<le> r now) \<and>
    (w now < 4294967295 \<longrightarrow> r now < ms (w now + 1))"
  using wait_spec [of now rt] by (simp add: w_def r_def)

theorem wait_exact_witness: "next_timer_wait_ms 1500000 demo1 = 3"
proof -
  have "deadline (hd (rt_heap demo1)) - 1500000 = 3500000" by (simp add: demo1_eq)
  then show ?thesis using wait_exact [where rt = demo1 and now = 1500000] by (auto simp: ms_def)
qed

text \<open>A daily timer handled \<open>late\<close> milliseconds after its time of day is set to that time on the next
  day if it is at most twelve hours late, and on the day after that if it is later.\<close>

theorem daily_rearm:
  assumes "ut_kind e = Daily" "entry_ok e" "0 \<le> late" "late < 86400000"
  shows "rearm_deadline now ((ut_tod e + late) mod 86400000) e =
    now + ms ((if late \<le> 43200000 then 86400000 else 172800000) - late)"
proof -
  have t: "0 \<le> ut_tod e" "ut_tod e < 86400000" using assms(2) by (auto simp: entry_ok_def)
  have m: "(ut_tod e + late) mod 86400000 = (if ut_tod e + late < 86400000 then ut_tod e + late else ut_tod e + late - 86400000)"
  proof (cases "ut_tod e + late < 86400000")
    case False
    have "(ut_tod e + late - 86400000) mod 86400000 = ut_tod e + late - 86400000"
      using t assms(3,4) False by (intro mod_pos_pos_trivial) auto
    then show ?thesis unfolding minus_mod_self2 using False by simp
  qed (use t assms(3) in simp)
  have "next_time_of_day_delay (ut_tod e) ((ut_tod e + late) mod 86400000) = 86400000 - late"
    unfolding m using t assms(3,4) by (auto simp: next_time_of_day_delay_def Let_def)
  then show ?thesis using assms(1,3,4) by (auto simp: rearm_deadline_def Let_def)
qed

theorem daily_rearm_witness:
  "rearm_deadline 0 ((36000000 + 46800000) mod 86400000) \<lparr>ut_kind = Daily, ut_tod = 36000000, ut_interval = 0, ut_next = 0\<rparr>
    = ms 126000000"
  using daily_rearm [where e = "\<lparr>ut_kind = Daily, ut_tod = 36000000, ut_interval = 0, ut_next = 0\<rparr>"
      and late = 46800000 and now = 0] by (simp add: entry_ok_def)

end
