(* ===== verification/Timer_Queue.thy ===== *)
theory Timer_Queue
  imports Dz_Prelude
begin

text \<open>
  The timer queue of the server processes (\<open>libs/core/src/timer_queue.cpp\<close>): a multimap from
  deadlines to timers, a table of timers and a table of tags. The multimap is the list of its
  elements in order; an iterator into it is the element. Callbacks are a parameter: a function on
  their world and the queue, which they may use through its interface.
\<close>

section \<open>Model\<close>

record 'c tq_entry =
  te_callback :: 'c
  te_deadline :: int
  te_tag :: string

record 'c timer_queue =
  tq_deadlines :: "(int \<times> nat) list"
  tq_entries :: "(nat \<times> 'c tq_entry) list"
  tq_tags :: "(string \<times> nat) list"
  tq_next :: nat

definition new_queue :: "'c timer_queue" where
  "new_queue = \<lparr>tq_deadlines = [], tq_entries = [], tq_tags = [], tq_next = 0\<rparr>"

text \<open>A new element goes behind those with the same key.\<close>

fun emplace :: "int \<Rightarrow> nat \<Rightarrow> (int \<times> nat) list \<Rightarrow> (int \<times> nat) list" where
  "emplace d i [] = [(d, i)]"
| "emplace d i (x # xs) = (if fst x \<le> d then x # emplace d i xs else (d, i) # x # xs)"

definition schedule_at_internal :: "int \<Rightarrow> string \<Rightarrow> 'c \<Rightarrow> 'c timer_queue \<Rightarrow> nat \<times> 'c timer_queue" where
  "schedule_at_internal d tag cb q =
     (let i = tq_next q + 1
      in (i, q\<lparr>tq_next := i, tq_deadlines := emplace d i (tq_deadlines q),
            tq_entries := AList.update i \<lparr>te_callback = cb, te_deadline = d, te_tag = tag\<rparr> (tq_entries q),
            tq_tags := (if tag \<noteq> [] then AList.update tag i (tq_tags q) else tq_tags q)\<rparr>))"

definition cancel_timer :: "nat \<Rightarrow> 'c timer_queue \<Rightarrow> 'c timer_queue" where
  "cancel_timer i q =
     (case map_of (tq_entries q) i of
        None \<Rightarrow> q
      | Some e \<Rightarrow> q\<lparr>tq_tags := (if te_tag e \<noteq> [] then AList.delete (te_tag e) (tq_tags q) else tq_tags q),
          tq_deadlines := remove1 (te_deadline e, i) (tq_deadlines q),
          tq_entries := AList.delete i (tq_entries q)\<rparr>)"

definition schedule_at :: "int \<Rightarrow> 'c \<Rightarrow> 'c timer_queue \<Rightarrow> nat \<times> 'c timer_queue" where
  "schedule_at d cb q = schedule_at_internal d [] cb q"

definition schedule_after :: "int \<Rightarrow> int \<Rightarrow> 'c \<Rightarrow> 'c timer_queue \<Rightarrow> nat \<times> 'c timer_queue" where
  "schedule_after now delay cb q = schedule_at (now + delay) cb q"

definition schedule_after_ignored :: "string \<Rightarrow> int \<Rightarrow> int \<Rightarrow> 'c \<Rightarrow> 'c timer_queue \<Rightarrow> nat \<times> 'c timer_queue" where
  "schedule_after_ignored tag now delay cb q =
     (case (if tag \<noteq> [] then map_of (tq_tags q) tag else None) of
        Some i \<Rightarrow> (i, q)
      | None \<Rightarrow> schedule_at_internal (now + delay) tag cb q)"

definition schedule_after_replace :: "string \<Rightarrow> int \<Rightarrow> int \<Rightarrow> 'c \<Rightarrow> 'c timer_queue \<Rightarrow> nat \<times> 'c timer_queue" where
  "schedule_after_replace tag now delay cb q =
     schedule_at_internal (now + delay) tag cb
       (case (if tag \<noteq> [] then map_of (tq_tags q) tag else None) of Some i \<Rightarrow> cancel_timer i q | None \<Rightarrow> q)"

text \<open>Taking the first element, with its callback if the timer is known.\<close>

definition take_first :: "'c timer_queue \<Rightarrow> 'c option \<times> 'c timer_queue" where
  "take_first q =
     (let i = snd (hd (tq_deadlines q)); q1 = q\<lparr>tq_deadlines := tl (tq_deadlines q)\<rparr>
      in case map_of (tq_entries q) i of
           None \<Rightarrow> (None, q1)
         | Some e \<Rightarrow> (Some (te_callback e),
             q1\<lparr>tq_tags := (if te_tag e \<noteq> [] then AList.delete (te_tag e) (tq_tags q) else tq_tags q),
                tq_entries := AList.delete i (tq_entries q)\<rparr>))"

partial_function (option) tick ::
  "('c \<Rightarrow> 'w \<Rightarrow> 'c timer_queue \<Rightarrow> 'w \<times> 'c timer_queue) \<Rightarrow> int \<Rightarrow> 'w \<Rightarrow> 'c timer_queue \<Rightarrow> ('w \<times> 'c timer_queue) option" where
  "tick run now w q =
     (if tq_deadlines q \<noteq> [] \<and> fst (hd (tq_deadlines q)) \<le> now
      then case take_first q of
             (None, q1) \<Rightarrow> tick run now w q1
           | (Some cb, q1) \<Rightarrow> (case run cb w q1 of (w', q2) \<Rightarrow> tick run now w' q2)
      else Some (w, q))"

definition next_timeout :: "int \<Rightarrow> 'c timer_queue \<Rightarrow> int" where
  "next_timeout now q = (let r = fst (hd (tq_deadlines q)) - now in if r < 0 then 0 else r)"

definition queue_empty :: "'c timer_queue \<Rightarrow> bool" where
  "queue_empty q \<longleftrightarrow> tq_deadlines q = []"

section \<open>The three tables agree\<close>

definition entry_of :: "'c timer_queue \<Rightarrow> nat \<Rightarrow> 'c tq_entry option" where
  "entry_of q = map_of (tq_entries q)"

text \<open>Elements are in the order of their deadlines, equal ones in the order they were scheduled.\<close>

definition sooner :: "int \<times> nat \<Rightarrow> int \<times> nat \<Rightarrow> bool" where
  "sooner x y \<longleftrightarrow> fst x < fst y \<or> fst x = fst y \<and> snd x < snd y"

definition queue_ok :: "'c timer_queue \<Rightarrow> bool" where
  "queue_ok q \<longleftrightarrow> sorted_wrt sooner (tq_deadlines q) \<and>
     (\<forall>d i. (d, i) \<in> set (tq_deadlines q) \<longleftrightarrow> (\<exists>e. entry_of q i = Some e \<and> te_deadline e = d)) \<and>
     (\<forall>t i. map_of (tq_tags q) t = Some i \<longleftrightarrow> t \<noteq> [] \<and> (\<exists>e. entry_of q i = Some e \<and> te_tag e = t)) \<and>
     (\<forall>i e. entry_of q i = Some e \<longrightarrow> i \<le> tq_next q)"

lemma set_emplace [simp]: "set (emplace d i xs) = insert (d, i) (set xs)"
  by (induction xs) auto

lemma sorted_emplace: "sorted_wrt sooner xs \<Longrightarrow> \<forall>x \<in> set xs. snd x < i \<Longrightarrow> sorted_wrt sooner (emplace d i xs)"
  by (induction xs) (auto simp: sooner_def)

lemma sooner_distinct: "sorted_wrt sooner xs \<Longrightarrow> distinct xs"
  by (induction xs) (auto simp: sooner_def)

lemma sooner_remove1: "sorted_wrt sooner xs \<Longrightarrow> sorted_wrt sooner (remove1 x xs)"
  by (induction xs) (auto dest: in_set_remove1 [THEN iffD1, rotated] notin_set_remove1 set_remove1_subset [THEN subsetD])

lemma new_queue_ok: "queue_ok new_queue"
  by (simp add: queue_ok_def new_queue_def entry_of_def)

text \<open>A tag in use names exactly the timer that carries it.\<close>

lemma tag_owner: "queue_ok q \<Longrightarrow> entry_of q i = Some e \<Longrightarrow> te_tag e \<noteq> [] \<Longrightarrow> map_of (tq_tags q) (te_tag e) = Some i"
  by (auto simp: queue_ok_def)

lemma tag_named: "queue_ok q \<Longrightarrow> map_of (tq_tags q) t = Some i \<Longrightarrow> \<exists>e. entry_of q i = Some e \<and> te_tag e = t \<and> t \<noteq> []"
  by (simp add: queue_ok_def)

lemma entry_deadline: "queue_ok q \<Longrightarrow> (d, i) \<in> set (tq_deadlines q) \<longleftrightarrow> (\<exists>e. entry_of q i = Some e \<and> te_deadline e = d)"
  by (simp add: queue_ok_def)

lemma tag_unique: "queue_ok q \<Longrightarrow> entry_of q i = Some e \<Longrightarrow> entry_of q j = Some e' \<Longrightarrow> te_tag e = te_tag e' \<Longrightarrow>
    te_tag e \<noteq> [] \<Longrightarrow> i = j"
  using tag_owner [of q i e] tag_owner [of q j e'] by simp

lemma internal_ok:
  assumes "queue_ok q" "tag \<noteq> [] \<Longrightarrow> map_of (tq_tags q) tag = None" "schedule_at_internal d tag cb q = (i, q')"
  shows "queue_ok q' \<and> i = tq_next q + 1 \<and> tq_next q' = i \<and> tq_deadlines q' = emplace d i (tq_deadlines q) \<and>
    entry_of q' = (entry_of q)(i \<mapsto> \<lparr>te_callback = cb, te_deadline = d, te_tag = tag\<rparr>)"
proof -
  let ?e = "\<lparr>te_callback = cb, te_deadline = d, te_tag = tag\<rparr>"
  have F: "i = tq_next q + 1" "tq_next q' = i" "tq_deadlines q' = emplace d i (tq_deadlines q)"
      "entry_of q' = (entry_of q)(i \<mapsto> ?e)"
      "map_of (tq_tags q') = (if tag \<noteq> [] then (map_of (tq_tags q))(tag \<mapsto> i) else map_of (tq_tags q))"
    using assms(3) by (auto simp: schedule_at_internal_def Let_def entry_of_def)
  have new: "entry_of q i = None" using assms(1) F(1) by (cases "entry_of q i") (auto simp: queue_ok_def)
  have lt: "snd x < i" if "x \<in> set (tq_deadlines q)" for x
    using that assms(1) F(1) entry_deadline [OF assms(1), of "fst x" "snd x"] by (auto simp: queue_ok_def less_Suc_eq_le)
  have no: "te_tag e \<noteq> tag" if "entry_of q j = Some e" "tag \<noteq> []" for j e
    using tag_owner [OF assms(1) that(1)] assms(2) that(2) by auto
  have tn: "map_of (tq_tags q) t \<noteq> Some i" for t using assms(1) new by (auto simp: queue_ok_def)
  have told: "map_of (tq_tags q) t = Some j \<longleftrightarrow> t \<noteq> [] \<and> (\<exists>e. entry_of q j = Some e \<and> te_tag e = t)" for t j
    using assms(1) by (simp add: queue_ok_def)
  have "map_of (tq_tags q') t = Some j \<longleftrightarrow> t \<noteq> [] \<and> (\<exists>e. entry_of q' j = Some e \<and> te_tag e = t)" for t j
  proof (cases "j = i")
    case True
    then show ?thesis using F(4,5) tn [of t] by auto
  next
    case False
    then show ?thesis using told [of t j] F(4,5) no [of j] by auto
  qed
  moreover have "(d', j) \<in> set (tq_deadlines q') \<longleftrightarrow> (\<exists>e. entry_of q' j = Some e \<and> te_deadline e = d')" for d' j
    using entry_deadline [OF assms(1), of d' j] F(3,4) new by auto
  moreover have "j \<le> tq_next q'" if "entry_of q' j = Some e" for j e
    using assms(1) F(1,2,4) that unfolding queue_ok_def by (cases "j = i") (auto simp: le_Suc_eq)
  moreover have "sorted_wrt sooner (tq_deadlines q')" using assms(1) F(3) lt sorted_emplace by (simp add: queue_ok_def)
  ultimately show ?thesis using F unfolding queue_ok_def by simp
qed

text \<open>Taking a timer out of all three tables.\<close>

lemma removal_ok:
  assumes "queue_ok q" "entry_of q i = Some e" "entry_of q' = (entry_of q)(i := None)"
    "tq_deadlines q' = remove1 (te_deadline e, i) (tq_deadlines q)" "tq_next q' = tq_next q"
    "map_of (tq_tags q') = (if te_tag e \<noteq> [] then (map_of (tq_tags q))(te_tag e := None) else map_of (tq_tags q))"
  shows "queue_ok q'"
proof -
  have s: "sorted_wrt sooner (tq_deadlines q)" using assms(1) by (simp add: queue_ok_def)
  have t: "map_of (tq_tags q) t = Some j \<longleftrightarrow> t \<noteq> [] \<and> (\<exists>e. entry_of q j = Some e \<and> te_tag e = t)" for t j
    using assms(1) by (simp add: queue_ok_def)
  have "map_of (tq_tags q') t = Some j \<longleftrightarrow> t \<noteq> [] \<and> (\<exists>e. entry_of q' j = Some e \<and> te_tag e = t)" for t j
  proof (cases "j = i")
    case True
    then have "map_of (tq_tags q') t \<noteq> Some i" using t [of t i] assms(2,6) by (cases "t = te_tag e") auto
    then show ?thesis using True assms(3) by simp
  next
    case False
    then have e: "entry_of q' j = entry_of q j" using assms(3) by simp
    show ?thesis
    proof (cases "t \<noteq> [] \<and> t = te_tag e")
      case True
      then have "te_tag e' \<noteq> t" if "entry_of q j = Some e'" for e'
        using tag_unique [OF assms(1,2) that] False by auto
      then show ?thesis using True assms(6) e by auto
    next
      case False
      moreover have "map_of (tq_tags q) [] \<noteq> Some j" using t [of "[]" j] by simp
      ultimately show ?thesis using t [of t j] e assms(6) by (cases "t = []") auto
    qed
  qed
  moreover have "(d, j) \<in> set (tq_deadlines q') \<longleftrightarrow> (\<exists>e. entry_of q' j = Some e \<and> te_deadline e = d)" for d j
    using entry_deadline [OF assms(1), of d j] assms(2,3,4) sooner_distinct [OF s] by (auto simp: set_remove1_eq)
  moreover have "j \<le> tq_next q'" if "entry_of q' j = Some e'" for j e'
    using that assms(1,3,5) by (auto simp: queue_ok_def split: if_splits)
  ultimately show ?thesis using sooner_remove1 [OF s] assms(4) unfolding queue_ok_def by simp
qed

lemma cancel_timer_ok:
  assumes "queue_ok q"
  shows "queue_ok (cancel_timer i q) \<and> entry_of (cancel_timer i q) = (entry_of q)(i := None) \<and>
    tq_next (cancel_timer i q) = tq_next q \<and> set (tq_deadlines (cancel_timer i q)) = {x \<in> set (tq_deadlines q). snd x \<noteq> i}"
proof (cases "entry_of q i")
  case None
  then have "(d, i) \<notin> set (tq_deadlines q)" for d using entry_deadline [OF assms] by simp
  then show ?thesis using assms None by (auto simp: cancel_timer_def entry_of_def fun_upd_idem)
next
  case (Some e)
  let ?q = "cancel_timer i q"
  have F: "entry_of ?q = (entry_of q)(i := None)" "tq_deadlines ?q = remove1 (te_deadline e, i) (tq_deadlines q)"
      "tq_next ?q = tq_next q"
      "map_of (tq_tags ?q) = (if te_tag e \<noteq> [] then (map_of (tq_tags q))(te_tag e := None) else map_of (tq_tags q))"
    using Some by (auto simp: cancel_timer_def entry_of_def)
  have "queue_ok ?q" using removal_ok [OF assms Some F(1,2,3,4)] .
  moreover have "x = (te_deadline e, i) \<longleftrightarrow> snd x = i" if "x \<in> set (tq_deadlines q)" for x
    using that entry_deadline [OF assms, of "fst x" "snd x"] Some by (cases x) auto
  moreover have "distinct (tq_deadlines q)" using assms sooner_distinct by (simp add: queue_ok_def)
  ultimately show ?thesis using F by (auto simp: set_remove1_eq)
qed

lemma take_first_ok:
  assumes "queue_ok q" "tq_deadlines q = (d, i) # xs"
  obtains e q' where "entry_of q i = Some e" "take_first q = (Some (te_callback e), q')" "queue_ok q'" "tq_deadlines q' = xs"
    "entry_of q' = (entry_of q)(i := None)"
proof -
  obtain e where e: "entry_of q i = Some e" "te_deadline e = d"
    using entry_deadline [OF assms(1), of d i] assms(2) by auto
  let ?q = "snd (take_first q)"
  have F: "take_first q = (Some (te_callback e), ?q)" "entry_of ?q = (entry_of q)(i := None)" "tq_deadlines ?q = xs"
      "tq_next ?q = tq_next q"
      "map_of (tq_tags ?q) = (if te_tag e \<noteq> [] then (map_of (tq_tags q))(te_tag e := None) else map_of (tq_tags q))"
    using e assms(2) by (auto simp: take_first_def entry_of_def Let_def)
  have "tq_deadlines ?q = remove1 (te_deadline e, i) (tq_deadlines q)" using F(3) assms(2) e(2) by simp
  from removal_ok [OF assms(1) e(1) F(2) this F(4,5)] show ?thesis using that e(1) F by blast
qed

section \<open>Any use of the queue\<close>

inductive queue_step :: "'c timer_queue \<Rightarrow> 'c timer_queue \<Rightarrow> bool" where
  "schedule_at d cb q = (i, q') \<Longrightarrow> queue_step q q'"
| "schedule_after now d cb q = (i, q') \<Longrightarrow> queue_step q q'"
| "schedule_after_ignored tag now d cb q = (i, q') \<Longrightarrow> queue_step q q'"
| "schedule_after_replace tag now d cb q = (i, q') \<Longrightarrow> queue_step q q'"
| "queue_step q (cancel_timer i q)"

abbreviation queue_calls :: "'c timer_queue \<Rightarrow> 'c timer_queue \<Rightarrow> bool" where
  "queue_calls \<equiv> queue_step\<^sup>*\<^sup>*"

lemma ignored_ok:
  assumes "queue_ok q" "schedule_after_ignored tag now d cb q = (i, q')"
  shows "queue_ok q' \<and> (if tag \<noteq> [] \<and> (\<exists>j. map_of (tq_tags q) tag = Some j) then q' = q \<and> map_of (tq_tags q) tag = Some i
    else entry_of q' = (entry_of q)(i \<mapsto> \<lparr>te_callback = cb, te_deadline = now + d, te_tag = tag\<rparr>))"
proof (cases "tag \<noteq> [] \<and> (\<exists>j. map_of (tq_tags q) tag = Some j)")
  case True
  then show ?thesis using assms by (auto simp: schedule_after_ignored_def)
next
  case False
  then have n: "tag \<noteq> [] \<Longrightarrow> map_of (tq_tags q) tag = None" by auto
  then have "schedule_at_internal (now + d) tag cb q = (i, q')" using assms(2) by (cases "tag = []") (auto simp: schedule_after_ignored_def)
  from internal_ok [OF assms(1) n this] show ?thesis using False by auto
qed

lemma replace_ok:
  assumes "queue_ok q" "schedule_after_replace tag now d cb q = (i, q')"
  shows "queue_ok q' \<and> entry_of q' i = Some \<lparr>te_callback = cb, te_deadline = now + d, te_tag = tag\<rparr> \<and>
    (\<forall>j. j \<noteq> i \<longrightarrow> entry_of q' j = (if tag \<noteq> [] \<and> map_of (tq_tags q) tag = Some j then None else entry_of q j))"
proof -
  let ?q1 = "case (if tag \<noteq> [] then map_of (tq_tags q) tag else None) of Some i \<Rightarrow> cancel_timer i q | None \<Rightarrow> q"
  have ok: "queue_ok ?q1" using assms(1) cancel_timer_ok by (auto split: option.split)
  have e: "entry_of ?q1 j = (if tag \<noteq> [] \<and> map_of (tq_tags q) tag = Some j then None else entry_of q j)" for j
    using cancel_timer_ok [OF assms(1)] by (auto split: option.split)
  have n: "tag \<noteq> [] \<Longrightarrow> map_of (tq_tags ?q1) tag = None"
  proof (rule ccontr)
    assume t: "tag \<noteq> []" "map_of (tq_tags ?q1) tag \<noteq> None"
    then obtain j0 where "map_of (tq_tags ?q1) tag = Some j0" by auto
    from tag_named [OF ok this] obtain j x where j: "entry_of ?q1 j = Some x" "te_tag x = tag" by blast
    then have "entry_of q j = Some x" "map_of (tq_tags q) tag \<noteq> Some j" using e [of j] t(1) by (auto split: if_splits)
    then show False using tag_owner [OF assms(1)] j(2) t(1) by blast
  qed
  have I0: "schedule_at_internal (now + d) tag cb ?q1 = (i, q')" using assms(2) by (simp add: schedule_after_replace_def)
  have R: "queue_ok q' \<and> i = tq_next ?q1 + 1 \<and> tq_next q' = i \<and> tq_deadlines q' = emplace (now + d) i (tq_deadlines ?q1) \<and>
      entry_of q' = (entry_of ?q1)(i \<mapsto> \<lparr>te_callback = cb, te_deadline = now + d, te_tag = tag\<rparr>)"
    by (rule internal_ok [OF ok _ I0]) (rule n)
  note I = R [THEN conjunct1] R [THEN conjunct2, THEN conjunct2, THEN conjunct2, THEN conjunct2]
  show ?thesis
  proof (intro conjI allI impI)
    show "queue_ok q'" by (rule I(1))
    show "entry_of q' i = Some \<lparr>te_callback = cb, te_deadline = now + d, te_tag = tag\<rparr>" unfolding I(2) by simp
    show "entry_of q' j = (if tag \<noteq> [] \<and> map_of (tq_tags q) tag = Some j then None else entry_of q j)" if "j \<noteq> i" for j
      unfolding I(2) fun_upd_other [OF that] by (rule e)
  qed
qed

lemma queue_step_ok: "queue_step q q' \<Longrightarrow> queue_ok q \<Longrightarrow> queue_ok q'"
proof (induction rule: queue_step.induct)
  case (1 d cb q i q')
  then show ?case using internal_ok [of q "[]"] by (simp add: schedule_at_def)
next
  case (2 now d cb q i q')
  then show ?case using internal_ok [of q "[]"] by (simp add: schedule_after_def schedule_at_def)
next
  case (3 tag now d cb q i q')
  show ?case using ignored_ok [OF 3(2,1)] by (rule conjunct1)
next
  case (4 tag now d cb q i q')
  show ?case using replace_ok [OF 4(2,1)] by (rule conjunct1)
next
  case (5 q i)
  then show ?case using cancel_timer_ok by blast
qed

lemma queue_calls_ok: "queue_calls q q' \<Longrightarrow> queue_ok q \<Longrightarrow> queue_ok q'"
  by (induction rule: rtranclp_induct) (auto dest: queue_step_ok)

section \<open>A tick\<close>

definition due :: "int \<Rightarrow> 'c timer_queue \<Rightarrow> (int \<times> nat) list" where
  "due now q = filter (\<lambda>x. fst x \<le> now) (tq_deadlines q)"

text \<open>What a callback may do: use the queue, and schedule only for later.\<close>

definition well_behaved :: "('c \<Rightarrow> 'w \<Rightarrow> 'c timer_queue \<Rightarrow> 'w \<times> 'c timer_queue) \<Rightarrow> int \<Rightarrow> bool" where
  "well_behaved run now \<longleftrightarrow>
     (\<forall>cb w q w' q'. run cb w q = (w', q') \<longrightarrow> queue_calls q q' \<and> set (due now q') \<subseteq> set (due now q))"

lemma well_behavedD: "well_behaved run now \<Longrightarrow> run cb w q = (w', q') \<Longrightarrow> queue_calls q q' \<and> set (due now q') \<subseteq> set (due now q)"
  by (simp add: well_behaved_def)

lemma queue_sorted: "queue_ok q \<Longrightarrow> sorted_wrt sooner (tq_deadlines q)"
  by (simp add: queue_ok_def)

lemma length_due: "queue_ok q \<Longrightarrow> length (due now q) = card (set (due now q))"
  using sooner_distinct [OF queue_sorted, of q] distinct_card [of "due now q"] by (simp add: due_def)

lemma tick_idle: "\<not> (tq_deadlines q \<noteq> [] \<and> fst (hd (tq_deadlines q)) \<le> now) \<Longrightarrow> tick run now w q = Some (w, q)"
  by (subst tick.simps) auto

lemma not_due:
  assumes "queue_ok q" "\<not> (tq_deadlines q \<noteq> [] \<and> fst (hd (tq_deadlines q)) \<le> now)"
  shows "due now q = []"
proof (cases "tq_deadlines q")
  case (Cons x xs)
  then have "now < fst x" "\<forall>y \<in> set xs. sooner x y" using assms queue_sorted [OF assms(1)] by auto
  then have "now < fst y" if "y \<in> set (tq_deadlines q)" for y using that Cons by (auto simp: sooner_def)
  then show ?thesis by (auto simp: due_def filter_empty_conv not_le)
qed (simp add: due_def)

lemma queue_tick_total:
  assumes "well_behaved run now" "queue_ok q"
  shows "\<exists>w' q'. tick run now w q = Some (w', q') \<and> queue_ok q' \<and> due now q' = []"
  using assms(2)
proof (induction "length (due now q)" arbitrary: w q rule: less_induct)
  case less
  show ?case
  proof (cases "tq_deadlines q \<noteq> [] \<and> fst (hd (tq_deadlines q)) \<le> now")
    case False
    then show ?thesis using tick_idle [of q now run w] not_due [OF less.prems] less.prems by blast
  next
    case True
    then obtain d i xs where x: "tq_deadlines q = (d, i) # xs" "d \<le> now" by (cases "tq_deadlines q") auto
    obtain e q1 where "entry_of q i = Some e" and q1: "take_first q = (Some (te_callback e), q1)" "queue_ok q1" "tq_deadlines q1 = xs"
        and "entry_of q1 = (entry_of q)(i := None)"
      by (rule take_first_ok [OF less.prems x(1)])
    obtain w' q2 where r: "run (te_callback e) w q1 = (w', q2)" by (cases "run (te_callback e) w q1")
    note W = well_behavedD [OF assms(1) r]
    have ok: "queue_ok q2" using queue_calls_ok W q1(2) by blast
    have "length (due now q2) \<le> length (due now q1)"
      using W length_due [OF ok] length_due [OF q1(2)] by (simp add: card_mono)
    also have "\<dots> < length (due now q)" using x q1(3) by (simp add: due_def)
    finally have "length (due now q2) < length (due now q)" .
    from less.hyps [OF this ok, of w'] obtain w'' q3 where "tick run now w' q2 = Some (w'', q3)" "queue_ok q3" "due now q3 = []"
      by blast
    moreover have "tick run now w q = tick run now w' q2" using True q1(1) r by (subst tick.simps) simp
    ultimately show ?thesis by simp
  qed
qed

text \<open>
  What a tick has to do, without the list and the tables: as long as a timer is due, the one with
  the least deadline, the earlier scheduled of equal ones, leaves the queue like a cancelled timer
  and its callback runs on what is left. The list is that of the timers run, the set that of the
  due timers which callbacks took away.
\<close>

inductive ticks :: "('c \<Rightarrow> 'w \<Rightarrow> 'c timer_queue \<Rightarrow> 'w \<times> 'c timer_queue) \<Rightarrow> int \<Rightarrow> 'w \<Rightarrow> 'c timer_queue \<Rightarrow> (int \<times> nat) list \<Rightarrow>
    (int \<times> nat) set \<Rightarrow> 'w \<Rightarrow> 'c timer_queue \<Rightarrow> bool" for run now where
  idle: "due now q = [] \<Longrightarrow> ticks run now w q [] {} w q"
| turn: "x \<in> set (due now q) \<Longrightarrow> (\<forall>y \<in> set (tq_deadlines q) - {x}. sooner x y) \<Longrightarrow> entry_of q (snd x) = Some e \<Longrightarrow>
    run (te_callback e) w (cancel_timer (snd x) q) = (w1, q1) \<Longrightarrow> ticks run now w1 q1 xs gone w2 q2 \<Longrightarrow>
    ticks run now w q (x # xs) (gone \<union> (set (due now q) - {x} - set (due now q1))) w2 q2"

lemma take_first_cancels:
  assumes "queue_ok q" "tq_deadlines q = (d, i) # xs" "entry_of q i = Some e"
  shows "take_first q = (Some (te_callback e), cancel_timer i q)"
proof -
  have "te_deadline e = d" using entry_deadline [OF assms(1), of d i] assms(2,3) by auto
  then show ?thesis using assms(2,3) by (simp add: take_first_def cancel_timer_def entry_of_def Let_def)
qed

lemma due_cancel: "queue_ok q \<Longrightarrow> set (due now (cancel_timer i q)) = {x \<in> set (due now q). snd x \<noteq> i}"
  using cancel_timer_ok [of q i] by (auto simp: due_def)

lemma tick_traced:
  assumes "well_behaved run now" "queue_ok q"
  shows "\<exists>xs gone w' q'. tick run now w q = Some (w', q') \<and> ticks run now w q xs gone w' q'"
  using assms(2)
proof (induction "length (due now q)" arbitrary: w q rule: less_induct)
  case less
  show ?case
  proof (cases "tq_deadlines q \<noteq> [] \<and> fst (hd (tq_deadlines q)) \<le> now")
    case False
    have "tick run now w q = Some (w, q)" by (rule tick_idle [OF False])
    moreover have "ticks run now w q [] {} w q" by (rule ticks.idle [OF not_due [OF less.prems False]])
    ultimately show ?thesis by blast
  next
    case True
    then obtain d i ys where x: "tq_deadlines q = (d, i) # ys" "d \<le> now" by (cases "tq_deadlines q") auto
    obtain e where e: "entry_of q i = Some e" using entry_deadline [OF less.prems, of d i] x(1) by auto
    obtain w1 q1 where r: "run (te_callback e) w (cancel_timer i q) = (w1, q1)" by fastforce
    have c: "queue_ok (cancel_timer i q)" using cancel_timer_ok [OF less.prems] by simp
    note W = well_behavedD [OF assms(1) r]
    have ok: "queue_ok q1" using queue_calls_ok W c by blast
    have "set (due now q1) \<subset> set (due now q)"
      using W due_cancel [OF less.prems, of now i] x by (auto simp: due_def)
    then have "length (due now q1) < length (due now q)"
      using length_due [OF ok] length_due [OF less.prems] by (simp add: psubset_card_mono)
    from less.hyps [OF this ok, of w1] obtain xs gone w2 q2 where
      "tick run now w1 q1 = Some (w2, q2)" "ticks run now w1 q1 xs gone w2 q2" by blast
    moreover have "tick run now w q = tick run now w1 q1"
      using True take_first_cancels [OF less.prems x(1) e] r by (subst tick.simps) simp
    moreover have "(d, i) \<in> set (due now q)" "\<forall>y \<in> set (tq_deadlines q) - {(d, i)}. sooner (d, i) y"
      using x queue_sorted [OF less.prems] by (auto simp: due_def)
    ultimately show ?thesis using ticks.turn [of "(d, i)" now q e run w w1 q1] e r by fastforce
  qed
qed

lemma ticks_order:
  assumes "ticks run now w q xs gone w' q'" "well_behaved run now" "queue_ok q"
  shows "sorted_wrt sooner xs \<and> set xs \<union> gone = set (due now q) \<and> set xs \<inter> gone = {} \<and> due now q' = []"
  using assms
proof (induction rule: ticks.induct)
  case (idle q w)
  then show ?case by simp
next
  case (turn x q e w w1 q1 xs gone w2 q2)
  note W = well_behavedD [OF turn.prems(1) turn.hyps(4)]
  have "queue_ok q1" using queue_calls_ok W cancel_timer_ok [OF turn.prems(2), of "snd x"] by blast
  with turn.IH turn.prems(1) have ih: "sorted_wrt sooner xs" "set xs \<union> gone = set (due now q1)" "set xs \<inter> gone = {}" "due now q2 = []" by auto
  have sub: "set (due now q1) \<subseteq> set (due now q) - {x}" using W due_cancel [OF turn.prems(2), of now "snd x"] by auto
  then have "sooner x y" if "y \<in> set xs" for y using that ih(2) turn.hyps(2) by (auto simp: due_def)
  moreover have "x \<notin> gone" using sub ih(2) by blast
  ultimately show ?case using ih sub turn.hyps(1) by auto
qed

section \<open>Properties\<close>

lemma tag_exclusive:
  assumes "queue_ok q" "schedule_after_replace tag now d cb q = (i, q')" "tag \<noteq> []" "entry_of q' j = Some e"
  shows "te_tag e = tag \<longleftrightarrow> j = i"
  using replace_ok [OF assms(1,2)] tag_unique [of q' j e i] assms(3,4) by auto

definition sample_queue :: "string timer_queue" where
  "sample_queue = snd (schedule_at 3 ''c'' (snd (schedule_after_replace ''t'' 0 3 ''b'' (snd (schedule_at 1 ''a''
     (snd (schedule_after_ignored ''t'' 0 9 ''x'' new_queue)))))))"

lemma sample_calls: "queue_calls new_queue sample_queue"
proof -
  have "queue_step q (snd (schedule_at d cb q))" "queue_step q (snd (schedule_after_replace t n d cb q))"
    "queue_step q (snd (schedule_after_ignored t n d cb q))" for q :: "string timer_queue" and d n cb t
    by (metis queue_step.intros(1,3,4) prod.collapse)+
  then show ?thesis unfolding sample_queue_def by (meson r_into_rtranclp rtranclp.rtrancl_into_rtrancl)
qed

lemma sample_eq: "tq_deadlines sample_queue = [(1, 2), (3, 3), (3, 4)]"
    "map_of (tq_entries sample_queue) 2 = Some \<lparr>te_callback = ''a'', te_deadline = 1, te_tag = []\<rparr>"
    "map_of (tq_entries sample_queue) 3 = Some \<lparr>te_callback = ''b'', te_deadline = 3, te_tag = ''t''\<rparr>"
    "map_of (tq_entries sample_queue) 4 = Some \<lparr>te_callback = ''c'', te_deadline = 3, te_tag = []\<rparr>"
  by (simp_all add: sample_queue_def schedule_at_def schedule_after_replace_def schedule_after_ignored_def
      schedule_at_internal_def cancel_timer_def new_queue_def)

text \<open>Whatever was scheduled, cancelled and replaced before, a tick whose callbacks schedule only for later
  returns, and leaves no timer that is due.\<close>

theorem tick_ends:
  assumes "queue_calls new_queue q" "well_behaved run now"
  shows "\<exists>w' q'. tick run now w q = Some (w', q') \<and> (\<forall>x \<in> set (tq_deadlines q'). now < fst x)"
proof -
  have "queue_ok q" using queue_calls_ok [OF assms(1) new_queue_ok] .
  then obtain w' q' where "tick run now w q = Some (w', q')" "due now q' = []" using queue_tick_total [OF assms(2)] by blast
  then show ?thesis by (auto simp: due_def filter_empty_conv not_le)
qed

theorem tick_ends_witness:
  "\<exists>w' q'. tick (\<lambda>cb w q. (w @ cb, snd (schedule_at 9 cb q))) 5 [] sample_queue = Some (w', q') \<and>
    (\<forall>x \<in> set (tq_deadlines q'). 5 < fst x)"
proof (rule tick_ends [OF sample_calls])
  have Q: "queue_calls q (snd (schedule_at 9 cb q))" for q :: "string timer_queue" and cb
    by (rule r_into_rtranclp, rule queue_step.intros(1) [of 9 cb]) (rule prod.collapse [symmetric])
  have D: "set (due 5 (snd (schedule_at 9 cb q))) = set (due 5 q)" for q :: "string timer_queue" and cb
    by (auto simp: schedule_at_def schedule_at_internal_def due_def Let_def)
  show "well_behaved (\<lambda>cb (w :: string) q. (w @ cb, snd (schedule_at 9 cb q))) (5 :: int)"
    unfolding well_behaved_def using Q D by (simp add: split_def)
qed

text \<open>
  C36: A tick runs the due timers by deadline and, for equal deadlines, in the order they were
  scheduled, whatever its callbacks do with the queue: at each turn the timer that goes first of
  all timers then pending leaves the queue and its callback runs on what is left (\<open>ticks\<close>); each
  timer that is due at the start runs once, unless a callback that ran before took it away; and at
  the end none is due. The callbacks may schedule, replace and cancel, but only schedule for later
  than the tick's time (otherwise the tick need not end).
\<close>

theorem tick_order:
  assumes "queue_calls new_queue q" "well_behaved run now"
  shows "\<exists>xs gone w' q'. tick run now w q = Some (w', q') \<and> ticks run now w q xs gone w' q' \<and> sorted_wrt sooner xs \<and>
    set xs \<union> gone = set (due now q) \<and> set xs \<inter> gone = {} \<and> due now q' = []"
proof -
  have ok: "queue_ok q" using queue_calls_ok [OF assms(1) new_queue_ok] .
  from tick_traced [OF assms(2) ok, of w] ticks_order [OF _ assms(2) ok] show ?thesis by meson
qed

text \<open>A callback that cancels the timer behind it.\<close>

definition sample_run :: "string \<Rightarrow> string \<Rightarrow> string timer_queue \<Rightarrow> string \<times> string timer_queue" where
  "sample_run cb w q = (w @ cb, if cb = ''b'' then cancel_timer 4 q else q)"

lemma sample_run_ok: "well_behaved sample_run now"
proof -
  have "set (due now (cancel_timer 4 q)) \<subseteq> set (due now q)" for q :: "string timer_queue"
    by (auto simp: due_def cancel_timer_def dest: set_remove1_subset [THEN subsetD] split: option.split)
  then show ?thesis using queue_step.intros(5) [of _ 4] by (auto simp: well_behaved_def sample_run_def)
qed

theorem tick_order_witness:
  "\<exists>xs gone w' q'. tick sample_run 3 [] sample_queue = Some (w', q') \<and> sorted_wrt sooner xs \<and>
    set xs \<union> gone = {(1, 2), (3, 3), (3, 4)} \<and> set xs \<inter> gone = {} \<and> due 3 q' = []"
  using tick_order [OF sample_calls sample_run_ok [of 3], of "[]"] by (auto simp: due_def sample_eq)

end
