(* ===== verification/Td_State.thy ===== *)
theory Td_State
  imports Dz_Prelude "HOL-Library.Sublist"
begin

text \<open>
  The state machine of a trading account (\<open>apps/ctp/td/td_state.cpp\<close>): eleven states, the
  status shown to the user interface, and for each callback the transition with its notification.
  The Chinese texts are constructors; logging is left out.
\<close>

section \<open>State\<close>

datatype td_state = Idle | Connecting | Connected | Authenticating | Authenticated | LoggingIn | LoggedIn
  | Confirming | LoadingInstruments | Ready | Disconnected

datatype td_desc = Not_Started | Front_Connecting | Is_Connected | Authorising | Is_Authorised | User_Login
  | Is_Logged_In | Confirming_Settlement | Loading_Contracts | Is_Ready | Reconnecting

record ctp_status_ext =
  ext_api_version :: string
  ext_sys_version :: string

record td_status =
  ts_account_id :: string
  ts_date :: string
  ts_login_time :: string
  ts_state :: td_state
  ts_desc :: td_desc
  ts_min :: int
  ts_max :: int
  ts_current :: int
  ts_ext :: ctp_status_ext

datatype notify_level = Notify_Info | Notify_Warn | Notify_Error

datatype td_message = Trade_Disconnected | Trade_Connected | Trade_Broken int | Connect_Timeout | Authenticate_Failed
  | Trade_Logged_In | Trade_Login_Failed | Settlement_Failed string | Trade_Ready | Load_Failed string

record td_notification =
  tn_level :: notify_level
  tn_popup :: bool
  tn_message :: td_message

record td_machine =
  tm_status :: td_status
  tm_authenticated :: bool

datatype account_state = Account_Offline | Account_Logging_In | Account_Ready

section \<open>Transitions\<close>

definition upd_status :: "(td_status \<Rightarrow> td_status) \<Rightarrow> td_machine \<Rightarrow> td_machine" where
  "upd_status f m = m\<lparr>tm_status := f (tm_status m)\<rparr>"

definition tm_state :: "td_machine \<Rightarrow> td_state" where
  "tm_state m = ts_state (tm_status m)"

definition new_td_machine :: "td_machine" where
  "new_td_machine = \<lparr>tm_status = \<lparr>ts_account_id = [], ts_date = [], ts_login_time = [], ts_state = Idle, ts_desc = Not_Started,
     ts_min = 0, ts_max = 10, ts_current = 0, ts_ext = \<lparr>ext_api_version = [], ext_sys_version = []\<rparr>\<rparr>, tm_authenticated = False\<rparr>"

definition set_api_version :: "string \<Rightarrow> td_machine \<Rightarrow> td_machine" where
  "set_api_version v = upd_status (\<lambda>s. s\<lparr>ts_ext := (ts_ext s)\<lparr>ext_api_version := v\<rparr>\<rparr>)"

definition progress :: "td_desc \<Rightarrow> int \<Rightarrow> td_status \<Rightarrow> td_status" where
  "progress d n s = s\<lparr>ts_desc := d, ts_min := 0, ts_max := 10, ts_current := n\<rparr>"

definition enter_state :: "td_state \<Rightarrow> td_status \<Rightarrow> td_status" where
  "enter_state st s =
     (case st of
        Idle \<Rightarrow> (progress Not_Started 0 s)\<lparr>ts_login_time := [], ts_ext := (ts_ext s)\<lparr>ext_sys_version := []\<rparr>, ts_date := []\<rparr>
      | Connecting \<Rightarrow> progress Front_Connecting 1 s
      | Connected \<Rightarrow> progress Is_Connected 2 s
      | Authenticating \<Rightarrow> progress Authorising 3 s
      | Authenticated \<Rightarrow> progress Is_Authorised 4 s
      | LoggingIn \<Rightarrow> progress User_Login 5 s
      | LoggedIn \<Rightarrow> progress Is_Logged_In 6 s
      | Confirming \<Rightarrow> progress Confirming_Settlement 7 s
      | LoadingInstruments \<Rightarrow> progress Loading_Contracts 8 s
      | Ready \<Rightarrow> progress Is_Ready 10 s
      | Disconnected \<Rightarrow> progress Reconnecting 1 s)"

definition set_state :: "td_state \<Rightarrow> td_machine \<Rightarrow> td_machine" where
  "set_state st m =
     (if tm_state m = st then m else upd_status (\<lambda>s. enter_state st (s\<lparr>ts_state := st\<rparr>)) m)"

definition notify :: "notify_level \<Rightarrow> bool \<Rightarrow> td_message \<Rightarrow> td_notification option" where
  "notify l p t = Some \<lparr>tn_level = l, tn_popup = p, tn_message = t\<rparr>"

type_synonym td_outcome = "td_notification option \<times> td_machine"

definition on_connect :: "td_machine \<Rightarrow> td_outcome" where
  "on_connect m = (if tm_state m \<noteq> Idle then (None, m) else (None, set_state Connecting m))"

definition on_disconnect :: "td_machine \<Rightarrow> td_outcome" where
  "on_disconnect m =
     (if tm_state m = Idle then (None, m)
      else (notify Notify_Info False Trade_Disconnected, set_state Idle (m\<lparr>tm_authenticated := False\<rparr>)))"

definition on_front_connected :: "td_machine \<Rightarrow> td_outcome" where
  "on_front_connected m =
     (if tm_state m \<noteq> Connecting \<and> tm_state m \<noteq> Disconnected then (None, m)
      else (notify Notify_Info False Trade_Connected, set_state Connected m))"

definition on_front_disconnected :: "int \<Rightarrow> td_machine \<Rightarrow> td_outcome" where
  "on_front_disconnected reason m =
     (if tm_state m = Idle then (None, m)
      else if tm_state m = Disconnected then (None, m)
      else (notify Notify_Warn False (Trade_Broken reason), set_state Disconnected (m\<lparr>tm_authenticated := False\<rparr>)))"

definition on_connect_timeout :: "td_machine \<Rightarrow> td_outcome" where
  "on_connect_timeout m =
     (if tm_state m \<noteq> Connecting then (None, m)
      else (notify Notify_Error True Connect_Timeout, set_state Idle m))"

definition on_req_authenticate :: "td_machine \<Rightarrow> td_outcome" where
  "on_req_authenticate m =
     (if tm_state m \<noteq> Connected then (None, m) else (None, set_state Authenticating m))"

definition on_authenticate_success :: "td_machine \<Rightarrow> td_outcome" where
  "on_authenticate_success m =
     (if tm_state m \<noteq> Authenticating then (None, m)
      else (None, set_state Authenticated (m\<lparr>tm_authenticated := True\<rparr>)))"

definition on_authenticate_failed :: "td_machine \<Rightarrow> td_outcome" where
  "on_authenticate_failed m =
     (if tm_state m \<noteq> Authenticating then (None, m)
      else (notify Notify_Error True Authenticate_Failed, set_state Connected m))"

definition on_req_login :: "td_machine \<Rightarrow> td_outcome" where
  "on_req_login m =
     (if tm_state m \<noteq> Connected \<and> tm_state m \<noteq> Authenticated then (None, m) else (None, set_state LoggingIn m))"

definition on_login_success :: "string \<Rightarrow> string \<Rightarrow> string \<Rightarrow> td_machine \<Rightarrow> td_outcome" where
  "on_login_success sys_version date login_time m =
     (if tm_state m \<noteq> LoggingIn then (None, m)
      else (notify Notify_Info False Trade_Logged_In,
        set_state LoggedIn (upd_status (\<lambda>s. s\<lparr>ts_ext := (ts_ext s)\<lparr>ext_sys_version := sys_version\<rparr>,
          ts_date := date, ts_login_time := login_time\<rparr>) m)))"

definition on_login_failed :: "td_machine \<Rightarrow> td_outcome" where
  "on_login_failed m =
     (if tm_state m \<noteq> LoggingIn then (None, m)
      else let m1 = upd_status (\<lambda>s. s\<lparr>ts_login_time := []\<rparr>) m;
               rollback = (if tm_authenticated m then Authenticated else Connected)
           in (notify Notify_Error True Trade_Login_Failed, set_state rollback m1))"

definition on_req_settlement_confirm :: "td_machine \<Rightarrow> td_outcome" where
  "on_req_settlement_confirm m =
     (if tm_state m \<noteq> LoggedIn then (None, m) else (None, set_state Confirming m))"

definition on_settlement_confirmed :: "td_machine \<Rightarrow> td_outcome" where
  "on_settlement_confirmed m =
     (if tm_state m \<noteq> Confirming then (None, m) else (None, set_state LoadingInstruments m))"

definition on_settlement_confirm_failed :: "string \<Rightarrow> td_machine \<Rightarrow> td_outcome" where
  "on_settlement_confirm_failed err m =
     (if tm_state m \<noteq> Confirming then (None, m)
      else (notify Notify_Error True (Settlement_Failed err), set_state LoggedIn m))"

definition on_instruments_loaded :: "td_machine \<Rightarrow> td_outcome" where
  "on_instruments_loaded m =
     (if tm_state m \<noteq> LoadingInstruments then (None, m)
      else (notify Notify_Info False Trade_Ready, set_state Ready m))"

definition on_instruments_load_failed :: "string \<Rightarrow> td_machine \<Rightarrow> td_outcome" where
  "on_instruments_load_failed err m =
     (if tm_state m \<noteq> LoadingInstruments then (None, m)
      else (notify Notify_Error True (Load_Failed err), set_state LoggedIn m))"

definition account_state_of :: "td_state \<Rightarrow> account_state" where
  "account_state_of st =
     (case st of Idle \<Rightarrow> Account_Offline | Disconnected \<Rightarrow> Account_Offline | Ready \<Rightarrow> Account_Ready | _ \<Rightarrow> Account_Logging_In)"

section \<open>Runs\<close>

datatype td_event = Connect | Disconnect | Front_Connected | Front_Disconnected int | Connect_Timed_Out
  | Req_Authenticate | Authenticate_Ok | Authenticate_Failure | Req_Login | Login_Ok string string string | Login_Failure
  | Req_Confirm | Confirmed | Confirm_Failure string | Loaded | Load_Failure string | Api_Version string

fun td_step :: "td_event \<Rightarrow> td_machine \<Rightarrow> td_outcome" where
  "td_step Connect m = on_connect m"
| "td_step Disconnect m = on_disconnect m"
| "td_step Front_Connected m = on_front_connected m"
| "td_step (Front_Disconnected r) m = on_front_disconnected r m"
| "td_step Connect_Timed_Out m = on_connect_timeout m"
| "td_step Req_Authenticate m = on_req_authenticate m"
| "td_step Authenticate_Ok m = on_authenticate_success m"
| "td_step Authenticate_Failure m = on_authenticate_failed m"
| "td_step Req_Login m = on_req_login m"
| "td_step (Login_Ok v d t) m = on_login_success v d t m"
| "td_step Login_Failure m = on_login_failed m"
| "td_step Req_Confirm m = on_req_settlement_confirm m"
| "td_step Confirmed m = on_settlement_confirmed m"
| "td_step (Confirm_Failure e) m = on_settlement_confirm_failed e m"
| "td_step Loaded m = on_instruments_loaded m"
| "td_step (Load_Failure e) m = on_instruments_load_failed e m"
| "td_step (Api_Version v) m = (None, set_api_version v m)"

fun_cases td_stepE: "td_step e m = (n, m')"

definition td_run :: "td_event list \<Rightarrow> td_machine" where
  "td_run evs = foldl (\<lambda>m e. snd (td_step e m)) new_td_machine evs"

lemmas td_handler_defs = on_connect_def on_disconnect_def on_front_connected_def on_front_disconnected_def
  on_connect_timeout_def on_req_authenticate_def on_authenticate_success_def on_authenticate_failed_def
  on_req_login_def on_login_success_def on_login_failed_def on_req_settlement_confirm_def on_settlement_confirmed_def
  on_settlement_confirm_failed_def on_instruments_loaded_def on_instruments_load_failed_def set_api_version_def

lemma td_run_Nil [simp]: "td_run [] = new_td_machine"
  by (simp add: td_run_def)

lemma td_run_snoc [simp]: "td_run (evs @ [e]) = snd (td_step e (td_run evs))"
  by (simp add: td_run_def)

lemma state_set [simp]: "tm_state (set_state st m) = st"
  by (auto simp: set_state_def tm_state_def upd_status_def enter_state_def progress_def split: td_state.split)

lemma auth_set [simp]: "tm_authenticated (set_state st m) = tm_authenticated m"
  by (simp add: set_state_def upd_status_def)

lemma state_upd [simp]: "tm_state (m\<lparr>tm_authenticated := b\<rparr>) = tm_state m"
  "tm_state (upd_status f m) = ts_state (f (tm_status m))" "tm_authenticated (upd_status f m) = tm_authenticated m"
  by (simp_all add: tm_state_def upd_status_def)

text \<open>The abstract automaton: the next state depends on the state, the event and one bit.\<close>

definition next_state :: "bool \<Rightarrow> td_state \<Rightarrow> td_event \<Rightarrow> td_state" where
  "next_state a s e =
     (case e of
        Connect \<Rightarrow> if s = Idle then Connecting else s
      | Disconnect \<Rightarrow> Idle
      | Front_Connected \<Rightarrow> if s \<in> {Connecting, Disconnected} then Connected else s
      | Front_Disconnected r \<Rightarrow> if s = Idle then Idle else Disconnected
      | Connect_Timed_Out \<Rightarrow> if s = Connecting then Idle else s
      | Req_Authenticate \<Rightarrow> if s = Connected then Authenticating else s
      | Authenticate_Ok \<Rightarrow> if s = Authenticating then Authenticated else s
      | Authenticate_Failure \<Rightarrow> if s = Authenticating then Connected else s
      | Req_Login \<Rightarrow> if s \<in> {Connected, Authenticated} then LoggingIn else s
      | Login_Ok v d t \<Rightarrow> if s = LoggingIn then LoggedIn else s
      | Login_Failure \<Rightarrow> if s = LoggingIn then (if a then Authenticated else Connected) else s
      | Req_Confirm \<Rightarrow> if s = LoggedIn then Confirming else s
      | Confirmed \<Rightarrow> if s = Confirming then LoadingInstruments else s
      | Confirm_Failure err \<Rightarrow> if s = Confirming then LoggedIn else s
      | Loaded \<Rightarrow> if s = LoadingInstruments then Ready else s
      | Load_Failure err \<Rightarrow> if s = LoadingInstruments then LoggedIn else s
      | Api_Version v \<Rightarrow> s)"

lemma td_step_state: "tm_state (snd (td_step e m)) = next_state (tm_authenticated m) (tm_state m) e"
  by (cases e) (auto simp: td_handler_defs next_state_def Let_def, simp add: tm_state_def)

definition next_auth :: "bool \<Rightarrow> td_state \<Rightarrow> td_event \<Rightarrow> bool" where
  "next_auth a s e =
     (case e of
        Disconnect \<Rightarrow> if s = Idle then a else False
      | Front_Disconnected r \<Rightarrow> if s = Idle \<or> s = Disconnected then a else False
      | Authenticate_Ok \<Rightarrow> if s = Authenticating then True else a
      | _ \<Rightarrow> a)"

lemma td_step_auth: "tm_authenticated (snd (td_step e m)) = next_auth (tm_authenticated m) (tm_state m) e"
  by (cases e) (auto simp: td_handler_defs next_auth_def Let_def)

section \<open>The way to Ready\<close>

text \<open>What must have happened, in this order and uninterrupted, in each state.\<close>

fun shape :: "td_event \<Rightarrow> td_event" where
  "shape (Login_Ok v d t) = Login_Ok [] [] []"
| "shape e = e"

definition required :: "td_state \<Rightarrow> td_event list" where
  "required s =
     (let login = [Front_Connected, Req_Login, Login_Ok [] [] []] in
      case s of
        Idle \<Rightarrow> [] | Connecting \<Rightarrow> [] | Disconnected \<Rightarrow> []
      | Connected \<Rightarrow> [Front_Connected] | Authenticating \<Rightarrow> [Front_Connected] | Authenticated \<Rightarrow> [Front_Connected]
      | LoggingIn \<Rightarrow> [Front_Connected, Req_Login]
      | LoggedIn \<Rightarrow> login
      | Confirming \<Rightarrow> login @ [Req_Confirm]
      | LoadingInstruments \<Rightarrow> login @ [Req_Confirm, Confirmed]
      | Ready \<Rightarrow> login @ [Req_Confirm, Confirmed, Loaded])"

definition cut :: "td_event \<Rightarrow> bool" where
  "cut e \<longleftrightarrow> (case e of Disconnect \<Rightarrow> True | Front_Disconnected r \<Rightarrow> True | _ \<Rightarrow> False)"

lemma path_step: "\<not> cut e \<Longrightarrow> subseq (required (next_state a s e)) (required s @ [shape e])"
  by (cases e; cases s) (simp_all add: next_state_def required_def cut_def Let_def)

lemma path_cut: "cut e \<Longrightarrow> required (next_state a s e) = []"
  by (cases e) (auto simp: next_state_def required_def cut_def)

lemma td_run_path:
  "\<exists>pre post. evs = pre @ post \<and> subseq (required (tm_state (td_run evs))) (map shape post) \<and> (\<forall>e \<in> set post. \<not> cut e)"
proof (induction evs rule: rev_induct)
  case Nil
  then show ?case by (simp add: new_td_machine_def tm_state_def required_def)
next
  case (snoc e evs)
  then obtain pre post where p: "evs = pre @ post" "subseq (required (tm_state (td_run evs))) (map shape post)"
      "\<forall>e \<in> set post. \<not> cut e" by blast
  show ?case
  proof (cases "cut e")
    case True
    then have "required (tm_state (td_run (evs @ [e]))) = []" by (simp add: td_step_state path_cut)
    then show ?thesis by (metis append_Nil2 empty_iff empty_set subseq_order.refl list.map(1))
  next
    case False
    have "subseq (required (tm_state (td_run (evs @ [e])))) (required (tm_state (td_run evs)) @ [shape e])"
      using path_step [OF False] by (simp add: td_step_state)
    moreover have "subseq (required (tm_state (td_run evs)) @ [shape e]) (map shape (post @ [e]))"
      using p(2) by (simp add: list_emb_append_mono)
    ultimately have "subseq (required (tm_state (td_run (evs @ [e])))) (map shape (post @ [e]))"
      by (rule subseq_order.trans)
    moreover have "evs @ [e] = pre @ (post @ [e])" using p(1) by simp
    moreover have "\<forall>x \<in> set (post @ [e]). \<not> cut x" using p(3) False by simp
    ultimately show ?thesis by blast
  qed
qed

section \<open>The status shown\<close>

definition shown :: "td_state \<Rightarrow> td_desc \<times> int" where
  "shown s =
     (case s of Idle \<Rightarrow> (Not_Started, 0) | Connecting \<Rightarrow> (Front_Connecting, 1) | Connected \<Rightarrow> (Is_Connected, 2)
      | Authenticating \<Rightarrow> (Authorising, 3) | Authenticated \<Rightarrow> (Is_Authorised, 4) | LoggingIn \<Rightarrow> (User_Login, 5)
      | LoggedIn \<Rightarrow> (Is_Logged_In, 6) | Confirming \<Rightarrow> (Confirming_Settlement, 7) | LoadingInstruments \<Rightarrow> (Loading_Contracts, 8)
      | Ready \<Rightarrow> (Is_Ready, 10) | Disconnected \<Rightarrow> (Reconnecting, 1))"

definition status_ok :: "td_machine \<Rightarrow> bool" where
  "status_ok m \<longleftrightarrow> (let s = tm_status m in
     (ts_desc s, ts_current s) = shown (ts_state s) \<and> ts_min s = 0 \<and> ts_max s = 10 \<and>
     (ts_state s = Idle \<longrightarrow> ts_date s = [] \<and> ts_login_time s = [] \<and> ext_sys_version (ts_ext s) = []) \<and>
     (tm_authenticated m \<longrightarrow> ts_state s \<in> {Authenticated, LoggingIn, LoggedIn, Confirming, LoadingInstruments, Ready}))"

lemma enter_ok: "status_ok m \<Longrightarrow> st \<in> {Idle, Connecting, Connected, Authenticating, Disconnected} \<longrightarrow> \<not> tm_authenticated m' \<Longrightarrow>
    tm_state m' \<noteq> st \<Longrightarrow> status_ok (set_state st m')"
  by (cases st) (auto simp: set_state_def status_ok_def shown_def enter_state_def progress_def upd_status_def Let_def)

lemma status_step: "status_ok m \<Longrightarrow> status_ok (snd (td_step e m))"
proof -
  assume m: "status_ok m"
  then have a: "tm_authenticated m \<Longrightarrow> tm_state m \<in> {Authenticated, LoggingIn, LoggedIn, Confirming, LoadingInstruments, Ready}"
    by (auto simp: status_ok_def tm_state_def Let_def)
  show ?thesis
  proof (cases e)
    case (Api_Version v)
    then show ?thesis using m by (simp add: set_api_version_def upd_status_def status_ok_def Let_def)
  qed (use a m in \<open>auto simp: td_handler_defs Let_def tm_state_def [symmetric] intro!: enter_ok [OF m]\<close>)
qed

interpretation td: invariant_run "\<lambda>m e. snd (td_step e m)" status_ok
  by unfold_locales (rule status_step)

lemma new_status_ok: "status_ok new_td_machine"
  by (simp add: status_ok_def new_td_machine_def shown_def)

lemma td_run_status: "status_ok (td_run evs)"
  unfolding td_run_def by (rule td.run_inv [OF new_status_ok])

section \<open>Properties\<close>

text \<open>C28: An account that is ready has, since the last disconnection, been connected, logged in, had its settlement
  confirmed and its contracts loaded, in this order.\<close>

theorem ready_needs_login:
  assumes "account_state_of (tm_state (td_run evs)) = Account_Ready"
  shows "\<exists>pre post. evs = pre @ post \<and> (\<forall>e \<in> set post. \<not> cut e) \<and>
    subseq [Front_Connected, Req_Login, Login_Ok [] [] [], Req_Confirm, Confirmed, Loaded] (map shape post)"
proof -
  have "tm_state (td_run evs) = Ready" using assms by (simp add: account_state_of_def split: td_state.splits)
  then show ?thesis using td_run_path [of evs] by (auto simp: required_def Let_def)
qed

definition good_day :: "td_event list" where
  "good_day = [Connect, Front_Connected, Req_Authenticate, Authenticate_Ok, Req_Login, Login_Failure, Req_Login,
     Login_Ok ''v1'' ''20260105'' ''09:00:00'', Req_Confirm, Confirm_Failure ''x'', Req_Confirm, Confirmed, Loaded]"

theorem ready_needs_login_witness:
  "\<exists>pre post. good_day = pre @ post \<and>
    subseq [Front_Connected, Req_Login, Login_Ok [] [] [], Req_Confirm, Confirmed, Loaded] (map shape post)"
  using ready_needs_login [of good_day]
  by (fastforce simp: good_day_def td_run_def new_td_machine_def td_handler_defs set_state_def tm_state_def upd_status_def
      enter_state_def progress_def account_state_of_def)

text \<open>The progress shown is a function of the state, complete exactly for a ready account; an idle machine shows no
  date, login time or system version.\<close>

theorem status_tracks_state:
  defines "s \<equiv> \<lambda>evs. tm_status (td_run evs)"
  shows "(ts_desc (s evs), ts_current (s evs)) = shown (ts_state (s evs)) \<and> ts_min (s evs) = 0 \<and> ts_max (s evs) = 10 \<and>
    (ts_current (s evs) = ts_max (s evs) \<longleftrightarrow> account_state_of (ts_state (s evs)) = Account_Ready) \<and>
    (ts_state (s evs) \<noteq> Idle \<or> ts_date (s evs) = [] \<and> ts_login_time (s evs) = [] \<and> ext_sys_version (ts_ext (s evs)) = [])"
  using td_run_status [of evs]
  by (auto simp: status_ok_def s_def shown_def account_state_of_def Let_def split: td_state.splits)

theorem status_tracks_state_witness:
  "ts_current (tm_status (td_run good_day)) = ts_max (tm_status (td_run good_day))"
  using status_tracks_state [of good_day]
  by (simp add: good_day_def td_run_def new_td_machine_def td_handler_defs set_state_def tm_state_def upd_status_def
      enter_state_def progress_def account_state_of_def)

text \<open>After a broken connection the date of the last login stays in the status until the next one.\<close>

lemma stale_date:
  "ts_date (tm_status (td_run (good_day @ [Front_Disconnected 1]))) = ''20260105''"
  by (simp add: good_day_def td_run_def new_td_machine_def td_handler_defs set_state_def tm_state_def upd_status_def
      enter_state_def progress_def)

end
