(* ===== verification/Dz_Text.thy ===== *)
theory Dz_Text
  imports Dz_Prelude
begin

text \<open>
  Decimal numbers as the code writes and reads them (\<open>std::format\<close>, \<open>%012lld\<close>, \<open>std::stoll\<close>
  of a string of digits), and the calendar of \<open>std::chrono\<close>: shared by the gateways.
\<close>

section \<open>Digits\<close>

definition is_digit :: "char \<Rightarrow> bool" where
  "is_digit c \<longleftrightarrow> of_char c \<ge> (48 :: nat) \<and> of_char c \<le> (57 :: nat)"

definition digit_val :: "char \<Rightarrow> nat" where
  "digit_val c = of_char c - 48"

definition digit_char :: "nat \<Rightarrow> char" where
  "digit_char n = char_of (48 + n)"

lemma digit_char [simp]: "n < 10 \<Longrightarrow> is_digit (digit_char n) \<and> digit_val (digit_char n) = n"
  by (simp add: is_digit_def digit_val_def digit_char_def)

lemma digit_val_less: "is_digit c \<Longrightarrow> digit_val c < 10"
  by (auto simp: is_digit_def digit_val_def)

lemma digit_char_val [simp]: "is_digit c \<Longrightarrow> digit_char (digit_val c) = c"
  by (simp add: is_digit_def digit_val_def digit_char_def)

definition all_digits :: "string \<Rightarrow> bool" where
  "all_digits s \<longleftrightarrow> list_all is_digit s"

lemma all_digits_simps [simp]: "all_digits []" "all_digits (c # s) = (is_digit c \<and> all_digits s)"
  "all_digits (s @ t) = (all_digits s \<and> all_digits t)"
  by (simp_all add: all_digits_def)

definition decimal :: "string \<Rightarrow> nat" where
  "decimal s = foldl (\<lambda>n c. 10 * n + digit_val c) 0 s"

lemma decimal_Nil [simp]: "decimal [] = 0"
  by (simp add: decimal_def)

lemma decimal_snoc [simp]: "decimal (s @ [c]) = 10 * decimal s + digit_val c"
  by (simp add: decimal_def)

lemma decimal_append: "decimal (s @ t) = decimal s * 10 ^ length t + decimal t"
proof (induction t rule: rev_induct)
  case (snoc c t)
  then show ?case by (simp flip: append_assoc add: algebra_simps)
qed simp

lemma decimal_bound: "all_digits s \<Longrightarrow> decimal s < 10 ^ length s"
proof (induction s rule: rev_induct)
  case (snoc c s)
  then have "decimal s + 1 \<le> 10 ^ length s" "digit_val c < 10" using digit_val_less by auto
  then show ?case by simp
qed simp

lemma decimal_zeros [simp]: "decimal (replicate n (digit_char 0)) = 0"
  by (induction n) (simp_all add: replicate_append_same [symmetric])

fun show_nat :: "nat \<Rightarrow> string" where
  "show_nat n = (if n < 10 then [digit_char n] else show_nat (n div 10) @ [digit_char (n mod 10)])"

declare show_nat.simps [simp del]

definition show_int :: "int \<Rightarrow> string" where
  "show_int i = (if i < 0 then CHR ''-'' # show_nat (nat (- i)) else show_nat (nat i))"

lemma decimal_show [simp]: "decimal (show_nat n) = n"
proof (induction n rule: show_nat.induct)
  case (1 n)
  then show ?case by (subst show_nat.simps) (auto simp: decimal_def)
qed

lemma all_digits_show [simp]: "all_digits (show_nat n)"
proof (induction n rule: show_nat.induct)
  case (1 n)
  then show ?case by (subst show_nat.simps) auto
qed

lemma length_show: "length (show_nat n) \<le> k \<longleftrightarrow> n < 10 ^ k" if "0 < k"
  using that
proof (induction n arbitrary: k rule: show_nat.induct)
  case (1 n)
  show ?case
  proof (cases "n < 10")
    case True
    then have "n < 10 ^ k" using 1(2) self_le_power [of "10 :: nat" k] by linarith
    then show ?thesis using True 1(2) by (simp add: show_nat.simps)
  next
    case False
    obtain j where k: "k = Suc j" using 1(2) by (cases k) auto
    have len: "length (show_nat n) = Suc (length (show_nat (n div 10)))" using False by (simp add: show_nat.simps [of n])
    show ?thesis
    proof (cases "j = 0")
      case True
      have "show_nat (n div 10) \<noteq> []" by (simp add: show_nat.simps [of "n div 10"])
      then show ?thesis using len k True False by simp
    next
      case j: False
      then have "length (show_nat (n div 10)) \<le> j \<longleftrightarrow> n div 10 < 10 ^ j" using 1(1) False by simp
      also have "n div 10 < 10 ^ j \<longleftrightarrow> n < 10 ^ k" using k by (simp add: div_less_iff_less_mult mult.commute)
      finally show ?thesis using len k by simp
    qed
  qed
qed

text \<open>\<open>%0<w>lld\<close> for a non-negative number.\<close>

definition pad0 :: "nat \<Rightarrow> nat \<Rightarrow> string" where
  "pad0 w n = (let s = show_nat n in replicate (w - length s) (digit_char 0) @ s)"

lemma decimal_pad0 [simp]: "decimal (pad0 w n) = n"
  by (simp add: pad0_def decimal_append Let_def)

lemma all_digits_pad0 [simp]: "all_digits (pad0 w n)"
proof -
  have "all_digits (replicate k (digit_char 0))" for k by (induction k) simp_all
  then show ?thesis by (simp add: pad0_def Let_def)
qed

lemma length_pad0: "0 < w \<Longrightarrow> length (pad0 w n) = (if n < 10 ^ w then w else length (show_nat n))"
  using length_show [of w n] by (auto simp: pad0_def Let_def)

text \<open>A string of digits is determined by its length and its value.\<close>

lemma digits_inject:
  "all_digits s \<Longrightarrow> all_digits t \<Longrightarrow> length s = length t \<Longrightarrow> decimal s = decimal t \<Longrightarrow> s = t"
proof (induction s arbitrary: t rule: rev_induct)
  case (snoc c s)
  from snoc.prems(3) obtain u b where t: "t = u @ [b]" by (cases t rule: rev_cases) auto
  have c: "digit_val c < 10" "digit_val b < 10" using snoc.prems t digit_val_less by auto
  have e: "10 * decimal s + digit_val c = 10 * decimal u + digit_val b" using snoc.prems(4) t by simp
  then have "decimal s = decimal u" using c by presburger
  moreover from this e have "digit_val c = digit_val b" by simp
  then have "c = b" using snoc.prems(1,2) t digit_char_val by (metis all_digits_simps(2,3))
  ultimately show ?case using snoc t by simp
qed simp

lemma pad0_decimal: "all_digits t \<Longrightarrow> 0 < length t \<Longrightarrow> pad0 (length t) (decimal t) = t"
  by (rule digits_inject) (simp_all add: length_pad0 decimal_bound)

section \<open>The calendar\<close>

definition leap_year :: "int \<Rightarrow> bool" where
  "leap_year y \<longleftrightarrow> 4 dvd y \<and> (\<not> 100 dvd y \<or> 400 dvd y)"

definition month_days :: "int \<Rightarrow> nat \<Rightarrow> int" where
  "month_days y m = (if m = 2 then (if leap_year y then 29 else 28) else if m \<in> {4, 6, 9, 11} then 30 else 31)"

definition ymd_ok :: "int \<Rightarrow> nat \<Rightarrow> int \<Rightarrow> bool" where
  "ymd_ok y m d \<longleftrightarrow> 1 \<le> m \<and> m \<le> 12 \<and> 1 \<le> d \<and> d \<le> month_days y m"

text \<open>Days since 1 January 1970.\<close>

definition year_start :: "int \<Rightarrow> int" where
  "year_start y = 365 * (y - 1) + (y - 1) div 4 - (y - 1) div 100 + (y - 1) div 400 - 719162"

definition epoch_days :: "int \<Rightarrow> nat \<Rightarrow> int \<Rightarrow> int" where
  "epoch_days y m d = year_start y + sum_list (map (month_days y) [1 ..< m]) + d - 1"

text \<open>Two facts determine it: the origin, and that the next day of the calendar is one more.\<close>

definition next_day :: "int \<Rightarrow> nat \<Rightarrow> int \<Rightarrow> int \<times> nat \<times> int" where
  "next_day y m d =
     (if d < month_days y m then (y, m, d + 1) else if m < 12 then (y, m + 1, 1) else (y + 1, 1, 1))"

lemma epoch_origin: "epoch_days 1970 1 1 = 0"
  by (simp add: epoch_days_def year_start_def)

lemma div_pred: "0 < k \<Longrightarrow> (y - 1) div k = y div k - (if k dvd y then 1 else 0)" for k y :: int
proof (cases "k dvd y")
  case True
  assume k: "0 < k"
  have "y = k * (y div k)" using True by simp
  then have "y - 1 = k * (y div k - 1) + (k - 1)" by (simp add: algebra_simps)
  from int_div_pos_eq [OF this] k True show ?thesis by simp
next
  case False
  assume k: "0 < k"
  have "y mod k \<noteq> 0" using False by (simp add: dvd_eq_mod_eq_0)
  then have "0 < y mod k" using pos_mod_sign [OF k, of y] by linarith
  moreover have "y - 1 = k * (y div k) + (y mod k - 1)" by simp
  ultimately have "(y - 1) div k = y div k" using int_div_pos_eq [of "y - 1" k "y div k" "y mod k - 1"] k pos_mod_bound [OF k, of y] by simp
  then show ?thesis using False by simp
qed

lemma year_length: "year_start (y + 1) - year_start y = (if leap_year y then 366 else 365)"
proof -
  have "100 dvd y \<Longrightarrow> 4 dvd y" "400 dvd y \<Longrightarrow> 100 dvd y"
    using dvd_trans [of 4 100 y] dvd_trans [of 100 400 y] by simp_all
  moreover have "year_start (y + 1) - year_start y =
      365 + (if 4 dvd y then 1 else 0) - (if 100 dvd y then 1 else 0) + (if 400 dvd y then 1 else 0)"
    using div_pred [of 4 y] div_pred [of 100 y] div_pred [of 400 y] by (simp add: year_start_def)
  ultimately show ?thesis unfolding leap_year_def by (cases "4 dvd y"; cases "100 dvd y"; cases "400 dvd y") simp_all
qed

lemma months_sum: "sum_list (map (month_days y) [1 ..< 13]) = (if leap_year y then 366 else 365)"
  by (simp add: month_days_def upt_rec)

lemma epoch_next:
  assumes "ymd_ok y m d" "next_day y m d = (y', m', d')"
  shows "ymd_ok y' m' d' \<and> epoch_days y' m' d' = epoch_days y m d + 1"
proof -
  have pos: "1 \<le> month_days y k" for y k by (simp add: month_days_def)
  consider "d < month_days y m" | "d = month_days y m" "m < 12" | "d = month_days y m" "m = 12"
    using assms(1) by (fastforce simp: ymd_ok_def)
  then show ?thesis
  proof cases
    case 1
    then show ?thesis using assms by (auto simp: next_day_def ymd_ok_def epoch_days_def)
  next
    case 2
    then have "[1 ..< Suc m] = [1 ..< m] @ [m]" using assms(1) by (simp add: ymd_ok_def)
    then show ?thesis using 2 assms pos by (auto simp: next_day_def ymd_ok_def epoch_days_def)
  next
    case 3
    have "[1 ..< 13] = [1 ..< 12] @ [12]" by (simp add: upt_rec)
    then have "sum_list (map (month_days y) [1 ..< 12]) + month_days y 12 = (if leap_year y then 366 else 365)"
      using months_sum [of y] by simp
    then show ?thesis using 3 assms pos year_length [of y] by (auto simp: next_day_def ymd_ok_def epoch_days_def)
  qed
qed

text \<open>The text of a date.\<close>

definition ymd_text :: "int \<Rightarrow> nat \<Rightarrow> int \<Rightarrow> string" where
  "ymd_text y m d = pad0 4 (nat y) @ pad0 2 m @ pad0 2 (nat d)"

lemma ymd_text_parse:
  assumes "0 \<le> y" "y \<le> 9999" "ymd_ok y m d"
  shows "length (ymd_text y m d) = 8 \<and> all_digits (ymd_text y m d) \<and> decimal (take 4 (ymd_text y m d)) = nat y \<and>
    decimal (take 2 (drop 4 (ymd_text y m d))) = m \<and> decimal (drop 6 (ymd_text y m d)) = nat d"
proof -
  have "d \<le> 31" "m \<le> 12" using assms(3) by (auto simp: ymd_ok_def month_days_def split: if_splits)
  then have "nat y < 10 ^ 4" "m < 10 ^ 2" "nat d < 10 ^ 2" using assms(1,2) by auto
  then have "length (pad0 4 (nat y)) = 4" "length (pad0 2 m) = 2" "length (pad0 2 (nat d)) = 2"
    by (simp_all add: length_pad0)
  then show ?thesis by (simp add: ymd_text_def)
qed

text \<open>\<open>Date::from_year_month_day\<close>: \<open>None\<close> is the exception.\<close>

definition from_year_month_day :: "int \<Rightarrow> int \<Rightarrow> int \<Rightarrow> int option" where
  "from_year_month_day y m d =
     (if y < - 32767 \<or> 32767 < y \<or> m < 1 \<or> 12 < m \<or> d < 1 \<or> 31 < d then None
      else if \<not> ymd_ok y (nat m) d then None
      else Some (epoch_days y (nat m) d))"

section \<open>From days to dates\<close>

text \<open>
  The year of a day is estimated from the mean length of a year and corrected by one.
\<close>

definition year_of :: "int \<Rightarrow> int" where
  "year_of n =
     (let y = (n + 719162) * 400 div 146097 + 1
      in if n < year_start y then y - 1 else if year_start (y + 1) \<le> n then y + 1 else y)"

fun month_of :: "nat \<Rightarrow> int \<Rightarrow> nat \<Rightarrow> int \<Rightarrow> nat \<times> int" where
  "month_of 0 y m d = (m, d)"
| "month_of (Suc k) y m d = (if d < month_days y m then (m, d) else month_of k y (Suc m) (d - month_days y m))"

definition civil :: "int \<Rightarrow> int \<times> nat \<times> int" where
  "civil n = (let y = year_of n; (m, d) = month_of 11 y 1 (n - year_start y) in (y, m, d + 1))"

lemma year_start_mono1: "year_start y < year_start (y + 1)"
  using year_length [of y] by (auto split: if_splits)

lemma year_below:
  fixes a b c x N :: int
  assumes "4 * a \<le> x" "x < 100 * b + 100" "400 * c \<le> x" "146097 * (x + 1) \<le> 400 * N"
  shows "365 * x + a - b + c \<le> N"
proof -
  have "400 * a \<le> 100 * x" "400 * c \<le> x" "4 * x \<le> 400 * b + 400" "146097 * x + 146097 \<le> 400 * N" using assms by auto
  then have "146000 * x + 400 * a - 400 * b + 400 * c \<le> 400 * N" by linarith
  then show ?thesis by linarith
qed

lemma year_above:
  fixes a b c x N :: int
  assumes "x < 4 * a + 4" "100 * b \<le> x" "x < 400 * c + 400" "400 * N < 146097 * (x - 1)"
  shows "N < 365 * x + a - b + c"
proof -
  have "100 * x \<le> 400 * a + 400" "x \<le> 400 * c + 400" "400 * b \<le> 4 * x" "400 * N < 146097 * x - 146097" using assms by auto
  then have "400 * N < 146000 * x + 400 * a - 400 * b + 400 * c" by linarith
  then show ?thesis by linarith
qed

lemma year_of: "year_start (year_of n) \<le> n \<and> n < year_start (year_of n + 1)"
proof -
  define N where "N = n + 719162"
  define z where "z = N * 400 div 146097"
  define f where "f x = 365 * x + x div 4 - x div 100 + x div 400" for x :: int
  have f: "year_start (x + 1) = f x - 719162" for x by (simp add: year_start_def f_def)
  have z: "146097 * z \<le> 400 * N" "400 * N < 146097 * z + 146097"
    using div_mult_mod_eq [of "N * 400" 146097] pos_mod_bound [of 146097 "N * 400"] pos_mod_sign [of 146097 "N * 400"]
    unfolding z_def by linarith+
  have d: "4 * (x div 4) \<le> x" "x < 4 * (x div 4) + 4" "100 * (x div 100) \<le> x" "x < 100 * (x div 100) + 100"
    "400 * (x div 400) \<le> x" "x < 400 * (x div 400) + 400" for x :: int by linarith+
  have lo: "f (z - 1) \<le> N" unfolding f_def using d [of "z - 1"] z by (intro year_below) simp_all
  have hi: "N < f (z + 2)" unfolding f_def using d [of "z + 2"] z by (intro year_above) simp_all
  have "year_of n = (if N < f z then z else if f (z + 1) \<le> N then z + 2 else z + 1)"
    using f [of z] f [of "z + 1"] by (auto simp: year_of_def Let_def N_def z_def algebra_simps)
  then show ?thesis
    using lo hi f [of "z - 1"] f [of z] f [of "z + 1"] f [of "z + 2"] by (auto simp: N_def algebra_simps split: if_splits)
qed

lemma month_of:
  assumes "1 \<le> m" "0 \<le> d" "d < sum_list (map (month_days y) [m ..< m + Suc k])"
  shows "case month_of k y m d of (m', d') \<Rightarrow>
    m \<le> m' \<and> m' \<le> m + k \<and> 0 \<le> d' \<and> d' < month_days y m' \<and> sum_list (map (month_days y) [m ..< m']) + d' = d"
  using assms
proof (induction k arbitrary: m d)
  case 0
  then show ?case by simp
next
  case (Suc k)
  show ?case
  proof (cases "d < month_days y m")
    case True
    then show ?thesis using Suc.prems by simp
  next
    case False
    have up: "[m ..< m + Suc (Suc k)] = m # [Suc m ..< Suc m + Suc k]" by (simp add: upt_conv_Cons del: upt_Suc)
    obtain m' d' where r: "month_of k y (Suc m) (d - month_days y m) = (m', d')" by fastforce
    have "d - month_days y m < sum_list (map (month_days y) [Suc m ..< Suc m + Suc k])"
      using Suc.prems(3) unfolding up by simp
    then have ih: "Suc m \<le> m' \<and> m' \<le> Suc m + k \<and> 0 \<le> d' \<and> d' < month_days y m' \<and>
        sum_list (map (month_days y) [Suc m ..< m']) + d' = d - month_days y m"
      using Suc.IH [of "Suc m" "d - month_days y m"] Suc.prems False r by simp
    have "[m ..< m'] = m # [Suc m ..< m']" using ih by (simp add: upt_conv_Cons)
    then show ?thesis using ih False r by simp
  qed
qed

lemma civil:
  assumes "civil n = (y, m, d)"
  shows "ymd_ok y m d \<and> epoch_days y m d = n"
proof -
  obtain m' d' where r: "month_of 11 (year_of n) 1 (n - year_start (year_of n)) = (m', d')" by fastforce
  have len: "n - year_start (year_of n) < sum_list (map (month_days (year_of n)) [1 ..< 1 + Suc 11])"
    using year_of [of n] year_length [of "year_of n"] months_sum [of "year_of n"] by simp
  have "1 \<le> m' \<and> m' \<le> 12 \<and> 0 \<le> d' \<and> d' < month_days (year_of n) m' \<and>
      sum_list (map (month_days (year_of n)) [1 ..< m']) + d' = n - year_start (year_of n)"
    using month_of [of 1 "n - year_start (year_of n)" "year_of n" 11] len year_of [of n] r by simp
  then show ?thesis using assms r by (auto simp: civil_def ymd_ok_def epoch_days_def Let_def)
qed

text \<open>\<open>{:04d}{:02d}{:02d}\<close> cut to eight characters.\<close>

definition pad_int :: "nat \<Rightarrow> int \<Rightarrow> string" where
  "pad_int w i = (if i < 0 then CHR ''-'' # pad0 (w - 1) (nat (- i)) else pad0 w (nat i))"

definition pad_day :: "int \<Rightarrow> string" where
  "pad_day n = (case civil n of (y, m, d) \<Rightarrow> take 8 (pad_int 4 y @ pad0 2 m @ pad_int 2 d))"

lemma epoch_year_bounds: "ymd_ok y m d \<Longrightarrow> year_start y \<le> epoch_days y m d \<and> epoch_days y m d < year_start (y + 1)"
proof -
  assume ok: "ymd_ok y m d"
  have pos: "0 \<le> month_days y k" for k by (simp add: month_days_def)
  have s: "[1 ..< 13] = [1 ..< m] @ m # [Suc m ..< 13]"
    using ok upt_add_eq_append [of 1 m "13 - m"] by (simp add: ymd_ok_def upt_conv_Cons del: upt_Suc)
  have "0 \<le> sum_list (map (month_days y) [Suc m ..< 13])" using pos by (intro sum_list_nonneg) auto
  then have "sum_list (map (month_days y) [1 ..< m]) + month_days y m \<le> sum_list (map (month_days y) [1 ..< 13])"
    unfolding s map_append sum_list.append list.map sum_list.Cons by linarith
  moreover have "0 \<le> sum_list (map (month_days y) [1 ..< m])" using pos by (intro sum_list_nonneg) auto
  ultimately show ?thesis using ok months_sum [of y] year_length [of y] by (auto simp: epoch_days_def ymd_ok_def)
qed

lemma year_start_mono: "y \<le> y' \<Longrightarrow> year_start y \<le> year_start y'"
proof (induction "nat (y' - y)" arbitrary: y')
  case (Suc k)
  then have "year_start y \<le> year_start (y' - 1)" by simp
  then show ?case using year_start_mono1 [of "y' - 1"] by simp
qed simp

text \<open>Within the four-digit years the text is the calendar date in eight digits.\<close>

lemma pad_day:
  assumes "0 \<le> n" "n < 2932897"
  obtains y m d where "ymd_ok y m d" "epoch_days y m d = n" "1970 \<le> y" "y \<le> 9999"
    "pad_day n = ymd_text y m d"
proof -
  obtain y m d where c: "civil n = (y, m, d)" by (cases "civil n")
  note ok = civil [OF c]
  have b: "year_start y \<le> n" "n < year_start (y + 1)" using ok epoch_year_bounds by auto
  have y: "1970 \<le> y" "y \<le> 9999"
  proof -
    have "year_start 1970 = 0" "year_start 10000 = 2932897" by (simp_all add: year_start_def)
    then have "\<not> y + 1 \<le> 1970" "\<not> 10000 \<le> y"
      using year_start_mono [of "y + 1" 1970] year_start_mono [of 10000 y] b assms by linarith+
    then show "1970 \<le> y" "y \<le> 9999" by simp_all
  qed
  have "d \<le> 31" "m \<le> 12" "1 \<le> d" using ok by (auto simp: ymd_ok_def month_days_def split: if_splits)
  then have "length (pad0 4 (nat y)) = 4" "length (pad0 2 m) = 2" "length (pad0 2 (nat d)) = 2"
    using y by (auto simp: length_pad0)
  then have "pad_day n = ymd_text y m d"
    using y \<open>1 \<le> d\<close> by (simp add: pad_day_def ymd_text_def c pad_int_def)
  then show ?thesis using that ok y by blast
qed

section \<open>Bounded copies\<close>

datatype copy_code = Copy_Ok | Copy_Invalid | Copy_Too_Small

text \<open>
  The first component is the C string left in the destination, \<open>None\<close> when nothing is written.
\<close>

definition copy_string :: "nat \<Rightarrow> string option \<Rightarrow> bool \<Rightarrow> string option \<times> copy_code" where
  "copy_string n src trunc =
     (if n = 0 then (None, Copy_Invalid)
      else case src of
        None \<Rightarrow> (Some [], Copy_Invalid)
      | Some s \<Rightarrow>
          if length s < n then (Some s, Copy_Ok)
          else if trunc then (Some (take (n - 1) s), Copy_Too_Small)
          else (Some [], Copy_Too_Small))"

text \<open>What a truncating copy leaves in an array of \<open>n\<close> bytes.\<close>

definition fit :: "nat \<Rightarrow> string \<Rightarrow> string" where
  "fit n s = the (fst (copy_string n (Some s) True))"

lemma fit: "0 < n \<Longrightarrow> fit n s = take (n - 1) s"
  by (simp add: fit_def copy_string_def)

lemma fit_id [simp]: "length s < n \<Longrightarrow> fit n s = s"
  by (auto simp: fit)

lemma length_fit: "0 < n \<Longrightarrow> length (fit n s) < n"
  by (simp add: fit)

text \<open>A text given by its UTF-8 bytes.\<close>

definition utf8 :: "nat list \<Rightarrow> string" where
  "utf8 bs = map char_of bs"

end
