(* ===== verification/Md_State.thy ===== *)
theory Md_State
  imports Dz_Text
begin

text \<open>
  The state machine of the market data gateway (\<open>apps/ctp/md/md_state.cpp\<close>), with the last
  failure it reports, and the parsing of a trading day. The clock is an argument; Chinese texts
  are constructors, where they are not part of another text; logging is left out.
\<close>

section \<open>Texts\<close>

datatype md_failure = Failed_Connect | Login_Rejected | Login_Timeout | Login_Parse_Error

definition md_failure_code_str :: "md_failure \<Rightarrow> string" where
  "md_failure_code_str c =
     (case c of Failed_Connect \<Rightarrow> ''connect_timeout'' | Login_Rejected \<Rightarrow> ''login_rejected''
      | Login_Timeout \<Rightarrow> ''login_timeout'' | Login_Parse_Error \<Rightarrow> ''login_parse_error'')"

definition disconnect_reason_str :: "int \<Rightarrow> string" where
  "disconnect_reason_str r =
     (if r = 0x1001 then ''network read failed''
      else if r = 0x1002 then ''network write failed''
      else if r = 0x2001 then ''heartbeat receive timeout''
      else if r = 0x2002 then ''heartbeat send failed''
      else if r = 0x2003 then ''invalid packet received''
      else ''unknown: '' @ show_int r)"

text \<open>A trading day \<open>YYYYMMDD\<close> in days since 1970; \<open>None\<close> is the exception.\<close>

definition trading_day_to_days :: "string \<Rightarrow> int option" where
  "trading_day_to_days s =
     (if length s \<noteq> 8 then None
      else if \<not> all_digits s then None
      else let dig = \<lambda>i. int (digit_val (s ! i));
               y = dig 0 * 1000 + dig 1 * 100 + dig 2 * 10 + dig 3;
               m = dig 4 * 10 + dig 5;
               d = dig 6 * 10 + dig 7
           in if m < 1 \<or> 12 < m \<or> d < 1 \<or> 31 < d then None
              else if \<not> ymd_ok y (nat m) d then None
              else Some (epoch_days y (nat m) d))"

section \<open>State\<close>

datatype md_state = MIdle | MConnecting | MConnected | MLoggingIn | MLoggedIn | MLoginFailed | MDisconnected

datatype md_desc = Not_Logged_In | Front_Connecting | Is_Connected | User_Login | Is_Logged_In | Login_Failed | Reconnecting

record md_last_error =
  le_code :: string
  le_message :: string
  le_error_id :: int
  le_timestamp :: int

record md_status =
  ms_api_version :: string
  ms_sys_version :: string
  ms_trading_day :: string
  ms_login_time :: string
  ms_state :: md_state
  ms_last_error :: "md_last_error option"
  ms_desc :: md_desc
  ms_min :: int
  ms_max :: int
  ms_current :: int
  ms_expected :: nat
  ms_subscribed :: nat

datatype md_message = Md_Connect_Timeout string | Md_Disconnected | Md_Connected | Md_Broken string | Md_Logged_In
  | Md_Login_Timeout string | Md_Login_Failed string | Md_Server_Logout

datatype md_level = Md_Info | Md_Warn | Md_Error

record md_notification =
  mn_level :: md_level
  mn_message :: md_message
  mn_popup :: bool

text \<open>The two fixed texts that become part of other texts, as their UTF-8 bytes.\<close>

definition connect_timeout_detail :: string where
  "connect_timeout_detail =
    ''30 '' @ [CHR 0xE7, CHR 0xA7, CHR 0x92, CHR 0xE5, CHR 0x86, CHR 0x85, CHR 0xE6, CHR 0x9C, CHR 0xAA, CHR 0xE8,
    CHR 0xBF, CHR 0x9E, CHR 0xE6, CHR 0x8E, CHR 0xA5, CHR 0xE4, CHR 0xB8, CHR 0x8A, CHR 0xE5, CHR 0x89, CHR 0x8D,
    CHR 0xE7, CHR 0xBD, CHR 0xAE]"

definition error_code_text :: "int \<Rightarrow> string" where
  "error_code_text e =
    [CHR 0xE9, CHR 0x94, CHR 0x99, CHR 0xE8, CHR 0xAF, CHR 0xAF, CHR 0xE7, CHR 0xA0, CHR 0x81] @ '' '' @ show_int e"

definition new_md_machine :: md_status where
  "new_md_machine = \<lparr>ms_api_version = [], ms_sys_version = [], ms_trading_day = [], ms_login_time = [], ms_state = MIdle,
     ms_last_error = None, ms_desc = Not_Logged_In, ms_min = 0, ms_max = 4, ms_current = 0, ms_expected = 0, ms_subscribed = 0\<rparr>"

definition md_progress :: "md_desc \<Rightarrow> int \<Rightarrow> md_status \<Rightarrow> md_status" where
  "md_progress d n s = s\<lparr>ms_desc := d, ms_min := 0, ms_max := 4, ms_current := n\<rparr>"

definition md_enter :: "md_state \<Rightarrow> md_status \<Rightarrow> md_status" where
  "md_enter st s =
     (case st of
        MIdle \<Rightarrow> (md_progress Not_Logged_In 0 s)\<lparr>ms_login_time := [], ms_sys_version := [], ms_trading_day := [], ms_subscribed := 0\<rparr>
      | MConnecting \<Rightarrow> md_progress Front_Connecting 1 s
      | MConnected \<Rightarrow> md_progress Is_Connected 2 s
      | MLoggingIn \<Rightarrow> md_progress User_Login 3 s
      | MLoggedIn \<Rightarrow> md_progress Is_Logged_In 4 s
      | MLoginFailed \<Rightarrow> md_progress Login_Failed 2 s
      | MDisconnected \<Rightarrow> (md_progress Reconnecting 1 s)\<lparr>ms_subscribed := 0\<rparr>)"

definition md_set_state :: "md_state \<Rightarrow> md_status \<Rightarrow> md_status" where
  "md_set_state st s = (if ms_state s = st then s else md_enter st (s\<lparr>ms_state := st\<rparr>))"

definition set_last_error :: "int \<Rightarrow> md_failure \<Rightarrow> string \<Rightarrow> int \<Rightarrow> md_status \<Rightarrow> md_status" where
  "set_last_error now c msg eid s = s\<lparr>ms_last_error :=
     Some \<lparr>le_code = md_failure_code_str c, le_message = msg, le_error_id = eid, le_timestamp = now\<rparr>\<rparr>"

definition can_login :: "md_status \<Rightarrow> bool" where
  "can_login s \<longleftrightarrow> ms_state s = MConnected \<or> ms_state s = MLoginFailed"

definition md_notify :: "md_level \<Rightarrow> md_message \<Rightarrow> bool \<Rightarrow> md_notification option" where
  "md_notify l t p = Some \<lparr>mn_level = l, mn_message = t, mn_popup = p\<rparr>"

section \<open>Transitions\<close>

type_synonym md_outcome = "md_notification option \<times> md_status"

definition md_on_connect :: "md_status \<Rightarrow> md_outcome" where
  "md_on_connect s =
     (if ms_state s \<noteq> MIdle then (None, s) else (None, md_set_state MConnecting (s\<lparr>ms_last_error := None\<rparr>)))"

definition md_on_connect_timeout :: "int \<Rightarrow> md_status \<Rightarrow> md_outcome" where
  "md_on_connect_timeout now s =
     (if ms_state s \<noteq> MConnecting then (None, s)
      else (md_notify Md_Warn (Md_Connect_Timeout connect_timeout_detail) False,
            md_set_state MIdle (set_last_error now Failed_Connect connect_timeout_detail 0 s)))"

definition md_on_disconnect :: "md_status \<Rightarrow> md_outcome" where
  "md_on_disconnect s =
     (if ms_state s = MIdle then (None, s) else (md_notify Md_Info Md_Disconnected False, md_set_state MIdle s))"

definition md_on_front_connected :: "md_status \<Rightarrow> md_outcome" where
  "md_on_front_connected s =
     (if ms_state s \<noteq> MConnecting \<and> ms_state s \<noteq> MDisconnected then (None, s)
      else (md_notify Md_Info Md_Connected False, md_set_state MConnected s))"

definition md_on_front_disconnected :: "int \<Rightarrow> md_status \<Rightarrow> md_outcome" where
  "md_on_front_disconnected reason s =
     (if ms_state s = MIdle then (None, s)
      else (md_notify Md_Warn (Md_Broken (disconnect_reason_str reason)) False, md_set_state MDisconnected s))"

definition md_on_req_login :: "md_status \<Rightarrow> md_outcome" where
  "md_on_req_login s =
     (if \<not> can_login s then (None, s) else (None, md_set_state MLoggingIn (s\<lparr>ms_last_error := None\<rparr>)))"

definition md_on_login_success :: "string \<Rightarrow> string \<Rightarrow> string \<Rightarrow> md_status \<Rightarrow> md_outcome" where
  "md_on_login_success sys_version day login_time s =
     (if ms_state s \<noteq> MLoggingIn then (None, s)
      else (md_notify Md_Info Md_Logged_In False,
            md_set_state MLoggedIn (s\<lparr>ms_sys_version := sys_version, ms_trading_day := day, ms_login_time := login_time,
              ms_last_error := None\<rparr>)))"

definition md_on_login_failed :: "int \<Rightarrow> md_failure \<Rightarrow> string \<Rightarrow> int \<Rightarrow> md_status \<Rightarrow> md_outcome" where
  "md_on_login_failed now c msg eid s =
     (if ms_state s \<noteq> MLoggingIn then (None, s)
      else let s1 = set_last_error now c msg eid (s\<lparr>ms_login_time := []\<rparr>);
               detail = (if msg = [] then error_code_text eid else msg)
           in (md_notify Md_Error (if c = Login_Timeout then Md_Login_Timeout detail else Md_Login_Failed detail) True,
               md_set_state MLoginFailed s1))"

definition md_on_server_logout :: "md_status \<Rightarrow> md_outcome" where
  "md_on_server_logout s =
     (if ms_state s \<noteq> MLoggedIn then (None, s) else (md_notify Md_Warn Md_Server_Logout True, md_set_state MConnected s))"

definition set_subscription_stats :: "nat \<Rightarrow> nat \<Rightarrow> md_status \<Rightarrow> md_status" where
  "set_subscription_stats expected subscribed s = s\<lparr>ms_expected := expected, ms_subscribed := subscribed\<rparr>"

text \<open>The fields of the status message, in order.\<close>

datatype md_json = JText string | JNumber int | JNull | JError md_last_error

definition build_md_status_payload :: "md_status \<Rightarrow> (string \<times> md_json) list" where
  "build_md_status_payload s =
     [(''api_version'', JText (ms_api_version s)), (''sys_version'', JText (ms_sys_version s)),
      (''date'', JText (ms_trading_day s)), (''login_time'', JText (ms_login_time s)),
      (''expected_subscribe_count'', JNumber (int (ms_expected s))), (''subscribed_count'', JNumber (int (ms_subscribed s))),
      (''last_error'', case ms_last_error s of None \<Rightarrow> JNull | Some e \<Rightarrow> JError e)]"

section \<open>Runs\<close>

datatype md_event = Md_Connect | Md_Connect_Timed_Out int | Md_Disconnect | Md_Front_Connected | Md_Front_Disconnected int
  | Md_Req_Login | Md_Login_Ok string string string | Md_Login_Failure int md_failure string int | Md_Logout | Md_Stats nat nat

fun md_step :: "md_event \<Rightarrow> md_status \<Rightarrow> md_outcome" where
  "md_step Md_Connect s = md_on_connect s"
| "md_step (Md_Connect_Timed_Out now) s = md_on_connect_timeout now s"
| "md_step Md_Disconnect s = md_on_disconnect s"
| "md_step Md_Front_Connected s = md_on_front_connected s"
| "md_step (Md_Front_Disconnected r) s = md_on_front_disconnected r s"
| "md_step Md_Req_Login s = md_on_req_login s"
| "md_step (Md_Login_Ok v d t) s = md_on_login_success v d t s"
| "md_step (Md_Login_Failure now c msg eid) s = md_on_login_failed now c msg eid s"
| "md_step Md_Logout s = md_on_server_logout s"
| "md_step (Md_Stats e n) s = (None, set_subscription_stats e n s)"

definition md_run :: "md_event list \<Rightarrow> md_status" where
  "md_run evs = foldl (\<lambda>s e. snd (md_step e s)) new_md_machine evs"

lemmas md_handler_defs = md_on_connect_def md_on_connect_timeout_def md_on_disconnect_def md_on_front_connected_def
  md_on_front_disconnected_def md_on_req_login_def md_on_login_success_def md_on_login_failed_def md_on_server_logout_def
  set_subscription_stats_def can_login_def md_set_state_def md_enter_def md_progress_def set_last_error_def

definition md_shown :: "md_state \<Rightarrow> md_desc \<times> int" where
  "md_shown s =
     (case s of MIdle \<Rightarrow> (Not_Logged_In, 0) | MConnecting \<Rightarrow> (Front_Connecting, 1) | MConnected \<Rightarrow> (Is_Connected, 2)
      | MLoggingIn \<Rightarrow> (User_Login, 3) | MLoggedIn \<Rightarrow> (Is_Logged_In, 4) | MLoginFailed \<Rightarrow> (Login_Failed, 2)
      | MDisconnected \<Rightarrow> (Reconnecting, 1))"

text \<open>Progress is a function of the state; an attempt under way or a success shows no failure, a failed login
  shows one.\<close>

definition md_ok :: "md_status \<Rightarrow> bool" where
  "md_ok s \<longleftrightarrow> (ms_desc s, ms_current s) = md_shown (ms_state s) \<and> ms_min s = 0 \<and> ms_max s = 4 \<and>
     (ms_state s \<in> {MConnecting, MLoggingIn, MLoggedIn} \<longrightarrow> ms_last_error s = None) \<and>
     (ms_state s = MLoginFailed \<longrightarrow> ms_last_error s \<noteq> None \<and> ms_login_time s = []) \<and>
     (ms_state s = MIdle \<longrightarrow> ms_trading_day s = [] \<and> ms_login_time s = [] \<and> ms_sys_version s = [])"

lemma md_step_ok: "md_ok s \<Longrightarrow> md_ok (snd (md_step e s))"
  by (cases e; cases "ms_state s") (auto simp: md_handler_defs md_ok_def md_shown_def Let_def)

interpretation md: invariant_run "\<lambda>s e. snd (md_step e s)" md_ok
  by unfold_locales (rule md_step_ok)

lemma md_run_ok: "md_ok (md_run evs)"
  unfolding md_run_def by (rule md.run_inv) (simp add: md_ok_def new_md_machine_def md_shown_def)

section \<open>Properties\<close>

text \<open>The progress numbers, from which the front end derives the login state, are complete exactly when logged in and
  minimal exactly when idle; a running attempt and a login show no failure, a failed login shows one and no login time.\<close>

theorem md_status_tracks_state:
  defines "s \<equiv> \<lambda>evs. md_run evs"
  shows "(ms_current (s evs) = ms_max (s evs) \<longleftrightarrow> ms_state (s evs) = MLoggedIn) \<and>
    (ms_current (s evs) = ms_min (s evs) \<longleftrightarrow> ms_state (s evs) = MIdle) \<and>
    (ms_state (s evs) = MLoginFailed \<longrightarrow> ms_last_error (s evs) \<noteq> None \<and> ms_login_time (s evs) = []) \<and>
    (ms_state (s evs) \<in> {MConnecting, MLoggingIn, MLoggedIn} \<longrightarrow> ms_last_error (s evs) = None)"
  using md_run_ok [of evs] by (auto simp: md_ok_def s_def md_shown_def split: md_state.splits)

theorem md_status_tracks_state_witness:
  "ms_last_error (md_run [Md_Connect, Md_Front_Connected, Md_Req_Login, Md_Login_Failure 9 Login_Rejected [] 3]) \<noteq> None"
  using md_status_tracks_state [of "[Md_Connect, Md_Front_Connected, Md_Req_Login, Md_Login_Failure 9 Login_Rejected [] 3]"]
  by (simp add: md_run_def new_md_machine_def md_handler_defs Let_def)

lemma trading_day_parse:
  assumes "length s = 8" "all_digits s"
  shows "trading_day_to_days s =
    (let y = int (decimal (take 4 s)); m = decimal (take 2 (drop 4 s)); d = int (decimal (drop 6 s))
     in if ymd_ok y m d then Some (epoch_days y m d) else None)"
proof -
  obtain a b c e f g h i where s: "s = [a, b, c, e, f, g, h, i]"
    using assms(1) by (auto simp: length_Suc_conv numeral_eq_Suc)
  have "month_days y m \<le> 31" for y m by (simp add: month_days_def)
  then have "\<not> d \<le> month_days y m" if "31 < d" for y m d using that by (meson le_less_trans not_le)
  moreover have "nat (int p * 10 + int q) = 10 * p + q" for p q by (simp add: nat_add_distrib nat_mult_distrib)
  ultimately show ?thesis using assms
    by (auto simp: s trading_day_to_days_def decimal_def Let_def ymd_ok_def algebra_simps)
qed

text \<open>Exactly the texts \<open>YYYYMMDD\<close> of days of the calendar are accepted, and read as the number of the day.\<close>

theorem trading_day_exact:
  "trading_day_to_days s = Some n \<longleftrightarrow>
    (\<exists>y m d. 0 \<le> y \<and> y \<le> 9999 \<and> ymd_ok y m d \<and> s = ymd_text y m d \<and> n = epoch_days y m d)"
proof
  assume a: "trading_day_to_days s = Some n"
  then have s: "length s = 8" "all_digits s" by (auto simp: trading_day_to_days_def split: if_splits)
  let ?y = "decimal (take 4 s)" and ?m = "decimal (take 2 (drop 4 s))" and ?d = "decimal (drop 6 s)"
  have split: "s = take 4 s @ take 2 (drop 4 s) @ drop 6 s"
    using append_take_drop_id [of 4 s] append_take_drop_id [of 2 "drop 4 s"] by simp
  then have dg: "all_digits (take 4 s)" "all_digits (take 2 (drop 4 s))" "all_digits (drop 6 s)"
    using s(2) by (metis all_digits_simps(3))+
  have ok: "ymd_ok (int ?y) ?m (int ?d)" "n = epoch_days (int ?y) ?m (int ?d)"
    using a trading_day_parse [OF s] by (auto simp: Let_def split: if_splits)
  have "?y < 10 ^ 4" using decimal_bound [OF dg(1)] s(1) by simp
  moreover have "s = ymd_text (int ?y) ?m (int ?d)"
    using split dg pad0_decimal [of "take 4 s"] pad0_decimal [of "take 2 (drop 4 s)"] pad0_decimal [of "drop 6 s"] s(1)
    by (simp add: ymd_text_def)
  ultimately show "\<exists>y m d. 0 \<le> y \<and> y \<le> 9999 \<and> ymd_ok y m d \<and> s = ymd_text y m d \<and> n = epoch_days y m d"
    using ok by (intro exI [of _ "int ?y"] exI [of _ ?m] exI [of _ "int ?d"]) auto
next
  assume "\<exists>y m d. 0 \<le> y \<and> y \<le> 9999 \<and> ymd_ok y m d \<and> s = ymd_text y m d \<and> n = epoch_days y m d"
  then obtain y m d where y: "0 \<le> y" "y \<le> 9999" "ymd_ok y m d" "s = ymd_text y m d" "n = epoch_days y m d" by blast
  moreover have "1 \<le> d" using y(3) by (simp add: ymd_ok_def)
  ultimately show "trading_day_to_days s = Some n"
    using ymd_text_parse [OF y(1-3)] trading_day_parse [of s] by (simp add: Let_def)
qed

end
