(* ===== verification/Td_Refs.thy ===== *)
theory Td_Refs
  imports Dz_Structs Dz_Text
begin

text \<open>
  The pure parts of an account session: the map from order references to order ids
  (\<open>apps/ctp/td/td_account_session_pure.cpp\<close>), the login finalizer with its flush barrier
  (\<open>td_login_finalize.cpp\<close>) and the risk gate (\<open>td_risk_gate.cpp\<close>). The hash maps are
  association lists that are only ever looked up.
\<close>

section \<open>Order references\<close>

record cancel_context =
  cc_order_ref :: string
  cc_front_id :: int
  cc_session_id :: int

record order_ref_map =
  rm_ref_to_id :: "(string \<times> int) list"
  rm_sys_to_id :: "(string \<times> int) list"
  rm_id_to_ctx :: "(int \<times> cancel_context) list"
  rm_id_to_strategy :: "(int \<times> string) list"

definition empty_refs :: order_ref_map where
  "empty_refs = \<lparr>rm_ref_to_id = [], rm_sys_to_id = [], rm_id_to_ctx = [], rm_id_to_strategy = []\<rparr>"

text \<open>
  \<open>std::stoll\<close> of a non-empty string of digits: the number, or the exception above
  \<open>2 ^ 63 - 1\<close>. The result is printed into a buffer of sixteen bytes.
\<close>

definition stoll_digits :: "string \<Rightarrow> nat option" where
  "stoll_digits s = (if decimal s \<le> 9223372036854775807 then Some (decimal s) else None)"

definition normalize_order_ref :: "string \<Rightarrow> string" where
  "normalize_order_ref s =
     (if s = [] then s
      else if \<not> all_digits s then s
      else case stoll_digits s of None \<Rightarrow> s | Some v \<Rightarrow> take 15 (pad0 12 v))"

definition find_by_order_ref :: "order_ref_map \<Rightarrow> string \<Rightarrow> int option" where
  "find_by_order_ref m r = map_of (rm_ref_to_id m) (normalize_order_ref r)"

definition find_by_sys_id :: "order_ref_map \<Rightarrow> string \<Rightarrow> int option" where
  "find_by_sys_id m s = map_of (rm_sys_to_id m) s"

definition insert_by_order_ref :: "string \<Rightarrow> int \<Rightarrow> order_ref_map \<Rightarrow> order_ref_map" where
  "insert_by_order_ref r i m = m\<lparr>rm_ref_to_id := AList.update (normalize_order_ref r) i (rm_ref_to_id m)\<rparr>"

definition insert_by_sys_id :: "string \<Rightarrow> int \<Rightarrow> order_ref_map \<Rightarrow> order_ref_map" where
  "insert_by_sys_id s i m = m\<lparr>rm_sys_to_id := AList.update s i (rm_sys_to_id m)\<rparr>"

definition erase_by_order_ref :: "string \<Rightarrow> order_ref_map \<Rightarrow> order_ref_map" where
  "erase_by_order_ref r m = m\<lparr>rm_ref_to_id := AList.delete (normalize_order_ref r) (rm_ref_to_id m)\<rparr>"

definition find_cancel_context :: "order_ref_map \<Rightarrow> int \<Rightarrow> cancel_context option" where
  "find_cancel_context m i = map_of (rm_id_to_ctx m) i"

definition insert_cancel_context :: "int \<Rightarrow> cancel_context \<Rightarrow> order_ref_map \<Rightarrow> order_ref_map" where
  "insert_cancel_context i c m = m\<lparr>rm_id_to_ctx := AList.update i c (rm_id_to_ctx m)\<rparr>"

definition update_cancel_context :: "int \<Rightarrow> int \<Rightarrow> int \<Rightarrow> order_ref_map \<Rightarrow> order_ref_map" where
  "update_cancel_context i front session m =
     (case find_cancel_context m i of
        None \<Rightarrow> m
      | Some c \<Rightarrow>
          let c1 = (if front \<noteq> 0 then c\<lparr>cc_front_id := front\<rparr> else c);
              c2 = (if session \<noteq> 0 then c1\<lparr>cc_session_id := session\<rparr> else c1)
          in m\<lparr>rm_id_to_ctx := AList.update i c2 (rm_id_to_ctx m)\<rparr>)"

definition insert_strategy :: "int \<Rightarrow> string \<Rightarrow> order_ref_map \<Rightarrow> order_ref_map" where
  "insert_strategy i s m = m\<lparr>rm_id_to_strategy := AList.update i s (rm_id_to_strategy m)\<rparr>"

definition find_strategy :: "order_ref_map \<Rightarrow> int \<Rightarrow> string option" where
  "find_strategy m i = map_of (rm_id_to_strategy m) i"

definition erase_strategy :: "int \<Rightarrow> order_ref_map \<Rightarrow> order_ref_map" where
  "erase_strategy i m = m\<lparr>rm_id_to_strategy := AList.delete i (rm_id_to_strategy m)\<rparr>"

definition refs_size :: "order_ref_map \<Rightarrow> nat" where
  "refs_size m = length (rm_ref_to_id m)"

definition clear_refs :: "order_ref_map \<Rightarrow> order_ref_map" where
  "clear_refs m = m\<lparr>rm_ref_to_id := [], rm_sys_to_id := [], rm_id_to_ctx := [], rm_id_to_strategy := []\<rparr>"

definition sync_order_ref :: "int \<Rightarrow> int \<Rightarrow> int" where
  "sync_order_ref current_ref ctp_max =
     (let from_current = current_ref + 1; from_ctp = ctp_max + 1
      in if from_current \<ge> from_ctp then from_current else from_ctp)"

definition parse_max_order_ref :: "string option \<Rightarrow> int" where
  "parse_max_order_ref t =
     (case t of
        None \<Rightarrow> 0
      | Some s \<Rightarrow>
          if s = [] then 0
          else if \<not> all_digits s then 0
          else case stoll_digits s of None \<Rightarrow> 0 | Some v \<Rightarrow> int v)"

lemmas refs_defs = find_by_order_ref_def find_by_sys_id_def insert_by_order_ref_def insert_by_sys_id_def
  erase_by_order_ref_def find_cancel_context_def insert_cancel_context_def update_cancel_context_def
  insert_strategy_def find_strategy_def erase_strategy_def

text \<open>References of digits up to fifteen places are the numbers they denote.\<close>

definition short_ref :: "string \<Rightarrow> bool" where
  "short_ref r \<longleftrightarrow> r \<noteq> [] \<and> all_digits r \<and> decimal r < 10 ^ 15"

lemma normalize_short: "short_ref r \<Longrightarrow> normalize_order_ref r = pad0 12 (decimal r)"
proof -
  assume r: "short_ref r"
  then have "length (pad0 12 (decimal r)) \<le> 15"
    using length_show [of 15 "decimal r"] by (simp add: length_pad0 short_ref_def)
  moreover have "stoll_digits r = Some (decimal r)" using r by (simp add: stoll_digits_def short_ref_def)
  ultimately show ?thesis using r by (simp add: normalize_order_ref_def short_ref_def)
qed

lemma normalize_inject: "short_ref r \<Longrightarrow> short_ref r' \<Longrightarrow> normalize_order_ref r = normalize_order_ref r' \<longleftrightarrow> decimal r = decimal r'"
  using normalize_short decimal_pad0 by metis

lemma normalize_other: "r = [] \<or> \<not> all_digits r \<Longrightarrow> normalize_order_ref r = r"
  by (auto simp: normalize_order_ref_def)

lemma short_pad [simp]: "n < 10 ^ 15 \<Longrightarrow> short_ref (pad0 12 n)" "n < 10 ^ 15 \<Longrightarrow> short_ref (show_nat n)"
proof -
  have "show_nat n \<noteq> []" for n by (simp add: show_nat.simps [of n])
  then show "n < 10 ^ 15 \<Longrightarrow> short_ref (pad0 12 n)" "n < 10 ^ 15 \<Longrightarrow> short_ref (show_nat n)"
    by (simp_all add: short_ref_def) (simp add: pad0_def Let_def)
qed

lemma find_insert_ref: "find_by_order_ref (insert_by_order_ref r i m) r' =
    (if normalize_order_ref r = normalize_order_ref r' then Some i else find_by_order_ref m r')"
  by (auto simp: refs_defs)

text \<open>
  Order references of at most fifteen digits are looked up by the number they denote, however
  many leading zeros they are written with: after a reference was registered for an order, a
  reference finds this order exactly when it denotes the same number, and what it found before
  otherwise; after it was erased, exactly the references of this number are unknown.
\<close>

theorem refs_by_number:
  assumes "short_ref r" "short_ref r'"
  shows "find_by_order_ref (insert_by_order_ref r i m) r' =
           (if decimal r = decimal r' then Some i else find_by_order_ref m r') \<and>
         find_by_order_ref (erase_by_order_ref r m) r' =
           (if decimal r = decimal r' then None else find_by_order_ref m r')"
  using normalize_inject [OF assms] by (auto simp: refs_defs)

theorem refs_by_number_witness:
  "find_by_order_ref (insert_by_order_ref (show_nat 42) 7 empty_refs) (pad0 12 42) = Some 7"
  using refs_by_number [of "show_nat 42" "pad0 12 42" 7 empty_refs] by simp

section \<open>The login finalizer\<close>

datatype phase = Query_Position | Query_Account | Replay | Flush | Ready_Phase | Done_Phase

fun phase_no :: "phase \<Rightarrow> nat" where
  "phase_no Query_Position = 0"
| "phase_no Query_Account = 1"
| "phase_no Replay = 2"
| "phase_no Flush = 3"
| "phase_no Ready_Phase = 4"
| "phase_no Done_Phase = 5"

lemma phase_no_inject [simp]: "phase_no p = phase_no q \<longleftrightarrow> p = q"
  by (cases p; cases q) simp_all

instantiation phase :: linorder
begin

definition less_eq_phase :: "phase \<Rightarrow> phase \<Rightarrow> bool" where
  "p \<le> q \<longleftrightarrow> phase_no p \<le> phase_no q"

definition less_phase :: "phase \<Rightarrow> phase \<Rightarrow> bool" where
  "p < q \<longleftrightarrow> phase_no p < phase_no q"

instance
  by standard (auto simp: less_eq_phase_def less_phase_def)

end

record finalizer =
  fin_phase :: phase
  fin_position_done :: bool
  fin_account_done :: bool

definition new_finalizer :: finalizer where
  "new_finalizer = \<lparr>fin_phase = Query_Position, fin_position_done = False, fin_account_done = False\<rparr>"

definition on_position_done :: "finalizer \<Rightarrow> finalizer" where
  "on_position_done f =
     (if fin_phase f \<noteq> Query_Position then f else f\<lparr>fin_position_done := True, fin_phase := Query_Account\<rparr>)"

definition on_account_done :: "finalizer \<Rightarrow> finalizer" where
  "on_account_done f =
     (if fin_phase f \<noteq> Query_Account then f else f\<lparr>fin_account_done := True, fin_phase := Replay\<rparr>)"

definition can_reach_ready :: "finalizer \<Rightarrow> bool" where
  "can_reach_ready f \<longleftrightarrow> fin_position_done f \<and> fin_account_done f"

definition finalizer_next :: "finalizer \<Rightarrow> finalizer" where
  "finalizer_next f =
     (case fin_phase f of
        Query_Position \<Rightarrow> f
      | Query_Account \<Rightarrow> f
      | Replay \<Rightarrow> f\<lparr>fin_phase := Flush\<rparr>
      | Flush \<Rightarrow> f\<lparr>fin_phase := Ready_Phase\<rparr>
      | Ready_Phase \<Rightarrow> f\<lparr>fin_phase := Done_Phase\<rparr>
      | Done_Phase \<Rightarrow> f)"

definition finalizer_ok :: "finalizer \<Rightarrow> bool" where
  "finalizer_ok f \<longleftrightarrow> (fin_position_done f \<longleftrightarrow> Query_Account \<le> fin_phase f) \<and> (fin_account_done f \<longleftrightarrow> Replay \<le> fin_phase f)"

lemmas finalizer_defs = on_position_done_def on_account_done_def finalizer_next_def finalizer_ok_def new_finalizer_def
  can_reach_ready_def less_eq_phase_def less_phase_def

lemma finalizer_ok_steps [simp]:
  "finalizer_ok new_finalizer"
  "finalizer_ok f \<Longrightarrow> finalizer_ok (on_position_done f)"
  "finalizer_ok f \<Longrightarrow> finalizer_ok (on_account_done f)"
  "finalizer_ok f \<Longrightarrow> finalizer_ok (finalizer_next f)"
  by (auto simp: finalizer_defs split: phase.split)

lemma can_reach_iff: "finalizer_ok f \<Longrightarrow> can_reach_ready f \<longleftrightarrow> Replay \<le> fin_phase f"
  by (cases "fin_phase f") (auto simp: finalizer_defs)

text \<open>The barrier asks once for the flush; a timeout is notified and never holds back the login.\<close>

datatype flush_result = Committed | Timed_Out

definition run_flush_barrier :: "bool \<Rightarrow> bool \<Rightarrow> string \<Rightarrow> flush_result \<times> (int \<times> string \<times> bool) list" where
  "run_flush_barrier flushed has_notify account =
     (if flushed then (Committed, [])
      else (Timed_Out,
        if has_notify
        then [(DZ_NOTIFY_ERROR, ''persist flush timeout during login, proceeding to ready | account='' @ account, True)]
        else []))"

section \<open>The risk gate\<close>

text \<open>The Chinese reasons are constructors.\<close>

datatype 'd risk_reason = Volume_Over int int | Off_Tick 'd 'd

record 'd risk_reject =
  rr_rule_name :: string
  rr_reason :: "'d risk_reason"

record risk_config =
  rc_max_order_volume :: int
  rc_check_price_tick :: bool

record risk_gate =
  rg_enabled :: bool
  rg_config :: risk_config

record 'd account_context =
  ac_account_id :: string
  ac_price_tick :: 'd
  ac_long_pos :: int
  ac_short_pos :: int

definition new_risk_gate :: "bool \<Rightarrow> risk_gate" where
  "new_risk_gate b = \<lparr>rg_enabled = b, rg_config = \<lparr>rc_max_order_volume = 0, rc_check_price_tick = True\<rparr>\<rparr>"

definition set_risk_enabled :: "bool \<Rightarrow> risk_gate \<Rightarrow> risk_gate" where
  "set_risk_enabled b g = g\<lparr>rg_enabled := b\<rparr>"

definition check_risk :: "('d, 'm) fp_scheme \<Rightarrow> risk_gate \<Rightarrow> 'd order_req \<Rightarrow> 'd account_context \<Rightarrow> 'd risk_reject option" where
  "check_risk F g req ctx =
     (if \<not> rg_enabled g then None
      else if rc_max_order_volume (rg_config g) > 0 \<and> rq_volume req > rc_max_order_volume (rg_config g)
      then Some \<lparr>rr_rule_name = ''max_order_volume'', rr_reason = Volume_Over (rq_volume req) (rc_max_order_volume (rg_config g))\<rparr>
      else if rc_check_price_tick (rg_config g) \<and> fp_lt F (fp_zero F) (ac_price_tick ctx)
      then let ratio = fp_div F (rq_price req) (ac_price_tick ctx); rounded = fp_round F ratio
           in if fp_lt F (fp_div F (fp_of_int F 1) (fp_of_int F 1000000000)) (fp_abs F (fp_sub F ratio rounded))
              then Some \<lparr>rr_rule_name = ''price_tick'', rr_reason = Off_Tick (rq_price req) (ac_price_tick ctx)\<rparr>
              else None
      else None)"

definition check_cancel_risk :: "'d order_req \<Rightarrow> 'd account_context \<Rightarrow> 'd risk_reject option" where
  "check_cancel_risk req ctx = None"

end
