(* ===== verification/Td_Mapping.thy ===== *)
theory Td_Mapping
  imports Td_Position Dz_Text
begin

text \<open>
  The conversions between the structs of the CTP trading interface and those of the program
  (\<open>apps/ctp/td/td_ctp_mapping.cpp\<close>), with the texts of
  trading days. Of a CTP struct only the fields the program reads or sets are kept;
  they are public constants of that interface, so its flags are characters here as there.
\<close>

section \<open>Days and times\<close>

definition parse_ctp_time :: "string option \<Rightarrow> int" where
  "parse_ctp_time t =
     (case t of
        None \<Rightarrow> - 1
      | Some s \<Rightarrow>
          if s = [] then - 1
          else if length s \<noteq> 8 then - 1
          else if s ! 2 \<noteq> CHR '':'' \<or> s ! 5 \<noteq> CHR '':'' then - 1
          else if \<not> list_all (\<lambda>i. is_digit (s ! i)) [0, 1, 3, 4, 6, 7] then - 1
          else let dig = \<lambda>i. int (digit_val (s ! i));
                   hh = dig 0 * 10 + dig 1; mm = dig 3 * 10 + dig 4; ss = dig 6 * 10 + dig 7
               in if 24 \<le> hh \<or> 60 \<le> mm \<or> 60 \<le> ss then - 1 else hh * 3600 + mm * 60 + ss)"

definition parse_ctp_date :: "string option \<Rightarrow> int" where
  "parse_ctp_date t =
     (case t of
        None \<Rightarrow> 0
      | Some s \<Rightarrow>
          if s = [] then 0
          else if length s \<noteq> 8 then 0
          else if \<not> all_digits s then 0
          else let dig = \<lambda>i. int (digit_val (s ! i));
                   y = dig 0 * 1000 + dig 1 * 100 + dig 2 * 10 + dig 3;
                   m = dig 4 * 10 + dig 5;
                   d = dig 6 * 10 + dig 7
               in case from_year_month_day y m d of None \<Rightarrow> 0 | Some n \<Rightarrow> n)"

definition format_day_text :: "int \<Rightarrow> string" where
  "format_day_text day = (if day \<le> 0 then ''00000000'' else pad_day day)"

text \<open>\<open>std::stoi\<close>: blanks, a sign, digits; \<open>None\<close> is the exception.\<close>

definition is_blank :: "char \<Rightarrow> bool" where
  "is_blank c \<longleftrightarrow> c = CHR '' '' \<or> (of_char c \<ge> (9 :: nat) \<and> of_char c \<le> (13 :: nat))"

definition stoi :: "string \<Rightarrow> int option" where
  "stoi s =
     (let s1 = dropWhile is_blank s;
          (neg, s2) = (case s1 of c # r \<Rightarrow> if c = CHR ''-'' then (True, r) else if c = CHR ''+'' then (False, r) else (False, s1)
                       | [] \<Rightarrow> (False, s1));
          ds = takeWhile is_digit s2;
          v = (if neg then - int (decimal ds) else int (decimal ds))
      in if ds = [] then None else if v < - 2147483648 \<or> 2147483647 < v then None else Some v)"

definition parse_yyyymmdd_to_epoch :: "string \<Rightarrow> int" where
  "parse_yyyymmdd_to_epoch t =
     (if length t \<noteq> 8 then 0
      else case (stoi (take 4 t), stoi (take 2 (drop 4 t)), stoi (take 2 (drop 6 t))) of
        (Some y, Some m, Some d) \<Rightarrow> (case from_year_month_day y m d of None \<Rightarrow> 0 | Some n \<Rightarrow> n)
      | _ \<Rightarrow> 0)"

section \<open>Codes\<close>

definition STATUS_CTP2VT :: "char \<Rightarrow> int" where
  "STATUS_CTP2VT c =
     (if c = CHR ''0'' then DZ_ORDER_ALL_TRADED
      else if c = CHR ''1'' then DZ_ORDER_PART_TRADED
      else if c = CHR ''2'' then DZ_ORDER_PART_TRADED
      else if c = CHR ''3'' then DZ_ORDER_NOT_TRADED
      else if c = CHR ''4'' then DZ_ORDER_CANCELLED
      else if c = CHR ''5'' then DZ_ORDER_CANCELLED
      else if c = CHR ''b'' then DZ_ORDER_NOT_TRADED
      else if c = CHR ''c'' then DZ_ORDER_PART_TRADED
      else if c = CHR ''a'' then DZ_ORDER_SUBMITTING
      else DZ_ORDER_SUBMITTING)"

abbreviation (input) DZ_PRICE_LIMIT :: int where "DZ_PRICE_LIMIT \<equiv> 0"
abbreviation (input) DZ_PRICE_MARKET :: int where "DZ_PRICE_MARKET \<equiv> 1"
abbreviation (input) DZ_PRICE_FAK :: int where "DZ_PRICE_FAK \<equiv> 3"
abbreviation (input) DZ_PRICE_FOK :: int where "DZ_PRICE_FOK \<equiv> 4"

record order_type_triplet =
  ot_limit_price_type :: char
  ot_time_condition :: char
  ot_volume_condition :: char

definition ORDERTYPE_VT2CTP :: "int \<Rightarrow> order_type_triplet" where
  "ORDERTYPE_VT2CTP t =
     (if t = DZ_PRICE_LIMIT then \<lparr>ot_limit_price_type = CHR ''2'', ot_time_condition = CHR ''3'', ot_volume_condition = CHR ''2''\<rparr>
      else if t = DZ_PRICE_MARKET then \<lparr>ot_limit_price_type = CHR ''1'', ot_time_condition = CHR ''1'', ot_volume_condition = CHR ''1''\<rparr>
      else if t = DZ_PRICE_FAK then \<lparr>ot_limit_price_type = CHR ''2'', ot_time_condition = CHR ''1'', ot_volume_condition = CHR ''2''\<rparr>
      else if t = DZ_PRICE_FOK then \<lparr>ot_limit_price_type = CHR ''2'', ot_time_condition = CHR ''1'', ot_volume_condition = CHR ''3''\<rparr>
      else \<lparr>ot_limit_price_type = CHR ''2'', ot_time_condition = CHR ''3'', ot_volume_condition = CHR ''2''\<rparr>)"

definition offset_of_effect :: "int \<Rightarrow> char" where
  "offset_of_effect e =
     (if e = DZ_POSITION_EFFECT_OPEN then CHR ''0''
      else if e = DZ_POSITION_EFFECT_CLOSE then CHR ''1''
      else if e = DZ_POSITION_EFFECT_CLOSE_TODAY then CHR ''3''
      else if e = DZ_POSITION_EFFECT_CLOSE_YESTDAY then CHR ''4''
      else CHR ''0'')"

definition effect_of_offset :: "char \<Rightarrow> int" where
  "effect_of_offset c =
     (if c = CHR ''0'' then DZ_POSITION_EFFECT_OPEN
      else if c = CHR ''1'' then DZ_POSITION_EFFECT_CLOSE
      else if c = CHR ''3'' then DZ_POSITION_EFFECT_CLOSE_TODAY
      else if c = CHR ''4'' then DZ_POSITION_EFFECT_CLOSE_YESTDAY
      else DZ_POSITION_EFFECT_OPEN)"

definition price_type_of :: "char \<Rightarrow> int" where
  "price_type_of c = (if c = CHR ''1'' then DZ_PRICE_MARKET else if c = CHR ''2'' then DZ_PRICE_LIMIT else DZ_PRICE_LIMIT)"

definition direction_of :: "char \<Rightarrow> int" where
  "direction_of c = (if c = CHR ''0'' then DZ_DIRECTION_LONG else DZ_DIRECTION_SHORT)"

section \<open>Structs of the CTP interface\<close>

record 'd ctp_input_order =
  ci_broker_id :: string
  ci_investor_id :: string
  ci_instrument_id :: string
  ci_exchange_id :: string
  ci_order_ref :: string
  ci_request_id :: int
  ci_direction :: char
  ci_offset :: char
  ci_order_price_type :: char
  ci_time_condition :: char
  ci_volume_condition :: char
  ci_limit_price :: 'd
  ci_volume_total_original :: int
  ci_min_volume :: int
  ci_hedge :: char
  ci_contingent :: char
  ci_force_close_reason :: char

record 'd ctp_order =
  co_instrument_id :: string
  co_exchange_id :: string
  co_direction :: char
  co_offset :: char
  co_order_price_type :: char
  co_order_status :: char
  co_limit_price :: 'd
  co_volume_total_original :: int
  co_volume_traded :: int
  co_insert_date :: string
  co_insert_time :: string
  co_update_time :: string
  co_order_ref :: string
  co_order_sys_id :: string
  co_front_id :: int
  co_session_id :: int

record 'd ctp_trade =
  ct_instrument_id :: string
  ct_exchange_id :: string
  ct_trade_id :: string
  ct_order_ref :: string
  ct_direction :: char
  ct_offset :: char
  ct_price :: 'd
  ct_volume :: int
  ct_trade_time :: string

record 'd ctp_position =
  cp_instrument_id :: string
  cp_exchange_id :: string
  cp_posi_direction :: char
  cp_position :: int
  cp_yd_position :: int
  cp_long_frozen :: int
  cp_short_frozen :: int
  cp_position_cost :: 'd

record 'd ctp_account =
  ca_balance :: 'd
  ca_available :: 'd
  ca_frozen_margin :: 'd
  ca_commission :: 'd
  ca_curr_margin :: 'd
  ca_withdraw_quota :: 'd
  ca_deposit :: 'd
  ca_withdraw :: 'd

record 'd ctp_instrument =
  cn_instrument_id :: string
  cn_exchange_id :: string
  cn_instrument_name :: string
  cn_product_id :: string
  cn_product_class :: char
  cn_volume_multiple :: int
  cn_price_tick :: 'd
  cn_min_limit_order_volume :: int
  cn_max_limit_order_volume :: int
  cn_min_market_order_volume :: int
  cn_max_market_order_volume :: int
  cn_open_date :: string
  cn_expire_date :: string
  cn_options_type :: char
  cn_strike_price :: 'd
  cn_underlying_instr_id :: string
  cn_underlying_multiple :: 'd

section \<open>Conversions\<close>

record order_build_context =
  bc_account_id :: string
  bc_order_ref :: int
  bc_request_id :: int
  bc_exchange_id :: string

text \<open>\<open>%012lld\<close> printed into an array of \<open>n\<close> bytes.\<close>

definition print_ref :: "nat \<Rightarrow> int \<Rightarrow> string" where
  "print_ref n r = take (n - 1) (pad_int 12 r)"

definition to_input_order_field :: "'d order_req \<Rightarrow> order_build_context \<Rightarrow> 'd ctp_input_order" where
  "to_input_order_field req ctx =
     (let triplet = ORDERTYPE_VT2CTP (rq_price_type req)
      in \<lparr>ci_broker_id = [], ci_investor_id = fit 13 (bc_account_id ctx), ci_instrument_id = fit 81 (rq_instrument_id req),
          ci_exchange_id = fit 9 (bc_exchange_id ctx), ci_order_ref = print_ref 13 (bc_order_ref ctx),
          ci_request_id = bc_request_id ctx,
          ci_direction = (if rq_direction req = DZ_DIRECTION_LONG then CHR ''0'' else CHR ''1''),
          ci_offset = offset_of_effect (rq_position_effect req),
          ci_order_price_type = ot_limit_price_type triplet, ci_time_condition = ot_time_condition triplet,
          ci_volume_condition = ot_volume_condition triplet, ci_limit_price = rq_price req,
          ci_volume_total_original = rq_volume req,
          ci_min_volume = (if rq_price_type req = DZ_PRICE_FOK then rq_volume req else 1),
          ci_hedge = CHR ''1'', ci_contingent = CHR ''1'', ci_force_close_reason = CHR ''0''\<rparr>)"

text \<open>The trading day is written as a date whatever its value; \<open>insert_time\<close> uses the insert date when there is one.\<close>

definition to_order_record :: "('d, 'm) fp_scheme \<Rightarrow> 'd ctp_order \<Rightarrow> string \<Rightarrow> int \<Rightarrow> 'd order_record" where
  "to_order_record F c account day =
     (let insert_date = parse_ctp_date (Some (co_insert_date c));
          day_secs = (if insert_date \<noteq> 0 then insert_date else day) * 86400;
          insert_secs = parse_ctp_time (Some (co_insert_time c));
          update_secs = parse_ctp_time (Some (co_update_time c))
      in \<lparr>orec_base =
            \<lparr>or_order_id = 0, or_strategy_id = [], or_instrument_id = fit 88 (co_instrument_id c),
             or_direction = direction_of (co_direction c), or_price_type = price_type_of (co_order_price_type c),
             or_position_effect = effect_of_offset (co_offset c), or_status = STATUS_CTP2VT (co_order_status c),
             or_price = co_limit_price c, or_avg_price = fp_zero F, or_volume = co_volume_total_original c,
             or_volume_traded = co_volume_traded c, or_date = day, or_time = parse_ctp_time (Some (co_insert_time c)),
             or_account_id = fit 32 account, or_exchange_id = fit 16 (co_exchange_id c), or_remark = [], or_seq = 0\<rparr>,
          orec_trading_day = pad_day day, orec_order_ref = fit 13 (co_order_ref c),
          orec_external_order_id = fit 21 (co_order_sys_id c), orec_is_external = 0, orec_volume_canceled = 0,
          orec_insert_time = (if 0 \<le> insert_secs then day_secs + insert_secs else 0),
          orec_update_time = (if 0 \<le> update_secs then day * 86400 + update_secs else 0),
          orec_error_id = 0, orec_error_msg = []\<rparr>)"

definition to_trade_record :: "'d ctp_trade \<Rightarrow> string \<Rightarrow> int \<Rightarrow> 'd trade_record" where
  "to_trade_record c account day =
     \<lparr>trec_base =
        \<lparr>tr_order_id = 0, tr_strategy_id = [], tr_instrument_id = fit 88 (ct_instrument_id c), tr_price = ct_price c,
         tr_volume = ct_volume c, tr_direction = direction_of (ct_direction c),
         tr_position_effect = effect_of_offset (ct_offset c), tr_date = day,
         tr_time = parse_ctp_time (Some (ct_trade_time c)), tr_account_id = fit 32 account,
         tr_exchange_id = fit 16 (ct_exchange_id c), tr_trade_id = fit 32 (ct_trade_id c), tr_seq = 0\<rparr>,
      trec_trading_day = pad_day day\<rparr>"

definition product_class_from_ctp :: "char \<Rightarrow> int" where
  "product_class_from_ctp c =
     (if c = CHR ''1'' then 1 else if c = CHR ''2'' then 2 else if c = CHR ''6'' then 2 else if c = CHR ''3'' then 4
      else if c = CHR ''4'' then 13 else 0)"

definition option_type_from_ctp :: "char \<Rightarrow> int" where
  "option_type_from_ctp c = (if c = CHR ''1'' then 1 else if c = CHR ''2'' then - 1 else 0)"

text \<open>\<open>gbk\<close> is the conversion of GBK bytes to UTF-8.\<close>

definition to_instrument_record :: "('d, 'm) fp_scheme \<Rightarrow> (string \<Rightarrow> string) \<Rightarrow> 'd ctp_instrument \<Rightarrow> string \<Rightarrow> 'd instrument_record" where
  "to_instrument_record F gbk c update_day =
     \<lparr>ir_instrument_id = cn_instrument_id c, ir_exchange_id = cn_exchange_id c, ir_symbol = cn_instrument_id c,
      ir_name = gbk (cn_instrument_name c), ir_product_class = product_class_from_ctp (cn_product_class c),
      ir_product_code = cn_product_id c, ir_settle_cycle = - 1, ir_currency = ''CNY'',
      ir_volume_multiple = fp_of_int F (cn_volume_multiple c), ir_volume_step = fp_of_int F 1,
      ir_price_tick = cn_price_tick c, ir_min_limit_order_volume = cn_min_limit_order_volume c,
      ir_max_limit_order_volume = cn_max_limit_order_volume c, ir_min_market_order_volume = cn_min_market_order_volume c,
      ir_max_market_order_volume = cn_max_market_order_volume c, ir_listed_date = parse_ctp_date (Some (cn_open_date c)),
      ir_delisted_date = parse_ctp_date (Some (cn_expire_date c)), ir_option_type = option_type_from_ctp (cn_options_type c),
      ir_option_strike = cn_strike_price c, ir_underlying_id = cn_underlying_instr_id c,
      ir_underlying_multiple = cn_underlying_multiple c, ir_update_day = update_day, ir_updated_at = 0\<rparr>"

definition to_dz_trading_account :: "'d ctp_account \<Rightarrow> string \<Rightarrow> int \<Rightarrow> 'd trading_account" where
  "to_dz_trading_account a account day =
     \<lparr>ta_account_id = fit 32 account, ta_balance = ca_balance a, ta_available = ca_available a,
      ta_frozen = ca_frozen_margin a, ta_commission = ca_commission a, ta_margin = ca_curr_margin a,
      ta_withdraw_quota = ca_withdraw_quota a, ta_deposit = ca_deposit a, ta_withdraw = ca_withdraw a,
      ta_date = day, ta_seq = 0\<rparr>"

definition to_dz_position :: "('d, 'm) fp_scheme \<Rightarrow> 'd ctp_position \<Rightarrow> string \<Rightarrow> int \<Rightarrow> 'd \<Rightarrow> 'd position_info" where
  "to_dz_position F p account day volume_multiple =
     \<lparr>pi_instrument_id = fit 88 (cp_instrument_id p), pi_exchange_id = fit 16 (cp_exchange_id p),
      pi_account_id = fit 32 account, pi_volume = cp_position p,
      pi_frozen_volume = cp_long_frozen p + cp_short_frozen p,
      pi_price = (if cp_position p > 0 \<and> fp_lt F (fp_zero F) volume_multiple
                  then fp_div F (cp_position_cost p) (fp_mul F (fp_of_int F (cp_position p)) volume_multiple)
                  else fp_zero F),
      pi_yd_volume = cp_yd_position p, pi_today_volume = cp_position p - cp_yd_position p, pi_date = day,
      pi_direction = (if cp_posi_direction p = CHR ''3'' then DZ_DIRECTION_SHORT else DZ_DIRECTION_LONG), pi_seq = 0\<rparr>"

section \<open>Lemmas\<close>

lemma effect_of_offset_of_effect: "1 \<le> e \<Longrightarrow> e \<le> 4 \<Longrightarrow> effect_of_offset (offset_of_effect e) = e"
  by (auto simp: effect_of_offset_def offset_of_effect_def)

text \<open>Forced liquidations (\<open>'2'\<close>, \<open>'5'\<close>, \<open>'6'\<close>) are read as openings.\<close>

lemma force_close_opens: "c \<in> {CHR ''2'', CHR ''5'', CHR ''6''} \<Longrightarrow> effect_of_offset c = DZ_POSITION_EFFECT_OPEN"
  by (auto simp: effect_of_offset_def)

lemma digits_8:
  assumes "length s = 8"
  obtains a b c e f g h i where "s = [a, b, c, e, f, g, h, i]"
  using assms by (auto simp: length_Suc_conv numeral_eq_Suc)

lemma parse_ctp_date_text:
  assumes "length s = 8" "all_digits s"
  shows "parse_ctp_date (Some s) =
    (let y = int (decimal (take 4 s)); m = decimal (take 2 (drop 4 s)); d = int (decimal (drop 6 s))
     in if ymd_ok y m d then epoch_days y m d else 0)"
proof -
  obtain a b c e f g h i where s: "s = [a, b, c, e, f, g, h, i]" using digits_8 [OF assms(1)] .
  have "month_days y m \<le> 31" for y m by (simp add: month_days_def)
  then have "\<not> d \<le> month_days y m" if "31 < d" for y m d using that by (meson le_less_trans not_le)
  moreover have "nat (int p * 10 + int q) = 10 * p + q" for p q by (simp add: nat_add_distrib nat_mult_distrib)
  moreover have "digit_val a < 10" "digit_val b < 10" "digit_val c < 10" "digit_val e < 10"
    using assms(2) by (simp_all add: s digit_val_less)
  ultimately show ?thesis using assms
    by (auto simp: s parse_ctp_date_def from_year_month_day_def decimal_def Let_def ymd_ok_def algebra_simps)
qed

lemma not_blank_digit: "is_digit c \<Longrightarrow> \<not> is_blank c"
  by (auto simp: is_digit_def is_blank_def)

lemma stoi_digits:
  assumes "all_digits s" "s \<noteq> []" "length s \<le> 9"
  shows "stoi s = Some (int (decimal s))"
proof -
  obtain c r where s: "s = c # r" using assms(2) by (cases s) auto
  have c: "is_digit c" using assms(1) s by simp
  then have "c \<noteq> CHR ''-''" "c \<noteq> CHR ''+''" by (auto simp: is_digit_def)
  moreover have "dropWhile is_blank s = s" using c by (simp add: s not_blank_digit)
  moreover have "takeWhile is_digit s = s" using assms(1) by (simp add: all_digits_def list_all_iff)
  moreover have "decimal s < 10 ^ 9"
    using decimal_bound [OF assms(1)] power_increasing [of "length s" 9 "10 :: nat"] assms(3) by simp
  ultimately show ?thesis by (simp add: stoi_def s Let_def)
qed

lemma parse_yyyymmdd_text:
  assumes "length s = 8" "all_digits s"
  shows "parse_yyyymmdd_to_epoch s = parse_ctp_date (Some s)"
proof -
  obtain a b c e f g h i where s: "s = [a, b, c, e, f, g, h, i]" using digits_8 [OF assms(1)] .
  have "all_digits (take 4 s)" "all_digits (take 2 (drop 4 s))" "all_digits (take 2 (drop 6 s))"
    using assms(2) by (simp_all add: s)
  then have "stoi (take 4 s) = Some (int (decimal (take 4 s)))" "stoi (take 2 (drop 4 s)) = Some (int (decimal (take 2 (drop 4 s))))"
    "stoi (take 2 (drop 6 s)) = Some (int (decimal (take 2 (drop 6 s))))"
    by (auto intro!: stoi_digits simp: s)
  then show ?thesis using assms
    by (simp add: parse_yyyymmdd_to_epoch_def parse_ctp_date_def s decimal_def Let_def algebra_simps)
qed

lemma parse_pad_day:
  assumes "0 < n" "n < 2932897"
  shows "length (pad_day n) = 8 \<and> all_digits (pad_day n) \<and> parse_ctp_date (Some (pad_day n)) = n"
proof -
  obtain y m d where p: "ymd_ok y m d" "epoch_days y m d = n" "1970 \<le> y" "y \<le> 9999" "pad_day n = ymd_text y m d"
    using pad_day [of n] assms by auto
  have "0 \<le> y" "1 \<le> d" using p by (auto simp: ymd_ok_def)
  moreover note ymd_text_parse [OF \<open>0 \<le> y\<close> p(4) p(1)]
  ultimately show ?thesis using p parse_ctp_date_text [of "pad_day n"] by (simp add: Let_def)
qed

end
