(* ===== verification/Td_Report_Filter.thy ===== *)
theory Td_Report_Filter
  imports Td_Position
begin

text \<open>
  The replay filter of an account (\<open>apps/ctp/td/td_report_filter.cpp\<close>): the last accepted row of
  each order and the keys of the accepted trades, against which the reports replayed after a
  login are compared; and the average fill price per order (\<open>OrderTradeAvgTracker\<close> of
  \<open>td_day_load.cpp\<close>).
\<close>

section \<open>Model\<close>

type_synonym trade_key = "string \<times> string \<times> string"

record 'd report_filter =
  rf_account_id :: string
  rf_orders :: "(int \<times> 'd order_record) list"
  rf_trade_keys :: "trade_key list"
  rf_latest_order :: "'d order_report option"
  rf_latest_trade :: "'d trade_report option"

datatype verdict = Forward | Skip

definition new_filter :: "string \<Rightarrow> 'd report_filter" where
  "new_filter a = \<lparr>rf_account_id = a, rf_orders = [], rf_trade_keys = [], rf_latest_order = None, rf_latest_trade = None\<rparr>"

definition rec_id :: "'d order_record \<Rightarrow> int" where
  "rec_id r = or_order_id (orec_base r)"

definition same_order_fields :: "'d order_record \<Rightarrow> 'd order_record \<Rightarrow> bool" where
  "same_order_fields a b \<longleftrightarrow> orec_update_time a = orec_update_time b \<and>
     or_volume_traded (orec_base a) = or_volume_traded (orec_base b) \<and>
     orec_volume_canceled a = orec_volume_canceled b \<and> or_status (orec_base a) = or_status (orec_base b)"

text \<open>The second component is the flag for an outdated report.\<close>

definition check_order :: "'d report_filter \<Rightarrow> 'd order_record \<Rightarrow> verdict \<times> bool" where
  "check_order f r =
     (case map_of (rf_orders f) (rec_id r) of
        None \<Rightarrow> (Forward, False)
      | Some base \<Rightarrow>
          if same_order_fields r base then (Skip, False)
          else if orec_update_time r < orec_update_time base then (Skip, True)
          else (Forward, False))"

definition accept_order :: "'d order_record \<Rightarrow> 'd report_filter \<Rightarrow> 'd report_filter" where
  "accept_order r f = f\<lparr>rf_orders := AList.update (rec_id r) r (rf_orders f), rf_latest_order := Some (orec_base r)\<rparr>"

definition trade_key :: "'d trade_record \<Rightarrow> trade_key" where
  "trade_key t = (trec_trading_day t, tr_exchange_id (trec_base t), tr_trade_id (trec_base t))"

definition check_trade :: "'d report_filter \<Rightarrow> 'd trade_record \<Rightarrow> verdict" where
  "check_trade f t = (if trade_key t \<in> set (rf_trade_keys f) then Skip else Forward)"

definition accept_trade :: "'d trade_record \<Rightarrow> 'd report_filter \<Rightarrow> 'd report_filter" where
  "accept_trade t f = f\<lparr>rf_trade_keys := List.insert (trade_key t) (rf_trade_keys f), rf_latest_trade := Some (trec_base t)\<rparr>"

definition load_filter :: "'d order_record list \<Rightarrow> 'd trade_record list \<Rightarrow> 'd report_filter" where
  "load_filter orders trades = fold accept_trade trades (fold accept_order orders (new_filter []))"

definition find_latest_order :: "'d report_filter \<Rightarrow> 'd order_report option" where
  "find_latest_order f = rf_latest_order f"

definition find_latest_trade :: "'d report_filter \<Rightarrow> 'd trade_report option" where
  "find_latest_trade f = rf_latest_trade f"

definition active_orders :: "int \<Rightarrow> 'd report_filter \<Rightarrow> 'd order_record list" where
  "active_orders day f =
     filter (\<lambda>r. or_date (orec_base r) = day \<and> \<not> is_terminal_order_status (or_status (orec_base r))) (map snd (rf_orders f))"

definition find_order :: "'d report_filter \<Rightarrow> int \<Rightarrow> 'd order_record option" where
  "find_order f i = map_of (rf_orders f) i"

subsection \<open>Average prices\<close>

record 'd avg_acc =
  aa_price_volume :: 'd
  aa_volume :: int

type_synonym 'd avg_tracker = "(int \<times> 'd avg_acc) list"

definition add_trade_avg :: "('d, 'm) fp_scheme \<Rightarrow> int \<Rightarrow> 'd \<Rightarrow> int \<Rightarrow> 'd avg_tracker \<Rightarrow> 'd avg_tracker" where
  "add_trade_avg F i price volume accs =
     (if volume \<le> 0 \<or> \<not> fp_finite F price then accs
      else let acc = (case map_of accs i of Some a \<Rightarrow> a | None \<Rightarrow> \<lparr>aa_price_volume = fp_of_int F 0, aa_volume = 0\<rparr>)
           in AList.update i
                \<lparr>aa_price_volume = fp_add F (aa_price_volume acc) (fp_mul F price (fp_of_int F volume)),
                 aa_volume = aa_volume acc + volume\<rparr> accs)"

definition seed_avgs :: "('d, 'm) fp_scheme \<Rightarrow> 'd trade_record list \<Rightarrow> 'd avg_tracker \<Rightarrow> 'd avg_tracker" where
  "seed_avgs F trades accs =
     fold (\<lambda>t. add_trade_avg F (tr_order_id (trec_base t)) (tr_price (trec_base t)) (tr_volume (trec_base t))) trades accs"

definition avg_price :: "('d, 'm) fp_scheme \<Rightarrow> 'd avg_tracker \<Rightarrow> int \<Rightarrow> 'd option" where
  "avg_price F accs i =
     (case map_of accs i of
        None \<Rightarrow> None
      | Some a \<Rightarrow> if aa_volume a \<le> 0 then None else Some (fp_div F (aa_price_volume a) (fp_of_int F (aa_volume a))))"

definition order_record_with_avg :: "'d order_record \<Rightarrow> 'd \<Rightarrow> 'd order_record" where
  "order_record_with_avg r p = r\<lparr>orec_base := (orec_base r)\<lparr>or_avg_price := p\<rparr>\<rparr>"

text \<open>The tolerance \<open>1e-12\<close>.\<close>

definition avg_price_unchanged :: "('d, 'm) fp_scheme \<Rightarrow> 'd \<Rightarrow> 'd \<Rightarrow> bool" where
  "avg_price_unchanged F l r =
     (if fp_eq F l r then True
      else let scale = fp_max F (fp_max F (fp_abs F l) (fp_abs F r)) (fp_of_int F 1)
           in fp_le F (fp_abs F (fp_sub F l r)) (fp_mul F scale (fp_div F (fp_of_int F 1) (fp_of_int F 1000000000000))))"

section \<open>Lemmas\<close>

lemma rec_id_with_avg [simp]: "rec_id (order_record_with_avg r p) = rec_id r"
  by (simp add: rec_id_def order_record_with_avg_def)

lemma accept_order_fields [simp]:
  "map_of (rf_orders (accept_order r f)) = (map_of (rf_orders f))(rec_id r \<mapsto> r)"
  "rf_trade_keys (accept_order r f) = rf_trade_keys f"
  by (simp_all add: accept_order_def)

lemma accept_trade_fields [simp]:
  "rf_orders (accept_trade t f) = rf_orders f"
  "set (rf_trade_keys (accept_trade t f)) = insert (trade_key t) (set (rf_trade_keys f))"
  by (simp_all add: accept_trade_def)

lemma fold_accept_order:
  "map_of (rf_orders (fold accept_order rs f)) = map_of (rf_orders f) ++ map_of (map (\<lambda>r. (rec_id r, r)) (rev rs)) \<and>
   rf_trade_keys (fold accept_order rs f) = rf_trade_keys f"
  by (induction rs arbitrary: f) (simp_all add: map_add_assoc [symmetric] flip: map_add_upd_left)

lemma fold_accept_trade:
  "rf_orders (fold accept_trade ts f) = rf_orders f \<and>
   set (rf_trade_keys (fold accept_trade ts f)) = trade_key ` set ts \<union> set (rf_trade_keys f)"
  by (induction ts arbitrary: f) auto

text \<open>Of rows with distinct ids each is the base row of its order.\<close>

lemma load_orders:
  assumes "distinct (map rec_id orders)" "r \<in> set orders"
  shows "map_of (rf_orders (load_filter orders trades)) (rec_id r) = Some r"
proof -
  have "map_of (map (\<lambda>r. (rec_id r, r)) (rev orders)) (rec_id r) = Some r"
    using assms by (intro map_of_is_SomeI) (auto simp: comp_def simp flip: rev_map)
  then show ?thesis
    using fold_accept_trade [of trades "fold accept_order orders (new_filter [])"] fold_accept_order [of orders "new_filter []"]
    by (simp add: load_filter_def new_filter_def)
qed

lemma load_trades: "set (rf_trade_keys (load_filter orders trades)) = trade_key ` set trades"
  using fold_accept_trade [of trades "fold accept_order orders (new_filter [])"] fold_accept_order [of orders "new_filter []"]
  by (simp add: load_filter_def new_filter_def)

text \<open>What was accepted is skipped from then on.\<close>

lemma check_accepted [simp]: "check_order (accept_order r f) r = (Skip, False)"
  by (simp add: check_order_def same_order_fields_def)

lemma check_accepted_avg: "find_order f (rec_id r) = Some b \<Longrightarrow> check_order f r = (Skip, False) \<Longrightarrow>
    check_order (accept_order (order_record_with_avg b p) f) r = (Skip, False)"
  by (auto simp: check_order_def find_order_def same_order_fields_def order_record_with_avg_def rec_id_def split: if_splits)

end
