(* ===== verification/Td_Day_Load.thy ===== *)
theory Td_Day_Load
  imports Td_Mapping Td_Report_Filter
begin

text \<open>
  What the trading gateway writes to its database and reads back at login
  (\<open>apps/ctp/td/td_persist_rows.cpp\<close>, \<open>td_day_load.cpp\<close>): a record is bound to the columns of a
  row, the day load turns the rows of the current day into records again and builds the average
  prices. The rows a statement returns are arguments. The JSON object in the column \<open>ext\<close> is a
  record of its optional members; \<open>None\<close> is a text that is no JSON object.
\<close>

section \<open>Rows\<close>

record order_ext =
  ox_order_ref :: "string option"
  ox_order_sys_id :: "string option"
  ox_volume_canceled :: "int option"
  ox_update_time :: "int option"
  ox_error_id :: "int option"
  ox_error_msg :: "string option"

record 'd order_row =
  ow_account_id :: string
  ow_date :: string
  ow_order_id :: int
  ow_strategy_id :: string
  ow_instrument_id :: string
  ow_exchange_id :: string
  ow_direction :: int
  ow_position_effect :: int
  ow_price_type :: int
  ow_status :: int
  ow_price :: 'd
  ow_volume :: int
  ow_volume_traded :: int
  ow_remark :: string
  ow_time :: int
  ow_avg_price :: 'd
  ow_seq :: int
  ow_gateway :: string
  ow_ext :: "order_ext option"

record 'd trade_row =
  tw_account_id :: string
  tw_date :: string
  tw_trade_id :: string
  tw_order_id :: int
  tw_strategy_id :: string
  tw_instrument_id :: string
  tw_exchange_id :: string
  tw_direction :: int
  tw_position_effect :: int
  tw_price :: 'd
  tw_volume :: int
  tw_time :: int
  tw_seq :: int
  tw_gateway :: string

definition DZ_STRATEGY_ID_EXTERNAL :: string where
  "DZ_STRATEGY_ID_EXTERNAL = ''/external''"

definition order_strategy_id :: "'d order_record \<Rightarrow> string" where
  "order_strategy_id r =
     (if orec_is_external r \<noteq> 0 \<and> or_strategy_id (orec_base r) = [] then DZ_STRATEGY_ID_EXTERNAL
      else or_strategy_id (orec_base r))"

definition build_order_ext :: "'d order_record \<Rightarrow> order_ext" where
  "build_order_ext r =
     \<lparr>ox_order_ref = (if orec_order_ref r \<noteq> [] then Some (orec_order_ref r) else None),
      ox_order_sys_id = (if orec_external_order_id r \<noteq> [] then Some (orec_external_order_id r) else None),
      ox_volume_canceled = (if orec_volume_canceled r \<noteq> 0 then Some (orec_volume_canceled r) else None),
      ox_update_time = (if orec_update_time r \<noteq> 0 then Some (orec_update_time r) else None),
      ox_error_id = (if orec_error_id r \<noteq> 0 then Some (orec_error_id r) else None),
      ox_error_msg = (if orec_error_msg r \<noteq> [] then Some (orec_error_msg r) else None)\<rparr>"

text \<open>A \<open>uint64\<close> is bound as the \<open>int64\<close> with the same bits.\<close>

definition i64_of_u64 :: "nat \<Rightarrow> int" where
  "i64_of_u64 n = (int n + 9223372036854775808) mod 18446744073709551616 - 9223372036854775808"

definition u64_of_i64 :: "int \<Rightarrow> nat" where
  "u64_of_i64 i = nat (i mod 18446744073709551616)"

definition i8 :: "int \<Rightarrow> int" where
  "i8 x = (x + 128) mod 256 - 128"

definition bind_order :: "'d order_record \<Rightarrow> string \<Rightarrow> 'd order_row" where
  "bind_order r gateway =
     (let b = orec_base r
      in \<lparr>ow_account_id = or_account_id b, ow_date = orec_trading_day r, ow_order_id = or_order_id b,
          ow_strategy_id = order_strategy_id r, ow_instrument_id = or_instrument_id b, ow_exchange_id = or_exchange_id b,
          ow_direction = or_direction b, ow_position_effect = or_position_effect b, ow_price_type = or_price_type b,
          ow_status = or_status b, ow_price = or_price b, ow_volume = or_volume b, ow_volume_traded = or_volume_traded b,
          ow_remark = or_remark b, ow_time = or_time b, ow_avg_price = or_avg_price b, ow_seq = i64_of_u64 (or_seq b),
          ow_gateway = gateway, ow_ext = Some (build_order_ext r)\<rparr>)"

definition bind_trade :: "'d trade_record \<Rightarrow> string \<Rightarrow> 'd trade_row" where
  "bind_trade r gateway =
     (let b = trec_base r
      in \<lparr>tw_account_id = tr_account_id b, tw_date = trec_trading_day r, tw_trade_id = tr_trade_id b,
          tw_order_id = tr_order_id b, tw_strategy_id = tr_strategy_id b, tw_instrument_id = tr_instrument_id b,
          tw_exchange_id = tr_exchange_id b, tw_direction = tr_direction b, tw_position_effect = tr_position_effect b,
          tw_price = tr_price b, tw_volume = tr_volume b, tw_time = tr_time b, tw_seq = i64_of_u64 (tr_seq b),
          tw_gateway = gateway\<rparr>)"

section \<open>Reading back\<close>

definition copy_to_fixed :: "nat \<Rightarrow> string \<Rightarrow> string" where
  "copy_to_fixed n src = take (min (length src) (n - 1)) src"

definition fill_order_ext :: "order_ext option \<Rightarrow> 'd order_record \<Rightarrow> 'd order_record" where
  "fill_order_ext ext r =
     (case ext of
        None \<Rightarrow> r
      | Some e \<Rightarrow>
          r\<lparr>orec_order_ref := (case ox_order_ref e of Some s \<Rightarrow> copy_to_fixed 13 s | None \<Rightarrow> orec_order_ref r),
            orec_external_order_id := (case ox_order_sys_id e of Some s \<Rightarrow> copy_to_fixed 21 s | None \<Rightarrow> orec_external_order_id r),
            orec_volume_canceled := (case ox_volume_canceled e of Some v \<Rightarrow> i32 v | None \<Rightarrow> orec_volume_canceled r),
            orec_update_time := (case ox_update_time e of Some v \<Rightarrow> v | None \<Rightarrow> orec_update_time r),
            orec_error_id := (case ox_error_id e of Some v \<Rightarrow> i32 v | None \<Rightarrow> orec_error_id r),
            orec_error_msg := (case ox_error_msg e of Some s \<Rightarrow> copy_to_fixed 128 s | None \<Rightarrow> orec_error_msg r)\<rparr>)"

definition load_order_row :: "string \<Rightarrow> 'd order_row \<Rightarrow> 'd order_record" where
  "load_order_row account w =
     (let strategy = copy_to_fixed 64 (ow_strategy_id w);
          base = \<lparr>or_order_id = ow_order_id w, or_strategy_id = strategy, or_instrument_id = copy_to_fixed 88 (ow_instrument_id w),
            or_direction = i8 (i32 (ow_direction w)), or_price_type = i8 (i32 (ow_price_type w)),
            or_position_effect = i8 (i32 (ow_position_effect w)), or_status = i8 (i32 (ow_status w)),
            or_price = ow_price w, or_avg_price = ow_avg_price w, or_volume = i32 (ow_volume w),
            or_volume_traded = i32 (ow_volume_traded w), or_date = parse_yyyymmdd_to_epoch (ow_date w),
            or_time = i32 (ow_time w), or_account_id = copy_to_fixed 32 account, or_exchange_id = copy_to_fixed 16 (ow_exchange_id w),
            or_remark = copy_to_fixed 64 (ow_remark w), or_seq = u64_of_i64 (ow_seq w)\<rparr>
      in fill_order_ext (ow_ext w)
           \<lparr>orec_base = base, orec_trading_day = copy_to_fixed 9 (ow_date w), orec_order_ref = [], orec_external_order_id = [],
            orec_is_external = (if strategy = DZ_STRATEGY_ID_EXTERNAL then 1 else 0), orec_volume_canceled = 0,
            orec_insert_time = 0, orec_update_time = 0, orec_error_id = 0, orec_error_msg = []\<rparr>)"

definition load_trade_row :: "string \<Rightarrow> 'd trade_row \<Rightarrow> 'd trade_record" where
  "load_trade_row account w =
     \<lparr>trec_base = \<lparr>tr_order_id = tw_order_id w, tr_strategy_id = copy_to_fixed 64 (tw_strategy_id w),
        tr_instrument_id = copy_to_fixed 88 (tw_instrument_id w), tr_price = tw_price w, tr_volume = i32 (tw_volume w),
        tr_direction = i8 (i32 (tw_direction w)), tr_position_effect = i8 (i32 (tw_position_effect w)),
        tr_date = parse_yyyymmdd_to_epoch (tw_date w), tr_time = i32 (tw_time w), tr_account_id = copy_to_fixed 32 account,
        tr_exchange_id = copy_to_fixed 16 (tw_exchange_id w), tr_trade_id = copy_to_fixed 32 (tw_trade_id w),
        tr_seq = u64_of_i64 (tw_seq w)\<rparr>,
      trec_trading_day = copy_to_fixed 9 (tw_date w)\<rparr>"

record 'd day_load =
  dl_start_seq :: nat
  dl_orders :: "'d order_record list"
  dl_trades :: "'d trade_record list"
  dl_order_avgs :: "'d avg_tracker"

text \<open>One maximum per table, as the four statements return it.\<close>

definition query_max_seq :: "int list \<Rightarrow> nat" where
  "query_max_seq maxima = foldl (\<lambda>result v. if 0 < v then max result (nat v) else result) 0 maxima"

definition avg_overrides :: "('d, 'm) fp_scheme \<Rightarrow> 'd avg_tracker \<Rightarrow> 'd order_record \<Rightarrow> 'd order_record" where
  "avg_overrides F avgs r =
     (case avg_price F avgs (rec_id r) of None \<Rightarrow> r | Some p \<Rightarrow> order_record_with_avg r p)"

definition load_trading_day :: "('d, 'm) fp_scheme \<Rightarrow> string \<Rightarrow> int list \<Rightarrow> 'd order_row list \<Rightarrow> 'd trade_row list \<Rightarrow> 'd day_load" where
  "load_trading_day F account maxima order_rows trade_rows =
     (let trades = map (load_trade_row account) trade_rows;
          avgs = seed_avgs F trades [];
          orders = map (load_order_row account) order_rows
      in \<lparr>dl_start_seq = query_max_seq maxima, dl_orders = map (avg_overrides F avgs) orders, dl_trades = trades, dl_order_avgs = avgs\<rparr>)"

section \<open>Numbers without a session\<close>

text \<open>The second argument is the maximum read from the database, \<open>None\<close> when it cannot be read.\<close>

definition next_account_seq :: "string \<Rightarrow> nat option \<Rightarrow> (string \<times> nat) list \<Rightarrow> nat \<times> (string \<times> nat) list" where
  "next_account_seq account db_max allocated =
     (let base = (case map_of allocated account of Some n \<Rightarrow> n | None \<Rightarrow> 0);
          base' = (case db_max of Some m \<Rightarrow> max base m | None \<Rightarrow> base)
      in (base' + 1, AList.update account (base' + 1) allocated))"

definition current_account_seq :: "(string \<times> nat) list \<Rightarrow> string \<Rightarrow> nat" where
  "current_account_seq allocated account = (case map_of allocated account of Some n \<Rightarrow> n | None \<Rightarrow> 0)"

definition build_no_session_reject :: "('d, 'm) fp_scheme \<Rightarrow> 'd order_req \<Rightarrow> int \<Rightarrow> int \<Rightarrow> string \<Rightarrow> 'd order_record" where
  "build_no_session_reject F req date time reason =
     \<lparr>orec_base =
        \<lparr>or_order_id = rq_order_id req, or_strategy_id = copy_to_fixed 64 (rq_strategy_id req),
         or_instrument_id = copy_to_fixed 88 (rq_instrument_id req), or_direction = rq_direction req,
         or_price_type = rq_price_type req, or_position_effect = rq_position_effect req, or_status = DZ_ORDER_REJECTED,
         or_price = rq_price req, or_avg_price = fp_zero F, or_volume = rq_volume req, or_volume_traded = 0,
         or_date = date, or_time = time, or_account_id = copy_to_fixed 32 (rq_account_id req), or_exchange_id = [],
         or_remark = copy_to_fixed 64 reason, or_seq = 0\<rparr>,
      orec_trading_day = copy_to_fixed 9 (format_day_text date), orec_order_ref = [], orec_external_order_id = [],
      orec_is_external = 0, orec_volume_canceled = rq_volume req, orec_insert_time = 0, orec_update_time = 0,
      orec_error_id = - 1, orec_error_msg = copy_to_fixed 128 reason\<rparr>"

section \<open>Lemmas\<close>

lemma copy_to_fixed_id [simp]: "length s < n \<Longrightarrow> copy_to_fixed n s = s"
  by (simp add: copy_to_fixed_def)

lemma i8_id [simp]: "- 128 \<le> x \<Longrightarrow> x < 128 \<Longrightarrow> i8 x = x"
  by (simp add: i8_def)

lemma u64_i64 [simp]: "n < 18446744073709551616 \<Longrightarrow> u64_of_i64 (i64_of_u64 n) = n"
proof -
  assume n: "n < 18446744073709551616"
  have "((int n + 9223372036854775808) mod 18446744073709551616 - 9223372036854775808) mod 18446744073709551616
      = (int n + 9223372036854775808 - 9223372036854775808) mod 18446744073709551616"
    by (rule mod_diff_left_eq)
  also have "\<dots> = int n" using n by simp
  finally show ?thesis by (simp add: u64_of_i64_def i64_of_u64_def)
qed

lemma query_max_seq: "v \<in> set maxima \<Longrightarrow> v \<le> int (query_max_seq maxima)"
proof -
  have mono: "n \<le> foldl (\<lambda>result v. if 0 < v then max result (nat v) else result) n vs" for n vs
    by (induction vs arbitrary: n) (auto intro: order_trans [OF max.cobounded1])
  have "v \<in> set vs \<Longrightarrow> v \<le> int (foldl (\<lambda>result v. if 0 < v then max result (nat v) else result) n vs)" for n vs
  proof (induction vs arbitrary: n)
    case (Cons w vs)
    show ?case
    proof (cases "v = w")
      case True
      have "nat w \<le> (if 0 < w then max n (nat w) else n)" by simp
      then have "nat w \<le> foldl (\<lambda>result v. if 0 < v then max result (nat v) else result) (if 0 < w then max n (nat w) else n) vs"
        using mono order_trans by blast
      then show ?thesis using True by simp
    qed (use Cons in simp)
  qed simp
  then show "v \<in> set maxima \<Longrightarrow> v \<le> int (query_max_seq maxima)" by (simp add: query_max_seq_def)
qed

lemma next_account_seq: "next_account_seq a db s = (n, s') \<Longrightarrow>
    current_account_seq s a < n \<and> current_account_seq s' a = n \<and> (\<forall>b. b \<noteq> a \<longrightarrow> current_account_seq s' b = current_account_seq s b) \<and>
    (\<forall>m. db = Some m \<longrightarrow> m < n)"
  by (auto simp: next_account_seq_def current_account_seq_def Let_def split: option.splits)

lemma rec_id_overrides [simp]: "rec_id (avg_overrides F avgs r) = rec_id r"
  by (simp add: avg_overrides_def split: option.split)

text \<open>The ranges of the columns: what the fields of the struct can hold.\<close>

definition i32_ok :: "int \<Rightarrow> bool" where
  "i32_ok x \<longleftrightarrow> - 2147483648 \<le> x \<and> x < 2147483648"

definition i8_ok :: "int \<Rightarrow> bool" where
  "i8_ok x \<longleftrightarrow> - 128 \<le> x \<and> x < 128"

definition order_fits :: "'d order_record \<Rightarrow> bool" where
  "order_fits r \<longleftrightarrow> (let b = orec_base r in
     length (or_strategy_id b) < 64 \<and> length (or_instrument_id b) < 88 \<and> length (or_account_id b) < 32 \<and>
     length (or_exchange_id b) < 16 \<and> length (or_remark b) < 64 \<and> length (orec_trading_day r) < 9 \<and>
     length (orec_order_ref r) < 13 \<and> length (orec_external_order_id r) < 21 \<and> length (orec_error_msg r) < 128 \<and>
     i8_ok (or_direction b) \<and> i8_ok (or_price_type b) \<and> i8_ok (or_position_effect b) \<and> i8_ok (or_status b) \<and>
     i32_ok (or_volume b) \<and> i32_ok (or_volume_traded b) \<and> i32_ok (or_time b) \<and>
     i32_ok (orec_volume_canceled r) \<and> i32_ok (orec_error_id r) \<and> or_seq b < 18446744073709551616)"

lemma i8_i32_ok [simp]: "i8_ok x \<Longrightarrow> i8 (i32 x) = x"
  by (simp add: i8_ok_def)

lemma i32_ok [simp]: "i32_ok x \<Longrightarrow> i32 x = x"
  by (simp add: i32_ok_def)

lemma fill_build_ext:
  assumes "order_fits r"
  shows "fill_order_ext (Some (build_order_ext r))
     \<lparr>orec_base = b, orec_trading_day = d, orec_order_ref = [], orec_external_order_id = [], orec_is_external = e,
      orec_volume_canceled = 0, orec_insert_time = t, orec_update_time = 0, orec_error_id = 0, orec_error_msg = []\<rparr> =
     r\<lparr>orec_base := b, orec_trading_day := d, orec_is_external := e, orec_insert_time := t\<rparr>"
  using assms by (cases r) (simp add: fill_order_ext_def build_order_ext_def order_fits_def Let_def)

text \<open>
  C38: An order record survives the database: read back from the row it was bound to, it has every
  field it had, but that the insert time is not kept, the date is the one its trading-day text
  denotes, and an external order without a strategy has the reserved strategy id (from which the
  external flag is read).
\<close>

theorem order_row_roundtrip:
  assumes "order_fits r"
  shows "load_order_row (or_account_id (orec_base r)) (bind_order r gateway) =
    r\<lparr>orec_base := (orec_base r)\<lparr>or_strategy_id := order_strategy_id r,
          or_date := parse_yyyymmdd_to_epoch (orec_trading_day r)\<rparr>,
      orec_is_external := (if order_strategy_id r = DZ_STRATEGY_ID_EXTERNAL then 1 else 0),
      orec_insert_time := 0\<rparr>"
proof -
  have "length (order_strategy_id r) < 64"
    using assms by (simp add: order_fits_def order_strategy_id_def DZ_STRATEGY_ID_EXTERNAL_def Let_def)
  then show ?thesis
    using assms fill_build_ext [OF assms]
    by (cases "orec_base r") (simp add: load_order_row_def bind_order_def order_fits_def Let_def)
qed

theorem order_row_roundtrip_witness:
  "orec_order_ref (load_order_row ''a'' (bind_order (sample_order 5 2 3 1000 (1 :: rat)) ''g'')) = ''000000000001''"
  using order_row_roundtrip [of "sample_order 5 2 3 1000 (1 :: rat)" "''g''"]
  by (simp add: order_fits_def sample_order_def i8_ok_def i32_ok_def)

end
