(* ===== verification/Td_Session.thy ===== *)
theory Td_Session
  imports Td_Refs Td_Day_Load Td_State "HOL-Library.Sublist"
begin

text \<open>
  The reports of an account session (\<open>apps/ctp/td/td_account_session.cpp\<close>): order and trade
  returns through the replay filter, the sequence numbers, the frames written and the rows handed
  to the database writer, the positions, the buffers of the login phase. The login chain is in
  \<open>Td_Login\<close>, which extends the state.

  An operation returns whether it ended normally, with the state it leaves; an exception
  (a page of the channel that cannot be mapped) keeps what was changed before it. The answers of
  the outside, number by number, are the record \<open>env\<close>. Logging is left out.
\<close>

section \<open>State\<close>

datatype write_outcome = Wrote | Refused | Threw

record 'd env =
  ev_fp :: "'d fp"
  ev_ids :: "nat \<Rightarrow> int"
  ev_writes :: "nat \<Rightarrow> write_outcome"
  ev_rets :: "nat \<Rightarrow> int"
  ev_timers :: "nat \<Rightarrow> nat"
  ev_flushes :: "nat \<Rightarrow> bool"
  ev_clock :: "nat \<Rightarrow> int"
  ev_gbk :: "string \<Rightarrow> string"
  ev_show :: "'d \<Rightarrow> string"

datatype 'd frame =
    Order_Frame "'d order_report"
  | Trade_Frame "'d trade_report"
  | Position_Frame "'d position_info"
  | Account_Frame "'d trading_account"
  | Risk_Frame string string "'d risk_reason"

datatype 'd task =
    Order_Task "'d order_record"
  | Trade_Task "'d trade_record"
  | Position_Task "'d position_info" int
  | Rebuild_Task "'d position_info list" int
  | Account_Task "'d trading_account" int
  | Instrument_Task "'d instrument_record"

record 'd instrument_brief =
  ib_exchange_id :: string
  ib_price_tick :: 'd
  ib_volume_multiple :: 'd

record 'd query_agg =
  qa_exchange_id :: string
  qa_volume :: int
  qa_yd :: int
  qa_cost :: 'd
  qa_volume_multiple :: 'd
  qa_ctp_frozen :: int

record 'd book =
  bk_account_id :: string
  bk_machine :: td_machine
  bk_refs :: order_ref_map
  bk_trading_day :: int
  bk_seq :: nat
  bk_filter :: "'d report_filter"
  bk_avgs :: "'d avg_tracker"
  bk_holdings :: "(string \<times> 'd position_holding) list"
  bk_instruments :: "(string \<times> 'd instrument_brief) list"
  bk_baseline_ready :: bool
  bk_buf_orders :: "'d ctp_order list"
  bk_buf_trades :: "'d ctp_trade list"
  bk_replaying :: bool
  bk_ids :: nat
  bk_writes :: nat
  bk_frames :: "'d frame list"
  bk_tasks :: "'d task list"

section \<open>Sequencing with exceptions\<close>

definition and_then :: "('s \<Rightarrow> bool \<times> 's) \<Rightarrow> ('s \<Rightarrow> bool \<times> 's) \<Rightarrow> 's \<Rightarrow> bool \<times> 's" where
  "and_then f g s = (case f s of (ok, s1) \<Rightarrow> if ok then g s1 else (False, s1))"

definition pure_op :: "('s \<Rightarrow> 's) \<Rightarrow> 's \<Rightarrow> bool \<times> 's" where
  "pure_op f s = (True, f s)"

text \<open>\<open>catch (const std::exception&)\<close> with logging only.\<close>

definition try_op :: "('s \<Rightarrow> bool \<times> 's) \<Rightarrow> 's \<Rightarrow> bool \<times> 's" where
  "try_op f s = (True, snd (f s))"

fun each :: "('a \<Rightarrow> 's \<Rightarrow> bool \<times> 's) \<Rightarrow> 'a list \<Rightarrow> 's \<Rightarrow> bool \<times> 's" where
  "each f [] s = (True, s)"
| "each f (x # xs) s = and_then (f x) (each f xs) s"

section \<open>Writing\<close>

definition write_frame :: "'d env \<Rightarrow> 'd frame \<Rightarrow> ('d, 'm) book_scheme \<Rightarrow> bool \<times> ('d, 'm) book_scheme" where
  "write_frame E f s =
     (let s1 = s\<lparr>bk_writes := bk_writes s + 1\<rparr>
      in case ev_writes E (bk_writes s) of
           Wrote \<Rightarrow> (True, s1\<lparr>bk_frames := bk_frames s @ [f]\<rparr>)
         | Refused \<Rightarrow> (True, s1)
         | Threw \<Rightarrow> (False, s1))"

definition enqueue_task :: "'d task \<Rightarrow> ('d, 'm) book_scheme \<Rightarrow> ('d, 'm) book_scheme" where
  "enqueue_task t s = s\<lparr>bk_tasks := bk_tasks s @ [t]\<rparr>"

definition write_order_rpt :: "'d env \<Rightarrow> 'd order_report \<Rightarrow> ('d, 'm) book_scheme \<Rightarrow> bool \<times> ('d, 'm) book_scheme" where
  "write_order_rpt E rpt = write_frame E (Order_Frame rpt)"

definition write_trade_rpt :: "'d env \<Rightarrow> 'd trade_report \<Rightarrow> ('d, 'm) book_scheme \<Rightarrow> bool \<times> ('d, 'm) book_scheme" where
  "write_trade_rpt E rpt = write_frame E (Trade_Frame rpt)"

definition persist_order :: "'d order_record \<Rightarrow> ('d, 'm) book_scheme \<Rightarrow> ('d, 'm) book_scheme" where
  "persist_order r = enqueue_task (Order_Task r)"

definition persist_trade :: "'d trade_record \<Rightarrow> ('d, 'm) book_scheme \<Rightarrow> ('d, 'm) book_scheme" where
  "persist_trade r = enqueue_task (Trade_Task r)"

text \<open>
  An accepted order record: the next number, the filter's baseline, the frame, the row.
\<close>

definition with_seq :: "nat \<Rightarrow> 'd order_record \<Rightarrow> 'd order_record" where
  "with_seq n r = r\<lparr>orec_base := (orec_base r)\<lparr>or_seq := n\<rparr>\<rparr>"

definition with_trade_seq :: "nat \<Rightarrow> 'd trade_record \<Rightarrow> 'd trade_record" where
  "with_trade_seq n r = r\<lparr>trec_base := (trec_base r)\<lparr>tr_seq := n\<rparr>\<rparr>"

definition send_order :: "'d env \<Rightarrow> 'd order_record \<Rightarrow> ('d, 'm) book_scheme \<Rightarrow> bool \<times> ('d, 'm) book_scheme" where
  "send_order E r s =
     (let n = bk_seq s + 1; r1 = with_seq n r
      in and_then (write_order_rpt E (orec_base r1)) (pure_op (persist_order r1))
           (s\<lparr>bk_seq := n, bk_filter := accept_order r1 (bk_filter s)\<rparr>))"

definition send_trade :: "'d env \<Rightarrow> 'd trade_record \<Rightarrow> ('d, 'm) book_scheme \<Rightarrow> bool \<times> ('d, 'm) book_scheme" where
  "send_trade E r s =
     (let n = bk_seq s + 1; r1 = with_trade_seq n r
      in and_then (write_trade_rpt E (trec_base r1)) (pure_op (persist_trade r1))
           (s\<lparr>bk_seq := n, bk_filter := accept_trade r1 (bk_filter s)\<rparr>))"

section \<open>Positions\<close>

definition fill_position_info :: "('d, 'm) book_scheme \<Rightarrow> 'd position_holding \<Rightarrow> int \<Rightarrow> 'd position_info" where
  "fill_position_info s h dir =
     (let p = holding_side dir h
      in \<lparr>pi_instrument_id = fit 88 (ph_instrument_id h), pi_exchange_id = fit 16 (ph_exchange_id h),
          pi_account_id = fit 32 (bk_account_id s), pi_volume = side_volume p, pi_frozen_volume = side_frozen p,
          pi_price = ps_price p, pi_yd_volume = ps_yd p, pi_today_volume = ps_today p, pi_date = bk_trading_day s,
          pi_direction = dir, pi_seq = ps_seq p\<rparr>)"

text \<open>A holding is named by its key; the code passes a reference to the map's element.\<close>

definition put_holding :: "string \<Rightarrow> 'd position_holding \<Rightarrow> ('d, 'm) book_scheme \<Rightarrow> ('d, 'm) book_scheme" where
  "put_holding inst h s = s\<lparr>bk_holdings := AList.update inst h (bk_holdings s)\<rparr>"

definition push_position :: "'d env \<Rightarrow> string \<Rightarrow> int \<Rightarrow> bool \<Rightarrow> ('d, 'm) book_scheme \<Rightarrow> bool \<times> ('d, 'm) book_scheme" where
  "push_position E inst dir persist s =
     (case map_of (bk_holdings s) inst of
        None \<Rightarrow> (True, s)
      | Some h \<Rightarrow>
          let n = bk_seq s + 1; h1 = set_seq dir n h;
              s1 = put_holding inst h1 (s\<lparr>bk_seq := n\<rparr>);
              p = fill_position_info s1 h1 dir
          in and_then (write_frame E (Position_Frame p))
               (pure_op (if persist then enqueue_task (Position_Task p (bk_trading_day s)) else id)) s1)"

definition push_changed :: "'d env \<Rightarrow> string \<Rightarrow> side_change \<Rightarrow> ('d, 'm) book_scheme \<Rightarrow> bool \<times> ('d, 'm) book_scheme" where
  "push_changed E inst ch =
     and_then (if long_changed ch then push_position E inst DZ_DIRECTION_LONG True else pure_op id)
              (if short_changed ch then push_position E inst DZ_DIRECTION_SHORT True else pure_op id)"

definition ensure_holding :: "('d, 'n) fp_scheme \<Rightarrow> string \<Rightarrow> string \<Rightarrow> ('d, 'm) book_scheme \<Rightarrow> ('d, 'm) book_scheme" where
  "ensure_holding F inst hint s =
     (case map_of (bk_holdings s) inst of
        Some h \<Rightarrow> s
      | None \<Rightarrow>
          let exchange_id = (if hint = [] then (case map_of (bk_instruments s) inst of Some b \<Rightarrow> ib_exchange_id b | None \<Rightarrow> hint) else hint)
          in put_holding inst (new_holding F inst exchange_id) s)"

definition change_holding :: "'d env \<Rightarrow> string \<Rightarrow> ('d position_holding \<Rightarrow> side_change \<times> 'd position_holding) \<Rightarrow>
    ('d, 'm) book_scheme \<Rightarrow> bool \<times> ('d, 'm) book_scheme" where
  "change_holding E inst f s =
     (case map_of (bk_holdings s) inst of
        None \<Rightarrow> (True, s)
      | Some h \<Rightarrow> (case f h of (ch, h1) \<Rightarrow> push_changed E inst ch (put_holding inst h1 s)))"

definition update_of_record :: "'d order_record \<Rightarrow> active_order_update" where
  "update_of_record r =
     (let b = orec_base r
      in \<lparr>au_instrument_id = or_instrument_id b, au_order_ref = orec_order_ref r, au_direction = or_direction b,
          au_effect = or_position_effect b, au_status = or_status b, au_volume = or_volume b,
          au_volume_traded = or_volume_traded b\<rparr>)"

section \<open>Order returns\<close>

definition buffer_order_rpt :: "nat \<Rightarrow> 'd ctp_order \<Rightarrow> ('d, 'm) book_scheme \<Rightarrow> ('d, 'm) book_scheme" where
  "buffer_order_rpt kMaxBuffered o' s =
     s\<lparr>bk_buf_orders := (if kMaxBuffered \<le> length (bk_buf_orders s) then tl (bk_buf_orders s) else bk_buf_orders s) @ [o']\<rparr>"

definition buffer_trade_rpt :: "nat \<Rightarrow> 'd ctp_trade \<Rightarrow> ('d, 'm) book_scheme \<Rightarrow> ('d, 'm) book_scheme" where
  "buffer_trade_rpt kMaxBuffered t s =
     s\<lparr>bk_buf_trades := (if kMaxBuffered \<le> length (bk_buf_trades s) then tl (bk_buf_trades s) else bk_buf_trades s) @ [t]\<rparr>"

definition set_order_id :: "int \<Rightarrow> 'd order_record \<Rightarrow> 'd order_record" where
  "set_order_id i r = r\<lparr>orec_base := (orec_base r)\<lparr>or_order_id := i\<rparr>\<rparr>"

definition set_strategy :: "string option \<Rightarrow> 'd order_record \<Rightarrow> 'd order_record" where
  "set_strategy sid r = (case sid of None \<Rightarrow> r | Some t \<Rightarrow> r\<lparr>orec_base := (orec_base r)\<lparr>or_strategy_id := fit 64 t\<rparr>\<rparr>)"

definition map_refs :: "(order_ref_map \<Rightarrow> order_ref_map) \<Rightarrow> ('d, 'm) book_scheme \<Rightarrow> ('d, 'm) book_scheme" where
  "map_refs f s = s\<lparr>bk_refs := f (bk_refs s)\<rparr>"

definition identify_order :: "'d env \<Rightarrow> 'd ctp_order \<Rightarrow> 'd order_record \<Rightarrow> ('d, 'm) book_scheme \<Rightarrow>
    'd order_record \<times> ('d, 'm) book_scheme" where
  "identify_order E c r s =
     (let (r1, s1) =
        (case find_by_order_ref (bk_refs s) (co_order_ref c) of
           Some i \<Rightarrow>
             ((set_strategy (find_strategy (bk_refs s) i) (set_order_id i r))\<lparr>orec_is_external := 0\<rparr>,
              map_refs (update_cancel_context i (co_front_id c) (co_session_id c)) s)
         | None \<Rightarrow>
             let i = ev_ids E (bk_ids s)
             in ((set_order_id i r)\<lparr>orec_is_external := 1\<rparr>,
                 map_refs (insert_by_order_ref (co_order_ref c) i) (s\<lparr>bk_ids := bk_ids s + 1\<rparr>)))
      in (r1, if co_order_sys_id c \<noteq> [] then map_refs (insert_by_sys_id (co_order_sys_id c) (rec_id r1)) s1 else s1))"

definition derive_canceled :: "'d order_record \<Rightarrow> 'd order_record" where
  "derive_canceled r =
     (if or_status (orec_base r) = DZ_ORDER_CANCELLED
      then r\<lparr>orec_volume_canceled := max 0 (or_volume (orec_base r) - or_volume_traded (orec_base r))\<rparr> else r)"

definition replay_hit :: "'d order_record \<Rightarrow> ('d, 'm) book_scheme \<Rightarrow> ('d, 'm) book_scheme" where
  "replay_hit r s =
     (if orec_is_external r \<noteq> 0 \<and> orec_order_ref r \<noteq> []
      then let s1 = map_refs (insert_by_order_ref (orec_order_ref r) (rec_id r)) s
           in if or_strategy_id (orec_base r) \<noteq> [] then map_refs (insert_strategy (rec_id r) (or_strategy_id (orec_base r))) s1 else s1
      else s)"

definition carry_avg :: "('d, 'm) book_scheme \<Rightarrow> ('d, 'n) fp_scheme \<Rightarrow> 'd order_record \<Rightarrow> 'd order_record" where
  "carry_avg s F r =
     (case avg_price F (bk_avgs s) (rec_id r) of
        Some p \<Rightarrow> order_record_with_avg r p
      | None \<Rightarrow> (case find_order (bk_filter s) (rec_id r) of
                  Some base \<Rightarrow> order_record_with_avg r (or_avg_price (orec_base base))
                | None \<Rightarrow> r))"

definition freeze_position :: "'d env \<Rightarrow> 'd order_record \<Rightarrow> ('d, 'm) book_scheme \<Rightarrow> bool \<times> ('d, 'm) book_scheme" where
  "freeze_position E r s =
     (if bk_baseline_ready s
      then let inst = or_instrument_id (orec_base r)
           in change_holding E inst (apply_order (ev_fp E) (update_of_record r))
                (ensure_holding (ev_fp E) inst (or_exchange_id (orec_base r)) s)
      else (True, s))"

definition process_order :: "'d env \<Rightarrow> 'd ctp_order \<Rightarrow> ('d, 'm) book_scheme \<Rightarrow> bool \<times> ('d, 'm) book_scheme" where
  "process_order E c s =
     (let (r1, s1) = identify_order E c (to_order_record (ev_fp E) c (bk_account_id s) (bk_trading_day s)) s;
          r2 = derive_canceled r1;
          (verdict, outdated) = check_order (bk_filter s1) r2
      in if verdict = Skip then (True, replay_hit r2 s1)
         else if outdated then (True, s1)
         else let r3 = carry_avg s1 (ev_fp E) r2
              in and_then (send_order E r3) (freeze_position E r3) s1)"

definition on_rtn_order :: "'d env \<Rightarrow> nat \<Rightarrow> 'd ctp_order \<Rightarrow> ('d, 'm) book_scheme \<Rightarrow> bool \<times> ('d, 'm) book_scheme" where
  "on_rtn_order E kMaxBuffered c s =
     (if tm_state (bk_machine s) = LoadingInstruments \<and> \<not> bk_replaying s then (True, buffer_order_rpt kMaxBuffered c s)
      else try_op (process_order E c) s)"

section \<open>Trade returns\<close>

definition refresh_order_avg :: "'d env \<Rightarrow> int \<Rightarrow> ('d, 'm) book_scheme \<Rightarrow> bool \<times> ('d, 'm) book_scheme" where
  "refresh_order_avg E i s =
     (case find_order (bk_filter s) i of
        None \<Rightarrow> (True, s)
      | Some base \<Rightarrow>
          (case avg_price (ev_fp E) (bk_avgs s) i of
             None \<Rightarrow> (True, s)
           | Some p \<Rightarrow>
               if avg_price_unchanged (ev_fp E) p (or_avg_price (orec_base base)) then (True, s)
               else send_order E (order_record_with_avg base p) s))"

definition identify_trade :: "'d ctp_trade \<Rightarrow> 'd trade_record \<Rightarrow> ('d, 'm) book_scheme \<Rightarrow> 'd trade_record" where
  "identify_trade c r s =
     (case find_by_order_ref (bk_refs s) (ct_order_ref c) of
        None \<Rightarrow> r
      | Some i \<Rightarrow>
          let b = (trec_base r)\<lparr>tr_order_id := i\<rparr>
          in r\<lparr>trec_base := (case find_strategy (bk_refs s) i of None \<Rightarrow> b | Some sid \<Rightarrow> b\<lparr>tr_strategy_id := fit 64 sid\<rparr>)\<rparr>)"

definition add_to_avgs :: "'d env \<Rightarrow> 'd trade_report \<Rightarrow> ('d, 'm) book_scheme \<Rightarrow> ('d, 'm) book_scheme" where
  "add_to_avgs E t s = s\<lparr>bk_avgs := add_trade_avg (ev_fp E) (tr_order_id t) (tr_price t) (tr_volume t) (bk_avgs s)\<rparr>"

definition move_position :: "'d env \<Rightarrow> 'd trade_report \<Rightarrow> ('d, 'm) book_scheme \<Rightarrow> bool \<times> ('d, 'm) book_scheme" where
  "move_position E t s =
     (if bk_baseline_ready s \<and> \<not> bk_replaying s
      then change_holding E (tr_instrument_id t) (apply_trade (ev_fp E) t)
             (ensure_holding (ev_fp E) (tr_instrument_id t) (tr_exchange_id t) s)
      else (True, s))"

definition process_trade :: "'d env \<Rightarrow> 'd ctp_trade \<Rightarrow> ('d, 'm) book_scheme \<Rightarrow> bool \<times> ('d, 'm) book_scheme" where
  "process_trade E c s =
     (let r = identify_trade c (to_trade_record c (bk_account_id s) (bk_trading_day s)) s
      in if check_trade (bk_filter s) r = Skip then (True, s)
         else let b = trec_base (with_trade_seq (bk_seq s + 1) r)
              in and_then (send_trade E r)
                   (and_then (pure_op (add_to_avgs E b))
                     (and_then (refresh_order_avg E (tr_order_id b)) (move_position E b))) s)"

definition on_rtn_trade :: "'d env \<Rightarrow> nat \<Rightarrow> 'd ctp_trade \<Rightarrow> ('d, 'm) book_scheme \<Rightarrow> bool \<times> ('d, 'm) book_scheme" where
  "on_rtn_trade E kMaxBuffered c s =
     (if tm_state (bk_machine s) = LoadingInstruments \<and> \<not> bk_replaying s then (True, buffer_trade_rpt kMaxBuffered c s)
      else try_op (process_trade E c) s)"

section \<open>The buffers of the login phase\<close>

text \<open>
  Each report is handled before it leaves the buffer; while replaying nothing is buffered, so
  going through the buffers in order is the loop.
\<close>

definition replay_next_order :: "'d env \<Rightarrow> nat \<Rightarrow> 'd ctp_order \<Rightarrow> ('d, 'm) book_scheme \<Rightarrow> bool \<times> ('d, 'm) book_scheme" where
  "replay_next_order E kMaxBuffered c = and_then (on_rtn_order E kMaxBuffered c) (pure_op (\<lambda>s. s\<lparr>bk_buf_orders := tl (bk_buf_orders s)\<rparr>))"

definition replay_next_trade :: "'d env \<Rightarrow> nat \<Rightarrow> 'd ctp_trade \<Rightarrow> ('d, 'm) book_scheme \<Rightarrow> bool \<times> ('d, 'm) book_scheme" where
  "replay_next_trade E kMaxBuffered c = and_then (on_rtn_trade E kMaxBuffered c) (pure_op (\<lambda>s. s\<lparr>bk_buf_trades := tl (bk_buf_trades s)\<rparr>))"

definition replay_buffered_reports :: "'d env \<Rightarrow> nat \<Rightarrow> ('d, 'm) book_scheme \<Rightarrow> bool \<times> ('d, 'm) book_scheme" where
  "replay_buffered_reports E kMaxBuffered s =
     (if bk_buf_orders s = [] \<and> bk_buf_trades s = [] then (True, s)
      else and_then (pure_op (\<lambda>s. s\<lparr>bk_replaying := True\<rparr>))
             (and_then (each (replay_next_order E kMaxBuffered) (bk_buf_orders s))
               (and_then (each (replay_next_trade E kMaxBuffered) (bk_buf_trades s))
                 (pure_op (\<lambda>s. s\<lparr>bk_replaying := False\<rparr>)))) s)"

section \<open>Days and queries\<close>

definition set_trading_day :: "'d env \<Rightarrow> int \<Rightarrow> ('d, 'm) book_scheme \<Rightarrow> bool \<times> ('d, 'm) book_scheme" where
  "set_trading_day E day s =
     each (\<lambda>inst. change_holding E inst (on_day_switch (ev_fp E))) (keys (bk_holdings s))
       (s\<lparr>bk_trading_day := day, bk_avgs := []\<rparr>)"

definition agg_price :: "('d, 'n) fp_scheme \<Rightarrow> 'd query_agg \<Rightarrow> 'd" where
  "agg_price F a =
     (if 0 < qa_volume a \<and> fp_lt F (fp_zero F) (qa_volume_multiple a)
      then fp_div F (qa_cost a) (fp_mul F (fp_of_int F (qa_volume a)) (qa_volume_multiple a)) else fp_zero F)"

text \<open>One row of the query: the flag of the state's first component says that something changed.\<close>

definition apply_query_row :: "'d env \<Rightarrow> (string \<times> int) \<times> 'd query_agg \<Rightarrow> bool \<times> ('d, 'm) book_scheme \<Rightarrow> bool \<times> bool \<times> ('d, 'm) book_scheme" where
  "apply_query_row E row cs =
     (case row of ((inst, dir), a) \<Rightarrow> case cs of (changed, s) \<Rightarrow>
        let s1 = ensure_holding (ev_fp E) inst (qa_exchange_id a) s
        in case map_of (bk_holdings s1) inst of
             None \<Rightarrow> (True, changed, s1)
           | Some h \<Rightarrow>
               (case apply_query_side (ev_fp E) dir (qa_volume a) (qa_yd a) (agg_price (ev_fp E) a) h of
                  (ch, h1) \<Rightarrow>
                    (case push_changed E inst ch (put_holding inst h1 s1) of
                       (ok, s2) \<Rightarrow> (ok, changed \<or> long_changed ch \<or> short_changed ch, s2))))"

definition clear_absent_side :: "'d env \<Rightarrow> (string \<times> int) list \<Rightarrow> string \<times> int \<Rightarrow> bool \<times> ('d, 'm) book_scheme \<Rightarrow> bool \<times> bool \<times> ('d, 'm) book_scheme" where
  "clear_absent_side E seen key cs =
     (case key of (inst, dir) \<Rightarrow> case cs of (gone, s) \<Rightarrow>
        if key \<in> set seen then (True, gone, s)
        else case map_of (bk_holdings s) inst of
               None \<Rightarrow> (True, gone, s)
             | Some h \<Rightarrow>
                 (case apply_query_side (ev_fp E) dir 0 0 (fp_zero (ev_fp E)) h of
                    (ch, h1) \<Rightarrow>
                      let s1 = put_holding inst h1 s
                      in if (dir = DZ_DIRECTION_LONG \<and> long_changed ch) \<or> (dir = DZ_DIRECTION_SHORT \<and> short_changed ch)
                         then (case push_position E inst dir False s1 of (ok, s2) \<Rightarrow> (ok, True, s2))
                         else (True, gone, s1)))"

definition both_sides :: "string list \<Rightarrow> (string \<times> int) list" where
  "both_sides is = concat (map (\<lambda>i. [(i, DZ_DIRECTION_LONG), (i, DZ_DIRECTION_SHORT)]) is)"

definition rebuild_group :: "((string \<times> int) \<times> 'd query_agg) list \<Rightarrow> ('d, 'm) book_scheme \<Rightarrow> 'd position_info list" where
  "rebuild_group agg s =
     List.map_filter (\<lambda>((inst, dir), a). map_option (\<lambda>h. fill_position_info s h dir) (map_of (bk_holdings s) inst)) agg"

definition reseed_orders :: "'d env \<Rightarrow> ('d, 'm) book_scheme \<Rightarrow> bool \<times> ('d, 'm) book_scheme" where
  "reseed_orders E s =
     (let updates = map update_of_record (active_orders (bk_trading_day s) (bk_filter s))
      in each (\<lambda>inst. change_holding E inst (rebuild_active_orders (ev_fp E) updates)) (keys (bk_holdings s)) s)"

definition finish_query :: "((string \<times> int) \<times> 'd query_agg) list \<Rightarrow> bool \<Rightarrow> ('d, 'm) book_scheme \<Rightarrow> bool \<times> ('d, 'm) book_scheme" where
  "finish_query agg changed s =
     (True, (if \<not> bk_baseline_ready s \<or> changed then enqueue_task (Rebuild_Task (rebuild_group agg s) (bk_trading_day s)) s else s)
              \<lparr>bk_baseline_ready := True\<rparr>)"

definition apply_position_query :: "'d env \<Rightarrow> ((string \<times> int) \<times> 'd query_agg) list \<Rightarrow> ('d, 'm) book_scheme \<Rightarrow> bool \<times> ('d, 'm) book_scheme" where
  "apply_position_query E agg s =
     (case each (apply_query_row E) agg (False, s) of
        (ok1, changed, s1) \<Rightarrow>
          if \<not> ok1 then (False, s1)
          else case each (clear_absent_side E (map fst agg)) (both_sides (keys (bk_holdings s1))) (False, s1) of
                 (ok2, gone, s2) \<Rightarrow>
                   if \<not> ok2 then (False, s2)
                   else and_then (reseed_orders E) (finish_query agg (changed \<or> gone)) s2)"

end
