(* ===== verification/Td_Session_Run.thy ===== *)
theory Td_Session_Run
  imports Td_Session
begin

text \<open>
  What every operation on the reports of an account keeps: one relation \<open>advance\<close> between the
  state before and after (numbers handed out, frames and rows added, trades recorded, positions
  well formed), closed under sequencing by a locale for such relations.
\<close>

section \<open>Relations closed under sequencing\<close>

locale effect_order =
  fixes R :: "'s \<Rightarrow> 's \<Rightarrow> bool"
  assumes refl: "R s s" and trans: "R s t \<Longrightarrow> R t u \<Longrightarrow> R s u"
begin

lemma and_then: "R s (snd (f s)) \<Longrightarrow> (\<And>t. R t (snd (g t))) \<Longrightarrow> R s (snd (and_then f g s))"
  using trans by (auto simp: and_then_def split: prod.split)

lemma try_op: "R s (snd (f s)) \<Longrightarrow> R s (snd (try_op f s))"
  by (simp add: try_op_def)

lemma pure_op: "R s (f s) \<Longrightarrow> R s (snd (pure_op f s))"
  by (simp add: pure_op_def)

lemma each: "(\<And>x s. R s (snd (f x s))) \<Longrightarrow> R s (snd (each f xs s))"
proof (induction xs arbitrary: s)
  case Nil
  then show ?case by (simp add: refl)
next
  case (Cons x xs)
  then show ?case by (auto intro: and_then)
qed

end

section \<open>What is written\<close>

fun frame_seq :: "'d frame \<Rightarrow> nat option" where
  "frame_seq (Order_Frame r) = Some (or_seq r)"
| "frame_seq (Trade_Frame r) = Some (tr_seq r)"
| "frame_seq (Position_Frame p) = Some (pi_seq p)"
| "frame_seq (Account_Frame a) = Some (ta_seq a)"
| "frame_seq (Risk_Frame a b c) = None"

text \<open>The frame a row belongs to; the rebuilding of a table and the instruments have none.\<close>

fun row_frame :: "'d task \<Rightarrow> 'd frame option" where
  "row_frame (Order_Task r) = Some (Order_Frame (orec_base r))"
| "row_frame (Trade_Task r) = Some (Trade_Frame (trec_base r))"
| "row_frame (Position_Task p d) = Some (Position_Frame p)"
| "row_frame (Account_Task a d) = Some (Account_Frame a)"
| "row_frame (Rebuild_Task ps d) = None"
| "row_frame (Instrument_Task i) = None"

definition row_seq :: "'d task \<Rightarrow> nat option" where
  "row_seq t = Option.bind (row_frame t) frame_seq"

fun row_trade :: "'d task \<Rightarrow> trade_key option" where
  "row_trade (Trade_Task r) = Some (trade_key r)"
| "row_trade t = None"

text \<open>The trade a frame announces and the one a row stores.\<close>

fun frame_trade :: "'d frame \<Rightarrow> 'd trade_report option" where
  "frame_trade (Trade_Frame r) = Some r"
| "frame_trade f = None"

fun row_report :: "'d task \<Rightarrow> 'd trade_report option" where
  "row_report (Trade_Task r) = Some (trec_base r)"
| "row_report t = None"

fun row_positions :: "'d task \<Rightarrow> 'd position_info list" where
  "row_positions (Position_Task p d) = [p]"
| "row_positions (Rebuild_Task ps d) = ps"
| "row_positions t = []"

fun frame_positions :: "'d frame \<Rightarrow> 'd position_info list" where
  "frame_positions (Position_Frame p) = [p]"
| "frame_positions f = []"

definition info_ok :: "'d position_info \<Rightarrow> bool" where
  "info_ok p \<longleftrightarrow> 0 \<le> pi_frozen_volume p \<and> pi_frozen_volume p \<le> pi_volume p \<and> 0 \<le> pi_today_volume p \<and> 0 \<le> pi_yd_volume p \<and>
     pi_volume p = pi_today_volume p + pi_yd_volume p"

definition holdings_ok :: "('d, 'm) book_scheme \<Rightarrow> bool" where
  "holdings_ok s \<longleftrightarrow> (\<forall>i h. map_of (bk_holdings s) i = Some h \<longrightarrow> holding_ok h)"

definition numbered :: "nat \<Rightarrow> nat \<Rightarrow> nat list \<Rightarrow> bool" where
  "numbered lo hi ns \<longleftrightarrow> sorted_wrt (<) ns \<and> (\<forall>n \<in> set ns. lo < n \<and> n \<le> hi)"

definition trade_keys :: "('d, 'm) book_scheme \<Rightarrow> trade_key set" where
  "trade_keys s = set (rf_trade_keys (bk_filter s))"

definition all_written :: "'d env \<Rightarrow> bool" where
  "all_written E \<longleftrightarrow> (\<forall>n. ev_writes E n = Wrote)"

definition new_output :: "'d env \<Rightarrow> ('d, 'm) book_scheme \<Rightarrow> ('d, 'm) book_scheme \<Rightarrow> 'd frame list \<Rightarrow> 'd task list \<Rightarrow> bool" where
  "new_output E s s' fs ts \<longleftrightarrow>
     bk_frames s' = bk_frames s @ fs \<and> bk_tasks s' = bk_tasks s @ ts \<and>
     numbered (bk_seq s) (bk_seq s') (List.map_filter frame_seq fs) \<and>
     numbered (bk_seq s) (bk_seq s') (List.map_filter row_seq ts) \<and>
     distinct (List.map_filter row_trade ts) \<and> trade_keys s \<inter> set (List.map_filter row_trade ts) = {} \<and>
     trade_keys s \<union> set (List.map_filter row_trade ts) \<subseteq> trade_keys s' \<and>
     (all_written E \<longrightarrow> subseq (List.map_filter row_frame ts) fs) \<and>
     subseq (List.map_filter frame_trade fs) (List.map_filter row_report ts) \<and>
     (holdings_ok s \<longrightarrow> (\<forall>f \<in> set fs. list_all info_ok (frame_positions f)) \<and> (\<forall>t \<in> set ts. list_all info_ok (row_positions t)))"

definition advance :: "'d env \<Rightarrow> ('d, 'm) book_scheme \<Rightarrow> ('d, 'm) book_scheme \<Rightarrow> bool" where
  "advance E s s' \<longleftrightarrow> bk_seq s \<le> bk_seq s' \<and> (holdings_ok s \<longrightarrow> holdings_ok s') \<and> (\<exists>fs ts. new_output E s s' fs ts)"

lemma map_filter_append [simp]: "List.map_filter f (xs @ ys) = List.map_filter f xs @ List.map_filter f ys"
  by (simp add: List.map_filter_def)

lemma numbered_append:
  "numbered a b xs \<Longrightarrow> numbered b c ys \<Longrightarrow> a \<le> b \<Longrightarrow> b \<le> c \<Longrightarrow> numbered a c (xs @ ys)"
  by (auto simp: numbered_def sorted_wrt_append) fastforce+

lemma advance_refl: "advance E s s"
  unfolding advance_def by (auto intro!: exI [of _ "[]"] simp: new_output_def numbered_def List.map_filter_def)

lemma new_output_append:
  assumes "new_output E s t fs ts" "new_output E t u fs' ts'" "bk_seq s \<le> bk_seq t" "bk_seq t \<le> bk_seq u"
    "holdings_ok s \<longrightarrow> holdings_ok t"
  shows "new_output E s u (fs @ fs') (ts @ ts')"
proof -
  have "all_written E \<longrightarrow> subseq (List.map_filter row_frame (ts @ ts')) (fs @ fs')"
    using assms(1,2) by (simp add: new_output_def list_emb_append_mono)
  moreover have "subseq (List.map_filter frame_trade (fs @ fs')) (List.map_filter row_report (ts @ ts'))"
    using assms(1,2) by (simp add: new_output_def list_emb_append_mono)
  moreover have "set (List.map_filter row_trade ts) \<inter> set (List.map_filter row_trade ts') = {}"
    "trade_keys s \<inter> set (List.map_filter row_trade ts') = {}"
    using assms(1,2) unfolding new_output_def by blast+
  moreover have "numbered (bk_seq s) (bk_seq u) (List.map_filter frame_seq (fs @ fs'))"
    "numbered (bk_seq s) (bk_seq u) (List.map_filter row_seq (ts @ ts'))"
    using assms numbered_append by (simp_all add: new_output_def) blast+
  ultimately show ?thesis
    using assms(1,2,5) unfolding new_output_def by (simp add: Un_subset_iff Int_Un_distrib) blast
qed

interpretation adv: effect_order "advance E" for E :: "'d env"
proof
  fix s t u :: "('d, 'm) book_scheme"
  show "advance E s s" by (rule advance_refl)
  assume "advance E s t" "advance E t u"
  then show "advance E s u"
    unfolding advance_def using new_output_append [of E s t _ _ u] by (meson order_trans)
qed

section \<open>Single steps\<close>

text \<open>Steps that neither number nor write.\<close>

definition quiet :: "('d, 'm) book_scheme \<Rightarrow> ('d, 'm) book_scheme \<Rightarrow> bool" where
  "quiet s s' \<longleftrightarrow> bk_frames s' = bk_frames s \<and> bk_tasks s' = bk_tasks s \<and> bk_seq s' = bk_seq s \<and> bk_filter s' = bk_filter s \<and>
     (holdings_ok s \<longrightarrow> holdings_ok s')"

lemma quiet_refl [simp]: "quiet s s"
  by (simp add: quiet_def)

lemma quiet_trans: "quiet s t \<Longrightarrow> quiet t u \<Longrightarrow> quiet s u"
  by (simp add: quiet_def)

lemma quiet_advance: "quiet s s' \<Longrightarrow> advance E s s'"
  unfolding advance_def quiet_def
  by (auto intro!: exI [of _ "[]"] simp: new_output_def numbered_def List.map_filter_simps trade_keys_def)

lemma advance_one:
  assumes "bk_frames s' = bk_frames s @ fs" "bk_tasks s' = bk_tasks s @ ts" "bk_seq s < bk_seq s'"
    "fs = [] \<or> (\<exists>f. fs = [f] \<and> frame_seq f = Some (bk_seq s'))"
    "ts = [] \<or> (\<exists>t f. ts = [t] \<and> row_frame t = Some f \<and> frame_seq f = Some (bk_seq s') \<and> (all_written E \<longrightarrow> fs = [f]))"
    "\<And>k. k \<in> set (List.map_filter row_trade ts) \<Longrightarrow> k \<notin> trade_keys s \<and> k \<in> trade_keys s'"
    "trade_keys s \<subseteq> trade_keys s'"
    "subseq (List.map_filter frame_trade fs) (List.map_filter row_report ts)"
    "holdings_ok s \<Longrightarrow> holdings_ok s' \<and> (\<forall>f \<in> set fs. list_all info_ok (frame_positions f)) \<and> (\<forall>t \<in> set ts. list_all info_ok (row_positions t))"
  shows "advance E s s'"
proof -
  have "distinct (List.map_filter row_trade ts)"
    using assms(5) by (auto simp: List.map_filter_simps split: option.splits)
  moreover have "numbered (bk_seq s) (bk_seq s') (List.map_filter frame_seq fs)"
    "numbered (bk_seq s) (bk_seq s') (List.map_filter row_seq ts)"
    using assms(3-5) by (auto simp: numbered_def List.map_filter_simps row_seq_def)
  moreover have "all_written E \<longrightarrow> subseq (List.map_filter row_frame ts) fs"
    using assms(5) by (auto simp: List.map_filter_simps)
  ultimately have "new_output E s s' fs ts"
    unfolding new_output_def using assms(1,2,6-9) by blast
  then show ?thesis unfolding advance_def using assms(3,9) less_imp_le by blast
qed

lemma holdings_ok_upd [simp]:
  "holdings_ok (s\<lparr>bk_seq := n\<rparr>) = holdings_ok s" "holdings_ok (s\<lparr>bk_filter := f\<rparr>) = holdings_ok s"
  "holdings_ok (s\<lparr>bk_writes := k\<rparr>) = holdings_ok s" "holdings_ok (s\<lparr>bk_frames := fs\<rparr>) = holdings_ok s"
  "holdings_ok (s\<lparr>bk_tasks := ts\<rparr>) = holdings_ok s" "holdings_ok (s\<lparr>bk_refs := r\<rparr>) = holdings_ok s"
  "holdings_ok (s\<lparr>bk_ids := k\<rparr>) = holdings_ok s" "holdings_ok (s\<lparr>bk_avgs := av\<rparr>) = holdings_ok s"
  "holdings_ok (s\<lparr>bk_trading_day := d\<rparr>) = holdings_ok s" "holdings_ok (s\<lparr>bk_baseline_ready := b\<rparr>) = holdings_ok s"
  "holdings_ok (s\<lparr>bk_buf_orders := os\<rparr>) = holdings_ok s" "holdings_ok (s\<lparr>bk_buf_trades := trs\<rparr>) = holdings_ok s"
  "holdings_ok (s\<lparr>bk_replaying := b\<rparr>) = holdings_ok s"
  by (simp_all add: holdings_ok_def)

lemma holdings_ok_put [simp]: "holdings_ok s \<Longrightarrow> holding_ok h \<Longrightarrow> holdings_ok (put_holding i h s)"
  by (simp add: holdings_ok_def put_holding_def)

lemma info_ok_fill: "holding_ok h \<Longrightarrow> info_ok (fill_position_info s h dir)"
  by (auto simp: info_ok_def fill_position_info_def holding_ok_def side_ok_def side_volume_def side_frozen_def holding_side_def Let_def)

lemma holding_ok_steps:
  assumes "holding_ok h"
  shows "holding_ok (snd (apply_query_side F dir v y p h))" "holding_ok (snd (apply_trade F t h))"
    "holding_ok (snd (apply_order F u h))" "holding_ok (snd (rebuild_active_orders F us h))"
    "holding_ok (snd (on_day_switch F h))" "holding_ok (set_seq dir n h)"
  using position_step_ok [OF assms, of F "Query dir v y p"] position_step_ok [OF assms, of F "Trade t"]
    position_step_ok [OF assms, of F "Order u"] position_step_ok [OF assms, of F "Rebuild us"]
    position_step_ok [OF assms, of F Day_Switch] position_step_ok [OF assms, of F "Set_Seq dir n"] by simp_all

lemma trade_keys_accept_order [simp]: "trade_keys (s\<lparr>bk_seq := n, bk_filter := accept_order r (bk_filter s)\<rparr>) = trade_keys s"
  by (simp add: trade_keys_def)

lemma advance_send_order: "advance E s (snd (send_order E r s))"
proof (cases "ev_writes E (bk_writes s)")
  case Wrote
  then show ?thesis
    by (intro advance_one [where fs = "[Order_Frame (orec_base (with_seq (bk_seq s + 1) r))]" and ts = "[Order_Task (with_seq (bk_seq s + 1) r)]"])
       (auto simp: send_order_def and_then_def pure_op_def write_order_rpt_def write_frame_def persist_order_def enqueue_task_def
          with_seq_def trade_keys_def List.map_filter_simps Let_def)
next
  case Refused
  then show ?thesis
    by (intro advance_one [where fs = "[]" and ts = "[Order_Task (with_seq (bk_seq s + 1) r)]"])
       (auto simp: send_order_def and_then_def pure_op_def write_order_rpt_def write_frame_def persist_order_def enqueue_task_def
          with_seq_def trade_keys_def List.map_filter_simps Let_def all_written_def intro!: exI [of _ "bk_writes s"])
next
  case Threw
  then show ?thesis
    by (intro advance_one [where fs = "[]" and ts = "[]"])
       (auto simp: send_order_def and_then_def pure_op_def write_order_rpt_def write_frame_def trade_keys_def List.map_filter_simps Let_def)
qed

lemma advance_send_trade: "check_trade (bk_filter s) r \<noteq> Skip \<Longrightarrow> advance E s (snd (send_trade E r s))"
proof -
  assume "check_trade (bk_filter s) r \<noteq> Skip"
  then have new: "trade_key r \<notin> trade_keys s" by (auto simp: check_trade_def trade_keys_def)
  have k: "trade_key (with_trade_seq n r) = trade_key r" for n by (simp add: trade_key_def with_trade_seq_def)
  note defs = send_trade_def and_then_def pure_op_def write_trade_rpt_def write_frame_def persist_trade_def enqueue_task_def
    trade_keys_def List.map_filter_simps Let_def
  show ?thesis
  proof (cases "ev_writes E (bk_writes s)")
    case Wrote
    then show ?thesis using new
      by (intro advance_one [where fs = "[Trade_Frame (trec_base (with_trade_seq (bk_seq s + 1) r))]" and ts = "[Trade_Task (with_trade_seq (bk_seq s + 1) r)]"])
         (auto simp: defs k with_trade_seq_def [THEN arg_cong, of "\<lambda>x. tr_seq (trec_base x)"])
  next
    case Refused
    then show ?thesis using new
      by (intro advance_one [where fs = "[]" and ts = "[Trade_Task (with_trade_seq (bk_seq s + 1) r)]"])
         (auto simp: defs k with_trade_seq_def [THEN arg_cong, of "\<lambda>x. tr_seq (trec_base x)"] all_written_def intro!: exI [of _ "bk_writes s"])
  next
    case Threw
    then show ?thesis by (intro advance_one [where fs = "[]" and ts = "[]"]) (auto simp: defs)
  qed
qed

lemma advance_push_position: "advance E s (snd (push_position E inst dir persist s))"
proof (cases "map_of (bk_holdings s) inst")
  case None
  then show ?thesis by (simp add: push_position_def advance_refl)
next
  case (Some h)
  let ?n = "bk_seq s + 1"
  define h1 where "h1 = set_seq dir ?n h"
  define s1 where "s1 = put_holding inst h1 (s\<lparr>bk_seq := ?n\<rparr>)"
  define p where "p = fill_position_info s1 h1 dir"
  have p: "pi_seq p = ?n" by (auto simp: p_def fill_position_info_def h1_def set_seq_def upd_side_def holding_side_def Let_def)
  have ok: "holdings_ok s \<Longrightarrow> holding_ok h1" using Some by (auto simp: h1_def holdings_ok_def intro!: holding_ok_steps(6))
  then have i: "holdings_ok s \<Longrightarrow> info_ok p" by (simp add: p_def info_ok_fill)
  have f [simp]: "bk_writes s1 = bk_writes s" "bk_frames s1 = bk_frames s" "bk_tasks s1 = bk_tasks s" "bk_seq s1 = ?n"
    "trade_keys s1 = trade_keys s" by (simp_all add: s1_def put_holding_def trade_keys_def)
  have h: "holdings_ok s \<Longrightarrow> holdings_ok s1" using ok by (simp add: s1_def)
  have e: "push_position E inst dir persist s =
      and_then (write_frame E (Position_Frame p)) (pure_op (if persist then enqueue_task (Position_Task p (bk_trading_day s)) else id)) s1"
    using Some by (simp add: push_position_def h1_def s1_def p_def Let_def)
  note defs = and_then_def pure_op_def write_frame_def enqueue_task_def List.map_filter_simps Let_def
  have tk [simp]: "trade_keys (s\<lparr>bk_writes := k\<rparr>) = trade_keys s" "trade_keys (s\<lparr>bk_frames := fs\<rparr>) = trade_keys s"
    "trade_keys (s\<lparr>bk_tasks := ts\<rparr>) = trade_keys s" for s :: "('a, 'b) book_scheme" and k fs ts by (simp_all add: trade_keys_def)
  show ?thesis
  proof (cases "ev_writes E (bk_writes s)")
    case Wrote
    then show ?thesis unfolding e using p i h
      by (intro advance_one [where fs = "[Position_Frame p]" and ts = "if persist then [Position_Task p (bk_trading_day s)] else []"])
         (auto simp: defs split: if_splits)
  next
    case Refused
    then show ?thesis unfolding e using p i h
      by (intro advance_one [where fs = "[]" and ts = "if persist then [Position_Task p (bk_trading_day s)] else []"])
         (auto simp: defs all_written_def split: if_splits intro!: exI [of _ "bk_writes s"])
  next
    case Threw
    then show ?thesis unfolding e using h by (intro advance_one [where fs = "[]" and ts = "[]"]) (auto simp: defs)
  qed
qed

section \<open>Operations\<close>

lemma advance_push_changed: "advance E s (snd (push_changed E inst ch s))"
  unfolding push_changed_def
  by (intro adv.and_then) (auto simp: pure_op_def advance_push_position advance_refl)

lemma quiet_ensure_holding: "quiet s (ensure_holding F inst hint s)"
  by (auto simp: quiet_def ensure_holding_def put_holding_def Let_def holdings_ok_def new_holding_ok split: option.split)

lemma quiet_put_holding: "holding_ok h \<Longrightarrow> quiet s (put_holding inst h s)"
  by (simp add: quiet_def) (simp add: put_holding_def)

text \<open>The quiet step from a holding that is not well formed is only taken outside the invariant.\<close>

lemma quiet_put_step:
  assumes "map_of (bk_holdings s) inst = Some h" "\<And>h. holding_ok h \<Longrightarrow> holding_ok (f h)"
  shows "quiet s (put_holding inst (f h) s)"
  using assms by (auto simp: quiet_def put_holding_def holdings_ok_def)

lemma advance_change_holding:
  assumes "\<And>h. holding_ok h \<Longrightarrow> holding_ok (snd (f h))"
  shows "advance E s (snd (change_holding E inst f s))"
proof (cases "map_of (bk_holdings s) inst")
  case None
  then show ?thesis by (simp add: change_holding_def advance_refl)
next
  case (Some h)
  have "advance E s (put_holding inst (snd (f h)) s)"
    by (rule quiet_advance [OF quiet_put_step [where f = "\<lambda>h. snd (f h)", OF Some assms]])
  from adv.trans [OF this advance_push_changed] show ?thesis using Some
    by (simp add: change_holding_def split_beta)
qed

lemma quiet_identify: "quiet s (snd (identify_order E c r s))"
  by (auto simp: identify_order_def quiet_def map_refs_def Let_def split: option.split prod.split)

lemma quiet_replay_hit: "quiet s (replay_hit r s)"
  by (simp add: replay_hit_def quiet_def map_refs_def Let_def)

lemma advance_freeze: "advance E s (snd (freeze_position E r s))"
proof (cases "bk_baseline_ready s")
  case True
  let ?s = "ensure_holding (ev_fp E) (or_instrument_id (orec_base r)) (or_exchange_id (orec_base r)) s"
  have "advance E ?s (snd (change_holding E (or_instrument_id (orec_base r)) (apply_order (ev_fp E) (update_of_record r)) ?s))"
    by (rule advance_change_holding) (rule holding_ok_steps)
  from adv.trans [OF quiet_advance [OF quiet_ensure_holding] this] show ?thesis
    using True by (simp add: freeze_position_def Let_def)
qed (simp add: freeze_position_def advance_refl)

lemma advance_process_order: "advance E s (snd (process_order E c s))"
proof -
  obtain r1 s1 where i: "identify_order E c (to_order_record (ev_fp E) c (bk_account_id s) (bk_trading_day s)) s = (r1, s1)"
    by fastforce
  have q: "quiet s s1" using quiet_identify [of s E c] i by (metis snd_conv)
  obtain v outdated where v: "check_order (bk_filter s1) (derive_canceled r1) = (v, outdated)" by fastforce
  let ?r = "carry_avg s1 (ev_fp E) (derive_canceled r1)"
  have "advance E s1 (snd (and_then (send_order E ?r) (freeze_position E ?r) s1))"
    by (intro adv.and_then advance_send_order advance_freeze)
  moreover have "advance E s1 (replay_hit (derive_canceled r1) s1)"
    by (rule quiet_advance [OF quiet_replay_hit])
  ultimately have "advance E s1 (snd (process_order E c s))"
    by (simp add: process_order_def i v Let_def advance_refl)
  then show ?thesis by (rule adv.trans [OF quiet_advance [OF q]])
qed

lemma quiet_buffer_order: "quiet s (buffer_order_rpt k c s)" and quiet_buffer_trade: "quiet s (buffer_trade_rpt k t s)"
  by (simp_all add: quiet_def buffer_order_rpt_def buffer_trade_rpt_def)

lemma advance_on_rtn_order: "advance E s (snd (on_rtn_order E k c s))"
  by (auto simp: on_rtn_order_def quiet_advance [OF quiet_buffer_order] intro!: adv.try_op advance_process_order)

lemma advance_refresh: "advance E s (snd (refresh_order_avg E i s))"
  by (auto simp: refresh_order_avg_def advance_refl advance_send_order split: option.split)

lemma advance_move: "advance E s (snd (move_position E t s))"
proof (cases "bk_baseline_ready s \<and> \<not> bk_replaying s")
  case True
  let ?s = "ensure_holding (ev_fp E) (tr_instrument_id t) (tr_exchange_id t) s"
  have "advance E ?s (snd (change_holding E (tr_instrument_id t) (apply_trade (ev_fp E) t) ?s))"
    by (rule advance_change_holding) (rule holding_ok_steps)
  from adv.trans [OF quiet_advance [OF quiet_ensure_holding] this] show ?thesis
    using True by (simp add: move_position_def)
qed (auto simp: move_position_def advance_refl)

lemma advance_add_to_avgs: "advance E s (add_to_avgs E t s)"
  by (rule quiet_advance) (simp add: quiet_def add_to_avgs_def)

lemma advance_process_trade: "advance E s (snd (process_trade E c s))"
  by (auto simp: process_trade_def Let_def advance_refl
      intro!: adv.and_then adv.pure_op advance_send_trade advance_refresh advance_move advance_add_to_avgs)

lemma advance_on_rtn_trade: "advance E s (snd (on_rtn_trade E k c s))"
  by (auto simp: on_rtn_trade_def quiet_advance [OF quiet_buffer_trade] intro!: adv.try_op advance_process_trade)

lemma advance_flags:
  "advance E s (s\<lparr>bk_replaying := b\<rparr>)" "advance E s (s\<lparr>bk_buf_orders := os\<rparr>)" "advance E s (s\<lparr>bk_buf_trades := ts\<rparr>)"
  "advance E s (s\<lparr>bk_baseline_ready := b\<rparr>)" "advance E s (s\<lparr>bk_trading_day := d, bk_avgs := av\<rparr>)"
  by (auto intro!: quiet_advance simp: quiet_def)

lemma advance_replay_one:
  "advance E s (snd (replay_next_order E k c s))"
  "advance E s (snd (replay_next_trade E k t s))"
  unfolding replay_next_order_def replay_next_trade_def
  by (rule adv.and_then, rule advance_on_rtn_order, rule adv.pure_op, rule advance_flags)
     (rule adv.and_then, rule advance_on_rtn_trade, rule adv.pure_op, rule advance_flags)

lemma advance_replay_buffered: "advance E s (snd (replay_buffered_reports E k s))"
proof (cases "bk_buf_orders s = [] \<and> bk_buf_trades s = []")
  case True
  then show ?thesis by (simp add: replay_buffered_reports_def advance_refl)
next
  case False
  show ?thesis
    unfolding replay_buffered_reports_def if_not_P [OF False]
    apply (rule adv.and_then, rule adv.pure_op, rule advance_flags)
    apply (rule adv.and_then, rule adv.each, rule advance_replay_one)
    apply (rule adv.and_then, rule adv.each, rule advance_replay_one)
    apply (rule adv.pure_op, rule advance_flags)
    done
qed

lemma advance_change_each:
  assumes "\<And>h. holding_ok h \<Longrightarrow> holding_ok (snd (f h))"
  shows "advance E s (snd (each (\<lambda>inst. change_holding E inst f) is s))"
  by (rule adv.each) (rule advance_change_holding [OF assms])

lemma advance_set_trading_day: "advance E s (snd (set_trading_day E d s))"
proof -
  have "advance E (s\<lparr>bk_trading_day := d, bk_avgs := []\<rparr>) (snd (set_trading_day E d s))"
    unfolding set_trading_day_def by (rule advance_change_each) (rule holding_ok_steps)
  from adv.trans [OF advance_flags(5) this] show ?thesis .
qed

text \<open>The position query.\<close>

lemma advance_query_row: "advance E (snd cs) (snd (snd (apply_query_row E row cs)))"
proof -
  obtain inst dir a changed s where c: "row = ((inst, dir), a)" "cs = (changed, s)" by (metis surj_pair)
  define s1 where "s1 = ensure_holding (ev_fp E) inst (qa_exchange_id a) s"
  have q: "advance E s s1" unfolding s1_def by (rule quiet_advance [OF quiet_ensure_holding])
  have "advance E s1 (snd (snd (apply_query_row E row cs)))"
  proof (cases "map_of (bk_holdings s1) inst")
    case None
    then show ?thesis by (simp add: apply_query_row_def c s1_def advance_refl)
  next
    case (Some h)
    let ?f = "\<lambda>h. snd (apply_query_side (ev_fp E) dir (qa_volume a) (qa_yd a) (agg_price (ev_fp E) a) h)"
    have "advance E s1 (put_holding inst (?f h) s1)"
      by (rule quiet_advance, rule quiet_put_step [where f = ?f, OF Some]) (rule holding_ok_steps)
    from adv.trans [OF this advance_push_changed] show ?thesis
      using Some by (simp add: apply_query_row_def c s1_def split_beta Let_def)
  qed
  then show ?thesis using adv.trans [OF q] by (simp add: c)
qed

lemma advance_clear_side: "advance E (snd cs) (snd (snd (clear_absent_side E seen key cs)))"
proof -
  obtain inst dir gone s where c: "key = (inst, dir)" "cs = (gone, s)" by (metis surj_pair)
  show ?thesis
  proof (cases "map_of (bk_holdings s) inst")
    case None
    then show ?thesis by (simp add: clear_absent_side_def c advance_refl)
  next
    case (Some h)
    let ?f = "\<lambda>h. snd (apply_query_side (ev_fp E) dir 0 0 (fp_zero (ev_fp E)) h)"
    have p: "advance E s (put_holding inst (?f h) s)"
      by (rule quiet_advance, rule quiet_put_step [where f = ?f, OF Some]) (rule holding_ok_steps)
    show ?thesis
      using Some p adv.trans [OF p advance_push_position]
      by (simp add: clear_absent_side_def c split_beta Let_def advance_refl)
  qed
qed

interpretation adv_snd: effect_order "\<lambda>cs cs'. advance E (snd cs) (snd cs')" for E :: "'d env"
  by unfold_locales (auto intro: advance_refl adv.trans)

lemma info_ok_group: "holdings_ok s \<Longrightarrow> list_all info_ok (rebuild_group agg s)"
  by (auto simp: rebuild_group_def list_all_iff List.map_filter_def holdings_ok_def intro!: info_ok_fill)

lemma advance_rebuild: "advance E s (enqueue_task (Rebuild_Task (rebuild_group agg s) d) s)"
  unfolding advance_def
  by (auto simp: enqueue_task_def new_output_def numbered_def List.map_filter_simps row_seq_def trade_keys_def info_ok_group
      intro!: exI [of _ "[]"] exI [of _ "[Rebuild_Task (rebuild_group agg s) d]"])

lemma advance_finish_query: "advance E s (snd (finish_query agg changed s))"
  by (auto simp: finish_query_def intro: adv.trans [OF advance_rebuild advance_flags(4)] advance_flags(4))

lemma advance_reseed: "advance E s (snd (reseed_orders E s))"
  unfolding reseed_orders_def Let_def by (rule advance_change_each) (rule holding_ok_steps)

lemma advance_position_query: "advance E s (snd (apply_position_query E agg s))"
proof -
  obtain ok1 changed s1 where 1: "each (apply_query_row E) agg (False, s) = (ok1, changed, s1)" by (metis surj_pair)
  have a1: "advance E s s1"
    using adv_snd.each [where f = "apply_query_row E" and xs = agg and s = "(False, s)", OF advance_query_row] by (simp add: 1)
  show ?thesis
  proof (cases ok1)
    case False
    then show ?thesis using a1 by (simp add: apply_position_query_def 1)
  next
    case True
    let ?ks = "both_sides (keys (bk_holdings s1))" and ?f = "clear_absent_side E (map fst agg)"
    obtain ok2 gone s2 where 2: "each ?f ?ks (False, s1) = (ok2, gone, s2)" by (metis surj_pair)
    have a2: "advance E s1 s2"
      using adv_snd.each [where f = ?f and xs = ?ks and s = "(False, s1)", OF advance_clear_side] by (simp add: 2)
    have "advance E s2 (snd (and_then (reseed_orders E) (finish_query agg (changed \<or> gone)) s2))"
      by (intro adv.and_then advance_reseed advance_finish_query)
    with a1 a2 have "advance E s (snd (and_then (reseed_orders E) (finish_query agg (changed \<or> gone)) s2))"
      by (meson adv.trans)
    then show ?thesis using adv.trans [OF a1 a2] True by (simp add: apply_position_query_def 1 2)
  qed
qed

section \<open>What the reports leave alone\<close>

definition steady :: "('d, 'm) book_scheme \<Rightarrow> ('d, 'm) book_scheme \<Rightarrow> bool" where
  "steady s s' \<longleftrightarrow> book.more s' = book.more s \<and> bk_machine s' = bk_machine s \<and> bk_account_id s' = bk_account_id s \<and>
     bk_instruments s' = bk_instruments s \<and> bk_buf_orders s' = bk_buf_orders s \<and> bk_buf_trades s' = bk_buf_trades s \<and>
     bk_replaying s' = bk_replaying s"

text \<open>The same but for the buffers.\<close>

definition loose :: "('d, 'm) book_scheme \<Rightarrow> ('d, 'm) book_scheme \<Rightarrow> bool" where
  "loose s s' \<longleftrightarrow> book.more s' = book.more s \<and> bk_machine s' = bk_machine s"

lemma steady_loose: "steady s t \<Longrightarrow> loose s t"
  by (simp add: steady_def loose_def)

interpretation std: effect_order steady
  by unfold_locales (simp_all add: steady_def)

interpretation lse: effect_order loose
  by unfold_locales (simp_all add: loose_def)

lemma steady_write: "steady s (snd (write_frame E f s))"
  by (simp add: write_frame_def steady_def Let_def split: write_outcome.split)

lemma steady_upd: "steady s (s\<lparr>bk_seq := n, bk_filter := f\<rparr>)" "steady s (s\<lparr>bk_seq := n\<rparr>)" "steady s (s\<lparr>bk_tasks := ts\<rparr>)"
  "steady s (s\<lparr>bk_refs := r\<rparr>)" "steady s (s\<lparr>bk_writes := k\<rparr>)" "steady s (s\<lparr>bk_frames := fs\<rparr>)"
  "steady s (s\<lparr>bk_baseline_ready := b\<rparr>)" "steady s (s\<lparr>bk_trading_day := d, bk_avgs := av\<rparr>)" "steady s (s\<lparr>bk_avgs := av\<rparr>)"
  "steady s (enqueue_task t s)" "steady s (put_holding i h s)" "steady s (map_refs g s)" "steady s (s\<lparr>bk_ids := k\<rparr>)"
  "steady s (put_holding i h (s\<lparr>bk_seq := n\<rparr>))" "steady s ((enqueue_task t s)\<lparr>bk_baseline_ready := b\<rparr>)"
  by (simp_all add: steady_def enqueue_task_def put_holding_def map_refs_def)

lemma steady_send_order: "steady s (snd (send_order E r s))"
  unfolding send_order_def write_order_rpt_def persist_order_def Let_def
  by (rule std.trans [OF steady_upd(1)], rule std.and_then, rule steady_write, rule std.pure_op, rule steady_upd)

lemma steady_send_trade: "steady s (snd (send_trade E r s))"
  unfolding send_trade_def write_trade_rpt_def persist_trade_def Let_def
  by (rule std.trans [OF steady_upd(1)], rule std.and_then, rule steady_write, rule std.pure_op, rule steady_upd)

lemma steady_if_task: "steady s (snd (pure_op (if persist then enqueue_task t else id) s))"
  by (simp add: pure_op_def steady_upd std.refl)

lemma steady_push_position: "steady s (snd (push_position E inst dir persist s))"
proof (cases "map_of (bk_holdings s) inst")
  case (Some h)
  show ?thesis unfolding push_position_def Some option.case Let_def
    by (rule std.trans [OF steady_upd(14)], rule std.and_then, rule steady_write, rule steady_if_task)
qed (simp add: push_position_def std.refl)

lemma steady_push_changed: "steady s (snd (push_changed E inst ch s))"
  unfolding push_changed_def
  by (intro std.and_then) (auto simp: pure_op_def steady_push_position std.refl)

lemma steady_ensure: "steady s (ensure_holding F inst hint s)"
  by (simp add: ensure_holding_def steady_upd std.refl Let_def split: option.split)

lemma steady_change_holding: "steady s (snd (change_holding E inst f s))"
  using std.trans [OF steady_upd(11) steady_push_changed]
  by (auto simp: change_holding_def std.refl split: option.split prod.split)

lemma steady_freeze: "steady s (snd (freeze_position E r s))"
  by (simp add: freeze_position_def std.refl Let_def std.trans [OF steady_ensure steady_change_holding])

lemma steady_move: "steady s (snd (move_position E t s))"
  by (simp add: move_position_def std.refl std.trans [OF steady_ensure steady_change_holding])

lemma steady_identify: "steady s (snd (identify_order E c r s))"
  by (auto simp: identify_order_def steady_def map_refs_def Let_def split: option.split prod.split)

lemma steady_replay_hit: "steady s (replay_hit r s)"
  by (simp add: replay_hit_def steady_def map_refs_def Let_def)

lemma steady_process_order: "steady s (snd (process_order E c s))"
proof -
  obtain r1 s1 where i: "identify_order E c (to_order_record (ev_fp E) c (bk_account_id s) (bk_trading_day s)) s = (r1, s1)"
    by fastforce
  have q: "steady s s1" using steady_identify [of s E c] i by (metis snd_conv)
  obtain v outdated where v: "check_order (bk_filter s1) (derive_canceled r1) = (v, outdated)" by fastforce
  let ?r = "carry_avg s1 (ev_fp E) (derive_canceled r1)"
  have "steady s1 (snd (and_then (send_order E ?r) (freeze_position E ?r) s1))"
    by (intro std.and_then steady_send_order steady_freeze)
  then have "steady s1 (snd (process_order E c s))"
    by (simp add: process_order_def i v Let_def std.refl steady_replay_hit)
  then show ?thesis by (rule std.trans [OF q])
qed

lemma steady_refresh: "steady s (snd (refresh_order_avg E i s))"
  by (auto simp: refresh_order_avg_def std.refl steady_send_order split: option.split)

lemma steady_process_trade: "steady s (snd (process_trade E c s))"
  by (auto simp: process_trade_def Let_def std.refl add_to_avgs_def steady_upd
      intro!: std.and_then std.pure_op steady_send_trade steady_refresh steady_move)

lemma loose_upd: "loose s (s\<lparr>bk_replaying := b\<rparr>)" "loose s (s\<lparr>bk_buf_orders := os\<rparr>)" "loose s (s\<lparr>bk_buf_trades := trs\<rparr>)"
  by (simp_all add: loose_def)

lemma loose_on_rtn_order: "loose s (snd (on_rtn_order E k c s))"
  by (simp add: on_rtn_order_def buffer_order_rpt_def loose_upd try_op_def steady_loose [OF steady_process_order])

lemma loose_on_rtn_trade: "loose s (snd (on_rtn_trade E k c s))"
  by (simp add: on_rtn_trade_def buffer_trade_rpt_def loose_upd try_op_def steady_loose [OF steady_process_trade])

lemma loose_replay_one:
  "loose s (snd (replay_next_order E k c s))"
  "loose s (snd (replay_next_trade E k t s))"
  unfolding replay_next_order_def replay_next_trade_def
  by (rule lse.and_then, rule loose_on_rtn_order, rule lse.pure_op, rule loose_upd)
     (rule lse.and_then, rule loose_on_rtn_trade, rule lse.pure_op, rule loose_upd)

lemma loose_replay_buffered: "loose s (snd (replay_buffered_reports E k s))"
proof (cases "bk_buf_orders s = [] \<and> bk_buf_trades s = []")
  case True
  then show ?thesis by (simp add: replay_buffered_reports_def lse.refl)
next
  case False
  show ?thesis
    unfolding replay_buffered_reports_def if_not_P [OF False]
    apply (rule lse.and_then, rule lse.pure_op, rule loose_upd)
    apply (rule lse.and_then, rule lse.each, rule loose_replay_one)
    apply (rule lse.and_then, rule lse.each, rule loose_replay_one)
    apply (rule lse.pure_op, rule loose_upd)
    done
qed

text \<open>The loop empties the buffers: while replaying, handling a report leaves them alone.\<close>

lemma replay_one_result:
  assumes "bk_replaying s"
  shows "replay_next_order E k c s = (True, t) \<Longrightarrow>
      bk_replaying t \<and> bk_buf_orders t = tl (bk_buf_orders s) \<and> bk_buf_trades t = bk_buf_trades s"
    and "replay_next_trade E k d s = (True, t) \<Longrightarrow>
      bk_replaying t \<and> bk_buf_orders t = bk_buf_orders s \<and> bk_buf_trades t = tl (bk_buf_trades s)"
  using assms steady_process_order [of s E c] steady_process_trade [of s E d]
  by (auto simp: replay_next_order_def replay_next_trade_def and_then_def on_rtn_order_def on_rtn_trade_def try_op_def pure_op_def steady_def)

lemma replay_one_ok:
  assumes "bk_replaying s"
  shows "fst (replay_next_order E k c s)"
    and "fst (replay_next_trade E k d s)"
  using assms by (auto simp: replay_next_order_def replay_next_trade_def and_then_def on_rtn_order_def on_rtn_trade_def try_op_def pure_op_def)

lemma replay_orders:
  "bk_replaying s \<Longrightarrow> length cs = length (bk_buf_orders s) \<Longrightarrow>
     \<exists>t. each (replay_next_order E k) cs s = (True, t) \<and>
       bk_replaying t \<and> bk_buf_orders t = [] \<and> bk_buf_trades t = bk_buf_trades s"
proof (induction cs arbitrary: s)
  case (Cons c cs)
  obtain t where t: "replay_next_order E k c s = (True, t)"
    using replay_one_ok(1) [OF Cons.prems(1), of E k c] by (metis prod.collapse)
  from replay_one_result(1) [OF Cons.prems(1) this] have r: "bk_replaying t" "bk_buf_orders t = tl (bk_buf_orders s)"
    "bk_buf_trades t = bk_buf_trades s" by simp_all
  then have "length cs = length (bk_buf_orders t)" using Cons.prems(2) by simp
  from Cons.IH [OF r(1) this] show ?case using r(3) by (simp add: and_then_def t)
qed simp

lemma replay_trades:
  "bk_replaying s \<Longrightarrow> length cs = length (bk_buf_trades s) \<Longrightarrow>
     \<exists>t. each (replay_next_trade E k) cs s = (True, t) \<and>
       bk_replaying t \<and> bk_buf_trades t = [] \<and> bk_buf_orders t = bk_buf_orders s"
proof (induction cs arbitrary: s)
  case (Cons c cs)
  obtain t where t: "replay_next_trade E k c s = (True, t)"
    using replay_one_ok(2) [OF Cons.prems(1), of E k c] by (metis prod.collapse)
  from replay_one_result(2) [OF Cons.prems(1) this] have r: "bk_replaying t" "bk_buf_trades t = tl (bk_buf_trades s)"
    "bk_buf_orders t = bk_buf_orders s" by simp_all
  then have "length cs = length (bk_buf_trades t)" using Cons.prems(2) by simp
  from Cons.IH [OF r(1) this] show ?case using r(3) by (simp add: and_then_def t)
qed simp

lemma replay_buffered:
  assumes "\<not> bk_replaying s"
  shows "\<exists>t. replay_buffered_reports E k s = (True, t) \<and> bk_buf_orders t = [] \<and> bk_buf_trades t = [] \<and> \<not> bk_replaying t"
proof (cases "bk_buf_orders s = [] \<and> bk_buf_trades s = []")
  case True
  then show ?thesis using assms by (simp add: replay_buffered_reports_def)
next
  case False
  let ?s = "s\<lparr>bk_replaying := True\<rparr>"
  obtain t where t: "each (replay_next_order E k) (bk_buf_orders s) ?s = (True, t)"
      "bk_replaying t" "bk_buf_orders t = []" "bk_buf_trades t = bk_buf_trades s"
    using replay_orders [of ?s "bk_buf_orders s" E k] by auto
  obtain u where u: "each (replay_next_trade E k) (bk_buf_trades s) t = (True, u)"
      "bk_buf_trades u = []" "bk_buf_orders u = []"
    using replay_trades [of t "bk_buf_trades s" E k] t by auto
  show ?thesis
    unfolding replay_buffered_reports_def if_not_P [OF False]
    by (simp add: and_then_def [of "pure_op _"] and_then_def [of "each _ _"] pure_op_def t(1) u)
qed

lemma steady_change_each: "steady s (snd (each (\<lambda>inst. change_holding E inst f) is s))"
  by (rule std.each) (rule steady_change_holding)

lemma steady_set_trading_day: "steady s (snd (set_trading_day E d s))"
  unfolding set_trading_day_def by (rule std.trans [OF steady_upd(8) steady_change_each])

interpretation std_snd: effect_order "\<lambda>cs cs'. steady (snd cs) (snd cs')"
  by unfold_locales (auto intro: std.refl std.trans)

lemma steady_query_row: "steady (snd cs) (snd (snd (apply_query_row E row cs)))"
proof -
  obtain inst dir a changed s where c: "row = ((inst, dir), a)" "cs = (changed, s)" by (metis surj_pair)
  define s1 where "s1 = ensure_holding (ev_fp E) inst (qa_exchange_id a) s"
  have q: "steady s s1" unfolding s1_def by (rule steady_ensure)
  have "steady s1 (snd (snd (apply_query_row E row cs)))"
  proof (cases "map_of (bk_holdings s1) inst")
    case (Some h)
    show ?thesis
      using Some std.trans [OF steady_upd(11) steady_push_changed, of s1] by (simp add: apply_query_row_def c s1_def split_beta Let_def)
  qed (simp add: apply_query_row_def c s1_def std.refl)
  then show ?thesis using std.trans [OF q] by (simp add: c)
qed

lemma steady_clear_side: "steady (snd cs) (snd (snd (clear_absent_side E seen key cs)))"
proof -
  obtain inst dir gone s where c: "key = (inst, dir)" "cs = (gone, s)" by (metis surj_pair)
  have p: "steady s (snd (push_position E inst dir False (put_holding inst h s)))" for h
    by (rule std.trans [OF steady_upd(11) steady_push_position])
  show ?thesis
    by (cases "map_of (bk_holdings s) inst")
       (simp_all add: clear_absent_side_def c p split_beta Let_def std.refl steady_upd(11))
qed

lemma steady_position_query: "steady s (snd (apply_position_query E agg s))"
proof -
  obtain ok1 changed s1 where 1: "each (apply_query_row E) agg (False, s) = (ok1, changed, s1)" by (metis surj_pair)
  have a1: "steady s s1"
    using std_snd.each [where f = "apply_query_row E" and xs = agg and s = "(False, s)", OF steady_query_row] by (simp add: 1)
  let ?ks = "both_sides (keys (bk_holdings s1))" and ?f = "clear_absent_side E (map fst agg)"
  obtain ok2 gone s2 where 2: "each ?f ?ks (False, s1) = (ok2, gone, s2)" by (metis surj_pair)
  have a2: "steady s1 s2"
    using std_snd.each [where f = ?f and xs = ?ks and s = "(False, s1)", OF steady_clear_side] by (simp add: 2)
  have "steady s (snd (finish_query agg b s))" for s :: "('a, 'b) book_scheme" and b
    by (simp add: finish_query_def steady_upd)
  then have "steady s2 (snd (and_then (reseed_orders E) (finish_query agg (changed \<or> gone)) s2))"
    unfolding reseed_orders_def Let_def by (intro std.and_then steady_change_each)
  then show ?thesis using a1 a2 std.trans by (simp add: apply_position_query_def 1 2) blast
qed

end
