(* ===== verification/Td_Login.thy ===== *)
theory Td_Login
  imports Td_Session_Run
begin

text \<open>
  The rest of an account session (\<open>apps/ctp/td/td_account_session.cpp\<close>): connection and login
  chain, the queries before Ready, order entry and cancellation, rejects, and the timers with
  their generation guards. The state extends the reports' by record extension. Requests to the
  CTP library, calls of the timer queue and notifications are logged in order; return codes and
  timer ids come from \<open>env\<close>. What a timer's callback captured is a value of \<open>timer_callback\<close>.
\<close>

section \<open>State\<close>

datatype 'd request =
    Call_Create string
  | Call_Front string
  | Call_Init
  | Call_Release
  | Call_Authenticate string string string string int
  | Call_Login string string string int
  | Call_Confirm string string int
  | Call_Qry_Instrument int
  | Call_Qry_Position int
  | Call_Qry_Account int
  | Call_Order_Insert "'d ctp_input_order" int
  | Call_Order_Action string string string int int int

datatype timer_callback =
    Connect_Expired nat
  | Authenticate_Expired nat
  | Login_Expired nat
  | Retry_Qry_Instrument nat
  | Load_Expired nat
  | Retry_Qry_Position nat
  | Qry_Position_Expired nat nat bool
  | Retry_Qry_Account nat
  | Qry_Account_Expired nat
  | Position_Poll nat

datatype timer_call = Schedule nat int timer_callback | Schedule_Replace nat string int timer_callback | Cancel_Timer nat

record 'd session = "'d book" +
  ss_risk :: risk_gate
  ss_order_ref :: int
  ss_request_id :: int
  ss_broker_id :: string
  ss_user_id :: string
  ss_password :: string
  ss_auth_code :: string
  ss_app_id :: string
  ss_fronts :: "string list"
  ss_flow_dir :: string
  ss_api_version :: string
  ss_api :: bool
  ss_alive :: bool
  ss_agg :: "((string \<times> int) \<times> 'd query_agg) list"
  ss_in_flight :: bool
  ss_token :: nat
  ss_query_request_id :: int
  ss_rebuild_consumed :: bool
  ss_finalizer :: finalizer
  ss_position_ok :: bool
  ss_account_ok :: bool
  ss_data_ok :: bool
  ss_connect_timer :: nat
  ss_login_timer :: nat
  ss_load_timer :: nat
  ss_poll_timer :: nat
  ss_poll_interval :: int
  ss_generation :: nat
  ss_query_gen :: nat
  ss_calls :: nat
  ss_timer_calls :: nat
  ss_flush_calls :: nat
  ss_clock_calls :: nat
  ss_requests :: "'d request list"
  ss_timers :: "timer_call list"
  ss_notes :: "(int \<times> string \<times> bool) list"
  ss_pushed_states :: "account_state list"

section \<open>The outside\<close>

definition machine :: "(td_machine \<Rightarrow> td_outcome) \<Rightarrow> ('d, 'm) session_scheme \<Rightarrow> ('d, 'm) session_scheme" where
  "machine f s = s\<lparr>bk_machine := snd (f (bk_machine s))\<rparr>"

definition is_ready :: "('d, 'm) session_scheme \<Rightarrow> bool" where
  "is_ready s \<longleftrightarrow> tm_state (bk_machine s) = Ready"

definition api_call :: "'d env \<Rightarrow> 'd request \<Rightarrow> ('d, 'm) session_scheme \<Rightarrow> int \<times> ('d, 'm) session_scheme" where
  "api_call E q s = (ev_rets E (ss_calls s), s\<lparr>ss_calls := ss_calls s + 1, ss_requests := ss_requests s @ [q]\<rparr>)"

definition next_request_id :: "('d, 'm) session_scheme \<Rightarrow> ('d, 'm) session_scheme" where
  "next_request_id s = s\<lparr>ss_request_id := ss_request_id s + 1\<rparr>"

definition schedule :: "'d env \<Rightarrow> int \<Rightarrow> timer_callback \<Rightarrow> ('d, 'm) session_scheme \<Rightarrow> nat \<times> ('d, 'm) session_scheme" where
  "schedule E ms cb s =
     (let i = ev_timers E (ss_timer_calls s)
      in (i, s\<lparr>ss_timer_calls := ss_timer_calls s + 1, ss_timers := ss_timers s @ [Schedule i ms cb]\<rparr>))"

definition schedule_ignored :: "'d env \<Rightarrow> int \<Rightarrow> timer_callback \<Rightarrow> ('d, 'm) session_scheme \<Rightarrow> ('d, 'm) session_scheme" where
  "schedule_ignored E ms cb s = snd (schedule E ms cb s)"

definition log_cancel :: "nat \<Rightarrow> ('d, 'm) session_scheme \<Rightarrow> ('d, 'm) session_scheme" where
  "log_cancel i s = s\<lparr>ss_timers := ss_timers s @ [Cancel_Timer i]\<rparr>"

definition cancel_connect_timer :: "('d, 'm) session_scheme \<Rightarrow> ('d, 'm) session_scheme" where
  "cancel_connect_timer s = (if ss_connect_timer s \<noteq> 0 then (log_cancel (ss_connect_timer s) s)\<lparr>ss_connect_timer := 0\<rparr> else s)"

definition cancel_login_timer :: "('d, 'm) session_scheme \<Rightarrow> ('d, 'm) session_scheme" where
  "cancel_login_timer s = (if ss_login_timer s \<noteq> 0 then (log_cancel (ss_login_timer s) s)\<lparr>ss_login_timer := 0\<rparr> else s)"

definition cancel_load_timer :: "('d, 'm) session_scheme \<Rightarrow> ('d, 'm) session_scheme" where
  "cancel_load_timer s = (if ss_load_timer s \<noteq> 0 then (log_cancel (ss_load_timer s) s)\<lparr>ss_load_timer := 0\<rparr> else s)"

definition cancel_poll_timer :: "('d, 'm) session_scheme \<Rightarrow> ('d, 'm) session_scheme" where
  "cancel_poll_timer s = (if ss_poll_timer s \<noteq> 0 then (log_cancel (ss_poll_timer s) s)\<lparr>ss_poll_timer := 0\<rparr> else s)"

section \<open>Connection\<close>

definition tcp_front :: "string \<Rightarrow> string" where
  "tcp_front a = (if take 6 a \<noteq> ''tcp://'' \<and> take 6 a \<noteq> ''ssl://'' \<and> take 5 a \<noteq> ''socks'' then ''tcp://'' @ a else a)"

definition log_requests :: "'d request list \<Rightarrow> ('d, 'm) session_scheme \<Rightarrow> ('d, 'm) session_scheme" where
  "log_requests qs s = s\<lparr>ss_requests := ss_requests s @ qs\<rparr>"

text \<open>\<open>created\<close> says that \<open>CreateFtdcTraderApi\<close> returned an object; \<open>version\<close> is its version.\<close>

definition open_session :: "'d env \<Rightarrow> bool \<Rightarrow> string \<Rightarrow> string \<Rightarrow> string list \<Rightarrow> string \<Rightarrow> string \<Rightarrow> string \<Rightarrow> string \<Rightarrow> string \<Rightarrow>
    ('d, 'm) session_scheme \<Rightarrow> bool \<times> ('d, 'm) session_scheme" where
  "open_session E created version flow_dir fronts broker user password auth app s =
     (if ss_api s then (True, s)
      else let s1 = s\<lparr>ss_broker_id := broker, ss_user_id := user, ss_password := password, ss_auth_code := auth,
                      ss_app_id := app, ss_fronts := fronts, ss_flow_dir := flow_dir\<rparr>
           in if \<not> created then (False, s1)
              else let s2 = log_requests (Call_Create flow_dir # map (\<lambda>a. Call_Front (tcp_front a)) fronts)
                         (s1\<lparr>ss_api := True, ss_api_version := version, bk_machine := set_api_version version (bk_machine s1)\<rparr>);
                       s3 = machine on_connect s2;
                       (i, s4) = schedule E 30000 (Connect_Expired (ss_generation s3)) s3
                   in (True, log_requests [Call_Init] (s4\<lparr>ss_connect_timer := i\<rparr>)))"

definition disconnect_session :: "('d, 'm) session_scheme \<Rightarrow> ('d, 'm) session_scheme" where
  "disconnect_session s =
     (if \<not> ss_api s then s
      else let s1 = cancel_poll_timer (cancel_load_timer (cancel_login_timer (cancel_connect_timer (s\<lparr>ss_alive := False\<rparr>))));
               s2 = log_requests [Call_Release] (s1\<lparr>ss_generation := ss_generation s1 + 1\<rparr>);
               s3 = machine on_disconnect (s2\<lparr>ss_api := False\<rparr>)
           in s3\<lparr>bk_baseline_ready := False, ss_in_flight := False, bk_buf_orders := [], bk_buf_trades := []\<rparr>)"

section \<open>Requests of the login chain\<close>

definition req_authenticate :: "'d env \<Rightarrow> ('d, 'm) session_scheme \<Rightarrow> ('d, 'm) session_scheme" where
  "req_authenticate E s =
     (let s1 = next_request_id s;
          (ret, s2) = api_call E (Call_Authenticate (fit 11 (ss_broker_id s)) (fit 16 (ss_user_id s)) (fit 33 (ss_app_id s))
            (fit 17 (ss_auth_code s)) (ss_request_id s1)) s1
      in if ret \<noteq> 0 then s2
         else let s3 = machine on_req_authenticate s2;
                  (i, s4) = schedule E 10000 (Authenticate_Expired (ss_generation s3)) s3
              in s4\<lparr>ss_login_timer := i\<rparr>)"

definition req_login :: "'d env \<Rightarrow> ('d, 'm) session_scheme \<Rightarrow> ('d, 'm) session_scheme" where
  "req_login E s =
     (let s1 = next_request_id s;
          (ret, s2) = api_call E (Call_Login (fit 11 (ss_broker_id s)) (fit 16 (ss_user_id s)) (fit 41 (ss_password s)) (ss_request_id s1)) s1
      in if ret \<noteq> 0 then s2
         else let s3 = machine on_req_login s2;
                  (i, s4) = schedule E 10000 (Login_Expired (ss_generation s3)) s3
              in s4\<lparr>ss_login_timer := i\<rparr>)"

definition req_settlement_confirm :: "'d env \<Rightarrow> ('d, 'm) session_scheme \<Rightarrow> ('d, 'm) session_scheme" where
  "req_settlement_confirm E s =
     (let s1 = next_request_id s;
          (ret, s2) = api_call E (Call_Confirm (fit 11 (ss_broker_id s)) (fit 13 (ss_user_id s)) (ss_request_id s1)) s1
      in if ret \<noteq> 0 then s2 else machine on_req_settlement_confirm s2)"

definition req_qry_instrument :: "'d env \<Rightarrow> ('d, 'm) session_scheme \<Rightarrow> ('d, 'm) session_scheme" where
  "req_qry_instrument E s =
     (let s1 = next_request_id (s\<lparr>ss_query_gen := ss_generation s\<rparr>);
          (ret, s2) = api_call E (Call_Qry_Instrument (ss_request_id s1)) s1
      in if ret \<noteq> 0
         then (if ret = - 3 then schedule_ignored E 1500 (Retry_Qry_Instrument (ss_generation s2)) s2
               else machine (on_instruments_load_failed (''ReqQryInstrument ret='' @ show_int ret)) s2)
         else let s3 = cancel_load_timer s2;
                  (i, s4) = schedule E 300000 (Load_Expired (ss_generation s3)) s3
              in s4\<lparr>ss_load_timer := i\<rparr>)"

definition schedule_position_poll :: "'d env \<Rightarrow> ('d, 'm) session_scheme \<Rightarrow> ('d, 'm) session_scheme" where
  "schedule_position_poll E s =
     (let i = ev_timers E (ss_timer_calls s)
      in s\<lparr>ss_poll_timer := i, ss_timer_calls := ss_timer_calls s + 1,
           ss_timers := ss_timers s @ [Schedule_Replace i (''td_position_poll:'' @ bk_account_id s) (ss_poll_interval s * 1000)
             (Position_Poll (ss_generation s))]\<rparr>)"

section \<open>The end of the login\<close>

definition flush_barrier :: "'d env \<Rightarrow> ('d, 'm) session_scheme \<Rightarrow> ('d, 'm) session_scheme" where
  "flush_barrier E s =
     s\<lparr>ss_flush_calls := ss_flush_calls s + 1,
       ss_notes := ss_notes s @ snd (run_flush_barrier (ev_flushes E (ss_flush_calls s)) True (bk_account_id s))\<rparr>"

definition finalizer_action :: "'d env \<Rightarrow> nat \<Rightarrow> ('d, 'm) session_scheme \<Rightarrow> bool \<times> ('d, 'm) session_scheme" where
  "finalizer_action E k s =
     (case fin_phase (ss_finalizer s) of
        Replay \<Rightarrow> replay_buffered_reports E k s
      | Flush \<Rightarrow> (True, flush_barrier E s)
      | Ready_Phase \<Rightarrow>
          (True, schedule_position_poll E
             (if tm_state (bk_machine s) = LoadingInstruments then machine on_instruments_loaded s else s))
      | _ \<Rightarrow> (True, s))"

definition step_finalizer :: "('d, 'm) session_scheme \<Rightarrow> ('d, 'm) session_scheme" where
  "step_finalizer s = s\<lparr>ss_finalizer := finalizer_next (ss_finalizer s)\<rparr>"

lemma loose_finalizer: "loose (s :: ('d, 'm) session_scheme) t \<Longrightarrow> ss_finalizer t = ss_finalizer s"
  by (cases s; cases t) (simp add: loose_def)

lemma action_finalizer: "ss_finalizer (snd (finalizer_action E k s)) = ss_finalizer s"
  by (cases "fin_phase (ss_finalizer s)")
     (simp_all add: finalizer_action_def flush_barrier_def schedule_position_poll_def machine_def Let_def
        loose_finalizer [OF loose_replay_buffered])

lemma finalizer_progress:
  assumes "fin_phase (ss_finalizer s) \<notin> {Query_Position, Query_Account, Done_Phase}"
    "(ok, s1) = finalizer_action E k s"
  shows "5 - phase_no (fin_phase (ss_finalizer (step_finalizer s1))) < 5 - phase_no (fin_phase (ss_finalizer s))"
proof -
  have "ss_finalizer s1 = ss_finalizer s" using assms(2) action_finalizer [of E k s] by (metis snd_conv)
  then show ?thesis
    using assms(1) by (cases "fin_phase (ss_finalizer s)") (simp_all add: step_finalizer_def finalizer_next_def)
qed

text \<open>The loop ends: every round leaves the finalizer one phase further.\<close>

function drive_finalizer :: "'d env \<Rightarrow> nat \<Rightarrow> ('d, 'm) session_scheme \<Rightarrow> bool \<times> ('d, 'm) session_scheme" where
  "drive_finalizer E k s =
     (if fin_phase (ss_finalizer s) \<in> {Query_Position, Query_Account, Done_Phase} then (True, s)
      else case finalizer_action E k s of
             (ok, s1) \<Rightarrow> if ok then drive_finalizer E k (step_finalizer s1) else (False, s1))"
  by pat_completeness auto
termination
  apply (relation "measure (\<lambda>(E, k, s). 5 - phase_no (fin_phase (ss_finalizer s)))")
   apply simp
  apply (simp only: in_measure case_prod_conv)
  apply (rule finalizer_progress)
   apply assumption+
  done

declare drive_finalizer.simps [simp del]

definition finalize_login :: "'d env \<Rightarrow> nat \<Rightarrow> ('d, 'm) session_scheme \<Rightarrow> bool \<times> ('d, 'm) session_scheme" where
  "finalize_login E k s =
     (if \<not> can_reach_ready (ss_finalizer s) then (True, s)
      else drive_finalizer E k (s\<lparr>ss_data_ok := ss_position_ok s \<and> ss_account_ok s\<rparr>))"

section \<open>Queries\<close>

definition account_failed :: "'d env \<Rightarrow> nat \<Rightarrow> ('d, 'm) session_scheme \<Rightarrow> bool \<times> ('d, 'm) session_scheme" where
  "account_failed E k s = finalize_login E k (s\<lparr>ss_finalizer := on_account_done (ss_finalizer s), ss_account_ok := False\<rparr>)"

definition req_qry_trading_account :: "'d env \<Rightarrow> nat \<Rightarrow> ('d, 'm) session_scheme \<Rightarrow> bool \<times> ('d, 'm) session_scheme" where
  "req_qry_trading_account E k s0 =
     (let s = s0\<lparr>ss_query_gen := ss_generation s0\<rparr>
      in if \<not> ss_api s then account_failed E k s
         else let s1 = next_request_id s; (ret, s2) = api_call E (Call_Qry_Account (ss_request_id s1)) s1
              in if ret \<noteq> 0
                 then (if ret = - 3 then (True, schedule_ignored E 1500 (Retry_Qry_Account (ss_generation s2)) s2)
                       else account_failed E k s2)
                 else (True, schedule_ignored E (if is_ready s2 then 90000 else 300000) (Qry_Account_Expired (ss_generation s2)) s2))"

definition position_failed :: "'d env \<Rightarrow> nat \<Rightarrow> ('d, 'm) session_scheme \<Rightarrow> bool \<times> ('d, 'm) session_scheme" where
  "position_failed E k s =
     req_qry_trading_account E k (s\<lparr>ss_finalizer := on_position_done (ss_finalizer s), ss_position_ok := False\<rparr>)"

definition req_qry_investor_position :: "'d env \<Rightarrow> nat \<Rightarrow> bool \<Rightarrow> ('d, 'm) session_scheme \<Rightarrow> bool \<times> ('d, 'm) session_scheme" where
  "req_qry_investor_position E k login_chain s0 =
     (let s = s0\<lparr>ss_token := ss_token s0 + 1, ss_query_gen := ss_generation s0, ss_agg := [], ss_rebuild_consumed := False,
                 ss_in_flight := True\<rparr>
      in if \<not> ss_api s
         then (let s1 = s\<lparr>ss_in_flight := False\<rparr> in if login_chain then position_failed E k s1 else (True, s1))
         else let s1 = next_request_id s;
                  s2 = s1\<lparr>ss_query_request_id := ss_request_id s1\<rparr>;
                  (ret, s3) = api_call E (Call_Qry_Position (ss_request_id s1)) s2
              in if ret \<noteq> 0
                 then (let s4 = s3\<lparr>ss_in_flight := False\<rparr>
                       in if ret = - 3 \<and> login_chain then (True, schedule_ignored E 1500 (Retry_Qry_Position (ss_generation s4)) s4)
                          else if login_chain then position_failed E k s4 else (True, s4))
                 else (True, schedule_ignored E (if is_ready s3 then 90000 else 300000)
                               (Qry_Position_Expired (ss_generation s3) (ss_token s3) login_chain) s3))"

definition resync_account_data :: "'d env \<Rightarrow> nat \<Rightarrow> ('d, 'm) session_scheme \<Rightarrow> bool \<times> ('d, 'm) session_scheme" where
  "resync_account_data E k s =
     (if \<not> is_ready s \<or> ss_data_ok s then (True, s)
      else if ss_in_flight s then (True, s)
      else if fin_phase (ss_finalizer s) \<noteq> Done_Phase then (True, s)
      else req_qry_investor_position E k True
             (s\<lparr>ss_position_ok := False, ss_account_ok := False, ss_finalizer := new_finalizer\<rparr>))"

definition set_position_poll_interval :: "'d env \<Rightarrow> int \<Rightarrow> ('d, 'm) session_scheme \<Rightarrow> ('d, 'm) session_scheme" where
  "set_position_poll_interval E seconds s =
     (let s1 = s\<lparr>ss_poll_interval := (if 0 < seconds then seconds else 60)\<rparr>
      in if is_ready s1 then schedule_position_poll E s1 else s1)"

definition on_position_poll_timer :: "'d env \<Rightarrow> nat \<Rightarrow> ('d, 'm) session_scheme \<Rightarrow> bool \<times> ('d, 'm) session_scheme" where
  "on_position_poll_timer E k s0 =
     (let s = s0\<lparr>ss_poll_timer := 0\<rparr>
      in if \<not> is_ready s then (True, s)
         else and_then
                (\<lambda>s. if bk_baseline_ready s \<and> ss_data_ok s \<and> \<not> ss_in_flight s then req_qry_investor_position E k False s else (True, s))
                (pure_op (schedule_position_poll E)) s)"

end
