(* ===== verification/Td_Session_Steps.thy ===== *)
theory Td_Session_Steps
  imports Td_Login
begin

text \<open>
  The handlers of an account session (\<open>apps/ctp/td/td_account_session.cpp\<close>): the responses of
  the login chain and of the queries, order entry, cancellation, rejects, expired timers; and the
  events of a session with their step.
\<close>

section \<open>The login chain\<close>

record rsp_info =
  ri_error_id :: int
  ri_error_msg :: string

definition failed :: "rsp_info option \<Rightarrow> bool" where
  "failed r = (case r of None \<Rightarrow> True | Some i \<Rightarrow> ri_error_id i \<noteq> 0)"

definition has_error :: "rsp_info option \<Rightarrow> bool" where
  "has_error r = (case r of None \<Rightarrow> False | Some i \<Rightarrow> ri_error_id i \<noteq> 0)"

definition on_session_connected :: "'d env \<Rightarrow> ('d, 'm) session_scheme \<Rightarrow> ('d, 'm) session_scheme" where
  "on_session_connected E s =
     (let s1 = machine on_front_connected (cancel_connect_timer s)
      in if ss_auth_code s1 \<noteq> [] then req_authenticate E s1 else req_login E s1)"

definition on_session_disconnected :: "int \<Rightarrow> ('d, 'm) session_scheme \<Rightarrow> ('d, 'm) session_scheme" where
  "on_session_disconnected reason s =
     (let s1 = cancel_poll_timer (cancel_load_timer (cancel_login_timer (cancel_connect_timer (machine (on_front_disconnected reason) s))))
      in s1\<lparr>ss_generation := ss_generation s1 + 1, ss_finalizer := new_finalizer, ss_rebuild_consumed := False,
            ss_position_ok := False, ss_account_ok := False, ss_data_ok := False, bk_baseline_ready := False,
            ss_in_flight := False, bk_holdings := [], bk_instruments := [], bk_buf_orders := [], bk_buf_trades := []\<rparr>)"

definition on_rsp_authenticate :: "'d env \<Rightarrow> rsp_info option \<Rightarrow> ('d, 'm) session_scheme \<Rightarrow> ('d, 'm) session_scheme" where
  "on_rsp_authenticate E info s =
     (let s1 = cancel_login_timer s
      in if failed info then machine on_authenticate_failed s1 else req_login E (machine on_authenticate_success s1))"

text \<open>
  \<open>db\<close> answers the day load for a day text, \<open>None\<close> when there is no connection or the query
  throws; \<open>allocated\<close> is the allocator's number for the account, 0 without allocator.
\<close>

definition load_trading_day_baseline :: "(string \<Rightarrow> 'd day_load option) \<Rightarrow> nat \<Rightarrow> ('d, 'm) session_scheme \<Rightarrow> bool \<times> ('d, 'm) session_scheme" where
  "load_trading_day_baseline db allocated s =
     (case db (format_day_text (bk_trading_day s)) of
        None \<Rightarrow> (False, s)
      | Some d \<Rightarrow> (True, s\<lparr>bk_seq := max (dl_start_seq d) allocated, bk_filter := load_filter (dl_orders d) (dl_trades d),
                          bk_avgs := dl_order_avgs d\<rparr>))"

record login_rsp =
  lr_info :: "rsp_info option"
  lr_user :: "(string \<times> string \<times> string) option"
  lr_days :: int

definition on_rsp_user_login :: "'d env \<Rightarrow> (string \<Rightarrow> 'd day_load option) \<Rightarrow> nat \<Rightarrow> login_rsp \<Rightarrow> ('d, 'm) session_scheme \<Rightarrow> bool \<times> ('d, 'm) session_scheme" where
  "on_rsp_user_login E db allocated f s =
     (let s1 = cancel_login_timer s
      in if failed (lr_info f) then (True, machine on_login_failed s1)
         else let s2 = (case lr_user f of None \<Rightarrow> s1
                        | Some (max_ref, day, time) \<Rightarrow> s1\<lparr>ss_order_ref := sync_order_ref (ss_order_ref s1) (parse_max_order_ref (Some max_ref))\<rparr>)
              in and_then (if lr_days f \<noteq> - 2147483648 then set_trading_day E (lr_days f) else pure_op id)
                   (\<lambda>s3. case load_trading_day_baseline db allocated s3 of
                      (ok, s4) \<Rightarrow>
                        if \<not> ok then (True, machine on_login_failed s4)
                        else let (day, time) = (case lr_user f of None \<Rightarrow> ([], []) | Some (max_ref, d, t) \<Rightarrow> (d, t))
                             in (True, req_settlement_confirm E (machine (on_login_success (ss_api_version s4) day time) s4))) s2)"

definition rsp_error_text :: "'d env \<Rightarrow> string \<Rightarrow> rsp_info option \<Rightarrow> string" where
  "rsp_error_text E missing info = (case info of None \<Rightarrow> missing | Some i \<Rightarrow> ev_gbk E (ri_error_msg i))"

definition on_rsp_settlement_confirm :: "'d env \<Rightarrow> rsp_info option \<Rightarrow> ('d, 'm) session_scheme \<Rightarrow> ('d, 'm) session_scheme" where
  "on_rsp_settlement_confirm E info s =
     (if failed info then machine (on_settlement_confirm_failed (rsp_error_text E ''rsp_info is null'' info)) s
      else req_qry_instrument E (machine on_settlement_confirmed s))"

section \<open>Query responses\<close>

definition record_instrument :: "'d env \<Rightarrow> 'd ctp_instrument \<Rightarrow> ('d, 'm) session_scheme \<Rightarrow> ('d, 'm) session_scheme" where
  "record_instrument E c s =
     (let F = ev_fp E;
          s1 = s\<lparr>bk_instruments := AList.update (cn_instrument_id c)
                   \<lparr>ib_exchange_id = cn_exchange_id c, ib_price_tick = cn_price_tick c, ib_volume_multiple = fp_of_int F (cn_volume_multiple c)\<rparr>
                   (bk_instruments s)\<rparr>;
          day = (if bk_trading_day s > 0 then pad_day (bk_trading_day s) else ''00000000'');
          r = (to_instrument_record F (ev_gbk E) c day)\<lparr>ir_updated_at := ev_clock E (ss_clock_calls s1)\<rparr>
      in enqueue_task (Instrument_Task r) (s1\<lparr>ss_clock_calls := ss_clock_calls s1 + 1\<rparr>))"

definition on_rsp_qry_instrument :: "'d env \<Rightarrow> nat \<Rightarrow> 'd ctp_instrument option \<Rightarrow> rsp_info option \<Rightarrow> bool \<Rightarrow> ('d, 'm) session_scheme \<Rightarrow>
    bool \<times> ('d, 'm) session_scheme" where
  "on_rsp_qry_instrument E k instrument info is_last s =
     (if ss_query_gen s \<noteq> ss_generation s then (True, s)
      else let s1 = (case instrument of None \<Rightarrow> s | Some c \<Rightarrow> record_instrument E c s)
           in if \<not> is_last then (True, s1)
              else if tm_state (bk_machine s1) \<noteq> LoadingInstruments then (True, s1)
              else if has_error info \<or> instrument = None
              then (True, machine (on_instruments_load_failed (rsp_error_text E ''instrument is null on is_last'' info)) (cancel_load_timer s1))
              else req_qry_investor_position E k True
                     ((cancel_load_timer s1)\<lparr>bk_baseline_ready := False, ss_finalizer := new_finalizer, ss_position_ok := False,
                        ss_account_ok := False, ss_rebuild_consumed := False\<rparr>))"

definition push_account :: "'d env \<Rightarrow> 'd ctp_account \<Rightarrow> ('d, 'm) session_scheme \<Rightarrow> bool \<times> ('d, 'm) session_scheme" where
  "push_account E a s =
     (let n = bk_seq s + 1; acct = (to_dz_trading_account a (bk_account_id s) (bk_trading_day s))\<lparr>ta_seq := n\<rparr>
      in and_then (write_frame E (Account_Frame acct)) (pure_op (enqueue_task (Account_Task acct (bk_trading_day s)))) (s\<lparr>bk_seq := n\<rparr>))"

definition finish_account_query :: "'d env \<Rightarrow> nat \<Rightarrow> rsp_info option \<Rightarrow> ('d, 'm) session_scheme \<Rightarrow> bool \<times> ('d, 'm) session_scheme" where
  "finish_account_query E k info s =
     (let s1 = s\<lparr>ss_account_ok := \<not> has_error info\<rparr>
      in if fin_phase (ss_finalizer s1) = Query_Account
         then finalize_login E k (s1\<lparr>ss_finalizer := on_account_done (ss_finalizer s1)\<rparr>) else (True, s1))"

definition on_rsp_qry_trading_account :: "'d env \<Rightarrow> nat \<Rightarrow> 'd ctp_account option \<Rightarrow> rsp_info option \<Rightarrow> bool \<Rightarrow> ('d, 'm) session_scheme \<Rightarrow>
    bool \<times> ('d, 'm) session_scheme" where
  "on_rsp_qry_trading_account E k account info is_last s =
     (if ss_query_gen s \<noteq> ss_generation s then (True, s)
      else try_op
        (and_then (\<lambda>s. case account of None \<Rightarrow> (True, s) | Some a \<Rightarrow> if ss_position_ok s then push_account E a s else (True, s))
          (if is_last then finish_account_query E k info else pure_op id)) s)"

definition add_query_row :: "'d env \<Rightarrow> 'd ctp_position \<Rightarrow> ('d, 'm) session_scheme \<Rightarrow> ('d, 'm) session_scheme" where
  "add_query_row E p s =
     (let F = ev_fp E;
          multiple = (case map_of (bk_instruments s) (cp_instrument_id p) of Some b \<Rightarrow> ib_volume_multiple b | None \<Rightarrow> fp_zero F);
          pos = to_dz_position F p (bk_account_id s) (bk_trading_day s) multiple;
          key = (pi_instrument_id pos, pi_direction pos);
          a = (case map_of (ss_agg s) key of Some a \<Rightarrow> a
               | None \<Rightarrow> \<lparr>qa_exchange_id = [], qa_volume = 0, qa_yd = 0, qa_cost = fp_zero F, qa_volume_multiple = fp_zero F, qa_ctp_frozen = 0\<rparr>);
          a1 = a\<lparr>qa_volume := qa_volume a + cp_position p, qa_yd := qa_yd a + cp_yd_position p,
                 qa_cost := fp_add F (qa_cost a) (cp_position_cost p), qa_volume_multiple := multiple,
                 qa_ctp_frozen := qa_ctp_frozen a + (cp_long_frozen p + cp_short_frozen p),
                 qa_exchange_id := (if qa_exchange_id a = [] then cp_exchange_id p else qa_exchange_id a)\<rparr>
      in s\<lparr>ss_agg := AList.update key a1 (ss_agg s)\<rparr>)"

definition finish_position_query :: "'d env \<Rightarrow> nat \<Rightarrow> rsp_info option \<Rightarrow> ('d, 'm) session_scheme \<Rightarrow> bool \<times> ('d, 'm) session_scheme" where
  "finish_position_query E k info s =
     and_then
       (\<lambda>s. if ss_position_ok s \<and> \<not> ss_rebuild_consumed s
            then apply_position_query E (ss_agg s) (s\<lparr>ss_rebuild_consumed := True\<rparr>) else (True, s))
       (\<lambda>s. if fin_phase (ss_finalizer s) = Query_Position
            then req_qry_trading_account E k (s\<lparr>ss_finalizer := on_position_done (ss_finalizer s)\<rparr>) else (True, s))
       (s\<lparr>ss_in_flight := False, ss_position_ok := \<not> has_error info\<rparr>)"

definition on_rsp_qry_investor_position :: "'d env \<Rightarrow> nat \<Rightarrow> 'd ctp_position option \<Rightarrow> rsp_info option \<Rightarrow> int \<Rightarrow> bool \<Rightarrow> ('d, 'm) session_scheme \<Rightarrow>
    bool \<times> ('d, 'm) session_scheme" where
  "on_rsp_qry_investor_position E k position info request_id is_last s =
     (if ss_query_gen s \<noteq> ss_generation s \<or> request_id \<noteq> ss_query_request_id s then (True, s)
      else let s1 = (case position of None \<Rightarrow> s
                     | Some p \<Rightarrow> if cp_position p > 0 \<or> cp_yd_position p > 0 then add_query_row E p s else s)
           in try_op (if is_last then finish_position_query E k info else pure_op id) s1)"

section \<open>Rejects\<close>

definition rejected_record :: "('d, 'm) session_scheme \<Rightarrow> ('d, 'n) fp_scheme \<Rightarrow> 'd order_req \<Rightarrow> string \<Rightarrow> 'd order_record" where
  "rejected_record s F req reason =
     \<lparr>orec_base =
        \<lparr>or_order_id = rq_order_id req, or_strategy_id = fit 64 (rq_strategy_id req), or_instrument_id = fit 88 (rq_instrument_id req),
         or_direction = rq_direction req, or_price_type = rq_price_type req, or_position_effect = rq_position_effect req,
         or_status = DZ_ORDER_REJECTED, or_price = rq_price req, or_avg_price = fp_zero F, or_volume = rq_volume req,
         or_volume_traded = 0, or_date = bk_trading_day s, or_time = 0, or_account_id = fit 32 (rq_account_id req),
         or_exchange_id = (case map_of (bk_instruments s) (rq_instrument_id req) of Some b \<Rightarrow> fit 16 (ib_exchange_id b) | None \<Rightarrow> []),
         or_remark = fit 64 reason, or_seq = 0\<rparr>,
      orec_trading_day = (if bk_trading_day s > 0 then pad_day (bk_trading_day s) else []), orec_order_ref = [],
      orec_external_order_id = [], orec_is_external = 0, orec_volume_canceled = rq_volume req, orec_insert_time = 0,
      orec_update_time = 0, orec_error_id = - 1, orec_error_msg = fit 128 reason\<rparr>"

definition reject_order :: "'d env \<Rightarrow> 'd order_req \<Rightarrow> string \<Rightarrow> ('d, 'm) session_scheme \<Rightarrow> bool \<times> ('d, 'm) session_scheme" where
  "reject_order E req reason s = try_op (\<lambda>s. send_order E (rejected_record s (ev_fp E) req reason) s) s"

definition write_risk_reject :: "'d env \<Rightarrow> 'd risk_reject \<Rightarrow> ('d, 'm) session_scheme \<Rightarrow> bool \<times> ('d, 'm) session_scheme" where
  "write_risk_reject E r s = try_op (write_frame E (Risk_Frame (bk_account_id s) (rr_rule_name r) (rr_reason r))) s"

definition rejected_input :: "('d, 'm) session_scheme \<Rightarrow> ('d, 'n) fp_scheme \<Rightarrow> int \<Rightarrow> 'd ctp_input_order \<Rightarrow> int \<Rightarrow> string \<Rightarrow> 'd order_record" where
  "rejected_input s F oid c error_id error_msg =
     \<lparr>orec_base =
        \<lparr>or_order_id = oid, or_strategy_id = (case find_strategy (bk_refs s) oid of Some sid \<Rightarrow> fit 64 sid | None \<Rightarrow> []),
         or_instrument_id = fit 88 (ci_instrument_id c), or_direction = direction_of (ci_direction c),
         or_price_type = price_type_of (ci_order_price_type c), or_position_effect = effect_of_offset (ci_offset c),
         or_status = DZ_ORDER_REJECTED, or_price = ci_limit_price c, or_avg_price = fp_zero F,
         or_volume = ci_volume_total_original c, or_volume_traded = 0, or_date = bk_trading_day s, or_time = 0,
         or_account_id = fit 32 (bk_account_id s), or_exchange_id = fit 16 (ci_exchange_id c), or_remark = fit 64 error_msg, or_seq = 0\<rparr>,
      orec_trading_day = (if bk_trading_day s > 0 then pad_day (bk_trading_day s) else []), orec_order_ref = fit 13 (ci_order_ref c),
      orec_external_order_id = [], orec_is_external = 0, orec_volume_canceled = ci_volume_total_original c, orec_insert_time = 0,
      orec_update_time = 0, orec_error_id = error_id, orec_error_msg = fit 128 error_msg\<rparr>"

definition reject_input :: "'d env \<Rightarrow> 'd ctp_input_order option \<Rightarrow> int \<Rightarrow> string \<Rightarrow> ('d, 'm) session_scheme \<Rightarrow> bool \<times> ('d, 'm) session_scheme" where
  "reject_input E input error_id error_msg s =
     (case input of
        None \<Rightarrow> (True, s)
      | Some c \<Rightarrow> (case find_by_order_ref (bk_refs s) (ci_order_ref c) of
                    None \<Rightarrow> (True, s)
                  | Some oid \<Rightarrow> send_order E (rejected_input s (ev_fp E) oid c error_id error_msg) s))"

definition on_rsp_order_insert :: "'d env \<Rightarrow> 'd ctp_input_order option \<Rightarrow> rsp_info option \<Rightarrow> ('d, 'm) session_scheme \<Rightarrow> bool \<times> ('d, 'm) session_scheme" where
  "on_rsp_order_insert E input info s =
     try_op (\<lambda>s. if \<not> failed info then (True, s)
                 else reject_input E input (case info of None \<Rightarrow> - 1 | Some i \<Rightarrow> ri_error_id i)
                        (rsp_error_text E ''rsp_info is null'' info) s) s"

definition on_err_rtn_order_insert :: "'d env \<Rightarrow> 'd ctp_input_order option \<Rightarrow> rsp_info option \<Rightarrow> ('d, 'm) session_scheme \<Rightarrow> bool \<times> ('d, 'm) session_scheme" where
  "on_err_rtn_order_insert E input info s =
     try_op (\<lambda>s. case info of None \<Rightarrow> (True, s)
                 | Some i \<Rightarrow> if ri_error_id i = 0 then (True, s) else reject_input E input (ri_error_id i) (ev_gbk E (ri_error_msg i)) s) s"

section \<open>Order entry\<close>

definition state_name :: "td_state \<Rightarrow> string" where
  "state_name st =
     (case st of Idle \<Rightarrow> ''Idle'' | Connecting \<Rightarrow> ''Connecting'' | Connected \<Rightarrow> ''Connected'' | Authenticating \<Rightarrow> ''Authenticating''
      | Authenticated \<Rightarrow> ''Authenticated'' | LoggingIn \<Rightarrow> ''LoggingIn'' | LoggedIn \<Rightarrow> ''LoggedIn'' | Confirming \<Rightarrow> ''Confirming''
      | LoadingInstruments \<Rightarrow> ''LoadingInstruments'' | Ready \<Rightarrow> ''Ready'' | Disconnected \<Rightarrow> ''Disconnected'')"

text \<open>The reasons, as UTF-8.\<close>

definition not_ready_text :: "td_state \<Rightarrow> string" where
  "not_ready_text st = utf8 [228, 186, 164, 230, 152, 147, 230, 156, 170, 229, 176, 177, 231, 187, 170, 58, 32] @ state_name st"

definition auto_offset_text :: string where
  "auto_offset_text = utf8 [65, 85, 84, 79, 32, 229, 188, 128, 229, 185, 179, 230, 156, 170, 229, 174, 158, 231, 142, 176]"

definition unknown_instrument_text :: "string \<Rightarrow> string" where
  "unknown_instrument_text i = utf8 [230, 156, 170, 231, 159, 165, 229, 144, 136, 231, 186, 166, 58, 32] @ i"

definition risk_reason_text :: "('d \<Rightarrow> string) \<Rightarrow> 'd risk_reason \<Rightarrow> string" where
  "risk_reason_text show_d r =
     (case r of
        Volume_Over v m \<Rightarrow> utf8 [229, 141, 149, 231, 172, 148, 230, 149, 176, 233, 135, 143, 32] @ show_int v @
          utf8 [32, 232, 182, 133, 232, 191, 135, 228, 184, 138, 233, 153, 144, 32] @ show_int m
      | Off_Tick p t \<Rightarrow> utf8 [228, 187, 183, 230, 160, 188, 32] @ show_d p @
          utf8 [32, 228, 184, 141, 230, 152, 175, 230, 156, 128, 229, 176, 143, 229, 143, 152, 229, 138, 168, 228, 187, 183, 228, 189, 141, 32] @
          show_d t @ utf8 [32, 231, 154, 132, 230, 149, 180, 230, 149, 176, 229, 128, 141])"

definition risk_text :: "('d \<Rightarrow> string) \<Rightarrow> 'd risk_reason \<Rightarrow> string" where
  "risk_text show_d r = utf8 [233, 163, 142, 230, 142, 167, 230, 139, 146, 231, 187, 157, 58, 32] @ risk_reason_text show_d r"

definition insert_failed_text :: "int \<Rightarrow> string" where
  "insert_failed_text ret = utf8 [67, 84, 80, 32, 228, 184, 139, 229, 141, 149, 229, 164, 177, 232, 180, 165, 58, 32, 114, 101, 116, 61] @ show_int ret"

definition risk_context :: "'d instrument_brief \<Rightarrow> 'd order_req \<Rightarrow> ('d, 'm) session_scheme \<Rightarrow> 'd account_context" where
  "risk_context b req s =
     (case map_of (bk_holdings s) (rq_instrument_id req) of
        None \<Rightarrow> \<lparr>ac_account_id = bk_account_id s, ac_price_tick = ib_price_tick b, ac_long_pos = 0, ac_short_pos = 0\<rparr>
      | Some h \<Rightarrow> \<lparr>ac_account_id = bk_account_id s, ac_price_tick = ib_price_tick b,
          ac_long_pos = side_volume (holding_side DZ_DIRECTION_LONG h), ac_short_pos = side_volume (holding_side DZ_DIRECTION_SHORT h)\<rparr>)"

definition submit_order :: "'d env \<Rightarrow> 'd instrument_brief \<Rightarrow> 'd order_req \<Rightarrow> ('d, 'm) session_scheme \<Rightarrow> bool \<times> ('d, 'm) session_scheme" where
  "submit_order E b req s =
     (let s1 = next_request_id (s\<lparr>ss_order_ref := ss_order_ref s + 1\<rparr>);
          input = (to_input_order_field req \<lparr>bc_account_id = ss_user_id s, bc_order_ref = ss_order_ref s1,
                     bc_request_id = ss_request_id s1, bc_exchange_id = ib_exchange_id b\<rparr>)\<lparr>ci_broker_id := fit 11 (ss_broker_id s)\<rparr>;
          ref = show_int (ss_order_ref s1);
          s2 = map_refs (insert_strategy (rq_order_id req) (rq_strategy_id req)) (map_refs (insert_by_order_ref ref (rq_order_id req)) s1);
          (ret, s3) = api_call E (Call_Order_Insert input (ss_request_id s1)) s2
      in if ret \<noteq> 0
         then reject_order E req (insert_failed_text ret)
                (map_refs (erase_strategy (rq_order_id req)) (map_refs (erase_by_order_ref ref) s3))
         else (True, map_refs (insert_cancel_context (rq_order_id req)
                \<lparr>cc_order_ref = pad_int 12 (ss_order_ref s1), cc_front_id = 0, cc_session_id = 0\<rparr>) s3))"

definition place_order :: "'d env \<Rightarrow> 'd order_req \<Rightarrow> ('d, 'm) session_scheme \<Rightarrow> bool \<times> ('d, 'm) session_scheme" where
  "place_order E req s =
     (if \<not> is_ready s then reject_order E req (not_ready_text (tm_state (bk_machine s))) s
      else if rq_position_effect req = DZ_POSITION_EFFECT_AUTO then reject_order E req auto_offset_text s
      else case map_of (bk_instruments s) (rq_instrument_id req) of
             None \<Rightarrow> reject_order E req (unknown_instrument_text (rq_instrument_id req)) s
           | Some b \<Rightarrow>
               (case check_risk (ev_fp E) (ss_risk s) req (risk_context b req s) of
                  Some rej \<Rightarrow> and_then (reject_order E req (risk_text (ev_show E) (rr_reason rej))) (write_risk_reject E rej) s
                | None \<Rightarrow> submit_order E b req s))"

text \<open>The first component is the result returned to the caller.\<close>

definition cancel_order :: "'d env \<Rightarrow> int \<Rightarrow> ('d, 'm) session_scheme \<Rightarrow> bool \<times> ('d, 'm) session_scheme" where
  "cancel_order E oid s =
     (if \<not> is_ready s then (False, s)
      else case find_cancel_context (bk_refs s) oid of
             None \<Rightarrow> (False, s)
           | Some ctx \<Rightarrow>
               if \<not> ss_api s then (False, s)
               else let s1 = next_request_id s;
                        (ret, s2) = api_call E (Call_Order_Action (fit 11 (ss_broker_id s)) (fit 13 (ss_user_id s)) (fit 13 (cc_order_ref ctx))
                          (cc_front_id ctx) (cc_session_id ctx) (ss_request_id s1)) s1
                    in (ret = 0, s2))"

definition repush_last_records :: "'d env \<Rightarrow> ('d, 'm) session_scheme \<Rightarrow> bool \<times> ('d, 'm) session_scheme" where
  "repush_last_records E s =
     try_op
       (case (find_latest_order (bk_filter s), find_latest_trade (bk_filter s)) of
          (Some r, None) \<Rightarrow> write_frame E (Order_Frame r)
        | (Some r, Some t) \<Rightarrow> if tr_seq t \<le> or_seq r then write_frame E (Order_Frame r) else write_frame E (Trade_Frame t)
        | (None, Some t) \<Rightarrow> write_frame E (Trade_Frame t)
        | (None, None) \<Rightarrow> pure_op id) s"

section \<open>Expired timers\<close>

definition fire_timer :: "'d env \<Rightarrow> nat \<Rightarrow> timer_callback \<Rightarrow> ('d, 'm) session_scheme \<Rightarrow> bool \<times> ('d, 'm) session_scheme" where
  "fire_timer E k cb s =
     (let st = tm_state (bk_machine s); ph = fin_phase (ss_finalizer s) in
      case cb of
        Connect_Expired g \<Rightarrow>
          if g \<noteq> ss_generation s then (True, s)
          else if st = Connecting
          then (True, (machine on_connect_timeout s)\<lparr>ss_pushed_states := ss_pushed_states s @ [Account_Offline]\<rparr>) else (True, s)
      | Authenticate_Expired g \<Rightarrow>
          if g \<noteq> ss_generation s then (True, s) else if st = Authenticating then (True, machine on_authenticate_failed s) else (True, s)
      | Login_Expired g \<Rightarrow>
          if g \<noteq> ss_generation s then (True, s) else if st = LoggingIn then (True, machine on_login_failed s) else (True, s)
      | Retry_Qry_Instrument g \<Rightarrow>
          if \<not> ss_alive s then (True, s) else if g \<noteq> ss_generation s then (True, s)
          else if st = LoadingInstruments then (True, req_qry_instrument E s) else (True, s)
      | Load_Expired g \<Rightarrow>
          if g \<noteq> ss_generation s then (True, s)
          else if st = LoadingInstruments then (True, machine (on_instruments_load_failed ''query timeout 5min'') s) else (True, s)
      | Retry_Qry_Position g \<Rightarrow>
          if \<not> ss_alive s then (True, s) else if g \<noteq> ss_generation s then (True, s)
          else if ph = Query_Position then req_qry_investor_position E k True s else (True, s)
      | Qry_Position_Expired g token login_chain \<Rightarrow>
          if \<not> ss_alive s then (True, s) else if g \<noteq> ss_generation s then (True, s)
          else if token \<noteq> ss_token s then (True, s)
          else if \<not> ss_in_flight s then (True, s)
          else let s1 = s\<lparr>ss_in_flight := False\<rparr>
               in if st = LoadingInstruments \<and> ph = Query_Position then position_failed E k s1
                  else if login_chain \<and> st = Ready \<and> ph = Query_Position then position_failed E k s1
                  else (True, s1)
      | Retry_Qry_Account g \<Rightarrow>
          if \<not> ss_alive s then (True, s) else if g \<noteq> ss_generation s then (True, s)
          else if ph = Query_Account then req_qry_trading_account E k s else (True, s)
      | Qry_Account_Expired g \<Rightarrow>
          if \<not> ss_alive s then (True, s) else if g \<noteq> ss_generation s then (True, s)
          else if st = LoadingInstruments \<and> ph = Query_Account then account_failed E k s
          else if st = Ready \<and> ph = Query_Account then account_failed E k s
          else (True, s)
      | Position_Poll g \<Rightarrow> if g \<noteq> ss_generation s then (True, s) else on_position_poll_timer E k s)"

section \<open>Events\<close>

datatype 'd session_event =
    Ev_Open bool string string "string list" string string string string string
  | Ev_Close
  | Ev_Connected
  | Ev_Disconnected int
  | Ev_Authenticate "rsp_info option"
  | Ev_Login "string \<Rightarrow> 'd day_load option" nat login_rsp
  | Ev_Confirm "rsp_info option"
  | Ev_Instrument "'d ctp_instrument option" "rsp_info option" bool
  | Ev_Account "'d ctp_account option" "rsp_info option" bool
  | Ev_Position "'d ctp_position option" "rsp_info option" int bool
  | Ev_Order "'d ctp_order"
  | Ev_Trade "'d ctp_trade"
  | Ev_Insert_Rsp "'d ctp_input_order option" "rsp_info option"
  | Ev_Insert_Err "'d ctp_input_order option" "rsp_info option"
  | Ev_Place "'d order_req"
  | Ev_Cancel int
  | Ev_Day int
  | Ev_Resync
  | Ev_Poll_Interval int
  | Ev_Repush
  | Ev_Risk bool
  | Ev_Timer timer_callback

definition session_step :: "'d env \<Rightarrow> nat \<Rightarrow> ('d, 'm) session_scheme \<Rightarrow> 'd session_event \<Rightarrow> ('d, 'm) session_scheme" where
  "session_step E k s e =
     (case e of
        Ev_Open created v dir fronts broker user pw auth app \<Rightarrow> snd (open_session E created v dir fronts broker user pw auth app s)
      | Ev_Close \<Rightarrow> disconnect_session s
      | Ev_Connected \<Rightarrow> on_session_connected E s
      | Ev_Disconnected r \<Rightarrow> on_session_disconnected r s
      | Ev_Authenticate i \<Rightarrow> on_rsp_authenticate E i s
      | Ev_Login db n f \<Rightarrow> snd (on_rsp_user_login E db n f s)
      | Ev_Confirm i \<Rightarrow> on_rsp_settlement_confirm E i s
      | Ev_Instrument c i l \<Rightarrow> snd (on_rsp_qry_instrument E k c i l s)
      | Ev_Account a i l \<Rightarrow> snd (on_rsp_qry_trading_account E k a i l s)
      | Ev_Position p i r l \<Rightarrow> snd (on_rsp_qry_investor_position E k p i r l s)
      | Ev_Order c \<Rightarrow> snd (on_rtn_order E k c s)
      | Ev_Trade c \<Rightarrow> snd (on_rtn_trade E k c s)
      | Ev_Insert_Rsp c i \<Rightarrow> snd (on_rsp_order_insert E c i s)
      | Ev_Insert_Err c i \<Rightarrow> snd (on_err_rtn_order_insert E c i s)
      | Ev_Place r \<Rightarrow> snd (place_order E r s)
      | Ev_Cancel i \<Rightarrow> snd (cancel_order E i s)
      | Ev_Day d \<Rightarrow> snd (set_trading_day E d s)
      | Ev_Resync \<Rightarrow> snd (resync_account_data E k s)
      | Ev_Poll_Interval n \<Rightarrow> set_position_poll_interval E n s
      | Ev_Repush \<Rightarrow> snd (repush_last_records E s)
      | Ev_Risk b \<Rightarrow> s\<lparr>ss_risk := set_risk_enabled b (ss_risk s)\<rparr>
      | Ev_Timer cb \<Rightarrow> snd (fire_timer E k cb s))"

definition session_run :: "'d env \<Rightarrow> nat \<Rightarrow> ('d, 'm) session_scheme \<Rightarrow> 'd session_event list \<Rightarrow> ('d, 'm) session_scheme" where
  "session_run E k s es = foldl (session_step E k) s es"

text \<open>The session as constructed.\<close>

definition new_session :: "('d, 'n) fp_scheme \<Rightarrow> string \<Rightarrow> 'd session" where
  "new_session F account =
     \<lparr>bk_account_id = account, bk_machine = new_td_machine, bk_refs = empty_refs, bk_trading_day = 0, bk_seq = 0,
      bk_filter = new_filter account, bk_avgs = [], bk_holdings = [], bk_instruments = [], bk_baseline_ready = False,
      bk_buf_orders = [], bk_buf_trades = [], bk_replaying = False, bk_ids = 0, bk_writes = 0, bk_frames = [], bk_tasks = [],
      ss_risk = new_risk_gate False, ss_order_ref = 0, ss_request_id = 0, ss_broker_id = [], ss_user_id = [], ss_password = [],
      ss_auth_code = [], ss_app_id = [], ss_fronts = [], ss_flow_dir = [], ss_api_version = [], ss_api = False, ss_alive = True,
      ss_agg = [], ss_in_flight = False, ss_token = 0, ss_query_request_id = 0, ss_rebuild_consumed = False,
      ss_finalizer = new_finalizer, ss_position_ok = False, ss_account_ok = False, ss_data_ok = False, ss_connect_timer = 0,
      ss_login_timer = 0, ss_load_timer = 0, ss_poll_timer = 0, ss_poll_interval = 60, ss_generation = 0, ss_query_gen = 0,
      ss_calls = 0, ss_timer_calls = 0, ss_flush_calls = 0, ss_clock_calls = 0, ss_requests = [], ss_timers = [], ss_notes = [],
      ss_pushed_states = []\<rparr>"

end
