(* ===== verification/Td_Session_Props.thy ===== *)
theory Td_Session_Props
  imports Td_Session_Steps
begin

text \<open>
  Properties of whole runs of an account session: numbering and recording of what it writes, each
  trade once, well-formed positions, the way to Ready, and the recognition of its own orders.
\<close>

section \<open>Every handler advances\<close>

lemmas session_defs = machine_def api_call_def next_request_id_def schedule_def schedule_ignored_def log_cancel_def
  log_requests_def cancel_connect_timer_def cancel_login_timer_def cancel_load_timer_def cancel_poll_timer_def Let_def

lemma quiet_session:
  "quiet s (machine f s)" "quiet s (snd (api_call E q s))" "quiet s (next_request_id s)" "quiet s (schedule_ignored E ms cb s)"
  "quiet s (log_requests qs s)" "quiet s (cancel_connect_timer s)" "quiet s (cancel_login_timer s)" "quiet s (cancel_load_timer s)"
  "quiet s (cancel_poll_timer s)" "quiet s (req_authenticate E s)" "quiet s (req_login E s)" "quiet s (req_settlement_confirm E s)"
  "quiet s (req_qry_instrument E s)" "quiet s (schedule_position_poll E s)" "quiet s (flush_barrier E s)" "quiet s (step_finalizer s)"
  "quiet s (disconnect_session s)" "quiet s (snd (open_session E created v dir fronts broker user pw auth app s))"
  "quiet s (set_position_poll_interval E n s)" "quiet s (on_session_disconnected r s)" "quiet s (add_query_row E p s)"
  by (simp_all add: quiet_def holdings_ok_def session_defs req_authenticate_def req_login_def req_settlement_confirm_def
      req_qry_instrument_def schedule_position_poll_def flush_barrier_def step_finalizer_def disconnect_session_def
      open_session_def set_position_poll_interval_def on_session_disconnected_def add_query_row_def)

lemma advance_session_fields:
  "advance E s (s\<lparr>ss_data_ok := b\<rparr>)" "advance E s (s\<lparr>ss_finalizer := f, ss_account_ok := b\<rparr>)" "advance E s (s\<lparr>ss_query_gen := n\<rparr>)"
  "advance E s (s\<lparr>ss_finalizer := f, ss_position_ok := b\<rparr>)" "advance E s (s\<lparr>ss_finalizer := f\<rparr>)" "advance E s (s\<lparr>ss_account_ok := b\<rparr>)"
  "advance E s (s\<lparr>ss_in_flight := b\<rparr>)" "advance E s (s\<lparr>ss_rebuild_consumed := b\<rparr>)" "advance E s (s\<lparr>ss_in_flight := b, ss_position_ok := b'\<rparr>)"
  "advance E s (s\<lparr>ss_position_ok := b, ss_account_ok := b', ss_finalizer := f\<rparr>)" "advance E s (s\<lparr>ss_poll_timer := n\<rparr>)"
  "advance E s (s\<lparr>ss_order_ref := i\<rparr>)" "advance E s (s\<lparr>ss_query_request_id := i\<rparr>)" "advance E s (s\<lparr>ss_pushed_states := st\<rparr>)"
  "advance E s (s\<lparr>ss_risk := g\<rparr>)" "advance E s (map_refs h s)"
  "advance E s (s\<lparr>bk_baseline_ready := b, ss_finalizer := f, ss_position_ok := b', ss_account_ok := b'', ss_rebuild_consumed := b'''\<rparr>)"
  "advance E s (s\<lparr>ss_token := n, ss_query_gen := n', ss_agg := a, ss_rebuild_consumed := b, ss_in_flight := b'\<rparr>)"
  by (rule quiet_advance, simp add: quiet_def holdings_ok_def map_refs_def)+

lemmas advance_session = quiet_session [THEN quiet_advance] advance_session_fields

lemma advance_finalizer_action: "advance E s (snd (finalizer_action E k s))"
proof (cases "fin_phase (ss_finalizer s)")
  case Ready_Phase
  have "advance E s (if tm_state (bk_machine s) = LoadingInstruments then machine on_instruments_loaded s else s)"
    by (simp add: advance_session advance_refl)
  from adv.trans [OF this advance_session(14)] show ?thesis using Ready_Phase by (simp add: finalizer_action_def)
qed (simp_all add: finalizer_action_def advance_replay_buffered advance_session advance_refl)

lemma advance_drive: "advance E s (snd (drive_finalizer E k s))"
proof (induction E k s rule: drive_finalizer.induct)
  case (1 E k s)
  show ?case
  proof (cases "fin_phase (ss_finalizer s) \<in> {Query_Position, Query_Account, Done_Phase}")
    case True
    then show ?thesis by (simp add: drive_finalizer.simps [of E k s] advance_refl)
  next
    case False
    obtain ok s1 where a: "finalizer_action E k s = (ok, s1)" by fastforce
    have s1: "advance E s s1" using advance_finalizer_action [of E s k] a by simp
    have "ok \<Longrightarrow> advance E s1 (snd (drive_finalizer E k (step_finalizer s1)))"
      using adv.trans [OF advance_session(16) 1 [OF False a [symmetric]]] by simp
    then show ?thesis using adv.trans [OF s1] s1 False by (simp add: drive_finalizer.simps [of E k s] a)
  qed
qed

lemma advance_finalize_login: "advance E s (snd (finalize_login E k s))"
  by (auto simp: finalize_login_def advance_refl intro: adv.trans [OF advance_session_fields(1) advance_drive])

lemma advance_account_failed: "advance E s (snd (account_failed E k s))"
  unfolding account_failed_def by (rule adv.trans [OF advance_session_fields(2) advance_finalize_login])

lemma advance_req_account: "advance E s (snd (req_qry_trading_account E k s))"
proof -
  let ?s = "s\<lparr>ss_query_gen := ss_generation s\<rparr>"
  obtain ret s2 where a: "api_call E (Call_Qry_Account (ss_request_id (next_request_id ?s))) (next_request_id ?s) = (ret, s2)" by fastforce
  have "advance E (next_request_id ?s) s2" using advance_session(2) [of E "next_request_id ?s"] a by (metis snd_conv)
  from adv.trans [OF advance_session(3) this] have "advance E ?s s2" .
  then have "advance E ?s (snd (req_qry_trading_account E k s))"
    using adv.trans [of E ?s s2] advance_account_failed
    by (auto simp: req_qry_trading_account_def a Let_def advance_session)
  then show ?thesis by (rule adv.trans [OF advance_session_fields(3)])
qed

lemma advance_position_failed: "advance E s (snd (position_failed E k s))"
  unfolding position_failed_def by (rule adv.trans [OF advance_session_fields(4) advance_req_account])

lemma advance_req_position: "advance E s (snd (req_qry_investor_position E k lc s))"
proof -
  define t where "t = s\<lparr>ss_token := ss_token s + 1, ss_query_gen := ss_generation s, ss_agg := [], ss_rebuild_consumed := False, ss_in_flight := True\<rparr>"
  define t2 where "t2 = (next_request_id t)\<lparr>ss_query_request_id := ss_request_id (next_request_id t)\<rparr>"
  obtain ret t3 where a: "api_call E (Call_Qry_Position (ss_request_id (next_request_id t))) t2 = (ret, t3)" by fastforce
  have "advance E t t2" unfolding t2_def by (rule adv.trans [OF advance_session(3) advance_session_fields(13)])
  moreover have "advance E t2 t3" using advance_session(2) [of E t2] a by (metis snd_conv)
  ultimately have t3: "advance E t t3" by (rule adv.trans)
  have f: "advance E u (snd (position_failed E k (u\<lparr>ss_in_flight := False\<rparr>)))" for u :: "('a, 'b) session_scheme"
    by (rule adv.trans [OF advance_session_fields(7) advance_position_failed])
  have g: "advance E u (schedule_ignored E ms cb (u\<lparr>ss_in_flight := False\<rparr>))" for u :: "('a, 'b) session_scheme" and ms cb
    by (rule adv.trans [OF advance_session_fields(7) advance_session(4)])
  have "advance E t (snd (req_qry_investor_position E k lc s))"
    unfolding req_qry_investor_position_def Let_def t_def [symmetric] t2_def [symmetric] a prod.case
    by (auto simp: advance_session_fields(7) f intro: adv.trans [OF t3] f g advance_session_fields(7) advance_session(4))
  then show ?thesis unfolding t_def by (rule adv.trans [OF advance_session_fields(18)])
qed

lemma advance_resync: "advance E s (snd (resync_account_data E k s))"
  by (auto simp: resync_account_data_def advance_refl intro: adv.trans [OF advance_session_fields(10) advance_req_position])

lemma advance_poll_timer: "advance E s (snd (on_position_poll_timer E k s))"
proof -
  let ?s = "s\<lparr>ss_poll_timer := 0\<rparr>"
  have "advance E ?s (snd (on_position_poll_timer E k s))"
    unfolding on_position_poll_timer_def Let_def
    by (auto simp: advance_refl advance_req_position advance_session intro!: adv.and_then adv.pure_op)
  then show ?thesis by (rule adv.trans [OF advance_session_fields(11)])
qed

lemma advance_login_failed:
  "failed (lr_info f) \<Longrightarrow> advance E s (snd (on_rsp_user_login E db n f s))"
  by (auto simp: on_rsp_user_login_def Let_def intro: adv.trans [OF advance_session(7) advance_session(1)])

lemma advance_connected: "advance E s (on_session_connected E s)"
  by (simp add: on_session_connected_def Let_def
      adv.trans [OF adv.trans [OF advance_session(6) advance_session(1)] advance_session(10)] adv.trans [OF adv.trans [OF advance_session(6) advance_session(1)] advance_session(11)])

lemma advance_authenticate: "advance E s (on_rsp_authenticate E i s)"
  by (simp add: on_rsp_authenticate_def Let_def
      adv.trans [OF advance_session(7) advance_session(1)] adv.trans [OF adv.trans [OF advance_session(7) advance_session(1)] advance_session(11)])

lemma advance_confirm: "advance E s (on_rsp_settlement_confirm E i s)"
  by (simp add: on_rsp_settlement_confirm_def
      advance_session(1) adv.trans [OF advance_session(1) advance_session(13)])

lemma advance_record_instrument: "advance E s (record_instrument E c s)"
  unfolding advance_def
  by (auto simp: record_instrument_def enqueue_task_def holdings_ok_def new_output_def numbered_def List.map_filter_simps row_seq_def
      trade_keys_def Let_def intro!: exI [of _ "[]"] exI)

lemma advance_instrument: "advance E s (snd (on_rsp_qry_instrument E k c i l s))"
proof -
  let ?s = "case c of None \<Rightarrow> s | Some c \<Rightarrow> record_instrument E c s"
  have s: "advance E s ?s" by (simp add: advance_refl advance_record_instrument split: option.split)
  have 1: "advance E ?s (machine g (cancel_load_timer ?s))" for g
    by (rule adv.trans [OF advance_session(8) advance_session(1)])
  have 2: "advance E ?s (snd (req_qry_investor_position E k True ((cancel_load_timer ?s)\<lparr>bk_baseline_ready := False,
      ss_finalizer := new_finalizer, ss_position_ok := False, ss_account_ok := False, ss_rebuild_consumed := False\<rparr>)))"
    by (rule adv.trans [OF adv.trans [OF advance_session(8) advance_session_fields(17)] advance_req_position])
  have "ss_query_gen s = ss_generation s \<Longrightarrow> advance E ?s (snd (on_rsp_qry_instrument E k c i l s))"
    unfolding on_rsp_qry_instrument_def Let_def using 1 2 advance_refl [of E ?s] by auto
  then show ?thesis using adv.trans [OF s] by (cases "ss_query_gen s = ss_generation s") (auto simp: on_rsp_qry_instrument_def advance_refl)
qed

lemma advance_push_account: "advance E s (snd (push_account E a s))"
proof -
  let ?n = "bk_seq s + 1"
  let ?a = "(to_dz_trading_account a (bk_account_id s) (bk_trading_day s))\<lparr>ta_seq := ?n\<rparr>"
  note defs = push_account_def and_then_def pure_op_def write_frame_def enqueue_task_def List.map_filter_simps Let_def trade_keys_def
  show ?thesis
  proof (cases "ev_writes E (bk_writes s)")
    case Wrote
    then show ?thesis
      by (intro advance_one [where fs = "[Account_Frame ?a]" and ts = "[Account_Task ?a (bk_trading_day s)]"]) (auto simp: defs)
  next
    case Refused
    then show ?thesis
      by (intro advance_one [where fs = "[]" and ts = "[Account_Task ?a (bk_trading_day s)]"])
         (auto simp: defs all_written_def intro!: exI [of _ "bk_writes s"])
  next
    case Threw
    then show ?thesis by (intro advance_one [where fs = "[]" and ts = "[]"]) (auto simp: defs)
  qed
qed

lemma advance_finish_account: "advance E s (snd (finish_account_query E k i s))"
  by (simp add: finish_account_query_def Let_def advance_session_fields(6) adv.trans [OF adv.trans [OF advance_session_fields(6) advance_session_fields(5)] advance_finalize_login])

lemma advance_account: "advance E s (snd (on_rsp_qry_trading_account E k a i l s))"
  unfolding on_rsp_qry_trading_account_def
  by (auto simp: advance_refl advance_push_account advance_finish_account
      intro!: adv.try_op adv.and_then split: option.split) (simp_all add: pure_op_def advance_refl)

lemma advance_finish_position: "advance E s (snd (finish_position_query E k i s))"
proof -
  have 1: "advance E t (snd (apply_position_query E (ss_agg t) (t\<lparr>ss_rebuild_consumed := True\<rparr>)))" for t :: "('a, 'b) session_scheme"
    by (rule adv.trans [OF advance_session_fields(8) advance_position_query])
  have 2: "advance E t (snd (req_qry_trading_account E k (t\<lparr>ss_finalizer := f\<rparr>)))" for t :: "('a, 'b) session_scheme" and f
    by (rule adv.trans [OF advance_session_fields(5) advance_req_account])
  define t where "t = s\<lparr>ss_in_flight := False, ss_position_ok := \<not> has_error i\<rparr>"
  have "advance E t (snd (finish_position_query E k i s))"
    unfolding finish_position_query_def t_def [symmetric]
    by (rule adv.and_then) (simp_all add: 1 2 advance_refl)
  then show ?thesis unfolding t_def by (rule adv.trans [OF advance_session_fields(9)])
qed

lemma advance_position: "advance E s (snd (on_rsp_qry_investor_position E k p i r l s))"
proof -
  let ?s = "case p of None \<Rightarrow> s | Some p \<Rightarrow> if cp_position p > 0 \<or> cp_yd_position p > 0 then add_query_row E p s else s"
  have s: "advance E s ?s" by (simp add: advance_refl advance_session split: option.split)
  have "advance E ?s (snd (try_op (if l then finish_position_query E k i else pure_op id) ?s))"
    by (rule adv.try_op) (simp add: advance_finish_position pure_op_def advance_refl)
  then show ?thesis using adv.trans [OF s] by (simp add: on_rsp_qry_investor_position_def advance_refl Let_def)
qed

lemma advance_reject_order: "advance E s (snd (reject_order E req reason s))"
  unfolding reject_order_def by (rule adv.try_op) (rule advance_send_order)

lemma advance_plain_frame:
  assumes "frame_seq f = None" "frame_positions f = []" "frame_trade f = None"
  shows "advance E s (snd (write_frame E f s))"
proof -
  have o: "new_output E s (s\<lparr>bk_writes := n\<rparr>) [] []" "new_output E s (s\<lparr>bk_writes := n, bk_frames := bk_frames s @ [f]\<rparr>) [f] []" for n
    using assms by (simp_all add: new_output_def numbered_def List.map_filter_simps trade_keys_def)
  show ?thesis
    unfolding advance_def using o by (auto simp: write_frame_def Let_def split: write_outcome.split)
qed

lemma advance_risk_reject: "advance E s (snd (write_risk_reject E r s))"
  unfolding write_risk_reject_def by (rule adv.try_op) (simp add: advance_plain_frame)

lemma advance_reject_input: "advance E s (snd (reject_input E c i m s))"
  by (simp add: reject_input_def advance_refl advance_send_order split: option.split)

lemma advance_insert_rsp: "advance E s (snd (on_rsp_order_insert E c i s))"
  unfolding on_rsp_order_insert_def by (rule adv.try_op) (simp add: advance_refl advance_reject_input)

lemma advance_insert_err: "advance E s (snd (on_err_rtn_order_insert E c i s))"
  unfolding on_err_rtn_order_insert_def by (rule adv.try_op) (simp add: advance_refl advance_reject_input split: option.split)

lemma advance_submit: "advance E s (snd (submit_order E b req s))"
proof -
  define t where "t = next_request_id (s\<lparr>ss_order_ref := ss_order_ref s + 1\<rparr>)"
  define u where "u = map_refs (insert_strategy (rq_order_id req) (rq_strategy_id req))
    (map_refs (insert_by_order_ref (show_int (ss_order_ref t)) (rq_order_id req)) t)"
  define q where "q = Call_Order_Insert ((to_input_order_field req \<lparr>bc_account_id = ss_user_id s, bc_order_ref = ss_order_ref t,
    bc_request_id = ss_request_id t, bc_exchange_id = ib_exchange_id b\<rparr>)\<lparr>ci_broker_id := fit 11 (ss_broker_id s)\<rparr>) (ss_request_id t)"
  obtain ret v where a: "api_call E q u = (ret, v)" by fastforce
  have "advance E s t" unfolding t_def by (rule adv.trans [OF advance_session_fields(12) advance_session(3)])
  moreover have "advance E t u" unfolding u_def by (rule adv.trans [OF advance_session_fields(16) advance_session_fields(16)])
  moreover have "advance E u v" using advance_session(2) [of E u] a by (metis snd_conv)
  ultimately have v: "advance E s v" by (meson adv.trans)
  have r: "advance E v (snd (reject_order E req m (map_refs f (map_refs g v))))" for m f g
    by (rule adv.trans [OF adv.trans [OF advance_session_fields(16) advance_session_fields(16)] advance_reject_order])
  show ?thesis
    unfolding submit_order_def Let_def t_def [symmetric] u_def [symmetric] q_def [symmetric] a prod.case
    using adv.trans [OF v r] adv.trans [OF v advance_session_fields(16)] by simp
qed

lemma advance_place: "advance E s (snd (place_order E req s))"
  by (auto simp: place_order_def advance_reject_order advance_submit split: option.split
      intro!: adv.and_then advance_reject_order advance_risk_reject)

lemma advance_cancel: "advance E s (snd (cancel_order E i s))"
proof -
  have "advance E s (snd (api_call E q (next_request_id s)))" for q
    by (rule adv.trans [OF advance_session(3) advance_session(2)])
  then show ?thesis by (simp add: cancel_order_def advance_refl split_beta Let_def split: option.split)
qed

lemma advance_timer: "advance E s (snd (fire_timer E k cb s))"
proof -
  have "advance E s ((machine on_connect_timeout s)\<lparr>ss_pushed_states := st\<rparr>)" for st
    by (rule adv.trans [OF advance_session(1) advance_session_fields(14)])
  moreover have "advance E s (snd (position_failed E k (s\<lparr>ss_in_flight := False\<rparr>)))"
    by (rule adv.trans [OF advance_session_fields(7) advance_position_failed])
  ultimately show ?thesis
    by (simp add: fire_timer_def advance_refl advance_session advance_req_position advance_req_account advance_account_failed
        advance_poll_timer Let_def split: timer_callback.split)
qed

text \<open>All events but a successful login, which restarts the numbering, and the pushing of an old report.\<close>

definition numbering :: "'d session_event \<Rightarrow> bool" where
  "numbering e = (case e of Ev_Login db n f \<Rightarrow> failed (lr_info f) | Ev_Repush \<Rightarrow> False | _ \<Rightarrow> True)"

lemma advance_step: "numbering e \<Longrightarrow> advance E s (session_step E k s e)"
  by (cases e) (simp_all add: session_step_def numbering_def advance_session advance_connected advance_authenticate advance_confirm
      advance_login_failed advance_instrument advance_account advance_position advance_on_rtn_order advance_on_rtn_trade
      advance_insert_rsp advance_insert_err advance_place advance_cancel advance_set_trading_day advance_resync advance_timer)

lemma advance_run: "list_all numbering es \<Longrightarrow> advance E s (session_run E k s es)"
proof (induction es arbitrary: s)
  case (Cons e es)
  then show ?case using adv.trans [OF advance_step [of e E s k]] by (simp add: session_run_def)
qed (simp add: session_run_def advance_refl)

section \<open>Runs with re-pushed reports\<close>

text \<open>
  \<open>Ev_Repush\<close> writes the newest report of the filter once more, under its old number and without a
  row. What a run writes apart from these frames, and these frames.
\<close>

definition same_login :: "'d session_event \<Rightarrow> bool" where
  "same_login e = (case e of Ev_Login db n f \<Rightarrow> failed (lr_info f) | _ \<Rightarrow> True)"

definition repushes :: "'d session_event \<Rightarrow> bool" where
  "repushes e = (case e of Ev_Repush \<Rightarrow> True | _ \<Rightarrow> False)"

definition step_frames :: "'d env \<Rightarrow> nat \<Rightarrow> ('d, 'm) session_scheme \<Rightarrow> 'd session_event \<Rightarrow> 'd frame list" where
  "step_frames E k s e = drop (length (bk_frames s)) (bk_frames (session_step E k s e))"

fun new_frames :: "'d env \<Rightarrow> nat \<Rightarrow> ('d, 'm) session_scheme \<Rightarrow> 'd session_event list \<Rightarrow> 'd frame list" where
  "new_frames E k s [] = []"
| "new_frames E k s (e # es) = (if repushes e then [] else step_frames E k s e) @ new_frames E k (session_step E k s e) es"

fun pushed_again :: "'d env \<Rightarrow> nat \<Rightarrow> ('d, 'm) session_scheme \<Rightarrow> 'd session_event list \<Rightarrow> 'd frame list" where
  "pushed_again E k s [] = []"
| "pushed_again E k s (e # es) = (if repushes e then step_frames E k s e else []) @ pushed_again E k (session_step E k s e) es"

lemma numbering_or_repush: "same_login e \<Longrightarrow> repushes e \<or> numbering e"
  by (cases e) (simp_all add: same_login_def repushes_def numbering_def)

lemma repush_frames:
  fixes s :: "('d, 'm) session_scheme"
  assumes "repushes e" "t = session_step E k s e"
  shows "\<exists>g. bk_frames t = bk_frames s @ g \<and> length g \<le> 1 \<and>
    (\<forall>f \<in> set g. (\<exists>r. f = Order_Frame r \<and> find_latest_order (bk_filter s) = Some r) \<or>
                 (\<exists>r. f = Trade_Frame r \<and> find_latest_trade (bk_filter s) = Some r))"
    and "bk_tasks t = bk_tasks s \<and> bk_seq t = bk_seq s \<and> bk_filter t = bk_filter s \<and> bk_holdings t = bk_holdings s"
proof -
  have "t = snd (repush_last_records E s)" using assms by (cases e) (simp_all add: repushes_def session_step_def)
  then show "\<exists>g. bk_frames t = bk_frames s @ g \<and> length g \<le> 1 \<and>
    (\<forall>f \<in> set g. (\<exists>r. f = Order_Frame r \<and> find_latest_order (bk_filter s) = Some r) \<or>
                 (\<exists>r. f = Trade_Frame r \<and> find_latest_trade (bk_filter s) = Some r))"
    and "bk_tasks t = bk_tasks s \<and> bk_seq t = bk_seq s \<and> bk_filter t = bk_filter s \<and> bk_holdings t = bk_holdings s"
    by (auto simp: repush_last_records_def try_op_def pure_op_def write_frame_def Let_def split: option.split write_outcome.split)
qed

lemma new_output_frames:
  assumes "new_output E t (u\<lparr>bk_frames := bk_frames t @ fs\<rparr>) fs ts"
    "bk_tasks s = bk_tasks t" "bk_seq s = bk_seq t" "bk_filter s = bk_filter t" "bk_holdings s = bk_holdings t"
  shows "new_output E s (u\<lparr>bk_frames := bk_frames s @ fs\<rparr>) fs ts"
  using assms by (simp add: new_output_def trade_keys_def holdings_ok_def)

lemma run_output:
  assumes "list_all same_login es"
  shows "bk_seq s \<le> bk_seq (session_run E k s es) \<and>
    (\<exists>ts. new_output E s ((session_run E k s es)\<lparr>bk_frames := bk_frames s @ new_frames E k s es\<rparr>) (new_frames E k s es) ts)"
  using assms
proof (induction es arbitrary: s)
  case Nil
  show ?case by (auto simp: session_run_def new_output_def numbered_def List.map_filter_simps trade_keys_def intro!: exI [of _ "[]"])
next
  case (Cons e es)
  let ?t = "session_step E k s e" and ?u = "session_run E k s (e # es)"
  have u: "?u = session_run E k ?t es" by (simp add: session_run_def)
  obtain ts where ih: "bk_seq ?t \<le> bk_seq ?u" "new_output E ?t (?u\<lparr>bk_frames := bk_frames ?t @ new_frames E k ?t es\<rparr>) (new_frames E k ?t es) ts"
    using Cons unfolding u by fastforce
  show ?case
  proof (cases "repushes e")
    case True
    from repush_frames(2) [OF True refl, of E k s] have r: "bk_tasks s = bk_tasks ?t" "bk_seq s = bk_seq ?t"
      "bk_filter s = bk_filter ?t" "bk_holdings s = bk_holdings ?t" by simp_all
    from new_output_frames [OF ih(2) r] ih(1) r(2) True show ?thesis by auto
  next
    case False
    then have "numbering e" using numbering_or_repush Cons.prems by auto
    from advance_step [OF this, of E s k] obtain fs1 ts1 where a: "bk_seq s \<le> bk_seq ?t" "holdings_ok s \<longrightarrow> holdings_ok ?t"
      "new_output E s ?t fs1 ts1" unfolding advance_def by blast
    have f: "bk_frames ?t = bk_frames s @ fs1" using a(3) by (simp add: new_output_def)
    have "new_output E s (?u\<lparr>bk_frames := bk_frames ?t @ new_frames E k ?t es\<rparr>) (fs1 @ new_frames E k ?t es) (ts1 @ ts)"
      by (rule new_output_append [OF a(3) ih(2) a(1) _ a(2)]) (use ih(1) in simp)
    then show ?thesis using a(1) ih(1) f False by (auto simp: step_frames_def)
  qed
qed

lemma append_in_shuffles:
  "zs \<in> shuffles xs ys \<Longrightarrow> ws @ zs \<in> shuffles (ws @ xs) ys" "zs \<in> shuffles xs ys \<Longrightarrow> ws @ zs \<in> shuffles xs (ws @ ys)"
  by (induction ws) (auto intro: Cons_in_shuffles_leftI Cons_in_shuffles_rightI)

lemma run_frames:
  assumes "list_all same_login es"
  shows "\<exists>fs. bk_frames (session_run E k s es) = bk_frames s @ fs \<and> fs \<in> shuffles (new_frames E k s es) (pushed_again E k s es) \<and>
    length (pushed_again E k s es) \<le> length (filter repushes es)"
  using assms
proof (induction es arbitrary: s)
  case Nil
  show ?case by (simp add: session_run_def)
next
  case (Cons e es)
  let ?t = "session_step E k s e"
  obtain fs where ih: "bk_frames (session_run E k s (e # es)) = bk_frames ?t @ fs" "fs \<in> shuffles (new_frames E k ?t es) (pushed_again E k ?t es)"
    "length (pushed_again E k ?t es) \<le> length (filter repushes es)" using Cons by (fastforce simp: session_run_def)
  obtain g where g: "bk_frames ?t = bk_frames s @ g" "repushes e \<longrightarrow> length g \<le> 1"
  proof (cases "repushes e")
    case True
    from repush_frames(1) [OF True refl, of E k s] show ?thesis using that by blast
  next
    case False
    then have "numbering e" using numbering_or_repush Cons.prems by auto
    from advance_step [OF this, of E s k] show ?thesis using that False by (auto simp: advance_def new_output_def)
  qed
  then have "step_frames E k s e = g" by (simp add: step_frames_def)
  then show ?case using ih g append_in_shuffles [OF ih(2), of g] by auto
qed

end
