(* ===== verification/Td_Session_Facts.thy ===== *)
theory Td_Session_Facts
  imports Td_Session_Props
begin

text \<open>The properties of account sessions, each for a whole run or for an operation in any state.\<close>

section \<open>Concrete environment\<close>

definition sample_env :: "rat env" where
  "sample_env = \<lparr>ev_fp = rat_fp, ev_ids = (\<lambda>n. 1000 + int n), ev_writes = (\<lambda>_. Wrote), ev_rets = (\<lambda>_. 0), ev_timers = (\<lambda>n. Suc n),
     ev_flushes = (\<lambda>_. True), ev_clock = (\<lambda>_. 0), ev_gbk = (\<lambda>s. s), ev_show = (\<lambda>_. [])\<rparr>"

definition sample_ctp_trade :: "string \<Rightarrow> int \<Rightarrow> rat \<Rightarrow> rat ctp_trade" where
  "sample_ctp_trade i v p = \<lparr>ct_instrument_id = ''rb2510'', ct_exchange_id = ''SHFE'', ct_trade_id = i, ct_order_ref = ''000000000001'',
     ct_direction = CHR ''0'', ct_offset = CHR ''0'', ct_price = p, ct_volume = v, ct_trade_time = ''09:30:00''\<rparr>"

definition sample_ctp_order :: "string \<Rightarrow> char \<Rightarrow> int \<Rightarrow> rat ctp_order" where
  "sample_ctp_order ref st traded = \<lparr>co_instrument_id = ''rb2510'', co_exchange_id = ''SHFE'', co_direction = CHR ''0'', co_offset = CHR ''0'',
     co_order_price_type = CHR ''2'', co_order_status = st, co_limit_price = 3500, co_volume_total_original = 10, co_volume_traded = traded,
     co_insert_date = ''20241004'', co_insert_time = ''09:30:00'', co_update_time = ''09:30:01'', co_order_ref = ref, co_order_sys_id = ''77'',
     co_front_id = 1, co_session_id = 2\<rparr>"

section \<open>Numbering\<close>

text \<open>
  C16: Between two successful logins the sequence numbers strictly increase, in every run: the
  frames a session writes are an interleaving of its new frames and of those re-pushed at most once
  per \<open>Ev_Repush\<close>; the numbered new frames (all but the risk frames) have strictly increasing numbers
  above the last one handed out before the run, and so have the rows handed to the database that
  belong to a frame (all but the rebuilt position table and the contracts); and when no write
  fails, those rows are the payloads of new frames, in the order of the frames.
\<close>

theorem session_numbers:
  assumes "list_all same_login es" and "s' = session_run E k s es"
  shows "\<exists>fs ts. bk_frames s' = bk_frames s @ fs \<and> bk_tasks s' = bk_tasks s @ ts \<and>
    fs \<in> shuffles (new_frames E k s es) (pushed_again E k s es) \<and>
    length (pushed_again E k s es) \<le> length (filter repushes es) \<and>
    numbered (bk_seq s) (bk_seq s') (List.map_filter frame_seq (new_frames E k s es)) \<and>
    numbered (bk_seq s) (bk_seq s') (List.map_filter row_seq ts) \<and>
    (all_written E \<longrightarrow> subseq (List.map_filter row_frame ts) (new_frames E k s es))"
proof -
  from run_output [OF assms(1), of s E k] obtain ts where
    "new_output E s (s'\<lparr>bk_frames := bk_frames s @ new_frames E k s es\<rparr>) (new_frames E k s es) ts"
    unfolding assms(2) by blast
  with run_frames [OF assms(1), of E k s] show ?thesis unfolding assms(2) new_output_def by fastforce
qed

definition sample_repush :: "rat session_event list" where
  "sample_repush = [Ev_Trade (sample_ctp_trade ''t'' 1 3500), Ev_Repush, Ev_Trade (sample_ctp_trade ''u'' 2 3501),
     Ev_Trade (sample_ctp_trade ''t'' 1 3500)]"

lemma sample_repush_events: "list_all same_login sample_repush" "length (filter repushes sample_repush) = 1"
  by (simp_all add: sample_repush_def same_login_def repushes_def)

theorem session_numbers_witness:
  "let s = new_session rat_fp ''a''; s' = session_run sample_env 9 s sample_repush
   in bk_frames s' \<in> shuffles (new_frames sample_env 9 s sample_repush) (pushed_again sample_env 9 s sample_repush) \<and>
      length (pushed_again sample_env 9 s sample_repush) \<le> 1 \<and> numbered 0 (bk_seq s') (List.map_filter row_seq (bk_tasks s')) \<and>
      subseq (List.map_filter row_frame (bk_tasks s')) (new_frames sample_env 9 s sample_repush)"
  using session_numbers [of sample_repush _ sample_env 9 "new_session rat_fp ''a''", OF _ refl] sample_repush_events
  by (auto simp: Let_def new_session_def all_written_def sample_env_def)

text \<open>
  C7: A trade is stored at most once and announced as new at most once: in every run between two
  successful logins, re-pushes included, the keys (day, exchange, trade id) of the trade rows are
  distinct and none is the key of a trade loaded at the login; and the trades announced by the new
  frames, those \<open>Ev_Repush\<close> did not write, are payloads of distinct trade rows, in their order.
\<close>

theorem trades_once:
  assumes "list_all same_login es" "bk_filter s = load_filter os trs"
    and "ts = drop (length (bk_tasks s)) (bk_tasks (session_run E k s es))"
  shows "distinct (List.map_filter row_trade ts) \<and> set (List.map_filter row_trade ts) \<inter> trade_key ` set trs = {} \<and>
    subseq (List.map_filter frame_trade (new_frames E k s es)) (List.map_filter row_report ts)"
proof -
  have "trade_keys s = trade_key ` set trs" using assms(2) by (simp add: trade_keys_def load_trades)
  moreover obtain ts' where
    "new_output E s ((session_run E k s es)\<lparr>bk_frames := bk_frames s @ new_frames E k s es\<rparr>) (new_frames E k s es) ts'"
    using run_output [OF assms(1), of s E k] by blast
  moreover from this have "ts = ts'" using assms(3) by (simp add: new_output_def)
  ultimately show ?thesis by (auto simp: new_output_def)
qed

theorem trades_once_witness:
  "let s = new_session rat_fp []; ts = bk_tasks (session_run sample_env 9 s sample_repush)
   in distinct (List.map_filter row_trade ts) \<and>
      subseq (List.map_filter frame_trade (new_frames sample_env 9 s sample_repush)) (List.map_filter row_report ts)"
proof -
  have "bk_filter (new_session rat_fp []) = load_filter [] []" "bk_tasks (new_session rat_fp []) = []"
    by (simp_all add: new_session_def load_filter_def)
  then show ?thesis using trades_once [of sample_repush "new_session rat_fp []" "[]" "[]" _ sample_env 9] sample_repush_events(1) by (simp add: Let_def)
qed

section \<open>Positions\<close>

definition sane :: "('d, 'm) book_scheme \<Rightarrow> bool" where
  "sane s \<longleftrightarrow> holdings_ok s \<and> (\<forall>f \<in> set (bk_frames s). list_all info_ok (frame_positions f)) \<and>
     (\<forall>t \<in> set (bk_tasks s). list_all info_ok (row_positions t))"

lemma sane_advance: "advance E s s' \<Longrightarrow> sane s \<Longrightarrow> sane s'"
  unfolding advance_def new_output_def sane_def by auto

lemma sane_login: "sane s \<Longrightarrow> sane (snd (on_rsp_user_login E db n f s))"
proof -
  assume s: "sane s"
  define s1 where "s1 = cancel_login_timer s"
  have s1: "sane s1" unfolding s1_def by (rule sane_advance [OF advance_session(7) s])
  define s2 where "s2 = (case lr_user f of None \<Rightarrow> s1
    | Some (max_ref, day, time) \<Rightarrow> s1\<lparr>ss_order_ref := sync_order_ref (ss_order_ref s1) (parse_max_order_ref (Some max_ref))\<rparr>)"
  have s2: "sane s2" using s1 by (auto simp: s2_def intro: sane_advance [OF advance_session_fields(12)] split: option.split prod.split)
  obtain ok s3 where a: "(if lr_days f \<noteq> - 2147483648 then set_trading_day E (lr_days f) else pure_op id) s2 = (ok, s3)" by fastforce
  have s3: "sane s3" using a s2 sane_advance [OF advance_set_trading_day, of s2 E "lr_days f"] by (auto simp: pure_op_def split: if_splits)
  show ?thesis
  proof (cases "failed (lr_info f)")
    case True
    from sane_advance [OF advance_login_failed [OF True] s] show ?thesis .
  next
    case False
    obtain ok' s4 where b: "load_trading_day_baseline db n s3 = (ok', s4)" by fastforce
    have s4: "sane s4" using b s3 by (auto simp: load_trading_day_baseline_def sane_def holdings_ok_def split: option.splits)
    have m: "sane (machine g s4)" for g by (rule sane_advance [OF advance_session(1) s4])
    have "sane (req_settlement_confirm E (machine g s4))" for g by (rule sane_advance [OF advance_session(12) m])
    with m s3 False show ?thesis
      by (simp add: on_rsp_user_login_def Let_def s1_def [symmetric] s2_def [symmetric] and_then_def a b split: option.split prod.split)
  qed
qed

lemma sane_repush: "sane s \<Longrightarrow> sane (snd (repush_last_records E s))"
  by (auto simp: repush_last_records_def sane_def holdings_ok_def try_op_def pure_op_def write_frame_def Let_def
      split: option.split write_outcome.split)

lemma sane_step: "sane s \<Longrightarrow> sane (session_step E k s e)"
  using sane_login sane_repush sane_advance [OF advance_step, of e s E k]
  by (cases "numbering e") (auto simp: numbering_def session_step_def split: session_event.splits)

interpretation sane: invariant_run "session_step E k" sane for E k
  by unfold_locales (rule sane_step)

text \<open>
  C26: Every position an account session ever writes to the channel or hands to the database is
  consistent: today's and yesterday's volumes are not negative and sum up to the volume, and the
  frozen volume is between zero and the volume, whatever trades, orders, queries and day switches
  arrived in whatever order.
\<close>

theorem positions_sane:
  "let s = session_run E k (new_session F account) es
   in holdings_ok s \<and> list_all (\<lambda>f. list_all info_ok (frame_positions f)) (bk_frames s) \<and>
      list_all (\<lambda>t. list_all info_ok (row_positions t)) (bk_tasks s)"
proof -
  have "sane (new_session F account)" by (simp add: sane_def new_session_def holdings_ok_def)
  from sane.run_inv [OF this, of E k es] show ?thesis by (simp add: session_run_def sane_def list_all_iff)
qed

section \<open>External orders\<close>

text \<open>An order that was not placed here is marked as external by its first report and as local by the next one.\<close>

lemma external_mark_lost:
  assumes "find_by_order_ref (bk_refs s) (co_order_ref c) = None" "co_order_ref c' = co_order_ref c"
  shows "orec_is_external (fst (identify_order E c r s)) = 1 \<and>
         orec_is_external (fst (identify_order E c' r' (snd (identify_order E c r s)))) = 0"
  using assms by (simp add: identify_order_def Let_def find_insert_ref insert_by_sys_id_def find_by_order_ref_def map_refs_def insert_by_order_ref_def)

end
