(* ===== verification/Td_Ready.thy ===== *)
theory Td_Ready
  imports Td_Session_Facts
begin

text \<open>
  How an account becomes Ready: only after the buffered reports were replayed and the flush of the
  database was waited for; and when reports are buffered at all.
\<close>

section \<open>The invariant of the login chain\<close>

definition chain_ok :: "('d, 'm) session_scheme \<Rightarrow> bool" where
  "chain_ok s \<longleftrightarrow> finalizer_ok (ss_finalizer s) \<and> fin_phase (ss_finalizer s) \<in> {Query_Position, Query_Account, Done_Phase} \<and>
     \<not> bk_replaying s \<and>
     (bk_buf_orders s \<noteq> [] \<or> bk_buf_trades s \<noteq> [] \<longrightarrow> tm_state (bk_machine s) \<in> {LoggedIn, Confirming, LoadingInstruments})"

text \<open>A step that does not end the login.\<close>

definition plain :: "('d, 'm) session_scheme \<Rightarrow> ('d, 'm) session_scheme \<Rightarrow> bool" where
  "plain s s' \<longleftrightarrow> ss_flush_calls s' = ss_flush_calls s \<and> (chain_ok s \<longrightarrow> chain_ok s') \<and> (is_ready s' \<longrightarrow> is_ready s)"

definition chain :: "('d, 'm) session_scheme \<Rightarrow> ('d, 'm) session_scheme \<Rightarrow> bool" where
  "chain s s' \<longleftrightarrow> ss_flush_calls s \<le> ss_flush_calls s' \<and>
     (chain_ok s \<longrightarrow> chain_ok s' \<and> (is_ready s' \<longrightarrow> is_ready s \<or> ss_flush_calls s < ss_flush_calls s'))"

interpretation pln: effect_order plain
  by unfold_locales (auto simp: plain_def)

interpretation chn: effect_order chain
proof
  fix s t u :: "('a, 'b) session_scheme"
  show "chain s s" by (simp add: chain_def)
  assume "chain s t" "chain t u"
  then show "chain s u" unfolding chain_def by (meson le_trans less_le_trans le_less_trans)
qed

lemma plain_chain: "plain s t \<Longrightarrow> chain s t"
  by (auto simp: plain_def chain_def)

lemma steady_plain:
  fixes s t :: "('d, 'm) session_scheme"
  assumes "steady s t"
  shows "plain s t"
proof -
  from assms have "book.more t = book.more s" "bk_machine t = bk_machine s" "bk_buf_orders t = bk_buf_orders s"
    "bk_buf_trades t = bk_buf_trades s" "bk_replaying t = bk_replaying s" by (simp_all add: steady_def)
  moreover from this(1) have "ss_finalizer t = ss_finalizer s" "ss_flush_calls t = ss_flush_calls s" by (cases s; cases t; simp)+
  ultimately show ?thesis by (simp add: plain_def chain_ok_def is_ready_def)
qed

lemmas plain_defs = plain_def chain_ok_def is_ready_def

lemma plain_machine:
  "plain s (machine on_connect s)" "plain s (machine on_front_connected s)" "plain s (machine on_connect_timeout s)"
  "plain s (machine on_req_authenticate s)" "plain s (machine on_authenticate_success s)" "plain s (machine on_authenticate_failed s)"
  "plain s (machine on_req_login s)" "plain s (machine (on_login_success v d t) s)" "plain s (machine on_login_failed s)"
  "plain s (machine on_req_settlement_confirm s)" "plain s (machine on_settlement_confirmed s)"
  "plain s (machine (on_settlement_confirm_failed e) s)" "plain s (machine (on_instruments_load_failed e) s)"
  by (auto simp: plain_defs machine_def td_handler_defs Let_def)

lemma plain_fields:
  "plain s (snd (api_call E q s))" "plain s (next_request_id s)" "plain s (schedule_ignored E ms cb s)" "plain s (log_requests qs s)"
  "plain s (cancel_connect_timer s)" "plain s (cancel_login_timer s)" "plain s (cancel_load_timer s)" "plain s (cancel_poll_timer s)"
  "plain s (schedule_position_poll E s)" "plain s (map_refs h s)" "plain s (add_query_row E p s)" "plain s (record_instrument E c s)"
  "plain s (s\<lparr>ss_login_timer := n\<rparr>)" "plain s (s\<lparr>ss_load_timer := n\<rparr>)" "plain s (s\<lparr>ss_query_gen := n\<rparr>)" "plain s (s\<lparr>ss_data_ok := b\<rparr>)"
  "plain s (s\<lparr>ss_account_ok := b\<rparr>)" "plain s (s\<lparr>ss_position_ok := b\<rparr>)" "plain s (s\<lparr>ss_in_flight := b\<rparr>)" "plain s (s\<lparr>ss_rebuild_consumed := b\<rparr>)"
  "plain s (s\<lparr>ss_in_flight := b, ss_position_ok := b'\<rparr>)" "plain s (s\<lparr>ss_poll_timer := n\<rparr>)" "plain s (s\<lparr>ss_order_ref := i\<rparr>)"
  "plain s (s\<lparr>ss_query_request_id := i\<rparr>)" "plain s (s\<lparr>ss_pushed_states := st\<rparr>)" "plain s (s\<lparr>ss_risk := g\<rparr>)"
  "plain s (s\<lparr>ss_position_ok := b, ss_account_ok := b', ss_finalizer := new_finalizer\<rparr>)"
  "plain s (s\<lparr>bk_baseline_ready := b, ss_finalizer := new_finalizer, ss_position_ok := b', ss_account_ok := b'', ss_rebuild_consumed := b'''\<rparr>)"
  "plain s (s\<lparr>ss_token := n, ss_query_gen := n', ss_agg := a, ss_rebuild_consumed := b, ss_in_flight := b'\<rparr>)"
  "plain s (s\<lparr>bk_seq := n, bk_filter := f, bk_avgs := av\<rparr>)"
  by (simp_all add: plain_defs session_defs schedule_position_poll_def map_refs_def add_query_row_def record_instrument_def
      enqueue_task_def new_finalizer_def finalizer_ok_def less_eq_phase_def)

lemma plain_position_done: "plain s (s\<lparr>ss_finalizer := on_position_done (ss_finalizer s), ss_position_ok := b\<rparr>)"
    "plain s (s\<lparr>ss_finalizer := on_position_done (ss_finalizer s)\<rparr>)"
  by (auto simp: plain_defs) (auto simp: on_position_done_def)

lemma plain_schedule:
  "plain s (snd (schedule E ms cb s))" by (simp add: plain_defs session_defs)

lemma plain_requests:
  "plain s (req_authenticate E s)" "plain s (req_login E s)" "plain s (req_settlement_confirm E s)" "plain s (req_qry_instrument E s)"
  by (auto simp: req_authenticate_def req_login_def req_settlement_confirm_def req_qry_instrument_def plain_defs session_defs
      td_handler_defs)

lemma machine_state_set_version [simp]: "tm_state (set_api_version v m) = tm_state m"
  by (simp add: set_api_version_def upd_status_def tm_state_def)

lemma plain_open: "plain s (snd (open_session E created v dir fronts broker user pw auth app s))"
  by (auto simp: open_session_def plain_defs session_defs td_handler_defs tm_state_def upd_status_def set_state_def enter_state_def
      progress_def split: if_splits)

lemma plain_close: "plain s (disconnect_session s)" "plain s (on_session_disconnected r s)"
  by (auto simp: disconnect_session_def on_session_disconnected_def plain_defs session_defs td_handler_defs
      new_finalizer_def finalizer_ok_def less_eq_phase_def)

lemma plain_interval: "plain s (set_position_poll_interval E n s)"
  by (auto simp: set_position_poll_interval_def plain_defs session_defs schedule_position_poll_def)

section \<open>The end of the login\<close>

text \<open>
  What the replay has to do: every buffered order report and then every buffered trade is handled
  by the handler that would have taken it, in the order of arrival, and leaves the buffer. An
  exception of one handler does not stop the others.
\<close>

definition pop_order :: "('d, 'm) book_scheme \<Rightarrow> ('d, 'm) book_scheme" where
  "pop_order s = s\<lparr>bk_buf_orders := tl (bk_buf_orders s)\<rparr>"

definition pop_trade :: "('d, 'm) book_scheme \<Rightarrow> ('d, 'm) book_scheme" where
  "pop_trade s = s\<lparr>bk_buf_trades := tl (bk_buf_trades s)\<rparr>"

definition handle_orders :: "'d env \<Rightarrow> 'd ctp_order list \<Rightarrow> ('d, 'm) book_scheme \<Rightarrow> ('d, 'm) book_scheme" where
  "handle_orders E = fold (\<lambda>c s. pop_order (snd (process_order E c s)))"

definition handle_trades :: "'d env \<Rightarrow> 'd ctp_trade list \<Rightarrow> ('d, 'm) book_scheme \<Rightarrow> ('d, 'm) book_scheme" where
  "handle_trades E = fold (\<lambda>c s. pop_trade (snd (process_trade E c s)))"

definition handle_buffered :: "'d env \<Rightarrow> ('d, 'm) book_scheme \<Rightarrow> ('d, 'm) book_scheme" where
  "handle_buffered E s =
     (handle_trades E (bk_buf_trades s) (handle_orders E (bk_buf_orders s) (s\<lparr>bk_replaying := True\<rparr>)))\<lparr>bk_replaying := False\<rparr>"

lemma replay_next_handles:
  assumes "bk_replaying s"
  shows "replay_next_order E k c s = (True, pop_order (snd (process_order E c s)))"
    and "replay_next_trade E k d s = (True, pop_trade (snd (process_trade E d s)))"
  using assms by (simp_all add: replay_next_order_def replay_next_trade_def on_rtn_order_def on_rtn_trade_def and_then_def try_op_def
      pure_op_def pop_order_def pop_trade_def)

lemma still_replaying:
  assumes "bk_replaying s"
  shows "bk_replaying (pop_order (snd (process_order E c s)))" "bk_replaying (pop_trade (snd (process_trade E d s)))"
  using assms steady_process_order [of s E c] steady_process_trade [of s E d] by (simp_all add: steady_def pop_order_def pop_trade_def)

lemma each_handles:
  assumes "bk_replaying s"
  shows "each (replay_next_order E k) cs s = (True, handle_orders E cs s)" and "bk_replaying (handle_orders E cs s)"
    and "each (replay_next_trade E k) ds s = (True, handle_trades E ds s)"
proof -
  show "each (replay_next_order E k) cs s = (True, handle_orders E cs s)" "bk_replaying (handle_orders E cs s)"
    using assms by (induction cs arbitrary: s) (simp_all add: handle_orders_def and_then_def replay_next_handles still_replaying)
  show "each (replay_next_trade E k) ds s = (True, handle_trades E ds s)"
    using assms by (induction ds arbitrary: s) (simp_all add: handle_trades_def and_then_def replay_next_handles still_replaying)
qed

lemma replay_handles:
  assumes "\<not> bk_replaying s"
  shows "replay_buffered_reports E k s = (True, handle_buffered E s)"
proof (cases "bk_buf_orders s = [] \<and> bk_buf_trades s = []")
  case True
  then show ?thesis using assms by (simp add: replay_buffered_reports_def handle_buffered_def handle_orders_def handle_trades_def)
next
  case False
  show ?thesis
    unfolding replay_buffered_reports_def if_not_P [OF False]
    by (simp add: and_then_def [of "pure_op _"] and_then_def [of "each _ _"] pure_op_def each_handles handle_buffered_def)
qed

text \<open>The end of a login in a state \<open>p\<close>: the reports, the flush of the database, the turn.\<close>

definition turn_ready :: "'d env \<Rightarrow> ('d, 'm) session_scheme \<Rightarrow> ('d, 'm) session_scheme" where
  "turn_ready E s = schedule_position_poll E (if tm_state (bk_machine s) = LoadingInstruments then machine on_instruments_loaded s else s)"

definition end_login :: "'d env \<Rightarrow> ('d, 'm) session_scheme \<Rightarrow> ('d, 'm) session_scheme" where
  "end_login E p = step_finalizer (turn_ready E (step_finalizer (flush_barrier E (step_finalizer (handle_buffered E p)))))"

lemma on_account_done_phase:
  assumes "finalizer_ok f" "fin_phase f \<in> {Query_Position, Query_Account, Done_Phase}"
  shows "on_account_done f = f \<or> (fin_phase (on_account_done f) = Replay \<and> finalizer_ok (on_account_done f))"
  using assms finalizer_ok_steps(3) [OF assms(1)] by (auto simp: on_account_done_def)

text \<open>From the phase after both queries the loop replays, flushes and turns the state.\<close>

lemma drive_from_replay:
  fixes s :: "('d, 'm) session_scheme"
  assumes "fin_phase (ss_finalizer s) = Replay" "finalizer_ok (ss_finalizer s)" "\<not> bk_replaying s"
  shows "\<exists>t. drive_finalizer E k s = (True, t) \<and> t = end_login E s \<and> ss_flush_calls t = ss_flush_calls s + 1 \<and> fin_phase (ss_finalizer t) = Done_Phase \<and>
    finalizer_ok (ss_finalizer t) \<and> \<not> bk_replaying t \<and> bk_buf_orders t = [] \<and> bk_buf_trades t = [] \<and>
    (tm_state (bk_machine s) = LoadingInstruments \<longrightarrow> is_ready t)"
proof -
  obtain u where u: "replay_buffered_reports E k s = (True, u)" "bk_buf_orders u = []" "bk_buf_trades u = []" "\<not> bk_replaying u"
    using replay_buffered [OF assms(3), of E k] by blast
  have l: "loose s u" using loose_replay_buffered [of s E k] u(1) by simp
  then have f: "ss_finalizer u = ss_finalizer s" "ss_flush_calls u = ss_flush_calls s"
    by (cases s; cases u; simp add: loose_def)+
  have m: "bk_machine u = bk_machine s" using l by (simp add: loose_def)
  have h: "u = handle_buffered E s" using replay_handles [OF assms(3), of E k] u(1) by simp
  define v where "v = step_finalizer (flush_barrier E (step_finalizer u))"
  define w where "w = step_finalizer (schedule_position_poll E
      (if tm_state (bk_machine v) = LoadingInstruments then machine on_instruments_loaded v else v))"
  have v: "fin_phase (ss_finalizer v) = Ready_Phase" "ss_flush_calls v = ss_flush_calls s + 1" "\<not> bk_replaying v"
    "bk_buf_orders v = []" "bk_buf_trades v = []" "finalizer_ok (ss_finalizer v)"
    using assms(1,2) u f finalizer_ok_steps(4)
    by (simp_all add: v_def step_finalizer_def flush_barrier_def finalizer_next_def finalizer_ok_def less_eq_phase_def)
  have w: "fin_phase (ss_finalizer w) = Done_Phase" "ss_flush_calls w = ss_flush_calls s + 1" "\<not> bk_replaying w"
    "bk_buf_orders w = []" "bk_buf_trades w = []" "finalizer_ok (ss_finalizer w)"
    using v by (simp_all add: w_def step_finalizer_def schedule_position_poll_def machine_def finalizer_next_def
        finalizer_ok_def less_eq_phase_def Let_def)
  have r: "tm_state (bk_machine s) = LoadingInstruments \<longrightarrow> is_ready w"
    using m by (simp add: w_def v_def step_finalizer_def flush_barrier_def schedule_position_poll_def machine_def is_ready_def
        on_instruments_loaded_def notify_def Let_def)
  have "drive_finalizer E k s = drive_finalizer E k (step_finalizer u)"
    using assms(1) u(1) by (simp add: drive_finalizer.simps [of E k s] finalizer_action_def)
  also have "\<dots> = drive_finalizer E k v"
  proof -
    have "fin_phase (ss_finalizer (step_finalizer u)) = Flush" using assms(1) f by (simp add: step_finalizer_def finalizer_next_def)
    then show ?thesis by (simp add: drive_finalizer.simps [of E k "step_finalizer u"] finalizer_action_def v_def)
  qed
  also have "\<dots> = drive_finalizer E k w"
    using v(1) by (simp add: drive_finalizer.simps [of E k v] finalizer_action_def w_def)
  also have "\<dots> = (True, w)" using w(1) by (simp add: drive_finalizer.simps [of E k w])
  finally show ?thesis using w r by (auto simp: end_login_def turn_ready_def w_def v_def h)
qed

text \<open>Whatever phase the chain is in, finishing the account query advances it correctly.\<close>

lemma chain_account_done:
  assumes "t = s\<lparr>ss_finalizer := on_account_done (ss_finalizer s), ss_account_ok := b\<rparr> \<or> t = s\<lparr>ss_finalizer := on_account_done (ss_finalizer s)\<rparr>"
  shows "chain s (snd (finalize_login E k t))"
proof (cases "chain_ok s")
  case False
  have mono: "ss_flush_calls x \<le> ss_flush_calls (snd (drive_finalizer E k x))" for x :: "('a, 'b) session_scheme"
  proof (induction E k x rule: drive_finalizer.induct)
    case (1 E k x)
    show ?case
    proof (cases "fin_phase (ss_finalizer x) \<in> {Query_Position, Query_Account, Done_Phase}")
      case True
      then show ?thesis by (simp add: drive_finalizer.simps [of E k x])
    next
      case False
      obtain ok y where a: "finalizer_action E k x = (ok, y)" by fastforce
      have "loose x z \<Longrightarrow> ss_flush_calls z = ss_flush_calls x" for z by (cases x; cases z; simp add: loose_def)
      then have "ss_flush_calls x \<le> ss_flush_calls y"
        using a loose_replay_buffered [of x E k] False
        by (auto simp: finalizer_action_def flush_barrier_def schedule_position_poll_def machine_def Let_def split: phase.splits if_splits)
      moreover have "ok \<Longrightarrow> ss_flush_calls y \<le> ss_flush_calls (snd (drive_finalizer E k (step_finalizer y)))"
        using 1 [OF False a [symmetric]] by (simp add: step_finalizer_def)
      ultimately show ?thesis using False by (simp add: drive_finalizer.simps [of E k x] a) (metis le_trans)
    qed
  qed
  have "ss_flush_calls t = ss_flush_calls s" using assms by auto
  then have "ss_flush_calls s \<le> ss_flush_calls (snd (finalize_login E k t))"
    using mono [of "t\<lparr>ss_data_ok := ss_position_ok t \<and> ss_account_ok t\<rparr>"] by (simp add: finalize_login_def)
  then show ?thesis using False by (simp add: chain_def)
next
  case True
  then have ok: "finalizer_ok (ss_finalizer s)" "fin_phase (ss_finalizer s) \<in> {Query_Position, Query_Account, Done_Phase}"
    "\<not> bk_replaying s" by (simp_all add: chain_ok_def)
  have t: "ss_finalizer t = on_account_done (ss_finalizer s)" "bk_replaying t = bk_replaying s" "ss_flush_calls t = ss_flush_calls s"
    "bk_machine t = bk_machine s" "bk_buf_orders t = bk_buf_orders s" "bk_buf_trades t = bk_buf_trades s" using assms by auto
  let ?t = "t\<lparr>ss_data_ok := ss_position_ok t \<and> ss_account_ok t\<rparr>"
  show ?thesis
  proof (cases "on_account_done (ss_finalizer s) = ss_finalizer s")
    case same: True
    have "snd (finalize_login E k t) \<in> {t, ?t}"
      using ok(2) by (auto simp: finalize_login_def t same drive_finalizer.simps [of E k ?t])
    then show ?thesis using True by (auto simp: chain_def chain_ok_def is_ready_def t same)
  next
    case False
    then have r: "fin_phase (ss_finalizer ?t) = Replay" "finalizer_ok (ss_finalizer ?t)" "\<not> bk_replaying ?t"
      using on_account_done_phase [OF ok(1,2)] ok(3) t by simp_all
    moreover have "can_reach_ready (ss_finalizer t)" using r can_reach_iff [of "ss_finalizer t"] by simp
    ultimately show ?thesis
      using drive_from_replay [of ?t E k] t by (auto simp: finalize_login_def chain_def chain_ok_def)
  qed
qed
lemma chain_account_failed: "chain s (snd (account_failed E k s))"
  unfolding account_failed_def by (rule chain_account_done [where b = False]) simp

lemma chain_req_account: "chain s (snd (req_qry_trading_account E k s))"
proof -
  define t where "t = s\<lparr>ss_query_gen := ss_generation s\<rparr>"
  define q where "q = (Call_Qry_Account (ss_request_id (next_request_id t)) :: 'a request)"
  obtain ret u where a: "api_call E q (next_request_id t) = (ret, u)" by fastforce
  have t: "chain s t" unfolding t_def by (rule plain_chain [OF plain_fields(15)])
  have "chain (next_request_id t) u" using plain_chain [OF plain_fields(1) [of "next_request_id t" E q]] a by simp
  then have u: "chain s u" by (rule chn.trans [OF chn.trans [OF t plain_chain [OF plain_fields(2)]]])
  note ign = chn.trans [OF u plain_chain [OF plain_fields(3)]]
  have "snd (req_qry_trading_account E k s) \<in>
      {snd (account_failed E k t), snd (account_failed E k u), schedule_ignored E 1500 (Retry_Qry_Account (ss_generation u)) u,
       schedule_ignored E (if is_ready u then 90000 else 300000) (Qry_Account_Expired (ss_generation u)) u}"
    using a by (simp add: req_qry_trading_account_def t_def [symmetric] q_def Let_def)
  then show ?thesis
    using ign chn.trans [OF t chain_account_failed] chn.trans [OF u chain_account_failed] by auto
qed

lemma chain_position_failed: "chain s (snd (position_failed E k s))"
  unfolding position_failed_def by (rule chn.trans [OF plain_chain [OF plain_position_done(1)] chain_req_account])

lemma chain_req_position: "chain s (snd (req_qry_investor_position E k lc s))"
proof -
  define t where "t = s\<lparr>ss_token := ss_token s + 1, ss_query_gen := ss_generation s, ss_agg := [], ss_rebuild_consumed := False, ss_in_flight := True\<rparr>"
  define q where "q = (Call_Qry_Position (ss_request_id (next_request_id t)) :: 'a request)"
  define t2 where "t2 = (next_request_id t)\<lparr>ss_query_request_id := ss_request_id (next_request_id t)\<rparr>"
  obtain ret u where a: "api_call E q t2 = (ret, u)" by fastforce
  have t: "chain s t" unfolding t_def by (rule plain_chain [OF plain_fields(29)])
  have t2: "chain s t2"
    unfolding t2_def by (rule chn.trans [OF chn.trans [OF t plain_chain [OF plain_fields(2)]] plain_chain [OF plain_fields(24)]])
  have "chain t2 u" using plain_chain [OF plain_fields(1) [of t2 E q]] a by simp
  then have u: "chain s u" by (rule chn.trans [OF t2])
  note off = chn.trans [OF t plain_chain [OF plain_fields(19)]] chn.trans [OF u plain_chain [OF plain_fields(19)]]
  have "snd (req_qry_investor_position E k lc s) \<in>
      {t\<lparr>ss_in_flight := False\<rparr>, u\<lparr>ss_in_flight := False\<rparr>, snd (position_failed E k (t\<lparr>ss_in_flight := False\<rparr>)),
       snd (position_failed E k (u\<lparr>ss_in_flight := False\<rparr>)),
       schedule_ignored E 1500 (Retry_Qry_Position (ss_generation u)) (u\<lparr>ss_in_flight := False\<rparr>),
       schedule_ignored E (if is_ready u then 90000 else 300000) (Qry_Position_Expired (ss_generation u) (ss_token u) lc) u}"
    unfolding req_qry_investor_position_def Let_def t_def [symmetric] t2_def [symmetric] q_def [symmetric] a prod.case by auto
  then show ?thesis
    using off chn.trans [OF off(1) chain_position_failed] chn.trans [OF off(2) chain_position_failed]
      chn.trans [OF off(2) plain_chain [OF plain_fields(3)]] chn.trans [OF u plain_chain [OF plain_fields(3)]] by auto
qed

lemma chain_resync: "chain s (snd (resync_account_data E k s))"
  by (auto simp: resync_account_data_def chn.refl intro: chn.trans [OF plain_chain [OF plain_fields(27)] chain_req_position])

lemma chain_poll_timer: "chain s (snd (on_position_poll_timer E k s))"
proof -
  define t where "t = s\<lparr>ss_poll_timer := 0\<rparr>"
  have t: "chain s t" unfolding t_def by (rule plain_chain [OF plain_fields(22)])
  have "chain t (snd (on_position_poll_timer E k s))"
    unfolding on_position_poll_timer_def Let_def t_def [symmetric]
    by (auto simp: chn.refl chain_req_position plain_chain [OF plain_fields(9)] intro!: chn.and_then chn.pure_op)
  then show ?thesis by (rule chn.trans [OF t])
qed
section \<open>Handlers\<close>

lemma plain_connected: "plain s (on_session_connected E s)"
proof -
  define t where "t = machine on_front_connected (cancel_connect_timer s)"
  have t: "plain s t"
    unfolding t_def by (rule pln.trans [OF plain_fields(5) plain_machine(2)])
  show ?thesis
    using pln.trans [OF t plain_requests(1)] pln.trans [OF t plain_requests(2)]
    by (simp add: on_session_connected_def t_def [symmetric] Let_def)
qed

lemma plain_authenticate: "plain s (on_rsp_authenticate E i s)"
proof -
  define t where "t = cancel_login_timer s"
  have t: "plain s t" unfolding t_def by (rule plain_fields(6))
  note ok = pln.trans [OF t plain_machine(5)]
  show ?thesis
    using pln.trans [OF t plain_machine(6)] pln.trans [OF ok plain_requests(2)]
    by (simp add: on_rsp_authenticate_def t_def [symmetric] Let_def)
qed

lemma plain_confirm: "plain s (on_rsp_settlement_confirm E i s)"
  by (simp add: on_rsp_settlement_confirm_def plain_machine(12)
      pln.trans [OF plain_machine(11) plain_requests(4)])

lemma plain_load_baseline: "plain s (snd (load_trading_day_baseline db n s))"
  by (simp add: load_trading_day_baseline_def pln.refl plain_fields(30) split: option.split)

lemma plain_login: "plain s (snd (on_rsp_user_login E db n f s))"
proof -
  define s1 where "s1 = cancel_login_timer s"
  have s1: "plain s s1" unfolding s1_def by (rule plain_fields(6))
  define s2 where "s2 = (case lr_user f of None \<Rightarrow> s1
    | Some (max_ref, day, time) \<Rightarrow> s1\<lparr>ss_order_ref := sync_order_ref (ss_order_ref s1) (parse_max_order_ref (Some max_ref))\<rparr>)"
  have "plain s1 s2" by (auto simp: s2_def intro: pln.refl plain_fields(23) split: option.split prod.split)
  then have s2: "plain s s2" by (rule pln.trans [OF s1])
  obtain ok s3 where a: "(if lr_days f \<noteq> - 2147483648 then set_trading_day E (lr_days f) else pure_op id) s2 = (ok, s3)" by fastforce
  have "plain s2 s3" using a steady_plain [OF steady_set_trading_day [of s2 E "lr_days f"]]
    by (auto simp: pure_op_def pln.refl split: if_splits)
  then have s3: "plain s s3" by (rule pln.trans [OF s2])
  obtain ok' s4 where b: "load_trading_day_baseline db n s3 = (ok', s4)" by fastforce
  have s4: "plain s s4" using pln.trans [OF s3 plain_load_baseline [of s3 db n]] b by simp
  have "plain s (machine on_login_failed s1)" "plain s (machine on_login_failed s4)"
    "\<And>v d tm. plain s (req_settlement_confirm E (machine (on_login_success v d tm) s4))"
    using pln.trans [OF s1 plain_machine(9)] pln.trans [OF s4 plain_machine(9)]
      pln.trans [OF pln.trans [OF s4 plain_machine(8)] plain_requests(3)] by blast+
  with s3 show ?thesis
    by (simp add: on_rsp_user_login_def Let_def s1_def [symmetric] s2_def [symmetric] and_then_def a b split: option.split prod.split)
qed

lemma chain_instrument: "chain s (snd (on_rsp_qry_instrument E k c i l s))"
proof (cases "ss_query_gen s = ss_generation s")
  case True
  define t where "t = (case c of None \<Rightarrow> s | Some c \<Rightarrow> record_instrument E c s)"
  have t: "chain s t" by (simp add: t_def chn.refl plain_chain [OF plain_fields(12)] split: option.split)
  note off = chn.trans [OF t plain_chain [OF plain_fields(7)]]
  have 1: "chain s (machine (on_instruments_load_failed e) (cancel_load_timer t))" for e
    by (rule chn.trans [OF off plain_chain [OF plain_machine(13)]])
  have 2: "chain s (snd (req_qry_investor_position E k True ((cancel_load_timer t)\<lparr>bk_baseline_ready := False,
      ss_finalizer := new_finalizer, ss_position_ok := False, ss_account_ok := False, ss_rebuild_consumed := False\<rparr>)))"
    by (rule chn.trans [OF chn.trans [OF off plain_chain [OF plain_fields(28)]] chain_req_position])
  show ?thesis
    using True t 1 2 unfolding on_rsp_qry_instrument_def Let_def t_def [symmetric] by simp
qed (simp add: on_rsp_qry_instrument_def chn.refl)

lemma steady_push_account: "steady s (snd (push_account E a s))"
  unfolding push_account_def Let_def
  by (rule std.trans [OF steady_upd(2)], rule std.and_then, rule steady_write, rule std.pure_op, rule steady_upd)

lemma chain_finish_account: "chain s (snd (finish_account_query E k i s))"
proof -
  define t where "t = s\<lparr>ss_account_ok := \<not> has_error i\<rparr>"
  have t: "chain s t" unfolding t_def by (rule plain_chain [OF plain_fields(17)])
  have "chain t (snd (finalize_login E k (t\<lparr>ss_finalizer := on_account_done (ss_finalizer t)\<rparr>)))"
    by (rule chain_account_done) simp
  with t show ?thesis using chn.trans [OF t] by (simp add: finish_account_query_def t_def [symmetric] Let_def)
qed

lemma chain_account: "chain s (snd (on_rsp_qry_trading_account E k a i l s))"
  unfolding on_rsp_qry_trading_account_def
  by (auto simp: chn.refl plain_chain [OF steady_plain [OF steady_push_account]] chain_finish_account
      intro!: chn.try_op chn.and_then split: option.split) (simp_all add: pure_op_def chn.refl)

lemma chain_finish_position: "chain s (snd (finish_position_query E k i s))"
proof -
  have 1: "chain t (snd (apply_position_query E (ss_agg t) (t\<lparr>ss_rebuild_consumed := True\<rparr>)))" for t :: "('a, 'b) session_scheme"
    by (rule chn.trans [OF plain_chain [OF plain_fields(20)] plain_chain [OF steady_plain [OF steady_position_query]]])
  have 2: "chain t (snd (req_qry_trading_account E k (t\<lparr>ss_finalizer := on_position_done (ss_finalizer t)\<rparr>)))" for t :: "('a, 'b) session_scheme"
    by (rule chn.trans [OF plain_chain [OF plain_position_done(2)] chain_req_account])
  define t where "t = s\<lparr>ss_in_flight := False, ss_position_ok := \<not> has_error i\<rparr>"
  have "chain t (snd (finish_position_query E k i s))"
    unfolding finish_position_query_def t_def [symmetric]
    by (rule chn.and_then) (simp_all add: 1 2 chn.refl)
  then show ?thesis unfolding t_def by (rule chn.trans [OF plain_chain [OF plain_fields(21)]])
qed

lemma chain_position: "chain s (snd (on_rsp_qry_investor_position E k p i r l s))"
proof -
  define t where "t = (case p of None \<Rightarrow> s | Some p \<Rightarrow> if cp_position p > 0 \<or> cp_yd_position p > 0 then add_query_row E p s else s)"
  have t: "chain s t" by (simp add: t_def chn.refl plain_chain [OF plain_fields(11)] split: option.split)
  have "chain t (snd (try_op (if l then finish_position_query E k i else pure_op id) t))"
    by (rule chn.try_op) (simp add: chain_finish_position pure_op_def chn.refl)
  then show ?thesis using chn.trans [OF t] by (simp add: on_rsp_qry_investor_position_def chn.refl Let_def t_def [symmetric])
qed

text \<open>Reports are buffered while the contracts are loading and handled otherwise.\<close>

lemma chain_reports: "chain s (snd (on_rtn_order E k c s))" "chain s (snd (on_rtn_trade E k d s))"
proof -
  show "chain s (snd (on_rtn_order E k c s))"
    by (cases "tm_state (bk_machine s) = LoadingInstruments \<and> \<not> bk_replaying s")
       (auto simp: on_rtn_order_def try_op_def plain_chain [OF steady_plain [OF steady_process_order]],
        simp add: chain_def chain_ok_def is_ready_def buffer_order_rpt_def)
  show "chain s (snd (on_rtn_trade E k d s))"
    by (cases "tm_state (bk_machine s) = LoadingInstruments \<and> \<not> bk_replaying s")
       (auto simp: on_rtn_trade_def try_op_def plain_chain [OF steady_plain [OF steady_process_trade]],
        simp add: chain_def chain_ok_def is_ready_def buffer_trade_rpt_def)
qed

lemma steady_rejects:
  "steady s (snd (reject_order E q m s))" "steady s (snd (write_risk_reject E rj s))" "steady s (snd (reject_input E c i m s))"
  "steady s (snd (on_rsp_order_insert E c r s))" "steady s (snd (on_err_rtn_order_insert E c r s))"
  "steady s (snd (repush_last_records E s))"
proof -
  show "steady s (snd (reject_order E q m s))" "steady s (snd (write_risk_reject E rj s))"
    unfolding reject_order_def write_risk_reject_def by (rule std.try_op, rule steady_send_order steady_write)+
  show i: "steady s (snd (reject_input E c i m s))" for i m
    by (simp add: reject_input_def std.refl steady_send_order split: option.split)
  show "steady s (snd (on_rsp_order_insert E c r s))" unfolding on_rsp_order_insert_def
    by (rule std.try_op) (simp add: std.refl i)
  show "steady s (snd (on_err_rtn_order_insert E c r s))" unfolding on_err_rtn_order_insert_def
    by (rule std.try_op) (simp add: std.refl i split: option.split)
  show "steady s (snd (repush_last_records E s))" unfolding repush_last_records_def
    by (rule std.try_op) (simp add: std.refl steady_write pure_op_def split: option.split)
qed

lemma plain_submit: "plain s (snd (submit_order E b req s))"
proof -
  define t where "t = next_request_id (s\<lparr>ss_order_ref := ss_order_ref s + 1\<rparr>)"
  define u where "u = map_refs (insert_strategy (rq_order_id req) (rq_strategy_id req))
    (map_refs (insert_by_order_ref (show_int (ss_order_ref t)) (rq_order_id req)) t)"
  define q where "q = Call_Order_Insert ((to_input_order_field req \<lparr>bc_account_id = ss_user_id s, bc_order_ref = ss_order_ref t,
    bc_request_id = ss_request_id t, bc_exchange_id = ib_exchange_id b\<rparr>)\<lparr>ci_broker_id := fit 11 (ss_broker_id s)\<rparr>) (ss_request_id t)"
  obtain ret v where a: "api_call E q u = (ret, v)" by fastforce
  note refs = plain_fields(10)
  have t: "plain s t" unfolding t_def by (rule pln.trans [OF plain_fields(23) plain_fields(2)])
  have u: "plain s u" unfolding u_def by (rule pln.trans [OF pln.trans [OF t refs] refs])
  have "plain u v" using plain_fields(1) [of u E q] a by simp
  then have v: "plain s v" by (rule pln.trans [OF u])
  note rej = pln.trans [OF pln.trans [OF pln.trans [OF v refs] refs] steady_plain [OF steady_rejects(1)]]
  show ?thesis
    unfolding submit_order_def Let_def t_def [symmetric] u_def [symmetric] q_def [symmetric] a prod.case
    using rej pln.trans [OF v refs] by simp
qed

lemma plain_place: "plain s (snd (place_order E req s))"
  by (auto simp: place_order_def plain_submit steady_plain [OF steady_rejects(1)] split: option.split
      intro!: pln.and_then steady_plain [OF steady_rejects(1)] steady_plain [OF steady_rejects(2)])

lemma plain_cancel: "plain s (snd (cancel_order E i s))"
proof -
  have "plain s (snd (api_call E q (next_request_id s)))" for q
    by (rule pln.trans [OF plain_fields(2) plain_fields(1)])
  then show ?thesis by (simp add: cancel_order_def pln.refl split_beta Let_def split: option.split)
qed

lemma chain_timer: "chain s (snd (fire_timer E k cb s))"
proof -
  have "chain s ((machine on_connect_timeout s)\<lparr>ss_pushed_states := st\<rparr>)" for st
    by (rule chn.trans [OF plain_chain [OF plain_machine(3)] plain_chain [OF plain_fields(25)]])
  moreover have "chain s (snd (position_failed E k (s\<lparr>ss_in_flight := False\<rparr>)))"
    by (rule chn.trans [OF plain_chain [OF plain_fields(19)] chain_position_failed])
  ultimately show ?thesis
    by (simp add: fire_timer_def chn.refl plain_chain [OF plain_machine(6)] plain_chain [OF plain_machine(9)]
        plain_chain [OF plain_machine(13)] plain_chain [OF plain_fields(19)] plain_chain [OF plain_requests(4)]
        chain_req_position chain_req_account chain_account_failed chain_poll_timer Let_def split: timer_callback.split)
qed

lemma chain_step: "chain s (session_step E k s e)"
  by (cases e) (simp_all add: session_step_def plain_chain [OF plain_open] plain_chain [OF plain_close(1)] plain_chain [OF plain_close(2)]
      plain_chain [OF plain_interval] plain_chain [OF plain_fields(26)] plain_chain [OF plain_connected] plain_chain [OF plain_authenticate] plain_chain [OF plain_login] plain_chain [OF plain_confirm]
      chain_instrument chain_account chain_position chain_reports plain_chain [OF steady_plain [OF steady_rejects(4)]]
      plain_chain [OF steady_plain [OF steady_rejects(5)]] plain_chain [OF steady_plain [OF steady_rejects(6)]] plain_chain [OF plain_place] plain_chain [OF plain_cancel]
      plain_chain [OF steady_plain [OF steady_set_trading_day]] chain_resync chain_timer)

interpretation chain: invariant_run "session_step E k" chain_ok for E k
  by unfold_locales (use chain_step in \<open>auto simp: chain_def\<close>)

lemma chain_ok_new: "chain_ok (new_session F account)"
  by (simp add: chain_ok_def new_session_def new_finalizer_def finalizer_ok_def less_eq_phase_def)

lemma chain_ok_run: "chain_ok (session_run E k (new_session F account) es)"
  using chain.run_inv [OF chain_ok_new] by (simp add: session_run_def)

section \<open>The step that turns an account Ready\<close>

definition hold :: "('d, 'm) session_scheme \<Rightarrow> ('d, 'm) session_scheme \<Rightarrow> bool" where
  "hold s p \<longleftrightarrow> bk_buf_orders p = bk_buf_orders s \<and> bk_buf_trades p = bk_buf_trades s \<and> bk_machine p = bk_machine s \<and>
     bk_replaying p = bk_replaying s \<and> ss_flush_calls p = ss_flush_calls s"

definition turned :: "'d env \<Rightarrow> ('d, 'm) session_scheme \<Rightarrow> ('d, 'm) session_scheme \<Rightarrow> bool" where
  "turned E s s' \<longleftrightarrow> (chain_ok s \<longrightarrow> is_ready s' \<longrightarrow> is_ready s \<or> (\<exists>p. hold s p \<and> s' = end_login E p))"

interpretation hld: effect_order hold
  by unfold_locales (simp_all add: hold_def)

lemma turned_plain: "plain s s' \<Longrightarrow> turned E s s'"
  by (simp add: turned_def plain_def)

lemma turned_hold: "hold s s' \<Longrightarrow> turned E s s'"
  by (simp add: turned_def hold_def is_ready_def)

text \<open>A step that holds and keeps the invariant may come first.\<close>

definition held :: "('d, 'm) session_scheme \<Rightarrow> ('d, 'm) session_scheme \<Rightarrow> bool" where
  "held s t \<longleftrightarrow> hold s t \<and> (chain_ok s \<longrightarrow> chain_ok t)"

interpretation hel: effect_order held
  by unfold_locales (auto simp: held_def hold_def)

lemma held_turned: "held s t \<Longrightarrow> turned E t u \<Longrightarrow> turned E s u"
  unfolding turned_def held_def using hld.trans [of s t] by (auto simp: hold_def is_ready_def)

lemma turned_account_done:
  assumes "t = s\<lparr>ss_finalizer := on_account_done (ss_finalizer s), ss_account_ok := b\<rparr> \<or> t = s\<lparr>ss_finalizer := on_account_done (ss_finalizer s)\<rparr>"
  shows "turned E s (snd (finalize_login E k t))"
  unfolding turned_def
proof (intro impI)
  assume c: "chain_ok s" and r: "is_ready (snd (finalize_login E k t))"
  then have ok: "finalizer_ok (ss_finalizer s)" "fin_phase (ss_finalizer s) \<in> {Query_Position, Query_Account, Done_Phase}"
    by (simp_all add: chain_ok_def)
  have t: "ss_finalizer t = on_account_done (ss_finalizer s)" "hold s t" using assms by (auto simp: hold_def)
  let ?t = "t\<lparr>ss_data_ok := ss_position_ok t \<and> ss_account_ok t\<rparr>"
  have h: "hold s ?t" using t(2) by (simp add: hold_def)
  show "is_ready s \<or> (\<exists>p. hold s p \<and> snd (finalize_login E k t) = end_login E p)"
  proof (cases "on_account_done (ss_finalizer s) = ss_finalizer s")
    case True
    have "snd (finalize_login E k t) \<in> {t, ?t}"
      using ok(2) by (auto simp: finalize_login_def t True drive_finalizer.simps [of E k ?t])
    then show ?thesis using r t(2) h by (auto simp: hold_def is_ready_def)
  next
    case False
    then have p: "fin_phase (ss_finalizer ?t) = Replay" "finalizer_ok (ss_finalizer ?t)" "\<not> bk_replaying ?t"
      using on_account_done_phase [OF ok] c h t(1) by (simp_all add: chain_ok_def hold_def)
    then have "can_reach_ready (ss_finalizer t)" using can_reach_iff [of "ss_finalizer t"] by simp
    then have "snd (finalize_login E k t) = end_login E ?t"
      using drive_from_replay [OF p, of E k] by (auto simp: finalize_login_def)
    with h show ?thesis by blast
  qed
qed

lemma heldI: "plain s t \<Longrightarrow> hold s t \<Longrightarrow> held s t"
  by (simp add: held_def plain_def)

lemma hold_fields:
  "hold s (snd (api_call E q s))" "hold s (next_request_id s)" "hold s (schedule_ignored E ms cb s)" "hold s (cancel_load_timer s)"
  "hold s (add_query_row E p s)" "hold s (record_instrument E c s)"
  by (simp_all add: hold_def session_defs add_query_row_def record_instrument_def enqueue_task_def)

lemmas held_fields = heldI [OF plain_fields(1) hold_fields(1)] heldI [OF plain_fields(2) hold_fields(2)]
  heldI [OF plain_fields(3) hold_fields(3)] heldI [OF plain_fields(7) hold_fields(4)] heldI [OF plain_fields(11) hold_fields(5)]
  heldI [OF plain_fields(12) hold_fields(6)]

lemma held_upd:
  "held s (s\<lparr>ss_query_gen := n\<rparr>)" "held s (s\<lparr>ss_account_ok := b\<rparr>)" "held s (s\<lparr>ss_in_flight := b\<rparr>)" "held s (s\<lparr>ss_rebuild_consumed := b\<rparr>)"
  "held s (s\<lparr>ss_in_flight := b, ss_position_ok := b'\<rparr>)" "held s (s\<lparr>ss_query_request_id := i\<rparr>)"
  "held s (s\<lparr>ss_position_ok := b, ss_account_ok := b', ss_finalizer := new_finalizer\<rparr>)"
  "held s (s\<lparr>bk_baseline_ready := b, ss_finalizer := new_finalizer, ss_position_ok := b', ss_account_ok := b'', ss_rebuild_consumed := b'''\<rparr>)"
  "held s (s\<lparr>ss_token := n, ss_query_gen := n', ss_agg := a, ss_rebuild_consumed := b, ss_in_flight := b'\<rparr>)"
  "held s (s\<lparr>ss_finalizer := on_position_done (ss_finalizer s), ss_position_ok := b\<rparr>)"
  "held s (s\<lparr>ss_finalizer := on_position_done (ss_finalizer s)\<rparr>)" "held s (s\<lparr>ss_poll_timer := n\<rparr>)"
  by (rule heldI, rule plain_fields plain_position_done, simp add: hold_def)+

lemma held_steady:
  fixes s t :: "('d, 'm) session_scheme"
  assumes "steady s t"
  shows "held s t"
proof -
  have "book.more t = book.more s" using assms by (simp add: steady_def)
  then have "ss_flush_calls t = ss_flush_calls s" by (cases s; cases t; simp)
  with assms show ?thesis by (auto simp: steady_def hold_def intro!: heldI steady_plain)
qed

lemma turned_try: "turned E s (snd (f s)) \<Longrightarrow> turned E s (snd (try_op f s))"
  by (simp add: try_op_def)

lemma turned_then: "held s (snd (f s)) \<Longrightarrow> (\<And>t. turned E t (snd (g t))) \<Longrightarrow> turned E s (snd (and_then f g s))"
  by (auto simp: and_then_def held_def turned_hold intro: held_turned [unfolded held_def] split: prod.split)

lemma turned_account_failed: "turned E s (snd (account_failed E k s))"
  unfolding account_failed_def by (rule turned_account_done [where b = False]) simp

lemma turned_held: "held s t \<Longrightarrow> turned E s t"
  by (simp add: held_def turned_hold)

lemma turned_req_account: "turned E s (snd (req_qry_trading_account E k s))"
proof -
  define t where "t = s\<lparr>ss_query_gen := ss_generation s\<rparr>"
  define q where "q = (Call_Qry_Account (ss_request_id (next_request_id t)) :: 'a request)"
  obtain ret u where a: "api_call E q (next_request_id t) = (ret, u)" by fastforce
  have t: "held s t" unfolding t_def by (rule held_upd)
  have "held (next_request_id t) u" using held_fields(1) [of "next_request_id t" E q] a by simp
  then have u: "held s u" by (rule hel.trans [OF hel.trans [OF t held_fields(2)]])
  have "snd (req_qry_trading_account E k s) \<in>
      {snd (account_failed E k t), snd (account_failed E k u), schedule_ignored E 1500 (Retry_Qry_Account (ss_generation u)) u,
       schedule_ignored E (if is_ready u then 90000 else 300000) (Qry_Account_Expired (ss_generation u)) u}"
    using a by (simp add: req_qry_trading_account_def t_def [symmetric] q_def Let_def)
  then show ?thesis
    using turned_held [OF hel.trans [OF u held_fields(3)]] held_turned [OF t turned_account_failed] held_turned [OF u turned_account_failed]
    by auto
qed

lemma turned_position_failed: "turned E s (snd (position_failed E k s))"
  unfolding position_failed_def by (rule held_turned [OF held_upd(10) turned_req_account])

lemma turned_req_position: "turned E s (snd (req_qry_investor_position E k lc s))"
proof -
  define t where "t = s\<lparr>ss_token := ss_token s + 1, ss_query_gen := ss_generation s, ss_agg := [], ss_rebuild_consumed := False, ss_in_flight := True\<rparr>"
  define q where "q = (Call_Qry_Position (ss_request_id (next_request_id t)) :: 'a request)"
  define t2 where "t2 = (next_request_id t)\<lparr>ss_query_request_id := ss_request_id (next_request_id t)\<rparr>"
  obtain ret u where a: "api_call E q t2 = (ret, u)" by fastforce
  have t: "held s t" unfolding t_def by (rule held_upd)
  have t2: "held s t2"
    unfolding t2_def by (rule hel.trans [OF hel.trans [OF t held_fields(2)] held_upd(6)])
  have "held t2 u" using held_fields(1) [of t2 E q] a by simp
  then have u: "held s u" by (rule hel.trans [OF t2])
  note off = hel.trans [OF t held_upd(3)] hel.trans [OF u held_upd(3)]
  have "snd (req_qry_investor_position E k lc s) \<in>
      {t\<lparr>ss_in_flight := False\<rparr>, u\<lparr>ss_in_flight := False\<rparr>, snd (position_failed E k (t\<lparr>ss_in_flight := False\<rparr>)),
       snd (position_failed E k (u\<lparr>ss_in_flight := False\<rparr>)),
       schedule_ignored E 1500 (Retry_Qry_Position (ss_generation u)) (u\<lparr>ss_in_flight := False\<rparr>),
       schedule_ignored E (if is_ready u then 90000 else 300000) (Qry_Position_Expired (ss_generation u) (ss_token u) lc) u}"
    unfolding req_qry_investor_position_def Let_def t_def [symmetric] t2_def [symmetric] q_def [symmetric] a prod.case by auto
  then show ?thesis
    using turned_held [OF off(1)] turned_held [OF off(2)] held_turned [OF off(1) turned_position_failed]
      held_turned [OF off(2) turned_position_failed] turned_held [OF hel.trans [OF off(2) held_fields(3)]]
      turned_held [OF hel.trans [OF u held_fields(3)]] by auto
qed

lemma turned_instrument: "turned E s (snd (on_rsp_qry_instrument E k c i l s))"
proof (cases "ss_query_gen s = ss_generation s")
  case True
  define t where "t = (case c of None \<Rightarrow> s | Some c \<Rightarrow> record_instrument E c s)"
  have t: "held s t" by (simp add: t_def hel.refl held_fields(6) split: option.split)
  have p: "plain s t" by (simp add: t_def pln.refl plain_fields(12) split: option.split)
  have 1: "turned E s (machine (on_instruments_load_failed e) (cancel_load_timer t))" for e
    by (rule turned_plain [OF pln.trans [OF pln.trans [OF p plain_fields(7)] plain_machine(13)]])
  have 2: "turned E s (snd (req_qry_investor_position E k True ((cancel_load_timer t)\<lparr>bk_baseline_ready := False,
      ss_finalizer := new_finalizer, ss_position_ok := False, ss_account_ok := False, ss_rebuild_consumed := False\<rparr>)))"
    by (rule held_turned [OF hel.trans [OF hel.trans [OF t held_fields(4)] held_upd(8)] turned_req_position])
  show ?thesis
    using True turned_held [OF t] 1 2 unfolding on_rsp_qry_instrument_def Let_def t_def [symmetric] by simp
qed (simp add: on_rsp_qry_instrument_def turned_held hel.refl)

lemma turned_account: "turned E s (snd (on_rsp_qry_trading_account E k a i l s))"
proof -
  have f: "turned E s (snd (finish_account_query E k i s))" for s :: "('a, 'b) session_scheme"
  proof -
    define t where "t = s\<lparr>ss_account_ok := \<not> has_error i\<rparr>"
    have t: "held s t" unfolding t_def by (rule held_upd)
    have "turned E t (snd (finalize_login E k (t\<lparr>ss_finalizer := on_account_done (ss_finalizer t)\<rparr>)))"
      by (rule turned_account_done) simp
    with t show ?thesis using held_turned [OF t] turned_held [OF t] by (simp add: finish_account_query_def t_def [symmetric] Let_def)
  qed
  have e: "turned E s (snd (pure_op id s))" for s :: "('a, 'b) session_scheme" by (simp add: pure_op_def turned_held hel.refl)
  show ?thesis
    unfolding on_rsp_qry_trading_account_def
    by (auto simp: turned_held hel.refl held_steady [OF steady_push_account] f e intro!: turned_try turned_then split: option.split)
qed

lemma turned_position: "turned E s (snd (on_rsp_qry_investor_position E k p i r l s))"
proof -
  have f: "turned E s (snd (finish_position_query E k i s))" for s :: "('a, 'b) session_scheme"
  proof -
    have 1: "held t (snd (apply_position_query E (ss_agg t) (t\<lparr>ss_rebuild_consumed := True\<rparr>)))" for t :: "('a, 'b) session_scheme"
      by (rule hel.trans [OF held_upd(4) held_steady [OF steady_position_query]])
    have 2: "turned E t (snd (req_qry_trading_account E k (t\<lparr>ss_finalizer := on_position_done (ss_finalizer t)\<rparr>)))" for t :: "('a, 'b) session_scheme"
      by (rule held_turned [OF held_upd(11) turned_req_account])
    define t where "t = s\<lparr>ss_in_flight := False, ss_position_ok := \<not> has_error i\<rparr>"
    have "turned E t (snd (finish_position_query E k i s))"
      unfolding finish_position_query_def t_def [symmetric]
      by (rule turned_then) (simp_all add: 1 2 hel.refl turned_held)
    then show ?thesis unfolding t_def by (rule held_turned [OF held_upd(5)])
  qed
  define t where "t = (case p of None \<Rightarrow> s | Some p \<Rightarrow> if cp_position p > 0 \<or> cp_yd_position p > 0 then add_query_row E p s else s)"
  have t: "held s t" by (simp add: t_def hel.refl held_fields(5) split: option.split)
  have "turned E t (snd (try_op (if l then finish_position_query E k i else pure_op id) t))"
    by (rule turned_try) (simp add: f pure_op_def turned_held hel.refl)
  then show ?thesis using held_turned [OF t] by (simp add: on_rsp_qry_investor_position_def turned_held hel.refl Let_def t_def [symmetric])
qed

lemma turned_reports: "turned E s (snd (on_rtn_order E k c s))" "turned E s (snd (on_rtn_trade E k d s))"
proof -
  show "turned E s (snd (on_rtn_order E k c s))"
    by (cases "tm_state (bk_machine s) = LoadingInstruments \<and> \<not> bk_replaying s")
       (auto simp: on_rtn_order_def try_op_def turned_held [OF held_steady [OF steady_process_order]],
        simp add: turned_def is_ready_def buffer_order_rpt_def)
  show "turned E s (snd (on_rtn_trade E k d s))"
    by (cases "tm_state (bk_machine s) = LoadingInstruments \<and> \<not> bk_replaying s")
       (auto simp: on_rtn_trade_def try_op_def turned_held [OF held_steady [OF steady_process_trade]],
        simp add: turned_def is_ready_def buffer_trade_rpt_def)
qed

lemma turned_resync: "turned E s (snd (resync_account_data E k s))"
  by (simp add: resync_account_data_def turned_held hel.refl held_turned [OF held_upd(7) turned_req_position])

text \<open>The poll timer only works for an account that is Ready already.\<close>

lemma turned_poll_timer: "turned E s (snd (on_position_poll_timer E k s))"
  by (cases "is_ready s") (simp_all add: turned_def on_position_poll_timer_def is_ready_def Let_def)

lemma turned_timer: "turned E s (snd (fire_timer E k cb s))"
proof -
  have "turned E s ((machine on_connect_timeout s)\<lparr>ss_pushed_states := st\<rparr>)" for st
    by (rule turned_plain [OF pln.trans [OF plain_machine(3) plain_fields(25)]])
  moreover have "turned E s (snd (position_failed E k (s\<lparr>ss_in_flight := False\<rparr>)))"
    by (rule held_turned [OF held_upd(3) turned_position_failed])
  ultimately show ?thesis
    by (simp add: fire_timer_def turned_plain [OF pln.refl] turned_plain [OF plain_machine(6)] turned_plain [OF plain_machine(9)]
        turned_plain [OF plain_machine(13)] turned_plain [OF plain_fields(19)] turned_plain [OF plain_requests(4)]
        turned_req_position turned_req_account turned_account_failed turned_poll_timer Let_def split: timer_callback.split)
qed

lemma turned_step: "turned E s (session_step E k s e)"
  by (cases e) (simp_all add: session_step_def turned_plain [OF plain_open] turned_plain [OF plain_close(1)] turned_plain [OF plain_close(2)]
      turned_plain [OF plain_interval] turned_plain [OF plain_fields(26)] turned_plain [OF plain_connected] turned_plain [OF plain_authenticate]
      turned_plain [OF plain_login] turned_plain [OF plain_confirm] turned_instrument turned_account turned_position turned_reports
      turned_plain [OF steady_plain [OF steady_rejects(4)]] turned_plain [OF steady_plain [OF steady_rejects(5)]]
      turned_plain [OF steady_plain [OF steady_rejects(6)]] turned_plain [OF plain_place] turned_plain [OF plain_cancel]
      turned_plain [OF steady_plain [OF steady_set_trading_day]] turned_resync turned_timer)

lemma not_ready_before_turn:
  "bk_machine (step_finalizer (flush_barrier E (step_finalizer (handle_buffered E p)))) = bk_machine p" if "\<not> bk_replaying p"
  for p :: "('d, 'm) session_scheme"
  using loose_replay_buffered [of p E 0] replay_handles [OF that, of E 0] by (simp add: loose_def step_finalizer_def flush_barrier_def)

text \<open>
  C6: An account turns Ready only after its buffered reports were handled and the database was
  flushed. In every run from a new session, the step that turns the account Ready starts from a
  state \<open>p\<close> that has every report still in the buffers before the step; it gives each buffered order
  and then each buffered trade to its handler, in the order of arrival (\<open>handle_buffered\<close>), then waits
  for the flush of the database (\<open>flush_barrier\<close>), is not Ready until that has returned, and only
  then turns; and a Ready account has both buffers empty. (At most \<open>kMaxBuffered\<close> reports of a kind
  are kept, and the wait for the flush gives up after its limit.)
\<close>

theorem ready_after_replay:
  assumes "s = session_run E k (new_session F account) es" "s' = session_step E k s e"
    and "is_ready s'"
  shows "bk_buf_orders s' = [] \<and> bk_buf_trades s' = [] \<and>
    (is_ready s \<or>
     (\<exists>p u v. bk_buf_orders p = bk_buf_orders s \<and> bk_buf_trades p = bk_buf_trades s \<and> ss_flush_calls p = ss_flush_calls s \<and>
        u = handle_buffered E p \<and> v = flush_barrier E (step_finalizer u) \<and> tm_state (bk_machine v) = LoadingInstruments \<and>
        s' = step_finalizer (schedule_position_poll E (machine on_instruments_loaded (step_finalizer v)))))"
proof (intro conjI)
  have c: "chain_ok s" using chain_ok_run assms(1) by simp
  with chain_step [of s E k e] assms(2) have "chain_ok s'" by (simp add: chain_def)
  with assms(3) show "bk_buf_orders s' = []" "bk_buf_trades s' = []" by (auto simp: chain_ok_def is_ready_def)
  have "is_ready s \<or> (\<exists>p. hold s p \<and> s' = end_login E p)"
    using turned_step [of E s k e] c assms(2,3) by (simp add: turned_def)
  then show "is_ready s \<or>
     (\<exists>p u v. bk_buf_orders p = bk_buf_orders s \<and> bk_buf_trades p = bk_buf_trades s \<and> ss_flush_calls p = ss_flush_calls s \<and>
        u = handle_buffered E p \<and> v = flush_barrier E (step_finalizer u) \<and> tm_state (bk_machine v) = LoadingInstruments \<and>
        s' = step_finalizer (schedule_position_poll E (machine on_instruments_loaded (step_finalizer v))))"
  proof (elim disjE exE conjE)
    fix p
    assume p: "hold s p" "s' = end_login E p"
    let ?v = "flush_barrier E (step_finalizer (handle_buffered E p))"
    have "\<not> bk_replaying p" using p(1) c by (simp add: hold_def chain_ok_def)
    from not_ready_before_turn [OF this, of E] have m: "bk_machine ?v = bk_machine s" using p(1) by (simp add: step_finalizer_def hold_def)
    show ?thesis
    proof (cases "tm_state (bk_machine s) = LoadingInstruments")
      case True
      then have "s' = step_finalizer (schedule_position_poll E (machine on_instruments_loaded (step_finalizer ?v)))"
        using m p(2) by (simp add: end_login_def turn_ready_def step_finalizer_def)
      with p(1) m True show ?thesis unfolding hold_def by metis
    next
      case False
      then have "bk_machine s' = bk_machine s"
        using m p(2) by (simp add: end_login_def turn_ready_def step_finalizer_def schedule_position_poll_def Let_def)
      with assms(3) show ?thesis by (simp add: is_ready_def)
    qed
  qed simp
qed

section \<open>A login\<close>

definition sample_instrument :: "rat ctp_instrument" where
  "sample_instrument = \<lparr>cn_instrument_id = ''rb2510'', cn_exchange_id = ''SHFE'', cn_instrument_name = [], cn_product_id = ''rb'',
     cn_product_class = CHR ''1'', cn_volume_multiple = 10, cn_price_tick = 1, cn_min_limit_order_volume = 1,
     cn_max_limit_order_volume = 500, cn_min_market_order_volume = 1, cn_max_market_order_volume = 100, cn_open_date = ''20241016'',
     cn_expire_date = ''20251015'', cn_options_type = CHR ''0'', cn_strike_price = 0, cn_underlying_instr_id = [],
     cn_underlying_multiple = 0\<rparr>"

definition sample_login :: "rat session_event list" where
  "sample_login =
     [Ev_Open True [] [] [] [] [] [] [] [], Ev_Connected,
      Ev_Login (\<lambda>_. Some \<lparr>dl_start_seq = 0, dl_orders = [], dl_trades = [], dl_order_avgs = []\<rparr>) 0
        \<lparr>lr_info = Some \<lparr>ri_error_id = 0, ri_error_msg = []\<rparr>, lr_user = None, lr_days = - 2147483648\<rparr>,
      Ev_Confirm (Some \<lparr>ri_error_id = 0, ri_error_msg = []\<rparr>), Ev_Trade (sample_ctp_trade ''t'' 1 3500),
      Ev_Instrument (Some sample_instrument) None True]"

lemma sample_login_state:
  "let s = session_run sample_env 9 (new_session rat_fp ''a'') sample_login
   in (tm_state (bk_machine s), length (bk_buf_trades s), fin_phase (ss_finalizer s), ss_in_flight s, ss_alive s) =
      (LoadingInstruments, 1, Query_Position, True, True)"
  by code_simp

lemma account_failed_ready:
  assumes "chain_ok s" "fin_phase (ss_finalizer s) = Query_Account" "tm_state (bk_machine s) = LoadingInstruments"
  shows "is_ready (snd (account_failed E k s))"
proof -
  let ?t = "s\<lparr>ss_finalizer := on_account_done (ss_finalizer s), ss_account_ok := False\<rparr>"
  let ?u = "?t\<lparr>ss_data_ok := ss_position_ok ?t \<and> ss_account_ok ?t\<rparr>"
  have "fin_phase (on_account_done (ss_finalizer s)) = Replay" "finalizer_ok (on_account_done (ss_finalizer s))"
    using on_account_done_phase [of "ss_finalizer s"] assms(1,2) finalizer_ok_steps(3) [of "ss_finalizer s"]
    by (auto simp: chain_ok_def on_account_done_def)
  moreover from this have "can_reach_ready (ss_finalizer ?t)" using can_reach_iff [of "ss_finalizer ?t"] by simp
  ultimately show ?thesis
    using drive_from_replay [of ?u E k] assms(1,3) by (auto simp: account_failed_def finalize_login_def chain_ok_def)
qed

text \<open>
  The timer a query waits on: the callback of the last call to the timer queue, if that call was
  accepted (id not zero); and the step in which it expires.
\<close>

definition pending :: "('d, 'm) session_scheme \<Rightarrow> timer_callback option" where
  "pending s = (case rev (ss_timers s) of Schedule i ms cb # rest \<Rightarrow> if i \<noteq> 0 then Some cb else None | _ \<Rightarrow> None)"

definition expire :: "'d env \<Rightarrow> nat \<Rightarrow> ('d, 'm) session_scheme \<Rightarrow> ('d, 'm) session_scheme" where
  "expire E k s = (case pending s of None \<Rightarrow> s | Some cb \<Rightarrow> session_step E k s (Ev_Timer cb))"

definition timers_accepted :: "'d env \<Rightarrow> bool" where
  "timers_accepted E \<longleftrightarrow> (\<forall>n. ev_timers E n \<noteq> 0)"

text \<open>From the \<open>N\<close>th call of the library on no request is answered with "too many requests".\<close>

definition unthrottled_from :: "nat \<Rightarrow> 'd env \<Rightarrow> bool" where
  "unthrottled_from N E \<longleftrightarrow> (\<forall>n \<ge> N. ev_rets E n \<noteq> - 3)"

text \<open>The states of a login that waits for one of its two queries, and how far each is from the end.\<close>

definition waiting :: "('d, 'm) session_scheme \<Rightarrow> bool" where
  "waiting s \<longleftrightarrow> chain_ok s \<and> tm_state (bk_machine s) = LoadingInstruments \<and> ss_alive s"

fun stage :: "('d, 'm) session_scheme \<Rightarrow> timer_callback \<Rightarrow> nat option" where
  "stage s (Retry_Qry_Position g) = (if g = ss_generation s \<and> fin_phase (ss_finalizer s) = Query_Position then Some 4 else None)"
| "stage s (Qry_Position_Expired g tok lc) =
     (if g = ss_generation s \<and> tok = ss_token s \<and> ss_in_flight s \<and> fin_phase (ss_finalizer s) = Query_Position then Some 3 else None)"
| "stage s (Retry_Qry_Account g) = (if g = ss_generation s \<and> fin_phase (ss_finalizer s) = Query_Account then Some 2 else None)"
| "stage s (Qry_Account_Expired g) = (if g = ss_generation s \<and> fin_phase (ss_finalizer s) = Query_Account then Some 1 else None)"
| "stage s cb = None"

definition on_way :: "nat \<Rightarrow> nat \<Rightarrow> ('d, 'm) session_scheme \<Rightarrow> bool" where
  "on_way N r s \<longleftrightarrow> waiting s \<and> (\<exists>cb n. pending s = Some cb \<and> stage s cb = Some n \<and> (N - ss_calls s) + n \<le> r)"

lemma pending_schedule [simp]:
  "timers_accepted E \<Longrightarrow> pending (schedule_ignored E ms cb s) = Some cb"
  by (simp add: pending_def schedule_ignored_def schedule_def timers_accepted_def Let_def)

lemma schedule_ignored_fields [simp]:
  "waiting (schedule_ignored E ms cb s) = waiting s" "ss_generation (schedule_ignored E ms cb s) = ss_generation s"
  "ss_token (schedule_ignored E ms cb s) = ss_token s" "ss_in_flight (schedule_ignored E ms cb s) = ss_in_flight s"
  "ss_finalizer (schedule_ignored E ms cb s) = ss_finalizer s" "ss_calls (schedule_ignored E ms cb s) = ss_calls s"
  by (simp_all add: schedule_ignored_def schedule_def waiting_def chain_ok_def Let_def)

lemma waiting_upd [simp]:
  "waiting (s\<lparr>ss_query_gen := n\<rparr>) = waiting s" "waiting (next_request_id s) = waiting s" "waiting (s\<lparr>ss_in_flight := b\<rparr>) = waiting s"
  "waiting (s\<lparr>ss_query_request_id := i\<rparr>) = waiting s"
  "waiting (s\<lparr>ss_token := n'\<rparr>) = waiting s" "waiting (s\<lparr>ss_agg := a\<rparr>) = waiting s" "waiting (s\<lparr>ss_rebuild_consumed := c\<rparr>) = waiting s"
  by (simp_all add: waiting_def chain_ok_def next_request_id_def)

text \<open>The account request: Ready at once, or one of its two timers pending.\<close>

lemma req_account_way:
  assumes "waiting s" "fin_phase (ss_finalizer s) = Query_Account" "timers_accepted E" "unthrottled_from N E"
    and "t = snd (req_qry_trading_account E k s)" "(N - ss_calls s) + 1 \<le> r"
  shows "is_ready t \<or> on_way N r t"
proof -
  define u where "u = s\<lparr>ss_query_gen := ss_generation s\<rparr>"
  define q where "q = (Call_Qry_Account (ss_request_id (next_request_id u)) :: 'a request)"
  obtain ret v where a: "api_call E q (next_request_id u) = (ret, v)" by fastforce
  have u: "waiting u" "fin_phase (ss_finalizer u) = Query_Account" using assms(1,2) by (simp_all add: u_def)
  have v: "waiting v" "fin_phase (ss_finalizer v) = Query_Account" "ss_calls v = ss_calls s + 1" "ret = ev_rets E (ss_calls s)"
    using a u by (auto simp: api_call_def next_request_id_def waiting_def chain_ok_def u_def)
  have f: "waiting x \<Longrightarrow> fin_phase (ss_finalizer x) = Query_Account \<Longrightarrow> is_ready (snd (account_failed E k x))" for x :: "('a, 'b) session_scheme"
    by (rule account_failed_ready) (simp_all add: waiting_def)
  have "t = snd (account_failed E k u) \<or> t = snd (account_failed E k v) \<or>
      (ret = - 3 \<and> t = schedule_ignored E 1500 (Retry_Qry_Account (ss_generation v)) v) \<or>
      t = schedule_ignored E (if is_ready v then 90000 else 300000) (Qry_Account_Expired (ss_generation v)) v"
    unfolding assms(5) req_qry_trading_account_def Let_def u_def [symmetric] q_def [symmetric] a prod.case by simp
  then consider "t = snd (account_failed E k u)" | "t = snd (account_failed E k v)"
    | "ret = - 3" "t = schedule_ignored E 1500 (Retry_Qry_Account (ss_generation v)) v"
    | ms where "t = schedule_ignored E ms (Qry_Account_Expired (ss_generation v)) v"
    by blast
  then show ?thesis
  proof cases
    case 3
    then have "ss_calls s < N" using v(4) assms(4) unfolding unthrottled_from_def by (metis not_le)
    then show ?thesis using 3 v assms(3,6) by (simp add: on_way_def) arith
  next
    case 4
    then show ?thesis using v assms(3,6) by (simp add: on_way_def) arith
  qed (use f u v in auto)
qed

lemma position_failed_way:
  assumes "waiting s" "fin_phase (ss_finalizer s) = Query_Position" "timers_accepted E" "unthrottled_from N E"
    and "t = snd (position_failed E k s)" "(N - ss_calls s) + 1 \<le> r"
  shows "is_ready t \<or> on_way N r t"
proof -
  let ?s = "s\<lparr>ss_finalizer := on_position_done (ss_finalizer s), ss_position_ok := False\<rparr>"
  have "waiting ?s" using assms(1) plain_position_done(1) [of s False] by (simp add: waiting_def plain_def)
  moreover have "fin_phase (ss_finalizer ?s) = Query_Account" using assms(2) by (simp add: on_position_done_def)
  ultimately show ?thesis
    by (rule req_account_way [OF _ _ assms(3,4)]) (use assms(5,6) in \<open>simp_all add: position_failed_def\<close>)
qed

lemma req_position_way:
  assumes "waiting s" "fin_phase (ss_finalizer s) = Query_Position" "timers_accepted E" "unthrottled_from N E"
    and "t = snd (req_qry_investor_position E k True s)" "(N - ss_calls s) + 3 \<le> r"
  shows "is_ready t \<or> on_way N r t"
proof -
  define t1 where "t1 = s\<lparr>ss_token := ss_token s + 1, ss_query_gen := ss_generation s, ss_agg := [], ss_rebuild_consumed := False, ss_in_flight := True\<rparr>"
  define q where "q = (Call_Qry_Position (ss_request_id (next_request_id t1)) :: 'a request)"
  define t2 where "t2 = (next_request_id t1)\<lparr>ss_query_request_id := ss_request_id (next_request_id t1)\<rparr>"
  obtain ret u where a: "api_call E q t2 = (ret, u)" by fastforce
  have t1: "waiting t1" "fin_phase (ss_finalizer t1) = Query_Position" "ss_calls t1 = ss_calls s" using assms(1,2) by (simp_all add: t1_def)
  have t2: "waiting t2" "fin_phase (ss_finalizer t2) = Query_Position" "ss_in_flight t2"
    using t1 by (simp_all add: t2_def) (simp_all add: next_request_id_def t1_def)
  have u: "waiting u" "fin_phase (ss_finalizer u) = Query_Position" "ss_calls u = ss_calls s + 1" "ret = ev_rets E (ss_calls s)" "ss_in_flight u"
    using a t2 t1(3) by (auto simp: api_call_def waiting_def chain_ok_def t2_def next_request_id_def)
  have "t = snd (position_failed E k (t1\<lparr>ss_in_flight := False\<rparr>)) \<or> t = snd (position_failed E k (u\<lparr>ss_in_flight := False\<rparr>)) \<or>
      (ret = - 3 \<and> t = schedule_ignored E 1500 (Retry_Qry_Position (ss_generation u)) (u\<lparr>ss_in_flight := False\<rparr>)) \<or>
      t = schedule_ignored E (if is_ready u then 90000 else 300000) (Qry_Position_Expired (ss_generation u) (ss_token u) True) u"
    unfolding assms(5) req_qry_investor_position_def Let_def t1_def [symmetric] t2_def [symmetric] q_def [symmetric] a prod.case by simp
  then consider x where "t = snd (position_failed E k x)" "x = t1\<lparr>ss_in_flight := False\<rparr> \<or> x = u\<lparr>ss_in_flight := False\<rparr>"
    | "ret = - 3" "t = schedule_ignored E 1500 (Retry_Qry_Position (ss_generation u)) (u\<lparr>ss_in_flight := False\<rparr>)"
    | ms where "t = schedule_ignored E ms (Qry_Position_Expired (ss_generation u) (ss_token u) True) u"
    by blast
  then show ?thesis
  proof cases
    case (1 x)
    then have "waiting x" "fin_phase (ss_finalizer x) = Query_Position" "(N - ss_calls x) + 1 \<le> r" using t1 u assms(6) by auto
    then show ?thesis by (rule position_failed_way [OF _ _ assms(3,4) 1(1)])
  next
    case 2
    then have "ss_calls s < N" using u(4) assms(4) unfolding unthrottled_from_def by (metis not_le)
    then show ?thesis using 2 u assms(3,6) by (simp add: on_way_def) arith
  next
    case (3 ms)
    then show ?thesis using u assms(3,6) by (simp add: on_way_def) arith
  qed
qed

text \<open>Each expired timer gets a waiting login one step nearer.\<close>

lemma expire_way:
  assumes "on_way N (Suc r) s" "timers_accepted E" "unthrottled_from N E"
  shows "is_ready (expire E k s) \<or> on_way N r (expire E k s)"
proof -
  obtain cb n where s: "waiting s" "pending s = Some cb" "stage s cb = Some n" "(N - ss_calls s) + n \<le> Suc r"
    using assms(1) by (auto simp: on_way_def)
  have x: "expire E k s = snd (fire_timer E k cb s)" using s(2) by (simp add: expire_def session_step_def)
  have l: "ss_alive s" "tm_state (bk_machine s) = LoadingInstruments" "chain_ok s" using s(1) by (simp_all add: waiting_def)
  show ?thesis
  proof (cases cb)
    case (Retry_Qry_Position g)
    then have "g = ss_generation s" "fin_phase (ss_finalizer s) = Query_Position" "n = 4" using s(3) by (auto split: if_splits)
    then show ?thesis using s(4) l x Retry_Qry_Position
      by (intro req_position_way [OF s(1) _ assms(2,3)]) (auto simp: fire_timer_def)
  next
    case (Qry_Position_Expired g tok lc)
    then have "g = ss_generation s" "tok = ss_token s" "ss_in_flight s" "fin_phase (ss_finalizer s) = Query_Position" "n = 3"
      using s(3) by (auto split: if_splits)
    then show ?thesis using s(1,4) l x Qry_Position_Expired
      by (intro position_failed_way [OF _ _ assms(2,3), of "s\<lparr>ss_in_flight := False\<rparr>"]) (auto simp: fire_timer_def Let_def)
  next
    case (Retry_Qry_Account g)
    then have "g = ss_generation s" "fin_phase (ss_finalizer s) = Query_Account" "n = 2" using s(3) by (auto split: if_splits)
    then show ?thesis using s(4) l x Retry_Qry_Account
      by (intro req_account_way [OF s(1) _ assms(2,3)]) (auto simp: fire_timer_def)
  next
    case (Qry_Account_Expired g)
    then have "g = ss_generation s" "fin_phase (ss_finalizer s) = Query_Account" using s(3) by (auto split: if_splits)
    then show ?thesis using l x Qry_Account_Expired account_failed_ready [of s E k] by (simp add: fire_timer_def)
  qed (use s(3) in simp_all)
qed

lemma way_ends:
  assumes "on_way N r s" "timers_accepted E" "unthrottled_from N E"
  shows "\<exists>m \<le> r. is_ready ((expire E k ^^ m) s)"
  using assms(1)
proof (induction r arbitrary: s)
  case 0
  then show ?case by (auto simp: on_way_def elim: stage.elims split: if_splits)
next
  case (Suc r)
  from expire_way [OF Suc.prems assms(2,3), of k] show ?case
  proof
    assume "is_ready (expire E k s)"
    then show ?thesis by (intro exI [of _ 1]) simp
  next
    assume "on_way N r (expire E k s)"
    from Suc.IH [OF this] obtain m where "m \<le> r" "is_ready ((expire E k ^^ m) (expire E k s))" by blast
    then show ?thesis by (intro exI [of _ "Suc m"]) (simp add: funpow_swap1)
  qed
qed

text \<open>
  C24: A login cannot hang in its queries: once the contracts are loaded, an account becomes Ready
  on its timers alone, also when CTP answers neither the position query nor the account query.
  Each step of this lets the timer expire that the session scheduled last and that the queue
  accepted (\<open>expire\<close>); throttled requests (-3) are retried by such a timer, any other refusal counts
  as a failed query. If the queue accepts every timer and the library throttles no call from its
  \<open>N\<close>th on, the account is Ready after at most \<open>N + 4\<close> expired timers.
\<close>

theorem timeouts_reach_ready:
  assumes "s = session_run E k (new_session F account) es"
    and "tm_state (bk_machine s) = LoadingInstruments" "ss_query_gen s = ss_generation s" "ss_alive s" "\<not> has_error info"
    and "timers_accepted E" "unthrottled_from N E"
  shows "\<exists>m \<le> N + 4. is_ready ((expire E k ^^ m) (session_step E k s (Ev_Instrument (Some c) info True)))"
proof -
  have w: "waiting s" using chain_ok_run assms(1,2,4) by (simp add: waiting_def)
  define u where "u = record_instrument E c s"
  define v where "v = (cancel_load_timer u)\<lparr>bk_baseline_ready := False, ss_finalizer := new_finalizer, ss_position_ok := False,
                        ss_account_ok := False, ss_rebuild_consumed := False\<rparr>"
  have u: "tm_state (bk_machine u) = LoadingInstruments" using assms(2) by (simp add: u_def record_instrument_def enqueue_task_def Let_def)
  have "held s v" unfolding v_def u_def by (rule hel.trans [OF hel.trans [OF held_fields(6) held_fields(4)] held_upd(8)])
  then have "chain_ok v" "tm_state (bk_machine v) = LoadingInstruments" using w by (simp_all add: held_def hold_def waiting_def)
  moreover have "ss_alive v" using assms(4)
    by (simp add: v_def u_def cancel_load_timer_def log_cancel_def record_instrument_def enqueue_task_def Let_def)
  ultimately have "waiting v" by (simp add: waiting_def)
  moreover have "fin_phase (ss_finalizer v) = Query_Position" by (simp add: v_def new_finalizer_def)
  moreover have "session_step E k s (Ev_Instrument (Some c) info True) = snd (req_qry_investor_position E k True v)"
    using assms(3,5) u by (simp add: session_step_def on_rsp_qry_instrument_def u_def [symmetric] v_def Let_def)
  ultimately have "is_ready (session_step E k s (Ev_Instrument (Some c) info True)) \<or>
      on_way N (N + 4) (session_step E k s (Ev_Instrument (Some c) info True))"
    by (intro req_position_way [OF _ _ assms(6,7)]) auto
  then show ?thesis
  proof
    assume "is_ready (session_step E k s (Ev_Instrument (Some c) info True))"
    then show ?thesis by (intro exI [of _ 0]) simp
  qed (rule way_ends [OF _ assms(6,7)])
qed

lemma sample_loading_state:
  "let s = session_run sample_env 9 (new_session rat_fp ''a'') (butlast sample_login)
   in (tm_state (bk_machine s), ss_query_gen s, ss_generation s, ss_alive s) = (LoadingInstruments, 0, 0, True)"
  by code_simp

theorem timeouts_reach_ready_witness:
  "let s = session_run sample_env 9 (new_session rat_fp ''a'') (butlast sample_login)
   in \<exists>m \<le> 4. is_ready ((expire sample_env 9 ^^ m) (session_step sample_env 9 s (Ev_Instrument (Some sample_instrument) None True)))"
proof -
  have "timers_accepted sample_env" "unthrottled_from 0 sample_env" "\<not> has_error None"
    by (simp_all add: timers_accepted_def unthrottled_from_def sample_env_def has_error_def)
  from timeouts_reach_ready [OF refl _ _ _ this(3,1,2), of 9 rat_fp "''a''" "butlast sample_login" sample_instrument] show ?thesis
    using sample_loading_state by (simp add: Let_def)
qed

section \<open>A concrete login\<close>

definition sample_wait :: "rat session" where
  "sample_wait = session_run sample_env 9 (new_session rat_fp ''a'') (sample_login @ [Ev_Timer (Qry_Position_Expired 0 1 True)])"

lemma sample_wait_state:
  "(tm_state (bk_machine sample_wait), length (bk_buf_trades sample_wait), fin_phase (ss_finalizer sample_wait),
    ss_alive sample_wait, ss_generation sample_wait) = (LoadingInstruments, 1, Query_Account, True, 0)"
  by code_simp

lemma sample_ready: "is_ready (session_step sample_env 9 sample_wait (Ev_Timer (Qry_Account_Expired 0)))"
  using account_failed_ready [of sample_wait] chain_ok_run [of sample_env 9 rat_fp "''a''"] sample_wait_state
  by (simp add: sample_wait_def [symmetric] session_step_def fire_timer_def) (metis sample_wait_def)

theorem ready_after_replay_witness:
  "let s' = session_step sample_env 9 sample_wait (Ev_Timer (Qry_Account_Expired 0))
   in length (bk_buf_trades sample_wait) = 1 \<and> bk_buf_trades s' = [] \<and>
      (\<exists>p v. length (bk_buf_trades p) = 1 \<and> v = flush_barrier sample_env (step_finalizer (handle_buffered sample_env p)) \<and>
         s' = step_finalizer (schedule_position_poll sample_env (machine on_instruments_loaded (step_finalizer v))))"
proof -
  have "\<not> is_ready sample_wait" "length (bk_buf_trades sample_wait) = 1" using sample_wait_state by (auto simp: is_ready_def)
  then show ?thesis
    using ready_after_replay [OF sample_wait_def refl sample_ready] unfolding Let_def by metis
qed

end
