(* ===== verification/Md_Subscriptions.thy ===== *)
theory Md_Subscriptions
  imports Dz_Prelude "HOL-Library.Char_ord" "HOL-Library.List_Lexorder"
begin

text \<open>
  The subscriptions of the market data gateway (\<open>libs/platform/src/subscription_manager.cpp\<close>): which
  processes want which contract, and how far the subscription at CTP has got. The \<open>std::map\<close> is an
  association list in key order and the \<open>std::set\<close> of subscribers an ordered list without duplicates.
\<close>

section \<open>State\<close>

datatype sub_state = NotRequested | Pending | Subscribed

record sub_info =
  si_subs :: "string list"
  si_state :: sub_state

type_synonym sub_map = "(string \<times> sub_info) list"

record sub_manager =
  sm_info :: sub_map
  sm_cached :: nat

definition new_manager :: sub_manager where
  "new_manager = \<lparr>sm_info = [], sm_cached = 0\<rparr>"

definition new_info :: sub_info where
  "new_info = \<lparr>si_subs = [], si_state = NotRequested\<rparr>"

definition try_emplace :: "string \<Rightarrow> sub_map \<Rightarrow> bool \<times> sub_map" where
  "try_emplace i m = (if map_of m i = None then (True, insort_key fst (i, new_info) m) else (False, m))"

definition put_info :: "string \<Rightarrow> sub_info \<Rightarrow> sub_map \<Rightarrow> sub_map" where
  "put_info i e = AList.map_entry i (\<lambda>_. e)"

definition add_sub :: "string \<Rightarrow> sub_info \<Rightarrow> sub_info" where
  "add_sub who e = e\<lparr>si_subs := (if who \<in> set (si_subs e) then si_subs e else insort who (si_subs e))\<rparr>"

definition drop_sub :: "string \<Rightarrow> sub_info \<Rightarrow> sub_info" where
  "drop_sub who e = e\<lparr>si_subs := removeAll who (si_subs e)\<rparr>"

definition set_sub_state :: "sub_state \<Rightarrow> sub_info \<Rightarrow> sub_info" where
  "set_sub_state st e = e\<lparr>si_state := st\<rparr>"

section \<open>Requests of the strategies\<close>

text \<open>\<open>seen\<close> is the set against repeated names in one request. The result is what to ask of CTP.\<close>

fun subscribe_from :: "string \<Rightarrow> string list \<Rightarrow> string list \<Rightarrow> sub_map \<Rightarrow> string list \<times> sub_map" where
  "subscribe_from who seen [] m = ([], m)"
| "subscribe_from who seen (i # is) m =
     (if i \<in> set seen then subscribe_from who seen is m
      else let (fresh, m1) = try_emplace i m;
               m2 = AList.map_entry i (add_sub who) m1;
               need = fresh \<or> map_option si_state (map_of m2 i) \<noteq> Some Subscribed;
               (r, m3) = subscribe_from who (i # seen) is m2
           in ((if need then i # r else r), m3))"

definition subscribe :: "string \<Rightarrow> string list \<Rightarrow> sub_map \<Rightarrow> string list \<times> sub_map" where
  "subscribe who = subscribe_from who []"

fun unsubscribe :: "string \<Rightarrow> string list \<Rightarrow> sub_map \<Rightarrow> string list \<times> sub_map" where
  "unsubscribe who [] m = ([], m)"
| "unsubscribe who (i # is) m =
     (case map_of m i of
        None \<Rightarrow> unsubscribe who is m
      | Some e0 \<Rightarrow>
          let e = drop_sub who e0
          in if si_subs e = [] \<and> si_state e = Subscribed
             then (let (r, m1) = unsubscribe who is (put_info i (set_sub_state NotRequested e) m) in (i # r, m1))
             else if si_subs e = [] \<and> si_state e = NotRequested then unsubscribe who is (AList.delete i m)
             else unsubscribe who is (put_info i e m))"

text \<open>What the loop over all entries does to one of them; the erasing follows the loop.\<close>

definition left_by :: "string \<Rightarrow> sub_info \<Rightarrow> bool" where
  "left_by who e \<longleftrightarrow> si_subs (drop_sub who e) = []"

definition leave :: "string \<Rightarrow> sub_info \<Rightarrow> sub_info" where
  "leave who e =
     (if left_by who e \<and> si_state e = Subscribed then set_sub_state NotRequested (drop_sub who e) else drop_sub who e)"

definition unsubscribe_all :: "string \<Rightarrow> sub_map \<Rightarrow> string list \<times> sub_map" where
  "unsubscribe_all who m =
     (map fst (filter (\<lambda>(i, e). left_by who e \<and> si_state e = Subscribed) m),
      map (\<lambda>(i, e). (i, leave who e)) (filter (\<lambda>(i, e). \<not> (left_by who e \<and> si_state e = NotRequested)) m))"

section \<open>Answers of CTP\<close>

definition mark_pending :: "string list \<Rightarrow> sub_map \<Rightarrow> sub_map" where
  "mark_pending is m = fold (\<lambda>i. AList.map_entry i (set_sub_state Pending)) is m"

text \<open>The first component asks the caller to cancel the subscription again.\<close>

definition on_sub_confirmed :: "string \<Rightarrow> bool \<Rightarrow> sub_map \<Rightarrow> bool \<times> sub_map" where
  "on_sub_confirmed i success m =
     (case map_of m i of
        None \<Rightarrow> (False, m)
      | Some e \<Rightarrow>
          if \<not> success then (False, if si_subs e = [] then AList.delete i m else m)
          else if si_subs e = [] then (True, AList.map_entry i (set_sub_state NotRequested) m)
          else (False, AList.map_entry i (set_sub_state Subscribed) m))"

definition on_unsub_confirmed :: "string \<Rightarrow> sub_map \<Rightarrow> sub_map" where
  "on_unsub_confirmed i m =
     (case map_of m i of None \<Rightarrow> m | Some e \<Rightarrow> if si_subs e = [] then AList.delete i m else m)"

definition in_state :: "sub_state \<Rightarrow> string \<times> sub_info \<Rightarrow> bool" where
  "in_state st p \<longleftrightarrow> si_state (snd p) = st"

definition check_subscribe_status :: "sub_manager \<Rightarrow> string list \<times> sub_manager" where
  "check_subscribe_status s =
     (map fst (filter (in_state Pending) (sm_info s)), s\<lparr>sm_cached := length (filter (in_state Subscribed) (sm_info s))\<rparr>)"

definition reset_pending_state :: "sub_map \<Rightarrow> sub_map" where
  "reset_pending_state m = map (\<lambda>(i, e). (i, if si_state e = Pending then set_sub_state NotRequested e else e)) m"

section \<open>Sessions\<close>

definition all_not_requested :: "sub_map \<Rightarrow> sub_map" where
  "all_not_requested m = map (\<lambda>(i, e). (i, set_sub_state NotRequested e)) m"

definition cleanup_orphans :: "sub_map \<Rightarrow> string list \<times> sub_map" where
  "cleanup_orphans m =
     (map fst (filter (\<lambda>(i, e). si_subs e = [] \<and> si_state e = Subscribed) m),
      filter (\<lambda>(i, e). \<not> (si_subs e = [] \<and> si_state e = NotRequested)) m)"

definition reset_all_sub_state :: "sub_manager \<Rightarrow> sub_manager" where
  "reset_all_sub_state s = s\<lparr>sm_info := all_not_requested (sm_info s), sm_cached := 0\<rparr>"

definition to_resubscribe :: "sub_map \<Rightarrow> string list" where
  "to_resubscribe m = map fst (filter (\<lambda>(i, e). si_subs e \<noteq> [] \<and> si_state e \<noteq> Subscribed) m)"

record login_plan =
  lp_unsubscribe :: "string list"
  lp_resubscribe :: "string list"

definition sub_on_logged_in :: "sub_manager \<Rightarrow> login_plan \<times> sub_manager" where
  "sub_on_logged_in s =
     (let (orphans, m1) = cleanup_orphans (sm_info s);
          s1 = reset_all_sub_state (s\<lparr>sm_info := m1\<rparr>)
      in (\<lparr>lp_unsubscribe = orphans, lp_resubscribe = to_resubscribe (sm_info s1)\<rparr>, s1))"

definition sub_on_idle :: "sub_manager \<Rightarrow> sub_manager" where
  "sub_on_idle s = s\<lparr>sm_info := filter (\<lambda>(i, e). si_subs e \<noteq> []) (all_not_requested (sm_info s)), sm_cached := 0\<rparr>"

definition sub_on_session_lost :: "sub_manager \<Rightarrow> sub_manager" where
  "sub_on_session_lost s = reset_all_sub_state s"

section \<open>Frames\<close>

datatype sub_action = Subscribe | Unsubscribe | Unsubscribe_All

record subscribe_req =
  sq_instance_id :: string
  sq_action :: sub_action
  sq_replace :: bool
  sq_instruments :: "string list"

record sub_result =
  sr_instance_id :: string
  sr_to_subscribe :: "string list"
  sr_to_unsubscribe :: "string list"

text \<open>A payload that is not such a request is \<open>None\<close>: the user interface gets a warning.\<close>

definition handle_subscribe :: "subscribe_req option \<Rightarrow> sub_map \<Rightarrow> sub_result \<times> sub_map" where
  "handle_subscribe r m =
     (case r of
        None \<Rightarrow> (\<lparr>sr_instance_id = [], sr_to_subscribe = [], sr_to_unsubscribe = []\<rparr>, m)
      | Some q \<Rightarrow>
          let who = sq_instance_id q; none = \<lparr>sr_instance_id = who, sr_to_subscribe = [], sr_to_unsubscribe = []\<rparr>
          in case sq_action q of
               Subscribe \<Rightarrow>
                 let (un, m1) = (if sq_replace q then unsubscribe_all who m else ([], m));
                     (add, m2) = subscribe who (sq_instruments q) m1
                 in (none\<lparr>sr_to_unsubscribe := un, sr_to_subscribe := add\<rparr>, m2)
             | Unsubscribe \<Rightarrow> (let (un, m1) = unsubscribe who (sq_instruments q) m in (none\<lparr>sr_to_unsubscribe := un\<rparr>, m1))
             | Unsubscribe_All \<Rightarrow> (let (un, m1) = unsubscribe_all who m in (none\<lparr>sr_to_unsubscribe := un\<rparr>, m1)))"

text \<open>
  A query names contracts or asks for those that are not subscribed. \<open>mq_query\<close> is the member if it
  is a text; of \<open>instruments\<close>, when present, the flag says that it is an array, and the list holds
  what iterating over it yields, \<open>None\<close> for elements that are no texts.
\<close>

record md_query =
  mq_query :: "string option"
  mq_instruments :: "(bool \<times> string option list) option"

record sub_detail =
  sd_instrument :: string
  sd_state :: sub_state
  sd_subscribers :: "string list"

record sub_rsp =
  rs_subscriptions :: "sub_detail list"
  rs_returned :: nat
  rs_matched :: nat
  rs_truncated :: bool

datatype query_answer = Answer sub_rsp | Query_Error string

definition SUBSCRIPTION_QUERY_MAX :: nat where
  "SUBSCRIPTION_QUERY_MAX = 32"

definition sub_detail_of :: "string \<Rightarrow> sub_map \<Rightarrow> sub_detail" where
  "sub_detail_of i m =
     (case map_of m i of
        None \<Rightarrow> \<lparr>sd_instrument = i, sd_state = NotRequested, sd_subscribers = []\<rparr>
      | Some e \<Rightarrow> \<lparr>sd_instrument = i, sd_state = si_state e, sd_subscribers = si_subs e\<rparr>)"

fun collect :: "sub_map \<Rightarrow> string list \<Rightarrow> sub_rsp \<Rightarrow> sub_rsp" where
  "collect m [] r = r"
| "collect m (i # is) r =
     collect m is
       (let r1 = r\<lparr>rs_matched := rs_matched r + 1\<rparr>
        in if rs_returned r < SUBSCRIPTION_QUERY_MAX
           then r1\<lparr>rs_subscriptions := rs_subscriptions r @ [sub_detail_of i m], rs_returned := rs_returned r + 1\<rparr>
           else r1\<lparr>rs_truncated := True\<rparr>)"

definition query_subscriptions :: "md_query \<Rightarrow> sub_map \<Rightarrow> query_answer" where
  "query_subscriptions q m =
     (let r0 = \<lparr>rs_subscriptions = [], rs_returned = 0, rs_matched = 0, rs_truncated = False\<rparr>
      in case mq_instruments q of
           Some (array, is) \<Rightarrow> Answer (collect m (List.map_filter id is) r0)
         | None \<Rightarrow>
             if mq_query q = Some ''unsuccessful''
             then Answer (collect m (map fst (filter (in_state Pending) m) @ map fst (filter (in_state NotRequested) m)) r0)
             else Query_Error ''unknown_query'')"

definition handle_query :: "md_query option \<Rightarrow> sub_map \<Rightarrow> query_answer" where
  "handle_query r m =
     (case r of
        None \<Rightarrow> Query_Error ''bad_json''
      | Some q \<Rightarrow>
          let has_query = mq_query q \<noteq> None; has_instruments = (case mq_instruments q of Some (True, is) \<Rightarrow> True | _ \<Rightarrow> False)
          in if \<not> has_query \<and> \<not> has_instruments then Query_Error ''missing_query_or_instruments''
             else if has_query \<and> has_instruments then Query_Error ''ambiguous_query''
             else query_subscriptions q m)"

text \<open>What is no array counts as absent when the query is checked and as present when it is answered.\<close>

lemma instruments_no_array:
  "handle_query (Some \<lparr>mq_query = Some ''unsuccessful'', mq_instruments = Some (False, [])\<rparr>) m =
   Answer \<lparr>rs_subscriptions = [], rs_returned = 0, rs_matched = 0, rs_truncated = False\<rparr>"
  by (simp add: handle_query_def query_subscriptions_def Let_def List.map_filter_simps)

end
