(* ===== verification/Md_Gateway.thy ===== *)
theory Md_Gateway
  imports Md_State Md_Subscriptions
begin

text \<open>
  The market data gateway (\<open>apps/ctp/md/md_api_ctp.cpp\<close>, \<open>md_api_subscribe.cpp\<close>, \<open>md_api_pure.cpp\<close>,
  \<open>md_api_scheduled.cpp\<close>): connection, login, automatic schedule, and the batches in which contracts are
  subscribed. Requests to the CTP library are logged with the value they returned, which comes from
  \<open>md_env\<close>; the timers are those of the timer queue, by id. Logging, the shared-memory upkeep and the
  writing of configurations are left out.
\<close>

section \<open>Pure functions\<close>

datatype batch_action = Continue_Send | Batch_Done | Retry | Give_Up

definition decide_batch_check_action :: "bool \<Rightarrow> bool \<Rightarrow> int \<Rightarrow> int \<Rightarrow> batch_action" where
  "decide_batch_check_action queue_nonempty has_pending retry_count max_retry =
     (if queue_nonempty then Continue_Send
      else if \<not> has_pending then Batch_Done
      else if retry_count + 1 > max_retry then Give_Up else Retry)"

function chunks :: "nat \<Rightarrow> 'a list \<Rightarrow> 'a list list" where
  "chunks n xs = (if xs = [] \<or> n = 0 then [] else take n xs # chunks n (drop n xs))"
  by pat_completeness auto
termination by (relation "measure (\<lambda>(n, xs). length xs)") auto

declare chunks.simps [simp del]

definition batch_size :: "int \<Rightarrow> nat" where
  "batch_size n = (if n \<le> 0 then 1 else nat n)"

definition make_batches :: "string list \<Rightarrow> int \<Rightarrow> string list list" where
  "make_batches is n = chunks (batch_size n) is"

record ctp_broker =
  cb_name :: string
  cb_broker_id :: string
  cb_user_id :: string
  cb_password :: string
  cb_frontends :: "(bool \<times> string) list"

definition find_current_broker_in :: "ctp_broker list \<Rightarrow> string \<Rightarrow> ctp_broker option" where
  "find_current_broker_in bs n = (if n = [] then None else find (\<lambda>b. cb_name b = n) bs)"

section \<open>Schedule\<close>

text \<open>Times of day are texts \<open>HH:MM\<close>; the code compares them as texts.\<close>

definition is_trading_window :: "int \<Rightarrow> string \<Rightarrow> bool" where
  "is_trading_window weekday hh_mm =
     (if weekday = 1 \<and> hh_mm \<ge> ''06:00'' then True
      else if 2 \<le> weekday \<and> weekday \<le> 5 then True
      else weekday = 6 \<and> hh_mm < ''06:00'')"

record sched_view =
  sv_enabled :: bool
  sv_schedules :: "(string \<times> string) list"

definition in_session :: "string \<Rightarrow> string \<times> string \<Rightarrow> bool" where
  "in_session t s =
     (if fst s \<le> snd s then fst s \<le> t \<and> t < snd s else t \<ge> fst s \<or> t < snd s)"

definition should_be_logged_in :: "sched_view \<Rightarrow> string \<Rightarrow> bool" where
  "should_be_logged_in v t = (if \<not> sv_enabled v then False else list_ex (in_session t) (sv_schedules v))"

datatype sched_action = No_Action | Login_Action | Logout_Action

definition evaluate_sched_action :: "sched_view \<Rightarrow> int \<Rightarrow> string \<Rightarrow> bool \<Rightarrow> sched_action" where
  "evaluate_sched_action v weekday t logged_in =
     (if \<not> sv_enabled v then No_Action
      else if \<not> is_trading_window weekday t then No_Action
      else if list_ex (\<lambda>s. snd s = t \<and> logged_in) (sv_schedules v) then Logout_Action
      else if list_ex (\<lambda>s. fst s = t \<and> \<not> logged_in) (sv_schedules v) then Login_Action
      else No_Action)"

section \<open>State\<close>

record md_env =
  me_rets :: "nat \<Rightarrow> int"
  me_gbk :: "string \<Rightarrow> string"

text \<open>What the surroundings say at a moment: the clocks, the schedule in force, and whether the library creates an object.\<close>

record md_now =
  nw_ms :: int
  nw_weekday :: int
  nw_time :: string
  nw_second :: int
  nw_sched :: sched_view
  nw_created :: bool

record md_cfg =
  mc_brokers :: "ctp_broker list"
  mc_current :: string
  mc_batch_size :: int
  mc_batch_delay :: int
  mc_check_interval :: int
  mc_max_retry :: int
  mc_flow_dir :: string

datatype md_warning = Retry_While_Reconnecting | Retry_While_Connecting | No_Current_Broker | Broker_Not_Found | No_Frontend
  | Not_Created | Login_Request_Failed int

datatype md_callback = Connect_Deadline | Login_Deadline | Next_Batch nat | Check_Batches nat | Schedule_Tick

datatype md_request = Rq_Create string | Rq_Front string | Rq_Init | Rq_Release | Rq_Login string string string int
  | Rq_Sub "string list" | Rq_Unsub "string list"

record md_gateway =
  mg_cfg :: md_cfg
  mg_status :: md_status
  mg_api :: bool
  mg_subs :: sub_manager
  mg_batches :: "string list list"
  mg_check_active :: bool
  mg_retry_count :: int
  mg_sub_gen :: nat
  mg_sub_timer :: nat
  mg_connect_timer :: nat
  mg_login_timer :: nat
  mg_user_initiated :: bool
  mg_request_id :: int
  mg_timers :: "(nat \<times> string \<times> int \<times> md_callback) list"
  mg_last_timer :: nat
  mg_calls :: nat
  mg_requests :: "(md_request \<times> int) list"
  mg_notes :: "md_notification list"
  mg_warnings :: "(md_level \<times> md_warning) list"
  mg_reports :: "md_status list"

definition new_gateway :: "md_cfg \<Rightarrow> md_gateway" where
  "new_gateway c = \<lparr>mg_cfg = c, mg_status = new_md_machine, mg_api = False, mg_subs = new_manager, mg_batches = [], mg_check_active = False,
     mg_retry_count = 0, mg_sub_gen = 0, mg_sub_timer = 0, mg_connect_timer = 0, mg_login_timer = 0, mg_user_initiated = False,
     mg_request_id = 0, mg_timers = [], mg_last_timer = 0, mg_calls = 0, mg_requests = [], mg_notes = [], mg_warnings = [], mg_reports = []\<rparr>"

definition md_machine :: "(md_status \<Rightarrow> md_outcome) \<Rightarrow> md_gateway \<Rightarrow> md_gateway" where
  "md_machine f g =
     (let (n, st) = f (mg_status g)
      in g\<lparr>mg_status := st, mg_notes := mg_notes g @ (case n of None \<Rightarrow> [] | Some x \<Rightarrow> [x])\<rparr>)"

definition md_logged_in :: "md_gateway \<Rightarrow> bool" where
  "md_logged_in g \<longleftrightarrow> ms_state (mg_status g) = MLoggedIn"

definition log_call :: "md_request \<Rightarrow> md_gateway \<Rightarrow> md_gateway" where
  "log_call q g = g\<lparr>mg_requests := mg_requests g @ [(q, 0)]\<rparr>"

definition md_call :: "md_env \<Rightarrow> md_request \<Rightarrow> md_gateway \<Rightarrow> int \<times> md_gateway" where
  "md_call E q g =
     (let r = me_rets E (mg_calls g)
      in (r, g\<lparr>mg_calls := mg_calls g + 1, mg_requests := mg_requests g @ [(q, r)]\<rparr>))"

definition warn_ui :: "md_level \<Rightarrow> md_warning \<Rightarrow> md_gateway \<Rightarrow> md_gateway" where
  "warn_ui l t g = g\<lparr>mg_warnings := mg_warnings g @ [(l, t)]\<rparr>"

definition md_schedule :: "int \<Rightarrow> md_callback \<Rightarrow> md_gateway \<Rightarrow> nat \<times> md_gateway" where
  "md_schedule ms cb g =
     (let i = mg_last_timer g + 1 in (i, g\<lparr>mg_last_timer := i, mg_timers := mg_timers g @ [(i, [], ms, cb)]\<rparr>))"

definition md_schedule_replace :: "string \<Rightarrow> int \<Rightarrow> md_callback \<Rightarrow> md_gateway \<Rightarrow> nat \<times> md_gateway" where
  "md_schedule_replace tag ms cb g =
     (let i = mg_last_timer g + 1
      in (i, g\<lparr>mg_last_timer := i, mg_timers := filter (\<lambda>(j, tg, r). tg \<noteq> tag) (mg_timers g) @ [(i, tag, ms, cb)]\<rparr>))"

definition drop_timer :: "nat \<Rightarrow> md_gateway \<Rightarrow> md_gateway" where
  "drop_timer i g = g\<lparr>mg_timers := filter (\<lambda>t. fst t \<noteq> i) (mg_timers g)\<rparr>"

definition report_md_status :: "md_gateway \<Rightarrow> md_gateway" where
  "report_md_status g =
     (let st = set_subscription_stats (length (sm_info (mg_subs g))) (sm_cached (mg_subs g)) (mg_status g)
      in g\<lparr>mg_status := st, mg_reports := mg_reports g @ [st]\<rparr>)"

definition map_subs :: "(sub_manager \<Rightarrow> sub_manager) \<Rightarrow> md_gateway \<Rightarrow> md_gateway" where
  "map_subs f g = g\<lparr>mg_subs := f (mg_subs g)\<rparr>"

definition map_info :: "(sub_map \<Rightarrow> sub_map) \<Rightarrow> md_gateway \<Rightarrow> md_gateway" where
  "map_info f g = g\<lparr>mg_subs := (mg_subs g)\<lparr>sm_info := f (sm_info (mg_subs g))\<rparr>\<rparr>"

section \<open>Batches\<close>

definition enqueue_batches :: "string list \<Rightarrow> md_gateway \<Rightarrow> md_gateway" where
  "enqueue_batches is g = g\<lparr>mg_batches := mg_batches g @ make_batches is (mc_batch_size (mg_cfg g))\<rparr>"

definition send_next_batch :: "md_env \<Rightarrow> md_gateway \<Rightarrow> md_gateway" where
  "send_next_batch E g =
     (if \<not> mg_api g \<or> \<not> md_logged_in g then g
      else case mg_batches g of
             [] \<Rightarrow> (let (i, g1) = md_schedule (mc_check_interval (mg_cfg g)) (Check_Batches (mg_sub_gen g)) g
                    in g1\<lparr>mg_sub_timer := i\<rparr>)
           | b # bs \<Rightarrow>
               (let (r, g1) = md_call E (Rq_Sub b) (g\<lparr>mg_batches := bs\<rparr>);
                    (i, g2) = md_schedule (mc_batch_delay (mg_cfg g1)) (Next_Batch (mg_sub_gen g)) g1
                in g2\<lparr>mg_sub_timer := i\<rparr>))"

definition end_chain :: "md_gateway \<Rightarrow> md_gateway" where
  "end_chain g = g\<lparr>mg_check_active := False, mg_retry_count := 0, mg_sub_timer := 0\<rparr>"

definition on_batch_complete :: "md_env \<Rightarrow> md_gateway \<Rightarrow> md_gateway" where
  "on_batch_complete E g =
     (if \<not> mg_api g \<or> \<not> md_logged_in g then end_chain g
      else let (pending, m) = check_subscribe_status (mg_subs g); g1 = g\<lparr>mg_subs := m\<rparr>
           in case decide_batch_check_action (mg_batches g1 \<noteq> []) (pending \<noteq> []) (mg_retry_count g1) (mc_max_retry (mg_cfg g1)) of
                Continue_Send \<Rightarrow> send_next_batch E g1
              | Batch_Done \<Rightarrow> report_md_status (end_chain g1)
              | Give_Up \<Rightarrow> report_md_status (end_chain (map_info reset_pending_state g1))
              | Retry \<Rightarrow> send_next_batch E (enqueue_batches pending (g1\<lparr>mg_retry_count := mg_retry_count g1 + 1\<rparr>)))"

fun send_unsubs :: "md_env \<Rightarrow> string list list \<Rightarrow> md_gateway \<Rightarrow> md_gateway" where
  "send_unsubs E [] g = g"
| "send_unsubs E (b # bs) g = send_unsubs E bs (snd (md_call E (Rq_Unsub b) g))"

definition batch_unsubscribe :: "md_env \<Rightarrow> string list \<Rightarrow> md_gateway \<Rightarrow> md_gateway" where
  "batch_unsubscribe E is g =
     (if is = [] \<or> \<not> mg_api g then g else send_unsubs E (make_batches is (mc_batch_size (mg_cfg g))) g)"

text \<open>The head of a chain: the flag keeps a second one from starting.\<close>

definition start_chain :: "md_env \<Rightarrow> string list \<Rightarrow> md_gateway \<Rightarrow> md_gateway" where
  "start_chain E is g =
     (let g1 = enqueue_batches is (map_info (mark_pending is) g)
      in if mg_check_active g1 then g1 else send_next_batch E (g1\<lparr>mg_check_active := True\<rparr>))"

definition on_subscribe_req :: "md_env \<Rightarrow> subscribe_req option \<Rightarrow> md_gateway \<Rightarrow> md_gateway" where
  "on_subscribe_req E r g =
     (let (res, m) = handle_subscribe r (sm_info (mg_subs g));
          g1 = batch_unsubscribe E (sr_to_unsubscribe res) (map_info (\<lambda>_. m) g)
      in if sr_to_subscribe res = [] then g1
         else if mg_api g1 \<and> md_logged_in g1 then start_chain E (sr_to_subscribe res) g1
         else g1)"

text \<open>Answers carry the error number and the contract; either may be missing.\<close>

definition on_rsp_sub :: "md_env \<Rightarrow> int option \<Rightarrow> string option \<Rightarrow> md_gateway \<Rightarrow> md_gateway" where
  "on_rsp_sub E err inst g =
     (if \<not> mg_api g then g
      else case (err, inst) of
             (Some e, Some i) \<Rightarrow>
               if \<not> md_logged_in g then g
               else (let (again, m) = on_sub_confirmed i (e = 0) (sm_info (mg_subs g)); g1 = map_info (\<lambda>_. m) g
                     in if again then batch_unsubscribe E [i] g1 else g1)
           | _ \<Rightarrow> g)"

definition on_rsp_unsub :: "int option \<Rightarrow> string option \<Rightarrow> md_gateway \<Rightarrow> md_gateway" where
  "on_rsp_unsub err inst g =
     (if \<not> mg_api g then g
      else case (err, inst) of
             (Some e, Some i) \<Rightarrow> if \<not> md_logged_in g then g else if e \<noteq> 0 then g else map_info (on_unsub_confirmed i) g
           | _ \<Rightarrow> g)"

text \<open>The part that the three ways to lose a session share.\<close>

definition clear_chain :: "md_gateway \<Rightarrow> md_gateway" where
  "clear_chain g =
     (let g1 = g\<lparr>mg_batches := [], mg_check_active := False, mg_retry_count := 0\<rparr>;
          g2 = (if mg_sub_timer g1 \<noteq> 0 then (drop_timer (mg_sub_timer g1) g1)\<lparr>mg_sub_timer := 0\<rparr> else g1)
      in g2\<lparr>mg_sub_gen := mg_sub_gen g2 + 1\<rparr>)"

section \<open>Connection and login\<close>

definition md_cancel_connect_timer :: "md_gateway \<Rightarrow> md_gateway" where
  "md_cancel_connect_timer g = (if mg_connect_timer g \<noteq> 0 then (drop_timer (mg_connect_timer g) g)\<lparr>mg_connect_timer := 0\<rparr> else g)"

definition md_cancel_login_timer :: "md_gateway \<Rightarrow> md_gateway" where
  "md_cancel_login_timer g = (if mg_login_timer g \<noteq> 0 then (drop_timer (mg_login_timer g) g)\<lparr>mg_login_timer := 0\<rparr> else g)"

definition current_broker :: "md_gateway \<Rightarrow> ctp_broker option" where
  "current_broker g = find_current_broker_in (mc_brokers (mg_cfg g)) (mc_current (mg_cfg g))"

definition req_user_login :: "md_env \<Rightarrow> bool \<Rightarrow> md_gateway \<Rightarrow> md_gateway" where
  "req_user_login E user_initiated g =
     (if \<not> mg_api g then g
      else if \<not> can_login (mg_status g) then g
      else case current_broker g of
             None \<Rightarrow> g
           | Some b \<Rightarrow>
               (let g1 = g\<lparr>mg_request_id := mg_request_id g + 1\<rparr>;
                    (r, g2) = md_call E (Rq_Login (fit 11 (cb_broker_id b)) (fit 16 (cb_user_id b)) (fit 41 (cb_password b)) (mg_request_id g1)) g1
                in if r \<noteq> 0 then (if user_initiated then warn_ui Md_Warn (Login_Request_Failed r) g2 else g2)
                   else let g3 = report_md_status (md_machine md_on_req_login g2);
                            (i, g4) = md_schedule_replace ''login_timeout'' 10000 Login_Deadline g3
                        in g4\<lparr>mg_login_timer := i\<rparr>))"

definition md_front :: "string \<Rightarrow> string" where
  "md_front a = (if take 6 a \<noteq> ''tcp://'' \<and> take 6 a \<noteq> ''ssl://'' \<and> take 5 a \<noteq> ''socks'' then ''tcp://'' @ a else a)"

text \<open>\<open>created\<close> says that the library returned an object.\<close>

definition md_connect :: "md_env \<Rightarrow> bool \<Rightarrow> bool \<Rightarrow> md_gateway \<Rightarrow> md_gateway" where
  "md_connect E created user_initiated g =
     (let refuse = (\<lambda>l t. if user_initiated then warn_ui l t g else g) in
      if can_login (mg_status g) then req_user_login E user_initiated g
      else if ms_state (mg_status g) = MDisconnected then refuse Md_Warn Retry_While_Reconnecting
      else if ms_state (mg_status g) \<noteq> MIdle then refuse Md_Warn Retry_While_Connecting
      else if mc_current (mg_cfg g) = [] then refuse Md_Warn No_Current_Broker
      else case current_broker g of
             None \<Rightarrow> refuse Md_Warn Broker_Not_Found
           | Some b \<Rightarrow>
               if \<not> list_ex fst (cb_frontends b) then refuse Md_Warn No_Frontend
               else if \<not> created then refuse Md_Error Not_Created
               else let g1 = fold log_call (Rq_Create (mc_flow_dir (mg_cfg g)) #
                           map (\<lambda>f. Rq_Front (md_front (snd f))) (filter fst (cb_frontends b)) @ [Rq_Init]) (g\<lparr>mg_api := True\<rparr>);
                        g2 = report_md_status (md_machine md_on_connect (g1\<lparr>mg_user_initiated := user_initiated\<rparr>));
                        (i, g3) = md_schedule_replace ''connect_timeout'' 30000 Connect_Deadline g2
                    in g3\<lparr>mg_connect_timer := i\<rparr>)"

definition md_disconnect :: "md_gateway \<Rightarrow> md_gateway" where
  "md_disconnect g =
     (let g1 = md_cancel_login_timer ((md_cancel_connect_timer g)\<lparr>mg_user_initiated := False\<rparr>);
          g2 = (if mg_api g1 then (log_call Rq_Release g1)\<lparr>mg_api := False\<rparr> else g1)
      in report_md_status (clear_chain (map_subs sub_on_idle (md_machine md_on_disconnect g2))))"

definition md_front_connected :: "md_env \<Rightarrow> md_gateway \<Rightarrow> md_gateway" where
  "md_front_connected E g =
     (let g1 = md_machine md_on_front_connected (md_cancel_connect_timer g)
      in req_user_login E (mg_user_initiated g1) (g1\<lparr>mg_user_initiated := False\<rparr>))"

definition md_front_disconnected :: "int \<Rightarrow> md_gateway \<Rightarrow> md_gateway" where
  "md_front_disconnected reason g =
     report_md_status (md_cancel_connect_timer (md_cancel_login_timer (clear_chain
       (map_subs sub_on_session_lost (md_machine (md_on_front_disconnected reason) g)))))"

definition on_rsp_user_logout :: "int option \<Rightarrow> md_gateway \<Rightarrow> md_gateway" where
  "on_rsp_user_logout err g =
     (case err of
        None \<Rightarrow> g
      | Some e \<Rightarrow> if e \<noteq> 0 then g
                  else report_md_status (clear_chain (map_subs sub_on_session_lost (md_machine md_on_server_logout g))))"

text \<open>The login data: version, trading day; the receiving thread has parsed the day.\<close>

record md_login_rsp =
  ml_info :: "(int \<times> string) option"
  ml_user :: "(string \<times> string) option"
  ml_time :: string

definition day_unreadable :: "md_login_rsp \<Rightarrow> bool" where
  "day_unreadable f = (case (ml_info f, ml_user f) of
     (Some (e, t), Some (v, d)) \<Rightarrow> e = 0 \<and> trading_day_to_days d = None | _ \<Rightarrow> False)"

definition login_error :: "int \<Rightarrow> md_failure \<Rightarrow> string \<Rightarrow> int \<Rightarrow> md_gateway \<Rightarrow> md_gateway" where
  "login_error now c t eid g = report_md_status (md_machine (md_on_login_failed now c t eid) g)"

text \<open>The details of failed logins, as UTF-8.\<close>

definition no_error_info_text :: string where
  "no_error_info_text =
     utf8 [231, 153, 187, 229, 189, 149, 229, 147, 141, 229, 186, 148, 231, 188, 186, 229, 176, 145, 233, 148, 153, 232,
       175, 175, 228, 191, 161, 230, 129, 175]"

definition no_login_data_text :: string where
  "no_login_data_text =
     utf8 [231, 153, 187, 229, 189, 149, 229, 147, 141, 229, 186, 148, 231, 188, 186, 229, 176, 145, 231, 153, 187, 229,
       189, 149, 230, 149, 176, 230, 141, 174]"

definition bad_day_text :: string where
  "bad_day_text =
     utf8 [231, 153, 187, 229, 189, 149, 229, 147, 141, 229, 186, 148, 228, 186, 164, 230, 152, 147, 230, 151, 165, 232,
       167, 163, 230, 158, 144, 229, 164, 177, 232, 180, 165]"

definition login_timeout_text :: string where
  "login_timeout_text =
     utf8 [49, 48, 32, 231, 167, 146, 229, 134, 133, 230, 156, 170, 230, 148, 182, 229, 136, 176, 231, 153, 187, 229,
       189, 149, 229, 147, 141, 229, 186, 148]"

definition md_user_login :: "md_env \<Rightarrow> int \<Rightarrow> md_login_rsp \<Rightarrow> md_gateway \<Rightarrow> md_gateway" where
  "md_user_login E now f g =
     (if ms_state (mg_status g) \<noteq> MLoggingIn then g
      else let g1 = md_cancel_login_timer g
           in case ml_info f of
                None \<Rightarrow> login_error now Login_Parse_Error no_error_info_text 0 g1
              | Some (eid, msg) \<Rightarrow>
                  if eid \<noteq> 0 then login_error now Login_Rejected (me_gbk E msg) eid g1
                  else (case ml_user f of
                          None \<Rightarrow> login_error now Login_Parse_Error no_login_data_text 0 g1
                        | Some (version, day) \<Rightarrow>
                            if day_unreadable f then login_error now Login_Parse_Error bad_day_text 0 g1
                            else let g2 = md_machine (md_on_login_success version day (ml_time f)) g1;
                                     (plan, m) = sub_on_logged_in (mg_subs g2);
                                     g3 = clear_chain (batch_unsubscribe E (lp_unsubscribe plan) (g2\<lparr>mg_subs := m\<rparr>))
                                 in report_md_status
                                      (if lp_resubscribe plan = [] then g3 else start_chain E (lp_resubscribe plan) g3)))"

text \<open>Aligned to second 25 of a minute, by the local clock.\<close>

definition sched_delay :: "int \<Rightarrow> int" where
  "sched_delay current_sec = (if current_sec < 25 then 25 - current_sec else (60 - current_sec) + 25)"

definition schedule_auto_sched_timer :: "md_now \<Rightarrow> md_gateway \<Rightarrow> md_gateway" where
  "schedule_auto_sched_timer w g = snd (md_schedule_replace ''auto_sched'' (sched_delay (nw_second w) * 1000) Schedule_Tick g)"

definition on_sched_timer :: "md_env \<Rightarrow> md_now \<Rightarrow> md_gateway \<Rightarrow> md_gateway" where
  "on_sched_timer E w g =
     schedule_auto_sched_timer w
       (case evaluate_sched_action (nw_sched w) (nw_weekday w) (nw_time w) (md_logged_in g) of
          Login_Action \<Rightarrow>
            if ms_state (mg_status g) = MIdle then md_connect E (nw_created w) False g
            else if can_login (mg_status g) then req_user_login E False g
            else g
        | Logout_Action \<Rightarrow> md_disconnect g
        | No_Action \<Rightarrow> g)"

definition try_recover_login :: "md_env \<Rightarrow> md_now \<Rightarrow> md_gateway \<Rightarrow> md_gateway" where
  "try_recover_login E w g =
     (if \<not> is_trading_window (nw_weekday w) (nw_time w) then g
      else if \<not> should_be_logged_in (nw_sched w) (nw_time w) then g
      else if ms_state (mg_status g) \<noteq> MIdle then g
      else md_connect E (nw_created w) False g)"

definition md_shutdown :: "md_gateway \<Rightarrow> md_gateway" where
  "md_shutdown g = (if mg_api g then md_disconnect g else g)"

section \<open>Timers\<close>

definition run_callback :: "md_env \<Rightarrow> md_now \<Rightarrow> md_callback \<Rightarrow> md_gateway \<Rightarrow> md_gateway" where
  "run_callback E w cb g =
     (case cb of
        Connect_Deadline \<Rightarrow>
          if ms_state (mg_status g) = MConnecting then md_disconnect (md_machine (md_on_connect_timeout (nw_ms w)) g) else g
      | Login_Deadline \<Rightarrow> if ms_state (mg_status g) = MLoggingIn then login_error (nw_ms w) Login_Timeout login_timeout_text 0 g else g
      | Next_Batch gen \<Rightarrow> if gen \<noteq> mg_sub_gen g then g else send_next_batch E g
      | Check_Batches gen \<Rightarrow> if gen \<noteq> mg_sub_gen g then g else on_batch_complete E g
      | Schedule_Tick \<Rightarrow> on_sched_timer E w g)"

definition fire_md_timer :: "md_env \<Rightarrow> md_now \<Rightarrow> nat \<Rightarrow> md_gateway \<Rightarrow> md_gateway" where
  "fire_md_timer E w i g =
     (case map_of (mg_timers g) i of
        None \<Rightarrow> g
      | Some (tag, ms, cb) \<Rightarrow> run_callback E w cb (drop_timer i g))"

section \<open>Events\<close>

datatype gateway_event =
    Ge_Connect
  | Ge_Disconnect
  | Ge_Shutdown
  | Ge_Recover
  | Ge_Subscribe "subscribe_req option"
  | Ge_Front_Connected
  | Ge_Front_Disconnected int
  | Ge_Login md_login_rsp
  | Ge_Logout "int option"
  | Ge_Sub_Rsp "int option" "string option"
  | Ge_Unsub_Rsp "int option" "string option"
  | Ge_Timer nat

definition gateway_step :: "md_env \<Rightarrow> md_now \<Rightarrow> gateway_event \<Rightarrow> md_gateway \<Rightarrow> md_gateway" where
  "gateway_step E w e g =
     (case e of
        Ge_Connect \<Rightarrow> md_connect E (nw_created w) True g
      | Ge_Disconnect \<Rightarrow> md_disconnect g
      | Ge_Shutdown \<Rightarrow> md_shutdown g
      | Ge_Recover \<Rightarrow> try_recover_login E w g
      | Ge_Subscribe r \<Rightarrow> on_subscribe_req E r g
      | Ge_Front_Connected \<Rightarrow> md_front_connected E g
      | Ge_Front_Disconnected r \<Rightarrow> md_front_disconnected r g
      | Ge_Login f \<Rightarrow> md_user_login E (nw_ms w) f g
      | Ge_Logout r \<Rightarrow> on_rsp_user_logout r g
      | Ge_Sub_Rsp r i \<Rightarrow> on_rsp_sub E r i g
      | Ge_Unsub_Rsp r i \<Rightarrow> on_rsp_unsub r i g
      | Ge_Timer i \<Rightarrow> fire_md_timer E w i g)"

end
