(* ===== verification/Md_Served.thy ===== *)
theory Md_Served
  imports Md_Gateway
begin

text \<open>
  The gateway together with the subscriptions at CTP: requests the library accepted are served in
  order and answered in order, and a lost session ends all subscriptions. What the subscription
  manager believes is then true as soon as the traffic under way has been dealt with.
\<close>

section \<open>Traffic\<close>

datatype ctp_op = Op_Sub string | Op_Unsub string

fun op_inst :: "ctp_op \<Rightarrow> string" where
  "op_inst (Op_Sub i) = i"
| "op_inst (Op_Unsub i) = i"

definition request_ops :: "md_request \<times> int \<Rightarrow> ctp_op list" where
  "request_ops q = (if snd q \<noteq> 0 then []
     else case fst q of Rq_Sub is \<Rightarrow> map Op_Sub is | Rq_Unsub is \<Rightarrow> map Op_Unsub is | _ \<Rightarrow> [])"

definition accepted_ops :: "md_gateway \<Rightarrow> ctp_op list" where
  "accepted_ops g = concat (map request_ops (mg_requests g))"

definition queued_ops :: "md_gateway \<Rightarrow> ctp_op list" where
  "queued_ops g = map Op_Sub (concat (mg_batches g))"

text \<open>The last thing said about a contract.\<close>

definition last_op :: "ctp_op list \<Rightarrow> string \<Rightarrow> ctp_op option" where
  "last_op L i = (let F = filter (\<lambda>x. op_inst x = i) L in if F = [] then None else Some (last F))"

lemma last_op_append: "last_op (L @ M) i = (case last_op M i of None \<Rightarrow> last_op L i | Some x \<Rightarrow> Some x)"
  by (simp add: last_op_def Let_def)

lemma last_op_Nil [simp]: "last_op [] i = None"
  by (simp add: last_op_def)

lemma last_op_None: "last_op L i = None \<longleftrightarrow> i \<notin> op_inst ` set L"
  by (auto simp: last_op_def Let_def filter_empty_conv)

lemma last_op_Subs: "last_op (map Op_Sub is) i = (if i \<in> set is then Some (Op_Sub i) else None)"
proof (cases "i \<in> set is")
  case True
  have F: "filter (\<lambda>x. op_inst x = i) (map Op_Sub is) = map Op_Sub (filter (\<lambda>j. j = i) is)"
    by (induction "is") auto
  have "filter (\<lambda>j. j = i) is \<noteq> []" using True by (auto simp: filter_empty_conv)
  moreover from this have "last (filter (\<lambda>j. j = i) is) = i" using last_in_set by fastforce
  ultimately show ?thesis using True by (simp add: last_op_def F last_map)
next
  case False
  then have "last_op (map Op_Sub is) i = None" by (auto simp: last_op_None)
  with False show ?thesis by simp
qed

lemma last_op_Unsubs: "i \<notin> set is \<Longrightarrow> last_op (map Op_Unsub is) i = None"
  by (auto simp: last_op_None)

lemma last_op_Cons: "last_op (x # L) i = (case last_op L i of None \<Rightarrow> if op_inst x = i then Some x else None | Some y \<Rightarrow> Some y)"
  by (simp add: last_op_def Let_def)

section \<open>What the invariant reads\<close>

text \<open>\<open>n\<close> is how many accepted requests for a contract have been answered, \<open>V\<close> the contracts CTP serves.\<close>

definition traffic :: "nat \<Rightarrow> md_gateway \<Rightarrow> ctp_op list" where
  "traffic n g = drop n (accepted_ops g) @ queued_ops g"

abbreviation info :: "md_gateway \<Rightarrow> sub_map" where
  "info g \<equiv> sm_info (mg_subs g)"

definition wanted_ok :: "nat \<Rightarrow> (string \<Rightarrow> bool) \<Rightarrow> md_gateway \<Rightarrow> string \<Rightarrow> bool" where
  "wanted_ok n V g i \<longleftrightarrow>
     (\<forall>e. map_of (info g) i = Some e \<longrightarrow> si_subs e \<noteq> [] \<longrightarrow>
        last_op (traffic n g) i \<noteq> Some (Op_Unsub i) \<and>
        (si_state e \<noteq> NotRequested \<longrightarrow> last_op (traffic n g) i = None \<longrightarrow> V i))"

definition sub_ok :: "sub_map \<Rightarrow> bool" where
  "sub_ok m \<longleftrightarrow> distinct (map fst m) \<and> (\<forall>i e. map_of m i = Some e \<longrightarrow> si_state e = Subscribed \<longrightarrow> si_subs e \<noteq> [])"

definition unrequested :: "sub_map \<Rightarrow> bool" where
  "unrequested m \<longleftrightarrow> (\<forall>i e. map_of m i = Some e \<longrightarrow> si_state e = NotRequested)"

text \<open>The contracts in \<open>X\<close> are about to be asked for.\<close>

definition gate_ok :: "nat \<Rightarrow> (string \<Rightarrow> bool) \<Rightarrow> string set \<Rightarrow> md_gateway \<Rightarrow> bool" where
  "gate_ok n V X g \<longleftrightarrow> sub_ok (info g) \<and> n \<le> length (accepted_ops g) \<and>
     (ms_state (mg_status g) \<noteq> MIdle \<longrightarrow> mg_api g) \<and>
     (if md_logged_in g then mg_api g \<and> (\<forall>i. i \<notin> X \<longrightarrow> wanted_ok n V g i)
      else mg_batches g = [] \<and> unrequested (info g))"

text \<open>The fields read.\<close>

definition core :: "md_gateway \<Rightarrow> sub_map \<times> string list list \<times> ctp_op list \<times> bool \<times> bool \<times> md_state" where
  "core g = (info g, mg_batches g, accepted_ops g, md_logged_in g, mg_api g, ms_state (mg_status g))"

lemma gate_ok_core: "core g' = core g \<Longrightarrow> gate_ok n V X g' = gate_ok n V X g"
  by (simp add: core_def gate_ok_def wanted_ok_def traffic_def queued_ops_def)

lemma core_fields [simp]:
  "core (g\<lparr>mg_check_active := b\<rparr>) = core g" "core (g\<lparr>mg_retry_count := r\<rparr>) = core g" "core (g\<lparr>mg_sub_gen := n\<rparr>) = core g"
  "core (g\<lparr>mg_sub_timer := n\<rparr>) = core g" "core (g\<lparr>mg_connect_timer := n\<rparr>) = core g" "core (g\<lparr>mg_login_timer := n\<rparr>) = core g"
  "core (g\<lparr>mg_user_initiated := b\<rparr>) = core g" "core (g\<lparr>mg_request_id := r\<rparr>) = core g" "core (g\<lparr>mg_last_timer := n, mg_timers := ts\<rparr>) = core g"
  "core (drop_timer k g) = core g" "core (report_md_status g) = core g" "core (warn_ui l t g) = core g" "core (end_chain g) = core g"
  "core (md_cancel_connect_timer g) = core g" "core (md_cancel_login_timer g) = core g" "core (snd (md_schedule ms cb g)) = core g"
  "core (snd (md_schedule_replace tag ms cb g)) = core g"
  by (simp_all add: core_def accepted_ops_def md_logged_in_def drop_timer_def report_md_status_def warn_ui_def end_chain_def
      md_cancel_connect_timer_def md_cancel_login_timer_def md_schedule_def md_schedule_replace_def set_subscription_stats_def Let_def)

lemma core_calls [simp]:
  "core (log_call q g) = (info g, mg_batches g, accepted_ops g @ request_ops (q, 0), md_logged_in g, mg_api g, ms_state (mg_status g))"
  "core (snd (md_call E q g)) = (info g, mg_batches g, accepted_ops g @ request_ops (q, me_rets E (mg_calls g)), md_logged_in g, mg_api g, ms_state (mg_status g))"
  by (simp_all add: core_def accepted_ops_def md_logged_in_def log_call_def md_call_def Let_def)

lemma gate_ok_coreI: "core g' = core g \<Longrightarrow> gate_ok n V X g \<Longrightarrow> gate_ok n V X g'"
  using gate_ok_core by blast

section \<open>Batches\<close>

lemma concat_chunks: "0 < n \<Longrightarrow> concat (chunks n xs) = xs"
proof (induction n xs rule: chunks.induct)
  case (1 n xs)
  then show ?case by (cases "xs = []") (simp_all add: chunks.simps [of n xs] chunks.simps [of n "[]"])
qed

lemma concat_make_batches [simp]: "concat (make_batches is n) = is"
  by (simp add: make_batches_def concat_chunks batch_size_def)

text \<open>All requests are accepted.\<close>

definition accepting :: "md_env \<Rightarrow> bool" where
  "accepting E \<longleftrightarrow> (\<forall>k. me_rets E k = 0)"

lemma core_send_batch:
  assumes "accepting E"
  shows "core (send_next_batch E g) =
     (if \<not> mg_api g \<or> \<not> md_logged_in g \<or> mg_batches g = [] then core g
      else (info g, tl (mg_batches g), accepted_ops g @ map Op_Sub (hd (mg_batches g)), md_logged_in g, mg_api g, ms_state (mg_status g)))"
proof (cases "mg_batches g")
  case Nil
  then show ?thesis
    by (simp add: send_next_batch_def split_beta)
next
  case (Cons b bs)
  then show ?thesis using assms
    by (auto simp: send_next_batch_def split_beta accepting_def request_ops_def)
       (simp_all add: md_schedule_def md_call_def core_def accepted_ops_def md_logged_in_def request_ops_def Let_def)
qed

text \<open>Sending a batch moves requests from the queue to the wire.\<close>

lemma gate_ok_send:
  assumes "accepting E" "gate_ok n V X g"
  shows "gate_ok n V X (send_next_batch E g)"
proof (cases "\<not> mg_api g \<or> \<not> md_logged_in g \<or> mg_batches g = []")
  case True
  then show ?thesis using gate_ok_coreI [OF _ assms(2)] core_send_batch [OF assms(1), of g] by simp
next
  case False
  let ?g = "send_next_batch E g"
  have c: "info ?g = info g" "mg_batches ?g = tl (mg_batches g)" "accepted_ops ?g = accepted_ops g @ map Op_Sub (hd (mg_batches g))"
    "md_logged_in ?g = md_logged_in g" "mg_api ?g = mg_api g"
    using core_send_batch [OF assms(1), of g] False by (simp_all add: core_def)
  have n: "n \<le> length (accepted_ops g)" using assms(2) by (simp add: gate_ok_def)
  have "mg_batches g = hd (mg_batches g) # tl (mg_batches g)" using False by simp
  then have "traffic n ?g = traffic n g" using n
    by (simp add: traffic_def queued_ops_def c) (metis concat.simps(2) map_append)
  then show ?thesis using assms(2) False n c by (simp add: gate_ok_def wanted_ok_def)
qed

lemma core_unsubs:
  assumes "accepting E"
  shows "core (send_unsubs E bs g) =
     (info g, mg_batches g, accepted_ops g @ map Op_Unsub (concat bs), md_logged_in g, mg_api g, ms_state (mg_status g))"
proof (induction bs arbitrary: g)
  case (Cons b bs)
  let ?g = "snd (md_call E (Rq_Unsub b) g)"
  have "core ?g = (info g, mg_batches g, accepted_ops g @ map Op_Unsub b, md_logged_in g, mg_api g, ms_state (mg_status g))"
    using assms by (simp add: accepting_def request_ops_def)
  then show ?case using Cons [of ?g] by (simp add: core_def)
qed (simp add: core_def)

lemma gate_ok_unsubs:
  assumes "accepting E" "gate_ok n V X g" "is \<noteq> [] \<Longrightarrow> md_logged_in g"
    and "\<And>i e. i \<in> set is \<Longrightarrow> i \<notin> X \<Longrightarrow> map_of (info g) i = Some e \<Longrightarrow> si_subs e = []"
  shows "gate_ok n V X (batch_unsubscribe E is g)"
proof (cases "is = [] \<or> \<not> mg_api g")
  case True
  then show ?thesis using assms(2) by (auto simp: batch_unsubscribe_def)
next
  case False
  let ?g = "batch_unsubscribe E is g"
  have c: "info ?g = info g" "mg_batches ?g = mg_batches g" "accepted_ops ?g = accepted_ops g @ map Op_Unsub is"
    "md_logged_in ?g = md_logged_in g" "mg_api ?g = mg_api g"
    using core_unsubs [OF assms(1), of "make_batches is (mc_batch_size (mg_cfg g))" g] False
    by (simp_all add: batch_unsubscribe_def core_def)
  have n: "n \<le> length (accepted_ops g)" using assms(2) by (simp add: gate_ok_def)
  have l: "last_op (traffic n ?g) i = last_op (traffic n g) i" if "i \<notin> set is" for i
    using n last_op_Unsubs [OF that] by (simp add: traffic_def queued_ops_def c last_op_append split: option.split)
  have "wanted_ok n V ?g i" if "i \<notin> X" for i
  proof (cases "i \<in> set is")
    case True
    then show ?thesis using assms(4) [OF True that] by (auto simp: wanted_ok_def c)
  next
    case not: False
    then show ?thesis using assms(2,3) that False l [OF not] by (auto simp: gate_ok_def wanted_ok_def c)
  qed
  then show ?thesis using assms(2) n c False assms(3) by (simp add: gate_ok_def)
qed

section \<open>Asking for contracts\<close>

lemma map_of_upd: "map_of (AList.map_entry i f m) j = (if j = i then map_option f (map_of m j) else map_of m j)"
  by (induction m) auto

lemma map_of_mark: "map_of (mark_pending is m) i = (if i \<in> set is then map_option (set_sub_state Pending) (map_of m i) else map_of m i)"
proof (induction "is" arbitrary: m)
  case (Cons a "is")
  have "set_sub_state Pending \<circ> set_sub_state Pending = set_sub_state Pending" by (auto simp: set_sub_state_def)
  then show ?case using Cons [of "AList.map_entry a (set_sub_state Pending) m"]
    by (auto simp: mark_pending_def map_of_upd option.map_comp)
qed (simp add: mark_pending_def)

lemma distinct_entry [simp]: "map fst (AList.map_entry i f m) = map fst m"
  by (induction m) auto

lemma distinct_mark [simp]: "map fst (mark_pending is m) = map fst m"
  unfolding mark_pending_def by (induction "is" arbitrary: m) simp_all

lemma set_sub_state_simps [simp]: "si_subs (set_sub_state st e) = si_subs e" "si_state (set_sub_state st e) = st"
  by (simp_all add: set_sub_state_def)

lemma gate_ok_chain:
  assumes "accepting E" "gate_ok n V X g" "md_logged_in g" "X \<subseteq> set is"
  shows "gate_ok n V {} (start_chain E is g)"
proof -
  define h where "h = enqueue_batches is (map_info (mark_pending is) g)"
  have c: "info h = mark_pending is (info g)" "queued_ops h = queued_ops g @ map Op_Sub is" "accepted_ops h = accepted_ops g"
    "md_logged_in h = md_logged_in g" "mg_api h = mg_api g"
    by (simp_all add: h_def enqueue_batches_def map_info_def accepted_ops_def md_logged_in_def queued_ops_def)
  have t: "last_op (traffic n h) i = (if i \<in> set is then Some (Op_Sub i) else last_op (traffic n g) i)" for i
    by (simp add: traffic_def c last_op_append last_op_Subs split: option.split)
  have "wanted_ok n V h i" for i
  proof (cases "i \<in> set is")
    case True
    then show ?thesis by (simp add: wanted_ok_def t)
  next
    case False
    then have "wanted_ok n V g i" using assms by (auto simp: gate_ok_def)
    then show ?thesis using False by (simp add: wanted_ok_def t c map_of_mark)
  qed
  moreover have "sub_ok (info h)"
    using assms(2) by (auto simp: gate_ok_def sub_ok_def c map_of_mark split: if_splits)
  ultimately have h: "gate_ok n V {} h" using assms(2,3) c by (simp add: gate_ok_def)
  then have "gate_ok n V {} (h\<lparr>mg_check_active := True\<rparr>)" by (rule gate_ok_coreI [rotated]) simp
  from gate_ok_send [OF assms(1) this] show ?thesis using h
    by (simp add: start_chain_def h_def [symmetric] Let_def)
qed

section \<open>Requests of the strategies\<close>

text \<open>
  \<open>U\<close> is to be cancelled, \<open>S\<close> to be asked for: whoever still has subscribers and is not in \<open>S\<close>
  had some before, in the same state, and is not cancelled.
\<close>

definition sub_change :: "string list \<Rightarrow> string list \<Rightarrow> sub_map \<Rightarrow> sub_map \<Rightarrow> bool" where
  "sub_change U S m m' \<longleftrightarrow> sub_ok m' \<and> (unrequested m \<longrightarrow> unrequested m' \<and> U = []) \<and>
     (\<forall>i e'. map_of m' i = Some e' \<longrightarrow> si_subs e' \<noteq> [] \<longrightarrow> i \<notin> set S \<longrightarrow>
        i \<notin> set U \<and> (\<exists>e. map_of m i = Some e \<and> si_subs e \<noteq> [] \<and> si_state e' = si_state e))"

lemma sub_change_refl: "sub_ok m \<Longrightarrow> sub_change [] [] m m"
  by (simp add: sub_change_def)

lemma sub_change_trans:
  assumes "sub_change U S m m1" "sub_change U' S' m1 m2"
  shows "sub_change (U @ U') (S @ S') m m2"
  using assms unfolding sub_change_def by (smt (verit) Un_iff append_Nil set_append)
lemma map_of_emplace:
  "map_of m i = None \<Longrightarrow> map_of (insort_key fst (i, v) m) j = (if j = i then Some v else map_of m j)"
  by (induction m) auto

lemma distinct_emplace: "map_of m i = None \<Longrightarrow> distinct (map fst (insort_key fst (i, v) m)) = distinct (map fst m)"
  by (induction m) (auto simp: set_insort_key split: if_splits)

lemma add_sub_simps [simp]: "si_state (add_sub who e) = si_state e" "si_subs (add_sub who e) \<noteq> []"
proof -
  have "insort who xs \<noteq> []" for xs :: "string list" by (cases xs) auto
  then show "si_state (add_sub who e) = si_state e" "si_subs (add_sub who e) \<noteq> []" by (auto simp: add_sub_def)
qed

lemma drop_sub_state [simp]: "si_state (drop_sub who e) = si_state e"
  by (simp add: drop_sub_def)

lemma drop_sub_subs: "si_subs (drop_sub who e) \<noteq> [] \<Longrightarrow> si_subs e \<noteq> []"
  by (auto simp: drop_sub_def)

lemma new_info_simps [simp]: "si_state new_info = NotRequested" "si_subs new_info = []"
  by (simp_all add: new_info_def)

lemma subscribe_one:
  assumes "sub_ok m" "(fresh, m1) = try_emplace i m" "m2 = AList.map_entry i (add_sub who) m1"
    and "need = (fresh \<or> map_option si_state (map_of m2 i) \<noteq> Some Subscribed)"
  shows "sub_change [] (if need then [i] else []) m m2"
proof (cases "map_of m i")
  case None
  then have m1: "m1 = insort_key fst (i, new_info) m" "need" using assms(2,4) by (auto simp: try_emplace_def)
  have l: "map_of m2 j = (if j = i then Some (add_sub who new_info) else map_of m j)" for j
    by (simp add: assms(3) m1 map_of_upd map_of_emplace [OF None])
  have "distinct (map fst m2)" using assms(1) by (simp add: assms(3) m1 distinct_emplace [OF None] sub_ok_def)
  then show ?thesis using assms(1) m1 l by (auto simp: sub_change_def sub_ok_def unrequested_def split: if_splits)
next
  case (Some e)
  then have m1: "m1 = m" "need = (si_state e \<noteq> Subscribed)" using assms(2-4) by (auto simp: try_emplace_def map_of_upd)
  have l: "map_of m2 j = (if j = i then Some (add_sub who e) else map_of m j)" for j
    using Some by (simp add: assms(3) m1 map_of_upd)
  have "distinct (map fst m2)" using assms(1) by (simp add: assms(3) m1 sub_ok_def)
  then show ?thesis using assms(1) Some m1 l by (auto simp: sub_change_def sub_ok_def unrequested_def split: if_splits)
qed

lemma subscribe_change:
  "sub_ok m \<Longrightarrow> subscribe_from who seen is m = (S, m') \<Longrightarrow> sub_change [] S m m'"
proof (induction who seen "is" m arbitrary: S m' rule: subscribe_from.induct)
  case (1 who seen m)
  then show ?case by (simp add: sub_change_refl)
next
  case (2 who seen i "is" m)
  show ?case
  proof (cases "i \<in> set seen")
    case True
    then show ?thesis using 2 by simp
  next
    case False
    obtain fresh m1 where e: "try_emplace i m = (fresh, m1)" by fastforce
    define m2 where "m2 = AList.map_entry i (add_sub who) m1"
    define need where "need = (fresh \<or> map_option si_state (map_of m2 i) \<noteq> Some Subscribed)"
    have one: "sub_change [] (if need then [i] else []) m m2"
      by (rule subscribe_one [OF 2(3) e [symmetric] m2_def need_def])
    obtain r m3 where r: "subscribe_from who (i # seen) is m2 = (r, m3)" by fastforce
    have "sub_change [] r m2 m3"
      using 2(2) [OF False e [symmetric] refl m2_def need_def _ r] one r by (simp add: sub_change_def)
    moreover have "S = (if need then i # r else r)" "m' = m3"
      using 2(4) False by (auto simp: e Let_def m2_def [symmetric] r need_def)
    ultimately show ?thesis using sub_change_trans [OF one] by fastforce
  qed
qed

lemma map_of_put: "map_of (put_info i e m) j = (if j = i then map_option (\<lambda>_. e) (map_of m j) else map_of m j)"
  by (simp add: put_info_def map_of_upd)

lemma distinct_put [simp]: "map fst (put_info i e m) = map fst m"
  by (simp add: put_info_def)

lemma distinct_del: "distinct (map fst m) \<Longrightarrow> distinct (map fst (AList.delete i m))"
  by (rule distinct_delete)

lemma unsubscribe_change:
  "sub_ok m \<Longrightarrow> unsubscribe who is m = (U, m') \<Longrightarrow> sub_change U [] m m'"
proof (induction who "is" m arbitrary: U m' rule: unsubscribe.induct)
  case (1 who m)
  then show ?case by (simp add: sub_change_refl)
next
  case (2 who i "is" m)
  show ?case
  proof (cases "map_of m i")
    case None
    then show ?thesis using 2 by simp
  next
    case (Some e0)
    define e where "e = drop_sub who e0"
    have s: "si_state e = si_state e0" "si_subs e \<noteq> [] \<Longrightarrow> si_subs e0 \<noteq> []" by (simp add: e_def, simp add: e_def drop_sub_subs)
    consider (cancel) "si_subs e = []" "si_state e = Subscribed" | (erase) "si_subs e = []" "si_state e = NotRequested"
      | (keep) "\<not> (si_subs e = [] \<and> (si_state e = Subscribed \<or> si_state e = NotRequested))" by auto
    then show ?thesis
    proof cases
      case cancel
      define m1 where "m1 = put_info i (set_sub_state NotRequested e) m"
      have one: "sub_change [i] [] m m1"
      proof -
        have "\<not> unrequested m" unfolding unrequested_def using Some cancel s by (metis sub_state.distinct(3))
        then show ?thesis
          using 2(5) Some cancel s unfolding sub_change_def sub_ok_def m1_def by (auto simp: map_of_put split: if_splits)
      qed
      obtain r m3 where r: "unsubscribe who is m1 = (r, m3)" by fastforce
      have "sub_change r [] m1 m3" using 2(2) [OF Some e_def] cancel r one by (simp add: m1_def sub_change_def)
      from sub_change_trans [OF one this] show ?thesis
        using 2(6) Some cancel by (simp add: e_def [symmetric] m1_def [symmetric] r Let_def)
    next
      case erase
      define m1 where "m1 = AList.delete i m"
      have one: "sub_change [] [] m m1"
        using 2(5) unfolding sub_change_def sub_ok_def unrequested_def m1_def
        by (auto simp: distinct_del delete_conv split: if_splits)
      have "sub_change U [] m1 m'" using 2(3) [OF Some e_def] erase one 2(6) Some
        by (simp add: m1_def [symmetric] sub_change_def [of "[]"] e_def [symmetric] Let_def)
      from sub_change_trans [OF one this] show ?thesis by simp
    next
      case keep
      define m1 where "m1 = put_info i e m"
      have one: "sub_change [] [] m m1"
        using 2(5) Some keep s unfolding sub_change_def sub_ok_def unrequested_def m1_def by (auto simp: map_of_put split: if_splits)
      have "unsubscribe who is m1 = (U, m')"
        using 2(6) Some keep by (auto simp: m1_def e_def [symmetric] Let_def split: if_splits)
      then have "sub_change U [] m1 m'" using 2(4) [OF Some e_def] keep one by (auto simp: m1_def [symmetric] sub_change_def [of "[]"])
      from sub_change_trans [OF one this] show ?thesis by simp
    qed
  qed
qed

lemma map_of_filtered:
  "distinct (map fst m) \<Longrightarrow> map_of (map (\<lambda>(i, e). (i, h e)) (filter (\<lambda>(i, e). P e) m)) j =
     (case map_of m j of Some e \<Rightarrow> if P e then Some (h e) else None | None \<Rightarrow> None)"
proof (induction m)
  case (Cons p m)
  obtain i e where p: "p = (i, e)" by fastforce
  have "map_of m i = None" using Cons(2) p by (simp add: map_of_eq_None_iff)
  then show ?case using Cons p by (cases "j = i") (auto split: option.split)
qed simp

lemma distinct_filtered: "distinct (map fst m) \<Longrightarrow> distinct (map fst (map (\<lambda>(i, e). (i, h e)) (filter (\<lambda>(i, e). P e) m)))"
  by (induction m) force+

lemma unsubscribe_all_change:
  assumes "sub_ok m" "unsubscribe_all who m = (U, m')"
  shows "sub_change U [] m m'"
proof -
  define P where "P e = (\<not> (left_by who e \<and> si_state e = NotRequested))" for e
  have d: "distinct (map fst m)" using assms(1) by (simp add: sub_ok_def)
  have m': "m' = map (\<lambda>(i, e). (i, leave who e)) (filter (\<lambda>(i, e). P e) m)"
    and U: "U = map fst (filter (\<lambda>(i, e). left_by who e \<and> si_state e = Subscribed) m)"
    using assms(2) by (auto simp: unsubscribe_all_def P_def)
  have l: "map_of m' j = (case map_of m j of Some e \<Rightarrow> if P e then Some (leave who e) else None | None \<Rightarrow> None)" for j
    unfolding m' by (rule map_of_filtered [OF d])
  have s: "si_state (leave who e) = Subscribed \<Longrightarrow> si_subs (leave who e) \<noteq> []"
    "si_subs (leave who e) \<noteq> [] \<Longrightarrow> si_subs e \<noteq> [] \<and> si_state (leave who e) = si_state e \<and> \<not> left_by who e"
    "si_state e = NotRequested \<Longrightarrow> si_state (leave who e) = NotRequested" for e
    by (auto simp: leave_def left_by_def drop_sub_subs split: if_splits)
  have u: "i \<in> set U \<Longrightarrow> \<exists>e. map_of m i = Some e \<and> left_by who e \<and> si_state e = Subscribed" for i
    using d by (auto simp: U)
  have "distinct (map fst m')" unfolding m' by (rule distinct_filtered [OF d])
  moreover have "U = []" if "unrequested m"
  proof (rule ccontr)
    assume "U \<noteq> []"
    from u [OF hd_in_set [OF this]] that show False by (auto simp: unrequested_def)
  qed
  moreover have "i \<notin> set U \<and> (\<exists>e. map_of m i = Some e \<and> si_subs e \<noteq> [] \<and> si_state e' = si_state e)"
    if a: "map_of m' i = Some e'" "si_subs e' \<noteq> []" for i e'
  proof -
    obtain e where e: "map_of m i = Some e" "e' = leave who e" using a(1) by (auto simp: l split: option.splits if_splits)
    with a(2) s(2) [of e] have "si_subs e \<noteq> []" "si_state e' = si_state e" "\<not> left_by who e" by auto
    with e u [of i] show ?thesis by auto
  qed
  moreover have "si_subs e' \<noteq> []" if "map_of m' i = Some e'" "si_state e' = Subscribed" for i e'
    using that s(1) by (auto simp: l split: option.splits if_splits)
  moreover have "unrequested m'" if "unrequested m"
    using that s(3) by (auto simp: unrequested_def l split: option.splits if_splits)
  ultimately show ?thesis unfolding sub_change_def sub_ok_def by blast
qed

lemma handle_subscribe_change:
  assumes "sub_ok m" "handle_subscribe r m = (res, m')"
  shows "sub_change (sr_to_unsubscribe res) (sr_to_subscribe res) m m'"
proof (cases r)
  case None
  then show ?thesis using assms by (auto simp: handle_subscribe_def sub_change_refl)
next
  case (Some q)
  let ?who = "sq_instance_id q"
  show ?thesis
  proof (cases "sq_action q")
    case Subscribe
    obtain U m1 where u: "(if sq_replace q then unsubscribe_all ?who m else ([], m)) = (U, m1)" by fastforce
    obtain S m2 where s: "subscribe ?who (sq_instruments q) m1 = (S, m2)" by fastforce
    have 1: "sub_change U [] m m1"
      using u unsubscribe_all_change [OF assms(1), of ?who] sub_change_refl [OF assms(1)] by (auto split: if_splits)
    then have "sub_ok m1" by (simp add: sub_change_def)
    from subscribe_change [OF this s [unfolded subscribe_def]] have "sub_change (U @ []) ([] @ S) m m2"
      by (rule sub_change_trans [OF 1])
    then show ?thesis using assms(2) Some Subscribe u s by (auto simp: handle_subscribe_def Let_def)
  next
    case Unsubscribe
    then show ?thesis using assms Some unsubscribe_change [OF assms(1)]
      by (auto simp: handle_subscribe_def Let_def split: prod.splits)
  next
    case Unsubscribe_All
    then show ?thesis using assms Some unsubscribe_all_change [OF assms(1)]
      by (auto simp: handle_subscribe_def Let_def split: prod.splits)
  qed
qed

lemma gate_ok_request:
  assumes "accepting E" "gate_ok n V {} g"
  shows "gate_ok n V {} (on_subscribe_req E r g)"
proof -
  obtain res m where h: "handle_subscribe r (info g) = (res, m)" by fastforce
  let ?U = "sr_to_unsubscribe res" and ?S = "sr_to_subscribe res"
  have "sub_ok (info g)" using assms(2) by (simp add: gate_ok_def)
  then have ch: "sub_change ?U ?S (info g) m" by (rule handle_subscribe_change [OF _ h])
  define g0 where "g0 = map_info (\<lambda>_. m) g"
  have c: "info g0 = m" "mg_batches g0 = mg_batches g" "accepted_ops g0 = accepted_ops g" "md_logged_in g0 = md_logged_in g"
    "mg_api g0 = mg_api g" "traffic n g0 = traffic n g" "mg_status g0 = mg_status g"
    by (simp_all add: g0_def map_info_def accepted_ops_def md_logged_in_def traffic_def queued_ops_def)
  define g1 where "g1 = batch_unsubscribe E ?U g0"
  have l1: "md_logged_in g1 = md_logged_in g" "mg_api g1 = mg_api g"
    using core_unsubs [OF assms(1), of "make_batches ?U (mc_batch_size (mg_cfg g0))" g0] c
    by (auto simp: g1_def batch_unsubscribe_def core_def)
  have g0: "gate_ok n V (set ?S) g0"
  proof (cases "md_logged_in g")
    case True
    have "wanted_ok n V g0 i" if "i \<notin> set ?S" for i
      unfolding wanted_ok_def c
    proof (intro allI impI)
      fix e' assume "map_of m i = Some e'" "si_subs e' \<noteq> []"
      with ch that obtain e where "map_of (info g) i = Some e" "si_subs e \<noteq> []" "si_state e' = si_state e"
        unfolding sub_change_def by blast
      with assms(2) True show "last_op (traffic n g) i \<noteq> Some (Op_Unsub i) \<and>
          (si_state e' \<noteq> NotRequested \<longrightarrow> last_op (traffic n g) i = None \<longrightarrow> V i)"
        by (simp add: gate_ok_def wanted_ok_def)
    qed
    then show ?thesis using assms(2) True ch by (simp add: gate_ok_def c sub_change_def)
  next
    case False
    then show ?thesis using assms(2) ch by (simp add: gate_ok_def c sub_change_def)
  qed
  have un: "?U \<noteq> [] \<Longrightarrow> md_logged_in g" using assms(2) ch by (auto simp: gate_ok_def sub_change_def split: if_splits)
  have g1: "gate_ok n V (set ?S) g1"
    unfolding g1_def
  proof (rule gate_ok_unsubs [OF assms(1) g0])
    show "?U \<noteq> [] \<Longrightarrow> md_logged_in g0" using un c by simp
    show "\<And>i e. i \<in> set ?U \<Longrightarrow> i \<notin> set ?S \<Longrightarrow> map_of (info g0) i = Some e \<Longrightarrow> si_subs e = []"
      using ch c by (auto simp: sub_change_def)
  qed
  have res: "on_subscribe_req E r g =
      (if ?S = [] then g1 else if mg_api g1 \<and> md_logged_in g1 then start_chain E ?S g1 else g1)"
    by (simp add: on_subscribe_req_def h g1_def g0_def Let_def)
  show ?thesis
  proof (cases "md_logged_in g")
    case True
    then have "mg_api g1" using l1 assms(2) by (simp add: gate_ok_def)
    then show ?thesis using g1 gate_ok_chain [OF assms(1) g1 _ subset_refl] True l1 unfolding res by (cases "?S = []") auto
  next
    case False
    then show ?thesis using g1 l1 unfolding res by (simp add: gate_ok_def)
  qed
qed

section \<open>Checking the batches\<close>

lemma gate_ok_enqueue:
  assumes "gate_ok n V {} g" "md_logged_in g"
  shows "gate_ok n V {} (enqueue_batches is g)"
proof -
  let ?h = "enqueue_batches is g"
  have c: "info ?h = info g" "queued_ops ?h = queued_ops g @ map Op_Sub is" "accepted_ops ?h = accepted_ops g"
    "md_logged_in ?h = md_logged_in g" "mg_api ?h = mg_api g" "mg_status ?h = mg_status g"
    by (simp_all add: enqueue_batches_def accepted_ops_def md_logged_in_def queued_ops_def)
  have "last_op (traffic n ?h) i = (if i \<in> set is then Some (Op_Sub i) else last_op (traffic n g) i)" for i
    by (simp add: traffic_def c last_op_append last_op_Subs split: option.split)
  then show ?thesis using assms by (simp add: gate_ok_def wanted_ok_def c)
qed

lemma map_of_reset: "map_of (reset_pending_state m) i =
    map_option (\<lambda>e. if si_state e = Pending then set_sub_state NotRequested e else e) (map_of m i)"
  by (induction m) (auto simp: reset_pending_state_def)

lemma distinct_reset [simp]: "map fst (reset_pending_state m) = map fst m"
  by (induction m) (auto simp: reset_pending_state_def)

lemma gate_ok_give_up:
  assumes "gate_ok n V {} g" "md_logged_in g"
  shows "gate_ok n V {} (map_info reset_pending_state g)"
proof -
  let ?h = "map_info reset_pending_state g"
  have c: "info ?h = reset_pending_state (info g)" "traffic n ?h = traffic n g" "accepted_ops ?h = accepted_ops g"
    "md_logged_in ?h = md_logged_in g" "mg_api ?h = mg_api g" "mg_status ?h = mg_status g"
    by (simp_all add: map_info_def accepted_ops_def md_logged_in_def traffic_def queued_ops_def)
  have "wanted_ok n V g i" for i using assms by (simp add: gate_ok_def)
  then have "wanted_ok n V ?h i" for i by (auto simp: wanted_ok_def c map_of_reset)
  moreover have "sub_ok (info ?h)" using assms(1) by (auto simp: gate_ok_def sub_ok_def c map_of_reset)
  ultimately show ?thesis using assms by (simp add: gate_ok_def c)
qed

lemma gate_ok_batch:
  assumes "accepting E" "gate_ok n V {} g"
  shows "gate_ok n V {} (on_batch_complete E g)"
proof (cases "mg_api g \<and> md_logged_in g")
  case False
  then have "on_batch_complete E g = end_chain g" by (auto simp: on_batch_complete_def)
  then show ?thesis using gate_ok_coreI [OF core_fields(13) assms(2)] by simp
next
  case True
  obtain pending m where c: "check_subscribe_status (mg_subs g) = (pending, m)" by fastforce
  define h where "h = g\<lparr>mg_subs := m\<rparr>"
  have h: "core h = core g" using c by (auto simp: h_def core_def check_subscribe_status_def accepted_ops_def md_logged_in_def)
  then have ok: "gate_ok n V {} h" "md_logged_in h" using gate_ok_coreI [OF h assms(2)] True by (simp_all add: core_def)
  have r: "core (h\<lparr>mg_retry_count := x\<rparr>) = core h" for x by simp
  have ok': "gate_ok n V {} (h\<lparr>mg_retry_count := x\<rparr>)" "md_logged_in (h\<lparr>mg_retry_count := x\<rparr>)" for x
    using gate_ok_coreI [OF r ok(1)] ok(2) r [of x] by (simp_all add: core_def)
  have rep: "gate_ok n V {} (report_md_status (end_chain u))" if "gate_ok n V {} u" for u
    by (rule gate_ok_coreI [OF _ that]) simp
  show ?thesis
    using True gate_ok_send [OF assms(1) ok(1)] rep [OF ok(1)] rep [OF gate_ok_give_up [OF ok]]
      gate_ok_send [OF assms(1) gate_ok_enqueue [OF ok']]
    by (simp add: on_batch_complete_def c h_def [symmetric] Let_def split: batch_action.split)
qed

section \<open>Answers\<close>

lemma answer_other:
  assumes "wanted_ok n V g j" "drop n (accepted_ops g) = x # T" "op_inst x \<noteq> j"
    and "map_of (info h) j = map_of (info g) j" "accepted_ops h = accepted_ops g" "queued_ops h = queued_ops g"
  shows "wanted_ok (Suc n) V h j"
proof -
  have "drop (Suc n) (accepted_ops g) = T" using assms(2) by (metis drop_Suc list.sel(3) tl_drop)
  then have "last_op (traffic n g) j = last_op (traffic (Suc n) h) j"
    using assms(2,3) by (simp add: traffic_def assms(5,6) last_op_Cons split: option.split)
  then show ?thesis using assms(1) by (simp add: wanted_ok_def assms(4))
qed

lemma gate_ok_answer:
  assumes "accepting E" "gate_ok n V {} g" "md_logged_in g" "drop n (accepted_ops g) = x # T"
    and "x = Op_Sub i \<Longrightarrow> last_op (T @ queued_ops g) i = None \<Longrightarrow> V i"
    and "h = (case x of Op_Sub i \<Rightarrow> on_rsp_sub E (Some 0) (Some i) g | Op_Unsub i \<Rightarrow> on_rsp_unsub (Some 0) (Some i) g)" "op_inst x = i"
  shows "gate_ok (Suc n) V {} h"
proof -
  have api: "mg_api g" using assms(2,3) by (simp add: gate_ok_def)
  have T: "drop (Suc n) (accepted_ops g) = T" using assms(4) by (metis drop_Suc list.sel(3) tl_drop)
  have n: "Suc n \<le> length (accepted_ops g)" using assms(4) by (metis Suc_leI drop_eq_Nil list.distinct(1) not_le)
  have tr: "traffic n g = x # T @ queued_ops g" by (simp add: traffic_def assms(4))
  have w: "wanted_ok n V g j" for j using assms(2,3) by (simp add: gate_ok_def)
  have f: "accepted_ops (map_info k g) = accepted_ops g" "queued_ops (map_info k g) = queued_ops g" "md_logged_in (map_info k g)"
    "mg_api (map_info k g)" "info (map_info k g) = k (info g)" "mg_status (map_info k g) = mg_status g" for k
    using assms(3) api by (simp_all add: map_info_def accepted_ops_def md_logged_in_def queued_ops_def)
  have ok: "gate_ok (Suc n) V {} (map_info k g)"
    if "\<And>j. j \<noteq> i \<Longrightarrow> map_of (k (info g)) j = map_of (info g) j" "sub_ok (k (info g))" "wanted_ok (Suc n) V (map_info k g) i" for k
  proof -
    have "wanted_ok (Suc n) V (map_info k g) j" for j
      using answer_other [OF w assms(4), of j "map_info k g"] that assms(7) f by (cases "j = i") auto
    then show ?thesis using that(2) n f by (simp add: gate_ok_def api)
  qed
  have s: "sub_ok (info g)" using assms(2) by (simp add: gate_ok_def)
  show ?thesis
  proof (cases x)
    case (Op_Sub i')
    then have x: "x = Op_Sub i" using assms(7) by simp
    have nxt: "last_op (T @ queued_ops g) i \<noteq> Some (Op_Unsub i)" if "map_of (info g) i = Some e" "si_subs e \<noteq> []" for e
      using w [of i] that unfolding wanted_ok_def tr by (auto simp: last_op_Cons split: option.splits)
    show ?thesis
    proof (cases "map_of (info g) i")
      case None
      have "h = map_info (\<lambda>_. info g) g" using x assms(6,3) api None by (simp add: on_rsp_sub_def on_sub_confirmed_def Let_def)
      then show ?thesis using ok [of "\<lambda>_. info g"] s None by (simp add: wanted_ok_def f)
    next
      case (Some e)
      show ?thesis
      proof (cases "si_subs e = []")
        case True
        let ?k = "AList.map_entry i (set_sub_state NotRequested)"
        have h: "h = batch_unsubscribe E [i] (map_info (\<lambda>_. ?k (info g)) g)"
          using x assms(6,3) api Some True by (simp add: on_rsp_sub_def on_sub_confirmed_def Let_def)
        have "sub_ok (?k (info g))" using s by (auto simp: sub_ok_def map_of_upd)
        moreover have "wanted_ok (Suc n) V (map_info (\<lambda>_. ?k (info g)) g) i" using Some True by (simp add: wanted_ok_def f map_of_upd)
        ultimately have "gate_ok (Suc n) V {} (map_info (\<lambda>_. ?k (info g)) g)" using ok [of "\<lambda>_. ?k (info g)"] by (simp add: map_of_upd)
        then show ?thesis unfolding h
          by (rule gate_ok_unsubs [OF assms(1)]) (use Some True f in \<open>auto simp: map_of_upd\<close>)
      next
        case False
        let ?k = "AList.map_entry i (set_sub_state Subscribed)"
        have h: "h = map_info (\<lambda>_. ?k (info g)) g"
          using x assms(6,3) api Some False by (simp add: on_rsp_sub_def on_sub_confirmed_def Let_def)
        have "sub_ok (?k (info g))" using s Some False by (auto simp: sub_ok_def map_of_upd)
        moreover have "wanted_ok (Suc n) V (map_info (\<lambda>_. ?k (info g)) g) i"
          using Some False nxt assms(5) [OF x] by (simp add: wanted_ok_def f map_of_upd traffic_def T)
        ultimately show ?thesis using ok [of "\<lambda>_. ?k (info g)"] unfolding h by (simp add: map_of_upd)
      qed
    qed
  next
    case (Op_Unsub i')
    then have x: "x = Op_Unsub i" using assms(7) by simp
    have h: "h = map_info (on_unsub_confirmed i) g" using x assms(6,3) api by (simp add: on_rsp_unsub_def)
    have l: "map_of (on_unsub_confirmed i m) j = (if j = i \<and> (\<exists>e. map_of m i = Some e \<and> si_subs e = []) then None else map_of m j)" for m j
      by (auto simp: on_unsub_confirmed_def delete_conv split: option.split)
    have "distinct (map fst (on_unsub_confirmed i (info g)))"
      using s by (auto simp: sub_ok_def on_unsub_confirmed_def distinct_del split: option.split)
    then have "sub_ok (on_unsub_confirmed i (info g))" using s by (simp add: sub_ok_def l)
    moreover have "wanted_ok (Suc n) V (map_info (on_unsub_confirmed i) g) i"
    proof -
      have "\<exists>y. last_op (T @ queued_ops g) i = Some y \<and> y \<noteq> Op_Unsub i" if "map_of (info g) i = Some e" "si_subs e \<noteq> []" for e
        using w [of i] that unfolding wanted_ok_def tr x by (auto simp: last_op_Cons split: option.splits)
      then show ?thesis by (fastforce simp: wanted_ok_def f l traffic_def T split: if_splits)
    qed
    ultimately show ?thesis using ok [of "on_unsub_confirmed i"] unfolding h by (simp add: l)
  qed
qed

end
