(* ===== verification/Md_System.thy ===== *)
theory Md_System
  imports Md_Served
begin

text \<open>
  The market data gateway and CTP as one system: connections and logins come and go, requests that the
  library accepted are served in order, answers arrive in order, and a lost session ends every
  subscription. In every reachable state what the subscription manager believes is true of CTP as far
  as no traffic about the contract is under way.
\<close>

section \<open>Sessions\<close>

lemmas fields = core_fields [unfolded core_def prod.inject]

lemma machine_fields [simp]:
  "mg_subs (md_machine f g) = mg_subs g" "mg_batches (md_machine f g) = mg_batches g" "accepted_ops (md_machine f g) = accepted_ops g"
  "mg_api (md_machine f g) = mg_api g" "mg_status (md_machine f g) = snd (f (mg_status g))"
  by (simp_all add: md_machine_def accepted_ops_def split_beta)

lemma subs_fields [simp]:
  "mg_subs (map_subs k g) = k (mg_subs g)" "mg_batches (map_subs k g) = mg_batches g" "accepted_ops (map_subs k g) = accepted_ops g"
  "mg_api (map_subs k g) = mg_api g" "mg_status (map_subs k g) = mg_status g"
  by (simp_all add: map_subs_def accepted_ops_def)

lemma clear_fields [simp]:
  "mg_subs (clear_chain g) = mg_subs g" "mg_batches (clear_chain g) = []" "accepted_ops (clear_chain g) = accepted_ops g"
  "mg_api (clear_chain g) = mg_api g" "mg_status (clear_chain g) = mg_status g"
  by (simp_all add: clear_chain_def drop_timer_def accepted_ops_def Let_def)

lemma gate_ok_outI:
  assumes "ms_state (mg_status g) \<noteq> MLoggedIn" "mg_batches g = []" "unrequested (info g)" "sub_ok (info g)"
    and "n \<le> length (accepted_ops g)" "ms_state (mg_status g) \<noteq> MIdle \<Longrightarrow> mg_api g"
  shows "gate_ok n V X g"
  using assms by (auto simp: gate_ok_def md_logged_in_def)

lemma map_of_all_not: "map_of (all_not_requested m) i = map_option (set_sub_state NotRequested) (map_of m i)"
  by (induction m) (auto simp: all_not_requested_def)

lemma distinct_all_not [simp]: "map fst (all_not_requested m) = map fst m"
  by (induction m) (auto simp: all_not_requested_def)

lemma sub_ok_all_not: "distinct (map fst m) \<Longrightarrow> sub_ok (all_not_requested m) \<and> unrequested (all_not_requested m)"
  by (auto simp: sub_ok_def unrequested_def map_of_all_not)

lemma sub_ok_lost: "sub_ok (sm_info s) \<Longrightarrow> sub_ok (sm_info (sub_on_session_lost s)) \<and> unrequested (sm_info (sub_on_session_lost s))"
  using sub_ok_all_not [of "sm_info s"] by (simp add: sub_on_session_lost_def reset_all_sub_state_def sub_ok_def [of "sm_info s"])

lemma sub_ok_filter: "sub_ok m \<Longrightarrow> sub_ok (filter P m)"
proof -
  assume ok: "sub_ok m"
  then have d: "distinct (map fst (filter P m))" by (simp add: sub_ok_def distinct_map_filter)
  have "map_of (filter P m) i = Some e \<Longrightarrow> map_of m i = Some e" for i e
    using ok d by (auto simp: sub_ok_def)
  with ok d show ?thesis by (fastforce simp: sub_ok_def)
qed

lemma unrequested_filter: "distinct (map fst m) \<Longrightarrow> unrequested m \<Longrightarrow> unrequested (filter P m)"
  by (auto simp: unrequested_def distinct_map_filter)

lemma sub_ok_idle: "sub_ok (sm_info s) \<Longrightarrow> sub_ok (sm_info (sub_on_idle s)) \<and> unrequested (sm_info (sub_on_idle s))"
  using sub_ok_all_not [of "sm_info s"]
  by (simp add: sub_on_idle_def sub_ok_filter unrequested_filter sub_ok_def [of "sm_info s"])

lemma gate_okD:
  assumes "gate_ok n V X g"
  shows "sub_ok (info g)" "n \<le> length (accepted_ops g)" "ms_state (mg_status g) \<noteq> MIdle \<Longrightarrow> mg_api g"
    "ms_state (mg_status g) \<noteq> MLoggedIn \<Longrightarrow> mg_batches g = [] \<and> unrequested (info g)"
  using assms by (auto simp: gate_ok_def md_logged_in_def)

lemma gate_ok_disconnect:
  assumes "gate_ok n V X g"
  shows "gate_ok n V' X' (md_disconnect g)"
proof (rule gate_ok_outI)
  have s: "ms_state (snd (md_on_disconnect s)) = MIdle" for s by (simp add: md_handler_defs)
  let ?g = "md_disconnect g"
  have "ms_state (mg_status ?g) = MIdle" by (simp add: md_disconnect_def fields s Let_def)
  then show "ms_state (mg_status ?g) \<noteq> MLoggedIn" "ms_state (mg_status ?g) \<noteq> MIdle \<Longrightarrow> mg_api ?g" by simp_all
  show "mg_batches ?g = []" by (simp add: md_disconnect_def fields Let_def)
  have "mg_subs (log_call q u) = mg_subs u" "accepted_ops (log_call Rq_Release u) = accepted_ops u"
    "mg_subs (u\<lparr>mg_api := b\<rparr>) = mg_subs u" "accepted_ops (u\<lparr>mg_api := b\<rparr>) = accepted_ops u" for q u b
    by (simp_all add: log_call_def accepted_ops_def request_ops_def)
  then have i: "info ?g = sm_info (sub_on_idle (mg_subs g))" "accepted_ops ?g = accepted_ops g"
    by (simp_all add: md_disconnect_def fields Let_def) (simp_all add: md_cancel_login_timer_def md_cancel_connect_timer_def drop_timer_def)
  show "unrequested (info ?g)" "sub_ok (info ?g)" using gate_okD [OF assms] sub_ok_idle i by simp_all
  show "n \<le> length (accepted_ops ?g)" using gate_okD [OF assms] i by simp
qed
lemma gate_ok_lost:
  assumes "gate_ok n V X g" "ms_state (mg_status g') \<noteq> MLoggedIn" "ms_state (mg_status g') \<noteq> MIdle \<Longrightarrow> mg_api g'"
    and "mg_batches g' = []" "mg_subs g' = sub_on_session_lost (mg_subs g)" "accepted_ops g' = accepted_ops g"
  shows "gate_ok n V' X' g'"
  by (rule gate_ok_outI) (use assms gate_okD [OF assms(1)] sub_ok_lost [of "mg_subs g"] in simp_all)

lemma cancel_fields [simp]:
  "mg_subs (md_cancel_login_timer g) = mg_subs g" "mg_subs (md_cancel_connect_timer g) = mg_subs g" "mg_subs (report_md_status g) = mg_subs g"
  by (simp_all add: md_cancel_login_timer_def md_cancel_connect_timer_def drop_timer_def report_md_status_def Let_def)

lemma gate_ok_front_lost:
  assumes "gate_ok n V X g"
  shows "gate_ok n V' X' (md_front_disconnected r g)"
proof (rule gate_ok_lost [OF assms])
  have s: "ms_state (snd (md_on_front_disconnected r s)) = (if ms_state s = MIdle then MIdle else MDisconnected)" for s
    by (simp add: md_handler_defs)
  let ?g = "md_front_disconnected r g"
  have st: "ms_state (mg_status ?g) = (if ms_state (mg_status g) = MIdle then MIdle else MDisconnected)"
    by (simp add: md_front_disconnected_def fields s)
  then show "ms_state (mg_status ?g) \<noteq> MLoggedIn" by simp
  show "ms_state (mg_status ?g) \<noteq> MIdle \<Longrightarrow> mg_api ?g"
    using st gate_okD(3) [OF assms] by (simp add: md_front_disconnected_def fields split: if_splits)
qed (simp_all add: md_front_disconnected_def fields)

lemma gate_ok_logout:
  assumes "gate_ok n V X g"
  shows "gate_ok n V X (on_rsp_user_logout err g)"
proof (cases "err = Some 0")
  case False
  then show ?thesis using assms by (auto simp: on_rsp_user_logout_def split: option.split)
next
  case True
  have s: "ms_state (snd (md_on_server_logout s)) = (if ms_state s = MLoggedIn then MConnected else ms_state s)" for s
    by (simp add: md_handler_defs)
  have "gate_ok n V X (report_md_status (clear_chain (map_subs sub_on_session_lost (md_machine md_on_server_logout g))))"
    by (rule gate_ok_lost [OF assms]) (use gate_okD(3) [OF assms] s in \<open>simp_all add: fields split: if_splits\<close>)
  then show ?thesis using True by (simp add: on_rsp_user_logout_def)
qed

text \<open>A step outside of a session that does not begin one.\<close>

definition stays_out :: "md_gateway \<Rightarrow> md_gateway \<Rightarrow> bool" where
  "stays_out g g' \<longleftrightarrow> core g' = core g \<or>
     (ms_state (mg_status g') \<noteq> MLoggedIn \<and> ms_state (mg_status g) \<noteq> MLoggedIn \<and> mg_batches g' = mg_batches g \<and> info g' = info g \<and>
      accepted_ops g' = accepted_ops g \<and> (ms_state (mg_status g') \<noteq> MIdle \<longrightarrow> mg_api g'))"

lemma gate_ok_out: "stays_out g g' \<Longrightarrow> gate_ok n V X g \<Longrightarrow> gate_ok n V X g'"
proof -
  assume o: "stays_out g g'" and ok: "gate_ok n V X g"
  show "gate_ok n V X g'"
  proof (cases "core g' = core g")
    case True
    then show ?thesis using ok by (rule gate_ok_coreI)
  next
    case False
    then show ?thesis using o gate_okD [OF ok] by (intro gate_ok_outI) (auto simp: stays_out_def)
  qed
qed

lemma stays_out_core: "core g1 = core g \<Longrightarrow> stays_out g1 g' \<Longrightarrow> stays_out g g'"
  unfolding stays_out_def core_def by auto

lemma req_login_out: "stays_out g (req_user_login E u g)"
proof -
  have s: "ms_state (snd (md_on_req_login s)) = (if can_login s then MLoggingIn else ms_state s)" for s
    by (simp add: md_handler_defs)
  show ?thesis
  proof (cases "\<not> mg_api g \<or> \<not> can_login (mg_status g) \<or> current_broker g = None")
    case True
    then show ?thesis by (auto simp: req_user_login_def stays_out_def split: option.split)
  next
    case False
    then obtain b where b: "mg_api g" "can_login (mg_status g)" "current_broker g = Some b" by blast
    then have out: "ms_state (mg_status g) \<noteq> MLoggedIn" by (auto simp: can_login_def)
    have m: "mg_status (g\<lparr>mg_request_id := k\<rparr>) = mg_status g" "mg_api (g\<lparr>mg_request_id := k\<rparr>) = mg_api g" for k by simp_all
    obtain ok g2 where c: "md_call E (Rq_Login (fit 11 (cb_broker_id b)) (fit 16 (cb_user_id b)) (fit 41 (cb_password b))
        (mg_request_id g + 1)) (g\<lparr>mg_request_id := mg_request_id g + 1\<rparr>) = (ok, g2)" by fastforce
    have g2: "core g2 = core g"
      using core_calls(2) [of E "Rq_Login (fit 11 (cb_broker_id b)) (fit 16 (cb_user_id b)) (fit 41 (cb_password b))
        (mg_request_id g + 1)" "g\<lparr>mg_request_id := mg_request_id g + 1\<rparr>"] c
      by (simp add: request_ops_def core_def accepted_ops_def md_logged_in_def)
    then have f: "info g2 = info g" "mg_batches g2 = mg_batches g" "accepted_ops g2 = accepted_ops g"
        "ms_state (mg_status g2) = ms_state (mg_status g)" "mg_api g2 = mg_api g" by (simp_all add: core_def)
    have w: "core (if u then warn_ui l t g2 else g2) = core g" for l t using g2 by simp
    have l: "can_login (mg_status g2)" using b(2) f by (simp add: can_login_def)
    show ?thesis
    proof (cases "ok = 0")
      case False
      then show ?thesis using b c w by (simp add: req_user_login_def stays_out_def)
    next
      case True
      let ?h = "report_md_status (md_machine md_on_req_login g2)"
      have "stays_out g (h\<lparr>mg_login_timer := i\<rparr>)" if "core h = core ?h" for h i
        using that out f b(1) l s by (simp add: core_def fields stays_out_def)
      then have "stays_out g ((snd (md_schedule_replace t k cb ?h))\<lparr>mg_login_timer := i\<rparr>)" for t k cb i by simp
      then show ?thesis using b c True by (simp add: req_user_login_def split_beta Let_def)
    qed
  qed
qed
lemma connect_calls:
  assumes "\<forall>q \<in> set qs. request_ops (q, 0) = []"
  shows "core (fold log_call qs g) = core g"
  using assms
proof (induction qs arbitrary: g)
  case (Cons q qs)
  then have "core (log_call q g) = core g" using core_calls(1) [of q g] by (simp add: core_def)
  then show ?case using Cons by simp
qed simp

lemma connect_out:
  fixes fs :: "(bool \<times> string) list"
  assumes "ms_state (mg_status g) = MIdle"
  shows "stays_out g (snd (md_schedule_replace t k cb
    (report_md_status (md_machine md_on_connect ((fold log_call (Rq_Create d # map (\<lambda>f. Rq_Front (md_front (snd f))) fs @ [Rq_Init])
      (g\<lparr>mg_api := True\<rparr>))\<lparr>mg_user_initiated := u\<rparr>))))\<lparr>mg_connect_timer := i\<rparr>)"
proof -
  let ?h0 = "g\<lparr>mg_api := True\<rparr>"
  let ?qs = "Rq_Create d # map (\<lambda>f. Rq_Front (md_front (snd f))) fs @ [Rq_Init]"
  define h where "h = (fold log_call ?qs ?h0)\<lparr>mg_user_initiated := u\<rparr>"
  have "core (fold log_call ?qs ?h0) = core ?h0" by (rule connect_calls) (auto simp: request_ops_def)
  then have "core h = core ?h0" unfolding h_def by simp
  then have h: "info h = info g" "mg_batches h = mg_batches g" "accepted_ops h = accepted_ops g"
      "ms_state (mg_status h) = MIdle" "mg_api h"
    using assms by (simp_all add: core_def accepted_ops_def)
  have s: "ms_state (snd (md_on_connect s)) = (if ms_state s = MIdle then MConnecting else ms_state s)" for s
    by (simp add: md_handler_defs)
  let ?g = "report_md_status (md_machine md_on_connect h)"
  have "stays_out g (v\<lparr>mg_connect_timer := i\<rparr>)" if "core v = core ?g" for v
    using that h s assms by (simp add: core_def fields stays_out_def)
  then show ?thesis unfolding h_def by simp
qed

lemma md_connect_out: "stays_out g (md_connect E cr u g)"
proof -
  have w: "stays_out g (warn_ui l t g)" "stays_out g g" for l t by (simp_all add: stays_out_def)
  show ?thesis
    using w req_login_out [of g E u] connect_out [of g]
    by (simp add: md_connect_def split_beta Let_def split: option.split)
qed

lemma front_connected_out: "gate_ok n V X g \<Longrightarrow> gate_ok n V X (md_front_connected E g)"
proof -
  assume ok: "gate_ok n V X g"
  have s: "ms_state (snd (md_on_front_connected s)) = (if ms_state s = MConnecting \<or> ms_state s = MDisconnected then MConnected else ms_state s)" for s
    by (simp add: md_handler_defs)
  define h where "h = md_machine md_on_front_connected (md_cancel_connect_timer g)"
  have e: "md_front_connected E g = req_user_login E (mg_user_initiated h) (h\<lparr>mg_user_initiated := False\<rparr>)"
    by (simp add: md_front_connected_def h_def Let_def)
  have f: "info h = info g" "mg_batches h = mg_batches g" "accepted_ops h = accepted_ops g" "mg_api h = mg_api g"
    "ms_state (mg_status h) = (if ms_state (mg_status g) = MConnecting \<or> ms_state (mg_status g) = MDisconnected then MConnected else ms_state (mg_status g))"
    using s by (auto simp: h_def fields)
  have "stays_out g h"
  proof (cases "ms_state (mg_status g) = MConnecting \<or> ms_state (mg_status g) = MDisconnected")
    case True
    then have "mg_api g" using gate_okD(3) [OF ok] by auto
    then show ?thesis using f True by (auto simp: stays_out_def)
  next
    case False
    then show ?thesis using f by (simp add: stays_out_def core_def md_logged_in_def)
  qed
  then have "gate_ok n V X h" using ok by (rule gate_ok_out)
  then have "gate_ok n V X (h\<lparr>mg_user_initiated := False\<rparr>)" by (rule gate_ok_coreI [rotated]) simp
  then show ?thesis unfolding e by (rule gate_ok_out [OF req_login_out])
qed

lemma login_error_out: "gate_ok n V X g \<Longrightarrow> gate_ok n V X (login_error now c t eid g)"
proof -
  assume ok: "gate_ok n V X g"
  have s: "ms_state (snd (md_on_login_failed now c t eid s)) = (if ms_state s = MLoggingIn then MLoginFailed else ms_state s)" for s
    by (simp add: md_handler_defs Let_def)
  have "stays_out g (login_error now c t eid g)"
    using gate_okD(3) [OF ok] s by (auto simp: login_error_def stays_out_def core_def fields md_logged_in_def)
  then show ?thesis using ok by (rule gate_ok_out)
qed

text \<open>A session begins with nothing requested and nothing under way.\<close>

lemma gate_ok_login:
  assumes "accepting E" "gate_ok n V {} g" "\<not> md_logged_in g \<Longrightarrow> n = length (accepted_ops g)"
  shows "gate_ok n V {} (md_user_login E now f g)"
proof (cases "ms_state (mg_status g) = MLoggingIn")
  case False
  then show ?thesis using assms(2) by (simp add: md_user_login_def)
next
  case True
  define g1 where "g1 = md_cancel_login_timer g"
  have g1: "core g1 = core g" by (simp add: g1_def)
  then have ok1: "gate_ok n V {} g1" using assms(2) by (rule gate_ok_coreI)
  have len: "n = length (accepted_ops g1)" using assms(3) True g1 by (simp add: core_def md_logged_in_def)
  have d: "distinct (map fst (info g1))" "unrequested (info g1)" "mg_batches g1 = []" "mg_api g1" "ms_state (mg_status g1) = MLoggingIn"
    using gate_okD [OF ok1] True g1 by (auto simp: sub_ok_def core_def md_logged_in_def)
  have logged: "gate_ok n V {} (report_md_status (if lp_resubscribe plan = [] then g3 else start_chain E (lp_resubscribe plan) g3))"
    if p: "sub_on_logged_in (mg_subs g2) = (plan, m)" and g2: "g2 = md_machine (md_on_login_success v dy t) g1"
      and g3: "g3 = clear_chain (batch_unsubscribe E (lp_unsubscribe plan) (g2\<lparr>mg_subs := m\<rparr>))" for plan m g2 g3 v dy t
  proof -
    have m: "sm_info m = all_not_requested (filter (\<lambda>(i, e). \<not> (si_subs e = [] \<and> si_state e = NotRequested)) (info g1))"
      using p g2 by (auto simp: sub_on_logged_in_def cleanup_orphans_def reset_all_sub_state_def)
    have "filter (\<lambda>(i, e). si_subs e = [] \<and> si_state e = Subscribed) (info g1) = []"
      using d(1,2) by (auto simp: filter_empty_conv unrequested_def)
    then have "lp_unsubscribe plan = []" using p g2 by (auto simp: sub_on_logged_in_def cleanup_orphans_def Let_def)
    then have g3': "g3 = clear_chain (g2\<lparr>mg_subs := m\<rparr>)" using g3 by (simp add: batch_unsubscribe_def)
    have s: "ms_state (snd (md_on_login_success v dy t s)) = (if ms_state s = MLoggingIn then MLoggedIn else ms_state s)" for s
      by (simp add: md_handler_defs)
    have f: "info g3 = sm_info m" "mg_batches g3 = []" "accepted_ops g3 = accepted_ops g1" "md_logged_in g3" "mg_api g3"
      using d by (simp_all add: g3' g2 md_logged_in_def s) (simp_all add: accepted_ops_def md_machine_def split_beta)
    have sub: "sub_ok (sm_info m)" "unrequested (sm_info m)"
      unfolding m using d(1) by (simp_all add: sub_ok_all_not distinct_map_filter)
    have "wanted_ok n V g3 i" for i
      using sub(2) len by (auto simp: wanted_ok_def f traffic_def queued_ops_def unrequested_def)
    then have ok3: "gate_ok n V {} g3" using sub(1) f len by (simp add: gate_ok_def)
    then have "gate_ok n V {} (if lp_resubscribe plan = [] then g3 else start_chain E (lp_resubscribe plan) g3)"
      using gate_ok_chain [OF assms(1) ok3 f(4)] by simp
    then show ?thesis by (rule gate_ok_coreI [rotated]) simp
  qed
  show ?thesis
    using True login_error_out [OF ok1] logged
    by (auto simp: md_user_login_def g1_def [symmetric] Let_def split: option.split prod.split)
qed

section \<open>Every event\<close>

lemma gate_ok_sched:
  assumes "gate_ok n V {} g"
  shows "gate_ok n V {} (on_sched_timer E w g)"
proof -
  have "gate_ok n V {} (schedule_auto_sched_timer w u)" if "gate_ok n V {} u" for u
    using gate_ok_coreI [OF _ that] by (simp add: schedule_auto_sched_timer_def)
  then show ?thesis
    using assms gate_ok_disconnect [OF assms] gate_ok_out [OF md_connect_out assms] gate_ok_out [OF req_login_out assms]
    by (simp add: on_sched_timer_def split: sched_action.split)
qed

lemma gate_ok_recover: "gate_ok n V {} g \<Longrightarrow> gate_ok n V {} (try_recover_login E w g)"
  using gate_ok_out [OF md_connect_out] by (simp add: try_recover_login_def)

lemma gate_ok_shutdown: "gate_ok n V {} g \<Longrightarrow> gate_ok n V {} (md_shutdown g)"
  using gate_ok_disconnect by (simp add: md_shutdown_def)

lemma gate_ok_timer:
  assumes "accepting E" "gate_ok n V {} g"
  shows "gate_ok n V {} (fire_md_timer E w i g)"
proof -
  have *: "gate_ok n V {} (run_callback E w cb h)" if "gate_ok n V {} h" for cb h
  proof -
    have s: "ms_state (snd (md_on_connect_timeout k s)) = (if ms_state s = MConnecting then MIdle else ms_state s)" for k s
      by (simp add: md_handler_defs)
    have "gate_ok n V {} (md_machine (md_on_connect_timeout k) h)" if "ms_state (mg_status h) = MConnecting" for k
      by (rule gate_ok_outI) (use that gate_okD [OF \<open>gate_ok n V {} h\<close>] s in simp_all)
    then show ?thesis
      using that gate_ok_disconnect [of n V "{}" _ V "{}"] login_error_out gate_ok_send [OF assms(1) that] gate_ok_batch [OF assms(1) that] gate_ok_sched [OF that]
      by (simp add: run_callback_def split: md_callback.split)
  qed
  have "gate_ok n V {} (drop_timer i g)" by (rule gate_ok_coreI [OF _ assms(2)]) simp
  then show ?thesis using assms(2) * by (auto simp: fire_md_timer_def split: option.split)
qed
section \<open>Requests are only added\<close>

definition grows :: "md_gateway \<Rightarrow> md_gateway \<Rightarrow> bool" where
  "grows g g' \<longleftrightarrow> (\<exists>L. mg_requests g' = mg_requests g @ L)"

lemma grows_refl [simp]: "grows g g"
  by (simp add: grows_def)

lemma grows_trans: "grows g g1 \<Longrightarrow> grows g1 g' \<Longrightarrow> grows g g'"
  by (auto simp: grows_def)

lemma grows_same: "mg_requests g' = mg_requests g \<Longrightarrow> grows g g'"
  by (simp add: grows_def)

lemma grows_ops: "grows g g' \<Longrightarrow> \<exists>L. accepted_ops g' = accepted_ops g @ L"
  by (auto simp: grows_def accepted_ops_def)

text \<open>What leaves the log alone.\<close>

lemma requests_same [simp]:
  "mg_requests (drop_timer k g) = mg_requests g" "mg_requests (report_md_status g) = mg_requests g" "mg_requests (warn_ui l t g) = mg_requests g"
  "mg_requests (end_chain g) = mg_requests g" "mg_requests (md_cancel_connect_timer g) = mg_requests g"
  "mg_requests (md_cancel_login_timer g) = mg_requests g" "mg_requests (snd (md_schedule ms cb g)) = mg_requests g"
  "mg_requests (snd (md_schedule_replace tag ms cb g)) = mg_requests g" "mg_requests (md_machine f g) = mg_requests g"
  "mg_requests (map_subs sf g) = mg_requests g" "mg_requests (map_info h g) = mg_requests g" "mg_requests (clear_chain g) = mg_requests g"
  "mg_requests (enqueue_batches is g) = mg_requests g" "mg_requests (login_error now c tx eid g) = mg_requests g"
  "mg_requests (schedule_auto_sched_timer w g) = mg_requests g"
  by (simp_all add: drop_timer_def report_md_status_def warn_ui_def end_chain_def md_cancel_connect_timer_def md_cancel_login_timer_def
      md_schedule_def md_schedule_replace_def md_machine_def map_subs_def map_info_def clear_chain_def enqueue_batches_def
      login_error_def schedule_auto_sched_timer_def split_beta Let_def)

lemma requests_call [simp]:
  "mg_requests (log_call q g) = mg_requests g @ [(q, 0)]"
  "mg_requests (snd (md_call E q g)) = mg_requests g @ [(q, me_rets E (mg_calls g))]"
  by (simp_all add: log_call_def md_call_def Let_def)

lemma calls_grow: "grows g (log_call q g)" "grows g (snd (md_call E q g))"
  by (simp_all add: grows_def)

lemma grows_update: "mg_requests g1 = mg_requests g \<Longrightarrow> grows g1 g' \<Longrightarrow> grows g g'"
  by (simp add: grows_def)

lemma grows_after: "grows g g1 \<Longrightarrow> mg_requests g' = mg_requests g1 \<Longrightarrow> grows g g'"
  by (simp add: grows_def)

lemma send_batch_grows: "grows g (send_next_batch E g)"
proof (cases "\<not> mg_api g \<or> \<not> md_logged_in g \<or> mg_batches g = []")
  case True
  then show ?thesis by (auto simp: send_next_batch_def split_beta intro!: grows_same split: list.split)
next
  case False
  then obtain b bs where b: "mg_api g" "md_logged_in g" "mg_batches g = b # bs" by (cases "mg_batches g") auto
  have "grows g (snd (md_call E (Rq_Sub b) (g\<lparr>mg_batches := bs\<rparr>)))" by (rule grows_update [OF _ calls_grow(2)]) simp
  then show ?thesis using b by (auto simp: send_next_batch_def split_beta intro: grows_after)
qed

lemma unsubs_grow: "grows g (send_unsubs E bs g)"
  by (induction bs arbitrary: g) (auto intro: grows_trans [OF calls_grow(2)])

lemma batch_unsubs_grow: "grows g (batch_unsubscribe E is g)"
  by (simp add: batch_unsubscribe_def unsubs_grow)

lemma start_chain_grows: "grows g (start_chain E is g)"
proof -
  have "grows g (send_next_batch E ((enqueue_batches is (map_info (mark_pending is) g))\<lparr>mg_check_active := True\<rparr>))"
    by (rule grows_update [OF _ send_batch_grows]) simp
  then show ?thesis by (auto simp: start_chain_def Let_def intro: grows_same)
qed

lemma subscribe_req_grows: "grows g (on_subscribe_req E r g)"
proof -
  have u: "grows g (batch_unsubscribe E is (map_info h g))" for "is" h
    by (rule grows_update [OF _ batch_unsubs_grow]) simp
  then show ?thesis
    by (auto simp: on_subscribe_req_def Let_def split: prod.split intro: grows_trans [OF u start_chain_grows])
qed

lemma batch_complete_grows: "grows g (on_batch_complete E g)"
proof -
  have "grows g (send_next_batch E h)" if "mg_requests h = mg_requests g" for h
    using that by (rule grows_update [OF _ send_batch_grows])
  then show ?thesis
    by (auto simp: on_batch_complete_def Let_def split: prod.split batch_action.split intro: grows_same)
qed

lemma answers_grow: "grows g (on_rsp_sub E err inst g)" "grows g (on_rsp_unsub err inst g)"
proof -
  have "grows g (batch_unsubscribe E is (map_info h g))" for "is" h
    by (rule grows_update [OF _ batch_unsubs_grow]) simp
  then show "grows g (on_rsp_sub E err inst g)"
    by (auto simp: on_rsp_sub_def Let_def split: option.split prod.split intro: grows_same)
  show "grows g (on_rsp_unsub err inst g)"
    by (auto simp: on_rsp_unsub_def split: option.split intro: grows_same)
qed

lemma disconnect_grows: "grows g (md_disconnect g)"
  by (auto simp: md_disconnect_def grows_def log_call_def Let_def)

lemma req_login_grows: "grows g (req_user_login E u g)"
  by (auto simp: req_user_login_def grows_def split_beta Let_def split: option.split)

lemma requests_calls: "mg_requests (fold log_call qs h) = mg_requests h @ map (\<lambda>q. (q, 0)) qs"
  by (induction qs arbitrary: h) simp_all

lemma connect_grows: "grows g (md_connect E created u g)"
  using req_login_grows [of g E u] unfolding md_connect_def Let_def split_beta
  by (auto simp: grows_def requests_calls simp del: fold_simps fold_append split: option.split)

lemma front_connected_grows: "grows g (md_front_connected E g)"
  unfolding md_front_connected_def Let_def by (rule grows_update [OF _ req_login_grows]) simp

lemma login_grows: "grows g (md_user_login E now f g)"
proof -
  have u: "grows g (report_md_status (clear_chain (batch_unsubscribe E is h)))" if "mg_requests h = mg_requests g" for "is" h
    by (rule grows_after [OF grows_update [OF that batch_unsubs_grow]]) simp
  have c: "grows g (report_md_status (start_chain E js (clear_chain (batch_unsubscribe E is h))))"
    if "mg_requests h = mg_requests g" for js "is" h
    by (rule grows_after [OF grows_trans [OF grows_update [OF that batch_unsubs_grow] grows_update [OF _ start_chain_grows]]]) simp_all
  show ?thesis
    by (auto simp: md_user_login_def Let_def split: option.split prod.split intro: grows_same u c)
qed

lemma sched_grows: "grows g (on_sched_timer E w g)" "grows g (try_recover_login E w g)" "grows g (md_shutdown g)"
  using grows_after [OF connect_grows [of g E "nw_created w" False]] grows_after [OF req_login_grows [of g E False]]
    grows_after [OF disconnect_grows [of g]] connect_grows disconnect_grows
  by (auto simp: on_sched_timer_def try_recover_login_def md_shutdown_def split: sched_action.split intro: grows_same)

lemma timer_grows: "grows g (fire_md_timer E w i g)"
proof -
  have "grows h (md_disconnect (md_machine k h))" for k h by (rule grows_update [OF _ disconnect_grows]) simp
  then have "grows h (run_callback E w cb h)" for cb h
    using send_batch_grows batch_complete_grows sched_grows(1)
    by (auto simp: run_callback_def intro: grows_same split: md_callback.split)
  then have "grows g (run_callback E w cb (drop_timer i g))" for cb by (rule grows_update [rotated]) simp
  then show ?thesis by (auto simp: fire_md_timer_def split: option.split)
qed

lemma front_lost_grows: "grows g (md_front_disconnected r g)" "grows g (on_rsp_user_logout err g)"
  by (auto simp: md_front_disconnected_def on_rsp_user_logout_def split: option.split intro: grows_same)

lemmas step_grows = subscribe_req_grows answers_grow disconnect_grows connect_grows front_connected_grows login_grows sched_grows
  timer_grows front_lost_grows

lemma gateway_step_grows: "grows g (gateway_step E w e g)"
  by (simp add: gateway_step_def step_grows split: gateway_event.split)
section \<open>The system\<close>

text \<open>
  \<open>sy_base\<close> is where the present session begins in the accepted requests, \<open>sy_done\<close> how many of them CTP has
  served and \<open>sy_told\<close> how many it has answered.
\<close>

record md_system =
  sy_gw :: md_gateway
  sy_base :: nat
  sy_done :: nat
  sy_told :: nat

datatype sys_event = Gateway md_now gateway_event | Ctp_Serves | Ctp_Answers

definition served :: "md_system \<Rightarrow> string \<Rightarrow> bool" where
  "served s i \<longleftrightarrow> last_op (drop (sy_base s) (take (sy_done s) (accepted_ops (sy_gw s)))) i = Some (Op_Sub i)"

definition under_way :: "md_system \<Rightarrow> ctp_op list" where
  "under_way s = traffic (sy_told s) (sy_gw s)"

definition answer_of_ctp :: "md_env \<Rightarrow> ctp_op \<Rightarrow> md_gateway \<Rightarrow> md_gateway" where
  "answer_of_ctp E x g = (case x of Op_Sub i \<Rightarrow> on_rsp_sub E (Some 0) (Some i) g | Op_Unsub i \<Rightarrow> on_rsp_unsub (Some 0) (Some i) g)"

text \<open>Answers come from CTP alone, and with the session everything under way is lost.\<close>

fun sys_step :: "md_env \<Rightarrow> md_system \<Rightarrow> sys_event \<Rightarrow> md_system" where
  "sys_step E s (Gateway w e) =
     (let g = (case e of Ge_Sub_Rsp r i \<Rightarrow> sy_gw s | Ge_Unsub_Rsp r i \<Rightarrow> sy_gw s | _ \<Rightarrow> gateway_step E w e (sy_gw s));
          n = length (accepted_ops g)
      in if md_logged_in g then s\<lparr>sy_gw := g\<rparr> else \<lparr>sy_gw = g, sy_base = n, sy_done = n, sy_told = n\<rparr>)"
| "sys_step E s Ctp_Serves = (if sy_done s < length (accepted_ops (sy_gw s)) then s\<lparr>sy_done := sy_done s + 1\<rparr> else s)"
| "sys_step E s Ctp_Answers =
     (if sy_told s < sy_done s
      then s\<lparr>sy_gw := answer_of_ctp E (accepted_ops (sy_gw s) ! sy_told s) (sy_gw s), sy_told := sy_told s + 1\<rparr>
      else s)"

definition sys_run :: "md_env \<Rightarrow> md_cfg \<Rightarrow> sys_event list \<Rightarrow> md_system" where
  "sys_run E c evs = foldl (sys_step E) \<lparr>sy_gw = new_gateway c, sy_base = 0, sy_done = 0, sy_told = 0\<rparr> evs"

definition sys_ok :: "md_system \<Rightarrow> bool" where
  "sys_ok s \<longleftrightarrow> sy_base s \<le> sy_told s \<and> sy_told s \<le> sy_done s \<and> sy_done s \<le> length (accepted_ops (sy_gw s)) \<and>
     (md_logged_in (sy_gw s) \<or> sy_told s = length (accepted_ops (sy_gw s))) \<and> gate_ok (sy_told s) (served s) {} (sy_gw s)"

lemma gate_ok_step:
  assumes "accepting E" "gate_ok n V {} g" "\<not> md_logged_in g \<Longrightarrow> n = length (accepted_ops g)"
    and "\<And>r i. e \<noteq> Ge_Sub_Rsp r i" "\<And>r i. e \<noteq> Ge_Unsub_Rsp r i"
  shows "gate_ok n V {} (gateway_step E w e g)"
  using assms(4,5) gate_ok_out [OF md_connect_out assms(2)] gate_ok_disconnect [OF assms(2)] gate_ok_shutdown [OF assms(2)]
    gate_ok_recover [OF assms(2)] gate_ok_request [OF assms(1,2)] front_connected_out [OF assms(2)] gate_ok_front_lost [OF assms(2)]
    gate_ok_login [OF assms(1-3)] gate_ok_logout [OF assms(2)] gate_ok_timer [OF assms(1,2)]
  by (simp add: gateway_step_def split: gateway_event.split)

text \<open>Outside of a session it does not matter which requests count as answered.\<close>

lemma gate_ok_lost_all: "gate_ok n V X g \<Longrightarrow> \<not> md_logged_in g \<Longrightarrow> gate_ok (length (accepted_ops g)) V' X' g"
  by (simp add: gate_ok_def)

lemma sys_ok_gateway:
  assumes "accepting E" "sys_ok s"
  shows "sys_ok (sys_step E s (Gateway w e))"
proof -
  let ?g = "case e of Ge_Sub_Rsp r i \<Rightarrow> sy_gw s | Ge_Unsub_Rsp r i \<Rightarrow> sy_gw s | _ \<Rightarrow> gateway_step E w e (sy_gw s)"
  have n: "\<not> md_logged_in (sy_gw s) \<Longrightarrow> sy_told s = length (accepted_ops (sy_gw s))" and ok: "gate_ok (sy_told s) (served s) {} (sy_gw s)"
    using assms(2) by (auto simp: sys_ok_def)
  have g: "gate_ok (sy_told s) (served s) {} ?g"
    using gate_ok_step [OF assms(1) ok n, of e w] ok by (cases e) simp_all
  have "grows (sy_gw s) ?g" using gateway_step_grows by (simp split: gateway_event.split)
  then obtain L where L: "accepted_ops ?g = accepted_ops (sy_gw s) @ L" using grows_ops by blast
  show ?thesis
  proof (cases "md_logged_in ?g")
    case True
    have "served (s\<lparr>sy_gw := ?g\<rparr>) = served s" using assms(2) by (intro ext) (simp add: served_def L sys_ok_def)
    then show ?thesis using assms(2) True g L by (simp add: sys_ok_def Let_def)
  next
    case False
    then show ?thesis using gate_ok_lost_all [OF g] by (simp add: sys_ok_def Let_def)
  qed
qed

lemma sys_ok_serves:
  assumes "sys_ok s"
  shows "sys_ok (sys_step E s Ctp_Serves)"
proof (cases "sy_done s < length (accepted_ops (sy_gw s))")
  case False
  then show ?thesis using assms by simp
next
  case True
  let ?L = "accepted_ops (sy_gw s)" and ?s = "s\<lparr>sy_done := sy_done s + 1\<rparr>"
  have logged: "md_logged_in (sy_gw s)" using assms True by (auto simp: sys_ok_def)
  have v: "served ?s i = served s i" if "i \<noteq> op_inst (?L ! sy_done s)" for i
    using that True assms by (auto simp: served_def sys_ok_def take_Suc_conv_app_nth last_op_append last_op_Cons)
  have "?L ! sy_done s \<in> set (drop (sy_told s) ?L)"
    using True assms by (auto simp: sys_ok_def in_set_conv_nth intro!: exI [of _ "sy_done s - sy_told s"])
  then have busy: "last_op (traffic (sy_told s) (sy_gw s)) (op_inst (?L ! sy_done s)) \<noteq> None"
    by (auto simp: last_op_None traffic_def)
  have w: "wanted_ok (sy_told s) (served s) (sy_gw s) i" for i using assms logged by (simp add: sys_ok_def gate_ok_def)
  have "wanted_ok (sy_told s) (served ?s) (sy_gw s) i" for i
    using w [of i] v [of i] busy by (cases "i = op_inst (?L ! sy_done s)") (auto simp: wanted_ok_def)
  then show ?thesis using True assms logged by (simp add: sys_ok_def gate_ok_def)
qed

lemma sys_ok_answers:
  assumes "accepting E" "sys_ok s"
  shows "sys_ok (sys_step E s Ctp_Answers)"
proof (cases "sy_told s < sy_done s")
  case False
  then show ?thesis using assms by simp
next
  case True
  let ?g = "sy_gw s" and ?L = "accepted_ops (sy_gw s)"
  define x where "x = ?L ! sy_told s"
  define h where "h = answer_of_ctp E x ?g"
  have len: "sy_told s < length ?L" "sy_base s \<le> sy_told s" "sy_done s \<le> length ?L" using True assms(2) by (simp_all add: sys_ok_def)
  then have logged: "md_logged_in ?g" using assms(2) by (auto simp: sys_ok_def)
  have d: "drop (sy_told s) ?L = x # drop (Suc (sy_told s)) ?L" using len by (simp add: x_def Cons_nth_drop_Suc)
  have last: "served s i" if "x = Op_Sub i" "last_op (drop (Suc (sy_told s)) ?L @ queued_ops ?g) i = None" for i
  proof -
    have split: "drop (sy_base s) (take (sy_done s) ?L) =
        drop (sy_base s) (take (sy_told s) ?L) @ x # drop (Suc (sy_told s)) (take (sy_done s) ?L)"
    proof -
      have "drop (sy_base s) (take (sy_done s) ?L) =
          take (sy_told s - sy_base s) (drop (sy_base s) (take (sy_done s) ?L)) @ drop (sy_told s - sy_base s) (drop (sy_base s) (take (sy_done s) ?L))"
        by (rule append_take_drop_id [symmetric])
      moreover have "drop (sy_told s) (take (sy_done s) ?L) = x # drop (Suc (sy_told s)) (take (sy_done s) ?L)"
        using True len by (simp add: x_def Cons_nth_drop_Suc [symmetric])
      moreover have "take (sy_told s - sy_base s) (drop (sy_base s) (take (sy_done s) ?L)) = drop (sy_base s) (take (sy_told s) ?L)"
        using True len by (simp add: take_drop min_def)
      ultimately show ?thesis using len(2) by simp
    qed
    have "set (drop (Suc (sy_told s)) (take (sy_done s) ?L)) \<subseteq> set (drop (Suc (sy_told s)) ?L)"
      by (metis drop_take set_take_subset)
    then have "last_op (drop (Suc (sy_told s)) (take (sy_done s) ?L)) i = None"
      using that(2) by (auto simp: last_op_None)
    then show ?thesis using that(1) by (simp add: served_def split last_op_append last_op_Cons)
  qed
  have "gate_ok (Suc (sy_told s)) (served s) {} h"
  proof (rule gate_ok_answer [OF assms(1) _ logged d])
    show "gate_ok (sy_told s) (served s) {} ?g" using assms(2) by (simp add: sys_ok_def)
    show "h = (case x of Op_Sub i \<Rightarrow> on_rsp_sub E (Some 0) (Some i) ?g | Op_Unsub i \<Rightarrow> on_rsp_unsub (Some 0) (Some i) ?g)"
      by (simp add: h_def answer_of_ctp_def)
  qed (use last in auto)
  moreover have "grows ?g h" using answers_grow by (simp add: h_def answer_of_ctp_def split: ctp_op.split)
  then obtain M where M: "accepted_ops h = ?L @ M" using grows_ops by blast
  then have "served (s\<lparr>sy_gw := h, sy_told := Suc (sy_told s)\<rparr>) = served s" using len by (intro ext) (simp add: served_def)
  moreover have "md_logged_in h"
  proof -
    have "md_logged_in (map_info k ?g) = md_logged_in ?g" for k by (simp add: md_logged_in_def map_info_def)
    moreover have "md_logged_in (batch_unsubscribe E is u) = md_logged_in u" for "is" u
      using core_unsubs [OF assms(1), of "make_batches is (mc_batch_size (mg_cfg u))" u] by (simp add: batch_unsubscribe_def core_def)
    ultimately show ?thesis using logged
      by (auto simp: h_def answer_of_ctp_def on_rsp_sub_def on_rsp_unsub_def Let_def split: ctp_op.split prod.split)
  qed
  ultimately show ?thesis using True assms(2) M by (simp add: sys_ok_def x_def [symmetric] h_def [symmetric])
qed

lemma sys_run_ok:
  assumes "accepting E"
  shows "sys_ok (sys_run E c evs)"
proof -
  have "sys_ok (foldl (sys_step E) s evs)" if "sys_ok s" for s
    using that
  proof (induction evs arbitrary: s)
    case (Cons e evs)
    have "sys_ok (sys_step E s e)"
      using sys_ok_gateway [OF assms Cons.prems] sys_ok_serves [OF Cons.prems] sys_ok_answers [OF assms Cons.prems] by (cases e) auto
    then show ?case using Cons.IH by simp
  qed simp
  moreover have "sys_ok \<lparr>sy_gw = new_gateway c, sy_base = 0, sy_done = 0, sy_told = 0\<rparr>"
    by (simp add: sys_ok_def new_gateway_def accepted_ops_def gate_ok_def md_logged_in_def new_md_machine_def new_manager_def
        sub_ok_def unrequested_def)
  ultimately show ?thesis by (simp add: sys_run_def)
qed
text \<open>A run: log in, two instances ask for one contract, both cancel it.\<close>

definition demo_env :: md_env where
  "demo_env = \<lparr>me_rets = (\<lambda>_. 0), me_gbk = (\<lambda>s. s)\<rparr>"

definition demo_now :: md_now where
  "demo_now = \<lparr>nw_ms = 0, nw_weekday = 3, nw_time = ''10:00'', nw_second = 0, nw_sched = \<lparr>sv_enabled = False, sv_schedules = []\<rparr>, nw_created = True\<rparr>"

definition demo_cfg :: md_cfg where
  "demo_cfg = \<lparr>mc_brokers = [\<lparr>cb_name = ''b'', cb_broker_id = ''9'', cb_user_id = ''u'', cb_password = ''p'', cb_frontends = [(True, ''f'')]\<rparr>],
     mc_current = ''b'', mc_batch_size = 10, mc_batch_delay = 1, mc_check_interval = 1, mc_max_retry = 2, mc_flow_dir = ''d''\<rparr>"

definition demo_login :: "sys_event list" where
  "demo_login = map (Gateway demo_now) [Ge_Connect, Ge_Front_Connected,
     Ge_Login \<lparr>ml_info = Some (0, []), ml_user = Some (''v'', ''20240102''), ml_time = ''10:00:00''\<rparr>]"

definition demo_req :: "string \<Rightarrow> sub_action \<Rightarrow> sys_event" where
  "demo_req who a = Gateway demo_now (Ge_Subscribe
     (Some \<lparr>sq_instance_id = who, sq_action = a, sq_replace = False, sq_instruments = [''c'']\<rparr>))"

definition served_run :: "sys_event list" where
  "served_run = demo_login @ [demo_req ''p'' Subscribe, demo_req ''q'' Subscribe, Ctp_Serves, Ctp_Answers]"

definition leak_run :: "sys_event list" where
  "leak_run = served_run @ [demo_req ''p'' Unsubscribe, demo_req ''q'' Unsubscribe, Gateway demo_now (Ge_Timer 3),
     Ctp_Serves, Ctp_Answers, Ctp_Serves, Ctp_Answers]"

lemma demo_accepts: "accepting demo_env"
  by (simp add: accepting_def demo_env_def)

lemma served_run_info:
  "info (sy_gw (sys_run demo_env demo_cfg served_run)) = [(''c'', \<lparr>si_subs = [''p'', ''q''], si_state = Subscribed\<rparr>)]"
  by code_simp

text \<open>A contract that nobody wants any more, that the manager has forgotten, and that CTP goes on to serve.\<close>

lemma leaked_subscription:
  "info (sy_gw (sys_run demo_env demo_cfg leak_run)) = [] \<and> under_way (sys_run demo_env demo_cfg leak_run) = [] \<and>
   mg_batches (sy_gw (sys_run demo_env demo_cfg leak_run)) = [] \<and> served (sys_run demo_env demo_cfg leak_run) ''c''"
  by code_simp

section \<open>Properties\<close>

text \<open>C4: as long as CTP accepts requests, answers them in order and loses all subscriptions with the session: in every
  state that any sequence of events reaches, a contract that has subscribers and is not marked as unrequested is served by CTP
  or its subscription is the last request about it under way.\<close>

theorem wanted_are_served:
  assumes "accepting E" "map_of (info (sy_gw (sys_run E c evs))) i = Some e" "si_subs e \<noteq> []" "si_state e \<noteq> NotRequested"
  shows "last_op (under_way (sys_run E c evs)) i = Some (Op_Sub i) \<or> served (sys_run E c evs) i"
proof -
  let ?s = "sys_run E c evs"
  have ok: "gate_ok (sy_told ?s) (served ?s) {} (sy_gw ?s)" using sys_run_ok [OF assms(1)] by (simp add: sys_ok_def)
  have "md_logged_in (sy_gw ?s)" using ok assms(2,4) by (auto simp: gate_ok_def unrequested_def split: if_splits)
  then have w: "wanted_ok (sy_told ?s) (served ?s) (sy_gw ?s) i" using ok by (simp add: gate_ok_def)
  have "last_op L i = Some x \<Longrightarrow> x = Op_Sub i \<or> x = Op_Unsub i" for L x
  proof -
    assume "last_op L i = Some x"
    then have "filter (\<lambda>y. op_inst y = i) L \<noteq> []" "x = last (filter (\<lambda>y. op_inst y = i) L)"
      by (auto simp: last_op_def Let_def split: if_splits)
    then have "x \<in> set (filter (\<lambda>y. op_inst y = i) L)" by (metis last_in_set)
    then have "op_inst x = i" by simp
    then show ?thesis by (cases x) auto
  qed
  then show ?thesis using w assms(2-4) by (cases "last_op (under_way ?s) i") (auto simp: wanted_ok_def under_way_def)
qed

theorem wanted_are_served_witness:
  "last_op (under_way (sys_run demo_env demo_cfg served_run)) ''c'' = Some (Op_Sub ''c'') \<or> served (sys_run demo_env demo_cfg served_run) ''c''"
  by (rule wanted_are_served [where e = "\<lparr>si_subs = [''p'', ''q''], si_state = Subscribed\<rparr>"])
    (simp_all add: demo_accepts served_run_info)

end
