(* ===== verification/Master_State.thy ===== *)
theory Master_State
  imports Dz_Text "HOL-Library.AList" "HOL-Library.List_Lexorder" "HOL-Library.Char_ord"
begin

text \<open>
  The master process: registered processes and their configuration (\<open>apps/master/process_registry.cpp\<close>,
  \<open>process_config.cpp\<close>), market data channels and their readers (\<open>shm_manager.cpp\<close>,
  \<open>shm_manager_subscribers.cpp\<close>), the accounts of the trading gateways, and what the master writes to the
  event channel, as a log. Maps are association lists. A timer is an entry of the map that owns it; its
  callback, once due or cancelled, waits in the queue of the event loop. Files, executables and
  processes answer through \<open>master_world\<close>.
\<close>

section \<open>Processes\<close>

datatype category = Gateway_Md | Gateway_Td | Strategy | WebUI | Internal

record restart_policy =
  rp_enabled :: bool
  rp_max_attempts :: int
  rp_backoff_sec :: int

record process_entry =
  pe_name :: string
  pe_category :: category
  pe_exe :: string
  pe_args :: "string list"
  pe_start_dir :: string
  pe_env :: "(string \<times> string) list"
  pe_restart :: restart_policy
  pe_display_name :: string
  pe_md_source :: string

datatype child_state = Child_Starting | Child_Running | Child_Stopping | Child_Stopped | Child_Crashed

datatype process_event = Start_Succeeded | Start_Failed | Stop_Succeeded | Stop_Failed | Remove_Succeeded | Remove_Failed

record process_status =
  st_name :: string
  st_state :: child_state
  st_pid :: nat
  st_display_name :: string
  st_message :: string
  st_event :: "process_event option"

text \<open>A started process; \<open>cd_id\<close> is the identity of the object.\<close>

record child =
  cd_id :: nat
  cd_entry :: process_entry
  cd_state :: child_state
  cd_pid :: nat

abbreviation cd_name :: "child \<Rightarrow> string" where
  "cd_name c \<equiv> pe_name (cd_entry c)"

section \<open>State\<close>

datatype md_channel_status = Md_Running | Md_Stopped | Md_Tombstone

record md_channel =
  mc_meta :: bool
  mc_status :: md_channel_status
  mc_ready :: bool
  mc_page_size :: nat
  mc_readers :: "string list"

record process_config =
  pc_args :: "string list"
  pc_env :: "(string \<times> string) list"
  pc_restart :: restart_policy
  pc_display_name :: string
  pc_md_source :: string

datatype notify_level = Notify_Error | Notify_Warn

datatype master_out =
    Out_Status process_status
  | Out_Shutdown string
  | Out_Kill nat
  | Out_Notify notify_level string bool
  | Out_Md_Subscribers string
  | Out_Event_Subscribers
  | Out_Md_Stopped string
  | Out_Account_Offline string string
  | Out_Config "(string \<times> process_config) list"
  | Out_Reader_Registered string string "string option"
  | Out_Reader_Unregistered string string "string option"

datatype timer_callback = T_Restart string process_entry int | T_Stop nat string | T_Ready string | T_Batch nat

record timer =
  tm_secs :: int
  tm_callback :: timer_callback
  tm_waiting :: bool

record master =
  mr_stop_timeout :: int
  mr_ready_timeout :: int
  mr_registry :: "process_entry list"
  mr_store :: "(string \<times> process_config) list"
  mr_channels :: "(string \<times> md_channel) list"
  mr_event_readers :: "string list"
  mr_mirror :: "(string \<times> string list) list"
  mr_children :: "child list"
  mr_shutting_down :: bool
  mr_counts :: "(string \<times> int) list"
  mr_restart_timers :: "(string \<times> timer) list"
  mr_stop_timers :: "(string \<times> timer) list"
  mr_ready_timers :: "(string \<times> timer) list"
  mr_batch_timer :: "timer option"
  mr_queue :: "(timer_callback \<times> bool) list"
  mr_batches :: "string list list"
  mr_batch_index :: nat
  mr_remove_pending :: "string list"
  mr_pending :: "(string \<times> string list) list"
  mr_force_killed :: "string list"
  mr_callbacks :: nat
  mr_next :: nat
  mr_out :: "master_out list"

text \<open>
  What the surroundings answer during one event: the scan for executables, starting a process (its id, or the
  error), the page size in a gateway's configuration file (\<open>None\<close> if it cannot be parsed), opening a
  channel and writing the configuration file (\<open>Some\<close> is the text of the exception).
\<close>

record master_world =
  mw_scan :: "string \<Rightarrow> process_entry option"
  mw_spawn :: "string \<Rightarrow> string + nat"
  mw_page_size :: "string \<Rightarrow> nat option"
  mw_open :: "string \<Rightarrow> string option"
  mw_write :: "string \<Rightarrow> string option"

definition out :: "master_out \<Rightarrow> master \<Rightarrow> master" where
  "out x m = m\<lparr>mr_out := mr_out m @ [x]\<rparr>"

definition notify_error :: "string \<Rightarrow> master \<Rightarrow> master" where
  "notify_error t = out (Out_Notify Notify_Error t True)"

definition notify_warn :: "string \<Rightarrow> master \<Rightarrow> master" where
  "notify_warn t = out (Out_Notify Notify_Warn t False)"

section \<open>Registry and configuration\<close>

definition registry_find :: "string \<Rightarrow> process_entry list \<Rightarrow> process_entry option" where
  "registry_find n = find (\<lambda>e. pe_name e = n)"

definition update_entry :: "string \<Rightarrow> process_config \<Rightarrow> process_entry list \<Rightarrow> process_entry list" where
  "update_entry n c es =
     (case registry_find n es of
        None \<Rightarrow> es
      | Some e0 \<Rightarrow> (let i = length (takeWhile (\<lambda>e. pe_name e \<noteq> n) es)
                   in es[i := e0\<lparr>pe_args := pc_args c, pe_env := pc_env c, pe_restart := pc_restart c, pe_display_name := pc_display_name c\<rparr>]))"

definition register_gateway :: "process_entry \<Rightarrow> process_entry list \<Rightarrow> process_entry list option" where
  "register_gateway e es = (if registry_find (pe_name e) es \<noteq> None then None else Some (es @ [e]))"

definition unregister :: "string \<Rightarrow> process_entry list \<Rightarrow> process_entry list" where
  "unregister n = filter (\<lambda>e. pe_name e \<noteq> n)"

definition config_of_entry :: "process_entry \<Rightarrow> process_config" where
  "config_of_entry e = \<lparr>pc_args = pe_args e, pc_env = pe_env e, pc_restart = pe_restart e, pc_display_name = pe_display_name e,
     pc_md_source = (if pe_category e = Strategy then pe_md_source e else [])\<rparr>"

text \<open>A patch: absent members keep the value, a variable without value is deleted. \<open>None\<close> for the whole is one that
  does not validate.\<close>

record config_patch =
  pp_args :: "string list option"
  pp_env :: "(string \<times> string option) list"
  pp_restart :: "restart_policy option"
  pp_display_name :: "string option"

definition patch_env :: "(string \<times> string option) list \<Rightarrow> (string \<times> string) list \<Rightarrow> (string \<times> string) list" where
  "patch_env p env = fold (\<lambda>(k, v) m. case v of None \<Rightarrow> AList.delete k m | Some x \<Rightarrow> AList.update k x m) p env"

definition apply_config_patch :: "config_patch \<Rightarrow> process_config \<Rightarrow> process_config" where
  "apply_config_patch p c =
     c\<lparr>pc_args := (case pp_args p of None \<Rightarrow> pc_args c | Some a \<Rightarrow> a),
       pc_env := patch_env (pp_env p) (pc_env c),
       pc_restart := (case pp_restart p of None \<Rightarrow> pc_restart c | Some r \<Rightarrow> r),
       pc_display_name := (case pp_display_name p of None \<Rightarrow> pc_display_name c | Some d \<Rightarrow> d)\<rparr>"

text \<open>Changes of the store write the file first; \<open>Inl\<close> is the exception, and nothing has changed then.\<close>

definition set_process_config :: "master_world \<Rightarrow> string \<Rightarrow> config_patch option \<Rightarrow> master \<Rightarrow> string + master" where
  "set_process_config w n patch m =
     (case map_of (mr_store m) n of
        None \<Rightarrow> Inl (''target not registered | target='' @ n)
      | Some c \<Rightarrow> (case patch of
          None \<Rightarrow> Inl (''invalid process config patch | target='' @ n)
        | Some p \<Rightarrow> (let c' = apply_config_patch p c in
            case mw_write w n of
              Some err \<Rightarrow> Inl err
            | None \<Rightarrow> Inr (m\<lparr>mr_registry := update_entry n c' (mr_registry m), mr_store := AList.update n c' (mr_store m)\<rparr>))))"

definition register_process :: "master_world \<Rightarrow> string \<Rightarrow> process_config \<Rightarrow> master \<Rightarrow> string + master" where
  "register_process w n c m =
     (if map_of (mr_store m) n \<noteq> None then Inl (''already registered | target='' @ n)
      else case mw_write w n of
             Some err \<Rightarrow> Inl err
           | None \<Rightarrow> Inr (m\<lparr>mr_registry := update_entry n c (mr_registry m), mr_store := AList.update n c (mr_store m)\<rparr>))"

definition remove_process_config :: "master_world \<Rightarrow> string \<Rightarrow> master \<Rightarrow> string + master" where
  "remove_process_config w n m =
     (if map_of (mr_store m) n = None then Inl (''target not registered | target='' @ n)
      else case mw_write w n of
             Some err \<Rightarrow> Inl err
           | None \<Rightarrow> Inr (m\<lparr>mr_registry := unregister n (mr_registry m), mr_store := AList.delete n (mr_store m)\<rparr>))"

definition rtn_process_config :: "master \<Rightarrow> master" where
  "rtn_process_config m = out (Out_Config (mr_store m)) m"

definition display_name_of :: "string \<Rightarrow> master \<Rightarrow> string" where
  "display_name_of n m = (case map_of (mr_store m) n of None \<Rightarrow> [] | Some c \<Rightarrow> pc_display_name c)"

definition send_process_status :: "string \<Rightarrow> child_state \<Rightarrow> nat \<Rightarrow> string \<Rightarrow> process_event option \<Rightarrow> master \<Rightarrow> master" where
  "send_process_status n st pid msg ev m =
     out (Out_Status \<lparr>st_name = n, st_state = st, st_pid = pid, st_display_name = display_name_of n m, st_message = msg, st_event = ev\<rparr>) m"

section \<open>Children\<close>

definition find_child :: "string \<Rightarrow> master \<Rightarrow> child option" where
  "find_child n m = find (\<lambda>c. cd_name c = n) (mr_children m)"

definition runs :: "string \<Rightarrow> master \<Rightarrow> bool" where
  "runs n m = (case find_child n m of None \<Rightarrow> False | Some c \<Rightarrow> cd_state c \<noteq> Child_Stopped)"

definition strategies_bound_to :: "string \<Rightarrow> master \<Rightarrow> string list" where
  "strategies_bound_to src m = map pe_name (filter (\<lambda>e. pe_category e = Strategy \<and> pe_md_source e = src) (mr_registry m))"

section \<open>Market data channels\<close>

definition default_md_page_size :: nat where
  "default_md_page_size = 1024 * 1024 * 1024"

definition notify_md_subscribers :: "string \<Rightarrow> master \<Rightarrow> master" where
  "notify_md_subscribers src = out (Out_Md_Subscribers src)"

definition map_channel :: "string \<Rightarrow> (md_channel \<Rightarrow> md_channel) \<Rightarrow> master \<Rightarrow> master" where
  "map_channel src f m = m\<lparr>mr_channels := AList.map_entry src f (mr_channels m)\<rparr>"

definition channel_error :: "string \<Rightarrow> nat \<Rightarrow> nat \<Rightarrow> string list \<Rightarrow> string" where
  "channel_error src old new names =
     ''page_size change rejected, running strategies bound to source | source='' @ src @ '' page_size_old='' @ show_nat old @
     '' page_size_new='' @ show_nat new @ '' strategies=['' @ concat (map (\<lambda>(i, n). if i = 0 then n else '', '' @ n) (enumerate 0 names)) @ '']''"

text \<open>\<open>Inl\<close> is the exception, with the state it leaves behind.\<close>

definition create_md_channel :: "master_world \<Rightarrow> string \<Rightarrow> master \<Rightarrow> (string option \<times> master)" where
  "create_md_channel w src m =
     (let old = map_of (mr_channels m) src;
          size = (case mw_page_size w src of Some s \<Rightarrow> s | None \<Rightarrow> default_md_page_size);
          fresh = \<lparr>mc_meta = True, mc_status = Md_Running, mc_ready = False, mc_page_size = size, mc_readers = []\<rparr>
      in case old of
           None \<Rightarrow> (case mw_open w src of
               Some err \<Rightarrow> (Some err, m)
             | None \<Rightarrow> (None, m\<lparr>mr_channels := AList.update src fresh (mr_channels m)\<rparr>))
         | Some c \<Rightarrow>
             if mc_status c = Md_Running \<and> mc_meta c then (None, m)
             else if mc_meta c \<and> mc_page_size c > 0 \<and> mc_page_size c \<noteq> size
             then (let bound = filter (\<lambda>n. runs n m) (strategies_bound_to src m)
                   in if bound \<noteq> [] then (Some (channel_error src (mc_page_size c) size bound), m)
                      else case mw_open w src of
                             Some err \<Rightarrow> (Some err, map_channel src (\<lambda>c. c\<lparr>mc_meta := False\<rparr>) m)
                           | None \<Rightarrow> (None, m\<lparr>mr_channels := AList.update src fresh (mr_channels m)\<rparr>))
             else if \<not> mc_meta c
             then (case mw_open w src of
                     Some err \<Rightarrow> (Some err, m)
                   | None \<Rightarrow> (None, m\<lparr>mr_channels := AList.update src (fresh\<lparr>mc_readers := mc_readers c\<rparr>) (mr_channels m)\<rparr>))
             else (None, m\<lparr>mr_channels := AList.update src (fresh\<lparr>mc_readers := mc_readers c\<rparr>) (mr_channels m)\<rparr>))"

definition close_md_channel :: "string \<Rightarrow> master \<Rightarrow> master" where
  "close_md_channel src = map_channel src (\<lambda>c. c\<lparr>mc_ready := False, mc_status := Md_Stopped\<rparr>)"

definition tombstone_md_channel :: "string \<Rightarrow> master \<Rightarrow> master" where
  "tombstone_md_channel src = map_channel src (\<lambda>c. c\<lparr>mc_ready := False, mc_status := Md_Tombstone\<rparr>)"

definition source_ready :: "string \<Rightarrow> master \<Rightarrow> bool" where
  "source_ready src m = (case map_of (mr_channels m) src of None \<Rightarrow> False | Some c \<Rightarrow> mc_meta c \<and> mc_status c = Md_Running \<and> mc_ready c)"

section \<open>Readers\<close>

definition strategy_reader :: "string \<Rightarrow> string" where
  "strategy_reader n = ''stg.'' @ n"

definition make_subscriber_name :: "process_entry \<Rightarrow> string" where
  "make_subscriber_name e = (if pe_category e = Strategy then strategy_reader (pe_name e) else pe_name e)"

definition add_reader :: "string \<Rightarrow> string list \<Rightarrow> string list" where
  "add_reader r rs = (if r \<in> set rs then rs else rs @ [r])"

definition register_subscriber :: "string \<Rightarrow> master \<Rightarrow> master" where
  "register_subscriber r m = out Out_Event_Subscribers (m\<lparr>mr_event_readers := add_reader r (mr_event_readers m)\<rparr>)"

definition unregister_subscriber :: "string \<Rightarrow> master \<Rightarrow> master" where
  "unregister_subscriber r m = out Out_Event_Subscribers (m\<lparr>mr_event_readers := removeAll r (mr_event_readers m)\<rparr>)"

definition remove_reader_everywhere :: "string \<Rightarrow> master \<Rightarrow> master" where
  "remove_reader_everywhere r m =
     m\<lparr>mr_channels := map (\<lambda>(n, c). (n, if mc_meta c then c\<lparr>mc_readers := removeAll r (mc_readers c)\<rparr> else c)) (mr_channels m),
       mr_out := mr_out m @ map (\<lambda>(n, c). Out_Md_Subscribers n) (filter (\<lambda>(n, c). mc_meta c) (mr_channels m))\<rparr>"

definition is_registered_process :: "string \<Rightarrow> master \<Rightarrow> bool" where
  "is_registered_process sub m =
     (if take 4 sub = ''stg.''
      then drop 4 sub \<noteq> [] \<and> (case registry_find (drop 4 sub) (mr_registry m) of None \<Rightarrow> False | Some e \<Rightarrow> pe_category e = Strategy)
      else case registry_find sub (mr_registry m) of None \<Rightarrow> False | Some e \<Rightarrow> pe_category e \<noteq> Strategy)"

definition md_reader_register :: "string \<Rightarrow> string \<Rightarrow> master \<Rightarrow> master" where
  "md_reader_register channel sub m =
     (let refuse = (\<lambda>t. out (Out_Reader_Registered sub channel (Some t)) m)
      in if \<not> is_registered_process sub m then refuse ''unknown subscriber''
         else case map_of (mr_channels m) channel of
                None \<Rightarrow> refuse ''channel not configured''
              | Some c \<Rightarrow>
                  if mc_status c = Md_Tombstone then refuse ''channel not configured''
                  else if mc_status c \<noteq> Md_Running \<or> \<not> mc_meta c then refuse ''market process not running''
                  else if \<not> mc_ready c then refuse ''channel not ready''
                  else out (Out_Reader_Registered sub channel None) (notify_md_subscribers channel
                         (map_channel channel (\<lambda>c. c\<lparr>mc_readers := add_reader sub (mc_readers c)\<rparr>) m)))"

definition md_reader_unregister :: "string \<Rightarrow> string \<Rightarrow> master \<Rightarrow> master" where
  "md_reader_unregister channel sub m =
     (if \<not> is_registered_process sub m then out (Out_Reader_Unregistered sub channel (Some ''unknown subscriber'')) m
      else case map_of (mr_channels m) channel of
             None \<Rightarrow> out (Out_Reader_Unregistered sub channel None) m
           | Some c \<Rightarrow>
               if mc_status c = Md_Tombstone \<or> \<not> mc_meta c then out (Out_Reader_Unregistered sub channel None) m
               else out (Out_Reader_Unregistered sub channel None) (notify_md_subscribers channel
                      (map_channel channel (\<lambda>c. c\<lparr>mc_readers := removeAll sub (mc_readers c)\<rparr>) m)))"

text \<open>Before a strategy is started it becomes a reader of its market data channel.\<close>

definition pre_register_strategy_reader :: "string \<Rightarrow> string \<Rightarrow> master \<Rightarrow> master" where
  "pre_register_strategy_reader n src m =
     (if source_ready src m
      then notify_md_subscribers src (map_channel src (\<lambda>c. c\<lparr>mc_readers := add_reader (strategy_reader n) (mc_readers c)\<rparr>) m)
      else m)"

section \<open>Accounts\<close>

definition forget_td_accounts :: "string \<Rightarrow> master \<Rightarrow> master" where
  "forget_td_accounts g m = m\<lparr>mr_mirror := AList.delete g (mr_mirror m)\<rparr>"

definition notify_td_stopped :: "string \<Rightarrow> master \<Rightarrow> master" where
  "notify_td_stopped g m =
     (case map_of (mr_mirror m) g of
        None \<Rightarrow> m
      | Some accounts \<Rightarrow> forget_td_accounts g (fold (\<lambda>a. out (Out_Account_Offline a g)) accounts m))"

definition handle_account_status :: "string \<Rightarrow> string \<Rightarrow> bool \<Rightarrow> master \<Rightarrow> master" where
  "handle_account_status g account offline m =
     (if g = [] then m
      else if offline
      then (case map_of (mr_mirror m) g of
              None \<Rightarrow> m
            | Some as \<Rightarrow> (let rest = removeAll account as
                         in m\<lparr>mr_mirror := (if rest = [] then AList.delete g (mr_mirror m) else AList.update g rest (mr_mirror m))\<rparr>))
      else (let as = (case map_of (mr_mirror m) g of None \<Rightarrow> [] | Some as \<Rightarrow> as)
            in m\<lparr>mr_mirror := AList.update g (if account \<in> set as then as else insort account as) (mr_mirror m)\<rparr>))"

definition handle_query_account_status :: "string \<Rightarrow> master \<Rightarrow> master" where
  "handle_query_account_status account m =
     (if account = [] then m
      else if list_ex (\<lambda>(g, as). account \<in> set as) (mr_mirror m) then m
      else out (Out_Account_Offline account []) m)"

end
