(* ===== verification/Master_Supervisor.thy ===== *)
theory Master_Supervisor
  imports Master_State
begin

text \<open>
  The supervisor of the master (\<open>apps/master/process_supervisor.cpp\<close>): starting processes in the order of
  their dependencies, restarting after crashes, stopping one process, and the shutdown in batches.
\<close>

section \<open>Timers\<close>

text \<open>Destroying or cancelling a timer that still waits queues its callback as cancelled.\<close>

definition destroy_timer :: "timer \<Rightarrow> master \<Rightarrow> master" where
  "destroy_timer t m = (if tm_waiting t then m\<lparr>mr_queue := mr_queue m @ [(tm_callback t, True)]\<rparr> else m)"

definition new_timer :: "int \<Rightarrow> timer_callback \<Rightarrow> timer" where
  "new_timer s cb = \<lparr>tm_secs = s, tm_callback = cb, tm_waiting = True\<rparr>"

definition destroy_in :: "(string \<times> timer) list \<Rightarrow> string \<Rightarrow> master \<Rightarrow> master" where
  "destroy_in ts n m = (case map_of ts n of None \<Rightarrow> m | Some t \<Rightarrow> destroy_timer t m)"

definition erase_restart_timer :: "string \<Rightarrow> master \<Rightarrow> master" where
  "erase_restart_timer n m = destroy_in (mr_restart_timers m) n (m\<lparr>mr_restart_timers := AList.delete n (mr_restart_timers m)\<rparr>)"

definition erase_stop_timer :: "string \<Rightarrow> master \<Rightarrow> master" where
  "erase_stop_timer n m = destroy_in (mr_stop_timers m) n (m\<lparr>mr_stop_timers := AList.delete n (mr_stop_timers m)\<rparr>)"

definition erase_ready_timer :: "string \<Rightarrow> master \<Rightarrow> master" where
  "erase_ready_timer n m = destroy_in (mr_ready_timers m) n (m\<lparr>mr_ready_timers := AList.delete n (mr_ready_timers m)\<rparr>)"

definition erase_batch_timer :: "master \<Rightarrow> master" where
  "erase_batch_timer m = (case mr_batch_timer m of None \<Rightarrow> m | Some t \<Rightarrow> destroy_timer t (m\<lparr>mr_batch_timer := None\<rparr>))"

definition erase_count :: "string \<Rightarrow> master \<Rightarrow> master" where
  "erase_count n m = m\<lparr>mr_counts := AList.delete n (mr_counts m)\<rparr>"

definition count_of :: "string \<Rightarrow> master \<Rightarrow> int" where
  "count_of n m = (case map_of (mr_counts m) n of None \<Rightarrow> 0 | Some c \<Rightarrow> c)"

definition set_count :: "string \<Rightarrow> int \<Rightarrow> master \<Rightarrow> master" where
  "set_count n c m = m\<lparr>mr_counts := AList.update n c (mr_counts m)\<rparr>"

definition arm_md_ready_watchdog :: "string \<Rightarrow> master \<Rightarrow> master" where
  "arm_md_ready_watchdog src m =
     (let m1 = erase_ready_timer src m
      in m1\<lparr>mr_ready_timers := AList.update src (new_timer (mr_ready_timeout m1) (T_Ready src)) (mr_ready_timers m1)\<rparr>)"

definition schedule_restart :: "string \<Rightarrow> process_entry \<Rightarrow> int \<Rightarrow> master \<Rightarrow> master" where
  "schedule_restart n e c m =
     (let backoff = rp_backoff_sec (pe_restart e) * c;
          secs = (if backoff < 1 then 1 else backoff);
          m1 = erase_restart_timer n m
      in m1\<lparr>mr_restart_timers := AList.update n
             (new_timer secs (T_Restart n (e\<lparr>pe_args := pe_args e @ [''--recover'']\<rparr>) c)) (mr_restart_timers m1)\<rparr>)"

definition cancel_pending_restart :: "string \<Rightarrow> master \<Rightarrow> master" where
  "cancel_pending_restart n m = erase_count n (erase_restart_timer n m)"

section \<open>Starting\<close>

datatype launch = Launched | Not_Launched | Launch_Threw string

definition set_child_state :: "child_state \<Rightarrow> nat \<Rightarrow> master \<Rightarrow> master" where
  "set_child_state st i m = m\<lparr>mr_children := map (\<lambda>c. if cd_id c = i then c\<lparr>cd_state := st\<rparr> else c) (mr_children m)\<rparr>"

definition terminate_child :: "child \<Rightarrow> master \<Rightarrow> master" where
  "terminate_child c m =
     (if cd_state c = Child_Stopped then m else out (Out_Kill (cd_pid c)) (set_child_state Child_Stopping (cd_id c) m))"

text \<open>The entry to start: the executable is looked up if the configuration names none.\<close>

definition resolve_exe :: "master_world \<Rightarrow> process_entry \<Rightarrow> process_entry option" where
  "resolve_exe w e =
     (if pe_exe e \<noteq> [] then Some e
      else map_option (\<lambda>s. e\<lparr>pe_exe := pe_exe s, pe_start_dir := pe_start_dir s\<rparr>) (mw_scan w (pe_name e)))"

definition inject_source :: "process_entry \<Rightarrow> process_entry" where
  "inject_source e =
     (if pe_category e = Strategy \<and> pe_md_source e \<noteq> []
      then e\<lparr>pe_env := AList.update ''DZTRADER_MD_SOURCE'' (pe_md_source e) (pe_env e)\<rparr> else e)"

definition start_failed :: "string \<Rightarrow> string \<Rightarrow> master \<Rightarrow> master" where
  "start_failed n err m = erase_count n (notify_error err (send_process_status n Child_Crashed 0 err None m))"

definition child_started :: "process_entry \<Rightarrow> nat \<Rightarrow> master \<Rightarrow> master" where
  "child_started e pid m =
     (let n = pe_name e;
          m1 = erase_count n (erase_restart_timer n m);
          m2 = send_process_status n Child_Running pid [] None (register_subscriber (make_subscriber_name e) m1);
          m3 = (if pe_category e = Gateway_Md then arm_md_ready_watchdog n m2 else m2)
      in m3\<lparr>mr_children := mr_children m3 @ [\<lparr>cd_id = mr_next m3, cd_entry = e, cd_state = Child_Running, cd_pid = pid\<rparr>],
            mr_next := mr_next m3 + 1\<rparr>)"

definition launch_child :: "master_world \<Rightarrow> process_entry \<Rightarrow> master \<Rightarrow> launch \<times> master" where
  "launch_child w e m =
     (let n = pe_name e in
      if runs n m
      then (let err = ''process already running | name='' @ n; pid = (case find_child n m of None \<Rightarrow> 0 | Some c \<Rightarrow> cd_pid c)
            in (Not_Launched, out (Out_Notify Notify_Error err False) (send_process_status n Child_Running pid err None m)))
      else case resolve_exe w e of
             None \<Rightarrow> (Not_Launched, start_failed n (''process exe not found | name='' @ n) m)
           | Some e1 \<Rightarrow>
               (case (if pe_category e1 = Gateway_Md then create_md_channel w n m else (None, m)) of
                  (Some err, m1) \<Rightarrow> (Launch_Threw err, m1)
                | (None, m1) \<Rightarrow>
                    (case mw_spawn w n of
                       Inl err \<Rightarrow> (Not_Launched, start_failed n (''spawn child failed | name='' @ n @ '' error=\"'' @ err @ ''\"'') m1)
                     | Inr pid \<Rightarrow> (Launched, child_started (inject_source e1) pid m1))))"

definition add_pending :: "string \<Rightarrow> string \<Rightarrow> master \<Rightarrow> master" where
  "add_pending src n m =
     (let l = (case map_of (mr_pending m) src of None \<Rightarrow> [] | Some l \<Rightarrow> l)
      in m\<lparr>mr_pending := AList.update src (if n \<in> set l then l else l @ [n]) (mr_pending m)\<rparr>)"

definition waiting_text :: "string \<Rightarrow> string" where
  "waiting_text src = ''waiting for md source '' @ src"

definition launch_registered_process :: "master_world \<Rightarrow> process_entry \<Rightarrow> master \<Rightarrow> launch \<times> master" where
  "launch_registered_process w e m =
     (if pe_category e = Strategy \<and> pe_md_source e \<noteq> []
      then let src = pe_md_source e in
           if \<not> source_ready src m
           then (Not_Launched, send_process_status (pe_name e) Child_Starting 0 (waiting_text src) None (add_pending src (pe_name e) m))
           else launch_child w e (pre_register_strategy_reader (pe_name e) src m)
      else launch_child w e m)"

definition start_process :: "master_world \<Rightarrow> string \<Rightarrow> master \<Rightarrow> launch \<times> master" where
  "start_process w n m =
     (if mr_shutting_down m then (Not_Launched, m)
      else case registry_find n (mr_registry m) of
             Some e \<Rightarrow> launch_registered_process w e m
           | None \<Rightarrow> (case mw_scan w n of
               None \<Rightarrow> (Not_Launched, start_failed n (''process exe not found | name='' @ n) m)
             | Some e \<Rightarrow> launch_registered_process w e m))"

text \<open>Strategies wait for the channel they read.\<close>

definition start_bound :: "master_world \<Rightarrow> string \<Rightarrow> string \<Rightarrow> master \<Rightarrow> master" where
  "start_bound w src n m =
     (case registry_find n (mr_registry m) of
        None \<Rightarrow> m
      | Some e \<Rightarrow> snd (launch_child w e (pre_register_strategy_reader n src m)))"

definition start_strategies_for_source :: "master_world \<Rightarrow> string \<Rightarrow> master \<Rightarrow> master" where
  "start_strategies_for_source w src m =
     fold (\<lambda>n u. if find_child n u \<noteq> None then u else start_bound w src n u) (strategies_bound_to src m) m"

definition on_md_channel_ready :: "master_world \<Rightarrow> string \<Rightarrow> master \<Rightarrow> master" where
  "on_md_channel_ready w src m =
     (let m1 = erase_ready_timer src m
      in case map_of (mr_pending m1) src of
           None \<Rightarrow> m1
         | Some names \<Rightarrow> fold (start_bound w src) names (m1\<lparr>mr_pending := AList.delete src (mr_pending m1)\<rparr>))"

definition mark_md_channel_ready :: "master_world \<Rightarrow> string \<Rightarrow> master \<Rightarrow> master" where
  "mark_md_channel_ready w src m =
     (case map_of (mr_channels m) src of
        None \<Rightarrow> m
      | Some c \<Rightarrow>
          if \<not> mc_meta c then m
          else if mc_status c \<noteq> Md_Running then m
          else on_md_channel_ready w src (map_channel src (\<lambda>c. c\<lparr>mc_ready := True\<rparr>) m))"

definition is_pending_strategy :: "string \<Rightarrow> master \<Rightarrow> string option" where
  "is_pending_strategy n m =
     (case find (\<lambda>(src, names). n \<in> set names) (mr_pending m) of None \<Rightarrow> None | Some (src, names) \<Rightarrow> Some (waiting_text src))"

definition on_md_ready_timeout :: "string \<Rightarrow> bool \<Rightarrow> master \<Rightarrow> master" where
  "on_md_ready_timeout src aborted m =
     (if aborted then m
      else let m1 = erase_ready_timer src m
           in if list_ex (\<lambda>n. runs n m1) (strategies_bound_to src m1)
              then (case find_child src m1 of
                      None \<Rightarrow> m1
                    | Some c \<Rightarrow> terminate_child c
                        ((notify_error (''market source failed to become ready, restarting | source='' @ src) m1)
                           \<lparr>mr_force_killed := List.insert src (mr_force_killed m1)\<rparr>))
              else m1)"

section \<open>Stopping one process\<close>

definition stop_single_child :: "child \<Rightarrow> master \<Rightarrow> master" where
  "stop_single_child c m =
     (let n = cd_name c;
          m1 = send_process_status n Child_Stopping (cd_pid c) [] None (out (Out_Shutdown n) m);
          m2 = erase_stop_timer n m1
      in m2\<lparr>mr_stop_timers := AList.update n (new_timer (mr_stop_timeout m2) (T_Stop (cd_id c) n)) (mr_stop_timers m2)\<rparr>)"

definition stop_process :: "string \<Rightarrow> master \<Rightarrow> master" where
  "stop_process n m =
     (if mr_shutting_down m then m
      else case find_child n m of
             None \<Rightarrow> m
           | Some c \<Rightarrow> if cd_state c = Child_Stopped then m else stop_single_child c m)"

text \<open>The callback holds the object of the process, which may have left the list.\<close>

definition on_single_stop_timeout :: "nat \<Rightarrow> string \<Rightarrow> bool \<Rightarrow> master \<Rightarrow> master" where
  "on_single_stop_timeout i n aborted m =
     (if aborted then erase_stop_timer n m
      else case find (\<lambda>c. cd_id c = i) (mr_children m) of
             None \<Rightarrow> erase_stop_timer n m
           | Some c \<Rightarrow> erase_stop_timer n
               (if cd_state c \<noteq> Child_Stopped
                then terminate_child c
                  ((notify_warn (''process stop timeout, force killing | name='' @ cd_name c) m)
                     \<lparr>mr_force_killed := List.insert (cd_name c) (mr_force_killed m)\<rparr>)
                else m))"

section \<open>Shutdown\<close>

text \<open>Who depends on others stops first.\<close>

definition shutdown_order :: "category list" where
  "shutdown_order = [Strategy, Gateway_Td, Gateway_Md, Internal, WebUI]"

definition build_shutdown_batches :: "(string \<times> category) list \<Rightarrow> string list list" where
  "build_shutdown_batches running =
     filter (\<lambda>b. b \<noteq> []) (map (\<lambda>cat. map fst (filter (\<lambda>(n, c). c = cat) running)) shutdown_order)"

definition check_shutdown_complete :: "master \<Rightarrow> master" where
  "check_shutdown_complete m =
     (if \<not> mr_shutting_down m then m
      else if list_ex (\<lambda>c. cd_state c \<noteq> Child_Stopped) (mr_children m) then m
      else let m1 = erase_batch_timer m in m1\<lparr>mr_callbacks := mr_callbacks m1 + 1\<rparr>)"

definition ask_to_stop :: "string \<Rightarrow> master \<Rightarrow> master" where
  "ask_to_stop n m =
     (if runs n m
      then send_process_status n Child_Stopping (case find_child n m of None \<Rightarrow> 0 | Some c \<Rightarrow> cd_pid c) [] None (out (Out_Shutdown n) m)
      else m)"

function send_current_shutdown_batch :: "master \<Rightarrow> master" where
  "send_current_shutdown_batch m =
     (if mr_batch_index m < length (mr_batches m)
      then (let batch = mr_batches m ! mr_batch_index m in
            if list_ex (\<lambda>n. runs n m) batch
            then let m1 = erase_batch_timer (fold ask_to_stop batch m)
                 in m1\<lparr>mr_batch_timer := Some (new_timer (mr_stop_timeout m1) (T_Batch (mr_batch_index m)))\<rparr>
            else send_current_shutdown_batch (m\<lparr>mr_batch_index := mr_batch_index m + 1\<rparr>))
      else check_shutdown_complete m)"
  by pat_completeness auto
termination by (relation "measure (\<lambda>m. length (mr_batches m) - mr_batch_index m)") auto

declare send_current_shutdown_batch.simps [simp del]

definition advance_shutdown_batch :: "master \<Rightarrow> master" where
  "advance_shutdown_batch m =
     (if \<not> mr_shutting_down m \<or> mr_batch_index m \<ge> length (mr_batches m) then m
      else if list_ex (\<lambda>n. runs n m) (mr_batches m ! mr_batch_index m) then m
      else let m1 = erase_batch_timer m in send_current_shutdown_batch (m1\<lparr>mr_batch_index := mr_batch_index m1 + 1\<rparr>))"

definition kill_member :: "string \<Rightarrow> master \<Rightarrow> master" where
  "kill_member n m =
     (case find_child n m of
        None \<Rightarrow> m
      | Some c \<Rightarrow>
          if cd_state c = Child_Stopped then m
          else terminate_child c ((notify_warn (''shutdown batch timeout, force killing | name='' @ n) m)
                 \<lparr>mr_force_killed := List.insert n (mr_force_killed m)\<rparr>))"

definition force_terminate_batch :: "nat \<Rightarrow> master \<Rightarrow> master" where
  "force_terminate_batch armed m =
     (if armed \<noteq> mr_batch_index m \<or> armed \<ge> length (mr_batches m) then m
      else fold kill_member (mr_batches m ! armed) m)"

definition force_terminate_all :: "master \<Rightarrow> master" where
  "force_terminate_all m = fold terminate_child (mr_children m) m"

definition destroy_all :: "(string \<times> timer) list \<Rightarrow> master \<Rightarrow> master" where
  "destroy_all ts = fold (destroy_timer \<circ> snd) ts"

definition shutdown :: "master \<Rightarrow> master" where
  "shutdown m =
     (if mr_shutting_down m then m
      else let m1 = destroy_all (mr_ready_timers m) (destroy_all (mr_restart_timers m) (destroy_all (mr_stop_timers m) m));
               running = map (\<lambda>c. (cd_name c, pe_category (cd_entry c))) (filter (\<lambda>c. cd_state c \<noteq> Child_Stopped) (mr_children m));
               m2 = m1\<lparr>mr_shutting_down := True, mr_stop_timers := [], mr_restart_timers := [], mr_counts := [], mr_ready_timers := [],
                      mr_pending := [], mr_batches := build_shutdown_batches running, mr_batch_index := 0\<rparr>
           in if mr_batches m2 = [] then check_shutdown_complete m2 else send_current_shutdown_batch m2)"

section \<open>Exits and restarts\<close>

definition write_failed :: "master_world \<Rightarrow> string \<Rightarrow> master \<Rightarrow> master" where
  "write_failed w n m =
     (case mw_write w n of
        None \<Rightarrow> m
      | Some err \<Rightarrow> notify_error (''failed to remove gateway config | name='' @ n @ '' error='' @ err) m)"

definition channel_of_exit :: "string \<Rightarrow> bool \<Rightarrow> master \<Rightarrow> master" where
  "channel_of_exit n removed m =
     out (Out_Md_Stopped n) (if removed then tombstone_md_channel n m else close_md_channel n m)"

text \<open>What every exit does, before the decision on a restart.\<close>

definition clean_up_exit :: "master_world \<Rightarrow> child \<Rightarrow> int \<Rightarrow> master \<Rightarrow> master" where
  "clean_up_exit w c code m =
     (let n = cd_name c; e = cd_entry c;
          m1 = erase_stop_timer n (m\<lparr>mr_children := filter (\<lambda>x. cd_id x \<noteq> cd_id c) (mr_children m)\<rparr>);
          removing = n \<in> set (mr_remove_pending m1);
          m2 = m1\<lparr>mr_remove_pending := removeAll n (mr_remove_pending m1)\<rparr>;
          removed = removing \<and> registry_find n (mr_registry m2) = None;
          m3 = (if removed
                then let u = write_failed w n m2 in (if pe_category e = Gateway_Td then notify_td_stopped n u else u)
                else m2);
          sub = make_subscriber_name e;
          m4 = remove_reader_everywhere sub (unregister_subscriber sub m3);
          m5 = send_process_status n (if code = 0 then Child_Stopped else Child_Crashed) (cd_pid c)
                 (if code \<noteq> 0 then ''exit_code='' @ show_int code else []) None m4;
          m6 = (if pe_category e = Gateway_Md then channel_of_exit n removed m5 else m5);
          m7 = (if pe_category e = Gateway_Td \<and> \<not> mr_shutting_down m6 then notify_td_stopped n m6 else m6);
          m8 = (if code \<noteq> 0 \<and> \<not> mr_shutting_down m7 \<and> n \<notin> set (mr_force_killed m7)
                then notify_error (''child crashed | name='' @ n @ '' pid='' @ show_nat (cd_pid c) @ '' exit_code='' @ show_int code) m7
                else m7)
      in m8\<lparr>mr_force_killed := removeAll n (mr_force_killed m8)\<rparr>)"

definition restart_after_crash :: "child \<Rightarrow> master \<Rightarrow> master" where
  "restart_after_crash c m =
     (let n = cd_name c;
          effective = (case registry_find n (mr_registry m) of Some e \<Rightarrow> e | None \<Rightarrow> cd_entry c);
          policy = pe_restart effective
      in if \<not> rp_enabled policy then erase_count n m
         else let count = count_of n m + 1; m1 = set_count n count m
              in if count > rp_max_attempts policy then erase_count n m1
                 else schedule_restart n effective count m1)"

definition on_child_exit :: "master_world \<Rightarrow> child \<Rightarrow> int \<Rightarrow> master \<Rightarrow> master" where
  "on_child_exit w c code m =
     (let removing = cd_name c \<in> set (mr_remove_pending m); m1 = clean_up_exit w c code m
      in if mr_shutting_down m1 then advance_shutdown_batch m1
         else if removing \<or> code = 0 then erase_count (cd_name c) m1
         else restart_after_crash c m1)"

definition on_restart_timer :: "master_world \<Rightarrow> string \<Rightarrow> process_entry \<Rightarrow> int \<Rightarrow> bool \<Rightarrow> master \<Rightarrow> master" where
  "on_restart_timer w n e c aborted m =
     (if aborted then m
      else let m1 = erase_restart_timer n m
           in if mr_shutting_down m1 then m1
              else case launch_child w e m1 of
                     (Launched, m2) \<Rightarrow> set_count n c m2
                   | (_, m2) \<Rightarrow> m2)"

definition run_timer :: "master_world \<Rightarrow> timer_callback \<Rightarrow> bool \<Rightarrow> master \<Rightarrow> master" where
  "run_timer w cb aborted m =
     (case cb of
        T_Restart n e c \<Rightarrow> on_restart_timer w n e c aborted m
      | T_Stop i n \<Rightarrow> on_single_stop_timeout i n aborted m
      | T_Ready src \<Rightarrow> on_md_ready_timeout src aborted m
      | T_Batch i \<Rightarrow> if aborted then m else force_terminate_batch i m)"

end
