(* ===== verification/Master_Frames.thy ===== *)
theory Master_Frames
  imports Master_Supervisor
begin

text \<open>
  The frames the master handles (\<open>apps/master/shm_manager_frame.cpp\<close>), the start of all processes and the
  event loop. Decoding of payloads is left out: a payload that does not decode is the text of the exception. The log and
  shared-memory settings of the master itself are not modelled.
\<close>

section \<open>Process control\<close>

datatype process_action = Act_Start | Act_Stop | Act_Remove

record control_req =
  cr_action :: process_action
  cr_target :: string
  cr_config :: "config_patch option option"

definition start_refused :: "string \<Rightarrow> string \<Rightarrow> master \<Rightarrow> master" where
  "start_refused n err m = send_process_status n Child_Crashed 0 err (Some Start_Failed) (notify_error err m)"

definition register_dynamic_gateway :: "master_world \<Rightarrow> process_entry \<Rightarrow> master \<Rightarrow> string + master" where
  "register_dynamic_gateway w e m =
     (case register_gateway e (mr_registry m) of
        None \<Rightarrow> Inl (''gateway already registered | name='' @ pe_name e)
      | Some es \<Rightarrow> register_process w (pe_name e)
          \<lparr>pc_args = pe_args e, pc_env = pe_env e, pc_restart = pe_restart e, pc_display_name = pe_display_name e, pc_md_source = []\<rparr>
          (m\<lparr>mr_registry := es\<rparr>))"

text \<open>First step of a start: the target must be registered, or be a gateway that is found and then registered. The flag says
  that it has been registered now.\<close>

definition ensure_registered :: "master_world \<Rightarrow> string \<Rightarrow> master \<Rightarrow> (string + bool \<times> master)" where
  "ensure_registered w n m =
     (if registry_find n (mr_registry m) \<noteq> None then Inr (False, m)
      else case mw_scan w n of
             None \<Rightarrow> Inl (''target not registered and exe not found | target='' @ n)
           | Some e \<Rightarrow>
               if pe_category e \<noteq> Gateway_Md \<and> pe_category e \<noteq> Gateway_Td
               then Inl (''target not registered and not a gateway | target='' @ n)
               else (case register_dynamic_gateway w e m of
                       Inl err \<Rightarrow> Inl (''dynamic register failed | target='' @ n @ '' error=\"'' @ err @ ''\"'')
                     | Inr m1 \<Rightarrow> Inr (True, m1)))"

text \<open>Second step: the configuration that comes with the request.\<close>

definition start_config :: "master_world \<Rightarrow> control_req \<Rightarrow> bool \<Rightarrow> master \<Rightarrow> bool \<times> master" where
  "start_config w r registered m =
     (case cr_config r of
        None \<Rightarrow> (True, if registered then rtn_process_config m else m)
      | Some patch \<Rightarrow>
          (case set_process_config w (cr_target r) patch m of
             Inr m1 \<Rightarrow> (True, rtn_process_config m1)
           | Inl err \<Rightarrow>
               (let t = ''start config apply failed | target='' @ cr_target r @ '' error=\"'' @ err @ ''\"''
                in (False, send_process_status (cr_target r) Child_Crashed 0 t (Some Start_Failed) (rtn_process_config (notify_error t m))))))"

text \<open>Last step, and its answer.\<close>

definition start_target :: "master_world \<Rightarrow> string \<Rightarrow> master \<Rightarrow> master" where
  "start_target w n m =
     (case (if runs n m then find_child n m else None) of
        Some c \<Rightarrow> send_process_status n (cd_state c) (cd_pid c) [] (Some Start_Succeeded) m
      | None \<Rightarrow>
          (case start_process w n m of
             (Launch_Threw err, m1) \<Rightarrow> start_refused n (''start failed | target='' @ n @ '' error=\"'' @ err @ ''\"'') m1
           | (res, m1) \<Rightarrow>
               (let entry = registry_find n (mr_registry m1);
                    m2 = (if map_option pe_category entry = Some Gateway_Md then notify_md_subscribers n m1 else m1)
                in if res = Launched
                   then send_process_status n Child_Running (case find_child n m2 of None \<Rightarrow> 0 | Some c \<Rightarrow> cd_pid c) [] (Some Start_Succeeded) m2
                   else case (if map_option pe_category entry = Some Strategy then is_pending_strategy n m2 else None) of
                          Some t \<Rightarrow> send_process_status n Child_Starting 0 t (Some Start_Succeeded) m2
                        | None \<Rightarrow> start_refused n (''start_process returned false | target='' @ n) m2)))"

definition handle_process_start :: "master_world \<Rightarrow> control_req \<Rightarrow> master \<Rightarrow> master" where
  "handle_process_start w r m =
     (let n = cr_target r in
      if mr_shutting_down m then start_refused n (''start rejected, full shutdown in progress | target='' @ n) m
      else case ensure_registered w n m of
             Inl err \<Rightarrow> start_refused n err m
           | Inr (registered, m1) \<Rightarrow>
               (case start_config w r registered m1 of
                  (True, m2) \<Rightarrow> start_target w n m2
                | (False, m2) \<Rightarrow> m2))"

definition handle_process_stop :: "string \<Rightarrow> master \<Rightarrow> master" where
  "handle_process_stop n m =
     (if registry_find n (mr_registry m) = None
      then (let err = ''target not registered | target='' @ n
            in send_process_status n Child_Stopped 0 err (Some Stop_Failed) (notify_error err m))
      else if find_child n m = None
      then send_process_status n Child_Stopped 0 [] (Some Stop_Succeeded) (cancel_pending_restart n m)
      else let m1 = stop_process n m
           in send_process_status n Child_Stopping (case find_child n m1 of None \<Rightarrow> 0 | Some c \<Rightarrow> cd_pid c) [] (Some Stop_Succeeded) m1)"

definition notify_removed_for_inactive :: "master_world \<Rightarrow> string \<Rightarrow> category \<Rightarrow> master \<Rightarrow> master" where
  "notify_removed_for_inactive w n cat m =
     (let m1 = write_failed w n (cancel_pending_restart n m);
          m2 = (if cat = Gateway_Md then tombstone_md_channel n m1 else m1);
          m3 = (if cat = Gateway_Td then notify_td_stopped n m2 else m2);
          m4 = m3\<lparr>mr_event_readers := removeAll n (mr_event_readers m3)\<rparr>;
          m5 = out (Out_Status \<lparr>st_name = n, st_state = Child_Stopped, st_pid = 0, st_display_name = [],
                      st_message = ''removed (process not running)'', st_event = None\<rparr>) m4
      in m5\<lparr>mr_remove_pending := removeAll n (mr_remove_pending m5)\<rparr>)"

definition handle_process_remove :: "master_world \<Rightarrow> string \<Rightarrow> master \<Rightarrow> master" where
  "handle_process_remove w n m =
     (let ch = find_child n m; entry = registry_find n (mr_registry m) in
      if ch = None \<and> entry = None
      then (let err = ''target not found | name='' @ n
            in send_process_status n Child_Stopped 0 err (Some Remove_Failed) (notify_error err m))
      else let cat = (case entry of None \<Rightarrow> Gateway_Md | Some e \<Rightarrow> pe_category e) in
           case remove_process_config w n m of
             Inl err \<Rightarrow>
               (let t = ''remove config failed | target='' @ n @ '' error=\"'' @ err @ ''\"''
                in send_process_status n Child_Stopped 0 t (Some Remove_Failed) (notify_error t m))
           | Inr m1 \<Rightarrow>
               (let m2 = rtn_process_config m1;
                    m3 = m2\<lparr>mr_remove_pending := List.insert n (mr_remove_pending m2)\<rparr>
                in case ch of
                     None \<Rightarrow> send_process_status n Child_Stopped 0 [] (Some Remove_Succeeded) (notify_removed_for_inactive w n cat m3)
                   | Some c \<Rightarrow> send_process_status n Child_Stopping (cd_pid c) [] (Some Remove_Succeeded) (stop_process n m3)))"

text \<open>The prefixes of two notifications, as UTF-8; the text of the exception follows.\<close>

definition bad_control_text :: string where
  "bad_control_text =
     utf8 [232, 191, 155, 231, 168, 139, 230, 142, 167, 229, 136, 182, 232, 175, 183, 230, 177, 130, 230, 151, 160, 230, 149, 136, 58, 32]"

definition bad_config_text :: string where
  "bad_config_text =
     utf8 [232, 191, 155, 231, 168, 139, 233, 133, 141, 231, 189, 174, 230, 155, 180, 230, 150, 176, 229, 164, 177, 232, 180, 165, 58, 32]"

definition handle_process_control :: "master_world \<Rightarrow> string + control_req \<Rightarrow> master \<Rightarrow> master" where
  "handle_process_control w r m =
     (case r of
        Inl err \<Rightarrow> notify_error (bad_control_text @ err) m
      | Inr q \<Rightarrow>
          (case cr_action q of
             Act_Start \<Rightarrow> handle_process_start w q m
           | Act_Stop \<Rightarrow> handle_process_stop (cr_target q) m
           | Act_Remove \<Rightarrow> handle_process_remove w (cr_target q) m))"

definition handle_set_process_config :: "master_world \<Rightarrow> string + string \<times> config_patch option \<Rightarrow> master \<Rightarrow> master" where
  "handle_set_process_config w r m =
     (case r of
        Inl err \<Rightarrow> rtn_process_config (notify_error (bad_config_text @ err) m)
      | Inr (n, patch) \<Rightarrow>
          (case set_process_config w n patch m of
             Inl err \<Rightarrow> rtn_process_config (notify_error (bad_config_text @ err) m)
           | Inr m1 \<Rightarrow> rtn_process_config m1))"

definition snapshot_entry :: "process_entry \<Rightarrow> master \<Rightarrow> master" where
  "snapshot_entry e m =
     (let n = pe_name e in
      case find_child n m of
        Some c \<Rightarrow> send_process_status n (cd_state c) (cd_pid c) [] None m
      | None \<Rightarrow> (case is_pending_strategy n m of
          Some t \<Rightarrow> send_process_status n Child_Starting 0 t None m
        | None \<Rightarrow> send_process_status n Child_Stopped 0 [] None m))"

definition report_full_snapshot :: "master \<Rightarrow> master" where
  "report_full_snapshot m = fold snapshot_entry (mr_registry m) (rtn_process_config m)"

datatype master_frame =
    Fr_Control "string + control_req"
  | Fr_Set_Config "string + string \<times> config_patch option"
  | Fr_Reader_Register string "string option"
  | Fr_Reader_Unregister string "string option"
  | Fr_Account_Status string string bool
  | Fr_Query_Account string
  | Fr_Md_Started string
  | Fr_Query_Snapshot

definition handle_frame :: "master_world \<Rightarrow> master_frame \<Rightarrow> master \<Rightarrow> master" where
  "handle_frame w f m =
     (case f of
        Fr_Control r \<Rightarrow> handle_process_control w r m
      | Fr_Set_Config r \<Rightarrow> handle_set_process_config w r m
      | Fr_Reader_Register channel sub \<Rightarrow> (case sub of None \<Rightarrow> m | Some s \<Rightarrow> md_reader_register channel s m)
      | Fr_Reader_Unregister channel sub \<Rightarrow> (case sub of None \<Rightarrow> m | Some s \<Rightarrow> md_reader_unregister channel s m)
      | Fr_Account_Status g a offline \<Rightarrow> handle_account_status g a offline m
      | Fr_Query_Account a \<Rightarrow> handle_query_account_status a m
      | Fr_Md_Started src \<Rightarrow> mark_md_channel_ready w src m
      | Fr_Query_Snapshot \<Rightarrow> report_full_snapshot m)"

definition drain_event_channel :: "master_world \<Rightarrow> master_frame list \<Rightarrow> master \<Rightarrow> master" where
  "drain_event_channel w fs = fold (handle_frame w) fs"

section \<open>Starting everything\<close>

definition start_one :: "master_world \<Rightarrow> process_entry \<Rightarrow> master \<Rightarrow> master" where
  "start_one w e m =
     (case launch_child w e m of
        (Launch_Threw err, m1) \<Rightarrow> m1
      | (_, m1) \<Rightarrow> if pe_category e = Gateway_Md then notify_md_subscribers (pe_name e) m1 else m1)"

definition start_unbound :: "master_world \<Rightarrow> process_entry \<Rightarrow> master \<Rightarrow> master" where
  "start_unbound w e m =
     (if pe_category e = Strategy \<and> pe_md_source e = [] \<and> find_child (pe_name e) m = None then snd (launch_child w e m) else m)"

definition referenced_sources :: "process_entry list \<Rightarrow> string list" where
  "referenced_sources es =
     rev (fold (\<lambda>e seen. if pe_category e = Strategy \<and> pe_md_source e \<noteq> [] \<and> pe_md_source e \<notin> set seen then pe_md_source e # seen else seen) es [])"

text \<open>\<open>seen\<close> are the sources found ready so far.\<close>

definition promote_ready_source :: "master_world \<Rightarrow> string \<Rightarrow> string list \<times> master \<Rightarrow> string list \<times> master" where
  "promote_ready_source w src p =
     (if src \<in> set (fst p) then p
      else case map_of (mr_channels (snd p)) src of
             None \<Rightarrow> p
           | Some c \<Rightarrow> if mc_status c = Md_Running \<and> mc_ready c then (src # fst p, start_strategies_for_source w src (snd p)) else p)"

text \<open>Each element of the list is what one round of polling finds in the event channel; it ends at the deadline.\<close>

fun poll_sources :: "master_world \<Rightarrow> string list \<Rightarrow> master_frame list list \<Rightarrow> string list \<times> master \<Rightarrow> string list \<times> master" where
  "poll_sources w srcs [] p = p"
| "poll_sources w srcs (fs # rounds) p =
     (let q = fold (promote_ready_source w) srcs (fst p, drain_event_channel w fs (snd p))
      in if length (fst q) = length srcs then q else poll_sources w srcs rounds q)"

definition pend_strategy :: "string \<Rightarrow> string \<Rightarrow> master \<Rightarrow> master" where
  "pend_strategy src n m =
     (if find_child n m \<noteq> None then m
      else if n \<in> set (case map_of (mr_pending m) src of None \<Rightarrow> [] | Some l \<Rightarrow> l) then add_pending src n m
      else send_process_status n Child_Starting 0 (waiting_text src) None (add_pending src n m))"

definition wait_for_md_ready :: "master_world \<Rightarrow> master_frame list list \<Rightarrow> master_frame list \<Rightarrow> master \<Rightarrow> master" where
  "wait_for_md_ready w rounds last_frames m =
     (let srcs = referenced_sources (mr_registry m) in
      if srcs = [] then fold (start_unbound w) (mr_registry m) m
      else let p1 = poll_sources w srcs rounds ([], m);
               p2 = fold (promote_ready_source w) srcs (fst p1, drain_event_channel w last_frames (snd p1));
               m3 = fold (start_unbound w) (mr_registry (snd p2)) (snd p2)
           in fold (\<lambda>src u. if src \<in> set (fst p2) then u else fold (pend_strategy src) (strategies_bound_to src u) u) srcs m3)"

definition start_all :: "master_world \<Rightarrow> master_frame list list \<Rightarrow> master_frame list \<Rightarrow> master \<Rightarrow> master" where
  "start_all w rounds last_frames m =
     (let es = mr_registry m;
          m1 = fold (start_one w) (filter (\<lambda>e. pe_category e = Gateway_Md) es) m;
          m2 = fold (start_one w) (filter (\<lambda>e. pe_category e \<noteq> Gateway_Md \<and> pe_category e \<noteq> Strategy) es) m1
      in wait_for_md_ready w rounds last_frames m2)"

section \<open>Event loop\<close>

definition new_master :: "int \<Rightarrow> int \<Rightarrow> process_entry list \<Rightarrow> master" where
  "new_master stop_timeout ready_timeout es =
     \<lparr>mr_stop_timeout = stop_timeout, mr_ready_timeout = ready_timeout, mr_registry = es,
      mr_store = sort_key fst (map (\<lambda>e. (pe_name e, config_of_entry e)) es), mr_channels = [], mr_event_readers = [''dztraderd''],
      mr_mirror = [], mr_children = [], mr_shutting_down = False, mr_counts = [], mr_restart_timers = [], mr_stop_timers = [],
      mr_ready_timers = [], mr_batch_timer = None, mr_queue = [], mr_batches = [], mr_batch_index = 0, mr_remove_pending = [],
      mr_pending = [], mr_force_killed = [], mr_callbacks = 0, mr_next = 0, mr_out = []\<rparr>"

text \<open>The waiting timers; one that comes due leaves its callback in the queue.\<close>

datatype timer_name = Restart_Of string | Stop_Of string | Ready_Of string | Batch_Timer

definition expire :: "timer \<Rightarrow> timer" where
  "expire t = t\<lparr>tm_waiting := False\<rparr>"

definition timer_of :: "timer_name \<Rightarrow> master \<Rightarrow> timer option" where
  "timer_of k m =
     (case k of
        Restart_Of n \<Rightarrow> map_of (mr_restart_timers m) n
      | Stop_Of n \<Rightarrow> map_of (mr_stop_timers m) n
      | Ready_Of n \<Rightarrow> map_of (mr_ready_timers m) n
      | Batch_Timer \<Rightarrow> mr_batch_timer m)"

definition set_expired :: "timer_name \<Rightarrow> master \<Rightarrow> master" where
  "set_expired k m =
     (case k of
        Restart_Of n \<Rightarrow> m\<lparr>mr_restart_timers := AList.map_entry n expire (mr_restart_timers m)\<rparr>
      | Stop_Of n \<Rightarrow> m\<lparr>mr_stop_timers := AList.map_entry n expire (mr_stop_timers m)\<rparr>
      | Ready_Of n \<Rightarrow> m\<lparr>mr_ready_timers := AList.map_entry n expire (mr_ready_timers m)\<rparr>
      | Batch_Timer \<Rightarrow> m\<lparr>mr_batch_timer := map_option expire (mr_batch_timer m)\<rparr>)"

definition timer_due :: "timer_name \<Rightarrow> master \<Rightarrow> master" where
  "timer_due k m =
     (case timer_of k m of
        None \<Rightarrow> m
      | Some t \<Rightarrow> if tm_waiting t then (set_expired k m)\<lparr>mr_queue := mr_queue m @ [(tm_callback t, False)]\<rparr> else m)"

datatype master_event =
    Ev_Frame master_frame
  | Ev_Exit nat int
  | Ev_Timer timer_name
  | Ev_Callback
  | Ev_Shutdown
  | Ev_Force_Terminate

definition master_step :: "master_world \<Rightarrow> master_event \<Rightarrow> master \<Rightarrow> master" where
  "master_step w ev m =
     (case ev of
        Ev_Frame f \<Rightarrow> handle_frame w f m
      | Ev_Exit i code \<Rightarrow> (case find (\<lambda>c. cd_id c = i) (mr_children m) of None \<Rightarrow> m | Some c \<Rightarrow> on_child_exit w c code m)
      | Ev_Timer k \<Rightarrow> timer_due k m
      | Ev_Callback \<Rightarrow> (case mr_queue m of [] \<Rightarrow> m | (cb, aborted) # q \<Rightarrow> run_timer w cb aborted (m\<lparr>mr_queue := q\<rparr>))
      | Ev_Shutdown \<Rightarrow> shutdown m
      | Ev_Force_Terminate \<Rightarrow> force_terminate_all m)"

definition master_run :: "(master_world \<times> master_event) list \<Rightarrow> master \<Rightarrow> master" where
  "master_run evs m = foldl (\<lambda>u (w, ev). master_step w ev u) m evs"

end
