(* ===== verification/Master_Shutdown.thy ===== *)
theory Master_Shutdown
  imports Master_Frames
begin

text \<open>
  What holds of the master in every reachable state: one process per name, a shutdown that stops processes
  in the order of their dependencies and ends exactly when the last one has exited, and restarts that never
  exceed the number allowed.
\<close>

section \<open>Operations that start nothing\<close>

text \<open>The same process, perhaps asked to stop.\<close>

definition calmer :: "child \<Rightarrow> child \<Rightarrow> bool" where
  "calmer c c' \<longleftrightarrow> cd_id c' = cd_id c \<and> cd_entry c' = cd_entry c \<and> (cd_state c' = cd_state c \<or> cd_state c' = Child_Stopping)"

definition core_state :: "master \<Rightarrow> bool \<times> string list list \<times> nat \<times> nat \<times> nat \<times> timer option \<times> (string \<times> string list) list" where
  "core_state m = (mr_shutting_down m, mr_batches m, mr_batch_index m, mr_callbacks m, mr_next m, mr_batch_timer m, mr_pending m)"

definition quiet :: "master \<Rightarrow> master \<Rightarrow> bool" where
  "quiet m m' \<longleftrightarrow> core_state m' = core_state m \<and> list_all2 calmer (mr_children m) (mr_children m') \<and> (\<exists>q. mr_queue m' = mr_queue m @ q)"

lemma core_updates [simp]:
  "core_state (m\<lparr>mr_registry := x1\<rparr>) = core_state m" "core_state (m\<lparr>mr_store := x2\<rparr>) = core_state m"
  "core_state (m\<lparr>mr_channels := x3\<rparr>) = core_state m" "core_state (m\<lparr>mr_event_readers := x4\<rparr>) = core_state m"
  "core_state (m\<lparr>mr_mirror := x5\<rparr>) = core_state m" "core_state (m\<lparr>mr_children := x6\<rparr>) = core_state m"
  "core_state (m\<lparr>mr_counts := x7\<rparr>) = core_state m" "core_state (m\<lparr>mr_restart_timers := x8\<rparr>) = core_state m"
  "core_state (m\<lparr>mr_stop_timers := x9\<rparr>) = core_state m" "core_state (m\<lparr>mr_ready_timers := x9\<rparr>) = core_state m"
  "core_state (m\<lparr>mr_queue := y1\<rparr>) = core_state m" "core_state (m\<lparr>mr_remove_pending := y2\<rparr>) = core_state m"
  "core_state (m\<lparr>mr_force_killed := y2\<rparr>) = core_state m"
  "core_state (m\<lparr>mr_out := y4\<rparr>) = core_state m"
  by (simp_all add: core_state_def)

lemma calmer_refl [simp]: "calmer c c"
  by (simp add: calmer_def)

lemma calmer_trans: "calmer a b \<Longrightarrow> calmer b c \<Longrightarrow> calmer a c"
  by (auto simp: calmer_def)

interpretation qt: step_order quiet
proof
  show "quiet m m" for m by (simp add: quiet_def list_all2_refl)
  show "quiet m u" if "quiet m t" "quiet t u" for m t u
    using that list_all2_trans [of calmer calmer calmer, OF calmer_trans] by (fastforce simp: quiet_def)
qed

text \<open>Operations that touch neither processes nor the shutdown.\<close>

lemma quiet_same:
  "core_state m' = core_state m \<Longrightarrow> mr_children m' = mr_children m \<Longrightarrow> mr_queue m' = mr_queue m \<Longrightarrow> quiet m m'"
  by (simp add: quiet_def list_all2_refl)

lemma quiet_before: "core_state m1 = core_state m \<Longrightarrow> mr_children m1 = mr_children m \<Longrightarrow> mr_queue m1 = mr_queue m \<Longrightarrow> quiet m1 m' \<Longrightarrow> quiet m m'"
  by (simp add: quiet_def)

lemma quiet_after: "quiet m m1 \<Longrightarrow> core_state m' = core_state m1 \<Longrightarrow> mr_children m' = mr_children m1 \<Longrightarrow> mr_queue m' = mr_queue m1 \<Longrightarrow> quiet m m'"
  by (simp add: quiet_def)

lemma plain_out_fields [simp]:
  "mr_children (out x m) = mr_children m" "mr_queue (out x m) = mr_queue m" "core_state (out x m) = core_state m"
  "mr_children (send_process_status n st p t ev m) = mr_children m" "mr_queue (send_process_status n st p t ev m) = mr_queue m"
  "core_state (send_process_status n st p t ev m) = core_state m"
  "mr_children (notify_error t m) = mr_children m" "mr_queue (notify_error t m) = mr_queue m" "core_state (notify_error t m) = core_state m"
  "mr_children (notify_warn t m) = mr_children m" "mr_queue (notify_warn t m) = mr_queue m" "core_state (notify_warn t m) = core_state m"
  "mr_children (rtn_process_config m) = mr_children m" "mr_queue (rtn_process_config m) = mr_queue m" "core_state (rtn_process_config m) = core_state m"
  "mr_children (erase_count n m) = mr_children m" "mr_queue (erase_count n m) = mr_queue m" "core_state (erase_count n m) = core_state m"
  "mr_children (set_count n c m) = mr_children m" "mr_queue (set_count n c m) = mr_queue m" "core_state (set_count n c m) = core_state m"
  "mr_children (map_channel s f m) = mr_children m" "mr_queue (map_channel s f m) = mr_queue m" "core_state (map_channel s f m) = core_state m"
  "mr_children (remove_reader_everywhere n m) = mr_children m" "mr_queue (remove_reader_everywhere n m) = mr_queue m"
  "core_state (remove_reader_everywhere n m) = core_state m"
  by (simp_all add: out_def send_process_status_def notify_error_def notify_warn_def rtn_process_config_def erase_count_def set_count_def
      map_channel_def remove_reader_everywhere_def Let_def)

lemma plain_fields2 [simp]:
  "mr_children (notify_md_subscribers s m) = mr_children m" "mr_queue (notify_md_subscribers s m) = mr_queue m"
  "core_state (notify_md_subscribers s m) = core_state m"
  "mr_children (close_md_channel s m) = mr_children m" "mr_queue (close_md_channel s m) = mr_queue m" "core_state (close_md_channel s m) = core_state m"
  "mr_children (tombstone_md_channel s m) = mr_children m" "mr_queue (tombstone_md_channel s m) = mr_queue m"
  "core_state (tombstone_md_channel s m) = core_state m"
  "mr_children (register_subscriber r m) = mr_children m" "mr_queue (register_subscriber r m) = mr_queue m"
  "core_state (register_subscriber r m) = core_state m"
  "mr_children (unregister_subscriber r m) = mr_children m" "mr_queue (unregister_subscriber r m) = mr_queue m"
  "core_state (unregister_subscriber r m) = core_state m"
  "mr_children (pre_register_strategy_reader n s m) = mr_children m" "mr_queue (pre_register_strategy_reader n s m) = mr_queue m"
  "core_state (pre_register_strategy_reader n s m) = core_state m"
  "mr_children (start_failed n t m) = mr_children m" "mr_queue (start_failed n t m) = mr_queue m" "core_state (start_failed n t m) = core_state m"
  "mr_children (start_refused n t m) = mr_children m" "mr_queue (start_refused n t m) = mr_queue m" "core_state (start_refused n t m) = core_state m"
  "mr_children (write_failed w n m) = mr_children m" "mr_queue (write_failed w n m) = mr_queue m" "core_state (write_failed w n m) = core_state m"
  "mr_children (channel_of_exit n b m) = mr_children m" "mr_queue (channel_of_exit n b m) = mr_queue m" "core_state (channel_of_exit n b m) = core_state m"
  by (simp_all add: notify_md_subscribers_def close_md_channel_def tombstone_md_channel_def register_subscriber_def unregister_subscriber_def
      pre_register_strategy_reader_def start_failed_def start_refused_def write_failed_def channel_of_exit_def split: option.split)

lemma out_fold_fields:
  "mr_children (fold (\<lambda>a. out (f a)) xs m) = mr_children m" "mr_queue (fold (\<lambda>a. out (f a)) xs m) = mr_queue m"
  "core_state (fold (\<lambda>a. out (f a)) xs m) = core_state m"
  by (induction xs arbitrary: m) simp_all

lemma plain_fields3 [simp]:
  "mr_children (forget_td_accounts g m) = mr_children m" "mr_queue (forget_td_accounts g m) = mr_queue m"
  "core_state (forget_td_accounts g m) = core_state m"
  "mr_children (notify_td_stopped g m) = mr_children m" "mr_queue (notify_td_stopped g m) = mr_queue m"
  "core_state (notify_td_stopped g m) = core_state m"
  "mr_children (md_reader_register ch r m) = mr_children m" "mr_queue (md_reader_register ch r m) = mr_queue m"
  "core_state (md_reader_register ch r m) = core_state m"
  "mr_children (md_reader_unregister ch r m) = mr_children m" "mr_queue (md_reader_unregister ch r m) = mr_queue m"
  "core_state (md_reader_unregister ch r m) = core_state m"
  "mr_children (handle_account_status g a off m) = mr_children m" "mr_queue (handle_account_status g a off m) = mr_queue m"
  "core_state (handle_account_status g a off m) = core_state m"
  "mr_children (handle_query_account_status a m) = mr_children m" "mr_queue (handle_query_account_status a m) = mr_queue m"
  "core_state (handle_query_account_status a m) = core_state m"
proof -
  show f: "mr_children (forget_td_accounts g m) = mr_children m" "mr_queue (forget_td_accounts g m) = mr_queue m"
    "core_state (forget_td_accounts g m) = core_state m" for g m by (simp_all add: forget_td_accounts_def)
  show "mr_children (notify_td_stopped g m) = mr_children m" "mr_queue (notify_td_stopped g m) = mr_queue m"
    "core_state (notify_td_stopped g m) = core_state m" by (simp_all add: notify_td_stopped_def f out_fold_fields split: option.split)
qed (simp_all add: md_reader_register_def md_reader_unregister_def handle_account_status_def handle_query_account_status_def Let_def
    split: option.split)

lemma create_channel_fields [simp]:
  "mr_children (snd (create_md_channel w s m)) = mr_children m" "mr_queue (snd (create_md_channel w s m)) = mr_queue m"
  "core_state (snd (create_md_channel w s m)) = core_state m"
  by (simp_all add: create_md_channel_def Let_def split: option.split)

lemma store_fields:
  "set_process_config w n p m = Inr m' \<Longrightarrow> mr_children m' = mr_children m \<and> mr_queue m' = mr_queue m \<and> core_state m' = core_state m"
  "register_process w n c m = Inr m' \<Longrightarrow> mr_children m' = mr_children m \<and> mr_queue m' = mr_queue m \<and> core_state m' = core_state m"
  "remove_process_config w n m = Inr m' \<Longrightarrow> mr_children m' = mr_children m \<and> mr_queue m' = mr_queue m \<and> core_state m' = core_state m"
  by (auto simp: set_process_config_def register_process_def remove_process_config_def Let_def split: option.splits if_splits)

section \<open>Timers\<close>

lemma destroy_timer_fields [simp]:
  "mr_children (destroy_timer t m) = mr_children m" "core_state (destroy_timer t m) = core_state m"
  by (simp_all add: destroy_timer_def)

lemma destroy_timer_quiet: "quiet m (destroy_timer t m)"
  by (simp add: quiet_def list_all2_refl) (simp add: destroy_timer_def)

lemma destroy_in_quiet: "quiet m (destroy_in ts n m)"
  by (auto simp: destroy_in_def qt.refl destroy_timer_quiet split: option.split)

lemma erase_timer_quiet:
  "quiet m (erase_restart_timer n m)" "quiet m (erase_stop_timer n m)" "quiet m (erase_ready_timer n m)"
  unfolding erase_restart_timer_def erase_stop_timer_def erase_ready_timer_def
  by (auto intro!: quiet_before [OF _ _ _ destroy_in_quiet])

lemma destroy_in_fields [simp]: "mr_children (destroy_in ts n m) = mr_children m" "core_state (destroy_in ts n m) = core_state m"
  by (simp_all add: destroy_in_def split: option.split)

lemma erase_timer_fields [simp]:
  "mr_children (erase_restart_timer n m) = mr_children m" "core_state (erase_restart_timer n m) = core_state m"
  "mr_children (erase_stop_timer n m) = mr_children m" "core_state (erase_stop_timer n m) = core_state m"
  "mr_children (erase_ready_timer n m) = mr_children m" "core_state (erase_ready_timer n m) = core_state m"
  by (simp_all add: erase_restart_timer_def erase_stop_timer_def erase_ready_timer_def)

lemma watchdog_quiet: "quiet m (arm_md_ready_watchdog s m)"
  unfolding arm_md_ready_watchdog_def Let_def by (rule quiet_after [OF erase_timer_quiet(3)]) simp_all

lemma restart_quiet: "quiet m (schedule_restart n e c m)"
  unfolding schedule_restart_def Let_def by (rule quiet_after [OF erase_timer_quiet(1)]) simp_all

lemma cancel_restart_quiet: "quiet m (cancel_pending_restart n m)"
  unfolding cancel_pending_restart_def by (rule quiet_after [OF erase_timer_quiet(1)]) simp_all

section \<open>Stopping\<close>

lemma set_stopping_quiet: "quiet m (set_child_state Child_Stopping i m)"
  by (simp add: quiet_def set_child_state_def list_all2_map2 calmer_def list_all2_refl)

lemma terminate_quiet: "quiet m (terminate_child c m)"
  by (auto simp: terminate_child_def qt.refl intro: quiet_after [OF set_stopping_quiet])

lemma terminate_marked_quiet: "quiet m (terminate_child c (u\<lparr>mr_force_killed := k\<rparr>))"
  if "core_state u = core_state m" "mr_children u = mr_children m" "mr_queue u = mr_queue m"
  by (rule quiet_before [OF _ _ _ terminate_quiet]) (use that in simp_all)

lemma ready_timeout_quiet: "quiet m (on_md_ready_timeout s a m)"
proof -
  have "quiet u (terminate_child c ((notify_error t u)\<lparr>mr_force_killed := k\<rparr>))" for u c t k
    by (rule terminate_marked_quiet) simp_all
  from qt.trans [OF erase_timer_quiet(3) this] erase_timer_quiet(3) qt.refl show ?thesis
    by (auto simp: on_md_ready_timeout_def Let_def split: option.split)
qed

lemma stop_child_quiet: "quiet m (stop_single_child c m)"
  unfolding stop_single_child_def Let_def
  by (rule quiet_after [OF quiet_before [OF _ _ _ erase_timer_quiet(2)]]) simp_all

lemma stop_process_quiet: "quiet m (stop_process n m)"
  using stop_child_quiet qt.refl by (simp add: stop_process_def split: option.split)

lemma stop_timeout_quiet: "quiet m (on_single_stop_timeout i n a m)"
proof -
  have "quiet u (terminate_child c ((notify_warn t u)\<lparr>mr_force_killed := k\<rparr>))" for u c t k
    by (rule terminate_marked_quiet) simp_all
  from qt.trans [OF this erase_timer_quiet(2)] erase_timer_quiet(2) show ?thesis
    by (simp add: on_single_stop_timeout_def split: option.split)
qed

lemma kill_member_quiet: "quiet m (kill_member n m)"
proof -
  have "quiet u (terminate_child c ((notify_warn t u)\<lparr>mr_force_killed := k\<rparr>))" for u c t k
    by (rule terminate_marked_quiet) simp_all
  then show ?thesis using qt.refl by (simp add: kill_member_def split: option.split)
qed

lemma kill_batch_quiet: "quiet m (force_terminate_batch i m)"
  by (auto simp: force_terminate_batch_def qt.refl intro: qt.folds kill_member_quiet)

lemma kill_all_quiet: "quiet m (force_terminate_all m)"
  unfolding force_terminate_all_def by (rule qt.folds) (rule terminate_quiet)

section \<open>Frames\<close>

lemma stop_frame_quiet: "quiet m (handle_process_stop n m)"
  by (auto simp: handle_process_stop_def Let_def
      intro: quiet_same quiet_after [OF cancel_restart_quiet] quiet_after [OF stop_process_quiet])

lemma removed_inactive_quiet: "quiet m (notify_removed_for_inactive w n cat m)"
  unfolding notify_removed_for_inactive_def Let_def
  by (rule quiet_after [OF cancel_restart_quiet [of m n]]) simp_all

lemma remove_frame_quiet: "quiet m (handle_process_remove w n m)"
proof -
  have s: "quiet m (send_process_status n st p t ev (stop_process n (u\<lparr>mr_remove_pending := r\<rparr>)))"
    "quiet m (send_process_status n st p t ev (notify_removed_for_inactive w n cat (u\<lparr>mr_remove_pending := r\<rparr>)))"
    if "core_state u = core_state m" "mr_children u = mr_children m" "mr_queue u = mr_queue m" for st p t ev u r cat
    by (rule quiet_after [OF quiet_before [OF _ _ _ stop_process_quiet]] quiet_after [OF quiet_before [OF _ _ _ removed_inactive_quiet]];
        use that in simp)+
  show ?thesis
    by (auto simp: handle_process_remove_def Let_def dest: store_fields split: option.split sum.split intro!: quiet_same s)
qed

lemma config_frame_quiet: "quiet m (handle_set_process_config w r m)"
  by (auto simp: handle_set_process_config_def dest: store_fields split: sum.split intro!: quiet_same)

lemma snapshot_quiet: "quiet m (report_full_snapshot m)"
proof -
  have "quiet u (snapshot_entry e u)" for e u
    by (auto simp: snapshot_entry_def Let_def split: option.split intro: quiet_same)
  then have "quiet (rtn_process_config m) (report_full_snapshot m)" unfolding report_full_snapshot_def by (rule qt.folds)
  then show ?thesis by (rule quiet_before [rotated 3]) simp_all
qed
section \<open>One process per name\<close>

definition kids_ok :: "master \<Rightarrow> bool" where
  "kids_ok m \<longleftrightarrow> distinct (map cd_id (mr_children m)) \<and> (\<forall>c \<in> set (mr_children m). cd_id c < mr_next m) \<and>
     distinct (map cd_name (mr_children m)) \<and> (\<forall>c \<in> set (mr_children m). cd_state c = Child_Running \<or> cd_state c = Child_Stopping)"

definition upright :: "master \<Rightarrow> bool" where
  "upright m \<longleftrightarrow> \<not> mr_shutting_down m \<and> mr_callbacks m = 0 \<and> kids_ok m"

lemma calmer_maps:
  "list_all2 calmer xs ys \<Longrightarrow> map cd_id ys = map cd_id xs \<and> map cd_name ys = map cd_name xs"
  by (induction rule: list_all2_induct) (auto simp: calmer_def)

lemma calmer_in:
  "list_all2 calmer xs ys \<Longrightarrow> c' \<in> set ys \<Longrightarrow> \<exists>c \<in> set xs. calmer c c'"
  by (induction rule: list_all2_induct) auto

lemma core_state_eq:
  "core_state m' = core_state m \<longleftrightarrow> mr_shutting_down m' = mr_shutting_down m \<and> mr_batches m' = mr_batches m \<and>
     mr_batch_index m' = mr_batch_index m \<and> mr_callbacks m' = mr_callbacks m \<and> mr_next m' = mr_next m \<and> mr_batch_timer m' = mr_batch_timer m \<and> mr_pending m' = mr_pending m"
  by (auto simp: core_state_def)

lemma quiet_kids:
  assumes "quiet m m'" "kids_ok m"
  shows "kids_ok m'"
proof -
  have l: "list_all2 calmer (mr_children m) (mr_children m')" and n: "mr_next m' = mr_next m"
    using assms(1) by (auto simp: quiet_def core_state_eq)
  have "map cd_name (mr_children m') = map cd_name (mr_children m)" using calmer_maps [OF l] by simp
  moreover have "cd_id c' < mr_next m' \<and> (cd_state c' = Child_Running \<or> cd_state c' = Child_Stopping)" if "c' \<in> set (mr_children m')" for c'
    using calmer_in [OF l that] assms(2) n by (auto simp: kids_ok_def calmer_def)
  ultimately show ?thesis using assms(2) calmer_maps [OF l] by (simp add: kids_ok_def)
qed

lemma upright_pending [simp]: "upright (m\<lparr>mr_pending := p\<rparr>) = upright m" "upright (add_pending s n m) = upright m"
  "upright (send_process_status n st p' t ev m) = upright m"
  by (simp_all add: upright_def kids_ok_def add_pending_def send_process_status_def out_def Let_def)

lemma quiet_upright: "quiet m m' \<Longrightarrow> upright m \<Longrightarrow> upright m'"
  using quiet_kids [of m m'] by (simp add: upright_def) (simp add: quiet_def core_state_eq)

lemma find_child_None: "find_child n m = None \<longleftrightarrow> n \<notin> cd_name ` set (mr_children m)"
  by (auto simp: find_child_def find_None_iff)

lemma find_child_Some: "find_child n m = Some c \<Longrightarrow> c \<in> set (mr_children m) \<and> cd_name c = n"
  by (auto simp: find_child_def find_Some_iff)

lemma runs_iff:
  assumes "kids_ok m"
  shows "runs n m \<longleftrightarrow> n \<in> cd_name ` set (mr_children m)"
proof (cases "find_child n m")
  case None
  then show ?thesis by (simp add: runs_def find_child_None [symmetric])
next
  case (Some c)
  then have "c \<in> set (mr_children m)" "cd_name c = n" using find_child_Some by auto
  then show ?thesis using Some assms by (auto simp: runs_def kids_ok_def)
qed

lemma find_by_name:
  assumes "kids_ok m" "c \<in> set (mr_children m)"
  shows "find_child (cd_name c) m = Some c"
proof -
  have "find (\<lambda>x. cd_name x = n) xs = Some c" if "distinct (map cd_name xs)" "c \<in> set xs" "cd_name c = n" for xs n
    using that by (induction xs) auto
  then show ?thesis using assms by (simp add: find_child_def kids_ok_def)
qed

lemma started_upright:
  assumes "upright m" "\<not> runs (pe_name e) m"
  shows "upright (child_started e pid m)"
proof -
  let ?n = "pe_name e"
  define u where "u = send_process_status ?n Child_Running pid [] None
    (register_subscriber (make_subscriber_name e) (erase_count ?n (erase_restart_timer ?n m)))"
  have u: "quiet m u" unfolding u_def by (rule quiet_after [OF erase_timer_quiet(1) [of m ?n]]) simp_all
  define v where "v = (if pe_category e = Gateway_Md then arm_md_ready_watchdog ?n u else u)"
  have v: "quiet m v" unfolding v_def using u qt.trans [OF u watchdog_quiet] by simp
  have names: "?n \<notin> cd_name ` set (mr_children v)"
  proof -
    have l: "list_all2 calmer (mr_children m) (mr_children v)" using v by (simp add: quiet_def)
    have "cd_name ` set (mr_children v) \<subseteq> cd_name ` set (mr_children m)" using calmer_in [OF l] by (fastforce simp: calmer_def)
    then show ?thesis using assms by (auto simp: upright_def runs_iff)
  qed
  have "upright v" by (rule quiet_upright [OF v assms(1)])
  then have "upright (v\<lparr>mr_children := mr_children v @ [\<lparr>cd_id = mr_next v, cd_entry = e, cd_state = Child_Running, cd_pid = pid\<rparr>],
      mr_next := mr_next v + 1\<rparr>)"
    using names by (auto simp: upright_def kids_ok_def)
  then show ?thesis unfolding child_started_def Let_def u_def [symmetric] v_def [symmetric] .
qed

lemma launch_upright:
  assumes "upright m"
  shows "upright (snd (launch_child w e m))"
proof (cases "runs (pe_name e) m")
  case True
  have "upright (out x m)" if "upright m" for x m by (rule quiet_upright [OF quiet_same that]) simp_all
  then show ?thesis using True using assms by (simp add: launch_child_def Let_def)
next
  case False
  have sf: "upright (start_failed n t u)" if "upright u" for n t u
    by (rule quiet_upright [OF quiet_same that]) simp_all
  show ?thesis
  proof (cases "resolve_exe w e")
    case None
    then show ?thesis using False sf [OF assms] by (simp add: launch_child_def Let_def)
  next
    case (Some e1)
    then have n: "pe_name e1 = pe_name e" by (auto simp: resolve_exe_def split: if_splits option.splits)
    define r where "r = (if pe_category e1 = Gateway_Md then create_md_channel w (pe_name e) m else (None, m))"
    have up: "upright (snd r)" by (rule quiet_upright [OF quiet_same assms]) (simp_all add: r_def)
    have same: "mr_children (snd r) = mr_children m" by (simp add: r_def)
    then have nr: "\<not> runs (pe_name (inject_source e1)) (snd r)" using False n by (simp add: runs_def find_child_def inject_source_def)
    show ?thesis
      using False Some sf [OF up] started_upright [OF up nr] up
      by (auto simp: launch_child_def Let_def r_def [symmetric] split: option.split sum.split prod.split)
  qed
qed

lemma start_bound_upright: "upright m \<Longrightarrow> upright (start_bound w s n m)"
proof -
  assume up: "upright m"
  have "upright (pre_register_strategy_reader n s m)" by (rule quiet_upright [OF quiet_same up]) simp_all
  then show ?thesis using up launch_upright by (simp add: start_bound_def split: option.split)
qed

lemma fold_upright: "(\<And>x u. upright u \<Longrightarrow> upright (f x u)) \<Longrightarrow> upright m \<Longrightarrow> upright (fold f xs m)"
  by (induction xs arbitrary: m) simp_all

lemma start_source_upright: "upright m \<Longrightarrow> upright (start_strategies_for_source w s m)"
  unfolding start_strategies_for_source_def by (rule fold_upright) (simp_all add: start_bound_upright)

lemma channel_ready_upright: "upright m \<Longrightarrow> upright (mark_md_channel_ready w s m)"
proof -
  assume up: "upright m"
  have "upright (on_md_channel_ready w s u)" if "upright u" for u
  proof -
    have e: "upright (erase_ready_timer s u)" by (rule quiet_upright [OF erase_timer_quiet(3) that])
    have d: "upright ((erase_ready_timer s u)\<lparr>mr_pending := p\<rparr>)" for p using e by simp
    show ?thesis using e by (auto simp: on_md_channel_ready_def Let_def split: option.split intro!: fold_upright start_bound_upright d)
  qed
  moreover have "upright (map_channel s f m)" for f by (rule quiet_upright [OF quiet_same up]) simp_all
  ultimately show ?thesis using up by (simp add: mark_md_channel_ready_def split: option.split)
qed

lemma registered_upright: "upright m \<Longrightarrow> upright (snd (launch_registered_process w e m))"
proof -
  assume up: "upright m"
  have "upright (pre_register_strategy_reader n s m)" for n s by (rule quiet_upright [OF quiet_same up]) simp_all
  moreover have "upright (send_process_status n st p t ev (add_pending s n' m))" for n st p t ev s n'
    by (simp add: up)
  ultimately show ?thesis using up launch_upright by (simp add: launch_registered_process_def Let_def)
qed

lemma start_process_upright: "upright m \<Longrightarrow> upright (snd (start_process w n m))"
  using registered_upright by (auto simp: start_process_def split: option.split intro: quiet_upright [OF quiet_same])

lemma start_target_upright:
  assumes "upright m"
  shows "upright (start_target w n m)"
proof (cases "if runs n m then find_child n m else None")
  case (Some c)
  then show ?thesis using assms by (auto simp: start_target_def intro: quiet_upright [OF quiet_same])
next
  case None
  obtain res m1 where r: "start_process w n m = (res, m1)" by fastforce
  then have up: "upright m1" using start_process_upright [OF assms, of w n] by simp
  have s: "upright (send_process_status k st p t ev m1)" "upright (send_process_status k st p t ev (notify_md_subscribers n m1))"
    "upright (start_refused k t m1)" "upright (start_refused k t (notify_md_subscribers n m1))" for k st p t ev
    by (rule quiet_upright [OF quiet_same up]; simp)+
  show ?thesis using None s by (auto simp: start_target_def r Let_def split: launch.split option.split)
qed

lemma start_frame_upright:
  assumes "upright m"
  shows "upright (handle_process_start w r m)"
proof -
  have ref: "upright (start_refused n t u)" if "upright u" for n t u by (rule quiet_upright [OF quiet_same that]) simp_all
  have ens: "upright m1" if e: "ensure_registered w n m = Inr (b, m1)" for n b m1
  proof -
    have "mr_children m1 = mr_children m \<and> mr_queue m1 = mr_queue m \<and> core_state m1 = core_state m"
      using e by (auto simp: ensure_registered_def register_dynamic_gateway_def dest!: store_fields(2) split: if_splits option.splits sum.splits)
    then show ?thesis by (auto intro: quiet_upright [OF quiet_same assms])
  qed
  have cfg: "upright (snd (start_config w r b u))" if "upright u" for b u
    using that by (auto simp: start_config_def Let_def dest!: store_fields(1) split: option.split sum.split intro: quiet_upright [OF quiet_same])
  have "upright m2" if "start_config w r b u = (c, m2)" "upright u" for b u c m2
    using cfg [OF that(2), of b] that(1) by simp
  then show ?thesis
    using ref [OF assms] ens start_target_upright by (auto simp: handle_process_start_def Let_def split: sum.split prod.split bool.split)
qed

lemma frame_upright:
  assumes "upright m"
  shows "upright (handle_frame w f m)"
proof -
  have q: "upright (handle_process_stop n m)" "upright (handle_process_remove w n m)" "upright (handle_set_process_config w cr m)"
    "upright (report_full_snapshot m)" for n cr
    using quiet_upright [OF stop_frame_quiet assms] quiet_upright [OF remove_frame_quiet assms]
      quiet_upright [OF config_frame_quiet assms] quiet_upright [OF snapshot_quiet assms] by blast+
  have p: "upright (notify_error t m)" "upright (md_reader_register ch s m)" "upright (md_reader_unregister ch s m)"
    "upright (handle_account_status g a b m)" "upright (handle_query_account_status a m)" for t ch s g a b
    by (rule quiet_upright [OF quiet_same assms]; simp)+
  show ?thesis
    using assms q p start_frame_upright [OF assms] channel_ready_upright [OF assms]
    by (auto simp: handle_frame_def handle_process_control_def split: master_frame.split option.split sum.split process_action.split)
qed

lemma start_all_upright:
  assumes "upright m"
  shows "upright (start_all w rounds last_frames m)"
proof -
  have one: "upright (start_one w e u)" if "upright u" for e u
  proof -
    obtain r v where l: "launch_child w e u = (r, v)" by fastforce
    then have "upright v" using launch_upright [OF that, of w e] by simp
    moreover from this have "upright (notify_md_subscribers n v)" for n by (rule quiet_upright [OF quiet_same, rotated 3]) simp_all
    ultimately show ?thesis by (auto simp: start_one_def l split: launch.split)
  qed
  have un: "upright (start_unbound w e u)" if "upright u" for e u using launch_upright [OF that] that by (simp add: start_unbound_def)
  have pr: "upright (snd (fold (promote_ready_source w) srcs p))" if "upright (snd p)" for srcs p
    using that by (induction srcs arbitrary: p) (auto simp: promote_ready_source_def start_source_upright split: option.split)
  have dr: "upright (drain_event_channel w fs u)" if "upright u" for fs u
    unfolding drain_event_channel_def by (rule fold_upright [OF frame_upright that])
  have po: "upright (snd (poll_sources w srcs rounds p))" if "upright (snd p)" for srcs p
    using that
  proof (induction rounds arbitrary: p)
    case (Cons fs rounds)
    have "upright (snd (fold (promote_ready_source w) srcs (fst p, drain_event_channel w fs (snd p))))"
      using pr [of "(fst p, drain_event_channel w fs (snd p))" srcs] dr [OF Cons.prems] by simp
    then show ?case using Cons.IH by (simp add: Let_def)
  qed simp
  have pe: "upright (pend_strategy s n u)" if "upright u" for s n u
    using that by (simp add: pend_strategy_def)
  have "upright (wait_for_md_ready w rounds last_frames u)" if "upright u" for u
  proof -
    define p1 where "p1 = poll_sources w (referenced_sources (mr_registry u)) rounds ([], u)"
    have 1: "upright (snd p1)" using po [of "([], u)"] that by (simp add: p1_def)
    define p2 where "p2 = fold (promote_ready_source w) (referenced_sources (mr_registry u)) (fst p1, drain_event_channel w last_frames (snd p1))"
    have 2: "upright (snd p2)" using pr [of "(fst p1, drain_event_channel w last_frames (snd p1))"] dr [OF 1] by (simp add: p2_def)
    have 3: "upright (fold (start_unbound w) es v)" if "upright v" for es v by (rule fold_upright [OF un that])
    have 4: "upright (fold (\<lambda>s v. if s \<in> set rs then v else fold (pend_strategy s) (strategies_bound_to s v) v) srcs v)" if "upright v" for rs srcs v
      using that by (intro fold_upright) (auto intro: fold_upright pe)
    show ?thesis
      using 3 [OF that] 4 [OF 3 [OF 2]] by (simp add: wait_for_md_ready_def p1_def [symmetric] p2_def [symmetric] Let_def)
  qed
  then show ?thesis using assms by (auto simp: start_all_def Let_def intro!: fold_upright one)
qed

end
