(* ===== verification/Master_Closing.thy ===== *)
theory Master_Closing
  imports Master_Shutdown
begin

text \<open>
  The shutdown of the master: batches in the order of the dependencies, each with a timeout after which its
  members are killed. It is invariant under everything that can happen meanwhile, and it ends.
\<close>

section \<open>Batches\<close>

definition category_rank :: "category \<Rightarrow> nat" where
  "category_rank c = (case c of Strategy \<Rightarrow> 0 | Gateway_Td \<Rightarrow> 1 | Gateway_Md \<Rightarrow> 2 | Internal \<Rightarrow> 3 | WebUI \<Rightarrow> 4)"

definition batch_of :: "(string \<times> category) list \<Rightarrow> category \<Rightarrow> string list" where
  "batch_of L cat = map fst (filter (\<lambda>(n, c). c = cat) L)"

lemma build_batches: "build_shutdown_batches L = filter (\<lambda>b. b \<noteq> []) (map (batch_of L) shutdown_order)"
  by (simp add: build_shutdown_batches_def batch_of_def [abs_def])

lemma length_batches: "length (build_shutdown_batches L) \<le> 5"
  using length_filter_le [of "\<lambda>b. b \<noteq> []" "map (batch_of L) shutdown_order"] by (simp add: build_batches shutdown_order_def)

lemma in_batch_of: "distinct (map fst L) \<Longrightarrow> (n, c) \<in> set L \<Longrightarrow> n \<in> set (batch_of L cat) \<longleftrightarrow> c = cat"
  by (auto simp: batch_of_def image_iff) (metis eq_key_imp_eq_value)

lemma in_some_batch:
  assumes "distinct (map fst L)" "(n, c) \<in> set L"
  shows "\<exists>k < length (build_shutdown_batches L). n \<in> set (build_shutdown_batches L ! k)"
proof -
  have n: "n \<in> set (batch_of L c)" using assms by (simp add: in_batch_of)
  moreover have "batch_of L c \<in> set (map (batch_of L) shutdown_order)" by (cases c) (simp_all add: shutdown_order_def)
  ultimately have "batch_of L c \<in> set (build_shutdown_batches L)" by (auto simp: build_batches)
  then show ?thesis using n by (metis in_set_conv_nth)
qed

lemma batches_sorted:
  assumes "distinct (map fst L)" "(n, c) \<in> set L" "(n', c') \<in> set L"
    and "n \<in> set (build_shutdown_batches L ! k)" "n' \<in> set (build_shutdown_batches L ! k')"
    and "k \<le> k'" "k' < length (build_shutdown_batches L)"
  shows "category_rank c \<le> category_rank c'"
proof -
  let ?R = "\<lambda>b b'. \<forall>n \<in> set b. \<forall>n' \<in> set b'. \<forall>c c'. (n, c) \<in> set L \<longrightarrow> (n', c') \<in> set L \<longrightarrow> category_rank c \<le> category_rank c'"
  have r: "?R (batch_of L a) (batch_of L b)" if "category_rank a \<le> category_rank b" for a b
    using that in_batch_of [OF assms(1)] by auto
  have "sorted_wrt (\<lambda>a b. category_rank a \<le> category_rank b) shutdown_order"
    by (simp add: shutdown_order_def category_rank_def)
  then have "sorted_wrt (\<lambda>a b. ?R (batch_of L a) (batch_of L b)) shutdown_order"
    by (rule sorted_wrt_mono_rel [rotated]) (rule r)
  then have "sorted_wrt ?R (map (batch_of L) shutdown_order)" by (simp only: sorted_wrt_map)
  then have s: "sorted_wrt ?R (build_shutdown_batches L)" unfolding build_batches by (rule sorted_wrt_filter)
  show ?thesis
  proof (cases "k = k'")
    case True
    have "build_shutdown_batches L ! k' \<in> set (map (batch_of L) shutdown_order)"
      using nth_mem [OF assms(7)] by (auto simp: build_batches)
    then obtain cat where "build_shutdown_batches L ! k' = batch_of L cat" by auto
    then have "c = cat" "c' = cat" using assms True in_batch_of by auto
    then show ?thesis by simp
  next
    case False
    then have "?R (build_shutdown_batches L ! k) (build_shutdown_batches L ! k')"
      using sorted_wrt_nth_less [OF s, of k k'] assms(6,7) by auto
    then show ?thesis using assms by blast
  qed
qed

section \<open>Invariant\<close>

definition names :: "master \<Rightarrow> string set" where
  "names m = cd_name ` set (mr_children m)"

definition placed :: "master \<Rightarrow> bool" where
  "placed m \<longleftrightarrow> (\<exists>L. distinct (map fst L) \<and> mr_batches m = build_shutdown_batches L \<and>
     (\<forall>c \<in> set (mr_children m). (cd_name c, pe_category (cd_entry c)) \<in> set L)) \<and>
     (\<forall>k < mr_batch_index m. \<forall>n \<in> set (mr_batches m ! k). n \<notin> names m)"

text \<open>The current batch has a timeout ahead of it, or all of its members have been killed.\<close>

definition armed :: "master \<Rightarrow> bool" where
  "armed m \<longleftrightarrow>
     (\<exists>t. mr_batch_timer m = Some t \<and> tm_callback t = T_Batch (mr_batch_index m) \<and> tm_waiting t) \<or>
     (T_Batch (mr_batch_index m), False) \<in> set (mr_queue m) \<or>
     (\<forall>c \<in> set (mr_children m). cd_name c \<in> set (mr_batches m ! mr_batch_index m) \<longrightarrow> cd_state c = Child_Stopping)"

definition going_down :: "master \<Rightarrow> bool" where
  "going_down m \<longleftrightarrow> mr_shutting_down m \<and> mr_pending m = [] \<and> kids_ok m \<and> placed m \<and> mr_batch_index m \<le> length (mr_batches m)"

definition closing :: "master \<Rightarrow> bool" where
  "closing m \<longleftrightarrow> going_down m \<and>
     (if mr_children m = [] then mr_callbacks m = 1
      else mr_callbacks m = 0 \<and> mr_batch_index m < length (mr_batches m) \<and>
           set (mr_batches m ! mr_batch_index m) \<inter> names m \<noteq> {} \<and> armed m)"

lemma quietD:
  assumes "quiet m m'"
  shows "mr_shutting_down m' = mr_shutting_down m" "mr_batches m' = mr_batches m" "mr_batch_index m' = mr_batch_index m"
    "mr_callbacks m' = mr_callbacks m" "mr_batch_timer m' = mr_batch_timer m" "mr_pending m' = mr_pending m"
    "list_all2 calmer (mr_children m) (mr_children m')" "set (mr_queue m) \<subseteq> set (mr_queue m')"
  using assms by (auto simp: quiet_def core_state_eq)

lemma quiet_names: "quiet m m' \<Longrightarrow> names m' = names m"
proof -
  assume "quiet m m'"
  from calmer_maps [OF quietD(7) [OF this]] have "set (map cd_name (mr_children m')) = set (map cd_name (mr_children m))" by simp
  then show ?thesis by (simp add: names_def)
qed

lemma quiet_going_down: "quiet m m' \<Longrightarrow> going_down m \<Longrightarrow> going_down m'"
proof -
  assume q: "quiet m m'" and g: "going_down m"
  have "placed m'"
    unfolding placed_def
  proof
    obtain L where "distinct (map fst L)" "mr_batches m = build_shutdown_batches L"
        "\<forall>c \<in> set (mr_children m). (cd_name c, pe_category (cd_entry c)) \<in> set L"
      using g by (auto simp: going_down_def placed_def)
    moreover from this have "\<forall>c \<in> set (mr_children m'). (cd_name c, pe_category (cd_entry c)) \<in> set L"
      using calmer_in [OF quietD(7) [OF q]] by (fastforce simp: calmer_def)
    ultimately show "\<exists>L. distinct (map fst L) \<and> mr_batches m' = build_shutdown_batches L \<and>
       (\<forall>c \<in> set (mr_children m'). (cd_name c, pe_category (cd_entry c)) \<in> set L)" using quietD(2) [OF q] by auto
    show "\<forall>k < mr_batch_index m'. \<forall>n \<in> set (mr_batches m' ! k). n \<notin> names m'"
      using g quiet_names [OF q] quietD [OF q] by (simp add: going_down_def placed_def)
  qed
  then show ?thesis using g quiet_kids [OF q] quietD [OF q] by (simp add: going_down_def)
qed

lemma quiet_armed: "quiet m m' \<Longrightarrow> armed m \<Longrightarrow> armed m'"
  using quietD calmer_in [OF quietD(7)] unfolding armed_def calmer_def by (smt (verit, best) subset_iff)

lemma quiet_closing: "quiet m m' \<Longrightarrow> closing m \<Longrightarrow> closing m'"
proof -
  assume q: "quiet m m'" and c: "closing m"
  have "mr_children m' = [] \<longleftrightarrow> mr_children m = []" using quietD(7) [OF q] by (metis list_all2_Nil list_all2_Nil2)
  then show ?thesis
    using c quiet_going_down [OF q] quiet_armed [OF q] quietD [OF q] quiet_names [OF q] by (auto simp: closing_def split: if_splits)
qed

section \<open>The next batch\<close>

lemma ask_quiet: "quiet m (ask_to_stop n m)"
  by (auto simp: ask_to_stop_def intro: quiet_same)

lemma batch_timer_fields [simp]:
  "mr_children (erase_batch_timer m) = mr_children m" "mr_shutting_down (erase_batch_timer m) = mr_shutting_down m"
  "mr_batches (erase_batch_timer m) = mr_batches m" "mr_batch_index (erase_batch_timer m) = mr_batch_index m"
  "mr_callbacks (erase_batch_timer m) = mr_callbacks m" "mr_pending (erase_batch_timer m) = mr_pending m"
  "mr_next (erase_batch_timer m) = mr_next m"
  by (simp_all add: erase_batch_timer_def destroy_timer_def split: option.split)

lemma going_down_irrelevant [simp]:
  "going_down (erase_batch_timer m) = going_down m" "going_down (m\<lparr>mr_batch_timer := t\<rparr>) = going_down m"
  "going_down (m\<lparr>mr_queue := q\<rparr>) = going_down m" "going_down (m\<lparr>mr_callbacks := n\<rparr>) = going_down m"
  by (simp_all add: going_down_def placed_def kids_ok_def names_def)

lemma no_child_left:
  assumes "going_down m" "mr_batch_index m = length (mr_batches m)"
  shows "mr_children m = []"
proof (rule ccontr)
  assume "mr_children m \<noteq> []"
  then obtain c where c: "c \<in> set (mr_children m)" by (cases "mr_children m") auto
  obtain L where "distinct (map fst L)" "mr_batches m = build_shutdown_batches L" "(cd_name c, pe_category (cd_entry c)) \<in> set L"
    using assms(1) c by (auto simp: going_down_def placed_def)
  from in_some_batch [OF this(1,3)] this(2) obtain k where "k < length (mr_batches m)" "cd_name c \<in> set (mr_batches m ! k)" by auto
  then show False using assms c by (auto simp: going_down_def placed_def names_def)
qed

lemma send_batch_closing:
  "going_down m \<Longrightarrow> mr_callbacks m = 0 \<Longrightarrow> closing (send_current_shutdown_batch m)"
proof (induction m rule: send_current_shutdown_batch.induct)
  case (1 m)
  have k: "kids_ok m" using 1(2) by (simp add: going_down_def)
  show ?case
  proof (cases "mr_batch_index m < length (mr_batches m)")
    case False
    then have i: "mr_batch_index m = length (mr_batches m)" using 1(2) by (simp add: going_down_def)
    have no: "mr_children m = []" by (rule no_child_left [OF 1(2) i])
    have "send_current_shutdown_batch m = (erase_batch_timer m)\<lparr>mr_callbacks := 1\<rparr>"
      using False no 1(2,3) by (simp add: send_current_shutdown_batch.simps [of m] check_shutdown_complete_def going_down_def)
    then show ?thesis using 1(2) no by (simp add: closing_def)
  next
    case True
    let ?b = "mr_batches m ! mr_batch_index m"
    show ?thesis
    proof (cases "list_ex (\<lambda>n. runs n m) ?b")
      case False
      have free: "\<forall>n \<in> set ?b. n \<notin> names m" using False runs_iff [OF k] by (auto simp: list_ex_iff names_def)
      then have "going_down (m\<lparr>mr_batch_index := mr_batch_index m + 1\<rparr>)"
        using 1(2) True by (auto simp: going_down_def placed_def kids_ok_def names_def less_Suc_eq)
      from 1(1) [OF True refl False this] show ?thesis
        using True False 1(3) by (simp add: send_current_shutdown_batch.simps [of m] Let_def)
    next
      case r: True
      define u where "u = fold ask_to_stop ?b m"
      have q: "quiet m u" unfolding u_def by (rule qt.folds) (rule ask_quiet)
      have s: "send_current_shutdown_batch m =
          (erase_batch_timer u)\<lparr>mr_batch_timer := Some (new_timer (mr_stop_timeout (erase_batch_timer u)) (T_Batch (mr_batch_index m)))\<rparr>"
        using True r by (simp add: send_current_shutdown_batch.simps [of m] u_def Let_def)
      have g: "going_down u" by (rule quiet_going_down [OF q 1(2)])
      have n: "set ?b \<inter> names u \<noteq> {}" using r runs_iff [OF k] quiet_names [OF q] by (auto simp: list_ex_iff names_def)
      then have "mr_children u \<noteq> []" by (auto simp: names_def)
      then show ?thesis
        unfolding s using g n True 1(3) quietD [OF q] by (simp add: closing_def armed_def new_timer_def names_def)
    qed
  qed
qed

lemma advance_closing:
  assumes "going_down m" "mr_callbacks m = 0" "mr_batch_index m < length (mr_batches m)" "armed m"
  shows "closing (advance_shutdown_batch m)"
proof -
  have k: "kids_ok m" "mr_shutting_down m" using assms(1) by (simp_all add: going_down_def)
  let ?b = "mr_batches m ! mr_batch_index m"
  show ?thesis
  proof (cases "list_ex (\<lambda>n. runs n m) ?b")
    case True
    then have "set ?b \<inter> names m \<noteq> {}" using runs_iff [OF k(1)] by (auto simp: list_ex_iff names_def)
    moreover from this have "mr_children m \<noteq> []" by (auto simp: names_def)
    ultimately show ?thesis using True assms k by (simp add: advance_shutdown_batch_def closing_def)
  next
    case False
    have free: "\<forall>n \<in> set ?b. n \<notin> names m" using False runs_iff [OF k(1)] by (auto simp: list_ex_iff names_def)
    have "going_down ((erase_batch_timer m)\<lparr>mr_batch_index := mr_batch_index m + 1\<rparr>)"
      using assms(1,3) free by (auto simp: going_down_def placed_def kids_ok_def names_def less_Suc_eq)
    from send_batch_closing [OF this] show ?thesis using False assms k by (simp add: advance_shutdown_batch_def Let_def)
  qed
qed

section \<open>Exits\<close>

text \<open>The state without the process that exited.\<close>

definition without :: "child \<Rightarrow> master \<Rightarrow> master" where
  "without c m = m\<lparr>mr_children := filter (\<lambda>x. cd_id x \<noteq> cd_id c) (mr_children m)\<rparr>"

lemma clean_up_quiet: "quiet (without c m) (clean_up_exit w c code m)"
  unfolding clean_up_exit_def without_def [symmetric] Let_def
  by (rule quiet_after [OF erase_timer_quiet(2) [of "without c m" "cd_name c"]]) simp_all

lemma without_kids: "kids_ok m \<Longrightarrow> kids_ok (without c m)"
  by (auto simp: kids_ok_def without_def distinct_map_filter)

lemma without_going_down: "going_down m \<Longrightarrow> going_down (without c m)"
proof -
  assume g: "going_down m"
  have "names (without c m) \<subseteq> names m" by (auto simp: names_def without_def)
  then have "placed (without c m)" using g by (auto simp: going_down_def placed_def without_def)
  then show ?thesis using g without_kids by (auto simp: going_down_def) (simp_all add: without_def)
qed

lemma exit_closing:
  assumes "closing m" "c \<in> set (mr_children m)"
  shows "closing (on_child_exit w c code m)"
proof -
  let ?u = "clean_up_exit w c code m"
  have m: "going_down m" "mr_callbacks m = 0" "mr_batch_index m < length (mr_batches m)" "armed m"
    using assms by (auto simp: closing_def split: if_splits)
  have q: "quiet (without c m) ?u" by (rule clean_up_quiet)
  have u: "going_down ?u" "mr_shutting_down ?u" using quiet_going_down [OF q without_going_down [OF m(1)]] by (simp_all add: going_down_def)
  have "armed (without c m)" using m(4) by (auto simp: armed_def without_def)
  then have "armed ?u" by (rule quiet_armed [OF q])
  moreover have "mr_callbacks ?u = 0" "mr_batch_index ?u < length (mr_batches ?u)" using quietD [OF q] m by (simp_all add: without_def)
  ultimately show ?thesis using advance_closing [OF u(1)] u(2) by (simp add: on_child_exit_def Let_def)
qed

text \<open>While the master runs, an exit may only schedule a restart.\<close>

lemma exit_upright:
  assumes "upright m"
  shows "upright (on_child_exit w c code m)"
proof -
  let ?u = "clean_up_exit w c code m"
  have "upright (without c m)" using assms without_kids by (auto simp: upright_def) (simp_all add: without_def)
  then have u: "upright ?u" by (rule quiet_upright [OF clean_up_quiet])
  then have "\<not> mr_shutting_down ?u" by (simp add: upright_def)
  moreover have "upright (erase_count n v)" "upright (set_count n k v)" if "upright v" for n k v
    by (rule quiet_upright [OF quiet_same that]; simp)+
  moreover have "upright (schedule_restart n e k v)" if "upright v" for n e k v by (rule quiet_upright [OF restart_quiet that])
  ultimately show ?thesis using u by (simp add: on_child_exit_def restart_after_crash_def Let_def)
qed

section \<open>Steps\<close>

lemma frame_quiet:
  assumes "mr_shutting_down m" "mr_pending m = []"
  shows "quiet m (handle_frame w f m)"
proof -
  have st: "quiet m (handle_process_start w r m)" for r using assms by (auto simp: handle_process_start_def Let_def intro: quiet_same)
  have rd: "quiet m (mark_md_channel_ready w s m)" for s
  proof -
    have "quiet u (on_md_channel_ready w s u)" if "mr_pending u = []" for u
    proof -
      have "mr_pending (erase_ready_timer s u) = []" using quietD(6) [OF erase_timer_quiet(3)] that by simp
      then show ?thesis using erase_timer_quiet(3) by (simp add: on_md_channel_ready_def Let_def)
    qed
    then have "quiet (map_channel s f m) (on_md_channel_ready w s (map_channel s f m))" for f
      using assms(2) by (simp add: map_channel_def)
    from quiet_before [OF _ _ _ this] show ?thesis using qt.refl by (simp add: mark_md_channel_ready_def split: option.split)
  qed
  have "quiet m (notify_error t m)" "quiet m (md_reader_register ch s m)" "quiet m (md_reader_unregister ch s m)"
    "quiet m (handle_account_status g a b m)" "quiet m (handle_query_account_status a m)" for t ch s g a b
    by (rule quiet_same; simp)+
  then show ?thesis
    using st rd qt.refl stop_frame_quiet remove_frame_quiet config_frame_quiet snapshot_quiet
    by (simp add: handle_frame_def handle_process_control_def split: master_frame.split option.split sum.split process_action.split)
qed

lemma due_other_quiet: "k \<noteq> Batch_Timer \<Longrightarrow> quiet m (timer_due k m)"
  by (cases k) (auto simp: timer_due_def set_expired_def quiet_def list_all2_refl split: option.split)

lemma due_closing: "closing m \<Longrightarrow> closing (timer_due k m)"
proof (cases "k = Batch_Timer")
  case False
  then show "closing m \<Longrightarrow> closing (timer_due k m)" using quiet_closing [OF due_other_quiet] by blast
next
  case True
  assume c: "closing m"
  show "closing (timer_due k m)"
  proof (cases "\<exists>t. mr_batch_timer m = Some t \<and> tm_waiting t")
    case False
    then show ?thesis using c True by (auto simp: timer_due_def timer_of_def split: option.split)
  next
    case w: True
    then obtain t where t: "mr_batch_timer m = Some t" "tm_waiting t" by blast
    let ?m = "timer_due k m"
    have m: "?m = m\<lparr>mr_batch_timer := Some (expire t), mr_queue := mr_queue m @ [(tm_callback t, False)]\<rparr>"
      using True t by (simp add: timer_due_def timer_of_def set_expired_def)
    have "going_down ?m" using c unfolding m by (simp add: closing_def)
    moreover have "armed m \<Longrightarrow> armed ?m" unfolding m armed_def using t by auto
    ultimately show ?thesis using c by (auto simp: closing_def m names_def split: if_splits)
  qed
qed

lemma due_upright: "upright m \<Longrightarrow> upright (timer_due k m)"
  by (cases k) (auto simp: timer_due_def set_expired_def upright_def kids_ok_def split: option.split)

lemma killed_batch:
  assumes "kids_ok m" "c \<in> set (mr_children (fold kill_member b m))" "cd_name c \<in> set b"
  shows "cd_state c = Child_Stopping"
  using assms
proof (induction b arbitrary: m)
  case Nil
  then show ?case by simp
next
  case (Cons n b)
  let ?u = "kill_member n m"
  have k: "kids_ok ?u" by (rule quiet_kids [OF kill_member_quiet Cons.prems(1)])
  show ?case
  proof (cases "cd_name c \<in> set b")
    case True
    then show ?thesis using Cons.IH [OF k] Cons.prems by simp
  next
    case False
    then have n: "cd_name c = n" using Cons.prems by simp
    have "quiet ?u (fold kill_member b ?u)" by (rule qt.folds) (rule kill_member_quiet)
    then obtain d where d: "d \<in> set (mr_children ?u)" "calmer d c" using calmer_in [OF quietD(7)] Cons.prems(2) by fastforce
    then have dn: "cd_name d = n" using n by (simp add: calmer_def)
    obtain e where e: "e \<in> set (mr_children m)" "calmer e d" using calmer_in [OF quietD(7) [OF kill_member_quiet] d(1)] by blast
    have f: "find_child n m = Some e" using find_by_name [OF Cons.prems(1) e(1)] e(2) dn by (simp add: calmer_def)
    have "cd_state e \<noteq> Child_Stopped" using Cons.prems(1) e(1) by (auto simp: kids_ok_def)
    then have "cd_state d = Child_Stopping"
      using d(1) e f by (auto simp: kill_member_def terminate_child_def set_child_state_def calmer_def split: if_splits)
    then show ?thesis using d(2) by (auto simp: calmer_def)
  qed
qed

lemma restart_timer_quiet: "mr_shutting_down m \<Longrightarrow> quiet m (on_restart_timer w n e c a m)"
  using quietD(1) [OF erase_timer_quiet(1)] erase_timer_quiet(1) qt.refl by (simp add: on_restart_timer_def Let_def)

lemma callback_closing:
  assumes "closing m"
  shows "closing (master_step w Ev_Callback m)"
proof (cases "mr_queue m")
  case Nil
  then show ?thesis using assms by (simp add: master_step_def)
next
  case (Cons p q)
  obtain cb a where p: "p = (cb, a)" by fastforce
  define u where "u = m\<lparr>mr_queue := q\<rparr>"
  have step: "master_step w Ev_Callback m = run_timer w cb a u" using Cons p by (simp add: master_step_def u_def)
  have sd: "mr_shutting_down u" using assms by (simp add: u_def closing_def going_down_def)
  have g: "going_down u" using assms by (simp add: u_def closing_def)
  have i: "mr_batch_index u = mr_batch_index m" "mr_batches u = mr_batches m" "mr_children u = mr_children m"
    "mr_callbacks u = mr_callbacks m" "names u = names m" by (simp_all add: u_def names_def)
  have closing_u: "closing u" if "(cb, a) \<noteq> (T_Batch (mr_batch_index m), False)"
    using assms g that Cons p by (auto simp: closing_def armed_def u_def names_def split: if_splits)
  show ?thesis
  proof (cases "(cb, a) = (T_Batch (mr_batch_index m), False)")
    case False
    have "quiet u (run_timer w cb a u)"
      using restart_timer_quiet [OF sd] stop_timeout_quiet ready_timeout_quiet kill_batch_quiet qt.refl
      by (auto simp: run_timer_def split: timer_callback.split)
    then show ?thesis unfolding step by (rule quiet_closing [OF _ closing_u [OF False]])
  next
    case True
    let ?v = "run_timer w cb a u"
    have q: "quiet u ?v" using True kill_batch_quiet by (simp add: run_timer_def)
    have gv: "going_down ?v" by (rule quiet_going_down [OF q g])
    have emp: "mr_children ?v = [] \<longleftrightarrow> mr_children m = []" using quietD(7) [OF q] i by (metis list_all2_Nil list_all2_Nil2)
    have "armed ?v" if "mr_batch_index m < length (mr_batches m)"
    proof -
      have "?v = fold kill_member (mr_batches u ! mr_batch_index u) u"
        using True that i by (simp add: run_timer_def force_terminate_batch_def)
      then show ?thesis
        using killed_batch [of u _ "mr_batches u ! mr_batch_index u"] g quietD [OF q] by (auto simp: armed_def going_down_def)
    qed
    then show ?thesis
      unfolding step using assms gv emp quietD [OF q] quiet_names [OF q] i by (auto simp: closing_def split: if_splits)
  qed
qed

lemma callback_upright:
  assumes "upright m"
  shows "upright (master_step w Ev_Callback m)"
proof (cases "mr_queue m")
  case Nil
  then show ?thesis using assms by (simp add: master_step_def)
next
  case (Cons p q)
  have u: "upright (m\<lparr>mr_queue := q\<rparr>)" using assms by (simp add: upright_def kids_ok_def)
  have r: "upright (on_restart_timer w n e c a v)" if "upright v" for n e c a v
  proof -
    have e: "upright (erase_restart_timer n v)" by (rule quiet_upright [OF erase_timer_quiet(1) that])
    obtain x y where l: "launch_child w e (erase_restart_timer n v) = (x, y)" by fastforce
    then have "upright y" using launch_upright [OF e, of w] by (metis snd_conv)
    moreover from this have "upright (set_count n c y)" by (rule quiet_upright [OF quiet_same, rotated 3]) simp_all
    ultimately show ?thesis using that e l by (simp add: on_restart_timer_def Let_def split: launch.split)
  qed
  have "upright (run_timer w cb a (m\<lparr>mr_queue := q\<rparr>))" for cb a
    using u r [OF u] quiet_upright [OF stop_timeout_quiet u] quiet_upright [OF ready_timeout_quiet u] quiet_upright [OF kill_batch_quiet u]
    by (simp add: run_timer_def split: timer_callback.split)
  then show ?thesis using Cons by (simp add: master_step_def split: prod.split)
qed

lemma destroy_all_quiet: "quiet m (destroy_all ts m)"
  unfolding destroy_all_def by (rule qt.folds) (simp add: destroy_timer_quiet)

lemma shutdown_closing:
  assumes "upright m"
  shows "closing (shutdown m)"
proof -
  define u where "u = destroy_all (mr_ready_timers m) (destroy_all (mr_restart_timers m) (destroy_all (mr_stop_timers m) m))"
  have q: "quiet m u" unfolding u_def by (rule qt.trans [OF qt.trans [OF destroy_all_quiet destroy_all_quiet] destroy_all_quiet])
  have up: "upright u" by (rule quiet_upright [OF q assms])
  define L where "L = map (\<lambda>c. (cd_name c, pe_category (cd_entry c))) (filter (\<lambda>c. cd_state c \<noteq> Child_Stopped) (mr_children m))"
  define v where "v = u\<lparr>mr_shutting_down := True, mr_stop_timers := [], mr_restart_timers := [], mr_counts := [], mr_ready_timers := [],
                      mr_pending := [], mr_batches := build_shutdown_batches L, mr_batch_index := 0\<rparr>"
  have all: "L = map (\<lambda>c. (cd_name c, pe_category (cd_entry c))) (mr_children m)"
    using assms by (auto simp: L_def upright_def kids_ok_def intro!: arg_cong [where f = "map _"] filter_True)
  have d: "distinct (map fst L)" using assms by (simp add: all comp_def upright_def kids_ok_def)
  have in_L: "(cd_name c, pe_category (cd_entry c)) \<in> set L" if "c \<in> set (mr_children u)" for c
    using calmer_in [OF quietD(7) [OF q] that] by (auto simp: all calmer_def)
  have g: "going_down v" using up d in_L by (auto simp: v_def going_down_def placed_def upright_def kids_ok_def)
  have cb: "mr_callbacks v = 0" using up by (simp add: v_def upright_def)
  have s: "shutdown m = (if mr_batches v = [] then check_shutdown_complete v else send_current_shutdown_batch v)"
    using assms by (simp add: shutdown_def upright_def v_def u_def L_def Let_def)
  show ?thesis
  proof (cases "mr_batches v = []")
    case False
    then show ?thesis using s send_batch_closing [OF g cb] by simp
  next
    case True
    then have "send_current_shutdown_batch v = check_shutdown_complete v" by (simp add: send_current_shutdown_batch.simps [of v])
    then show ?thesis using s True send_batch_closing [OF g cb] by simp
  qed
qed

definition master_ok :: "master \<Rightarrow> bool" where
  "master_ok m \<longleftrightarrow> upright m \<or> closing m"

lemma closing_step:
  assumes "closing m"
  shows "closing (master_step w ev m)"
proof -
  have sd: "mr_shutting_down m" "mr_pending m = []" using assms by (simp_all add: closing_def going_down_def)
  have "closing (on_child_exit w c code m)" if "find (\<lambda>c. cd_id c = i) (mr_children m) = Some c" for c code i
    using exit_closing [OF assms] that by (auto simp: find_Some_iff)
  then show ?thesis
    using assms sd quiet_closing [OF frame_quiet [OF sd] assms] due_closing [OF assms] callback_closing [OF assms, of w]
      quiet_closing [OF kill_all_quiet assms]
    by (cases ev) (auto simp: master_step_def shutdown_def split: option.split)
qed

lemma master_step_ok: "master_ok m \<Longrightarrow> master_ok (master_step w ev m)"
proof -
  assume "master_ok m"
  then consider "upright m" | "closing m" by (auto simp: master_ok_def)
  then show ?thesis
  proof cases
    case 2
    then show ?thesis using closing_step by (simp add: master_ok_def)
  next
    case 1
    then show ?thesis
      using frame_upright [OF 1] exit_upright [OF 1] due_upright [OF 1] callback_upright [OF 1, of w] shutdown_closing [OF 1]
        quiet_upright [OF kill_all_quiet 1]
      by (cases ev) (auto simp: master_step_def master_ok_def split: option.split)
  qed
qed

interpretation mst: invariant_run "\<lambda>u (w, ev). master_step w ev u" master_ok
  by unfold_locales (auto intro: master_step_ok)

lemma new_upright: "upright (new_master st rt es)"
  by (simp add: new_master_def upright_def kids_ok_def)

text \<open>All states of a master that has been started.\<close>

lemma run_master_ok: "master_ok (master_run evs (start_all w rounds last_frames (new_master st rt es)))"
  unfolding master_run_def by (rule mst.run_inv) (simp add: master_ok_def start_all_upright new_upright)

end
