(* ===== verification/Master_Ends.thy ===== *)
theory Master_Ends
  imports Master_Closing
begin

text \<open>
  The shutdown of the master ends: when every timeout of a batch is followed by the exits of the processes it
  killed, no process is left after as many rounds as there are kinds of processes. And the order, the
  signal of completion, the restarts.
\<close>

section \<open>Progress\<close>

text \<open>No process is new, and the batches only advance.\<close>

definition later :: "master \<Rightarrow> master \<Rightarrow> bool" where
  "later m m' \<longleftrightarrow> mr_batches m' = mr_batches m \<and> mr_batch_index m \<le> mr_batch_index m' \<and>
     (\<forall>c' \<in> set (mr_children m'). \<exists>c \<in> set (mr_children m). calmer c c')"

interpretation lt: step_order later
proof
  show "later m m" for m by (auto simp: later_def intro: calmer_refl)
  show "later m u" if a: "later m t" and b: "later t u" for m t u
  proof -
    have "\<exists>c \<in> set (mr_children m). calmer c c'" if "c' \<in> set (mr_children u)" for c'
    proof -
      obtain d where "d \<in> set (mr_children t)" "calmer d c'" using b \<open>c' \<in> _\<close> by (auto simp: later_def)
      moreover from this obtain c where "c \<in> set (mr_children m)" "calmer c d" using a by (auto simp: later_def)
      ultimately show ?thesis using calmer_trans by blast
    qed
    then show ?thesis using a b by (simp add: later_def)
  qed
qed

lemma quiet_later: "quiet m m' \<Longrightarrow> later m m'"
  using quietD calmer_in [OF quietD(7)] by (simp add: later_def)

lemma later_same: "mr_children m' = mr_children m \<Longrightarrow> mr_batches m' = mr_batches m \<Longrightarrow> mr_batch_index m \<le> mr_batch_index m' \<Longrightarrow> later m m'"
  by (auto simp: later_def intro: calmer_refl)

lemma complete_later: "later m (check_shutdown_complete m)"
  by (rule later_same) (simp_all add: check_shutdown_complete_def Let_def)

lemma send_batch_later: "later m (send_current_shutdown_batch m)"
proof (induction m rule: send_current_shutdown_batch.induct)
  case (1 m)
  let ?b = "mr_batches m ! mr_batch_index m"
  have n: "later m (m\<lparr>mr_batch_index := mr_batch_index m + 1\<rparr>)" by (rule later_same) simp_all
  have a: "later m (fold ask_to_stop ?b m)" by (rule quiet_later, rule qt.folds, rule ask_quiet)
  have s: "later u ((erase_batch_timer u)\<lparr>mr_batch_timer := t\<rparr>)" for u t by (rule later_same) simp_all
  show ?case
    unfolding send_current_shutdown_batch.simps [of m]
    using lt.trans [OF n 1] lt.trans [OF a s] complete_later by (simp add: Let_def)
qed

lemma advance_later: "later m (advance_shutdown_batch m)"
proof -
  have "later m ((erase_batch_timer m)\<lparr>mr_batch_index := mr_batch_index m + 1\<rparr>)" by (rule later_same) simp_all
  from lt.trans [OF this send_batch_later] lt.refl show ?thesis by (simp add: advance_shutdown_batch_def Let_def)
qed

lemma without_later: "later m (without c m)"
  by (auto simp: later_def without_def intro: calmer_refl)

lemma exit_later:
  assumes "mr_shutting_down m"
  shows "later (without c m) (on_child_exit w c code m)"
proof -
  have q: "quiet (without c m) (clean_up_exit w c code m)" by (rule clean_up_quiet)
  have "mr_shutting_down (clean_up_exit w c code m)" using quietD(1) [OF q] assms by (simp add: without_def)
  then show ?thesis using lt.trans [OF quiet_later [OF q] advance_later] by (simp add: on_child_exit_def Let_def)
qed

section \<open>One timeout and the exits it leads to\<close>

definition run_queue :: "master_world \<Rightarrow> nat \<Rightarrow> master \<Rightarrow> master" where
  "run_queue w n m = (master_step w Ev_Callback ^^ n) m"

text \<open>The timeout of the batch comes due and the event loop runs every callback that waits then.\<close>

definition grace_over :: "master_world \<Rightarrow> master \<Rightarrow> master" where
  "grace_over w m = (let u = timer_due Batch_Timer m in run_queue w (length (mr_queue u)) u)"

text \<open>The processes that were killed exit.\<close>

definition exit_all :: "master_world \<Rightarrow> int \<Rightarrow> nat list \<Rightarrow> master \<Rightarrow> master" where
  "exit_all w code xs = fold (\<lambda>i. master_step w (Ev_Exit i code)) xs"

definition killed_exit :: "master_world \<Rightarrow> int \<Rightarrow> master \<Rightarrow> master" where
  "killed_exit w code m =
     exit_all w code (map cd_id (filter (\<lambda>c. cd_state c = Child_Stopping) (mr_children m))) m"

definition shutdown_round :: "master_world \<Rightarrow> int \<Rightarrow> master \<Rightarrow> master" where
  "shutdown_round w code m = killed_exit w code (grace_over w m)"

definition batch_killed :: "master \<Rightarrow> bool" where
  "batch_killed m \<longleftrightarrow> (\<forall>c \<in> set (mr_children m). cd_name c \<in> set (mr_batches m ! mr_batch_index m) \<longrightarrow> cd_state c = Child_Stopping)"

lemma quiet_killed: "quiet m m' \<Longrightarrow> batch_killed m \<Longrightarrow> batch_killed m'"
proof -
  assume q: "quiet m m'" and k: "batch_killed m"
  have "cd_state c' = Child_Stopping" if c': "c' \<in> set (mr_children m')" "cd_name c' \<in> set (mr_batches m ! mr_batch_index m)" for c'
  proof -
    obtain c where "c \<in> set (mr_children m)" "calmer c c'" using calmer_in [OF quietD(7) [OF q] c'(1)] by blast
    then show ?thesis using k c'(2) by (auto simp: batch_killed_def calmer_def)
  qed
  then show ?thesis using quietD(2,3) [OF q] by (simp add: batch_killed_def)
qed

lemma callback_quiet:
  assumes "mr_shutting_down m" "mr_queue m = p # q"
  shows "quiet (m\<lparr>mr_queue := q\<rparr>) (master_step w Ev_Callback m)"
proof -
  have sd: "mr_shutting_down (m\<lparr>mr_queue := q\<rparr>)" using assms(1) by simp
  have "quiet (m\<lparr>mr_queue := q\<rparr>) (run_timer w cb a (m\<lparr>mr_queue := q\<rparr>))" for cb a
    using restart_timer_quiet [OF sd] stop_timeout_quiet ready_timeout_quiet kill_batch_quiet qt.refl
    by (auto simp: run_timer_def split: timer_callback.split)
  then show ?thesis using assms(2) by (simp add: master_step_def split: prod.split)
qed

lemma callback_later: "mr_shutting_down m \<Longrightarrow> later m (master_step w Ev_Callback m)"
proof (cases "mr_queue m")
  case Nil
  then show ?thesis by (simp add: master_step_def lt.refl)
next
  case (Cons p q)
  assume "mr_shutting_down m"
  from quiet_later [OF callback_quiet [OF this Cons]] show ?thesis by (auto simp: later_def)
qed

lemma batch_callback_kills:
  assumes "mr_shutting_down m" "kids_ok m" "mr_queue m = (T_Batch (mr_batch_index m), False) # q" "mr_batch_index m < length (mr_batches m)"
  shows "batch_killed (master_step w Ev_Callback m)"
proof -
  define u where "u = m\<lparr>mr_queue := q\<rparr>"
  have q: "quiet u (master_step w Ev_Callback m)" unfolding u_def by (rule callback_quiet [OF assms(1,3)])
  have "master_step w Ev_Callback m = fold kill_member (mr_batches u ! mr_batch_index u) u"
    using assms by (simp add: master_step_def run_timer_def force_terminate_batch_def u_def)
  moreover have "kids_ok u" using assms(2) by (simp add: u_def kids_ok_def)
  ultimately show ?thesis using killed_batch [of u] quietD(2,3) [OF q] by (simp add: batch_killed_def)
qed

lemma queue_later: "closing m \<Longrightarrow> closing (run_queue w n m) \<and> later m (run_queue w n m)"
proof (induction n)
  case 0
  then show ?case by (simp add: run_queue_def lt.refl)
next
  case (Suc n)
  let ?u = "run_queue w n m"
  have u: "closing ?u" "later m ?u" using Suc by blast+
  then have "later ?u (master_step w Ev_Callback ?u)" by (intro callback_later) (simp add: closing_def going_down_def)
  from callback_closing [OF u(1), of w] lt.trans [OF u(2) this] show ?case by (simp add: run_queue_def)
qed

lemma queue_kills:
  assumes "closing m" "mr_children m \<noteq> []" "n \<le> length (mr_queue m)"
    and "batch_killed m \<or> (T_Batch (mr_batch_index m), False) \<in> set (take n (mr_queue m))"
  shows "batch_killed (run_queue w n m)"
  using assms
proof (induction n arbitrary: m)
  case 0
  then show ?case by (simp add: run_queue_def)
next
  case (Suc n)
  let ?v = "master_step w Ev_Callback m"
  obtain p q where pq: "mr_queue m = p # q" using Suc.prems(3) by (cases "mr_queue m") auto
  have sd: "mr_shutting_down m" "kids_ok m" "mr_batch_index m < length (mr_batches m)"
    using Suc.prems(1,2) by (auto simp: closing_def going_down_def)
  have qu: "quiet (m\<lparr>mr_queue := q\<rparr>) ?v" by (rule callback_quiet [OF sd(1) pq])
  obtain x where x: "mr_queue ?v = q @ x" using qu by (auto simp: quiet_def)
  have c: "closing ?v" by (rule callback_closing [OF Suc.prems(1)])
  have ne: "mr_children ?v \<noteq> []" using quietD(7) [OF qu] Suc.prems(2) by auto
  have idx: "mr_batch_index ?v = mr_batch_index m" using quietD(3) [OF qu] by simp
  have le: "n \<le> length (mr_queue ?v)" using Suc.prems(3) pq x by simp
  have "batch_killed ?v \<or> (T_Batch (mr_batch_index ?v), False) \<in> set (take n (mr_queue ?v))"
  proof (cases "batch_killed m")
    case True
    then have "batch_killed (m\<lparr>mr_queue := q\<rparr>)" by (simp add: batch_killed_def)
    then show ?thesis using quiet_killed [OF qu] by blast
  next
    case False
    then consider "p = (T_Batch (mr_batch_index m), False)" | "(T_Batch (mr_batch_index m), False) \<in> set (take n q)"
      using Suc.prems(4) pq by auto
    then show ?thesis
    proof cases
      case 1
      then show ?thesis using batch_callback_kills [OF sd(1,2) _ sd(3)] pq by auto
    next
      case 2
      then show ?thesis by (auto simp: idx x)
    qed
  qed
  from Suc.IH [OF c ne le this] show ?case by (simp add: run_queue_def funpow_Suc_right del: funpow.simps)
qed

lemma due_batch_fields:
  "mr_children (timer_due Batch_Timer m) = mr_children m" "mr_batches (timer_due Batch_Timer m) = mr_batches m"
  "mr_batch_index (timer_due Batch_Timer m) = mr_batch_index m"
  by (simp_all add: timer_due_def set_expired_def split: option.split)

lemma grace_later: "closing m \<Longrightarrow> closing (grace_over w m) \<and> later m (grace_over w m)"
proof -
  assume c: "closing m"
  have l: "later m (timer_due Batch_Timer m)" by (rule later_same) (simp_all add: due_batch_fields)
  from queue_later [OF due_closing [OF c]] lt.trans [OF l] show ?thesis by (simp add: grace_over_def Let_def)
qed

lemma grace_kills:
  assumes "closing m" "mr_children m \<noteq> []"
  shows "batch_killed (grace_over w m)"
proof -
  define u where "u = timer_due Batch_Timer m"
  have c: "closing u" unfolding u_def by (rule due_closing [OF assms(1)])
  have "armed m" using assms by (simp add: closing_def)
  then have "batch_killed m \<or> (T_Batch (mr_batch_index m), False) \<in> set (mr_queue u)"
    by (auto simp: armed_def batch_killed_def u_def timer_due_def timer_of_def split: option.split)
  then have k: "batch_killed u \<or> (T_Batch (mr_batch_index u), False) \<in> set (take (length (mr_queue u)) (mr_queue u))"
    by (simp add: batch_killed_def u_def due_batch_fields)
  from queue_kills [OF c _ order_refl k, of w] assms(2) show ?thesis
    by (simp add: grace_over_def u_def [symmetric] Let_def due_batch_fields(1) [of m, folded u_def])
qed

section \<open>Rounds\<close>

definition ids :: "master \<Rightarrow> nat set" where
  "ids m = cd_id ` set (mr_children m)"

lemma later_ids: "later m m' \<Longrightarrow> ids m' \<subseteq> ids m"
  by (fastforce simp: later_def ids_def calmer_def)

lemma exit_step:
  assumes "closing m"
  shows "later m (master_step w (Ev_Exit i code) m) \<and> i \<notin> ids (master_step w (Ev_Exit i code) m)"
proof (cases "find (\<lambda>c. cd_id c = i) (mr_children m)")
  case None
  then have "master_step w (Ev_Exit i code) m = m" by (simp add: master_step_def)
  then show ?thesis using None by (auto simp: lt.refl ids_def find_None_iff)
next
  case (Some c)
  then have c: "cd_id c = i" by (auto simp: find_Some_iff)
  have sd: "mr_shutting_down m" using assms by (simp add: closing_def going_down_def)
  have "i \<notin> ids (without c m)" using c by (auto simp: ids_def without_def)
  then show ?thesis
    using Some exit_later [OF sd, of c w code] lt.trans [OF without_later exit_later [OF sd, of c w code]]
      later_ids [OF exit_later [OF sd, of c w code]] by (auto simp: master_step_def)
qed

lemma exits:
  "closing m \<Longrightarrow> closing (exit_all w code xs m) \<and> later m (exit_all w code xs m) \<and>
     set xs \<inter> ids (exit_all w code xs m) = {}"
proof (induction xs arbitrary: m)
  case Nil
  then show ?case by (simp add: lt.refl exit_all_def)
next
  case (Cons i xs)
  let ?v = "master_step w (Ev_Exit i code) m"
  have e: "later m ?v" "i \<notin> ids ?v" using exit_step [OF Cons.prems] by blast+
  have "closing ?v" by (rule closing_step [OF Cons.prems])
  from Cons.IH [OF this] e later_ids lt.trans [OF e(1)] show ?case by (auto simp: exit_all_def)
qed

lemma round_later: "closing m \<Longrightarrow> closing (shutdown_round w code m) \<and> later m (shutdown_round w code m)"
  using exits grace_later lt.trans by (simp add: shutdown_round_def killed_exit_def) blast

lemma round_advances:
  assumes "closing m" "mr_children (shutdown_round w code m) \<noteq> []"
  shows "mr_batch_index m < mr_batch_index (shutdown_round w code m)"
proof -
  define g where "g = grace_over w m"
  define v where "v = shutdown_round w code m"
  have v: "v = exit_all w code (map cd_id (filter (\<lambda>c. cd_state c = Child_Stopping) (mr_children g))) g"
    by (simp add: v_def shutdown_round_def killed_exit_def g_def)
  have "mr_children m \<noteq> []"
  proof
    assume "mr_children m = []"
    then have "mr_children v = []" using round_later [OF assms(1), of w code] by (auto simp: v_def later_def)
    then show False using assms(2) by (simp add: v_def)
  qed
  then have g: "closing g" "batch_killed g" "later m g" unfolding g_def using grace_kills grace_later assms(1) by blast+
  have e: "closing v" "later g v" unfolding v using exits [OF g(1)] by blast+
  have gone: "cd_id c \<notin> ids v" if "c \<in> set (mr_children g)" "cd_state c = Child_Stopping" for c
    using exits [OF g(1), of w code "map cd_id (filter (\<lambda>c. cd_state c = Child_Stopping) (mr_children g))"] that unfolding v by auto
  have ne: "set (mr_batches v ! mr_batch_index v) \<inter> names v \<noteq> {}" using e(1) assms(2) by (simp add: closing_def v_def)
  have "mr_batch_index v \<noteq> mr_batch_index g"
  proof
    assume "mr_batch_index v = mr_batch_index g"
    then obtain c' where c': "c' \<in> set (mr_children v)" "cd_name c' \<in> set (mr_batches g ! mr_batch_index g)"
      using ne e(2) by (auto simp: names_def later_def)
    then obtain c where c: "c \<in> set (mr_children g)" "calmer c c'" using e(2) by (auto simp: later_def)
    then have "cd_state c = Child_Stopping" using g(2) c'(2) by (auto simp: batch_killed_def calmer_def)
    from gone [OF c(1) this] show False using c(2) imageI [OF c'(1), of cd_id] by (simp add: ids_def calmer_def)
  qed
  moreover have "mr_batch_index m \<le> mr_batch_index g" "mr_batch_index g \<le> mr_batch_index v" using g(3) e(2) by (simp_all add: later_def)
  ultimately show ?thesis by (simp add: v_def)
qed

lemma rounds_advance:
  assumes "closing m"
  shows "closing ((shutdown_round w code ^^ k) m) \<and>
    (mr_children ((shutdown_round w code ^^ k) m) \<noteq> [] \<longrightarrow> k \<le> mr_batch_index ((shutdown_round w code ^^ k) m))"
proof (induction k)
  case 0
  then show ?case using assms by simp
next
  case (Suc k)
  let ?u = "(shutdown_round w code ^^ k) m"
  have u: "closing ?u" using Suc by blast
  show ?case
  proof (cases "mr_children (shutdown_round w code ?u) = []")
    case True
    then show ?thesis using round_later [OF u] by simp
  next
    case False
    then have "mr_children ?u \<noteq> []" using round_later [OF u, of w code] by (auto simp: later_def)
    then show ?thesis using Suc round_advances [OF u False] round_later [OF u, of w code] by simp
  qed
qed

lemma closing_ends:
  assumes "closing m"
  shows "mr_children ((shutdown_round w code ^^ 5) m) = []"
proof (rule ccontr)
  let ?u = "(shutdown_round w code ^^ 5) m"
  assume ne: "mr_children ?u \<noteq> []"
  have u: "closing ?u" "5 \<le> mr_batch_index ?u" using rounds_advance [OF assms] ne by blast+
  then obtain L where "mr_batches ?u = build_shutdown_batches L" by (auto simp: closing_def going_down_def placed_def)
  moreover have "mr_batch_index ?u < length (mr_batches ?u)" using u(1) ne by (simp add: closing_def)
  ultimately show False using length_batches [of L] u(2) by simp
qed

end
