(* ===== verification/Master_Restarts.thy ===== *)
theory Master_Restarts
  imports Master_Ends
begin

text \<open>
  Restarts after a crash are bounded: every restart that waits, or whose timer has come due, is for a process that may be
  restarted and is at most the last attempt its configuration allows.
\<close>

section \<open>Timers and counters\<close>

fun callback_ok :: "timer_callback \<Rightarrow> bool" where
  "callback_ok (T_Restart n e k) \<longleftrightarrow> rp_enabled (pe_restart e) \<and> 1 \<le> k \<and> k \<le> rp_max_attempts (pe_restart e)"
| "callback_ok (T_Stop i n) \<longleftrightarrow> True"
| "callback_ok (T_Ready src) \<longleftrightarrow> True"
| "callback_ok (T_Batch i) \<longleftrightarrow> True"

definition timers_ok :: "(string \<times> timer) list \<Rightarrow> bool" where
  "timers_ok ts \<longleftrightarrow> (\<forall>(n, t) \<in> set ts. callback_ok (tm_callback t))"

definition counts_ok :: "(string \<times> int) list \<Rightarrow> bool" where
  "counts_ok cs \<longleftrightarrow> (\<forall>(n, k) \<in> set cs. 0 \<le> k)"

definition restarts_ok :: "master \<Rightarrow> bool" where
  "restarts_ok m \<longleftrightarrow> counts_ok (mr_counts m) \<and> timers_ok (mr_restart_timers m) \<and> timers_ok (mr_stop_timers m) \<and>
     timers_ok (mr_ready_timers m) \<and> (\<forall>t. mr_batch_timer m = Some t \<longrightarrow> callback_ok (tm_callback t)) \<and>
     (\<forall>(cb, a) \<in> set (mr_queue m). callback_ok cb)"

lemma timers_ok_simps [simp]:
  "timers_ok []" "timers_ok ts \<Longrightarrow> timers_ok (AList.delete n ts)" "timers_ok ts \<Longrightarrow> timers_ok (AList.map_entry n expire ts)"
  "timers_ok ts \<Longrightarrow> callback_ok (tm_callback t) \<Longrightarrow> timers_ok (AList.update n t ts)"
proof -
  show "timers_ok []" by (simp add: timers_ok_def)
  show "timers_ok ts \<Longrightarrow> timers_ok (AList.delete n ts)" by (auto simp: timers_ok_def AList.delete_eq)
  show "timers_ok ts \<Longrightarrow> timers_ok (AList.map_entry n expire ts)"
    by (induction ts) (auto simp: timers_ok_def expire_def)
  show "timers_ok ts \<Longrightarrow> callback_ok (tm_callback t) \<Longrightarrow> timers_ok (AList.update n t ts)"
    by (induction ts) (auto simp: timers_ok_def)
qed

lemma counts_ok_simps [simp]:
  "counts_ok []" "counts_ok cs \<Longrightarrow> counts_ok (AList.delete x cs)" "counts_ok cs \<Longrightarrow> 0 \<le> y \<Longrightarrow> counts_ok (AList.update x y cs)"
proof -
  show "counts_ok []" by (simp add: counts_ok_def)
  show "counts_ok cs \<Longrightarrow> counts_ok (AList.delete x cs)" by (auto simp: counts_ok_def AList.delete_eq)
  show "counts_ok cs \<Longrightarrow> 0 \<le> y \<Longrightarrow> counts_ok (AList.update x y cs)" by (induction cs) (auto simp: counts_ok_def)
qed

lemma ok_updates [simp]:
  "restarts_ok (m\<lparr>mr_registry := x1\<rparr>) = restarts_ok m" "restarts_ok (m\<lparr>mr_store := x2\<rparr>) = restarts_ok m"
  "restarts_ok (m\<lparr>mr_channels := x3\<rparr>) = restarts_ok m" "restarts_ok (m\<lparr>mr_event_readers := x4\<rparr>) = restarts_ok m"
  "restarts_ok (m\<lparr>mr_mirror := x5\<rparr>) = restarts_ok m" "restarts_ok (m\<lparr>mr_children := x6\<rparr>) = restarts_ok m"
  "restarts_ok (m\<lparr>mr_batch_index := i\<rparr>) = restarts_ok m" "restarts_ok (m\<lparr>mr_callbacks := i\<rparr>) = restarts_ok m"
  "restarts_ok (m\<lparr>mr_remove_pending := y2\<rparr>) = restarts_ok m" "restarts_ok (m\<lparr>mr_force_killed := y2\<rparr>) = restarts_ok m"
  "restarts_ok (m\<lparr>mr_pending := y3\<rparr>) = restarts_ok m" "restarts_ok (m\<lparr>mr_next := i\<rparr>) = restarts_ok m" "restarts_ok (m\<lparr>mr_out := y4\<rparr>) = restarts_ok m"
  by (simp_all add: restarts_ok_def)

lemma ok_plain [simp]:
  "restarts_ok (out x m) = restarts_ok m" "restarts_ok (send_process_status n st p t ev m) = restarts_ok m"
  "restarts_ok (notify_error t m) = restarts_ok m" "restarts_ok (notify_warn t m) = restarts_ok m" "restarts_ok (rtn_process_config m) = restarts_ok m"
  "restarts_ok (map_channel s f m) = restarts_ok m" "restarts_ok (remove_reader_everywhere n m) = restarts_ok m"
  by (simp_all add: out_def send_process_status_def notify_error_def notify_warn_def rtn_process_config_def
      map_channel_def remove_reader_everywhere_def Let_def)

lemma ok_plain2 [simp]:
  "restarts_ok (notify_md_subscribers s m) = restarts_ok m" "restarts_ok (close_md_channel s m) = restarts_ok m"
  "restarts_ok (tombstone_md_channel s m) = restarts_ok m" "restarts_ok (register_subscriber r m) = restarts_ok m"
  "restarts_ok (unregister_subscriber r m) = restarts_ok m" "restarts_ok (pre_register_strategy_reader n s m) = restarts_ok m"
  "restarts_ok (start_refused n t m) = restarts_ok m" "restarts_ok (write_failed w n m) = restarts_ok m"
  "restarts_ok (channel_of_exit n b m) = restarts_ok m" "restarts_ok (add_pending s n m) = restarts_ok m" "restarts_ok (pend_strategy s n m) = restarts_ok m"
  by (simp_all add: notify_md_subscribers_def close_md_channel_def tombstone_md_channel_def register_subscriber_def unregister_subscriber_def
      pre_register_strategy_reader_def start_refused_def write_failed_def channel_of_exit_def add_pending_def
      pend_strategy_def Let_def split: option.split)

lemma out_fold_ok: "restarts_ok (fold (\<lambda>a. out (f a)) xs m) = restarts_ok m"
  by (induction xs arbitrary: m) simp_all

lemma ok_plain3 [simp]:
  "restarts_ok (forget_td_accounts g m) = restarts_ok m" "restarts_ok (notify_td_stopped g m) = restarts_ok m"
  "restarts_ok (md_reader_register ch r m) = restarts_ok m" "restarts_ok (md_reader_unregister ch r m) = restarts_ok m"
  "restarts_ok (handle_account_status g a off m) = restarts_ok m" "restarts_ok (handle_query_account_status a m) = restarts_ok m"
  "restarts_ok (snd (create_md_channel w s m)) = restarts_ok m"
proof -
  show f: "restarts_ok (forget_td_accounts g m) = restarts_ok m" for m by (simp add: forget_td_accounts_def)
  show "restarts_ok (notify_td_stopped g m) = restarts_ok m" by (simp add: notify_td_stopped_def f out_fold_ok split: option.split)
qed (simp_all add: md_reader_register_def md_reader_unregister_def handle_account_status_def handle_query_account_status_def
    create_md_channel_def Let_def split: option.split)

lemma ok_store:
  "set_process_config w n p m = Inr m' \<Longrightarrow> restarts_ok m' = restarts_ok m"
  "register_process w n c m = Inr m' \<Longrightarrow> restarts_ok m' = restarts_ok m"
  "remove_process_config w n m = Inr m' \<Longrightarrow> restarts_ok m' = restarts_ok m"
  by (auto simp: set_process_config_def register_process_def remove_process_config_def Let_def split: option.splits if_splits)

text \<open>The operations on timers and counters.\<close>

lemma erase_count_ok [simp]: "restarts_ok m \<Longrightarrow> restarts_ok (erase_count n m)"
  by (simp add: erase_count_def restarts_ok_def)

lemma set_count_ok [simp]: "restarts_ok m \<Longrightarrow> 0 \<le> k \<Longrightarrow> restarts_ok (set_count n k m)"
  by (simp add: set_count_def restarts_ok_def)

lemma count_of_ok: "restarts_ok m \<Longrightarrow> 0 \<le> count_of n m"
  by (auto simp: count_of_def restarts_ok_def counts_ok_def split: option.split dest: map_of_SomeD)

lemma destroy_ok [simp]: "restarts_ok m \<Longrightarrow> callback_ok (tm_callback t) \<Longrightarrow> restarts_ok (destroy_timer t m)"
  by (simp add: destroy_timer_def restarts_ok_def)

lemma timers_ok_get: "timers_ok ts \<Longrightarrow> map_of ts n = Some t \<Longrightarrow> callback_ok (tm_callback t)"
  by (auto simp: timers_ok_def dest: map_of_SomeD)

lemma destroy_in_ok: "restarts_ok m \<Longrightarrow> timers_ok ts \<Longrightarrow> restarts_ok (destroy_in ts n m)"
  using timers_ok_get by (auto simp: destroy_in_def split: option.split)

lemma erase_timers_ok [simp]:
  assumes "restarts_ok m"
  shows "restarts_ok (erase_restart_timer n m)" "restarts_ok (erase_stop_timer n m)" "restarts_ok (erase_ready_timer n m)"
    "restarts_ok (erase_batch_timer m)"
proof -
  have t: "timers_ok (mr_restart_timers m)" "timers_ok (mr_stop_timers m)" "timers_ok (mr_ready_timers m)"
    using assms by (simp_all add: restarts_ok_def)
  have u: "restarts_ok (m\<lparr>mr_restart_timers := AList.delete n (mr_restart_timers m)\<rparr>)"
    "restarts_ok (m\<lparr>mr_stop_timers := AList.delete n (mr_stop_timers m)\<rparr>)" "restarts_ok (m\<lparr>mr_ready_timers := AList.delete n (mr_ready_timers m)\<rparr>)"
    using assms by (simp_all add: restarts_ok_def)
  show "restarts_ok (erase_restart_timer n m)" "restarts_ok (erase_stop_timer n m)" "restarts_ok (erase_ready_timer n m)"
    using t u by (simp_all add: erase_restart_timer_def erase_stop_timer_def erase_ready_timer_def destroy_in_ok)
  have "restarts_ok (destroy_timer t (m\<lparr>mr_batch_timer := None\<rparr>))" if "mr_batch_timer m = Some t" for t
    by (rule destroy_ok) (use assms that in \<open>simp_all add: restarts_ok_def\<close>)
  then show "restarts_ok (erase_batch_timer m)" using assms by (simp add: erase_batch_timer_def split: option.split)
qed

lemma timer_set_ok [simp]:
  assumes "restarts_ok m"
  shows "timers_ok ts \<Longrightarrow> restarts_ok (m\<lparr>mr_restart_timers := ts\<rparr>)" "timers_ok ts \<Longrightarrow> restarts_ok (m\<lparr>mr_stop_timers := ts\<rparr>)"
    "timers_ok ts \<Longrightarrow> restarts_ok (m\<lparr>mr_ready_timers := ts\<rparr>)" "callback_ok (tm_callback t) \<Longrightarrow> restarts_ok (m\<lparr>mr_batch_timer := Some t\<rparr>)"
  using assms by (simp_all add: restarts_ok_def)

lemma timer_maps_ok:
  "restarts_ok m \<Longrightarrow> timers_ok (mr_restart_timers m)" "restarts_ok m \<Longrightarrow> timers_ok (mr_stop_timers m)"
  "restarts_ok m \<Longrightarrow> timers_ok (mr_ready_timers m)"
  by (simp_all add: restarts_ok_def)

lemma new_timer_callback [simp]: "tm_callback (new_timer s cb) = cb"
  by (simp add: new_timer_def)

lemma watchdog_ok [simp]: "restarts_ok m \<Longrightarrow> restarts_ok (arm_md_ready_watchdog s m)"
  by (simp add: arm_md_ready_watchdog_def Let_def timer_maps_ok)

lemma cancel_restart_ok [simp]: "restarts_ok m \<Longrightarrow> restarts_ok (cancel_pending_restart n m)"
  by (simp add: cancel_pending_restart_def)

lemma schedule_ok [simp]:
  "restarts_ok m \<Longrightarrow> rp_enabled (pe_restart e) \<Longrightarrow> 1 \<le> k \<Longrightarrow> k \<le> rp_max_attempts (pe_restart e) \<Longrightarrow> restarts_ok (schedule_restart n e k m)"
  by (simp add: schedule_restart_def Let_def timer_maps_ok)

section \<open>Every operation\<close>

lemma ok_folds: "(\<And>x u. restarts_ok u \<Longrightarrow> restarts_ok (f x u)) \<Longrightarrow> restarts_ok m \<Longrightarrow> restarts_ok (fold f xs m)"
  by (induction xs arbitrary: m) simp_all

lemma launch_ok [simp]: "restarts_ok m \<Longrightarrow> restarts_ok (snd (launch_child w e m))"
proof -
  assume m: "restarts_ok m"
  have s: "restarts_ok (child_started e pid u)" "restarts_ok (start_failed n t u)" if "restarts_ok u" for e pid u n t
    using that by (simp_all add: child_started_def start_failed_def Let_def)
  have c: "restarts_ok u" if "create_md_channel w n m = (x, u)" for n x u
    using m that ok_plain3(7) [of w n m] by simp
  show ?thesis using m s c by (auto simp: launch_child_def Let_def split: option.split sum.split prod.split)
qed

lemma start_bound_ok [simp]: "restarts_ok m \<Longrightarrow> restarts_ok (start_bound w s n m)"
  by (simp add: start_bound_def split: option.split)

lemma start_source_ok [simp]: "restarts_ok m \<Longrightarrow> restarts_ok (start_strategies_for_source w s m)"
  unfolding start_strategies_for_source_def by (rule ok_folds) simp_all

lemma channel_ready_ok [simp]: "restarts_ok m \<Longrightarrow> restarts_ok (mark_md_channel_ready w s m)"
  by (auto simp: mark_md_channel_ready_def on_md_channel_ready_def Let_def intro!: ok_folds split: option.split)

lemma start_process_ok: "restarts_ok m \<Longrightarrow> restarts_ok (snd (start_process w n m))"
proof -
  assume m: "restarts_ok m"
  have "restarts_ok (snd (launch_registered_process w e m))" for e
    using m by (simp add: launch_registered_process_def Let_def)
  then show ?thesis using m by (simp add: start_process_def start_failed_def split: option.split)
qed

lemma terminate_ok [simp]: "restarts_ok m \<Longrightarrow> restarts_ok (terminate_child c m)"
  by (simp add: terminate_child_def set_child_state_def)

lemma stop_process_ok [simp]: "restarts_ok m \<Longrightarrow> restarts_ok (stop_process n m)"
  by (simp add: stop_process_def stop_single_child_def Let_def timer_maps_ok split: option.split)

lemma kill_batch_ok [simp]: "restarts_ok m \<Longrightarrow> restarts_ok (force_terminate_batch i m)"
  by (auto simp: force_terminate_batch_def kill_member_def split: option.split intro!: ok_folds)

lemma start_frame_ok: "restarts_ok m \<Longrightarrow> restarts_ok (handle_process_start w r m)"
proof -
  assume m: "restarts_ok m"
  have e: "restarts_ok u" if "ensure_registered w n m = Inr (b, u)" for n b u
    using that m ok_store(2) by (auto simp: ensure_registered_def register_dynamic_gateway_def split: if_splits option.splits sum.splits)
  have c: "restarts_ok v" if "start_config w r b u = (x, v)" "restarts_ok u" for b u x v
    using that ok_store(1) by (auto simp: start_config_def Let_def split: option.splits sum.splits)
  have t: "restarts_ok (start_target w n u)" if u: "restarts_ok u" for n u
  proof -
    obtain x v where v: "start_process w n u = (x, v)" by fastforce
    then have "restarts_ok v" using start_process_ok [OF u] by (metis snd_conv)
    then show ?thesis using u by (auto simp: start_target_def v Let_def split: option.split launch.split)
  qed
  show ?thesis using m e c t by (auto simp: handle_process_start_def Let_def split: sum.split prod.split bool.split)
qed

lemma frame_ok [simp]: "restarts_ok m \<Longrightarrow> restarts_ok (handle_frame w f m)"
proof -
  assume m: "restarts_ok m"
  have q: "restarts_ok (handle_process_stop n m)" for n using m by (simp add: handle_process_stop_def Let_def)
  have r: "restarts_ok (notify_removed_for_inactive w n cat u)" if "restarts_ok u" for n cat u
    using that by (simp add: notify_removed_for_inactive_def Let_def)
  have s: "restarts_ok (handle_process_remove w n m)" for n
    using m r ok_store(3) by (auto simp: handle_process_remove_def Let_def split: option.split sum.split)
  have c: "restarts_ok (handle_set_process_config w x m)" for x
    using m ok_store(1) by (auto simp: handle_set_process_config_def split: sum.split)
  have "restarts_ok (report_full_snapshot m)"
    unfolding report_full_snapshot_def by (rule ok_folds) (use m in \<open>simp_all add: snapshot_entry_def Let_def split: option.split\<close>)
  then show ?thesis
    using m q s c start_frame_ok [OF m]
    by (auto simp: handle_frame_def handle_process_control_def split: master_frame.split option.split sum.split process_action.split)
qed

lemma send_batch_ok [simp]: "restarts_ok m \<Longrightarrow> restarts_ok (send_current_shutdown_batch m)"
proof (induction m rule: send_current_shutdown_batch.induct)
  case (1 m)
  have "restarts_ok (fold ask_to_stop xs m)" for xs by (rule ok_folds) (use 1(2) in \<open>simp_all add: ask_to_stop_def\<close>)
  then show ?case
    unfolding send_current_shutdown_batch.simps [of m] using 1 by (simp add: check_shutdown_complete_def Let_def)
qed

lemma exit_ok: "restarts_ok m \<Longrightarrow> restarts_ok (on_child_exit w c code m)"
proof -
  assume "restarts_ok m"
  then have u: "restarts_ok (clean_up_exit w c code m)" by (simp add: clean_up_exit_def Let_def)
  have "restarts_ok (restart_after_crash c v)" if "restarts_ok v" for v
    using that count_of_ok [OF that] by (simp add: restart_after_crash_def Let_def)
  moreover have "restarts_ok (advance_shutdown_batch v)" if "restarts_ok v" for v
    using that by (simp add: advance_shutdown_batch_def Let_def)
  ultimately show ?thesis using u by (simp add: on_child_exit_def Let_def)
qed

lemma run_timer_ok: "restarts_ok m \<Longrightarrow> callback_ok cb \<Longrightarrow> restarts_ok (run_timer w cb a m)"
proof -
  assume m: "restarts_ok m" and cb: "callback_ok cb"
  have "restarts_ok (on_restart_timer w n e k a m)" if k: "1 \<le> k" for n e k
  proof -
    obtain x v where v: "launch_child w e (erase_restart_timer n m) = (x, v)" by fastforce
    then have "restarts_ok v" using launch_ok [of "erase_restart_timer n m" w e] m by simp
    then show ?thesis using m k v by (simp add: on_restart_timer_def Let_def split: launch.split)
  qed
  then show ?thesis
    using m cb by (cases cb) (simp_all add: run_timer_def on_single_stop_timeout_def on_md_ready_timeout_def Let_def split: option.split)
qed

lemma due_ok: "restarts_ok m \<Longrightarrow> restarts_ok (timer_due k m)"
proof -
  assume m: "restarts_ok m"
  have t: "callback_ok (tm_callback t)" if "timer_of k m = Some t" for t
    using that m timers_ok_get by (auto simp: timer_of_def restarts_ok_def split: timer_name.splits)
  have e: "restarts_ok (set_expired k m)"
    using m by (auto simp: set_expired_def restarts_ok_def expire_def split: timer_name.split)
  have "mr_queue (set_expired k m) = mr_queue m" by (simp add: set_expired_def split: timer_name.split)
  then have "restarts_ok ((set_expired k m)\<lparr>mr_queue := mr_queue m @ [(cb, False)]\<rparr>)" if "callback_ok cb" for cb
    using e that by (simp add: restarts_ok_def)
  then show ?thesis using m t by (simp add: timer_due_def split: option.split)
qed

lemma destroy_all_ok: "restarts_ok m \<Longrightarrow> timers_ok ts \<Longrightarrow> restarts_ok (destroy_all ts m)"
  by (induction ts arbitrary: m) (auto simp: destroy_all_def timers_ok_def)

lemma shutdown_ok: "restarts_ok m \<Longrightarrow> restarts_ok (shutdown m)"
proof -
  assume m: "restarts_ok m"
  define u where "u = destroy_all (mr_ready_timers m) (destroy_all (mr_restart_timers m) (destroy_all (mr_stop_timers m) m))"
  have u: "restarts_ok u" unfolding u_def using m by (simp add: destroy_all_ok timer_maps_ok)
  define bs where "bs = build_shutdown_batches
    (map (\<lambda>c. (cd_name c, pe_category (cd_entry c))) (filter (\<lambda>c. cd_state c \<noteq> Child_Stopped) (mr_children m)))"
  define v where "v = u\<lparr>mr_shutting_down := True, mr_stop_timers := [], mr_restart_timers := [], mr_counts := [], mr_ready_timers := [],
                      mr_pending := [], mr_batches := bs, mr_batch_index := 0\<rparr>"
  have v: "restarts_ok v" using u by (simp add: v_def restarts_ok_def)
  then have "restarts_ok (check_shutdown_complete v)" by (simp add: check_shutdown_complete_def Let_def)
  moreover have "shutdown m = (if mr_shutting_down m then m else if bs = [] then check_shutdown_complete v else send_current_shutdown_batch v)"
    by (simp add: shutdown_def v_def u_def bs_def Let_def)
  ultimately show ?thesis using m v by simp
qed

lemma step_restarts: "restarts_ok m \<Longrightarrow> restarts_ok (master_step w ev m)"
proof -
  assume m: "restarts_ok m"
  have c: "restarts_ok (master_step w Ev_Callback m)"
  proof (cases "mr_queue m")
    case Nil
    then show ?thesis using m by (simp add: master_step_def)
  next
    case (Cons p q)
    obtain cb a where p: "p = (cb, a)" by fastforce
    have "callback_ok cb" "restarts_ok (m\<lparr>mr_queue := q\<rparr>)" using m Cons p by (simp_all add: restarts_ok_def)
    then show ?thesis using Cons p run_timer_ok by (simp add: master_step_def)
  qed
  have k: "restarts_ok (force_terminate_all m)" unfolding force_terminate_all_def by (rule ok_folds) (use m in simp_all)
  show ?thesis using m c k exit_ok [OF m] due_ok [OF m] shutdown_ok [OF m] by (cases ev) (simp_all add: master_step_def split: option.split)
qed

interpretation rst: invariant_run "\<lambda>u (w, ev). master_step w ev u" restarts_ok
  by unfold_locales (auto intro: step_restarts)

lemma start_restarts: "restarts_ok m \<Longrightarrow> restarts_ok (start_all w rounds last_frames m)"
proof -
  assume m: "restarts_ok m"
  have one: "restarts_ok (start_one w e u)" if "restarts_ok u" for e u
  proof -
    obtain r v where l: "launch_child w e u = (r, v)" by fastforce
    then have "restarts_ok v" using launch_ok [OF that, of w e] by simp
    then show ?thesis by (auto simp: start_one_def l split: launch.split)
  qed
  have un: "restarts_ok (start_unbound w e u)" if "restarts_ok u" for e u using that by (simp add: start_unbound_def)
  have pr: "restarts_ok (snd (fold (promote_ready_source w) srcs p))" if "restarts_ok (snd p)" for srcs p
    using that by (induction srcs arbitrary: p) (auto simp: promote_ready_source_def split: option.split)
  have dr: "restarts_ok (drain_event_channel w fs u)" if "restarts_ok u" for fs u
    unfolding drain_event_channel_def by (rule ok_folds) (use that in simp_all)
  have po: "restarts_ok (snd (poll_sources w srcs rounds p))" if "restarts_ok (snd p)" for srcs p
    using that
  proof (induction rounds arbitrary: p)
    case (Cons fs rounds)
    have "restarts_ok (snd (fold (promote_ready_source w) srcs (fst p, drain_event_channel w fs (snd p))))"
      using pr [of "(fst p, drain_event_channel w fs (snd p))" srcs] dr [OF Cons.prems] by simp
    then show ?case using Cons.IH by (simp add: Let_def)
  qed simp
  have "restarts_ok (wait_for_md_ready w rounds last_frames u)" if "restarts_ok u" for u
  proof -
    define p1 where "p1 = poll_sources w (referenced_sources (mr_registry u)) rounds ([], u)"
    have 1: "restarts_ok (snd p1)" using po [of "([], u)"] that by (simp add: p1_def)
    define p2 where "p2 = fold (promote_ready_source w) (referenced_sources (mr_registry u)) (fst p1, drain_event_channel w last_frames (snd p1))"
    have 2: "restarts_ok (snd p2)" using pr [of "(fst p1, drain_event_channel w last_frames (snd p1))"] dr [OF 1] by (simp add: p2_def)
    have 3: "restarts_ok (fold (start_unbound w) es v)" if "restarts_ok v" for es v by (rule ok_folds [OF un that])
    have 4: "restarts_ok (fold (\<lambda>s v. if s \<in> set rs then v else fold (pend_strategy s) (strategies_bound_to s v) v) srcs v)"
      if "restarts_ok v" for rs srcs v
      using that by (intro ok_folds) (auto intro: ok_folds)
    show ?thesis
      using 3 [OF that] 4 [OF 3 [OF 2]] by (simp add: wait_for_md_ready_def p1_def [symmetric] p2_def [symmetric] Let_def)
  qed
  then show ?thesis using m by (auto simp: start_all_def Let_def intro!: ok_folds one)
qed

lemma new_restarts: "restarts_ok (new_master st rt es)"
  by (simp add: new_master_def restarts_ok_def)

lemma run_restarts: "restarts_ok (master_run evs (start_all w rounds last_frames (new_master st rt es)))"
  unfolding master_run_def by (rule rst.run_inv) (simp add: start_restarts new_restarts)

end
