(* ===== verification/Master_Props.thy ===== *)
theory Master_Props
  imports Master_Restarts
begin

text \<open>
  What holds of the master in every reachable state, and runs that show where it does not do what its comments say.
\<close>

section \<open>Every reachable state\<close>

text \<open>The master after it has started everything and handled a sequence of events.\<close>

definition master_after :: "(master_world \<times> master_event) list \<Rightarrow> master_world \<Rightarrow> master_frame list list \<Rightarrow> master_frame list \<Rightarrow>
    int \<Rightarrow> int \<Rightarrow> process_entry list \<Rightarrow> master" where
  "master_after evs w rounds last_frames st rt es = master_run evs (start_all w rounds last_frames (new_master st rt es))"

lemma after_ok: "master_ok (master_after evs w rounds last_frames st rt es)"
  unfolding master_after_def by (rule run_master_ok)

lemma after_closing: "mr_shutting_down (master_after evs w rounds last_frames st rt es) \<Longrightarrow> closing (master_after evs w rounds last_frames st rt es)"
  using after_ok [of evs w rounds last_frames st rt es] by (auto simp: master_ok_def upright_def)

lemma closing_done: "closing m \<Longrightarrow> mr_children m = [] \<Longrightarrow> mr_callbacks m = 1"
  by (simp add: closing_def)

text \<open>C15: In every state the master can reach, at most one process runs under a name, whatever sequence of starts, stops, exits,
  restarts, market data sources becoming ready and timeouts led there.\<close>

theorem one_process_per_name: "distinct (map cd_name (mr_children (master_after evs w rounds last_frames st rt es)))"
  using after_ok [of evs w rounds last_frames st rt es] by (auto simp: master_ok_def upright_def closing_def going_down_def kids_ok_def)

text \<open>C13: The master signals the end of its shutdown exactly once, and exactly when its last process has exited: the number of
  times the completion callback has run is 1 if a shutdown was requested and no process is left, and 0 otherwise.\<close>

theorem shutdown_completes:
  "mr_callbacks (master_after evs w rounds last_frames st rt es) =
     (if mr_shutting_down (master_after evs w rounds last_frames st rt es) \<and> mr_children (master_after evs w rounds last_frames st rt es) = []
      then 1 else 0)"
proof -
  let ?m = "master_after evs w rounds last_frames st rt es"
  consider "upright ?m" | "closing ?m" using after_ok [of evs w rounds last_frames st rt es] by (auto simp: master_ok_def)
  then show ?thesis by cases (auto simp: upright_def closing_def going_down_def)
qed

text \<open>C14: A shutdown respects the dependencies. While it stops a batch of processes, every process that still runs is of the same kind
  or of one that must outlive it: strategies end before trading gateways, these before market data gateways, then internal
  processes, then the web interface.\<close>

theorem shutdown_in_order:
  assumes "m = master_after evs w rounds last_frames st rt es" "mr_shutting_down m"
    and "c \<in> set (mr_children m)" "cd_name c \<in> set (mr_batches m ! mr_batch_index m)" "c' \<in> set (mr_children m)"
  shows "category_rank (pe_category (cd_entry c)) \<le> category_rank (pe_category (cd_entry c'))"
proof -
  have g: "going_down m" "mr_batch_index m < length (mr_batches m)"
    using after_closing [of evs w rounds last_frames st rt es] assms by (auto simp: closing_def split: if_splits)
  obtain L where L: "distinct (map fst L)" "mr_batches m = build_shutdown_batches L"
      "\<forall>c \<in> set (mr_children m). (cd_name c, pe_category (cd_entry c)) \<in> set L"
    using g(1) by (auto simp: going_down_def placed_def)
  have n: "(cd_name c, pe_category (cd_entry c)) \<in> set L" "(cd_name c', pe_category (cd_entry c')) \<in> set L" using L(3) assms(3,5) by auto
  obtain k' where k': "k' < length (mr_batches m)" "cd_name c' \<in> set (mr_batches m ! k')" using in_some_batch [OF L(1) n(2)] L(2) by auto
  have "mr_batch_index m \<le> k'"
    using g(1) k' assms(5) by (auto simp: going_down_def placed_def names_def not_less [symmetric])
  then show ?thesis using batches_sorted [OF L(1) n] k' assms(4) L(2) by auto
qed

text \<open>C25: A shutdown ends, whatever the processes do: five times, let the timeout of the batch come due and let the processes it
  killed exit with any code. Then no process is left and the completion callback has run once.\<close>

theorem shutdown_ends:
  assumes "m = master_after evs w rounds last_frames st rt es" "mr_shutting_down m"
  shows "(mr_children ((shutdown_round v code ^^ 5) m), mr_callbacks ((shutdown_round v code ^^ 5) m)) = ([], 1)"
proof -
  have c: "closing m" using after_closing assms by simp
  have "closing ((shutdown_round v code ^^ 5) m)" using rounds_advance [OF c] by blast
  then show ?thesis using closing_ends [OF c] closing_done by simp
qed

text \<open>No process is restarted more often than its configuration allows. Whenever a restart is waiting or due, the policy it was
  scheduled with enables restarts, and its number lies between 1 and the number of attempts.\<close>

theorem restarts_bounded:
  assumes "m = master_after evs w rounds last_frames st rt es"
    and "(\<exists>k t. (k, t) \<in> set (mr_restart_timers m) \<and> tm_callback t = T_Restart n e i) \<or> (T_Restart n e i, aborted) \<in> set (mr_queue m)"
  shows "rp_enabled (pe_restart e) \<and> i \<in> {1 .. rp_max_attempts (pe_restart e)}"
proof -
  have "restarts_ok m" unfolding assms(1) master_after_def by (rule run_restarts)
  then have "callback_ok (T_Restart n e i)" using assms(2) by (fastforce simp: restarts_ok_def timers_ok_def)
  then show ?thesis by simp
qed

section \<open>An example\<close>

definition example_policy :: restart_policy where
  "example_policy = \<lparr>rp_enabled = True, rp_max_attempts = 3, rp_backoff_sec = 2\<rparr>"

definition example_entry :: "string \<Rightarrow> category \<Rightarrow> string \<Rightarrow> process_entry" where
  "example_entry n c src = \<lparr>pe_name = n, pe_category = c, pe_exe = ''/x'', pe_args = [], pe_start_dir = [], pe_env = [],
     pe_restart = example_policy, pe_display_name = [], pe_md_source = src\<rparr>"

definition example_world :: master_world where
  "example_world = \<lparr>mw_scan = (\<lambda>n. None), mw_spawn = (\<lambda>n. Inr 7), mw_page_size = (\<lambda>n. Some 1), mw_open = (\<lambda>n. None), mw_write = (\<lambda>n. None)\<rparr>"

text \<open>A market data gateway, a trading gateway and a strategy that reads the market data.\<close>

definition example_entries :: "process_entry list" where
  "example_entries = [example_entry ''md'' Gateway_Md [], example_entry ''td'' Gateway_Td [], example_entry ''st'' Strategy ''md'']"

definition example_run :: "master_event list \<Rightarrow> master" where
  "example_run evs = master_after (map (Pair example_world) evs) example_world [] [Fr_Md_Started ''md''] 10 30 example_entries"

definition stop_frame :: "string \<Rightarrow> master_event" where
  "stop_frame n = Ev_Frame (Fr_Control (Inr \<lparr>cr_action = Act_Stop, cr_target = n, cr_config = None\<rparr>))"

definition killed :: "master \<Rightarrow> nat list" where
  "killed m = concat (map (\<lambda>x. case x of Out_Kill p \<Rightarrow> [p] | _ \<Rightarrow> []) (mr_out m))"

definition overview :: "master \<Rightarrow> (string \<times> child_state) list" where
  "overview m = map (\<lambda>c. (cd_name c, cd_state c)) (mr_children m)"

definition readers :: "master \<Rightarrow> (string \<times> string list) list" where
  "readers m = map (\<lambda>(n, c). (n, mc_readers c)) (mr_channels m)"

text \<open>An evaluation starts with these, so that what is shared is computed once.\<close>

lemmas example_defs = example_run_def master_after_def start_all_def Let_def

lemma example_all_run:
  "overview (example_run []) = [(''md'', Child_Running), (''td'', Child_Running), (''st'', Child_Running)] \<and>
   readers (example_run []) = [(''md'', [''stg.st''])]"
  unfolding example_defs by code_simp

theorem shutdown_in_order_witness:
  "category_rank (pe_category (cd_entry (last (mr_children (example_run [Ev_Shutdown]))))) \<le>
   category_rank (pe_category (cd_entry (hd (mr_children (example_run [Ev_Shutdown])))))"
proof (rule shutdown_in_order)
  show "example_run [Ev_Shutdown] =
      master_after (map (Pair example_world) [Ev_Shutdown]) example_world [] [Fr_Md_Started ''md''] 10 30 example_entries"
    by (simp add: example_run_def)
  show "mr_shutting_down (example_run [Ev_Shutdown])" unfolding example_defs by code_simp
  show "last (mr_children (example_run [Ev_Shutdown])) \<in> set (mr_children (example_run [Ev_Shutdown]))"
    "hd (mr_children (example_run [Ev_Shutdown])) \<in> set (mr_children (example_run [Ev_Shutdown]))"
    "cd_name (last (mr_children (example_run [Ev_Shutdown]))) \<in>
       set (mr_batches (example_run [Ev_Shutdown]) ! mr_batch_index (example_run [Ev_Shutdown]))"
    unfolding example_defs by code_simp+
qed

theorem shutdown_ends_witness:
  "(mr_children ((shutdown_round example_world 9 ^^ 5) (example_run [Ev_Shutdown])),
    mr_callbacks ((shutdown_round example_world 9 ^^ 5) (example_run [Ev_Shutdown]))) = ([], 1)"
proof (rule shutdown_ends)
  show "example_run [Ev_Shutdown] =
      master_after (map (Pair example_world) [Ev_Shutdown]) example_world [] [Fr_Md_Started ''md''] 10 30 example_entries"
    by (simp add: example_run_def)
  show "mr_shutting_down (example_run [Ev_Shutdown])" unfolding example_defs by code_simp
qed

definition crashed_td :: process_entry where
  "crashed_td = (example_entry ''td'' Gateway_Td [])\<lparr>pe_args := [''--recover'']\<rparr>"

theorem restarts_bounded_witness: "rp_enabled (pe_restart crashed_td) \<and> (1::int) \<in> {1 .. rp_max_attempts (pe_restart crashed_td)}"
proof (rule restarts_bounded)
  show "example_run [Ev_Exit 1 9] =
      master_after (map (Pair example_world) [Ev_Exit 1 9]) example_world [] [Fr_Md_Started ''md''] 10 30 example_entries"
    by (simp add: example_run_def)
  have "mr_restart_timers (example_run [Ev_Exit 1 9]) = [(''td'', \<lparr>tm_secs = 2, tm_callback = T_Restart ''td'' crashed_td 1, tm_waiting = True\<rparr>)]"
    unfolding example_defs by code_simp
  then show "(\<exists>k t. (k, t) \<in> set (mr_restart_timers (example_run [Ev_Exit 1 9])) \<and> tm_callback t = T_Restart ''td'' crashed_td 1) \<or>
      (T_Restart ''td'' crashed_td 1, True) \<in> set (mr_queue (example_run [Ev_Exit 1 9]))" by simp
qed

section \<open>Where the code differs from its comments\<close>

text \<open>A second request to stop a process replaces its timer; the callback of the first, cancelled, removes the new timer. A process
  that does not exit is then never killed.\<close>

lemma second_stop_never_kills:
  "overview (example_run [stop_frame ''td'', stop_frame ''td'', Ev_Callback, Ev_Callback, Ev_Timer (Stop_Of ''td''), Ev_Callback]) =
     [(''md'', Child_Running), (''td'', Child_Running), (''st'', Child_Running)] \<and>
   killed (example_run [stop_frame ''td'', stop_frame ''td'', Ev_Callback, Ev_Callback, Ev_Timer (Stop_Of ''td''), Ev_Callback]) = [] \<and>
   mr_stop_timers (example_run [stop_frame ''td'', stop_frame ''td'', Ev_Callback, Ev_Callback, Ev_Timer (Stop_Of ''td''), Ev_Callback]) = [] \<and>
   mr_queue (example_run [stop_frame ''td'', stop_frame ''td'', Ev_Callback, Ev_Callback, Ev_Timer (Stop_Of ''td''), Ev_Callback]) = []"
  unfolding example_defs by code_simp

text \<open>One that is killed after a request to stop counts as crashed, and is started again.\<close>

lemma stopped_process_returns:
  "overview (example_run [stop_frame ''td'', Ev_Timer (Stop_Of ''td''), Ev_Callback, Ev_Exit 1 9, Ev_Timer (Restart_Of ''td''), Ev_Callback,
     Ev_Callback]) = [(''md'', Child_Running), (''st'', Child_Running), (''td'', Child_Running)]"
  unfolding example_defs by code_simp

text \<open>A strategy stopped while it waits for its source is started when the source is ready.\<close>

lemma stopped_strategy_starts:
  "overview (master_after (map (Pair example_world) [stop_frame ''st'', Ev_Frame (Fr_Md_Started ''md'')]) example_world [] [] 10 30 example_entries) =
     [(''md'', Child_Running), (''td'', Child_Running), (''st'', Child_Running)]"
  unfolding example_defs by code_simp

text \<open>A strategy restarted after a crash is no longer a reader of its source.\<close>

lemma restarted_strategy_reads_nothing:
  "overview (example_run [Ev_Exit 2 9, Ev_Timer (Restart_Of ''st''), Ev_Callback, Ev_Callback]) =
     [(''md'', Child_Running), (''td'', Child_Running), (''st'', Child_Running)] \<and>
   readers (example_run [Ev_Exit 2 9, Ev_Timer (Restart_Of ''st''), Ev_Callback, Ev_Callback]) = [(''md'', [])]"
  unfolding example_defs by code_simp

end
