(* ===== verification/Bar_Builder.thy ===== *)
theory Bar_Builder
  imports Dz_Prelude
begin

text \<open>
  Bars from ticks (\<open>libs/strategy_api/include/dztrader/bar/types.h\<close>, \<open>intraday_bar_builder.h\<close>,
  \<open>daily_bar_builder.h\<close>). The callbacks of the sink are a list of events, in the order of the calls; a sink cannot
  reach the builder from a callback. Optional state (a current bar, a restored final bar) is an option instead of
  a value and a flag. An exception is \<open>None\<close>.
\<close>

section \<open>Time of the trading day\<close>

definition max_trading_sec :: int where
  "max_trading_sec = 86399"

definition from_clock :: "int \<Rightarrow> int" where
  "from_clock c = cmod (c + 86400 - 64800) 86400"

definition to_clock :: "int \<Rightarrow> int" where
  "to_clock t = cmod (t + 64800) 86400"

section \<open>Data\<close>

record 'd dz_tick =
  tk_instrument :: string
  tk_date :: int
  tk_time :: int
  tk_last :: 'd
  tk_volume :: int
  tk_oi :: int
  tk_turnover :: 'd
  tk_open :: 'd
  tk_high :: 'd
  tk_low :: 'd
  tk_upper :: 'd
  tk_lower :: 'd
  tk_bid :: 'd
  tk_ask :: 'd

record 'd bar =
  br_date :: int
  br_begin :: int
  br_last_tick :: int
  br_period :: int
  br_open :: 'd
  br_high :: 'd
  br_low :: 'd
  br_close :: 'd
  br_volume :: int
  br_turnover :: 'd
  br_oi :: int
  br_cum_volume :: int
  br_cum_turnover :: 'd
  br_final :: bool

definition standard_end_sec :: "'d bar \<Rightarrow> int" where
  "standard_end_sec b = br_begin b + br_period b"

record trading_session =
  sn_begin :: int
  sn_end :: int

text \<open>An integer that is no kind can be cast to the enumeration; the table is invalid then.\<close>

datatype auction_kind = Auction_Open | Auction_Close | Auction_Unknown

record auction_window =
  aw_kind :: auction_kind
  aw_session :: int
  aw_begin :: int
  aw_end :: int

record session_table =
  se_sessions :: "trading_session list"
  se_auctions :: "auction_window list"

fun sessions_valid :: "trading_session list \<Rightarrow> bool" where
  "sessions_valid [] \<longleftrightarrow> True"
| "sessions_valid [s] \<longleftrightarrow> 0 \<le> sn_begin s \<and> sn_begin s < sn_end s \<and> sn_end s \<le> max_trading_sec"
| "sessions_valid (s # t # ss) \<longleftrightarrow> 0 \<le> sn_begin s \<and> sn_begin s < sn_end s \<and> sn_end s \<le> max_trading_sec \<and>
     sn_end s < sn_begin t \<and> sessions_valid (t # ss)"

definition auction_valid :: "trading_session list \<Rightarrow> auction_window \<Rightarrow> bool" where
  "auction_valid ss w \<longleftrightarrow> 0 \<le> aw_begin w \<and> aw_begin w \<le> aw_end w \<and> aw_end w \<le> max_trading_sec \<and>
     0 \<le> aw_session w \<and> aw_session w < int (length ss) \<and>
     (let s = ss ! nat (aw_session w) in
      case aw_kind w of
        Auction_Open \<Rightarrow> aw_end w < sn_begin s
      | Auction_Close \<Rightarrow> sn_begin s \<le> aw_begin w \<and> aw_end w \<le> sn_end s
      | Auction_Unknown \<Rightarrow> False)"

fun auctions_apart :: "auction_window list \<Rightarrow> bool" where
  "auctions_apart (v # w # ws) \<longleftrightarrow> aw_end v < aw_begin w \<and> auctions_apart (w # ws)"
| "auctions_apart ws \<longleftrightarrow> True"

definition table_valid :: "session_table \<Rightarrow> bool" where
  "table_valid T \<longleftrightarrow> 1 \<le> length (se_sessions T) \<and> length (se_sessions T) \<le> 8 \<and> length (se_auctions T) \<le> 8 \<and>
     sessions_valid (se_sessions T) \<and> list_all (auction_valid (se_sessions T)) (se_auctions T) \<and> auctions_apart (se_auctions T)"

section \<open>Buckets\<close>

record tick_bucket =
  tb_in_session :: bool
  tb_begin :: int
  tb_open_auction :: bool

definition bucket_start :: "int \<Rightarrow> int \<Rightarrow> int" where
  "bucket_start p t = cdiv t p * p"

fun auction_bucket :: "int \<Rightarrow> int \<Rightarrow> trading_session list \<Rightarrow> auction_window list \<Rightarrow> tick_bucket option" where
  "auction_bucket p t ss [] = None"
| "auction_bucket p t ss (w # ws) =
     (if t < aw_begin w then None
      else if t \<le> aw_end w
      then (if aw_kind w \<noteq> Auction_Open then None
            else Some \<lparr>tb_in_session = True, tb_begin = bucket_start p (sn_begin (ss ! nat (aw_session w))), tb_open_auction = True\<rparr>)
      else auction_bucket p t ss ws)"

fun session_bucket :: "int \<Rightarrow> int \<Rightarrow> trading_session list \<Rightarrow> tick_bucket option" where
  "session_bucket p t [] = None"
| "session_bucket p t (s # ss) =
     (if t < sn_begin s then None
      else if t \<le> sn_end s
      then Some \<lparr>tb_in_session = True, tb_begin = bucket_start p (if t = sn_end s then t - 1 else t), tb_open_auction = False\<rparr>
      else session_bucket p t ss)"

definition resolve_tick_bucket :: "int \<Rightarrow> session_table \<Rightarrow> int \<Rightarrow> tick_bucket" where
  "resolve_tick_bucket t T p =
     (case auction_bucket p t (se_sessions T) (se_auctions T) of
        Some b \<Rightarrow> b
      | None \<Rightarrow> (case session_bucket p t (se_sessions T) of
          Some b \<Rightarrow> b
        | None \<Rightarrow> \<lparr>tb_in_session = False, tb_begin = 0, tb_open_auction = False\<rparr>))"

section \<open>Builder\<close>

datatype 'd bar_event = Bar_Open "'d bar" bool | Bar_Update "'d bar" bool | Bar_Close "'d bar" bool

record bar_stats =
  bs_out_of_session :: nat
  bs_out_of_order :: nat
  bs_bad_volume :: nat

record 'd builder =
  bb_table :: session_table
  bb_period :: int
  bb_bar :: "'d bar option"
  bb_stats :: bar_stats
  bb_auction_only :: bool
  bb_start_volume :: int
  bb_start_turnover :: 'd
  bb_tick_received :: bool
  bb_restored :: "'d bar option"

definition no_stats :: bar_stats where
  "no_stats = \<lparr>bs_out_of_session = 0, bs_out_of_order = 0, bs_bad_volume = 0\<rparr>"

definition new_builder :: "('d, 'm) fp_scheme \<Rightarrow> session_table \<Rightarrow> int \<Rightarrow> 'd builder option" where
  "new_builder F T p =
     (if p \<le> 0 \<or> \<not> table_valid T then None
      else Some \<lparr>bb_table = T, bb_period = p, bb_bar = None, bb_stats = no_stats, bb_auction_only = False,
             bb_start_volume = 0, bb_start_turnover = fp_zero F, bb_tick_received = False, bb_restored = None\<rparr>)"

definition reset_builder :: "('d, 'm) fp_scheme \<Rightarrow> 'd builder \<Rightarrow> 'd builder" where
  "reset_builder F b =
     b\<lparr>bb_bar := None, bb_stats := no_stats, bb_auction_only := False, bb_start_volume := 0, bb_start_turnover := fp_zero F,
       bb_tick_received := False, bb_restored := None\<rparr>"

definition out_of_session :: "'d builder \<Rightarrow> 'd builder" where
  "out_of_session b = b\<lparr>bb_stats := (bb_stats b)\<lparr>bs_out_of_session := bs_out_of_session (bb_stats b) + 1\<rparr>\<rparr>"

definition out_of_order :: "'d builder \<Rightarrow> 'd builder" where
  "out_of_order b = b\<lparr>bb_stats := (bb_stats b)\<lparr>bs_out_of_order := bs_out_of_order (bb_stats b) + 1\<rparr>\<rparr>"

definition bad_volume :: "'d builder \<Rightarrow> 'd builder" where
  "bad_volume b = b\<lparr>bb_stats := (bb_stats b)\<lparr>bs_bad_volume := bs_bad_volume (bb_stats b) + 1\<rparr>\<rparr>"

text \<open>The bar of the last accepted tick, or the restored one.\<close>

definition day_basis :: "'d builder \<Rightarrow> 'd bar option" where
  "day_basis b = (case bb_bar b of Some x \<Rightarrow> Some x | None \<Rightarrow> bb_restored b)"

text \<open>The cumulative volume and turnover of the day so far.\<close>

definition basis_of :: "('d, 'm) fp_scheme \<Rightarrow> int \<Rightarrow> 'd builder \<Rightarrow> int \<times> 'd" where
  "basis_of F d b =
     (case day_basis b of
        None \<Rightarrow> (0, fp_zero F)
      | Some x \<Rightarrow> if br_date x = d then (br_cum_volume x, br_cum_turnover x) else (0, fp_zero F))"

definition restored_final_accepts :: "'d dz_tick \<Rightarrow> int \<Rightarrow> 'd builder \<Rightarrow> bool" where
  "restored_final_accepts k begin_sec b =
     (case bb_restored b of
        None \<Rightarrow> True
      | Some x \<Rightarrow> br_date x < tk_date k \<or> br_begin x < begin_sec)"

definition cumulative_basis_ok :: "('d, 'm) fp_scheme \<Rightarrow> 'd dz_tick \<Rightarrow> 'd builder \<Rightarrow> bool" where
  "cumulative_basis_ok F k b =
     (let (v, a) = basis_of F (tk_date k) b
      in v \<le> tk_volume k \<and> fp_finite F (tk_turnover k) \<and> fp_le F a (tk_turnover k))"

definition update_market_data :: "('d, 'm) fp_scheme \<Rightarrow> 'd dz_tick \<Rightarrow> int \<Rightarrow> int \<times> 'd \<Rightarrow> 'd bar \<Rightarrow> 'd bar" where
  "update_market_data F k t start x =
     x\<lparr>br_last_tick := t, br_volume := tk_volume k - fst start, br_turnover := fp_sub F (tk_turnover k) (snd start),
       br_cum_volume := tk_volume k, br_cum_turnover := tk_turnover k, br_oi := tk_oi k\<rparr>"

definition update_bar :: "('d, 'm) fp_scheme \<Rightarrow> 'd dz_tick \<Rightarrow> int \<Rightarrow> int \<times> 'd \<Rightarrow> 'd bar \<Rightarrow> 'd bar" where
  "update_bar F k t start x =
     update_market_data F k t start
       (x\<lparr>br_high := (if fp_lt F (br_high x) (tk_last k) then tk_last k else br_high x),
          br_low := (if fp_lt F (tk_last k) (br_low x) then tk_last k else br_low x), br_close := tk_last k\<rparr>)"

definition update_auction_bar :: "('d, 'm) fp_scheme \<Rightarrow> 'd dz_tick \<Rightarrow> int \<Rightarrow> int \<times> 'd \<Rightarrow> 'd bar \<Rightarrow> 'd bar" where
  "update_auction_bar F k t start x =
     update_market_data F k t start
       (x\<lparr>br_open := tk_last k, br_high := tk_last k, br_low := tk_last k, br_close := tk_last k\<rparr>)"

definition empty_bar :: "('d, 'm) fp_scheme \<Rightarrow> int \<Rightarrow> int \<Rightarrow> int \<Rightarrow> 'd bar" where
  "empty_bar F d begin_sec p =
     \<lparr>br_date = d, br_begin = begin_sec, br_last_tick = 0, br_period = p, br_open = fp_zero F, br_high = fp_zero F,
      br_low = fp_zero F, br_close = fp_zero F, br_volume = 0, br_turnover = fp_zero F, br_oi = 0, br_cum_volume = 0,
      br_cum_turnover = fp_zero F, br_final = False\<rparr>"

definition begin_bar :: "('d, 'm) fp_scheme \<Rightarrow> 'd dz_tick \<Rightarrow> int \<Rightarrow> int \<Rightarrow> bool \<Rightarrow> 'd builder \<Rightarrow> 'd builder \<times> 'd bar_event list" where
  "begin_bar F k begin_sec t auction b =
     (let start = basis_of F (tk_date k) b;
          x = empty_bar F (tk_date k) begin_sec (bb_period b);
          y = (if auction then update_auction_bar F k t start x
               else update_bar F k t start (x\<lparr>br_open := tk_last k, br_high := tk_last k, br_low := tk_last k\<rparr>))
      in (b\<lparr>bb_bar := Some y, bb_start_volume := fst start, bb_start_turnover := snd start, bb_restored := None,
            bb_auction_only := auction\<rparr>, [Bar_Open y auction]))"

text \<open>Makes the current bar that of the bucket; the flag says that it was already, so that the tick has still to be added.\<close>

definition advance_bar :: "('d, 'm) fp_scheme \<Rightarrow> 'd dz_tick \<Rightarrow> int \<Rightarrow> int \<Rightarrow> bool \<Rightarrow> 'd builder \<Rightarrow> bool \<times> 'd builder \<times> 'd bar_event list" where
  "advance_bar F k begin_sec t auction b =
     (case bb_bar b of
        None \<Rightarrow> (False, begin_bar F k begin_sec t auction b)
      | Some x \<Rightarrow>
          if begin_sec \<noteq> br_begin x \<or> tk_date k \<noteq> br_date x
          then (let y = x\<lparr>br_final := True\<rparr>;
                    (b', es) = begin_bar F k begin_sec t auction (b\<lparr>bb_bar := Some y\<rparr>)
                in (False, b', Bar_Close y auction # es))
          else (True, b, []))"

definition bar_start :: "'d builder \<Rightarrow> int \<times> 'd" where
  "bar_start b = (bb_start_volume b, bb_start_turnover b)"

definition map_bar :: "('d bar \<Rightarrow> 'd bar) \<Rightarrow> 'd builder \<Rightarrow> 'd builder" where
  "map_bar f b = b\<lparr>bb_bar := map_option f (bb_bar b)\<rparr>"

definition notify_update :: "bool \<Rightarrow> 'd builder \<Rightarrow> 'd bar_event list \<Rightarrow> 'd builder \<times> 'd bar_event list" where
  "notify_update auction b es = (b, es @ (case bb_bar b of None \<Rightarrow> [] | Some x \<Rightarrow> [Bar_Update x auction]))"

definition on_open_auction_tick :: "('d, 'm) fp_scheme \<Rightarrow> 'd dz_tick \<Rightarrow> int \<Rightarrow> int \<Rightarrow> 'd builder \<Rightarrow> 'd builder \<times> 'd bar_event list" where
  "on_open_auction_tick F k t begin_sec b =
     (case advance_bar F k begin_sec t True b of
        (same, b1, es) \<Rightarrow>
          notify_update True
            (if \<not> same then b1
             else if bb_auction_only b1 then map_bar (update_auction_bar F k t (bar_start b1)) b1
             else map_bar (update_bar F k t (bar_start b1)) b1) es)"

definition on_session_tick :: "('d, 'm) fp_scheme \<Rightarrow> 'd dz_tick \<Rightarrow> int \<Rightarrow> int \<Rightarrow> 'd builder \<Rightarrow> 'd builder \<times> 'd bar_event list" where
  "on_session_tick F k t begin_sec b =
     (case advance_bar F k begin_sec t False b of
        (same, b1, es) \<Rightarrow>
          notify_update False
            (if same then (map_bar (update_bar F k t (bar_start b1)) b1)\<lparr>bb_auction_only := False\<rparr> else b1) es)"

text \<open>The trading day or the time goes back.\<close>

definition goes_back :: "'d dz_tick \<Rightarrow> int \<Rightarrow> 'd builder \<Rightarrow> bool" where
  "goes_back k t b =
     (case bb_bar b of
        Some x \<Rightarrow> tk_date k < br_date x \<or> (tk_date k = br_date x \<and> t < br_last_tick x)
      | None \<Rightarrow> (case bb_restored b of Some x \<Rightarrow> tk_date k < br_date x | None \<Rightarrow> False))"

definition price_ok :: "('d, 'm) fp_scheme \<Rightarrow> 'd \<Rightarrow> bool" where
  "price_ok F p \<longleftrightarrow> fp_finite F p \<and> \<not> fp_le F p (fp_zero F)"

definition on_tick :: "('d, 'm) fp_scheme \<Rightarrow> 'd dz_tick \<Rightarrow> 'd builder \<Rightarrow> 'd builder \<times> 'd bar_event list" where
  "on_tick F k b0 =
     (let b = b0\<lparr>bb_tick_received := True\<rparr> in
      if tk_time k < 0 \<or> tk_time k > max_trading_sec then (out_of_session b, [])
      else let t = from_clock (tk_time k) in
      if tk_date k \<le> 0 then (out_of_order b, [])
      else if goes_back k t b then (out_of_order b, [])
      else if \<not> price_ok F (tk_last k) then (b, [])
      else let u = resolve_tick_bucket t (bb_table b) (bb_period b) in
      if tb_open_auction u
      then (if \<not> restored_final_accepts k (tb_begin u) b then (out_of_order b, [])
            else if \<not> cumulative_basis_ok F k b then (bad_volume b, [])
            else on_open_auction_tick F k t (tb_begin u) b)
      else if \<not> tb_in_session u then (out_of_session b, [])
      else if \<not> restored_final_accepts k (tb_begin u) b then (out_of_order b, [])
      else if \<not> cumulative_basis_ok F k b then (bad_volume b, [])
      else on_session_tick F k t (tb_begin u) b)"

definition feed :: "('d, 'm) fp_scheme \<Rightarrow> 'd builder \<times> 'd bar_event list \<Rightarrow> 'd dz_tick \<Rightarrow> 'd builder \<times> 'd bar_event list" where
  "feed F p k = (case on_tick F k (fst p) of (b, es) \<Rightarrow> (b, snd p @ es))"

definition run_ticks :: "('d, 'm) fp_scheme \<Rightarrow> 'd dz_tick list \<Rightarrow> 'd builder \<Rightarrow> 'd builder \<times> 'd bar_event list" where
  "run_ticks F ks b = foldl (feed F) (b, []) ks"

section \<open>Restoring\<close>

definition bucket_overlaps_session :: "session_table \<Rightarrow> int \<Rightarrow> int \<Rightarrow> bool" where
  "bucket_overlaps_session T p begin_sec \<longleftrightarrow> list_ex (\<lambda>s. begin_sec \<le> sn_end s \<and> begin_sec + p > sn_begin s) (se_sessions T)"

definition forming_bar_basis_ok :: "('d, 'm) fp_scheme \<Rightarrow> 'd bar \<Rightarrow> bool" where
  "forming_bar_basis_ok F x \<longleftrightarrow> fp_finite F (br_turnover x) \<and> fp_le F (fp_zero F) (br_turnover x) \<and> fp_finite F (br_cum_turnover x) \<and>
     fp_le F (br_turnover x) (br_cum_turnover x) \<and> 0 \<le> br_volume x \<and> br_volume x \<le> br_cum_volume x"

definition final_bar_basis_ok :: "('d, 'm) fp_scheme \<Rightarrow> 'd bar \<Rightarrow> bool" where
  "final_bar_basis_ok F x \<longleftrightarrow> fp_finite F (br_cum_turnover x) \<and> fp_le F (fp_zero F) (br_cum_turnover x) \<and> 0 \<le> br_cum_volume x"

definition restore_bar_ok :: "('d, 'm) fp_scheme \<Rightarrow> 'd bar \<Rightarrow> 'd builder \<Rightarrow> bool" where
  "restore_bar_ok F x b \<longleftrightarrow> br_period x = bb_period b \<and> 0 < br_date x \<and> 0 \<le> br_begin x \<and> br_begin x \<le> max_trading_sec \<and>
     cmod (br_begin x) (bb_period b) = 0 \<and> 0 \<le> br_last_tick x \<and> br_last_tick x \<le> max_trading_sec \<and>
     bucket_overlaps_session (bb_table b) (bb_period b) (br_begin x) \<and>
     (if br_final x then final_bar_basis_ok F x else forming_bar_basis_ok F x)"

definition is_auction_only_bar :: "('d, 'm) fp_scheme \<Rightarrow> 'd bar \<Rightarrow> 'd builder \<Rightarrow> bool" where
  "is_auction_only_bar F x b \<longleftrightarrow>
     (let u = resolve_tick_bucket (br_last_tick x) (bb_table b) (bb_period b)
      in tb_open_auction u \<and> tb_begin u = br_begin x \<and> fp_eq F (br_open x) (br_high x) \<and> fp_eq F (br_high x) (br_low x) \<and>
         fp_eq F (br_low x) (br_close x))"

definition adopt_forming_bar :: "('d, 'm) fp_scheme \<Rightarrow> 'd bar \<Rightarrow> 'd builder \<Rightarrow> 'd builder" where
  "adopt_forming_bar F x b =
     b\<lparr>bb_bar := Some (x\<lparr>br_final := False\<rparr>), bb_start_volume := br_cum_volume x - br_volume x,
       bb_start_turnover := fp_sub F (br_cum_turnover x) (br_turnover x), bb_auction_only := is_auction_only_bar F x b\<rparr>"

definition restore :: "('d, 'm) fp_scheme \<Rightarrow> 'd bar \<Rightarrow> 'd builder \<Rightarrow> 'd builder option" where
  "restore F x b =
     (if bb_tick_received b \<or> bb_bar b \<noteq> None \<or> bb_restored b \<noteq> None then None
      else if \<not> restore_bar_ok F x b then None
      else if br_final x then Some (b\<lparr>bb_restored := Some x\<rparr>)
      else Some (adopt_forming_bar F x b))"

end
