(* ===== verification/Bar_Ledger.thy ===== *)
theory Bar_Ledger
  imports Bar_Builder
begin

text \<open>
  The virtual ledger of a bar strategy and the arithmetic of its orders: \<open>bar_strategy/position.h\<close> (targets of the four
  intents, the ledger of one instrument), \<open>scaling.h\<close> (the share of an attached account) and \<open>execution.h\<close> (order
  prices and quantities). Quantities are integers; the places where the code guards the range of \<open>int64\<close> or \<open>int32\<close>
  keep their comparisons. Floating point is the record \<open>fp\<close> with the rounding functions of \<open><cmath>\<close>.
\<close>

section \<open>Arithmetic\<close>

record 'd fpx = "'d fp" +
  fp_floor :: "'d \<Rightarrow> 'd"
  fp_ceil :: "'d \<Rightarrow> 'd"
  fp_neg :: "'d \<Rightarrow> 'd"
  fp_to_int :: "'d \<Rightarrow> int"

definition rat_fpx :: "rat fpx" where
  "rat_fpx = fp.extend rat_fp \<lparr>fp_floor = (\<lambda>x. of_int \<lfloor>x\<rfloor>), fp_ceil = (\<lambda>x. of_int \<lceil>x\<rceil>), fp_neg = uminus, fp_to_int = floor\<rparr>"

lemma rat_fpx_simps [simp]:
  "fp_of_int rat_fpx = of_int" "fp_add rat_fpx = (+)" "fp_sub rat_fpx = (-)" "fp_mul rat_fpx = (*)" "fp_div rat_fpx = (/)"
  "fp_eq rat_fpx = (=)" "fp_lt rat_fpx = (<)" "fp_le rat_fpx = (\<le>)" "fp_finite rat_fpx = (\<lambda>_. True)"
  "fp_floor rat_fpx = (\<lambda>x. of_int \<lfloor>x\<rfloor>)" "fp_ceil rat_fpx = (\<lambda>x. of_int \<lceil>x\<rceil>)" "fp_neg rat_fpx = uminus" "fp_to_int rat_fpx = floor"
  "fp_round rat_fpx = fp_round rat_fp"
  by (simp_all add: rat_fpx_def rat_fp_def fp.defs)

section \<open>The ledger\<close>

record 'd instrument_spec =
  is_exchange :: string
  is_multiple :: 'd
  is_tick :: 'd

record 'd position_state =
  ps_net :: int
  ps_avg :: 'd
  ps_entries :: int
  ps_max_contracts :: int
  ps_max_entries :: int
  ps_entry_price :: 'd
  ps_entry_date :: int
  ps_entry_time :: int
  ps_last_price :: 'd
  ps_last_date :: int
  ps_last_time :: int
  ps_exit_price :: 'd
  ps_exit_date :: int
  ps_exit_time :: int
  ps_entry_bar :: int
  ps_last_bar :: int
  ps_exit_bar :: int
  ps_max_profit :: 'd
  ps_max_loss :: 'd

definition date_na :: int where
  "date_na = 0"

definition flat_state :: "('d, 'm) fp_scheme \<Rightarrow> 'd position_state" where
  "flat_state F =
     \<lparr>ps_net = 0, ps_avg = fp_zero F, ps_entries = 0, ps_max_contracts = 0, ps_max_entries = 0, ps_entry_price = fp_zero F,
      ps_entry_date = date_na, ps_entry_time = 0, ps_last_price = fp_zero F, ps_last_date = date_na, ps_last_time = 0,
      ps_exit_price = fp_zero F, ps_exit_date = date_na, ps_exit_time = 0, ps_entry_bar = -1, ps_last_bar = -1, ps_exit_bar = -1,
      ps_max_profit = fp_zero F, ps_max_loss = fp_zero F\<rparr>"

definition market_position :: "'d position_state \<Rightarrow> int" where
  "market_position s = (if ps_net s > 0 then 1 else if ps_net s < 0 then -1 else 0)"

datatype intent = Buy | Sell | Sell_Short | Buy_To_Cover

record bar_stamp =
  st_date :: int
  st_time :: int
  st_bar :: int

record ledger_outcome =
  lo_before :: int
  lo_after :: int
  lo_negative :: bool
  lo_price :: bool
  lo_direction :: bool
  lo_clamped :: bool
  lo_zero_closed :: bool

definition outcome_applied :: "ledger_outcome \<Rightarrow> bool" where
  "outcome_applied r \<longleftrightarrow> lo_after r \<noteq> lo_before r"

definition abs_volume :: "int \<Rightarrow> int" where
  "abs_volume v = (if v < 0 then - v else v)"

record resolution =
  rs_target :: int
  rs_direction :: bool
  rs_clamped :: bool

definition resolve_target :: "intent \<Rightarrow> int \<Rightarrow> int \<Rightarrow> resolution" where
  "resolve_target i n p =
     (let entry = (i = Buy \<or> i = Sell_Short);
          direction = (if i = Buy \<or> i = Sell then 1 else -1);
          own = direction * p;
          keep = \<lparr>rs_target = p, rs_direction = False, rs_clamped = False\<rparr>
      in if entry
         then (if n = 0 then keep\<lparr>rs_target := if own < 0 then 0 else p\<rparr>
               else keep\<lparr>rs_target := direction * (if own < 0 then n else own + n)\<rparr>)
         else if n = 0 then keep\<lparr>rs_target := if own > 0 then 0 else p\<rparr>
         else if own \<le> 0 then keep\<lparr>rs_direction := True\<rparr>
         else if n > own then keep\<lparr>rs_clamped := True, rs_target := 0\<rparr>
         else keep\<lparr>rs_target := direction * (own - n)\<rparr>)"

definition same_side :: "int \<Rightarrow> int \<Rightarrow> bool" where
  "same_side p q \<longleftrightarrow> p \<noteq> 0 \<and> q \<noteq> 0 \<and> (p > 0) = (q > 0)"

definition closed_of :: "int \<Rightarrow> int \<Rightarrow> int" where
  "closed_of p q = (if same_side p q then (if abs_volume p > abs_volume q then abs_volume p - abs_volume q else 0) else abs_volume p)"

definition opened_of :: "int \<Rightarrow> int \<Rightarrow> int" where
  "opened_of p q = (if q = 0 then 0 else if same_side p q then (if abs_volume q > abs_volume p then abs_volume q - abs_volume p else 0) else abs_volume q)"

definition mark_exit :: "'d \<Rightarrow> bar_stamp \<Rightarrow> 'd position_state \<Rightarrow> 'd position_state" where
  "mark_exit price b s = s\<lparr>ps_exit_price := price, ps_exit_date := st_date b, ps_exit_time := st_time b, ps_exit_bar := st_bar b\<rparr>"

definition mark_last_entry :: "'d \<Rightarrow> bar_stamp \<Rightarrow> 'd position_state \<Rightarrow> 'd position_state" where
  "mark_last_entry price b s = s\<lparr>ps_last_price := price, ps_last_date := st_date b, ps_last_time := st_time b, ps_last_bar := st_bar b\<rparr>"

definition mark_flat :: "('d, 'm) fp_scheme \<Rightarrow> 'd position_state \<Rightarrow> 'd position_state" where
  "mark_flat F s =
     s\<lparr>ps_avg := fp_zero F, ps_entries := 0, ps_entry_bar := -1, ps_last_bar := -1, ps_max_profit := fp_zero F, ps_max_loss := fp_zero F\<rparr>"

definition mark_entry :: "('d, 'm) fp_scheme \<Rightarrow> 'd \<Rightarrow> bar_stamp \<Rightarrow> 'd position_state \<Rightarrow> 'd position_state" where
  "mark_entry F price b s =
     (mark_last_entry price b
       (s\<lparr>ps_avg := price, ps_entries := 1, ps_entry_price := price, ps_entry_date := st_date b, ps_entry_time := st_time b,
          ps_entry_bar := st_bar b\<rparr>))\<lparr>ps_max_profit := fp_zero F, ps_max_loss := fp_zero F\<rparr>"

definition mark_added :: "('d, 'm) fp_scheme \<Rightarrow> int \<Rightarrow> int \<Rightarrow> int \<Rightarrow> 'd \<Rightarrow> bar_stamp \<Rightarrow> 'd position_state \<Rightarrow> 'd position_state" where
  "mark_added F old_size opened new_size price b s =
     mark_last_entry price b
       (s\<lparr>ps_avg := fp_div F (fp_add F (fp_mul F (ps_avg s) (fp_of_int F old_size)) (fp_mul F price (fp_of_int F opened))) (fp_of_int F new_size),
          ps_entries := ps_entries s + 1\<rparr>)"

definition apply_ledger :: "('d, 'm) fp_scheme \<Rightarrow> int \<Rightarrow> int \<Rightarrow> 'd \<Rightarrow> bar_stamp \<Rightarrow> 'd position_state \<Rightarrow> 'd position_state" where
  "apply_ledger F p q price b s0 =
     (let s1 = (if closed_of p q > 0 then mark_exit price b s0 else s0);
          s2 = (if q = 0 then mark_flat F s1
                else if \<not> same_side p q then mark_entry F price b s1
                else if opened_of p q > 0 then mark_added F (abs_volume p) (opened_of p q) (abs_volume q) price b s1
                else s1);
          s3 = s2\<lparr>ps_net := q\<rparr>;
          s4 = (if abs_volume q > ps_max_contracts s3 then s3\<lparr>ps_max_contracts := abs_volume q\<rparr> else s3)
      in if ps_entries s4 > ps_max_entries s4 then s4\<lparr>ps_max_entries := ps_entries s4\<rparr> else s4)"

definition apply_intent :: "('d, 'm) fp_scheme \<Rightarrow> intent \<Rightarrow> int \<Rightarrow> 'd \<Rightarrow> bar_stamp \<Rightarrow> 'd position_state \<Rightarrow> ledger_outcome \<times> 'd position_state" where
  "apply_intent F i n price b s =
     (let r0 = \<lparr>lo_before = ps_net s, lo_after = ps_net s, lo_negative = False, lo_price = False, lo_direction = False,
                lo_clamped = False, lo_zero_closed = False\<rparr>
      in if n < 0 then (r0\<lparr>lo_negative := True\<rparr>, s)
         else let u = resolve_target i n (ps_net s);
                  r1 = r0\<lparr>lo_direction := rs_direction u, lo_clamped := rs_clamped u\<rparr>
              in if rs_target u = ps_net s then (r1, s)
                 else if \<not> fp_finite F price \<or> fp_le F price (fp_zero F) then (r1\<lparr>lo_price := True\<rparr>, s)
                 else let s' = apply_ledger F (ps_net s) (rs_target u) price b s
                      in (r1\<lparr>lo_zero_closed := (n = 0), lo_after := ps_net s'\<rparr>, s'))"

section \<open>Shares of accounts\<close>

record 'd attached =
  at_id :: string
  at_scale :: 'd

datatype scale_rounding = Round_Nearest | Round_Floor | Round_Ceil

record 'd scaling_config =
  sc_max_scale :: 'd
  sc_rounding :: scale_rounding
  sc_min_one :: bool

definition large_max :: int where
  "large_max = 9223372036854775807"

definition large_min :: int where
  "large_min = - 9223372036854775808"

definition round_magnitude :: "('d, 'm) fpx_scheme \<Rightarrow> 'd \<Rightarrow> scale_rounding \<Rightarrow> int" where
  "round_magnitude F m r =
     (let x = (case r of
                 Round_Floor \<Rightarrow> fp_floor F m
               | Round_Ceil \<Rightarrow> fp_ceil F m
               | Round_Nearest \<Rightarrow> fp_floor F (fp_add F m (fp_div F (fp_of_int F 1) (fp_of_int F 2))))
      in if \<not> fp_lt F x (fp_of_int F large_max) then large_max else fp_to_int F x)"

definition logical_position :: "('d, 'm) fpx_scheme \<Rightarrow> 'd scaling_config \<Rightarrow> int \<Rightarrow> 'd \<Rightarrow> int" where
  "logical_position F c p scale =
     (if p = 0 then 0
      else if \<not> fp_lt F (fp_zero F) scale then 0
      else let d = fp_of_int F p;
               m = fp_mul F (if fp_lt F d (fp_zero F) then fp_neg F d else d) scale;
               u = round_magnitude F m (sc_rounding c);
               v = (if u = 0 \<and> sc_min_one c then 1 else u)
           in if p > 0 then v else - v)"

section \<open>Prices and quantities of orders\<close>

record 'd tick_snapshot =
  ts_upper :: 'd
  ts_lower :: 'd
  ts_last :: 'd
  ts_bid :: 'd
  ts_ask :: 'd
  ts_valid :: bool

definition no_snapshot :: "('d, 'm) fp_scheme \<Rightarrow> 'd tick_snapshot" where
  "no_snapshot F = \<lparr>ts_upper = fp_zero F, ts_lower = fp_zero F, ts_last = fp_zero F, ts_bid = fp_zero F, ts_ask = fp_zero F, ts_valid = False\<rparr>"

definition snapshot_from_tick :: "'d dz_tick \<Rightarrow> 'd tick_snapshot" where
  "snapshot_from_tick k =
     \<lparr>ts_upper = tk_upper k, ts_lower = tk_lower k, ts_last = tk_last k, ts_bid = tk_bid k, ts_ask = tk_ask k, ts_valid = True\<rparr>"

datatype price_adjustment = Adjust_None | Adjust_Tick | Adjust_Limit_Up | Adjust_Limit_Down

record 'd price_plan =
  pp_price :: 'd
  pp_adjustment :: price_adjustment
  pp_valid :: bool

definition fp_one :: "('d, 'm) fp_scheme \<Rightarrow> 'd" where
  "fp_one F = fp_of_int F 1"

definition fp_fabs :: "('d, 'm) fpx_scheme \<Rightarrow> 'd \<Rightarrow> 'd" where
  "fp_fabs F x = (if fp_lt F x (fp_zero F) then fp_neg F x else x)"

definition align_to_step :: "('d, 'm) fpx_scheme \<Rightarrow> 'd \<Rightarrow> 'd \<Rightarrow> bool \<Rightarrow> 'd" where
  "align_to_step F v step upwards =
     (let steps = fp_div F v step;
          nearest = fp_round F steps;
          tolerance = fp_mul F (fp_div F (fp_one F) (fp_of_int F 1000000000))
                        (if fp_lt F (fp_one F) (fp_fabs F steps) then fp_fabs F steps else fp_one F)
      in if fp_le F (fp_fabs F (fp_sub F steps nearest)) tolerance then v
         else fp_mul F (if upwards then fp_ceil F steps else fp_floor F steps) step)"

datatype direction = Dir_Long | Dir_Short

definition usable :: "('d, 'm) fp_scheme \<Rightarrow> 'd \<Rightarrow> bool" where
  "usable F p \<longleftrightarrow> fp_finite F p \<and> fp_lt F (fp_zero F) p"

definition resolve_order_price :: "('d, 'm) fpx_scheme \<Rightarrow> 'd \<Rightarrow> 'd \<Rightarrow> direction \<Rightarrow> 'd tick_snapshot \<Rightarrow> 'd price_plan" where
  "resolve_order_price F requested price_tick d k =
     (if \<not> fp_finite F requested \<or> fp_le F requested (fp_zero F)
      then \<lparr>pp_price = fp_zero F, pp_adjustment = Adjust_None, pp_valid = False\<rparr>
      else let p0 = \<lparr>pp_price = requested, pp_adjustment = Adjust_None, pp_valid = True\<rparr>;
               buying = (d = Dir_Long);
               p1 = (if usable F price_tick
                     then let a = align_to_step F requested price_tick (\<not> buying)
                          in if \<not> fp_eq F a requested then p0\<lparr>pp_price := a, pp_adjustment := Adjust_Tick\<rparr> else p0
                     else p0)
           in if \<not> ts_valid k then p1
              else if buying \<and> usable F (ts_upper k) \<and> fp_lt F (ts_upper k) (pp_price p1)
              then p1\<lparr>pp_price := ts_upper k, pp_adjustment := Adjust_Limit_Up\<rparr>
              else if \<not> buying \<and> usable F (ts_lower k) \<and> fp_lt F (pp_price p1) (ts_lower k)
              then p1\<lparr>pp_price := ts_lower k, pp_adjustment := Adjust_Limit_Down\<rparr>
              else p1)"

definition saturating_delta :: "int \<Rightarrow> int \<Rightarrow> int" where
  "saturating_delta new_l old_l =
     (if old_l > 0 \<and> new_l < large_min + old_l then large_min
      else if old_l < 0 \<and> new_l > large_max + old_l then large_max
      else new_l - old_l)"

definition volume_max :: int where
  "volume_max = 2147483647"

definition order_volume :: "int \<Rightarrow> int option" where
  "order_volume delta =
     (if delta > volume_max \<or> delta < - volume_max then None
      else let m = (if delta < 0 then - delta else delta) in if m = 0 then None else Some m)"

definition direction_of :: "int \<Rightarrow> direction" where
  "direction_of delta = (if delta > 0 then Dir_Long else Dir_Short)"

datatype price_type = Price_Limit | Price_Market

datatype sync_price_source = From_Opponent | From_Last | From_Market | Unavailable

record 'd sync_price_plan =
  sy_type :: price_type
  sy_price :: 'd
  sy_source :: sync_price_source
  sy_valid :: bool

definition resolve_sync_price :: "('d, 'm) fp_scheme \<Rightarrow> direction \<Rightarrow> bool \<Rightarrow> 'd tick_snapshot \<Rightarrow> 'd sync_price_plan" where
  "resolve_sync_price F d market k =
     (let plan = \<lparr>sy_type = Price_Limit, sy_price = fp_zero F, sy_source = Unavailable, sy_valid = False\<rparr>
      in if market then plan\<lparr>sy_type := Price_Market, sy_source := From_Market, sy_valid := True\<rparr>
         else let opponent = (if d = Dir_Long then ts_ask k else ts_bid k)
              in if usable F opponent then plan\<lparr>sy_price := opponent, sy_source := From_Opponent, sy_valid := True\<rparr>
                 else if usable F (ts_last k) then plan\<lparr>sy_price := ts_last k, sy_source := From_Last, sy_valid := True\<rparr>
                 else plan)"

end
