(* ===== verification/Bar_Window.thy ===== *)
theory Bar_Window
  imports Bar_Ledger
begin

text \<open>
  The sliding window of a bar strategy (\<open>series.h\<close>, \<open>series_internal.h\<close>, the storage of \<open>bar_strategy/context.h\<close>): seven
  price arrays and the user's series share one window over buffers of fixed length. A buffer is a list; a bar is written
  at the right end, and when the buffer is used up the window moves to its beginning.
\<close>

section \<open>Windows\<close>

record window =
  wn_end :: nat
  wn_size :: nat
  wn_max :: nat
  wn_buffer :: nat
  wn_seq :: nat

definition window_consistent :: "window \<Rightarrow> bool" where
  "window_consistent w \<longleftrightarrow> wn_size w \<le> wn_max w \<and> wn_max w \<le> wn_buffer w \<and> wn_size w \<le> wn_end w \<and> wn_end w \<le> wn_buffer w"

definition relocate_array :: "window \<Rightarrow> 'a list \<Rightarrow> 'a list" where
  "relocate_array w xs =
     (if wn_size w = 0 \<or> wn_end w = wn_size w then xs
      else take (wn_size w) (drop (wn_end w - wn_size w) xs) @ drop (wn_size w) xs)"

definition finish_relocate :: "window \<Rightarrow> window" where
  "finish_relocate w = w\<lparr>wn_end := wn_size w\<rparr>"

definition commit_advance :: "window \<Rightarrow> window" where
  "commit_advance w =
     w\<lparr>wn_end := wn_end w + 1, wn_seq := wn_seq w + 1, wn_size := (if wn_size w < wn_max w then wn_size w + 1 else wn_size w)\<rparr>"

text \<open>\<open>operator[]\<close>: 0 is the current bar; outside the window it throws.\<close>

definition series_at :: "window \<Rightarrow> 'a list \<Rightarrow> int \<Rightarrow> 'a option" where
  "series_at w xs n = (if 0 \<le> n \<and> n < int (wn_size w) then Some (xs ! nat (int (wn_end w) - 1 - n)) else None)"

definition series_span :: "window \<Rightarrow> 'a list \<Rightarrow> 'a list" where
  "series_span w xs = drop (wn_end w - wn_size w) (take (wn_end w) xs)"

section \<open>References to the current bar\<close>

record series_ref =
  sr_slot :: nat
  sr_n :: int
  sr_seq :: nat

definition make_ref :: "window \<Rightarrow> int \<Rightarrow> series_ref option" where
  "make_ref w n = (if 0 \<le> n \<and> n < int (wn_size w) then Some \<lparr>sr_slot = nat (int (wn_end w) - 1 - n), sr_n = n, sr_seq = wn_seq w\<rparr> else None)"

definition ref_read :: "window \<Rightarrow> series_ref \<Rightarrow> 'a list \<Rightarrow> 'a option" where
  "ref_read w r xs = (if wn_seq w \<noteq> sr_seq r then None else Some (xs ! sr_slot r))"

definition ref_write :: "window \<Rightarrow> series_ref \<Rightarrow> 'a \<Rightarrow> 'a list \<Rightarrow> 'a list option" where
  "ref_write w r v xs = (if sr_n r \<noteq> 0 then None else if wn_seq w \<noteq> sr_seq r then None else Some (xs[sr_slot r := v]))"

section \<open>The storage of an instrument\<close>

record 'd price_arrays =
  pa_open :: "'d list"
  pa_high :: "'d list"
  pa_low :: "'d list"
  pa_close :: "'d list"
  pa_volume :: "'d list"
  pa_turnover :: "'d list"
  pa_oi :: "'d list"

record 'a series_storage =
  ss_base :: "'a list"
  ss_init :: 'a

record 'd storage =
  sx_window :: window
  sx_price :: "'d price_arrays"
  sx_doubles :: "'d series_storage list"
  sx_ints :: "int series_storage list"
  sx_index :: int

text \<open>The arrays are allocated without a value; \<open>raw\<close> stands for what they hold.\<close>

definition make_array :: "'d \<Rightarrow> nat \<Rightarrow> 'd list" where
  "make_array raw n = replicate n raw"

definition new_window :: "nat \<Rightarrow> nat \<Rightarrow> window" where
  "new_window max_lookback buffer_bars =
     \<lparr>wn_end = 0, wn_size = 0, wn_max = max_lookback, wn_buffer = buffer_bars, wn_seq = 0\<rparr>"

definition new_arrays :: "'d \<Rightarrow> nat \<Rightarrow> 'd price_arrays" where
  "new_arrays raw n =
     \<lparr>pa_open = make_array raw n, pa_high = make_array raw n, pa_low = make_array raw n, pa_close = make_array raw n,
      pa_volume = make_array raw n, pa_turnover = make_array raw n, pa_oi = make_array raw n\<rparr>"

definition make_double_series :: "'d \<Rightarrow> 'd \<Rightarrow> ('d, 'm) storage_scheme \<Rightarrow> ('d, 'm) storage_scheme" where
  "make_double_series raw init c =
     c\<lparr>sx_doubles := sx_doubles c @ [\<lparr>ss_base = make_array raw (wn_buffer (sx_window c)), ss_init = init\<rparr>]\<rparr>"

definition make_int_series :: "int \<Rightarrow> int \<Rightarrow> ('d, 'm) storage_scheme \<Rightarrow> ('d, 'm) storage_scheme" where
  "make_int_series raw init c =
     c\<lparr>sx_ints := sx_ints c @ [\<lparr>ss_base = make_array raw (wn_buffer (sx_window c)), ss_init = init\<rparr>]\<rparr>"

definition write_bar :: "('d, 'f) fp_scheme \<Rightarrow> nat \<Rightarrow> 'd bar \<Rightarrow> ('d, 'm) storage_scheme \<Rightarrow> ('d, 'm) storage_scheme" where
  "write_bar F i x c =
     c\<lparr>sx_price := (sx_price c)\<lparr>
         pa_open := (pa_open (sx_price c))[i := br_open x], pa_high := (pa_high (sx_price c))[i := br_high x],
         pa_low := (pa_low (sx_price c))[i := br_low x], pa_close := (pa_close (sx_price c))[i := br_close x],
         pa_volume := (pa_volume (sx_price c))[i := fp_of_int F (br_volume x)],
         pa_turnover := (pa_turnover (sx_price c))[i := br_turnover x],
         pa_oi := (pa_oi (sx_price c))[i := fp_of_int F (br_oi x)]\<rparr>\<rparr>"

definition carry_series :: "bool \<Rightarrow> nat \<Rightarrow> 'a series_storage \<Rightarrow> 'a series_storage" where
  "carry_series first i s = s\<lparr>ss_base := (ss_base s)[i := (if first then ss_init s else ss_base s ! (i - 1))]\<rparr>"

definition write_user_series :: "nat \<Rightarrow> ('d, 'm) storage_scheme \<Rightarrow> ('d, 'm) storage_scheme" where
  "write_user_series i c =
     (let first = sx_index c < 0
      in c\<lparr>sx_doubles := map (carry_series first i) (sx_doubles c), sx_ints := map (carry_series first i) (sx_ints c)\<rparr>)"

definition relocate_series :: "window \<Rightarrow> 'a series_storage \<Rightarrow> 'a series_storage" where
  "relocate_series w s = s\<lparr>ss_base := relocate_array w (ss_base s)\<rparr>"

definition relocate :: "('d, 'm) storage_scheme \<Rightarrow> ('d, 'm) storage_scheme" where
  "relocate c =
     (let w = sx_window c; p = sx_price c
      in c\<lparr>sx_price := p\<lparr>
             pa_open := relocate_array w (pa_open p), pa_high := relocate_array w (pa_high p), pa_low := relocate_array w (pa_low p),
             pa_close := relocate_array w (pa_close p), pa_volume := relocate_array w (pa_volume p),
             pa_turnover := relocate_array w (pa_turnover p), pa_oi := relocate_array w (pa_oi p)\<rparr>,
           sx_doubles := map (relocate_series w) (sx_doubles c), sx_ints := map (relocate_series w) (sx_ints c),
           sx_window := finish_relocate w\<rparr>)"

text \<open>The part of \<open>advance_bar\<close> on the storage.\<close>

definition advance_storage :: "('d, 'f) fp_scheme \<Rightarrow> 'd bar \<Rightarrow> ('d, 'm) storage_scheme \<Rightarrow> ('d, 'm) storage_scheme" where
  "advance_storage F x c0 =
     (let c = (if wn_end (sx_window c0) \<ge> wn_buffer (sx_window c0) then relocate c0 else c0);
          slot = wn_end (sx_window c);
          c1 = write_user_series slot (write_bar F slot x c)
      in c1\<lparr>sx_window := commit_advance (sx_window c1), sx_index := sx_index c1 + 1\<rparr>)"

definition update_current_bar :: "('d, 'f) fp_scheme \<Rightarrow> 'd bar \<Rightarrow> ('d, 'm) storage_scheme \<Rightarrow> ('d, 'm) storage_scheme" where
  "update_current_bar F x c = (if sx_index c < 0 then c else write_bar F (wn_end (sx_window c) - 1) x c)"

text \<open>The strategy assigns the current element of one of its series; before the first bar it throws.\<close>

definition put_double :: "nat \<Rightarrow> 'd \<Rightarrow> ('d, 'm) storage_scheme \<Rightarrow> ('d, 'm) storage_scheme option" where
  "put_double i v c =
     (if i < length (sx_doubles c)
      then (case make_ref (sx_window c) 0 of
              None \<Rightarrow> None
            | Some r \<Rightarrow> (case ref_write (sx_window c) r v (ss_base (sx_doubles c ! i)) of
                None \<Rightarrow> None
              | Some xs \<Rightarrow> Some (c\<lparr>sx_doubles := (sx_doubles c)[i := (sx_doubles c ! i)\<lparr>ss_base := xs\<rparr>]\<rparr>)))
      else None)"

definition put_int :: "nat \<Rightarrow> int \<Rightarrow> ('d, 'm) storage_scheme \<Rightarrow> ('d, 'm) storage_scheme option" where
  "put_int i v c =
     (if i < length (sx_ints c)
      then (case make_ref (sx_window c) 0 of
              None \<Rightarrow> None
            | Some r \<Rightarrow> (case ref_write (sx_window c) r v (ss_base (sx_ints c ! i)) of
                None \<Rightarrow> None
              | Some xs \<Rightarrow> Some (c\<lparr>sx_ints := (sx_ints c)[i := (sx_ints c ! i)\<lparr>ss_base := xs\<rparr>]\<rparr>)))
      else None)"

section \<open>Capacities\<close>

definition max_lookback_min :: int where
  "max_lookback_min = 32"

definition max_lookback_max :: int where
  "max_lookback_max = 16384"

definition reserve_bars_max :: int where
  "reserve_bars_max = 8192"

definition secs_per_day :: int where
  "secs_per_day = 86400"

definition daily_bars :: "int \<Rightarrow> int" where
  "daily_bars p = (if p > 0 then cdiv secs_per_day p else secs_per_day)"

definition auto_max_lookback :: "int \<Rightarrow> int" where
  "auto_max_lookback p =
     (let n = daily_bars p in if n < max_lookback_min then max_lookback_min else if n > 2048 then 2048 else n)"

definition min_reserve_bars :: "int \<Rightarrow> int" where
  "min_reserve_bars p = (let c = cdiv (11 * daily_bars p + 9) 10 in if c > 2 then c else 2)"

text \<open>The first period from \<open>p\<close> on, at most \<open>n\<close> further, that satisfies the test; a day if there is none.\<close>

fun first_period :: "(int \<Rightarrow> bool) \<Rightarrow> nat \<Rightarrow> int \<Rightarrow> int" where
  "first_period t 0 p = secs_per_day"
| "first_period t (Suc n) p = (if t p then p else first_period t n (p + 1))"

definition min_feasible_period :: int where
  "min_feasible_period = first_period (\<lambda>p. min_reserve_bars p \<le> reserve_bars_max) 86399 1"

definition auto_reserve_bars :: "int \<Rightarrow> int" where
  "auto_reserve_bars p =
     (let twice = 2 * daily_bars p; least = min_reserve_bars p in if twice > least then twice else least)"

definition min_auto_reserve_period :: int where
  "min_auto_reserve_period = first_period (\<lambda>p. auto_reserve_bars p \<le> reserve_bars_max) 86399 1"

record capacity =
  cy_max :: int
  cy_reserve :: int
  cy_buffer :: int

definition resolve_capacity :: "int \<Rightarrow> int option \<Rightarrow> int option \<Rightarrow> capacity option" where
  "resolve_capacity p max_lookback reserve =
     (if p < min_feasible_period \<or> p > secs_per_day then None
      else let m = (case max_lookback of Some n \<Rightarrow> n | None \<Rightarrow> auto_max_lookback p)
           in if m < max_lookback_min \<or> m > max_lookback_max then None
              else let r = (case reserve of Some n \<Rightarrow> n | None \<Rightarrow> auto_reserve_bars p)
                   in if r < min_reserve_bars p \<or> r > reserve_bars_max then None
                      else if m + r > 24576 then None
                      else Some \<lparr>cy_max = m, cy_reserve = r, cy_buffer = m + r\<rparr>)"

end
