(* ===== verification/Bar_View.thy ===== *)
theory Bar_View
  imports Bar_Window
begin

text \<open>
  The window refines a list: what a strategy reads is the newest bars first, at most as many as the window holds, whatever
  relocations happen between the bars.
\<close>

section \<open>One array\<close>

definition newest :: "window \<Rightarrow> 'a list \<Rightarrow> 'a list" where
  "newest w xs = rev (series_span w xs)"

definition array_ok :: "window \<Rightarrow> 'a list \<Rightarrow> bool" where
  "array_ok w xs \<longleftrightarrow> window_consistent w \<and> length xs = wn_buffer w"

lemma length_newest: "array_ok w xs \<Longrightarrow> length (newest w xs) = wn_size w"
  by (simp add: array_ok_def window_consistent_def newest_def series_span_def)

lemma series_at_newest:
  assumes "array_ok w xs"
  shows "series_at w xs n = (if 0 \<le> n \<and> n < int (wn_size w) then Some (newest w xs ! nat n) else None)"
proof (cases "0 \<le> n \<and> n < int (wn_size w)")
  case True
  have l: "wn_size w \<le> wn_end w" "wn_end w \<le> length xs" using assms by (auto simp: array_ok_def window_consistent_def)
  have nn: "nat n < wn_size w" using True by linarith
  have "nat (int (wn_end w) - 1 - n) = wn_end w - wn_size w + (wn_size w - Suc (nat n))" using True l by linarith
  moreover have "newest w xs ! nat n = series_span w xs ! (wn_size w - Suc (nat n))"
    unfolding newest_def using nn l by (subst rev_nth) (simp_all add: series_span_def)
  moreover have "series_span w xs ! (wn_size w - Suc (nat n)) = xs ! (wn_end w - wn_size w + (wn_size w - Suc (nat n)))"
    using nn l by (simp add: series_span_def)
  ultimately show ?thesis using True by (simp add: series_at_def)
qed (auto simp: series_at_def)

lemma relocate_keeps:
  assumes "array_ok w xs"
  shows "newest (finish_relocate w) (relocate_array w xs) = newest w xs" "array_ok (finish_relocate w) (relocate_array w xs)"
  using assms by (auto simp: array_ok_def window_consistent_def newest_def series_span_def relocate_array_def finish_relocate_def take_drop)

lemma take_rev_drop: "n \<le> length xs \<Longrightarrow> take n (rev xs) = rev (drop (length xs - n) xs)"
  by (simp add: take_rev)

lemma append_newest:
  assumes "array_ok w xs" "wn_end w < wn_buffer w" "0 < wn_max w"
  shows "newest (commit_advance w) (xs[wn_end w := v]) = take (wn_max w) (v # newest w xs)" "array_ok (commit_advance w) (xs[wn_end w := v])"
proof -
  have l: "wn_size w \<le> wn_max w" "wn_size w \<le> wn_end w" "wn_end w < length xs"
    using assms by (auto simp: array_ok_def window_consistent_def)
  have t: "take (Suc (wn_end w)) (xs[wn_end w := v]) = take (wn_end w) xs @ [v]" using l by (simp add: take_Suc_conv_app_nth)
  show "newest (commit_advance w) (xs[wn_end w := v]) = take (wn_max w) (v # newest w xs)"
  proof (cases "wn_size w < wn_max w")
    case True
    then show ?thesis using l t by (simp add: newest_def series_span_def commit_advance_def take_Cons')
  next
    case False
    then have f: "wn_size w = wn_max w" using l by simp
    have "take (wn_max w - 1) (rev (drop (wn_end w - wn_max w) (take (wn_end w) xs))) = rev (drop (Suc (wn_end w) - wn_max w) (take (wn_end w) xs))"
      using l f assms(3) by (subst take_rev_drop) (simp_all add: Suc_diff_le)
    then show ?thesis using f l t assms(3) by (simp add: newest_def series_span_def commit_advance_def take_Cons')
  qed
  show "array_ok (commit_advance w) (xs[wn_end w := v])"
    using assms by (auto simp: array_ok_def window_consistent_def commit_advance_def)
qed

lemma newest_update_current:
  assumes "array_ok w xs" "0 < wn_size w"
  shows "newest w (xs[wn_end w - 1 := v]) = (newest w xs)[0 := v]" "array_ok w (xs[wn_end w - 1 := v])"
proof -
  have l: "wn_size w \<le> wn_end w" "wn_end w \<le> length xs" using assms by (auto simp: array_ok_def window_consistent_def)
  obtain e where e: "wn_end w = Suc e" using l assms(2) by (cases "wn_end w") auto
  have t: "take (Suc e) ys = take e ys @ [ys ! e]" if "e < length ys" for ys :: "'a list" using that by (rule take_Suc_conv_app_nth)
  show "newest w (xs[wn_end w - 1 := v]) = (newest w xs)[0 := v]"
    using l assms(2) e by (simp add: newest_def series_span_def t)
  show "array_ok w (xs[wn_end w - 1 := v])" using assms(1) by (simp add: array_ok_def)
qed

lemma newest_head:
  assumes "array_ok w xs" "0 < wn_size w"
  shows "hd (newest w xs) = xs ! (wn_end w - 1)"
proof -
  have "nat (int (wn_end w) - 1 - 0) = wn_end w - 1" by linarith
  then show ?thesis using series_at_newest [OF assms(1), of 0] length_newest [OF assms(1)] assms(2)
    by (cases "newest w xs") (auto simp: series_at_def)
qed

text \<open>
  What \<open>operator[]\<close> gives at the indices from -1 to the size of the window: it throws at the first and at the last of them.
\<close>

definition reads :: "window \<Rightarrow> 'a list \<Rightarrow> 'a option list" where
  "reads w xs = map (series_at w xs) [-1 .. int (wn_size w)]"

definition edged :: "'a list \<Rightarrow> 'a option list" where
  "edged vs = None # map Some vs @ [None]"

lemma reads_newest:
  assumes "array_ok w xs"
  shows "reads w xs = edged (newest w xs)"
proof (rule nth_equalityI)
  show "length (reads w xs) = length (edged (newest w xs))"
    using length_newest [OF assms] by (simp add: reads_def edged_def)
  fix i
  assume "i < length (reads w xs)"
  then have i: "i < wn_size w + 2" by (simp add: reads_def)
  then have "reads w xs ! i = series_at w xs (int i - 1)" by (simp add: reads_def)
  also have "\<dots> = edged (newest w xs) ! i"
  proof (cases i)
    case 0
    then show ?thesis by (simp add: series_at_newest [OF assms] edged_def)
  next
    case (Suc j)
    then show ?thesis using i length_newest [OF assms]
      by (auto simp: series_at_newest [OF assms] edged_def nth_append less_Suc_eq)
  qed
  finally show "reads w xs ! i = edged (newest w xs) ! i" .
qed

section \<open>The storage\<close>

text \<open>What the strategy sees: the price views, and its series with their initial values.\<close>

type_synonym 'd seen = "'d list list \<times> ('d \<times> 'd list) list \<times> (int \<times> int list) list"

definition price_list :: "'d price_arrays \<Rightarrow> 'd list list" where
  "price_list p = [pa_open p, pa_high p, pa_low p, pa_close p, pa_volume p, pa_turnover p, pa_oi p]"

definition bar_values :: "('d, 'f) fp_scheme \<Rightarrow> 'd bar \<Rightarrow> 'd list" where
  "bar_values F x =
     [br_open x, br_high x, br_low x, br_close x, fp_of_int F (br_volume x), br_turnover x, fp_of_int F (br_oi x)]"

definition seen :: "('d, 'm) storage_scheme \<Rightarrow> 'd seen" where
  "seen c =
     (map (newest (sx_window c)) (price_list (sx_price c)),
      map (\<lambda>s. (ss_init s, newest (sx_window c) (ss_base s))) (sx_doubles c),
      map (\<lambda>s. (ss_init s, newest (sx_window c) (ss_base s))) (sx_ints c))"

text \<open>The same by index.\<close>

type_synonym 'd indexed = "'d option list list \<times> 'd option list list \<times> int option list list"

definition indexed :: "('d, 'm) storage_scheme \<Rightarrow> 'd indexed" where
  "indexed c =
     (map (reads (sx_window c)) (price_list (sx_price c)), map (\<lambda>s. reads (sx_window c) (ss_base s)) (sx_doubles c),
      map (\<lambda>s. reads (sx_window c) (ss_base s)) (sx_ints c))"

definition edges :: "'d seen \<Rightarrow> 'd indexed" where
  "edges v = (map edged (fst v), map (\<lambda>s. edged (snd s)) (fst (snd v)), map (\<lambda>s. edged (snd s)) (snd (snd v)))"

datatype 'd storage_op = Op_Advance "'d bar" | Op_Update "'d bar" | Op_Relocate | Op_Double nat 'd | Op_Int nat int

fun storage_step :: "('d, 'f) fp_scheme \<Rightarrow> 'd storage_op \<Rightarrow> ('d, 'm) storage_scheme \<Rightarrow> ('d, 'm) storage_scheme" where
  "storage_step F (Op_Advance x) c = advance_storage F x c"
| "storage_step F (Op_Update x) c = update_current_bar F x c"
| "storage_step F Op_Relocate c = relocate c"
| "storage_step F (Op_Double i v) c = (case put_double i v c of None \<Rightarrow> c | Some c' \<Rightarrow> c')"
| "storage_step F (Op_Int i v) c = (case put_int i v c of None \<Rightarrow> c | Some c' \<Rightarrow> c')"

text \<open>The same operations on lists.\<close>

definition push :: "nat \<Rightarrow> 'a \<Rightarrow> 'a list \<Rightarrow> 'a list" where
  "push n v vs = take n (v # vs)"

fun carry_list :: "nat \<Rightarrow> 'a \<times> 'a list \<Rightarrow> 'a \<times> 'a list" where
  "carry_list n (a, vs) = (a, push n (case vs of [] \<Rightarrow> a | v # _ \<Rightarrow> v) vs)"

definition set_head :: "nat \<Rightarrow> 'a \<Rightarrow> ('a \<times> 'a list) list \<Rightarrow> ('a \<times> 'a list) list" where
  "set_head i v ss = (if i < length ss then ss[i := (fst (ss ! i), (snd (ss ! i))[0 := v])] else ss)"

fun spec_step :: "('d, 'f) fp_scheme \<Rightarrow> nat \<Rightarrow> 'd seen \<Rightarrow> 'd storage_op \<Rightarrow> 'd seen" where
  "spec_step F n (ps, ds, ks) (Op_Advance x) = (map2 (push n) (bar_values F x) ps, map (carry_list n) ds, map (carry_list n) ks)"
| "spec_step F n (ps, ds, ks) (Op_Update x) = (map2 (\<lambda>v vs. vs[0 := v]) (bar_values F x) ps, ds, ks)"
| "spec_step F n (ps, ds, ks) Op_Relocate = (ps, ds, ks)"
| "spec_step F n (ps, ds, ks) (Op_Double i v) = (ps, set_head i v ds, ks)"
| "spec_step F n (ps, ds, ks) (Op_Int i v) = (ps, ds, set_head i v ks)"

definition storage_ok :: "nat \<Rightarrow> ('d, 'm) storage_scheme \<Rightarrow> bool" where
  "storage_ok n c \<longleftrightarrow> wn_max (sx_window c) = n \<and> 0 < n \<and> n < wn_buffer (sx_window c) \<and> -1 \<le> sx_index c \<and> (sx_index c < 0 \<longleftrightarrow> wn_size (sx_window c) = 0) \<and>
     (\<forall>xs \<in> set (price_list (sx_price c)). array_ok (sx_window c) xs) \<and>
     (\<forall>s \<in> set (sx_doubles c). array_ok (sx_window c) (ss_base s)) \<and> (\<forall>s \<in> set (sx_ints c). array_ok (sx_window c) (ss_base s))"

lemma relocate_step:
  assumes "storage_ok n c"
  shows "seen (relocate c) = seen c" "storage_ok n (relocate c)"
  using assms by (auto simp: storage_ok_def seen_def relocate_def Let_def price_list_def relocate_keeps relocate_series_def)
    (simp_all add: finish_relocate_def)
lemma carried:
  assumes "array_ok w (ss_base s)" "wn_end w < wn_buffer w" "0 < wn_max w" "f \<longleftrightarrow> wn_size w = 0"
  shows "(ss_init s, newest (commit_advance w) (ss_base (carry_series f (wn_end w) s))) = carry_list (wn_max w) (ss_init s, newest w (ss_base s))"
proof -
  have "(case newest w (ss_base s) of [] \<Rightarrow> ss_init s | v # _ \<Rightarrow> v) = (if f then ss_init s else ss_base s ! (wn_end w - 1))"
    using newest_head [OF assms(1)] length_newest [OF assms(1)] assms(4) by (cases "newest w (ss_base s)") auto
  then show ?thesis using append_newest(1) [OF assms(1-3)] by (simp add: carry_series_def push_def)
qed

lemma carried_ok:
  "array_ok w (ss_base s) \<Longrightarrow> wn_end w < wn_buffer w \<Longrightarrow> 0 < wn_max w \<Longrightarrow> array_ok (commit_advance w) (ss_base (carry_series f (wn_end w) s))"
  by (simp add: carry_series_def append_newest)

lemma ss_init_carry [simp]: "ss_init (carry_series f i s) = ss_init s"
  by (simp add: carry_series_def)

lemma commit_fields [simp]: "wn_max (commit_advance w) = wn_max w" "wn_buffer (commit_advance w) = wn_buffer w"
  by (simp_all add: commit_advance_def)

definition advanced :: "('d, 'f) fp_scheme \<Rightarrow> 'd bar \<Rightarrow> ('d, 'm) storage_scheme \<Rightarrow> ('d, 'm) storage_scheme" where
  "advanced F x c =
     (let c1 = write_user_series (wn_end (sx_window c)) (write_bar F (wn_end (sx_window c)) x c)
      in c1\<lparr>sx_window := commit_advance (sx_window c1), sx_index := sx_index c1 + 1\<rparr>)"

lemma advance_as: "advance_storage F x c = advanced F x (if wn_end (sx_window c) \<ge> wn_buffer (sx_window c) then relocate c else c)"
  by (simp add: advance_storage_def advanced_def Let_def)

lemma seen_advanced:
  assumes "storage_ok n c" "wn_end (sx_window c) < wn_buffer (sx_window c)"
  shows "seen (advanced F x c) = spec_step F n (seen c) (Op_Advance x)"
proof -
  have n: "0 < wn_max (sx_window c)" "wn_max (sx_window c) = n" using assms(1) by (auto simp: storage_ok_def)
  have p: "newest (commit_advance (sx_window c)) (xs[wn_end (sx_window c) := v]) = push n v (newest (sx_window c) xs)"
    if "xs \<in> set (price_list (sx_price c))" for xs v
    using append_newest(1) [of "sx_window c" xs v] assms that n by (simp add: storage_ok_def push_def)
  have u: "(sx_index c < 0) = (wn_size (sx_window c) = 0)" using assms(1) by (simp add: storage_ok_def)
  have d: "(ss_init s, newest (commit_advance (sx_window c)) (ss_base (carry_series (sx_index c < 0) (wn_end (sx_window c)) s))) =
      carry_list n (ss_init s, newest (sx_window c) (ss_base s))" if "s \<in> set (sx_doubles c)" for s
    using carried [OF _ assms(2) n(1) u, of s] that assms(1) n(2) by (simp add: storage_ok_def)
  have k: "(ss_init s, newest (commit_advance (sx_window c)) (ss_base (carry_series (sx_index c < 0) (wn_end (sx_window c)) s))) =
      carry_list n (ss_init s, newest (sx_window c) (ss_base s))" if "s \<in> set (sx_ints c)" for s
    using carried [OF _ assms(2) n(1) u, of s] that assms(1) n(2) by (simp add: storage_ok_def)
  show ?thesis
    using d k by (simp add: seen_def advanced_def write_user_series_def write_bar_def Let_def price_list_def bar_values_def p [unfolded price_list_def])
qed

lemma advanced_ok:
  assumes "storage_ok n c" "wn_end (sx_window c) < wn_buffer (sx_window c)"
  shows "storage_ok n (advanced F x c)"
proof -
  have n: "0 < wn_max (sx_window c)" using assms(1) by (simp add: storage_ok_def)
  have s: "wn_size (commit_advance (sx_window c)) \<noteq> 0" using n by (simp add: commit_advance_def)
  have i: "\<not> sx_index c + 1 < 0 \<longleftrightarrow> - 1 \<le> sx_index c" by linarith
  show ?thesis
    using assms s n
    by (auto simp: storage_ok_def advanced_def write_user_series_def write_bar_def Let_def price_list_def append_newest carried_ok)
qed

lemma storage_advance_step:
  assumes "storage_ok n c"
  shows "seen (advance_storage F x c) = spec_step F n (seen c) (Op_Advance x)" "storage_ok n (advance_storage F x c)"
proof -
  let ?c = "if wn_end (sx_window c) \<ge> wn_buffer (sx_window c) then relocate c else c"
  have ok: "storage_ok n ?c" "seen ?c = seen c" using assms relocate_step [OF assms] by simp_all
  have "wn_size (sx_window c) \<le> n" using assms by (auto simp: storage_ok_def price_list_def array_ok_def window_consistent_def)
  then have "wn_end (sx_window ?c) < wn_buffer (sx_window ?c)" using assms by (auto simp: storage_ok_def relocate_def Let_def finish_relocate_def)
  note r = seen_advanced [OF ok(1) this] advanced_ok [OF ok(1) this]
  show "seen (advance_storage F x c) = spec_step F n (seen c) (Op_Advance x)" unfolding advance_as r(1) ok(2) ..
  show "storage_ok n (advance_storage F x c)" unfolding advance_as by (rule r(2))
qed
lemma update_step:
  assumes "storage_ok n c"
  shows "seen (update_current_bar F x c) = spec_step F n (seen c) (Op_Update x)" "storage_ok n (update_current_bar F x c)"
proof -
  have a: "array_ok (sx_window c) xs" if "xs \<in> set (price_list (sx_price c))" for xs using assms that by (simp add: storage_ok_def)
  have e: "newest (sx_window c) xs = []" if "sx_index c < 0" "xs \<in> set (price_list (sx_price c))" for xs
    using assms that length_newest [OF a] by (auto simp: storage_ok_def)
  have u: "newest (sx_window c) (xs[wn_end (sx_window c) - 1 := v]) = (newest (sx_window c) xs)[0 := v]"
    if "\<not> sx_index c < 0" "xs \<in> set (price_list (sx_price c))" for xs v
    using newest_update_current(1) [OF a [OF that(2)]] assms that(1) by (simp add: storage_ok_def)
  show "seen (update_current_bar F x c) = spec_step F n (seen c) (Op_Update x)"
    using e u by (simp add: seen_def update_current_bar_def write_bar_def price_list_def bar_values_def)
  show "storage_ok n (update_current_bar F x c)"
    using assms newest_update_current(2) by (auto simp: storage_ok_def update_current_bar_def write_bar_def price_list_def)
qed

lemma put_slot:
  assumes "array_ok w xs"
  shows "(case make_ref w 0 of None \<Rightarrow> None | Some r \<Rightarrow> ref_write w r v xs) = (if wn_size w = 0 then None else Some (xs[wn_end w - 1 := v]))"
proof -
  have "nat (int (wn_end w) - 1) = wn_end w - 1" by linarith
  then show ?thesis by (simp add: make_ref_def ref_write_def)
qed

lemma put_double_as:
  "put_double i v c =
     (if i < length (sx_doubles c) \<and> wn_size (sx_window c) \<noteq> 0
      then Some (c\<lparr>sx_doubles := (sx_doubles c)[i := (sx_doubles c ! i)\<lparr>ss_base := (ss_base (sx_doubles c ! i))[wn_end (sx_window c) - 1 := v]\<rparr>]\<rparr>)
      else None)"
proof -
  have "nat (int (wn_end (sx_window c)) - 1) = wn_end (sx_window c) - 1" by linarith
  then show ?thesis by (simp add: put_double_def make_ref_def ref_write_def)
qed

lemma put_int_as:
  "put_int i v c =
     (if i < length (sx_ints c) \<and> wn_size (sx_window c) \<noteq> 0
      then Some (c\<lparr>sx_ints := (sx_ints c)[i := (sx_ints c ! i)\<lparr>ss_base := (ss_base (sx_ints c ! i))[wn_end (sx_window c) - 1 := v]\<rparr>]\<rparr>)
      else None)"
proof -
  have "nat (int (wn_end (sx_window c)) - 1) = wn_end (sx_window c) - 1" by linarith
  then show ?thesis by (simp add: put_int_def make_ref_def ref_write_def)
qed

lemma set_head_empty: "\<forall>s \<in> set ss. snd s = [] \<Longrightarrow> set_head i v ss = ss"
  by (auto simp: set_head_def intro!: nth_equalityI split: if_splits) (metis list_update_nonempty nth_list_update nth_mem prod.collapse)

lemma put_list:
  assumes "\<forall>s \<in> set ss. array_ok w (ss_base s)"
  shows "map (\<lambda>s. (ss_init s, newest w (ss_base s)))
      (if i < length ss \<and> wn_size w \<noteq> 0 then ss[i := (ss ! i)\<lparr>ss_base := (ss_base (ss ! i))[wn_end w - 1 := v]\<rparr>] else ss) =
    set_head i v (map (\<lambda>s. (ss_init s, newest w (ss_base s))) ss)"
proof (cases "i < length ss \<and> wn_size w \<noteq> 0")
  case True
  then have "array_ok w (ss_base (ss ! i))" "0 < wn_size w" using assms by simp_all
  note newest_update_current(1) [OF this]
  then show ?thesis using True by (simp add: set_head_def map_update)
next
  case False
  then show ?thesis
  proof (cases "i < length ss")
    case True
    have "newest w (ss_base s) = []" if "s \<in> set ss" for s using length_newest [of w "ss_base s"] assms that False True by simp
    then show ?thesis using False by (subst set_head_empty) auto
  qed (simp add: set_head_def)
qed

lemma put_ok:
  assumes "\<forall>s \<in> set ss. array_ok w (ss_base s)" "i < length ss"
  shows "\<forall>s \<in> set (ss[i := (ss ! i)\<lparr>ss_base := (ss_base (ss ! i))[j := v]\<rparr>]). array_ok w (ss_base s)"
proof -
  have "array_ok w (ss_base (ss ! i))" using assms by simp
  then have "array_ok w ((ss_base (ss ! i))[j := v])" by (simp add: array_ok_def)
  then show ?thesis using assms(1) by (auto dest!: set_update_subset_insert [THEN subsetD])
qed

lemma storage_step_ok:
  assumes "storage_ok n c"
  shows "seen (storage_step F s c) = spec_step F n (seen c) s \<and> storage_ok n (storage_step F s c)"
proof (cases s)
  case (Op_Double i v)
  have d: "\<forall>s \<in> set (sx_doubles c). array_ok (sx_window c) (ss_base s)" using assms by (simp add: storage_ok_def)
  show ?thesis using put_list [OF d, of i v] put_ok [OF d] assms Op_Double
    by (auto simp: put_double_as seen_def storage_ok_def split: if_splits)
next
  case (Op_Int i v)
  have d: "\<forall>s \<in> set (sx_ints c). array_ok (sx_window c) (ss_base s)" using assms by (simp add: storage_ok_def)
  show ?thesis using put_list [OF d, of i v] put_ok [OF d] assms Op_Int
    by (auto simp: put_int_as seen_def storage_ok_def split: if_splits)
next
  case Op_Relocate
  then show ?thesis using relocate_step [OF assms] by (cases "seen c") simp
qed (simp_all add: storage_advance_step [OF assms] update_step [OF assms])

definition run_storage :: "('d, 'f) fp_scheme \<Rightarrow> 'd storage_op list \<Rightarrow> ('d, 'm) storage_scheme \<Rightarrow> ('d, 'm) storage_scheme" where
  "run_storage F ops c = foldl (\<lambda>c s. storage_step F s c) c ops"

lemma run_storage_seen: "storage_ok n c \<Longrightarrow> seen (run_storage F ops c) = foldl (spec_step F n) (seen c) ops \<and> storage_ok n (run_storage F ops c)"
  unfolding run_storage_def by (induction ops arbitrary: c) (simp_all add: storage_step_ok)

lemma indexed_seen: "storage_ok n c \<Longrightarrow> indexed c = edges (seen c)"
  by (auto simp: storage_ok_def indexed_def edges_def seen_def reads_newest)

end
