(* ===== verification/Bar_Context.thy ===== *)
theory Bar_Context
  imports Bar_View
begin

text \<open>
  One instrument of a bar strategy (\<open>bar_strategy/context.h\<close>): intents move the ledger, and while the instrument is live
  the orders and reports of the attached accounts follow. The calls into the SDK and the refusals reported on the error
  stream are a list of actions, in order, with the calls into the strategy; the answers of the SDK only decide further lines on the error stream and are
  left out. The account table is the manager's; a null pointer to it is \<open>None\<close>.
\<close>

datatype callback = On_Init | On_Bar_Open | On_Bar_Update | On_Bar_Close | On_Params_Update | On_Destroy

datatype 'd action =
    Called string callback
  | Place string string direction price_type 'd int
  | Publish string string int
  | Volume_Refused string direction int
  | Price_Refused string direction int

record 'd ictx = "'d storage" +
  ic_id :: string
  ic_spec :: "'d instrument_spec"
  ic_position :: "'d position_state"
  ic_tick :: "'d tick_snapshot"
  ic_session :: bool
  ic_scaling :: "'d scaling_config"
  ic_date :: int
  ic_time :: int
  ic_in_init :: bool
  ic_live :: bool
  ic_auction :: bool
  ic_failed :: bool
  ic_stage :: bool
  ic_pending :: bool

definition new_context :: "('d, 'f) fp_scheme \<Rightarrow> 'd \<Rightarrow> string \<Rightarrow> nat \<Rightarrow> nat \<Rightarrow> 'd instrument_spec \<Rightarrow> bool \<Rightarrow> 'd scaling_config \<Rightarrow> 'd ictx" where
  "new_context F raw name max_lookback buffer_bars spec session scaling =
     \<lparr>sx_window = new_window max_lookback buffer_bars, sx_price = new_arrays raw buffer_bars, sx_doubles = [], sx_ints = [], sx_index = -1,
      ic_id = name, ic_spec = spec, ic_position = flat_state F, ic_tick = no_snapshot F, ic_session = session, ic_scaling = scaling,
      ic_date = date_na, ic_time = 0, ic_in_init = False, ic_live = False, ic_auction = False, ic_failed = False,
      ic_stage = False, ic_pending = False\<rparr>"

definition advance_bar_ctx :: "('d, 'f) fp_scheme \<Rightarrow> 'd bar \<Rightarrow> 'd ictx \<Rightarrow> 'd ictx" where
  "advance_bar_ctx F x c =
     (advance_storage F x c)\<lparr>ic_date := br_date x, ic_time := to_clock (standard_end_sec x)\<rparr>"

section \<open>Prices and profits\<close>

definition current_price :: "('d, 'f) fp_scheme \<Rightarrow> 'd ictx \<Rightarrow> 'd" where
  "current_price F c =
     (if sx_index c < 0 \<or> wn_size (sx_window c) = 0 then fp_zero F
      else pa_close (sx_price c) ! (wn_end (sx_window c) - 1))"

definition profit_at :: "('d, 'f) fp_scheme \<Rightarrow> 'd \<Rightarrow> 'd \<Rightarrow> 'd ictx \<Rightarrow> 'd" where
  "profit_at F price weight c =
     (if ps_net (ic_position c) = 0 \<or> fp_le F price (fp_zero F) then fp_zero F
      else fp_mul F (fp_mul F (fp_sub F price (ps_avg (ic_position c))) weight) (is_multiple (ic_spec c)))"

definition position_profit_at :: "('d, 'f) fp_scheme \<Rightarrow> 'd \<Rightarrow> 'd ictx \<Rightarrow> 'd" where
  "position_profit_at F price c = profit_at F price (fp_of_int F (ps_net (ic_position c))) c"

definition contract_profit :: "('d, 'f) fp_scheme \<Rightarrow> 'd ictx \<Rightarrow> 'd" where
  "contract_profit F c = profit_at F (current_price F c) (fp_of_int F (if ps_net (ic_position c) > 0 then 1 else -1)) c"

definition update_profit_extremes :: "('d, 'f) fp_scheme \<Rightarrow> 'd \<Rightarrow> 'd ictx \<Rightarrow> 'd ictx" where
  "update_profit_extremes F bar_close c =
     (if ps_net (ic_position c) = 0 then c
      else let p = position_profit_at F bar_close c;
               s1 = (if fp_lt F (ps_max_profit (ic_position c)) p then (ic_position c)\<lparr>ps_max_profit := p\<rparr> else ic_position c);
               s2 = (if fp_lt F p (ps_max_loss s1) then s1\<lparr>ps_max_loss := p\<rparr> else s1)
           in c\<lparr>ic_position := s2\<rparr>)"

definition bars_since :: "int \<Rightarrow> 'd ictx \<Rightarrow> int" where
  "bars_since r c = (if r < 0 \<or> sx_index c < 0 then -1 else sx_index c - r)"

definition bar_stamp_of :: "'d ictx \<Rightarrow> bar_stamp" where
  "bar_stamp_of c = \<lparr>st_date = ic_date c, st_time = ic_time c, st_bar = sx_index c\<rparr>"

section \<open>Orders\<close>

definition submit_order :: "('d, 'f) fpx_scheme \<Rightarrow> 'd attached \<Rightarrow> direction \<Rightarrow> int \<Rightarrow> 'd \<Rightarrow> price_type \<Rightarrow> 'd ictx \<Rightarrow> 'd action list" where
  "submit_order F a d n price kind c =
     (if kind = Price_Market then [Place (at_id a) (ic_id c) d Price_Market (fp_zero F) n]
      else let plan = resolve_order_price F price (is_tick (ic_spec c)) d (ic_tick c)
           in if \<not> pp_valid plan then [Price_Refused (at_id a) d n]
              else [Place (at_id a) (ic_id c) d Price_Limit (pp_price plan) n])"

definition submit_delta_order :: "('d, 'f) fpx_scheme \<Rightarrow> 'd attached \<Rightarrow> int \<Rightarrow> 'd \<Rightarrow> 'd ictx \<Rightarrow> 'd action list" where
  "submit_delta_order F a delta price c =
     (case order_volume delta of
        None \<Rightarrow> [Volume_Refused (at_id a) (direction_of delta) delta]
      | Some n \<Rightarrow> submit_order F a (direction_of delta) n price Price_Limit c)"

text \<open>An empty instrument addresses all instruments of the account.\<close>

definition publish_position_to :: "bool \<Rightarrow> string \<Rightarrow> string option \<Rightarrow> int \<Rightarrow> 'd action list" where
  "publish_position_to session account name n =
     (if \<not> session then [] else [Publish account (case name of None \<Rightarrow> '''' | Some i \<Rightarrow> i) n])"

definition publish_position :: "'d attached \<Rightarrow> int \<Rightarrow> 'd ictx \<Rightarrow> 'd action list" where
  "publish_position a n c = publish_position_to (ic_session c) (at_id a) (Some (ic_id c)) n"

definition fan_account :: "('d, 'f) fpx_scheme \<Rightarrow> int \<Rightarrow> 'd \<Rightarrow> 'd ictx \<Rightarrow> 'd attached \<Rightarrow> 'd action list" where
  "fan_account F before price c a =
     (let old_l = logical_position F (ic_scaling c) before (at_scale a);
          new_l = logical_position F (ic_scaling c) (ps_net (ic_position c)) (at_scale a);
          delta = saturating_delta new_l old_l
      in if delta = 0 then [] else submit_delta_order F a delta price c @ publish_position a new_l c)"

definition fanout_positions :: "('d, 'f) fpx_scheme \<Rightarrow> 'd attached list option \<Rightarrow> int \<Rightarrow> 'd \<Rightarrow> 'd ictx \<Rightarrow> 'd action list" where
  "fanout_positions F accounts before price c =
     (if ps_net (ic_position c) = before then []
      else if \<not> ic_live c \<or> \<not> ic_session c then []
      else case accounts of None \<Rightarrow> [] | Some A \<Rightarrow> concat (map (fan_account F before price c) A))"

definition execute_intent :: "('d, 'f) fpx_scheme \<Rightarrow> 'd attached list option \<Rightarrow> intent \<Rightarrow> int \<Rightarrow> 'd \<Rightarrow> 'd ictx \<Rightarrow> 'd ictx \<times> 'd action list" where
  "execute_intent F accounts i n price c =
     (if ic_failed c then (c, [])
      else let before = ps_net (ic_position c);
               (r, s) = apply_intent F i n price (bar_stamp_of c) (ic_position c);
               c' = c\<lparr>ic_position := s\<rparr>
           in if lo_negative r then (c', [])
              else if lo_price r then (c', [])
              else (c', if outcome_applied r then fanout_positions F accounts before price c' else []))"

definition publish_all_positions :: "('d, 'f) fpx_scheme \<Rightarrow> 'd attached list option \<Rightarrow> 'd ictx \<Rightarrow> 'd action list" where
  "publish_all_positions F accounts c =
     (if \<not> ic_session c then []
      else case accounts of
             None \<Rightarrow> []
           | Some A \<Rightarrow> concat (map (\<lambda>a. publish_position a (logical_position F (ic_scaling c) (ps_net (ic_position c)) (at_scale a)) c) A))"

section \<open>Orders of the commands\<close>

datatype sync_outcome = Submitted | Skipped_Not_Live | Skipped_No_Market | Rejected_Volume

record sync_tally =
  sy_submitted :: int
  sy_skipped :: int
  sy_rejected :: int

definition no_tally :: sync_tally where
  "no_tally = \<lparr>sy_submitted = 0, sy_skipped = 0, sy_rejected = 0\<rparr>"

fun record_outcome :: "sync_outcome \<Rightarrow> sync_tally \<Rightarrow> sync_tally" where
  "record_outcome Submitted t = t\<lparr>sy_submitted := sy_submitted t + 1\<rparr>"
| "record_outcome Skipped_No_Market t = t\<lparr>sy_skipped := sy_skipped t + 1\<rparr>"
| "record_outcome Rejected_Volume t = t\<lparr>sy_rejected := sy_rejected t + 1\<rparr>"
| "record_outcome Skipped_Not_Live t = t"

definition has_problem :: "sync_tally \<Rightarrow> bool" where
  "has_problem t \<longleftrightarrow> sy_skipped t > 0 \<or> sy_rejected t > 0"

definition logical_position_for :: "('d, 'f) fpx_scheme \<Rightarrow> 'd attached \<Rightarrow> 'd ictx \<Rightarrow> int" where
  "logical_position_for F a c = logical_position F (ic_scaling c) (ps_net (ic_position c)) (at_scale a)"

definition logical_position_with_scale :: "('d, 'f) fpx_scheme \<Rightarrow> 'd \<Rightarrow> 'd ictx \<Rightarrow> int" where
  "logical_position_with_scale F scale c = logical_position F (ic_scaling c) (ps_net (ic_position c)) scale"

definition submit_sync_order :: "('d, 'f) fpx_scheme \<Rightarrow> 'd attached \<Rightarrow> int \<Rightarrow> bool \<Rightarrow> 'd ictx \<Rightarrow> sync_outcome \<times> 'd action list" where
  "submit_sync_order F a delta market c =
     (if \<not> ic_session c \<or> \<not> ic_live c then (Skipped_Not_Live, [])
      else let d = direction_of delta; plan = resolve_sync_price F d market (ic_tick c)
           in if \<not> sy_valid plan then (Skipped_No_Market, [])
              else case order_volume delta of
                     None \<Rightarrow> (Rejected_Volume, [Volume_Refused (at_id a) d delta])
                   | Some n \<Rightarrow> (Submitted, submit_order F a d n (sy_price plan) (sy_type plan) c))"

definition sync_close_account :: "('d, 'f) fpx_scheme \<Rightarrow> bool \<Rightarrow> 'd ictx \<Rightarrow> sync_tally \<times> 'd action list \<Rightarrow> 'd attached \<Rightarrow> sync_tally \<times> 'd action list" where
  "sync_close_account F market c p a =
     (let old_l = logical_position_for F a c
      in if old_l = 0 then p
         else let (r, es) = submit_sync_order F a (- old_l) market c in (record_outcome r (fst p), snd p @ es))"

definition submit_sync_close_orders :: "('d, 'f) fpx_scheme \<Rightarrow> 'd attached list option \<Rightarrow> bool \<Rightarrow> bool \<Rightarrow> 'd ictx \<Rightarrow> sync_tally \<times> 'd action list" where
  "submit_sync_close_orders F accounts sync market c =
     (if \<not> sync \<or> \<not> ic_session c \<or> \<not> ic_live c then (no_tally, [])
      else case accounts of None \<Rightarrow> (no_tally, []) | Some A \<Rightarrow> foldl (sync_close_account F market c) (no_tally, []) A)"

definition publish_zero_all_accounts :: "'d attached list option \<Rightarrow> 'd ictx \<Rightarrow> 'd action list" where
  "publish_zero_all_accounts accounts c =
     (if \<not> ic_session c then []
      else case accounts of None \<Rightarrow> [] | Some A \<Rightarrow> concat (map (\<lambda>a. publish_position a 0 c) A))"

definition publish_position_for :: "('d, 'f) fpx_scheme \<Rightarrow> 'd attached \<Rightarrow> 'd ictx \<Rightarrow> 'd action list" where
  "publish_position_for F a c = publish_position a (logical_position_for F a c) c"

definition publish_account_wildcard_zero :: "bool \<Rightarrow> 'd attached \<Rightarrow> 'd action list" where
  "publish_account_wildcard_zero session a = publish_position_to session (at_id a) None 0"

section \<open>Updates of parameters\<close>

definition note_callback_delivered :: "'d ictx \<Rightarrow> bool \<times> 'd ictx" where
  "note_callback_delivered c = (ic_pending c, c\<lparr>ic_stage := True\<rparr>)"

definition params_update_delivered :: "'d ictx \<Rightarrow> 'd ictx" where
  "params_update_delivered c = c\<lparr>ic_pending := False\<rparr>"

definition request_params_update :: "'d ictx \<Rightarrow> bool \<times> 'd ictx" where
  "request_params_update c = (if ic_stage c then (False, c) else (True, c\<lparr>ic_pending := True\<rparr>))"

definition update_tick :: "'d dz_tick \<Rightarrow> 'd ictx \<Rightarrow> 'd ictx" where
  "update_tick k c = c\<lparr>ic_tick := snapshot_from_tick k\<rparr>"

definition set_auction :: "bool \<Rightarrow> 'd ictx \<Rightarrow> 'd ictx" where
  "set_auction a c = c\<lparr>ic_auction := a\<rparr>"

definition set_live :: "bool \<Rightarrow> 'd ictx \<Rightarrow> 'd ictx" where
  "set_live l c = c\<lparr>ic_live := l\<rparr>"

definition mark_failed :: "'d ictx \<Rightarrow> 'd ictx" where
  "mark_failed c = c\<lparr>ic_failed := True\<rparr>"

end
