(* ===== verification/Bar_Facts.thy ===== *)
theory Bar_Facts
  imports Bar_Builder
begin

text \<open>
  What the bar builder guarantees: bars open, update and close in order, keep the extremes of their prices and split the
  volume of a day without loss.
\<close>

section \<open>One tick\<close>

text \<open>A comparison of doubles is a strict order, whatever they are.\<close>

definition fp_strict :: "('d, 'm) fp_scheme \<Rightarrow> bool" where
  "fp_strict F \<longleftrightarrow> (\<forall>x. \<not> fp_lt F x x) \<and> (\<forall>x y z. fp_lt F x y \<longrightarrow> fp_lt F y z \<longrightarrow> fp_lt F x z)"

lemma rat_fp_strict: "fp_strict rat_fp"
  by (auto simp: fp_strict_def)

text \<open>The first tick of a bar; an auction makes no difference yet.\<close>

definition fresh_bar :: "('d, 'm) fp_scheme \<Rightarrow> 'd dz_tick \<Rightarrow> int \<Rightarrow> int \<Rightarrow> 'd builder \<Rightarrow> 'd bar" where
  "fresh_bar F k s t b = update_auction_bar F k t (basis_of F (tk_date k) b) (empty_bar F (tk_date k) s (bb_period b))"

lemma begin_bar_fresh:
  "begin_bar F k s t a b =
     (b\<lparr>bb_bar := Some (fresh_bar F k s t b), bb_start_volume := fst (basis_of F (tk_date k) b),
        bb_start_turnover := snd (basis_of F (tk_date k) b), bb_restored := None, bb_auction_only := a\<rparr>, [Bar_Open (fresh_bar F k s t b) a])"
  by (simp add: begin_bar_def fresh_bar_def update_bar_def update_auction_bar_def Let_def)

lemma basis_final [simp]:
  "bb_bar b = Some x \<Longrightarrow> basis_of F d (b\<lparr>bb_bar := Some (x\<lparr>br_final := True\<rparr>)\<rparr>) = basis_of F d b"
  by (simp add: basis_of_def day_basis_def)

lemma basis_received [simp]: "basis_of F d (b\<lparr>bb_tick_received := r\<rparr>) = basis_of F d b"
  by (simp add: basis_of_def day_basis_def split: option.split)

lemma fresh_bar_cong [simp]:
  "fresh_bar F k s t (b\<lparr>bb_tick_received := r\<rparr>) = fresh_bar F k s t b"
  "bb_bar b = Some x \<Longrightarrow> fresh_bar F k s t (b\<lparr>bb_bar := Some (x\<lparr>br_final := True\<rparr>)\<rparr>) = fresh_bar F k s t b"
  by (simp_all add: fresh_bar_def)

text \<open>A later tick of the same bar.\<close>

definition grown_bar :: "('d, 'm) fp_scheme \<Rightarrow> 'd dz_tick \<Rightarrow> int \<Rightarrow> bool \<Rightarrow> 'd builder \<Rightarrow> 'd bar \<Rightarrow> 'd bar" where
  "grown_bar F k t a b x =
     (if a \<and> bb_auction_only b then update_auction_bar F k t (bar_start b) x else update_bar F k t (bar_start b) x)"

text \<open>A tick that is accepted: its time in the trading day, the start of its bucket, whether it belongs to an opening auction.\<close>

definition accepted :: "('d, 'm) fp_scheme \<Rightarrow> 'd dz_tick \<Rightarrow> 'd builder \<Rightarrow> int \<Rightarrow> int \<Rightarrow> bool \<Rightarrow> bool" where
  "accepted F k b t s a \<longleftrightarrow> 0 \<le> tk_time k \<and> tk_time k \<le> max_trading_sec \<and> t = from_clock (tk_time k) \<and> 0 < tk_date k \<and>
     \<not> goes_back k t b \<and> price_ok F (tk_last k) \<and> s = tb_begin (resolve_tick_bucket t (bb_table b) (bb_period b)) \<and>
     a = tb_open_auction (resolve_tick_bucket t (bb_table b) (bb_period b)) \<and>
     (a \<or> tb_in_session (resolve_tick_bucket t (bb_table b) (bb_period b))) \<and>
     restored_final_accepts k s b \<and> cumulative_basis_ok F k b"

lemma received_irrelevant [simp]:
  "goes_back k t (b\<lparr>bb_tick_received := r\<rparr>) = goes_back k t b"
  "restored_final_accepts k s (b\<lparr>bb_tick_received := r\<rparr>) = restored_final_accepts k s b"
  "cumulative_basis_ok F k (b\<lparr>bb_tick_received := r\<rparr>) = cumulative_basis_ok F k b"
  by (simp_all add: goes_back_def restored_final_accepts_def cumulative_basis_ok_def split: option.split)

lemma accepted_tick:
  assumes "accepted F k b t s a"
  shows "on_tick F k b =
    (if a then on_open_auction_tick F k t s (b\<lparr>bb_tick_received := True\<rparr>) else on_session_tick F k t s (b\<lparr>bb_tick_received := True\<rparr>))"
  using assms unfolding accepted_def by (elim conjE) (hypsubst, auto simp: on_tick_def Let_def)

text \<open>The three things a tick can do besides being dropped.\<close>

lemma advance_tick:
  "snd (if a then on_open_auction_tick F k t s b else on_session_tick F k t s b) =
    (case bb_bar b of
       None \<Rightarrow> [Bar_Open (fresh_bar F k s t b) a, Bar_Update (fresh_bar F k s t b) a]
     | Some x \<Rightarrow>
         if s \<noteq> br_begin x \<or> tk_date k \<noteq> br_date x
         then [Bar_Close (x\<lparr>br_final := True\<rparr>) a, Bar_Open (fresh_bar F k s t b) a, Bar_Update (fresh_bar F k s t b) a]
         else [Bar_Update (grown_bar F k t a b x) a])"
  "bb_bar (fst (if a then on_open_auction_tick F k t s b else on_session_tick F k t s b)) =
    (case bb_bar b of
       None \<Rightarrow> Some (fresh_bar F k s t b)
     | Some x \<Rightarrow> if s \<noteq> br_begin x \<or> tk_date k \<noteq> br_date x then Some (fresh_bar F k s t b) else Some (grown_bar F k t a b x))"
  "bar_start (fst (if a then on_open_auction_tick F k t s b else on_session_tick F k t s b)) =
    (case bb_bar b of
       None \<Rightarrow> basis_of F (tk_date k) b
     | Some x \<Rightarrow> if s \<noteq> br_begin x \<or> tk_date k \<noteq> br_date x then basis_of F (tk_date k) b else bar_start b)"
  by (simp_all add: on_open_auction_tick_def on_session_tick_def advance_bar_def begin_bar_fresh notify_update_def map_bar_def bar_start_def
      grown_bar_def split: option.split)

lemma keeps_table [simp]:
  "bb_table (fst (on_tick F k b)) = bb_table b" "bb_period (fst (on_tick F k b)) = bb_period b"
proof -
  have "bb_table (fst (if a then on_open_auction_tick F k t s u else on_session_tick F k t s u)) = bb_table u \<and>
      bb_period (fst (if a then on_open_auction_tick F k t s u else on_session_tick F k t s u)) = bb_period u" for a t s u
    by (simp add: on_open_auction_tick_def on_session_tick_def advance_bar_def begin_bar_fresh notify_update_def map_bar_def split: option.split)
  note this [of True] this [of False]
  then show "bb_table (fst (on_tick F k b)) = bb_table b" "bb_period (fst (on_tick F k b)) = bb_period b"
    by (simp_all add: on_tick_def Let_def out_of_session_def out_of_order_def bad_volume_def)
qed

lemma dropped_tick:
  assumes "\<And>t s a. \<not> accepted F k b t s a"
  shows "snd (on_tick F k b) = [] \<and> bb_bar (fst (on_tick F k b)) = bb_bar b \<and> bar_start (fst (on_tick F k b)) = bar_start b"
proof -
  let ?t = "from_clock (tk_time k)"
  let ?u = "resolve_tick_bucket ?t (bb_table b) (bb_period b)"
  have "\<not> accepted F k b ?t (tb_begin ?u) (tb_open_auction ?u)" by (rule assms)
  then show ?thesis
    by (auto simp: accepted_def on_tick_def Let_def out_of_session_def out_of_order_def bad_volume_def bar_start_def)
qed
lemma keeps_restored:
  assumes "snd (on_tick F k b) = []"
  shows "bb_restored (fst (on_tick F k b)) = bb_restored b"
proof -
  have "snd (if a then on_open_auction_tick F k t s u else on_session_tick F k t s u) \<noteq> []" for a t s u
    by (simp add: on_open_auction_tick_def on_session_tick_def advance_bar_def begin_bar_fresh notify_update_def map_bar_def split: option.split)
  note this [of True] this [of False]
  then show ?thesis using assms
    by (auto simp: on_tick_def Let_def out_of_session_def out_of_order_def bad_volume_def split: if_splits)
qed

section \<open>Buckets follow the time\<close>

lemma sessions_sorted:
  "sessions_valid ss \<Longrightarrow> sorted_wrt (\<lambda>s t. sn_end s < sn_begin t) ss \<and> (\<forall>s \<in> set ss. 0 \<le> sn_begin s \<and> sn_begin s < sn_end s)"
proof (induction ss rule: sessions_valid.induct)
  case (3 s t ss)
  then have "\<forall>u \<in> set ss. sn_end t < sn_begin u" "sn_begin t < sn_end t" by auto
  then show ?case using 3 by fastforce
qed auto

text \<open>A session and a window decide the time that is rounded down to the start of the bucket.\<close>

lemma session_bucket_spec:
  "sessions_valid ss \<Longrightarrow> session_bucket p t ss = Some u \<Longrightarrow>
   \<exists>s \<in> set ss. sn_begin s \<le> t \<and> t \<le> sn_end s \<and> tb_begin u = bucket_start p (if t = sn_end s then t - 1 else t) \<and> \<not> tb_open_auction u"
proof (induction ss)
  case (Cons s ss)
  have "sessions_valid ss" using Cons.prems(1) by (cases ss) auto
  then show ?case using Cons by (auto split: if_splits)
qed simp

lemma auction_bucket_spec:
  "auction_bucket p t ss ws = Some u \<Longrightarrow>
   \<exists>w \<in> set ws. aw_kind w = Auction_Open \<and> aw_begin w \<le> t \<and> t \<le> aw_end w \<and> tb_begin u = bucket_start p (sn_begin (ss ! nat (aw_session w))) \<and>
     tb_open_auction u"
  by (induction ws) (auto split: if_splits)

text \<open>An opening auction comes after the sessions before its own, and none is under way.\<close>

definition auctions_precede :: "session_table \<Rightarrow> bool" where
  "auctions_precede T \<longleftrightarrow> (\<forall>w \<in> set (se_auctions T). aw_kind w = Auction_Open \<longrightarrow>
     (\<forall>s \<in> set (se_sessions T). sn_end s < aw_begin w \<or> sn_begin (se_sessions T ! nat (aw_session w)) \<le> sn_begin s))"

lemma bucket_start_mono:
  assumes "0 < p" "0 \<le> t" "t \<le> u"
  shows "bucket_start p t \<le> bucket_start p u"
  using assms by (simp add: bucket_start_def cdiv_nonneg zdiv_mono1 mult_right_mono)

definition in_bucket :: "int \<Rightarrow> session_table \<Rightarrow> int \<Rightarrow> bool" where
  "in_bucket t T p \<longleftrightarrow> tb_open_auction (resolve_tick_bucket t T p) \<or> tb_in_session (resolve_tick_bucket t T p)"

lemma rounded_time:
  assumes "table_valid T" "in_bucket t T p"
  obtains (session) s where "s \<in> set (se_sessions T)" "sn_begin s \<le> t" "t \<le> sn_end s"
      "tb_begin (resolve_tick_bucket t T p) = bucket_start p (if t = sn_end s then t - 1 else t)"
  | (auction) w where "w \<in> set (se_auctions T)" "aw_kind w = Auction_Open" "aw_begin w \<le> t" "t \<le> aw_end w"
      "tb_begin (resolve_tick_bucket t T p) = bucket_start p (sn_begin (se_sessions T ! nat (aw_session w)))"
      "se_sessions T ! nat (aw_session w) \<in> set (se_sessions T)" "aw_end w < sn_begin (se_sessions T ! nat (aw_session w))"
proof (cases "auction_bucket p t (se_sessions T) (se_auctions T)")
  case (Some u)
  from auction_bucket_spec [OF this] obtain w where w: "w \<in> set (se_auctions T)" "aw_kind w = Auction_Open" "aw_begin w \<le> t" "t \<le> aw_end w"
    "tb_begin u = bucket_start p (sn_begin (se_sessions T ! nat (aw_session w)))" by auto
  have "auction_valid (se_sessions T) w" using assms(1) w(1) by (simp add: table_valid_def list_all_iff)
  then have "se_sessions T ! nat (aw_session w) \<in> set (se_sessions T)" "aw_end w < sn_begin (se_sessions T ! nat (aw_session w))"
    using w(2) by (auto simp: auction_valid_def Let_def)
  then show ?thesis using auction w Some by (simp add: resolve_tick_bucket_def)
next
  case None
  then obtain u where u: "session_bucket p t (se_sessions T) = Some u"
    using assms(2) by (auto simp: in_bucket_def resolve_tick_bucket_def split: option.splits)
  have "sessions_valid (se_sessions T)" using assms(1) by (simp add: table_valid_def)
  from session_bucket_spec [OF this u] show ?thesis using session None u by (auto simp: resolve_tick_bucket_def)
qed

lemma bucket_mono:
  assumes "table_valid T" "auctions_precede T" "0 < p" "in_bucket t T p" "in_bucket t' T p" "t \<le> t'"
  shows "tb_begin (resolve_tick_bucket t T p) \<le> tb_begin (resolve_tick_bucket t' T p)"
proof -
  have v: "sorted_wrt (\<lambda>s t. sn_end s < sn_begin t) (se_sessions T)" "\<forall>s \<in> set (se_sessions T). 0 \<le> sn_begin s \<and> sn_begin s < sn_end s"
    using sessions_sorted [of "se_sessions T"] assms(1) by (auto simp: table_valid_def)
  have apart: "s = s' \<or> sn_end s < sn_begin s' \<or> sn_end s' < sn_begin s" if "s \<in> set (se_sessions T)" "s' \<in> set (se_sessions T)" for s s'
  proof -
    from that obtain i j where "s = se_sessions T ! i" "i < length (se_sessions T)" "s' = se_sessions T ! j" "j < length (se_sessions T)"
      by (metis in_set_conv_nth)
    then show ?thesis using v(1) by (cases i j rule: linorder_cases) (auto simp: sorted_wrt_iff_nth_less)
  qed
  note pre = assms(2) [unfolded auctions_precede_def, rule_format]
  show ?thesis
    using assms(1,4)
  proof (cases rule: rounded_time)
    case s: (session s)
    show ?thesis
      using assms(1,5)
    proof (cases rule: rounded_time)
      case (session s')
      have b: "sn_begin s < sn_end s" "sn_begin s' < sn_end s'" "0 \<le> sn_begin s" using v(2) s session by auto
      have "(if t = sn_end s then t - 1 else t) \<le> (if t' = sn_end s' then t' - 1 else t')"
        using apart [OF s(1) session(1)] s session b assms(6) by (auto split: if_splits)
      moreover have "0 \<le> (if t = sn_end s then t - 1 else t)" using s b by auto
      ultimately show ?thesis using s session bucket_start_mono [OF assms(3)] by simp
    next
      case (auction w)
      have "(if t = sn_end s then t - 1 else t) \<le> sn_begin (se_sessions T ! nat (aw_session w))" using auction assms(6) by auto
      moreover have "0 \<le> (if t = sn_end s then t - 1 else t)" using s v(2) by force
      ultimately show ?thesis using s auction bucket_start_mono [OF assms(3)] by simp
    qed
  next
    case w: (auction w)
    have b: "0 \<le> sn_begin (se_sessions T ! nat (aw_session w))" using v(2) w by auto
    show ?thesis
      using assms(1,5)
    proof (cases rule: rounded_time)
      case (session s')
      have "sn_begin (se_sessions T ! nat (aw_session w)) \<le> sn_begin s'" using pre [OF w(1,2) session(1)] w session assms(6) by auto
      then have "sn_begin (se_sessions T ! nat (aw_session w)) \<le> (if t' = sn_end s' then t' - 1 else t')"
        using session v(2) by force
      then show ?thesis using w session b bucket_start_mono [OF assms(3)] by simp
    next
      case (auction w')
      have "sn_begin (se_sessions T ! nat (aw_session w)) \<le> sn_begin (se_sessions T ! nat (aw_session w'))"
        using pre [OF w(1,2) auction(6)] auction w v(2) assms(6) by force
      then show ?thesis using w auction b bucket_start_mono [OF assms(3)] by simp
    qed
  qed
qed
section \<open>Runs\<close>

text \<open>The identity of a bar: its trading day and its start.\<close>

definition bar_id :: "'d bar \<Rightarrow> int \<times> int" where
  "bar_id x = (br_date x, br_begin x)"

definition id_less :: "int \<times> int \<Rightarrow> int \<times> int \<Rightarrow> bool" where
  "id_less i j \<longleftrightarrow> fst i < fst j \<or> fst i = fst j \<and> snd i < snd j"

text \<open>
  Open, updates, close, and then the next bar opens, which is related by \<open>R\<close> to the one before: another one, or a later one.
  The second argument is the bar that is open.
\<close>

fun bracketed :: "(int \<times> int \<Rightarrow> int \<times> int \<Rightarrow> bool) \<Rightarrow> (int \<times> int) option \<Rightarrow> 'd bar_event list \<Rightarrow> bool" where
  "bracketed R c [] \<longleftrightarrow> True"
| "bracketed R c (Bar_Open y a # es) \<longleftrightarrow> c = None \<and> \<not> br_final y \<and> bracketed R (Some (bar_id y)) es"
| "bracketed R c (Bar_Update y a # es) \<longleftrightarrow> c = Some (bar_id y) \<and> \<not> br_final y \<and> bracketed R c es"
| "bracketed R c (Bar_Close y a # Bar_Open z d # es) \<longleftrightarrow> c = Some (bar_id y) \<and> br_final y \<and> R (bar_id y) (bar_id z) \<and>
     \<not> br_final z \<and> bracketed R (Some (bar_id z)) es"
| "bracketed R c (Bar_Close y a # es) \<longleftrightarrow> False"

definition other :: "int \<times> int \<Rightarrow> int \<times> int \<Rightarrow> bool" where
  "other i j \<longleftrightarrow> i \<noteq> j"

definition open_id :: "'d builder \<Rightarrow> (int \<times> int) option" where
  "open_id b = map_option bar_id (bb_bar b)"

text \<open>What a run keeps: its current bar is where the last tick belongs, and not final.\<close>

definition builder_ok :: "'d builder \<Rightarrow> bool" where
  "builder_ok b \<longleftrightarrow> 0 < bb_period b \<and> table_valid (bb_table b) \<and>
     (\<forall>x. bb_bar b = Some x \<longrightarrow> \<not> br_final x \<and> in_bucket (br_last_tick x) (bb_table b) (bb_period b) \<and>
        br_begin x = tb_begin (resolve_tick_bucket (br_last_tick x) (bb_table b) (bb_period b)))"

lemma fresh_fields [simp]:
  "br_date (fresh_bar F k s t b) = tk_date k" "br_begin (fresh_bar F k s t b) = s" "br_last_tick (fresh_bar F k s t b) = t"
  "\<not> br_final (fresh_bar F k s t b)" "br_cum_volume (fresh_bar F k s t b) = tk_volume k"
  "br_volume (fresh_bar F k s t b) = tk_volume k - fst (basis_of F (tk_date k) b)"
  "br_open (fresh_bar F k s t b) = tk_last k" "br_high (fresh_bar F k s t b) = tk_last k" "br_low (fresh_bar F k s t b) = tk_last k"
  "br_close (fresh_bar F k s t b) = tk_last k" "br_period (fresh_bar F k s t b) = bb_period b"
  by (simp_all add: fresh_bar_def update_auction_bar_def update_market_data_def empty_bar_def)

lemma grown_fields [simp]:
  "br_date (grown_bar F k t a b x) = br_date x" "br_begin (grown_bar F k t a b x) = br_begin x" "br_last_tick (grown_bar F k t a b x) = t"
  "br_final (grown_bar F k t a b x) = br_final x" "br_cum_volume (grown_bar F k t a b x) = tk_volume k"
  "br_volume (grown_bar F k t a b x) = tk_volume k - fst (bar_start b)" "br_close (grown_bar F k t a b x) = tk_last k"
  "br_period (grown_bar F k t a b x) = br_period x"
  by (simp_all add: grown_bar_def update_auction_bar_def update_bar_def update_market_data_def)

text \<open>Case analysis on a tick.\<close>

lemma tick_cases:
  obtains (dropped) "snd (on_tick F k b) = []" "bb_bar (fst (on_tick F k b)) = bb_bar b" "bar_start (fst (on_tick F k b)) = bar_start b"
  | (first) t s a where "accepted F k b t s a" "bb_bar b = None"
      "snd (on_tick F k b) = [Bar_Open (fresh_bar F k s t b) a, Bar_Update (fresh_bar F k s t b) a]"
      "bb_bar (fst (on_tick F k b)) = Some (fresh_bar F k s t b)" "bar_start (fst (on_tick F k b)) = basis_of F (tk_date k) b"
  | (next_bar) t s a x where "accepted F k b t s a" "bb_bar b = Some x" "s \<noteq> br_begin x \<or> tk_date k \<noteq> br_date x"
      "snd (on_tick F k b) = [Bar_Close (x\<lparr>br_final := True\<rparr>) a, Bar_Open (fresh_bar F k s t b) a, Bar_Update (fresh_bar F k s t b) a]"
      "bb_bar (fst (on_tick F k b)) = Some (fresh_bar F k s t b)" "bar_start (fst (on_tick F k b)) = basis_of F (tk_date k) b"
  | (same) t s a x where "accepted F k b t s a" "bb_bar b = Some x" "s = br_begin x" "tk_date k = br_date x"
      "snd (on_tick F k b) = [Bar_Update (grown_bar F k t a b x) a]"
      "bb_bar (fst (on_tick F k b)) = Some (grown_bar F k t a b x)" "bar_start (fst (on_tick F k b)) = bar_start b"
proof (cases "\<exists>t s a. accepted F k b t s a")
  case False
  then show ?thesis using dropped dropped_tick by metis
next
  case True
  then obtain t s a where acc: "accepted F k b t s a" by blast
  let ?b = "b\<lparr>bb_tick_received := True\<rparr>"
  have g: "grown_bar F k t a ?b = grown_bar F k t a b" by (simp add: grown_bar_def bar_start_def fun_eq_iff)
  have bs: "bar_start ?b = bar_start b" by (simp add: bar_start_def)
  note tick = advance_tick [where b = ?b and F = F and k = k and a = a and t = t and s = s, folded accepted_tick [OF acc], unfolded g bs, simplified]
  show ?thesis
  proof (cases "bb_bar b")
    case None
    then show ?thesis using first [OF acc] tick by simp
  next
    case (Some x)
    then show ?thesis using next_bar [OF acc Some] same [OF acc Some] tick by (cases "s \<noteq> br_begin x \<or> tk_date k \<noteq> br_date x") auto
  qed
qed

lemma accepted_bucket:
  "accepted F k b t s a \<Longrightarrow> in_bucket t (bb_table b) (bb_period b) \<and> s = tb_begin (resolve_tick_bucket t (bb_table b) (bb_period b))"
  by (auto simp: accepted_def in_bucket_def)

lemma tick_ok: "builder_ok b \<Longrightarrow> builder_ok (fst (on_tick F k b))"
  using accepted_bucket [of F k b] by (cases rule: tick_cases [of F k b]) (auto simp: builder_ok_def)

lemma later_bar:
  assumes "builder_ok b" "auctions_precede (bb_table b)" "bb_bar b = Some x" "accepted F k b t s a" "s \<noteq> br_begin x \<or> tk_date k \<noteq> br_date x"
  shows "id_less (bar_id x) (tk_date k, s)"
proof -
  have g: "br_date x < tk_date k \<or> br_date x = tk_date k \<and> br_last_tick x \<le> t"
    using assms(3,4) by (auto simp: accepted_def goes_back_def)
  moreover have "br_begin x \<le> s" if "br_last_tick x \<le> t"
    using bucket_mono [OF _ assms(2) _ _ _ that] accepted_bucket [OF assms(4)] assms(1,3) by (auto simp: builder_ok_def)
  ultimately show ?thesis using assms(5) by (auto simp: id_less_def bar_id_def)
qed

lemma bracketed_append:
  "bracketed R c es \<Longrightarrow> bracketed R (case es of [] \<Rightarrow> c | _ \<Rightarrow> Some i) fs \<Longrightarrow>
   (es \<noteq> [] \<Longrightarrow> \<exists>y a. last es = Bar_Update y a \<and> bar_id y = i) \<Longrightarrow> bracketed R c (es @ fs)"
  by (induction R c es rule: bracketed.induct) (auto split: list.splits if_splits)
lemma run_Nil [simp]: "run_ticks F [] b = (b, [])"
  by (simp add: run_ticks_def)

lemma run_snoc:
  "run_ticks F (ks @ [k]) b =
     (fst (on_tick F k (fst (run_ticks F ks b))), snd (run_ticks F ks b) @ snd (on_tick F k (fst (run_ticks F ks b))))"
  by (simp add: run_ticks_def feed_def split: prod.split)

lemma run_table [simp]:
  "bb_table (fst (run_ticks F ks b)) = bb_table b" "bb_period (fst (run_ticks F ks b)) = bb_period b"
  by (induction ks rule: rev_induct) (simp_all add: run_snoc)

lemma run_builder_ok: "builder_ok b \<Longrightarrow> builder_ok (fst (run_ticks F ks b))"
  by (induction ks rule: rev_induct) (simp_all add: run_snoc tick_ok)

lemma new_builder_ok: "new_builder F T p = Some b \<Longrightarrow> builder_ok b \<and> bb_table b = T \<and> bb_bar b = None \<and> bb_restored b = None"
  by (auto simp: new_builder_def builder_ok_def split: if_splits)

text \<open>After a tick that caused events the current bar is the one of the last update.\<close>

lemma last_event:
  "snd (on_tick F k b) \<noteq> [] \<Longrightarrow> \<exists>y a. last (snd (on_tick F k b)) = Bar_Update y a \<and> bb_bar (fst (on_tick F k b)) = Some y"
  by (cases rule: tick_cases [of F k b]) auto

text \<open>The next bar is another one for every table, and later for one whose auctions precede.\<close>

definition next_bar_rule :: "session_table \<Rightarrow> (int \<times> int \<Rightarrow> int \<times> int \<Rightarrow> bool) \<Rightarrow> bool" where
  "next_bar_rule T R \<longleftrightarrow> R = other \<or> auctions_precede T \<and> R = id_less"

lemma tick_bracketed:
  assumes "builder_ok b" "next_bar_rule (bb_table b) R"
  shows "bracketed R (open_id b) (snd (on_tick F k b))"
proof (cases rule: tick_cases [of F k b])
  case (next_bar t s a x)
  have "R (bar_id x) (tk_date k, s)"
    using assms(2) later_bar [OF assms(1) _ next_bar(2,1,3)] next_bar(3) by (auto simp: next_bar_rule_def other_def bar_id_def)
  then show ?thesis using next_bar by (simp add: open_id_def bar_id_def)
next
  case (same t s a x)
  then show ?thesis using assms(1) by (simp add: open_id_def bar_id_def builder_ok_def)
qed (simp_all add: open_id_def)

lemma run_bracketed:
  assumes "builder_ok b" "next_bar_rule (bb_table b) R"
  shows "bracketed R (open_id b) (snd (run_ticks F ks b)) \<and>
    (if snd (run_ticks F ks b) = [] then bb_bar (fst (run_ticks F ks b)) = bb_bar b
     else \<exists>y a. last (snd (run_ticks F ks b)) = Bar_Update y a \<and> bb_bar (fst (run_ticks F ks b)) = Some y)"
proof (induction ks rule: rev_induct)
  case (snoc k ks)
  let ?u = "fst (run_ticks F ks b)" and ?es = "snd (run_ticks F ks b)"
  have u: "builder_ok ?u" "next_bar_rule (bb_table ?u) R" using run_builder_ok [OF assms(1)] assms(2) by simp_all
  have t: "bracketed R (open_id ?u) (snd (on_tick F k ?u))" by (rule tick_bracketed [OF u])
  have o: "open_id ?u = (case ?es of [] \<Rightarrow> open_id b | _ \<Rightarrow> open_id ?u)"
    using snoc by (cases ?es) (simp_all add: open_id_def)
  have "bracketed R (open_id b) (?es @ snd (on_tick F k ?u))"
  proof (cases "?es = []")
    case True
    then show ?thesis using t o by simp
  next
    case False
    then obtain y a where y: "last ?es = Bar_Update y a" "bb_bar ?u = Some y" using snoc by auto
    show ?thesis by (rule bracketed_append [where i = "bar_id y"]) (use snoc False y t in \<open>auto simp: open_id_def split: list.split\<close>)
  qed
  moreover have "if ?es @ snd (on_tick F k ?u) = [] then bb_bar (fst (on_tick F k ?u)) = bb_bar b
     else \<exists>y a. last (?es @ snd (on_tick F k ?u)) = Bar_Update y a \<and> bb_bar (fst (on_tick F k ?u)) = Some y"
  proof (cases "snd (on_tick F k ?u) = []")
    case True
    then have "bb_bar (fst (on_tick F k ?u)) = bb_bar ?u" by (cases rule: tick_cases [of F k ?u]) simp_all
    with True show ?thesis using conjunct2 [OF snoc.IH] by (auto split: if_splits)
  next
    case False
    then show ?thesis using last_event [OF False] by simp
  qed
  ultimately show ?case unfolding run_snoc fst_conv snd_conv by (rule conjI)
qed simp

section \<open>Volumes\<close>

definition closed_volume :: "int \<Rightarrow> 'd bar_event list \<Rightarrow> int" where
  "closed_volume d es = sum_list (map (\<lambda>e. case e of Bar_Close y a \<Rightarrow> if br_date y = d then br_volume y else 0 | _ \<Rightarrow> 0) es)"

definition open_volume :: "int \<Rightarrow> 'd builder \<Rightarrow> int" where
  "open_volume d b = (case bb_bar b of None \<Rightarrow> 0 | Some x \<Rightarrow> if br_date x = d then br_volume x else 0)"

text \<open>The cumulative volume of a day that the last update of the day reports.\<close>

fun last_cum :: "int \<Rightarrow> 'd bar_event list \<Rightarrow> int \<Rightarrow> int" where
  "last_cum d [] v = v"
| "last_cum d (Bar_Update y a # es) v = last_cum d es (if br_date y = d then br_cum_volume y else v)"
| "last_cum d (e # es) v = last_cum d es v"

lemma last_cum_append [simp]: "last_cum d (es @ fs) v = last_cum d fs (last_cum d es v)"
  by (induction d es v rule: last_cum.induct) simp_all

lemma closed_volume_simps [simp]:
  "closed_volume d [] = 0" "closed_volume d (es @ fs) = closed_volume d es + closed_volume d fs"
  "closed_volume d (Bar_Close y a # es) = (if br_date y = d then br_volume y else 0) + closed_volume d es"
  "closed_volume d (Bar_Open y a # es) = closed_volume d es" "closed_volume d (Bar_Update y a # es) = closed_volume d es"
  by (simp_all add: closed_volume_def)

text \<open>
  The ticks a run accepts, in order: those that pass every check of \<open>on_tick\<close> in the state they meet. The cumulative volume
  of a day as the feed reports it is that of the last of them that belongs to the day.
\<close>

definition admitted :: "('d, 'm) fp_scheme \<Rightarrow> 'd dz_tick \<Rightarrow> 'd builder \<Rightarrow> bool" where
  "admitted F k b \<longleftrightarrow> accepted F k b (from_clock (tk_time k)) (tb_begin (resolve_tick_bucket (from_clock (tk_time k)) (bb_table b) (bb_period b)))
     (tb_open_auction (resolve_tick_bucket (from_clock (tk_time k)) (bb_table b) (bb_period b)))"

fun admitted_ticks :: "('d, 'm) fp_scheme \<Rightarrow> 'd dz_tick list \<Rightarrow> 'd builder \<Rightarrow> 'd dz_tick list" where
  "admitted_ticks F [] b = []"
| "admitted_ticks F (k # ks) b = (if admitted F k b then [k] else []) @ admitted_ticks F ks (fst (on_tick F k b))"

definition reported_volume :: "int \<Rightarrow> 'd dz_tick list \<Rightarrow> int" where
  "reported_volume d ks = (let ls = filter (\<lambda>k. tk_date k = d) ks in if ls = [] then 0 else tk_volume (last ls))"

lemma accepted_admitted: "accepted F k b t s a \<Longrightarrow> admitted F k b"
  by (auto simp: accepted_def admitted_def)

lemma tick_reports: "last_cum d (snd (on_tick F k b)) v = (if admitted F k b \<and> tk_date k = d then tk_volume k else v)"
proof (cases "admitted F k b")
  case True
  then obtain t s a where "accepted F k b t s a" by (auto simp: admitted_def)
  note e = accepted_tick [OF this] advance_tick(1) [of a F k t s "b\<lparr>bb_tick_received := True\<rparr>"]
  show ?thesis using True by (auto simp: e split: option.split)
next
  case False
  then have "snd (on_tick F k b) = []" using dropped_tick [of F k b] accepted_admitted by blast
  with False show ?thesis by simp
qed

lemma fst_run_Cons: "fst (run_ticks F (k # ks) b) = fst (run_ticks F ks (fst (on_tick F k b)))"
  by (induction ks rule: rev_induct) (simp_all add: run_snoc [of F "k # _", simplified] run_snoc, simp add: run_ticks_def feed_def split: prod.split)

lemma admitted_snoc:
  "admitted_ticks F (ks @ [k]) b = admitted_ticks F ks b @ (if admitted F k (fst (run_ticks F ks b)) then [k] else [])"
  by (induction ks arbitrary: b) (simp_all add: fst_run_Cons)

lemma run_reports: "last_cum d (snd (run_ticks F ks b)) 0 = reported_volume d (admitted_ticks F ks b)"
  by (induction ks rule: rev_induct) (simp_all add: run_snoc admitted_snoc tick_reports reported_volume_def Let_def)

definition volume_inv :: "'d builder \<Rightarrow> 'd bar_event list \<Rightarrow> bool" where
  "volume_inv b es \<longleftrightarrow> (\<forall>d. closed_volume d es + open_volume d b = last_cum d es 0) \<and>
     (case bb_bar b of
        None \<Rightarrow> bb_restored b = None \<and> (\<forall>d. last_cum d es 0 = 0)
      | Some x \<Rightarrow> br_volume x = br_cum_volume x - fst (bar_start b) \<and> last_cum (br_date x) es 0 = br_cum_volume x \<and>
          (\<forall>d > br_date x. last_cum d es 0 = 0))"

lemma basis_same: "bb_bar b = Some x \<Longrightarrow> basis_of F d b = (if br_date x = d then (br_cum_volume x, br_cum_turnover x) else (0, fp_zero F))"
  by (simp add: basis_of_def day_basis_def)

lemma tick_restored: "bb_restored b = None \<Longrightarrow> bb_restored (fst (on_tick F k b)) = None"
proof -
  assume r: "bb_restored b = None"
  have "bb_restored (fst (if a then on_open_auction_tick F k t s u else on_session_tick F k t s u)) = None" if "bb_restored u = None" for a t s u
    using that by (simp add: on_open_auction_tick_def on_session_tick_def advance_bar_def begin_bar_fresh notify_update_def map_bar_def split: option.split)
  note this [of _ True] this [of _ False]
  then show ?thesis using r by (simp add: on_tick_def Let_def out_of_session_def out_of_order_def bad_volume_def)
qed

lemma volume_step:
  assumes "volume_inv b es"
  shows "volume_inv (fst (on_tick F k b)) (es @ snd (on_tick F k b))"
proof (cases rule: tick_cases [of F k b])
  case dropped
  then show ?thesis using assms tick_restored [of b F k] by (auto simp: volume_inv_def open_volume_def split: option.splits)
next
  case (first t s a)
  then have "basis_of F (tk_date k) b = (0, fp_zero F)" using assms by (simp add: volume_inv_def basis_of_def day_basis_def)
  then show ?thesis using first assms by (auto simp: volume_inv_def open_volume_def)
next
  case (next_bar t s a x)
  have le: "br_date x \<le> tk_date k" using next_bar(1,2) by (auto simp: accepted_def goes_back_def)
  have c: "closed_volume d es + (if br_date x = d then br_volume x else 0) = last_cum d es 0" for d
    using assms next_bar(2) by (simp add: volume_inv_def open_volume_def)
  have v: "last_cum (br_date x) es 0 = br_cum_volume x" "\<forall>d > br_date x. last_cum d es 0 = 0"
    using assms next_bar(2) by (simp_all add: volume_inv_def)
  have z: "last_cum (tk_date k) es 0 = 0" if "br_date x \<noteq> tk_date k" using v(2) le that by simp
  have bs: "fst (basis_of F (tk_date k) b) = (if br_date x = tk_date k then br_cum_volume x else 0)"
    by (simp add: basis_same [OF next_bar(2)])
  have day: "closed_volume d es + (if br_date x = d then br_volume x else 0) +
      (if tk_date k = d then tk_volume k - fst (basis_of F (tk_date k) b) else 0) = (if tk_date k = d then tk_volume k else last_cum d es 0)" for d
    using c [of "tk_date k"] c [of d] v(1) z by (cases "br_date x = tk_date k") (auto simp: bs)
  have later: "last_cum d es 0 = 0" if "tk_date k < d" for d using v(2) le that by simp
  have goal_day: "closed_volume d (es @ snd (on_tick F k b)) + open_volume d (fst (on_tick F k b)) = last_cum d (es @ snd (on_tick F k b)) 0" for d
    using day [of d] by (cases "tk_date k = d"; cases "br_date x = d") (simp_all add: open_volume_def next_bar(4-))
  show ?thesis unfolding volume_inv_def using goal_day later by (simp add: next_bar(4-))
next
  case (same t s a x)
  have c: "closed_volume d es + (if br_date x = d then br_volume x else 0) = last_cum d es 0" for d
    using assms same(2) by (simp add: volume_inv_def open_volume_def)
  have v: "br_volume x = br_cum_volume x - fst (bar_start b)" "last_cum (br_date x) es 0 = br_cum_volume x" "\<forall>d > br_date x. last_cum d es 0 = 0"
    using assms same(2) by (simp_all add: volume_inv_def)
  have day: "closed_volume d (es @ snd (on_tick F k b)) + open_volume d (fst (on_tick F k b)) = last_cum d (es @ snd (on_tick F k b)) 0" for d
    using c [of d] v(1,2) by (cases "br_date x = d") (simp_all add: open_volume_def same(5-))
  show ?thesis unfolding volume_inv_def using day v(3) by (simp add: same(5-))
qed

lemma run_volume: "volume_inv b [] \<Longrightarrow> volume_inv (fst (run_ticks F ks b)) (snd (run_ticks F ks b))"
  by (induction ks rule: rev_induct) (simp_all add: run_snoc volume_step)
lemma new_volume: "new_builder F T p = Some b \<Longrightarrow> volume_inv b []"
  using new_builder_ok [of F T p b] by (simp add: volume_inv_def open_volume_def)

section \<open>Prices and volumes of a bar\<close>

definition prices_ordered :: "('d, 'm) fp_scheme \<Rightarrow> 'd bar \<Rightarrow> bool" where
  "prices_ordered F x \<longleftrightarrow> \<not> fp_lt F (br_open x) (br_low x) \<and> \<not> fp_lt F (br_high x) (br_open x) \<and>
     \<not> fp_lt F (br_close x) (br_low x) \<and> \<not> fp_lt F (br_high x) (br_close x) \<and> \<not> fp_lt F (br_high x) (br_low x)"

definition bar_sane :: "('d, 'm) fp_scheme \<Rightarrow> 'd bar \<Rightarrow> bool" where
  "bar_sane F x \<longleftrightarrow> prices_ordered F x \<and> 0 \<le> br_volume x \<and> br_volume x \<le> br_cum_volume x"

fun event_bar :: "'d bar_event \<Rightarrow> 'd bar" where
  "event_bar (Bar_Open x a) = x"
| "event_bar (Bar_Update x a) = x"
| "event_bar (Bar_Close x a) = x"

definition sane_inv :: "('d, 'm) fp_scheme \<Rightarrow> 'd builder \<Rightarrow> bool" where
  "sane_inv F b \<longleftrightarrow> (case bb_bar b of
     None \<Rightarrow> (case bb_restored b of None \<Rightarrow> True | Some x \<Rightarrow> 0 \<le> br_cum_volume x)
   | Some x \<Rightarrow> bar_sane F x \<and> 0 \<le> fst (bar_start b) \<and> fst (bar_start b) \<le> br_cum_volume x)"

lemma sane_final [simp]: "bar_sane F (x\<lparr>br_final := f\<rparr>) = bar_sane F x"
  by (simp add: bar_sane_def prices_ordered_def)

lemma basis_nonneg: "sane_inv F b \<Longrightarrow> 0 \<le> fst (basis_of F d b)"
  by (auto simp: sane_inv_def basis_of_def day_basis_def bar_sane_def split: option.splits)

lemma accepted_volume: "accepted F k b t s a \<Longrightarrow> fst (basis_of F (tk_date k) b) \<le> tk_volume k"
  by (simp add: accepted_def cumulative_basis_ok_def split: prod.splits)

lemma fresh_sane:
  assumes "fp_strict F" "sane_inv F b" "accepted F k b t s a"
  shows "bar_sane F (fresh_bar F k s t b)"
  using assms(1) basis_nonneg [OF assms(2), of "tk_date k"] accepted_volume [OF assms(3)]
  by (simp add: bar_sane_def prices_ordered_def fp_strict_def)

lemma grown_prices:
  assumes "fp_strict F" "prices_ordered F x"
  shows "prices_ordered F (grown_bar F k t a b x)"
proof -
  have i: "\<not> fp_lt F p p" for p using assms(1) by (simp add: fp_strict_def)
  have t: "fp_lt F p r" if "fp_lt F p q" "fp_lt F q r" for p q r using assms(1) that unfolding fp_strict_def by blast
  have g: "prices_ordered F (y\<lparr>br_last_tick := u, br_volume := v, br_turnover := w, br_cum_volume := m, br_cum_turnover := n, br_oi := j\<rparr>) = prices_ordered F y"
    for y u v w m n j by (simp add: prices_ordered_def)
  have "prices_ordered F (x\<lparr>br_high := (if fp_lt F (br_high x) p then p else br_high x), br_low := (if fp_lt F p (br_low x) then p else br_low x), br_close := p\<rparr>)" for p
    using assms(2) i [of p] t [of "br_high x" p "br_open x"] t [of "br_open x" p "br_low x"] t [of "br_high x" p "br_low x"]
    by (cases "fp_lt F (br_high x) p"; cases "fp_lt F p (br_low x)") (simp_all add: prices_ordered_def, blast+)
  then show ?thesis
    using i by (simp add: grown_bar_def update_auction_bar_def update_bar_def update_market_data_def g) (simp add: prices_ordered_def)
qed

lemma tick_sane:
  assumes "fp_strict F" "sane_inv F b"
  shows "sane_inv F (fst (on_tick F k b)) \<and> list_all (bar_sane F \<circ> event_bar) (snd (on_tick F k b))"
proof (cases rule: tick_cases [of F k b])
  case dropped
  have "bb_bar b = None \<Longrightarrow> bb_restored (fst (on_tick F k b)) = bb_restored b"
    using dropped by (auto simp: keeps_restored)
  then show ?thesis using dropped assms(2) by (cases "bb_bar b") (auto simp: sane_inv_def split: option.splits)
next
  case (first t s a)
  then show ?thesis using fresh_sane [OF assms first(1)] basis_nonneg [OF assms(2)] accepted_volume [OF first(1)]
    by (simp add: sane_inv_def)
next
  case (next_bar t s a x)
  then show ?thesis using fresh_sane [OF assms next_bar(1)] basis_nonneg [OF assms(2)] accepted_volume [OF next_bar(1)] assms(2)
    by (simp add: sane_inv_def)
next
  case (same t s a x)
  have i: "bar_sane F x" "0 \<le> fst (bar_start b)" "fst (bar_start b) \<le> br_cum_volume x"
    using assms(2) same(2) by (simp_all add: sane_inv_def)
  have v: "br_cum_volume x \<le> tk_volume k" using accepted_volume [OF same(1)] same(4) by (simp add: basis_same [OF same(2)])
  have "bar_sane F (grown_bar F k t a b x)"
    using grown_prices [OF assms(1), of x k t a b] i v by (simp add: bar_sane_def)
  then show ?thesis using same(5-) i v by (simp add: sane_inv_def)
qed

lemma run_sane:
  "fp_strict F \<Longrightarrow> sane_inv F b \<Longrightarrow>
   sane_inv F (fst (run_ticks F ks b)) \<and> list_all (bar_sane F \<circ> event_bar) (snd (run_ticks F ks b))"
  by (induction ks rule: rev_induct) (simp_all add: run_snoc tick_sane)

end
