(* ===== verification/Bar_Account.thy ===== *)
theory Bar_Account
  imports Bar_Context Bar_Facts
begin

text \<open>
  What the ledger and the orders guarantee: intents reach their targets and nothing else moves the ledger, and the orders
  and reports of an account follow its share of the position.
\<close>

section \<open>Targets\<close>

text \<open>The position an intent leads to: an entry turns first, an exit never passes zero.\<close>

fun intent_goal :: "intent \<Rightarrow> int \<Rightarrow> int \<Rightarrow> int" where
  "intent_goal Buy n p = max p 0 + n"
| "intent_goal Sell_Short n p = min p 0 - n"
| "intent_goal Sell n p = (if p \<le> 0 then p else if n = 0 then 0 else max 0 (p - n))"
| "intent_goal Buy_To_Cover n p = (if p \<ge> 0 then p else if n = 0 then 0 else min 0 (p + n))"

lemma target_goal: "0 \<le> n \<Longrightarrow> rs_target (resolve_target i n p) = intent_goal i n p"
  by (cases i) (auto simp: resolve_target_def Let_def)

lemma ledger_net [simp]: "ps_net (apply_ledger F p q price b s) = q"
  by (simp add: apply_ledger_def Let_def)

lemma outcome_cases:
  obtains (kept) r where "apply_intent F i n price b s = (r, s)" "lo_after r = lo_before r"
  | (moved) r where "0 \<le> n" "price_ok F price" "rs_target (resolve_target i n (ps_net s)) \<noteq> ps_net s"
      "apply_intent F i n price b s = (r, apply_ledger F (ps_net s) (rs_target (resolve_target i n (ps_net s))) price b s)"
      "lo_before r = ps_net s" "lo_after r = rs_target (resolve_target i n (ps_net s))" "\<not> lo_negative r" "\<not> lo_price r"
  by (fastforce simp: apply_intent_def Let_def price_ok_def split: if_splits)

section \<open>The ledger\<close>

definition ledger_ok :: "('d, 'f) fp_scheme \<Rightarrow> 'd position_state \<Rightarrow> bool" where
  "ledger_ok F s \<longleftrightarrow> (ps_entries s = 0 \<longleftrightarrow> ps_net s = 0) \<and> 0 \<le> ps_entries s \<and> ps_entries s \<le> ps_max_entries s \<and>
     \<bar>ps_net s\<bar> \<le> ps_max_contracts s \<and> (ps_net s = 0 \<longrightarrow> ps_avg s = fp_zero F \<and> ps_entry_bar s = -1 \<and> ps_last_bar s = -1)"

lemma flat_ok: "ledger_ok F (flat_state F)"
  by (simp add: ledger_ok_def flat_state_def)

lemmas ledger_marks = mark_exit_def mark_last_entry_def mark_flat_def mark_entry_def mark_added_def

lemma abs_volume_abs [simp]: "abs_volume v = \<bar>v\<bar>"
  by (simp add: abs_volume_def)

lemma ledger_ok_step:
  assumes "ledger_ok F s" "q \<noteq> ps_net s"
  shows "ledger_ok F (apply_ledger F (ps_net s) q price b s)"
proof (cases "q = 0 \<or> \<not> same_side (ps_net s) q")
  case True
  then show ?thesis using assms by (auto simp: ledger_ok_def apply_ledger_def Let_def ledger_marks)
next
  case False
  then have "ps_net s \<noteq> 0" "q \<noteq> 0" by (auto simp: same_side_def)
  then show ?thesis using False assms by (auto simp: ledger_ok_def apply_ledger_def Let_def ledger_marks)
qed
lemma intent_ok: "ledger_ok F s \<Longrightarrow> ledger_ok F (snd (apply_intent F i n price b s))"
  by (cases rule: outcome_cases [of F i n price b s]) (simp_all add: ledger_ok_step)

lemma goal_own: "n < 0 \<or> \<not> price_ok F price \<Longrightarrow> snd (apply_intent F i n price b s) = s"
  by (cases rule: outcome_cases [of F i n price b s]) auto

lemma intent_net:
  "ps_net (snd (apply_intent F i n price b s)) = (if n < 0 \<or> \<not> price_ok F price then ps_net s else intent_goal i n (ps_net s))"
proof (cases "n < 0 \<or> \<not> price_ok F price")
  case False
  then show ?thesis using target_goal [of n i "ps_net s"]
    by (auto simp: apply_intent_def Let_def price_ok_def)
qed (simp add: goal_own)

section \<open>Prices\<close>

lemma order_price_valid: "pp_valid (resolve_order_price F p t d k) \<longleftrightarrow> price_ok F p"
  by (simp add: resolve_order_price_def price_ok_def Let_def)

text \<open>A tick aligned buy price is not above the request if rounding down does not go up, and never more than the upper limit.\<close>

lemma order_price_limits:
  assumes "fp_strict F" "pp_valid (resolve_order_price F p t d k)" "ts_valid k"
  shows "d = Dir_Long \<Longrightarrow> usable F (ts_upper k) \<Longrightarrow> \<not> fp_lt F (ts_upper k) (pp_price (resolve_order_price F p t d k))"
    "d = Dir_Short \<Longrightarrow> usable F (ts_lower k) \<Longrightarrow> \<not> fp_lt F (pp_price (resolve_order_price F p t d k)) (ts_lower k)"
proof -
  have "\<not> fp_lt F x x" for x using assms(1) by (simp add: fp_strict_def)
  then show "d = Dir_Long \<Longrightarrow> usable F (ts_upper k) \<Longrightarrow> \<not> fp_lt F (ts_upper k) (pp_price (resolve_order_price F p t d k))"
    "d = Dir_Short \<Longrightarrow> usable F (ts_lower k) \<Longrightarrow> \<not> fp_lt F (pp_price (resolve_order_price F p t d k)) (ts_lower k)"
    using assms(2,3) by (simp_all add: resolve_order_price_def Let_def split: if_splits)
qed

section \<open>Quantities\<close>

lemma order_volume_some: "order_volume delta = Some n \<longleftrightarrow> delta \<noteq> 0 \<and> \<bar>delta\<bar> \<le> volume_max \<and> n = \<bar>delta\<bar>"
  by (auto simp: order_volume_def Let_def split: if_splits)

lemma saturated_refused: "saturating_delta q p \<noteq> q - p \<Longrightarrow> order_volume (saturating_delta q p) = None"
  by (auto simp: saturating_delta_def order_volume_def large_min_def large_max_def volume_max_def split: if_splits)

lemma saturating_zero: "saturating_delta q p = 0 \<longleftrightarrow> q = p"
  by (auto simp: saturating_delta_def large_min_def large_max_def)

section \<open>Orders and reports of an account\<close>

fun signed_order :: "string \<Rightarrow> 'd action \<Rightarrow> int" where
  "signed_order a (Place a' i d k p n) = (if a' = a then (if d = Dir_Long then n else - n) else 0)"
| "signed_order a e = 0"

definition orders_for :: "string \<Rightarrow> 'd action list \<Rightarrow> int" where
  "orders_for a es = sum_list (map (signed_order a) es)"

fun refuses :: "string \<Rightarrow> 'd action \<Rightarrow> bool" where
  "refuses a (Volume_Refused a' d n) \<longleftrightarrow> a' = a"
| "refuses a (Price_Refused a' d n) \<longleftrightarrow> a' = a"
| "refuses a e \<longleftrightarrow> False"

fun last_report :: "string \<Rightarrow> int \<Rightarrow> 'd action list \<Rightarrow> int" where
  "last_report a v [] = v"
| "last_report a v (Publish a' i n # es) = last_report a (if a' = a then n else v) es"
| "last_report a v (e # es) = last_report a v es"

fun action_account :: "'d action \<Rightarrow> string option" where
  "action_account (Called i k) = None"
| "action_account (Place a i d k p n) = Some a"
| "action_account (Publish a i n) = Some a"
| "action_account (Volume_Refused a d n) = Some a"
| "action_account (Price_Refused a d n) = Some a"

lemma orders_for_append [simp]: "orders_for a (es @ fs) = orders_for a es + orders_for a fs" "orders_for a [] = 0"
  by (simp_all add: orders_for_def)

lemma last_report_append [simp]: "last_report a v (es @ fs) = last_report a (last_report a v es) fs"
  by (induction a v es rule: last_report.induct) simp_all

lemma other_account:
  assumes "\<forall>e \<in> set es. action_account e \<noteq> Some a"
  shows "orders_for a es = 0" "last_report a v es = v" "\<not> list_ex (refuses a) es"
proof -
  show "orders_for a es = 0" using assms
  proof (induction es)
    case (Cons e es)
    then show ?case by (cases e) (simp_all add: orders_for_def)
  qed simp
  show "last_report a v es = v" using assms by (induction a v es rule: last_report.induct) auto
  show "\<not> list_ex (refuses a) es" using assms
  proof (induction es)
    case (Cons e es)
    then show ?case by (cases e) simp_all
  qed simp
qed

text \<open>In a fan over accounts with different identifiers only the actions of an account itself count for it.\<close>

lemma fan_one:
  assumes "distinct (map at_id A)" "a \<in> set A" "\<And>b e. e \<in> set (f b) \<Longrightarrow> action_account e = Some (at_id b)"
  shows "orders_for (at_id a) (concat (map f A)) = orders_for (at_id a) (f a)"
    "last_report (at_id a) v (concat (map f A)) = last_report (at_id a) v (f a)"
    "list_ex (refuses (at_id a)) (concat (map f A)) = list_ex (refuses (at_id a)) (f a)"
proof -
  obtain B C where A: "A = B @ a # C" using assms(2) by (meson split_list)
  have o: "\<forall>e \<in> set (concat (map f X)). action_account e \<noteq> Some (at_id a)" if "\<forall>b \<in> set X. at_id b \<noteq> at_id a" for X
    using that by (auto dest!: assms(3))
  have "at_id a \<notin> at_id ` set B" "at_id a \<notin> at_id ` set C" using assms(1) A by simp_all
  then have B: "\<forall>b \<in> set B. at_id b \<noteq> at_id a" and C: "\<forall>b \<in> set C. at_id b \<noteq> at_id a" by (metis imageI)+
  note b = other_account [OF o [OF B]] and c = other_account [OF o [OF C]]
  show "orders_for (at_id a) (concat (map f A)) = orders_for (at_id a) (f a)" using b(1) c(1) by (simp add: A)
  show "last_report (at_id a) v (concat (map f A)) = last_report (at_id a) v (f a)" using b(2) c(2) by (simp add: A)
  show "list_ex (refuses (at_id a)) (concat (map f A)) = list_ex (refuses (at_id a)) (f a)" using b(3) c(3) by (simp add: A)
qed

definition share :: "('d, 'f) fpx_scheme \<Rightarrow> 'd attached \<Rightarrow> 'd ictx \<Rightarrow> int" where
  "share F a c = logical_position F (ic_scaling c) (ps_net (ic_position c)) (at_scale a)"

lemma fan_account_of: "e \<in> set (fan_account F q price c b) \<Longrightarrow> action_account e = Some (at_id b)"
  by (auto simp: fan_account_def Let_def submit_delta_order_def submit_order_def publish_position_def publish_position_to_def
      split: option.splits if_splits)

lemma fan_account_tracks:
  assumes "price_ok F price" "ic_session c"
  shows "\<not> list_ex (refuses (at_id a)) (fan_account F q price c a) \<Longrightarrow>
      orders_for (at_id a) (fan_account F q price c a) = share F a c - logical_position F (ic_scaling c) q (at_scale a)"
    "last_report (at_id a) (logical_position F (ic_scaling c) q (at_scale a)) (fan_account F q price c a) = share F a c"
proof -
  let ?o = "logical_position F (ic_scaling c) q (at_scale a)"
  let ?d = "saturating_delta (share F a c) ?o"
  show "last_report (at_id a) ?o (fan_account F q price c a) = share F a c"
    using saturating_zero [of "share F a c" ?o] assms
    by (auto simp: fan_account_def Let_def share_def [symmetric] submit_delta_order_def submit_order_def publish_position_def
        publish_position_to_def split: option.split)
  show "orders_for (at_id a) (fan_account F q price c a) = share F a c - ?o" if "\<not> list_ex (refuses (at_id a)) (fan_account F q price c a)"
  proof (cases "order_volume ?d")
    case None
    then have "?d = 0" using that by (auto simp: fan_account_def Let_def share_def [symmetric] submit_delta_order_def split: if_splits)
    then show ?thesis using saturating_zero [of "share F a c" ?o] by (simp add: fan_account_def Let_def share_def [symmetric])
  next
    case (Some n)
    then have "?d = share F a c - ?o" using saturated_refused by force
    then show ?thesis using Some assms
      by (auto simp: fan_account_def Let_def share_def [symmetric] submit_delta_order_def submit_order_def publish_position_def
          publish_position_to_def order_price_valid orders_for_def direction_of_def)
        (simp_all add: order_volume_some)
  qed
qed
section \<open>Intents\<close>

lemma execute_fields [simp]:
  "ic_session (fst (execute_intent F A i n p c)) = ic_session c" "ic_live (fst (execute_intent F A i n p c)) = ic_live c"
  "ic_failed (fst (execute_intent F A i n p c)) = ic_failed c" "ic_scaling (fst (execute_intent F A i n p c)) = ic_scaling c"
  "sx_window (fst (execute_intent F A i n p c)) = sx_window c" "sx_index (fst (execute_intent F A i n p c)) = sx_index c"
  "ic_id (fst (execute_intent F A i n p c)) = ic_id c" "ic_stage (fst (execute_intent F A i n p c)) = ic_stage c"
  "ic_pending (fst (execute_intent F A i n p c)) = ic_pending c" "sx_price (fst (execute_intent F A i n p c)) = sx_price c"
  "sx_doubles (fst (execute_intent F A i n p c)) = sx_doubles c" "sx_ints (fst (execute_intent F A i n p c)) = sx_ints c"
  by (simp_all add: execute_intent_def Let_def split: prod.split)

lemma execute_position:
  "ic_position (fst (execute_intent F A i n p c)) =
     (if ic_failed c then ic_position c else snd (apply_intent F i n p (bar_stamp_of c) (ic_position c)))"
  by (simp add: execute_intent_def Let_def case_prod_beta)

lemma execute_ledger:
  "ledger_ok F (ic_position c) \<Longrightarrow> ledger_ok F (ic_position (fst (execute_intent F A i n p c)))"
  by (simp add: execute_position intent_ok)

lemma execute_net:
  "ps_net (ic_position (fst (execute_intent F A i n p c))) =
     (if ic_failed c \<or> n < 0 \<or> \<not> price_ok F p then ps_net (ic_position c) else intent_goal i n (ps_net (ic_position c)))"
  by (simp add: execute_position intent_net)

lemma execute_quiet: "\<not> ic_live c \<or> ic_failed c \<Longrightarrow> snd (execute_intent F A i n p c) = []"
  by (auto simp: execute_intent_def Let_def fanout_positions_def split: prod.split)

text \<open>The actions of an intent are none, or the fan of a moved position at a proper price.\<close>

lemma execute_actions:
  obtains (none) "snd (execute_intent F (Some A) i n p c) = []" "ic_live c \<Longrightarrow> ic_session c \<Longrightarrow> ps_net (ic_position (fst (execute_intent F (Some A) i n p c))) = ps_net (ic_position c)"
  | (fan) "snd (execute_intent F (Some A) i n p c) = concat (map (fan_account F (ps_net (ic_position c)) p (fst (execute_intent F (Some A) i n p c))) A)"
      "price_ok F p" "ic_session c"
proof (cases "ic_failed c \<or> \<not> ic_live c \<or> \<not> ic_session c")
  case True
  then have "snd (execute_intent F (Some A) i n p c) = []" by (auto simp: execute_intent_def Let_def fanout_positions_def split: prod.split)
  then show ?thesis using none True by (auto simp: execute_intent_def)
next
  case False
  show ?thesis
  proof (cases rule: outcome_cases [of F i n p "bar_stamp_of c" "ic_position c"])
    case (kept r)
    then show ?thesis using none False by (auto simp: execute_intent_def Let_def outcome_applied_def)
  next
    case (moved r)
    then show ?thesis using fan False by (simp add: execute_intent_def Let_def outcome_applied_def fanout_positions_def)
  qed
qed

definition tracked :: "('d, 'f) fpx_scheme \<Rightarrow> 'd attached \<Rightarrow> 'd ictx \<Rightarrow> 'd action list \<Rightarrow> 'd ictx \<Rightarrow> bool" where
  "tracked F a c es c' \<longleftrightarrow> last_report (at_id a) (share F a c) es = share F a c' \<and>
     (\<not> list_ex (refuses (at_id a)) es \<longrightarrow> orders_for (at_id a) es = share F a c' - share F a c)"

lemma tracked_refl: "tracked F a c [] c"
  by (simp add: tracked_def)

lemma tracked_trans: "tracked F a c es c' \<Longrightarrow> tracked F a c' fs c'' \<Longrightarrow> tracked F a c (es @ fs) c''"
  by (simp add: tracked_def)

lemma tracked_same: "share F a c' = share F a c \<Longrightarrow> tracked F a c [] c'"
  by (simp add: tracked_def)

lemma execute_tracked:
  assumes "distinct (map at_id A)" "a \<in> set A" "ic_live c" "ic_session c"
  shows "tracked F a c (snd (execute_intent F (Some A) i n p c)) (fst (execute_intent F (Some A) i n p c))"
proof (cases rule: execute_actions [of F A i n p c])
  case none
  then show ?thesis using assms by (simp add: tracked_same share_def)
next
  case fan
  let ?c = "fst (execute_intent F (Some A) i n p c)"
  have s: "share F a c = logical_position F (ic_scaling ?c) (ps_net (ic_position c)) (at_scale a)" by (simp add: share_def)
  note one = fan_one [OF assms(1,2), of "fan_account F (ps_net (ic_position c)) p ?c", OF fan_account_of]
  show ?thesis
    using fan_account_tracks [OF fan(2), of ?c a "ps_net (ic_position c)"] fan(3)
    by (simp add: tracked_def fan(1) one s)
qed

section \<open>Sequences of intents\<close>

type_synonym 'd intent_call = "intent \<times> int \<times> 'd"

fun run_intents :: "('d, 'f) fpx_scheme \<Rightarrow> 'd attached list option \<Rightarrow> 'd intent_call list \<Rightarrow> 'd ictx \<Rightarrow> 'd ictx \<times> 'd action list" where
  "run_intents F A [] c = (c, [])"
| "run_intents F A ((i, n, p) # rs) c =
     (let (c1, es) = execute_intent F A i n p c; (c2, fs) = run_intents F A rs c1 in (c2, es @ fs))"

lemma run_intents_Cons:
  "run_intents F A ((i, n, p) # rs) c =
     (fst (run_intents F A rs (fst (execute_intent F A i n p c))),
      snd (execute_intent F A i n p c) @ snd (run_intents F A rs (fst (execute_intent F A i n p c))))"
  by (simp add: Let_def split: prod.split)

declare run_intents.simps(2) [simp del]

lemma run_tracked:
  assumes "distinct (map at_id A)" "a \<in> set A"
  shows "ic_live c \<Longrightarrow> ic_session c \<Longrightarrow> tracked F a c (snd (run_intents F (Some A) rs c)) (fst (run_intents F (Some A) rs c))"
proof (induction rs arbitrary: c)
  case (Cons r rs)
  obtain i n p where r: "r = (i, n, p)" by (cases r)
  show ?case
    unfolding r run_intents_Cons fst_conv snd_conv
    using tracked_trans [OF execute_tracked [OF assms Cons.prems] Cons.IH] Cons.prems by simp
qed (simp add: tracked_refl)

lemma run_ledger: "ledger_ok F (ic_position c) \<Longrightarrow> ledger_ok F (ic_position (fst (run_intents F A rs c)))"
proof (induction rs arbitrary: c)
  case (Cons r rs)
  then show ?case by (cases r) (simp add: run_intents_Cons execute_ledger)
qed simp

end
