(* ===== verification/Bar_Node.thy ===== *)
theory Bar_Node
  imports Bar_Account
begin

text \<open>
  An instrument with its strategy (\<open>bar_strategy/manager.h\<close>: \<open>BarEventSink\<close>, \<open>InstrumentNode\<close>, the dispatch of bar
  events, replay and continuation). A callback of the strategy is a function of the parameters, the instrument and its own
  state: what it asks for, in order, its next state, and whether it threw at the end. That is no restriction, since every
  answer it can read back is a function of the instrument and of what it asked for before.
\<close>

datatype 'd request =
    Req_Intent intent int 'd
  | Req_Double nat 'd
  | Req_Int nat int
  | Req_Make_Double 'd
  | Req_Make_Int int

type_synonym ('d, 'p, 's) callback_fun = "'p \<Rightarrow> 'd ictx \<Rightarrow> 's \<Rightarrow> 'd request list \<times> 's \<times> bool"

record ('d, 'p, 's) strategy =
  sg_instance :: 's
  sg_init :: "('d, 'p, 's) callback_fun option"
  sg_open :: "('d, 'p, 's) callback_fun option"
  sg_update :: "('d, 'p, 's) callback_fun option"
  sg_close :: "('d, 'p, 's) callback_fun option"
  sg_params :: "('d, 'p, 's) callback_fun option"
  sg_destroy :: "('d, 'p, 's) callback_fun option"

text \<open>
  What callbacks depend on besides their node: floating point, the strategy, the parameters, the account table, the
  contents of memory that is allocated without a value.
\<close>

record ('d, 'p, 's) node_env =
  ne_fp :: "'d fpx"
  ne_strategy :: "('d, 'p, 's) strategy"
  ne_params :: 'p
  ne_accounts :: "'d attached list"
  ne_raw :: 'd
  ne_raw_int :: int

record ('d, 's) node =
  nd_ctx :: "'d ictx"
  nd_builder :: "'d builder"
  nd_instance :: 's
  nd_tail :: "'d bar option"
  nd_replaying :: bool
  nd_silent :: int
  nd_replayed :: int

definition new_node :: "('d, 'p, 's) node_env \<Rightarrow> 'd ictx \<Rightarrow> session_table \<Rightarrow> int \<Rightarrow> ('d, 's) node option" where
  "new_node E c T p =
     (case new_builder (ne_fp E) T p of
        None \<Rightarrow> None
      | Some b \<Rightarrow> Some \<lparr>nd_ctx = c, nd_builder = b, nd_instance = sg_instance (ne_strategy E), nd_tail = None,
                    nd_replaying = False, nd_silent = 0, nd_replayed = 0\<rparr>)"

section \<open>Calls into the strategy\<close>

text \<open>A request that throws ends the callback: a series outside \<open>on_init\<close>, an element before the first bar.\<close>

fun handle_request :: "('d, 'p, 's) node_env \<Rightarrow> 'd request \<Rightarrow> 'd ictx \<Rightarrow> ('d ictx \<times> 'd action list) option" where
  "handle_request E (Req_Intent i n p) c = Some (execute_intent (ne_fp E) (Some (ne_accounts E)) i n p c)"
| "handle_request E (Req_Double i v) c = map_option (\<lambda>c'. (c', [])) (put_double i v c)"
| "handle_request E (Req_Int i v) c = map_option (\<lambda>c'. (c', [])) (put_int i v c)"
| "handle_request E (Req_Make_Double v) c = (if \<not> ic_in_init c then None else Some (make_double_series (ne_raw E) v c, []))"
| "handle_request E (Req_Make_Int v) c = (if \<not> ic_in_init c then None else Some (make_int_series (ne_raw_int E) v c, []))"

fun run_requests :: "('d, 'p, 's) node_env \<Rightarrow> 'd request list \<Rightarrow> 'd ictx \<Rightarrow> 'd ictx \<times> 'd action list \<times> bool" where
  "run_requests E [] c = (c, [], False)"
| "run_requests E (r # rs) c =
     (case handle_request E r c of
        None \<Rightarrow> (c, [], True)
      | Some (c1, es) \<Rightarrow> (case run_requests E rs c1 of (c2, fs, t) \<Rightarrow> (c2, es @ fs, t)))"

text \<open>The flag says whether the callback threw.\<close>

definition call_strategy :: "('d, 'p, 's) node_env \<Rightarrow> callback \<Rightarrow> ('d, 'p, 's) callback_fun \<Rightarrow> ('d, 's) node \<Rightarrow> ('d, 's) node \<times> 'd action list \<times> bool" where
  "call_strategy E k f d =
     (case f (ne_params E) (nd_ctx d) (nd_instance d) of
        (rs, s, t) \<Rightarrow>
          (case run_requests E rs (nd_ctx d) of
             (c, es, u) \<Rightarrow> (d\<lparr>nd_ctx := c, nd_instance := s\<rparr>, Called (ic_id (nd_ctx d)) k # es, t \<or> u)))"

definition map_ctx :: "('d ictx \<Rightarrow> 'd ictx) \<Rightarrow> ('d, 's) node \<Rightarrow> ('d, 's) node" where
  "map_ctx f d = d\<lparr>nd_ctx := f (nd_ctx d)\<rparr>"

definition invoke_b :: "('d, 'p, 's) node_env \<Rightarrow> callback \<Rightarrow> ('d, 'p, 's) callback_fun option \<Rightarrow> ('d, 's) node \<Rightarrow> ('d, 's) node \<times> 'd action list" where
  "invoke_b E k f d =
     (case f of
        None \<Rightarrow> (d, [])
      | Some g \<Rightarrow> (case call_strategy E k g d of (d', es, t) \<Rightarrow> (if t then map_ctx mark_failed d' else d', es)))"

definition invoke_params_update :: "('d, 'p, 's) node_env \<Rightarrow> ('d, 's) node \<Rightarrow> ('d, 's) node \<times> 'd action list" where
  "invoke_params_update E d =
     (case sg_params (ne_strategy E) of
        None \<Rightarrow> (d, [])
      | Some f \<Rightarrow> invoke_b E On_Params_Update (Some f) (map_ctx (set_auction False) d))"

definition on_callback_delivered :: "('d, 'p, 's) node_env \<Rightarrow> ('d, 's) node \<Rightarrow> ('d, 's) node \<times> 'd action list" where
  "on_callback_delivered E d =
     (if ic_failed (nd_ctx d) then (d, [])
      else case note_callback_delivered (nd_ctx d) of
             (pending, c) \<Rightarrow>
               if pending then invoke_params_update E (d\<lparr>nd_ctx := params_update_delivered c\<rparr>)
               else (d\<lparr>nd_ctx := c\<rparr>, []))"

text \<open>\<open>on_init\<close> may make series; the scope ends whether it returns or throws. The flag says that it succeeded.\<close>

definition set_in_init :: "bool \<Rightarrow> 'd ictx \<Rightarrow> 'd ictx" where
  "set_in_init i c = c\<lparr>ic_in_init := i\<rparr>"

definition init_new_instance :: "('d, 'p, 's) node_env \<Rightarrow> ('d, 's) node \<Rightarrow> ('d, 's) node \<times> 'd action list \<times> bool" where
  "init_new_instance E d =
     (case sg_init (ne_strategy E) of
        None \<Rightarrow> (d, [], True)
      | Some f \<Rightarrow> (case call_strategy E On_Init f (map_ctx (set_in_init True) d) of
          (d', es, t) \<Rightarrow> (map_ctx (set_in_init False) d', es, \<not> t)))"

text \<open>An exception of \<open>on_destroy\<close> is only reported.\<close>

definition dispatch_on_destroy :: "('d, 'p, 's) node_env \<Rightarrow> ('d, 's) node \<Rightarrow> ('d, 's) node \<times> 'd action list" where
  "dispatch_on_destroy E d =
     (case sg_destroy (ne_strategy E) of
        None \<Rightarrow> (d, [])
      | Some f \<Rightarrow> (case call_strategy E On_Destroy f (map_ctx (set_auction False) d) of (d', es, t) \<Rightarrow> (d', es)))"

section \<open>Bar events\<close>

definition bar_callback_enabled :: "'d ictx \<Rightarrow> bool" where
  "bar_callback_enabled c \<longleftrightarrow> sx_index c \<ge> int (wn_max (sx_window c))"

definition close_callback_enabled :: "'d ictx \<Rightarrow> bool" where
  "close_callback_enabled c \<longleftrightarrow> wn_size (sx_window c) = wn_max (sx_window c)"

text \<open>The tick that is being distributed, if it is a real one.\<close>

definition refresh_tick_snapshot :: "'d dz_tick option \<Rightarrow> ('d, 's) node \<Rightarrow> ('d, 's) node" where
  "refresh_tick_snapshot k d = (case k of None \<Rightarrow> d | Some t \<Rightarrow> map_ctx (update_tick t) d)"

definition write_auction_phase :: "bool \<Rightarrow> ('d, 's) node \<Rightarrow> ('d, 's) node" where
  "write_auction_phase a d = map_ctx (set_auction (a \<and> \<not> nd_replaying d)) d"

text \<open>The common end of the three handlers: the callback, then an update of the parameters that waited for it.\<close>

definition deliver :: "('d, 'p, 's) node_env \<Rightarrow> callback \<Rightarrow> ('d, 'p, 's) callback_fun option \<Rightarrow> bool \<Rightarrow> ('d, 's) node \<Rightarrow> ('d, 's) node \<times> 'd action list" where
  "deliver E k f auction d =
     (case invoke_b E k f (write_auction_phase auction d) of
        (d1, es) \<Rightarrow> (case on_callback_delivered E d1 of (d2, fs) \<Rightarrow> (d2, es @ fs)))"

definition dispatch_bar_open :: "('d, 'p, 's) node_env \<Rightarrow> 'd dz_tick option \<Rightarrow> 'd bar \<Rightarrow> bool \<Rightarrow> ('d, 's) node \<Rightarrow> ('d, 's) node \<times> 'd action list" where
  "dispatch_bar_open E k x auction d =
     (if ic_failed (nd_ctx d) then (d, [])
      else let d1 = map_ctx (advance_bar_ctx (ne_fp E) x) (refresh_tick_snapshot k d)
           in if \<not> bar_callback_enabled (nd_ctx d1) then (d1, [])
              else deliver E On_Bar_Open (sg_open (ne_strategy E)) auction d1)"

definition dispatch_bar_update :: "('d, 'p, 's) node_env \<Rightarrow> 'd dz_tick option \<Rightarrow> 'd bar \<Rightarrow> bool \<Rightarrow> ('d, 's) node \<Rightarrow> ('d, 's) node \<times> 'd action list" where
  "dispatch_bar_update E k x auction d =
     (if ic_failed (nd_ctx d) then (d, [])
      else let d1 = map_ctx (update_current_bar (ne_fp E) x) (refresh_tick_snapshot k d)
           in if \<not> bar_callback_enabled (nd_ctx d1) then (d1, [])
              else deliver E On_Bar_Update (sg_update (ne_strategy E)) auction d1)"

definition dispatch_bar_close :: "('d, 'p, 's) node_env \<Rightarrow> 'd dz_tick option \<Rightarrow> 'd bar \<Rightarrow> bool \<Rightarrow> ('d, 's) node \<Rightarrow> ('d, 's) node \<times> 'd action list" where
  "dispatch_bar_close E k x auction d =
     (if ic_failed (nd_ctx d) then (d, [])
      else let d1 = map_ctx (update_profit_extremes (ne_fp E) (br_close x)) (refresh_tick_snapshot k d)
           in if \<not> close_callback_enabled (nd_ctx d1) then (d1, [])
              else deliver E On_Bar_Close (sg_close (ne_strategy E)) auction d1)"

fun dispatch_event :: "('d, 'p, 's) node_env \<Rightarrow> 'd dz_tick option \<Rightarrow> 'd bar_event \<Rightarrow> ('d, 's) node \<Rightarrow> ('d, 's) node \<times> 'd action list" where
  "dispatch_event E k (Bar_Open x a) d = dispatch_bar_open E k x a d"
| "dispatch_event E k (Bar_Update x a) d = dispatch_bar_update E k x a d"
| "dispatch_event E k (Bar_Close x a) d = dispatch_bar_close E k x a d"

fun dispatch_events :: "('d, 'p, 's) node_env \<Rightarrow> 'd dz_tick option \<Rightarrow> 'd bar_event list \<Rightarrow> ('d, 's) node \<Rightarrow> ('d, 's) node \<times> 'd action list" where
  "dispatch_events E k [] d = (d, [])"
| "dispatch_events E k (e # es) d =
     (case dispatch_event E k e d of (d1, as) \<Rightarrow> (case dispatch_events E k es d1 of (d2, bs) \<Rightarrow> (d2, as @ bs)))"

text \<open>The builder runs its callbacks in place; they cannot reach it, so they may as well follow it.\<close>

definition builder_tick :: "('d, 'p, 's) node_env \<Rightarrow> 'd dz_tick option \<Rightarrow> 'd dz_tick \<Rightarrow> ('d, 's) node \<Rightarrow> ('d, 's) node \<times> 'd action list" where
  "builder_tick E current k d =
     (case on_tick (ne_fp E) k (nd_builder d) of (b, es) \<Rightarrow> dispatch_events E current es (d\<lparr>nd_builder := b\<rparr>))"

definition feed_tick :: "('d, 'p, 's) node_env \<Rightarrow> 'd dz_tick \<Rightarrow> ('d, 's) node \<Rightarrow> ('d, 's) node \<times> 'd action list" where
  "feed_tick E k d = builder_tick E (Some k) k d"
section \<open>Replay\<close>

definition replay_prices :: "('d, 'm) fp_scheme \<Rightarrow> 'd bar \<Rightarrow> 'd list" where
  "replay_prices F x =
     (if fp_lt F (br_close x) (br_open x) then [br_open x, br_high x, br_low x, br_close x]
      else [br_open x, br_low x, br_high x, br_close x])"

definition replay_offsets :: "'d bar \<Rightarrow> int list" where
  "replay_offsets x =
     (let tail = br_last_tick x - br_begin x;
          span = (if tail < 0 then 0 else if tail > br_period x - 1 then br_period x - 1 else tail)
      in if tail < 0 then [tail, tail, tail, tail] else [cdiv span 4, cdiv span 2, cdiv (span * 3) 4, span])"

text \<open>A cumulative volume that does not fit the 32 bits of a tick wraps.\<close>

definition replay_tick :: "('d, 'm) fp_scheme \<Rightarrow> 'd bar \<Rightarrow> int \<Rightarrow> 'd \<Rightarrow> int \<Rightarrow> 'd dz_tick" where
  "replay_tick F x n price offset =
     \<lparr>tk_instrument = [], tk_date = br_date x, tk_time = to_clock (br_begin x + offset), tk_last = price,
      tk_volume = i32 (br_cum_volume x - br_volume x + cdiv (br_volume x * n) 4), tk_oi = br_oi x,
      tk_turnover = fp_add F (fp_sub F (br_cum_turnover x) (br_turnover x)) (fp_div F (fp_mul F (br_turnover x) (fp_of_int F n)) (fp_of_int F 4)),
      tk_open = fp_zero F, tk_high = fp_zero F, tk_low = fp_zero F, tk_upper = fp_zero F, tk_lower = fp_zero F,
      tk_bid = fp_zero F, tk_ask = fp_zero F\<rparr>"

definition make_replay_ticks :: "('d, 'm) fp_scheme \<Rightarrow> 'd bar \<Rightarrow> 'd dz_tick list" where
  "make_replay_ticks F x = map (\<lambda>(n, price, offset). replay_tick F x n price offset) (zip [1, 2, 3, 4] (zip (replay_prices F x) (replay_offsets x)))"

fun replay_ticks :: "('d, 'p, 's) node_env \<Rightarrow> 'd dz_tick list \<Rightarrow> ('d, 's) node \<Rightarrow> ('d, 's) node \<times> 'd action list" where
  "replay_ticks E [] d = (d, [])"
| "replay_ticks E (k # ks) d =
     (if ic_failed (nd_ctx d) then (d, [])
      else case builder_tick E None k d of (d1, es) \<Rightarrow> (case replay_ticks E ks d1 of (d2, fs) \<Rightarrow> (d2, es @ fs)))"

fun replay_bars :: "('d, 'p, 's) node_env \<Rightarrow> 'd bar list \<Rightarrow> ('d, 's) node \<Rightarrow> ('d, 's) node \<times> 'd action list" where
  "replay_bars E [] d = (d, [])"
| "replay_bars E (x # xs) d =
     (if ic_failed (nd_ctx d) then (d, [])
      else case replay_ticks E (make_replay_ticks (ne_fp E) x) d of (d1, es) \<Rightarrow> (case replay_bars E xs d1 of (d2, fs) \<Rightarrow> (d2, es @ fs)))"

text \<open>At most the configured number of bars, the latest ones.\<close>

definition trim_history :: "nat option \<Rightarrow> 'd bar list \<Rightarrow> 'd bar list" where
  "trim_history warmup xs = (case warmup of None \<Rightarrow> xs | Some n \<Rightarrow> if length xs > n then drop (length xs - n) xs else xs)"

definition replay_instrument_history :: "('d, 'p, 's) node_env \<Rightarrow> nat option \<Rightarrow> int \<Rightarrow> 'd bar list \<Rightarrow> ('d, 's) node \<Rightarrow> ('d, 's) node \<times> 'd action list" where
  "replay_instrument_history E warmup max_lookback loaded d =
     (let xs = trim_history warmup loaded; total = int (length xs); silent = min total max_lookback
      in if xs = [] then (d, [])
         else case replay_bars E xs (d\<lparr>nd_silent := silent, nd_replayed := total - silent, nd_tail := Some (last xs), nd_replaying := True\<rparr>)
              of (d', es) \<Rightarrow> (d'\<lparr>nd_replaying := False\<rparr>, es))"

definition should_drop_continuation_tick :: "session_table \<Rightarrow> int \<Rightarrow> 'd dz_tick \<Rightarrow> ('d, 's) node \<Rightarrow> bool" where
  "should_drop_continuation_tick T p k d =
     (case nd_tail d of
        None \<Rightarrow> False
      | Some x \<Rightarrow>
          if tk_date k < br_date x then True
          else if tk_date k > br_date x then False
          else if tk_time k < 0 \<or> tk_time k > max_trading_sec then False
          else let u = resolve_tick_bucket (from_clock (tk_time k)) T p
               in if \<not> tb_in_session u then False
                  else if tb_begin u < br_begin x then True
                  else if tb_begin u > br_begin x then False
                  else br_final x)"
text \<open>The ticks of an instrument, one after the other; a failed instance gets none.\<close>

definition node_tick :: "('d, 'p, 's) node_env \<Rightarrow> 'd dz_tick \<Rightarrow> ('d, 's) node \<Rightarrow> ('d, 's) node \<times> 'd action list" where
  "node_tick E k d = (if ic_failed (nd_ctx d) then (d, []) else feed_tick E k d)"

fun node_ticks :: "('d, 'p, 's) node_env \<Rightarrow> 'd dz_tick list \<Rightarrow> ('d, 's) node \<Rightarrow> ('d, 's) node \<times> 'd action list" where
  "node_ticks E [] d = (d, [])"
| "node_ticks E (k # ks) d =
     (case node_tick E k d of (d1, es) \<Rightarrow> (case node_ticks E ks d1 of (d2, fs) \<Rightarrow> (d2, es @ fs)))"

end
