(* ===== verification/Bar_Node_Facts.thy ===== *)
theory Bar_Node_Facts
  imports Bar_Node
begin

text \<open>
  What holds of a node whatever its strategy does: a relation between the instrument before and after that intents, the
  bookkeeping of the framework and sequences respect is respected by every tick, replay and callback.
\<close>

section \<open>Relations that the framework respects\<close>

text \<open>Nothing that matters to the accounts changes: at most the extremes of the profit, the storage and the flags.\<close>

definition position_core :: "'d position_state \<Rightarrow> 'd position_state" where
  "position_core s = s\<lparr>ps_max_profit := ps_avg s, ps_max_loss := ps_avg s\<rparr>"

definition account_frame :: "'d ictx \<Rightarrow> 'd ictx \<Rightarrow> bool" where
  "account_frame c c' \<longleftrightarrow> ic_live c' = ic_live c \<and> ic_session c' = ic_session c \<and> ic_scaling c' = ic_scaling c \<and> ic_id c' = ic_id c \<and>
     position_core (ic_position c') = position_core (ic_position c)"

lemma frameI:
  "ic_live c' = ic_live c \<Longrightarrow> ic_session c' = ic_session c \<Longrightarrow> ic_scaling c' = ic_scaling c \<Longrightarrow> ic_id c' = ic_id c \<Longrightarrow>
   ic_position c' = ic_position c \<Longrightarrow> account_frame c c'"
  by (simp add: account_frame_def)

lemma storage_fields [simp]:
  "ic_live (write_bar F i x c) = ic_live c" "ic_session (write_bar F i x c) = ic_session c" "ic_scaling (write_bar F i x c) = ic_scaling c"
  "ic_id (write_bar F i x c) = ic_id c" "ic_position (write_bar F i x c) = ic_position c" "ic_failed (write_bar F i x c) = ic_failed c"
  "ic_live (write_user_series i c) = ic_live c" "ic_session (write_user_series i c) = ic_session c"
  "ic_scaling (write_user_series i c) = ic_scaling c" "ic_id (write_user_series i c) = ic_id c"
  "ic_position (write_user_series i c) = ic_position c" "ic_failed (write_user_series i c) = ic_failed c"
  "ic_live (relocate c) = ic_live c" "ic_session (relocate c) = ic_session c" "ic_scaling (relocate c) = ic_scaling c"
  "ic_id (relocate c) = ic_id c" "ic_position (relocate c) = ic_position c" "ic_failed (relocate c) = ic_failed c"
  by (simp_all add: write_bar_def write_user_series_def relocate_def Let_def)

lemma frame_advance: "account_frame c (advance_bar_ctx F x c)"
  by (rule frameI) (simp_all add: advance_bar_ctx_def advance_storage_def Let_def)

lemma frame_update: "account_frame c (update_current_bar F x c)"
  by (rule frameI) (simp_all add: update_current_bar_def)

lemma frame_relocate: "account_frame c (relocate c)"
  by (rule frameI) simp_all

lemma frame_extremes: "account_frame c (update_profit_extremes F p c)"
  by (simp add: update_profit_extremes_def Let_def account_frame_def position_core_def)

text \<open>What callbacks may change besides the position: not even the window.\<close>

definition callback_frame :: "'d ictx \<Rightarrow> 'd ictx \<Rightarrow> bool" where
  "callback_frame c c' \<longleftrightarrow> account_frame c c' \<and> sx_window c' = sx_window c \<and> sx_index c' = sx_index c"

lemma callback_frameI:
  "ic_live c' = ic_live c \<Longrightarrow> ic_session c' = ic_session c \<Longrightarrow> ic_scaling c' = ic_scaling c \<Longrightarrow> ic_id c' = ic_id c \<Longrightarrow>
   ic_position c' = ic_position c \<Longrightarrow> sx_window c' = sx_window c \<Longrightarrow> sx_index c' = sx_index c \<Longrightarrow> callback_frame c c'"
  by (simp add: callback_frame_def frameI)

lemma callback_frame_refl [simp]: "callback_frame c c"
  by (rule callback_frameI) simp_all

lemma callback_frame_trans: "callback_frame c c' \<Longrightarrow> callback_frame c' c'' \<Longrightarrow> callback_frame c c''"
  by (simp add: callback_frame_def account_frame_def)

lemma flags_frame:
  "callback_frame c (update_tick k c)" "callback_frame c (set_auction a c)" "callback_frame c (mark_failed c)"
  "callback_frame c (set_in_init i c)" "callback_frame c (params_update_delivered c)" "callback_frame c (snd (note_callback_delivered c))"
  "callback_frame c (make_double_series r v c)" "callback_frame c (make_int_series m n c)" "callback_frame c (snd (request_params_update c))"
  by (rule callback_frameI; simp add: update_tick_def set_auction_def mark_failed_def set_in_init_def params_update_delivered_def
      note_callback_delivered_def make_double_series_def make_int_series_def request_params_update_def)+

lemma put_frame:
  "put_double i v c = Some c' \<Longrightarrow> callback_frame c c'" "put_int i w c = Some c' \<Longrightarrow> callback_frame c c'"
  by (auto simp: put_double_as put_int_as intro!: callback_frameI split: if_splits)

locale callbacks =
  fixes E :: "('d, 'p, 's) node_env" and R :: "'d ictx \<Rightarrow> 'd action list \<Rightarrow> 'd ictx \<Rightarrow> bool"
  assumes frame: "callback_frame c c' \<Longrightarrow> R c [] c'"
    and seq: "R c es c' \<Longrightarrow> R c' fs c'' \<Longrightarrow> R c (es @ fs) c''"
    and intent: "R c (snd (execute_intent (ne_fp E) (Some (ne_accounts E)) i n p c)) (fst (execute_intent (ne_fp E) (Some (ne_accounts E)) i n p c))"
    and called: "R c [Called name k] c"
begin

lemma refl: "R c [] c"
  by (simp add: frame)

lemma framed: "R c es c' \<Longrightarrow> callback_frame c' c'' \<Longrightarrow> R c es c''"
  using seq [of c es c' "[]" c''] frame by simp

lemma after_frame: "callback_frame c c' \<Longrightarrow> R c' es c'' \<Longrightarrow> R c es c''"
  using seq [of c "[]" c' es c''] frame by simp

lemma request: "handle_request E r c = Some (c', es) \<Longrightarrow> R c es c'"
proof (cases r)
  case (Req_Intent i n p)
  then show "handle_request E r c = Some (c', es) \<Longrightarrow> R c es c'"
    using intent [of c i n p] by (cases "execute_intent (ne_fp E) (Some (ne_accounts E)) i n p c") simp
qed (auto intro: frame put_frame flags_frame split: if_splits)

lemma requests: "run_requests E rs c = (c', es, t) \<Longrightarrow> R c es c'"
proof (induction rs arbitrary: c c' es t)
  case (Cons r rs)
  show ?case
  proof (cases "handle_request E r c")
    case None
    then show ?thesis using Cons.prems refl by simp
  next
    case (Some p)
    obtain c1 e1 where p: "p = (c1, e1)" by (cases p)
    obtain c2 fs u where q: "run_requests E rs c1 = (c2, fs, u)" by (cases "run_requests E rs c1")
    have "R c1 fs c2" by (rule Cons.IH [OF q])
    from seq [OF request [OF Some [unfolded p]] this] show ?thesis using Cons.prems by (auto simp: Some p q)
  qed
qed (simp add: refl)

lemma call: "call_strategy E k f d = (d', es, t) \<Longrightarrow> R (nd_ctx d) es (nd_ctx d')"
proof -
  assume c: "call_strategy E k f d = (d', es, t)"
  obtain rs s u where f: "f (ne_params E) (nd_ctx d) (nd_instance d) = (rs, s, u)" by (cases "f (ne_params E) (nd_ctx d) (nd_instance d)")
  obtain c' fs v where r: "run_requests E rs (nd_ctx d) = (c', fs, v)" by (cases "run_requests E rs (nd_ctx d)")
  show ?thesis using seq [OF called requests [OF r]] c by (auto simp: call_strategy_def f r)
qed

lemma invoke: "R (nd_ctx d) (snd (invoke_b E k f d)) (nd_ctx (fst (invoke_b E k f d)))"
proof (cases f)
  case (Some g)
  obtain d' es t where c: "call_strategy E k g d = (d', es, t)" by (cases "call_strategy E k g d")
  show ?thesis using call [OF c] framed [OF call [OF c] flags_frame(3)] by (simp add: invoke_b_def Some c map_ctx_def)
qed (simp add: invoke_b_def refl)

lemma invoke_at: "callback_frame c (nd_ctx d) \<Longrightarrow> R c (snd (invoke_b E k f d)) (nd_ctx (fst (invoke_b E k f d)))"
  by (rule after_frame [OF _ invoke])

lemma params_at:
  assumes "callback_frame c (nd_ctx d)"
  shows "R c (snd (invoke_params_update E d)) (nd_ctx (fst (invoke_params_update E d)))"
proof -
  have "callback_frame c (nd_ctx (map_ctx (set_auction False) d))"
    using callback_frame_trans [OF assms flags_frame(2) [of "nd_ctx d" False]] by (simp add: map_ctx_def)
  from invoke_at [OF this] show ?thesis by (simp add: invoke_params_update_def frame assms split: option.split)
qed

lemma delivered: "R (nd_ctx d) (snd (on_callback_delivered E d)) (nd_ctx (fst (on_callback_delivered E d)))"
proof -
  obtain q c where n: "note_callback_delivered (nd_ctx d) = (q, c)" by (cases "note_callback_delivered (nd_ctx d)")
  have c: "callback_frame (nd_ctx d) c" using flags_frame(6) [of "nd_ctx d"] by (simp add: n)
  have "callback_frame (nd_ctx d) (params_update_delivered c)" using c flags_frame(5) [of c] by (rule callback_frame_trans)
  then have "callback_frame (nd_ctx d) (nd_ctx (d\<lparr>nd_ctx := params_update_delivered c\<rparr>))" by simp
  from params_at [OF this] show ?thesis by (simp add: on_callback_delivered_def n refl frame c)
qed

lemma delivery: "R (nd_ctx d) (snd (deliver E k f a d)) (nd_ctx (fst (deliver E k f a d)))"
proof -
  have a: "callback_frame (nd_ctx d) (nd_ctx (write_auction_phase a d))" by (simp add: write_auction_phase_def map_ctx_def flags_frame)
  obtain d1 es where i: "invoke_b E k f (write_auction_phase a d) = (d1, es)" by (cases "invoke_b E k f (write_auction_phase a d)")
  have "R (nd_ctx d) es (nd_ctx d1)" using invoke_at [OF a, of k f] by (simp add: i)
  from seq [OF this delivered] show ?thesis by (simp add: deliver_def i case_prod_beta)
qed

lemma init: "R (nd_ctx d) (fst (snd (init_new_instance E d))) (nd_ctx (fst (init_new_instance E d)))"
proof (cases "sg_init (ne_strategy E)")
  case (Some f)
  obtain d' es t where c: "call_strategy E On_Init f (map_ctx (set_in_init True) d) = (d', es, t)"
    by (cases "call_strategy E On_Init f (map_ctx (set_in_init True) d)")
  have "R (nd_ctx d) es (nd_ctx d')" using after_frame [OF _ call [OF c], of "nd_ctx d"] flags_frame(4) [of "nd_ctx d" True] by (simp add: map_ctx_def)
  from framed [OF this flags_frame(4)] show ?thesis using c by (simp add: init_new_instance_def Some map_ctx_def)
qed (simp add: init_new_instance_def refl)

lemma destroy: "R (nd_ctx d) (snd (dispatch_on_destroy E d)) (nd_ctx (fst (dispatch_on_destroy E d)))"
proof (cases "sg_destroy (ne_strategy E)")
  case (Some f)
  obtain d' es t where c: "call_strategy E On_Destroy f (map_ctx (set_auction False) d) = (d', es, t)"
    by (cases "call_strategy E On_Destroy f (map_ctx (set_auction False) d)")
  have "R (nd_ctx d) es (nd_ctx d')" using after_frame [OF _ call [OF c], of "nd_ctx d"] flags_frame(2) [of "nd_ctx d" False] by (simp add: map_ctx_def)
  then show ?thesis using c by (simp add: dispatch_on_destroy_def Some)
qed (simp add: dispatch_on_destroy_def refl)

end

lemma refreshed: "callback_frame (nd_ctx d) (nd_ctx (refresh_tick_snapshot k d))"
  by (simp add: refresh_tick_snapshot_def map_ctx_def flags_frame split: option.split)

lemma at_refreshed:
  "(\<And>c. account_frame c (f c)) \<Longrightarrow> account_frame (nd_ctx d) (nd_ctx (map_ctx f (refresh_tick_snapshot k d)))"
  using refreshed [of d k] by (simp add: map_ctx_def account_frame_def callback_frame_def)

text \<open>A relation that also survives new bars is respected by ticks and replays.\<close>

locale respected = callbacks E R for E :: "('d, 'p, 's) node_env" and R +
  assumes account: "account_frame c c' \<Longrightarrow> R c [] c'"
begin

lemma delivery_at: "account_frame c (nd_ctx d) \<Longrightarrow> R c (snd (deliver E k f a d)) (nd_ctx (fst (deliver E k f a d)))"
  using seq [OF account delivery] by simp

lemma event: "R (nd_ctx d) (snd (dispatch_event E k e d)) (nd_ctx (fst (dispatch_event E k e d)))"
proof (cases e)
  case (Bar_Open x a)
  note f = at_refreshed [where f = "advance_bar_ctx (ne_fp E) x" and d = d and k = k, OF frame_advance]
  show ?thesis by (simp add: Bar_Open dispatch_bar_open_def Let_def refl account [OF f] delivery_at [OF f])
next
  case (Bar_Update x a)
  note f = at_refreshed [where f = "update_current_bar (ne_fp E) x" and d = d and k = k, OF frame_update]
  show ?thesis by (simp add: Bar_Update dispatch_bar_update_def Let_def refl account [OF f] delivery_at [OF f])
next
  case (Bar_Close x a)
  note f = at_refreshed [where f = "update_profit_extremes (ne_fp E) (br_close x)" and d = d and k = k, OF frame_extremes]
  show ?thesis by (simp add: Bar_Close dispatch_bar_close_def Let_def refl account [OF f] delivery_at [OF f])
qed

lemma events: "R (nd_ctx d) (snd (dispatch_events E k es d)) (nd_ctx (fst (dispatch_events E k es d)))"
proof (induction es arbitrary: d)
  case (Cons e es)
  show ?case using seq [OF event Cons.IH] by (simp add: case_prod_beta)
qed (simp add: refl)

lemma builder: "R (nd_ctx d) (snd (builder_tick E cur k d)) (nd_ctx (fst (builder_tick E cur k d)))"
  using events [of "d\<lparr>nd_builder := fst (on_tick (ne_fp E) k (nd_builder d))\<rparr>" cur] by (simp add: builder_tick_def case_prod_beta)

lemma ticks: "R (nd_ctx d) (snd (replay_ticks E ks d)) (nd_ctx (fst (replay_ticks E ks d)))"
proof (induction ks arbitrary: d)
  case (Cons k ks)
  show ?case using seq [OF builder Cons.IH] refl by (simp add: case_prod_beta)
qed (simp add: refl)

lemma bars: "R (nd_ctx d) (snd (replay_bars E xs d)) (nd_ctx (fst (replay_bars E xs d)))"
proof (induction xs arbitrary: d)
  case (Cons x xs)
  show ?case using seq [OF ticks Cons.IH] refl by (simp add: case_prod_beta)
qed (simp add: refl)

lemma history: "R (nd_ctx d) (snd (replay_instrument_history E w n xs d)) (nd_ctx (fst (replay_instrument_history E w n xs d)))"
  using refl bars [of "d\<lparr>nd_silent := s, nd_replayed := t, nd_tail := Some (last (trim_history w xs)), nd_replaying := True\<rparr>" for s t]
  by (simp add: replay_instrument_history_def Let_def case_prod_beta)

lemma tick: "R (nd_ctx d) (snd (node_tick E k d)) (nd_ctx (fst (node_tick E k d)))"
  by (simp add: node_tick_def feed_tick_def refl builder)

lemma run: "R (nd_ctx d) (snd (node_ticks E ks d)) (nd_ctx (fst (node_ticks E ks d)))"
proof (induction ks arbitrary: d)
  case (Cons k ks)
  show ?case using seq [OF tick Cons.IH] by (simp add: case_prod_beta)
qed (simp add: refl)

end

section \<open>Instances\<close>

fun is_call :: "'d action \<Rightarrow> bool" where
  "is_call (Called i k) \<longleftrightarrow> True"
| "is_call e \<longleftrightarrow> False"

definition quiet :: "'d ictx \<Rightarrow> 'd action list \<Rightarrow> 'd ictx \<Rightarrow> bool" where
  "quiet c es c' \<longleftrightarrow> ic_live c' = ic_live c \<and> (\<not> ic_live c \<longrightarrow> list_all is_call es)"

interpretation quiet: respected E quiet for E :: "('d, 'p, 's) node_env"
proof
  show "quiet c (snd (execute_intent (ne_fp E) (Some (ne_accounts E)) i n p c)) (fst (execute_intent (ne_fp E) (Some (ne_accounts E)) i n p c))" for c i n p
    using execute_quiet [of c "ne_fp E" "Some (ne_accounts E)" i n p] by (auto simp: quiet_def)
qed (auto simp: quiet_def callback_frame_def account_frame_def)

definition follows :: "('d, 'p, 's) node_env \<Rightarrow> 'd attached \<Rightarrow> 'd ictx \<Rightarrow> 'd action list \<Rightarrow> 'd ictx \<Rightarrow> bool" where
  "follows E a c es c' \<longleftrightarrow> ic_live c' = ic_live c \<and> ic_session c' = ic_session c \<and>
     (distinct (map at_id (ne_accounts E)) \<and> a \<in> set (ne_accounts E) \<and> ic_live c \<and> ic_session c \<longrightarrow> tracked (ne_fp E) a c es c')"

lemma core_net: "position_core s = position_core t \<Longrightarrow> ps_net s = ps_net t"
  by (simp add: position_core_def) (metis position_state.select_convs(1) position_state.surjective position_state.update_convs(18,19))

interpretation follows: respected E "follows E a" for E :: "('d, 'p, 's) node_env" and a
proof
  show frame: "follows E a c [] c'" if "account_frame c c'" for c c'
    using that core_net [of "ic_position c'" "ic_position c"] by (simp add: follows_def account_frame_def tracked_same share_def)
  show "follows E a c [] c'" if "callback_frame c c'" for c c' using that by (simp add: callback_frame_def frame)
  show "follows E a c (es @ fs) c''" if "follows E a c es c'" "follows E a c' fs c''" for c es c' fs c''
    using that by (auto simp: follows_def intro: tracked_trans)
  show "follows E a c (snd (execute_intent (ne_fp E) (Some (ne_accounts E)) i n p c)) (fst (execute_intent (ne_fp E) (Some (ne_accounts E)) i n p c))" for c i n p
    by (simp add: follows_def execute_tracked)
  show "follows E a c [Called name k] c" for c name k by (simp add: follows_def tracked_def orders_for_def)
qed

definition ledger_kept :: "('d, 'p, 's) node_env \<Rightarrow> 'd ictx \<Rightarrow> 'd action list \<Rightarrow> 'd ictx \<Rightarrow> bool" where
  "ledger_kept E c es c' \<longleftrightarrow> (ledger_ok (ne_fp E) (ic_position c) \<longrightarrow> ledger_ok (ne_fp E) (ic_position c'))"

lemma core_ledger: "position_core s = position_core t \<Longrightarrow> ledger_ok F s \<longleftrightarrow> ledger_ok F t"
proof -
  have "ledger_ok F (position_core u) = ledger_ok F u" for u :: "'a position_state" by (simp add: ledger_ok_def position_core_def)
  then show "position_core s = position_core t \<Longrightarrow> ledger_ok F s \<longleftrightarrow> ledger_ok F t" by metis
qed

interpretation ledger: respected E "ledger_kept E" for E :: "('d, 'p, 's) node_env"
proof
  show frame: "ledger_kept E c [] c'" if "account_frame c c'" for c c'
    using that core_ledger [of "ic_position c'" "ic_position c" "ne_fp E"] by (simp add: ledger_kept_def account_frame_def)
  show "ledger_kept E c [] c'" if "callback_frame c c'" for c c' using that by (simp add: callback_frame_def frame)
qed (simp_all add: ledger_kept_def execute_ledger)

definition same_window :: "'d ictx \<Rightarrow> 'd action list \<Rightarrow> 'd ictx \<Rightarrow> bool" where
  "same_window c es c' \<longleftrightarrow> sx_window c' = sx_window c \<and> sx_index c' = sx_index c"

interpretation window: callbacks E same_window for E :: "('d, 'p, 's) node_env"
  by unfold_locales (simp_all add: same_window_def callback_frame_def)

end
