(* ===== verification/Bar_Gate.thy ===== *)
theory Bar_Gate
  imports Bar_Node_Facts
begin

text \<open>The strategy is not called before the window of its instrument is full, and a failed instance not at all.\<close>

section \<open>Windows of a node\<close>

definition filled_inv :: "nat \<Rightarrow> 'd ictx \<Rightarrow> bool" where
  "filled_inv n c \<longleftrightarrow> wn_max (sx_window c) = n \<and> -1 \<le> sx_index c \<and> int (wn_size (sx_window c)) = min (sx_index c + 1) (int n)"

lemma advance_geometry:
  "wn_max (sx_window (advance_bar_ctx F x c)) = wn_max (sx_window c)"
  "sx_index (advance_bar_ctx F x c) = sx_index c + 1"
  "wn_size (sx_window (advance_bar_ctx F x c)) = (if wn_size (sx_window c) < wn_max (sx_window c) then wn_size (sx_window c) + 1 else wn_size (sx_window c))"
  by (simp_all add: advance_bar_ctx_def advance_storage_def Let_def write_user_series_def write_bar_def relocate_def finish_relocate_def
      commit_advance_def)

lemma filled_advance: "filled_inv n c \<Longrightarrow> filled_inv n (advance_bar_ctx F x c)"
  by (auto simp: filled_inv_def advance_geometry)

lemma filled_same: "same_window c es c' \<Longrightarrow> filled_inv n c' = filled_inv n c"
  by (simp add: filled_inv_def same_window_def)

lemma update_same: "same_window c [] (update_current_bar F x c)" "same_window c [] (update_profit_extremes F p c)"
  by (simp_all add: same_window_def update_current_bar_def write_bar_def update_profit_extremes_def Let_def)

lemma refresh_same: "same_window (nd_ctx d) [] (nd_ctx (refresh_tick_snapshot k d))"
  by (rule window.frame [OF refreshed])

definition gated :: "nat \<Rightarrow> 'd ictx \<Rightarrow> 'd action list \<Rightarrow> 'd ictx \<Rightarrow> bool" where
  "gated n c es c' \<longleftrightarrow> (filled_inv n c \<longrightarrow> filled_inv n c' \<and> wn_size (sx_window c) \<le> wn_size (sx_window c') \<and> (es \<noteq> [] \<longrightarrow> wn_size (sx_window c') = n))"

lemma gated_nil: "gated n c [] c"
  by (simp add: gated_def)

lemma gated_seq: "gated n c es c' \<Longrightarrow> gated n c' fs c'' \<Longrightarrow> gated n c (es @ fs) c''"
  by (auto simp: gated_def filled_inv_def)

lemma gated_deliver:
  assumes "filled_inv n c \<Longrightarrow> filled_inv n (nd_ctx d) \<and> wn_size (sx_window c) \<le> wn_size (sx_window (nd_ctx d)) \<and> wn_size (sx_window (nd_ctx d)) = n"
  shows "gated n c (snd (deliver E k f a d)) (nd_ctx (fst (deliver E k f a d)))"
  using assms window.delivery [of d E k f a] filled_same [OF window.delivery [of d E k f a]] by (auto simp: gated_def same_window_def)

lemma gated_event: "gated n (nd_ctx d) (snd (dispatch_event E k e d)) (nd_ctx (fst (dispatch_event E k e d)))"
proof (cases e)
  case (Bar_Open x a)
  let ?d = "map_ctx (advance_bar_ctx (ne_fp E) x) (refresh_tick_snapshot k d)"
  have i: "filled_inv n (nd_ctx d) \<Longrightarrow> filled_inv n (nd_ctx ?d) \<and> wn_size (sx_window (nd_ctx d)) \<le> wn_size (sx_window (nd_ctx ?d))"
    using refresh_same [of d k] filled_advance [of n "nd_ctx (refresh_tick_snapshot k d)"]
    by (auto simp: map_ctx_def filled_same [OF refresh_same] advance_geometry same_window_def)
  have "gated n (nd_ctx d) (snd (deliver E On_Bar_Open (sg_open (ne_strategy E)) a ?d)) (nd_ctx (fst (deliver E On_Bar_Open (sg_open (ne_strategy E)) a ?d)))"
    if "bar_callback_enabled (nd_ctx ?d)"
    by (rule gated_deliver) (use i that in \<open>auto simp: filled_inv_def bar_callback_enabled_def\<close>)
  then show ?thesis using i by (auto simp: Bar_Open dispatch_bar_open_def Let_def gated_def)
next
  case (Bar_Update x a)
  let ?d = "map_ctx (update_current_bar (ne_fp E) x) (refresh_tick_snapshot k d)"
  have s: "same_window (nd_ctx d) [] (nd_ctx ?d)"
    using refresh_same [of d k] update_same(1) [of "nd_ctx (refresh_tick_snapshot k d)"] by (simp add: map_ctx_def same_window_def)
  have "gated n (nd_ctx d) (snd (deliver E On_Bar_Update (sg_update (ne_strategy E)) a ?d)) (nd_ctx (fst (deliver E On_Bar_Update (sg_update (ne_strategy E)) a ?d)))"
    if "bar_callback_enabled (nd_ctx ?d)"
    by (rule gated_deliver) (use s that in \<open>auto simp: filled_inv_def bar_callback_enabled_def same_window_def\<close>)
  then show ?thesis using s by (auto simp: Bar_Update dispatch_bar_update_def Let_def gated_def filled_same [OF s]) (auto simp: same_window_def)
next
  case (Bar_Close x a)
  let ?d = "map_ctx (update_profit_extremes (ne_fp E) (br_close x)) (refresh_tick_snapshot k d)"
  have s: "same_window (nd_ctx d) [] (nd_ctx ?d)"
    using refresh_same [of d k] update_same(2) [of "nd_ctx (refresh_tick_snapshot k d)"] by (simp add: map_ctx_def same_window_def)
  have "gated n (nd_ctx d) (snd (deliver E On_Bar_Close (sg_close (ne_strategy E)) a ?d)) (nd_ctx (fst (deliver E On_Bar_Close (sg_close (ne_strategy E)) a ?d)))"
    if "close_callback_enabled (nd_ctx ?d)"
    by (rule gated_deliver) (use s that in \<open>auto simp: filled_inv_def close_callback_enabled_def same_window_def\<close>)
  then show ?thesis using s by (auto simp: Bar_Close dispatch_bar_close_def Let_def gated_def filled_same [OF s]) (auto simp: same_window_def)
qed

lemma gated_events: "gated n (nd_ctx d) (snd (dispatch_events E k es d)) (nd_ctx (fst (dispatch_events E k es d)))"
proof (induction es arbitrary: d)
  case (Cons e es)
  show ?case using gated_seq [OF gated_event Cons.IH] by (simp add: case_prod_beta)
qed (simp add: gated_nil)

lemma gated_tick: "gated n (nd_ctx d) (snd (node_tick E k d)) (nd_ctx (fst (node_tick E k d)))"
  using gated_events [of n "d\<lparr>nd_builder := fst (on_tick (ne_fp E) k (nd_builder d))\<rparr>" E "Some k" "snd (on_tick (ne_fp E) k (nd_builder d))"]
  by (simp add: node_tick_def feed_tick_def builder_tick_def case_prod_beta gated_nil)

lemma gated_ticks: "gated n (nd_ctx d) (snd (node_ticks E ks d)) (nd_ctx (fst (node_ticks E ks d)))"
proof (induction ks arbitrary: d)
  case (Cons k ks)
  show ?case using gated_seq [OF gated_tick Cons.IH] by (simp add: case_prod_beta)
qed (simp add: gated_nil)

lemma gated_builder: "gated n (nd_ctx d) (snd (builder_tick E j k d)) (nd_ctx (fst (builder_tick E j k d)))"
  using gated_events [of n "d\<lparr>nd_builder := fst (on_tick (ne_fp E) k (nd_builder d))\<rparr>" E j "snd (on_tick (ne_fp E) k (nd_builder d))"]
  by (simp add: builder_tick_def case_prod_beta)

lemma gated_replay_ticks: "gated n (nd_ctx d) (snd (replay_ticks E ks d)) (nd_ctx (fst (replay_ticks E ks d)))"
proof (induction ks arbitrary: d)
  case (Cons k ks)
  show ?case using gated_seq [OF gated_builder [of n d E None k] Cons.IH] by (simp add: case_prod_beta gated_nil)
qed (simp add: gated_nil)

lemma gated_replay_bars: "gated n (nd_ctx d) (snd (replay_bars E xs d)) (nd_ctx (fst (replay_bars E xs d)))"
proof (induction xs arbitrary: d)
  case (Cons x xs)
  show ?case using gated_seq [OF gated_replay_ticks [of n d E "make_replay_ticks (ne_fp E) x"] Cons.IH] by (simp add: case_prod_beta gated_nil)
qed (simp add: gated_nil)

lemma gated_history:
  "gated n (nd_ctx d) (snd (replay_instrument_history E w l xs d)) (nd_ctx (fst (replay_instrument_history E w l xs d)))"
proof -
  have "gated n (nd_ctx d) (snd (replay_bars E ys (d\<lparr>nd_silent := s, nd_replayed := r, nd_tail := t, nd_replaying := True\<rparr>)))
      (nd_ctx (fst (replay_bars E ys (d\<lparr>nd_silent := s, nd_replayed := r, nd_tail := t, nd_replaying := True\<rparr>))))" for ys s r t
    using gated_replay_bars [of n "d\<lparr>nd_silent := s, nd_replayed := r, nd_tail := t, nd_replaying := True\<rparr>" E ys] by simp
  then show ?thesis by (simp add: replay_instrument_history_def case_prod_beta gated_nil Let_def)
qed

lemma new_filled: "filled_inv n (new_context F raw name n b spec session scaling)"
  by (simp add: filled_inv_def new_context_def new_window_def)

section \<open>Failed instances\<close>

lemma failed_event: "ic_failed (nd_ctx d) \<Longrightarrow> dispatch_event E k e d = (d, [])"
  by (cases e) (simp_all add: dispatch_bar_open_def dispatch_bar_update_def dispatch_bar_close_def)

lemma failed_ticks: "ic_failed (nd_ctx d) \<Longrightarrow> node_ticks E ks d = (d, [])"
  by (induction ks) (simp_all add: node_tick_def)

end
