(* ===== verification/Bar_Config.thy ===== *)
theory Bar_Config
  imports Bar_Window
begin

text \<open>
  The configuration of a bar strategy (\<open>bar_strategy/config.h\<close>, \<open>config_file.h\<close>): JSON to configuration, its validation
  and the values derived from it, configuration to JSON, and the store that validates, writes and only then changes. An
  error is the field it names. A JSON object is its members; \<open>nlohmann\<close> keeps them sorted, and the order is never
  read. Writing the file is one step that succeeds or not.
\<close>

section \<open>JSON\<close>

datatype 'd json =
    J_Null
  | J_Bool bool
  | J_Int int
  | J_Float 'd
  | J_String string
  | J_Array "'d json list"
  | J_Object "(string \<times> 'd json) list"

datatype config_error = Bad_Field string | Bad_Item string nat string

type_synonym 'a checked = "config_error + 'a"

definition and_then :: "'a checked \<Rightarrow> ('a \<Rightarrow> 'b checked) \<Rightarrow> 'b checked" where
  "and_then r f = (case r of Inl e \<Rightarrow> Inl e | Inr v \<Rightarrow> f v)"

fun each_item :: "(nat \<Rightarrow> 'a \<Rightarrow> 'b checked) \<Rightarrow> nat \<Rightarrow> 'a list \<Rightarrow> 'b list checked" where
  "each_item f i [] = Inr []"
| "each_item f i (x # xs) = and_then (f i x) (\<lambda>y. and_then (each_item f (i + 1) xs) (\<lambda>ys. Inr (y # ys)))"

type_synonym 'd members = "(string \<times> 'd json) list"

definition require_member :: "'d members \<Rightarrow> string \<Rightarrow> config_error \<Rightarrow> 'd json checked" where
  "require_member obj field e = (case map_of obj field of None \<Rightarrow> Inl e | Some v \<Rightarrow> Inr v)"

definition require_integer :: "'d members \<Rightarrow> string \<Rightarrow> config_error \<Rightarrow> int checked" where
  "require_integer obj field e =
     and_then (require_member obj field e)
       (\<lambda>v. case v of J_Int n \<Rightarrow> if n > large_max then Inl e else Inr n | _ \<Rightarrow> Inl e)"

definition require_int32 :: "'d members \<Rightarrow> string \<Rightarrow> config_error \<Rightarrow> int checked" where
  "require_int32 obj field e =
     and_then (require_integer obj field e) (\<lambda>n. if n < -2147483648 \<or> n > 2147483647 then Inl e else Inr n)"

definition require_number :: "('d, 'f) fp_scheme \<Rightarrow> 'd members \<Rightarrow> string \<Rightarrow> config_error \<Rightarrow> 'd checked" where
  "require_number F obj field e =
     and_then (require_member obj field e) (\<lambda>v. case v of J_Int n \<Rightarrow> Inr (fp_of_int F n) | J_Float d \<Rightarrow> Inr d | _ \<Rightarrow> Inl e)"

definition require_string :: "'d members \<Rightarrow> string \<Rightarrow> config_error \<Rightarrow> string checked" where
  "require_string obj field e = and_then (require_member obj field e) (\<lambda>v. case v of J_String s \<Rightarrow> Inr s | _ \<Rightarrow> Inl e)"

definition require_boolean :: "'d members \<Rightarrow> string \<Rightarrow> config_error \<Rightarrow> bool checked" where
  "require_boolean obj field e = and_then (require_member obj field e) (\<lambda>v. case v of J_Bool b \<Rightarrow> Inr b | _ \<Rightarrow> Inl e)"

definition require_array :: "'d members \<Rightarrow> string \<Rightarrow> config_error \<Rightarrow> 'd json list checked" where
  "require_array obj field e = and_then (require_member obj field e) (\<lambda>v. case v of J_Array xs \<Rightarrow> Inr xs | _ \<Rightarrow> Inl e)"

fun rounding_name :: "scale_rounding \<Rightarrow> string" where
  "rounding_name Round_Nearest = ''nearest''"
| "rounding_name Round_Floor = ''floor''"
| "rounding_name Round_Ceil = ''ceil''"

definition parse_rounding :: "'d members \<Rightarrow> string \<Rightarrow> config_error \<Rightarrow> scale_rounding checked" where
  "parse_rounding obj field e =
     and_then (require_string obj field e)
       (\<lambda>s. if s = rounding_name Round_Nearest then Inr Round_Nearest else if s = rounding_name Round_Floor then Inr Round_Floor
             else if s = rounding_name Round_Ceil then Inr Round_Ceil else Inl e)"

definition known_keys :: "'d members \<Rightarrow> string list \<Rightarrow> bool" where
  "known_keys obj allowed = list_all (\<lambda>(k, v). k \<in> set allowed) obj"

definition optional :: "'d members \<Rightarrow> string \<Rightarrow> ('d members \<Rightarrow> string \<Rightarrow> config_error \<Rightarrow> 'a checked) \<Rightarrow> 'a option checked" where
  "optional obj field f =
     (case map_of obj field of None \<Rightarrow> Inr None | Some v \<Rightarrow> and_then (f obj field (Bad_Field field)) (\<lambda>x. Inr (Some x)))"

section \<open>Parsing\<close>

record 'd bar_config =
  bc_version :: int
  bc_period :: int
  bc_instruments :: "string list"
  bc_accounts :: "'d attached list"
  bc_max_scale :: "'d option"
  bc_rounding :: "scale_rounding option"
  bc_min_one :: "bool option"
  bc_lookback :: "int option"
  bc_reserve :: "int option"
  bc_warm_bars :: "int option"
  bc_warm_from :: "string option"
  bc_params :: "'d members"

definition parse_instrument_item :: "nat \<Rightarrow> 'd json \<Rightarrow> string checked" where
  "parse_instrument_item i v = (case v of J_String s \<Rightarrow> Inr s | _ \<Rightarrow> Inl (Bad_Item ''instruments'' i []))"

definition parse_account_item :: "('d, 'f) fp_scheme \<Rightarrow> nat \<Rightarrow> 'd json \<Rightarrow> 'd attached checked" where
  "parse_account_item F i v =
     (case v of
        J_Object obj \<Rightarrow>
          if \<not> known_keys obj [''account_id'', ''scale''] then Inl (Bad_Item ''accounts'' i [])
          else and_then (require_string obj ''account_id'' (Bad_Item ''accounts'' i ''.account_id''))
                 (\<lambda>s. and_then (require_number F obj ''scale'' (Bad_Item ''accounts'' i ''.scale''))
                   (\<lambda>x. Inr \<lparr>at_id = s, at_scale = x\<rparr>))
      | _ \<Rightarrow> Inl (Bad_Item ''accounts'' i []))"

definition parse_accounts :: "('d, 'f) fp_scheme \<Rightarrow> 'd members \<Rightarrow> 'd attached list checked" where
  "parse_accounts F doc =
     (case map_of doc ''accounts'' of
        None \<Rightarrow> Inr []
      | Some (J_Array xs) \<Rightarrow> each_item (parse_account_item F) 0 xs
      | Some v \<Rightarrow> Inl (Bad_Field ''accounts''))"

definition parse_warmup :: "'d members \<Rightarrow> (int option \<times> string option) checked" where
  "parse_warmup doc =
     (case map_of doc ''warmup'' of
        None \<Rightarrow> Inr (None, None)
      | Some (J_Object obj) \<Rightarrow>
          if \<not> known_keys obj [''bars'', ''from''] then Inl (Bad_Field ''warmup'')
          else let has_bars = map_of obj ''bars'' \<noteq> None; has_from = map_of obj ''from'' \<noteq> None
               in if has_bars \<and> has_from then Inl (Bad_Field ''warmup'')
                  else if \<not> has_bars \<and> \<not> has_from then Inl (Bad_Field ''warmup'')
                  else if has_bars then and_then (require_integer obj ''bars'' (Bad_Field ''warmup.bars'')) (\<lambda>n. Inr (Some n, None))
                  else and_then (require_string obj ''from'' (Bad_Field ''warmup.from'')) (\<lambda>s. Inr (None, Some s))
      | Some v \<Rightarrow> Inl (Bad_Field ''warmup''))"

definition parse_params :: "'d members \<Rightarrow> 'd members checked" where
  "parse_params doc =
     (case map_of doc ''params'' of
        None \<Rightarrow> Inr []
      | Some (J_Object obj) \<Rightarrow> Inr obj
      | Some v \<Rightarrow> Inl (Bad_Field ''params''))"

definition parse_config :: "('d, 'f) fp_scheme \<Rightarrow> 'd json \<Rightarrow> 'd bar_config checked" where
  "parse_config F file =
     (case file of
        J_Object doc \<Rightarrow>
          and_then (require_integer doc ''schema_version'' (Bad_Field ''schema_version'')) (\<lambda>version.
          if version \<noteq> 1 then Inl (Bad_Field ''schema_version'') else
          and_then (require_int32 doc ''period_sec'' (Bad_Field ''period_sec'')) (\<lambda>period.
          and_then (require_array doc ''instruments'' (Bad_Field ''instruments'')) (\<lambda>items.
          and_then (each_item parse_instrument_item 0 items) (\<lambda>instruments.
          and_then (optional doc ''max_scale'' (require_number F)) (\<lambda>max_scale.
          and_then (optional doc ''scale_rounding'' parse_rounding) (\<lambda>rounding.
          and_then (optional doc ''scale_min_one'' require_boolean) (\<lambda>min_one.
          and_then (parse_accounts F doc) (\<lambda>accounts.
          and_then (optional doc ''max_lookback'' require_int32) (\<lambda>lookback.
          and_then (optional doc ''reserve_bars'' require_int32) (\<lambda>reserve.
          and_then (parse_warmup doc) (\<lambda>warm.
          and_then (parse_params doc) (\<lambda>params.
          Inr \<lparr>bc_version = version, bc_period = period, bc_instruments = instruments, bc_accounts = accounts,
               bc_max_scale = max_scale, bc_rounding = rounding, bc_min_one = min_one, bc_lookback = lookback,
               bc_reserve = reserve, bc_warm_bars = fst warm, bc_warm_from = snd warm, bc_params = params\<rparr>))))))))))))
      | _ \<Rightarrow> Inl (Bad_Field ''config''))"

section \<open>Dates\<close>

definition is_digit :: "char \<Rightarrow> bool" where
  "is_digit c \<longleftrightarrow> 48 \<le> (of_char c :: nat) \<and> (of_char c :: nat) \<le> 57"

definition is_date_text :: "string \<Rightarrow> bool" where
  "is_date_text s \<longleftrightarrow> length s = 10 \<and> list_all (\<lambda>i. if i = 4 \<or> i = 7 then s ! i = CHR ''-'' else is_digit (s ! i)) [0..<10]"

definition digits_value :: "string \<Rightarrow> int" where
  "digits_value s = foldl (\<lambda>n c. 10 * n + (int (of_char c) - 48)) 0 s"

definition leap_year :: "int \<Rightarrow> bool" where
  "leap_year y \<longleftrightarrow> y mod 4 = 0 \<and> (y mod 100 \<noteq> 0 \<or> y mod 400 = 0)"

definition days_in_month :: "int \<Rightarrow> int \<Rightarrow> int" where
  "days_in_month y m =
     (if m = 2 then (if leap_year y then 29 else 28) else if m = 4 \<or> m = 6 \<or> m = 9 \<or> m = 11 then 30 else 31)"

definition days_from_civil :: "int \<Rightarrow> int \<Rightarrow> int \<Rightarrow> int" where
  "days_from_civil y m d =
     (let y' = (if m \<le> 2 then y - 1 else y); era = y' div 400; yoe = y' mod 400;
          doy = (153 * (if m > 2 then m - 3 else m + 9) + 2) div 5 + d - 1
      in era * 146097 + yoe * 365 + yoe div 4 - yoe div 100 + doy - 719468)"

text \<open>\<open>Date::from_string\<close> of a text of the right shape; \<open>None\<close> where it throws.\<close>

definition date_of_text :: "string \<Rightarrow> int option" where
  "date_of_text s =
     (let y = digits_value (take 4 s); m = digits_value (take 2 (drop 5 s)); d = digits_value (drop 8 s)
      in if 1 \<le> m \<and> m \<le> 12 \<and> 1 \<le> d \<and> d \<le> days_in_month y m then Some (days_from_civil y m d) else None)"

definition warmup_from_ok :: "string \<Rightarrow> int \<Rightarrow> bool" where
  "warmup_from_ok s today \<longleftrightarrow> is_date_text s \<and> (case date_of_text s of None \<Rightarrow> False | Some n \<Rightarrow> \<not> today - n < 0)"

section \<open>Validation\<close>

datatype value_source = Explicit | Automatic | Default_Value

record 'd effective_config =
  ec_config :: "'d bar_config"
  ec_scaling :: "'d scaling_config"
  ec_capacity :: capacity
  ec_lookback_source :: value_source
  ec_reserve_source :: value_source
  ec_warm_bars :: "int option"
  ec_warm_from :: "string option"
  ec_warm_source :: value_source

fun distinct_items :: "string \<Rightarrow> string \<Rightarrow> nat \<Rightarrow> string list \<Rightarrow> string list \<Rightarrow> unit checked" where
  "distinct_items prefix suffix i seen [] = Inr ()"
| "distinct_items prefix suffix i seen (s # ss) =
     (if s = [] \<or> s \<in> set seen then Inl (Bad_Item prefix i suffix) else distinct_items prefix suffix (i + 1) (s # seen) ss)"

text \<open>The identifier and the ratio of an account are checked together, account by account.\<close>

fun accounts_checked :: "('d, 'f) fp_scheme \<Rightarrow> 'd \<Rightarrow> nat \<Rightarrow> string list \<Rightarrow> 'd attached list \<Rightarrow> unit checked" where
  "accounts_checked F limit i seen [] = Inr ()"
| "accounts_checked F limit i seen (a # as) =
     (if at_id a = [] \<or> at_id a \<in> set seen then Inl (Bad_Item ''accounts'' i ''.account_id'')
      else if \<not> fp_finite F (at_scale a) \<or> fp_le F (at_scale a) (fp_zero F) then Inl (Bad_Item ''accounts'' i ''.scale'')
      else if fp_lt F limit (at_scale a) then Inl (Bad_Item ''accounts'' i ''.scale'')
      else accounts_checked F limit (i + 1) (at_id a # seen) as)"

definition or_default :: "'a option \<Rightarrow> 'a \<Rightarrow> 'a" where
  "or_default x y = (case x of None \<Rightarrow> y | Some v \<Rightarrow> v)"

definition resolve_warmup :: "'d bar_config \<Rightarrow> int \<Rightarrow> int \<Rightarrow> (int option \<times> string option \<times> value_source) checked" where
  "resolve_warmup c lookback today =
     (case (bc_warm_bars c, bc_warm_from c) of
        (Some n, Some s) \<Rightarrow> Inl (Bad_Field ''warmup'')
      | (Some n, None) \<Rightarrow> if n < lookback \<or> n > 10000000 then Inl (Bad_Field ''warmup.bars'') else Inr (Some n, None, Explicit)
      | (None, Some s) \<Rightarrow> if warmup_from_ok s today then Inr (None, Some s, Explicit) else Inl (Bad_Field ''warmup.from'')
      | (None, None) \<Rightarrow> Inr (Some (max 10000 lookback), None, Default_Value))"

definition resolve_effective_config :: "('d, 'f) fp_scheme \<Rightarrow> int \<Rightarrow> 'd bar_config \<Rightarrow> 'd effective_config checked" where
  "resolve_effective_config F today c =
     (let limit = or_default (bc_max_scale c) (fp_one F) in
      if bc_version c \<noteq> 1 then Inl (Bad_Field ''schema_version'')
      else if bc_period c \<notin> {60, 180, 300, 900} then Inl (Bad_Field ''period_sec'')
      else if bc_instruments c = [] then Inl (Bad_Field ''instruments'')
      else and_then (distinct_items ''instruments'' [] 0 [] (bc_instruments c)) (\<lambda>_.
        if \<not> fp_finite F limit \<or> fp_le F limit (fp_zero F) then Inl (Bad_Field ''max_scale'')
        else and_then (accounts_checked F limit 0 [] (bc_accounts c)) (\<lambda>_.
          case resolve_capacity (bc_period c) (bc_lookback c) (bc_reserve c) of
            None \<Rightarrow> Inl (Bad_Field ''capacity'')
          | Some y \<Rightarrow>
              and_then (resolve_warmup c (cy_max y) today) (\<lambda>(n, s, src).
                Inr \<lparr>ec_config = c,
                     ec_scaling = \<lparr>sc_max_scale = limit, sc_rounding = or_default (bc_rounding c) Round_Nearest,
                                   sc_min_one = or_default (bc_min_one c) False\<rparr>,
                     ec_capacity = y, ec_lookback_source = (if bc_lookback c \<noteq> None then Explicit else Automatic),
                     ec_reserve_source = (if bc_reserve c \<noteq> None then Explicit else Automatic),
                     ec_warm_bars = n, ec_warm_from = s, ec_warm_source = src\<rparr>))))"

section \<open>Writing back\<close>

definition set_optional :: "string \<Rightarrow> ('a \<Rightarrow> 'd json) \<Rightarrow> 'a option \<Rightarrow> 'd members \<Rightarrow> 'd members" where
  "set_optional field f x obj = (case x of None \<Rightarrow> AList.delete field obj | Some v \<Rightarrow> AList.update field (f v) obj)"

definition account_document :: "'d attached \<Rightarrow> 'd json" where
  "account_document a = J_Object [(''account_id'', J_String (at_id a)), (''scale'', J_Float (at_scale a))]"

definition warmup_document :: "'d bar_config \<Rightarrow> 'd json option" where
  "warmup_document c =
     (case bc_warm_bars c of
        Some n \<Rightarrow> Some (J_Object [(''bars'', J_Int n)])
      | None \<Rightarrow> (case bc_warm_from c of Some s \<Rightarrow> Some (J_Object [(''from'', J_String s)]) | None \<Rightarrow> None))"

definition apply_config :: "'d bar_config \<Rightarrow> 'd members \<Rightarrow> 'd members" where
  "apply_config c doc =
     set_optional ''warmup'' id (warmup_document c)
     (set_optional ''reserve_bars'' J_Int (bc_reserve c)
     (set_optional ''max_lookback'' J_Int (bc_lookback c)
     (set_optional ''scale_min_one'' J_Bool (bc_min_one c)
     (set_optional ''scale_rounding'' (\<lambda>r. J_String (rounding_name r)) (bc_rounding c)
     (set_optional ''max_scale'' J_Float (bc_max_scale c)
     (AList.update ''params'' (J_Object (bc_params c))
     (AList.update ''accounts'' (J_Array (map account_document (bc_accounts c)))
     (AList.update ''instruments'' (J_Array (map J_String (bc_instruments c)))
     (AList.update ''period_sec'' (J_Int (bc_period c))
     (AList.update ''schema_version'' (J_Int (bc_version c)) doc))))))))))"

definition make_minimal_default_config :: "'d members" where
  "make_minimal_default_config =
     [(''schema_version'', J_Int 1), (''period_sec'', J_Int 60), (''instruments'', J_Array []), (''accounts'', J_Array []), (''params'', J_Object [])]"

section \<open>The store\<close>

record 'd config_store =
  cs_document :: "'d members"
  cs_current :: "'d effective_config"

text \<open>A write that fails throws, and nothing changes; the flag says whether the write succeeds.\<close>

definition commit_store :: "('d, 'f) fp_scheme \<Rightarrow> int \<Rightarrow> bool \<Rightarrow> 'd bar_config \<Rightarrow> 'd config_store \<Rightarrow> 'd config_store option" where
  "commit_store F today written next s =
     (case resolve_effective_config F today next of
        Inl e \<Rightarrow> None
      | Inr e \<Rightarrow>
          if bc_period (ec_config e) \<noteq> bc_period (ec_config (cs_current s)) then None
          else if \<not> fp_eq F (sc_max_scale (ec_scaling e)) (sc_max_scale (ec_scaling (cs_current s))) then None
          else if \<not> written then None
          else Some \<lparr>cs_document = apply_config next (cs_document s), cs_current = e\<rparr>)"

text \<open>Loading: a missing file is generated and the process exits, a file that does not parse or validate throws.\<close>

datatype 'd load_result = Load_Ok "'d config_store" | Load_Generated "'d members" | Load_Failed

definition load_config_file :: "('d, 'f) fp_scheme \<Rightarrow> int \<Rightarrow> bool \<Rightarrow> 'd json option option \<Rightarrow> 'd load_result" where
  "load_config_file F today written file =
     (case file of
        None \<Rightarrow> if written then Load_Generated make_minimal_default_config else Load_Failed
      | Some None \<Rightarrow> Load_Failed
      | Some (Some (J_Object doc)) \<Rightarrow>
          (case and_then (parse_config F (J_Object doc)) (resolve_effective_config F today) of
             Inl e \<Rightarrow> Load_Failed
           | Inr e \<Rightarrow> Load_Ok \<lparr>cs_document = doc, cs_current = e\<rparr>)
      | Some (Some v) \<Rightarrow> Load_Failed)"

end
