(* ===== verification/Bar_Command.thy ===== *)
theory Bar_Command
  imports Bar_Ledger
begin

text \<open>
  The operator's commands (\<open>bar_strategy/command.h\<close>): a line is split at white space and parsed to one of twelve
  commands or refused with a reason. The text of a reason is a constructor and what it quotes. \<open>from_chars\<close> is a
  parameter: what value, if any, a token denotes in full.
\<close>

datatype command_kind =
    Instrument_Add | Instrument_Del | Instrument_List | Account_Add | Account_Set | Account_Del | Account_List
  | Param_Get | Param_Set | Param_List | Show_Status | Quit_Strategy

record 'd command =
  cm_kind :: command_kind
  cm_target :: string
  cm_scale :: 'd
  cm_sync :: bool
  cm_market :: bool
  cm_token :: string

datatype command_error =
    Empty_Line
  | Unknown_Command string
  | Missing_Argument string string
  | Unexpected_Argument string string
  | Unknown_Subcommand string string
  | Expected_Literal string string
  | Invalid_Scale string string
  | Conflicting_Keyword string string

type_synonym 'd parsed = "command_error + 'd command"

definition is_ascii_space :: "char \<Rightarrow> bool" where
  "is_ascii_space c \<longleftrightarrow> (of_char c :: nat) \<in> {32, 9, 13, 10, 12, 11}"

text \<open>The inner loops skip spaces and collect a token.\<close>

definition token_of :: "string \<Rightarrow> string" where
  "token_of s = takeWhile (\<lambda>c. \<not> is_ascii_space c) s"

function tokenize :: "string \<Rightarrow> string list" where
  "tokenize s =
     (let t = dropWhile is_ascii_space s
      in if t = [] then [] else token_of t # tokenize (dropWhile (\<lambda>c. \<not> is_ascii_space c) t))"
  by auto

termination
proof (relation "measure length", simp)
  fix s t :: string
  assume t: "t = dropWhile is_ascii_space s" and n: "t \<noteq> []"
  have "\<not> is_ascii_space (hd t)" using t n hd_dropWhile by metis
  then have "length (dropWhile (\<lambda>c. \<not> is_ascii_space c) t) < length t"
    using n length_dropWhile_le [of "\<lambda>c. \<not> is_ascii_space c" "tl t"] by (cases t) auto
  moreover have "length t \<le> length s" unfolding t by (rule length_dropWhile_le)
  ultimately show "(dropWhile (\<lambda>c. \<not> is_ascii_space c) t, s) \<in> measure length" by simp
qed

declare tokenize.simps [simp del]

record tail_flags =
  tf_sync :: bool
  tf_market :: bool
  tf_seen :: bool

fun parse_tail :: "string \<Rightarrow> string list \<Rightarrow> tail_flags \<Rightarrow> command_error + tail_flags" where
  "parse_tail name [] f = Inr f"
| "parse_tail name (t # ts) f =
     (if t = ''sync'' \<or> t = ''nosync''
      then (if tf_seen f then Inl (Conflicting_Keyword name t)
            else parse_tail name ts (f\<lparr>tf_seen := True, tf_sync := (t = ''sync'')\<rparr>))
      else if t = ''market''
      then (if tf_market f then Inl (Conflicting_Keyword name ''market'') else parse_tail name ts (f\<lparr>tf_market := True\<rparr>))
      else Inl (Unexpected_Argument name t))"

definition parse_tail_flags :: "string \<Rightarrow> string list \<Rightarrow> command_error + tail_flags" where
  "parse_tail_flags name ts = parse_tail name ts \<lparr>tf_sync = False, tf_market = False, tf_seen = False\<rparr>"

definition plain_command :: "('d, 'f) fp_scheme \<Rightarrow> command_kind \<Rightarrow> string \<Rightarrow> 'd command" where
  "plain_command F k target = \<lparr>cm_kind = k, cm_target = target, cm_scale = fp_zero F, cm_sync = False, cm_market = False, cm_token = []\<rparr>"

definition with_tail :: "string \<Rightarrow> string list \<Rightarrow> 'd command \<Rightarrow> 'd parsed" where
  "with_tail name ts c =
     (case parse_tail_flags name ts of
        Inl e \<Rightarrow> Inl e
      | Inr f \<Rightarrow> Inr (c\<lparr>cm_sync := tf_sync f, cm_market := tf_market f\<rparr>))"

definition parse_positive_scale :: "('d, 'f) fp_scheme \<Rightarrow> (string \<Rightarrow> 'd option) \<Rightarrow> string \<Rightarrow> 'd option" where
  "parse_positive_scale F from_chars t =
     (if t = [] then None
      else case from_chars t of
             None \<Rightarrow> None
           | Some v \<Rightarrow> if \<not> fp_finite F v \<or> \<not> fp_lt F (fp_zero F) v then None else Some v)"

definition parse_instrument :: "('d, 'f) fp_scheme \<Rightarrow> string list \<Rightarrow> 'd parsed" where
  "parse_instrument F ts =
     (if length ts < 2 then Inl (Missing_Argument ''instrument'' ''subcommand'')
      else let s = ts ! 1 in
      if s = ''add''
      then (if length ts < 3 then Inl (Missing_Argument ''instrument.add'' ''id'')
            else if length ts > 3 then Inl (Unexpected_Argument ''instrument.add'' (ts ! 3))
            else Inr (plain_command F Instrument_Add (ts ! 2)))
      else if s = ''del''
      then (if length ts < 3 then Inl (Missing_Argument ''instrument.del'' ''id'')
            else with_tail ''instrument.del'' (drop 3 ts) (plain_command F Instrument_Del (ts ! 2)))
      else if s = ''list''
      then (if length ts > 2 then Inl (Unexpected_Argument ''instrument.list'' (ts ! 2)) else Inr (plain_command F Instrument_List []))
      else Inl (Unknown_Subcommand ''instrument'' s))"

definition parse_account :: "('d, 'f) fp_scheme \<Rightarrow> (string \<Rightarrow> 'd option) \<Rightarrow> string list \<Rightarrow> 'd parsed" where
  "parse_account F from_chars ts =
     (if length ts < 2 then Inl (Missing_Argument ''account'' ''subcommand'')
      else let s = ts ! 1 in
      if s = ''add''
      then (if length ts < 3 then Inl (Missing_Argument ''account.add'' ''id'')
            else if length ts < 4 then Inl (Missing_Argument ''account.add'' ''scale'')
            else case parse_positive_scale F from_chars (ts ! 3) of
                   None \<Rightarrow> Inl (Invalid_Scale ''account.add'' (ts ! 3))
                 | Some v \<Rightarrow> with_tail ''account.add'' (drop 4 ts) ((plain_command F Account_Add (ts ! 2))\<lparr>cm_scale := v\<rparr>))
      else if s = ''set''
      then (if length ts < 3 then Inl (Missing_Argument ''account.set'' ''id'')
            else if length ts < 4 then Inl (Missing_Argument ''account.set'' ''scale_literal'')
            else if ts ! 3 \<noteq> ''scale'' then Inl (Expected_Literal ''account.set'' (ts ! 3))
            else if length ts < 5 then Inl (Missing_Argument ''account.set'' ''scale'')
            else case parse_positive_scale F from_chars (ts ! 4) of
                   None \<Rightarrow> Inl (Invalid_Scale ''account.set'' (ts ! 4))
                 | Some v \<Rightarrow> with_tail ''account.set'' (drop 5 ts) ((plain_command F Account_Set (ts ! 2))\<lparr>cm_scale := v\<rparr>))
      else if s = ''del''
      then (if length ts < 3 then Inl (Missing_Argument ''account.del'' ''id'')
            else with_tail ''account.del'' (drop 3 ts) (plain_command F Account_Del (ts ! 2)))
      else if s = ''list''
      then (if length ts > 2 then Inl (Unexpected_Argument ''account.list'' (ts ! 2)) else Inr (plain_command F Account_List []))
      else Inl (Unknown_Subcommand ''account'' s))"

definition parse_param :: "('d, 'f) fp_scheme \<Rightarrow> string list \<Rightarrow> 'd parsed" where
  "parse_param F ts =
     (if length ts < 2 then Inl (Missing_Argument ''param'' ''subcommand'')
      else let s = ts ! 1 in
      if s = ''get''
      then (if length ts < 3 then Inl (Missing_Argument ''param.get'' ''name'')
            else if length ts > 3 then Inl (Unexpected_Argument ''param.get'' (ts ! 3))
            else Inr (plain_command F Param_Get (ts ! 2)))
      else if s = ''set''
      then (if length ts < 3 then Inl (Missing_Argument ''param.set'' ''name'')
            else if length ts < 4 then Inl (Missing_Argument ''param.set'' ''value'')
            else if length ts > 4 then Inl (Unexpected_Argument ''param.set'' (ts ! 4))
            else Inr ((plain_command F Param_Set (ts ! 2))\<lparr>cm_token := ts ! 3\<rparr>))
      else if s = ''list''
      then (if length ts > 2 then Inl (Unexpected_Argument ''param.list'' (ts ! 2)) else Inr (plain_command F Param_List []))
      else Inl (Unknown_Subcommand ''param'' s))"

definition parse_word_command :: "('d, 'f) fp_scheme \<Rightarrow> command_kind \<Rightarrow> string \<Rightarrow> string list \<Rightarrow> 'd parsed" where
  "parse_word_command F k name ts =
     (if length ts > 1 then Inl (Unexpected_Argument name (ts ! 1)) else Inr (plain_command F k []))"

definition parse_command :: "('d, 'f) fp_scheme \<Rightarrow> (string \<Rightarrow> 'd option) \<Rightarrow> string \<Rightarrow> 'd parsed" where
  "parse_command F from_chars line =
     (case tokenize line of
        [] \<Rightarrow> Inl Empty_Line
      | t # ts \<Rightarrow>
          if t = ''instrument'' then parse_instrument F (t # ts)
          else if t = ''account'' then parse_account F from_chars (t # ts)
          else if t = ''param'' then parse_param F (t # ts)
          else if t = ''status'' then parse_word_command F Show_Status ''status'' (t # ts)
          else if t = ''quit'' then parse_word_command F Quit_Strategy ''quit'' (t # ts)
          else Inl (Unknown_Command t))"

end
