(* ===== verification/Bar_Manager.thy ===== *)
theory Bar_Manager
  imports Bar_Gate Bar_Config Bar_Command "HOL-Library.List_Lexorder" "HOL-Library.Char_ord"
begin

text \<open>
  The manager of a bar strategy (\<open>bar_strategy/manager.h\<close>): start, ticks, timer, stop and the operator's commands over
  the instruments. The instruments are a \<open>std::map\<close>, iterated in the order of their names. What the SDK, the archive and
  the file system answer are parameters of the operation that asks. Log lines are not modelled; the text of a reply is a
  constructor and what it shows.
\<close>

section \<open>State\<close>

datatype 'd metadata_result = Meta_Loaded "'d instrument_spec" | Meta_Missing | Meta_Invalid | Meta_Unavailable

datatype 'd history_result = History_Loaded "'d bar list" | History_Unavailable | History_Failed

text \<open>What does not change while the strategy runs, and the answers from outside.\<close>

record ('d, 's) manager_env =
  me_fp :: "'d fpx"
  me_strategy :: "('d, 'd members, 's) strategy"
  me_table :: session_table
  me_raw :: 'd
  me_raw_int :: int
  me_metadata :: "string \<Rightarrow> 'd metadata_result"
  me_history :: "string \<Rightarrow> 'd history_result"
  me_subscribe :: "string list \<Rightarrow> bool"
  me_written :: bool
  me_today :: int
  me_from_chars :: "string \<Rightarrow> 'd option"
  me_json :: "string \<Rightarrow> 'd json option"
  me_timer :: "int option"

type_synonym ('d, 's) nodes = "(string \<times> ('d, 's) node) list"

record ('d, 's) manager =
  mg_session :: bool
  mg_timer :: "int option"
  mg_store :: "'d config_store option"
  mg_effective :: "'d effective_config option"
  mg_source_unavailable :: bool
  mg_params :: "'d members"
  mg_accounts :: "'d attached list"
  mg_startup_failed :: bool
  mg_exit_code :: int
  mg_quit :: bool
  mg_live :: bool
  mg_nodes :: "('d, 's) nodes"

datatype 'd sdk_call =
    Did "'d action"
  | Subscribed "string list" bool
  | Unsubscribed string

definition node_env_of :: "('d, 's) manager_env \<Rightarrow> ('d, 's) manager \<Rightarrow> ('d, 'd members, 's) node_env" where
  "node_env_of V m =
     \<lparr>ne_fp = me_fp V, ne_strategy = me_strategy V, ne_params = mg_params m, ne_accounts = mg_accounts m, ne_raw = me_raw V,
      ne_raw_int = me_raw_int V\<rparr>"

fun each_node :: "(('d, 's) node \<Rightarrow> ('d, 's) node \<times> 'd action list) \<Rightarrow> ('d, 's) nodes \<Rightarrow> ('d, 's) nodes \<times> 'd action list" where
  "each_node f [] = ([], [])"
| "each_node f ((i, d) # ns) = (case f d of (d', es) \<Rightarrow> (case each_node f ns of (ns', fs) \<Rightarrow> ((i, d') # ns', es @ fs)))"

definition on_nodes :: "(('d, 's) node \<Rightarrow> ('d, 's) node \<times> 'd action list) \<Rightarrow> ('d, 's) manager \<Rightarrow> ('d, 's) manager \<times> 'd sdk_call list" where
  "on_nodes f m = (case each_node f (mg_nodes m) of (ns, es) \<Rightarrow> (m\<lparr>mg_nodes := ns\<rparr>, map Did es))"

section \<open>Ticks and timer\<close>

definition live_instance :: "string \<Rightarrow> ('d, 's) manager \<Rightarrow> ('d, 's) node option" where
  "live_instance i m =
     (if mg_startup_failed m then None
      else case map_of (mg_nodes m) i of
             None \<Rightarrow> None
           | Some d \<Rightarrow> if ic_failed (nd_ctx d) then None else Some d)"

definition put_node :: "string \<Rightarrow> ('d, 's) node \<Rightarrow> ('d, 's) manager \<Rightarrow> ('d, 's) manager" where
  "put_node i d m = m\<lparr>mg_nodes := omap_put i d (mg_nodes m)\<rparr>"

definition drop_node :: "string \<Rightarrow> ('d, 's) manager \<Rightarrow> ('d, 's) manager" where
  "drop_node i m = m\<lparr>mg_nodes := AList.delete i (mg_nodes m)\<rparr>"

definition manager_tick :: "('d, 's) manager_env \<Rightarrow> 'd dz_tick \<Rightarrow> ('d, 's) manager \<Rightarrow> ('d, 's) manager \<times> 'd sdk_call list" where
  "manager_tick V k m =
     (case live_instance (tk_instrument k) m of
        None \<Rightarrow> (m, [])
      | Some d \<Rightarrow> (case feed_tick (node_env_of V m) k d of (d', es) \<Rightarrow> (put_node (tk_instrument k) d' m, map Did es)))"

definition relocate_live_instruments :: "('d, 's) manager \<Rightarrow> ('d, 's) manager" where
  "relocate_live_instruments m =
     fst (on_nodes (\<lambda>d. (if ic_failed (nd_ctx d) then d else map_ctx relocate d, [])) m)"

definition on_schedule :: "int \<Rightarrow> ('d, 's) manager \<Rightarrow> ('d, 's) manager" where
  "on_schedule timer m =
     (if mg_startup_failed m \<or> mg_timer m = None \<or> mg_timer m \<noteq> Some timer then m else relocate_live_instruments m)"

definition on_stop :: "('d, 's) manager_env \<Rightarrow> ('d, 's) manager \<Rightarrow> ('d, 's) manager \<times> 'd sdk_call list" where
  "on_stop V m0 =
     (let m = (if mg_session m0 then m0\<lparr>mg_timer := None\<rparr> else m0)
      in case on_nodes (dispatch_on_destroy (node_env_of V m)) m of (m', es) \<Rightarrow> (m'\<lparr>mg_nodes := []\<rparr>, es))"

definition should_exit :: "('d, 's) manager \<Rightarrow> bool" where
  "should_exit m \<longleftrightarrow> mg_startup_failed m \<or> mg_quit m"

section \<open>Configuration\<close>

definition commit_config_with :: "('d, 's) manager_env \<Rightarrow> ('d bar_config \<Rightarrow> 'd bar_config) \<Rightarrow> ('d, 's) manager \<Rightarrow> ('d, 's) manager option" where
  "commit_config_with V f m =
     (case mg_store m of
        None \<Rightarrow> None
      | Some s \<Rightarrow>
          (case commit_store (me_fp V) (me_today V) (me_written V) (f (ec_config (cs_current s))) s of
             None \<Rightarrow> None
           | Some s' \<Rightarrow> Some (m\<lparr>mg_store := Some s', mg_effective := map_option (\<lambda>e. e\<lparr>ec_config := ec_config (cs_current s')\<rparr>) (mg_effective m)\<rparr>)))"

section \<open>Start\<close>

definition init_context :: "('d, 's) manager_env \<Rightarrow> string \<Rightarrow> 'd instrument_spec \<Rightarrow> 'd effective_config \<Rightarrow> ('d, 's) manager \<Rightarrow> 'd ictx" where
  "init_context V i spec e m =
     new_context (me_fp V) (me_raw V) i (nat (cy_max (ec_capacity e))) (nat (cy_buffer (ec_capacity e))) spec (mg_session m) (ec_scaling e)"

definition no_spec :: "('d, 'f) fp_scheme \<Rightarrow> 'd instrument_spec" where
  "no_spec F = \<lparr>is_exchange = [], is_multiple = fp_zero F, is_tick = fp_zero F\<rparr>"

text \<open>The specification of an instrument; \<open>None\<close> if it cannot be made. An archive that cannot be read degrades all instruments.\<close>

definition load_spec :: "('d, 's) manager_env \<Rightarrow> string \<Rightarrow> ('d, 's) manager \<Rightarrow> 'd instrument_spec option \<times> ('d, 's) manager" where
  "load_spec V i m =
     (case me_metadata V i of
        Meta_Loaded s \<Rightarrow> (Some s, m)
      | Meta_Unavailable \<Rightarrow> (Some (no_spec (me_fp V)), m\<lparr>mg_source_unavailable := True\<rparr>)
      | Meta_Missing \<Rightarrow> (None, m)
      | Meta_Invalid \<Rightarrow> (None, m))"

text \<open>A node is emplaced, unless the name is taken; its initialisation may fail. \<open>None\<close> is the exception of an invalid session table.\<close>

datatype emplaced = Emplaced | Taken | Init_Threw

definition emplace_node :: "('d, 's) manager_env \<Rightarrow> string \<Rightarrow> 'd instrument_spec \<Rightarrow> 'd effective_config \<Rightarrow> ('d, 's) manager \<Rightarrow>
    (emplaced \<times> ('d, 's) manager \<times> 'd sdk_call list) option" where
  "emplace_node V i spec e m =
     (if map_of (mg_nodes m) i \<noteq> None then Some (Taken, m, [])
      else case new_node (node_env_of V m) (init_context V i spec e m) (me_table V) (bc_period (ec_config e)) of
             None \<Rightarrow> None
           | Some d \<Rightarrow>
               (case init_new_instance (node_env_of V m) d of
                  (d', es, ok) \<Rightarrow> Some (if ok then (Emplaced, put_node i d' m, map Did es) else (Init_Threw, m, map Did es))))"

fun create_instances :: "('d, 's) manager_env \<Rightarrow> 'd effective_config \<Rightarrow> string list \<Rightarrow> ('d, 's) manager \<Rightarrow> (('d, 's) manager \<times> 'd sdk_call list) option" where
  "create_instances V e [] m = Some (m, [])"
| "create_instances V e (i # js) m =
     (case load_spec V i m of
        (None, m1) \<Rightarrow> create_instances V e js m1
      | (Some spec, m1) \<Rightarrow>
          (case emplace_node V i spec e m1 of
             None \<Rightarrow> None
           | Some (r, m2, es) \<Rightarrow> map_option (\<lambda>(m3, fs). (m3, es @ fs)) (create_instances V e js m2)))"

definition warm_bars_of :: "'d effective_config \<Rightarrow> nat option" where
  "warm_bars_of e = map_option nat (ec_warm_bars e)"

definition warmup_instrument :: "('d, 's) manager_env \<Rightarrow> 'd effective_config \<Rightarrow> ('d, 's) manager \<Rightarrow> ('d, 's) node \<Rightarrow> ('d, 's) node \<times> 'd action list" where
  "warmup_instrument V e m d =
     (if ic_failed (nd_ctx d) then (d, [])
      else case me_history V (ic_id (nd_ctx d)) of
             History_Loaded xs \<Rightarrow> replay_instrument_history (node_env_of V m) (warm_bars_of e) (cy_max (ec_capacity e)) xs d
           | _ \<Rightarrow> (d, []))"

definition continue_tick :: "('d, 's) manager_env \<Rightarrow> 'd effective_config \<Rightarrow> 'd dz_tick \<Rightarrow> ('d, 's) manager \<Rightarrow> ('d, 's) manager \<times> 'd sdk_call list" where
  "continue_tick V e k m =
     (case live_instance (tk_instrument k) m of
        None \<Rightarrow> (m, [])
      | Some d \<Rightarrow>
          if should_drop_continuation_tick (me_table V) (bc_period (ec_config e)) k d then (m, [])
          else case feed_tick (node_env_of V m) k d of (d', es) \<Rightarrow> (put_node (tk_instrument k) d' m, map Did es))"

fun drain_buffered_ticks :: "('d, 's) manager_env \<Rightarrow> 'd effective_config \<Rightarrow> 'd dz_tick list \<Rightarrow> ('d, 's) manager \<Rightarrow> ('d, 's) manager \<times> 'd sdk_call list" where
  "drain_buffered_ticks V e [] m = (m, [])"
| "drain_buffered_ticks V e (k # ks) m =
     (case continue_tick V e k m of (m1, es) \<Rightarrow> (case drain_buffered_ticks V e ks m1 of (m2, fs) \<Rightarrow> (m2, es @ fs)))"

definition go_live :: "('d, 's) manager_env \<Rightarrow> ('d, 's) manager \<Rightarrow> ('d, 's) node \<Rightarrow> ('d, 's) node \<times> 'd action list" where
  "go_live V m d =
     (if ic_failed (nd_ctx d) then d else map_ctx (set_live True) d,
      publish_all_positions (me_fp V) (Some (mg_accounts m)) (nd_ctx d))"

definition enter_live :: "('d, 's) manager_env \<Rightarrow> ('d, 's) manager \<Rightarrow> ('d, 's) manager \<times> 'd sdk_call list" where
  "enter_live V m = (case on_nodes (go_live V m) m of (m', es) \<Rightarrow> (m'\<lparr>mg_live := True\<rparr>, es))"

definition request_startup_exit :: "int \<Rightarrow> ('d, 's) manager \<Rightarrow> ('d, 's) manager" where
  "request_startup_exit code m = m\<lparr>mg_startup_failed := True, mg_exit_code := code\<rparr>"

text \<open>The ticks that arrived while the start was busy are drained if there is a session. \<open>None\<close> is an exception that leaves \<open>on_start\<close>.\<close>

definition on_start :: "('d, 's) manager_env \<Rightarrow> 'd json option option \<Rightarrow> 'd dz_tick list \<Rightarrow> ('d, 's) manager \<Rightarrow> (('d, 's) manager \<times> 'd sdk_call list) option" where
  "on_start V file buffered m =
     (case load_config_file (me_fp V) (me_today V) (me_written V) file of
        Load_Ok s \<Rightarrow>
          (let e = cs_current s;
               m1 = m\<lparr>mg_store := Some s, mg_effective := Some e, mg_accounts := bc_accounts (ec_config e), mg_params := bc_params (ec_config e)\<rparr>
           in if \<not> me_subscribe V (bc_instruments (ec_config e)) then Some (request_startup_exit 1 m1, [])
              else case create_instances V e (bc_instruments (ec_config e)) m1 of
                     None \<Rightarrow> None
                   | Some (m2, es) \<Rightarrow>
                       (let m3 = (if mg_session m2 then m2\<lparr>mg_timer := me_timer V\<rparr> else m2) in
                        case on_nodes (warmup_instrument V e m3) m3 of
                          (m4, fs) \<Rightarrow>
                            (case (if mg_session m4 then drain_buffered_ticks V e buffered m4 else (m4, [])) of
                               (m5, gs) \<Rightarrow>
                                 (case enter_live V m5 of
                                    (m6, hs) \<Rightarrow> Some (m6, Subscribed (bc_instruments (ec_config e)) True # es @ fs @ gs @ hs)))))
      | _ \<Rightarrow> Some (request_startup_exit 1 m, []))"
section \<open>Commands\<close>

datatype refusal =
    Empty_Target | Already_There | Not_There | Metadata_Missing | Metadata_Invalid | Subscribe_Failed | Node_Conflict
  | Init_Failed | Write_Failed | Bad_Scale | Scale_Too_Large | Empty_Value | Exception_Escaped

datatype 'd reply =
    Not_A_Command command_error
  | Refused command_kind string refusal
  | Accepted command_kind string sync_tally
  | Unchanged string 'd
  | Instruments_Shown "(string \<times> int \<times> int \<times> bool \<times> (string \<times> int) list) list"
  | Accounts_Shown "(string \<times> 'd \<times> (string \<times> int) list) list"
  | Param_Shown string "'d json"
  | Params_Shown "'d members"
  | Status_Shown nat nat int nat nat bool
  | Quitting

definition refuse :: "command_kind \<Rightarrow> string \<Rightarrow> refusal \<Rightarrow> ('d, 's) manager \<Rightarrow> 'd sdk_call list \<Rightarrow> ('d, 's) manager \<times> 'd sdk_call list \<times> 'd reply" where
  "refuse k i r m es = (m, es, Refused k i r)"

definition subscribe_one :: "('d, 's) manager_env \<Rightarrow> string \<Rightarrow> ('d, 's) manager \<Rightarrow> bool \<times> 'd sdk_call list" where
  "subscribe_one V i m = (if \<not> mg_session m then (True, []) else (me_subscribe V [i], [Subscribed [i] False]))"

definition unsubscribe_one :: "string \<Rightarrow> ('d, 's) manager \<Rightarrow> 'd sdk_call list" where
  "unsubscribe_one i m = (if \<not> mg_session m then [] else [Unsubscribed i])"

definition add_instrument :: "string \<Rightarrow> 'd bar_config \<Rightarrow> 'd bar_config" where
  "add_instrument i c = (if i \<in> set (bc_instruments c) then c else c\<lparr>bc_instruments := bc_instruments c @ [i]\<rparr>)"

text \<open>The last steps of adding an instrument: the history, the file, the reports, then live.\<close>

definition finish_add :: "('d, 's) manager_env \<Rightarrow> 'd effective_config \<Rightarrow> string \<Rightarrow> ('d, 's) node \<Rightarrow> ('d, 's) manager \<Rightarrow>
    ('d, 's) manager \<times> 'd sdk_call list \<times> 'd reply" where
  "finish_add V e i d0 m =
     (case warmup_instrument V e m d0 of
        (d, es) \<Rightarrow>
          (case commit_config_with V (add_instrument i) m of
             None \<Rightarrow> (case dispatch_on_destroy (node_env_of V m) d of
                (d', fs) \<Rightarrow> refuse Instrument_Add i Write_Failed (drop_node i m) (map Did (es @ fs) @ unsubscribe_one i m))
           | Some m1 \<Rightarrow> (case go_live V m1 d of
                (d', fs) \<Rightarrow> (put_node i d' m1, map Did (es @ fs), Accepted Instrument_Add i no_tally))))"

definition run_instrument_add :: "('d, 's) manager_env \<Rightarrow> 'd effective_config \<Rightarrow> string \<Rightarrow> ('d, 's) manager \<Rightarrow>
    ('d, 's) manager \<times> 'd sdk_call list \<times> 'd reply" where
  "run_instrument_add V e i m =
     (if i = [] then refuse Instrument_Add i Empty_Target m []
      else if map_of (mg_nodes m) i \<noteq> None then refuse Instrument_Add i Already_There m []
      else case load_spec V i m of
        (None, m1) \<Rightarrow> refuse Instrument_Add i (if me_metadata V i = Meta_Missing then Metadata_Missing else Metadata_Invalid) m1 []
      | (Some spec, m1) \<Rightarrow>
          (case subscribe_one V i m1 of
             (False, ss) \<Rightarrow> refuse Instrument_Add i Subscribe_Failed m1 ss
           | (True, ss) \<Rightarrow>
               (case emplace_node V i spec e m1 of
                  None \<Rightarrow> refuse Instrument_Add i Exception_Escaped m1 ss
                | Some (Taken, m2, es) \<Rightarrow> refuse Instrument_Add i Node_Conflict m1 (ss @ unsubscribe_one i m1)
                | Some (Init_Threw, m2, es) \<Rightarrow> refuse Instrument_Add i Init_Failed m1 (ss @ es @ unsubscribe_one i m1)
                | Some (Emplaced, m2, es) \<Rightarrow>
                    (case map_of (mg_nodes m2) i of
                       None \<Rightarrow> refuse Instrument_Add i Init_Failed m2 (ss @ es)
                     | Some d \<Rightarrow> (case finish_add V e i d m2 of (m3, fs, r) \<Rightarrow> (m3, ss @ es @ fs, r))))))"

definition remove_instrument :: "string \<Rightarrow> 'd bar_config \<Rightarrow> 'd bar_config" where
  "remove_instrument i c = c\<lparr>bc_instruments := filter (\<lambda>j. j \<noteq> i) (bc_instruments c)\<rparr>"

definition run_instrument_del :: "('d, 's) manager_env \<Rightarrow> string \<Rightarrow> bool \<Rightarrow> bool \<Rightarrow> ('d, 's) manager \<Rightarrow> ('d, 's) manager \<times> 'd sdk_call list \<times> 'd reply" where
  "run_instrument_del V i sync market m =
     (if i = [] then refuse Instrument_Del i Empty_Target m []
      else case map_of (mg_nodes m) i of
        None \<Rightarrow> refuse Instrument_Del i Not_There m []
      | Some d \<Rightarrow>
          (case commit_config_with V (remove_instrument i) m of
             None \<Rightarrow> refuse Instrument_Del i Write_Failed m []
           | Some m1 \<Rightarrow>
               (case submit_sync_close_orders (me_fp V) (Some (mg_accounts m1)) sync market (nd_ctx d) of
                  (t, es) \<Rightarrow>
                    (case dispatch_on_destroy (node_env_of V m1) d of
                       (d', fs) \<Rightarrow>
                         (drop_node i m1,
                          map Did es @ unsubscribe_one i m1 @ map Did (fs @ publish_zero_all_accounts (Some (mg_accounts m1)) (nd_ctx d')),
                          Accepted Instrument_Del i t)))))"

definition find_account :: "string \<Rightarrow> ('d, 's) manager \<Rightarrow> 'd attached option" where
  "find_account a m = List.find (\<lambda>x. at_id x = a) (mg_accounts m)"

definition validate_scale :: "('d, 'f) fp_scheme \<Rightarrow> 'd effective_config \<Rightarrow> 'd \<Rightarrow> refusal option" where
  "validate_scale F e scale =
     (if \<not> fp_lt F (fp_zero F) scale \<or> \<not> fp_finite F scale then Some Bad_Scale
      else if fp_lt F (sc_max_scale (ec_scaling e)) scale then Some Scale_Too_Large
      else None)"

text \<open>An order per instrument for the given difference of the account's share, if it is not zero.\<close>

definition sync_node :: "('d, 'f) fpx_scheme \<Rightarrow> 'd attached \<Rightarrow> bool \<Rightarrow> ('d ictx \<Rightarrow> int) \<Rightarrow> sync_tally \<times> 'd action list \<Rightarrow> string \<times> ('d, 's) node \<Rightarrow>
    sync_tally \<times> 'd action list" where
  "sync_node F a market delta p n =
     (let v = delta (nd_ctx (snd n))
      in if v = 0 then p
         else let (r, es) = submit_sync_order F a v market (nd_ctx (snd n)) in (record_outcome r (fst p), snd p @ es))"

definition sync_nodes :: "('d, 'f) fpx_scheme \<Rightarrow> bool \<Rightarrow> 'd attached \<Rightarrow> bool \<Rightarrow> ('d ictx \<Rightarrow> int) \<Rightarrow> ('d, 's) nodes \<Rightarrow> sync_tally \<times> 'd action list" where
  "sync_nodes F sync a market delta ns = (if \<not> sync then (no_tally, []) else foldl (sync_node F a market delta) (no_tally, []) ns)"

definition publish_account :: "('d, 'f) fpx_scheme \<Rightarrow> 'd attached \<Rightarrow> ('d, 's) nodes \<Rightarrow> 'd action list" where
  "publish_account F a ns = concat (map (\<lambda>n. publish_position_for F a (nd_ctx (snd n))) ns)"

definition append_account :: "'d attached \<Rightarrow> 'd bar_config \<Rightarrow> 'd bar_config" where
  "append_account a c = c\<lparr>bc_accounts := bc_accounts c @ [a]\<rparr>"

definition run_account_add :: "('d, 's) manager_env \<Rightarrow> 'd effective_config \<Rightarrow> string \<Rightarrow> 'd \<Rightarrow> bool \<Rightarrow> bool \<Rightarrow> ('d, 's) manager \<Rightarrow>
    ('d, 's) manager \<times> 'd sdk_call list \<times> 'd reply" where
  "run_account_add V e i scale sync market m =
     (if i = [] then refuse Account_Add i Empty_Target m []
      else if find_account i m \<noteq> None then refuse Account_Add i Already_There m []
      else case validate_scale (me_fp V) e scale of
        Some r \<Rightarrow> refuse Account_Add i r m []
      | None \<Rightarrow>
          (let a = \<lparr>at_id = i, at_scale = scale\<rparr>
           in case commit_config_with V (append_account a) m of
                None \<Rightarrow> refuse Account_Add i Write_Failed m []
              | Some m1 \<Rightarrow>
                  (case sync_nodes (me_fp V) sync a market (logical_position_for (me_fp V) a) (mg_nodes m1) of
                     (t, es) \<Rightarrow> (m1\<lparr>mg_accounts := mg_accounts m1 @ [a]\<rparr>,
                                map Did (publish_account (me_fp V) a (mg_nodes m1) @ es), Accepted Account_Add i t))))"

definition rescale :: "string \<Rightarrow> 'd \<Rightarrow> 'd attached list \<Rightarrow> 'd attached list" where
  "rescale i scale as = map (\<lambda>a. if at_id a = i then a\<lparr>at_scale := scale\<rparr> else a) as"

definition rescale_config :: "string \<Rightarrow> 'd \<Rightarrow> 'd bar_config \<Rightarrow> 'd bar_config" where
  "rescale_config i scale c = c\<lparr>bc_accounts := rescale i scale (bc_accounts c)\<rparr>"

text \<open>In memory only the first account of the name changes.\<close>

fun rescale_first :: "string \<Rightarrow> 'd \<Rightarrow> 'd attached list \<Rightarrow> 'd attached list" where
  "rescale_first i scale [] = []"
| "rescale_first i scale (a # as) = (if at_id a = i then a\<lparr>at_scale := scale\<rparr> # as else a # rescale_first i scale as)"

definition run_account_set :: "('d, 's) manager_env \<Rightarrow> 'd effective_config \<Rightarrow> string \<Rightarrow> 'd \<Rightarrow> bool \<Rightarrow> bool \<Rightarrow> ('d, 's) manager \<Rightarrow>
    ('d, 's) manager \<times> 'd sdk_call list \<times> 'd reply" where
  "run_account_set V e i scale sync market m =
     (if i = [] then refuse Account_Set i Empty_Target m []
      else case find_account i m of
        None \<Rightarrow> refuse Account_Set i Not_There m []
      | Some old \<Rightarrow>
          (case validate_scale (me_fp V) e scale of
             Some r \<Rightarrow> refuse Account_Set i r m []
           | None \<Rightarrow>
               if fp_eq (me_fp V) (at_scale old) scale then (m, [], Unchanged i scale)
               else case commit_config_with V (rescale_config i scale) m of
                      None \<Rightarrow> refuse Account_Set i Write_Failed m []
                    | Some m1 \<Rightarrow>
                        (let a = old\<lparr>at_scale := scale\<rparr>;
                             delta = (\<lambda>c. saturating_delta (logical_position_with_scale (me_fp V) scale c) (logical_position_with_scale (me_fp V) (at_scale old) c))
                         in case sync_nodes (me_fp V) sync a market delta (mg_nodes m1) of
                              (t, es) \<Rightarrow> (m1\<lparr>mg_accounts := rescale_first i scale (mg_accounts m1)\<rparr>,
                                         map Did (publish_account (me_fp V) a (mg_nodes m1) @ es), Accepted Account_Set i t))))"

definition erase_account :: "string \<Rightarrow> 'd attached list \<Rightarrow> 'd attached list" where
  "erase_account i as = filter (\<lambda>a. at_id a \<noteq> i) as"

definition erase_config :: "string \<Rightarrow> 'd bar_config \<Rightarrow> 'd bar_config" where
  "erase_config i c = c\<lparr>bc_accounts := erase_account i (bc_accounts c)\<rparr>"

definition run_account_del :: "('d, 's) manager_env \<Rightarrow> string \<Rightarrow> bool \<Rightarrow> bool \<Rightarrow> ('d, 's) manager \<Rightarrow> ('d, 's) manager \<times> 'd sdk_call list \<times> 'd reply" where
  "run_account_del V i sync market m =
     (if i = [] then refuse Account_Del i Empty_Target m []
      else case find_account i m of
        None \<Rightarrow> refuse Account_Del i Not_There m []
      | Some a \<Rightarrow>
          (case commit_config_with V (erase_config i) m of
             None \<Rightarrow> refuse Account_Del i Write_Failed m []
           | Some m1 \<Rightarrow>
               (case sync_nodes (me_fp V) sync a market (\<lambda>c. - logical_position_for (me_fp V) a c) (mg_nodes m1) of
                  (t, es) \<Rightarrow> (m1\<lparr>mg_accounts := erase_account i (mg_accounts m1)\<rparr>,
                             map Did (es @ publish_account_wildcard_zero (mg_session m1) a), Accepted Account_Del i t))))"

definition shares_of :: "('d, 'f) fpx_scheme \<Rightarrow> 'd attached list \<Rightarrow> 'd ictx \<Rightarrow> (string \<times> int) list" where
  "shares_of F as c = map (\<lambda>a. (at_id a, logical_position_for F a c)) as"

definition run_instrument_list :: "('d, 's) manager_env \<Rightarrow> ('d, 's) manager \<Rightarrow> 'd reply" where
  "run_instrument_list V m =
     Instruments_Shown (map (\<lambda>(i, d). (i, sx_index (nd_ctx d), ps_net (ic_position (nd_ctx d)), ic_failed (nd_ctx d),
       shares_of (me_fp V) (mg_accounts m) (nd_ctx d))) (mg_nodes m))"

definition run_account_list :: "('d, 's) manager_env \<Rightarrow> ('d, 's) manager \<Rightarrow> 'd reply" where
  "run_account_list V m =
     Accounts_Shown (map (\<lambda>a. (at_id a, at_scale a, map (\<lambda>(i, d). (i, logical_position_for (me_fp V) a (nd_ctx d))) (mg_nodes m))) (mg_accounts m))"

definition run_param_get :: "string \<Rightarrow> ('d, 's) manager \<Rightarrow> 'd reply" where
  "run_param_get name m =
     (if name = [] then Refused Param_Get name Empty_Target
      else case map_of (mg_params m) name of None \<Rightarrow> Refused Param_Get name Not_There | Some v \<Rightarrow> Param_Shown name v)"

text \<open>Only a number, a boolean or a string is taken as JSON; any other token is the string itself.\<close>

definition param_value_from_token :: "(string \<Rightarrow> 'd json option) \<Rightarrow> string \<Rightarrow> 'd json" where
  "param_value_from_token parse t =
     (case parse t of
        Some (J_Int n) \<Rightarrow> J_Int n
      | Some (J_Float d) \<Rightarrow> J_Float d
      | Some (J_Bool b) \<Rightarrow> J_Bool b
      | Some (J_String s) \<Rightarrow> J_String s
      | _ \<Rightarrow> J_String t)"

definition set_param :: "string \<Rightarrow> 'd json \<Rightarrow> 'd bar_config \<Rightarrow> 'd bar_config" where
  "set_param name v c = c\<lparr>bc_params := AList.update name v (bc_params c)\<rparr>"

definition dispatch_params_update :: "('d, 's) manager_env \<Rightarrow> ('d, 's) manager \<Rightarrow> ('d, 's) node \<Rightarrow> ('d, 's) node \<times> 'd action list" where
  "dispatch_params_update V m d =
     (if ic_failed (nd_ctx d) then (d, [])
      else case request_params_update (nd_ctx d) of
             (True, c) \<Rightarrow> (d\<lparr>nd_ctx := c\<rparr>, [])
           | (False, c) \<Rightarrow> invoke_params_update (node_env_of V m) (d\<lparr>nd_ctx := c\<rparr>))"

definition run_param_set :: "('d, 's) manager_env \<Rightarrow> string \<Rightarrow> string \<Rightarrow> ('d, 's) manager \<Rightarrow> ('d, 's) manager \<times> 'd sdk_call list \<times> 'd reply" where
  "run_param_set V name token m =
     (if name = [] then refuse Param_Set name Empty_Target m []
      else if token = [] then refuse Param_Set name Empty_Value m []
      else let v = param_value_from_token (me_json V) token
           in case commit_config_with V (set_param name v) m of
                None \<Rightarrow> refuse Param_Set name Write_Failed m []
              | Some m1 \<Rightarrow>
                  (let m2 = m1\<lparr>mg_params := AList.update name v (mg_params m1)\<rparr>
                   in case on_nodes (dispatch_params_update V m2) m2 of (m3, es) \<Rightarrow> (m3, es, Accepted Param_Set name no_tally)))"

definition run_status :: "('d, 's) manager \<Rightarrow> 'd reply" where
  "run_status m =
     Status_Shown (length (mg_nodes m)) (length (mg_accounts m)) (sum_list (map (\<lambda>(i, d). ps_net (ic_position (nd_ctx d))) (mg_nodes m)))
       (length (filter (\<lambda>(i, d). ic_failed (nd_ctx d)) (mg_nodes m))) (length (mg_params m)) (mg_live m)"

definition run_quit :: "('d, 's) manager \<Rightarrow> ('d, 's) manager" where
  "run_quit m = m\<lparr>mg_quit := True, mg_exit_code := 0\<rparr>"

definition execute_command :: "('d, 's) manager_env \<Rightarrow> 'd effective_config \<Rightarrow> 'd command \<Rightarrow> ('d, 's) manager \<Rightarrow>
    ('d, 's) manager \<times> 'd sdk_call list \<times> 'd reply" where
  "execute_command V e c m =
     (case cm_kind c of
        Instrument_Add \<Rightarrow> run_instrument_add V e (cm_target c) m
      | Instrument_Del \<Rightarrow> run_instrument_del V (cm_target c) (cm_sync c) (cm_market c) m
      | Instrument_List \<Rightarrow> (m, [], run_instrument_list V m)
      | Account_Add \<Rightarrow> run_account_add V e (cm_target c) (cm_scale c) (cm_sync c) (cm_market c) m
      | Account_Set \<Rightarrow> run_account_set V e (cm_target c) (cm_scale c) (cm_sync c) (cm_market c) m
      | Account_Del \<Rightarrow> run_account_del V (cm_target c) (cm_sync c) (cm_market c) m
      | Account_List \<Rightarrow> (m, [], run_account_list V m)
      | Param_Get \<Rightarrow> (m, [], run_param_get (cm_target c) m)
      | Param_Set \<Rightarrow> run_param_set V (cm_target c) (cm_token c) m
      | Param_List \<Rightarrow> (m, [], Params_Shown (mg_params m))
      | Show_Status \<Rightarrow> (m, [], run_status m)
      | Quit_Strategy \<Rightarrow> (run_quit m, [], Quitting))"

text \<open>Commands are not taken on the way out. Before a start that loaded a configuration there is nothing to command.\<close>

definition on_ui_input :: "('d, 's) manager_env \<Rightarrow> string \<Rightarrow> ('d, 's) manager \<Rightarrow> ('d, 's) manager \<times> 'd sdk_call list \<times> 'd reply option" where
  "on_ui_input V line m =
     (if mg_startup_failed m \<or> mg_quit m then (m, [], None)
      else case parse_command (me_fp V) (me_from_chars V) line of
        Inl r \<Rightarrow> (m, [], Some (Not_A_Command r))
      | Inr c \<Rightarrow>
          (case mg_effective m of
             None \<Rightarrow> (m, [], None)
           | Some e \<Rightarrow> (case execute_command V e c m of (m', es, r) \<Rightarrow> (m', es, Some r))))"

end
