(* ===== verification/Bar_Config_Facts.thy ===== *)
theory Bar_Config_Facts
  imports Bar_Config
begin

text \<open>What a configuration that validates satisfies, and that what the store writes is what it loads.\<close>

lemma and_then_simps [simp]: "and_then (Inl e) f = Inl e" "and_then (Inr v) f = f v"
  by (simp_all add: and_then_def)

lemma and_then_Inr: "and_then r f = Inr y \<longleftrightarrow> (\<exists>v. r = Inr v \<and> f v = Inr y)"
  by (cases r) auto

section \<open>Validation\<close>

lemma distinct_items_ok: "distinct_items p s i seen xs = Inr u \<Longrightarrow> distinct xs \<and> [] \<notin> set xs \<and> set seen \<inter> set xs = {}"
  by (induction p s i seen xs rule: distinct_items.induct) (auto split: if_splits)

definition account_ok :: "('d, 'f) fp_scheme \<Rightarrow> 'd \<Rightarrow> 'd attached \<Rightarrow> bool" where
  "account_ok F limit a \<longleftrightarrow> at_id a \<noteq> [] \<and> price_ok F (at_scale a) \<and> \<not> fp_lt F limit (at_scale a)"

lemma accounts_checked_ok:
  "accounts_checked F limit i seen as = Inr u \<Longrightarrow> distinct (map at_id as) \<and> list_all (account_ok F limit) as \<and> set seen \<inter> at_id ` set as = {}"
  by (induction F limit i seen as rule: accounts_checked.induct) (auto simp: account_ok_def price_ok_def split: if_splits)

text \<open>The first feasible period is where a day's bars and a tenth more fit the largest reserve.\<close>

lemma capacity_bounds:
  "resolve_capacity p m r = Some c \<Longrightarrow> p \<le> 86400 \<and> max_lookback_min \<le> cy_max c \<and> cy_max c \<le> max_lookback_max \<and>
   min_reserve_bars p \<le> cy_reserve c \<and> cy_reserve c \<le> reserve_bars_max \<and> cy_buffer c = cy_max c + cy_reserve c \<and>
   cy_max c = (case m of Some n \<Rightarrow> n | None \<Rightarrow> auto_max_lookback p) \<and> cy_reserve c = (case r of Some n \<Rightarrow> n | None \<Rightarrow> auto_reserve_bars p)"
  by (auto simp: resolve_capacity_def Let_def secs_per_day_def split: if_splits option.splits)

lemma reserve_covers_day: "0 < p \<Longrightarrow> daily_bars p < min_reserve_bars p"
proof -
  assume p: "0 < p"
  define n where "n = daily_bars p"
  have n: "0 \<le> n" using p by (simp add: n_def daily_bars_def secs_per_day_def cdiv_nonneg pos_imp_zdiv_nonneg_iff)
  have "cdiv (11 * n + 9) 10 = (11 * n + 9) div 10" using n by (simp add: cdiv_nonneg)
  moreover have "n < (if (11 * n + 9) div 10 > 2 then (11 * n + 9) div 10 else 2)" using n by auto
  ultimately show "daily_bars p < min_reserve_bars p" unfolding min_reserve_bars_def Let_def n_def [symmetric] by (auto split: if_splits)
qed

lemma resolved:
  assumes "resolve_effective_config F today c = Inr e"
  shows "ec_config e = c" "bc_version c = 1" "bc_period c \<in> {60, 180, 300, 900}" "bc_instruments c \<noteq> []" "distinct (bc_instruments c)"
    "distinct (map at_id (bc_accounts c))" "list_all (account_ok F (sc_max_scale (ec_scaling e))) (bc_accounts c)"
    "resolve_capacity (bc_period c) (bc_lookback c) (bc_reserve c) = Some (ec_capacity e)"
    "resolve_warmup c (cy_max (ec_capacity e)) today = Inr (ec_warm_bars e, ec_warm_from e, ec_warm_source e)"
proof -
  let ?l = "or_default (bc_max_scale c) (fp_one F)"
  have f: "ec_config e = c \<and> bc_version c = 1 \<and> bc_period c \<in> {60, 180, 300, 900} \<and> bc_instruments c \<noteq> [] \<and>
      distinct_items ''instruments'' [] 0 [] (bc_instruments c) = Inr () \<and> accounts_checked F ?l 0 [] (bc_accounts c) = Inr () \<and>
      sc_max_scale (ec_scaling e) = ?l \<and> resolve_capacity (bc_period c) (bc_lookback c) (bc_reserve c) = Some (ec_capacity e) \<and>
      resolve_warmup c (cy_max (ec_capacity e)) today = Inr (ec_warm_bars e, ec_warm_from e, ec_warm_source e)"
    using assms by (auto simp: resolve_effective_config_def Let_def and_then_Inr split: if_splits option.splits)
  show "ec_config e = c" "bc_version c = 1" "bc_period c \<in> {60, 180, 300, 900}" "bc_instruments c \<noteq> []"
    "resolve_capacity (bc_period c) (bc_lookback c) (bc_reserve c) = Some (ec_capacity e)"
    "resolve_warmup c (cy_max (ec_capacity e)) today = Inr (ec_warm_bars e, ec_warm_from e, ec_warm_source e)"
    using f by simp_all
  show "distinct (bc_instruments c)" using f distinct_items_ok [of "''instruments''"] by blast
  show "distinct (map at_id (bc_accounts c))" "list_all (account_ok F (sc_max_scale (ec_scaling e))) (bc_accounts c)"
    using f accounts_checked_ok [of F ?l] by auto
qed

section \<open>Round trip\<close>

lemma map_of_optional [simp]: "map_of (set_optional field f x obj) = (map_of obj)(field := map_option f x)"
  by (cases x) (simp_all add: set_optional_def)

lemma items_back: "each_item parse_instrument_item i (map J_String xs) = Inr xs"
  by (induction xs arbitrary: i) (simp_all add: parse_instrument_item_def)

lemma account_back: "parse_account_item F i (account_document a) = Inr a"
  by (simp add: parse_account_item_def account_document_def known_keys_def require_string_def require_number_def require_member_def)

lemma accounts_back: "each_item (parse_account_item F) i (map account_document as) = Inr as"
  by (induction as arbitrary: i) (simp_all add: account_back)

lemma rounding_back: "map_of obj field = Some (J_String (rounding_name r)) \<Longrightarrow> parse_rounding obj field e = Inr r"
  by (cases r) (simp_all add: parse_rounding_def require_string_def require_member_def)

lemma int32_back: "map_of obj field = Some (J_Int n) \<Longrightarrow> - 2147483648 \<le> n \<Longrightarrow> n \<le> 2147483647 \<Longrightarrow> require_int32 obj field e = Inr n"
  by (simp add: require_int32_def require_integer_def require_member_def large_max_def)

definition config_in_range :: "'d bar_config \<Rightarrow> bool" where
  "config_in_range c \<longleftrightarrow> bc_version c = 1 \<and> - 2147483648 \<le> bc_period c \<and> bc_period c \<le> 2147483647 \<and>
     (\<forall>n. bc_lookback c = Some n \<longrightarrow> - 2147483648 \<le> n \<and> n \<le> 2147483647) \<and>
     (\<forall>n. bc_reserve c = Some n \<longrightarrow> - 2147483648 \<le> n \<and> n \<le> 2147483647) \<and>
     (\<forall>n. bc_warm_bars c = Some n \<longrightarrow> n \<le> large_max) \<and> (bc_warm_bars c = None \<or> bc_warm_from c = None)"

lemma resolved_range: "resolve_effective_config F today c = Inr e \<Longrightarrow> config_in_range c"
  using resolved(2,3,9) [of F today c e] capacity_bounds [OF resolved(8), of F today c e]
  by (auto simp: config_in_range_def resolve_warmup_def large_max_def max_lookback_min_def max_lookback_max_def reserve_bars_max_def min_reserve_bars_def Let_def
      split: option.splits if_splits)

lemma fields_back:
  assumes "obj = apply_config c doc"
  shows "map_of obj ''schema_version'' = Some (J_Int (bc_version c))" "map_of obj ''period_sec'' = Some (J_Int (bc_period c))"
    "map_of obj ''instruments'' = Some (J_Array (map J_String (bc_instruments c)))"
    "map_of obj ''accounts'' = Some (J_Array (map account_document (bc_accounts c)))" "map_of obj ''params'' = Some (J_Object (bc_params c))"
    "map_of obj ''max_scale'' = map_option J_Float (bc_max_scale c)"
    "map_of obj ''scale_rounding'' = map_option (\<lambda>r. J_String (rounding_name r)) (bc_rounding c)"
    "map_of obj ''scale_min_one'' = map_option J_Bool (bc_min_one c)" "map_of obj ''max_lookback'' = map_option J_Int (bc_lookback c)"
    "map_of obj ''reserve_bars'' = map_option J_Int (bc_reserve c)" "map_of obj ''warmup'' = warmup_document c"
  unfolding assms by (simp_all add: apply_config_def option.map_id)

lemma unknown_kept:
  "k \<notin> {''schema_version'', ''period_sec'', ''instruments'', ''accounts'', ''params'', ''max_scale'', ''scale_rounding'', ''scale_min_one'',
     ''max_lookback'', ''reserve_bars'', ''warmup''} \<Longrightarrow> map_of (apply_config c doc) k = map_of doc k"
  by (simp add: apply_config_def)

lemma optional_back:
  assumes "map_of obj field = map_option g x" "\<And>v. x = Some v \<Longrightarrow> f obj field (Bad_Field field) = Inr v"
  shows "optional obj field f = Inr x"
  using assms by (cases x) (simp_all add: optional_def)

lemma warmup_back:
  assumes "map_of obj ''warmup'' = warmup_document c" "config_in_range c"
  shows "parse_warmup obj = Inr (bc_warm_bars c, bc_warm_from c)"
  using assms by (auto simp: parse_warmup_def warmup_document_def known_keys_def config_in_range_def require_integer_def require_string_def
      require_member_def split: option.splits)

lemma parsed_back:
  assumes "config_in_range c"
  shows "parse_config F (J_Object (apply_config c doc)) = Inr c"
proof -
  define obj where "obj = apply_config c doc"
  note m = fields_back [OF obj_def]
  have o: "optional obj ''max_scale'' (require_number F) = Inr (bc_max_scale c)"
    "optional obj ''scale_rounding'' parse_rounding = Inr (bc_rounding c)" "optional obj ''scale_min_one'' require_boolean = Inr (bc_min_one c)"
    "optional obj ''max_lookback'' require_int32 = Inr (bc_lookback c)" "optional obj ''reserve_bars'' require_int32 = Inr (bc_reserve c)"
    using assms by (auto intro!: optional_back [OF m(6)] optional_back [OF m(7)] optional_back [OF m(8)] optional_back [OF m(9)] optional_back [OF m(10)]
        rounding_back int32_back simp: require_number_def require_boolean_def require_member_def m config_in_range_def)
  have r: "require_integer obj ''schema_version'' e = Inr 1" "require_int32 obj ''period_sec'' e = Inr (bc_period c)"
    "require_array obj ''instruments'' e = Inr (map J_String (bc_instruments c))" "parse_accounts F obj = Inr (bc_accounts c)"
    "parse_params obj = Inr (bc_params c)" for e
    using assms by (auto intro!: int32_back simp: require_integer_def require_array_def require_member_def parse_accounts_def parse_params_def m
        accounts_back config_in_range_def large_max_def)
  have "bc_version c = 1" using assms by (simp add: config_in_range_def)
  then show ?thesis unfolding obj_def [symmetric] by (simp add: parse_config_def r o items_back warmup_back [OF m(11) assms])
qed

end
