(* ===== verification/Bar_Manager_Facts.thy ===== *)
theory Bar_Manager_Facts
  imports Bar_Manager Bar_Config_Facts
begin

text \<open>
  What the commands keep: the accounts, the parameters and the instruments in memory are those of the file, and a command
  that is refused leaves everything as it was.
\<close>

section \<open>Nodes\<close>

lemma each_keys [simp]: "keys (fst (each_node f ns)) = keys ns"
proof (induction ns)
  case (Cons n ns)
  then show ?case by (cases n) (simp add: case_prod_beta)
qed simp

lemma on_nodes_fields [simp]:
  "mg_store (fst (on_nodes f m)) = mg_store m" "mg_effective (fst (on_nodes f m)) = mg_effective m" "mg_accounts (fst (on_nodes f m)) = mg_accounts m"
  "mg_params (fst (on_nodes f m)) = mg_params m" "keys (mg_nodes (fst (on_nodes f m))) = keys (mg_nodes m)" "mg_session (fst (on_nodes f m)) = mg_session m"
  by (simp_all add: on_nodes_def case_prod_beta)

lemma on_nodes_empty: "mg_nodes m = [] \<Longrightarrow> mg_nodes (fst (on_nodes f m)) = []"
  by (simp add: on_nodes_def)

lemma omap_ok_keys: "keys ns = keys ns' \<Longrightarrow> omap_ok ns = omap_ok ns'"
  by (simp add: omap_ok_def)

lemma put_keys: "set (keys (omap_put i d ns)) = insert i (set (keys ns))"
  by (rule keys_omap_put)

lemma delete_absent: "map_of ns i = None \<Longrightarrow> AList.delete i ns = ns"
  by (induction ns) (auto simp: AList.delete_eq split: if_splits)

lemma omap_put_fresh: "omap_ok ns \<Longrightarrow> map_of ns i = None \<Longrightarrow> AList.delete i (omap_put i d ns) = ns"
proof (induction i d ns rule: omap_put.induct)
  case (2 k v k' v' m)
  then show ?case using delete_absent [of m k] by (auto simp: omap_ok_Cons AList.delete_eq simp del: set_keys)
qed (simp add: AList.delete_eq)

section \<open>Memory and file\<close>

definition mirrors :: "('d, 's) manager \<Rightarrow> bool" where
  "mirrors m \<longleftrightarrow>
     (case mg_store m of
        None \<Rightarrow> mg_effective m = None \<and> mg_nodes m = []
      | Some s \<Rightarrow> (\<exists>e. mg_effective m = Some e \<and> ec_config e = ec_config (cs_current s)) \<and>
          mg_accounts m = bc_accounts (ec_config (cs_current s)) \<and> mg_params m = bc_params (ec_config (cs_current s)) \<and>
          distinct (map at_id (mg_accounts m)) \<and> set (keys (mg_nodes m)) \<subseteq> set (bc_instruments (ec_config (cs_current s)))) \<and>
     omap_ok (mg_nodes m)"

lemma committed:
  assumes "commit_config_with V f m = Some m'"
  obtains s s' where "mg_store m = Some s" "m' = m\<lparr>mg_store := Some s', mg_effective := map_option (\<lambda>e. e\<lparr>ec_config := ec_config (cs_current s')\<rparr>) (mg_effective m)\<rparr>"
    "ec_config (cs_current s') = f (ec_config (cs_current s))" "distinct (map at_id (bc_accounts (f (ec_config (cs_current s)))))"
proof -
  obtain s where s: "mg_store m = Some s" using assms by (auto simp: commit_config_with_def split: option.splits)
  then obtain s' where c: "commit_store (me_fp V) (me_today V) (me_written V) (f (ec_config (cs_current s))) s = Some s'"
    and m: "m' = m\<lparr>mg_store := Some s', mg_effective := map_option (\<lambda>e. e\<lparr>ec_config := ec_config (cs_current s')\<rparr>) (mg_effective m)\<rparr>"
    using assms by (auto simp: commit_config_with_def split: option.splits)
  then have "resolve_effective_config (me_fp V) (me_today V) (f (ec_config (cs_current s))) = Inr (cs_current s')"
    by (auto simp: commit_store_def split: sum.splits if_splits)
  then show ?thesis using that s m resolved(1,6) by metis
qed

text \<open>A change of the file and the same change in memory.\<close>

lemma mirrors_commit:
  assumes "mirrors m" "commit_config_with V f m = Some m'" "\<And>c. distinct (map at_id (bc_accounts c)) \<Longrightarrow> bc_accounts (f c) = g (bc_accounts c)"
    "\<And>c. bc_params (f c) = h (bc_params c)"
    "omap_ok ns" "\<And>c. set (keys (mg_nodes m)) \<subseteq> set (bc_instruments c) \<Longrightarrow> set (keys ns) \<subseteq> set (bc_instruments (f c))"
  shows "mirrors (m'\<lparr>mg_accounts := g (mg_accounts m), mg_params := h (mg_params m), mg_nodes := ns\<rparr>)"
  using assms(2)
proof (cases rule: committed)
  case (1 s s')
  have i: "mg_accounts m = bc_accounts (ec_config (cs_current s))" "mg_params m = bc_params (ec_config (cs_current s))"
    "distinct (map at_id (mg_accounts m))" "set (keys (mg_nodes m)) \<subseteq> set (bc_instruments (ec_config (cs_current s)))"
    "\<exists>e. mg_effective m = Some e \<and> ec_config e = ec_config (cs_current s)"
    using assms(1) 1(1) by (auto simp: mirrors_def simp del: set_keys)
  have a: "bc_accounts (f (ec_config (cs_current s))) = g (mg_accounts m)" using assms(3) i(1,3) by simp
  show ?thesis using 1 i a assms(4,5) assms(6) [OF i(4)] by (auto simp: mirrors_def simp del: set_keys)
qed

lemma mirrors_nodes: "mirrors m \<Longrightarrow> mirrors (fst (on_nodes f m))"
  using omap_ok_keys [of "mg_nodes (fst (on_nodes f m))" "mg_nodes m"]
  by (cases "mg_store m") (auto simp: mirrors_def on_nodes_empty simp del: set_keys)
lemma commit_nodes: "commit_config_with V f (m\<lparr>mg_nodes := ns\<rparr>) = map_option (\<lambda>m'. m'\<lparr>mg_nodes := ns\<rparr>) (commit_config_with V f m)"
  by (simp add: commit_config_with_def split: option.split)

lemma commit_config_fields:
  assumes "commit_config_with V f m = Some m'"
  shows "mg_nodes m' = mg_nodes m" "mg_accounts m' = mg_accounts m" "mg_params m' = mg_params m" "mg_session m' = mg_session m"
  using assms by (auto elim: committed)

lemma mirrors_source [simp]: "mirrors (m\<lparr>mg_source_unavailable := u\<rparr>) = mirrors m"
  by (simp add: mirrors_def split: option.split)

lemma mirrors_same:
  assumes "mirrors m" "commit_config_with V f m = Some m'" "\<And>c. bc_accounts (f c) = bc_accounts c" "\<And>c. bc_params (f c) = bc_params c"
    "omap_ok ns" "\<And>c. set (keys (mg_nodes m)) \<subseteq> set (bc_instruments c) \<Longrightarrow> set (keys ns) \<subseteq> set (bc_instruments (f c))"
  shows "mirrors (m'\<lparr>mg_nodes := ns\<rparr>)"
proof -
  have e: "m' = m'\<lparr>mg_accounts := mg_accounts m, mg_params := mg_params m\<rparr>"
    using commit_config_fields [OF assms(2)] by simp
  have "mirrors (m'\<lparr>mg_accounts := id (mg_accounts m), mg_params := id (mg_params m), mg_nodes := ns\<rparr>)"
    by (rule mirrors_commit [OF assms(1,2)]) (use assms(3-) in \<open>simp_all del: set_keys\<close>)
  then show ?thesis using e by (metis id_apply manager.surjective)
qed

lemma load_spec_state: "load_spec V i m = (r, m') \<Longrightarrow> m' = m \<or> m' = m\<lparr>mg_source_unavailable := True\<rparr>"
  by (auto simp: load_spec_def split: metadata_result.splits)

section \<open>Refused commands\<close>

text \<open>Orders and reports; calls of the strategy and subscriptions are not.\<close>

fun moves :: "'d sdk_call \<Rightarrow> bool" where
  "moves (Did e) \<longleftrightarrow> \<not> is_call e"
| "moves (Subscribed ns r) \<longleftrightarrow> False"
| "moves (Unsubscribed i) \<longleftrightarrow> False"

definition is_quiet :: "'d sdk_call list \<Rightarrow> bool" where
  "is_quiet es \<longleftrightarrow> list_all (\<lambda>e. \<not> moves e) es"

lemma quiet_append [simp]: "is_quiet [] \<longleftrightarrow> True" "is_quiet (es @ fs) \<longleftrightarrow> is_quiet es \<and> is_quiet fs" "is_quiet (map Did as) \<longleftrightarrow> list_all is_call as"
  by (auto simp: is_quiet_def list_all_iff)

lemma quiet_subscriptions: "is_quiet (snd (subscribe_one V i m))" "is_quiet (unsubscribe_one i m)"
  by (simp_all add: subscribe_one_def unsubscribe_one_def is_quiet_def)

definition same_but_source :: "('d, 's) manager \<Rightarrow> ('d, 's) manager \<Rightarrow> bool" where
  "same_but_source m m' \<longleftrightarrow> m' = m \<or> m' = m\<lparr>mg_source_unavailable := True\<rparr>"

definition left_alone :: "('d, 's) manager \<Rightarrow> ('d, 's) manager \<times> 'd sdk_call list \<times> 'd reply \<Rightarrow> bool" where
  "left_alone m p \<longleftrightarrow> same_but_source m (fst p) \<and> is_quiet (fst (snd p))"

definition is_refusal :: "'d reply \<Rightarrow> bool" where
  "is_refusal r \<longleftrightarrow> (case r of Refused k i x \<Rightarrow> True | _ \<Rightarrow> False)"

lemma refuse_alone [simp]: "left_alone m (refuse k i r m' es) \<longleftrightarrow> same_but_source m m' \<and> is_quiet es"
  by (simp add: left_alone_def refuse_def)

lemma same_refl [simp]: "same_but_source m m"
  by (simp add: same_but_source_def)

lemma not_refusal [simp]: "\<not> is_refusal (Accepted k i t)" "\<not> is_refusal (Unchanged i x)" "\<not> is_refusal (run_instrument_list V m)"
  "\<not> is_refusal (run_account_list V m)" "\<not> is_refusal (run_status m)" "\<not> is_refusal Quitting"
  by (simp_all add: is_refusal_def run_instrument_list_def run_account_list_def run_status_def)

lemma unchanged_alone [simp]: "left_alone m (m, [], r)"
  by (simp add: left_alone_def)

text \<open>A node that is made for a command is not live, so nothing it does reaches an account.\<close>

lemma emplaced_quiet:
  assumes "emplace_node V i spec e m = Some (r, m', es)"
  shows "is_quiet es" "r = Emplaced \<Longrightarrow> \<exists>d. m' = put_node i d m \<and> \<not> ic_live (nd_ctx d)" "r \<noteq> Emplaced \<Longrightarrow> m' = m"
proof -
  have q: "list_all is_call (fst (snd (init_new_instance (node_env_of V m) d))) \<and> \<not> ic_live (nd_ctx (fst (init_new_instance (node_env_of V m) d)))"
    if "new_node (node_env_of V m) (init_context V i spec e m) (me_table V) p = Some d" for d p
    using that quiet.init [of d "node_env_of V m"]
    by (auto simp: new_node_def init_context_def new_context_def quiet_def split: option.splits)
  show "is_quiet es" "r = Emplaced \<Longrightarrow> \<exists>d. m' = put_node i d m \<and> \<not> ic_live (nd_ctx d)" "r \<noteq> Emplaced \<Longrightarrow> m' = m"
    using assms q by (auto simp: emplace_node_def case_prod_beta split: if_splits option.splits)
qed

lemma warmup_quiet:
  assumes "\<not> ic_live (nd_ctx d)"
  shows "list_all is_call (snd (warmup_instrument V e m d)) \<and> \<not> ic_live (nd_ctx (fst (warmup_instrument V e m d)))"
  using assms quiet.history [of d "node_env_of V m" "warm_bars_of e" "cy_max (ec_capacity e)"]
  by (auto simp: warmup_instrument_def quiet_def split: history_result.split)

lemma destroy_quiet: "\<not> ic_live (nd_ctx d) \<Longrightarrow> list_all is_call (snd (dispatch_on_destroy E d))"
  using quiet.destroy [of d E] by (simp add: quiet_def)
lemma finish_add_refused:
  assumes "finish_add V e i d (put_node i d0 m) = (m', es, r)" "is_refusal r" "omap_ok (mg_nodes m)" "map_of (mg_nodes m) i = None" "\<not> ic_live (nd_ctx d)"
  shows "m' = m \<and> is_quiet es"
proof -
  let ?w = "warmup_instrument V e (put_node i d0 m) d"
  have q: "list_all is_call (snd ?w)" "\<not> ic_live (nd_ctx (fst ?w))" using warmup_quiet [OF assms(5), of V e "put_node i d0 m"] by simp_all
  have n: "commit_config_with V (add_instrument i) (put_node i d0 m) = None"
    using assms(1,2) by (auto simp: finish_add_def case_prod_beta split: option.splits)
  have "m' = drop_node i (put_node i d0 m)"
    "es = map Did (snd ?w @ snd (dispatch_on_destroy (node_env_of V (put_node i d0 m)) (fst ?w))) @ unsubscribe_one i (put_node i d0 m)"
    using assms(1) by (simp_all add: finish_add_def case_prod_beta refuse_def n)
  moreover have "drop_node i (put_node i d0 m) = m" using assms(3,4) by (simp add: drop_node_def put_node_def omap_put_fresh)
  ultimately show ?thesis by (simp add: q(1) destroy_quiet [OF q(2)] quiet_subscriptions(2))
qed

lemma add_refused:
  assumes "omap_ok (mg_nodes m)" "is_refusal (snd (snd (run_instrument_add V e i m)))"
  shows "left_alone m (run_instrument_add V e i m)"
proof (cases "i = [] \<or> map_of (mg_nodes m) i \<noteq> None")
  case True
  then show ?thesis by (auto simp: run_instrument_add_def)
next
  case False
  obtain so m1 where l: "load_spec V i m = (so, m1)" by (cases "load_spec V i m")
  have s: "same_but_source m m1" using load_spec_state [OF l] by (simp add: same_but_source_def)
  show ?thesis
  proof (cases so)
    case None
    then show ?thesis using False s by (simp add: run_instrument_add_def l)
  next
    case (Some spec)
    obtain b ss where b: "subscribe_one V i m1 = (b, ss)" by (cases "subscribe_one V i m1")
    have ss: "is_quiet ss" using quiet_subscriptions(1) [of V i m1] by (simp add: b)
    have n: "omap_ok (mg_nodes m1)" "map_of (mg_nodes m1) i = None" using assms(1) False s by (auto simp: same_but_source_def)
    show ?thesis
    proof (cases "emplace_node V i spec e m1")
      case None
      then show ?thesis using False s ss by (simp add: run_instrument_add_def l Some b split: bool.split)
    next
      case e: (Some p)
      obtain r m2 es where p: "p = (r, m2, es)" by (cases p)
      note q = emplaced_quiet [OF e [unfolded p]]
      show ?thesis
      proof (cases "b \<and> r = Emplaced")
        case True
        then obtain d where d: "m2 = put_node i d m1" "\<not> ic_live (nd_ctx d)" using q(2) by blast
        obtain m3 fs rr where f: "finish_add V e i d (put_node i d m1) = (m3, fs, rr)" by (cases "finish_add V e i d (put_node i d m1)")
        have "map_of (mg_nodes m2) i = Some d" using n(1) by (simp add: d put_node_def)
        then have a: "run_instrument_add V e i m = (m3, ss @ es @ fs, rr)"
          using False True by (simp add: run_instrument_add_def l Some b e p d(1) f)
        then show ?thesis using finish_add_refused [OF f _ n d(2)] assms(2) s ss q(1) by (simp add: left_alone_def)
      next
        case False2: False
        then show ?thesis using False s ss q quiet_subscriptions(2)
          by (cases r; cases b) (simp_all add: run_instrument_add_def l Some b e p)
      qed
    qed
  qed
qed

lemma other_refused:
  "is_refusal (snd (snd (run_instrument_del V i sync market m))) \<Longrightarrow> left_alone m (run_instrument_del V i sync market m)"
  "is_refusal (snd (snd (run_account_add V e i x sync market m))) \<Longrightarrow> left_alone m (run_account_add V e i x sync market m)"
  "is_refusal (snd (snd (run_account_set V e i x sync market m))) \<Longrightarrow> left_alone m (run_account_set V e i x sync market m)"
  "is_refusal (snd (snd (run_account_del V i sync market m))) \<Longrightarrow> left_alone m (run_account_del V i sync market m)"
  "is_refusal (snd (snd (run_param_set V i t m))) \<Longrightarrow> left_alone m (run_param_set V i t m)"
  by (auto simp: run_instrument_del_def run_account_add_def run_account_set_def run_account_del_def run_param_set_def case_prod_beta Let_def
      split: option.splits if_splits)

lemma command_refused:
  "omap_ok (mg_nodes m) \<Longrightarrow> is_refusal (snd (snd (execute_command V e c m))) \<Longrightarrow> left_alone m (execute_command V e c m)"
  by (cases "cm_kind c") (simp_all add: execute_command_def add_refused other_refused)
section \<open>Runs\<close>

lemma rescale_first_distinct: "distinct (map at_id as) \<Longrightarrow> rescale_first i x as = rescale i x as"
proof (induction i x as rule: rescale_first.induct)
  case (2 i x a as)
  have "rescale (at_id a) x as = as" if "at_id a \<notin> at_id ` set as" using that by (induction as) (auto simp: rescale_def)
  then show ?case using 2 by (auto simp: rescale_def)
qed (simp add: rescale_def)

lemma mirrors_put: "mirrors m \<Longrightarrow> map_of (mg_nodes m) i \<noteq> None \<Longrightarrow> mirrors (put_node i d m)"
proof -
  assume m: "mirrors m" "map_of (mg_nodes m) i \<noteq> None"
  then have "set (keys (omap_put i d (mg_nodes m))) = set (keys (mg_nodes m))" unfolding put_keys by (auto simp: domIff)
  then show "mirrors (put_node i d m)" using m by (cases "mg_store m") (auto simp: mirrors_def put_node_def simp del: set_keys)
qed

lemma mirrors_omap: "mirrors m \<Longrightarrow> omap_ok (mg_nodes m)"
  by (simp add: mirrors_def)

lemma same_mirrors: "same_but_source m m' \<Longrightarrow> mirrors m' = mirrors m"
  by (auto simp: same_but_source_def)

lemma omap_put_put: "omap_put i w (omap_put i d ns) = omap_put i w ns"
  by (induction i d ns rule: omap_put.induct) auto

lemma mirrors_finish:
  assumes "mirrors m" "map_of (mg_nodes m) i = None" "\<not> is_refusal (snd (snd (finish_add V e i d (put_node i d0 m))))"
  shows "mirrors (fst (finish_add V e i d (put_node i d0 m)))"
proof -
  obtain m1 where c: "commit_config_with V (add_instrument i) (put_node i d0 m) = Some m1"
    using assms(3) by (auto simp: finish_add_def case_prod_beta refuse_def is_refusal_def split: option.splits)
  then obtain m2 where c2: "commit_config_with V (add_instrument i) m = Some m2" "m1 = m2\<lparr>mg_nodes := omap_put i d0 (mg_nodes m)\<rparr>"
    by (auto simp: put_node_def commit_nodes)
  have ok: "omap_ok (mg_nodes m)" by (rule mirrors_omap [OF assms(1)])
  have "mirrors (m2\<lparr>mg_nodes := omap_put i w (mg_nodes m)\<rparr>)" for w
    by (rule mirrors_same [OF assms(1) c2(1)]) (use ok in \<open>auto simp: add_instrument_def put_keys simp del: set_keys\<close>)
  moreover have "fst (finish_add V e i d (put_node i d0 m)) = m2\<lparr>mg_nodes := omap_put i w (mg_nodes m)\<rparr>"
    if "w = fst (go_live V m1 (fst (warmup_instrument V e (put_node i d0 m) d)))" for w
    using c by (simp add: finish_add_def case_prod_beta that put_node_def c2(2) omap_put_put)
  ultimately show ?thesis by metis
qed

text \<open>What an instrument that is taken up went through.\<close>

lemma add_accepted:
  assumes "omap_ok (mg_nodes m)" "\<not> is_refusal (snd (snd (run_instrument_add V e i m)))"
  obtains m1 d ss es where "i \<noteq> []" "map_of (mg_nodes m) i = None" "same_but_source m m1" "is_quiet (ss @ es)"
    "emplace_node V i (the (fst (load_spec V i m))) e m1 = Some (Emplaced, put_node i d m1, es)"
    "\<not> is_refusal (snd (snd (finish_add V e i d (put_node i d m1))))"
    "run_instrument_add V e i m = (case finish_add V e i d (put_node i d m1) of (m3, fs, r) \<Rightarrow> (m3, ss @ es @ fs, r))"
proof -
  have i: "i \<noteq> []" "map_of (mg_nodes m) i = None" using assms(2) by (auto simp: run_instrument_add_def refuse_def is_refusal_def split: if_splits)
  obtain so m1 where l: "load_spec V i m = (so, m1)" by (cases "load_spec V i m")
  obtain spec where so: "so = Some spec" using assms(2) i by (cases so) (auto simp: run_instrument_add_def l refuse_def is_refusal_def)
  have m1: "same_but_source m m1" "omap_ok (mg_nodes m1)" using load_spec_state [OF l] assms(1) by (auto simp: same_but_source_def)
  obtain b ss where b: "subscribe_one V i m1 = (b, ss)" by (cases "subscribe_one V i m1")
  obtain r m2 es where e: "emplace_node V i spec e m1 = Some (r, m2, es)"
    using assms(2) i by (cases "emplace_node V i spec e m1") (auto simp: run_instrument_add_def l so b refuse_def is_refusal_def split: bool.splits)
  have r: "b" "r = Emplaced" using assms(2) i by (auto simp: run_instrument_add_def l so b e refuse_def is_refusal_def split: bool.splits emplaced.splits)
  then obtain d where d: "m2 = put_node i d m1" using emplaced_quiet(2) [OF e] by blast
  have "map_of (mg_nodes m2) i = Some d" using m1(2) by (simp add: d put_node_def)
  then have eq: "run_instrument_add V e i m = (case finish_add V e i d (put_node i d m1) of (m3, fs, r) \<Rightarrow> (m3, ss @ es @ fs, r))"
    using i r by (simp add: run_instrument_add_def l so b e d)
  have "is_quiet (ss @ es)" using quiet_subscriptions(1) [of V i m1] emplaced_quiet(1) [OF e] by (simp add: b)
  moreover have "\<not> is_refusal (snd (snd (finish_add V e i d (put_node i d m1))))" using assms(2) by (simp add: eq case_prod_beta)
  ultimately show ?thesis using that [of m1 ss es d, OF i m1(1)] e eq by (simp add: l so r d)
qed

lemma mirrors_add:
  assumes "mirrors m"
  shows "mirrors (fst (run_instrument_add V e i m))"
proof (cases "is_refusal (snd (snd (run_instrument_add V e i m)))")
  case True
  then show ?thesis using add_refused [OF mirrors_omap [OF assms] True] same_mirrors assms by (auto simp: left_alone_def)
next
  case False
  show ?thesis
    by (rule add_accepted [OF mirrors_omap [OF assms] False])
      (use assms in \<open>auto simp: case_prod_beta same_but_source_def mirrors_finish\<close>)
qed

lemma keys_delete: "set (keys (AList.delete i ns)) \<subseteq> set (keys ns)" "i \<notin> set (keys (AList.delete i ns))"
  by auto

lemma mirrors_del: "mirrors m \<Longrightarrow> mirrors (fst (run_instrument_del V i sync market m))"
proof -
  assume m: "mirrors m"
  have "mirrors (drop_node i m1)" if c: "commit_config_with V (remove_instrument i) m = Some m1" for m1
  proof -
    have "mirrors (m1\<lparr>mg_nodes := AList.delete i (mg_nodes m)\<rparr>)"
      by (rule mirrors_same [OF m c]) (use mirrors_omap [OF m] keys_delete [of i "mg_nodes m"] in \<open>auto simp: remove_instrument_def simp del: set_keys\<close>)
    then show ?thesis using commit_config_fields [OF c] by (simp add: drop_node_def)
  qed
  then show ?thesis using m by (auto simp: run_instrument_del_def refuse_def case_prod_beta split: option.split)
qed

lemma mirrors_accounts:
  assumes "mirrors m" "commit_config_with V f m = Some m1" "\<And>c. distinct (map at_id (bc_accounts c)) \<Longrightarrow> bc_accounts (f c) = g (bc_accounts c)"
    "\<And>c. bc_params (f c) = bc_params c" "\<And>c. bc_instruments (f c) = bc_instruments c"
  shows "mirrors (m1\<lparr>mg_accounts := g (mg_accounts m1)\<rparr>)"
proof -
  have "mirrors (m1\<lparr>mg_accounts := g (mg_accounts m), mg_params := id (mg_params m), mg_nodes := mg_nodes m\<rparr>)"
    by (rule mirrors_commit [OF assms(1,2)]) (use assms(3-) mirrors_omap [OF assms(1)] in \<open>simp_all del: set_keys\<close>)
  moreover have eq: "m1\<lparr>mg_accounts := g (mg_accounts m1)\<rparr> = m1\<lparr>mg_accounts := g (mg_accounts m), mg_params := id (mg_params m), mg_nodes := mg_nodes m\<rparr>"
    using commit_config_fields [OF assms(2)] by simp
  ultimately show ?thesis by (simp only: eq)
qed

lemma mirrors_account_commands:
  assumes "mirrors m"
  shows "mirrors (fst (run_account_add V e i x sync market m))" "mirrors (fst (run_account_set V e i x sync market m))"
    "mirrors (fst (run_account_del V i sync market m))"
proof -
  have "mirrors (m1\<lparr>mg_accounts := mg_accounts m1 @ [a]\<rparr>)" if "commit_config_with V (append_account a) m = Some m1" for a m1
    using mirrors_accounts [OF assms that, of "\<lambda>as. as @ [a]"] by (simp add: append_account_def)
  then show "mirrors (fst (run_account_add V e i x sync market m))"
    using assms by (auto simp: run_account_add_def refuse_def case_prod_beta Let_def split: option.split)
  have "mirrors (m1\<lparr>mg_accounts := rescale_first i x (mg_accounts m1)\<rparr>)" if "commit_config_with V (rescale_config i x) m = Some m1" for m1
    using mirrors_accounts [OF assms that, of "rescale_first i x"] by (simp add: rescale_config_def rescale_first_distinct)
  then show "mirrors (fst (run_account_set V e i x sync market m))"
    using assms by (auto simp: run_account_set_def refuse_def case_prod_beta Let_def split: option.split)
  have "mirrors (m1\<lparr>mg_accounts := erase_account i (mg_accounts m1)\<rparr>)" if "commit_config_with V (erase_config i) m = Some m1" for m1
    using mirrors_accounts [OF assms that, of "erase_account i"] by (simp add: erase_config_def)
  then show "mirrors (fst (run_account_del V i sync market m))"
    using assms by (auto simp: run_account_del_def refuse_def case_prod_beta split: option.split)
qed

lemma mirrors_param: "mirrors m \<Longrightarrow> mirrors (fst (run_param_set V i t m))"
proof -
  assume m: "mirrors m"
  have "mirrors (fst (on_nodes f (m1\<lparr>mg_params := AList.update i v (mg_params m1)\<rparr>)))" if c: "commit_config_with V (set_param i v) m = Some m1" for m1 v f
  proof -
    have "mirrors (m1\<lparr>mg_accounts := id (mg_accounts m), mg_params := AList.update i v (mg_params m), mg_nodes := mg_nodes m\<rparr>)"
      by (rule mirrors_commit [OF m c]) (use mirrors_omap [OF m] in \<open>simp_all add: set_param_def del: set_keys\<close>)
    moreover have eq: "m1\<lparr>mg_params := AList.update i v (mg_params m1)\<rparr> =
        m1\<lparr>mg_accounts := id (mg_accounts m), mg_params := AList.update i v (mg_params m), mg_nodes := mg_nodes m\<rparr>"
      using commit_config_fields [OF c] by simp
    ultimately have "mirrors (m1\<lparr>mg_params := AList.update i v (mg_params m1)\<rparr>)" by (simp only: eq)
    then show ?thesis by (rule mirrors_nodes)
  qed
  then show ?thesis using m by (auto simp: run_param_set_def refuse_def case_prod_beta Let_def split: option.split)
qed

lemma mirrors_quit: "mirrors (run_quit m) = mirrors m"
  by (cases "mg_store m") (simp_all add: mirrors_def run_quit_def)

lemma mirrors_command: "mirrors m \<Longrightarrow> mirrors (fst (execute_command V e c m))"
  by (cases "cm_kind c") (simp_all add: execute_command_def mirrors_add mirrors_del mirrors_account_commands mirrors_param mirrors_quit)

end
