(* ===== verification/Bar_Runs.thy ===== *)
theory Bar_Runs
  imports Bar_Manager_Facts
begin

text \<open>
  Runs of a manager: the start and then ticks, timers and lines of the operator in any order. The answers of the SDK, the
  archive and the file system may differ from one input to the next. Invariants of the nodes are collected in a locale.
\<close>

section \<open>Inputs\<close>

datatype 'd input = In_Tick "'d dz_tick" | In_Timer int | In_Line string

definition new_manager :: "bool \<Rightarrow> ('d, 's) manager" where
  "new_manager session =
     \<lparr>mg_session = session, mg_timer = None, mg_store = None, mg_effective = None, mg_source_unavailable = False, mg_params = [],
      mg_accounts = [], mg_startup_failed = False, mg_exit_code = 0, mg_quit = False, mg_live = False, mg_nodes = []\<rparr>"

fun manager_step :: "('d, 's) manager_env \<Rightarrow> 'd input \<Rightarrow> ('d, 's) manager \<Rightarrow> ('d, 's) manager \<times> 'd sdk_call list" where
  "manager_step V (In_Tick k) m = manager_tick V k m"
| "manager_step V (In_Timer n) m = (on_schedule n m, [])"
| "manager_step V (In_Line s) m = (case on_ui_input V s m of (m', es, r) \<Rightarrow> (m', es))"

fun manager_run :: "(('d, 's) manager_env \<times> 'd input) list \<Rightarrow> ('d, 's) manager \<Rightarrow> ('d, 's) manager \<times> 'd sdk_call list" where
  "manager_run [] m = (m, [])"
| "manager_run ((V, i) # is) m = (case manager_step V i m of (m1, es) \<Rightarrow> (case manager_run is m1 of (m2, fs) \<Rightarrow> (m2, es @ fs)))"

section \<open>Memory and file\<close>

lemma mirrors_new: "mirrors (new_manager session)"
  by (simp add: mirrors_def new_manager_def omap_ok_def)

lemma mirrors_tick: "mirrors m \<Longrightarrow> mirrors (fst (manager_tick V k m))"
  by (auto simp: manager_tick_def live_instance_def case_prod_beta mirrors_put split: option.split if_splits)

lemma mirrors_step: "mirrors m \<Longrightarrow> mirrors (fst (manager_step V i m))"
  by (cases i) (auto simp: mirrors_tick on_schedule_def relocate_live_instruments_def mirrors_nodes on_ui_input_def case_prod_beta mirrors_command
      split: sum.split option.split)

lemma mirrors_run: "mirrors m \<Longrightarrow> mirrors (fst (manager_run is m))"
proof (induction "is" arbitrary: m)
  case (Cons p ps)
  then show ?case by (cases p) (simp add: case_prod_beta mirrors_step)
qed simp

definition wanted :: "string \<Rightarrow> ('d, 's) manager \<Rightarrow> bool" where
  "wanted i m \<longleftrightarrow> (case mg_store m of None \<Rightarrow> False | Some s \<Rightarrow> i \<in> set (bc_instruments (ec_config (cs_current s))))"

lemma mirrors_grow: "mirrors m \<Longrightarrow> wanted i m \<Longrightarrow> mirrors (put_node i d m)"
  by (cases "mg_store m") (auto simp: mirrors_def wanted_def put_node_def put_keys simp del: set_keys)

lemma load_spec_wanted: "load_spec V i m = (r, m') \<Longrightarrow> wanted j m' = wanted j m"
  using load_spec_state [of V i m r m'] by (auto simp: wanted_def)

lemma put_wanted [simp]: "wanted j (put_node i d m) = wanted j m"
  by (simp add: wanted_def put_node_def)

lemma mirrors_create:
  "create_instances V e js m = Some (m', es) \<Longrightarrow> mirrors m \<Longrightarrow> list_all (\<lambda>j. wanted j m) js \<Longrightarrow> mirrors m'"
proof (induction js arbitrary: m m' es)
  case (Cons i js)
  obtain so m1 where l: "load_spec V i m = (so, m1)" by (cases "load_spec V i m")
  have m1: "mirrors m1" "list_all (\<lambda>j. wanted j m1) (i # js)"
    using load_spec_state [OF l] Cons.prems(2,3) load_spec_wanted [OF l] by auto
  show ?case
  proof (cases so)
    case None
    then show ?thesis using Cons.IH [of m1] Cons.prems(1) m1 by (simp add: l)
  next
    case (Some spec)
    then obtain r m2 fs gs where n: "emplace_node V i spec e m1 = Some (r, m2, fs)" "create_instances V e js m2 = Some (m', gs)"
      using Cons.prems(1) by (auto simp: l split: option.splits)
    have "mirrors m2 \<and> list_all (\<lambda>j. wanted j m2) js"
    proof (cases "r = Emplaced")
      case True
      then obtain d where "m2 = put_node i d m1" using emplaced_quiet(2) [OF n(1)] by blast
      then show ?thesis using m1 by (simp add: mirrors_grow)
    next
      case False
      then show ?thesis using emplaced_quiet(3) [OF n(1)] m1 by simp
    qed
    then show ?thesis using Cons.IH [OF n(2)] by simp
  qed
qed simp

lemma mirrors_drain: "mirrors m \<Longrightarrow> mirrors (fst (drain_buffered_ticks V e ks m))"
proof (induction ks arbitrary: m)
  case (Cons k ks)
  have "mirrors (fst (continue_tick V e k m))"
    using Cons.prems by (auto simp: continue_tick_def live_instance_def case_prod_beta mirrors_put split: option.split if_splits)
  then show ?case using Cons.IH by (simp add: case_prod_beta)
qed simp

lemma mirrors_fields [simp]:
  "mirrors (m\<lparr>mg_timer := t\<rparr>) = mirrors m" "mirrors (m\<lparr>mg_live := l\<rparr>) = mirrors m"
  "mirrors (m\<lparr>mg_startup_failed := b, mg_exit_code := x\<rparr>) = mirrors m"
  by (simp_all add: mirrors_def split: option.split)

lemma on_nodes_wanted [simp]: "wanted j (fst (on_nodes f m)) = wanted j m"
  by (simp add: wanted_def)

lemma loaded:
  assumes "load_config_file F today written file = Load_Ok s"
  shows "\<exists>c. resolve_effective_config F today c = Inr (cs_current s)"
  using assms by (auto simp: load_config_file_def and_then_Inr split: option.splits json.splits if_splits sum.splits)

lemma mirrors_loaded:
  assumes "resolve_effective_config F today c = Inr (cs_current s)" "mg_nodes m = []"
  shows "mirrors (m\<lparr>mg_store := Some s, mg_effective := Some (cs_current s), mg_accounts := bc_accounts (ec_config (cs_current s)),
      mg_params := bc_params (ec_config (cs_current s))\<rparr>)"
  using resolved(1,6) [OF assms(1)] assms(2) by (simp add: mirrors_def omap_ok_def)

text \<open>What a start is made of, once the configuration is loaded and the subscriptions are made.\<close>

lemma start_cases:
  assumes "on_start V file ks m = Some (m', es)"
  obtains (failed) m1 where "m' = request_startup_exit 1 m1" "es = []" "mg_nodes m1 = mg_nodes m" "mg_session m1 = mg_session m" "mirrors m \<Longrightarrow> mg_nodes m = [] \<Longrightarrow> mirrors m1"
  | (started) s e m1 m2 m3 cs ws ds ls where "load_config_file (me_fp V) (me_today V) (me_written V) file = Load_Ok s" "e = cs_current s"
      "m1 = m\<lparr>mg_store := Some s, mg_effective := Some e, mg_accounts := bc_accounts (ec_config e), mg_params := bc_params (ec_config e)\<rparr>"
      "create_instances V e (bc_instruments (ec_config e)) m1 = Some (m2, cs)"
      "m3 = fst (on_nodes (warmup_instrument V e (if mg_session m2 then m2\<lparr>mg_timer := me_timer V\<rparr> else m2)) (if mg_session m2 then m2\<lparr>mg_timer := me_timer V\<rparr> else m2))"
      "ws = snd (on_nodes (warmup_instrument V e (if mg_session m2 then m2\<lparr>mg_timer := me_timer V\<rparr> else m2)) (if mg_session m2 then m2\<lparr>mg_timer := me_timer V\<rparr> else m2))"
      "m' = fst (enter_live V (if mg_session m3 then fst (drain_buffered_ticks V e ks m3) else m3))"
      "ds = (if mg_session m3 then snd (drain_buffered_ticks V e ks m3) else [])"
      "ls = snd (enter_live V (if mg_session m3 then fst (drain_buffered_ticks V e ks m3) else m3))"
      "es = Subscribed (bc_instruments (ec_config e)) True # cs @ ws @ ds @ ls"
proof (cases "load_config_file (me_fp V) (me_today V) (me_written V) file")
  case (Load_Ok s)
  let ?e = "cs_current s"
  let ?m = "m\<lparr>mg_store := Some s, mg_effective := Some ?e, mg_accounts := bc_accounts (ec_config ?e), mg_params := bc_params (ec_config ?e)\<rparr>"
  obtain c where c: "resolve_effective_config (me_fp V) (me_today V) c = Inr ?e" using loaded [OF Load_Ok] by blast
  show ?thesis
  proof (cases "me_subscribe V (bc_instruments (ec_config ?e))")
    case False
    have "mirrors ?m" if "mg_nodes m = []" by (rule mirrors_loaded [OF c that])
    then show ?thesis using failed [of ?m] assms False by (simp add: on_start_def Load_Ok Let_def)
  next
    case True
    then obtain m2 cs where k: "create_instances V ?e (bc_instruments (ec_config ?e)) ?m = Some (m2, cs)"
      using assms by (auto simp: on_start_def Load_Ok Let_def split: option.splits)
    show ?thesis
      by (rule started [OF Load_Ok refl refl k refl refl]) (use assms True k in \<open>auto simp: on_start_def Load_Ok Let_def case_prod_beta\<close>)
  qed
qed (use assms failed [of m] in \<open>auto simp: on_start_def\<close>)

lemma enter_live_mirrors: "mirrors m \<Longrightarrow> mirrors (fst (enter_live V m))"
  by (simp add: enter_live_def case_prod_beta mirrors_nodes)

lemma mirrors_start:
  assumes "on_start V file ks m = Some (m', es)" "mirrors m" "mg_nodes m = []"
  shows "mirrors m'"
  using assms(1)
proof (cases rule: start_cases)
  case (failed m1)
  then show ?thesis using assms by (simp add: request_startup_exit_def)
next
  case (started s e m1 m2 m3 cs ws ds ls)
  obtain c where c: "resolve_effective_config (me_fp V) (me_today V) c = Inr (cs_current s)" using loaded [OF started(1)] by blast
  have m1: "mirrors m1" "list_all (\<lambda>j. wanted j m1) (bc_instruments (ec_config e))"
    using mirrors_loaded [OF c assms(3)] by (simp_all add: started(2,3) wanted_def list_all_iff)
  have "mirrors m2" by (rule mirrors_create [OF started(4) m1])
  then have "mirrors m3" by (simp add: started(5) mirrors_nodes)
  then show ?thesis by (simp add: started(7) enter_live_mirrors mirrors_drain)
qed

end
