(* ===== verification/Bar_Reports.thy ===== *)
theory Bar_Reports
  imports Bar_Runs
begin

text \<open>
  The positions reported to the outside follow the ledgers: from the start on, whatever ticks and commands come, the last
  report of an account and an instrument is the account's share of the instrument's position.
\<close>

section \<open>Reports\<close>

text \<open>The last report for an account and an instrument; an empty instrument addresses all of them.\<close>

fun last_pub :: "string \<Rightarrow> string \<Rightarrow> int option \<Rightarrow> 'd sdk_call list \<Rightarrow> int option" where
  "last_pub a i v [] = v"
| "last_pub a i v (Did (Publish b j n) # es) = last_pub a i (if b = a \<and> (j = i \<or> j = []) then Some n else v) es"
| "last_pub a i v (e # es) = last_pub a i v es"

lemma last_pub_append [simp]: "last_pub a i v (es @ fs) = last_pub a i (last_pub a i v es) fs"
  by (induction a i v es rule: last_pub.induct) auto

text \<open>The reports among some actions are about instruments of a set, or for other accounts.\<close>

fun about :: "string set \<Rightarrow> 'd action \<Rightarrow> bool" where
  "about K (Publish a j n) \<longleftrightarrow> j \<in> K"
| "about K e \<longleftrightarrow> True"

fun no_report :: "string \<Rightarrow> 'd sdk_call \<Rightarrow> bool" where
  "no_report a (Did (Publish b j n)) \<longleftrightarrow> b \<noteq> a"
| "no_report a e \<longleftrightarrow> True"

lemma about_mono: "list_all (about K) es \<Longrightarrow> K \<subseteq> L \<Longrightarrow> list_all (about L) es"
proof (induction es)
  case (Cons e es)
  then show ?case by (cases e) auto
qed simp

lemma last_pub_other: "list_all (about K) es \<Longrightarrow> i \<notin> K \<Longrightarrow> [] \<notin> K \<Longrightarrow> last_pub a i v (map Did es) = v"
proof (induction es arbitrary: v)
  case (Cons e es)
  then show ?case by (cases e) auto
qed simp

lemma last_pub_no_report: "list_all (no_report a) es \<Longrightarrow> last_pub a i v es = v"
  by (induction a i v es rule: last_pub.induct) auto

lemma last_pub_own: "list_all (about {i}) es \<Longrightarrow> last_pub a i (Some n) (map Did es) = Some (last_report a n es)"
proof (induction es arbitrary: n)
  case (Cons e es)
  then show ?case by (cases e) auto
qed simp

lemma calls_about: "list_all is_call es \<Longrightarrow> list_all (about {}) es"
proof (induction es)
  case (Cons e es)
  then show ?case by (cases e) auto
qed simp

lemma quiet_pub: "is_quiet es \<Longrightarrow> last_pub a i v es = v"
proof (induction es arbitrary: v)
  case (Cons e es)
  show ?case
  proof (cases e)
    case (Did x)
    then show ?thesis using Cons by (cases x) (auto simp: is_quiet_def)
  qed (use Cons in \<open>auto simp: is_quiet_def\<close>)
qed simp

definition after :: "(string \<Rightarrow> string \<Rightarrow> int option) \<Rightarrow> 'd sdk_call list \<Rightarrow> string \<Rightarrow> string \<Rightarrow> int option" where
  "after v es = (\<lambda>a i. last_pub a i (v a i) es)"

lemma after_append [simp]: "after v (es @ fs) = after (after v es) fs" "after v [] = v"
  by (simp_all add: after_def)

lemma after_quiet: "is_quiet es \<Longrightarrow> after v es = v"
  by (simp add: after_def quiet_pub)

section \<open>A node reports about itself\<close>

definition own :: "'d ictx \<Rightarrow> 'd action list \<Rightarrow> 'd ictx \<Rightarrow> bool" where
  "own c es c' \<longleftrightarrow> ic_live c' = ic_live c \<and> ic_session c' = ic_session c \<and> ic_id c' = ic_id c \<and> list_all (about {ic_id c}) es"

lemma fan_about: "list_all (about {ic_id c}) (fan_account F q price c a)"
  by (auto simp: fan_account_def Let_def submit_delta_order_def submit_order_def publish_position_def publish_position_to_def split: option.split)

lemma fans_about: "list_all (about {ic_id c}) (concat (map (fan_account F q price c) A))"
  by (induction A) (simp_all add: fan_about)

lemma execute_own: "own c (snd (execute_intent F (Some A) i n p c)) (fst (execute_intent F (Some A) i n p c))"
proof (cases rule: execute_actions [of F A i n p c])
  case none
  then show ?thesis by (simp add: own_def)
next
  case fan
  then show ?thesis using fans_about [of "fst (execute_intent F (Some A) i n p c)"] by (simp add: own_def)
qed

interpretation own: respected E own for E :: "('d, 'p, 's) node_env"
proof
  show "own c (snd (execute_intent (ne_fp E) (Some (ne_accounts E)) i n p c)) (fst (execute_intent (ne_fp E) (Some (ne_accounts E)) i n p c))" for c i n p
    by (rule execute_own)
qed (auto simp: own_def callback_frame_def account_frame_def)

section \<open>Nodes whose shares are reported\<close>

definition ready :: "string \<Rightarrow> ('d, 's) node \<Rightarrow> bool" where
  "ready i d \<longleftrightarrow> i \<noteq> [] \<and> ic_id (nd_ctx d) = i \<and> ic_session (nd_ctx d) \<and> (ic_failed (nd_ctx d) \<or> ic_live (nd_ctx d))"

definition settled :: "('d, 'f) fpx_scheme \<Rightarrow> 'd attached list \<Rightarrow> (string \<Rightarrow> string \<Rightarrow> int option) \<Rightarrow> ('d, 's) nodes \<Rightarrow> bool" where
  "settled F A v ns \<longleftrightarrow> (\<forall>i d. map_of ns i = Some d \<longrightarrow> ready i d \<and> (\<forall>a \<in> set A. v (at_id a) i = Some (share F a (nd_ctx d))))"

definition settles :: "('d, 'f) fpx_scheme \<Rightarrow> 'd attached list \<Rightarrow> (string \<Rightarrow> string \<Rightarrow> int option) \<Rightarrow> string \<Rightarrow> ('d, 's) node \<times> 'd action list \<Rightarrow> bool" where
  "settles F A v i p \<longleftrightarrow> ready i (fst p) \<and> list_all (about {i}) (snd p) \<and>
     (\<forall>a \<in> set A. last_pub (at_id a) i (v (at_id a) i) (map Did (snd p)) = Some (share F a (nd_ctx (fst p))))"

lemma keys_lookup: "i \<in> set (keys ns) \<longleftrightarrow> map_of ns i \<noteq> None"
  by (simp add: domIff)

lemma each_about:
  "(\<And>i d. map_of ns i = Some d \<Longrightarrow> list_all (about {i}) (snd (f d))) \<Longrightarrow> distinct (keys ns) \<Longrightarrow>
   list_all (about (set (keys ns))) (snd (each_node f ns))"
proof (induction ns)
  case (Cons n ns)
  obtain i d where n: "n = (i, d)" by (cases n)
  have "map_of ns j \<noteq> None \<Longrightarrow> j \<noteq> i" for j using Cons.prems(2) by (auto simp: n keys_lookup)
  then have "list_all (about {j}) (snd (f e))" if "map_of ns j = Some e" for j e using Cons.prems(1) [of j e] that by (simp add: n)
  then have "list_all (about (set (keys ns))) (snd (each_node f ns))" using Cons.IH Cons.prems(2) by (simp add: n)
  moreover have "list_all (about {i}) (snd (f d))" using Cons.prems(1) [of i d] by (simp add: n)
  ultimately show ?case by (auto simp: n case_prod_beta elim!: about_mono)
qed simp

lemma each_settled:
  "(\<And>i d. map_of ns i = Some d \<Longrightarrow> settles F A v i (f d)) \<Longrightarrow> distinct (keys ns) \<Longrightarrow>
   settled F A (after v (map Did (snd (each_node f ns)))) (fst (each_node f ns))"
proof (induction ns arbitrary: v)
  case (Cons n ns)
  obtain i d where n: "n = (i, d)" by (cases n)
  have i: "i \<notin> set (keys ns)" using Cons.prems(2) by (simp add: n)
  have s: "settles F A v i (f d)" using Cons.prems(1) [of i d] by (simp add: n)
  then have ne: "i \<noteq> []" by (simp add: settles_def ready_def)
  let ?v = "after v (map Did (snd (f d)))"
  have o: "settles F A v j (f e)" "j \<noteq> i" if "map_of ns j = Some e" for j e
  proof -
    show "j \<noteq> i" using that i by (auto simp: keys_lookup)
    then show "settles F A v j (f e)" using Cons.prems(1) [of j e] that by (simp add: n)
  qed
  have "?v a j = v a j" if "j \<noteq> i" for a j using s that ne by (auto simp: after_def settles_def intro: last_pub_other)
  then have "settles F A ?v j (f e)" if "map_of ns j = Some e" for j e using o [OF that] by (simp add: settles_def)
  then have r: "settled F A (after ?v (map Did (snd (each_node f ns)))) (fst (each_node f ns))" using Cons.IH [of ?v] Cons.prems(2) by (simp add: n)
  have "list_all (about (set (keys ns))) (snd (each_node f ns))"
    by (rule each_about) (use o Cons.prems(2) in \<open>auto simp: settles_def n\<close>)
  moreover have "[] \<notin> set (keys ns)"
  proof
    assume "[] \<in> set (keys ns)"
    then obtain e where "map_of ns [] = Some e" by (auto simp: keys_lookup)
    from o(1) [OF this] show False by (simp add: settles_def ready_def)
  qed
  ultimately have l: "last_pub a i w (map Did (snd (each_node f ns))) = w" for a w using i by (intro last_pub_other)
  show ?case using r s by (auto simp: n case_prod_beta settled_def settles_def after_def l split: if_splits)
qed (simp add: settled_def)
lemma put_settled:
  assumes "omap_ok ns" "settled F A v ns" "settles F A v i p"
  shows "settled F A (after v (map Did (snd p))) (omap_put i (fst p) ns)"
proof -
  have "last_pub a j w (map Did (snd p)) = w" if "j \<noteq> i" for a j w
    using assms(3) that by (auto simp: settles_def ready_def intro: last_pub_other)
  then show ?thesis using assms by (auto simp: settled_def settles_def after_def)
qed

lemma stays_settled: "settled F A v ns \<Longrightarrow> map_of ns i = Some d \<Longrightarrow> settles F A v i (d, [])"
  by (simp add: settled_def settles_def)

text \<open>A node that is live settles whatever its strategy does.\<close>

lemma followed_settles:
  assumes "settled F A v ns" "map_of ns i = Some d" "\<not> ic_failed (nd_ctx d)" "ne_fp E = F" "ne_accounts E = A" "distinct (map at_id A)"
    "\<And>a. follows E a (nd_ctx d) (snd p) (nd_ctx (fst p))" "own (nd_ctx d) (snd p) (nd_ctx (fst p))"
  shows "settles F A v i p"
proof -
  have d: "ready i d" "\<forall>a \<in> set A. v (at_id a) i = Some (share F a (nd_ctx d))" using assms(1,2) by (simp_all add: settled_def)
  then have l: "ic_live (nd_ctx d)" "ic_session (nd_ctx d)" "ic_id (nd_ctx d) = i" using assms(3) by (simp_all add: ready_def)
  have t: "tracked F a (nd_ctx d) (snd p) (nd_ctx (fst p))" if "a \<in> set A" for a
    using assms(7) [of a] that assms(4-6) l by (simp add: follows_def)
  show ?thesis
    using d t l assms(8) by (auto simp: settles_def ready_def own_def tracked_def last_pub_own)
qed

section \<open>Invariant of the manager\<close>

definition reported :: "'d fpx \<Rightarrow> (string \<Rightarrow> string \<Rightarrow> int option) \<Rightarrow> ('d, 's) manager \<Rightarrow> bool" where
  "reported F v m \<longleftrightarrow> mg_session m \<and> mirrors m \<and> settled F (mg_accounts m) v (mg_nodes m)"

lemma mirrors_distinct: "mirrors m \<Longrightarrow> mg_nodes m \<noteq> [] \<Longrightarrow> distinct (map at_id (mg_accounts m))"
  by (auto simp: mirrors_def split: option.splits)

lemma mirrors_accounts_distinct: "mirrors m \<Longrightarrow> mg_store m \<noteq> None \<Longrightarrow> distinct (map at_id (mg_accounts m))"
  by (auto simp: mirrors_def split: option.splits)

lemma env_fields [simp]: "ne_fp (node_env_of V m) = me_fp V" "ne_accounts (node_env_of V m) = mg_accounts m"
  by (simp_all add: node_env_of_def)

lemma put_node_fields [simp]:
  "mg_session (put_node i d m) = mg_session m" "mg_accounts (put_node i d m) = mg_accounts m" "mg_nodes (put_node i d m) = omap_put i d (mg_nodes m)"
  by (simp_all add: put_node_def)

lemma reported_put:
  assumes "reported F v m" "map_of (mg_nodes m) i \<noteq> None" "settles F (mg_accounts m) v i p"
  shows "reported F (after v (map Did (snd p))) (put_node i (fst p) m)"
  using assms put_settled [OF mirrors_omap _ assms(3), of m] mirrors_put [of m i] by (auto simp: reported_def)

lemma reported_nodes:
  assumes "reported F v m" "\<And>i d. map_of (mg_nodes m) i = Some d \<Longrightarrow> settles F (mg_accounts m) v i (f d)"
  shows "reported F (after v (snd (on_nodes f m))) (fst (on_nodes f m))"
  using assms each_settled [of "mg_nodes m" F "mg_accounts m" v f] omap_ok_distinct [OF mirrors_omap, of m] mirrors_nodes [of m f]
  by (simp add: reported_def on_nodes_def case_prod_beta)

lemma reported_tick:
  assumes "reported F v m" "me_fp V = F"
  shows "reported F (after v (snd (manager_tick V k m))) (fst (manager_tick V k m))"
proof (cases "live_instance (tk_instrument k) m")
  case None
  then show ?thesis using assms by (simp add: manager_tick_def)
next
  case (Some d)
  then have d: "map_of (mg_nodes m) (tk_instrument k) = Some d" "\<not> ic_failed (nd_ctx d)" by (auto simp: live_instance_def split: if_splits option.splits)
  then have "mg_nodes m \<noteq> []" by auto
  then have "distinct (map at_id (mg_accounts m))" using assms(1) mirrors_distinct [of m] by (simp add: reported_def)
  then have "settles F (mg_accounts m) v (tk_instrument k) (feed_tick (node_env_of V m) k d)"
    using assms d by (intro followed_settles [where E = "node_env_of V m"]) (auto simp: reported_def feed_tick_def follows.builder own.builder)
  from reported_put [OF assms(1) _ this] d(1) show ?thesis by (simp add: manager_tick_def Some case_prod_beta)
qed

lemma reported_schedule: "reported F v m \<Longrightarrow> reported F v (on_schedule n m)"
proof -
  assume r: "reported F v m"
  have m: "share F a (nd_ctx (map_ctx relocate d)) = share F a (nd_ctx d)" "ready i (map_ctx relocate d) = ready i d" for a i d
    by (simp_all add: share_def map_ctx_def ready_def)
  have s: "settles F (mg_accounts m) v i (if ic_failed (nd_ctx d) then d else map_ctx relocate d, [])" if "map_of (mg_nodes m) i = Some d" for i d
    using r that by (simp add: reported_def settled_def settles_def m)
  have e: "snd (on_nodes (\<lambda>d. (g d, [])) m) = []" for g
  proof -
    have "snd (each_node (\<lambda>d. (g d, [])) ns) = []" for ns by (induction ns) (auto simp: case_prod_beta)
    then show ?thesis by (simp add: on_nodes_def case_prod_beta)
  qed
  from reported_nodes [OF r s] show "reported F v (on_schedule n m)" using r by (simp add: on_schedule_def relocate_live_instruments_def e)
qed
section \<open>Commands\<close>

definition outcome :: "'d fpx \<Rightarrow> (string \<Rightarrow> string \<Rightarrow> int option) \<Rightarrow> ('d, 's) manager \<times> 'd sdk_call list \<times> 'd reply \<Rightarrow> bool" where
  "outcome F v p \<longleftrightarrow> mg_session (fst p) \<and> settled F (mg_accounts (fst p)) (after v (fst (snd p))) (mg_nodes (fst p))"

lemma outcome_alone: "left_alone m p \<Longrightarrow> reported F v m \<Longrightarrow> outcome F v p"
  by (auto simp: left_alone_def same_but_source_def outcome_def reported_def after_quiet)

lemma outcome_same [simp]: "outcome F v (m, [], r) \<longleftrightarrow> mg_session m \<and> settled F (mg_accounts m) v (mg_nodes m)"
  by (simp add: outcome_def)

lemma outcome_refuse [simp]: "outcome F v (refuse k i r m []) \<longleftrightarrow> mg_session m \<and> settled F (mg_accounts m) v (mg_nodes m)"
  by (simp add: refuse_def)

lemma params_settles:
  assumes "settled F (mg_accounts m) v ns" "map_of ns i = Some d" "distinct (map at_id (mg_accounts m))" "me_fp V = F"
  shows "settles F (mg_accounts m) v i (dispatch_params_update V m d)"
proof (cases "ic_failed (nd_ctx d) \<or> \<not> ic_stage (nd_ctx d)")
  case True
  have "ready i (d\<lparr>nd_ctx := (nd_ctx d)\<lparr>ic_pending := True\<rparr>\<rparr>) = ready i d" "share F a ((nd_ctx d)\<lparr>ic_pending := True\<rparr>) = share F a (nd_ctx d)" for a
    by (simp_all add: ready_def share_def)
  then show ?thesis using True stays_settled [OF assms(1,2)]
    by (auto simp: dispatch_params_update_def request_params_update_def settles_def)
next
  case False
  have "settles F (mg_accounts m) v i (invoke_params_update (node_env_of V m) d)"
    by (rule followed_settles [OF assms(1,2), where E = "node_env_of V m"])
      (use False assms in \<open>simp_all add: follows.params_at own.params_at\<close>)
  then show ?thesis using False by (simp add: dispatch_params_update_def request_params_update_def)
qed

lemma committed_distinct:
  assumes "mirrors m" "commit_config_with V f m = Some m'"
  shows "distinct (map at_id (mg_accounts m))"
  using assms(2) by (rule committed) (use assms(1) in \<open>auto simp: mirrors_def\<close>)

lemma outcome_param:
  assumes "reported F v m" "me_fp V = F"
  shows "outcome F v (run_param_set V i t m)"
proof -
  have "outcome F v (fst (on_nodes (dispatch_params_update V m2) m2), snd (on_nodes (dispatch_params_update V m2) m2), r)"
    if c: "commit_config_with V g m = Some m1" "m2 = m1\<lparr>mg_params := ps\<rparr>" for g m1 m2 ps r
  proof -
    have n: "mg_nodes m2 = mg_nodes m" "mg_accounts m2 = mg_accounts m" "mg_session m2 = mg_session m" using commit_config_fields [OF c(1)] by (simp_all add: c(2))
    have m: "mirrors m" "settled F (mg_accounts m) v (mg_nodes m)" using assms(1) by (simp_all add: reported_def)
    have "settles F (mg_accounts m) v j (dispatch_params_update V m2 d)" if "map_of (mg_nodes m) j = Some d" for j d
      using params_settles [of F m2 v "mg_nodes m" j d V] m(2) that committed_distinct [OF m(1) c(1)] assms(2) n by simp
    then have "settled F (mg_accounts m) (after v (map Did (snd (each_node (dispatch_params_update V m2) (mg_nodes m))))) (fst (each_node (dispatch_params_update V m2) (mg_nodes m)))"
      using each_settled omap_ok_distinct [OF mirrors_omap [OF m(1)]] by blast
    then show ?thesis using assms(1) n by (simp add: outcome_def on_nodes_def case_prod_beta reported_def)
  qed
  then show ?thesis using assms(1) by (auto simp: run_param_set_def case_prod_beta Let_def reported_def split: option.split)
qed

text \<open>Orders of a command report nothing.\<close>

lemma sync_order_silent: "list_all (about {}) (snd (submit_sync_order F a x market c))"
  by (auto simp: submit_sync_order_def submit_order_def Let_def split: option.split)

lemma sync_close_silent: "list_all (about {}) (snd (submit_sync_close_orders F A sync market c))"
proof -
  have "list_all (about {}) (snd (foldl (sync_close_account F market c) p as))" if "list_all (about {}) (snd p)" for p as
    using that
  proof (induction as arbitrary: p)
    case (Cons a as)
    have "list_all (about {}) (snd (sync_close_account F market c p a))"
      using Cons.prems by (simp add: sync_close_account_def Let_def case_prod_beta sync_order_silent)
    then show ?case using Cons.IH by simp
  qed simp
  then show ?thesis by (auto simp: submit_sync_close_orders_def split: option.split)
qed

lemma sync_nodes_silent: "list_all (about {}) (snd (sync_nodes F sync a market delta ns))"
proof -
  have "list_all (about {}) (snd (foldl (sync_node F a market delta) p ns))" if "list_all (about {}) (snd p)" for p
    using that
  proof (induction ns arbitrary: p)
    case (Cons n ns)
    have "list_all (about {}) (snd (sync_node F a market delta p n))"
      using Cons.prems by (simp add: sync_node_def Let_def case_prod_beta sync_order_silent)
    then show ?case using Cons.IH by simp
  qed simp
  then show ?thesis by (simp add: sync_nodes_def)
qed

lemma silent_after [simp]: "list_all (about {}) es \<Longrightarrow> after v (map Did es) = v"
  using last_pub_other [of "{}" es] by (simp add: after_def)

lemma outcome_del:
  assumes "reported F v m" "me_fp V = F"
  shows "outcome F v (run_instrument_del V i sync market m)"
proof -
  have m: "mg_session m" "settled F (mg_accounts m) v (mg_nodes m)" "omap_ok (mg_nodes m)" using assms(1) mirrors_omap [of m] by (auto simp: reported_def)
  have gone: "outcome F v (drop_node i m1, map Did es @ unsubscribe_one i m1 @ map Did (fs @ publish_zero_all_accounts (Some as) c), r)"
    if d: "map_of (mg_nodes m) i = Some d" and c: "commit_config_with V g m = Some m1" and e: "list_all (about {}) es"
      and f: "own (nd_ctx d) fs c" for d m1 g es fs c as r
  proof -
    have n: "mg_nodes m1 = mg_nodes m" "mg_accounts m1 = mg_accounts m" "mg_session m1 = mg_session m" using commit_config_fields [OF c] by simp_all
    have i: "ready i d" using m(2) d by (simp add: settled_def)
    then have "list_all (about {i}) (fs @ publish_zero_all_accounts (Some as) c)"
      using f by (auto simp: own_def ready_def publish_zero_all_accounts_def publish_position_def publish_position_to_def list_all_iff)
    then have "last_pub a j w (map Did (fs @ publish_zero_all_accounts (Some as) c)) = w" if "j \<noteq> i" for a j w
      using that i by (intro last_pub_other) (auto simp: ready_def)
    then have "after (after v (unsubscribe_one i m1)) (map Did (fs @ publish_zero_all_accounts (Some as) c)) a j = v a j" if "j \<noteq> i" for a j
      using that by (simp only: after_def quiet_pub [OF quiet_subscriptions(2)])
    then have a: "after v (map Did es @ unsubscribe_one i m1 @ map Did (fs @ publish_zero_all_accounts (Some as) c)) a j = v a j" if "j \<noteq> i" for a j
      using that e by simp
    have s: "map_of (AList.delete i (mg_nodes m)) j = (if j = i then None else map_of (mg_nodes m) j)" for j by (simp add: delete_conv')
    show ?thesis using m n a by (auto simp: outcome_def drop_node_def settled_def s split: if_splits)
  qed
  then show ?thesis
    using m by (auto simp: run_instrument_del_def case_prod_beta sync_close_silent own.destroy simp del: map_append intro!: gone split: option.split)
qed
lemma published:
  assumes "\<And>j d. map_of ns j = Some d \<Longrightarrow> ready j d" "distinct (keys ns)"
  shows "last_pub x i v (map Did (publish_account F a ns)) =
     (if x = at_id a then (case map_of ns i of None \<Rightarrow> v | Some d \<Rightarrow> Some (share F a (nd_ctx d))) else v)"
  using assms
proof (induction ns arbitrary: v)
  case (Cons n ns)
  obtain j d where n: "n = (j, d)" by (cases n)
  have j: "j \<notin> set (keys ns)" "ready j d" using Cons.prems(1) [of j d] Cons.prems(2) by (simp_all add: n)
  have "ready k e" if "map_of ns k = Some e" for k e
  proof -
    have "k \<noteq> j" using that j(1) by (auto simp: keys_lookup)
    then show ?thesis using Cons.prems(1) [of k e] that by (simp add: n)
  qed
  note ih = Cons.IH [OF this]
  have "map_of ns j = None" using j(1) by auto
  then show ?case using ih Cons.prems(2) j(2)
    by (auto simp: n publish_account_def publish_position_for_def publish_position_def publish_position_to_def ready_def logical_position_for_def
        share_def split: option.split)
qed (simp add: publish_account_def)

lemma silent_pub: "list_all (about {}) es \<Longrightarrow> last_pub a i v (map Did es) = v"
  by (erule last_pub_other) simp_all

lemma find_account_some: "find_account i m = Some a \<Longrightarrow> a \<in> set (mg_accounts m) \<and> at_id a = i"
  by (auto simp: find_account_def find_Some_iff)

lemma find_account_none: "find_account i m = None \<Longrightarrow> a \<in> set (mg_accounts m) \<Longrightarrow> at_id a \<noteq> i"
  by (auto simp: find_account_def find_None_iff)

text \<open>Accounts that are kept keep their reports; for the others there is a new one.\<close>

lemma outcome_accounts:
  assumes "reported F v m" "commit_config_with V f m = Some m1" "list_all (about {}) os"
    "\<And>b. b \<in> set bs \<Longrightarrow> b = a \<or> b \<in> set (mg_accounts m) \<and> at_id b \<noteq> at_id a"
  shows "outcome F v (m1\<lparr>mg_accounts := bs\<rparr>, map Did (publish_account F a (mg_nodes m1) @ os), r)"
proof -
  have n: "mg_nodes m1 = mg_nodes m" "mg_session m1 = mg_session m" using commit_config_fields [OF assms(2)] by simp_all
  have m: "mg_session m" "settled F (mg_accounts m) v (mg_nodes m)" "distinct (keys (mg_nodes m))"
    using assms(1) omap_ok_distinct [OF mirrors_omap] by (auto simp: reported_def)
  have p: "last_pub x i w (map Did (publish_account F a (mg_nodes m))) =
      (if x = at_id a then (case map_of (mg_nodes m) i of None \<Rightarrow> w | Some d \<Rightarrow> Some (share F a (nd_ctx d))) else w)" for x i w
    by (rule published) (use m in \<open>auto simp: settled_def\<close>)
  have s: "list_all (about {}) os \<Longrightarrow> last_pub x i w (map Did os) = w" for x i w by (rule silent_pub)
  show ?thesis using m assms(3,4) n by (fastforce simp: outcome_def settled_def after_def p s)
qed

lemma outcome_account_add: "reported F v m \<Longrightarrow> me_fp V = F \<Longrightarrow> outcome F v (run_account_add V e i x sync market m)"
proof -
  assume r: "reported F v m" "me_fp V = F"
  have "outcome F v (m1\<lparr>mg_accounts := mg_accounts m1 @ [a]\<rparr>, map Did (publish_account F a (mg_nodes m1) @ snd (sync_nodes F sync a market g (mg_nodes m1))), q)"
    if "commit_config_with V f m = Some m1" "find_account i m = None" "a = \<lparr>at_id = i, at_scale = x\<rparr>" for f m1 a q g
    by (rule outcome_accounts [OF r(1) that(1) sync_nodes_silent])
      (use that find_account_none [OF that(2)] commit_config_fields [OF that(1)] in auto)
  then show ?thesis using r by (auto simp: run_account_add_def case_prod_beta Let_def reported_def simp del: map_append split: option.split)
qed

lemma outcome_account_set: "reported F v m \<Longrightarrow> me_fp V = F \<Longrightarrow> outcome F v (run_account_set V e i x sync market m)"
proof -
  assume r: "reported F v m" "me_fp V = F"
  have "outcome F v (m1\<lparr>mg_accounts := rescale_first i x (mg_accounts m1)\<rparr>, map Did (publish_account F (old\<lparr>at_scale := x\<rparr>) (mg_nodes m1) @ snd (sync_nodes F sync a market g (mg_nodes m1))), q)"
    if c: "commit_config_with V f m = Some m1" and o: "find_account i m = Some old" for f m1 old a q g
  proof (rule outcome_accounts [OF r(1) c sync_nodes_silent])
    fix b
    assume "b \<in> set (rescale_first i x (mg_accounts m1))"
    moreover have d: "distinct (map at_id (mg_accounts m))" using r(1) committed_distinct [OF _ c] by (simp add: reported_def)
    ultimately have "b \<in> set (rescale i x (mg_accounts m))" using commit_config_fields [OF c] rescale_first_distinct [of "mg_accounts m" i x] by simp
    then obtain b0 where b0: "b0 \<in> set (mg_accounts m)" "b = (if at_id b0 = i then b0\<lparr>at_scale := x\<rparr> else b0)" by (auto simp: rescale_def)
    have "b0 = old" if "at_id b0 = i" using that b0(1) find_account_some [OF o] d by (auto simp: distinct_map inj_on_def)
    then show "b = old\<lparr>at_scale := x\<rparr> \<or> b \<in> set (mg_accounts m) \<and> at_id b \<noteq> at_id (old\<lparr>at_scale := x\<rparr>)"
      using b0 find_account_some [OF o] by auto
  qed
  then show ?thesis using r by (auto simp: run_account_set_def case_prod_beta Let_def reported_def simp del: map_append split: option.split)
qed

lemma outcome_account_del: "reported F v m \<Longrightarrow> me_fp V = F \<Longrightarrow> outcome F v (run_account_del V i sync market m)"
proof -
  assume r: "reported F v m" "me_fp V = F"
  have "outcome F v (m1\<lparr>mg_accounts := erase_account i (mg_accounts m1)\<rparr>, map Did (snd (sync_nodes F sync a market g (mg_nodes m1)) @ publish_account_wildcard_zero (mg_session m1) a), q)"
    if c: "commit_config_with V f m = Some m1" and o: "find_account i m = Some a" for f m1 a q g
  proof -
    have "last_pub (at_id b) j w (map Did (publish_account_wildcard_zero (mg_session m1) a)) = w" if "at_id b \<noteq> i" for b :: "'a attached" and j w
      using that find_account_some [OF o] by (auto simp: publish_account_wildcard_zero_def publish_position_to_def)
    then show ?thesis using r(1) commit_config_fields [OF c]
      by (auto simp: outcome_def reported_def settled_def after_def erase_account_def silent_pub [OF sync_nodes_silent])
  qed
  then show ?thesis using r by (auto simp: run_account_del_def case_prod_beta Let_def reported_def simp del: map_append split: option.split)
qed
section \<open>New instruments\<close>

text \<open>A node that is not live yet.\<close>

definition waiting :: "string \<Rightarrow> ('d, 's) node \<Rightarrow> bool" where
  "waiting i d \<longleftrightarrow> i \<noteq> [] \<and> ic_id (nd_ctx d) = i \<and> ic_session (nd_ctx d) \<and> \<not> ic_live (nd_ctx d)"

lemma own_waiting: "own (nd_ctx d) es (nd_ctx d') \<Longrightarrow> waiting i d \<Longrightarrow> waiting i d'"
  by (simp add: own_def waiting_def)

lemma quiet_waiting: "quiet (nd_ctx d) es (nd_ctx d') \<Longrightarrow> waiting i d \<Longrightarrow> list_all is_call es"
  by (simp add: quiet_def waiting_def)

lemma emplaced_waiting:
  assumes "emplace_node V i spec e m = Some (Emplaced, m', es)" "mg_session m" "i \<noteq> []"
  shows "\<exists>d. m' = put_node i d m \<and> waiting i d"
proof -
  obtain d0 where d0: "new_node (node_env_of V m) (init_context V i spec e m) (me_table V) (bc_period (ec_config e)) = Some d0"
    and m': "m' = put_node i (fst (init_new_instance (node_env_of V m) d0)) m"
    using assms(1) by (auto simp: emplace_node_def case_prod_beta split: if_splits option.splits)
  then have "waiting i d0" using assms(2,3) by (auto simp: new_node_def init_context_def new_context_def waiting_def split: option.splits)
  from own_waiting [OF own.init this] show ?thesis using m' by blast
qed

lemma publish_position_pub:
  assumes "distinct (map at_id A)" "a \<in> set A" "ic_session c"
  shows "last_pub (at_id a) (ic_id c) v (map Did (concat (map (\<lambda>a. publish_position a (g a) c) A))) = Some (g a)"
  using assms(1,2)
proof (induction A arbitrary: v)
  case (Cons b A)
  show ?case
  proof (cases "a = b")
    case True
    then have "at_id a \<notin> at_id ` set A" using Cons.prems by simp
    then have "\<forall>y \<in> set A. at_id y \<noteq> at_id a" by (metis image_eqI)
    then have "list_all (no_report (at_id a)) (map Did (concat (map (\<lambda>a. publish_position a (g a) c) A)))"
      by (auto simp: list_all_iff publish_position_def publish_position_to_def)
    then show ?thesis using assms(3) True by (simp add: publish_position_def publish_position_to_def last_pub_no_report)
  next
    case False
    then show ?thesis using Cons by simp
  qed
qed simp

lemma go_live_settles:
  assumes "waiting i d" "distinct (map at_id (mg_accounts m))" "me_fp V = F"
  shows "settles F (mg_accounts m) v i (go_live V m d)"
proof -
  have "ready i (fst (go_live V m d))" "share F a (nd_ctx (fst (go_live V m d))) = share F a (nd_ctx d)" for a
    using assms(1) by (auto simp: go_live_def waiting_def ready_def map_ctx_def set_live_def share_def)
  moreover have "list_all (about {i}) (snd (go_live V m d))"
    using assms(1) by (auto simp: go_live_def waiting_def publish_all_positions_def publish_position_def publish_position_to_def list_all_iff)
  moreover have "last_pub (at_id a) i (v (at_id a) i) (map Did (snd (go_live V m d))) = Some (share F a (nd_ctx d))" if "a \<in> set (mg_accounts m)" for a
    using publish_position_pub [OF assms(2) that, of "nd_ctx d"] assms(1,3) by (simp add: go_live_def waiting_def publish_all_positions_def share_def)
  ultimately show ?thesis by (simp add: settles_def)
qed

lemma warmup_waiting:
  assumes "waiting i d"
  shows "waiting i (fst (warmup_instrument V e m d))" "list_all is_call (snd (warmup_instrument V e m d))"
  using assms own_waiting [OF own.history assms] quiet_waiting [OF quiet.history assms]
  by (auto simp: warmup_instrument_def split: history_result.split)

lemma finish_add_outcome:
  assumes "reported F v m" "me_fp V = F" "waiting i d" "\<not> is_refusal (snd (snd (finish_add V e i d (put_node i d0 m))))"
  shows "outcome F v (finish_add V e i d (put_node i d0 m))"
proof -
  let ?w = "warmup_instrument V e (put_node i d0 m) d"
  have m: "mg_session m" "mirrors m" "omap_ok (mg_nodes m)" "settled F (mg_accounts m) v (mg_nodes m)"
    using assms(1) mirrors_omap [of m] by (auto simp: reported_def)
  obtain m1 where c: "commit_config_with V (add_instrument i) (put_node i d0 m) = Some m1"
    using assms(4) by (auto simp: finish_add_def case_prod_beta refuse_def is_refusal_def split: option.splits)
  then obtain m2 where "commit_config_with V (add_instrument i) m = Some m2" by (auto simp: put_node_def commit_nodes)
  then have d: "distinct (map at_id (mg_accounts m))" by (rule committed_distinct [OF m(2)])
  have n: "mg_nodes m1 = omap_put i d0 (mg_nodes m)" "mg_accounts m1 = mg_accounts m" "mg_session m1 = mg_session m"
    using commit_config_fields [OF c] by simp_all
  have s: "settles F (mg_accounts m) v i (go_live V m1 (fst ?w))"
    using go_live_settles [OF warmup_waiting(1) [OF assms(3)], of m1 V F] d assms(2) n by simp
  have "settled F (mg_accounts m) (after v (map Did (snd (go_live V m1 (fst ?w))))) (omap_put i (fst (go_live V m1 (fst ?w))) (mg_nodes m))"
    by (rule put_settled [OF m(3,4) s])
  moreover have "finish_add V e i d (put_node i d0 m) = (put_node i (fst (go_live V m1 (fst ?w))) m1,
      map Did (snd ?w @ snd (go_live V m1 (fst ?w))), Accepted Instrument_Add i no_tally)"
    using c by (simp add: finish_add_def case_prod_beta)
  ultimately show ?thesis
    using m(1) n silent_after [OF calls_about [OF warmup_waiting(2) [OF assms(3)]]] by (simp add: outcome_def omap_put_put)
qed
lemma outcome_add:
  assumes "reported F v m" "me_fp V = F"
  shows "outcome F v (run_instrument_add V e i m)"
proof -
  have m: "mg_session m" "omap_ok (mg_nodes m)" using assms(1) mirrors_omap [of m] by (auto simp: reported_def)
  show ?thesis
  proof (cases "is_refusal (snd (snd (run_instrument_add V e i m)))")
    case True
    then show ?thesis using outcome_alone [OF add_refused [OF m(2) True] assms(1)] by simp
  next
    case False
    from m(2) False show ?thesis
    proof (rule add_accepted)
      fix m1 d ss es
      assume a: "i \<noteq> []" "same_but_source m m1" "is_quiet (ss @ es)"
        "emplace_node V i (the (fst (load_spec V i m))) e m1 = Some (Emplaced, put_node i d m1, es)"
        "\<not> is_refusal (snd (snd (finish_add V e i d (put_node i d m1))))"
        "run_instrument_add V e i m = (case finish_add V e i d (put_node i d m1) of (m3, fs, r) \<Rightarrow> (m3, ss @ es @ fs, r))"
      have m1: "reported F v m1" "mg_session m1" "omap_ok (mg_nodes m1)" using a(2) assms(1) m by (auto simp: same_but_source_def reported_def)
      obtain d' where d': "put_node i d m1 = put_node i d' m1" "waiting i d'" using emplaced_waiting [OF a(4) m1(2) a(1)] by blast
      then have "mg_nodes (put_node i d m1) = mg_nodes (put_node i d' m1)" by simp
      then have "map_of (omap_put i d (mg_nodes m1)) i = map_of (omap_put i d' (mg_nodes m1)) i" by simp
      then have "waiting i d" using d'(2) m1(3) by simp
      from finish_add_outcome [OF m1(1) assms(2) this a(5)] show ?thesis using a(3) by (simp add: a(6) case_prod_beta outcome_def after_quiet)
    qed
  qed
qed

lemma outcome_command: "reported F v m \<Longrightarrow> me_fp V = F \<Longrightarrow> outcome F v (execute_command V e c m)"
  by (cases "cm_kind c")
    (simp_all add: execute_command_def outcome_add outcome_del outcome_account_add outcome_account_set outcome_account_del outcome_param,
      simp_all add: outcome_def reported_def run_quit_def)

section \<open>Runs\<close>

lemma reported_step: "reported F v m \<Longrightarrow> me_fp V = F \<Longrightarrow> reported F (after v (snd (manager_step V i m))) (fst (manager_step V i m))"
proof (cases i)
  case (In_Line s)
  assume r: "reported F v m" "me_fp V = F"
  have "reported F (after v (fst (snd (execute_command V e c m)))) (fst (execute_command V e c m))" for e c
    using outcome_command [OF r, of e c] mirrors_command [of m V e c] r(1) by (simp add: outcome_def reported_def)
  then show ?thesis using r by (auto simp: In_Line on_ui_input_def case_prod_beta split: sum.split option.split)
qed (simp_all add: reported_tick reported_schedule)

lemma reported_run:
  "reported F v m \<Longrightarrow> list_all (\<lambda>(V, i). me_fp V = F) is \<Longrightarrow> reported F (after v (snd (manager_run is m))) (fst (manager_run is m))"
proof (induction "is" arbitrary: v m)
  case (Cons p ps)
  obtain V i where p: "p = (V, i)" by (cases p)
  from Cons.IH [OF reported_step [OF Cons.prems(1), of V i]] Cons.prems(2) show ?case by (simp add: p case_prod_beta)
qed simp

section \<open>Starts\<close>

definition all_waiting :: "('d, 's) manager \<Rightarrow> bool" where
  "all_waiting m \<longleftrightarrow> mg_session m \<and> (\<forall>i d. map_of (mg_nodes m) i = Some d \<longrightarrow> waiting i d)"

lemma quiet_each:
  "(\<And>i d. map_of ns i = Some d \<Longrightarrow> waiting i (fst (f d)) \<and> list_all is_call (snd (f d))) \<Longrightarrow> distinct (keys ns) \<Longrightarrow>
   list_all is_call (snd (each_node f ns)) \<and> (\<forall>i d. map_of (fst (each_node f ns)) i = Some d \<longrightarrow> waiting i d)"
proof (induction ns)
  case (Cons n ns)
  obtain i d where n: "n = (i, d)" by (cases n)
  have "j \<noteq> i" if "map_of ns j = Some e" for j e using that Cons.prems(2) by (auto simp: n)
  then have "waiting j (fst (f e)) \<and> list_all is_call (snd (f e))" if "map_of ns j = Some e" for j e using Cons.prems(1) [of j e] that by (simp add: n)
  then show ?case using Cons.IH Cons.prems(1) [of i d] Cons.prems(2) by (auto simp: n case_prod_beta)
qed simp

lemma load_waiting: "load_spec V i m = (so, m1) \<Longrightarrow> all_waiting m1 = all_waiting m \<and> omap_ok (mg_nodes m1) = omap_ok (mg_nodes m) \<and> mg_session m1 = mg_session m"
  using load_spec_state [of V i m so m1] by (auto simp: all_waiting_def)

lemma create_waiting:
  "create_instances V e js m = Some (m', es) \<Longrightarrow> all_waiting m \<Longrightarrow> omap_ok (mg_nodes m) \<Longrightarrow> [] \<notin> set js \<Longrightarrow>
   all_waiting m' \<and> omap_ok (mg_nodes m') \<and> is_quiet es"
proof (induction js arbitrary: m m' es)
  case (Cons i js)
  obtain so m1 where l: "load_spec V i m = (so, m1)" by (cases "load_spec V i m")
  have m1: "all_waiting m1" "omap_ok (mg_nodes m1)" "mg_session m1" using load_waiting [OF l] Cons.prems by (simp_all add: all_waiting_def)
  show ?case
  proof (cases so)
    case None
    then show ?thesis using Cons.IH [of m1] Cons.prems m1 by (simp add: l)
  next
    case (Some spec)
    then obtain r m2 fs gs where n: "emplace_node V i spec e m1 = Some (r, m2, fs)" "create_instances V e js m2 = Some (m', gs)" "es = fs @ gs"
      using Cons.prems(1) by (auto simp: l split: option.splits)
    have "all_waiting m2 \<and> omap_ok (mg_nodes m2)"
    proof (cases "r = Emplaced")
      case True
      then obtain d where "m2 = put_node i d m1" "waiting i d" using emplaced_waiting [of V i spec e m1 m2 fs] n(1) m1(3) Cons.prems(4) by auto
      then show ?thesis using m1 by (simp add: all_waiting_def)
    next
      case False
      then show ?thesis using emplaced_quiet(3) [OF n(1)] m1 by simp
    qed
    then show ?thesis using Cons.IH [OF n(2)] Cons.prems(4) emplaced_quiet(1) [OF n(1)] by (simp add: n(3))
  qed
qed simp
lemma instruments_named: "resolve_effective_config F today c = Inr e \<Longrightarrow> [] \<notin> set (bc_instruments c)"
  using distinct_items_ok [of "''instruments''" "[]" 0 "[]" "bc_instruments c" "()"]
  by (auto simp: resolve_effective_config_def Let_def and_then_Inr split: if_splits)

lemma on_nodes_waiting:
  assumes "all_waiting m" "omap_ok (mg_nodes m)" "\<And>i d. waiting i d \<Longrightarrow> waiting i (fst (f d)) \<and> list_all is_call (snd (f d))"
  shows "all_waiting (fst (on_nodes f m)) \<and> omap_ok (mg_nodes (fst (on_nodes f m))) \<and> is_quiet (snd (on_nodes f m))"
proof -
  have "list_all is_call (snd (each_node f (mg_nodes m))) \<and> (\<forall>i d. map_of (fst (each_node f (mg_nodes m))) i = Some d \<longrightarrow> waiting i d)"
  proof (rule quiet_each)
    show "waiting i (fst (f d)) \<and> list_all is_call (snd (f d))" if "map_of (mg_nodes m) i = Some d" for i d
      using assms(1) that by (intro assms(3)) (simp add: all_waiting_def)
  qed (rule omap_ok_distinct [OF assms(2)])
  moreover have "omap_ok (mg_nodes (fst (on_nodes f m)))" using assms(2) omap_ok_keys [of "mg_nodes (fst (on_nodes f m))" "mg_nodes m"] by simp
  ultimately show ?thesis using assms(1) by (simp add: on_nodes_def case_prod_beta all_waiting_def)
qed

lemma continue_waiting:
  assumes "all_waiting m" "omap_ok (mg_nodes m)"
  shows "all_waiting (fst (continue_tick V e k m)) \<and> omap_ok (mg_nodes (fst (continue_tick V e k m))) \<and> is_quiet (snd (continue_tick V e k m))"
proof -
  have f: "waiting (tk_instrument k) (fst (feed_tick E k d))" "list_all is_call (snd (feed_tick E k d))"
    if "map_of (mg_nodes m) (tk_instrument k) = Some d" for E :: "('a, 'a members, 'b) node_env" and d
  proof -
    have w: "waiting (tk_instrument k) d" using assms(1) that by (simp add: all_waiting_def)
    show "waiting (tk_instrument k) (fst (feed_tick E k d))" unfolding feed_tick_def by (rule own_waiting [OF own.builder w])
    show "list_all is_call (snd (feed_tick E k d))" unfolding feed_tick_def by (rule quiet_waiting [OF quiet.builder w])
  qed
  show ?thesis using assms
    by (auto simp: continue_tick_def live_instance_def case_prod_beta all_waiting_def f split: option.split if_splits)
qed

lemma drain_waiting:
  "all_waiting m \<Longrightarrow> omap_ok (mg_nodes m) \<Longrightarrow>
   all_waiting (fst (drain_buffered_ticks V e ks m)) \<and> is_quiet (snd (drain_buffered_ticks V e ks m))"
proof (induction ks arbitrary: m)
  case (Cons k ks)
  then show ?case using continue_waiting [OF Cons.prems, of V e k] by (simp add: case_prod_beta)
qed simp

text \<open>A start ends with the reports of all shares and does nothing else that an account could notice.\<close>

fun is_report :: "'d sdk_call \<Rightarrow> bool" where
  "is_report (Did (Publish a i n)) \<longleftrightarrow> True"
| "is_report e \<longleftrightarrow> False"

definition no_orders :: "'d sdk_call list \<Rightarrow> bool" where
  "no_orders es \<longleftrightarrow> list_all (\<lambda>e. \<not> moves e \<or> is_report e) es"

lemma no_orders_append [simp]: "no_orders (es @ fs) \<longleftrightarrow> no_orders es \<and> no_orders fs" "no_orders []"
  "no_orders (Subscribed ns b # es) = no_orders es"
  by (auto simp: no_orders_def)

lemma quiet_no_orders: "is_quiet es \<Longrightarrow> no_orders es"
  by (auto simp: is_quiet_def no_orders_def list_all_iff)

lemma go_live_no_orders: "no_orders (map Did (snd (go_live V m d)))"
  by (auto simp: go_live_def no_orders_def list_all_iff publish_all_positions_def publish_position_def publish_position_to_def)

lemma enter_live_no_orders: "no_orders (snd (enter_live V m))"
proof -
  have "no_orders (map Did (snd (each_node (go_live V m) ns)))" for ns by (induction ns) (auto simp: case_prod_beta go_live_no_orders)
  then show ?thesis by (simp add: enter_live_def on_nodes_def case_prod_beta)
qed

lemma enter_live_reported:
  assumes "all_waiting m" "mirrors m" "distinct (map at_id (mg_accounts m))" "me_fp V = F"
  shows "reported F (after v (snd (enter_live V m))) (fst (enter_live V m))"
proof -
  let ?n = "each_node (go_live V m) (mg_nodes m)"
  have "settled F (mg_accounts m) (after v (map Did (snd ?n))) (fst ?n)"
  proof (rule each_settled)
    show "settles F (mg_accounts m) v i (go_live V m d)" if "map_of (mg_nodes m) i = Some d" for i d
      by (rule go_live_settles [OF _ assms(3,4)]) (use assms(1) that in \<open>simp add: all_waiting_def\<close>)
  qed (rule omap_ok_distinct [OF mirrors_omap [OF assms(2)]])
  then show ?thesis using assms(1) enter_live_mirrors [OF assms(2), of V]
    by (simp add: reported_def enter_live_def on_nodes_def case_prod_beta all_waiting_def)
qed

lemma started_ok:
  assumes "on_start V file ks m = Some (m', es)" "mg_session m" "mirrors m" "mg_nodes m = []" "me_fp V = F"
  shows "no_orders es \<and> reported F (after v es) m'"
  using assms(1)
proof (cases rule: start_cases)
  case (failed m1)
  then show ?thesis using assms mirrors_start [OF assms(1,3,4)] by (auto simp: request_startup_exit_def reported_def settled_def)
next
  case (started s e m1 m2 m3 cs ws ds ls)
  obtain c where c: "resolve_effective_config (me_fp V) (me_today V) c = Inr (cs_current s)" using loaded [OF started(1)] by blast
  have m1: "mirrors m1" "list_all (\<lambda>j. wanted j m1) (bc_instruments (ec_config e))" "all_waiting m1" "mg_store m1 \<noteq> None"
    using mirrors_loaded [OF c assms(4)] assms(2,4) by (simp_all add: started(2,3) wanted_def list_all_iff all_waiting_def)
  have "[] \<notin> set (bc_instruments (ec_config e))" using instruments_named [OF c] resolved(1) [OF c] by (simp add: started(2))
  note m2 = create_waiting [OF started(4) m1(3) mirrors_omap [OF m1(1)] this] mirrors_create [OF started(4) m1(1,2)]
  let ?m2 = "if mg_session m2 then m2\<lparr>mg_timer := me_timer V\<rparr> else m2"
  have w: "all_waiting ?m2" "omap_ok (mg_nodes ?m2)" "mirrors ?m2" using m2 by (simp_all add: all_waiting_def)
  have m3: "all_waiting m3 \<and> omap_ok (mg_nodes m3) \<and> is_quiet ws"
    unfolding started(5,6) by (rule on_nodes_waiting [OF w(1,2)]) (simp add: warmup_waiting)
  have "mirrors m3" unfolding started(5) by (rule mirrors_nodes [OF w(3)])
  let ?d = "if mg_session m3 then fst (drain_buffered_ticks V e ks m3) else m3"
  have d: "all_waiting ?d" "mirrors ?d" "is_quiet ds" using m3 drain_waiting [of m3 V e ks] mirrors_drain [OF \<open>mirrors m3\<close>] \<open>mirrors m3\<close> by (simp_all add: started(8))
  show ?thesis
  proof (cases "mg_nodes ?d = []")
    case True
    have "ls = []" "mg_nodes m' = []" "mg_session m'" using True d(1) by (simp_all add: started(7,9) enter_live_def on_nodes_def all_waiting_def)
    then show ?thesis using m2 m3 d mirrors_start [OF assms(1,3,4)]
      by (simp add: started(10) reported_def settled_def quiet_no_orders)
  next
    case False
    have "after v es = after (after v (Subscribed (bc_instruments (ec_config e)) True # cs @ ws @ ds)) ls" by (simp add: started(10) flip: after_append)
    moreover have "reported F (after w ls) m'" for w
      unfolding started(7,9) by (rule enter_live_reported [OF d(1,2) mirrors_distinct [OF d(2) False] assms(5)])
    moreover have "no_orders ls" unfolding started(9) by (rule enter_live_no_orders)
    ultimately show ?thesis using m2 m3 d(3) by (simp add: started(10) quiet_no_orders)
  qed
qed

end
