(* ===== verification/Bar_Props.thy ===== *)
theory Bar_Props
  imports Bar_Facts
begin

text \<open>The properties of the intraday builder, with runs over a day session that has an opening auction.\<close>

definition sample_table :: session_table where
  "sample_table = \<lparr>se_sessions = [\<lparr>sn_begin = 10800, sn_end = 18000\<rparr>, \<lparr>sn_begin = 54000, sn_end = 54180\<rparr>],
     se_auctions = [\<lparr>aw_kind = Auction_Open, aw_session = 1, aw_begin = 53700, aw_end = 53940\<rparr>]\<rparr>"

definition sample_tick :: "int \<Rightarrow> int \<Rightarrow> rat \<Rightarrow> int \<Rightarrow> rat \<Rightarrow> rat dz_tick" where
  "sample_tick d c p v a =
     \<lparr>tk_instrument = ''rb2510'', tk_date = d, tk_time = c, tk_last = p, tk_volume = v, tk_oi = 0, tk_turnover = a, tk_open = p,
      tk_high = p, tk_low = p, tk_upper = 0, tk_lower = 0, tk_bid = 0, tk_ask = 0\<rparr>"

text \<open>08:59 and 09:00 are one bar, 09:01 is the next, 09:00:30 comes too late, 20:59 belongs to the next day.\<close>

definition sample_ticks :: "rat dz_tick list" where
  "sample_ticks = [sample_tick 3 32340 100 5 500, sample_tick 3 32400 102 9 908, sample_tick 3 32460 101 10 1009,
     sample_tick 3 32430 99 11 1108, sample_tick 4 75660 103 2 206]"

definition sample_builder :: "session_table \<Rightarrow> rat builder" where
  "sample_builder T =
     \<lparr>bb_table = T, bb_period = 60, bb_bar = None, bb_stats = no_stats, bb_auction_only = False, bb_start_volume = 0,
      bb_start_turnover = 0, bb_tick_received = False, bb_restored = None\<rparr>"

lemma sample_table_ok: "table_valid sample_table" "auctions_precede sample_table"
  by (simp_all add: sample_table_def table_valid_def auction_valid_def auctions_precede_def max_trading_sec_def)

lemma sample_builder_new: "table_valid T \<Longrightarrow> new_builder rat_fp T 60 = Some (sample_builder T)"
  by (simp add: new_builder_def sample_builder_def)

text \<open>
  C18: over any ticks the events of a new builder (one without a restored bar) open one bar, update it, close it as final and
  only then open another bar, so that none is updated while closed; this holds for every table that \<open>valid\<close> accepts. If the
  opening auctions of the table also come after the sessions that precede their own (\<open>auctions_precede\<close>, which \<open>valid\<close> does
  not check), each bar begins later than the one before, so that bars are in time order and none is opened twice; without that
  the order can be lost, as \<open>crossed_auction_goes_back\<close> shows.
\<close>

theorem events_bracketed:
  assumes "new_builder F T p = Some b"
  shows "bracketed other None (snd (run_ticks F ks b)) \<and> (auctions_precede T \<longrightarrow> bracketed id_less None (snd (run_ticks F ks b)))"
proof -
  have "builder_ok b" "bb_table b = T" "bb_bar b = None" using new_builder_ok [OF assms] by simp_all
  then show ?thesis using run_bracketed [of b other F ks] run_bracketed [of b id_less F ks] by (simp add: open_id_def next_bar_rule_def)
qed

lemma events_bracketed_witness:
  "bracketed id_less None (snd (run_ticks rat_fp sample_ticks (sample_builder sample_table)))"
  using events_bracketed [OF sample_builder_new [OF sample_table_ok(1)], of sample_ticks] sample_table_ok(2) by simp

text \<open>The events of the run, by kind, start and volume.\<close>

definition event_sketch :: "'d bar_event \<Rightarrow> nat \<times> int \<times> int \<times> int" where
  "event_sketch e = ((case e of Bar_Open _ _ \<Rightarrow> 0 | Bar_Update _ _ \<Rightarrow> 1 | Bar_Close _ _ \<Rightarrow> 2),
     br_date (event_bar e), br_begin (event_bar e), br_volume (event_bar e))"

lemma sample_run:
  "map event_sketch (snd (run_ticks rat_fp sample_ticks (sample_builder sample_table))) =
     [(0, 3, 54000, 5), (1, 3, 54000, 5), (1, 3, 54000, 9), (2, 3, 54000, 9), (0, 3, 54060, 1), (1, 3, 54060, 1),
      (2, 3, 54060, 1), (0, 4, 10860, 2), (1, 4, 10860, 2)]"
  unfolding run_ticks_def sample_ticks_def sample_builder_def sample_table_def sample_tick_def feed_def on_tick_def Let_def
  by code_simp

text \<open>
  C22: for every day, the volumes of the bars that a new builder closed for it and of the one that is open add up to the
  cumulative volume (\<open>tk_volume\<close>) of the last tick of that day that the builder accepted, whatever ticks are dropped; nothing
  is counted twice and nothing is lost between two bars.
\<close>

theorem bars_conserve_volume:
  assumes "new_builder F T p = Some b"
  shows "closed_volume d (snd (run_ticks F ks b)) + open_volume d (fst (run_ticks F ks b)) = reported_volume d (admitted_ticks F ks b)"
  using run_volume [OF new_volume [OF assms], of F ks] run_reports [of d F ks b] by (simp add: volume_inv_def)

lemma sample_admitted: "map tk_volume (admitted_ticks rat_fp sample_ticks (sample_builder sample_table)) = [5, 9, 10, 2]"
  unfolding sample_ticks_def sample_builder_def sample_table_def sample_tick_def admitted_def accepted_def on_tick_def Let_def
  by code_simp

lemma bars_conserve_volume_witness:
  "closed_volume 3 (snd (run_ticks rat_fp sample_ticks (sample_builder sample_table))) +
     open_volume 3 (fst (run_ticks rat_fp sample_ticks (sample_builder sample_table))) =
   reported_volume 3 (admitted_ticks rat_fp sample_ticks (sample_builder sample_table))"
  by (rule bars_conserve_volume [OF sample_builder_new [OF sample_table_ok(1)]])

text \<open>
  every bar that an event shows has its open and close between its low and its high, and a volume that is not
  negative and at most the cumulative one, if the comparison of prices is a strict order.
\<close>

theorem bars_sane:
  assumes "new_builder F T p = Some b" "fp_strict F"
  shows "list_all (bar_sane F \<circ> event_bar) (snd (run_ticks F ks b))"
proof -
  have "sane_inv F b" using new_builder_ok [OF assms(1)] by (simp add: sane_inv_def)
  then show ?thesis using run_sane [OF assms(2)] by blast
qed

lemma bars_sane_witness:
  "list_all (bar_sane rat_fp \<circ> event_bar) (snd (run_ticks rat_fp sample_ticks (sample_builder sample_table)))"
  by (rule bars_sane [OF sample_builder_new [OF sample_table_ok(1)] rat_fp_strict])

section \<open>Auctions before the wrong session\<close>

text \<open>
  A valid table may place an opening auction before a session that precedes its own: \<open>valid\<close> only asks that the window ends
  before its session begins. The second bar of this run begins before the first.
\<close>

definition crossed_table :: session_table where
  "crossed_table = \<lparr>se_sessions = [\<lparr>sn_begin = 10800, sn_end = 18000\<rparr>, \<lparr>sn_begin = 54000, sn_end = 54180\<rparr>],
     se_auctions = [\<lparr>aw_kind = Auction_Open, aw_session = 1, aw_begin = 10700, aw_end = 10799\<rparr>]\<rparr>"

lemma crossed_auction_accepted: "table_valid crossed_table \<and> \<not> auctions_precede crossed_table"
  by (simp add: crossed_table_def table_valid_def auction_valid_def auctions_precede_def max_trading_sec_def)

lemma crossed_auction_goes_back:
  "map event_sketch (snd (run_ticks rat_fp [sample_tick 3 75550 100 5 500, sample_tick 3 75660 100 6 600] (sample_builder crossed_table))) =
     [(0, 3, 54000, 5), (1, 3, 54000, 5), (2, 3, 54000, 5), (0, 3, 10860, 1), (1, 3, 10860, 1)]"
  unfolding run_ticks_def sample_builder_def crossed_table_def sample_tick_def feed_def on_tick_def Let_def
  by code_simp

end
