(* ===== verification/Bar_File.thy ===== *)
theory Bar_File
  imports Bar_Runs
begin

text \<open>
  The configuration file over runs of a manager: whatever the operator changes, the document that was written last (or read
  at the start), parsed and resolved anew, is the configuration the manager has in memory. The store changes only by a commit.
\<close>

section \<open>The document and the configuration\<close>

definition from_file :: "('d, 'f) fp_scheme \<Rightarrow> 'd config_store \<Rightarrow> bool" where
  "from_file F s \<longleftrightarrow> (\<exists>day. and_then (parse_config F (J_Object (cs_document s))) (resolve_effective_config F day) = Inr (cs_current s))"

definition filed :: "('d, 'f) fp_scheme \<Rightarrow> ('d, 's) manager \<Rightarrow> bool" where
  "filed F m \<longleftrightarrow> (\<forall>s. mg_store m = Some s \<longrightarrow> from_file F s)"

lemma committed_reads_back:
  assumes "commit_store F today written c s = Some s'"
  shows "and_then (parse_config F (J_Object (cs_document s'))) (resolve_effective_config F today) = Inr (cs_current s')"
proof -
  have r: "resolve_effective_config F today c = Inr (cs_current s')" "cs_document s' = apply_config c (cs_document s)"
    using assms by (auto simp: commit_store_def split: sum.splits if_splits)
  then show ?thesis by (simp add: parsed_back [OF resolved_range [OF r(1)]])
qed

lemma loaded_from_file: "load_config_file F today written file = Load_Ok s \<Longrightarrow> from_file F s"
  by (auto simp: load_config_file_def from_file_def split: option.splits json.splits if_splits sum.splits)

text \<open>A step that leaves the store alone or commits.\<close>

definition store_kept :: "('d, 's) manager_env \<Rightarrow> ('d, 's) manager \<Rightarrow> ('d, 's) manager \<Rightarrow> bool" where
  "store_kept V m m' \<longleftrightarrow> mg_store m' = mg_store m \<or> (\<exists>f n n'. commit_config_with V f n = Some n' \<and> mg_store m' = mg_store n')"

lemma store_keptI: "mg_store m' = mg_store m \<Longrightarrow> store_kept V m m'"
  by (simp add: store_kept_def)

lemma store_commit: "commit_config_with V f n = Some n' \<Longrightarrow> mg_store m' = mg_store n' \<Longrightarrow> store_kept V m m'"
  by (auto simp: store_kept_def)

lemma store_kept_filed:
  assumes "store_kept V m m'" "filed (me_fp V) m"
  shows "filed (me_fp V) m'"
  using assms(1) unfolding store_kept_def
proof (elim disjE exE conjE)
  assume "mg_store m' = mg_store m"
  then show ?thesis using assms(2) by (simp add: filed_def)
next
  fix f n n'
  assume "commit_config_with V f n = Some n'" "mg_store m' = mg_store n'"
  then show ?thesis using committed_reads_back
    by (fastforce simp: filed_def from_file_def commit_config_with_def split: option.splits)
qed

section \<open>Commands\<close>

lemma store_nodes [simp]: "mg_store (drop_node i m) = mg_store m" "mg_store (put_node i d m) = mg_store m"
  by (simp_all add: drop_node_def put_node_def)

lemma load_spec_store: "load_spec V i m = (r, m') \<Longrightarrow> mg_store m' = mg_store m"
  using load_spec_state [of V i m r m'] by auto

lemma emplace_store: "emplace_node V i spec e m = Some (r, m', es) \<Longrightarrow> mg_store m' = mg_store m"
  by (auto simp: emplace_node_def split: if_splits option.splits prod.splits)

lemma kept_finish: "store_kept V m (fst (finish_add V e i d m))"
  by (auto simp: finish_add_def refuse_def case_prod_beta store_keptI intro: store_commit split: option.split)

lemma kept_add: "store_kept V m (fst (run_instrument_add V e i m))"
proof (cases "i = [] \<or> map_of (mg_nodes m) i \<noteq> None")
  case True
  then show ?thesis by (auto simp: run_instrument_add_def refuse_def store_keptI)
next
  case False
  obtain so m1 where l: "load_spec V i m = (so, m1)" by fastforce
  note s1 = load_spec_store [OF l]
  have "store_kept V m m3" if "finish_add V e i d m2 = (m3, fs, r)" "mg_store m2 = mg_store m" for d m2 m3 fs r
    using kept_finish [of V m2 e i d] that by (simp add: store_kept_def)
  then show ?thesis
    using False s1 emplace_store [of V i _ e m1]
    by (auto simp: run_instrument_add_def l refuse_def case_prod_beta store_keptI split: option.split prod.split bool.split emplaced.split)
qed

lemma kept_del: "store_kept V m (fst (run_instrument_del V i sync market m))"
  by (auto simp: run_instrument_del_def refuse_def case_prod_beta store_keptI intro: store_commit split: option.split)

lemma kept_account:
  "store_kept V m (fst (run_account_add V e i x sync market m))" "store_kept V m (fst (run_account_set V e i x sync market m))"
  "store_kept V m (fst (run_account_del V i sync market m))"
  by (auto simp: run_account_add_def run_account_set_def run_account_del_def refuse_def case_prod_beta store_keptI Let_def
      intro: store_commit split: option.split)

lemma kept_param: "store_kept V m (fst (run_param_set V i t m))"
  by (auto simp: run_param_set_def refuse_def case_prod_beta store_keptI Let_def intro: store_commit split: option.split)

lemma kept_command: "store_kept V m (fst (execute_command V e c m))"
  by (cases "cm_kind c")
     (simp_all add: execute_command_def kept_add kept_del kept_account kept_param store_keptI run_quit_def)

section \<open>Runs\<close>

lemma kept_step: "store_kept V m (fst (manager_step V i m))"
  by (cases i)
     (auto simp: manager_tick_def live_instance_def on_schedule_def relocate_live_instruments_def on_ui_input_def case_prod_beta
        store_keptI kept_command split: sum.split option.split)

lemma filed_run: "filed F m \<Longrightarrow> list_all (\<lambda>(W, i). me_fp W = F) is \<Longrightarrow> filed F (fst (manager_run is m))"
proof (induction "is" arbitrary: m)
  case (Cons p ps)
  obtain W i where p: "p = (W, i)" by (cases p)
  have "filed F (fst (manager_step W i m))" using store_kept_filed [OF kept_step] Cons.prems p by auto
  then show ?case using Cons.IH Cons.prems(2) p by (simp add: case_prod_beta)
qed simp

lemma create_store: "create_instances V e js m = Some (m', es) \<Longrightarrow> mg_store m' = mg_store m"
proof (induction js arbitrary: m m' es)
  case (Cons i js)
  obtain so m1 where l: "load_spec V i m = (so, m1)" by fastforce
  show ?case using Cons load_spec_store [OF l] emplace_store [of V i _ e m1]
    by (fastforce simp: l split: option.splits prod.splits)
qed simp

lemma drain_store: "mg_store (fst (drain_buffered_ticks V e ks m)) = mg_store m"
proof (induction ks arbitrary: m)
  case (Cons k ks)
  have "mg_store (fst (continue_tick V e k m)) = mg_store m"
    by (auto simp: continue_tick_def live_instance_def case_prod_beta split: option.split)
  then show ?case using Cons by (simp add: case_prod_beta)
qed simp

lemma filed_start:
  assumes "on_start V file ks m = Some (m', es)" "mg_store m = None"
  shows "filed (me_fp V) m'"
proof (cases "load_config_file (me_fp V) (me_today V) (me_written V) file")
  case (Load_Ok s)
  have "mg_store m' = Some s"
    using assms create_store unfolding on_start_def Load_Ok Let_def
    by (fastforce simp: request_startup_exit_def enter_live_def drain_store case_prod_beta split: option.splits if_splits)
  then show ?thesis using loaded_from_file [OF Load_Ok] by (simp add: filed_def)
qed (use assms in \<open>auto simp: on_start_def request_startup_exit_def filed_def\<close>)

end
