(* ===== verification/Bar_Trading.thy ===== *)
theory Bar_Trading
  imports Bar_Reports Bar_Props Bar_File
begin

text \<open>The properties of the bar strategy framework, with a strategy that trades on the sample session.\<close>

section \<open>A strategy\<close>

text \<open>It buys two contracts at the first close it sees and sells one at every later close.\<close>

definition sample_close :: "(rat, 'p, nat) callback_fun" where
  "sample_close p c s = (if s = 0 then ([Req_Intent Buy 2 100], 1, False) else ([Req_Intent Sell 1 (1001/10)], 1, False))"

definition sample_strategy :: "(rat, 'p, nat) strategy" where
  "sample_strategy =
     \<lparr>sg_instance = 0, sg_init = None, sg_open = None, sg_update = None, sg_close = Some sample_close, sg_params = None, sg_destroy = None\<rparr>"

definition sample_accounts :: "rat attached list" where
  "sample_accounts = [\<lparr>at_id = ''A'', at_scale = 1\<rparr>, \<lparr>at_id = ''B'', at_scale = 1/2\<rparr>]"

definition sample_env :: "(rat, unit, nat) node_env" where
  "sample_env =
     \<lparr>ne_fp = rat_fpx, ne_strategy = sample_strategy, ne_params = (), ne_accounts = sample_accounts, ne_raw = 0, ne_raw_int = 0\<rparr>"

definition sample_spec :: "rat instrument_spec" where
  "sample_spec = \<lparr>is_exchange = ''SHFE'', is_multiple = 10, is_tick = 1\<rparr>"

definition sample_scaling :: "rat scaling_config" where
  "sample_scaling = \<lparr>sc_max_scale = 1, sc_rounding = Round_Nearest, sc_min_one = False\<rparr>"

definition sample_context :: "nat \<Rightarrow> rat ictx" where
  "sample_context n = new_context rat_fpx 0 ''rb2510'' n 4 sample_spec True sample_scaling"

lemma sample_context_new: "sample_context n = new_context (ne_fp sample_env) 0 ''rb2510'' n 4 sample_spec True sample_scaling"
  by (simp add: sample_context_def sample_env_def)

definition sample_node :: "nat \<Rightarrow> bool \<Rightarrow> (rat, nat) node" where
  "sample_node n l =
     \<lparr>nd_ctx = set_live l (sample_context n), nd_builder = sample_builder sample_table, nd_instance = 0, nd_tail = None, nd_replaying = False,
      nd_silent = 0, nd_replayed = 0\<rparr>"

lemma sample_run_actions:
  "snd (node_ticks sample_env sample_ticks (sample_node 1 True)) =
     [Called ''rb2510'' On_Bar_Close, Place ''A'' ''rb2510'' Dir_Long Price_Limit 100 2, Publish ''A'' ''rb2510'' 2,
      Place ''B'' ''rb2510'' Dir_Long Price_Limit 100 1, Publish ''B'' ''rb2510'' 1,
      Called ''rb2510'' On_Bar_Close, Place ''A'' ''rb2510'' Dir_Short Price_Limit 101 1, Publish ''A'' ''rb2510'' 1]"
  by code_simp

section \<open>A manager\<close>

text \<open>The first period whose reserve fits; evaluating the search itself takes the fuel apart.\<close>

lemma min_feasible [code]: "min_feasible_period = 12"
proof -
  have s: "first_period t (Suc n) p = (if t p then p else first_period t n (p + 1))" for t n p by simp
  have "first_period t (Suc (Suc (Suc (Suc (Suc (Suc (Suc (Suc (Suc (Suc (Suc (Suc n)))))))))))) 1 = 12"
    if "\<not> t 1" "\<not> t 2" "\<not> t 3" "\<not> t 4" "\<not> t 5" "\<not> t 6" "\<not> t 7" "\<not> t 8" "\<not> t 9" "\<not> t 10" "\<not> t 11" "t 12" for t n
    using that by simp
  from this [of "\<lambda>p. min_reserve_bars p \<le> reserve_bars_max" 86387] show ?thesis
    by (simp add: min_feasible_period_def min_reserve_bars_def daily_bars_def secs_per_day_def reserve_bars_max_def cdiv_nonneg)
qed

text \<open>Two contracts are bought when the instance is made; the operator halves the share of an account.\<close>

definition sample_init :: "(rat, 'p, nat) callback_fun" where
  "sample_init p c s = ([Req_Intent Buy 2 100], s, False)"

definition sample_config :: "rat json" where
  "sample_config = J_Object [(''schema_version'', J_Int 1), (''period_sec'', J_Int 900), (''instruments'', J_Array [J_String ''rb2510'']),
     (''accounts'', J_Array [J_Object [(''account_id'', J_String ''A''), (''scale'', J_Int 1)]]), (''max_lookback'', J_Int 32),
     (''reserve_bars'', J_Int 106), (''note'', J_Null)]"

definition sample_manager_env :: "(rat, nat) manager_env" where
  "sample_manager_env =
     \<lparr>me_fp = rat_fpx, me_strategy = sample_strategy\<lparr>sg_init := Some sample_init\<rparr>, me_table = sample_table, me_raw = 0, me_raw_int = 0,
      me_metadata = (\<lambda>i. Meta_Loaded sample_spec), me_history = (\<lambda>i. History_Unavailable),
      me_subscribe = (\<lambda>is. True), me_written = True, me_today = 0, me_from_chars = (\<lambda>t. Some (1/2)), me_json = (\<lambda>t. None), me_timer = Some 7\<rparr>"

definition sample_start :: "((rat, nat) manager \<times> rat sdk_call list) option" where
  "sample_start = on_start sample_manager_env (Some (Some sample_config)) [] (new_manager True)"

definition sample_inputs :: "((rat, nat) manager_env \<times> rat input) list" where
  "sample_inputs = [(sample_manager_env, In_Tick (hd sample_ticks)), (sample_manager_env, In_Line ''account set A scale 0.5''), (sample_manager_env, In_Timer 7)]"

lemma sample_start_calls: "map_option snd sample_start = Some [Subscribed [''rb2510''] True, Did (Called ''rb2510'' On_Init), Did (Publish ''A'' ''rb2510'' 2)]"
  by code_simp
definition sample_run_manager :: "(rat, nat) manager \<times> rat sdk_call list" where
  "sample_run_manager = manager_run sample_inputs (fst (the sample_start))"

lemma sample_session:
  "snd sample_run_manager = [Did (Publish ''A'' ''rb2510'' 1)] \<and> map fst (mg_nodes (fst sample_run_manager)) = [''rb2510''] \<and>
   mg_accounts (fst sample_run_manager) = [\<lparr>at_id = ''A'', at_scale = 1/2\<rparr>]"
  by code_simp

lemma sample_started:
  "on_start sample_manager_env (Some (Some sample_config)) [] (new_manager True) = Some (fst (the sample_start), snd (the sample_start))"
proof -
  have "sample_start \<noteq> None" using sample_start_calls by auto
  then show ?thesis unfolding sample_start_def [symmetric] by simp
qed

lemma sample_env_fp: "me_fp sample_manager_env = rat_fpx" "list_all (\<lambda>(W, i). me_fp W = rat_fpx) sample_inputs"
  by (simp_all add: sample_manager_env_def sample_inputs_def)

lemma sample_run_eq: "manager_run sample_inputs (fst (the sample_start)) = (fst sample_run_manager, snd sample_run_manager)"
  by (simp add: sample_run_manager_def)

lemma sample_node_there:
  "map_of (mg_nodes (fst sample_run_manager)) ''rb2510'' = Some (the (map_of (mg_nodes (fst sample_run_manager)) ''rb2510''))"
  using sample_session by (cases "mg_nodes (fst sample_run_manager)") auto

section \<open>The manager\<close>

text \<open>
  C3: whatever ticks, timers and lines of the operator follow a start, the last position reported for an attached account
  and an instrument is the account's share of the instrument's position, so the watchers of a strategy never see a stale
  position; accounts and instruments that come, change their ratio or go are included.
\<close>

theorem reports_follow_ledger:
  assumes "on_start V file ks (new_manager True) = Some (m, es)" "me_fp V = F" "list_all (\<lambda>(W, i). me_fp W = F) is"
    "manager_run is m = (m', fs)" "map_of (mg_nodes m') i = Some d" "a \<in> set (mg_accounts m')"
  shows "last_pub (at_id a) i None (es @ fs) = Some (logical_position_for F a (nd_ctx d))"
proof -
  have "reported F (after (\<lambda>_ _. None) es) m"
    using started_ok [OF assms(1) _ mirrors_new _ assms(2)] by (simp add: new_manager_def)
  from reported_run [OF this assms(3)] have "reported F (after (\<lambda>_ _. None) (es @ fs)) m'" by (simp add: assms(4))
  then show ?thesis using assms(5,6) by (auto simp: reported_def settled_def after_def share_def logical_position_for_def)
qed

lemma reports_follow_ledger_witness:
  "last_pub ''A'' ''rb2510'' None (snd (the sample_start) @ snd sample_run_manager) =
   Some (logical_position_for rat_fpx \<lparr>at_id = ''A'', at_scale = 1/2\<rparr> (nd_ctx (the (map_of (mg_nodes (fst sample_run_manager)) ''rb2510''))))"
  using reports_follow_ledger [OF sample_started sample_env_fp sample_run_eq sample_node_there, of "\<lparr>at_id = ''A'', at_scale = 1/2\<rparr>"]
    sample_session by simp
text \<open>
  C10: whatever ticks, timers and lines follow a start, the document of the configuration file (\<open>cs_document\<close>: as it was read
  at the start, or as the last successful commit wrote it) parses and resolves, on the day of that reading or commit, to a
  configuration that has exactly the accounts and the parameters the manager works with and names every instrument that runs;
  no account is attached twice. Without a file nothing runs.
\<close>

theorem memory_mirrors_file:
  assumes "on_start V file ks (new_manager session) = Some (m, es)" "me_fp V = F" "list_all (\<lambda>(W, i). me_fp W = F) is"
    and "m' = fst (manager_run is m)"
  shows "case mg_store m' of
      None \<Rightarrow> mg_nodes m' = []
    | Some s \<Rightarrow> (\<exists>day e. and_then (parse_config F (J_Object (cs_document s))) (resolve_effective_config F day) = Inr e \<and>
        mg_accounts m' = bc_accounts (ec_config e) \<and> mg_params m' = bc_params (ec_config e) \<and>
        distinct (map at_id (mg_accounts m')) \<and> set (keys (mg_nodes m')) \<subseteq> set (bc_instruments (ec_config e)))"
proof -
  have "mirrors m'" unfolding assms(4)
    by (rule mirrors_run [OF mirrors_start [OF assms(1) mirrors_new]]) (simp add: new_manager_def)
  moreover have "filed F m'" unfolding assms(4)
    by (rule filed_run [OF filed_start [OF assms(1), unfolded assms(2)] assms(3)]) (simp add: new_manager_def)
  ultimately show ?thesis
  proof (cases "mg_store m'")
    case (Some s)
    from \<open>filed F m'\<close> Some obtain day where p:
      "and_then (parse_config F (J_Object (cs_document s))) (resolve_effective_config F day) = Inr (cs_current s)"
      by (auto simp: filed_def from_file_def)
    have f: "mg_accounts m' = bc_accounts (ec_config (cs_current s))" "mg_params m' = bc_params (ec_config (cs_current s))"
      "distinct (map at_id (mg_accounts m'))" "set (keys (mg_nodes m')) \<subseteq> set (bc_instruments (ec_config (cs_current s)))"
      using \<open>mirrors m'\<close> unfolding mirrors_def Some option.case by blast+
    show ?thesis unfolding Some option.case by (intro exI [of _ day] exI [of _ "cs_current s"] conjI p f)
  qed (simp add: mirrors_def)
qed

lemma memory_mirrors_file_witness:
  "let m' = fst (manager_run sample_inputs (fst (the sample_start)))
   in case mg_store m' of
      None \<Rightarrow> mg_nodes m' = []
    | Some s \<Rightarrow> (\<exists>day e. and_then (parse_config rat_fpx (J_Object (cs_document s))) (resolve_effective_config rat_fpx day) = Inr e \<and>
        mg_accounts m' = bc_accounts (ec_config e) \<and> mg_params m' = bc_params (ec_config e) \<and>
        distinct (map at_id (mg_accounts m')) \<and> set (keys (mg_nodes m')) \<subseteq> set (bc_instruments (ec_config e)))"
  unfolding Let_def by (rule memory_mirrors_file [OF sample_started sample_env_fp refl])

text \<open>
  C20: a start never places an order, whatever the strategy asks for while its instances are made, the history is replayed
  and the buffered ticks are drained; all it sends is the subscription and the reports of the positions.
\<close>

theorem start_places_no_order:
  assumes "on_start V file ks (new_manager True) = Some (m, es)"
  shows "no_orders es"
  using started_ok [OF assms _ mirrors_new _ refl] by (simp add: new_manager_def)

lemma start_places_no_order_witness: "no_orders (snd (the sample_start))"
  by (rule start_places_no_order [OF sample_started])

text \<open>
  C19: a command that is refused, at whatever step, leaves the file, the accounts, the parameters and the instruments as
  they were, and neither orders nor reports are sent for it.
\<close>

theorem refused_command_left_alone:
  assumes "omap_ok (mg_nodes m)" "is_refusal (snd (snd (execute_command V e c m)))"
  shows "left_alone m (execute_command V e c m)"
  using assms by (rule command_refused)

definition sample_broken_env :: "(rat, nat) manager_env" where
  "sample_broken_env = sample_manager_env\<lparr>me_written := False\<rparr>"

definition sample_add :: "rat command" where
  "sample_add = plain_command rat_fpx Instrument_Add ''hc2510''"

lemma sample_add_refused:
  "is_refusal (snd (snd (execute_command sample_broken_env (the (mg_effective (fst sample_run_manager))) sample_add (fst sample_run_manager)))) \<and>
   fst (snd (execute_command sample_broken_env (the (mg_effective (fst sample_run_manager))) sample_add (fst sample_run_manager))) =
     [Subscribed [''hc2510''] False, Did (Called ''hc2510'' On_Init), Unsubscribed ''hc2510'']"
  by code_simp

lemma refused_command_left_alone_witness:
  "left_alone (fst sample_run_manager) (execute_command sample_broken_env (the (mg_effective (fst sample_run_manager))) sample_add (fst sample_run_manager))"
proof (rule refused_command_left_alone)
  show "omap_ok (mg_nodes (fst sample_run_manager))" using sample_session by (cases "mg_nodes (fst sample_run_manager)") (auto simp: omap_ok_def keys_def)
qed (use sample_add_refused in blast)

section \<open>Orders\<close>

text \<open>
  C5: along any ticks of a live instrument, as long as no order is refused for an account, the volumes ordered for it add up
  to the change of its share of the position: what the strategy holds virtually is what the account was told to trade.
\<close>

theorem orders_follow_position:
  assumes "distinct (map at_id (ne_accounts E))" "a \<in> set (ne_accounts E)" "ic_live (nd_ctx d)" "ic_session (nd_ctx d)"
    "\<not> list_ex (refuses (at_id a)) (snd (node_ticks E ks d))"
  shows "orders_for (at_id a) (snd (node_ticks E ks d)) = share (ne_fp E) a (nd_ctx (fst (node_ticks E ks d))) - share (ne_fp E) a (nd_ctx d)"
  using follows.run [of E a d ks] assms by (simp add: follows_def tracked_def)

lemma orders_follow_position_witness:
  "orders_for ''A'' (snd (node_ticks sample_env sample_ticks (sample_node 1 True))) =
   share rat_fpx \<lparr>at_id = ''A'', at_scale = 1\<rparr> (nd_ctx (fst (node_ticks sample_env sample_ticks (sample_node 1 True)))) -
   share rat_fpx \<lparr>at_id = ''A'', at_scale = 1\<rparr> (nd_ctx (sample_node 1 True))"
  using orders_follow_position [of sample_env "\<lparr>at_id = ''A'', at_scale = 1\<rparr>" "sample_node 1 True" sample_ticks] sample_run_actions
  by (simp add: sample_env_def sample_accounts_def sample_node_def sample_context_def new_context_def set_live_def)

text \<open>
  C32: an intent of a proper size and price leads to its goal and to nothing else: an entry closes the opposite side first
  and adds its size, an exit never passes zero; anything else leaves the position.
\<close>

theorem intent_reaches_goal:
  "ps_net (snd (apply_intent F i n price b s)) = (if 0 \<le> n \<and> price_ok F price then intent_goal i n (ps_net s) else ps_net s)"
  by (auto simp: intent_net)

text \<open>
  C31: the ledger of an instrument is consistent whatever its strategy does while it is made, while history is replayed and
  while ticks arrive: it has entries exactly when it has a position, the maxima bound both, and flat means no entry price.
\<close>

theorem ledger_consistent:
  assumes "new_node E (new_context (ne_fp E) raw name n b spec session scaling) T p = Some d"
  shows "ledger_ok (ne_fp E) (ic_position (nd_ctx (fst (node_ticks E ks (fst (replay_instrument_history E w l xs (fst (init_new_instance E d))))))))"
proof -
  have "ledger_ok (ne_fp E) (ic_position (nd_ctx d))" using assms by (auto simp: new_node_def new_context_def flat_ok split: option.splits)
  then show ?thesis using ledger.init [of E d] ledger.history [of E "fst (init_new_instance E d)" w l xs]
      ledger.run [of E "fst (replay_instrument_history E w l xs (fst (init_new_instance E d)))" ks]
    by (simp add: ledger_kept_def)
qed

lemma sample_node_new: "new_node sample_env (sample_context n) sample_table 60 = Some (sample_node n False)"
proof -
  have "new_builder rat_fpx sample_table 60 = Some (sample_builder sample_table)"
    by (simp add: new_builder_def sample_builder_def sample_table_ok)
  then show ?thesis by (simp add: new_node_def sample_env_def sample_node_def sample_strategy_def sample_context_def new_context_def set_live_def)
qed

lemma ledger_consistent_witness:
  "ledger_ok rat_fpx (ic_position (nd_ctx (fst (node_ticks sample_env sample_ticks
     (fst (replay_instrument_history sample_env None 1 [] (fst (init_new_instance sample_env (sample_node 1 False)))))))))"
  using ledger_consistent [OF sample_node_new [of 1, unfolded sample_context_new]] by (simp add: sample_env_def)
section \<open>Silence\<close>

text \<open>
  C34: bars reach a strategy only when the window of its instrument is full. From the creation of an instrument on, through
  its \<open>on_init\<close>, the replay of its history and any ticks, live or not and with or without an account session, as long as the
  window holds fewer than \<open>n\<close> bars neither the replay nor the ticks call the strategy, and so none of them leads to an order or a
  report. (\<open>on_init\<close> itself is called, and going live and the operator's commands report positions and may call
  \<open>on_params_update\<close> at any time; these are not among the steps after \<open>on_init\<close> here.)
\<close>

theorem silent_until_filled:
  assumes "new_node E (new_context (ne_fp E) raw name n b spec session scaling) T p = Some d"
    and "d1 = fst (init_new_instance E d)" and "replay_instrument_history E w l xs d1 = (d2, es)"
    and "node_ticks E ks (map_ctx (set_live live) d2) = (d3, fs)"
    and "wn_size (sx_window (nd_ctx d3)) < n"
  shows "es = [] \<and> fs = []"
proof -
  have "nd_ctx d = new_context (ne_fp E) raw name n b spec session scaling" using assms(1) by (auto simp: new_node_def split: option.splits)
  then have "filled_inv n (nd_ctx d1)"
    using filled_same [OF window.init [of d E]] new_filled [of n "ne_fp E" raw name b spec session scaling] assms(2) by simp
  then have 2: "filled_inv n (nd_ctx d2)" "es \<noteq> [] \<longrightarrow> wn_size (sx_window (nd_ctx d2)) = n"
    using gated_history [of n d1 E w l xs] assms(3) by (auto simp: gated_def)
  then have "filled_inv n (nd_ctx (map_ctx (set_live live) d2))" by (simp add: filled_inv_def map_ctx_def set_live_def)
  then show ?thesis using gated_ticks [of n "map_ctx (set_live live) d2" E ks] assms(4,5) 2(2)
    by (auto simp: gated_def map_ctx_def set_live_def)
qed

text \<open>A live instrument with a session and accounts, whose strategy trades at every close.\<close>

lemma sample_quiet:
  "let d1 = fst (init_new_instance sample_env (sample_node 4 False));
       d2 = fst (replay_instrument_history sample_env None 4 [] d1);
       d3 = fst (node_ticks sample_env sample_ticks (map_ctx (set_live True) d2))
   in wn_size (sx_window (nd_ctx d3)) < 4 \<and> ic_live (nd_ctx d3) \<and> ic_session (nd_ctx d3)"
  by code_simp

lemma silent_until_filled_witness:
  "snd (node_ticks sample_env sample_ticks (map_ctx (set_live True) (fst (replay_instrument_history sample_env None 4 []
     (fst (init_new_instance sample_env (sample_node 4 False))))))) = []"
  using silent_until_filled [where w = None and l = 4 and xs = "[]" and ks = sample_ticks and live = True,
      OF sample_node_new [of 4, unfolded sample_context_new] refl prod.collapse [symmetric] prod.collapse [symmetric]] sample_quiet
  by (simp add: Let_def)

text \<open>
  the replay of history reaches no account: whatever the strategy asks for, orders and reports wait until the instrument
  is live.
\<close>

theorem replay_is_silent:
  assumes "\<not> ic_live (nd_ctx d)"
  shows "list_all is_call (snd (replay_instrument_history E w n xs d))"
  using quiet.history [of d E w n xs] assms by (simp add: quiet_def)

definition sample_bar :: "int \<Rightarrow> rat \<Rightarrow> rat bar" where
  "sample_bar t p =
     \<lparr>br_date = 3, br_begin = t, br_last_tick = t + 59, br_period = 60, br_open = p, br_high = p + 2, br_low = p - 1, br_close = p + 1,
      br_volume = 8, br_turnover = 800, br_oi = 0, br_cum_volume = 8 * ((t - 54000) div 60 + 1), br_cum_turnover = 800, br_final = True\<rparr>"

text \<open>Three bars of the session; the strategy trades at the two closes that the replay reaches, and nobody notices.\<close>

definition sample_history :: "rat bar list" where
  "sample_history = [sample_bar 54000 100, (sample_bar 54060 101)\<lparr>br_cum_turnover := 1600\<rparr>, (sample_bar 54120 102)\<lparr>br_cum_turnover := 2400\<rparr>]"

lemma sample_replay:
  "snd (replay_instrument_history sample_env None 1 sample_history (sample_node 1 False)) = [Called ''rb2510'' On_Bar_Close, Called ''rb2510'' On_Bar_Close] \<and>
   ps_net (ic_position (nd_ctx (fst (replay_instrument_history sample_env None 1 sample_history (sample_node 1 False))))) = 1"
  by code_simp

lemma replay_is_silent_witness: "list_all is_call (snd (replay_instrument_history sample_env None 1 sample_history (sample_node 1 False)))"
  by (rule replay_is_silent) (simp add: sample_node_def set_live_def)

section \<open>Arithmetic of orders\<close>

text \<open>
  the volume of an order is the exact difference of the shares, or the order is refused; a difference that was cut off at
  the range of 64 bits, or that does not fit the 32 bits of an order, is never sent as a smaller one.
\<close>

theorem order_volume_exact:
  "order_volume (saturating_delta q p) = (if q \<noteq> p \<and> \<bar>q - p\<bar> \<le> volume_max then Some \<bar>q - p\<bar> else None)"
  by (auto simp: order_volume_def saturating_delta_def large_min_def large_max_def volume_max_def)

text \<open>
  C40: with a tick that tells the limits of the day, no buy order is priced above the upper limit and no sell order below the
  lower one, whatever price the strategy asks for.
\<close>

theorem order_price_within_limits:
  assumes "fp_strict F" "pp_valid (resolve_order_price F p t d k)" "ts_valid k"
  shows "\<not> (if d = Dir_Long then usable F (ts_upper k) \<and> fp_lt F (ts_upper k) (pp_price (resolve_order_price F p t d k))
            else usable F (ts_lower k) \<and> fp_lt F (pp_price (resolve_order_price F p t d k)) (ts_lower k))"
  using order_price_limits [OF assms] by (cases d) auto

definition sample_limits :: "rat tick_snapshot" where
  "sample_limits = \<lparr>ts_upper = 105, ts_lower = 95, ts_last = 100, ts_bid = 99, ts_ask = 101, ts_valid = True\<rparr>"

lemma rat_fpx_strict: "fp_strict rat_fpx"
  by (auto simp: fp_strict_def)

lemma order_price_within_limits_witness: "\<not> (105::rat) < pp_price (resolve_order_price rat_fpx 110 1 Dir_Long sample_limits)"
proof -
  have "pp_valid (resolve_order_price rat_fpx 110 1 Dir_Long sample_limits)" "ts_valid sample_limits" by code_simp+
  from order_price_within_limits [OF rat_fpx_strict this] show ?thesis by (simp add: sample_limits_def usable_def)
qed
section \<open>The window\<close>









text \<open>
  A reference to the current bar survives a relocation, which does not count as a new bar, but its slot does not move with
  the window: a value written through it is lost.
\<close>

lemma ref_lost_by_relocation:
  "let w = \<lparr>wn_end = 3, wn_size = 1, wn_max = 1, wn_buffer = 4, wn_seq = 3\<rparr>; xs = [0, 0, 5, 0 :: int];
       w' = finish_relocate w; ys = relocate_array w xs
   in \<exists>r. make_ref w 0 = Some r \<and> ref_write w' r 9 ys = Some [5, 0, 9, 0] \<and> series_at w' [5, 0, 9, 0] 0 = Some (5 :: int)"
  by (simp add: make_ref_def ref_write_def relocate_array_def finish_relocate_def series_at_def)

section \<open>The configuration\<close>

text \<open>
  C33: what a commit wrote to the file, read again, gives the configuration that the strategy runs with, so that a restart
  continues where the operator left it.
\<close>

theorem config_reloads:
  assumes "commit_store F today written c s = Some s'"
  shows "and_then (parse_config F (J_Object (cs_document s'))) (resolve_effective_config F today) = Inr (cs_current s')"
  using assms by (rule committed_reads_back)

definition sample_commit :: "rat config_store option" where
  "sample_commit =
     (case mg_store (fst sample_run_manager) of
        None \<Rightarrow> None
      | Some s \<Rightarrow> commit_store rat_fpx 0 True (set_param ''n'' (J_Int 5) (ec_config (cs_current s))) s)"

lemma sample_commit_made: "map_option (\<lambda>s. map_of (cs_document s) ''params'') sample_commit = Some (Some (J_Object [(''n'', J_Int 5)]))"
  by code_simp

lemma config_reloads_witness:
  "and_then (parse_config rat_fpx (J_Object (cs_document (the sample_commit)))) (resolve_effective_config rat_fpx 0) = Inr (cs_current (the sample_commit))"
proof (rule config_reloads)
  have "sample_commit \<noteq> None" using sample_commit_made by auto
  then show "commit_store rat_fpx 0 True (set_param ''n'' (J_Int 5) (ec_config (cs_current (the (mg_store (fst sample_run_manager)))))) (the (mg_store (fst sample_run_manager))) = Some (the sample_commit)"
    by (auto simp: sample_commit_def split: option.splits)
qed

text \<open>A buy below one tick is aligned to the price 0 and still counts as valid.\<close>

lemma aligned_to_zero:
  "pp_price (resolve_order_price rat_fpx (1/2) 1 Dir_Long (no_snapshot rat_fpx)) = 0 \<and> pp_valid (resolve_order_price rat_fpx (1/2) 1 Dir_Long (no_snapshot rat_fpx))"
  by code_simp

end
