(* ===== verification/Bar_Daily.thy ===== *)
theory Bar_Daily
  imports Bar_Props
begin

text \<open>
  Daily bars (\<open>bar/daily_bar_builder.h\<close>): a bar is what the last accepted tick of its day says of the day, and it is
  closed by the first accepted tick of a later day. The current bar and the day of a restored final bar are options.
\<close>

section \<open>The builder\<close>

record 'd daily =
  dy_bar :: "'d bar option"
  dy_stats :: bar_stats
  dy_tick_received :: bool
  dy_restored :: "int option"

definition new_daily :: "'d daily" where
  "new_daily = \<lparr>dy_bar = None, dy_stats = no_stats, dy_tick_received = False, dy_restored = None\<rparr>"

definition daily_reset :: "'d daily \<Rightarrow> 'd daily" where
  "daily_reset b = b\<lparr>dy_bar := None, dy_stats := no_stats, dy_tick_received := False, dy_restored := None\<rparr>"

definition count_session :: "'d daily \<Rightarrow> 'd daily" where
  "count_session b = b\<lparr>dy_stats := (dy_stats b)\<lparr>bs_out_of_session := bs_out_of_session (dy_stats b) + 1\<rparr>\<rparr>"

definition count_order :: "'d daily \<Rightarrow> 'd daily" where
  "count_order b = b\<lparr>dy_stats := (dy_stats b)\<lparr>bs_out_of_order := bs_out_of_order (dy_stats b) + 1\<rparr>\<rparr>"

definition count_volume :: "'d daily \<Rightarrow> 'd daily" where
  "count_volume b = b\<lparr>dy_stats := (dy_stats b)\<lparr>bs_bad_volume := bs_bad_volume (dy_stats b) + 1\<rparr>\<rparr>"

definition daily_restored_accepts :: "'d dz_tick \<Rightarrow> 'd daily \<Rightarrow> bool" where
  "daily_restored_accepts k b = (case dy_restored b of None \<Rightarrow> True | Some d \<Rightarrow> d < tk_date k)"

definition daily_basis_ok :: "('d, 'm) fp_scheme \<Rightarrow> 'd dz_tick \<Rightarrow> 'd daily \<Rightarrow> bool" where
  "daily_basis_ok F k b =
     (let (v, a) = (case dy_bar b of
                      None \<Rightarrow> (0, fp_zero F)
                    | Some x \<Rightarrow> if tk_date k = br_date x then (br_cum_volume x, br_cum_turnover x) else (0, fp_zero F))
      in v \<le> tk_volume k \<and> fp_finite F (tk_turnover k) \<and> fp_le F a (tk_turnover k))"

definition daily_update :: "'d dz_tick \<Rightarrow> int \<Rightarrow> 'd bar \<Rightarrow> 'd bar" where
  "daily_update k t x =
     x\<lparr>br_open := tk_open k, br_high := tk_high k, br_low := tk_low k, br_close := tk_last k, br_last_tick := t,
       br_volume := tk_volume k, br_turnover := tk_turnover k, br_cum_volume := tk_volume k, br_cum_turnover := tk_turnover k,
       br_oi := tk_oi k\<rparr>"

definition daily_begin :: "('d, 'm) fp_scheme \<Rightarrow> 'd dz_tick \<Rightarrow> int \<Rightarrow> 'd daily \<Rightarrow> 'd daily \<times> 'd bar_event list" where
  "daily_begin F k t b =
     (let x = daily_update k t (empty_bar F (tk_date k) 0 0)
      in (b\<lparr>dy_bar := Some x, dy_restored := None\<rparr>, [Bar_Open x False]))"

text \<open>The time or the day goes back.\<close>

definition daily_goes_back :: "'d dz_tick \<Rightarrow> int \<Rightarrow> 'd daily \<Rightarrow> bool" where
  "daily_goes_back k t b =
     (case dy_bar b of
        Some x \<Rightarrow> tk_date k < br_date x \<or> (tk_date k = br_date x \<and> t < br_last_tick x)
      | None \<Rightarrow> (case dy_restored b of Some d \<Rightarrow> tk_date k < d | None \<Rightarrow> False))"

definition daily_take :: "('d, 'm) fp_scheme \<Rightarrow> 'd dz_tick \<Rightarrow> int \<Rightarrow> 'd daily \<Rightarrow> 'd daily \<times> 'd bar_event list" where
  "daily_take F k t b =
     (case dy_bar b of
        None \<Rightarrow> daily_begin F k t b
      | Some x \<Rightarrow>
          if tk_date k \<noteq> br_date x
          then (let y = x\<lparr>br_final := True\<rparr>; (b', es) = daily_begin F k t (b\<lparr>dy_bar := Some y\<rparr>) in (b', Bar_Close y False # es))
          else (b\<lparr>dy_bar := Some (daily_update k t x)\<rparr>, []))"

definition daily_tick :: "('d, 'm) fp_scheme \<Rightarrow> 'd dz_tick \<Rightarrow> 'd daily \<Rightarrow> 'd daily \<times> 'd bar_event list" where
  "daily_tick F k b0 =
     (let b = b0\<lparr>dy_tick_received := True\<rparr> in
      if tk_time k < 0 \<or> tk_time k > max_trading_sec then (count_session b, [])
      else let t = from_clock (tk_time k) in
      if tk_date k \<le> 0 then (count_order b, [])
      else if daily_goes_back k t b then (count_order b, [])
      else if \<not> price_ok F (tk_last k) then (b, [])
      else if \<not> daily_restored_accepts k b then (count_order b, [])
      else if \<not> daily_basis_ok F k b then (count_volume b, [])
      else case daily_take F k t b of
             (b', es) \<Rightarrow> (b', es @ (case dy_bar b' of None \<Rightarrow> [] | Some x \<Rightarrow> [Bar_Update x False])))"

fun daily_ticks :: "('d, 'm) fp_scheme \<Rightarrow> 'd dz_tick list \<Rightarrow> 'd daily \<Rightarrow> 'd daily \<times> 'd bar_event list" where
  "daily_ticks F [] b = (b, [])"
| "daily_ticks F (k # ks) b = (case daily_tick F k b of (b1, es) \<Rightarrow> (case daily_ticks F ks b1 of (b2, fs) \<Rightarrow> (b2, es @ fs)))"

definition cumulative_fields_ok :: "('d, 'm) fp_scheme \<Rightarrow> 'd bar \<Rightarrow> bool" where
  "cumulative_fields_ok F x \<longleftrightarrow> fp_finite F (br_cum_turnover x) \<and> fp_le F (fp_zero F) (br_cum_turnover x) \<and> 0 \<le> br_cum_volume x \<and>
     br_volume x = br_cum_volume x \<and> fp_eq F (br_turnover x) (br_cum_turnover x)"

definition daily_restore_ok :: "('d, 'm) fp_scheme \<Rightarrow> 'd bar \<Rightarrow> bool" where
  "daily_restore_ok F x \<longleftrightarrow> br_period x = 0 \<and> 0 < br_date x \<and> br_begin x = 0 \<and> 0 \<le> br_last_tick x \<and> br_last_tick x \<le> max_trading_sec \<and>
     cumulative_fields_ok F x"

definition daily_restore :: "('d, 'm) fp_scheme \<Rightarrow> 'd bar \<Rightarrow> 'd daily \<Rightarrow> 'd daily option" where
  "daily_restore F x b =
     (if dy_tick_received b \<or> dy_bar b \<noteq> None \<or> dy_restored b \<noteq> None then None
      else if \<not> daily_restore_ok F x then None
      else if br_final x then Some (b\<lparr>dy_restored := Some (br_date x)\<rparr>)
      else Some (b\<lparr>dy_bar := Some (x\<lparr>br_final := False\<rparr>)\<rparr>))"

section \<open>What the bars are\<close>

text \<open>The bar of a day as its last accepted tick tells it.\<close>

definition day_bar :: "('d, 'm) fp_scheme \<Rightarrow> bool \<Rightarrow> 'd dz_tick \<Rightarrow> 'd bar" where
  "day_bar F final k = (daily_update k (from_clock (tk_time k)) (empty_bar F (tk_date k) 0 0))\<lparr>br_final := final\<rparr>"

definition taken :: "('d, 'm) fp_scheme \<Rightarrow> 'd dz_tick \<Rightarrow> 'd daily \<Rightarrow> bool" where
  "taken F k b \<longleftrightarrow> 0 \<le> tk_time k \<and> tk_time k \<le> max_trading_sec \<and> 0 < tk_date k \<and> \<not> daily_goes_back k (from_clock (tk_time k)) b \<and>
     price_ok F (tk_last k) \<and> daily_restored_accepts k b \<and> daily_basis_ok F k b"

fun taken_ticks :: "('d, 'm) fp_scheme \<Rightarrow> 'd dz_tick list \<Rightarrow> 'd daily \<Rightarrow> 'd dz_tick list" where
  "taken_ticks F [] b = []"
| "taken_ticks F (k # ks) b = (if taken F k b then [k] else []) @ taken_ticks F ks (fst (daily_tick F k b))"

text \<open>The last ticks of the days that are followed by a tick of another day.\<close>

fun day_ends :: "'d dz_tick list \<Rightarrow> 'd dz_tick list" where
  "day_ends (k # l # ks) = (if tk_date k \<noteq> tk_date l then k # day_ends (l # ks) else day_ends (l # ks))"
| "day_ends ks = []"

fun closed_bars :: "'d bar_event list \<Rightarrow> 'd bar list" where
  "closed_bars [] = []"
| "closed_bars (Bar_Close x a # es) = x # closed_bars es"
| "closed_bars (e # es) = closed_bars es"

lemma closed_append [simp]: "closed_bars (es @ fs) = closed_bars es @ closed_bars fs"
  by (induction es rule: closed_bars.induct) simp_all

text \<open>The state after some taken ticks; only the last one is remembered.\<close>

definition shows_tick :: "('d, 'm) fp_scheme \<Rightarrow> 'd dz_tick option \<Rightarrow> 'd daily \<Rightarrow> bool" where
  "shows_tick F k b \<longleftrightarrow> dy_bar b = map_option (day_bar F False) k \<and> (k \<noteq> None \<longrightarrow> dy_restored b = None)"

lemma tick_refused: "\<not> taken F k b \<Longrightarrow> snd (daily_tick F k b) = [] \<and> dy_bar (fst (daily_tick F k b)) = dy_bar b \<and> dy_restored (fst (daily_tick F k b)) = dy_restored b"
  by (auto simp: daily_tick_def taken_def Let_def count_session_def count_order_def count_volume_def daily_goes_back_def daily_restored_accepts_def
      daily_basis_ok_def split: option.splits)

lemma received_same [simp]:
  "daily_goes_back k t (b\<lparr>dy_tick_received := r\<rparr>) = daily_goes_back k t b" "daily_restored_accepts k (b\<lparr>dy_tick_received := r\<rparr>) = daily_restored_accepts k b"
  "daily_basis_ok F k (b\<lparr>dy_tick_received := r\<rparr>) = daily_basis_ok F k b"
  by (simp_all add: daily_goes_back_def daily_restored_accepts_def daily_basis_ok_def split: option.split)

lemma update_day_bar: "tk_date l = tk_date k \<Longrightarrow> daily_update l (from_clock (tk_time l)) (day_bar F False k) = day_bar F False l"
  by (simp add: daily_update_def day_bar_def empty_bar_def)

lemma day_bar_fields [simp]: "br_date (day_bar F f k) = tk_date k" "br_final (day_bar F f k) = f" "(day_bar F f k)\<lparr>br_final := g\<rparr> = day_bar F g k"
  by (simp_all add: day_bar_def daily_update_def empty_bar_def)

lemma fresh_day_bar: "daily_update k (from_clock (tk_time k)) (empty_bar F (tk_date k) 0 0) = day_bar F False k"
  by (simp add: day_bar_def daily_update_def empty_bar_def)

lemma tick_taken:
  assumes "taken F l b" "shows_tick F k b"
  shows "shows_tick F (Some l) (fst (daily_tick F l b)) \<and>
     closed_bars (snd (daily_tick F l b)) = (case k of None \<Rightarrow> [] | Some k \<Rightarrow> if tk_date k \<noteq> tk_date l then [day_bar F True k] else [])"
proof -
  have t: "daily_tick F l b = (case daily_take F l (from_clock (tk_time l)) (b\<lparr>dy_tick_received := True\<rparr>) of
      (b', es) \<Rightarrow> (b', es @ (case dy_bar b' of None \<Rightarrow> [] | Some x \<Rightarrow> [Bar_Update x False])))"
    using assms(1) by (simp add: daily_tick_def taken_def Let_def)
  show ?thesis
  proof (cases k)
    case None
    then show ?thesis using assms(2) by (simp add: t daily_take_def daily_begin_def fresh_day_bar shows_tick_def Let_def)
  next
    case (Some k0)
    then show ?thesis using assms(2) update_day_bar [of l k0 F]
      by (auto simp: t daily_take_def daily_begin_def fresh_day_bar shows_tick_def Let_def)
  qed
qed

text \<open>The last of some ticks, and what it closes.\<close>

definition last_of :: "'d dz_tick option \<Rightarrow> 'd dz_tick list \<Rightarrow> 'd dz_tick option" where
  "last_of k ks = (if ks = [] then k else Some (last ks))"

lemma daily_run:
  "shows_tick F k b \<Longrightarrow>
   dy_bar (fst (daily_ticks F ks b)) = map_option (day_bar F False) (last_of k (taken_ticks F ks b)) \<and>
   closed_bars (snd (daily_ticks F ks b)) =
     map (day_bar F True) (day_ends ((case k of None \<Rightarrow> [] | Some k \<Rightarrow> [k]) @ taken_ticks F ks b))"
proof (induction ks arbitrary: b k)
  case Nil
  then show ?case by (simp add: shows_tick_def last_of_def split: option.split)
next
  case (Cons l ks)
  show ?case
  proof (cases "taken F l b")
    case True
    note t = tick_taken [OF True Cons.prems]
    show ?thesis using Cons.IH [of "Some l" "fst (daily_tick F l b)"] t True by (auto simp: case_prod_beta last_of_def split: option.split)
  next
    case False
    have "shows_tick F k (fst (daily_tick F l b))" using tick_refused [OF False] Cons.prems by (simp add: shows_tick_def)
    then show ?thesis using Cons.IH [of k "fst (daily_tick F l b)"] tick_refused [OF False] False by (simp add: case_prod_beta)
  qed
qed

text \<open>
  C27: over any ticks, the daily bars that are closed and the one that is forming are exactly what the accepted ticks that
  end the days say: nothing of the earlier ticks of a day is mixed in, no day is closed twice and none is left out.
\<close>

theorem daily_bars_exact:
  "(closed_bars (snd (daily_ticks F ks new_daily)), dy_bar (fst (daily_ticks F ks new_daily))) =
   (map (day_bar F True) (day_ends (taken_ticks F ks new_daily)),
    map_option (day_bar F False) (last_of None (taken_ticks F ks new_daily)))"
  using daily_run [of F None new_daily ks] by (simp add: shows_tick_def new_daily_def)

lemma sample_days:
  "(map br_date (closed_bars (snd (daily_ticks rat_fp sample_ticks new_daily))), map_option br_date (dy_bar (fst (daily_ticks rat_fp sample_ticks new_daily))),
    map tk_volume (taken_ticks rat_fp sample_ticks new_daily)) = ([3], Some 4, [5, 9, 10, 2])"
  by code_simp

end
