(* ===== verification/Td_Tables.thy ===== *)
theory Td_Tables
  imports Td_Session
begin

text \<open>
  The tables of the trading database as the gateway's writer changes them (\<open>apps/ctp/td/td_persist_writer.cpp\<close>,
  \<open>td_persist_rows.cpp\<close>): each table is a map from its business key, which the schema of \<open>libs/tdstore\<close> declares
  unique, to the last row written for it. The statement is always the same upsert: all columns that are not in the key
  take the new values, so a row replaces the row with the same key.
\<close>

section \<open>Rows\<close>

record 'd position_row =
  pw_account_id :: string
  pw_date :: string
  pw_instrument_id :: string
  pw_exchange_id :: string
  pw_direction :: int
  pw_volume :: int
  pw_frozen_volume :: int
  pw_today_volume :: int
  pw_yd_volume :: int
  pw_price :: 'd
  pw_seq :: int
  pw_gateway :: string

record 'd account_row =
  aw_account_id :: string
  aw_date :: string
  aw_balance :: 'd
  aw_available :: 'd
  aw_frozen :: 'd
  aw_commission :: 'd
  aw_margin :: 'd
  aw_withdraw_quota :: 'd
  aw_deposit :: 'd
  aw_withdraw :: 'd
  aw_seq :: int
  aw_gateway :: string

definition bind_position :: "'d position_info \<Rightarrow> string \<Rightarrow> string \<Rightarrow> 'd position_row" where
  "bind_position r date gateway =
     \<lparr>pw_account_id = pi_account_id r, pw_date = date, pw_instrument_id = pi_instrument_id r, pw_exchange_id = pi_exchange_id r,
      pw_direction = pi_direction r, pw_volume = pi_volume r, pw_frozen_volume = pi_frozen_volume r,
      pw_today_volume = pi_today_volume r, pw_yd_volume = pi_yd_volume r, pw_price = pi_price r,
      pw_seq = i64_of_u64 (pi_seq r), pw_gateway = gateway\<rparr>"

definition bind_trading_account :: "'d trading_account \<Rightarrow> string \<Rightarrow> string \<Rightarrow> 'd account_row" where
  "bind_trading_account r date gateway =
     \<lparr>aw_account_id = ta_account_id r, aw_date = date, aw_balance = ta_balance r, aw_available = ta_available r,
      aw_frozen = ta_frozen r, aw_commission = ta_commission r, aw_margin = ta_margin r, aw_withdraw_quota = ta_withdraw_quota r,
      aw_deposit = ta_deposit r, aw_withdraw = ta_withdraw r, aw_seq = i64_of_u64 (ta_seq r), aw_gateway = gateway\<rparr>"

text \<open>\<open>format_date\<close>: the conversion to a day of 32 bits, then the text of the calendar date.\<close>

definition format_date :: "int \<Rightarrow> string" where
  "format_date days = (case civil (i32 days) of (y, m, d) \<Rightarrow> pad_int 4 y @ pad0 2 m @ pad_int 2 d)"

section \<open>Tables\<close>

type_synonym order_key = "string \<times> string \<times> int"
type_synonym trade_key = "string \<times> string \<times> string \<times> string"
type_synonym position_key = "string \<times> string \<times> string \<times> int"

record 'd tables =
  tb_orders :: "(order_key \<times> 'd order_row) list"
  tb_trades :: "(trade_key \<times> 'd trade_row) list"
  tb_positions :: "(position_key \<times> 'd position_row) list"
  tb_accounts :: "((string \<times> string) \<times> 'd account_row) list"
  tb_instruments :: "(string \<times> 'd instrument_record) list"

definition no_rows :: "'d tables" where
  "no_rows = \<lparr>tb_orders = [], tb_trades = [], tb_positions = [], tb_accounts = [], tb_instruments = []\<rparr>"

definition order_key_of :: "'d order_row \<Rightarrow> order_key" where
  "order_key_of w = (ow_account_id w, ow_date w, ow_order_id w)"

definition trade_key_of :: "'d trade_row \<Rightarrow> trade_key" where
  "trade_key_of w = (tw_account_id w, tw_date w, tw_exchange_id w, tw_trade_id w)"

definition position_key_of :: "'d position_row \<Rightarrow> position_key" where
  "position_key_of w = (pw_account_id w, pw_date w, pw_instrument_id w, pw_direction w)"

definition upsert_order :: "'d order_row \<Rightarrow> 'd tables \<Rightarrow> 'd tables" where
  "upsert_order w t = t\<lparr>tb_orders := AList.update (order_key_of w) w (tb_orders t)\<rparr>"

definition upsert_trade :: "'d trade_row \<Rightarrow> 'd tables \<Rightarrow> 'd tables" where
  "upsert_trade w t = t\<lparr>tb_trades := AList.update (trade_key_of w) w (tb_trades t)\<rparr>"

definition upsert_position :: "'d position_row \<Rightarrow> 'd tables \<Rightarrow> 'd tables" where
  "upsert_position w t = t\<lparr>tb_positions := AList.update (position_key_of w) w (tb_positions t)\<rparr>"

definition upsert_account :: "'d account_row \<Rightarrow> 'd tables \<Rightarrow> 'd tables" where
  "upsert_account w t = t\<lparr>tb_accounts := AList.update (aw_account_id w, aw_date w) w (tb_accounts t)\<rparr>"

definition upsert_instrument :: "'d instrument_record \<Rightarrow> 'd tables \<Rightarrow> 'd tables" where
  "upsert_instrument r t = t\<lparr>tb_instruments := AList.update (ir_instrument_id r) r (tb_instruments t)\<rparr>"

definition delete_positions :: "string \<Rightarrow> string \<Rightarrow> 'd tables \<Rightarrow> 'd tables" where
  "delete_positions account date t =
     t\<lparr>tb_positions := filter (\<lambda>(k, w). \<not> (pw_account_id w = account \<and> pw_date w = date)) (tb_positions t)\<rparr>"

text \<open>What one task of an account does in the transaction of its batch.\<close>

fun exec_task :: "string \<Rightarrow> string \<Rightarrow> 'd task \<Rightarrow> 'd tables \<Rightarrow> 'd tables" where
  "exec_task gateway account (Order_Task r) t = upsert_order (bind_order r gateway) t"
| "exec_task gateway account (Trade_Task r) t = upsert_trade (bind_trade r gateway) t"
| "exec_task gateway account (Instrument_Task r) t = upsert_instrument r t"
| "exec_task gateway account (Position_Task p day) t = upsert_position (bind_position p (format_date day) gateway) t"
| "exec_task gateway account (Account_Task a day) t = upsert_account (bind_trading_account a (format_date day) gateway) t"
| "exec_task gateway account (Rebuild_Task ps day) t =
     fold (\<lambda>p. upsert_position (bind_position p (format_date day) gateway)) ps (delete_positions account (format_date day) t)"

section \<open>What a table holds\<close>

lemma order_key_bind: "order_key_of (bind_order r g) = (or_account_id (orec_base r), orec_trading_day r, or_order_id (orec_base r))"
  by (simp add: order_key_of_def bind_order_def Let_def)

lemma position_key_bind: "position_key_of (bind_position p date g) = (pi_account_id p, date, pi_instrument_id p, pi_direction p)"
  by (simp add: position_key_of_def bind_position_def)

lemma upsert_position_orders [simp]: "tb_orders (fold (\<lambda>p. upsert_position (f p)) ps t) = tb_orders t"
  by (induction ps arbitrary: t) (simp_all add: upsert_position_def)

text \<open>Only orders touch the table of orders; the last one of a key wins.\<close>

fun last_order :: "order_key \<Rightarrow> 'd order_record option \<Rightarrow> 'd task list \<Rightarrow> 'd order_record option" where
  "last_order k x [] = x"
| "last_order k x (Order_Task r # ts) =
     last_order k (if (or_account_id (orec_base r), orec_trading_day r, or_order_id (orec_base r)) = k then Some r else x) ts"
| "last_order k x (u # ts) = last_order k x ts"

lemma exec_orders:
  assumes "map_of (tb_orders t) k = map_option (\<lambda>r. bind_order r g) x"
  shows "map_of (tb_orders (fold (\<lambda>(a, u). exec_task g a u) us t)) k = map_option (\<lambda>r. bind_order r g) (last_order k x (map snd us))"
  using assms
proof (induction us arbitrary: t x)
  case (Cons au us)
  obtain a u where au: "au = (a, u)" by (cases au)
  have "map_of (tb_orders (exec_task g a u t)) k = map_option (\<lambda>r. bind_order r g)
      (case u of Order_Task r \<Rightarrow> if (or_account_id (orec_base r), orec_trading_day r, or_order_id (orec_base r)) = k then Some r else x | _ \<Rightarrow> x)"
    using Cons.prems
    by (cases u) (simp_all add: upsert_order_def order_key_bind upsert_trade_def upsert_instrument_def upsert_position_def upsert_account_def delete_positions_def)
  from Cons.IH [OF this] show ?case by (cases u) (simp_all add: au)
qed simp

text \<open>A row of an account and a day that a rebuild did not write is gone after it.\<close>

definition keyed :: "'d tables \<Rightarrow> bool" where
  "keyed t \<longleftrightarrow> (\<forall>(k, w) \<in> set (tb_positions t). k = position_key_of w)"

lemma keyed_update: "\<forall>(k, w) \<in> set m. k = f w \<Longrightarrow> \<forall>(k, w) \<in> set (AList.update (f v) v m). k = f w"
  by (induction m) auto

lemma keyed_upsert: "keyed t \<Longrightarrow> keyed (upsert_position w t)"
  unfolding keyed_def upsert_position_def using keyed_update [of "tb_positions t" position_key_of w] by simp

lemma keyed_upserts: "keyed t \<Longrightarrow> keyed (fold (\<lambda>p. upsert_position (f p)) ps t)"
  by (induction ps arbitrary: t) (simp_all add: keyed_upsert)

lemma keyed_exec:
  assumes "keyed t"
  shows "keyed (exec_task g a u t)"
proof (cases u)
  case (Position_Task p day)
  then show ?thesis by (simp add: keyed_upsert [OF assms])
next
  case (Rebuild_Task ps day)
  have "keyed (delete_positions a (format_date day) t)" using assms by (auto simp: keyed_def delete_positions_def)
  then show ?thesis by (simp add: Rebuild_Task keyed_upserts)
qed (use assms in \<open>simp_all add: keyed_def upsert_order_def upsert_trade_def upsert_instrument_def upsert_account_def\<close>)

fun last_position :: "position_key \<Rightarrow> string \<Rightarrow> 'd position_info option \<Rightarrow> 'd position_info list \<Rightarrow> 'd position_info option" where
  "last_position k date x [] = x"
| "last_position k date x (p # ps) =
     last_position k date (if (pi_account_id p, date, pi_instrument_id p, pi_direction p) = k then Some p else x) ps"

lemma upserts_positions:
  assumes "map_of (tb_positions t) k = map_option (\<lambda>p. bind_position p date g) x"
  shows "map_of (tb_positions (fold (\<lambda>p. upsert_position (bind_position p date g)) ps t)) k =
    map_option (\<lambda>p. bind_position p date g) (last_position k date x ps)"
  using assms by (induction ps arbitrary: t x) (simp_all add: upsert_position_def position_key_bind)

lemma deleted_positions:
  assumes "keyed t"
  shows "map_of (tb_positions (delete_positions a date t)) (a, date, i, d) = None"
proof -
  have "(a, date, i, d) \<notin> fst ` set (tb_positions (delete_positions a date t))"
    using assms by (fastforce simp: keyed_def delete_positions_def position_key_of_def)
  then show ?thesis by (simp add: map_of_eq_None_iff)
qed

lemma rebuilt_positions:
  assumes "keyed t"
  shows "map_of (tb_positions (exec_task g a (Rebuild_Task ps day) t)) (a, format_date day, i, d) =
    map_option (\<lambda>p. bind_position p (format_date day) g) (last_position (a, format_date day, i, d) (format_date day) None ps)"
  using upserts_positions [of "delete_positions a (format_date day) t" "(a, format_date day, i, d)" "format_date day" g None ps]
    deleted_positions [OF assms] by simp

end
