(* ===== verification/Td_Persist.thy ===== *)
theory Td_Persist
  imports Td_Tables
begin

text \<open>
  The thread that writes the trading database (\<open>apps/ctp/td/td_persist_writer.cpp\<close>): any thread queues tasks and flush
  signals, the writer takes the whole queue as a batch, commits it in one transaction and retries it until it
  succeeds or the process stops. The state holds what the mutex protects, what the writer's thread owns and where in its
  loop that thread is; one step takes it to the next point where it waits or locks. The answers of SQLite, of the file
  system and of the clock come with the step. Texts of errors are left out, and a notification is its kind.

  Four fields are not in the program: everything accepted so far, everything committed so far, the position of every flush
  signal among the accepted, and the contents of the file when it was opened first with what was committed since.
\<close>

section \<open>State\<close>

datatype 'd job = Job string "'d task" | Flush_Signal nat

datatype place = Not_Started | At_Top | At_Take | At_Commit | At_Signal | At_Open_Wait | At_Retry_Wait | At_Last_Try | At_Last_Signal | At_Exit | Gone

datatype notice = Persist_Failed | Still_Failing | Recovered | Db_Rebuilt | Backlog

record persist_policy =
  po_delays :: "int list"
  po_interval :: int
  po_threshold :: nat

record 'd db_file =
  df_version :: int
  df_tables :: "'d tables"

record 'd writer =
  pq_file :: "'d db_file option"
  pq_connected :: bool
  pq_rebuilds :: nat
  pq_queue :: "'d job list"
  pq_batch :: "'d job list"
  pq_place :: place
  pq_attempt :: nat
  pq_delay :: int
  pq_opened :: bool
  pq_running :: bool
  pq_shutdown :: bool
  pq_started :: bool
  pq_exited :: bool
  pq_warned :: bool
  pq_next_token :: nat
  pq_pending :: "(nat \<times> bool) list"
  pq_waits :: "(nat \<times> bool option) list"
  pq_failing :: bool
  pq_last_notify :: int
  pq_notices :: "notice list"
  pq_starts :: nat
  pq_accepted :: "'d job list"
  pq_committed :: "'d job list"
  pq_marks :: "(nat \<times> nat) list"
  pq_origin :: "'d tables"
  pq_since :: "'d job list"

definition new_writer :: "'d db_file option \<Rightarrow> 'd writer" where
  "new_writer f =
     \<lparr>pq_file = f, pq_connected = False, pq_rebuilds = 0, pq_queue = [], pq_batch = [], pq_place = Not_Started, pq_attempt = 0,
      pq_delay = 0, pq_opened = False, pq_running = False, pq_shutdown = False, pq_started = False, pq_exited = False,
      pq_warned = False, pq_next_token = 1, pq_pending = [], pq_waits = [], pq_failing = False, pq_last_notify = 0,
      pq_notices = [], pq_starts = 0, pq_accepted = [], pq_committed = [], pq_marks = [],
      pq_origin = (case f of None \<Rightarrow> no_rows | Some d \<Rightarrow> df_tables d), pq_since = []\<rparr>"

section \<open>Queueing and waiting\<close>

definition add_job :: "'d job \<Rightarrow> 'd writer \<Rightarrow> 'd writer" where
  "add_job j s = s\<lparr>pq_queue := pq_queue s @ [j], pq_accepted := pq_accepted s @ [j]\<rparr>"

definition notify :: "notice \<Rightarrow> 'd writer \<Rightarrow> 'd writer" where
  "notify n s = s\<lparr>pq_notices := pq_notices s @ [n]\<rparr>"

definition enqueue :: "persist_policy \<Rightarrow> string \<Rightarrow> 'd task \<Rightarrow> 'd writer \<Rightarrow> 'd writer" where
  "enqueue P account t s =
     (if pq_shutdown s then s
      else let s1 = add_job (Job account t) s; n = length (pq_queue s1); most = po_threshold P
           in if \<not> pq_warned s \<and> 0 < most \<and> most \<le> n then notify Backlog (s1\<lparr>pq_warned := True\<rparr>)
              else if pq_warned s \<and> 0 < most \<and> n < most div 2 then s1\<lparr>pq_warned := False\<rparr>
              else s1)"

definition enqueue_flush_signal :: "'d writer \<Rightarrow> nat \<times> 'd writer" where
  "enqueue_flush_signal s =
     (let token = pq_next_token s; s1 = s\<lparr>pq_next_token := token + 1\<rparr>
      in (token,
          if pq_shutdown s then s1
          else add_job (Flush_Signal token)
            (s1\<lparr>pq_pending := AList.update token False (pq_pending s1), pq_marks := AList.update token (length (pq_accepted s1)) (pq_marks s1)\<rparr>)))"

text \<open>
  \<open>wait_flush\<close> looks the token up and then waits without the lock. A token that is not there counts as committed; the
  future of a promise can be taken only once, a second call throws.
\<close>

datatype wait_start = Already | Waiting | Future_Taken

definition begin_wait :: "nat \<Rightarrow> 'd writer \<Rightarrow> wait_start \<times> 'd writer" where
  "begin_wait token s =
     (case map_of (pq_pending s) token of
        None \<Rightarrow> (Already, s\<lparr>pq_waits := AList.update token (Some True) (pq_waits s)\<rparr>)
      | Some taken \<Rightarrow>
          if taken then (Future_Taken, s)
          else (Waiting, s\<lparr>pq_pending := AList.update token True (pq_pending s), pq_waits := AList.update token None (pq_waits s)\<rparr>))"

definition answer_wait :: "bool \<Rightarrow> nat \<Rightarrow> 'd writer \<Rightarrow> 'd writer" where
  "answer_wait v token s =
     (if map_of (pq_waits s) token = Some None then s\<lparr>pq_waits := AList.update token (Some v) (pq_waits s)\<rparr> else s)"

section \<open>Notifications\<close>

definition note_failure :: "persist_policy \<Rightarrow> int \<Rightarrow> 'd writer \<Rightarrow> 'd writer" where
  "note_failure P now s =
     (if \<not> pq_failing s then notify Persist_Failed (s\<lparr>pq_failing := True, pq_last_notify := now\<rparr>)
      else if po_interval P \<le> now - pq_last_notify s then notify Still_Failing (s\<lparr>pq_last_notify := now\<rparr>)
      else s)"

definition note_recovered :: "'d writer \<Rightarrow> 'd writer" where
  "note_recovered s = (if pq_failing s then notify Recovered (s\<lparr>pq_failing := False\<rparr>) else s)"

section \<open>Opening the database\<close>

text \<open>
  \<open>ensure_trade_db\<close> of \<open>libs/tdstore/src/trade_db.cpp\<close>: a missing file is created, a readable one of the right
  version kept, any other moved away and replaced. \<open>None\<close> is an exception; a failed creation may leave an
  empty file behind, a failed move of the side files leaves no file.
\<close>

datatype probe = Probe_Version | Probe_Corrupt | Probe_Retry

record open_answers =
  oa_exists_error :: bool
  oa_regular :: "bool option"
  oa_probe :: probe
  oa_renamed :: bool
  oa_sidecars :: bool
  oa_created :: bool
  oa_leftover :: bool
  oa_ensured :: bool
  oa_connected :: bool

datatype init_status = Created | Existing | Rebuilt

definition schema_version :: int where
  "schema_version = 1"

definition create_new :: "open_answers \<Rightarrow> bool \<times> 'd db_file option" where
  "create_new A =
     (if oa_created A then (True, Some \<lparr>df_version = schema_version, df_tables = no_rows\<rparr>)
      else (False, if oa_leftover A then Some \<lparr>df_version = 0, df_tables = no_rows\<rparr> else None))"

definition ensure_trade_db :: "open_answers \<Rightarrow> 'd db_file option \<Rightarrow> init_status option \<times> 'd db_file option" where
  "ensure_trade_db A f =
     (if oa_exists_error A then (None, f)
      else case f of
        None \<Rightarrow> (case create_new A of (ok, f') \<Rightarrow> (if ok then Some Created else None, f'))
      | Some d \<Rightarrow>
          if oa_regular A \<noteq> Some True \<or> oa_probe A = Probe_Retry then (None, f)
          else if oa_probe A = Probe_Version \<and> df_version d = schema_version
          then (if oa_ensured A then Some Existing else None, f)
          else if \<not> oa_renamed A then (None, f)
          else if \<not> oa_sidecars A then (None, None)
          else (case create_new A of (ok, f') \<Rightarrow> (if ok then Some Rebuilt else None, f')))"

definition close_connection :: "'d writer \<Rightarrow> 'd writer" where
  "close_connection s = s\<lparr>pq_connected := False\<rparr>"

text \<open>The contents of another file are another beginning.\<close>

definition put_file :: "'d db_file option \<Rightarrow> 'd writer \<Rightarrow> 'd writer" where
  "put_file f s =
     (if map_option df_tables f = map_option df_tables (pq_file s) then s\<lparr>pq_file := f\<rparr>
      else s\<lparr>pq_file := f, pq_origin := (case f of None \<Rightarrow> no_rows | Some d \<Rightarrow> df_tables d), pq_since := []\<rparr>)"

definition try_open :: "open_answers \<Rightarrow> int \<Rightarrow> 'd writer \<Rightarrow> bool \<times> 'd writer" where
  "try_open A now s =
     (case ensure_trade_db A (pq_file s) of
        (status, f) \<Rightarrow>
          let s1 = put_file f (close_connection s);
              s2 = (if status = Some Rebuilt \<and> \<not> pq_failing s1
                    then notify Db_Rebuilt (s1\<lparr>pq_failing := True, pq_last_notify := now\<rparr>) else s1)
          in if status \<noteq> None \<and> oa_connected A then (True, s2\<lparr>pq_connected := True\<rparr>) else (False, s2))"

definition open_writer :: "persist_policy \<Rightarrow> open_answers \<Rightarrow> int \<Rightarrow> 'd writer \<Rightarrow> 'd writer" where
  "open_writer P A now s =
     (if pq_opened s then s
      else case try_open A now (s\<lparr>pq_opened := True\<rparr>) of (ok, s1) \<Rightarrow> if ok then s1 else note_failure P now s1)"

section \<open>Batches\<close>

datatype commit_answer = Commit_Ok | Commit_Failed | Commit_Corrupt

fun exec_job :: "string \<Rightarrow> 'd job \<Rightarrow> 'd tables \<Rightarrow> 'd tables" where
  "exec_job g (Job a t) = exec_task g a t"
| "exec_job g (Flush_Signal n) = id"

definition max_corruption_rebuilds :: nat where
  "max_corruption_rebuilds = 3"

definition handle_corruption :: "'d writer \<Rightarrow> 'd writer" where
  "handle_corruption s =
     (if max_corruption_rebuilds \<le> pq_rebuilds s then s else close_connection (s\<lparr>pq_rebuilds := pq_rebuilds s + 1\<rparr>))"

definition commit_batch :: "string \<Rightarrow> commit_answer \<Rightarrow> 'd writer \<Rightarrow> bool \<times> 'd writer" where
  "commit_batch g A s =
     (if \<not> pq_connected s then (False, s)
      else case A of
        Commit_Ok \<Rightarrow>
          (True, s\<lparr>pq_file := map_option (\<lambda>d. d\<lparr>df_tables := fold (exec_job g) (pq_batch s) (df_tables d)\<rparr>) (pq_file s),
                   pq_committed := pq_committed s @ pq_batch s, pq_since := pq_since s @ pq_batch s\<rparr>)
      | Commit_Failed \<Rightarrow> (False, s)
      | Commit_Corrupt \<Rightarrow> (False, handle_corruption s))"

definition signal_token :: "nat \<Rightarrow> 'd writer \<Rightarrow> 'd writer" where
  "signal_token token s =
     (if map_of (pq_pending s) token \<noteq> None then answer_wait True token (s\<lparr>pq_pending := AList.delete token (pq_pending s)\<rparr>) else s)"

definition signal_flush_tokens :: "'d job list \<Rightarrow> 'd writer \<Rightarrow> 'd writer" where
  "signal_flush_tokens batch = fold (\<lambda>j. case j of Flush_Signal n \<Rightarrow> signal_token n | Job a t \<Rightarrow> id) batch"

definition fail_pending_flush_waiters :: "'d writer \<Rightarrow> 'd writer" where
  "fail_pending_flush_waiters s = (fold (answer_wait False) (keys (pq_pending s)) s)\<lparr>pq_pending := []\<rparr>"

section \<open>The thread\<close>

definition retry_delay :: "persist_policy \<Rightarrow> nat \<Rightarrow> int" where
  "retry_delay P attempt = (if po_delays P = [] then 30000 else po_delays P ! min attempt (length (po_delays P) - 1))"

text \<open>A wait between two attempts begins; it ends when the delay is over or the process stops.\<close>

definition begin_retry :: "persist_policy \<Rightarrow> place \<Rightarrow> 'd writer \<Rightarrow> 'd writer" where
  "begin_retry P l s = s\<lparr>pq_delay := retry_delay P (pq_attempt s), pq_attempt := pq_attempt s + 1, pq_place := l\<rparr>"

definition take_batch :: "'d writer \<Rightarrow> 'd writer" where
  "take_batch s =
     (if pq_queue s \<noteq> [] then s\<lparr>pq_batch := pq_batch s @ pq_queue s, pq_queue := [], pq_place := At_Commit\<rparr>
      else if pq_running s then s
      else s\<lparr>pq_place := At_Exit\<rparr>)"

definition batch_done :: "'d writer \<Rightarrow> 'd writer" where
  "batch_done s = (note_recovered (signal_flush_tokens (pq_batch s) s))\<lparr>pq_rebuilds := 0, pq_batch := [], pq_place := At_Top\<rparr>"

definition leave_loop :: "'d writer \<Rightarrow> 'd writer" where
  "leave_loop s = (close_connection (fail_pending_flush_waiters s))\<lparr>pq_exited := True, pq_place := Gone\<rparr>"

record writer_answers =
  wa_open :: open_answers
  wa_commit :: commit_answer
  wa_now :: int

fun writer_loop :: "persist_policy \<Rightarrow> string \<Rightarrow> writer_answers \<Rightarrow> place \<Rightarrow> 'd writer \<Rightarrow> 'd writer" where
  "writer_loop P g A At_Top s =
     (if pq_connected s then s\<lparr>pq_place := (if pq_batch s = [] then At_Take else At_Commit)\<rparr>
      else case try_open (wa_open A) (wa_now A) s of
        (ok, s1) \<Rightarrow>
          if ok then s1\<lparr>pq_attempt := 0, pq_place := (if pq_batch s1 = [] then At_Take else At_Commit)\<rparr>
          else begin_retry P At_Open_Wait (note_failure P (wa_now A) s1))"
| "writer_loop P g A At_Take s = take_batch s"
| "writer_loop P g A At_Commit s =
     (case commit_batch g (wa_commit A) s of
        (ok, s1) \<Rightarrow> if ok then s1\<lparr>pq_place := At_Signal\<rparr> else begin_retry P At_Retry_Wait (note_failure P (wa_now A) s1))"
| "writer_loop P g A At_Signal s = (batch_done s)\<lparr>pq_attempt := 0\<rparr>"
| "writer_loop P g A At_Open_Wait s = s\<lparr>pq_place := (if pq_running s then At_Top else At_Exit)\<rparr>"
| "writer_loop P g A At_Retry_Wait s = s\<lparr>pq_place := (if pq_running s then At_Top else At_Last_Try)\<rparr>"
| "writer_loop P g A At_Last_Try s =
     (case commit_batch g (wa_commit A) s of (ok, s1) \<Rightarrow> s1\<lparr>pq_place := (if ok then At_Last_Signal else At_Exit)\<rparr>)"
| "writer_loop P g A At_Last_Signal s = batch_done s"
| "writer_loop P g A At_Exit s = leave_loop s"
| "writer_loop P g A Not_Started s = s"
| "writer_loop P g A Gone s = s"

definition start_writer :: "'d writer \<Rightarrow> 'd writer" where
  "start_writer s =
     (if pq_started s \<or> \<not> pq_opened s then s
      else s\<lparr>pq_running := True, pq_exited := False, pq_started := True, pq_batch := [], pq_attempt := 0, pq_place := At_Top,
             pq_starts := pq_starts s + 1\<rparr>)"

text \<open>\<open>stop\<close> up to where it waits for the thread, and after that.\<close>

definition stop_writer :: "'d writer \<Rightarrow> 'd writer" where
  "stop_writer s =
     (if pq_started s then s\<lparr>pq_running := False, pq_shutdown := True\<rparr> else close_connection (s\<lparr>pq_shutdown := True\<rparr>))"

definition join_writer :: "'d writer \<Rightarrow> 'd writer" where
  "join_writer s = (if pq_started s \<and> pq_shutdown s \<and> pq_exited s then (close_connection s)\<lparr>pq_started := False\<rparr> else s)"

datatype 'd writer_event =
    Ev_Open open_answers int
  | Ev_Start
  | Ev_Task string "'d task"
  | Ev_Flush
  | Ev_Wait nat
  | Ev_Timeout nat
  | Ev_Stop
  | Ev_Join
  | Ev_Writer writer_answers

text \<open>A caller waits for tokens it was given.\<close>

fun persist_step :: "persist_policy \<Rightarrow> string \<Rightarrow> 'd writer \<Rightarrow> 'd writer_event \<Rightarrow> 'd writer" where
  "persist_step P g s (Ev_Open A now) = open_writer P A now s"
| "persist_step P g s Ev_Start = start_writer s"
| "persist_step P g s (Ev_Task a t) = enqueue P a t s"
| "persist_step P g s Ev_Flush = snd (enqueue_flush_signal s)"
| "persist_step P g s (Ev_Wait n) = (if n < pq_next_token s then snd (begin_wait n s) else s)"
| "persist_step P g s (Ev_Timeout n) = answer_wait False n s"
| "persist_step P g s Ev_Stop = stop_writer s"
| "persist_step P g s Ev_Join = join_writer s"
| "persist_step P g s (Ev_Writer A) = writer_loop P g A (pq_place s) s"

definition persist_run :: "persist_policy \<Rightarrow> string \<Rightarrow> 'd writer_event list \<Rightarrow> 'd writer \<Rightarrow> 'd writer" where
  "persist_run P g es s = foldl (persist_step P g) s es"

end
