(* ===== verification/Td_Persist_Facts.thy ===== *)
theory Td_Persist_Facts
  imports Td_Persist
begin

text \<open>
  What holds of the writer of the database in every reachable state: nothing is lost, doubled or reordered on its way into
  the file, a flush that was reported was committed, and a stop with a working connection leaves nothing behind.
\<close>

section \<open>Order\<close>

text \<open>What was accepted and is not committed yet.\<close>

definition unsaved :: "'d writer \<Rightarrow> 'd job list" where
  "unsaved s = (if pq_place s = At_Signal \<or> pq_place s = At_Last_Signal then [] else pq_batch s) @ pq_queue s"

lemmas notice_defs = notify_def note_failure_def note_recovered_def begin_retry_def close_connection_def put_file_def

text \<open>Operations that leave the way of the jobs alone.\<close>

definition job_frame :: "'d writer \<Rightarrow> 'd writer \<Rightarrow> bool" where
  "job_frame s s' \<longleftrightarrow> pq_queue s' = pq_queue s \<and> pq_batch s' = pq_batch s \<and> pq_accepted s' = pq_accepted s \<and>
     pq_committed s' = pq_committed s \<and> pq_marks s' = pq_marks s \<and> pq_starts s' = pq_starts s \<and>
     pq_next_token s' = pq_next_token s \<and> pq_running s' = pq_running s \<and> pq_started s' = pq_started s \<and>
     pq_shutdown s' = pq_shutdown s"

definition wait_frame :: "'d writer \<Rightarrow> 'd writer \<Rightarrow> bool" where
  "wait_frame s s' \<longleftrightarrow> job_frame s s' \<and> pq_exited s' = pq_exited s \<and> pq_pending s' = pq_pending s \<and> pq_waits s' = pq_waits s"

lemmas frame_defs = wait_frame_def job_frame_def

lemma job_frame_refl [simp]: "job_frame s s" "wait_frame s s"
  by (simp_all add: frame_defs)

lemma frame_notes:
  "wait_frame s (notify m s)" "wait_frame s (note_failure P now s)" "wait_frame s (note_recovered s)" "wait_frame s (close_connection s)"
  "wait_frame s (put_file f s)" "wait_frame s (handle_corruption s)" "wait_frame s (begin_retry P l s)"
  by (simp_all add: frame_defs notice_defs handle_corruption_def)

lemma frame_try_open: "wait_frame s (snd (try_open A now s))"
  by (simp add: frame_defs try_open_def notice_defs Let_def case_prod_beta)

lemma place_notes [simp]:
  "pq_place (notify m s) = pq_place s" "pq_place (note_failure P now s) = pq_place s" "pq_place (note_recovered s) = pq_place s"
  "pq_place (close_connection s) = pq_place s" "pq_place (put_file f s) = pq_place s" "pq_place (handle_corruption s) = pq_place s"
  "pq_place (snd (try_open A now s)) = pq_place s" "pq_place (answer_wait v n s) = pq_place s" "pq_place (signal_token n s) = pq_place s"
  by (simp_all add: notice_defs handle_corruption_def try_open_def Let_def case_prod_beta answer_wait_def signal_token_def)

lemma frame_signal_token: "job_frame s (signal_token n s)"
  by (simp add: job_frame_def signal_token_def answer_wait_def)

lemma frame_signal: "job_frame s (signal_flush_tokens js s)"
  unfolding signal_flush_tokens_def
proof (induction js arbitrary: s)
  case (Cons j js)
  have "job_frame s (case j of Flush_Signal n \<Rightarrow> signal_token n s | Job a t \<Rightarrow> s)" by (cases j) (simp_all add: frame_signal_token)
  then show ?case using Cons.IH [of "case j of Flush_Signal n \<Rightarrow> signal_token n s | Job a t \<Rightarrow> s"] by (cases j) (simp_all add: job_frame_def)
qed simp

lemma frame_answers: "job_frame s (fold (answer_wait v) ns s)"
proof (induction ns arbitrary: s)
  case (Cons n ns)
  have "job_frame s (answer_wait v n s)" by (simp add: job_frame_def answer_wait_def)
  then show ?case using Cons.IH [of "answer_wait v n s"] by (simp add: job_frame_def)
qed simp

definition in_order :: "'d writer \<Rightarrow> bool" where
  "in_order s \<longleftrightarrow> (pq_starts s = 0 \<longrightarrow> pq_batch s = [] \<and> pq_place s = Not_Started \<and> pq_committed s = []) \<and>
     (pq_place s = At_Signal \<or> pq_place s = At_Last_Signal \<longrightarrow> (\<exists>js. pq_committed s = js @ pq_batch s)) \<and>
     (pq_starts s \<le> 1 \<longrightarrow> pq_accepted s = pq_committed s @ unsaved s)"

lemma in_order_frame: "job_frame s s' \<Longrightarrow> pq_place s' = pq_place s \<Longrightarrow> in_order s \<Longrightarrow> in_order s'"
  by (simp add: in_order_def job_frame_def unsaved_def)

lemma in_order_place:
  assumes "in_order s" "job_frame s s'" "pq_starts s \<noteq> 0"
    "pq_place s \<notin> {At_Signal, At_Last_Signal}" "pq_place s' \<notin> {At_Signal, At_Last_Signal}"
  shows "in_order s'"
  using assms by (simp add: in_order_def job_frame_def unsaved_def)

lemma in_order_commit:
  assumes "in_order s" "commit_batch g A s = (True, s')" "pq_starts s \<noteq> 0" "pq_place s \<notin> {At_Signal, At_Last_Signal}" "l \<in> {At_Signal, At_Last_Signal}"
  shows "in_order (s'\<lparr>pq_place := l\<rparr>)"
  using assms by (auto simp: commit_batch_def in_order_def unsaved_def split: if_splits commit_answer.splits)

lemma in_order_done:
  assumes "in_order s" "pq_place s \<in> {At_Signal, At_Last_Signal}" "pq_starts s \<noteq> 0"
  shows "in_order (batch_done s)"
proof -
  have "job_frame s (note_recovered (signal_flush_tokens (pq_batch s) s))"
    using frame_signal [of s "pq_batch s"] frame_notes(3) [of "signal_flush_tokens (pq_batch s) s"] by (simp add: frame_defs)
  then show ?thesis using assms by (auto simp: batch_done_def in_order_def job_frame_def unsaved_def)
qed

lemma commit_failed_frame: "commit_batch g A s = (False, s') \<Longrightarrow> wait_frame s s' \<and> pq_place s' = pq_place s"
  using frame_notes(6) [of s] by (auto simp: commit_batch_def split: if_splits commit_answer.splits)

lemma wait_frame_trans: "wait_frame s t \<Longrightarrow> wait_frame t u \<Longrightarrow> wait_frame s u"
  by (simp add: frame_defs)

lemma job_frame_trans: "job_frame s t \<Longrightarrow> job_frame t u \<Longrightarrow> job_frame s u"
  by (simp add: frame_defs)

text \<open>A step of the thread that neither takes, commits nor reports a batch, by what it does to the place.\<close>

lemma loop_frame:
  assumes "pq_place s \<notin> {At_Take, At_Signal, At_Last_Signal, At_Exit}"
    "pq_place s \<in> {At_Commit, At_Last_Try} \<longrightarrow> \<not> fst (commit_batch g (wa_commit A) s)"
  shows "wait_frame s (writer_loop P g A (pq_place s) s) \<and> pq_place (writer_loop P g A (pq_place s) s) \<notin> {At_Signal, At_Last_Signal}"
proof (cases "pq_place s")
  case At_Top
  obtain ok s1 where o: "try_open (wa_open A) (wa_now A) s = (ok, s1)" by fastforce
  then have f: "wait_frame s s1" using frame_try_open [of s "wa_open A" "wa_now A"] by simp
  have "wait_frame s1 (begin_retry P At_Open_Wait (note_failure P (wa_now A) s1))"
    using wait_frame_trans [OF frame_notes(2) frame_notes(7)] by blast
  then have "wait_frame s (begin_retry P At_Open_Wait (note_failure P (wa_now A) s1))" using f wait_frame_trans by blast
  then show ?thesis using At_Top o f by (auto simp: frame_defs begin_retry_def)
next
  case At_Commit
  obtain s1 where c: "commit_batch g (wa_commit A) s = (False, s1)" using assms(2) At_Commit by (cases "commit_batch g (wa_commit A) s") simp
  have "wait_frame s (begin_retry P At_Retry_Wait (note_failure P (wa_now A) s1))"
    using commit_failed_frame [OF c] wait_frame_trans [OF wait_frame_trans [OF _ frame_notes(2)] frame_notes(7)] by blast
  then show ?thesis using At_Commit c by (simp add: begin_retry_def)
next
  case At_Last_Try
  obtain s1 where c: "commit_batch g (wa_commit A) s = (False, s1)" using assms(2) At_Last_Try by (cases "commit_batch g (wa_commit A) s") simp
  then show ?thesis using At_Last_Try commit_failed_frame [OF c] by (simp add: frame_defs)
qed (use assms in \<open>simp_all add: frame_defs\<close>)

lemma leave_frame: "job_frame s (leave_loop s) \<and> pq_place (leave_loop s) = Gone"
  using frame_answers [of s False "keys (pq_pending s)"] by (simp add: leave_loop_def fail_pending_flush_waiters_def close_connection_def job_frame_def)

lemma in_order_loop:
  assumes "in_order s"
  shows "in_order (writer_loop P g A (pq_place s) s)"
proof (cases "pq_starts s = 0")
  case True
  then show ?thesis using assms by (simp add: in_order_def)
next
  case started: False
  consider "pq_place s = At_Take" | "pq_place s \<in> {At_Signal, At_Last_Signal}" | "pq_place s = At_Exit"
    | s1 where "pq_place s \<in> {At_Commit, At_Last_Try}" "commit_batch g (wa_commit A) s = (True, s1)"
    | "pq_place s \<notin> {At_Take, At_Signal, At_Last_Signal, At_Exit}" "pq_place s \<in> {At_Commit, At_Last_Try} \<longrightarrow> \<not> fst (commit_batch g (wa_commit A) s)"
    by (cases "commit_batch g (wa_commit A) s") auto
  then show ?thesis
  proof cases
    case 1
    then show ?thesis using assms started by (auto simp: take_batch_def in_order_def unsaved_def)
  next
    case 2
    from in_order_done [OF assms 2 started] have "in_order (batch_done s)" .
    moreover from this have "in_order ((batch_done s)\<lparr>pq_attempt := 0\<rparr>)" by (simp add: in_order_def unsaved_def)
    ultimately show ?thesis using 2 by auto
  next
    case 3
    then show ?thesis using in_order_place [OF assms, of "leave_loop s"] leave_frame [of s] started by simp
  next
    case 4
    then show ?thesis using in_order_commit [OF assms 4(2) started] by auto
  next
    case 5
    from loop_frame [OF this, of P] have f: "wait_frame s (writer_loop P g A (pq_place s) s)"
      "pq_place (writer_loop P g A (pq_place s) s) \<notin> {At_Signal, At_Last_Signal}" by auto
    then show ?thesis using in_order_place [OF assms] started 5(1) by (simp add: wait_frame_def)
  qed
qed

text \<open>A job was added, and nothing else that matters to the order.\<close>

definition adds :: "'d job \<Rightarrow> 'd writer \<Rightarrow> 'd writer \<Rightarrow> bool" where
  "adds j s s' \<longleftrightarrow> pq_queue s' = pq_queue s @ [j] \<and> pq_accepted s' = pq_accepted s @ [j] \<and> pq_batch s' = pq_batch s \<and>
     pq_committed s' = pq_committed s \<and> pq_starts s' = pq_starts s \<and> pq_place s' = pq_place s"

lemma in_order_adds:
  assumes "in_order s" "adds j s s'"
  shows "in_order s'"
  using assms by (auto simp: in_order_def unsaved_def adds_def)

lemma adds_enqueue: "\<not> pq_shutdown s \<Longrightarrow> adds (Job a t) s (enqueue P a t s)"
  by (simp add: adds_def enqueue_def Let_def notify_def add_job_def)

lemma adds_flush: "\<not> pq_shutdown s \<Longrightarrow> adds (Flush_Signal (pq_next_token s)) s (snd (enqueue_flush_signal s))"
  by (simp add: adds_def enqueue_flush_signal_def Let_def add_job_def)

lemma in_order_enqueue:
  assumes "in_order s"
  shows "in_order (enqueue P a t s)"
  using assms in_order_adds [OF assms adds_enqueue] by (cases "pq_shutdown s") (simp_all add: enqueue_def)

lemma in_order_flush:
  assumes "in_order s"
  shows "in_order (snd (enqueue_flush_signal s))"
  using assms in_order_adds [OF assms adds_flush]
  by (cases "pq_shutdown s") (simp_all add: enqueue_flush_signal_def Let_def in_order_def unsaved_def)

lemma in_order_step:
  assumes "in_order s"
  shows "in_order (persist_step P g s e)"
proof (cases e)
  case (Ev_Open A now)
  have "job_frame s (open_writer P A now s) \<and> pq_place (open_writer P A now s) = pq_place s"
    using frame_try_open [of "s\<lparr>pq_opened := True\<rparr>" A now] frame_notes(2) [of "snd (try_open A now (s\<lparr>pq_opened := True\<rparr>))" P now]
    by (simp add: open_writer_def case_prod_beta frame_defs)
  then show ?thesis using in_order_frame assms Ev_Open by auto
next
  case (Ev_Task a t)
  then show ?thesis using in_order_enqueue [OF assms] by simp
next
  case (Ev_Writer A)
  then show ?thesis using in_order_loop [OF assms] by simp
qed (use assms in_order_flush [OF assms] in
    \<open>auto simp: in_order_def unsaved_def start_writer_def stop_writer_def join_writer_def close_connection_def begin_wait_def answer_wait_def split: option.split\<close>)

interpretation writer_order: invariant_run "persist_step P g" in_order for P g
  by unfold_locales (rule in_order_step)

lemma in_order_new: "in_order (new_writer f)"
  by (simp add: in_order_def new_writer_def unsaved_def)

section \<open>Flushes\<close>

text \<open>The recorded positions are those of the signals, and nobody waits for a token that was not given out.\<close>

definition marks_ok :: "'d writer \<Rightarrow> bool" where
  "marks_ok s \<longleftrightarrow>
     (\<forall>k n. map_of (pq_marks s) k = Some n \<longrightarrow> n < length (pq_accepted s) \<and> pq_accepted s ! n = Flush_Signal k \<and> k < pq_next_token s) \<and>
     (\<forall>i k. i < length (pq_accepted s) \<longrightarrow> pq_accepted s ! i = Flush_Signal k \<longrightarrow> map_of (pq_marks s) k = Some i) \<and>
     (\<forall>k. map_of (pq_waits s) k \<noteq> None \<longrightarrow> k < pq_next_token s)"

definition told_ok :: "'d writer \<Rightarrow> bool" where
  "told_ok s \<longleftrightarrow> (\<forall>k n. map_of (pq_marks s) k = Some n \<longrightarrow>
     (n < length (pq_committed s) \<or> map_of (pq_pending s) k \<noteq> None) \<and>
     (map_of (pq_waits s) k = Some (Some True) \<longrightarrow> n < length (pq_committed s)))"

definition flush_ok :: "'d writer \<Rightarrow> bool" where
  "flush_ok s \<longleftrightarrow> in_order s \<and> marks_ok s \<and>
     (pq_starts s \<le> 1 \<longrightarrow> (pq_exited s \<longrightarrow> pq_place s = Gone) \<and> (\<not> pq_exited s \<longrightarrow> told_ok s))"

lemma known_keys: "map_of m k \<noteq> None \<longleftrightarrow> k \<in> set (keys m)"
  by (simp add: keys_def map_of_eq_None_iff)

lemma marks_frame:
  assumes "job_frame s s'" "keys (pq_waits s') = keys (pq_waits s)" "marks_ok s"
  shows "marks_ok s'"
proof -
  have e: "pq_marks s' = pq_marks s" "pq_accepted s' = pq_accepted s" "pq_next_token s' = pq_next_token s"
    using assms(1) by (simp_all add: job_frame_def)
  show ?thesis using assms(3) unfolding marks_ok_def known_keys e assms(2) .
qed

lemma marks_same:
  assumes "marks_ok s" "pq_marks s' = pq_marks s" "pq_accepted s' = pq_accepted s" "pq_next_token s' = pq_next_token s" "pq_waits s' = pq_waits s"
  shows "marks_ok s'"
  using assms(1) unfolding marks_ok_def assms(2-5) .

text \<open>The three parts, to use one at a time.\<close>

lemma marks_okD:
  assumes "marks_ok s"
  shows "map_of (pq_marks s) k = Some n \<Longrightarrow> n < length (pq_accepted s) \<and> pq_accepted s ! n = Flush_Signal k \<and> k < pq_next_token s"
    and "i < length (pq_accepted s) \<Longrightarrow> pq_accepted s ! i = Flush_Signal k \<Longrightarrow> map_of (pq_marks s) k = Some i"
    and "map_of (pq_waits s) k \<noteq> None \<Longrightarrow> k < pq_next_token s"
  using assms unfolding marks_ok_def by blast+

lemma marks_okI:
  assumes "\<And>k n. map_of (pq_marks s) k = Some n \<Longrightarrow> n < length (pq_accepted s) \<and> pq_accepted s ! n = Flush_Signal k \<and> k < pq_next_token s"
    and "\<And>i k. i < length (pq_accepted s) \<Longrightarrow> pq_accepted s ! i = Flush_Signal k \<Longrightarrow> map_of (pq_marks s) k = Some i"
    and "\<And>k. map_of (pq_waits s) k \<noteq> None \<Longrightarrow> k < pq_next_token s"
  shows "marks_ok s"
  using assms unfolding marks_ok_def by blast

lemma flush_updates [simp]:
  "marks_ok (s\<lparr>pq_place := l\<rparr>) = marks_ok s" "told_ok (s\<lparr>pq_place := l\<rparr>) = told_ok s"
  "marks_ok (s\<lparr>pq_batch := js\<rparr>) = marks_ok s" "told_ok (s\<lparr>pq_batch := js\<rparr>) = told_ok s"
  "marks_ok (s\<lparr>pq_rebuilds := n\<rparr>) = marks_ok s" "told_ok (s\<lparr>pq_rebuilds := n\<rparr>) = told_ok s"
  "marks_ok (s\<lparr>pq_attempt := n\<rparr>) = marks_ok s" "told_ok (s\<lparr>pq_attempt := n\<rparr>) = told_ok s"
  by (simp_all add: marks_ok_def told_ok_def)

lemma told_frame: "wait_frame s s' \<Longrightarrow> told_ok s \<Longrightarrow> told_ok s'"
  by (simp add: told_ok_def frame_defs)

lemma token_pending: "map_of (pq_pending (signal_token n s)) k = (if k = n then None else map_of (pq_pending s) k)"
  by (auto simp: signal_token_def answer_wait_def AList.delete_conv)

lemma token_waits: "map_of (pq_waits (signal_token n s)) k = Some (Some True) \<Longrightarrow> map_of (pq_waits s) k = Some (Some True) \<or> k = n"
  by (auto simp: signal_token_def answer_wait_def split: if_splits)

lemma signal_Cons: "signal_flush_tokens (j # js) s =
    signal_flush_tokens js (case j of Flush_Signal n \<Rightarrow> signal_token n s | Job a t \<Rightarrow> s)"
  by (cases j) (simp_all add: signal_flush_tokens_def)

lemma signal_pending: "map_of (pq_pending (signal_flush_tokens js s)) k = (if Flush_Signal k \<in> set js then None else map_of (pq_pending s) k)"
proof (induction js arbitrary: s)
  case Nil
  then show ?case by (simp add: signal_flush_tokens_def)
next
  case (Cons j js)
  then show ?case by (cases j) (auto simp: signal_Cons token_pending)
qed

lemma signal_waits: "map_of (pq_waits (signal_flush_tokens js s)) k = Some (Some True) \<Longrightarrow>
    map_of (pq_waits s) k = Some (Some True) \<or> Flush_Signal k \<in> set js"
proof (induction js arbitrary: s)
  case Nil
  then show ?case by (simp add: signal_flush_tokens_def)
next
  case (Cons j js)
  show ?case
  proof (cases j)
    case (Flush_Signal n)
    then show ?thesis using Cons.IH [of "signal_token n s"] Cons.prems token_waits [of n s k] by (auto simp: signal_Cons)
  next
    case (Job a u)
    then show ?thesis using Cons by (simp add: signal_Cons)
  qed
qed

lemma keys_answer [simp]: "keys (pq_waits (answer_wait v n s)) = keys (pq_waits s)"
proof -
  have "keys (AList.update n x m) = keys m" if "map_of m n \<noteq> None" for x :: "bool option" and m :: "(nat \<times> bool option) list"
    using that by (induction m) (auto simp: keys_def split: if_splits)
  then show ?thesis by (simp add: answer_wait_def)
qed

lemma keys_signal: "keys (pq_waits (signal_flush_tokens js s)) = keys (pq_waits s)"
proof (induction js arbitrary: s)
  case Nil
  then show ?case by (simp add: signal_flush_tokens_def)
next
  case (Cons j js)
  then show ?case by (cases j) (simp_all add: signal_Cons signal_token_def)
qed

lemma keys_answers: "keys (pq_waits (fold (answer_wait v) ns s)) = keys (pq_waits s)"
  by (induction ns arbitrary: s) simp_all

text \<open>The tokens of a committed batch.\<close>

lemma batch_marks:
  assumes "flush_ok s" "pq_place s \<in> {At_Signal, At_Last_Signal}" "pq_starts s \<le> 1" "Flush_Signal k \<in> set (pq_batch s)" "map_of (pq_marks s) k = Some n"
  shows "n < length (pq_committed s)"
proof -
  obtain js where c: "pq_committed s = js @ pq_batch s" using assms(1,2) by (auto simp: flush_ok_def in_order_def)
  have "pq_accepted s = pq_committed s @ unsaved s" using assms(1,3) by (simp add: flush_ok_def in_order_def)
  moreover have "Flush_Signal k \<in> set (pq_committed s)" using assms(4) c by simp
  then obtain i where "i < length (pq_committed s)" "pq_committed s ! i = Flush_Signal k" by (auto simp: in_set_conv_nth)
  ultimately have "map_of (pq_marks s) k = Some i" using assms(1) marks_okD(2) [of s i k] by (simp add: flush_ok_def nth_append)
  then show ?thesis using assms(5) \<open>i < length (pq_committed s)\<close> by simp
qed

lemma flush_done:
  assumes "flush_ok s" "pq_place s \<in> {At_Signal, At_Last_Signal}" "pq_starts s \<noteq> 0"
  shows "flush_ok (batch_done s)"
proof -
  let ?t = "note_recovered (signal_flush_tokens (pq_batch s) s)"
  have w: "wait_frame (signal_flush_tokens (pq_batch s) s) ?t" by (rule frame_notes)
  have f: "job_frame s ?t" using frame_signal [of s "pq_batch s"] w by (simp add: frame_defs)
  have e: "pq_exited (signal_flush_tokens js u) = pq_exited u" for js and u :: "'a writer"
  proof (induction js arbitrary: u)
    case (Cons j js)
    then show ?case by (cases j) (simp_all add: signal_Cons signal_token_def answer_wait_def)
  qed (simp add: signal_flush_tokens_def)
  have m: "marks_ok ?t" using marks_frame [OF f] assms(1) w by (simp add: wait_frame_def keys_signal flush_ok_def)
  have "told_ok ?t" if s: "pq_starts s \<le> 1" and x: "\<not> pq_exited s"
  proof -
    have t: "told_ok s" using assms(1) s x by (simp add: flush_ok_def)
    have "pq_marks ?t = pq_marks s" "pq_committed ?t = pq_committed s" using f by (simp_all add: job_frame_def)
    moreover have "pq_pending ?t = pq_pending (signal_flush_tokens (pq_batch s) s)" "pq_waits ?t = pq_waits (signal_flush_tokens (pq_batch s) s)"
      using w by (simp_all add: wait_frame_def)
    moreover have "(n < length (pq_committed s) \<or> map_of (pq_pending (signal_flush_tokens (pq_batch s) s)) k \<noteq> None) \<and>
        (map_of (pq_waits (signal_flush_tokens (pq_batch s) s)) k = Some (Some True) \<longrightarrow> n < length (pq_committed s))"
      if m: "map_of (pq_marks s) k = Some n" for k n
    proof (cases "Flush_Signal k \<in> set (pq_batch s)")
      case True
      then show ?thesis using batch_marks [OF assms(1,2) s True m] by simp
    next
      case False
      then show ?thesis using t m signal_waits [of "pq_batch s" s k] unfolding told_ok_def signal_pending by auto
    qed
    ultimately show ?thesis unfolding told_ok_def by simp
  qed
  then show ?thesis
    using in_order_done [OF _ assms(2,3)] assms(1,2) m f w e by (auto simp: flush_ok_def batch_done_def job_frame_def wait_frame_def)
qed

lemma keys_leave: "keys (pq_waits (leave_loop s)) = keys (pq_waits s)"
  using keys_answers [of False "keys (pq_pending s)" s] by (simp add: leave_loop_def fail_pending_flush_waiters_def close_connection_def)

lemma told_commit:
  assumes "told_ok s" "commit_batch g A s = (True, s')"
  shows "told_ok (s'\<lparr>pq_place := l\<rparr>)"
proof -
  have "pq_marks s' = pq_marks s" "pq_pending s' = pq_pending s" "pq_waits s' = pq_waits s" "length (pq_committed s) \<le> length (pq_committed s')"
    using assms(2) by (auto simp: commit_batch_def split: if_splits commit_answer.splits)
  then show ?thesis using assms(1) unfolding told_ok_def by (auto intro: less_le_trans)
qed

lemma marks_commit:
  assumes "marks_ok s" "commit_batch g A s = (True, s')"
  shows "marks_ok (s'\<lparr>pq_place := l\<rparr>)"
proof -
  have "pq_marks s' = pq_marks s" "pq_accepted s' = pq_accepted s" "pq_waits s' = pq_waits s" "pq_next_token s' = pq_next_token s"
    using assms(2) by (auto simp: commit_batch_def split: if_splits commit_answer.splits)
  then show ?thesis using marks_same [OF assms(1), of s'] by simp
qed

lemma batch_commit_fields: "commit_batch g A s = (True, s') \<Longrightarrow> pq_exited s' = pq_exited s \<and> pq_starts s' = pq_starts s"
  by (auto simp: commit_batch_def split: if_splits commit_answer.splits)

lemma loop_place: "pq_place s = Gone \<or> pq_place s = Not_Started \<Longrightarrow> writer_loop P g A (pq_place s) s = s"
  by auto

lemma flush_loop:
  assumes "flush_ok s"
  shows "flush_ok (writer_loop P g A (pq_place s) s)"
proof (cases "pq_starts s = 0 \<or> pq_place s = Gone")
  case True
  then have "pq_place s = Gone \<or> pq_place s = Not_Started" using assms by (auto simp: flush_ok_def in_order_def)
  then show ?thesis using assms by (simp only: loop_place)
next
  case False
  then have started: "pq_starts s \<noteq> 0" and x: "pq_starts s \<le> 1 \<Longrightarrow> \<not> pq_exited s" using assms by (auto simp: flush_ok_def)
  have io: "in_order (writer_loop P g A (pq_place s) s)" and mo: "marks_ok s" using assms in_order_loop by (auto simp: flush_ok_def)
  consider "pq_place s = At_Take" | "pq_place s \<in> {At_Signal, At_Last_Signal}" | "pq_place s = At_Exit"
    | s1 where "pq_place s \<in> {At_Commit, At_Last_Try}" "commit_batch g (wa_commit A) s = (True, s1)"
    | "pq_place s \<notin> {At_Take, At_Signal, At_Last_Signal, At_Exit}" "pq_place s \<in> {At_Commit, At_Last_Try} \<longrightarrow> \<not> fst (commit_batch g (wa_commit A) s)"
    by (cases "commit_batch g (wa_commit A) s") auto
  then show ?thesis
  proof cases
    case 1
    have "marks_ok (take_batch s) = marks_ok s" "told_ok (take_batch s) = told_ok s" "pq_exited (take_batch s) = pq_exited s" "pq_starts (take_batch s) = pq_starts s"
      by (simp_all add: take_batch_def marks_ok_def told_ok_def)
    then show ?thesis using assms io x 1 by (auto simp: flush_ok_def)
  next
    case 2
    have "flush_ok ((batch_done s)\<lparr>pq_attempt := 0\<rparr>)" if "flush_ok (batch_done s)"
      using that by (simp add: flush_ok_def in_order_def unsaved_def)
    then show ?thesis using flush_done [OF assms 2 started] 2 by auto
  next
    case 3
    have "marks_ok (leave_loop s)" using marks_frame [OF _ keys_leave mo] leave_frame by blast
    moreover have "pq_exited (leave_loop s)" by (simp add: leave_loop_def)
    ultimately show ?thesis using io leave_frame [of s] 3 by (simp add: flush_ok_def)
  next
    case 4
    then obtain l where l: "writer_loop P g A (pq_place s) s = s1\<lparr>pq_place := l\<rparr>" by auto
    then show ?thesis using io x assms told_commit [OF _ 4(2), of l] marks_commit [OF mo 4(2), of l] batch_commit_fields [OF 4(2)]
      by (auto simp: flush_ok_def)
  next
    case 5
    from loop_frame [OF this, of P] have f: "wait_frame s (writer_loop P g A (pq_place s) s)" by blast
    have "marks_ok (writer_loop P g A (pq_place s) s)" using marks_frame [OF _ _ mo] f by (simp add: wait_frame_def)
    then show ?thesis using io x f told_frame [OF f] assms by (auto simp: flush_ok_def wait_frame_def job_frame_def)
  qed
qed

lemma marks_adds:
  assumes "marks_ok s" "pq_accepted s' = pq_accepted s @ [Job a u]" "pq_marks s' = pq_marks s" "pq_next_token s' = pq_next_token s" "pq_waits s' = pq_waits s"
  shows "marks_ok s'"
proof (rule marks_okI, goal_cases)
  case (1 k n)
  then show ?case using marks_okD(1) [OF assms(1), of k n] by (simp add: assms(2-4) nth_append)
next
  case (2 i k)
  then have "i < length (pq_accepted s)" by (simp add: assms(2) nth_append less_Suc_eq split: if_splits)
  then show ?case using 2(2) marks_okD(2) [OF assms(1), of i k] by (simp add: assms(2,3) nth_append)
next
  case (3 k)
  then show ?case using marks_okD(3) [OF assms(1), of k] by (simp add: assms(4,5))
qed

lemma told_adds:
  assumes "told_ok s" "pq_marks s' = pq_marks s" "pq_pending s' = pq_pending s" "pq_waits s' = pq_waits s" "pq_committed s' = pq_committed s"
  shows "told_ok s'"
  using assms(1) unfolding told_ok_def assms(2-5) .

lemma flush_enqueue:
  assumes "flush_ok s"
  shows "flush_ok (enqueue P a u s)"
proof (cases "pq_shutdown s")
  case False
  let ?t = "enqueue P a u s"
  have f: "pq_accepted ?t = pq_accepted s @ [Job a u]" "pq_marks ?t = pq_marks s" "pq_next_token ?t = pq_next_token s" "pq_waits ?t = pq_waits s"
    "pq_pending ?t = pq_pending s" "pq_committed ?t = pq_committed s" "pq_exited ?t = pq_exited s" "pq_place ?t = pq_place s" "pq_starts ?t = pq_starts s"
    using False by (simp_all add: enqueue_def Let_def notify_def add_job_def)
  have "marks_ok ?t" using marks_adds [OF _ f(1-4)] assms by (simp add: flush_ok_def)
  then show ?thesis using assms in_order_enqueue told_adds [OF _ f(2,5,4,6)] f(7-9) by (auto simp: flush_ok_def)
qed (use assms in \<open>simp add: enqueue_def\<close>)

lemma flush_signal:
  assumes "flush_ok s"
  shows "flush_ok (snd (enqueue_flush_signal s))"
proof -
  let ?t = "snd (enqueue_flush_signal s)" and ?k = "pq_next_token s"
  have m: "marks_ok s" using assms by (simp add: flush_ok_def)
  have new: "map_of (pq_marks s) ?k = None" using marks_okD(1) [OF m, of ?k] by (cases "map_of (pq_marks s) ?k") auto
  have nowait: "map_of (pq_waits s) ?k = None" using marks_okD(3) [OF m, of ?k] by blast
  have f: "pq_exited ?t = pq_exited s" "pq_place ?t = pq_place s" "pq_starts ?t = pq_starts s" "pq_waits ?t = pq_waits s"
    "pq_committed ?t = pq_committed s" "pq_next_token ?t = ?k + 1"
    by (simp_all add: enqueue_flush_signal_def Let_def add_job_def)
  show ?thesis
  proof (cases "pq_shutdown s")
    case True
    then have "pq_marks ?t = pq_marks s" "pq_accepted ?t = pq_accepted s" "pq_pending ?t = pq_pending s"
      by (simp_all add: enqueue_flush_signal_def Let_def)
    note e = this f(4,6)
    have "marks_ok ?t"
    proof (rule marks_okI, goal_cases)
      case (1 k n)
      then show ?case using marks_okD(1) [OF m, of k n] by (simp add: e)
    next
      case (2 i k)
      then show ?case using marks_okD(2) [OF m, of i k] by (simp add: e)
    next
      case (3 k)
      then show ?case using marks_okD(3) [OF m, of k] by (simp add: e)
    qed
    then show ?thesis using assms in_order_flush told_adds [OF _ e(1,3) f(4,5)] f(1-3) by (auto simp: flush_ok_def)
  next
    case False
    then have e: "map_of (pq_marks ?t) = (map_of (pq_marks s))(?k \<mapsto> length (pq_accepted s))"
      "pq_accepted ?t = pq_accepted s @ [Flush_Signal ?k]" "map_of (pq_pending ?t) = (map_of (pq_pending s))(?k \<mapsto> False)"
      by (simp_all add: enqueue_flush_signal_def Let_def add_job_def)
    have "map_of (pq_marks ?t) k = Some i" if "i < length (pq_accepted ?t)" "pq_accepted ?t ! i = Flush_Signal k" for i k
    proof (cases "i < length (pq_accepted s)")
      case True
      then have "map_of (pq_marks s) k = Some i" using marks_okD(2) [OF m True] that(2) by (simp add: e(2) nth_append)
      then show ?thesis using new by (auto simp: e(1))
    next
      case False
      then show ?thesis using that by (simp add: e nth_append less_Suc_eq)
    qed
    moreover have "n < length (pq_accepted ?t) \<and> pq_accepted ?t ! n = Flush_Signal k \<and> k < pq_next_token ?t"
      if "map_of (pq_marks ?t) k = Some n" for k n
      using that marks_okD(1) [OF m, of k n] unfolding e(1,2) f(6) by (auto simp: nth_append split: if_splits)
    moreover have "k < pq_next_token ?t" if "map_of (pq_waits ?t) k \<noteq> None" for k
      using that marks_okD(3) [OF m, of k] unfolding f(4,6) by simp
    ultimately have "marks_ok ?t" by (intro marks_okI) blast+
    moreover have "told_ok ?t" if "told_ok s" using that nowait unfolding told_ok_def e f(4,5) by auto
    ultimately show ?thesis using assms in_order_flush f(1-3) by (auto simp: flush_ok_def)
  qed
qed

lemma flush_wait:
  assumes "flush_ok s" "k < pq_next_token s"
  shows "flush_ok (snd (begin_wait k s))"
proof -
  let ?t = "snd (begin_wait k s)"
  have f: "pq_exited ?t = pq_exited s" "pq_place ?t = pq_place s" "pq_starts ?t = pq_starts s" "pq_marks ?t = pq_marks s"
    "pq_committed ?t = pq_committed s" "pq_next_token ?t = pq_next_token s" "pq_accepted ?t = pq_accepted s"
    "pq_queue ?t = pq_queue s" "pq_batch ?t = pq_batch s"
    by (simp_all add: begin_wait_def split: option.split)
  have w: "map_of (pq_waits ?t) j = map_of (pq_waits s) j \<or> j = k" for j
    by (simp add: begin_wait_def split: option.split)
  have pend: "map_of (pq_pending ?t) j \<noteq> None \<longleftrightarrow> map_of (pq_pending s) j \<noteq> None" for j
    by (auto simp: begin_wait_def split: option.split)
  have true: "map_of (pq_waits ?t) k = Some (Some True) \<Longrightarrow> map_of (pq_pending s) k = None \<or> map_of (pq_waits s) k = Some (Some True)"
    by (simp add: begin_wait_def split: option.splits if_splits)
  have m: "marks_ok s" using assms(1) by (simp add: flush_ok_def)
  have "marks_ok ?t"
  proof (rule marks_okI, goal_cases)
    case (1 j n)
    then show ?case using marks_okD(1) [OF m, of j n] by (simp only: f)
  next
    case (2 i j)
    then show ?case using marks_okD(2) [OF m, of i j] by (simp only: f)
  next
    case (3 j)
    then show ?case using marks_okD(3) [OF m, of j] w [of j] assms(2) f(6) by auto
  qed
  moreover have "told_ok ?t" if told: "told_ok s"
  proof -
    have "(n < length (pq_committed s) \<or> map_of (pq_pending ?t) j \<noteq> None) \<and> (map_of (pq_waits ?t) j = Some (Some True) \<longrightarrow> n < length (pq_committed s))"
      if "map_of (pq_marks s) j = Some n" for j n
    proof -
      have o: "n < length (pq_committed s) \<or> map_of (pq_pending s) j \<noteq> None" "map_of (pq_waits s) j = Some (Some True) \<Longrightarrow> n < length (pq_committed s)"
        using told that unfolding told_ok_def by blast+
      then show ?thesis using pend [of j] w [of j] true by auto
    qed
    then show ?thesis unfolding told_ok_def f by blast
  qed
  moreover have "in_order ?t" using assms(1) unfolding flush_ok_def in_order_def unsaved_def f by blast
  ultimately show ?thesis using assms(1) f by (auto simp: flush_ok_def)
qed

lemma flush_timeout:
  assumes "flush_ok s"
  shows "flush_ok (answer_wait False k s)"
proof -
  have f: "job_frame s (answer_wait False k s)" "pq_exited (answer_wait False k s) = pq_exited s" "pq_pending (answer_wait False k s) = pq_pending s"
    by (simp_all add: answer_wait_def job_frame_def)
  have w: "map_of (pq_waits (answer_wait False k s)) j = Some (Some True) \<Longrightarrow> map_of (pq_waits s) j = Some (Some True)" for j
    by (simp add: answer_wait_def split: if_splits)
  have "told_ok (answer_wait False k s)" if "told_ok s"
    using that f w unfolding told_ok_def by (auto simp: job_frame_def)
  then show ?thesis
    using assms in_order_frame [OF f(1)] marks_frame [OF f(1) keys_answer] f by (auto simp: flush_ok_def job_frame_def)
qed

lemma flush_frame:
  assumes "flush_ok s" "wait_frame s s'" "pq_place s' = pq_place s"
  shows "flush_ok s'"
  using assms in_order_frame [OF _ assms(3)] marks_frame [of s s'] told_frame [OF assms(2)] by (auto simp: flush_ok_def wait_frame_def job_frame_def)

lemma flush_start:
  assumes "flush_ok s"
  shows "flush_ok (start_writer s)"
proof -
  have "in_order (start_writer s)" using in_order_step [of s undefined undefined Ev_Start] assms by (simp add: flush_ok_def)
  moreover have "marks_ok (start_writer s)"
    using assms marks_same [of s "start_writer s"] by (simp add: flush_ok_def start_writer_def)
  moreover have "told_ok (start_writer s) = told_ok s" by (simp add: told_ok_def start_writer_def)
  moreover have "\<not> pq_exited s" if "pq_starts s = 0" using assms that by (auto simp: flush_ok_def in_order_def)
  ultimately show ?thesis using assms by (auto simp: flush_ok_def start_writer_def)
qed

lemma flush_step:
  assumes "flush_ok s"
  shows "flush_ok (persist_step P g s e)"
proof (cases e)
  case (Ev_Open A now)
  let ?u = "s\<lparr>pq_opened := True\<rparr>"
  have "wait_frame ?u (snd (try_open A now ?u))" by (rule frame_try_open)
  then have "wait_frame s (snd (try_open A now ?u))" by (simp add: frame_defs)
  then have "wait_frame s (open_writer P A now s) \<and> pq_place (open_writer P A now s) = pq_place s"
    using wait_frame_trans [OF _ frame_notes(2), of s "snd (try_open A now ?u)" P now] by (simp add: open_writer_def case_prod_beta)
  then show ?thesis using flush_frame [OF assms] Ev_Open by simp
next
  case Ev_Stop
  have "flush_ok (stop_writer s)"
    using assms in_order_step [of s P g Ev_Stop] marks_same [of s "stop_writer s"]
      told_adds [of s "stop_writer s"] by (auto simp: flush_ok_def stop_writer_def close_connection_def)
  then show ?thesis using Ev_Stop by simp
next
  case Ev_Join
  have "flush_ok ((close_connection s)\<lparr>pq_started := False\<rparr>)"
    using assms in_order_step [of s P g Ev_Join] marks_same [of s "(close_connection s)\<lparr>pq_started := False\<rparr>"]
      told_adds [of s "(close_connection s)\<lparr>pq_started := False\<rparr>"]
    by (auto simp: flush_ok_def close_connection_def in_order_def unsaved_def)
  then show ?thesis using Ev_Join assms by (simp add: join_writer_def)
qed (use assms flush_enqueue flush_signal flush_wait flush_timeout flush_start flush_loop in auto)

lemma flush_new: "flush_ok (new_writer f)"
  using in_order_new [of f] by (simp add: flush_ok_def marks_ok_def told_ok_def new_writer_def)

interpretation writer_flush: invariant_run "persist_step P g" flush_ok for P g
  by unfold_locales (rule flush_step)

lemma run_flush: "flush_ok (persist_run P g es (new_writer f))"
  unfolding persist_run_def by (rule writer_flush.run_inv [OF flush_new])

end
