(* ===== verification/Td_Persist_Props.thy ===== *)
theory Td_Persist_Props
  imports Td_Persist_Facts
begin

text \<open>The properties of the writer of the trading database, with a run of it, and runs in which a flush is reported too early.\<close>

section \<open>The file\<close>

text \<open>The tables in the file are those it began with after the jobs committed since.\<close>

definition tables_ok :: "string \<Rightarrow> 'd writer \<Rightarrow> bool" where
  "tables_ok g s \<longleftrightarrow> (\<forall>d. pq_file s = Some d \<longrightarrow> df_tables d = fold (exec_job g) (pq_since s) (pq_origin s))"

definition file_frame :: "'d writer \<Rightarrow> 'd writer \<Rightarrow> bool" where
  "file_frame s s' \<longleftrightarrow> pq_file s' = pq_file s \<and> pq_since s' = pq_since s \<and> pq_origin s' = pq_origin s"

lemma tables_frame: "file_frame s s' \<Longrightarrow> tables_ok g s \<Longrightarrow> tables_ok g s'"
  by (simp add: file_frame_def tables_ok_def)

lemma tables_put: "tables_ok g s \<Longrightarrow> tables_ok g (put_file f s)"
  by (cases "pq_file s"; cases f) (auto simp: tables_ok_def put_file_def)

lemma file_notes [simp]:
  "file_frame s (notify m s)" "file_frame s (note_failure P now s)" "file_frame s (note_recovered s)" "file_frame s (close_connection s)"
  "file_frame s (handle_corruption s)" "file_frame s (begin_retry P l s)" "file_frame s (signal_token n s)" "file_frame s (answer_wait v n s)"
  by (simp_all add: file_frame_def notice_defs handle_corruption_def signal_token_def answer_wait_def)

lemma file_signal: "file_frame s (signal_flush_tokens js s)"
proof (induction js arbitrary: s)
  case Nil
  then show ?case by (simp add: signal_flush_tokens_def file_frame_def)
next
  case (Cons j js)
  show ?case
  proof (cases j)
    case (Flush_Signal n)
    then show ?thesis using Cons.IH [of "signal_token n s"] file_notes(7) [of s n] by (simp add: signal_Cons file_frame_def)
  next
    case (Job a u)
    then show ?thesis using Cons.IH by (simp add: signal_Cons)
  qed
qed

lemma file_answers: "file_frame s (fold (answer_wait v) ns s)"
proof (induction ns arbitrary: s)
  case (Cons n ns)
  then show ?case using Cons.IH [of "answer_wait v n s"] file_notes(8) [of s v n] by (simp add: file_frame_def)
qed (simp add: file_frame_def)

lemma tables_try_open:
  assumes "tables_ok g s"
  shows "tables_ok g (snd (try_open A now s))"
proof -
  obtain status f where e: "ensure_trade_db A (pq_file s) = (status, f)" by fastforce
  have "tables_ok g (put_file f (close_connection s))" using tables_put tables_frame [OF _ assms] file_notes(4) by blast
  then show ?thesis by (auto simp: try_open_def e Let_def notify_def tables_ok_def)
qed

lemma tables_commit: "tables_ok g s \<Longrightarrow> tables_ok g (snd (commit_batch g A s))"
  using tables_frame [OF file_notes(5), of g s] by (auto simp: commit_batch_def tables_ok_def split: commit_answer.split)

lemma tables_step:
  assumes "tables_ok g s"
  shows "tables_ok g (persist_step P g s e)"
proof -
  have place: "tables_ok g (u\<lparr>pq_place := l\<rparr>) = tables_ok g u" "tables_ok g (u\<lparr>pq_attempt := n\<rparr>) = tables_ok g u"
    "tables_ok g (u\<lparr>pq_opened := b\<rparr>) = tables_ok g u" for u l n b by (simp_all add: tables_ok_def)
  have retry: "tables_ok g (begin_retry P l (note_failure P now u))" if "tables_ok g u" for l now u
    using that tables_frame file_notes(2,6) by blast
  have finished: "tables_ok g (batch_done s)"
    using tables_frame [OF file_notes(3) tables_frame [OF file_signal assms]] by (simp add: batch_done_def tables_ok_def)
  show ?thesis
  proof (cases e)
    case (Ev_Open A now)
    then show ?thesis using assms tables_try_open [of g "s\<lparr>pq_opened := True\<rparr>" A now]
      by (simp add: open_writer_def case_prod_beta place tables_frame [OF file_notes(2)])
  next
    case (Ev_Writer A)
    have "tables_ok g (leave_loop s)"
      using tables_frame [OF file_answers assms] by (simp add: leave_loop_def fail_pending_flush_waiters_def close_connection_def tables_ok_def)
    moreover have "tables_ok g (take_batch s)" using assms by (simp add: take_batch_def tables_ok_def)
    ultimately show ?thesis
      using assms finished tables_try_open [OF assms, of "wa_open A" "wa_now A"] tables_commit [OF assms, of "wa_commit A"]
      by (cases "pq_place s") (simp_all add: Ev_Writer case_prod_beta place retry)
  qed (use assms tables_frame [OF file_notes(8) assms] in
      \<open>simp_all add: tables_ok_def start_writer_def stop_writer_def join_writer_def close_connection_def enqueue_def enqueue_flush_signal_def
        begin_wait_def add_job_def notify_def Let_def split: option.split\<close>)
qed

interpretation writer_tables: invariant_run "persist_step P g" "tables_ok g" for P g
  by unfold_locales (rule tables_step)

lemma tables_new: "tables_ok g (new_writer f)"
  by (simp add: tables_ok_def new_writer_def)

section \<open>Draining\<close>

text \<open>The loop with a working connection and a stop request, on the place, the batch, the queue and what was committed.\<close>

fun drain_step :: "place \<times> 'j list \<times> 'j list \<times> 'j list \<Rightarrow> place \<times> 'j list \<times> 'j list \<times> 'j list" where
  "drain_step (At_Top, b, q, c) = (if b = [] then At_Take else At_Commit, b, q, c)"
| "drain_step (At_Take, b, q, c) = (if q \<noteq> [] then (At_Commit, b @ q, [], c) else (At_Exit, b, q, c))"
| "drain_step (At_Commit, b, q, c) = (At_Signal, b, q, c @ b)"
| "drain_step (At_Signal, b, q, c) = (At_Top, [], q, c)"
| "drain_step (At_Retry_Wait, b, q, c) = (At_Last_Try, b, q, c)"
| "drain_step (At_Last_Try, b, q, c) = (At_Last_Signal, b, q, c @ b)"
| "drain_step (At_Last_Signal, b, q, c) = (At_Top, [], q, c)"
| "drain_step (At_Exit, b, q, c) = (Gone, b, q, c)"
| "drain_step (l, b, q, c) = (l, b, q, c)"

definition drain_view :: "'d writer \<Rightarrow> place \<times> 'd job list \<times> 'd job list \<times> 'd job list" where
  "drain_view s = (pq_place s, pq_batch s, pq_queue s, pq_committed s)"

definition draining :: "'d writer \<Rightarrow> bool" where
  "draining s \<longleftrightarrow> pq_place s \<noteq> At_Open_Wait \<and> (pq_place s \<noteq> Gone \<longrightarrow> pq_connected s \<and> \<not> pq_running s)"

lemma signal_rest: "pq_connected (signal_flush_tokens js s) = pq_connected s"
proof (induction js arbitrary: s)
  case (Cons j js)
  then show ?case by (cases j) (simp_all add: signal_Cons signal_token_def answer_wait_def)
qed (simp add: signal_flush_tokens_def)

lemma drain_done: "drain_view (batch_done s) = (At_Top, [], pq_queue s, pq_committed s) \<and> pq_connected (batch_done s) = pq_connected s \<and>
    pq_running (batch_done s) = pq_running s \<and> pq_accepted (batch_done s) = pq_accepted s"
  using frame_signal [of s "pq_batch s"] by (simp add: batch_done_def drain_view_def note_recovered_def notify_def signal_rest job_frame_def)

lemma drain_loop:
  assumes "draining s" "wa_commit A = Commit_Ok"
  shows "drain_view (writer_loop P g A (pq_place s) s) = drain_step (drain_view s) \<and> draining (writer_loop P g A (pq_place s) s) \<and>
    pq_accepted (writer_loop P g A (pq_place s) s) = pq_accepted s"
  using assms drain_done [of s] leave_frame [of s]
  by (cases "pq_place s") (auto simp: draining_def drain_view_def commit_batch_def take_batch_def job_frame_def)

definition drain_run :: "persist_policy \<Rightarrow> string \<Rightarrow> writer_answers \<Rightarrow> nat \<Rightarrow> 'd writer \<Rightarrow> 'd writer" where
  "drain_run P g A n s = persist_run P g (replicate n (Ev_Writer A)) s"

lemma drain_iterate:
  assumes "draining s" "wa_commit A = Commit_Ok"
  shows "drain_view (drain_run P g A n s) = (drain_step ^^ n) (drain_view s) \<and> pq_accepted (drain_run P g A n s) = pq_accepted s"
  using assms(1)
proof (induction n arbitrary: s)
  case (Suc n)
  note d = drain_loop [OF Suc.prems assms(2), of P g]
  have "drain_run P g A (Suc n) s = drain_run P g A n (writer_loop P g A (pq_place s) s)" by (simp add: drain_run_def persist_run_def)
  then show ?case using Suc.IH [of "writer_loop P g A (pq_place s) s"] d by (simp add: funpow_Suc_right del: funpow.simps(2))
qed (simp add: drain_run_def persist_run_def)

text \<open>The batch is empty where the queue is taken.\<close>

definition take_ok :: "'d writer \<Rightarrow> bool" where
  "take_ok s \<longleftrightarrow> (pq_place s = At_Take \<longrightarrow> pq_batch s = [])"

lemma take_step: "take_ok s \<Longrightarrow> take_ok (persist_step P g s e)"
proof (cases e)
  case (Ev_Open A now)
  assume "take_ok s"
  then show ?thesis
    using frame_try_open [of "s\<lparr>pq_opened := True\<rparr>" A now] frame_notes(2) [of "snd (try_open A now (s\<lparr>pq_opened := True\<rparr>))" P now]
    by (simp add: Ev_Open open_writer_def case_prod_beta take_ok_def frame_defs)
next
  case (Ev_Writer A)
  assume "take_ok s"
  moreover have "pq_place (begin_retry P l u) = l" for l and u :: "'a writer" by (simp add: begin_retry_def)
  ultimately show ?thesis
    by (cases "pq_place s") (auto simp: Ev_Writer take_ok_def take_batch_def batch_done_def leave_loop_def case_prod_beta split: if_splits)
qed (auto simp: take_ok_def start_writer_def stop_writer_def join_writer_def close_connection_def enqueue_def enqueue_flush_signal_def
    begin_wait_def answer_wait_def add_job_def notify_def Let_def split: option.split)

interpretation writer_take: invariant_run "persist_step P g" take_ok for P g
  by unfold_locales (rule take_step)

lemma take_new: "take_ok (new_writer f)"
  by (simp add: take_ok_def new_writer_def)

lemma drained:
  assumes "take_ok s" "draining s" "pq_place s \<notin> {Not_Started, At_Exit, Gone}"
  shows "\<exists>b q. (drain_step ^^ 10) (drain_view s) = (Gone, b, q, pq_committed s @ unsaved s)"
  using assms
  by (cases "pq_place s"; cases "pq_batch s = []"; cases "pq_queue s = []")
    (simp_all add: drain_view_def draining_def take_ok_def unsaved_def numeral_eq_Suc)

section \<open>A run\<close>

text \<open>An order is written and flushed, a second one arrives, and the process stops.\<close>

definition fine_open :: open_answers where
  "fine_open = \<lparr>oa_exists_error = False, oa_regular = Some True, oa_probe = Probe_Version, oa_renamed = True, oa_sidecars = True,
     oa_created = True, oa_leftover = False, oa_ensured = True, oa_connected = True\<rparr>"

definition fine :: writer_answers where
  "fine = \<lparr>wa_open = fine_open, wa_commit = Commit_Ok, wa_now = 0\<rparr>"

definition broken :: writer_answers where
  "broken = \<lparr>wa_open = fine_open, wa_commit = Commit_Failed, wa_now = 0\<rparr>"

definition sample_policy :: persist_policy where
  "sample_policy = \<lparr>po_delays = [1000, 2000], po_interval = 300000, po_threshold = 100000\<rparr>"

definition first_order :: "rat task" where
  "first_order = Order_Task (sample_order 5 2 3 1000 1)"

definition second_order :: "rat task" where
  "second_order = Order_Task (sample_order 6 2 3 1000 1)"

definition flushed_run :: "rat writer_event list" where
  "flushed_run = [Ev_Open fine_open 0, Ev_Start, Ev_Task ''a'' first_order, Ev_Flush, Ev_Wait 1, Ev_Writer fine, Ev_Writer fine, Ev_Writer broken,
     Ev_Writer fine, Ev_Writer fine, Ev_Writer fine, Ev_Writer fine, Ev_Task ''a'' second_order]"

definition sample_writer :: "rat writer" where
  "sample_writer = persist_run sample_policy ''td'' flushed_run (new_writer None)"

lemmas writer_defs = persist_run_def open_writer_def try_open_def ensure_trade_db_def create_new_def new_writer_def schema_version_def
  put_file_def close_connection_def start_writer_def stop_writer_def enqueue_def enqueue_flush_signal_def add_job_def begin_wait_def Let_def
  take_batch_def commit_batch_def note_failure_def note_recovered_def notify_def begin_retry_def retry_delay_def batch_done_def
  signal_flush_tokens_def signal_token_def answer_wait_def leave_loop_def fail_pending_flush_waiters_def

lemmas sample_defs = sample_policy_def fine_open_def fine_def broken_def

lemma sample_writer_state:
  "pq_starts sample_writer = 1 \<and> \<not> pq_exited sample_writer \<and> map_of (pq_waits sample_writer) 1 = Some (Some True) \<and> pq_place sample_writer = At_Top \<and>
   pq_started sample_writer \<and> pq_connected sample_writer \<and> pq_notices sample_writer = [Persist_Failed, Recovered] \<and>
   pq_committed sample_writer = [Job ''a'' first_order, Flush_Signal 1] \<and>
   pq_accepted sample_writer = [Job ''a'' first_order, Flush_Signal 1, Job ''a'' second_order]"
  by (simp add: sample_writer_def flushed_run_def writer_defs sample_defs)

section \<open>Properties\<close>

text \<open>
  C11: whatever fails and whatever is queued meanwhile, the jobs committed to the database are the first ones accepted, each
  once and in the order of acceptance; the rest waits in the batch and the queue.
\<close>

theorem committed_in_order:
  assumes "pq_starts (persist_run P g es (new_writer f)) \<le> 1"
  shows "pq_accepted (persist_run P g es (new_writer f)) =
    pq_committed (persist_run P g es (new_writer f)) @ unsaved (persist_run P g es (new_writer f))"
  using run_flush [of P g es f] assms by (simp add: flush_ok_def in_order_def)

lemma committed_in_order_witness: "pq_accepted sample_writer = pq_committed sample_writer @ unsaved sample_writer"
  using committed_in_order [of sample_policy "''td''" flushed_run None] sample_writer_state by (simp add: sample_writer_def)

text \<open>
  C9: while the thread of the writer lives, a flush is reported as done only when every job accepted before its signal has been
  committed.
\<close>

theorem flush_means_committed:
  assumes "s = persist_run P g es (new_writer f)" "pq_starts s \<le> 1" "\<not> pq_exited s"
    "Flush_Signal k \<in> set (pq_accepted s)" "map_of (pq_waits s) k = Some (Some True)"
  shows "prefix (takeWhile (\<lambda>j. j \<noteq> Flush_Signal k) (pq_accepted s) @ [Flush_Signal k]) (pq_committed s)"
proof -
  have ok: "flush_ok s" using run_flush assms(1) by blast
  then have acc: "pq_accepted s = pq_committed s @ unsaved s" and m: "marks_ok s" and told: "told_ok s"
    using assms(2,3) by (simp_all add: flush_ok_def in_order_def)
  obtain i where i: "i < length (pq_accepted s)" "pq_accepted s ! i = Flush_Signal k" using assms(4) by (auto simp: in_set_conv_nth)
  have "map_of (pq_marks s) k = Some i" using marks_okD(2) [OF m i] .
  then have "i < length (pq_committed s)" using told assms(5) unfolding told_ok_def by blast
  then have "Flush_Signal k \<in> set (pq_committed s)" using i acc by (simp add: nth_append flip: i(2))
  then obtain ys zs where y: "pq_committed s = ys @ Flush_Signal k # zs" "Flush_Signal k \<notin> set ys" by (meson split_list_first)
  have "takeWhile (\<lambda>j. j \<noteq> Flush_Signal k) (ys @ Flush_Signal k # r) = ys" if "Flush_Signal k \<notin> set ys" for ys and r :: "'a job list"
    using that by (induction ys) auto
  then have "takeWhile (\<lambda>j. j \<noteq> Flush_Signal k) (pq_accepted s) = ys" using y by (simp add: acc)
  then show ?thesis using y(1) by simp
qed

lemma flush_means_committed_witness:
  "prefix (takeWhile (\<lambda>j. j \<noteq> Flush_Signal 1) (pq_accepted sample_writer) @ [Flush_Signal 1]) (pq_committed sample_writer)"
  by (rule flush_means_committed [OF sample_writer_def]) (use sample_writer_state in auto)

text \<open>
  C30: a stop with a working connection loses nothing: unless the thread waits to open the database or is past its last
  attempt, after at most ten steps it has ended and everything accepted is committed.
\<close>

theorem stop_drains:
  assumes "s = stop_writer (persist_run P g es (new_writer f))" "pq_starts s = 1" "pq_started s" "pq_connected s" "wa_commit A = Commit_Ok"
    "pq_place s \<notin> {At_Open_Wait, At_Exit, Gone, Not_Started}"
  shows "(pq_place (drain_run P g A 10 s), pq_committed (drain_run P g A 10 s)) = (Gone, pq_accepted s)"
proof -
  have s: "s = persist_run P g (es @ [Ev_Stop]) (new_writer f)" by (simp add: assms(1) persist_run_def)
  have "flush_ok s" unfolding s by (rule run_flush)
  then have acc: "pq_accepted s = pq_committed s @ unsaved s" using assms(2) by (simp add: flush_ok_def in_order_def)
  have "take_ok s" unfolding s persist_run_def by (rule writer_take.run_inv [OF take_new])
  moreover have "\<not> pq_running s" using assms(1,3) by (simp add: stop_writer_def close_connection_def split: if_splits)
  then have d: "draining s" using assms(4,6) by (simp add: draining_def)
  ultimately obtain b q where "(drain_step ^^ 10) (drain_view s) = (Gone, b, q, pq_committed s @ unsaved s)"
    using drained [of s] assms(6) by blast
  then show ?thesis using drain_iterate [OF d assms(5), of P g 10] by (simp add: drain_view_def acc)
qed

lemma stop_drains_witness:
  "(pq_place (drain_run sample_policy ''td'' fine 10 (stop_writer sample_writer)), pq_committed (drain_run sample_policy ''td'' fine 10 (stop_writer sample_writer))) =
   (Gone, pq_accepted (stop_writer sample_writer))"
proof (rule stop_drains [OF arg_cong [where f = stop_writer, OF sample_writer_def]])
  have f: "pq_starts (stop_writer u) = pq_starts u" "pq_started (stop_writer u) = pq_started u" "pq_place (stop_writer u) = pq_place u"
    "pq_started u \<Longrightarrow> pq_connected (stop_writer u) = pq_connected u" for u :: "rat writer"
    by (simp_all add: stop_writer_def close_connection_def)
  show "pq_starts (stop_writer sample_writer) = 1" "pq_started (stop_writer sample_writer)" "pq_connected (stop_writer sample_writer)"
    "pq_place (stop_writer sample_writer) \<notin> {At_Open_Wait, At_Exit, Gone, Not_Started}"
    using sample_writer_state by (simp_all add: f)
  show "wa_commit fine = Commit_Ok" by (simp add: fine_def)
qed

text \<open>The tasks among the jobs.\<close>

fun tasks_of :: "'d job list \<Rightarrow> (string \<times> 'd task) list" where
  "tasks_of [] = []"
| "tasks_of (Job a u # js) = (a, u) # tasks_of js"
| "tasks_of (Flush_Signal n # js) = tasks_of js"

lemma exec_jobs: "fold (exec_job g) js t = fold (\<lambda>(a, u). exec_task g a u) (tasks_of js) t"
  by (induction js arbitrary: t rule: tasks_of.induct) simp_all

text \<open>
  C39: the row of an order is that of the last record of the order among the jobs committed since the file was begun; jobs
  about other orders, trades, positions, accounts and instruments do not touch it.
\<close>

theorem order_row_is_last:
  assumes "s = persist_run P g es (new_writer f)" "pq_file s = Some d" "map_of (tb_orders (pq_origin s)) k = None"
  shows "map_of (tb_orders (df_tables d)) k = map_option (\<lambda>r. bind_order r g) (last_order k None (map snd (tasks_of (pq_since s))))"
proof -
  have "tables_ok g s" using writer_tables.run_inv [OF tables_new] by (simp add: assms(1) persist_run_def)
  then have "df_tables d = fold (exec_job g) (pq_since s) (pq_origin s)" using assms(2) by (simp add: tables_ok_def)
  then show ?thesis using exec_orders [of "pq_origin s" k g None "tasks_of (pq_since s)"] assms(3) by (simp add: exec_jobs)
qed

lemma sample_writer_file:
  "map_option df_version (pq_file sample_writer) = Some 1 \<and> pq_origin sample_writer = no_rows \<and> tasks_of (pq_since sample_writer) = [(''a'', first_order)]"
  by (simp add: sample_writer_def flushed_run_def writer_defs sample_defs)

lemma order_row_is_last_witness:
  "map_of (tb_orders (df_tables (the (pq_file sample_writer)))) (''a'', ''20241004'', 5) = Some (bind_order (sample_order 5 2 3 1000 1) ''td'')"
proof -
  have "pq_file sample_writer = Some (the (pq_file sample_writer))" using sample_writer_file by (cases "pq_file sample_writer") auto
  from order_row_is_last [OF sample_writer_def this, of "(''a'', ''20241004'', 5)"] sample_writer_file
  show ?thesis by (simp add: no_rows_def first_order_def sample_order_def)
qed

section \<open>Flushes that are reported too early\<close>

text \<open>
  The thread ends with a batch it could not commit and forgets the signals in it; a caller that comes to wait only now finds
  its token unknown and is told that the jobs before it are in the database.
\<close>

definition late_wait :: "rat writer_event list" where
  "late_wait = [Ev_Open fine_open 0, Ev_Start, Ev_Task ''a'' first_order, Ev_Flush, Ev_Writer fine, Ev_Writer fine, Ev_Writer broken, Ev_Stop,
     Ev_Writer broken, Ev_Writer broken, Ev_Writer broken, Ev_Wait 1]"

lemma flush_after_exit:
  "map_of (pq_waits (persist_run sample_policy ''td'' late_wait (new_writer None))) 1 = Some (Some True) \<and>
   pq_committed (persist_run sample_policy ''td'' late_wait (new_writer None)) = []"
  by (simp add: late_wait_def writer_defs sample_defs keys_def)

text \<open>A flush asked for after the stop is reported at once, while the jobs before it are still in the queue.\<close>

lemma flush_while_stopping:
  "map_of (pq_waits (persist_run sample_policy ''td'' [Ev_Open fine_open 0, Ev_Start, Ev_Task ''a'' first_order, Ev_Stop, Ev_Flush, Ev_Wait 1] (new_writer None))) 1 =
     Some (Some True) \<and>
   pq_queue (persist_run sample_policy ''td'' [Ev_Open fine_open 0, Ev_Start, Ev_Task ''a'' first_order, Ev_Stop, Ev_Flush, Ev_Wait 1] (new_writer None)) =
     [Job ''a'' first_order]"
  by (simp add: writer_defs sample_defs)

end
