(* ===== verification/Td_Schema.thy ===== *)
theory Td_Schema
  imports Td_Tables
begin

text \<open>
  The declared schema of the trading database (\<open>libs/tdstore/src/schema_catalog.cpp\<close>) and the statements built from it.
  A statement is the list of its parts, not its text. The keys of \<open>Td_Tables\<close> are shown to be the declared ones.
\<close>

section \<open>Declarations\<close>

datatype column_type = Integer_Column | Real_Column | Text_Column

record column_schema =
  cl_name :: string
  cl_type :: column_type
  cl_not_null :: bool
  cl_primary_key :: bool
  cl_default :: string
  cl_internal :: bool

record index_schema =
  ix_name :: string
  ix_columns :: "string list"
  ix_unique :: bool

record table_schema =
  ts_name :: string
  ts_columns :: "column_schema list"
  ts_indexes :: "index_schema list"
  ts_expressions :: "string list"

definition col :: "string \<Rightarrow> column_type \<Rightarrow> bool \<Rightarrow> bool \<Rightarrow> string \<Rightarrow> bool \<Rightarrow> column_schema" where
  "col n t nn pk d i = \<lparr>cl_name = n, cl_type = t, cl_not_null = nn, cl_primary_key = pk, cl_default = d, cl_internal = i\<rparr>"

text \<open>A text in single quotes.\<close>

definition q1 :: "string \<Rightarrow> string" where
  "q1 s = CHR 0x27 # s @ [CHR 0x27]"

definition orders_columns :: "column_schema list" where
  "orders_columns =
     [col ''account_id'' Text_Column True False [] False,
      col ''date'' Text_Column True False [] False,
      col ''order_id'' Integer_Column True False [] False,
      col ''strategy_id'' Text_Column False False [] False,
      col ''instrument_id'' Text_Column True False [] False,
      col ''exchange_id'' Text_Column True False [] False,
      col ''direction'' Text_Column False False [] False,
      col ''position_effect'' Text_Column False False [] False,
      col ''price_type'' Text_Column False False [] False,
      col ''status'' Text_Column False False [] False,
      col ''price'' Real_Column False False [] False,
      col ''volume'' Integer_Column False False [] False,
      col ''volume_traded'' Integer_Column False False [] False,
      col ''remark'' Text_Column False False [] False,
      col ''time'' Integer_Column False False [] False,
      col ''avg_price'' Real_Column False False ''0'' False,
      col ''seq'' Integer_Column True False [] False,
      col ''gateway'' Text_Column True False [] True,
      col ''ext'' Text_Column False False (q1 ''{}'') True]"

definition orders_indexes :: "index_schema list" where
  "orders_indexes =
     [\<lparr>ix_name = ''uq_orders_key'', ix_columns = [''account_id'', ''date'', ''order_id''], ix_unique = True\<rparr>,
      \<lparr>ix_name = ''idx_orders_order_id'', ix_columns = [''order_id''], ix_unique = False\<rparr>,
      \<lparr>ix_name = ''idx_orders_acct_seq'', ix_columns = [''account_id'', ''seq''], ix_unique = False\<rparr>,
      \<lparr>ix_name = ''idx_orders_account_date'', ix_columns = [''account_id'', ''date''], ix_unique = False\<rparr>]"

definition orders_schema :: table_schema where
  "orders_schema = \<lparr>ts_name = ''orders'', ts_columns = orders_columns, ts_indexes = orders_indexes, ts_expressions = [''idx_orders_sort'']\<rparr>"

definition trades_columns :: "column_schema list" where
  "trades_columns =
     [col ''account_id'' Text_Column True False [] False,
      col ''date'' Text_Column True False [] False,
      col ''trade_id'' Text_Column True False [] False,
      col ''order_id'' Integer_Column True False [] False,
      col ''strategy_id'' Text_Column False False [] False,
      col ''instrument_id'' Text_Column True False [] False,
      col ''exchange_id'' Text_Column True False [] False,
      col ''direction'' Text_Column False False [] False,
      col ''position_effect'' Text_Column False False [] False,
      col ''price'' Real_Column True False [] False,
      col ''volume'' Integer_Column True False [] False,
      col ''time'' Integer_Column False False [] False,
      col ''seq'' Integer_Column True False [] False,
      col ''gateway'' Text_Column True False [] True,
      col ''ext'' Text_Column False False (q1 ''{}'') True]"

definition trades_indexes :: "index_schema list" where
  "trades_indexes =
     [\<lparr>ix_name = ''uq_trades_key'', ix_columns = [''account_id'', ''date'', ''exchange_id'', ''trade_id''], ix_unique = True\<rparr>,
      \<lparr>ix_name = ''idx_trades_acct_seq'', ix_columns = [''account_id'', ''seq''], ix_unique = False\<rparr>,
      \<lparr>ix_name = ''idx_trades_account_date'', ix_columns = [''account_id'', ''date''], ix_unique = False\<rparr>,
      \<lparr>ix_name = ''idx_trades_date_instr'', ix_columns = [''date'', ''instrument_id''], ix_unique = False\<rparr>]"

definition trades_schema :: table_schema where
  "trades_schema = \<lparr>ts_name = ''trades'', ts_columns = trades_columns, ts_indexes = trades_indexes, ts_expressions = [''idx_trades_sort'']\<rparr>"

definition positions_columns :: "column_schema list" where
  "positions_columns =
     [col ''account_id'' Text_Column True False [] False,
      col ''date'' Text_Column True False [] False,
      col ''instrument_id'' Text_Column True False [] False,
      col ''exchange_id'' Text_Column True False [] False,
      col ''direction'' Text_Column True False [] False,
      col ''volume'' Integer_Column False False [] False,
      col ''frozen_volume'' Integer_Column False False [] False,
      col ''today_volume'' Integer_Column False False [] False,
      col ''yd_volume'' Integer_Column False False [] False,
      col ''price'' Real_Column False False [] False,
      col ''seq'' Integer_Column True False [] False,
      col ''gateway'' Text_Column True False [] True,
      col ''ext'' Text_Column False False (q1 ''{}'') True]"

definition positions_indexes :: "index_schema list" where
  "positions_indexes =
     [\<lparr>ix_name = ''uq_positions_key'', ix_columns = [''account_id'', ''date'', ''instrument_id'', ''direction''], ix_unique = True\<rparr>,
      \<lparr>ix_name = ''idx_positions_acct_seq'', ix_columns = [''account_id'', ''seq''], ix_unique = False\<rparr>,
      \<lparr>ix_name = ''idx_positions_account_date'', ix_columns = [''account_id'', ''date''], ix_unique = False\<rparr>,
      \<lparr>ix_name = ''idx_positions_date_instr'', ix_columns = [''date'', ''instrument_id''], ix_unique = False\<rparr>]"

definition positions_schema :: table_schema where
  "positions_schema = \<lparr>ts_name = ''positions'', ts_columns = positions_columns, ts_indexes = positions_indexes, ts_expressions = []\<rparr>"

definition trading_accounts_columns :: "column_schema list" where
  "trading_accounts_columns =
     [col ''account_id'' Text_Column True True [] False,
      col ''date'' Text_Column True True [] False,
      col ''balance'' Real_Column False False [] False,
      col ''available'' Real_Column False False [] False,
      col ''frozen'' Real_Column False False [] False,
      col ''commission'' Real_Column False False [] False,
      col ''margin'' Real_Column False False [] False,
      col ''withdraw_quota'' Real_Column False False [] False,
      col ''deposit'' Real_Column False False [] False,
      col ''withdraw'' Real_Column False False [] False,
      col ''seq'' Integer_Column True False [] False,
      col ''gateway'' Text_Column True False [] True,
      col ''ext'' Text_Column False False (q1 ''{}'') True]"

definition trading_accounts_indexes :: "index_schema list" where
  "trading_accounts_indexes =
     [\<lparr>ix_name = ''idx_taccount_acct_seq'', ix_columns = [''account_id'', ''seq''], ix_unique = False\<rparr>,
      \<lparr>ix_name = ''idx_taccount_account_date'', ix_columns = [''account_id'', ''date''], ix_unique = False\<rparr>]"

definition trading_accounts_schema :: table_schema where
  "trading_accounts_schema = \<lparr>ts_name = ''trading_accounts'', ts_columns = trading_accounts_columns, ts_indexes = trading_accounts_indexes, ts_expressions = []\<rparr>"

definition instruments_columns :: "column_schema list" where
  "instruments_columns =
     [col ''instrument_id'' Text_Column True True [] False,
      col ''exchange_id'' Text_Column True False [] False,
      col ''symbol'' Text_Column True False (q1 '''') False,
      col ''name'' Text_Column False False [] False,
      col ''product_class'' Integer_Column True False ''0'' False,
      col ''settle_cycle'' Integer_Column True False ''-1'' False,
      col ''settlement_method'' Integer_Column True False ''0'' False,
      col ''is_inverse'' Integer_Column True False ''0'' False,
      col ''currency'' Text_Column True False (q1 '''') False,
      col ''base_asset'' Text_Column True False (q1 '''') False,
      col ''min_limit_order_volume'' Integer_Column True False ''0'' False,
      col ''max_limit_order_volume'' Integer_Column True False ''0'' False,
      col ''volume_multiple'' Real_Column True False ''0'' False,
      col ''price_tick'' Real_Column True False ''0'' False,
      col ''volume_step'' Real_Column True False ''1'' False,
      col ''listed_date'' Integer_Column True False ''0'' False,
      col ''delisted_date'' Integer_Column True False ''0'' False,
      col ''option_type'' Integer_Column True False ''0'' False,
      col ''option_exercise_style'' Integer_Column True False ''0'' False,
      col ''underlying_id'' Text_Column True False (q1 '''') False,
      col ''option_strike'' Real_Column True False ''0'' False,
      col ''option_series'' Text_Column True False (q1 '''') False,
      col ''update_day'' Text_Column False False [] False,
      col ''product_code'' Text_Column True False (q1 '''') False,
      col ''min_market_order_volume'' Integer_Column True False ''0'' False,
      col ''max_market_order_volume'' Integer_Column True False ''0'' False,
      col ''underlying_multiple'' Real_Column True False ''0'' False,
      col ''updated_at'' Integer_Column True False ''0'' False]"

definition instruments_schema :: table_schema where
  "instruments_schema = \<lparr>ts_name = ''instruments'', ts_columns = instruments_columns, ts_indexes = [], ts_expressions = []\<rparr>"

definition schema_tables :: "table_schema list" where
  "schema_tables = [orders_schema, trades_schema, positions_schema, trading_accounts_schema, instruments_schema]"

section \<open>Statements\<close>

text \<open>One primary key column is declared in its place, several in a clause of their own.\<close>

record create_table =
  ct_table :: string
  ct_columns :: "(string \<times> column_type \<times> bool \<times> bool \<times> string) list"
  ct_primary_key :: "string list"

definition primary_keys :: "table_schema \<Rightarrow> string list" where
  "primary_keys t = map cl_name (filter cl_primary_key (ts_columns t))"

definition build_create_table :: "table_schema \<Rightarrow> create_table" where
  "build_create_table t =
     (let pk = primary_keys t; one = (length pk = 1)
      in \<lparr>ct_table = ts_name t,
          ct_columns = map (\<lambda>c. (cl_name c, cl_type c, one \<and> cl_primary_key c, cl_not_null c, cl_default c)) (ts_columns t),
          ct_primary_key = (if one then [] else pk)\<rparr>)"

definition business_key_columns :: "table_schema \<Rightarrow> string list" where
  "business_key_columns t =
     (if list_ex cl_primary_key (ts_columns t) then primary_keys t
      else case filter ix_unique (ts_indexes t) of [] \<Rightarrow> [] | i # is \<Rightarrow> ix_columns i)"

text \<open>\<open>None\<close> is the exception: an internal column before a visible one.\<close>

definition strategy_visible_columns :: "table_schema \<Rightarrow> column_schema list option" where
  "strategy_visible_columns t =
     (let visible = takeWhile (\<lambda>c. \<not> cl_internal c) (ts_columns t); rest = dropWhile (\<lambda>c. \<not> cl_internal c) (ts_columns t)
      in if list_all cl_internal rest then Some visible else None)"

datatype on_conflict = Plain_Insert | Do_Nothing "string list" | Do_Update "string list" "string list"

record upsert =
  us_table :: string
  us_columns :: "string list"
  us_conflict :: on_conflict

definition build_upsert :: "table_schema \<Rightarrow> upsert" where
  "build_upsert t =
     (let key = business_key_columns t; names = map cl_name (ts_columns t)
      in \<lparr>us_table = ts_name t, us_columns = names,
          us_conflict = (if key = [] then Plain_Insert else if length key = length names then Do_Nothing key
                         else Do_Update key (filter (\<lambda>n. n \<notin> set key) names))\<rparr>)"

section \<open>The declared keys\<close>

lemmas schema_defs = schema_tables_def orders_schema_def trades_schema_def positions_schema_def trading_accounts_schema_def instruments_schema_def
  orders_columns_def trades_columns_def positions_columns_def trading_accounts_columns_def instruments_columns_def
  orders_indexes_def trades_indexes_def positions_indexes_def trading_accounts_indexes_def col_def

text \<open>
  Every upsert is an update by the key that the table declares unique, and sets each of the other columns; so an upsert
  replaces the row of its key as a whole, as \<open>Td_Tables\<close> has it.
\<close>

definition replaces_row :: "table_schema \<Rightarrow> bool" where
  "replaces_row t \<longleftrightarrow>
     (case us_conflict (build_upsert t) of
        Do_Update key rest \<Rightarrow> distinct (map cl_name (ts_columns t)) \<and> set key \<union> set rest = set (map cl_name (ts_columns t)) \<and>
          set key \<inter> set rest = {} \<and> (key = primary_keys t \<or> key \<in> set (map ix_columns (filter ix_unique (ts_indexes t))))
      | _ \<Rightarrow> False)"

lemma upserts_replace: "list_all replaces_row schema_tables"
  by (simp add: schema_defs replaces_row_def build_upsert_def business_key_columns_def primary_keys_def Let_def) auto

lemma declared_keys:
  "map business_key_columns schema_tables =
     [[''account_id'', ''date'', ''order_id''], [''account_id'', ''date'', ''exchange_id'', ''trade_id''],
      [''account_id'', ''date'', ''instrument_id'', ''direction''], [''account_id'', ''date''], [''instrument_id'']]"
  by (simp add: schema_defs business_key_columns_def primary_keys_def)

lemma internal_hidden:
  "list_all (\<lambda>t. case strategy_visible_columns t of
     None \<Rightarrow> False | Some cs \<Rightarrow> list_all (\<lambda>c. cl_name c \<noteq> ''gateway'' \<and> cl_name c \<noteq> ''ext'') cs) schema_tables"
  by (simp add: schema_defs strategy_visible_columns_def Let_def)

end
