(* ===== verification/Spec2Isabelle.thy ===== *)
theory Spec2Isabelle
  imports Td_Offset Shm_Ext Strategy_Timers Timer_Queue Td_State Md_State Td_Ready Md_System Master_Props Bar_Trading Bar_Daily Td_Persist_Props Td_Schema
begin

text \<open>
  dztrader is a trading platform of cooperating processes. A master (\<open>src/apps/master\<close>) starts and stops the
  others, a market data gateway (\<open>src/apps/ctp/md\<close>) and trading gateways (\<open>src/apps/ctp/td\<close>) connect to the
  broker's CTP library, strategies run in processes of their own over the strategy SDK
  (\<open>src/libs/strategy_api\<close>). They talk through channels in shared memory (\<open>src/libs/shm\<close>): one process appends
  frames, any number of others read them. This development models the C++ code of these parts that decides
  something, function by function, and proves what the parts promise.

  \<^bold>\<open>How the parts interact.\<close> A frame written by \<open>Shm_Writer\<close> is what every \<open>Shm_Reader\<close> of the channel gets. A
  strategy's order request reaches the trading gateway as a frame, is split by \<open>Td_Offset\<close> over the position of
  \<open>Td_Position\<close> and sent to CTP by the session of \<open>Td_Session\<close>, whose reports go back through the channel and
  into the database. Contracts that strategies ask for are subscribed by \<open>Md_Gateway\<close> through the bookkeeping of
  \<open>Md_Subscriptions\<close>; ticks come back through a channel that the master of \<open>Master_Frames\<close> announced and a
  bar strategy turns them into bars (\<open>Bar_Builder\<close>), calls the user's code (\<open>Bar_Node\<close>) and trades for all
  attached accounts (\<open>Bar_Context\<close>). The operator changes a running strategy by commands (\<open>Bar_Manager\<close>).

  \<^bold>\<open>The theories, by part.\<close>

  \<^item> Shared vocabulary: \<open>Dz_Prelude\<close> (integers at their width, the interface to floating point, lists,
    association lists, the locale \<open>invariant_run\<close> of invariants carried along runs), \<open>Dz_Structs\<close> (the structs of
    the protocol), \<open>Dz_Text\<close> (decimal numbers and texts of fixed size).
  \<^item> Channels, \<open>src/libs/shm\<close>: \<open>Shm_Store\<close> (\<open>page.cpp\<close>, \<open>page_pool.cpp\<close>: page files, mappings), \<open>Shm_Frames\<close> (the bytes
    of a frame), \<open>Shm_Writer\<close> (\<open>writer.h\<close>), \<open>Shm_Reader\<close> (\<open>reader.cpp\<close>), \<open>Shm_Meta\<close> (\<open>channel_meta.cpp\<close>,
    \<open>page_cleaner.cpp\<close>), \<open>Shm_Channel\<close> (all processes of a channel interleaved in any order, deaths included),
    \<open>Shm_Delivery\<close> (what the channel guarantees), \<open>Shm_Open\<close> (creating and reopening), \<open>Shm_Ext\<close> (frames of variable
    length).
  \<^item> Timers: \<open>Timer_Heap\<close> and \<open>Strategy_Timers\<close> (\<open>timer_heap.h\<close>, \<open>strategy_context.h\<close>, the calls in \<open>api.cpp\<close> of the
    SDK), \<open>Timer_Queue\<close> (\<open>src/libs/core/src/timer_queue.cpp\<close>, used by the servers).
  \<^item> Trading gateway, \<open>src/apps/ctp/td\<close>: \<open>Td_Position\<close>, \<open>Td_Offset\<close>, \<open>Td_State\<close>, \<open>Td_Report_Filter\<close>, \<open>Td_Refs\<close>
    (order references, login phases, risk gate), \<open>Td_Mapping\<close>, \<open>Td_Day_Load\<close> (database rows), and the account
    session \<open>td_account_session.cpp\<close> in \<open>Td_Session\<close> (reports), \<open>Td_Login\<close> (connection, login, orders) and
    \<open>Td_Session_Steps\<close> (the handlers and the runs); \<open>Td_Session_Run\<close>, \<open>Td_Session_Props\<close>, \<open>Td_Session_Facts\<close> and
    \<open>Td_Ready\<close> hold the proofs. What a session queues for the database is written by \<open>Td_Persist\<close>
    (\<open>td_persist_writer.cpp\<close>) to the tables of \<open>Td_Tables\<close>, whose keys are those of \<open>Td_Schema\<close>
    (\<open>src/libs/tdstore\<close>); \<open>Td_Persist_Facts\<close> and \<open>Td_Persist_Props\<close> hold the proofs.
  \<^item> Market data gateway, \<open>src/apps/ctp/md\<close>: \<open>Md_State\<close>, \<open>Md_Subscriptions\<close>
    (\<open>src/libs/platform/src/subscription_manager.cpp\<close>), \<open>Md_Gateway\<close> (connection, schedule, batches), \<open>Md_Served\<close> and
    \<open>Md_System\<close> (the gateway together with the subscriptions kept at CTP).
  \<^item> Master, \<open>src/apps/master\<close>: \<open>Master_State\<close> (registry, configuration, channels, readers), \<open>Master_Supervisor\<close>
    (processes, restarts, shutdown), \<open>Master_Frames\<close> (frames, start of everything, the event loop);
    \<open>Master_Shutdown\<close>, \<open>Master_Closing\<close>, \<open>Master_Ends\<close>, \<open>Master_Restarts\<close> and \<open>Master_Props\<close> hold the proofs.
  \<^item> Bars, \<open>src/libs/strategy_api/include/dztrader/bar\<close>: \<open>Bar_Builder\<close> (sessions, auctions, intraday bars), \<open>Bar_Facts\<close>,
    \<open>Bar_Props\<close>, \<open>Bar_Daily\<close>.
  \<^item> Bar strategies, \<open>bar_strategy\<close> beside it: \<open>Bar_Ledger\<close> (\<open>position.h\<close>, \<open>scaling.h\<close>, \<open>execution.h\<close>), \<open>Bar_Window\<close>
    (\<open>series.h\<close> and the storage in \<open>context.h\<close>), \<open>Bar_View\<close> (its refinement), \<open>Bar_Context\<close> (\<open>context.h\<close>),
    \<open>Bar_Account\<close> (what accounts see of it), \<open>Bar_Node\<close> (the instrument with its strategy, replay), \<open>Bar_Config\<close>
    (\<open>config.h\<close>, \<open>config_file.h\<close>), \<open>Bar_Command\<close> (\<open>command.h\<close>), \<open>Bar_Manager\<close> (\<open>manager.h\<close>), \<open>Bar_Runs\<close> (start and
    then anything); \<open>Bar_Node_Facts\<close>, \<open>Bar_Gate\<close>, \<open>Bar_Config_Facts\<close>, \<open>Bar_File\<close>, \<open>Bar_Manager_Facts\<close>, \<open>Bar_Reports\<close> and
    \<open>Bar_Trading\<close> hold the proofs.
\<close>

text \<open>
  \<^bold>\<open>State and operations.\<close> A class is a record with a field per member, a function of the code is a function
  from its arguments and the state to the new state and what it returns or sends, and keeps its name where
  that is possible. Frames, callbacks, orders, reports and rows that leave a process are values in lists, in
  the order in which the code produces them. Early returns and exceptions are branches: an option, a sum with
  an error datatype, or a flag beside the state when an exception leaves a changed state behind. Texts with
  a fixed wording are constructors, other texts are character lists (bytes of UTF-8). Unordered maps are
  association lists; where the order of a map shows, the list is kept in that order.

  \<^bold>\<open>What is a parameter.\<close> Floating point is a record of operations, \<open>fp\<close> or \<open>fpx\<close>: a theorem assumes of it no more
  than that \<open><\<close> is a strict order, and samples use rational numbers. What the operating system, the
  clocks, the CTP library, the database, the SDK and the file system answer is taken from an environment that
  may answer differently each time, failures included; the user's strategy is a function from what it can see
  to the requests it makes, its new state and whether it throws. Hypotheses about CTP (requests that were
  accepted are served and answered in order, a lost session ends its subscriptions) are spelled out in
  \<open>Md_System\<close>.

  \<^bold>\<open>Integers.\<close> They are \<open>int\<close> or \<open>nat\<close> with every conversion of the code written out (\<open>u32\<close>, \<open>u64\<close> and their signed
  companions in \<open>Dz_Prelude\<close>); saturating and refusing arithmetic is modelled as such (\<open>saturating_delta\<close>,
  \<open>order_volume\<close>). Sums that could overflow only after more volume, ticks or bars than 63 bits count are exact.

  \<^bold>\<open>Loops.\<close> Loops over data are recursions on it. The loops of the reader, of the timer tick of the SDK and of
  the timer queue may run for ever in principle; they are \<open>partial_function\<close> and the claims that they return
  (\<open>channel_delivers\<close> and the lemmas \<open>tick_returns\<close> and \<open>tick_ends\<close>) are part of the development. The one bounded search,
  \<open>first_period\<close>, has the number of seconds of a day as fuel, and a day is a solution. The shutdown of the master
  needs one round per kind of process (\<open>shutdown_ends\<close>).

  \<^bold>\<open>What the lemmas show.\<close>

  \<^item> Channels: first in, first out, to every reader, under any interleaving and with deaths at any point; reads
    return; the lock is where it belongs; the cleaner removes nothing that is needed; the check at start-up
    never complains about a sound channel; what a write leaves between two positions is its frame. The invariant of \<open>Shm_Channel\<close> is one lemma per step.
  \<^item> Trading: positions stay non-negative and freeze no more than there is; split orders add up; numbers grow,
    a trade is stored and announced as new once between two logins; an account turns ready only after the buffered
    reports were handled and the flush was waited for, and gets there on its own timers if CTP answers no query but
    stops throttling. The writer of the database commits in order and once, reports a flush only after the commit,
    and drains its queue when it is stopped.
  \<^item> Market data: what the gateway believes to be subscribed is served, or a request for it is under way.
  \<^item> Master: one process per name, shutdown in the order of dependencies, ending, completion signalled once.
  \<^item> Timers: a one-shot fires once; a tick runs what is due by deadline, whatever its callbacks do to the queue.
  \<^item> Bars: events bracketed and, for tables whose auctions are in order, bars in time order; volumes conserved, bars
    well-formed; daily bars are what the accepted ticks say.
  \<^item> Bar strategies: the window refines lists, read by index and as a span; the ledger is consistent; orders follow the position; the last
    report of every account is right after any run of ticks and commands; the document
    of the file, read back, gives the accounts and parameters in memory; a refused
    command changes nothing; starts and replays are silent. Two locales, \<open>callbacks\<close> and \<open>respected\<close>, carry a
    relation over everything a node does once its few laws hold; \<open>Bar_Node_Facts\<close> interprets them four times.

  Lemmas that are named in no property but stand under a heading of their own show runs in which the code
  does something else than its comments say, for instance \<open>second_stop_never_kills\<close>, \<open>leaked_subscription\<close>,
  \<open>external_mark_lost\<close>, \<open>ref_lost_by_relocation\<close> and \<open>crossed_auction_goes_back\<close>.

  \<^bold>\<open>Not modelled.\<close> The web interface and its front end, the system monitor, logging and notification, the loaders of
  the global configuration files and the database drivers are input and output over vendored libraries. Of the
  gateways, the main programs, the hand-over between the threads of CTP and their own, and the text of SQL and JSON
  are left out; of the master, the periodic cleaning and the log settings; of bar strategies, the diagnostics
  on the error stream with the counters they show, the archive loaders and the typed reading of parameters.
  Concurrency is modelled as interleaving of the operations of the code; the order of memory accesses within
  one operation is not.
\<close>

end
